(* ===== verification/Go_Base.thy ===== *)
theory Go_Base
  imports Main "HOL-Library.Char_ord" "HOL-Library.List_Lexorder"
begin

text \<open>
  Prelude of the development: the Go types and library routines that every
  component uses, the named collections of facts, the reachability relation of
  the state machines and the locale of an inductive invariant that all of them
  interpret.

  \<^item> A Go \<open>string\<close> is a \<open>string\<close> (list of bytes), compared bytewise as Go does.
  \<^item> A Go \<open>int\<close>/\<open>int64\<close> is an \<open>int\<close>; where a computation can leave the 64 bit
    range the wrap-around is written with \<open>i64\<close>.
  \<^item> A \<open>time.Time\<close> is the \<open>int\<close> number of nanoseconds since Go's zero time, so
    \<open>IsZero\<close> is \<open>t = 0\<close>; \<open>Sub\<close> saturates as in package time.
  \<^item> A \<open>*T\<close> that may be nil is a \<open>'a option\<close>.
\<close>

section \<open>Collections of facts\<close>

named_theorems go_defs \<open>unfoldings of small library routines\<close>
named_theorems inv_intros \<open>operations preserve an invariant\<close>

section \<open>64 bit integers\<close>

definition max_int64 :: int where
  "max_int64 = 2 ^ 63 - 1"

definition min_int64 :: int where
  "min_int64 = - (2 ^ 63)"

definition i64 :: "int \<Rightarrow> int" where
  "i64 x = (x + 2 ^ 63) mod 2 ^ 64 - 2 ^ 63"

definition is_int64 :: "int \<Rightarrow> bool" where
  "is_int64 x \<longleftrightarrow> min_int64 \<le> x \<and> x \<le> max_int64"

lemma i64_id [simp]: "is_int64 x \<Longrightarrow> i64 x = x"
  by (simp add: is_int64_def min_int64_def max_int64_def i64_def)

lemma i64_range: "is_int64 (i64 x)"
proof -
  have "0 \<le> (x + 2 ^ 63) mod 2 ^ 64" and "(x + 2 ^ 63) mod 2 ^ 64 < (2::int) ^ 64"
    by simp_all
  then show ?thesis by (simp add: is_int64_def min_int64_def max_int64_def i64_def)
qed

lemma is_int64_nonneg: "0 \<le> x \<Longrightarrow> x \<le> max_int64 \<Longrightarrow> is_int64 x"
  by (simp add: is_int64_def min_int64_def max_int64_def)

text \<open>Go's integer division truncates towards zero.\<close>

definition go_div :: "int \<Rightarrow> int \<Rightarrow> int" where
  "go_div a b = sgn a * sgn b * (\<bar>a\<bar> div \<bar>b\<bar>)"

lemma go_div_pos [simp]: "0 \<le> a \<Longrightarrow> 0 < b \<Longrightarrow> go_div a b = a div b"
  by (cases "a = 0") (simp_all add: go_div_def)

section \<open>Time\<close>

type_synonym time = int
type_synonym duration = int

definition nanos_per_ms :: int where "nanos_per_ms = 1000000"
definition second :: duration where "second = 1000000000"
definition minute :: duration where "minute = 60 * second"
definition hour :: duration where "hour = 60 * minute"

lemmas duration_defs = second_def minute_def hour_def nanos_per_ms_def

definition time_is_zero :: "time \<Rightarrow> bool" where
  "time_is_zero t \<longleftrightarrow> t = 0"

definition time_sub :: "time \<Rightarrow> time \<Rightarrow> duration" where
  "time_sub t u = max min_int64 (min max_int64 (t - u))"

definition unix_epoch :: time where
  "unix_epoch = 62135596800 * 1000000000"

definition unix_milli :: "time \<Rightarrow> int" where
  "unix_milli t = (t - unix_epoch) div nanos_per_ms"

definition time_of_unix_milli :: "int \<Rightarrow> time" where
  "time_of_unix_milli ms = unix_epoch + ms * nanos_per_ms"

lemma time_sub_ge_iff: "is_int64 d \<Longrightarrow> min_int64 < d \<Longrightarrow> d \<le> time_sub t u \<longleftrightarrow> d \<le> t - u"
  by (auto simp: time_sub_def is_int64_def)

lemma time_sub_le_iff: "is_int64 d \<Longrightarrow> d < max_int64 \<Longrightarrow> time_sub t u \<le> d \<longleftrightarrow> t - u \<le> d"
  by (auto simp: time_sub_def is_int64_def)

lemma time_sub_self [simp]: "time_sub t t = 0"
  by (simp add: time_sub_def min_int64_def max_int64_def)

lemma unix_milli_mono: "t \<le> u \<Longrightarrow> unix_milli t \<le> unix_milli u"
  by (simp add: unix_milli_def nanos_per_ms_def zdiv_mono1)

lemma unix_milli_of_unix_milli [simp]: "unix_milli (time_of_unix_milli ms) = ms"
  by (simp add: unix_milli_def time_of_unix_milli_def nanos_per_ms_def)

section \<open>Lists without duplicates\<close>

text \<open>The ubiquitous \<open>seen\<close> map idiom: keep the first occurrence, in order.\<close>

fun dedup_from :: "'a list \<Rightarrow> 'a list \<Rightarrow> 'a list" where
  "dedup_from seen [] = []"
| "dedup_from seen (x # xs) =
     (if x \<in> set seen then dedup_from seen xs else x # dedup_from (x # seen) xs)"

definition dedup :: "'a list \<Rightarrow> 'a list" where
  "dedup xs = dedup_from [] xs"

lemma set_dedup_from: "set (dedup_from seen xs) = set xs - set seen"
  by (induction xs arbitrary: seen) auto

lemma distinct_dedup_from: "distinct (dedup_from seen xs)"
  by (induction xs arbitrary: seen) (auto simp: set_dedup_from)

lemma set_dedup [simp]: "set (dedup xs) = set xs"
  by (simp add: dedup_def set_dedup_from)

lemma distinct_dedup [simp]: "distinct (dedup xs)"
  by (simp add: dedup_def distinct_dedup_from)

lemma dedup_from_distinct_id: "distinct xs \<Longrightarrow> set xs \<inter> set seen = {} \<Longrightarrow> dedup_from seen xs = xs"
  by (induction xs arbitrary: seen) auto

lemma dedup_id [simp]: "distinct xs \<Longrightarrow> dedup xs = xs"
  by (simp add: dedup_def dedup_from_distinct_id)

lemma length_dedup_from: "length (dedup_from seen xs) \<le> length xs"
  by (induction xs arbitrary: seen) (auto intro: le_SucI)

lemma length_dedup: "length (dedup xs) \<le> length xs"
  by (simp add: dedup_def length_dedup_from)

lemma dedup_subset_filter: "set (filter P (dedup xs)) = {x \<in> set xs. P x}"
  by simp

text \<open>\<open>sort.Strings\<close> or \<open>sort.Ints\<close> after a \<open>seen\<close> map: the canonical list of a set.\<close>

definition sorted_unique :: "'a::linorder list \<Rightarrow> 'a list" where
  "sorted_unique xs = sort (dedup xs)"

lemma set_sorted_unique [simp]: "set (sorted_unique xs) = set xs"
  by (simp add: sorted_unique_def)

lemma distinct_sorted_unique [simp]: "distinct (sorted_unique xs)"
  by (simp add: sorted_unique_def)

lemma sorted_sorted_unique [simp]: "sorted (sorted_unique xs)"
  by (simp add: sorted_unique_def)

lemma sorted_unique_eq_iff: "sorted_unique xs = sorted_unique ys \<longleftrightarrow> set xs = set ys"
proof
  assume "sorted_unique xs = sorted_unique ys"
  then show "set xs = set ys" by (metis set_sorted_unique)
next
  assume "set xs = set ys"
  then show "sorted_unique xs = sorted_unique ys"
    by (intro sorted_distinct_set_unique) auto
qed

lemma sorted_unique_idem [simp]: "sorted_unique (sorted_unique xs) = sorted_unique xs"
  by (simp add: sorted_unique_eq_iff)

text \<open>Keep the last \<open>n\<close> elements: Go's \<open>xs[len(xs)-n:]\<close> behind a length guard.\<close>

definition keep_last :: "nat \<Rightarrow> 'a list \<Rightarrow> 'a list" where
  "keep_last n xs = (if n < length xs then drop (length xs - n) xs else xs)"

lemma length_keep_last: "length (keep_last n xs) \<le> n"
  by (simp add: keep_last_def)

lemma set_keep_last: "set (keep_last n xs) \<subseteq> set xs"
  by (auto simp: keep_last_def dest: in_set_dropD)

lemma sorted_keep_last: "sorted_wrt R xs \<Longrightarrow> sorted_wrt R (keep_last n xs)"
  by (simp add: keep_last_def sorted_wrt_drop)

lemma keep_last_id [simp]: "length xs \<le> n \<Longrightarrow> keep_last n xs = xs"
  by (simp add: keep_last_def)

lemma keep_last_keeps_largest:
  assumes "sorted_wrt (<) (map f xs)" and "x \<in> set (keep_last n xs)"
    and "y \<in> set xs" and "f x < (f y :: 'b :: linorder)"
  shows "y \<in> set (keep_last n xs)"
proof (cases "n < length xs")
  case True
  define k where "k = length xs - n"
  have split: "xs = take k xs @ drop k xs" by simp
  have drop: "keep_last n xs = drop k xs" using True by (simp add: keep_last_def k_def)
  have less: "f a < f b" if "a \<in> set (take k xs)" "b \<in> set (drop k xs)" for a b
    using assms(1) that split by (metis sorted_wrt_append sorted_wrt_map)
  have "y \<in> set (take k xs) \<or> y \<in> set (drop k xs)"
    using assms(3) split by (metis Un_iff set_append)
  then show ?thesis
    using less [of y x] assms(2,4) drop by force
next
  case False
  then show ?thesis using assms(3) by simp
qed

text \<open>\<open>appendUniqueString\<close> of \<open>connection_ownership.go\<close>, which several components use.\<close>

definition appendUniqueString :: "string list \<Rightarrow> string \<Rightarrow> string list" where
  "appendUniqueString values v = (if v \<in> set values then values else values @ [v])"

section \<open>Reachable states and invariants\<close>

inductive reach :: "('s \<Rightarrow> bool) \<Rightarrow> ('s \<Rightarrow> 's \<Rightarrow> bool) \<Rightarrow> 's \<Rightarrow> bool"
  for ini :: "'s \<Rightarrow> bool" and stp :: "'s \<Rightarrow> 's \<Rightarrow> bool" where
  reach_init: "ini s \<Longrightarrow> reach ini stp s"
| reach_step: "reach ini stp s \<Longrightarrow> stp s t \<Longrightarrow> reach ini stp t"

locale invariant_system =
  fixes ini :: "'s \<Rightarrow> bool"
    and stp :: "'s \<Rightarrow> 's \<Rightarrow> bool"
    and inv :: "'s \<Rightarrow> bool"
  assumes inv_init: "ini s \<Longrightarrow> inv s"
    and inv_step: "inv s \<Longrightarrow> stp s t \<Longrightarrow> inv t"
begin

lemma reach_inv: "reach ini stp s \<Longrightarrow> inv s"
  by (induction rule: reach.induct) (auto intro: inv_init inv_step)

lemma inv_reach_from: "inv s \<Longrightarrow> reach ((=) s) stp t \<Longrightarrow> inv t"
  by (rotate_tac 1, induction rule: reach.induct) (auto intro: inv_step)

end

end
