(* ===== verification/Go_Text.thy ===== *)
theory Go_Text
  imports Go_Base
begin

text \<open>
  The routines of packages strings, strconv and unicode/utf8 that the source
  calls. A string is its list of bytes. \<open>utf8_runes\<close> decodes bytes as a Go
  \<open>range\<close> loop does, with U+FFFD for each byte that starts no valid encoding.
  \<open>go_to_upper\<close> maps every letter whose upper case is ASCII (so also the
  dotless i and the long s); \<open>go_fold_ascii\<close> is the folding by which
  \<open>strings.EqualFold\<close> compares with an ASCII text (long s, Kelvin sign). The
  case of other non-ASCII letters is left alone.
\<close>

section \<open>Bytes\<close>

definition byte :: "char \<Rightarrow> nat" where
  "byte c = of_char c"

definition is_digit :: "char \<Rightarrow> bool" where
  "is_digit c \<longleftrightarrow> 48 \<le> byte c \<and> byte c \<le> 57"

definition is_lower :: "char \<Rightarrow> bool" where
  "is_lower c \<longleftrightarrow> 97 \<le> byte c \<and> byte c \<le> 122"

definition is_upper :: "char \<Rightarrow> bool" where
  "is_upper c \<longleftrightarrow> 65 \<le> byte c \<and> byte c \<le> 90"

definition is_alnum :: "char \<Rightarrow> bool" where
  "is_alnum c \<longleftrightarrow> is_digit c \<or> is_lower c \<or> is_upper c"

definition hex_value :: "char \<Rightarrow> nat option" where
  "hex_value c =
     (if is_digit c then Some (byte c - 48)
      else if 97 \<le> byte c \<and> byte c \<le> 102 then Some (byte c - 87)
      else if 65 \<le> byte c \<and> byte c \<le> 70 then Some (byte c - 55)
      else None)"

definition is_hex :: "char \<Rightarrow> bool" where
  "is_hex c \<longleftrightarrow> hex_value c \<noteq> None"

fun go_fold_ascii :: "string \<Rightarrow> string" where
  "go_fold_ascii [] = []"
| "go_fold_ascii (c # cs) =
     (case cs of
        d # ds \<Rightarrow>
          if byte c = 0xC5 \<and> byte d = 0xBF then CHR ''s'' # go_fold_ascii ds
          else if byte c = 0xE2 \<and> byte d = 0x84 \<and> ds \<noteq> [] \<and> byte (hd ds) = 0xAA then CHR ''k'' # go_fold_ascii (tl ds)
          else (if is_upper c then char_of (byte c + 32) else c) # go_fold_ascii cs
      | [] \<Rightarrow> [if is_upper c then char_of (byte c + 32) else c])"

section \<open>Package strings\<close>

definition has_prefix :: "string \<Rightarrow> string \<Rightarrow> bool" where
  "has_prefix s p \<longleftrightarrow> take (length p) s = p"

definition trim_prefix :: "string \<Rightarrow> string \<Rightarrow> string" where
  "trim_prefix s p = (if has_prefix s p then drop (length p) s else s)"

definition has_suffix :: "string \<Rightarrow> string \<Rightarrow> bool" where
  "has_suffix s p \<longleftrightarrow> length p \<le> length s \<and> drop (length s - length p) s = p"

definition trim_suffix :: "string \<Rightarrow> string \<Rightarrow> string" where
  "trim_suffix s p = (if has_suffix s p then take (length s - length p) s else s)"

fun go_split :: "char \<Rightarrow> string \<Rightarrow> string list" where
  "go_split c [] = [[]]"
| "go_split c (x # xs) =
     (if x = c then [] # go_split c xs
      else (case go_split c xs of [] \<Rightarrow> [[x]] | y # ys \<Rightarrow> (x # y) # ys))"

fun go_join :: "string \<Rightarrow> string list \<Rightarrow> string" where
  "go_join sep [] = []"
| "go_join sep [x] = x"
| "go_join sep (x # y # xs) = x @ sep @ go_join sep (y # xs)"

text \<open>\<open>strings.Cut\<close> at a one byte separator: before, after, found.\<close>

definition go_cut :: "string \<Rightarrow> char \<Rightarrow> string \<times> string \<times> bool" where
  "go_cut s c =
     (if c \<in> set s then (takeWhile (\<lambda>x. x \<noteq> c) s, tl (dropWhile (\<lambda>x. x \<noteq> c) s), True)
      else (s, [], False))"

fun str_index :: "string \<Rightarrow> string \<Rightarrow> nat option" where
  "str_index [] p = (if p = [] then Some 0 else None)"
| "str_index (x # xs) p =
     (if has_prefix (x # xs) p then Some 0 else map_option Suc (str_index xs p))"

definition str_contains :: "string \<Rightarrow> string \<Rightarrow> bool" where
  "str_contains s p \<longleftrightarrow> str_index s p \<noteq> None"

text \<open>\<open>strings.TrimSpace\<close>: the encodings of the white space runes.\<close>

definition space_encodings :: "nat list list" where
  "space_encodings =
     map (\<lambda>b. [b]) [9, 10, 11, 12, 13, 32] @
     [[194, 133], [194, 160], [225, 154, 128], [226, 128, 168], [226, 128, 169],
      [226, 128, 175], [226, 129, 159], [227, 128, 128]] @
     map (\<lambda>b. [226, 128, b]) [128..<139]"

fun trim_left_with :: "nat \<Rightarrow> nat list list \<Rightarrow> string \<Rightarrow> string" where
  "trim_left_with 0 es s = s"
| "trim_left_with (Suc n) es s =
     (case find (\<lambda>e. take (length e) (map byte s) = e) es of
        None \<Rightarrow> s
      | Some e \<Rightarrow> trim_left_with n es (drop (length e) s))"

definition trim_space :: "string \<Rightarrow> string" where
  "trim_space s =
     (let l = trim_left_with (length s) space_encodings s
      in rev (trim_left_with (length l) (map rev space_encodings) (rev l)))"

lemma has_prefix_append [simp]: "has_prefix (p @ s) p"
  by (simp add: has_prefix_def)

lemma trim_prefix_append [simp]: "trim_prefix (p @ s) p = s"
  by (simp add: trim_prefix_def)

lemma has_prefix_eq: "has_prefix s p \<Longrightarrow> s = p @ trim_prefix s p"
  by (metis append_take_drop_id has_prefix_def trim_prefix_def)

lemma has_prefix_iff: "has_prefix s p \<longleftrightarrow> (\<exists>t. s = p @ t)"
  by (metis has_prefix_append has_prefix_eq)

lemma go_split_not_Nil [simp]: "go_split c s \<noteq> []"
  by (induction s) (auto split: list.splits)

lemma go_split_join: "go_join [c] (go_split c s) = s"
proof (induction s)
  case (Cons x xs)
  then show ?case
    by (cases "go_split c xs" rule: remdups_adj.cases) (auto split: list.splits)
qed simp

lemma go_split_join_plain:
  assumes "es \<noteq> []" and "list_all (\<lambda>e. c \<notin> set e) es"
  shows "go_split c (go_join [c] es) = es"
proof -
  have split: "c \<notin> set x \<Longrightarrow> go_split c (x @ c # y) = x # go_split c y" for x y
    by (induction x) auto
  have single: "c \<notin> set x \<Longrightarrow> go_split c x = [x]" for x
    by (induction x) auto
  show ?thesis using assms
    by (induction "[c]" es rule: go_join.induct) (auto simp: split single)
qed

lemma go_split_no_sep: "p \<in> set (go_split c s) \<Longrightarrow> c \<notin> set p"
  by (induction s arbitrary: p) (auto split: list.splits if_splits)

section \<open>Package strconv\<close>

definition digit_char :: "nat \<Rightarrow> char" where
  "digit_char d = char_of (48 + d)"

function dec_digits :: "int \<Rightarrow> string" where
  "dec_digits n =
     (if n < 10 then [digit_char (nat n)] else dec_digits (n div 10) @ [digit_char (nat (n mod 10))])"
  by pat_completeness auto
termination by (relation "measure nat") auto

declare dec_digits.simps [simp del]

definition go_itoa :: "int \<Rightarrow> string" where
  "go_itoa i = (if i < 0 then CHR ''-'' # dec_digits (- i) else dec_digits i)"

definition digits_value :: "string \<Rightarrow> int" where
  "digits_value s = foldl (\<lambda>v c. v * 10 + (int (byte c) - 48)) 0 s"

definition unsigned_int :: "string \<Rightarrow> int option" where
  "unsigned_int s = (if s \<noteq> [] \<and> list_all is_digit s then Some (digits_value s) else None)"

text \<open>\<open>strconv.Atoi\<close> and \<open>ParseInt(s, 10, 64)\<close>: optional sign, digits, 64 bit range.\<close>

definition go_atoi :: "string \<Rightarrow> int option" where
  "go_atoi s =
     (let (neg, t) = (case s of
            c # cs \<Rightarrow> if c = CHR ''-'' then (True, cs) else if c = CHR ''+'' then (False, cs)
                      else (False, s)
          | [] \<Rightarrow> (False, []))
      in case unsigned_int t of
           None \<Rightarrow> None
         | Some v \<Rightarrow> let i = (if neg then - v else v)
                     in if is_int64 i then Some i else None)"

lemma of_char_char_of_lt: "n < 256 \<Longrightarrow> (of_char (char_of n :: char) :: nat) = n"
  by (simp add: of_char_of take_bit_eq_mod)

lemma byte_digit_char [simp]: "d < 10 \<Longrightarrow> byte (digit_char d) = 48 + d"
  by (simp add: byte_def digit_char_def of_char_char_of_lt)

lemma is_digit_digit_char [simp]: "d < 10 \<Longrightarrow> is_digit (digit_char d)"
  by (simp add: is_digit_def)

lemma dec_digits_digits: "0 \<le> n \<Longrightarrow> list_all is_digit (dec_digits n)"
proof (induction n rule: dec_digits.induct)
  case (1 n)
  then show ?case by (cases "n < 10") (simp_all add: dec_digits.simps [of n] nat_less_iff)
qed

lemma dec_digits_not_Nil [simp]: "dec_digits n \<noteq> []"
  by (simp add: dec_digits.simps [of n])

lemma digits_value_dec_digits: "0 \<le> n \<Longrightarrow> digits_value (dec_digits n) = n"
proof (induction n rule: dec_digits.induct)
  case (1 n)
  then show ?case
    by (cases "n < 10") (simp_all add: dec_digits.simps [of n] digits_value_def nat_less_iff)
qed

lemma unsigned_int_dec_digits [simp]: "0 \<le> n \<Longrightarrow> unsigned_int (dec_digits n) = Some n"
  by (simp add: unsigned_int_def dec_digits_digits digits_value_dec_digits)

lemma hd_dec_digits_digit: "dec_digits n = c # cs \<Longrightarrow> 0 \<le> n \<Longrightarrow> is_digit c"
  using dec_digits_digits [of n] by simp

lemma not_digit_signs [simp]: "\<not> is_digit (CHR ''-'')" "\<not> is_digit (CHR ''+'')"
  by (simp_all add: is_digit_def byte_def)

lemma go_atoi_itoa: "is_int64 i \<Longrightarrow> go_atoi (go_itoa i) = Some i"
proof (cases "i < 0")
  case True
  assume "is_int64 i"
  with True show ?thesis by (simp add: go_atoi_def go_itoa_def)
next
  case False
  assume "is_int64 i"
  moreover obtain c cs where split: "dec_digits i = c # cs"
    by (cases "dec_digits i") auto
  moreover have "unsigned_int (c # cs) = Some i"
    using unsigned_int_dec_digits [of i] split False by simp
  moreover have "c \<noteq> CHR ''-''" "c \<noteq> CHR ''+''"
    using hd_dec_digits_digit [OF split] not_digit_signs False by auto
  ultimately show ?thesis
    using False by (simp add: go_atoi_def go_itoa_def)
qed

section \<open>UTF-8\<close>

definition cont_byte :: "int \<Rightarrow> bool" where
  "cont_byte b \<longleftrightarrow> 128 \<le> b \<and> b \<le> 191"

text \<open>One rune and its width; \<open>None\<close> is an invalid byte (\<open>RuneError\<close>, width 1).\<close>

fun utf8_decode :: "int list \<Rightarrow> int option \<times> nat" where
  "utf8_decode (b0 # bs) =
     (if b0 < 128 then (Some b0, 1)
      else if 194 \<le> b0 \<and> b0 \<le> 223 then
        (case bs of b1 # _ \<Rightarrow> if cont_byte b1 then (Some ((b0 - 192) * 64 + (b1 - 128)), 2) else (None, 1)
                  | _ \<Rightarrow> (None, 1))
      else if 224 \<le> b0 \<and> b0 \<le> 239 then
        (case bs of b1 # b2 # _ \<Rightarrow>
             if cont_byte b1 \<and> cont_byte b2 \<and> (b0 = 224 \<longrightarrow> 160 \<le> b1) \<and> (b0 = 237 \<longrightarrow> b1 \<le> 159)
             then (Some ((b0 - 224) * 4096 + (b1 - 128) * 64 + (b2 - 128)), 3) else (None, 1)
         | _ \<Rightarrow> (None, 1))
      else if 240 \<le> b0 \<and> b0 \<le> 244 then
        (case bs of b1 # b2 # b3 # _ \<Rightarrow>
             if cont_byte b1 \<and> cont_byte b2 \<and> cont_byte b3 \<and> (b0 = 240 \<longrightarrow> 144 \<le> b1) \<and> (b0 = 244 \<longrightarrow> b1 \<le> 143)
             then (Some ((b0 - 240) * 262144 + (b1 - 128) * 4096 + (b2 - 128) * 64 + (b3 - 128)), 4)
             else (None, 1)
         | _ \<Rightarrow> (None, 1))
      else (None, 1))"
| "utf8_decode [] = (None, 1)"

fun utf8_chunks :: "nat \<Rightarrow> string \<Rightarrow> (int option \<times> string) list" where
  "utf8_chunks 0 s = []"
| "utf8_chunks (Suc n) s =
     (if s = [] then []
      else let (r, w) = utf8_decode (map (\<lambda>c. int (byte c)) s) in (r, take w s) # utf8_chunks n (drop w s))"

text \<open>The runes with the bytes they came from; \<open>[]rune(s)\<close>, \<open>ValidString\<close>, \<open>ToValidUTF8(s, "")\<close>.\<close>

definition runes_of :: "string \<Rightarrow> (int option \<times> string) list" where
  "runes_of s = utf8_chunks (length s) s"

definition rune_count :: "string \<Rightarrow> nat" where
  "rune_count s = length (runes_of s)"

definition utf8_valid :: "string \<Rightarrow> bool" where
  "utf8_valid s \<longleftrightarrow> list_all (\<lambda>(r, _). r \<noteq> None) (runes_of s)"

definition to_valid_utf8 :: "string \<Rightarrow> string" where
  "to_valid_utf8 s = concat (map snd (filter (\<lambda>(r, _). r \<noteq> None) (runes_of s)))"

definition take_runes :: "nat \<Rightarrow> string \<Rightarrow> string" where
  "take_runes n s = concat (map snd (take n (runes_of s)))"

text \<open>\<open>unicode.IsControl\<close> (category Cc).\<close>

definition is_control :: "int \<Rightarrow> bool" where
  "is_control r \<longleftrightarrow> r < 32 \<or> 127 \<le> r \<and> r < 160"

definition has_control :: "string \<Rightarrow> bool" where
  "has_control s \<longleftrightarrow> list_ex (\<lambda>(r, _). case r of None \<Rightarrow> False | Some x \<Rightarrow> is_control x) (runes_of s)"

section \<open>Case, fields and lenient numbers\<close>

fun go_to_upper :: "string \<Rightarrow> string" where
  "go_to_upper [] = []"
| "go_to_upper (c # cs) =
     (case cs of
        d # ds \<Rightarrow>
          if byte c = 0xC4 \<and> byte d = 0xB1 then CHR ''I'' # go_to_upper ds
          else if byte c = 0xC5 \<and> byte d = 0xBF then CHR ''S'' # go_to_upper ds
          else (if is_lower c then char_of (byte c - 32) else c) # go_to_upper cs
      | [] \<Rightarrow> [if is_lower c then char_of (byte c - 32) else c])"

lemma go_to_upper_Nil_iff [simp]: "go_to_upper s = [] \<longleftrightarrow> s = []"
  by (cases s rule: go_to_upper.cases) (auto split: list.splits)

definition is_space_rune :: "int \<Rightarrow> bool" where
  "is_space_rune r \<longleftrightarrow> 9 \<le> r \<and> r \<le> 13
     \<or> r \<in> set [32, 0x85, 0xA0, 0x1680, 0x2028, 0x2029, 0x202F, 0x205F, 0x3000] \<or> 0x2000 \<le> r \<and> r \<le> 0x200A"

fun fields_of :: "(int option \<times> string) list \<Rightarrow> string \<Rightarrow> string list" where
  "fields_of [] acc = (if acc = [] then [] else [acc])"
| "fields_of ((r, b) # rs) acc =
     (if (case r of None \<Rightarrow> False | Some x \<Rightarrow> is_space_rune x)
      then (if acc = [] then fields_of rs [] else acc # fields_of rs [])
      else fields_of rs (acc @ b))"

definition go_fields :: "string \<Rightarrow> string list" where
  "go_fields s = fields_of (runes_of s) []"

text \<open>\<open>n, _ := strconv.Atoi(s)\<close>: 0 on a syntax error, the nearest bound out of range.\<close>

definition go_atoi_value :: "string \<Rightarrow> int" where
  "go_atoi_value s =
     (let (neg, t) = (case s of
            c # cs \<Rightarrow> if c = CHR ''-'' then (True, cs) else if c = CHR ''+'' then (False, cs)
                      else (False, s)
          | [] \<Rightarrow> (False, []))
      in case unsigned_int t of
           None \<Rightarrow> 0
         | Some v \<Rightarrow> max min_int64 (min max_int64 (if neg then - v else v)))"

lemma go_atoi_value_Some: "go_atoi s = Some i \<Longrightarrow> go_atoi_value s = i"
  by (auto simp: go_atoi_def go_atoi_value_def Let_def is_int64_def split: if_splits option.splits list.splits)

text \<open>\<open>strings.ToLower\<close>: ASCII letters, and the two letters whose lower case is ASCII (dotted I, Kelvin sign).\<close>

fun go_to_lower :: "string \<Rightarrow> string" where
  "go_to_lower [] = []"
| "go_to_lower (c # cs) =
     (case cs of
        d # ds \<Rightarrow>
          if byte c = 0xC4 \<and> byte d = 0xB0 then CHR ''i'' # go_to_lower ds
          else if byte c = 0xE2 \<and> byte d = 0x84 \<and> ds \<noteq> [] \<and> byte (hd ds) = 0xAA then CHR ''k'' # go_to_lower (tl ds)
          else (if is_upper c then char_of (byte c + 32) else c) # go_to_lower cs
      | [] \<Rightarrow> [if is_upper c then char_of (byte c + 32) else c])"

end
