(* ===== verification/Flvx_Types.thy ===== *)
theory Flvx_Types
  imports Complex_Main Go_Text
begin

text \<open>
  \<open>internal/flvx/types.go\<close>, \<open>node_total.go\<close> and \<open>core_limits.go\<close>: the objects
  that FLVX, the controller and the helper exchange, the signature check of the
  helper's envelope, the traffic counters and the quota month. JSON encoding and
  HMAC-SHA256 are a parameter (\<open>mac\<close>). A Go map is a partial function.
\<close>

section \<open>Objects\<close>

text \<open>The message of an error is a short key that names the source's (Chinese) text.\<close>

record ValidationError =
  ve_node_id :: string
  ve_field :: string
  ve_message :: string

definition MaxNodes :: int where "MaxNodes = 1000"

record Owner =
  ow_id :: string
  ow_name :: string

record SS2022 =
  ss_method :: string
  ss_server_key :: string
  ss_user_key :: string

record Reality =
  rl_dest :: string
  rl_server_names :: "string list"
  rl_private_key :: string
  rl_short_ids :: "string list"

record VLESS =
  vl_uuid :: string
  vl_flow :: string
  vl_reality :: Reality

definition ProtocolAnyTLS :: string where "ProtocolAnyTLS = ''anytls''"
definition ProtocolSnell :: string where "ProtocolSnell = ''snell''"
definition ProtocolMieru :: string where "ProtocolMieru = ''mieru''"

definition ExtraProtocols :: "string list" where
  "ExtraProtocols = [ProtocolAnyTLS, ProtocolSnell, ProtocolMieru]"

definition IsExtraProtocol :: "string \<Rightarrow> bool" where
  "IsExtraProtocol p \<longleftrightarrow> p = ProtocolAnyTLS \<or> p = ProtocolSnell \<or> p = ProtocolMieru"

record AnyTLSTLS =
  at_server_name :: string
  at_certificate_pem :: string
  at_key_pem :: string

record AnyTLS =
  an_password :: string
  an_padding :: string
  an_tls :: AnyTLSTLS

record Snell =
  sn_psk :: string
  sn_version :: int
  sn_obfs :: string
  sn_obfs_host :: string

record Mieru =
  mi_username :: string
  mi_password :: string

record ProtocolCap =
  pc_udp :: bool
  pc_versions :: "int list"
  pc_obfs :: "string list"
  pc_transports :: "string list"

record ProtocolCaps =
  pcs_versions :: "int list"
  pcs_protocols :: "string \<rightharpoonup> ProtocolCap"

record ListeningPorts =
  lp_tcp :: "int list"
  lp_udp :: "int list"

record Node =
  nd_id :: string
  nd_owner :: Owner
  nd_name :: string
  nd_protocol :: string
  nd_port :: int
  nd_enabled :: "bool option"
  nd_max_connections :: int
  nd_max_online_ips :: int
  nd_expires_at :: "int option"
  nd_conn_mode :: string
  nd_max_total_connections :: int
  nd_ss2022 :: "SS2022 option"
  nd_vless :: "VLESS option"
  nd_anytls :: "AnyTLS option"
  nd_snell :: "Snell option"
  nd_mieru :: "Mieru option"

definition Node_Tag :: "Node \<Rightarrow> string" where
  "Node_Tag n = ''flvxl-'' @ nd_id n"

record EgressReality =
  er_server_name :: string
  er_public_key :: string
  er_short_id :: string
  er_fingerprint :: string

record EgressWireGuard =
  wg_private_key :: string
  wg_peer_public_key :: string
  wg_endpoint :: string
  wg_endpoint_v4 :: string
  wg_endpoint_v6 :: string
  wg_address_v4 :: string
  wg_address_v6 :: string
  wg_reserved :: "int list"
  wg_mtu :: int

record EgressOutbound =
  eo_tag :: string
  eo_type :: string
  eo_ip_version :: string
  eo_server :: string
  eo_port :: int
  eo_username :: string
  eo_password :: string
  eo_method :: string
  eo_uuid :: string
  eo_flow :: string
  eo_reality :: "EgressReality option"
  eo_wireguard :: "EgressWireGuard option"

record EgressRule =
  rule_name :: string
  rule_inbound_tags :: "string list"
  rule_domain :: "string list"
  rule_ip :: "string list"
  rule_port :: string
  rule_source_ip :: "string list"
  rule_source_port :: string
  rule_network :: string
  rule_protocol :: "string list"
  rule_outbound :: string

record Egress =
  eg_version :: int
  eg_outbounds :: "EgressOutbound list"
  eg_rules :: "EgressRule list"
  eg_exempt_sources :: "string list"

record EgressStatus =
  es_versions :: "int list"
  es_geoip :: bool
  es_geosite :: bool
  es_state :: string
  es_error :: string
  es_applied_revision :: int
  es_warnings :: "string list"

text \<open>\<open>WebPorts\<close> keeps nil (\<open>None\<close>) apart from the empty list.\<close>

record ScanGuard =
  sg_enabled :: bool
  sg_identities :: "string list"
  sg_horizontal :: int
  sg_horizontal_web :: int
  sg_web_ports :: "int list option"
  sg_window_s :: int
  sg_vertical :: int
  sg_total :: int
  sg_total_window_s :: int
  sg_seen :: int

record ScanHit =
  sh_id :: string
  sh_inbound_tag :: string
  sh_type :: string
  sh_count :: int
  sh_port :: int
  sh_host :: string
  sh_window_s :: int
  sh_at :: time
  sh_seq :: int

record ScanGuardStatus =
  ss_state :: string
  ss_error :: string
  ss_hits :: "ScanHit list"
  ss_blocked :: "string list"
  ss_core_ready :: bool

record RealityGuardStatus =
  rg_state :: string
  rg_nodes :: int
  rg_error :: string

text \<open>A \<open>float64\<close> that is only compared.\<close>

datatype float64 = NaN | NegInf | PosInf | Finite rat

record RealityPinStatus =
  rp_host :: string
  rp_pinned_ip :: string
  rp_pinned_ms :: float64
  rp_best_ip :: string
  rp_best_ms :: float64
  rp_checked_at :: int
  rp_nodes :: "string list"
  rp_fallback :: bool
  rp_move_reason :: string

text \<open>\<open>Nodes\<close> keeps nil (an absent array) apart from the empty list.\<close>

record Desired =
  ds_revision :: int
  ds_nodes :: "Node list option"
  ds_egress :: "Egress option"
  ds_reality_guard :: "bool option"
  ds_scan_guard :: "ScanGuard option"
  ds_reality_pin_margin_ms :: "int option"

record Config =
  cf_port_min :: int
  cf_port_max :: int
  cf_traffic_limit_bytes :: int
  cf_reset_day :: int
  cf_max_connections :: int
  cf_share_until :: "int option"
  cf_memory_mb :: int
  cf_cpu_percent :: int

record Hosts =
  ho_ipv4 :: string
  ho_ipv6 :: string
  ho_domain :: string

record LandingHosts =
  lh_native :: "string list"
  lh_nodes :: "string list"

record Core =
  co_state :: string
  co_version :: string
  co_epoch :: string
  co_error :: string

record OnlineIP =
  oi_ip :: string
  oi_connections :: int

record NodeTCP =
  tcp_inbound :: int
  tcp_outbound :: int
  tcp_established :: int
  tcp_time_wait :: int
  tcp_close_wait :: int

record NodeStatus =
  ns_id :: string
  ns_state :: string
  ns_error :: string
  ns_up_bytes :: int
  ns_down_bytes :: int
  ns_connections :: int
  ns_online_ip_count :: "int option"
  ns_online_ips :: "OnlineIP list option"
  ns_inbound_connections :: "int option"
  ns_tcp :: "NodeTCP option"

record Status =
  st_applied_revision :: int
  st_core :: Core
  st_nodes :: "NodeStatus list"
  st_traffic_used_bytes :: int
  st_collected_at :: int
  st_egress :: "EgressStatus option"
  st_protocols :: "(string \<rightharpoonup> ProtocolCap) option"
  st_listening :: "ListeningPorts option"
  st_reality_guard :: "RealityGuardStatus option"
  st_scan_guard :: "ScanGuardStatus option"
  st_reality_pins :: "RealityPinStatus list"

text \<open>\<open>Report\<close> embeds \<open>Status\<close>.\<close>

record Report = Status +
  rep_generation :: string
  rep_sequence :: int
  rep_period :: string

record Artifact =
  ar_url :: string
  ar_sha256 :: string
  ar_version :: string
  ar_github_accelerator :: string

record Payload =
  pl_server_id :: string
  pl_version :: int
  pl_status :: string
  pl_config :: Config
  pl_desired :: Desired
  pl_official_ports :: "int list"
  pl_artifact :: Artifact
  pl_period :: string
  pl_traffic_used_bytes :: int
  pl_ack_generation :: string
  pl_ack_sequence :: int

record Envelope =
  en_payload :: Payload
  en_expires_at :: int
  en_signature :: string

definition ds_node_list :: "Desired \<Rightarrow> Node list" where
  "ds_node_list d = (case ds_nodes d of None \<Rightarrow> [] | Some ns \<Rightarrow> ns)"

section \<open>The signed envelope\<close>

text \<open>
  \<open>mac token payload expires\<close> is the hex HMAC-SHA256 over the JSON of the
  payload and the expiry, with a key derived from the token.
\<close>

type_synonym 'p mac = "string \<Rightarrow> 'p \<Rightarrow> int \<Rightarrow> string"

definition Envelope_Sign :: "Payload mac \<Rightarrow> string \<Rightarrow> Envelope \<Rightarrow> Envelope" where
  "Envelope_Sign mac token e = e\<lparr>en_signature := mac token (en_payload e) (en_expires_at e)\<rparr>"

definition envelope_window :: "int \<Rightarrow> time \<Rightarrow> bool" where
  "envelope_window expires now \<longleftrightarrow>
     expires > unix_milli now \<and> expires \<le> unix_milli (now + 11 * minute)"

definition Envelope_Verify :: "Payload mac \<Rightarrow> Envelope \<Rightarrow> string \<Rightarrow> string \<Rightarrow> time \<Rightarrow> bool" where
  "Envelope_Verify mac e token serverID now \<longleftrightarrow>
     pl_server_id (en_payload e) = serverID \<and> envelope_window (en_expires_at e) now
     \<and> en_signature e = mac token (en_payload e) (en_expires_at e)"

section \<open>Shared limits\<close>

definition MinCoreMemoryMB :: int where "MinCoreMemoryMB = 64"
definition MaxCoreMemoryMB :: int where "MaxCoreMemoryMB = 4096"
definition MaxCoreCPUPercent :: int where "MaxCoreCPUPercent = 400"
definition MaxNodeTotalConnections :: int where "MaxNodeTotalConnections = 10000000"

definition LegacyCoreLimits :: "Config \<Rightarrow> Config" where
  "LegacyCoreLimits c0 =
     (let c1 = (if cf_memory_mb c0 = 0 then c0\<lparr>cf_memory_mb := MaxCoreMemoryMB\<rparr> else c0)
      in if cf_cpu_percent c1 = 0 then c1\<lparr>cf_cpu_percent := MaxCoreCPUPercent\<rparr> else c1)"

text \<open>The sums are \<open>int64\<close> sums.\<close>

definition NodeTCP_ValidFor :: "NodeTCP option \<Rightarrow> int \<Rightarrow> bool" where
  "NodeTCP_ValidFor ot connections =
     (case ot of None \<Rightarrow> False
      | Some t \<Rightarrow>
          tcp_inbound t \<ge> 0 \<and> tcp_outbound t \<ge> 0 \<and> tcp_established t \<ge> 0
          \<and> tcp_time_wait t \<ge> 0 \<and> tcp_close_wait t \<ge> 0
          \<and> i64 (tcp_inbound t + tcp_outbound t) = connections
          \<and> i64 (i64 (tcp_established t + tcp_time_wait t) + tcp_close_wait t) \<le> connections)"

section \<open>Traffic counters\<close>

record Counter =
  ctr_epoch :: string
  ctr_raw_up :: int
  ctr_raw_down :: int
  ctr_up :: int
  ctr_down :: int

definition Delta :: "int \<Rightarrow> int \<Rightarrow> bool \<Rightarrow> int" where
  "Delta previous current reset =
     (if current < 0 then 0
      else if reset \<or> current < previous then current
      else i64 (current - previous))"

definition AddBytes :: "int \<Rightarrow> int \<Rightarrow> int" where
  "AddBytes a b = (if b > i64 (max_int64 - a) then max_int64 else i64 (a + b))"

definition Counter_Merge :: "Counter \<Rightarrow> string \<Rightarrow> int \<Rightarrow> int \<Rightarrow> Counter \<times> int" where
  "Counter_Merge c epoch up down =
     (let u = Delta (ctr_raw_up c) up (ctr_epoch c \<noteq> epoch);
          d = Delta (ctr_raw_down c) down (ctr_epoch c \<noteq> epoch)
      in (c\<lparr>ctr_up := AddBytes (ctr_up c) u, ctr_down := AddBytes (ctr_down c) d,
            ctr_epoch := epoch, ctr_raw_up := up, ctr_raw_down := down\<rparr>,
          AddBytes u d))"

definition Active :: "string \<Rightarrow> Config \<Rightarrow> int \<Rightarrow> Node \<Rightarrow> time \<Rightarrow> bool" where
  "Active status cfg used n now \<longleftrightarrow>
     status = ''active''
     \<and> (case cf_share_until cfg of None \<Rightarrow> True | Some u \<Rightarrow> u > unix_milli now)
     \<and> (cf_traffic_limit_bytes cfg = 0 \<or> used < cf_traffic_limit_bytes cfg)
     \<and> nd_enabled n = Some True
     \<and> (case nd_expires_at n of None \<Rightarrow> True | Some x \<Rightarrow> x > unix_milli now)"

end
