(* ===== verification/U128.thy ===== *)
theory U128
  imports Go_Base "HOL-Library.Word"
begin

text \<open>
  The 128 bit integers of \<open>internal/flvx/cidr.go\<close> (type \<open>u128\<close>): a pair of
  64 bit words with compare, increment, decrement, masks and bit operations.
  \<open>val128\<close> reads a pair as a natural number of 128 bits (an \<open>int\<close>); the lemmas
  show that each operation computes the number it stands for.
\<close>

unbundle bit_operations_syntax

section \<open>The type and its operations\<close>

datatype u128 = U128 (u_hi: "64 word") (u_lo: "64 word")

text \<open>\<open>bits.Add64\<close> and \<open>bits.Sub64\<close>: sum and carry, difference and borrow.\<close>

definition add64 :: "64 word \<Rightarrow> 64 word \<Rightarrow> 64 word \<Rightarrow> 64 word \<times> 64 word" where
  "add64 x y c = (x + y + c, if uint x + uint y + uint c < 2 ^ 64 then 0 else 1)"

definition sub64 :: "64 word \<Rightarrow> 64 word \<Rightarrow> 64 word \<Rightarrow> 64 word \<times> 64 word" where
  "sub64 x y b = (x - y - b, if uint x < uint y + uint b then 1 else 0)"

text \<open>\<open>bits.TrailingZeros64\<close>: the number of zero bits below the lowest set bit, 64 for 0.\<close>

definition trailing_zeros64 :: "64 word \<Rightarrow> nat" where
  "trailing_zeros64 x = length (takeWhile (\<lambda>i. \<not> bit x i) [0..<64])"

definition u128_cmp :: "u128 \<Rightarrow> u128 \<Rightarrow> int" where
  "u128_cmp a b =
     (if u_hi a < u_hi b then -1
      else if u_hi a > u_hi b then 1
      else if u_lo a < u_lo b then -1
      else if u_lo a > u_lo b then 1
      else 0)"

definition u128_add1 :: "u128 \<Rightarrow> u128 \<times> bool" where
  "u128_add1 a =
     (let (l, carry) = add64 (u_lo a) 1 0;
          (h, overflow) = add64 (u_hi a) 0 carry
      in (U128 h l, overflow \<noteq> 0))"

definition u128_sub1 :: "u128 \<Rightarrow> u128" where
  "u128_sub1 a =
     (let (l, borrow) = sub64 (u_lo a) 1 0;
          (h, _) = sub64 (u_hi a) 0 borrow
      in U128 h l)"

definition u128_trailingZeros :: "u128 \<Rightarrow> nat" where
  "u128_trailingZeros a =
     (if u_lo a \<noteq> 0 then trailing_zeros64 (u_lo a)
      else if u_hi a \<noteq> 0 then 64 + trailing_zeros64 (u_hi a)
      else 128)"

text \<open>\<open>mask(n)\<close> is \<open>2^n - 1\<close>; \<open>n\<close> is a Go \<open>int\<close>.\<close>

definition mask128 :: "int \<Rightarrow> u128" where
  "mask128 n =
     (if n \<le> 0 then U128 0 0
      else if n < 64 then U128 0 (push_bit (nat n) 1 - 1)
      else if n = 64 then U128 0 (NOT 0)
      else if n < 128 then U128 (push_bit (nat (n - 64)) 1 - 1) (NOT 0)
      else U128 (NOT 0) (NOT 0))"

definition u128_or :: "u128 \<Rightarrow> u128 \<Rightarrow> u128" where
  "u128_or a b = U128 (u_hi a OR u_hi b) (u_lo a OR u_lo b)"

definition u128_andNot :: "u128 \<Rightarrow> u128 \<Rightarrow> u128" where
  "u128_andNot a b = U128 (u_hi a AND NOT (u_hi b)) (u_lo a AND NOT (u_lo b))"

section \<open>The number a pair stands for\<close>

definition val128 :: "u128 \<Rightarrow> int" where
  "val128 a = uint (u_hi a) * 2 ^ 64 + uint (u_lo a)"

lemma uint64_bounds: "0 \<le> uint (x :: 64 word)" "uint (x :: 64 word) < 18446744073709551616"
  using uint_bounded [of x] by simp_all

lemma pair64_less_iff:
  fixes h l h' l' :: int
  assumes "0 \<le> l" "l < 18446744073709551616" "0 \<le> l'" "l' < 18446744073709551616"
  shows "h * 18446744073709551616 + l < h' * 18446744073709551616 + l' \<longleftrightarrow> h < h' \<or> h = h' \<and> l < l'"
  using assms by (cases h h' rule: linorder_cases) auto

lemma pair64_eq_iff:
  fixes h l h' l' :: int
  assumes "0 \<le> l" "l < 18446744073709551616" "0 \<le> l'" "l' < 18446744073709551616"
  shows "h * 18446744073709551616 + l = h' * 18446744073709551616 + l' \<longleftrightarrow> h = h' \<and> l = l'"
  using assms by (cases h h' rule: linorder_cases) auto

lemma val128_nonneg [simp]: "0 \<le> val128 a"
  by (simp add: val128_def)

lemma val128_less: "val128 a < 2 ^ 128"
  using uint64_bounds [of "u_hi a"] uint64_bounds [of "u_lo a"] by (simp add: val128_def)

lemma val128_less_iff:
  "val128 a < val128 b \<longleftrightarrow> u_hi a < u_hi b \<or> u_hi a = u_hi b \<and> u_lo a < u_lo b"
  using pair64_less_iff [OF uint64_bounds uint64_bounds, of "uint (u_hi a)" "u_lo a" "uint (u_hi b)" "u_lo b"]
  by (simp add: val128_def word_less_def word_uint_eq_iff)

lemma val128_inj: "val128 a = val128 b \<longleftrightarrow> a = b"
  using pair64_eq_iff [OF uint64_bounds uint64_bounds, of "uint (u_hi a)" "u_lo a" "uint (u_hi b)" "u_lo b"]
  by (cases a, cases b) (simp add: val128_def word_uint_eq_iff)

text \<open>The order of \<open>cmp\<close> is the order of the numbers, so \<open>u128\<close> is a linear order.\<close>

instantiation u128 :: linorder
begin

definition less_eq_u128 :: "u128 \<Rightarrow> u128 \<Rightarrow> bool" where
  "less_eq_u128 a b \<longleftrightarrow> u128_cmp a b \<le> 0"

definition less_u128 :: "u128 \<Rightarrow> u128 \<Rightarrow> bool" where
  "less_u128 a b \<longleftrightarrow> u128_cmp a b < 0"

lemma u128_cmp_less_iff: "u128_cmp a b < 0 \<longleftrightarrow> val128 a < val128 b"
  by (auto simp: u128_cmp_def val128_less_iff)

lemma u128_cmp_le_iff: "u128_cmp a b \<le> 0 \<longleftrightarrow> val128 a \<le> val128 b"
  by (auto simp: u128_cmp_def val128_less_iff not_less [symmetric])

instance
  by standard
    (auto simp: less_eq_u128_def less_u128_def u128_cmp_less_iff u128_cmp_le_iff val128_inj)

end

lemma u128_le_iff: "a \<le> b \<longleftrightarrow> val128 a \<le> val128 b"
  by (simp add: less_eq_u128_def u128_cmp_le_iff)

lemma u128_less_iff: "a < b \<longleftrightarrow> val128 a < val128 b"
  by (simp add: less_u128_def u128_cmp_less_iff)

lemma u128_cmp_simps:
  "u128_cmp a b < 0 \<longleftrightarrow> val128 a < val128 b"
  "u128_cmp a b \<le> 0 \<longleftrightarrow> val128 a \<le> val128 b"
  "u128_cmp a b > 0 \<longleftrightarrow> val128 b < val128 a"
  "u128_cmp a b \<ge> 0 \<longleftrightarrow> val128 b \<le> val128 a"
  "u128_cmp a b = 0 \<longleftrightarrow> a = b"
proof -
  show "u128_cmp a b < 0 \<longleftrightarrow> val128 a < val128 b" "u128_cmp a b \<le> 0 \<longleftrightarrow> val128 a \<le> val128 b"
    by (rule u128_cmp_less_iff u128_cmp_le_iff)+
  then show "u128_cmp a b > 0 \<longleftrightarrow> val128 b < val128 a" "u128_cmp a b \<ge> 0 \<longleftrightarrow> val128 b \<le> val128 a"
    by auto
  show "u128_cmp a b = 0 \<longleftrightarrow> a = b"
    using u128_cmp_less_iff [of a b] u128_cmp_le_iff [of a b] val128_inj [of a b] by linarith
qed

section \<open>Each operation computes its number\<close>

lemma mod64_add1:
  fixes x :: int
  assumes "0 \<le> x" "x < 18446744073709551616"
  shows "(x + 1) mod 18446744073709551616 = (if x = 18446744073709551615 then 0 else x + 1)"
  using assms by (auto intro: mod_pos_pos_trivial)

lemma mod64_sub1:
  fixes x :: int
  assumes "0 \<le> x" "x < 18446744073709551616"
  shows "(x - 1) mod 18446744073709551616 = (if x = 0 then 18446744073709551615 else x - 1)"
  using assms by (auto intro: mod_pos_pos_trivial)

lemma uint64_add1: "uint (x + 1 :: 64 word) = (if uint x = 18446744073709551615 then 0 else uint x + 1)"
  using mod64_add1 [OF uint64_bounds, of x] by (simp add: uint_word_ariths)

lemma uint64_sub1: "uint (x - 1 :: 64 word) = (if uint x = 0 then 18446744073709551615 else uint x - 1)"
  using mod64_sub1 [OF uint64_bounds, of x] by (simp add: uint_word_ariths)

lemma add1_split:
  "u128_add1 a =
     (if uint (u_lo a) = 18446744073709551615
      then (U128 (u_hi a + 1) 0, uint (u_hi a) = 18446744073709551615)
      else (U128 (u_hi a) (u_lo a + 1), False))"
proof -
  have "u_lo a + 1 = 0" if "uint (u_lo a) = 18446744073709551615"
    using that uint64_add1 [of "u_lo a"] by (simp add: word_uint_eq_iff)
  then show ?thesis
    using uint64_bounds [of "u_hi a"] uint64_bounds [of "u_lo a"]
    by (auto simp: u128_add1_def add64_def Let_def)
qed

lemma sub1_split:
  "u128_sub1 a =
     (if uint (u_lo a) = 0 then U128 (u_hi a - 1) (u_lo a - 1) else U128 (u_hi a) (u_lo a - 1))"
proof -
  have "uint (u_lo a) < 1 \<longleftrightarrow> uint (u_lo a) = 0"
    using uint64_bounds [of "u_lo a"] by arith
  then show ?thesis by (auto simp: u128_sub1_def sub64_def Let_def)
qed

lemma add1_overflow: "snd (u128_add1 a) \<longleftrightarrow> val128 a = 2 ^ 128 - 1"
  using pair64_eq_iff [of "uint (u_lo a)" 18446744073709551615 "uint (u_hi a)" 18446744073709551615]
    uint64_bounds [of "u_lo a"]
  by (auto simp: add1_split val128_def)

lemma val128_add1: "\<not> snd (u128_add1 a) \<Longrightarrow> val128 (fst (u128_add1 a)) = val128 a + 1"
  by (auto simp: add1_split val128_def uint64_add1 split: if_splits)

lemma val128_sub1: "0 < val128 a \<Longrightarrow> val128 (u128_sub1 a) = val128 a - 1"
  by (auto simp: sub1_split val128_def uint64_sub1)

lemma val128_add1_less: "val128 a < val128 b \<Longrightarrow> val128 (fst (u128_add1 a)) = val128 a + 1"
  using val128_less [of b] by (intro val128_add1) (simp add: add1_overflow)

section \<open>Bits\<close>

lemma bit_val128:
  "bit (val128 a) n \<longleftrightarrow> (if n < 64 then bit (u_lo a) n else bit (u_hi a) (n - 64))"
proof -
  have "val128 a = concat_bit 64 (uint (u_lo a)) (uint (u_hi a))"
    by (simp add: val128_def concat_bit_eq push_bit_eq_mult take_bit_int_eq_self uint64_bounds)
  then show ?thesis
    by (auto simp: bit_concat_bit_iff bit_uint_iff dest: bit_imp_le_length)
qed

lemma val128_or: "val128 (u128_or a b) = val128 a OR val128 b"
  by (rule bit_eqI) (simp add: bit_val128 bit_or_iff u128_or_def)

lemma val128_andNot: "val128 (u128_andNot a b) = val128 a AND NOT (val128 b)"
  by (rule bit_eqI) (auto simp: bit_val128 bit_and_iff bit_not_iff u128_andNot_def dest: bit_imp_le_length)

lemma val128_mask:
  assumes "n \<le> 128"
  shows "val128 (mask128 (int n)) = mask n"
proof (rule bit_eqI)
  fix i
  have ones: "bit (2 ^ k - 1 :: 64 word) j \<longleftrightarrow> j < k \<and> j < 64" for k j
    using bit_mask_iff [of k j, where 'a = "64 word"] by (auto simp: mask_eq_exp_minus_1)
  show "bit (val128 (mask128 (int n))) i = bit (mask n :: int) i"
    using assms
    by (auto simp: bit_val128 mask128_def ones bit_mask_iff bit_not_iff push_bit_eq_mult)
qed

lemma trailing_zeros64_le: "trailing_zeros64 x \<le> 64"
  using length_takeWhile_le [of "\<lambda>i. \<not> bit x i" "[0..<64]"] by (simp add: trailing_zeros64_def)

lemma trailing_zeros64_zeros: "i < trailing_zeros64 x \<Longrightarrow> \<not> bit x i"
proof -
  assume i: "i < trailing_zeros64 x"
  then have "i < 64" using trailing_zeros64_le [of x] by simp
  then have "takeWhile (\<lambda>i. \<not> bit x i) [0..<64] ! i = i"
    using i by (simp add: takeWhile_nth trailing_zeros64_def)
  then show ?thesis
    using i nth_mem [of i "takeWhile (\<lambda>i. \<not> bit x i) [0..<64]"] set_takeWhileD
    by (fastforce simp: trailing_zeros64_def)
qed

lemma trailing_zeros64_one: "trailing_zeros64 x < 64 \<Longrightarrow> bit x (trailing_zeros64 x)"
  using nth_length_takeWhile [of "\<lambda>i. \<not> bit x i" "[0..<64]"] by (simp add: trailing_zeros64_def)

lemma trailing_zeros64_zero_iff: "trailing_zeros64 x = 64 \<longleftrightarrow> x = 0"
proof
  assume "trailing_zeros64 x = 64"
  then show "x = 0"
    by (intro bit_word_eqI) (simp add: trailing_zeros64_zeros)
next
  assume "x = 0"
  then show "trailing_zeros64 x = 64"
    using trailing_zeros64_one [of x] trailing_zeros64_le [of x] by force
qed

text \<open>The number of trailing zeros is the largest power of two that divides the value.\<close>

lemma trailingZeros_le: "u128_trailingZeros a \<le> 128"
  using trailing_zeros64_le [of "u_lo a"] trailing_zeros64_le [of "u_hi a"]
  by (simp add: u128_trailingZeros_def)

lemma trailingZeros_bits: "i < u128_trailingZeros a \<Longrightarrow> \<not> bit (val128 a) i"
  using trailing_zeros64_le [of "u_lo a"]
  by (auto simp: u128_trailingZeros_def bit_val128 trailing_zeros64_zeros split: if_splits)

lemma trailingZeros_one: "u128_trailingZeros a < 128 \<Longrightarrow> bit (val128 a) (u128_trailingZeros a)"
  using trailing_zeros64_le [of "u_lo a"] trailing_zeros64_zero_iff [of "u_lo a"]
    trailing_zeros64_zero_iff [of "u_hi a"]
    trailing_zeros64_one [of "u_lo a"] trailing_zeros64_one [of "u_hi a"]
  by (auto simp: u128_trailingZeros_def bit_val128 split: if_splits)

lemma trailingZeros_dvd_iff:
  assumes "k \<le> 128"
  shows "2 ^ k dvd val128 a \<longleftrightarrow> k \<le> u128_trailingZeros a"
proof -
  have "2 ^ k dvd val128 a \<longleftrightarrow> (\<forall>i < k. \<not> bit (val128 a) i)"
    by (simp add: take_bit_eq_0_iff [symmetric] bit_eq_iff bit_take_bit_iff)
  also have "\<dots> \<longleftrightarrow> k \<le> u128_trailingZeros a"
    using trailingZeros_bits [of _ a] trailingZeros_one [of a] assms by (meson le_less_trans linorder_not_le)
  finally show ?thesis .
qed

lemma val128_or_mask:
  assumes "2 ^ k dvd val128 a" and "k \<le> 128"
  shows "val128 (u128_or a (mask128 (int k))) = val128 a + (2 ^ k - 1)"
proof -
  have low: "\<not> bit (val128 a) i" if "i < k" for i
    using assms(1) that by (simp add: take_bit_eq_0_iff [symmetric] bit_eq_iff bit_take_bit_iff)
  have "val128 a OR mask k = val128 a + mask k"
    by (rule disjunctive_add_eq_or [symmetric]) (auto simp: bit_eq_iff bit_and_iff bit_mask_iff low)
  then show ?thesis
    by (simp add: val128_or val128_mask assms(2) mask_eq_exp_minus_1)
qed

end
