(* ===== verification/Go_Net.thy ===== *)
theory Go_Net
  imports Go_Text U128
begin

text \<open>
  The routines of packages net/netip and net that the source calls: parsing
  and printing of addresses and prefixes, \<open>Unmap\<close>, \<open>Masked\<close>, the address
  classes, and \<open>SplitHostPort\<close>/\<open>JoinHostPort\<close>. An invalid \<open>netip.Addr\<close> is
  \<open>None\<close>. Only the standard library is modelled here; nothing of the
  repository.
\<close>

section \<open>Addresses\<close>

datatype ip_addr = IPv4 "32 word" | IPv6 u128 string

definition addr_is4 :: "ip_addr \<Rightarrow> bool" where
  "addr_is4 a = (case a of IPv4 _ \<Rightarrow> True | IPv6 _ _ \<Rightarrow> False)"

definition addr_zone :: "ip_addr \<Rightarrow> string" where
  "addr_zone a = (case a of IPv4 _ \<Rightarrow> [] | IPv6 _ z \<Rightarrow> z)"

definition addr_bit_len :: "ip_addr \<Rightarrow> int" where
  "addr_bit_len a = (if addr_is4 a then 32 else 128)"

definition addr_is4in6 :: "ip_addr \<Rightarrow> bool" where
  "addr_is4in6 a = (case a of IPv4 _ \<Rightarrow> False
     | IPv6 v _ \<Rightarrow> u_hi v = 0 \<and> drop_bit 32 (u_lo v) = 0xffff)"

definition addr_unmap :: "ip_addr \<Rightarrow> ip_addr" where
  "addr_unmap a = (case a of IPv6 v _ \<Rightarrow> if addr_is4in6 a then IPv4 (ucast (u_lo v)) else a | _ \<Rightarrow> a)"

definition addr_without_zone :: "ip_addr \<Rightarrow> ip_addr" where
  "addr_without_zone a = (case a of IPv4 w \<Rightarrow> IPv4 w | IPv6 v _ \<Rightarrow> IPv6 v [])"

text \<open>\<open>As4\<close> and \<open>As16\<close>: the bytes in network order.\<close>

definition addr_as4 :: "32 word \<Rightarrow> 8 word list" where
  "addr_as4 w = map (\<lambda>i. ucast (drop_bit (24 - 8 * i) w)) [0..<4]"

definition word64_bytes :: "64 word \<Rightarrow> 8 word list" where
  "word64_bytes w = map (\<lambda>i. ucast (drop_bit (56 - 8 * i) w)) [0..<8]"

definition addr_as16 :: "ip_addr \<Rightarrow> 8 word list" where
  "addr_as16 a = (case a of
       IPv4 w \<Rightarrow> word64_bytes 0 @ word64_bytes (0xffff00000000 OR ucast w)
     | IPv6 v _ \<Rightarrow> word64_bytes (u_hi v) @ word64_bytes (u_lo v))"

section \<open>Parsing\<close>

text \<open>\<open>netip.parseIPv4\<close>: four decimal fields up to 255 without leading zeros.\<close>

definition ipv4_field :: "string \<Rightarrow> int option" where
  "ipv4_field s =
     (case unsigned_int s of
        None \<Rightarrow> None
      | Some v \<Rightarrow> if v \<le> 255 \<and> (1 < length s \<longrightarrow> hd s \<noteq> CHR ''0'') then Some v else None)"

definition parse_ipv4 :: "string \<Rightarrow> int list option" where
  "parse_ipv4 s =
     (case map ipv4_field (go_split (CHR ''.'') s) of
        [Some a, Some b, Some c, Some d] \<Rightarrow> Some [a, b, c, d]
      | _ \<Rightarrow> None)"

definition hex_prefix :: "string \<Rightarrow> string" where
  "hex_prefix s = takeWhile is_hex s"

definition hex_number :: "string \<Rightarrow> int" where
  "hex_number s = foldl (\<lambda>v c. v * 16 + int (the (hex_value c))) 0 s"

text \<open>
  The loop of \<open>netip.parseIPv6\<close> over 16 bit groups: \<open>gs\<close> are the groups so
  far, \<open>el\<close> the position of the ellipsis. The fuel is the number of groups
  that still fit; the result has the unread rest.
\<close>

fun ipv6_groups :: "nat \<Rightarrow> int list \<Rightarrow> nat option \<Rightarrow> string \<Rightarrow> (int list \<times> nat option \<times> string) option" where
  "ipv6_groups 0 gs el s = Some (gs, el, s)"
| "ipv6_groups (Suc n) gs el s =
     (let h = hex_prefix s; r = drop (length h) s in
      if h = [] \<or> 4 < length h then None
      else if r \<noteq> [] \<and> hd r = CHR ''.'' then
        (if el = None \<and> length gs \<noteq> 6 \<or> 6 < length gs then None
         else case parse_ipv4 s of
                Some [a, b, c, d] \<Rightarrow> Some (gs @ [a * 256 + b, c * 256 + d], el, [])
              | _ \<Rightarrow> None)
      else let gs' = gs @ [hex_number h] in
        if r = [] then Some (gs', el, [])
        else if hd r \<noteq> CHR '':'' \<or> length r = 1 then None
        else let t = tl r in
          if hd t = CHR '':'' then
            (if el \<noteq> None then None
             else if tl t = [] then Some (gs', Some (length gs'), [])
             else ipv6_groups n gs' (Some (length gs')) (tl t))
          else ipv6_groups n gs' el t)"

definition groups_u128 :: "int list \<Rightarrow> u128" where
  "groups_u128 gs =
     (let pack = foldl (\<lambda>v g. v * 65536 + of_int g) 0
      in U128 (pack (take 4 gs)) (pack (drop 4 gs)))"

definition parse_ipv6 :: "string \<Rightarrow> ip_addr option" where
  "parse_ipv6 inp =
     (let (s0, zone, zoned) = go_cut inp (CHR ''%'') in
      if zoned \<and> zone = [] then None
      else let lead = has_prefix s0 ''::''; s = trim_prefix s0 ''::'' in
        if lead \<and> s = [] then Some (IPv6 (U128 0 0) zone)
        else case ipv6_groups 8 [] (if lead then Some 0 else None) s of
            None \<Rightarrow> None
          | Some (gs, el, rest) \<Rightarrow>
              if rest \<noteq> [] then None
              else if length gs < 8 then
                (case el of None \<Rightarrow> None
                 | Some e \<Rightarrow> Some (IPv6 (groups_u128
                     (take e gs @ replicate (8 - length gs) 0 @ drop e gs)) zone))
              else if el \<noteq> None then None
              else Some (IPv6 (groups_u128 gs) zone))"

definition ipv4_of_fields :: "int list \<Rightarrow> ip_addr" where
  "ipv4_of_fields fs = IPv4 (foldl (\<lambda>v f. v * 256 + of_int f) 0 fs)"

definition parse_addr :: "string \<Rightarrow> ip_addr option" where
  "parse_addr s =
     (case find (\<lambda>c. c = CHR ''.'' \<or> c = CHR '':'' \<or> c = CHR ''%'') s of
        None \<Rightarrow> None
      | Some c \<Rightarrow> if c = CHR ''.'' then map_option ipv4_of_fields (parse_ipv4 s)
                  else if c = CHR '':'' then parse_ipv6 s
                  else None)"

text \<open>\<open>net.ParseIP\<close>: the address, with no zone; the 16 byte form of IPv4 stays \<open>IPv4\<close>.\<close>

definition net_parse_ip :: "string \<Rightarrow> ip_addr option" where
  "net_parse_ip s =
     (case parse_addr s of
        None \<Rightarrow> None
      | Some a \<Rightarrow> if addr_zone a \<noteq> [] then None else Some (addr_unmap a))"

section \<open>Printing\<close>

definition ipv4_string :: "32 word \<Rightarrow> string" where
  "ipv4_string w = go_join ''.'' (map (\<lambda>b. dec_digits (uint b)) (addr_as4 w))"

definition hex_char :: "nat \<Rightarrow> char" where
  "hex_char d = (if d < 10 then char_of (48 + d) else char_of (87 + d))"

function hex_digits :: "int \<Rightarrow> string" where
  "hex_digits n =
     (if n < 16 then [hex_char (nat n)] else hex_digits (n div 16) @ [hex_char (nat (n mod 16))])"
  by pat_completeness auto
termination by (relation "measure nat") auto

declare hex_digits.simps [simp del]

definition u128_groups :: "u128 \<Rightarrow> int list" where
  "u128_groups v =
     map (\<lambda>i. uint (drop_bit (48 - 16 * i) (u_hi v) AND 0xffff)) [0..<4] @
     map (\<lambda>i. uint (drop_bit (48 - 16 * i) (u_lo v) AND 0xffff)) [0..<4]"

definition zero_run :: "int list \<Rightarrow> nat \<Rightarrow> nat" where
  "zero_run gs i = length (takeWhile (\<lambda>g. g = 0) (drop i gs))"

definition longest_zero_run :: "int list \<Rightarrow> nat \<times> nat" where
  "longest_zero_run gs =
     foldl (\<lambda>(st, l) i. if 2 \<le> zero_run gs i \<and> l < zero_run gs i then (i, zero_run gs i) else (st, l))
       (0, 0) [0..<8]"

definition ipv6_string :: "u128 \<Rightarrow> string" where
  "ipv6_string v =
     (let gs = u128_groups v; (st, l) = longest_zero_run gs; hex = map hex_digits gs
      in if l = 0 then go_join '':'' hex
         else go_join '':'' (take st hex) @ ''::'' @ go_join '':'' (drop (st + l) hex))"

definition addr_string :: "ip_addr \<Rightarrow> string" where
  "addr_string a =
     (case a of
        IPv4 w \<Rightarrow> ipv4_string w
      | IPv6 v z \<Rightarrow>
          (if addr_is4in6 a then ''::ffff:'' @ ipv4_string (ucast (u_lo v)) else ipv6_string v)
          @ (if z = [] then [] else CHR ''%'' # z))"

section \<open>Prefixes\<close>

record prefix =
  pfx_addr :: ip_addr
  pfx_bits :: int

text \<open>\<open>PrefixFrom\<close> drops the zone; bits out of range are -1 (an invalid prefix).\<close>

definition prefix_from :: "ip_addr \<Rightarrow> int \<Rightarrow> prefix" where
  "prefix_from a n =
     \<lparr> pfx_addr = addr_without_zone a, pfx_bits = (if 0 \<le> n \<and> n \<le> addr_bit_len a then n else -1) \<rparr>"

definition last_index :: "char \<Rightarrow> string \<Rightarrow> nat option" where
  "last_index c s = (if c \<in> set s then Some (length s - 1 - length (takeWhile (\<lambda>x. x \<noteq> c) (rev s))) else None)"

definition parse_prefix :: "string \<Rightarrow> prefix option" where
  "parse_prefix s =
     (case last_index (CHR ''/'') s of
        None \<Rightarrow> None
      | Some i \<Rightarrow>
          (case parse_addr (take i s) of
             None \<Rightarrow> None
           | Some a \<Rightarrow>
               if addr_zone a \<noteq> [] then None
               else let b = drop (Suc i) s in
                 if 1 < length b \<and> \<not> (CHR ''1'' \<le> hd b \<and> hd b \<le> CHR ''9'') then None
                 else (case go_atoi b of
                         None \<Rightarrow> None
                       | Some n \<Rightarrow> if n < 0 \<or> addr_bit_len a < n then None else Some (prefix_from a n))))"

definition addr_mask :: "ip_addr \<Rightarrow> int \<Rightarrow> ip_addr" where
  "addr_mask a n =
     (case a of
        IPv4 w \<Rightarrow> IPv4 (w AND NOT (mask (nat (32 - n))))
      | IPv6 v z \<Rightarrow> IPv6 (u128_andNot v (mask128 (128 - n))) z)"

definition prefix_masked :: "prefix \<Rightarrow> prefix" where
  "prefix_masked p =
     (if pfx_bits p < 0 then p else p\<lparr>pfx_addr := addr_mask (pfx_addr p) (pfx_bits p)\<rparr>)"

definition prefix_string :: "prefix \<Rightarrow> string" where
  "prefix_string p =
     (if pfx_bits p < 0 then ''invalid Prefix''
      else addr_string (pfx_addr p) @ CHR ''/'' # go_itoa (pfx_bits p))"

definition addr_is_single :: "prefix \<Rightarrow> bool" where
  "addr_is_single p \<longleftrightarrow> pfx_bits p = addr_bit_len (pfx_addr p)"

section \<open>Address classes\<close>

definition addr_is_unspecified :: "ip_addr \<Rightarrow> bool" where
  "addr_is_unspecified a \<longleftrightarrow> a = IPv4 0 \<or> a = IPv6 (U128 0 0) []"

definition addr_is_loopback :: "ip_addr \<Rightarrow> bool" where
  "addr_is_loopback a =
     (case addr_unmap a of
        IPv4 w \<Rightarrow> drop_bit 24 w = 127
      | IPv6 v _ \<Rightarrow> v = U128 0 1)"

definition addr_is_multicast :: "ip_addr \<Rightarrow> bool" where
  "addr_is_multicast a =
     (case addr_unmap a of
        IPv4 w \<Rightarrow> drop_bit 28 w = 0xe
      | IPv6 v _ \<Rightarrow> drop_bit 56 (u_hi v) = 0xff)"

definition addr_is_link_local :: "ip_addr \<Rightarrow> bool" where
  "addr_is_link_local a =
     (case addr_unmap a of
        IPv4 w \<Rightarrow> drop_bit 16 w = 0xa9fe
      | IPv6 v _ \<Rightarrow> drop_bit 54 (u_hi v) = 0x3fa)"

definition addr_is_global_unicast :: "ip_addr \<Rightarrow> bool" where
  "addr_is_global_unicast a0 \<longleftrightarrow>
     (let a = addr_unmap a0 in
      a \<noteq> IPv4 0 \<and> a \<noteq> IPv4 0xffffffff \<and> a \<noteq> IPv6 (U128 0 0) []
      \<and> \<not> addr_is_loopback a \<and> \<not> addr_is_multicast a \<and> \<not> addr_is_link_local a)"

text \<open>\<open>Prefix.Contains\<close>: never an address with a zone, never the other family.\<close>

definition prefix_contains :: "prefix \<Rightarrow> ip_addr \<Rightarrow> bool" where
  "prefix_contains p a \<longleftrightarrow>
     0 \<le> pfx_bits p \<and> addr_zone a = [] \<and> addr_is4 (pfx_addr p) = addr_is4 a
     \<and> addr_mask a (pfx_bits p) = addr_mask (pfx_addr p) (pfx_bits p)"

section \<open>Host and port\<close>

definition index_of :: "char \<Rightarrow> string \<Rightarrow> nat option" where
  "index_of c s = (if c \<in> set s then Some (length (takeWhile (\<lambda>x. x \<noteq> c) s)) else None)"

definition split_host_port :: "string \<Rightarrow> (string \<times> string) option" where
  "split_host_port s =
     (case last_index (CHR '':'') s of
        None \<Rightarrow> None
      | Some i \<Rightarrow>
          if hd s = CHR ''['' then
            (case index_of (CHR '']'') s of
               None \<Rightarrow> None
             | Some e \<Rightarrow>
                 if e + 1 \<noteq> i \<or> CHR ''['' \<in> set (drop 1 s) \<or> CHR '']'' \<in> set (drop (e + 1) s) then None
                 else Some (take (e - 1) (drop 1 s), drop (i + 1) s))
          else if CHR '':'' \<in> set (take i s) \<or> CHR ''['' \<in> set s \<or> CHR '']'' \<in> set s then None
          else Some (take i s, drop (i + 1) s))"

definition join_host_port :: "string \<Rightarrow> string \<Rightarrow> string" where
  "join_host_port host port =
     (if CHR '':'' \<in> set host then ''['' @ host @ '']:'' @ port else host @ '':'' @ port)"

lemma takeWhile_upto: "c \<notin> set xs \<Longrightarrow> takeWhile (\<lambda>x. x \<noteq> c) (xs @ c # ys) = xs"
  by (induction xs) auto

lemma last_index_append: "c \<notin> set t \<Longrightarrow> last_index c (s @ c # t) = Some (length s)"
  by (simp add: last_index_def takeWhile_upto)

lemma split_join_host_port:
  assumes "\<not> {CHR ''['', CHR '']''} \<inter> set host \<noteq> {}" and "\<not> {CHR '':'', CHR ''['', CHR '']''} \<inter> set port \<noteq> {}"
  shows "split_host_port (join_host_port host port) = Some (host, port)"
proof (cases "CHR '':'' \<in> set host")
  case True
  have "last_index (CHR '':'') ((''['' @ host @ '']'') @ CHR '':'' # port) = Some (length host + 2)"
    using assms(2) by (subst last_index_append) auto
  moreover have "index_of (CHR '']'') (''['' @ host @ '']:'' @ port) = Some (length host + 1)"
    using assms(1) takeWhile_upto [of "CHR '']''" "''['' @ host"] by (simp add: index_of_def takeWhile_upto)
  ultimately show ?thesis
    using True assms by (auto simp: split_host_port_def join_host_port_def)
next
  case False
  have "last_index (CHR '':'') (host @ CHR '':'' # port) = Some (length host)"
    using assms(2) by (subst last_index_append) auto
  then show ?thesis
    using False assms by (cases host) (auto simp: split_host_port_def join_host_port_def)
qed

end
