(* ===== verification/Cidr.thy ===== *)
theory Cidr
  imports Go_Net
begin

text \<open>
  \<open>internal/flvx/cidr.go\<close>: sets of addresses of both families as sorted,
  merged ranges (\<open>ipRange\<close>, \<open>ipSet\<close>, \<open>dualSet\<close>), parsing of CIDRs, and the
  conversion back to CIDR blocks. \<open>ranges_set\<close> reads a list of ranges as the
  set of numbers it stands for; \<open>normal_ranges\<close> is the invariant. The lemmas
  show that every operation keeps the invariant and computes its set
  operation, that a set has one normal form (so the unstable sort of the code
  has no effect), and that \<open>cidrs\<close> is an exact cover with the least number of
  blocks.
\<close>

section \<open>Ranges and sets\<close>

record ipRange =
  r_lo :: u128
  r_hi :: u128

record ipSet =
  s_bits :: int
  s_ranges :: "ipRange list"

definition range_of :: "u128 \<Rightarrow> u128 \<Rightarrow> ipRange" where
  "range_of l h = \<lparr> r_lo = l, r_hi = h \<rparr>"

lemma range_of_sel [simp]: "r_lo (range_of l h) = l" "r_hi (range_of l h) = h"
  by (simp_all add: range_of_def)

text \<open>\<open>addrToU128\<close> shifts the bytes of an address into the two words.\<close>

definition addrToU128 :: "ip_addr \<Rightarrow> u128" where
  "addrToU128 a =
     (case a of
        IPv4 w \<Rightarrow>
          (let b = addr_as4 w
           in U128 0 (push_bit 24 (ucast (b ! 0)) OR push_bit 16 (ucast (b ! 1))
                      OR push_bit 8 (ucast (b ! 2)) OR ucast (b ! 3)))
      | IPv6 _ _ \<Rightarrow>
          (let b = addr_as16 a
           in foldl (\<lambda>v i. U128 (push_bit 8 (u_hi v) OR ucast (b ! i))
                                 (push_bit 8 (u_lo v) OR ucast (b ! (i + 8))))
                (U128 0 0) [0..<8]))"

text \<open>
  \<open>u128ToAddr\<close> writes the bytes and builds the address from them
  (\<open>AddrFrom4\<close>, \<open>AddrFrom16\<close>): the low 32 bits, or all of the value.
\<close>

definition u128ToAddr :: "u128 \<Rightarrow> int \<Rightarrow> ip_addr" where
  "u128ToAddr v bits = (if bits = 32 then IPv4 (ucast (u_lo v)) else IPv6 v [])"

definition parsePrefix :: "string \<Rightarrow> prefix option" where
  "parsePrefix s0 =
     (let s = trim_space s0 in
      if str_contains s ''/'' then
        (case parse_prefix s of
           None \<Rightarrow> None
         | Some p \<Rightarrow>
             let q = (if addr_is4in6 (pfx_addr p) \<and> 96 \<le> pfx_bits p
                      then prefix_from (addr_unmap (pfx_addr p)) (pfx_bits p - 96) else p)
             in Some (prefix_masked q))
      else
        (case parse_addr s of
           None \<Rightarrow> None
         | Some a \<Rightarrow> let u = addr_unmap a in Some (prefix_from u (addr_bit_len u))))"

definition prefixRange :: "prefix \<Rightarrow> ipRange \<times> int" where
  "prefixRange p =
     (let bitsLen = addr_bit_len (pfx_addr p);
          l = addrToU128 (pfx_addr p);
          host = mask128 (bitsLen - pfx_bits p)
      in (range_of (u128_andNot l host) (u128_or l host), bitsLen))"

text \<open>The loop of \<open>newIPSet\<close> over the sorted ranges, with the current merged range.\<close>

fun merge_ranges :: "ipRange \<Rightarrow> ipRange list \<Rightarrow> ipRange list" where
  "merge_ranges cur [] = [cur]"
| "merge_ranges cur (r # rs) =
     (let (next, overflow) = u128_add1 (r_hi cur) in
      if overflow \<or> u128_cmp (r_lo r) next \<le> 0
      then merge_ranges (if u128_cmp (r_hi r) (r_hi cur) > 0 then cur\<lparr>r_hi := r_hi r\<rparr> else cur) rs
      else cur # merge_ranges r rs)"

definition newIPSet :: "int \<Rightarrow> ipRange list \<Rightarrow> ipSet" where
  "newIPSet bits rs =
     \<lparr> s_bits = bits,
       s_ranges = (case sort_key r_lo rs of [] \<Rightarrow> [] | c # cs \<Rightarrow> merge_ranges c cs) \<rparr>"

definition fullSet :: "int \<Rightarrow> ipSet" where
  "fullSet bits = \<lparr> s_bits = bits, s_ranges = [range_of (U128 0 0) (mask128 bits)] \<rparr>"

text \<open>
  \<open>ipSet.subtract\<close>: the inner loop over the ranges of the subtrahend from the
  pointer on, for one range \<open>l..h\<close>; \<open>alive\<close> is the closing append.
\<close>

fun subtract_one :: "ipRange list \<Rightarrow> u128 \<Rightarrow> u128 \<Rightarrow> ipRange list" where
  "subtract_one [] l h = [range_of l h]"
| "subtract_one (x # xs) l h =
     (if u128_cmp (r_lo x) h > 0 then [range_of l h]
      else (if u128_cmp (r_lo x) l > 0 then [range_of l (u128_sub1 (r_lo x))] else [])
           @ (if u128_cmp (r_hi x) h \<ge> 0 then []
              else subtract_one xs (fst (u128_add1 (r_hi x))) h))"

text \<open>The outer loop: the pointer \<open>j\<close> is the rest of the subtrahend's ranges.\<close>

fun subtract_ranges :: "ipRange list \<Rightarrow> ipRange list \<Rightarrow> ipRange list" where
  "subtract_ranges [] xs = []"
| "subtract_ranges (r # rs) xs =
     (let ys = dropWhile (\<lambda>x. u128_cmp (r_hi x) (r_lo r) < 0) xs
      in subtract_one ys (r_lo r) (r_hi r) @ subtract_ranges rs ys)"

definition ipSet_subtract :: "ipSet \<Rightarrow> ipSet \<Rightarrow> ipSet" where
  "ipSet_subtract s t =
     \<lparr> s_bits = s_bits s, s_ranges = subtract_ranges (s_ranges s) (s_ranges t) \<rparr>"

fun ranges_intersect :: "ipRange list \<Rightarrow> ipRange list \<Rightarrow> bool" where
  "ranges_intersect (a # as) (b # bs) =
     (if u128_cmp (r_hi a) (r_lo b) < 0 then ranges_intersect as (b # bs)
      else if u128_cmp (r_hi b) (r_lo a) < 0 then ranges_intersect (a # as) bs
      else True)"
| "ranges_intersect _ _ = False"

definition ipSet_intersects :: "ipSet \<Rightarrow> ipSet \<Rightarrow> bool" where
  "ipSet_intersects s t = ranges_intersect (s_ranges s) (s_ranges t)"

text \<open>
  \<open>ipSet.cidrs\<close>: the size of the block at \<open>l\<close>, the blocks (first address and
  number of host bits) of one range, and their printed form.
\<close>

fun shrink_size :: "nat \<Rightarrow> u128 \<Rightarrow> u128 \<Rightarrow> nat" where
  "shrink_size 0 l h = 0"
| "shrink_size (Suc n) l h =
     (if u128_cmp (u128_or l (mask128 (int (Suc n)))) h > 0 then shrink_size n l h else Suc n)"

definition block_size :: "int \<Rightarrow> u128 \<Rightarrow> u128 \<Rightarrow> nat" where
  "block_size bits l h = shrink_size (min (u128_trailingZeros l) (nat bits)) l h"

definition block_end :: "u128 \<Rightarrow> nat \<Rightarrow> u128" where
  "block_end l n = u128_or l (mask128 (int n))"

lemma block_end_ge: "val128 l \<le> val128 (block_end l n)"
  by (simp add: block_end_def val128_or or_greater_eq)

lemma block_next_decreases:
  assumes "u128_cmp (block_end l n) h < 0"
  shows "val128 l < val128 (fst (u128_add1 (block_end l n))) \<and> val128 l < val128 h"
  using assms val128_add1_less [of "block_end l n" h] block_end_ge [of l n]
  by (simp add: u128_cmp_simps)

function cidr_blocks :: "int \<Rightarrow> u128 \<Rightarrow> u128 \<Rightarrow> (u128 \<times> nat) list" where
  "cidr_blocks bits l h =
     (let n = block_size bits l h; e = block_end l n
      in (l, n) # (if u128_cmp e h \<ge> 0 \<or> u128_cmp e (mask128 bits) = 0 then []
                   else cidr_blocks bits (fst (u128_add1 e)) h))"
  by pat_completeness auto
termination
  by (relation "measure (\<lambda>(_, l, h). nat (val128 h - val128 l))")
    (auto dest!: block_next_decreases simp: not_le)

declare cidr_blocks.simps [simp del]

definition set_blocks :: "ipSet \<Rightarrow> (u128 \<times> nat) list" where
  "set_blocks s = concat (map (\<lambda>r. cidr_blocks (s_bits s) (r_lo r) (r_hi r)) (s_ranges s))"

definition ipSet_cidrs :: "ipSet \<Rightarrow> string list" where
  "ipSet_cidrs s =
     map (\<lambda>(l, n). prefix_string (prefix_from (u128ToAddr l (s_bits s)) (s_bits s - int n)))
       (set_blocks s)"

section \<open>Both families\<close>

record dualSet =
  d_v4 :: ipSet
  d_v6 :: ipSet

definition newDualSet :: "prefix list \<Rightarrow> dualSet" where
  "newDualSet ps =
     (let rs = map prefixRange ps
      in \<lparr> d_v4 = newIPSet 32 (map fst (filter (\<lambda>(_, n). n = 32) rs)),
           d_v6 = newIPSet 128 (map fst (filter (\<lambda>(_, n). n \<noteq> 32) rs)) \<rparr>)"

definition dual_union :: "dualSet \<Rightarrow> dualSet \<Rightarrow> dualSet" where
  "dual_union d e =
     \<lparr> d_v4 = newIPSet 32 (s_ranges (d_v4 d) @ s_ranges (d_v4 e)),
       d_v6 = newIPSet 128 (s_ranges (d_v6 d) @ s_ranges (d_v6 e)) \<rparr>"

definition dual_subtract :: "dualSet \<Rightarrow> dualSet \<Rightarrow> dualSet" where
  "dual_subtract d e =
     \<lparr> d_v4 = ipSet_subtract (d_v4 d) (d_v4 e), d_v6 = ipSet_subtract (d_v6 d) (d_v6 e) \<rparr>"

definition dual_complement :: "dualSet \<Rightarrow> dualSet" where
  "dual_complement d =
     \<lparr> d_v4 = ipSet_subtract (fullSet 32) (d_v4 d), d_v6 = ipSet_subtract (fullSet 128) (d_v6 d) \<rparr>"

definition dual_intersects :: "dualSet \<Rightarrow> dualSet \<Rightarrow> bool" where
  "dual_intersects d e \<longleftrightarrow> ipSet_intersects (d_v4 d) (d_v4 e) \<or> ipSet_intersects (d_v6 d) (d_v6 e)"

definition dual_empty :: "dualSet \<Rightarrow> bool" where
  "dual_empty d \<longleftrightarrow> s_ranges (d_v4 d) = [] \<and> s_ranges (d_v6 d) = []"

definition dual_cidrs :: "dualSet \<Rightarrow> string list" where
  "dual_cidrs d = ipSet_cidrs (d_v4 d) @ ipSet_cidrs (d_v6 d)"

section \<open>The numbers of a set and its normal form\<close>

definition range_set :: "ipRange \<Rightarrow> int set" where
  "range_set r = {val128 (r_lo r) .. val128 (r_hi r)}"

definition ranges_set :: "ipRange list \<Rightarrow> int set" where
  "ranges_set rs = (\<Union>r \<in> set rs. range_set r)"

definition range_ok :: "ipRange \<Rightarrow> bool" where
  "range_ok r \<longleftrightarrow> r_lo r \<le> r_hi r"

definition apart :: "ipRange \<Rightarrow> ipRange \<Rightarrow> bool" where
  "apart a b \<longleftrightarrow> val128 (r_hi a) + 1 < val128 (r_lo b)"

definition normal_ranges :: "ipRange list \<Rightarrow> bool" where
  "normal_ranges rs \<longleftrightarrow> list_all range_ok rs \<and> sorted_wrt apart rs"

definition set_of :: "ipSet \<Rightarrow> int set" where
  "set_of s = ranges_set (s_ranges s)"

definition normal_set :: "ipSet \<Rightarrow> bool" where
  "normal_set s \<longleftrightarrow> normal_ranges (s_ranges s)"

lemma ranges_set_simps [simp]:
  "ranges_set [] = {}"
  "ranges_set (r # rs) = range_set r \<union> ranges_set rs"
  "ranges_set (rs @ ss) = ranges_set rs \<union> ranges_set ss"
  by (auto simp: ranges_set_def)

lemma mem_range_set [simp]: "x \<in> range_set r \<longleftrightarrow> val128 (r_lo r) \<le> x \<and> x \<le> val128 (r_hi r)"
  by (simp add: range_set_def)

lemma normal_ranges_simps [simp]:
  "normal_ranges []"
  "normal_ranges (r # rs) \<longleftrightarrow> range_ok r \<and> (\<forall>s \<in> set rs. apart r s) \<and> normal_ranges rs"
  by (auto simp: normal_ranges_def)

lemma normal_ranges_append:
  "normal_ranges (rs @ ss) \<longleftrightarrow>
     normal_ranges rs \<and> normal_ranges ss \<and> (\<forall>r \<in> set rs. \<forall>s \<in> set ss. apart r s)"
  by (induction rs) auto

lemma normal_ranges_above:
  "normal_ranges (r # rs) \<Longrightarrow> x \<in> ranges_set rs \<Longrightarrow> val128 (r_hi r) + 1 < x"
  by (auto simp: ranges_set_def apart_def)

lemma range_ok_iff: "range_ok r \<longleftrightarrow> val128 (r_lo r) \<le> val128 (r_hi r)"
  by (simp add: range_ok_def u128_le_iff)

lemma range_ok_of [simp]: "range_ok (range_of l h) \<longleftrightarrow> val128 l \<le> val128 h"
  by (simp add: range_ok_iff)

text \<open>Merging keeps the numbers, and gives the normal form.\<close>

lemma merge_cond:
  assumes "u128_add1 h = (next, overflow)"
  shows "overflow \<or> u128_cmp l next \<le> 0 \<longleftrightarrow> val128 l \<le> val128 h + 1"
proof (cases overflow)
  case True
  then have "val128 h = 2 ^ 128 - 1" using add1_overflow [of h] assms by simp
  then show ?thesis using True val128_less [of l] by simp
next
  case False
  then show ?thesis using val128_add1 [of h] assms by (simp add: u128_cmp_simps)
qed

lemma merge_ranges_Cons:
  "merge_ranges cur (r # rs) =
     (if val128 (r_lo r) \<le> val128 (r_hi cur) + 1
      then merge_ranges (range_of (r_lo cur) (max (r_hi cur) (r_hi r))) rs
      else cur # merge_ranges r rs)"
proof -
  have "(if u128_cmp (r_hi r) (r_hi cur) > 0 then cur\<lparr>r_hi := r_hi r\<rparr> else cur)
        = range_of (r_lo cur) (max (r_hi cur) (r_hi r))"
    by (cases cur) (auto simp: u128_cmp_simps range_of_def max_def u128_le_iff val128_inj)
  then show ?thesis by (auto simp: merge_cond split: prod.split)
qed

declare merge_ranges.simps(2) [simp del]

lemma merge_ranges_set:
  assumes "sorted (map r_lo (cur # rs))" and "list_all range_ok (cur # rs)"
  shows "ranges_set (merge_ranges cur rs) = ranges_set (cur # rs)"
  using assms
proof (induction rs arbitrary: cur)
  case (Cons r rs)
  have "ranges_set (cur # r # rs) = ranges_set (range_of (r_lo cur) (max (r_hi cur) (r_hi r)) # rs)"
    if "val128 (r_lo r) \<le> val128 (r_hi cur) + 1"
    using that Cons.prems by (auto simp: u128_le_iff range_ok_iff max_def)
  moreover have "range_ok (range_of (r_lo cur) (max (r_hi cur) (r_hi r)))"
    using Cons.prems by (auto simp: range_ok_iff u128_le_iff max_def)
  ultimately show ?case
    using Cons.IH [of r] Cons.IH [of "range_of (r_lo cur) (max (r_hi cur) (r_hi r))"] Cons.prems
    by (auto simp: merge_ranges_Cons)
qed simp

lemma merge_ranges_normal:
  assumes "sorted (map r_lo (cur # rs))" and "list_all range_ok (cur # rs)"
  shows "normal_ranges (merge_ranges cur rs) \<and> (\<forall>s \<in> set (merge_ranges cur rs). r_lo cur \<le> r_lo s)"
  using assms
proof (induction rs arbitrary: cur)
  case (Cons r rs)
  let ?m = "range_of (r_lo cur) (max (r_hi cur) (r_hi r))"
  have "range_ok ?m" using Cons.prems by (auto simp: range_ok_iff u128_le_iff max_def)
  then have join: "normal_ranges (merge_ranges ?m rs) \<and> (\<forall>s \<in> set (merge_ranges ?m rs). r_lo cur \<le> r_lo s)"
    using Cons.IH [of ?m] Cons.prems by auto
  have split: "normal_ranges (merge_ranges r rs) \<and> (\<forall>s \<in> set (merge_ranges r rs). r_lo r \<le> r_lo s)"
    using Cons.IH [of r] Cons.prems by auto
  show ?case
  proof (cases "val128 (r_lo r) \<le> val128 (r_hi cur) + 1")
    case False
    then have "\<forall>s \<in> set (merge_ranges r rs). apart cur s \<and> r_lo cur \<le> r_lo s"
      using split Cons.prems by (fastforce simp: apart_def u128_le_iff)
    then show ?thesis using False split Cons.prems by (simp add: merge_ranges_Cons)
  qed (use join in \<open>simp add: merge_ranges_Cons\<close>)
qed simp

lemma newIPSet_cases:
  obtains "sort_key r_lo rs = []" "rs = []"
  | c cs where "sort_key r_lo rs = c # cs" "sorted (map r_lo (c # cs))" "set (c # cs) = set rs"
  by (metis list.exhaust list.set(1) set_empty set_sort sorted_sort_key)

lemma newIPSet_correct:
  assumes "list_all range_ok rs"
  shows "normal_set (newIPSet bits rs)" and "set_of (newIPSet bits rs) = ranges_set rs"
proof -
  have "normal_set (newIPSet bits rs) \<and> set_of (newIPSet bits rs) = ranges_set rs"
  proof (rule newIPSet_cases [of rs])
    fix c cs
    assume c: "sort_key r_lo rs = c # cs" "sorted (map r_lo (c # cs))" "set (c # cs) = set rs"
    then have "list_all range_ok (c # cs)" using assms by (metis list_all_iff)
    moreover have "ranges_set (c # cs) = ranges_set rs" using c(3) by (simp add: ranges_set_def)
    ultimately show ?thesis
      using merge_ranges_set merge_ranges_normal c
      by (simp add: newIPSet_def normal_set_def set_of_def)
  qed (simp add: newIPSet_def normal_set_def set_of_def)
  then show "normal_set (newIPSet bits rs)" and "set_of (newIPSet bits rs) = ranges_set rs"
    by simp_all
qed

text \<open>A set has one normal form.\<close>

lemma normal_ranges_hd:
  assumes "normal_ranges (r # rs)"
  shows "val128 (r_lo r) \<in> ranges_set (r # rs)"
    and "x \<in> ranges_set (r # rs) \<Longrightarrow> val128 (r_lo r) \<le> x"
    and "val128 (r_hi r) + 1 \<notin> ranges_set (r # rs)"
  using assms normal_ranges_above [OF assms] by (force simp: range_ok_iff)+

lemma normal_ranges_tl:
  assumes "normal_ranges (r # rs)"
  shows "ranges_set rs = {x \<in> ranges_set (r # rs). val128 (r_hi r) < x}"
  using normal_ranges_above [OF assms] by force

lemma normal_ranges_unique:
  "normal_ranges rs \<Longrightarrow> normal_ranges ss \<Longrightarrow> ranges_set rs = ranges_set ss \<Longrightarrow> rs = ss"
proof (induction rs arbitrary: ss)
  case Nil
  then show ?case using normal_ranges_hd(1) [of "hd ss" "tl ss"] by (cases ss) auto
next
  case (Cons r rs)
  obtain s ss' where ss: "ss = s # ss'"
    using Cons.prems normal_ranges_hd(1) [of r rs] by (cases ss) auto
  note r = normal_ranges_hd [OF Cons.prems(1)] and s = normal_ranges_hd [of s ss']
  have lo: "val128 (r_lo r) = val128 (r_lo s)"
    using r(1,2) s(1,2) Cons.prems ss by (metis order_antisym)
  have hi: "val128 (r_hi r) = val128 (r_hi s)"
  proof (rule ccontr)
    assume "val128 (r_hi r) \<noteq> val128 (r_hi s)"
    moreover have "val128 (r_lo r) \<le> val128 (r_hi r)" "val128 (r_lo s) \<le> val128 (r_hi s)"
      using Cons.prems ss by (auto simp: range_ok_iff)
    ultimately have "val128 (r_hi r) + 1 \<in> range_set s \<or> val128 (r_hi s) + 1 \<in> range_set r"
      using lo by (cases "val128 (r_hi r) < val128 (r_hi s)") auto
    moreover have "val128 (r_hi r) + 1 \<notin> range_set s" "val128 (r_hi s) + 1 \<notin> range_set r"
      using r(3) s(3) Cons.prems ss by (metis UnI1 ranges_set_simps(2))+
    ultimately show False by blast
  qed
  have "r = s" using lo hi by (auto simp: val128_inj)
  moreover have "rs = ss'"
  proof (rule Cons.IH)
    show "ranges_set rs = ranges_set ss'"
      unfolding normal_ranges_tl [OF Cons.prems(1)] normal_ranges_tl [OF Cons.prems(2) [unfolded ss]]
      using Cons.prems(3) ss hi by simp
  qed (use Cons.prems ss in simp_all)
  ultimately show ?case using ss by simp
qed
text \<open>Difference.\<close>

lemma subtract_one_correct:
  assumes "normal_ranges xs" and "list_all (\<lambda>x. l \<le> r_hi x) xs" and "val128 l \<le> val128 h"
  shows "normal_ranges (subtract_one xs l h)
    \<and> ranges_set (subtract_one xs l h) = {val128 l .. val128 h} - ranges_set xs
    \<and> (\<forall>r \<in> set (subtract_one xs l h). val128 l \<le> val128 (r_lo r) \<and> val128 (r_hi r) \<le> val128 h)"
  using assms
proof (induction xs l h rule: subtract_one.induct)
  case (1 l h)
  then show ?case by (auto simp: range_set_def)
next
  case (2 x xs l h)
  have hi: "val128 l \<le> val128 (r_hi x)" "val128 (r_lo x) \<le> val128 (r_hi x)"
    using "2.prems" by (auto simp: u128_le_iff range_ok_iff)
  consider (after) "val128 (r_lo x) > val128 h"
    | (last) "val128 (r_lo x) \<le> val128 h" "val128 h \<le> val128 (r_hi x)"
    | (inside) "val128 (r_lo x) \<le> val128 h" "val128 (r_hi x) < val128 h" by linarith
  then show ?case
  proof cases
    case after
    then have "{val128 l .. val128 h} \<inter> ranges_set (x # xs) = {}"
      using normal_ranges_hd(2) [OF "2.prems"(1)] by fastforce
    then show ?thesis using after "2.prems" by (auto simp: u128_cmp_simps range_set_def)
  next
    case last
    have "ranges_set xs \<inter> {..val128 h} = {}"
      using normal_ranges_above [OF "2.prems"(1)] last by fastforce
    then have rest: "{val128 l .. val128 h} - ranges_set (x # xs) = {val128 l .. min (val128 h) (val128 (r_lo x) - 1)}"
      using last by auto
    show ?thesis
    proof (cases "val128 l < val128 (r_lo x)")
      case True
      then have "val128 (u128_sub1 (r_lo x)) = val128 (r_lo x) - 1"
        using val128_sub1 [of "r_lo x"] val128_nonneg [of l] by linarith
      then show ?thesis
        using last True unfolding rest by (simp add: u128_cmp_simps range_set_def)
    next
      case False
      then show ?thesis using last unfolding rest by (simp add: u128_cmp_simps)
    qed
  next
    case inside
    let ?l = "fst (u128_add1 (r_hi x))"
    have l: "val128 ?l = val128 (r_hi x) + 1" using inside by (simp add: val128_add1_less)
    have "list_all (\<lambda>y. ?l \<le> r_hi y) xs"
      using "2.prems"(1) l by (fastforce simp: list_all_iff u128_le_iff apart_def normal_ranges_def range_ok_iff)
    then have IH: "normal_ranges (subtract_one xs ?l h)"
      "ranges_set (subtract_one xs ?l h) = {val128 ?l .. val128 h} - ranges_set xs"
      "\<forall>r \<in> set (subtract_one xs ?l h). val128 ?l \<le> val128 (r_lo r) \<and> val128 (r_hi r) \<le> val128 h"
      using "2.IH" "2.prems" inside l by (auto simp: u128_cmp_simps)
    have above: "ranges_set xs \<inter> {..val128 (r_hi x)} = {}"
      using normal_ranges_above [OF "2.prems"(1)] by fastforce
    show ?thesis
    proof (cases "val128 l < val128 (r_lo x)")
      case True
      then have p: "val128 (u128_sub1 (r_lo x)) = val128 (r_lo x) - 1"
        using val128_sub1 [of "r_lo x"] val128_nonneg [of l] by linarith
      have "ranges_set (subtract_one (x # xs) l h)
            = {val128 l .. val128 (r_lo x) - 1} \<union> ({val128 (r_hi x) + 1 .. val128 h} - ranges_set xs)"
        using True inside IH(2) l p by (simp add: u128_cmp_simps range_set_def)
      also have "\<dots> = {val128 l .. val128 h} - ranges_set (x # xs)"
        using above hi True inside by (auto simp: range_set_def)
      finally show ?thesis
        using True inside IH(1,3) l p hi by (fastforce simp: u128_cmp_simps apart_def)
    next
      case False
      have "{val128 (r_hi x) + 1 .. val128 h} - ranges_set xs = {val128 l .. val128 h} - ranges_set (x # xs)"
        using above hi False by (auto simp: range_set_def)
      then show ?thesis
        using False inside IH l hi by (fastforce simp: u128_cmp_simps)
    qed
  qed
qed

lemma normal_ranges_dropWhile: "normal_ranges xs \<Longrightarrow> normal_ranges (dropWhile P xs)"
  by (induction xs) auto

lemma dropWhile_before:
  assumes "normal_ranges xs"
  shows "list_all (\<lambda>x. l \<le> r_hi x) (dropWhile (\<lambda>x. u128_cmp (r_hi x) l < 0) xs)"
    and "ranges_set (dropWhile (\<lambda>x. u128_cmp (r_hi x) l < 0) xs) \<inter> {val128 l ..}
         = ranges_set xs \<inter> {val128 l ..}"
proof -
  have "list_all (\<lambda>x. l \<le> r_hi x) (dropWhile (\<lambda>x. u128_cmp (r_hi x) l < 0) xs)
    \<and> ranges_set (dropWhile (\<lambda>x. u128_cmp (r_hi x) l < 0) xs) \<inter> {val128 l ..}
         = ranges_set xs \<inter> {val128 l ..}"
    using assms
  proof (induction xs)
    case (Cons x xs)
    show ?case
    proof (cases "u128_cmp (r_hi x) l < 0")
      case True
      then show ?thesis using Cons by (auto simp: u128_cmp_simps)
    next
      case False
      then have "val128 l \<le> val128 (r_hi x)" by (simp add: u128_cmp_simps)
      moreover have "\<forall>y \<in> set xs. val128 (r_hi x) \<le> val128 (r_hi y)"
        using Cons.prems by (force simp: apart_def normal_ranges_def list_all_iff range_ok_iff)
      ultimately show ?thesis using False by (auto simp: list_all_iff u128_le_iff)
    qed
  qed simp
  then show "list_all (\<lambda>x. l \<le> r_hi x) (dropWhile (\<lambda>x. u128_cmp (r_hi x) l < 0) xs)"
    and "ranges_set (dropWhile (\<lambda>x. u128_cmp (r_hi x) l < 0) xs) \<inter> {val128 l ..}
         = ranges_set xs \<inter> {val128 l ..}" by simp_all
qed

lemma subtract_ranges_correct:
  assumes "normal_ranges rs" and "normal_ranges xs"
  shows "normal_ranges (subtract_ranges rs xs)
    \<and> ranges_set (subtract_ranges rs xs) = ranges_set rs - ranges_set xs
    \<and> (\<forall>s \<in> set (subtract_ranges rs xs). range_set s \<noteq> {} \<and> range_set s \<subseteq> ranges_set rs)"
  using assms
proof (induction rs arbitrary: xs)
  case (Cons r rs)
  define ys where "ys = dropWhile (\<lambda>x. u128_cmp (r_hi x) (r_lo r) < 0) xs"
  let ?one = "subtract_one ys (r_lo r) (r_hi r)" and ?rest = "subtract_ranges rs ys"
  have ys: "normal_ranges ys" using Cons.prems(2) by (simp add: ys_def normal_ranges_dropWhile)
  note cut = dropWhile_before [OF Cons.prems(2), of "r_lo r", folded ys_def]
  have r: "val128 (r_lo r) \<le> val128 (r_hi r)" using Cons.prems(1) by (simp add: range_ok_iff)
  note one = subtract_one_correct [OF ys cut(1) r]
  note rest = Cons.IH [of ys]
  have rs: "normal_ranges rs" using Cons.prems(1) by simp
  have above: "val128 (r_hi r) + 1 < x" if "x \<in> ranges_set rs" for x
    using normal_ranges_above [OF Cons.prems(1) that] .
  have low: "ranges_set (r # rs) \<subseteq> {val128 (r_lo r) ..}"
    using normal_ranges_hd(2) [OF Cons.prems(1)] by auto
  have "ranges_set ?one \<union> ranges_set ?rest = ranges_set (r # rs) - ranges_set ys"
    using one rest ys rs by (auto simp: range_set_def)
  also have "\<dots> = ranges_set (r # rs) - ranges_set xs"
    using cut(2) low by blast
  finally have set: "ranges_set (?one @ ?rest) = ranges_set (r # rs) - ranges_set xs" by simp
  have sub: "s \<in> set ?rest \<Longrightarrow> val128 (r_hi r) + 1 < val128 (r_lo s)" for s
    using rest ys rs above by (force simp: range_set_def)
  have "normal_ranges (?one @ ?rest)"
    using one rest ys rs sub by (fastforce simp: normal_ranges_append apart_def)
  moreover have "range_set s \<noteq> {} \<and> range_set s \<subseteq> ranges_set (r # rs)" if "s \<in> set (?one @ ?rest)" for s
  proof (cases "s \<in> set ?one")
    case True
    then have "range_ok s" using one by (auto simp: normal_ranges_def list_all_iff)
    then show ?thesis using True one by (fastforce simp: range_ok_iff)
  next
    case False
    then show ?thesis using that rest ys rs by auto
  qed
  ultimately show ?case using set by (simp add: ys_def Let_def del: ranges_set_simps(3))
qed simp

lemma ipSet_subtract_correct:
  assumes "normal_set s" and "normal_set t"
  shows "normal_set (ipSet_subtract s t)" and "set_of (ipSet_subtract s t) = set_of s - set_of t"
  using subtract_ranges_correct assms by (auto simp: normal_set_def set_of_def ipSet_subtract_def)

text \<open>Intersection test.\<close>

lemma ranges_intersect_iff:
  "normal_ranges as \<Longrightarrow> normal_ranges bs \<Longrightarrow>
     ranges_intersect as bs \<longleftrightarrow> ranges_set as \<inter> ranges_set bs \<noteq> {}"
proof (induction as bs rule: ranges_intersect.induct)
  case (1 a as b bs)
  have a: "x \<in> ranges_set (a # as) \<Longrightarrow> val128 (r_lo a) \<le> x" for x
    using normal_ranges_hd(2) [OF "1.prems"(1)] .
  have b: "x \<in> ranges_set (b # bs) \<Longrightarrow> val128 (r_lo b) \<le> x" for x
    using normal_ranges_hd(2) [OF "1.prems"(2)] .
  consider "val128 (r_hi a) < val128 (r_lo b)"
    | "val128 (r_lo b) \<le> val128 (r_hi a)" "val128 (r_hi b) < val128 (r_lo a)"
    | "val128 (r_lo b) \<le> val128 (r_hi a)" "val128 (r_lo a) \<le> val128 (r_hi b)" by linarith
  then show ?case
  proof cases
    case 1
    then have "range_set a \<inter> ranges_set (b # bs) = {}" using b by fastforce
    moreover have "ranges_intersect as (b # bs) \<longleftrightarrow> ranges_set as \<inter> ranges_set (b # bs) \<noteq> {}"
      using 1 "1.IH"(1) "1.prems" by (auto simp: u128_cmp_simps)
    ultimately show ?thesis using 1 by (auto simp: u128_cmp_simps)
  next
    case 2
    then have "range_set b \<inter> ranges_set (a # as) = {}" using a by fastforce
    moreover have "ranges_intersect (a # as) bs \<longleftrightarrow> ranges_set (a # as) \<inter> ranges_set bs \<noteq> {}"
      using 2 "1.IH"(2) "1.prems" by (auto simp: u128_cmp_simps)
    ultimately show ?thesis using 2 by (auto simp: u128_cmp_simps)
  next
    case 3
    then have "max (val128 (r_lo a)) (val128 (r_lo b)) \<in> range_set a \<inter> range_set b"
      using "1.prems" by (auto simp: range_ok_iff)
    then have "ranges_set (a # as) \<inter> ranges_set (b # bs) \<noteq> {}"
      unfolding ranges_set_simps by blast
    then show ?thesis using 3 by (simp add: u128_cmp_simps)
  qed
qed simp_all

lemma ipSet_intersects_iff:
  "normal_set s \<Longrightarrow> normal_set t \<Longrightarrow> ipSet_intersects s t \<longleftrightarrow> set_of s \<inter> set_of t \<noteq> {}"
  by (simp add: ipSet_intersects_def normal_set_def set_of_def ranges_intersect_iff)
section \<open>The blocks of a range\<close>

definition cidr_set :: "u128 \<times> nat \<Rightarrow> int set" where
  "cidr_set b = {val128 (fst b) .. val128 (fst b) + 2 ^ snd b - 1}"

definition cidr_ok :: "int \<Rightarrow> u128 \<times> nat \<Rightarrow> bool" where
  "cidr_ok bits b \<longleftrightarrow> int (snd b) \<le> bits \<and> 2 ^ snd b dvd val128 (fst b)"

definition fits_bits :: "int \<Rightarrow> u128 \<Rightarrow> bool" where
  "fits_bits bits h \<longleftrightarrow> 0 \<le> bits \<and> bits \<le> 128 \<and> val128 h < 2 ^ nat bits"

lemma start_in_cidr [simp]: "val128 (fst b) \<in> cidr_set b"
  by (simp add: cidr_set_def)

lemma val_block_end: "2 ^ n dvd val128 l \<Longrightarrow> n \<le> 128 \<Longrightarrow> val128 (block_end l n) = val128 l + 2 ^ n - 1"
  by (simp add: block_end_def val128_or_mask)

lemma shrink_size_spec:
  assumes "2 ^ n dvd val128 l" and "n \<le> 128" and "val128 l \<le> val128 h"
  shows "shrink_size n l h \<le> n \<and> val128 l + 2 ^ shrink_size n l h - 1 \<le> val128 h
    \<and> (\<forall>k \<le> n. val128 l + 2 ^ k - 1 \<le> val128 h \<longrightarrow> k \<le> shrink_size n l h)"
  using assms
proof (induction n)
  case (Suc n)
  have "2 ^ n dvd val128 l" using Suc.prems(1) by (rule dvd_trans [rotated]) simp
  moreover have "val128 (u128_or l (mask128 (int (Suc n)))) = val128 l + 2 ^ Suc n - 1"
    using val_block_end [of "Suc n" l] Suc.prems by (simp add: block_end_def)
  ultimately show ?case
    using Suc.IH Suc.prems by (auto simp: u128_cmp_simps le_Suc_eq)
qed simp

lemma block_size_spec:
  assumes "val128 l \<le> val128 h" and "0 \<le> bits" and "bits \<le> 128"
  shows "cidr_ok bits (l, block_size bits l h)"
    and "val128 l + 2 ^ block_size bits l h - 1 \<le> val128 h"
    and "cidr_ok bits (l, k) \<Longrightarrow> val128 l + 2 ^ k - 1 \<le> val128 h \<Longrightarrow> k \<le> block_size bits l h"
proof -
  define n where "n = min (u128_trailingZeros l) (nat bits)"
  have n: "n \<le> 128" "2 ^ n dvd val128 l"
    using assms(2,3) by (auto simp: n_def trailingZeros_dvd_iff)
  note spec = shrink_size_spec [OF n(2,1) assms(1)]
  have size: "block_size bits l h = shrink_size n l h" by (simp add: block_size_def n_def)
  have "2 ^ shrink_size n l h dvd val128 l"
    using spec n(2) by (meson dvd_trans le_imp_power_dvd)
  moreover have "int (shrink_size n l h) \<le> bits" using spec assms(2) unfolding n_def by linarith
  ultimately show "cidr_ok bits (l, block_size bits l h)" by (simp add: cidr_ok_def size)
  show "val128 l + 2 ^ block_size bits l h - 1 \<le> val128 h" using spec by (simp add: size)
  assume k: "cidr_ok bits (l, k)" "val128 l + 2 ^ k - 1 \<le> val128 h"
  then have "k \<le> 128" "k \<le> nat bits" using assms(2,3) by (auto simp: cidr_ok_def)
  then have "k \<le> n" using k(1) by (simp add: n_def cidr_ok_def trailingZeros_dvd_iff)
  then show "k \<le> block_size bits l h" using spec k(2) by (simp add: size)
qed

lemma cidr_blocks_unfold:
  assumes "val128 l \<le> val128 h" and "fits_bits bits h"
  defines "n \<equiv> block_size bits l h"
  shows "cidr_blocks bits l h =
           (l, n) # (if val128 h \<le> val128 l + 2 ^ n - 1 then [] else cidr_blocks bits (fst (u128_add1 (block_end l n))) h)"
    and "val128 l + 2 ^ n - 1 < val128 h \<Longrightarrow> val128 (fst (u128_add1 (block_end l n))) = val128 l + 2 ^ n"
proof -
  have bits: "0 \<le> bits" "bits \<le> 128" using assms(2) by (auto simp: fits_bits_def)
  have "cidr_ok bits (l, n)" using block_size_spec(1) [OF assms(1) bits] by (simp add: n_def)
  then have e: "val128 (block_end l n) = val128 l + 2 ^ n - 1"
    using bits by (auto simp: cidr_ok_def val_block_end)
  have "val128 (mask128 bits) = 2 ^ nat bits - 1"
    using val128_mask [of "nat bits"] bits by (simp add: mask_eq_exp_minus_1)
  then have top: "u128_cmp (block_end l n) (mask128 bits) = 0 \<Longrightarrow> val128 h \<le> val128 (block_end l n)"
    using assms(2) by (simp add: u128_cmp_simps fits_bits_def)
  show "cidr_blocks bits l h =
           (l, n) # (if val128 h \<le> val128 l + 2 ^ n - 1 then [] else cidr_blocks bits (fst (u128_add1 (block_end l n))) h)"
    using e top by (subst cidr_blocks.simps) (auto simp: Let_def n_def u128_cmp_simps)
  assume "val128 l + 2 ^ n - 1 < val128 h"
  then show "val128 (fst (u128_add1 (block_end l n))) = val128 l + 2 ^ n"
    using e val128_add1_less by force
qed

lemma cidr_blocks_induct [consumes 2, case_names last more]:
  assumes "val128 l \<le> val128 h" and "fits_bits bits h"
    and last: "\<And>l n. \<lbrakk> val128 l \<le> val128 h; n = block_size bits l h; cidr_ok bits (l, n);
        val128 l + 2 ^ n - 1 = val128 h; cidr_blocks bits l h = [(l, n)] \<rbrakk> \<Longrightarrow> P l"
    and more: "\<And>l n l'. \<lbrakk> val128 l \<le> val128 h; n = block_size bits l h; cidr_ok bits (l, n);
        val128 l' = val128 l + 2 ^ n; val128 l' \<le> val128 h;
        cidr_blocks bits l h = (l, n) # cidr_blocks bits l' h; P l' \<rbrakk> \<Longrightarrow> P l"
  shows "P l"
  using assms(1)
proof (induction "nat (val128 h - val128 l)" arbitrary: l rule: less_induct)
  case less
  let ?n = "block_size bits l h"
  have bits: "0 \<le> bits" "bits \<le> 128" using assms(2) by (auto simp: fits_bits_def)
  note size = block_size_spec(1,2) [OF less.prems bits]
  note unf = cidr_blocks_unfold [OF less.prems assms(2)]
  show ?case
  proof (cases "val128 h \<le> val128 l + 2 ^ ?n - 1")
    case True
    then show ?thesis using size unf(1) less.prems by (intro last) auto
  next
    case False
    let ?l' = "fst (u128_add1 (block_end l ?n))"
    have l': "val128 ?l' = val128 l + 2 ^ ?n" using unf(2) False by simp
    moreover have "(0::int) < 2 ^ ?n" by simp
    ultimately have "P ?l'" using False by (intro less.hyps) linarith+
    then show ?thesis
      using l' False unf(1) size(1) less.prems by (intro more [of l ?n ?l']) auto
  qed
qed

definition cidr_before :: "u128 \<times> nat \<Rightarrow> u128 \<times> nat \<Rightarrow> bool" where
  "cidr_before b c \<longleftrightarrow> val128 (fst b) + 2 ^ snd b \<le> val128 (fst c)"

lemma cidr_blocks_cover:
  assumes "val128 l \<le> val128 h" and "fits_bits bits h"
  shows "(\<Union>b \<in> set (cidr_blocks bits l h). cidr_set b) = {val128 l .. val128 h}
    \<and> list_all (cidr_ok bits) (cidr_blocks bits l h)
    \<and> sorted_wrt cidr_before (cidr_blocks bits l h)"
  using assms
proof (induction rule: cidr_blocks_induct)
  case (last l n)
  then show ?case by (auto simp: cidr_set_def)
next
  case (more l n l')
  have "val128 l < val128 l'" using more.hyps(4) by simp
  moreover have e: "val128 l + 2 ^ n - 1 = val128 l' - 1" using more.hyps(4) by simp
  ultimately have "{val128 l .. val128 l + 2 ^ n - 1} \<union> {val128 l' .. val128 h} = {val128 l .. val128 h}"
    unfolding e using more.hyps(5) by auto
  moreover have "\<forall>b \<in> set (cidr_blocks bits l' h). val128 l' \<le> val128 (fst b)"
    using more.hyps by (metis (no_types) UN_I atLeastAtMost_iff more.IH start_in_cidr)
  ultimately show ?case
    using more.IH more.hyps(3,4) unfolding more.hyps(6) by (simp add: cidr_set_def cidr_before_def)
qed

text \<open>Two aligned blocks are disjoint or nested.\<close>

lemma aligned_laminar:
  fixes a b :: int
  assumes "2 ^ k dvd a" and "2 ^ n dvd b" and "b < a" and "a < b + 2 ^ n"
  shows "a + 2 ^ k \<le> b + 2 ^ n"
proof -
  have "k < n"
  proof (rule ccontr)
    assume "\<not> k < n"
    then have "2 ^ n dvd a" using assms(1) by (meson dvd_trans le_imp_power_dvd not_less)
    then have "2 ^ n dvd a - b" using assms(2) by simp
    then show False using assms(3,4) zdvd_not_zless [of "a - b" "2 ^ n"] by simp
  qed
  then have kn: "(2::int) ^ k dvd 2 ^ n" by (simp add: le_imp_power_dvd)
  then have "2 ^ k dvd b" using assms(2) by (rule dvd_trans)
  then have "2 ^ k dvd b + 2 ^ n - a" using assms(1) kn by simp
  then have "2 ^ k \<le> b + 2 ^ n - a" using assms(4) by (intro zdvd_imp_le) auto
  then show ?thesis by simp
qed

text \<open>
  Every aligned block inside the range that contains the first address of a
  block of \<open>cidr_blocks\<close> starts there: no cover can merge two of its blocks.
\<close>

lemma cidr_blocks_starts:
  assumes "val128 l \<le> val128 h" and "fits_bits bits h"
    and "\<And>c. cidr_ok bits c \<Longrightarrow> P c \<Longrightarrow> cidr_set c \<subseteq> {..val128 h}"
    and "\<And>c. cidr_ok bits c \<Longrightarrow> P c \<Longrightarrow> val128 l \<in> cidr_set c \<Longrightarrow> fst c = l"
  shows "\<forall>b \<in> set (cidr_blocks bits l h). \<forall>c. cidr_ok bits c \<longrightarrow> P c \<longrightarrow> val128 (fst b) \<in> cidr_set c
           \<longrightarrow> fst c = fst b"
  using assms(1,2,4)
proof (induction rule: cidr_blocks_induct)
  case (more l n l')
  have bits: "0 \<le> bits" "bits \<le> 128" using assms(2) by (auto simp: fits_bits_def)
  have "fst c = l'" if c: "cidr_ok bits c" "P c" "val128 l' \<in> cidr_set c" for c
  proof -
    obtain a k where ak: "c = (a, k)" by force
    have k: "val128 a \<le> val128 l'" "val128 l' < val128 a + 2 ^ k" "2 ^ k dvd val128 a"
      using c ak by (auto simp: cidr_set_def cidr_ok_def)
    have ah: "val128 a + 2 ^ k - 1 \<le> val128 h"
      using assms(3) [OF c(1,2)] ak by (simp add: cidr_set_def)
    have "\<not> val128 a \<le> val128 l"
    proof
      assume le: "val128 a \<le> val128 l"
      moreover have "val128 l < val128 l'" using more.hyps(4) by simp
      ultimately have "val128 l \<in> cidr_set c" using k(2) ak by (auto simp: cidr_set_def)
      then have "a = l" using more.prems [OF c(1,2)] ak by simp
      then have "k \<le> n"
        using block_size_spec(3) [OF more.hyps(1) bits, of k] c(1) ak ah more.hyps(2) by simp
      then have "(2::int) ^ k \<le> 2 ^ n" by simp
      then show False using k \<open>a = l\<close> more.hyps(4) by simp
    qed
    moreover have "\<not> (val128 l < val128 a \<and> val128 a < val128 l')"
    proof clarify
      assume "val128 l < val128 a" "val128 a < val128 l'"
      then have "val128 a + 2 ^ k \<le> val128 l + 2 ^ n"
        using k(3) more.hyps(3,4) by (intro aligned_laminar) (auto simp: cidr_ok_def)
      then show False using k(2) more.hyps(4) by linarith
    qed
    ultimately have "val128 a = val128 l'" using k(1) by linarith
    then show ?thesis using ak by (simp add: val128_inj)
  qed
  then show ?case using more by auto
qed auto

text \<open>All blocks of a set.\<close>

definition wf_set :: "ipSet \<Rightarrow> bool" where
  "wf_set s \<longleftrightarrow> normal_set s \<and> 0 \<le> s_bits s \<and> s_bits s \<le> 128 \<and> set_of s \<subseteq> {0 ..< 2 ^ nat (s_bits s)}"

definition exact_cover :: "ipSet \<Rightarrow> (u128 \<times> nat) list \<Rightarrow> bool" where
  "exact_cover s bs \<longleftrightarrow>
     list_all (cidr_ok (s_bits s)) bs \<and> (\<Union>b \<in> set bs. cidr_set b) = set_of s"

lemma wf_setD:
  assumes "wf_set s" and "r \<in> set (s_ranges s)"
  shows "val128 (r_lo r) \<le> val128 (r_hi r)" and "fits_bits (s_bits s) (r_hi r)"
proof -
  show r: "val128 (r_lo r) \<le> val128 (r_hi r)"
    using assms by (auto simp: wf_set_def normal_set_def normal_ranges_def list_all_iff range_ok_iff)
  have "val128 (r_hi r) \<in> set_of s"
    using assms(2) r by (force simp: set_of_def ranges_set_def)
  then show "fits_bits (s_bits s) (r_hi r)"
    using assms(1) by (auto simp: wf_set_def fits_bits_def)
qed

lemma sorted_wrt_concat_map:
  "(\<And>x. x \<in> set xs \<Longrightarrow> sorted_wrt R (f x)) \<Longrightarrow>
   (sorted_wrt (\<lambda>x y. \<forall>a \<in> set (f x). \<forall>b \<in> set (f y). R a b) xs) \<Longrightarrow> sorted_wrt R (concat (map f xs))"
  by (induction xs) (auto simp: sorted_wrt_append)

lemma set_blocks_cover:
  assumes "wf_set s"
  shows "exact_cover s (set_blocks s)" and "sorted_wrt cidr_before (set_blocks s)"
proof -
  let ?f = "\<lambda>r. cidr_blocks (s_bits s) (r_lo r) (r_hi r)"
  have cover: "(\<Union>b \<in> set (?f r). cidr_set b) = range_set r \<and> list_all (cidr_ok (s_bits s)) (?f r)
      \<and> sorted_wrt cidr_before (?f r)" if "r \<in> set (s_ranges s)" for r
    using cidr_blocks_cover [OF wf_setD [OF assms that]] by (simp add: range_set_def)
  have "(\<Union>b \<in> set (set_blocks s). cidr_set b) = (\<Union>r \<in> set (s_ranges s). \<Union>b \<in> set (?f r). cidr_set b)"
    by (auto simp: set_blocks_def)
  also have "\<dots> = set_of s" using cover by (simp add: set_of_def ranges_set_def)
  finally show "exact_cover s (set_blocks s)"
    using cover by (auto simp: exact_cover_def set_blocks_def list_all_iff)
  have before: "cidr_before b c" if "apart r r'" "r \<in> set (s_ranges s)" "r' \<in> set (s_ranges s)"
    "b \<in> set (?f r)" "c \<in> set (?f r')" for r r' b c
  proof -
    have "cidr_set b \<subseteq> range_set r" "val128 (fst c) \<in> range_set r'"
      using cover that by (blast intro: start_in_cidr)+
    moreover have "val128 (fst b) + 2 ^ snd b - 1 \<in> cidr_set b" by (simp add: cidr_set_def)
    ultimately have "val128 (fst b) + 2 ^ snd b - 1 \<le> val128 (r_hi r)" "val128 (r_lo r') \<le> val128 (fst c)"
      by auto
    then show ?thesis using that(1) by (simp add: cidr_before_def apart_def)
  qed
  have "sorted_wrt apart (s_ranges s)"
    using assms by (simp add: wf_set_def normal_set_def normal_ranges_def)
  then have "sorted_wrt (\<lambda>r r'. \<forall>b \<in> set (?f r). \<forall>c \<in> set (?f r'). cidr_before b c) (s_ranges s)"
    by (rule sorted_wrt_mono_rel [rotated]) (intro ballI, rule before)
  then show "sorted_wrt cidr_before (set_blocks s)"
    unfolding set_blocks_def by (intro sorted_wrt_concat_map) (use cover in auto)
qed

lemma distinct_map_sorted_wrt: "sorted_wrt (\<lambda>b c. f b \<noteq> f c) xs \<longleftrightarrow> distinct (map f xs)"
  by (induction xs) auto

lemma interval_in_one_range:
  assumes "normal_ranges rs" and "r \<in> set rs" and "{a..c} \<subseteq> ranges_set rs"
    and "x \<in> {a..c}" and "x \<in> range_set r"
  shows "{a..c} \<subseteq> range_set r"
proof -
  have r: "val128 (r_lo r) \<le> val128 (r_hi r)"
    using assms(1,2) by (auto simp: normal_ranges_def list_all_iff range_ok_iff)
  have gap: "y \<notin> ranges_set rs" if "y = val128 (r_hi r) + 1 \<or> y = val128 (r_lo r) - 1" for y
  proof
    assume "y \<in> ranges_set rs"
    then obtain r' where r': "r' \<in> set rs" "y \<in> range_set r'" by (auto simp: ranges_set_def)
    have "r' = r \<or> apart r r' \<or> apart r' r"
      using assms(1,2) r'(1)
      by (induction rs) auto
    then show False using that r' r by (auto simp: apart_def)
  qed
  have "\<not> val128 (r_hi r) < c"
  proof
    assume "val128 (r_hi r) < c"
    then have "val128 (r_hi r) + 1 \<in> {a..c}" using assms(4,5) by auto
    then show False using gap assms(3) by blast
  qed
  moreover have "\<not> a < val128 (r_lo r)"
  proof
    assume "a < val128 (r_lo r)"
    then have "val128 (r_lo r) - 1 \<in> {a..c}" using assms(4,5) by auto
    then show False using gap assms(3) by blast
  qed
  ultimately show ?thesis by auto
qed

lemma set_blocks_minimal:
  assumes "wf_set s" and "exact_cover s cs"
  shows "length (set_blocks s) \<le> length cs"
proof -
  let ?f = "\<lambda>r. cidr_blocks (s_bits s) (r_lo r) (r_hi r)"
  have norm: "normal_ranges (s_ranges s)" using assms(1) by (simp add: wf_set_def normal_set_def)
  have one: "fst c = fst b" if r: "r \<in> set (s_ranges s)" and b: "b \<in> set (?f r)"
    and c: "c \<in> set cs" "val128 (fst b) \<in> cidr_set c" for r b c
  proof -
    let ?P = "\<lambda>d. d \<in> set cs \<and> cidr_set d \<subseteq> range_set r"
    note wf = wf_setD [OF assms(1) r]
    have inr: "val128 (fst b) \<in> range_set r"
      using cidr_blocks_cover [OF wf] b by (force simp: range_set_def)
    have "cidr_set c \<subseteq> ranges_set (s_ranges s)"
      using assms(2) c(1) by (auto simp: exact_cover_def set_of_def)
    then have sub: "cidr_set c \<subseteq> range_set r"
      using interval_in_one_range [OF norm r] c(2) inr unfolding cidr_set_def by blast
    have "cidr_ok (s_bits s) c" using assms(2) c(1) by (simp add: exact_cover_def list_all_iff)
    then show ?thesis
      using cidr_blocks_starts [OF wf, of ?P] b c sub
      by (force simp: range_set_def cidr_set_def val128_inj [symmetric])
  qed
  have "fst ` set (set_blocks s) \<subseteq> fst ` set cs"
  proof
    fix x assume "x \<in> fst ` set (set_blocks s)"
    then obtain r b where b: "r \<in> set (s_ranges s)" "b \<in> set (?f r)" "x = fst b"
      by (auto simp: set_blocks_def)
    then have "val128 (fst b) \<in> set_of s"
      using cidr_blocks_cover [OF wf_setD [OF assms(1) b(1)]] start_in_cidr [of b]
      by (force simp: set_of_def ranges_set_def range_set_def)
    then obtain c where "c \<in> set cs" "val128 (fst b) \<in> cidr_set c"
      using assms(2) unfolding exact_cover_def by blast
    then show "x \<in> fst ` set cs" using one [OF b(1,2)] b(3) by (metis image_eqI)
  qed
  then have "card (fst ` set (set_blocks s)) \<le> length cs"
    by (metis (no_types) List.finite_set card_length card_mono finite_imageI le_trans list.set_map length_map)
  moreover have "distinct (map fst (set_blocks s))"
  proof -
    have "sorted_wrt (\<lambda>b c. fst b \<noteq> fst c) (set_blocks s)"
    proof (rule sorted_wrt_mono_rel [OF _ set_blocks_cover(2) [OF assms(1)]])
      fix b c assume "cidr_before b c"
      moreover have "val128 (fst b) < val128 (fst b) + 2 ^ snd b" by simp
      ultimately show "fst b \<noteq> fst c" by (auto simp: cidr_before_def)
    qed
    then show ?thesis by (simp add: distinct_map_sorted_wrt)
  qed
  ultimately show ?thesis by (metis distinct_card length_map list.set_map)
qed

end
