(* ===== verification/Net_Text.thy ===== *)
theory Net_Text
  imports Go_Net
begin

text \<open>
  Addresses and prefixes are read back from their text: \<open>netip.ParseAddr\<close> after
  \<open>Addr.String\<close> and \<open>netip.ParsePrefix\<close> after \<open>Prefix.String\<close>, for both families, the
  compressed form of IPv6 and the mixed form of mapped addresses. What the source prints for
  others to read is specified through this reading.
\<close>

section \<open>Numbers\<close>

lemma digit_not: "is_digit c \<Longrightarrow> c \<notin> {CHR ''.'', CHR '':'', CHR ''%'', CHR ''/''}"
  by (auto simp: is_digit_def byte_def)

lemma dec_digits_clean: "0 \<le> n \<Longrightarrow> c \<in> {CHR ''.'', CHR '':'', CHR ''%'', CHR ''/''} \<Longrightarrow> c \<notin> set (dec_digits n)"
  using dec_digits_digits [of n] digit_not by (auto simp: list_all_iff)

lemma zero_char: "byte c = 48 \<Longrightarrow> c = CHR ''0''"
proof -
  assume "byte c = 48"
  moreover have "char_of (byte c) = c" by (simp add: byte_def)
  moreover have "char_of (48 :: nat) = CHR ''0''" by code_simp
  ultimately show ?thesis by simp
qed

lemma hd_dec_digits: "0 < n \<Longrightarrow> hd (dec_digits n) \<noteq> CHR ''0''"
proof (induction n rule: dec_digits.induct)
  case (1 n)
  have one: "digit_char (nat n) \<noteq> CHR ''0''" if "n < 10"
  proof
    assume "digit_char (nat n) = CHR ''0''"
    then have "byte (digit_char (nat n)) = 48" by (simp add: byte_def)
    then show False using byte_digit_char [of "nat n"] that 1(2) by simp
  qed
  show ?case
  proof (cases "n < 10")
    case True
    then show ?thesis using one by (simp add: dec_digits.simps [of n])
  next
    case False
    then have "hd (dec_digits (n div 10)) \<noteq> CHR ''0''" using 1(1) 1(2) by simp
    then show ?thesis using False by (simp add: dec_digits.simps [of n] hd_append)
  qed
qed

lemma dec_digits_short: "0 \<le> n \<Longrightarrow> 1 < length (dec_digits n) \<Longrightarrow> 0 < n"
  by (cases "n = 0") (simp_all add: dec_digits.simps [of 0])

lemma ipv4_field_digits: "0 \<le> n \<Longrightarrow> n \<le> 255 \<Longrightarrow> ipv4_field (dec_digits n) = Some n"
  using hd_dec_digits [of n] dec_digits_short [of n] by (auto simp: ipv4_field_def)

lemma hex_char_spec: "d < 16 \<Longrightarrow> hex_value (hex_char d) = Some d"
  by (auto simp: hex_value_def hex_char_def is_digit_def byte_def of_char_char_of_lt)

lemma hex_digits_hex: "0 \<le> n \<Longrightarrow> list_all is_hex (hex_digits n)"
proof (induction n rule: hex_digits.induct)
  case (1 n)
  then show ?case by (cases "n < 16") (simp_all add: hex_digits.simps [of n] is_hex_def hex_char_spec nat_less_iff)
qed

lemma hex_digits_not_Nil [simp]: "hex_digits n \<noteq> []"
  by (simp add: hex_digits.simps [of n])

lemma hex_number_digits: "0 \<le> n \<Longrightarrow> hex_number (hex_digits n) = n"
proof (induction n rule: hex_digits.induct)
  case (1 n)
  then show ?case
    by (cases "n < 16") (simp_all add: hex_digits.simps [of n] hex_number_def hex_char_spec nat_less_iff)
qed

lemma hex_digits_length: "0 \<le> n \<Longrightarrow> n < 16 ^ Suc k \<Longrightarrow> length (hex_digits n) \<le> Suc k"
proof (induction k arbitrary: n)
  case (Suc k)
  then show ?case
    by (cases "n < 16") (simp_all add: hex_digits.simps [of n] div_less_iff_less_mult)
qed (simp add: hex_digits.simps)

lemma dec_digits_length: "0 \<le> n \<Longrightarrow> n < 10 ^ Suc k \<Longrightarrow> length (dec_digits n) \<le> Suc k"
proof (induction k arbitrary: n)
  case (Suc k)
  then show ?case
    by (cases "n < 10") (simp_all add: dec_digits.simps [of n] div_less_iff_less_mult)
qed (simp add: dec_digits.simps)

lemma hex_not: "is_hex c \<Longrightarrow> c \<notin> {CHR ''.'', CHR '':'', CHR ''%'', CHR ''/''}"
  by (auto simp: is_hex_def hex_value_def is_digit_def byte_def)

section \<open>IPv4\<close>

lemma ipv4_parts: "addr_as4 w = [ucast (drop_bit 24 w), ucast (drop_bit 16 w), ucast (drop_bit 8 w), ucast w]"
  by (simp add: addr_as4_def upt_rec)

lemma uint_drop: "uint (drop_bit n w) = uint w div 2 ^ n" for w :: "'a::len word"
  using uint_lt2p [of w] by (simp add: unsigned_drop_bit_eq take_bit_int_eq_self flip: drop_bit_eq_div)

lemma byte_uint: "k = 2 ^ n \<Longrightarrow> uint (ucast (drop_bit n w :: 32 word) :: 8 word) = uint w div k mod 256"
proof -
  assume k: "k = 2 ^ n"
  have "uint (ucast (drop_bit n w) :: 8 word) = take_bit 8 (uint (drop_bit n w))" by (simp add: unsigned_ucast_eq)
  then show ?thesis by (simp only: uint_drop k take_bit_eq_mod) simp
qed

lemma bytes_of: "map uint (addr_as4 w) = [uint w div 16777216 mod 256, uint w div 65536 mod 256, uint w div 256 mod 256, uint w mod 256]"
proof -
  have k: "16777216 = (2 :: int) ^ 24" "65536 = (2 :: int) ^ 16" "256 = (2 :: int) ^ 8" "1 = (2 :: int) ^ 0" by simp_all
  have z: "ucast w = (ucast (drop_bit 0 w) :: 8 word)" by simp
  show ?thesis unfolding ipv4_parts list.map z byte_uint [OF k(1)] byte_uint [OF k(2)] byte_uint [OF k(3)] byte_uint [OF k(4)] by (simp only: div_by_1)
qed

lemma uint8: "0 \<le> uint (b :: 8 word)" "uint (b :: 8 word) \<le> 255"
  using uint_lt2p [of b] by simp_all

lemma parse_ipv4_string: "parse_ipv4 (ipv4_string w) = Some (map uint (addr_as4 w))"
proof -
  have "go_split (CHR ''.'') (ipv4_string w) = map (\<lambda>b. dec_digits (uint b)) (addr_as4 w)"
    unfolding ipv4_string_def
    by (rule go_split_join_plain) (simp_all add: ipv4_parts dec_digits_clean)
  then show ?thesis by (simp add: parse_ipv4_def ipv4_parts ipv4_field_digits uint8)
qed

lemma fields_ipv4: "ipv4_of_fields (map uint (addr_as4 w)) = IPv4 w"
proof -
  define x where "x = uint w"
  have x: "0 \<le> x" "x < 4294967296" using uint_lt2p [of w] by (simp_all add: x_def)
  have f: "map uint (addr_as4 w) = [x div 16777216 mod 256, x div 65536 mod 256, x div 256 mod 256, x mod 256]"
    unfolding x_def by (rule bytes_of)
  have d: "x div 16777216 = x div 256 div 256 div 256" "x div 65536 = x div 256 div 256" by simp_all
  have "x div 256 div 256 div 256 mod 256 = x div 256 div 256 div 256" using x by (intro mod_pos_pos_trivial) simp_all
  then have v: "((x div 16777216 mod 256 * 256 + x div 65536 mod 256) * 256 + x div 256 mod 256) * 256 + x mod 256 = x"
    unfolding d by (simp only: div_mult_mod_eq)
  have "(of_int (((x div 16777216 mod 256 * 256 + x div 65536 mod 256) * 256 + x div 256 mod 256) * 256 + x mod 256) :: 32 word) = w"
    unfolding v by (simp add: x_def)
  then show ?thesis by (simp only: ipv4_of_fields_def f foldl.simps of_int_add of_int_mult of_int_numeral mult_zero_left add_0)
qed

lemma ipv4_text: "ipv4_string w = dec_digits (uint w div 16777216 mod 256) @ CHR ''.'' # dec_digits (uint w div 65536 mod 256)
    @ CHR ''.'' # dec_digits (uint w div 256 mod 256) @ CHR ''.'' # dec_digits (uint w mod 256)"
proof -
  have "map (\<lambda>b. dec_digits (uint b)) (addr_as4 w) = map dec_digits (map uint (addr_as4 w))" by simp
  then show ?thesis unfolding ipv4_string_def by (simp only: bytes_of list.map go_join.simps append.simps)
qed

lemma find_after: "list_all (\<lambda>x. \<not> P x) xs \<Longrightarrow> P c \<Longrightarrow> find P (xs @ c # ys) = Some c"
  by (induction xs) auto

lemma parse_addr_ipv4: "parse_addr (ipv4_string w) = Some (IPv4 w)"
proof -
  have "find (\<lambda>c. c = CHR ''.'' \<or> c = CHR '':'' \<or> c = CHR ''%'') (ipv4_string w) = Some (CHR ''.'')"
    unfolding ipv4_text by (rule find_after) (use dec_digits_clean [of "uint w div 16777216 mod 256"] in \<open>auto simp: list_all_iff\<close>)
  then show ?thesis by (simp add: parse_addr_def parse_ipv4_string fields_ipv4)
qed

lemma ipv4_string_clean: "c \<in> {CHR '':'', CHR ''%'', CHR ''/''} \<Longrightarrow> c \<notin> set (ipv4_string w)"
  using dec_digits_clean [of _ c] by (auto simp: ipv4_text)

section \<open>IPv6\<close>

definition group_ok :: "int \<Rightarrow> bool" where
  "group_ok g \<longleftrightarrow> 0 \<le> g \<and> g < 65536"

lemma hex_prefix_digits: "group_ok g \<Longrightarrow> s = [] \<or> \<not> is_hex (hd s) \<Longrightarrow> hex_prefix (hex_digits g @ s) = hex_digits g"
  using hex_digits_hex [of g] by (cases s) (auto simp: hex_prefix_def group_ok_def list_all_iff takeWhile_append)

lemma hex_digits_4: "group_ok g \<Longrightarrow> length (hex_digits g) \<le> 4"
  using hex_digits_length [of g 3] by (simp add: group_ok_def)

lemma not_hex [simp]: "\<not> is_hex (CHR '':'')" "\<not> is_hex (CHR ''.'')" "\<not> is_hex (CHR ''%'')" "\<not> is_hex (CHR ''/'')"
  using hex_not by blast+

lemma hex_text:
  assumes "list_all group_ok hs" and "hs \<noteq> []"
  obtains c cs where "go_join '':'' (map hex_digits hs) = c # cs" "is_hex c" "set cs \<subseteq> {x. is_hex x \<or> x = CHR '':''}"
proof -
  have all: "set (go_join '':'' (map hex_digits hs)) \<subseteq> {x. is_hex x \<or> x = CHR '':''}"
    using assms(1)
  proof (induction hs)
    case (Cons h hs)
    then show ?case using hex_digits_hex [of h] by (cases hs) (auto simp: group_ok_def list_all_iff)
  qed simp
  obtain h hs' where hs: "hs = h # hs'" using assms(2) by (cases hs) auto
  obtain d ds where d: "hex_digits h = d # ds" by (cases "hex_digits h") auto
  have "is_hex d" using hex_digits_hex [of h] assms(1) d by (simp add: hs group_ok_def)
  moreover obtain cs where "go_join '':'' (map hex_digits hs) = d # cs" using d by (cases hs') (auto simp: hs)
  ultimately show ?thesis using that all by auto
qed

text \<open>One group, followed by nothing, by a colon and a group, or by the ellipsis.\<close>

lemma groups_last: "group_ok g \<Longrightarrow> ipv6_groups (Suc n) gs el (hex_digits g) = Some (gs @ [g], el, [])"
  using hex_prefix_digits [of g "[]"] hex_digits_4 [of g] by (simp add: hex_number_digits group_ok_def)

lemma groups_colon:
  assumes "group_ok g" and "is_hex c"
  shows "ipv6_groups (Suc n) gs el (hex_digits g @ CHR '':'' # c # cs) = ipv6_groups n (gs @ [g]) el (c # cs)"
proof -
  have "c \<noteq> CHR '':''" using hex_not assms(2) by blast
  then show ?thesis
    using hex_prefix_digits [of g "CHR '':'' # c # cs"] hex_digits_4 [of g] assms by (simp add: hex_number_digits group_ok_def Let_def)
qed

lemma groups_ellipsis:
  assumes "group_ok g"
  shows "ipv6_groups (Suc n) gs None (hex_digits g @ CHR '':'' # CHR '':'' # s)
    = (if s = [] then Some (gs @ [g], Some (Suc (length gs)), []) else ipv6_groups n (gs @ [g]) (Some (Suc (length gs))) s)"
  using hex_prefix_digits [of g "CHR '':'' # CHR '':'' # s"] hex_digits_4 [of g] assms by (simp add: hex_number_digits group_ok_def Let_def)

lemma groups_join:
  assumes "list_all group_ok hs" and "hs \<noteq> []" and "length hs \<le> n"
  shows "ipv6_groups n gs el (go_join '':'' (map hex_digits hs)) = Some (gs @ hs, el, [])"
  using assms
proof (induction hs arbitrary: n gs)
  case (Cons h hs)
  then obtain k where n: "n = Suc k" by (cases n) auto
  show ?case
  proof (cases hs)
    case Nil
    then show ?thesis using Cons.prems n groups_last [of h] by simp
  next
    case (Cons h' hs')
    obtain c cs where c: "go_join '':'' (map hex_digits hs) = c # cs" "is_hex c"
      by (rule hex_text [of hs]) (use Cons.prems(1) Cons in auto)
    have join: "go_join '':'' (map hex_digits (h # hs)) = hex_digits h @ CHR '':'' # c # cs"
      using c(1) Cons by simp
    show ?thesis
      unfolding join n using groups_colon [of h c] Cons.IH [of k "gs @ [h]"] Cons.prems Cons c n by simp
  qed
qed simp

lemma groups_join_ellipsis:
  assumes "list_all group_ok (hs @ ts)" and "hs \<noteq> []" and "length hs + length ts \<le> n"
  shows "ipv6_groups n gs None (go_join '':'' (map hex_digits hs) @ ''::'' @ go_join '':'' (map hex_digits ts))
    = Some (gs @ hs @ ts, Some (length gs + length hs), [])"
  using assms
proof (induction hs arbitrary: n gs)
  case (Cons h hs)
  then obtain k where n: "n = Suc k" by (cases n) auto
  let ?T = "go_join '':'' (map hex_digits ts)"
  show ?case
  proof (cases hs)
    case Nil
    have "?T = [] \<longleftrightarrow> ts = []"
    proof (cases "ts = []")
      case False
      then show ?thesis by (rule hex_text [of ts, rotated]) (use Cons.prems(1) in auto)
    qed simp
    then show ?thesis
      using Nil Cons.prems n groups_ellipsis [of h k gs ?T] groups_join [of ts k "gs @ [h]" "Some (Suc (length gs))"] by auto
  next
    case (Cons h' hs')
    obtain c cs where c: "go_join '':'' (map hex_digits hs) = c # cs" "is_hex c"
      by (rule hex_text [of hs]) (use Cons.prems(1) Cons in auto)
    have join: "go_join '':'' (map hex_digits (h # hs)) @ ''::'' @ ?T = hex_digits h @ CHR '':'' # c # (cs @ ''::'' @ ?T)"
      using c(1) Cons by simp
    show ?thesis
      unfolding join n using groups_colon [of h c] Cons.IH [of k "gs @ [h]"] Cons.prems Cons c n by simp
  qed
qed simp

section \<open>The groups of a value\<close>

lemma word_parts:
  fixes w :: "64 word"
  shows "map (\<lambda>i. uint (drop_bit (48 - 16 * i) w AND 0xffff)) [0..<4]
    = [uint w div 281474976710656 mod 65536, uint w div 4294967296 mod 65536, uint w div 65536 mod 65536, uint w mod 65536]"
proof -
  have key: "uint (drop_bit n w AND 0xffff) = uint w div k mod 65536" if "k = 2 ^ n" for n k
  proof -
    have u: "uint (drop_bit n w) = uint w div 2 ^ n" by (rule uint_drop)
    have a: "drop_bit n w AND 0xffff = take_bit 16 (drop_bit n w)" by (simp only: take_bit_eq_mask mask_eq_exp_minus_1) simp
    have "uint (take_bit 16 (drop_bit n w)) = take_bit 16 (uint w div 2 ^ n)" unfolding unsigned_take_bit_eq u by (rule refl)
    moreover have "take_bit 16 (uint w div 2 ^ n) = uint w div 2 ^ n mod 65536" by (simp add: take_bit_eq_mod)
    ultimately show ?thesis by (simp only: a that)
  qed
  have l: "[0..<4] = [0, 1, 2, 3 :: nat]" by (simp add: upt_rec)
  have n: "48 - 16 * 0 = (48 :: nat)" "48 - 16 * 1 = (32 :: nat)" "48 - 16 * 2 = (16 :: nat)" "48 - 16 * 3 = (0 :: nat)" by simp_all
  have k: "281474976710656 = (2 :: int) ^ 48" "4294967296 = (2 :: int) ^ 32" "65536 = (2 :: int) ^ 16" "1 = (2 :: int) ^ 0" by simp_all
  show ?thesis unfolding l list.map n key [OF k(1)] key [OF k(2)] key [OF k(3)] key [OF k(4)] by (simp only: div_by_1)
qed

lemma pack_parts:
  fixes w :: "64 word"
  shows "foldl (\<lambda>v g. v * 65536 + of_int g) 0
    [uint w div 281474976710656 mod 65536, uint w div 4294967296 mod 65536, uint w div 65536 mod 65536, uint w mod 65536] = w"
proof -
  define x where "x = uint w"
  have x: "0 \<le> x" "x < 18446744073709551616" using uint_lt2p [of w] by (simp_all add: x_def)
  have d: "x div 281474976710656 = x div 65536 div 65536 div 65536" "x div 4294967296 = x div 65536 div 65536" by simp_all
  have "x div 65536 div 65536 div 65536 mod 65536 = x div 65536 div 65536 div 65536" using x by (intro mod_pos_pos_trivial) simp_all
  then have v: "((x div 281474976710656 mod 65536 * 65536 + x div 4294967296 mod 65536) * 65536 + x div 65536 mod 65536) * 65536 + x mod 65536 = x"
    unfolding d by (simp only: div_mult_mod_eq)
  have "(of_int (((x div 281474976710656 mod 65536 * 65536 + x div 4294967296 mod 65536) * 65536 + x div 65536 mod 65536) * 65536 + x mod 65536) :: 64 word) = w"
    unfolding v by (simp add: x_def)
  then show ?thesis by (simp add: x_def)
qed

lemma groups_of:
  "length (u128_groups v) = 8" "list_all group_ok (u128_groups v)" "groups_u128 (u128_groups v) = v"
proof -
  show "length (u128_groups v) = 8" by (simp add: u128_groups_def)
  show "list_all group_ok (u128_groups v)" by (simp add: u128_groups_def word_parts group_ok_def)
  have "take 4 (u128_groups v) = map (\<lambda>i. uint (drop_bit (48 - 16 * i) (u_hi v) AND 0xffff)) [0..<4]"
    and "drop 4 (u128_groups v) = map (\<lambda>i. uint (drop_bit (48 - 16 * i) (u_lo v) AND 0xffff)) [0..<4]"
    by (simp_all add: u128_groups_def)
  then show "groups_u128 (u128_groups v) = v"
    unfolding groups_u128_def Let_def by (simp only: word_parts pack_parts) simp
qed

lemma longest_run:
  assumes "longest_zero_run gs = (st, l)" and "length gs = 8"
  shows "l = 0 \<or> st + l \<le> 8 \<and> gs = take st gs @ replicate l 0 @ drop (st + l) gs"
proof -
  let ?f = "\<lambda>(st, l) i. if 2 \<le> zero_run gs i \<and> l < zero_run gs i then (i, zero_run gs i) else (st, l)"
  define Q where "Q p \<longleftrightarrow> snd p = 0 \<or> snd p = zero_run gs (fst p) \<and> fst p < 8" for p :: "nat \<times> nat"
  have "Q (?f p i)" if "Q p" "i < 8" for p i using that by (auto simp: Q_def split: prod.splits)
  then have "Q (foldl ?f p is)" if "Q p" "\<forall>i \<in> set is. i < 8" for p "is"
    using that by (induction "is" arbitrary: p) simp_all
  from this [of "(0, 0)" "[0..<8]"] have "l = 0 \<or> l = zero_run gs st \<and> st < 8"
    using assms(1) by (simp add: longest_zero_run_def Q_def)
  moreover have "st + l \<le> 8 \<and> gs = take st gs @ replicate l 0 @ drop (st + l) gs" if l: "l = zero_run gs st" "st < 8"
  proof -
    let ?t = "takeWhile (\<lambda>g. g = 0) (drop st gs)"
    have len: "length ?t \<le> length (drop st gs)" by (rule length_takeWhile_le)
    have "?t = replicate l 0"
      unfolding l(1) zero_run_def by (rule replicate_eqI) (auto dest: set_takeWhileD)
    moreover have "dropWhile (\<lambda>g. g = 0) (drop st gs) = drop (st + l) gs"
      using dropWhile_eq_drop [of "\<lambda>g. g = 0" "drop st gs"] l(1) by (simp add: zero_run_def add.commute)
    ultimately show ?thesis
      using len l assms(2) takeWhile_dropWhile_id [of "\<lambda>g. g = 0" "drop st gs"] append_take_drop_id [of st gs]
      by (simp add: zero_run_def)
  qed
  ultimately show ?thesis by blast
qed

section \<open>Addresses\<close>

lemma cut_clean: "c \<notin> set s \<Longrightarrow> go_cut s c = (s, [], False)"
  by (simp add: go_cut_def)

lemma find_colon: "is_hex c \<Longrightarrow> set cs \<subseteq> {x. is_hex x \<or> x = CHR '':''} \<Longrightarrow> CHR '':'' \<in> set cs
  \<Longrightarrow> find (\<lambda>c. c = CHR ''.'' \<or> c = CHR '':'' \<or> c = CHR ''%'') (c # cs) = Some (CHR '':'')"
proof -
  assume c: "is_hex c" "set cs \<subseteq> {x. is_hex x \<or> x = CHR '':''}" "CHR '':'' \<in> set cs"
  obtain a b where ab: "c # cs = a @ CHR '':'' # b" "CHR '':'' \<notin> set a" using c(3) split_list_first [of "CHR '':''" "c # cs"] by auto
  have "set a \<subseteq> {x. is_hex x \<or> x = CHR '':''}" using ab(1) c(1,2) by (cases a) auto
  then have "list_all (\<lambda>x. \<not> (x = CHR ''.'' \<or> x = CHR '':'' \<or> x = CHR ''%'')) a"
    using ab(2) hex_not by (fastforce simp: list_all_iff)
  then show ?thesis unfolding ab(1) by (rule find_after) simp
qed

lemma filled:
  assumes "gs = take st gs @ replicate l 0 @ drop (st + l) gs" "length gs = 8" "st + l \<le> 8"
  shows "take st (take st gs @ drop (st + l) gs) @ replicate (8 - length (take st gs @ drop (st + l) gs)) 0
      @ drop st (take st gs @ drop (st + l) gs) = gs"
  using assms by simp

lemma parse_ipv6_string: "parse_ipv6 (ipv6_string v) = Some (IPv6 v [])"
  and ipv6_string_clean: "set (ipv6_string v) \<subseteq> {x. is_hex x \<or> x = CHR '':''}"
  and ipv6_string_colon: "find (\<lambda>c. c = CHR ''.'' \<or> c = CHR '':'' \<or> c = CHR ''%'') (ipv6_string v) = Some (CHR '':'')"
proof -
  define gs where "gs = u128_groups v"
  have gs: "length gs = 8" "list_all group_ok gs" "groups_u128 gs = v" using groups_of [of v] by (simp_all add: gs_def)
  obtain st l where run: "longest_zero_run gs = (st, l)" by fastforce
  let ?J = "\<lambda>hs. go_join '':'' (map hex_digits hs)"
  have shape: "ipv6_string v = (if l = 0 then ?J gs else ?J (take st gs) @ ''::'' @ ?J (drop (st + l) gs))"
    using run by (simp add: ipv6_string_def gs_def [symmetric] take_map drop_map)
  have part: "set (?J hs) \<subseteq> {x. is_hex x \<or> x = CHR '':''}" if ok: "list_all group_ok hs" for hs
  proof (cases "hs = []")
    case False
    obtain c cs where c: "?J hs = c # cs" "is_hex c" "set cs \<subseteq> {x. is_hex x \<or> x = CHR '':''}" by (rule hex_text [OF ok False])
    then show ?thesis by auto
  qed simp
  have oks: "list_all group_ok (take st gs)" "list_all group_ok (drop (st + l) gs)"
    using gs(2) by (auto simp: list_all_iff dest: in_set_takeD in_set_dropD)
  show clean: "set (ipv6_string v) \<subseteq> {x. is_hex x \<or> x = CHR '':''}"
    using part [OF gs(2)] part [OF oks(1)] part [OF oks(2)] by (auto simp: shape)
  then have cut: "go_cut (ipv6_string v) (CHR ''%'') = (ipv6_string v, [], False)" using not_hex(3) by (intro cut_clean) auto
  have "parse_ipv6 (ipv6_string v) = Some (IPv6 v [])
    \<and> find (\<lambda>c. c = CHR ''.'' \<or> c = CHR '':'' \<or> c = CHR ''%'') (ipv6_string v) = Some (CHR '':'')"
  proof (cases "l = 0")
    case True
    obtain g h ts where g: "gs = g # h # ts" using gs(1) by (cases gs rule: remdups_adj.cases) auto
    obtain c cs where c: "?J gs = c # cs" "is_hex c" "set cs \<subseteq> {x. is_hex x \<or> x = CHR '':''}"
      by (rule hex_text [OF gs(2)]) (use g in auto)
    obtain d ds where d: "hex_digits g = d # ds" by (cases "hex_digits g") auto
    have "CHR '':'' \<in> set cs" using c(1) by (auto simp: g d)
    moreover have "\<not> has_prefix (c # cs) ''::''" using c(2) hex_not by (auto simp: has_prefix_def)
    moreover have "c # cs \<noteq> []" by simp
    ultimately show ?thesis
      using groups_join [OF gs(2), of 8 "[]" None] gs(1,3) True c g cut find_colon [OF c(2,3)]
      by (simp add: parse_ipv6_def shape trim_prefix_def Let_def)
  next
    case False
    have r: "st + l \<le> 8" "gs = take st gs @ replicate l 0 @ drop (st + l) gs" using longest_run [OF run gs(1)] False by auto
    note fill = filled [OF r(2) gs(1) r(1)]
    have t: "ipv6_string v = ?J (take st gs) @ ''::'' @ ?J (drop (st + l) gs)" using shape False by simp
    have short: "length (take st gs @ drop (st + l) gs) < 8" using r(1) gs(1) False by simp
    show ?thesis
    proof (cases "take st gs = []")
      case st: True
      then have st0: "st = 0" using gs(1) by auto
      show ?thesis
      proof (cases "drop (st + l) gs = []")
        case True
        have "gs = replicate 8 0" using r gs(1) st True by (metis append.right_neutral append_Nil length_replicate)
        then have "v = groups_u128 (replicate 8 0)" using gs(3) by simp
        then have "U128 0 0 = v" by (simp add: groups_u128_def numeral_eq_Suc)
        moreover have "ipv6_string v = ''::''" using t st True by simp
        ultimately show ?thesis using cut by (simp add: parse_ipv6_def has_prefix_def trim_prefix_def)
      next
        case nonempty: False
        obtain c cs where c: "?J (drop (st + l) gs) = c # cs" by (rule hex_text [OF oks(2) nonempty]) blast
        show ?thesis
          using groups_join [OF oks(2) nonempty, of 8 "[]" "Some 0"] cut st st0 c fill short gs(1,3)
          by (simp add: parse_ipv6_def t has_prefix_def trim_prefix_def Let_def)
      qed
    next
      case st: False
      obtain c cs where c: "?J (take st gs) = c # cs" "is_hex c" "set cs \<subseteq> {x. is_hex x \<or> x = CHR '':''}"
        by (rule hex_text [OF oks(1) st]) blast
      have "set (cs @ ''::'' @ ?J (drop (st + l) gs)) \<subseteq> {x. is_hex x \<or> x = CHR '':''}" using c(3) part [OF oks(2)] by auto
      note col = find_colon [OF c(2) this]
      have "\<not> has_prefix (c # cs @ ''::'' @ ?J (drop (st + l) gs)) ''::''" using c(2) hex_not by (auto simp: has_prefix_def)
      moreover have "ipv6_groups 8 [] None (?J (take st gs) @ ''::'' @ ?J (drop (st + l) gs))
          = Some (take st gs @ drop (st + l) gs, Some (length (take st gs)), [])"
        using groups_join_ellipsis [of "take st gs" "drop (st + l) gs" 8 "[]"] oks st r(1) gs(1) by simp
      moreover have "length (take st gs) = st" using r(1) gs(1) by simp
      ultimately show ?thesis
        using cut fill short gs(3) col c(1) by (simp add: parse_ipv6_def t trim_prefix_def Let_def)
    qed
  qed
  then show "parse_ipv6 (ipv6_string v) = Some (IPv6 v [])"
    and "find (\<lambda>c. c = CHR ''.'' \<or> c = CHR '':'' \<or> c = CHR ''%'') (ipv6_string v) = Some (CHR '':'')" by auto
qed

lemma mapped_groups:
  assumes "u_hi v = 0" and "drop_bit 32 (u_lo v) = 0xffff"
  shows "u128_groups v = replicate 5 0 @ [65535, uint (u_lo v) div 65536 mod 65536, uint (u_lo v) mod 65536]"
proof -
  have q: "uint (u_lo v) div 4294967296 = 65535" using uint_drop [of 32 "u_lo v"] assms(2) by simp
  have "uint (u_lo v) div 281474976710656 = uint (u_lo v) div 4294967296 div 65536" by simp
  then have "uint (u_lo v) div 281474976710656 = 0" using q by simp
  then show ?thesis unfolding u128_groups_def word_parts by (simp add: assms(1) q numeral_eq_Suc)
qed

lemma mod_part: "0 < a \<Longrightarrow> 0 < q \<Longrightarrow> x mod (a * q) div a = x div a mod q" for a q x :: int
  using zmod_zmult2_eq [of q x a] by simp

lemma two_bytes: "(y :: int) div 256 mod 256 * 256 + y mod 256 = y mod 65536"
  using zmod_zmult2_eq [of 256 y 256] by simp

lemma low_half: "(x :: int) mod 4294967296 div 65536 = x div 65536 mod 65536"
  using zmod_zmult2_eq [of 65536 x 65536] by simp

lemma ipv4_groups:
  fixes w :: "32 word"
  assumes "uint w = x mod 4294967296"
  shows "parse_ipv4 (ipv4_string w) = Some [x div 16777216 mod 256, x div 65536 mod 256, x div 256 mod 256, x mod 256]"
    and "(x div 16777216 mod 256) * 256 + x div 65536 mod 256 = x div 65536 mod 65536"
proof -
  show "(x div 16777216 mod 256) * 256 + x div 65536 mod 256 = x div 65536 mod 65536"
    using two_bytes [of "x div 65536"] zdiv_zmult2_eq [of 256 x 65536] by simp
  have m: "x mod 4294967296 div k mod 256 = x div k mod 256" if "4294967296 = k * (256 * r)" "0 < k" "0 < r" for k r
    unfolding that(1) mod_part [OF that(2), of "256 * r" x, OF mult_pos_pos [OF _ that(3)], simplified] by (rule mod_mod_cancel) simp
  have f: "x mod 4294967296 div 16777216 mod 256 = x div 16777216 mod 256" by (rule m [of 16777216 1]) simp_all
  have f2: "x mod 4294967296 div 65536 mod 256 = x div 65536 mod 256" by (rule m [of 65536 256]) simp_all
  have f3: "x mod 4294967296 div 256 mod 256 = x div 256 mod 256" by (rule m [of 256 65536]) simp_all
  have f4: "x mod 4294967296 mod 256 = x mod 256" by (rule mod_mod_cancel) simp
  have "map uint (addr_as4 w) = [x div 16777216 mod 256, x div 65536 mod 256, x div 256 mod 256, x mod 256]"
    unfolding bytes_of assms f f2 f3 f4 by (rule refl)
  then show "parse_ipv4 (ipv4_string w) = Some [x div 16777216 mod 256, x div 65536 mod 256, x div 256 mod 256, x mod 256]"
    by (simp only: parse_ipv4_string)
qed

lemma mapped_text:
  assumes "parse_ipv4 s = Some [a, b, c, d]" and "s = e @ CHR ''.'' # r" and "list_all is_digit e" and "e \<noteq> []" and "length e \<le> 4"
  shows "ipv6_groups 8 [] (Some 0) (''ffff:'' @ s) = Some ([65535, a * 256 + b, c * 256 + d], Some 0, [])"
proof -
  have hex: "is_hex x" if "is_digit x" for x using that by (simp add: is_hex_def hex_value_def)
  have "hex_prefix s = e"
    using assms(2,3) hex by (auto simp: hex_prefix_def list_all_iff takeWhile_append)
  then have two: "ipv6_groups 7 [65535] (Some 0) s = Some ([65535, a * 256 + b, c * 256 + d], Some 0, [])"
    using assms by (simp add: numeral_eq_Suc Let_def)
  obtain y ys where y: "e = y # ys" "is_hex y" using assms(3,4) hex by (cases e) auto
  have "hex_digits 65535 = ''ffff''" by code_simp
  then show ?thesis
    using groups_colon [of 65535 y 7 "[]" "Some 0" "ys @ CHR ''.'' # r"] two y assms(2) by (simp add: group_ok_def numeral_eq_Suc)
qed

lemma parse_mapped:
  assumes "addr_is4in6 (IPv6 v [])"
  shows "parse_ipv6 (''::ffff:'' @ ipv4_string (ucast (u_lo v))) = Some (IPv6 v [])"
proof -
  let ?w = "ucast (u_lo v) :: 32 word"
  define x where "x = uint (u_lo v)"
  have v: "u_hi v = 0" "drop_bit 32 (u_lo v) = 0xffff" using assms by (simp_all add: addr_is4in6_def)
  have w: "uint ?w = x mod 4294967296" by (simp add: unsigned_ucast_eq take_bit_eq_mod x_def)
  have cut: "go_cut (''::ffff:'' @ ipv4_string ?w) (CHR ''%'') = (''::ffff:'' @ ipv4_string ?w, [], False)"
    using ipv4_string_clean [of "CHR ''%''" ?w] by (intro cut_clean) simp
  let ?e = "dec_digits (uint ?w div 16777216 mod 256)"
  have "length ?e \<le> 4" using dec_digits_length [of "uint ?w div 16777216 mod 256" 3] by simp
  then have "ipv6_groups 8 [] (Some 0) (''ffff:'' @ ipv4_string ?w)
      = Some ([65535, x div 65536 mod 65536, x mod 65536], Some 0, [])"
    using mapped_text [OF ipv4_groups(1) [OF w] ipv4_text] ipv4_groups(2) [OF w] two_bytes [of x]
    by (simp add: dec_digits_digits)
  moreover have "groups_u128 (replicate 5 0 @ [65535, x div 65536 mod 65536, x mod 65536]) = v"
    using groups_of(3) [of v] mapped_groups [OF v] by (simp add: x_def)
  ultimately show ?thesis using cut by (simp add: parse_ipv6_def has_prefix_def trim_prefix_def Let_def)
qed

lemma addr_string_zoneless:
  "addr_zone a = [] \<Longrightarrow> addr_string a = (case a of IPv4 w \<Rightarrow> ipv4_string w
     | IPv6 v _ \<Rightarrow> if addr_is4in6 (IPv6 v []) then ''::ffff:'' @ ipv4_string (ucast (u_lo v)) else ipv6_string v)"
  by (cases a) (auto simp: addr_string_def addr_zone_def)

theorem parse_addr_string: "addr_zone a = [] \<Longrightarrow> parse_addr (addr_string a) = Some a"
  using parse_addr_ipv4 parse_mapped parse_ipv6_string ipv6_string_colon
  by (cases a) (auto simp: addr_string_zoneless parse_addr_def addr_zone_def)

lemma addr_string_no_slash: "addr_zone a = [] \<Longrightarrow> CHR ''/'' \<notin> set (addr_string a)"
proof -
  have "CHR ''/'' \<notin> set (ipv6_string v)" for v using ipv6_string_clean [of v] not_hex(4) by auto
  then show "addr_zone a = [] \<Longrightarrow> CHR ''/'' \<notin> set (addr_string a)"
    using ipv4_string_clean [of "CHR ''/''"] by (cases a) (auto simp: addr_string_zoneless)
qed

lemma addr_string_no_comma: "addr_zone a = [] \<Longrightarrow> CHR '','' \<notin> set (addr_string a)"
proof -
  have "\<not> is_hex (CHR '','')" by (simp add: is_hex_def hex_value_def is_digit_def byte_def)
  then have "CHR '','' \<notin> set (ipv6_string v)" for v using ipv6_string_clean [of v] by auto
  moreover have "CHR '','' \<notin> set (dec_digits n)" if "0 \<le> n" for n
    using dec_digits_digits [OF that] by (auto simp: list_all_iff is_digit_def byte_def)
  ultimately show "addr_zone a = [] \<Longrightarrow> CHR '','' \<notin> set (addr_string a)"
    by (cases a) (auto simp: addr_string_zoneless ipv4_text)
qed

section \<open>Prefixes\<close>

lemma parse_prefix_string:
  assumes "addr_zone (pfx_addr p) = []" and "0 \<le> pfx_bits p" and "pfx_bits p \<le> addr_bit_len (pfx_addr p)"
  shows "parse_prefix (prefix_string p) = Some p"
proof -
  let ?b = "go_itoa (pfx_bits p)"
  have b: "?b = dec_digits (pfx_bits p)" using assms(2) by (simp add: go_itoa_def)
  have str: "prefix_string p = addr_string (pfx_addr p) @ CHR ''/'' # ?b" using assms(2) by (simp add: prefix_string_def)
  have "last_index (CHR ''/'') (prefix_string p) = Some (length (addr_string (pfx_addr p)))"
    unfolding str by (rule last_index_append) (simp add: b dec_digits_clean assms(2))
  moreover have "1 < length ?b \<longrightarrow> CHR ''1'' \<le> hd ?b \<and> hd ?b \<le> CHR ''9''"
  proof
    assume "1 < length ?b"
    then have "0 < pfx_bits p" using dec_digits_short assms(2) b by simp
    then have "hd ?b \<noteq> CHR ''0''" using hd_dec_digits b by simp
    moreover have "is_digit (hd ?b)" using dec_digits_digits [OF assms(2)] dec_digits_not_Nil [of "pfx_bits p"] b by (cases "dec_digits (pfx_bits p)") auto
    moreover have "byte (hd ?b) \<noteq> 48" if "hd ?b \<noteq> CHR ''0''"
      using zero_char [of "hd ?b"] that by blast
    ultimately show "CHR ''1'' \<le> hd ?b \<and> hd ?b \<le> CHR ''9''"
      unfolding is_digit_def byte_def less_eq_char_def by simp
  qed
  moreover have "go_atoi ?b = Some (pfx_bits p)"
    using assms(2,3) addr_bit_len_def by (intro go_atoi_itoa) (auto simp: is_int64_def min_int64_def max_int64_def split: if_splits)
  moreover have "prefix_from (pfx_addr p) (pfx_bits p) = p"
    using assms by (cases "pfx_addr p") (auto simp: prefix_from_def addr_without_zone_def addr_zone_def intro: prefix.equality)
  ultimately show ?thesis
    using parse_addr_string [OF assms(1)] assms by (auto simp: parse_prefix_def str)
qed

end
