(* ===== verification/Cidr_Sets.thy ===== *)
theory Cidr_Sets
  imports Cidr Net_Text
begin

text \<open>
  The sets of addresses of \<open>internal/flvx/cidr.go\<close> as their users see them:
  what number an address is, which addresses a prefix has, and the interface
  \<open>address_sets\<close> (union, difference, complement, the two tests), interpreted
  on \<open>dualSet\<close>. The egress renderer relies on this interface only.
\<close>

section \<open>Addresses and prefixes as numbers\<close>

lemma word64_byte_step:
  fixes x :: "64 word"
  assumes "m + 8 \<le> 64"
  shows "push_bit 8 (drop_bit (m + 8) x) OR ucast (ucast (drop_bit m x) :: 8 word) = drop_bit m x"
proof (rule bit_word_eqI)
  fix n assume "n < LENGTH(64)"
  then show "bit (push_bit 8 (drop_bit (m + 8) x) OR ucast (ucast (drop_bit m x) :: 8 word)) n = bit (drop_bit m x) n"
    using assms
    by (cases "n < 8")
      (auto simp: bit_or_iff bit_push_bit_iff bit_drop_bit_eq bit_unsigned_iff add.commute
        dest: bit_imp_le_length)
qed

lemma nth_word64_bytes: "i < 8 \<Longrightarrow> word64_bytes x ! i = ucast (drop_bit (56 - 8 * i) x)"
  by (simp add: word64_bytes_def)

lemma word64_bytes_fold:
  "k \<le> 8 \<Longrightarrow> foldl (\<lambda>v i. push_bit 8 v OR ucast (word64_bytes x ! i)) 0 [0..<k] = drop_bit (64 - 8 * k) x"
proof (induction k)
  case 0
  have "drop_bit 64 x = 0" by (rule bit_word_eqI) (auto simp: bit_drop_bit_eq dest: bit_imp_le_length)
  then show ?case by simp
next
  case (Suc k)
  define m where "m = 64 - 8 * Suc k"
  have m: "64 - 8 * k = m + 8" "56 - 8 * k = m" "m + 8 \<le> 64" using Suc.prems by (auto simp: m_def)
  have "foldl (\<lambda>v i. push_bit 8 v OR ucast (word64_bytes x ! i)) 0 [0..<Suc k]
        = push_bit 8 (drop_bit (m + 8) x) OR ucast (word64_bytes x ! k)"
    using Suc.IH Suc.prems m(1) by (simp add: upt_Suc_append)
  also have "word64_bytes x ! k = ucast (drop_bit m x)"
    using nth_word64_bytes [of k x] Suc.prems m(2) by simp
  also have "push_bit 8 (drop_bit (m + 8) x) OR ucast (ucast (drop_bit m x) :: 8 word) = drop_bit m x"
    by (rule word64_byte_step [OF m(3)])
  finally show ?case by (simp only: m_def)
qed

lemma fold_pair:
  "foldl (\<lambda>v i. U128 (f (u_hi v) i) (g (u_lo v) i)) (U128 a b) xs = U128 (foldl f a xs) (foldl g b xs)"
  by (induction xs arbitrary: a b) auto

lemma nth_bytes:
  assumes "i < 8"
  shows "(word64_bytes x @ word64_bytes y) ! i = word64_bytes x ! i"
    and "(word64_bytes x @ word64_bytes y) ! (i + 8) = word64_bytes y ! i"
  using assms by (simp_all add: nth_append word64_bytes_def)

lemma foldl_cong_set: "(\<And>v i. i \<in> set xs \<Longrightarrow> f v i = g v i) \<Longrightarrow> foldl f a xs = foldl g a xs"
  by (rule foldl_cong) auto

lemma addrToU128_6 [simp]: "addrToU128 (IPv6 v z) = v"
proof -
  let ?b = "word64_bytes (u_hi v) @ word64_bytes (u_lo v)"
  have "addrToU128 (IPv6 v z) =
      U128 (foldl (\<lambda>w i. push_bit 8 w OR ucast (?b ! i)) 0 [0..<8])
           (foldl (\<lambda>w i. push_bit 8 w OR ucast (?b ! (i + 8))) 0 [0..<8])"
    using fold_pair [of "\<lambda>w i. push_bit 8 w OR ucast (?b ! i)" "\<lambda>w i. push_bit 8 w OR ucast (?b ! (i + 8))"]
    by (simp only: addrToU128_def addr_as16_def ip_addr.case Let_def)
  also have "foldl (\<lambda>w i. push_bit 8 w OR ucast (?b ! i)) 0 [0..<8] = u_hi v"
    using word64_bytes_fold [of 8 "u_hi v"]
    by (subst foldl_cong_set [of _ _ "\<lambda>w i. push_bit 8 w OR ucast (word64_bytes (u_hi v) ! i)"])
      (auto simp: nth_bytes)
  also have "foldl (\<lambda>w i. push_bit 8 w OR ucast (?b ! (i + 8))) 0 [0..<8] = u_lo v"
    using word64_bytes_fold [of 8 "u_lo v"]
    by (subst foldl_cong_set [of _ _ "\<lambda>w i. push_bit 8 w OR ucast (word64_bytes (u_lo v) ! i)"])
      (auto simp: nth_bytes)
  finally show ?thesis by simp
qed

lemma addrToU128_4 [simp]: "addrToU128 (IPv4 w) = U128 0 (ucast w)"
proof -
  have "push_bit 24 (ucast (ucast (drop_bit 24 w) :: 8 word)) OR push_bit 16 (ucast (ucast (drop_bit 16 w) :: 8 word))
      OR push_bit 8 (ucast (ucast (drop_bit 8 w) :: 8 word)) OR ucast (ucast w :: 8 word) = (ucast w :: 64 word)"
  proof (rule bit_word_eqI)
    fix n assume "n < LENGTH(64)"
    consider "n < 8" | "8 \<le> n" "n < 16" | "16 \<le> n" "n < 24" | "24 \<le> n" "n < 32" | "32 \<le> n" by linarith
    then show "bit (push_bit 24 (ucast (ucast (drop_bit 24 w) :: 8 word)) OR push_bit 16 (ucast (ucast (drop_bit 16 w) :: 8 word))
      OR push_bit 8 (ucast (ucast (drop_bit 8 w) :: 8 word)) OR ucast (ucast w :: 8 word) :: 64 word) n = bit (ucast w :: 64 word) n"
      using \<open>n < LENGTH(64)\<close>
      by cases (auto simp: bit_or_iff bit_push_bit_iff bit_drop_bit_eq bit_unsigned_iff dest: bit_imp_le_length)
  qed
  then show ?thesis
    by (simp add: addrToU128_def addr_as4_def upt_rec Let_def)
qed

lemma u128ToAddr_inverse:
  "bits = 32 \<and> addr_is4 a \<or> bits = 128 \<and> \<not> addr_is4 a \<and> addr_zone a = [] \<Longrightarrow> u128ToAddr (addrToU128 a) bits = a"
  by (cases a) (auto simp: u128ToAddr_def addr_is4_def addr_zone_def ucast_down_ucast_id is_down)

definition addr_val :: "ip_addr \<Rightarrow> int" where
  "addr_val a = val128 (addrToU128 a)"

definition valid_prefix :: "prefix \<Rightarrow> bool" where
  "valid_prefix p \<longleftrightarrow> 0 \<le> pfx_bits p \<and> pfx_bits p \<le> addr_bit_len (pfx_addr p)"

definition prefix_host_bits :: "prefix \<Rightarrow> nat" where
  "prefix_host_bits p = nat (addr_bit_len (pfx_addr p) - pfx_bits p)"

lemma addr_bit_len_cases: "addr_bit_len a = 32 \<or> addr_bit_len a = 128"
  by (simp add: addr_bit_len_def)

lemma addr_val_bounds: "0 \<le> addr_val a" "addr_val a < 2 ^ nat (addr_bit_len a)"
proof -
  show "0 \<le> addr_val a" by (simp add: addr_val_def)
  show "addr_val a < 2 ^ nat (addr_bit_len a)"
  proof (cases a)
    case (IPv4 w)
    then show ?thesis
      using uint_lt2p [of w] by (simp add: addr_val_def addr_bit_len_def addr_is4_def val128_def uint_up_ucast is_up)
  next
    case (IPv6 v z)
    then show ?thesis using val128_less [of v] by (simp add: addr_val_def addr_bit_len_def addr_is4_def)
  qed
qed

lemma and_not_mask_int: "(x :: int) AND NOT (mask k) = x - x mod 2 ^ k"
proof -
  have "x AND NOT (mask k) = push_bit k (drop_bit k x)"
    by (rule bit_eqI) (auto simp: bit_and_iff bit_not_iff bit_mask_iff bit_push_bit_iff bit_drop_bit_eq)
  then show ?thesis using bits_ident [of k x] by (simp add: take_bit_eq_mod)
qed

lemma or_mask_int: "(x :: int) OR mask k = x - x mod 2 ^ k + (2 ^ k - 1)"
proof -
  have "x OR mask k = (x AND NOT (mask k)) + mask k"
    by (subst disjunctive_add_eq_or) (auto simp: bit_eq_iff bit_and_iff bit_or_iff bit_not_iff)
  then show ?thesis unfolding and_not_mask_int by (simp add: mask_eq_exp_minus_1)
qed

lemma prefixRange_vals:
  assumes "valid_prefix p"
  defines "k \<equiv> prefix_host_bits p" and "a \<equiv> addr_val (pfx_addr p)"
  shows "val128 (r_lo (fst (prefixRange p))) = a - a mod 2 ^ k"
    and "val128 (r_hi (fst (prefixRange p))) = a - a mod 2 ^ k + (2 ^ k - 1)"
    and "snd (prefixRange p) = addr_bit_len (pfx_addr p)"
proof -
  have k: "k \<le> 128" "addr_bit_len (pfx_addr p) - pfx_bits p = int k"
    using assms(1) addr_bit_len_cases [of "pfx_addr p"]
    by (auto simp: k_def prefix_host_bits_def valid_prefix_def)
  then show "val128 (r_lo (fst (prefixRange p))) = a - a mod 2 ^ k"
    "val128 (r_hi (fst (prefixRange p))) = a - a mod 2 ^ k + (2 ^ k - 1)"
    "snd (prefixRange p) = addr_bit_len (pfx_addr p)"
    by (simp_all add: prefixRange_def Let_def val128_andNot val128_or val128_mask and_not_mask_int or_mask_int a_def addr_val_def)
qed

lemma block_of_div:
  fixes a x :: int assumes "0 < m"
  shows "a - a mod m \<le> x \<and> x \<le> a - a mod m + (m - 1) \<longleftrightarrow> x div m = a div m"
proof -
  have m: "a - a mod m = m * (a div m)" "x = m * (x div m) + x mod m"
    by (simp_all add: minus_mod_eq_mult_div)
  have "0 \<le> x mod m" "x mod m < m" using assms by simp_all
  moreover have "x div m = a div m" if "m * (a div m) \<le> x" "x \<le> m * (a div m) + (m - 1)"
    using that by (intro int_div_pos_eq [of x m "a div m" "x - m * (a div m)"]) auto
  ultimately show ?thesis unfolding m(1) using m(2) by (metis add.commute add_le_cancel_left le_add_same_cancel1 zle_diff1_eq)
qed

lemma block_interval: "0 < m \<Longrightarrow> {x. x div m = a div m} = {a - a mod m .. a - a mod m + m - 1}" for a m :: int
  unfolding block_of_div [symmetric] by auto

text \<open>The range of a prefix is the set of addresses that share its leading bits.\<close>

lemma prefixRange_set:
  assumes "valid_prefix p"
  shows "range_set (fst (prefixRange p)) =
    {x. x div 2 ^ prefix_host_bits p = addr_val (pfx_addr p) div 2 ^ prefix_host_bits p}"
  using prefixRange_vals [OF assms] block_of_div [of "2 ^ prefix_host_bits p"] by auto

section \<open>Well-formed sets of both families\<close>

lemma wf_setI:
  "normal_set s \<Longrightarrow> s_bits s \<in> {32, 128} \<Longrightarrow> set_of s \<subseteq> {0 ..< 2 ^ nat (s_bits s)} \<Longrightarrow> wf_set s"
  by (auto simp: wf_set_def)

definition wf_dual :: "dualSet \<Rightarrow> bool" where
  "wf_dual d \<longleftrightarrow> wf_set (d_v4 d) \<and> s_bits (d_v4 d) = 32 \<and> wf_set (d_v6 d) \<and> s_bits (d_v6 d) = 128"

definition dual_elems :: "dualSet \<Rightarrow> (int + int) set" where
  "dual_elems d = Inl ` set_of (d_v4 d) \<union> Inr ` set_of (d_v6 d)"

definition all_addrs :: "(int + int) set" where
  "all_addrs = Inl ` {0 ..< 2 ^ 32} \<union> Inr ` {0 ..< 2 ^ 128}"

definition prefix_elems :: "prefix \<Rightarrow> (int + int) set" where
  "prefix_elems p = (if addr_is4 (pfx_addr p) then Inl else Inr) ` range_set (fst (prefixRange p))"

text \<open>
  What the client of address sets relies on: union, difference, complement and
  the two tests, over the addresses a set stands for.
\<close>

locale address_sets =
  fixes wf :: "'s \<Rightarrow> bool" and elems :: "'s \<Rightarrow> 'a set" and univ :: "'a set"
    and union :: "'s \<Rightarrow> 's \<Rightarrow> 's" and minus :: "'s \<Rightarrow> 's \<Rightarrow> 's" and compl :: "'s \<Rightarrow> 's"
    and meets :: "'s \<Rightarrow> 's \<Rightarrow> bool" and is_empty :: "'s \<Rightarrow> bool"
  assumes union_wf: "wf d \<Longrightarrow> wf e \<Longrightarrow> wf (union d e)"
    and union_elems: "wf d \<Longrightarrow> wf e \<Longrightarrow> elems (union d e) = elems d \<union> elems e"
    and minus_wf: "wf d \<Longrightarrow> wf e \<Longrightarrow> wf (minus d e)"
    and minus_elems: "wf d \<Longrightarrow> wf e \<Longrightarrow> elems (minus d e) = elems d - elems e"
    and compl_wf: "wf d \<Longrightarrow> wf (compl d)"
    and compl_elems: "wf d \<Longrightarrow> elems (compl d) = univ - elems d"
    and meets_iff: "wf d \<Longrightarrow> wf e \<Longrightarrow> meets d e \<longleftrightarrow> elems d \<inter> elems e \<noteq> {}"
    and is_empty_iff: "wf d \<Longrightarrow> is_empty d \<longleftrightarrow> elems d = {}"
begin

lemma unions:
  "wf d \<Longrightarrow> list_all wf es \<Longrightarrow> wf (foldl union d es) \<and> elems (foldl union d es) = elems d \<union> (\<Union>e \<in> set es. elems e)"
  by (induction es arbitrary: d) (auto simp: union_wf union_elems)

lemma remainder:
  assumes "wf d" and "wf e"
  shows "elems (if meets d e then minus d e else d) = elems d - elems e"
    and "wf (if meets d e then minus d e else d)"
  using assms by (auto simp: minus_elems minus_wf meets_iff)

lemma remainder_empty:
  "wf d \<Longrightarrow> wf e \<Longrightarrow> is_empty (minus d e) \<longleftrightarrow> elems d \<subseteq> elems e"
  by (auto simp: minus_elems minus_wf is_empty_iff)

lemma compl_minus: "wf d \<Longrightarrow> wf e \<Longrightarrow> elems (minus (compl d) e) = univ - (elems d \<union> elems e)"
  by (auto simp: minus_elems compl_wf compl_elems)

end

lemma newIPSet_wf:
  assumes "list_all range_ok rs" and "bits \<in> {32, 128}" and "ranges_set rs \<subseteq> {0 ..< 2 ^ nat bits}"
  shows "wf_set (newIPSet bits rs)"
proof -
  have "s_bits (newIPSet bits rs) = bits" by (simp add: newIPSet_def)
  then show ?thesis using assms newIPSet_correct [OF assms(1), of bits] by (intro wf_setI) simp_all
qed

lemma ipSet_subtract_wf:
  assumes "wf_set s" and "wf_set t"
  shows "wf_set (ipSet_subtract s t)"
proof -
  have "normal_set s" "normal_set t" using assms by (simp_all add: wf_set_def)
  note sub = ipSet_subtract_correct [OF this]
  have "s_bits (ipSet_subtract s t) = s_bits s" by (simp add: ipSet_subtract_def)
  moreover have "set_of (ipSet_subtract s t) \<subseteq> {0 ..< 2 ^ nat (s_bits s)}"
    using assms(1) unfolding sub(2) wf_set_def by blast
  ultimately show ?thesis using sub(1) assms(1) by (simp add: wf_set_def)
qed

lemma fullSet_wf:
  assumes "bits \<in> {32, 128}"
  shows "wf_set (fullSet bits)" and "set_of (fullSet bits) = {0 ..< 2 ^ nat bits}"
proof -
  have top: "val128 (mask128 bits) = 2 ^ nat bits - 1"
    using val128_mask [of "nat bits"] assms by (auto simp: mask_eq_exp_minus_1)
  have zero: "val128 (U128 0 0) = 0" by (simp add: val128_def)
  have "set_of (fullSet bits) = {0 .. 2 ^ nat bits - 1}"
    by (simp add: set_of_def fullSet_def range_set_def top zero)
  then show set: "set_of (fullSet bits) = {0 ..< 2 ^ nat bits}"
    using atLeastLessThanPlusOne_atLeastAtMost_int [of 0 "2 ^ nat bits - 1"] by simp
  show "wf_set (fullSet bits)"
    using assms by (intro wf_setI) (simp_all add: set, auto simp: normal_set_def fullSet_def top zero)
qed

lemma append_sets:
  assumes "wf_set s" and "wf_set t" and "s_bits s = bits" and "s_bits t = bits" and "bits \<in> {32, 128}"
  shows "wf_set (newIPSet bits (s_ranges s @ s_ranges t))"
    and "set_of (newIPSet bits (s_ranges s @ s_ranges t)) = set_of s \<union> set_of t"
proof -
  have ok: "list_all range_ok (s_ranges s @ s_ranges t)"
    using assms by (simp add: wf_set_def normal_set_def normal_ranges_def)
  show "wf_set (newIPSet bits (s_ranges s @ s_ranges t))"
    using assms by (intro newIPSet_wf ok) (auto simp: wf_set_def set_of_def)
  show "set_of (newIPSet bits (s_ranges s @ s_ranges t)) = set_of s \<union> set_of t"
    using newIPSet_correct(2) [OF ok] by (simp add: set_of_def)
qed

lemma set_of_empty_iff: "wf_set s \<Longrightarrow> set_of s = {} \<longleftrightarrow> s_ranges s = []"
  using wf_setD(1) by (cases "s_ranges s") (force simp: set_of_def)+

lemma elems_simps:
  "dual_elems d \<inter> dual_elems e = Inl ` (set_of (d_v4 d) \<inter> set_of (d_v4 e)) \<union> Inr ` (set_of (d_v6 d) \<inter> set_of (d_v6 e))"
  "dual_elems d - dual_elems e = Inl ` (set_of (d_v4 d) - set_of (d_v4 e)) \<union> Inr ` (set_of (d_v6 d) - set_of (d_v6 e))"
  "dual_elems d \<union> dual_elems e = Inl ` (set_of (d_v4 d) \<union> set_of (d_v4 e)) \<union> Inr ` (set_of (d_v6 d) \<union> set_of (d_v6 e))"
  "all_addrs - dual_elems e = Inl ` ({0 ..< 2 ^ 32} - set_of (d_v4 e)) \<union> Inr ` ({0 ..< 2 ^ 128} - set_of (d_v6 e))"
  "dual_elems d = {} \<longleftrightarrow> set_of (d_v4 d) = {} \<and> set_of (d_v6 d) = {}"
  by (auto simp: dual_elems_def all_addrs_def)

lemma wf_setD_normal [simp]: "wf_set s \<Longrightarrow> normal_set s"
  by (simp add: wf_set_def)

interpretation dual: address_sets wf_dual dual_elems all_addrs dual_union dual_subtract dual_complement
  dual_intersects dual_empty
proof
  fix d e assume d: "wf_dual d" and e: "wf_dual e"
  show "wf_dual (dual_union d e)"
    using d e append_sets [of "d_v4 d" "d_v4 e" 32] append_sets [of "d_v6 d" "d_v6 e" 128]
    by (simp add: wf_dual_def dual_union_def) (simp add: newIPSet_def)
  show "dual_elems (dual_union d e) = dual_elems d \<union> dual_elems e"
    using d e append_sets [of "d_v4 d" "d_v4 e" 32] append_sets [of "d_v6 d" "d_v6 e" 128]
    unfolding elems_simps by (simp add: wf_dual_def dual_union_def dual_elems_def)
  show "wf_dual (dual_subtract d e)"
    using d e by (simp add: wf_dual_def dual_subtract_def ipSet_subtract_wf) (simp add: ipSet_subtract_def)
  show "dual_elems (dual_subtract d e) = dual_elems d - dual_elems e"
    using d e unfolding elems_simps
    by (simp add: wf_dual_def dual_subtract_def dual_elems_def ipSet_subtract_correct)
  show "dual_intersects d e \<longleftrightarrow> dual_elems d \<inter> dual_elems e \<noteq> {}"
    using d e unfolding elems_simps by (simp add: wf_dual_def dual_intersects_def ipSet_intersects_iff)
next
  fix d assume d: "wf_dual d"
  show "wf_dual (dual_complement d)"
    using d by (simp add: wf_dual_def dual_complement_def ipSet_subtract_wf fullSet_wf)
      (simp add: ipSet_subtract_def fullSet_def)
  show "dual_elems (dual_complement d) = all_addrs - dual_elems d"
    using d fullSet_wf [of 32] fullSet_wf [of 128] unfolding elems_simps
    by (simp add: wf_dual_def dual_complement_def dual_elems_def ipSet_subtract_correct)
  show "dual_empty d \<longleftrightarrow> dual_elems d = {}"
    using d by (simp add: elems_simps(5) wf_dual_def dual_empty_def set_of_empty_iff)
qed

lemma div_less_of_less_mult: "(a :: int) < c * 2 ^ k \<Longrightarrow> a div 2 ^ k < c"
proof (rule ccontr)
  assume a: "a < c * 2 ^ k" and "\<not> a div 2 ^ k < c"
  then have "c * 2 ^ k \<le> (a div 2 ^ k) * 2 ^ k" by (intro mult_right_mono) auto
  also have "\<dots> \<le> a" using div_mult_mod_eq [of a "2 ^ k"] by (smt (verit) pos_mod_sign zero_less_power)
  finally show False using a by simp
qed

lemma prefixRange_ok:
  assumes "valid_prefix p"
  shows "range_ok (fst (prefixRange p))"
    and "range_set (fst (prefixRange p)) \<subseteq> {0 ..< 2 ^ nat (addr_bit_len (pfx_addr p))}"
proof -
  let ?a = "addr_val (pfx_addr p)" and ?k = "prefix_host_bits p" and ?n = "nat (addr_bit_len (pfx_addr p))"
  note v = prefixRange_vals [OF assms]
  show "range_ok (fst (prefixRange p))" by (simp add: range_ok_iff v)
  have k: "?k \<le> ?n" using assms by (auto simp: prefix_host_bits_def valid_prefix_def)
  have "?a - ?a mod 2 ^ ?k + (2 ^ ?k - 1) < 2 ^ ?n"
  proof -
    have "?a < 2 ^ (?n - ?k) * 2 ^ ?k"
      using addr_val_bounds(2) [of "pfx_addr p"] k by (simp add: power_add [symmetric])
    then have "?a div 2 ^ ?k < 2 ^ (?n - ?k)" by (rule div_less_of_less_mult)
    then have "(?a div 2 ^ ?k + 1) * 2 ^ ?k \<le> 2 ^ (?n - ?k) * 2 ^ ?k"
      by (intro mult_right_mono) auto
    also have "\<dots> = (2::int) ^ ?n" using k by (simp add: power_add [symmetric])
    finally show ?thesis
      by (simp add: minus_mod_eq_div_mult algebra_simps)
  qed
  moreover have "0 \<le> ?a - ?a mod 2 ^ ?k"
    using addr_val_bounds(1) [of "pfx_addr p"] zmod_le_nonneg_dividend [of ?a] by simp
  ultimately show "range_set (fst (prefixRange p)) \<subseteq> {0 ..< 2 ^ ?n}"
    using v by auto
qed

lemma tagged_union:
  "Inl ` (\<Union>x \<in> {p \<in> S. Q p}. f x) \<union> Inr ` (\<Union>x \<in> {p \<in> S. \<not> Q p}. f x)
   = (\<Union>p \<in> S. (if Q p then Inl else Inr) ` f p)"
proof (rule set_eqI)
  fix x :: "'a + 'a"
  show "x \<in> Inl ` (\<Union>x \<in> {p \<in> S. Q p}. f x) \<union> Inr ` (\<Union>x \<in> {p \<in> S. \<not> Q p}. f x)
      \<longleftrightarrow> x \<in> (\<Union>p \<in> S. (if Q p then Inl else Inr) ` f p)"
    by (cases x) (auto simp: image_iff split: if_splits)
qed

lemma newDualSet_correct:
  assumes "list_all valid_prefix ps"
  shows "wf_dual (newDualSet ps)" and "dual_elems (newDualSet ps) = (\<Union>p \<in> set ps. prefix_elems p)"
proof -
  let ?r4 = "map fst (filter (\<lambda>(_, n). n = 32) (map prefixRange ps))"
    and ?r6 = "map fst (filter (\<lambda>(_, n). n \<noteq> 32) (map prefixRange ps))"
  have p: "valid_prefix p" if "p \<in> set ps" for p using assms that by (simp add: list_all_iff)
  have len: "snd (prefixRange p) = (if addr_is4 (pfx_addr p) then 32 else 128)" for p
    by (simp add: prefixRange_def Let_def addr_bit_len_def)
  have r4: "set ?r4 = (\<lambda>p. fst (prefixRange p)) ` {p \<in> set ps. addr_is4 (pfx_addr p)}"
    and r6: "set ?r6 = (\<lambda>p. fst (prefixRange p)) ` {p \<in> set ps. \<not> addr_is4 (pfx_addr p)}"
    by (auto simp: case_prod_unfold len split: if_splits intro!: rev_image_eqI)
  have ok4: "list_all range_ok ?r4" and ok6: "list_all range_ok ?r6"
    using prefixRange_ok(1) [OF p] unfolding list_all_iff r4 r6 by auto
  have "ranges_set ?r4 \<subseteq> {0 ..< 2 ^ 32}" "ranges_set ?r6 \<subseteq> {0 ..< 2 ^ 128}"
    using prefixRange_ok(2) [OF p] unfolding ranges_set_def r4 r6
    by (fastforce simp: addr_bit_len_def)+
  then have "wf_set (newIPSet 32 ?r4)" "wf_set (newIPSet 128 ?r6)"
    by (auto intro!: newIPSet_wf ok4 ok6)
  then show "wf_dual (newDualSet ps)"
    by (simp add: wf_dual_def newDualSet_def Let_def) (simp add: newIPSet_def)
  have "dual_elems (newDualSet ps) = Inl ` ranges_set ?r4 \<union> Inr ` ranges_set ?r6"
    using newIPSet_correct(2) [OF ok4] newIPSet_correct(2) [OF ok6]
    by (simp add: dual_elems_def newDualSet_def Let_def)
  also have "\<dots> = (\<Union>p \<in> set ps. prefix_elems p)"
    unfolding ranges_set_def r4 r6 prefix_elems_def by (simp add: tagged_union)
  finally show "dual_elems (newDualSet ps) = (\<Union>p \<in> set ps. prefix_elems p)" .
qed

section \<open>Parsed prefixes\<close>

lemma valid_prefix_from: "0 \<le> n \<Longrightarrow> n \<le> addr_bit_len a \<Longrightarrow> valid_prefix (prefix_from a n)"
  by (cases a) (auto simp: valid_prefix_def prefix_from_def addr_without_zone_def addr_bit_len_def addr_is4_def)

lemma prefix_masked_simps:
  "valid_prefix p \<Longrightarrow> valid_prefix (prefix_masked p)"
  "prefix_masked (prefix_masked p) = prefix_masked p"
  by (cases "pfx_addr p"; simp add: prefix_masked_def valid_prefix_def addr_mask_def addr_bit_len_def addr_is4_def;
      simp add: u128_andNot_def and.assoc)+

lemma prefix_masked_single:
  "prefix_masked (prefix_from a (addr_bit_len a)) = prefix_from a (addr_bit_len a)"
  by (cases a) (auto simp: prefix_masked_def prefix_from_def addr_bit_len_def addr_is4_def addr_mask_def
      addr_without_zone_def u128_andNot_def mask128_def)

lemma parse_prefix_bits:
  assumes "parse_prefix s = Some p"
  obtains a n where "p = prefix_from a n" "0 \<le> n" "n \<le> addr_bit_len a" "addr_zone a = []"
  using assms by (auto simp: parse_prefix_def Let_def split: option.splits if_splits)

lemma prefix_from_zone: "addr_zone (pfx_addr (prefix_from a n)) = []"
  by (cases a) (simp_all add: prefix_from_def addr_without_zone_def addr_zone_def)

lemma masked_zone: "addr_zone (pfx_addr (prefix_masked p)) = addr_zone (pfx_addr p)"
  by (cases "pfx_addr p") (simp_all add: prefix_masked_def addr_mask_def addr_zone_def)

lemma parsePrefix_cases:
  assumes "parsePrefix s = Some p"
  obtains a n where "p = prefix_masked (prefix_from a n)" "0 \<le> n" "n \<le> addr_bit_len a"
proof (cases "str_contains (trim_space s) ''/''")
  case True
  then obtain q where q: "parse_prefix (trim_space s) = Some q"
    and p: "p = prefix_masked (if addr_is4in6 (pfx_addr q) \<and> 96 \<le> pfx_bits q
        then prefix_from (addr_unmap (pfx_addr q)) (pfx_bits q - 96) else q)"
    using assms by (auto simp: parsePrefix_def Let_def split: option.splits)
  obtain a n where n: "q = prefix_from a n" "0 \<le> n" "n \<le> addr_bit_len a"
    using parse_prefix_bits [OF q] by metis
  show ?thesis
  proof (cases "addr_is4in6 (pfx_addr q) \<and> 96 \<le> pfx_bits q")
    case True
    then have "addr_bit_len (addr_unmap (pfx_addr q)) = 32"
      by (auto simp: addr_unmap_def addr_bit_len_def addr_is4_def addr_is4in6_def split: ip_addr.splits)
    moreover have "pfx_bits q \<le> 128"
      using n by (auto simp: prefix_from_def addr_bit_len_def split: if_splits)
    ultimately show ?thesis using that [of "addr_unmap (pfx_addr q)" "pfx_bits q - 96"] p True by simp
  next
    case False
    then show ?thesis using that [of a n] p n by auto
  qed
next
  case False
  then obtain a where "p = prefix_from (addr_unmap a) (addr_bit_len (addr_unmap a))"
    using assms by (auto simp: parsePrefix_def Let_def split: option.splits)
  then show ?thesis
    using that [of "addr_unmap a" "addr_bit_len (addr_unmap a)"] addr_bit_len_cases [of "addr_unmap a"]
    by (auto simp: prefix_masked_single)
qed

lemma parsePrefix_valid: "parsePrefix s = Some p \<Longrightarrow> valid_prefix p"
  by (metis parsePrefix_cases prefix_masked_simps(1) valid_prefix_from)

section \<open>The text of a set\<close>

text \<open>The addresses that share the leading bits of a prefix, and those of the prefix that a text reads as.\<close>

definition block_set :: "prefix \<Rightarrow> int set" where
  "block_set p = {x. x div 2 ^ prefix_host_bits p = addr_val (pfx_addr p) div 2 ^ prefix_host_bits p}"

definition family_prefix :: "int \<Rightarrow> prefix \<Rightarrow> bool" where
  "family_prefix bits p \<longleftrightarrow> valid_prefix p \<and> addr_bit_len (pfx_addr p) = bits"

definition text_elems :: "string \<Rightarrow> (int + int) set" where
  "text_elems s =
     (case parse_prefix s of None \<Rightarrow> {} | Some p \<Rightarrow> (if addr_is4 (pfx_addr p) then Inl else Inr) ` block_set p)"

definition texts_denote :: "string list \<Rightarrow> (int + int) set \<Rightarrow> bool" where
  "texts_denote ss A \<longleftrightarrow> list_all (\<lambda>s. parse_prefix s \<noteq> None) ss \<and> (\<Union>s \<in> set ss. text_elems s) = A"

definition cidr_prefix :: "int \<Rightarrow> u128 \<times> nat \<Rightarrow> prefix" where
  "cidr_prefix bits b = prefix_from (u128ToAddr (fst b) bits) (bits - int (snd b))"

lemma ipSet_cidrs_alt: "ipSet_cidrs s = map (\<lambda>b. prefix_string (cidr_prefix (s_bits s) b)) (set_blocks s)"
  by (simp add: ipSet_cidrs_def cidr_prefix_def case_prod_unfold)

lemma u128ToAddr_val:
  assumes "bits = 32 \<or> bits = 128" and "val128 l < 2 ^ nat bits"
  shows "addr_val (u128ToAddr l bits) = val128 l" and "addr_bit_len (u128ToAddr l bits) = bits"
    and "addr_zone (u128ToAddr l bits) = []"
proof -
  show "addr_bit_len (u128ToAddr l bits) = bits" and "addr_zone (u128ToAddr l bits) = []"
    using assms(1) by (auto simp: u128ToAddr_def addr_bit_len_def addr_is4_def addr_zone_def)
  show "addr_val (u128ToAddr l bits) = val128 l"
  proof (cases "bits = 32")
    case True
    then have l: "uint (u_hi l) * 18446744073709551616 + uint (u_lo l) < 4294967296" using assms(2) by (simp add: val128_def)
    have hi: "uint (u_hi l) = 0" using l uint64_bounds [of "u_lo l"] uint64_bounds [of "u_hi l"] by linarith
    then have "uint (u_lo l) < 4294967296" using l by simp
    then have "uint (ucast (u_lo l) :: 32 word) = uint (u_lo l)" by (simp add: unsigned_ucast_eq take_bit_eq_mod uint64_bounds)
    then have "uint (ucast (ucast (u_lo l) :: 32 word) :: 64 word) = uint (u_lo l)" by (simp add: uint_up_ucast is_up)
    then show ?thesis using True hi by (simp add: u128ToAddr_def addr_val_def val128_def)
  qed (use assms(1) in \<open>simp add: u128ToAddr_def addr_val_def\<close>)
qed

lemma addr_mask_aligned:
  assumes "addr_val a mod 2 ^ k = 0" and "int k \<le> addr_bit_len a"
  shows "addr_mask a (addr_bit_len a - int k) = a"
proof (cases a)
  case (IPv4 w)
  have v: "take_bit k (uint w) = 0"
    using assms(1) IPv4 by (simp add: addr_val_def val128_def uint_up_ucast is_up take_bit_eq_mod)
  have "\<not> bit w i" if "i < k" for i
  proof -
    have "\<not> bit (take_bit k (uint w)) i" using v by simp
    then show ?thesis using that by (simp add: bit_take_bit_iff bit_uint_iff) (auto dest: bit_imp_le_length)
  qed
  then have "w AND NOT (mask k) = w" by (intro bit_word_eqI) (auto simp: bit_and_iff bit_not_iff bit_mask_iff)
  then show ?thesis using IPv4 by (simp add: addr_mask_def addr_bit_len_def addr_is4_def)
next
  case (IPv6 v z)
  have k: "k \<le> 128" using assms(2) IPv6 by (simp add: addr_bit_len_def addr_is4_def)
  have "val128 (u128_andNot v (mask128 (int k))) = val128 v"
    using assms(1) k IPv6 by (simp add: val128_andNot val128_mask and_not_mask_int addr_val_def)
  then show ?thesis using IPv6 by (simp add: addr_mask_def addr_bit_len_def addr_is4_def val128_inj)
qed

lemma cidr_prefix_reads:
  assumes "bits = 32 \<or> bits = 128" and "cidr_ok bits b" and "val128 (fst b) < 2 ^ nat bits"
  defines "p \<equiv> cidr_prefix bits b"
  shows "parse_prefix (prefix_string p) = Some p" and "family_prefix bits p" and "block_set p = cidr_set b" and "prefix_masked p = p"
proof -
  note a = u128ToAddr_val [OF assms(1,3)]
  have wz: "addr_without_zone (u128ToAddr (fst b) bits) = u128ToAddr (fst b) bits"
    by (simp add: u128ToAddr_def addr_without_zone_def)
  have n: "int (snd b) \<le> bits" using assms(2) by (simp add: cidr_ok_def)
  have p: "pfx_addr p = u128ToAddr (fst b) bits" "pfx_bits p = bits - int (snd b)"
    using n by (simp_all add: p_def cidr_prefix_def prefix_from_def wz a(2))
  note p = p n
  have host: "prefix_host_bits p = snd b" using p a(2) by (simp add: prefix_host_bits_def)
  show "family_prefix bits p" using p a(2) by (simp add: family_prefix_def valid_prefix_def)
  show "parse_prefix (prefix_string p) = Some p" using p a(2,3) by (intro parse_prefix_string) simp_all
  have dvd: "val128 (fst b) mod 2 ^ snd b = 0" using assms(2) by (simp add: cidr_ok_def)
  show set: "block_set p = cidr_set b"
    unfolding block_set_def cidr_set_def host p(1) a(1)
    by (simp add: block_interval dvd)
  have "addr_mask (pfx_addr p) (pfx_bits p) = pfx_addr p"
    using addr_mask_aligned [of "pfx_addr p" "snd b"] dvd p a by simp
  then show "prefix_masked p = p" by (simp add: prefix_masked_def)
qed

lemma prefix_cidr:
  assumes "family_prefix bits q" and "0 \<le> bits"
  defines "b \<equiv> (r_lo (fst (prefixRange q)), prefix_host_bits q)"
  shows "cidr_ok bits b" and "cidr_set b = block_set q"
proof -
  have q: "valid_prefix q" "addr_bit_len (pfx_addr q) = bits" using assms(1) by (simp_all add: family_prefix_def)
  note v = prefixRange_vals [OF q(1)]
  have "int (prefix_host_bits q) \<le> bits" using q by (auto simp: prefix_host_bits_def valid_prefix_def)
  moreover have "2 ^ prefix_host_bits q dvd val128 (fst b)" by (simp add: b_def v(1) minus_mod_eq_mult_div)
  ultimately show "cidr_ok bits b" by (simp add: cidr_ok_def b_def)
  show "cidr_set b = block_set q"
    unfolding block_set_def cidr_set_def b_def fst_conv snd_conv v(1)
    by (simp add: block_interval)
qed

lemma set_blocks_fit:
  assumes "wf_set s" and "b \<in> set (set_blocks s)"
  shows "cidr_ok (s_bits s) b" and "val128 (fst b) < 2 ^ nat (s_bits s)" and "cidr_set b \<subseteq> set_of s"
proof -
  have "exact_cover s (set_blocks s)" by (rule set_blocks_cover [OF assms(1)])
  then show "cidr_ok (s_bits s) b" and sub: "cidr_set b \<subseteq> set_of s" using assms(2) by (auto simp: exact_cover_def list_all_iff)
  have "set_of s \<subseteq> {0 ..< 2 ^ nat (s_bits s)}" using assms(1) by (simp add: wf_set_def)
  then have "val128 (fst b) \<in> {0 ..< 2 ^ nat (s_bits s)}" using sub start_in_cidr [of b] by (meson subsetD)
  then show "val128 (fst b) < 2 ^ nat (s_bits s)" by simp
qed

lemma ipSet_cidrs_read:
  assumes "wf_set s" and "s_bits s = 32 \<or> s_bits s = 128"
  defines "ps \<equiv> map (cidr_prefix (s_bits s)) (set_blocks s)"
  shows "map parse_prefix (ipSet_cidrs s) = map Some ps" and "list_all (\<lambda>p. family_prefix (s_bits s) p \<and> prefix_masked p = p) ps"
    and "(\<Union>p \<in> set ps. block_set p) = set_of s" and "sorted_wrt (\<lambda>p q. \<forall>x \<in> block_set p. \<forall>y \<in> block_set q. x < y) ps"
proof -
  note fit = set_blocks_fit [OF assms(1)]
  have reads: "parse_prefix (prefix_string (cidr_prefix (s_bits s) b)) = Some (cidr_prefix (s_bits s) b)
      \<and> family_prefix (s_bits s) (cidr_prefix (s_bits s) b) \<and> block_set (cidr_prefix (s_bits s) b) = cidr_set b
      \<and> prefix_masked (cidr_prefix (s_bits s) b) = cidr_prefix (s_bits s) b" if "b \<in> set (set_blocks s)" for b
    using cidr_prefix_reads [OF assms(2) fit(1,2) [OF that]] by blast
  show "map parse_prefix (ipSet_cidrs s) = map Some ps" using reads by (simp add: ipSet_cidrs_alt ps_def)
  show "list_all (\<lambda>p. family_prefix (s_bits s) p \<and> prefix_masked p = p) ps" using reads by (simp add: ps_def list_all_iff)
  have "exact_cover s (set_blocks s)" by (rule set_blocks_cover [OF assms(1)])
  then show "(\<Union>p \<in> set ps. block_set p) = set_of s" using reads by (simp add: ps_def exact_cover_def)
  have "sorted_wrt (\<lambda>b c. \<forall>x \<in> block_set (cidr_prefix (s_bits s) b). \<forall>y \<in> block_set (cidr_prefix (s_bits s) c). x < y) (set_blocks s)"
    by (rule sorted_wrt_mono_rel [OF _ set_blocks_cover(2) [OF assms(1)]]) (use reads in \<open>auto simp: cidr_before_def cidr_set_def\<close>)
  then show "sorted_wrt (\<lambda>p q. \<forall>x \<in> block_set p. \<forall>y \<in> block_set q. x < y) ps" by (simp add: ps_def sorted_wrt_map)
qed

lemma dual_cidrs_denote:
  assumes "wf_dual d"
  shows "texts_denote (dual_cidrs d) (dual_elems d)"
proof -
  have f: "list_all (\<lambda>s. parse_prefix s \<noteq> None) (ipSet_cidrs s)
      \<and> (\<Union>x \<in> set (ipSet_cidrs s). text_elems x) = (if s_bits s = 32 then Inl else Inr) ` set_of s"
    if "wf_set s" "s_bits s = 32 \<or> s_bits s = 128" for s
  proof -
    let ?ps = "map (cidr_prefix (s_bits s)) (set_blocks s)"
    note r = ipSet_cidrs_read [OF that]
    have fam: "addr_is4 (pfx_addr p) \<longleftrightarrow> s_bits s = 32" if "p \<in> set ?ps" for p
      using r(2) that by (auto simp: list_all_iff family_prefix_def addr_bit_len_def split: if_splits)
    have "(\<Union>x \<in> set (ipSet_cidrs s). text_elems x)
        = (\<Union>q \<in> set (map parse_prefix (ipSet_cidrs s)). case q of None \<Rightarrow> {} | Some p \<Rightarrow> (if addr_is4 (pfx_addr p) then Inl else Inr) ` block_set p)"
      by (simp add: text_elems_def)
    also have "\<dots> = (if s_bits s = 32 then Inl else Inr) ` (\<Union>p \<in> set ?ps. block_set p)"
      unfolding r(1) using fam by auto
    finally have "(\<Union>x \<in> set (ipSet_cidrs s). text_elems x) = (if s_bits s = 32 then Inl else Inr) ` set_of s" by (simp only: r(3))
    moreover have "list_all (\<lambda>q. q \<noteq> None) (map parse_prefix (ipSet_cidrs s))" unfolding r(1) by (simp add: list_all_iff)
    ultimately show ?thesis by (simp add: list_all_iff)
  qed
  show ?thesis
    using f [of "d_v4 d"] f [of "d_v6 d"] assms
    by (simp add: texts_denote_def dual_cidrs_def wf_dual_def dual_elems_def list_all_append)
qed

text \<open>The texts of a set, joined with commas, name it.\<close>

lemma ipSet_cidrs_inj:
  assumes "wf_set s" "wf_set t" "s_bits s = s_bits t" "s_bits t = 32 \<or> s_bits t = 128" "ipSet_cidrs s = ipSet_cidrs t"
  shows "s = t"
proof -
  note r = ipSet_cidrs_read [OF assms(1)] ipSet_cidrs_read [OF assms(2)]
  have "map Some (map (cidr_prefix (s_bits s)) (set_blocks s)) = map Some (map (cidr_prefix (s_bits t)) (set_blocks t))"
    using r(1,5) assms(3-5) by metis
  then have "map (cidr_prefix (s_bits s)) (set_blocks s) = map (cidr_prefix (s_bits t)) (set_blocks t)" by (simp only: inj_map_eq_map inj_Some)
  then have "set_of s = set_of t" using r(3,7) assms(3,4) by metis
  then have "s_ranges s = s_ranges t"
    using normal_ranges_unique assms(1,2) by (simp add: wf_set_def normal_set_def set_of_def)
  then show ?thesis using assms(3) by (intro ipSet.equality) simp_all
qed

lemma prefix_string_chars: "addr_zone (pfx_addr p) = [] \<Longrightarrow> 0 \<le> pfx_bits p \<Longrightarrow> CHR '','' \<notin> set (prefix_string p)"
  using addr_string_no_comma [of "pfx_addr p"] dec_digits_digits [of "pfx_bits p"]
  by (auto simp: prefix_string_def go_itoa_def list_all_iff is_digit_def byte_def)

lemma ipSet_cidrs_plain:
  assumes "wf_set s" "s_bits s = 32 \<or> s_bits s = 128" "x \<in> set (ipSet_cidrs s)"
  shows "CHR '','' \<notin> set x \<and> x \<noteq> []" and "\<exists>p. parse_prefix x = Some p \<and> addr_is4 (pfx_addr p) = (s_bits s = 32)"
proof -
  obtain b where b: "b \<in> set (set_blocks s)" "x = prefix_string (cidr_prefix (s_bits s) b)"
    using assms(3) by (auto simp: ipSet_cidrs_alt)
  note r = cidr_prefix_reads [OF assms(2) set_blocks_fit(1,2) [OF assms(1) b(1)]]
  have bits: "0 \<le> pfx_bits (cidr_prefix (s_bits s) b)" using r(2) by (simp add: family_prefix_def valid_prefix_def)
  then show "CHR '','' \<notin> set x \<and> x \<noteq> []"
    using prefix_string_chars [of "cidr_prefix (s_bits s) b"] prefix_from_zone b(2) by (simp add: cidr_prefix_def prefix_string_def)
  show "\<exists>p. parse_prefix x = Some p \<and> addr_is4 (pfx_addr p) = (s_bits s = 32)"
    using r(1,2) b(2) assms(2) by (auto simp: family_prefix_def addr_bit_len_def split: if_splits)
qed

lemma cidrs_key_inj:
  assumes "wf_dual d" and "wf_dual e" and "go_join '','' (dual_cidrs d) = go_join '','' (dual_cidrs e)"
  shows "d = e"
proof -
  define plain where "plain xs \<longleftrightarrow> list_all (\<lambda>x. CHR '','' \<notin> set x \<and> x \<noteq> []) xs" for xs :: "string list"
  have pl: "plain (dual_cidrs f)" if "wf_dual f" for f
    using ipSet_cidrs_plain(1) [of "d_v4 f"] ipSet_cidrs_plain(1) [of "d_v6 f"] that
    by (auto simp: plain_def dual_cidrs_def wf_dual_def list_all_iff)
  have split: "go_split (CHR '','') (go_join '','' xs) = xs" if "xs \<noteq> []" "plain xs" for xs
    using that by (intro go_split_join_plain) (auto simp: list_all_iff plain_def)
  have nil: "go_join '','' xs = [] \<longleftrightarrow> xs = []" if "plain xs" for xs
    using that by (cases xs rule: remdups_adj.cases) (auto simp: plain_def)
  have same: "dual_cidrs d = dual_cidrs e"
    using assms(3) pl [OF assms(1)] pl [OF assms(2)] split nil by metis
  define four where "four x \<longleftrightarrow> (\<exists>p. parse_prefix x = Some p \<and> addr_is4 (pfx_addr p))" for x
  have parts: "filter four (dual_cidrs f) = ipSet_cidrs (d_v4 f) \<and> filter (\<lambda>x. \<not> four x) (dual_cidrs f) = ipSet_cidrs (d_v6 f)" if "wf_dual f" for f
  proof -
    have "\<forall>x \<in> set (ipSet_cidrs (d_v4 f)). four x" and "\<forall>x \<in> set (ipSet_cidrs (d_v6 f)). \<not> four x"
      using ipSet_cidrs_plain(2) [of "d_v4 f"] ipSet_cidrs_plain(2) [of "d_v6 f"] that by (fastforce simp: wf_dual_def four_def)+
    then show ?thesis by (simp add: dual_cidrs_def)
  qed
  have "ipSet_cidrs (d_v4 d) = ipSet_cidrs (d_v4 e)" "ipSet_cidrs (d_v6 d) = ipSet_cidrs (d_v6 e)"
    using parts [OF assms(1)] parts [OF assms(2)] same by metis+
  then have "d_v4 d = d_v4 e" "d_v6 d = d_v6 e"
    using ipSet_cidrs_inj [of "d_v4 d" "d_v4 e"] ipSet_cidrs_inj [of "d_v6 d" "d_v6 e"] assms(1,2) by (simp_all add: wf_dual_def)
  then show "d = e" by (intro dualSet.equality) simp_all
qed

section \<open>Properties\<close>

text \<open>
  Parsing accepts only well formed prefixes. A prefix that
  \<open>parsePrefix\<close> returns has a length inside its family, no host bits set, no
  zone, and denotes exactly the addresses that share its leading bits.
\<close>

theorem parsePrefix_normal:
  assumes "parsePrefix s = Some p"
  shows "valid_prefix p \<and> prefix_masked p = p \<and> addr_zone (pfx_addr p) = []
    \<and> range_set (fst (prefixRange p)) =
        {x. x div 2 ^ prefix_host_bits p = addr_val (pfx_addr p) div 2 ^ prefix_host_bits p}"
  using parsePrefix_cases [OF assms] parsePrefix_valid [OF assms] prefixRange_set
  by (metis masked_zone prefix_from_zone prefix_masked_simps(2))

lemma parse_example: "parsePrefix '' 10.1.2.3/8'' = Some \<lparr> pfx_addr = IPv4 0x0A000000, pfx_bits = 8 \<rparr>"
  by code_simp

theorem parsePrefix_normal_witness:
  "parsePrefix '' 10.1.2.3/8'' = Some \<lparr> pfx_addr = IPv4 0x0A000000, pfx_bits = 8 \<rparr>
   \<and> valid_prefix \<lparr> pfx_addr = IPv4 0x0A000000, pfx_bits = 8 \<rparr>"
  using parsePrefix_normal [OF parse_example] parse_example by blast

text \<open>
  C25: sets of prefixes. Union, difference, complement and the two tests
  of \<open>dualSet\<close>, on sets built from lists of prefixes, compute the set
  operations on the addresses that the prefixes denote.
\<close>

theorem dual_set_operations:
  assumes "list_all valid_prefix ps" and "list_all valid_prefix qs"
  defines "A \<equiv> \<Union>p \<in> set ps. prefix_elems p" and "B \<equiv> \<Union>q \<in> set qs. prefix_elems q"
  shows "dual_elems (dual_union (newDualSet ps) (newDualSet qs)) = A \<union> B
    \<and> dual_elems (dual_subtract (newDualSet ps) (newDualSet qs)) = A - B
    \<and> dual_elems (dual_complement (newDualSet ps)) = all_addrs - A
    \<and> (dual_intersects (newDualSet ps) (newDualSet qs) \<longleftrightarrow> A \<inter> B \<noteq> {})
    \<and> (dual_empty (dual_subtract (newDualSet ps) (newDualSet qs)) \<longleftrightarrow> A \<subseteq> B)"
  using newDualSet_correct [OF assms(1)] newDualSet_correct [OF assms(2)]
  by (simp add: A_def B_def dual.union_elems dual.minus_elems dual.compl_elems dual.meets_iff
      dual.remainder_empty)

definition ex_prefixes :: "prefix list" where
  "ex_prefixes = [\<lparr> pfx_addr = IPv4 0x0A000000, pfx_bits = 8 \<rparr>, \<lparr> pfx_addr = IPv6 (U128 0 1) [], pfx_bits = 128 \<rparr>]"

theorem dual_set_operations_witness:
  "dual_elems (dual_subtract (newDualSet ex_prefixes) (newDualSet ex_prefixes)) = {}"
  using dual_set_operations [of ex_prefixes ex_prefixes]
  by (simp add: ex_prefixes_def valid_prefix_def addr_bit_len_def addr_is4_def)

text \<open>
  canonical sets. \<open>newIPSet\<close> sorts with an unstable sort and merges;
  its result is sorted, with gaps between its ranges, has exactly the addresses
  of its input, and depends on nothing but these addresses.
\<close>

theorem newIPSet_canonical:
  assumes "list_all range_ok rs" and "list_all range_ok ss"
  shows "normal_set (newIPSet bits rs) \<and> set_of (newIPSet bits rs) = ranges_set rs
    \<and> (newIPSet bits rs = newIPSet bits ss \<longleftrightarrow> ranges_set rs = ranges_set ss)"
proof -
  note r = newIPSet_correct [OF assms(1), of bits] and s = newIPSet_correct [OF assms(2), of bits]
  have "newIPSet bits rs = newIPSet bits ss" if "ranges_set rs = ranges_set ss"
    using normal_ranges_unique [of "s_ranges (newIPSet bits rs)" "s_ranges (newIPSet bits ss)"] r s that
    by (simp add: normal_set_def set_of_def) (simp add: newIPSet_def)
  then show ?thesis using r s by metis
qed

definition ex_ranges :: "ipRange list" where
  "ex_ranges = [range_of (U128 0 5) (U128 0 9), range_of (U128 0 0) (U128 0 4)]"

theorem newIPSet_canonical_witness:
  "s_ranges (newIPSet 32 ex_ranges) = [range_of (U128 0 0) (U128 0 9)]
   \<and> set_of (newIPSet 32 ex_ranges) = ranges_set ex_ranges"
proof
  show "s_ranges (newIPSet 32 ex_ranges) = [range_of (U128 0 0) (U128 0 9)]" by code_simp
  show "set_of (newIPSet 32 ex_ranges) = ranges_set ex_ranges"
    using newIPSet_canonical [of ex_ranges ex_ranges 32]
    by (simp add: ex_ranges_def u128_le_iff range_ok_def val128_def)
qed

text \<open>
  C21: the CIDR cover. The texts that \<open>cidrs\<close> prints for a set of addresses are read back as
  prefixes of its family without host bits, in order and disjoint, that have exactly the addresses
  of the set, and no list of prefixes with exactly these addresses is shorter.
\<close>

theorem cidrs_minimal_exact:
  assumes "wf_set s" and "s_bits s = 32 \<or> s_bits s = 128"
  shows "\<exists>ps. map parse_prefix (ipSet_cidrs s) = map Some ps
    \<and> list_all (\<lambda>p. family_prefix (s_bits s) p \<and> prefix_masked p = p) ps
    \<and> sorted_wrt (\<lambda>p q. \<forall>x \<in> block_set p. \<forall>y \<in> block_set q. x < y) ps
    \<and> (\<Union>p \<in> set ps. block_set p) = set_of s
    \<and> (\<forall>qs. list_all (family_prefix (s_bits s)) qs \<and> (\<Union>q \<in> set qs. block_set q) = set_of s \<longrightarrow> length ps \<le> length qs)"
proof (intro exI conjI)
  let ?ps = "map (cidr_prefix (s_bits s)) (set_blocks s)"
  show "map parse_prefix (ipSet_cidrs s) = map Some ?ps"
    and "list_all (\<lambda>p. family_prefix (s_bits s) p \<and> prefix_masked p = p) ?ps"
    and "sorted_wrt (\<lambda>p q. \<forall>x \<in> block_set p. \<forall>y \<in> block_set q. x < y) ?ps"
    and "(\<Union>p \<in> set ?ps. block_set p) = set_of s"
    using ipSet_cidrs_read [OF assms] by blast+
  show "\<forall>qs. list_all (family_prefix (s_bits s)) qs \<and> (\<Union>q \<in> set qs. block_set q) = set_of s \<longrightarrow> length ?ps \<le> length qs"
  proof (intro allI impI, elim conjE)
    fix qs assume q: "list_all (family_prefix (s_bits s)) qs" "(\<Union>q \<in> set qs. block_set q) = set_of s"
    let ?bs = "map (\<lambda>q. (r_lo (fst (prefixRange q)), prefix_host_bits q)) qs"
    have "0 \<le> s_bits s" using assms(2) by auto
    then have b: "cidr_ok (s_bits s) (r_lo (fst (prefixRange q)), prefix_host_bits q)
        \<and> cidr_set (r_lo (fst (prefixRange q)), prefix_host_bits q) = block_set q" if "q \<in> set qs" for q
      using prefix_cidr [of "s_bits s" q] q(1) that by (simp add: list_all_iff)
    then have "exact_cover s ?bs" using q(2) by (simp add: exact_cover_def list_all_iff)
    then show "length ?ps \<le> length qs" using set_blocks_minimal [OF assms(1)] by fastforce
  qed
qed

definition ex_set :: ipSet where
  "ex_set = \<lparr> s_bits = 32, s_ranges = [range_of (U128 0 1) (U128 0 6)] \<rparr>"

theorem cidrs_minimal_exact_witness:
  "ipSet_cidrs ex_set = [''0.0.0.1/32'', ''0.0.0.2/31'', ''0.0.0.4/31'', ''0.0.0.6/32'']
   \<and> (\<exists>ps. map parse_prefix (ipSet_cidrs ex_set) = map Some ps \<and> (\<Union>p \<in> set ps. block_set p) = {1 .. 6})"
proof
  show "ipSet_cidrs ex_set = [''0.0.0.1/32'', ''0.0.0.2/31'', ''0.0.0.4/31'', ''0.0.0.6/32'']" by code_simp
  have "wf_set ex_set" and "s_bits ex_set = 32 \<or> s_bits ex_set = 128"
    by (intro wf_setI) (auto simp: ex_set_def normal_set_def set_of_def val128_def)
  moreover have "set_of ex_set = {1 .. 6}" by (auto simp: ex_set_def set_of_def val128_def)
  ultimately show "\<exists>ps. map parse_prefix (ipSet_cidrs ex_set) = map Some ps \<and> (\<Union>p \<in> set ps. block_set p) = {1 .. 6}"
    using cidrs_minimal_exact by metis
qed

end
