(* ===== verification/Go_Codec.thy ===== *)
theory Go_Codec
  imports Go_Text
begin

text \<open>
  Packages encoding/base64 and encoding/hex as the source uses them: strict
  decoding of the standard alphabet with padding and of the URL alphabet
  without, and the canonical encoding. The decoders skip line breaks, as Go's do.
\<close>

definition b64_value :: "bool \<Rightarrow> char \<Rightarrow> nat option" where
  "b64_value url c =
     (if is_upper c then Some (byte c - 65)
      else if is_lower c then Some (byte c - 71)
      else if is_digit c then Some (byte c + 4)
      else if c = (if url then CHR ''-'' else CHR ''+'') then Some 62
      else if c = (if url then CHR ''_'' else CHR ''/'') then Some 63
      else None)"

definition b64_char :: "bool \<Rightarrow> nat \<Rightarrow> char" where
  "b64_char url v =
     (if v < 26 then char_of (65 + v) else if v < 52 then char_of (71 + v) else if v < 62 then char_of (v - 4)
      else if v = 62 then (if url then CHR ''-'' else CHR ''+'')
      else (if url then CHR ''_'' else CHR ''/''))"

text \<open>Quanta of values: three bytes, or a shorter last quantum whose spare bits are 0 (strict).\<close>

fun b64_quanta :: "nat list \<Rightarrow> nat list option" where
  "b64_quanta [] = Some []"
| "b64_quanta [a] = None"
| "b64_quanta [a, b] = (if b mod 16 = 0 then Some [a * 4 + b div 16] else None)"
| "b64_quanta [a, b, c] =
     (if c mod 4 = 0 then Some [a * 4 + b div 16, (b mod 16) * 16 + c div 4] else None)"
| "b64_quanta (a # b # c # d # vs) =
     map_option (\<lambda>rest. (a * 4 + b div 16) # ((b mod 16) * 16 + c div 4) # ((c mod 4) * 64 + d) # rest)
       (b64_quanta vs)"

definition b64_values :: "bool \<Rightarrow> string \<Rightarrow> nat list option" where
  "b64_values url s = those (map (b64_value url) s)"

definition no_breaks :: "string \<Rightarrow> string" where
  "no_breaks s = filter (\<lambda>c. byte c \<noteq> 10 \<and> byte c \<noteq> 13) s"

text \<open>\<open>StdEncoding.Strict()\<close>: length a multiple of four, one or two \<open>=\<close> at the end.\<close>

definition b64_std_decode :: "string \<Rightarrow> nat list option" where
  "b64_std_decode s0 =
     (let s = no_breaks s0;
          pad = length (takeWhile (\<lambda>c. c = CHR ''='') (rev s))
      in if length s mod 4 \<noteq> 0 \<or> 2 < pad then None
         else case b64_values False (take (length s - pad) s) of
                None \<Rightarrow> None
              | Some vs \<Rightarrow> b64_quanta vs)"

text \<open>\<open>RawURLEncoding.Strict()\<close>: no padding.\<close>

definition b64_url_decode :: "string \<Rightarrow> nat list option" where
  "b64_url_decode s = (case b64_values True (no_breaks s) of None \<Rightarrow> None | Some vs \<Rightarrow> b64_quanta vs)"

fun b64_encode_with :: "bool \<Rightarrow> nat list \<Rightarrow> string" where
  "b64_encode_with url [] = []"
| "b64_encode_with url [x] =
     [b64_char url (x div 4), b64_char url ((x mod 4) * 16)] @ (if url then [] else ''=='')"
| "b64_encode_with url [x, y] =
     [b64_char url (x div 4), b64_char url ((x mod 4) * 16 + y div 16), b64_char url ((y mod 16) * 4)]
     @ (if url then [] else ''='')"
| "b64_encode_with url (x # y # z # bs) =
     b64_char url (x div 4) # b64_char url ((x mod 4) * 16 + y div 16)
     # b64_char url ((y mod 16) * 4 + z div 64) # b64_char url (z mod 64) # b64_encode_with url bs"

definition hex_decodes :: "string \<Rightarrow> bool" where
  "hex_decodes s \<longleftrightarrow> even (length s) \<and> list_all is_hex s"

end
