(* ===== verification/Hosts.thy ===== *)
theory Hosts
  imports Cidr_Sets Go_Codec
begin

text \<open>
  The small recognisers of \<open>internal/flvx/validate.go\<close> and
  \<open>egress_validate.go\<close>: identifiers, printable text, host names, and the two
  tests that keep private destinations out (\<open>PrivateHost\<close> for Reality
  destinations, \<open>BlockedAddr\<close> for egress upstreams). A regular expression of
  the source is the function that recognises its language.
\<close>

section \<open>Regular expressions\<close>

definition all_chars :: "(char \<Rightarrow> bool) \<Rightarrow> nat \<Rightarrow> nat \<Rightarrow> string \<Rightarrow> bool" where
  "all_chars P lo hi s \<longleftrightarrow> lo \<le> length s \<and> length s \<le> hi \<and> list_all P s"

definition identifierRe :: "string \<Rightarrow> bool" where
  "identifierRe s \<longleftrightarrow> all_chars (\<lambda>c. is_alnum c \<or> c = CHR ''_'' \<or> c = CHR ''-'') 1 64 s"

definition uuidRe :: "string \<Rightarrow> bool" where
  "uuidRe s \<longleftrightarrow> map length (go_split (CHR ''-'') s) = [8, 4, 4, 4, 12]
     \<and> list_all (list_all is_hex) (go_split (CHR ''-'') s)"

definition lower_alnum :: "char \<Rightarrow> bool" where
  "lower_alnum c \<longleftrightarrow> is_lower c \<or> is_digit c"

definition outboundTagRe :: "string \<Rightarrow> bool" where
  "outboundTagRe s \<longleftrightarrow> has_prefix s ''flvxo-'' \<and> all_chars lower_alnum 1 32 (drop 6 s)"

definition geoCodeRe :: "string \<Rightarrow> bool" where
  "geoCodeRe s \<longleftrightarrow> s \<noteq> [] \<and> lower_alnum (hd s)
     \<and> all_chars (\<lambda>c. lower_alnum c \<or> c \<in> set ''!_.-'') 0 63 (tl s)"

definition geoAttrRe :: "string \<Rightarrow> bool" where
  "geoAttrRe s \<longleftrightarrow> all_chars (\<lambda>c. lower_alnum c \<or> c \<in> set ''!_-'') 1 32 s"

definition domainValueRe :: "string \<Rightarrow> bool" where
  "domainValueRe s \<longleftrightarrow> all_chars (\<lambda>c. lower_alnum c \<or> c \<in> set ''_*.-'') 1 253 s"

definition host_label :: "string \<Rightarrow> bool" where
  "host_label l \<longleftrightarrow> l \<noteq> [] \<and> lower_alnum (hd l)
     \<and> all_chars (\<lambda>c. lower_alnum c \<or> c = CHR ''-'') 0 62 (tl l)"

definition hostnameRe :: "string \<Rightarrow> bool" where
  "hostnameRe s \<longleftrightarrow> list_all host_label (go_split (CHR ''.'') (trim_suffix s ''.''))"

definition shortIDRe :: "string \<Rightarrow> bool" where
  "shortIDRe s \<longleftrightarrow> all_chars (\<lambda>c. is_digit c \<or> 97 \<le> byte c \<and> byte c \<le> 102) 0 16 s"

definition extraSecret :: "string \<Rightarrow> bool" where
  "extraSecret s \<longleftrightarrow> all_chars is_alnum 16 64 s"

definition mieruUsername :: "string \<Rightarrow> bool" where
  "mieruUsername s \<longleftrightarrow> all_chars is_alnum 4 32 s"

section \<open>Text and hosts\<close>

definition ValidText :: "string \<Rightarrow> int \<Rightarrow> bool" where
  "ValidText s n \<longleftrightarrow> utf8_valid s \<and> trim_space s \<noteq> [] \<and> int (length s) \<le> n \<and> \<not> has_control s"

text \<open>The loop over the runes of a label only accepts ASCII, so it reads bytes.\<close>

definition valid_label :: "string \<Rightarrow> bool" where
  "valid_label l \<longleftrightarrow> l \<noteq> [] \<and> length l \<le> 63 \<and> hd l \<noteq> CHR ''-'' \<and> last l \<noteq> CHR ''-''
     \<and> list_all (\<lambda>c. is_alnum c \<or> c = CHR ''-'') l"

definition ValidHost :: "string \<Rightarrow> bool" where
  "ValidHost host \<longleftrightarrow>
     net_parse_ip host \<noteq> None
     \<or> host \<noteq> [] \<and> length host \<le> 253
       \<and> list_all valid_label (go_split (CHR ''.'') (trim_suffix host ''.''))"

definition BlockCIDRs :: "string list" where
  "BlockCIDRs =
     [''0.0.0.0/8'', ''10.0.0.0/8'', ''100.64.0.0/10'', ''127.0.0.0/8'', ''169.254.0.0/16'', ''172.16.0.0/12'',
      ''192.168.0.0/16'', ''198.18.0.0/15'', ''224.0.0.0/4'', ''240.0.0.0/4'', ''::1/128'', ''fc00::/7'', ''fe80::/10'',
      ''ff00::/8'']"

text \<open>\<open>netip.MustParsePrefix(cidr).Contains(a)\<close> for one of the constants.\<close>

definition in_cidr :: "string \<Rightarrow> ip_addr \<Rightarrow> bool" where
  "in_cidr cidr a \<longleftrightarrow> (case parse_prefix cidr of None \<Rightarrow> False | Some p \<Rightarrow> prefix_contains p a)"

definition in_block_list :: "ip_addr \<Rightarrow> bool" where
  "in_block_list a \<longleftrightarrow> list_ex (\<lambda>c. in_cidr c a) BlockCIDRs"

definition PrivateHost :: "string \<Rightarrow> bool" where
  "PrivateHost host =
     (case parse_addr host of
        None \<Rightarrow> go_fold_ascii (trim_suffix host ''.'') = ''localhost''
      | Some a0 \<Rightarrow> let a = addr_unmap a0 in \<not> addr_is_global_unicast a \<or> in_block_list a)"

definition BlockedAddr :: "ip_addr \<Rightarrow> bool" where
  "BlockedAddr a0 = (let a = addr_unmap a0 in addr_is_unspecified a \<or> in_block_list a)"

definition validUpstreamHost :: "string \<Rightarrow> bool" where
  "validUpstreamHost h =
     (case parse_addr h of
        Some a \<Rightarrow> \<not> BlockedAddr a
      | None \<Rightarrow> length h \<le> 253 \<and> hostnameRe h \<and> str_contains (trim_suffix h ''.'') ''.'')"

definition decodeKey32 :: "string \<Rightarrow> bool \<Rightarrow> bool" where
  "decodeKey32 s rawURL =
     (case (if rawURL then b64_url_decode s else b64_std_decode s) of
        None \<Rightarrow> False
      | Some b \<Rightarrow> length b = 32)"

section \<open>The block list as a set of numbers\<close>

definition block_prefixes :: "prefix list" where
  "block_prefixes = map (\<lambda>c. the (parse_prefix c)) BlockCIDRs"

lemma block_prefixes_eq:
  "block_prefixes =
     [\<lparr> pfx_addr = IPv4 0, pfx_bits = 8 \<rparr>, \<lparr> pfx_addr = IPv4 0x0A000000, pfx_bits = 8 \<rparr>,
      \<lparr> pfx_addr = IPv4 0x64400000, pfx_bits = 10 \<rparr>, \<lparr> pfx_addr = IPv4 0x7F000000, pfx_bits = 8 \<rparr>,
      \<lparr> pfx_addr = IPv4 0xA9FE0000, pfx_bits = 16 \<rparr>, \<lparr> pfx_addr = IPv4 0xAC100000, pfx_bits = 12 \<rparr>,
      \<lparr> pfx_addr = IPv4 0xC0A80000, pfx_bits = 16 \<rparr>, \<lparr> pfx_addr = IPv4 0xC6120000, pfx_bits = 15 \<rparr>,
      \<lparr> pfx_addr = IPv4 0xE0000000, pfx_bits = 4 \<rparr>, \<lparr> pfx_addr = IPv4 0xF0000000, pfx_bits = 4 \<rparr>,
      \<lparr> pfx_addr = IPv6 (U128 0 1) [], pfx_bits = 128 \<rparr>, \<lparr> pfx_addr = IPv6 (U128 0xFC00000000000000 0) [], pfx_bits = 7 \<rparr>,
      \<lparr> pfx_addr = IPv6 (U128 0xFE80000000000000 0) [], pfx_bits = 10 \<rparr>,
      \<lparr> pfx_addr = IPv6 (U128 0xFF00000000000000 0) [], pfx_bits = 8 \<rparr>]"
  by code_simp

lemma BlockCIDRs_parse: "list_all (\<lambda>c. parse_prefix c \<noteq> None) BlockCIDRs"
  by code_simp

lemma in_block_list_iff: "in_block_list a \<longleftrightarrow> list_ex (\<lambda>p. prefix_contains p a) block_prefixes"
proof -
  have "in_cidr c a \<longleftrightarrow> prefix_contains (the (parse_prefix c)) a" if "c \<in> set BlockCIDRs" for c
    using BlockCIDRs_parse that by (auto simp: in_cidr_def list_all_iff)
  then show ?thesis by (auto simp: in_block_list_def block_prefixes_def list_ex_iff)
qed

definition addr_elem :: "ip_addr \<Rightarrow> int + int" where
  "addr_elem a = (if addr_is4 a then Inl else Inr) (addr_val a)"

lemma uint_and_not_mask: "uint (w AND NOT (mask k)) = 2 ^ k * (uint w div 2 ^ k)"
proof -
  have "uint (w AND NOT (mask k)) = uint w AND NOT (mask k)"
    by (rule bit_eqI) (auto simp: bit_uint_iff bit_and_iff bit_not_iff bit_mask_iff dest: bit_imp_le_length)
  then show ?thesis by (simp add: and_not_mask_int minus_mod_eq_mult_div)
qed

lemma addr_mask_eq_iff:
  assumes "n \<le> addr_bit_len a" and "addr_is4 a = addr_is4 b" and "addr_zone a = addr_zone b" and "0 \<le> n"
  shows "addr_mask a n = addr_mask b n \<longleftrightarrow>
    addr_val a div 2 ^ nat (addr_bit_len a - n) = addr_val b div 2 ^ nat (addr_bit_len a - n)"
proof (cases a)
  case (IPv4 v)
  then obtain w where b: "b = IPv4 w" using assms(2) by (cases b) (auto simp: addr_is4_def)
  have "uint (ucast x :: 64 word) = uint x" for x :: "32 word" by (simp add: uint_up_ucast is_up)
  then have val: "addr_val (IPv4 x) = uint x" for x
    by (simp add: addr_val_def val128_def)
  have "v AND NOT (mask k) = w AND NOT (mask k) \<longleftrightarrow> uint v div 2 ^ k = uint w div 2 ^ k" for k
    by (simp add: word_uint_eq_iff uint_and_not_mask)
  then show ?thesis using IPv4 b by (simp add: addr_mask_def val addr_bit_len_def addr_is4_def)
next
  case (IPv6 v z)
  then obtain w where b: "b = IPv6 w z" using assms(2,3) by (cases b) (auto simp: addr_is4_def addr_zone_def)
  have len: "addr_bit_len a = 128" using IPv6 by (simp add: addr_bit_len_def addr_is4_def)
  define k where "k = nat (128 - n)"
  have k: "128 - n = int k" "k \<le> 128" using assms(1,4) len by (auto simp: k_def)
  have "u128_andNot v (mask128 (int k)) = u128_andNot w (mask128 (int k)) \<longleftrightarrow>
      val128 v div 2 ^ k = val128 w div 2 ^ k"
    using k(2) by (simp add: val128_inj [symmetric] val128_andNot val128_mask and_not_mask_int minus_mod_eq_mult_div)
  then show ?thesis unfolding len k_def [symmetric] using IPv6 b k by (simp add: addr_mask_def addr_val_def)
qed

lemma prefix_contains_iff:
  assumes "valid_prefix p" and "addr_zone a = []" and "addr_zone (pfx_addr p) = []"
  shows "prefix_contains p a \<longleftrightarrow> addr_elem a \<in> prefix_elems p"
proof (cases "addr_is4 (pfx_addr p) = addr_is4 a")
  case True
  then have "addr_bit_len a = addr_bit_len (pfx_addr p)" by (simp add: addr_bit_len_def)
  moreover have "addr_mask a (pfx_bits p) = addr_mask (pfx_addr p) (pfx_bits p) \<longleftrightarrow>
    addr_val a div 2 ^ prefix_host_bits p = addr_val (pfx_addr p) div 2 ^ prefix_host_bits p"
    using addr_mask_eq_iff [of "pfx_bits p" a "pfx_addr p"] assms True calculation
    by (simp add: valid_prefix_def prefix_host_bits_def)
  ultimately show ?thesis
    using True assms by (auto simp: prefix_contains_def prefix_elems_def addr_elem_def prefixRange_set valid_prefix_def)
next
  case False
  then show ?thesis by (auto simp: prefix_contains_def prefix_elems_def addr_elem_def)
qed

text \<open>The addresses that must never be dialled.\<close>

definition blocked_elems :: "(int + int) set" where
  "blocked_elems = (\<Union>p \<in> set block_prefixes. prefix_elems p)"

lemma in_block_list_elems:
  assumes "addr_zone a = []"
  shows "in_block_list a \<longleftrightarrow> addr_elem a \<in> blocked_elems"
proof -
  have "valid_prefix p \<and> addr_zone (pfx_addr p) = []" if "p \<in> set block_prefixes" for p
    using that unfolding block_prefixes_eq
    by (auto simp: valid_prefix_def addr_bit_len_def addr_is4_def addr_zone_def)
  then show ?thesis
    using prefix_contains_iff [OF _ assms] by (auto simp: in_block_list_iff list_ex_iff blocked_elems_def)
qed

end
