(* ===== verification/Reality_Pick.thy ===== *)
theory Reality_Pick
  imports Flvx_Types Hosts
begin

text \<open>
  \<open>internal/flvx/reality_pick.go\<close>: the reports about pinned Reality destinations, and the
  probe of candidate destinations - the request FLVX posts, the signed job the Helper is
  handed, the report it uploads. JSON encoding and the HMAC are the argument \<open>mac\<close>.
\<close>

section \<open>Pins\<close>

definition MaxProbeTargets :: nat where "MaxProbeTargets = 64"
definition ProbeMaxIPs :: nat where "ProbeMaxIPs = 8"
definition ProbeDefaultTimeout :: duration where "ProbeDefaultTimeout = 3 * second"
definition ProbeMaxTimeout :: duration where "ProbeMaxTimeout = 5 * second"
definition ProbeMinTimeout :: duration where "ProbeMinTimeout = 500 * nanos_per_ms"
definition MaxProbeServerNames :: nat where "MaxProbeServerNames = 32"
definition MaxRealityPinReports :: nat where "MaxRealityPinReports = 64"

definition RealityPinMoveFaster :: string where "RealityPinMoveFaster = ''faster''"
definition RealityPinMoveFailover :: string where "RealityPinMoveFailover = ''failover''"

definition validMS :: "float64 \<Rightarrow> bool" where
  "validMS v = (case v of Finite x \<Rightarrow> x = -1 \<or> 0 \<le> x \<and> x \<le> 60000 | _ \<Rightarrow> False)"

definition public_ip :: "string \<Rightarrow> bool" where
  "public_ip ip \<longleftrightarrow> net_parse_ip ip \<noteq> None \<and> \<not> PrivateHost ip"

text \<open>\<open>n, _ := strconv.Atoi(port)\<close> after \<open>net.SplitHostPort\<close>.\<close>

definition pin_ok :: "RealityPinStatus \<Rightarrow> bool" where
  "pin_ok p \<longleftrightarrow>
     (case split_host_port (rp_host p) of
        None \<Rightarrow> False
      | Some (host, port) \<Rightarrow> ValidHost host \<and> 1 \<le> go_atoi_value port \<and> go_atoi_value port \<le> 65535)
     \<and> public_ip (rp_pinned_ip p) \<and> validMS (rp_pinned_ms p) \<and> validMS (rp_best_ms p) \<and> 0 \<le> rp_checked_at p
     \<and> (rp_best_ip p \<noteq> [] \<longrightarrow> public_ip (rp_best_ip p))"

definition clean_pin :: "RealityPinStatus \<Rightarrow> RealityPinStatus" where
  "clean_pin p =
     p\<lparr>rp_nodes := take (nat MaxNodes) (filter (\<lambda>i. ValidText i 64) (rp_nodes p)),
       rp_move_reason := (if rp_move_reason p \<in> {RealityPinMoveFaster, RealityPinMoveFailover} then rp_move_reason p else [])\<rparr>"

definition SanitizeRealityPins :: "RealityPinStatus list \<Rightarrow> RealityPinStatus list" where
  "SanitizeRealityPins ps = take MaxRealityPinReports (map clean_pin (filter pin_ok ps))"

section \<open>Probe requests\<close>

record ProbeRequest =
  pr_targets :: "string list"
  pr_timeout_ms :: int

definition ProbeTarget :: "string \<Rightarrow> string option" where
  "ProbeTarget raw =
     (let target = trim_space raw;
          (h, port) = (case split_host_port target of Some hp \<Rightarrow> hp | None \<Rightarrow> (target, ''443''));
          host = go_to_lower (trim_suffix h ''.'')
      in case go_atoi port of
           None \<Rightarrow> None
         | Some n \<Rightarrow>
             if n < 1 \<or> 65535 < n \<or> host = [] \<or> \<not> ValidHost host \<or> net_parse_ip host \<noteq> None \<or> CHR ''.'' \<notin> set host \<or> PrivateHost host
             then None else Some (join_host_port host (go_itoa n)))"

definition probe_error :: "string \<Rightarrow> string \<Rightarrow> ValidationError" where
  "probe_error field message = \<lparr>ve_node_id = [], ve_field = field, ve_message = message\<rparr>"

text \<open>The targets kept so far and the errors, target by target.\<close>

fun probe_targets :: "nat \<Rightarrow> string list \<Rightarrow> string list \<Rightarrow> string list \<times> ValidationError list" where
  "probe_targets i kept [] = (kept, [])"
| "probe_targets i kept (t # ts) =
     (case ProbeTarget t of
        None \<Rightarrow> (let (k, es) = probe_targets (Suc i) kept ts
                 in (k, probe_error (''targets['' @ go_itoa (int i) @ '']'') ''target must be a public domain host:port'' # es))
      | Some target \<Rightarrow> probe_targets (Suc i) (if target \<in> set kept then kept else kept @ [target]) ts)"

definition ValidateProbe :: "ProbeRequest \<Rightarrow> ProbeRequest \<times> ValidationError list" where
  "ValidateProbe r =
     (if pr_targets r = [] \<or> MaxProbeTargets < length (pr_targets r) then (r, [probe_error ''targets'' ''1-64 targets required''])
      else (let (kept, es) = probe_targets 0 [] (pr_targets r);
                asked = i64 (pr_timeout_ms r * nanos_per_ms);
                bad = (pr_timeout_ms r \<noteq> 0 \<and> (asked < ProbeMinTimeout \<or> ProbeMaxTimeout < asked));
                timeout = (if pr_timeout_ms r = 0 then ProbeDefaultTimeout else asked)
            in (\<lparr>pr_targets = kept, pr_timeout_ms = go_div timeout nanos_per_ms\<rparr>,
                es @ (if bad then [probe_error ''timeout_ms'' ''timeout_ms must be 500-5000''] else []))))"

section \<open>Signed jobs\<close>

record ProbeJob =
  pj_server_id :: string
  pj_id :: string
  pj_targets :: "string list"
  pj_timeout_ms :: int

record ProbeEnvelope =
  pv_job :: ProbeJob
  pv_expires_at :: int
  pv_signature :: string

definition Probe_Sign :: "ProbeJob mac \<Rightarrow> string \<Rightarrow> ProbeEnvelope \<Rightarrow> ProbeEnvelope" where
  "Probe_Sign mac token e = e\<lparr>pv_signature := mac token (pv_job e) (pv_expires_at e)\<rparr>"

definition probe_job_ok :: "string \<Rightarrow> ProbeJob \<Rightarrow> bool" where
  "probe_job_ok server j \<longleftrightarrow>
     pj_server_id j = server \<and> ValidText (pj_id j) 64 \<and> pj_targets j \<noteq> [] \<and> length (pj_targets j) \<le> MaxProbeTargets
     \<and> go_div ProbeMinTimeout nanos_per_ms \<le> pj_timeout_ms j \<and> pj_timeout_ms j \<le> go_div ProbeMaxTimeout nanos_per_ms
     \<and> list_all (\<lambda>t. ProbeTarget t = Some t) (pj_targets j)"

definition Probe_Verify :: "ProbeJob mac \<Rightarrow> ProbeEnvelope \<Rightarrow> string \<Rightarrow> string \<Rightarrow> time \<Rightarrow> bool" where
  "Probe_Verify mac e token server now \<longleftrightarrow>
     probe_job_ok server (pv_job e) \<and> envelope_window (pv_expires_at e) now \<and> pv_signature e = mac token (pv_job e) (pv_expires_at e)"

section \<open>Probe reports\<close>

record ProbeIP =
  pp_ip :: string
  pp_tcp_ms :: float64

record ProbeResult =
  ps_target :: string
  ps_feasible :: bool
  ps_reason :: string
  ps_latency_ms :: float64
  ps_best_ip :: string
  ps_ips :: "ProbeIP list"
  ps_tls13 :: bool
  ps_tls_version :: string
  ps_x25519 :: bool
  ps_curve_id :: string
  ps_h2 :: bool
  ps_cert_valid :: bool
  ps_server_names :: "string list"
  ps_cert_chain_bytes :: int

record ProbeReport =
  po_id :: string
  po_state :: string
  po_started_at :: int
  po_finished_at :: int
  po_results :: "ProbeResult list"
  po_error :: string

definition clip :: "string \<Rightarrow> nat \<Rightarrow> string" where
  "clip s n = take_runes n (to_valid_utf8 s)"

definition probe_result_ok :: "ProbeResult \<Rightarrow> bool" where
  "probe_result_ok p \<longleftrightarrow>
     ProbeTarget (ps_target p) = Some (ps_target p) \<and> validMS (ps_latency_ms p) \<and> 0 \<le> ps_cert_chain_bytes p \<and> ps_cert_chain_bytes p \<le> 2 ^ 20
     \<and> (ps_best_ip p \<noteq> [] \<longrightarrow> net_parse_ip (ps_best_ip p) \<noteq> None \<and> \<not> (PrivateHost (ps_best_ip p) \<and> ps_feasible p))"

definition clean_result :: "ProbeResult \<Rightarrow> ProbeResult" where
  "clean_result p =
     p\<lparr>ps_reason := clip (ps_reason p) 200, ps_tls_version := clip (ps_tls_version p) 16, ps_curve_id := clip (ps_curve_id p) 32,
       ps_ips := take ProbeMaxIPs (filter (\<lambda>i. net_parse_ip (pp_ip i) \<noteq> None \<and> validMS (pp_tcp_ms i)) (ps_ips p)),
       ps_server_names := take MaxProbeServerNames (filter (\<lambda>n. ValidHost n \<and> net_parse_ip n = None) (ps_server_names p))\<rparr>"

definition SanitizeProbeReport :: "ProbeReport option \<Rightarrow> ProbeReport option" where
  "SanitizeProbeReport report =
     (case report of
        None \<Rightarrow> None
      | Some r \<Rightarrow>
          if \<not> ValidText (po_id r) 64 \<or> po_state r \<notin> {''running'', ''done'', ''error''} \<or> MaxProbeTargets < length (po_results r)
             \<or> \<not> list_all probe_result_ok (po_results r)
          then None else Some (r\<lparr>po_error := clip (po_error r) 200, po_results := map clean_result (po_results r)\<rparr>))"

section \<open>A normalised target stays as it is\<close>

text \<open>A text whose first and last byte are letters, digits, hyphens or dots has no space to trim.\<close>

definition host_char :: "char \<Rightarrow> bool" where
  "host_char c \<longleftrightarrow> is_alnum c \<or> c = CHR ''-'' \<or> c = CHR ''.''"

lemma host_char_byte: "host_char c \<Longrightarrow> 45 \<le> byte c \<and> byte c \<le> 122"
  by (auto simp: host_char_def is_alnum_def is_digit_def is_lower_def is_upper_def byte_def)

lemma no_leading_match:
  assumes "s \<noteq> []" "\<forall>e \<in> set es. e \<noteq> [] \<and> hd e \<noteq> byte (hd s)"
  shows "trim_left_with n es s = s"
proof -
  have "find (\<lambda>e. take (length e) (map byte s) = e) es = None"
  proof (subst find_None_iff, safe)
    fix e assume e: "e \<in> set es" "take (length e) (map byte s) = e"
    then have "e \<noteq> []" "hd e \<noteq> byte (hd s)" using assms(2) by auto
    moreover have "hd e = hd (map byte s)" using e(2) \<open>e \<noteq> []\<close> by (metis hd_take length_greater_0_conv)
    ultimately show False using assms(1) by (simp add: hd_map)
  qed
  then show ?thesis by (cases n) simp_all
qed

lemma trim_space_host:
  assumes "s \<noteq> []" "host_char (hd s)" "host_char (last s)"
  shows "trim_space s = s"
proof -
  have a: "\<forall>e \<in> set space_encodings. e \<noteq> [] \<and> hd e \<noteq> b" if "45 \<le> b" "b \<le> 122" for b
    using that by (auto simp: space_encodings_def)
  have z: "\<forall>e \<in> set (map rev space_encodings). e \<noteq> [] \<and> hd e \<noteq> b" if "45 \<le> b" "b \<le> 122" for b
    using that by (auto simp: space_encodings_def)
  have "trim_left_with n space_encodings s = s" for n
    using no_leading_match [OF assms(1) a] host_char_byte [OF assms(2)] by blast
  moreover have "trim_left_with n (map rev space_encodings) (rev s) = rev s" for n
    using no_leading_match [of "rev s", OF _ z] host_char_byte [OF assms(3)] assms(1) by (simp add: hd_rev)
  ultimately show ?thesis by (simp add: trim_space_def)
qed

lemma lower_of_byte: "is_upper c \<Longrightarrow> \<not> is_upper (char_of (byte c + 32))"
  by (auto simp: is_upper_def byte_def)

lemma go_to_lower_plain: "list_all (\<lambda>c. host_char c \<and> \<not> is_upper c) t \<Longrightarrow> go_to_lower t = t"
proof (induction t rule: go_to_lower.induct)
  case (2 c cs)
  then show ?case using host_char_byte [of c] by (cases cs) auto
qed simp

lemma go_to_lower_no_upper: "list_all (\<lambda>c. \<not> is_upper c) (go_to_lower t)"
proof (induction t rule: go_to_lower.induct)
  case (2 c cs)
  have "\<not> is_upper (CHR ''i'')" "\<not> is_upper (CHR ''k'')" by (simp_all add: is_upper_def byte_def)
  then show ?case using 2 lower_of_byte [of c] by (cases cs) auto
qed simp

lemma length_go_to_lower: "length (go_to_lower s) \<le> length s"
proof (induction s rule: go_to_lower.induct)
  case (2 c cs)
  then show ?case by (cases cs) auto
qed simp

lemma lower_host_chars:
  assumes "list_all host_char (go_to_lower s)"
  shows "go_to_lower (go_to_lower s) = go_to_lower s"
  using assms go_to_lower_no_upper [of s] by (intro go_to_lower_plain) (simp add: list_all_iff)

lemma split_all: "list_all (list_all P) (go_split c s) \<Longrightarrow> P c \<Longrightarrow> list_all P s"
  by (induction s) (auto split: list.splits if_splits)

lemma has_suffix_trim: "has_suffix s p \<Longrightarrow> trim_suffix s p @ p = s"
  by (auto simp: has_suffix_def trim_suffix_def) (metis append_take_drop_id)

lemma ValidHost_chars:
  assumes "ValidHost h" "net_parse_ip h = None"
  shows "h \<noteq> []" "list_all host_char h"
proof -
  show "h \<noteq> []" using assms by (auto simp: ValidHost_def)
  have "list_all (list_all host_char) (go_split (CHR ''.'') (trim_suffix h ''.''))"
    using assms by (auto simp: ValidHost_def valid_label_def list_all_iff host_char_def)
  then have kept: "list_all host_char (trim_suffix h ''.'')" by (rule split_all) (simp add: host_char_def)
  show "list_all host_char h"
  proof (cases "has_suffix h ''.''")
    case True
    moreover have "host_char (CHR ''.'')" by (simp add: host_char_def)
    ultimately have "list_all host_char (trim_suffix h ''.'' @ ''.'')" using kept by simp
    then show ?thesis using has_suffix_trim [OF True] by simp
  next
    case False
    then show ?thesis using kept by (simp add: trim_suffix_def)
  qed
qed


text \<open>The parts of a normalised target.\<close>

definition ends_in_dot :: "string \<Rightarrow> bool" where
  "ends_in_dot target = (case split_host_port target of Some (h, _) \<Rightarrow> has_suffix h ''.'' | None \<Rightarrow> False)"

definition probe_host :: "string \<Rightarrow> bool" where
  "probe_host host \<longleftrightarrow>
     host \<noteq> [] \<and> ValidHost host \<and> net_parse_ip host = None \<and> CHR ''.'' \<in> set host \<and> \<not> PrivateHost host"

lemma ProbeTarget_parts:
  assumes "ProbeTarget raw = Some t"
  obtains host n where "t = join_host_port host (go_itoa n)" "probe_host host" "1 \<le> n" "n \<le> 65535" "go_to_lower host = host"
proof -
  define hp where "hp = (case split_host_port (trim_space raw) of Some hp \<Rightarrow> hp | None \<Rightarrow> (trim_space raw, ''443''))"
  define host where "host = go_to_lower (trim_suffix (fst hp) ''.'')"
  obtain n where n: "go_atoi (snd hp) = Some n" "1 \<le> n" "n \<le> 65535" "probe_host host" "t = join_host_port host (go_itoa n)"
    using assms by (auto simp: ProbeTarget_def Let_def hp_def host_def probe_host_def split: option.splits prod.splits if_splits)
  moreover have "go_to_lower host = host"
    using ValidHost_chars [of host] n(4) lower_host_chars by (auto simp: probe_host_def host_def)
  ultimately show ?thesis using that by blast
qed

lemma go_itoa_port: "1 \<le> n \<Longrightarrow> go_itoa n \<noteq> [] \<and> list_all is_digit (go_itoa n)"
  using dec_digits_digits [of n] by (auto simp: go_itoa_def)

lemma ProbeTarget_join:
  assumes "probe_host host" "1 \<le> n" "n \<le> 65535"
  shows "split_host_port (join_host_port host (go_itoa n)) = Some (host, go_itoa n)"
    and "trim_space (join_host_port host (go_itoa n)) = join_host_port host (go_itoa n)"
    and "go_atoi (go_itoa n) = Some n"
proof -
  have h: "host \<noteq> []" "list_all host_char host"
    using ValidHost_chars [of host] assms(1) by (auto simp: probe_host_def)
  have p: "go_itoa n \<noteq> []" "list_all is_digit (go_itoa n)" using go_itoa_port assms(2) by auto
  have no: "\<not> host_char c \<and> \<not> is_digit c" if "c \<in> {CHR '':'', CHR ''['', CHR '']''}" for c
    using that by (auto simp: host_char_def is_alnum_def is_digit_def is_lower_def is_upper_def byte_def)
  have hn: "c \<notin> set host" "c \<notin> set (go_itoa n)" if "c \<in> {CHR '':'', CHR ''['', CHR '']''}" for c
    using no [OF that] h(2) p(2) by (auto simp: list_all_iff)
  show "split_host_port (join_host_port host (go_itoa n)) = Some (host, go_itoa n)"
    by (rule split_join_host_port) (use hn in auto)
  have j: "join_host_port host (go_itoa n) = host @ CHR '':'' # go_itoa n"
    using hn by (simp add: join_host_port_def)
  have "host_char (last (go_itoa n))" using p by (auto simp: host_char_def is_alnum_def list_all_iff)
  then show "trim_space (join_host_port host (go_itoa n)) = join_host_port host (go_itoa n)"
    using h p by (intro trim_space_host) (auto simp: j hd_append list_all_iff)
  show "go_atoi (go_itoa n) = Some n" using assms by (intro go_atoi_itoa) (simp add: is_int64_def min_int64_def max_int64_def)
qed

lemma ProbeTarget_again:
  assumes "ProbeTarget raw = Some t"
  shows "ProbeTarget t = Some t \<longleftrightarrow> \<not> ends_in_dot t"
proof -
  from assms obtain host n where t: "t = join_host_port host (go_itoa n)" "probe_host host" "1 \<le> n" "n \<le> 65535" "go_to_lower host = host"
    by (rule ProbeTarget_parts)
  note parts = ProbeTarget_join [OF t(2-4)]
  show ?thesis
  proof (cases "has_suffix host ''.''")
    case False
    then have "trim_suffix host ''.'' = host" by (simp add: trim_suffix_def)
    then show ?thesis using t parts False by (simp add: ProbeTarget_def ends_in_dot_def probe_host_def)
  next
    case True
    have "ProbeTarget t \<noteq> Some t"
    proof
      assume "ProbeTarget t = Some t"
      then have "join_host_port (go_to_lower (trim_suffix host ''.'')) (go_itoa n) = join_host_port host (go_itoa n)"
        and "probe_host (go_to_lower (trim_suffix host ''.''))"
        using t(1) parts by (auto simp: ProbeTarget_def Let_def probe_host_def split: if_splits)
      then have "Some (go_to_lower (trim_suffix host ''.''), go_itoa n) = Some (host, go_itoa n)"
        using ProbeTarget_join(1) t(2-4) by metis
      moreover have "length (go_to_lower (trim_suffix host ''.'')) < length host"
        using True length_go_to_lower [of "trim_suffix host ''.''"] by (auto simp: trim_suffix_def has_suffix_def)
      ultimately show False by simp
    qed
    then show ?thesis using t parts True by (simp add: ends_in_dot_def)
  qed
qed


section \<open>A request Custom accepts and the Helper's check of the job\<close>

lemma probe_targets_kept:
  "\<lbrakk>probe_targets i kept ts = (k, []); \<forall>t \<in> set kept. \<exists>raw. ProbeTarget raw = Some t\<rbrakk>
   \<Longrightarrow> (\<forall>t \<in> set k. \<exists>raw. ProbeTarget raw = Some t) \<and> length k \<le> length kept + length ts
     \<and> (kept \<noteq> [] \<or> ts \<noteq> [] \<longrightarrow> k \<noteq> [])"
proof (induction ts arbitrary: i kept)
  case (Cons t ts)
  obtain target where t: "ProbeTarget t = Some target"
    using Cons.prems(1) by (cases "ProbeTarget t") (auto split: prod.splits)
  define kept' where "kept' = (if target \<in> set kept then kept else kept @ [target])"
  have "probe_targets (Suc i) kept' ts = (k, [])" using Cons.prems(1) t by (simp add: kept'_def)
  moreover have "\<forall>t \<in> set kept'. \<exists>raw. ProbeTarget raw = Some t" using Cons.prems(2) t by (auto simp: kept'_def)
  ultimately have "(\<forall>t \<in> set k. \<exists>raw. ProbeTarget raw = Some t) \<and> length k \<le> length kept' + length ts
      \<and> (kept' \<noteq> [] \<or> ts \<noteq> [] \<longrightarrow> k \<noteq> [])" by (rule Cons.IH)
  moreover have "kept' \<noteq> []" "length kept' \<le> Suc (length kept)" by (auto simp: kept'_def)
  ultimately show ?case by auto
qed simp

lemma ValidateProbe_parts:
  assumes "ValidateProbe r = (q, [])"
  shows "\<forall>t \<in> set (pr_targets q). \<exists>raw. ProbeTarget raw = Some t"
    and "pr_targets q \<noteq> []" "length (pr_targets q) \<le> MaxProbeTargets"
    and "500 \<le> pr_timeout_ms q" "pr_timeout_ms q \<le> 5000"
proof -
  have size: "pr_targets r \<noteq> []" "length (pr_targets r) \<le> MaxProbeTargets"
    using assms by (auto simp: ValidateProbe_def split: if_splits)
  obtain k where k: "probe_targets 0 [] (pr_targets r) = (k, [])" "pr_targets q = k"
    using assms size by (auto simp: ValidateProbe_def Let_def split: prod.splits if_splits)
  have "(\<forall>t \<in> set k. \<exists>raw. ProbeTarget raw = Some t) \<and> length k \<le> length ([] :: string list) + length (pr_targets r)
      \<and> (([] :: string list) \<noteq> [] \<or> pr_targets r \<noteq> [] \<longrightarrow> k \<noteq> [])"
    by (rule probe_targets_kept [OF k(1)]) simp
  then show "\<forall>t \<in> set (pr_targets q). \<exists>raw. ProbeTarget raw = Some t" "pr_targets q \<noteq> []" "length (pr_targets q) \<le> MaxProbeTargets"
    using k(2) size by auto
  have "500 \<le> pr_timeout_ms q \<and> pr_timeout_ms q \<le> 5000"
    using assms size
    by (auto simp: ValidateProbe_def Let_def go_div_def ProbeDefaultTimeout_def ProbeMinTimeout_def ProbeMaxTimeout_def
        second_def nanos_per_ms_def split: prod.splits if_splits)
  then show "500 \<le> pr_timeout_ms q" "pr_timeout_ms q \<le> 5000" by auto
qed

text \<open>
  C26: A Reality probe request that Custom accepts becomes a job whose targets, count and time
  limit the Helper checks once more when the signed job arrives. Signed with the shared token
  and within its window, the job passes that check exactly when no accepted target still ends
  its host in a dot.
\<close>

theorem accepted_probe_verifies:
  assumes "ValidateProbe r = (q, [])" and "ValidText job_id 64" and "envelope_window expires now"
  shows "Probe_Verify mac
           (Probe_Sign mac token
              \<lparr>pv_job = \<lparr>pj_server_id = server, pj_id = job_id, pj_targets = pr_targets q, pj_timeout_ms = pr_timeout_ms q\<rparr>,
               pv_expires_at = expires, pv_signature = []\<rparr>)
           token server now
         \<longleftrightarrow> \<not> list_ex ends_in_dot (pr_targets q)"
proof -
  note parts = ValidateProbe_parts [OF assms(1)]
  have "ProbeTarget t = Some t \<longleftrightarrow> \<not> ends_in_dot t" if "t \<in> set (pr_targets q)" for t
    using parts(1) that ProbeTarget_again by blast
  then have "list_all (\<lambda>t. ProbeTarget t = Some t) (pr_targets q) \<longleftrightarrow> \<not> list_ex ends_in_dot (pr_targets q)"
    by (auto simp: list_all_iff list_ex_iff)
  then show ?thesis
    using parts(2-5) assms(2,3)
    by (simp add: Probe_Verify_def Probe_Sign_def probe_job_ok_def go_div_def ProbeMinTimeout_def ProbeMaxTimeout_def
        second_def nanos_per_ms_def)
qed

theorem accepted_probe_verifies_witness:
  "Probe_Verify (\<lambda>token j e. token @ pj_id j)
     (Probe_Sign (\<lambda>token j e. token @ pj_id j) ''k''
        \<lparr>pv_job = \<lparr>pj_server_id = ''7'', pj_id = ''p1'', pj_targets = [''www.a.com:443''], pj_timeout_ms = 3000\<rparr>,
         pv_expires_at = - 62135596799000, pv_signature = []\<rparr>)
     ''k'' ''7'' 0
   \<and> \<not> Probe_Verify (\<lambda>token j e. token @ pj_id j)
     (Probe_Sign (\<lambda>token j e. token @ pj_id j) ''k''
        \<lparr>pv_job = \<lparr>pj_server_id = ''7'', pj_id = ''p1'', pj_targets = [''a.b.:443''], pj_timeout_ms = 3000\<rparr>,
         pv_expires_at = - 62135596799000, pv_signature = []\<rparr>)
     ''k'' ''7'' 0"
proof -
  have a: "ValidateProbe \<lparr>pr_targets = ['' WWW.A.com. '', ''www.a.com:443''], pr_timeout_ms = 0\<rparr>
      = (\<lparr>pr_targets = [''www.a.com:443''], pr_timeout_ms = 3000\<rparr>, [])"
    by code_simp
  have b: "ValidateProbe \<lparr>pr_targets = [''a.b..''], pr_timeout_ms = 0\<rparr> = (\<lparr>pr_targets = [''a.b.:443''], pr_timeout_ms = 3000\<rparr>, [])"
    by code_simp
  have c: "ValidText ''p1'' 64" "envelope_window (- 62135596799000) 0" "\<not> ends_in_dot ''www.a.com:443''" "ends_in_dot ''a.b.:443''"
    by code_simp+
  show ?thesis
    using accepted_probe_verifies [OF a c(1,2)] accepted_probe_verifies [OF b c(1,2)] c(3,4) by simp
qed

end
