(* ===== verification/Desired_State.thy ===== *)
theory Desired_State
  imports Flvx_Types Hosts
begin

text \<open>
  \<open>internal/flvx/validate.go\<close> and \<open>protocols.go\<close>: validation of a share's
  configuration and of the desired state that FLVX sends, the extra protocols,
  and the port lists. PEM, X.509 and key pair parsing are the argument \<open>lib\<close>;
  \<open>encoding/json\<close> in \<open>OfficialPorts\<close> is done (the argument is the list of raw
  port values). A Go map that is only read by key is a partial function.
\<close>

section \<open>The share's configuration\<close>

definition max_safe_int :: int where "max_safe_int = 9007199254740991"
definition max_millis :: int where "max_millis = 253402300799999"

definition ValidateConfig :: "Config \<Rightarrow> string option" where
  "ValidateConfig c =
     (if cf_port_min c < 1024 \<or> cf_port_max c > 65535 \<or> cf_port_min c > cf_port_max c then Some ''ports''
      else if cf_traffic_limit_bytes c < 0 \<or> cf_traffic_limit_bytes c > max_safe_int then Some ''traffic limit''
      else if cf_reset_day c < 1 \<or> cf_reset_day c > 31 then Some ''reset day''
      else if cf_max_connections c < 0 \<or> cf_max_connections c > 10000000 then Some ''connections''
      else if (case cf_share_until c of None \<Rightarrow> False | Some u \<Rightarrow> u \<le> 0 \<or> u > max_millis) then Some ''share until''
      else if cf_memory_mb c \<noteq> 0 \<and> (cf_memory_mb c < MinCoreMemoryMB \<or> cf_memory_mb c > MaxCoreMemoryMB)
              \<or> cf_cpu_percent c < 0 \<or> cf_cpu_percent c > MaxCoreCPUPercent then Some ''memory or cpu''
      else None)"

section \<open>Extra protocols\<close>

record DesiredOptions =
  do_protocols :: "string \<rightharpoonup> ProtocolCap"
  do_busy :: "ListeningPorts option"
  do_now :: time

definition AllProtocols :: "string \<rightharpoonup> ProtocolCap" where
  "AllProtocols =
     (let c = \<lparr> pc_udp = True, pc_versions = [], pc_obfs = [], pc_transports = [] \<rparr>
      in [ProtocolAnyTLS \<mapsto> c, ProtocolSnell \<mapsto> c, ProtocolMieru \<mapsto> c])"

definition UDPProtocol :: "string \<Rightarrow> bool" where
  "UDPProtocol p \<longleftrightarrow> p = ''ss2022'' \<or> p = ProtocolMieru"

definition Node_objects :: "Node \<Rightarrow> nat" where
  "Node_objects n = length (filter id
     [nd_ss2022 n \<noteq> None, nd_vless n \<noteq> None, nd_anytls n \<noteq> None, nd_snell n \<noteq> None, nd_mieru n \<noteq> None])"

text \<open>\<open>pem.Decode\<close> (type, bytes, rest), the validity of a parsed certificate, and \<open>tls.X509KeyPair\<close>.\<close>

record cert_lib =
  lib_pem :: "string \<Rightarrow> (string \<times> string \<times> string) option"
  lib_cert :: "string \<Rightarrow> (time \<times> time) option"
  lib_pair :: "string \<Rightarrow> string \<Rightarrow> bool"

definition singlePEM :: "cert_lib \<Rightarrow> string \<Rightarrow> (string \<times> string) option" where
  "singlePEM lib data =
     (if data = [] \<or> int (length data) > 4096 then None
      else case lib_pem lib data of
        None \<Rightarrow> None
      | Some (ty, bs, rest) \<Rightarrow> if trim_space rest \<noteq> [] then None else Some (ty, bs))"

definition certificateSkew :: duration where "certificateSkew = 10 * minute"

definition validAnyTLSCertificate :: "cert_lib \<Rightarrow> string \<Rightarrow> string \<Rightarrow> time \<Rightarrow> bool" where
  "validAnyTLSCertificate lib certificatePEM keyPEM now =
     (case (singlePEM lib certificatePEM, singlePEM lib keyPEM) of
        (Some (ct, cb), Some (kt, _)) \<Rightarrow>
          if ct \<noteq> ''CERTIFICATE'' \<or> kt \<noteq> ''PRIVATE KEY'' \<and> kt \<noteq> ''EC PRIVATE KEY'' then False
          else (case lib_cert lib cb of
                  None \<Rightarrow> False
                | Some (notBefore, notAfter) \<Rightarrow>
                    if now \<noteq> 0 \<and> (now + certificateSkew < notBefore \<or> now > notAfter) then False
                    else lib_pair lib certificatePEM keyPEM)
      | _ \<Rightarrow> False)"

definition add_if :: "bool \<Rightarrow> string \<Rightarrow> string \<Rightarrow> (string \<times> string) list" where
  "add_if c f m = (if c then [(f, m)] else [])"

definition dns_name :: "string \<Rightarrow> bool" where
  "dns_name s \<longleftrightarrow> ValidHost s \<and> net_parse_ip s = None"

definition snell_errors :: "Snell \<Rightarrow> ProtocolCap \<Rightarrow> (string \<times> string) list" where
  "snell_errors s capability =
     (let versions = (if pc_versions capability = [] then [4, 5] else pc_versions capability);
          obfs = (if pc_obfs capability = [] then [''none'', ''http'', ''tls''] else pc_obfs capability)
      in add_if (\<not> extraSecret (sn_psk s)) ''snell.psk'' ''psk''
         @ add_if (sn_version s \<noteq> 4 \<and> sn_version s \<noteq> 5 \<or> sn_version s \<notin> set versions) ''snell.version'' ''version''
         @ (if sn_obfs s \<notin> set [''none'', ''http'', ''tls''] \<or> sn_obfs s \<notin> set obfs then [(''snell.obfs'', ''mode'')]
            else if sn_obfs s = ''none'' \<and> sn_obfs_host s \<noteq> [] then [(''snell.obfs'', ''host without obfs'')]
            else add_if (sn_obfs s \<noteq> ''none'' \<and> \<not> dns_name (sn_obfs_host s)) ''snell.obfs'' ''host''))"

definition anytls_errors :: "cert_lib \<Rightarrow> AnyTLS \<Rightarrow> time \<Rightarrow> (string \<times> string) list" where
  "anytls_errors lib a now =
     add_if (\<not> extraSecret (an_password a)) ''anytls.password'' ''password''
     @ add_if (an_padding a \<noteq> ''default'') ''anytls.padding'' ''padding''
     @ (let t = an_tls a in
        if at_server_name t \<noteq> [] \<and> \<not> dns_name (at_server_name t) then [(''anytls.tls'', ''server name'')]
        else add_if (\<not> validAnyTLSCertificate lib (at_certificate_pem t) (at_key_pem t) now) ''anytls.tls'' ''certificate'')"

definition mieru_errors :: "Mieru \<Rightarrow> (string \<times> string) list" where
  "mieru_errors m =
     add_if (\<not> mieruUsername (mi_username m)) ''mieru.username'' ''username''
     @ add_if (\<not> extraSecret (mi_password m)) ''mieru.password'' ''password''"

definition validateExtra :: "cert_lib \<Rightarrow> Node \<Rightarrow> ProtocolCap \<Rightarrow> time \<Rightarrow> (string \<times> string) list" where
  "validateExtra lib n capability now =
     (let p = nd_protocol n;
          present = (p = ProtocolAnyTLS \<and> nd_anytls n \<noteq> None \<or> p = ProtocolSnell \<and> nd_snell n \<noteq> None
                     \<or> p = ProtocolMieru \<and> nd_mieru n \<noteq> None)
      in if \<not> present \<or> Node_objects n \<noteq> 1 then [(p, ''fields required exclusively'')]
         else if p = ProtocolAnyTLS then anytls_errors lib (the (nd_anytls n)) now
         else if p = ProtocolSnell then snell_errors (the (nd_snell n)) capability
         else mieru_errors (the (nd_mieru n)))"

text \<open>The lists of one capability: known values once, in order; \<open>None\<close> drops the entry.\<close>

definition keep_known :: "'a list \<Rightarrow> 'a list \<Rightarrow> 'a list" where
  "keep_known known xs = dedup (filter (\<lambda>x. x \<in> set known) xs)"

definition clean_cap :: "string \<Rightarrow> ProtocolCap \<Rightarrow> ProtocolCap option" where
  "clean_cap p c =
     (let clean = \<lparr> pc_udp = pc_udp c, pc_versions = [], pc_obfs = [], pc_transports = [] \<rparr> in
      if p = ProtocolSnell then
        (let vs = keep_known [4, 5] (pc_versions c); os = keep_known [''none'', ''http'', ''tls''] (pc_obfs c) in
         if pc_versions c \<noteq> [] \<and> vs = [] \<or> pc_obfs c \<noteq> [] \<and> os = [] then None
         else Some (clean\<lparr>pc_versions := vs, pc_obfs := os\<rparr>))
      else if p = ProtocolMieru then
        (let ts = keep_known [''TCP'', ''UDP''] (pc_transports c) in
         if pc_transports c \<noteq> [] \<and> ts = [] then None else Some (clean\<lparr>pc_transports := ts\<rparr>))
      else Some clean)"

definition SanitizeProtocols :: "(string \<rightharpoonup> ProtocolCap) \<Rightarrow> (string \<rightharpoonup> ProtocolCap) option" where
  "SanitizeProtocols inp =
     (let out = (\<lambda>p. if p \<in> set ExtraProtocols then Option.bind (inp p) (clean_cap p) else None)
      in if list_all (\<lambda>p. out p = None) ExtraProtocols then None else Some out)"

section \<open>Ports\<close>

definition MaxBusyPorts :: int where "MaxBusyPorts = 4096"

definition ListeningPorts_Valid :: "ListeningPorts option \<Rightarrow> bool" where
  "ListeningPorts_Valid ol =
     (case ol of None \<Rightarrow> True
      | Some l \<Rightarrow> list_all (\<lambda>ports. \<not> int (length ports) > MaxBusyPorts \<and> list_all (\<lambda>p. \<not> (p < 1 \<or> p > 65535)) ports)
                   [lp_tcp l, lp_udp l])"

definition BusyPorts :: "int \<Rightarrow> int \<Rightarrow> int set \<Rightarrow> int list list \<Rightarrow> int list" where
  "BusyPorts lo hi own ports_lists =
     (let result = sort (dedup (filter (\<lambda>p. \<not> (p < lo \<or> p > hi \<or> p \<in> own)) (concat ports_lists)))
      in if int (length result) > MaxBusyPorts then take (nat MaxBusyPorts) result else result)"

text \<open>One comma separated part of an official inbound's port.\<close>

definition official_part :: "string \<Rightarrow> int list option" where
  "official_part part =
     (let bounds = go_split (CHR ''-'') part;
          start = go_atoi_value (bounds ! 0);
          (end, bad) = (if length bounds = 2 then (go_atoi_value (bounds ! 1), go_atoi (bounds ! 1) = None)
                        else (start, go_atoi (bounds ! 0) = None))
      in if bad \<or> length bounds > 2 \<or> start < 1 \<or> end > 65535 \<or> end < start then None
         else Some [start..end])"

fun official_parts :: "string list \<Rightarrow> int list option" where
  "official_parts [] = Some []"
| "official_parts (p # ps) =
     (case official_part p of
        None \<Rightarrow> None
      | Some xs \<Rightarrow> map_option (\<lambda>ys. xs @ ys) (official_parts ps))"

definition trim_quotes :: "string \<Rightarrow> string" where
  "trim_quotes s = rev (dropWhile (\<lambda>c. byte c = 34) (rev (dropWhile (\<lambda>c. byte c = 34) s)))"

definition OfficialPorts :: "string list \<Rightarrow> int list option" where
  "OfficialPorts raw =
     (let texts = filter (\<lambda>s. s \<noteq> [] \<and> s \<noteq> ''null'') (map trim_quotes raw)
      in map_option dedup (official_parts (concat (map (go_split (CHR '','')) texts))))"

section \<open>The desired state\<close>

definition node_error :: "Node \<Rightarrow> string \<Rightarrow> string \<Rightarrow> ValidationError" where
  "node_error n f m = \<lparr> ve_node_id = nd_id n, ve_field = f, ve_message = m \<rparr>"

definition canonical_std :: "string \<Rightarrow> nat \<Rightarrow> bool" where
  "canonical_std key k =
     (case b64_std_decode key of None \<Rightarrow> False | Some b \<Rightarrow> length b = k \<and> b64_encode_with False b = key)"

definition canonical_url :: "string \<Rightarrow> nat \<Rightarrow> bool" where
  "canonical_url key k =
     (case b64_url_decode key of None \<Rightarrow> False | Some b \<Rightarrow> length b = k \<and> b64_encode_with True b = key)"

text \<open>The loop that reports each bad or repeated element; \<open>seen\<close> is the map of the source.\<close>

fun repeated_errors :: "('a \<Rightarrow> bool) \<Rightarrow> 'a list \<Rightarrow> (string \<times> string) \<Rightarrow> 'a list \<Rightarrow> (string \<times> string) list" where
  "repeated_errors ok seen e [] = []"
| "repeated_errors ok seen e (x # xs) =
     (if \<not> ok x \<or> x \<in> set seen then [e] else []) @ repeated_errors ok (x # seen) e xs"

definition public_dest :: "string \<Rightarrow> bool" where
  "public_dest dest =
     (case split_host_port dest of
        None \<Rightarrow> False
      | Some (host, port) \<Rightarrow>
          ValidHost host \<and> \<not> go_atoi_value port < 1 \<and> \<not> go_atoi_value port > 65535 \<and> \<not> PrivateHost host)"

definition vless_errors :: "VLESS \<Rightarrow> (string \<times> string) list" where
  "vless_errors v =
     (let rl = vl_reality v in
      add_if (\<not> uuidRe (vl_uuid v)) ''vless.uuid'' ''uuid''
      @ add_if (vl_flow v \<noteq> ''xtls-rprx-vision'') ''vless.flow'' ''flow''
      @ add_if (\<not> canonical_url (rl_private_key rl) 32) ''vless.reality.private_key'' ''key''
      @ add_if (\<not> public_dest (rl_dest rl)) ''vless.reality.dest'' ''dest must be public''
      @ add_if (rl_server_names rl = [] \<or> length (rl_server_names rl) > 16) ''vless.reality.server_names'' ''1-16''
      @ repeated_errors dns_name [] (''vless.reality.server_names'', ''invalid or duplicate'') (rl_server_names rl)
      @ add_if (rl_short_ids rl = [] \<or> length (rl_short_ids rl) > 16) ''vless.reality.short_ids'' ''1-16''
      @ repeated_errors (\<lambda>s. hex_decodes s \<and> \<not> length s > 16) [] (''vless.reality.short_ids'', ''invalid or duplicate'')
          (rl_short_ids rl))"

definition ss2022_errors :: "SS2022 \<Rightarrow> (string \<times> string) list" where
  "ss2022_errors s =
     add_if (ss_method s \<noteq> ''2022-blake3-aes-128-gcm'') ''ss2022.method'' ''method''
     @ add_if (\<not> canonical_std (ss_server_key s) 16) ''ss2022.server_key'' ''16 byte key''
     @ add_if (\<not> canonical_std (ss_user_key s) 16) ''ss2022.user_key'' ''16 byte key''"

definition protocol_errors :: "cert_lib \<Rightarrow> DesiredOptions \<Rightarrow> Node \<Rightarrow> (string \<times> string) list" where
  "protocol_errors lib opts n =
     (if nd_protocol n = ''ss2022'' then
        (if nd_ss2022 n = None \<or> Node_objects n \<noteq> 1 then [(''ss2022'', ''fields required exclusively'')]
         else ss2022_errors (the (nd_ss2022 n)))
      else if nd_protocol n = ''vless_reality_vision'' then
        (if nd_vless n = None \<or> Node_objects n \<noteq> 1 then [(''vless'', ''fields required exclusively'')]
         else vless_errors (the (nd_vless n)))
      else if IsExtraProtocol (nd_protocol n) then
        (case do_protocols opts (nd_protocol n) of
           None \<Rightarrow> [(''protocol'', ''not supported on this share'')]
         | Some capability \<Rightarrow> validateExtra lib n capability (do_now opts))
      else [(''protocol'', ''unsupported'')])"

definition ConnModes :: "string set" where "ConnModes = set [[], ''total'', ''inbound'']"

text \<open>The checks of one node that do not depend on its protocol.\<close>

definition node_errors ::
  "Config \<Rightarrow> int set \<Rightarrow> int set \<Rightarrow> int set \<Rightarrow> string set \<Rightarrow> int set \<Rightarrow> Node \<Rightarrow> (string \<times> string) list" where
  "node_errors c reserved busyTCP busyUDP ids ports n =
     add_if (\<not> identifierRe (nd_id n) \<or> nd_id n \<in> ids) ''id'' ''invalid or duplicate''
     @ add_if (\<not> identifierRe (ow_id (nd_owner n)) \<or> \<not> ValidText (ow_name (nd_owner n)) 128) ''owner'' ''owner''
     @ add_if (\<not> ValidText (nd_name n) 128) ''name'' ''name''
     @ (if nd_port n < cf_port_min c \<or> nd_port n > cf_port_max c \<or> nd_port n \<in> reserved \<or> nd_port n \<in> ports
        then [(''port'', ''range or collision'')]
        else add_if (nd_port n \<in> busyTCP \<or> UDPProtocol (nd_protocol n) \<and> nd_port n \<in> busyUDP) ''port'' ''in use'')
     @ add_if (nd_enabled n = None) ''enabled'' ''required''
     @ add_if (nd_max_connections n < 0 \<or> nd_max_connections n > 10000000) ''max_connections'' ''limit''
     @ add_if (nd_max_total_connections n < 0 \<or> nd_max_total_connections n > MaxNodeTotalConnections)
         ''max_total_connections'' ''limit''
     @ add_if (nd_max_online_ips n < 0 \<or> nd_max_online_ips n > 1000000) ''max_online_ips'' ''limit''
     @ add_if (nd_conn_mode n \<notin> ConnModes) ''conn_mode'' ''mode''
     @ add_if (case nd_expires_at n of None \<Rightarrow> False | Some x \<Rightarrow> x \<le> 0 \<or> x > max_millis) ''expires_at'' ''expiry''"

fun nodes_errors ::
  "cert_lib \<Rightarrow> DesiredOptions \<Rightarrow> Config \<Rightarrow> int set \<Rightarrow> int set \<Rightarrow> int set \<Rightarrow> string set \<Rightarrow> int set \<Rightarrow> Node list
   \<Rightarrow> ValidationError list" where
  "nodes_errors lib opts c reserved busyTCP busyUDP ids ports [] = []"
| "nodes_errors lib opts c reserved busyTCP busyUDP ids ports (n # ns) =
     map (\<lambda>(f, m). node_error n f m)
       (node_errors c reserved busyTCP busyUDP ids ports n @ protocol_errors lib opts n)
     @ nodes_errors lib opts c reserved busyTCP busyUDP (insert (nd_id n) ids) (insert (nd_port n) ports) ns"

definition MaxRealityPinMarginMS :: int where "MaxRealityPinMarginMS = 200"

definition ValidateDesiredWith ::
  "cert_lib \<Rightarrow> Desired \<Rightarrow> Config \<Rightarrow> int list \<Rightarrow> DesiredOptions \<Rightarrow> ValidationError list" where
  "ValidateDesiredWith lib d c official opts =
     (let top = (\<lambda>f m. \<lparr> ve_node_id = [], ve_field = f, ve_message = m \<rparr>);
          (busyTCP, busyUDP) = (case do_busy opts of None \<Rightarrow> ({}, {}) | Some b \<Rightarrow> (set (lp_tcp b), set (lp_udp b)))
      in (if ds_revision d \<le> 0 \<or> ds_revision d > max_safe_int then [top ''revision'' ''revision''] else [])
         @ (if ds_nodes d = None \<or> int (length (ds_node_list d)) > MaxNodes then [top ''nodes'' ''at most 1000''] else [])
         @ (case ds_reality_pin_margin_ms d of
              None \<Rightarrow> []
            | Some m \<Rightarrow> if m < 0 \<or> m > MaxRealityPinMarginMS then [top ''reality_pin_margin_ms'' ''0-200''] else [])
         @ nodes_errors lib opts c (set official) busyTCP busyUDP {} {} (ds_node_list d))"

definition ValidateDesired :: "cert_lib \<Rightarrow> Desired \<Rightarrow> Config \<Rightarrow> int list \<Rightarrow> ValidationError list" where
  "ValidateDesired lib d c official =
     ValidateDesiredWith lib d c official \<lparr> do_protocols = Map.empty, do_busy = None, do_now = 0 \<rparr>"


section \<open>What an accepted desired state satisfies\<close>

lemma add_if_Nil [simp]: "add_if c f m = [] \<longleftrightarrow> \<not> c"
  by (simp add: add_if_def)

lemma nodes_errors_split:
  "nodes_errors lib opts c reserved bt bu ids ports (xs @ n # ys) = [] \<Longrightarrow>
     node_errors c reserved bt bu (ids \<union> nd_id ` set xs) (ports \<union> nd_port ` set xs) n = []
     \<and> protocol_errors lib opts n = []"
proof (induction xs arbitrary: ids ports)
  case (Cons x xs)
  then show ?case using Cons.IH [of "insert (nd_id x) ids" "insert (nd_port x) ports"] by simp
qed simp

lemma nodes_errors_distinct:
  "nodes_errors lib opts c reserved bt bu ids ports ns = [] \<Longrightarrow>
     distinct (map nd_id ns) \<and> distinct (map nd_port ns)
     \<and> nd_id ` set ns \<inter> ids = {} \<and> nd_port ` set ns \<inter> ports = {}"
proof (induction ns arbitrary: ids ports)
  case (Cons n ns)
  then have n: "node_errors c reserved bt bu ids ports n = []" by simp
  moreover have "nd_id n \<notin> ids" "nd_port n \<notin> ports"
    using n by (auto simp: node_errors_def split: if_splits)
  ultimately show ?case using Cons.IH [of "insert (nd_id n) ids" "insert (nd_port n) ports"] Cons.prems by auto
qed simp

lemma node_errors_mono:
  assumes "node_errors c reserved bt bu ids ports n = []"
  shows "node_errors c reserved bt bu {} {} n = []"
  using assms by (auto simp: node_errors_def split: if_splits)

lemma ValidateDesiredWith_nodes:
  assumes "ValidateDesiredWith lib d c official opts = []"
  obtains bt bu where "nodes_errors lib opts c (set official) bt bu {} {} (ds_node_list d) = []"
    and "bt = (case do_busy opts of None \<Rightarrow> {} | Some b \<Rightarrow> set (lp_tcp b))"
    and "bu = (case do_busy opts of None \<Rightarrow> {} | Some b \<Rightarrow> set (lp_udp b))"
  using assms by (cases "do_busy opts") (auto simp: ValidateDesiredWith_def Let_def)

lemma ValidateDesiredWith_node:
  assumes "ValidateDesiredWith lib d c official opts = []" and "n \<in> set (ds_node_list d)"
  shows "node_errors c (set official)
           (case do_busy opts of None \<Rightarrow> {} | Some b \<Rightarrow> set (lp_tcp b))
           (case do_busy opts of None \<Rightarrow> {} | Some b \<Rightarrow> set (lp_udp b)) {} {} n = []"
    and "protocol_errors lib opts n = []"
proof -
  obtain xs ys where split: "ds_node_list d = xs @ n # ys" using assms(2) by (meson split_list)
  obtain bt bu where e: "nodes_errors lib opts c (set official) bt bu {} {} (xs @ n # ys) = []"
    and b: "bt = (case do_busy opts of None \<Rightarrow> {} | Some b \<Rightarrow> set (lp_tcp b))"
      "bu = (case do_busy opts of None \<Rightarrow> {} | Some b \<Rightarrow> set (lp_udp b))"
    using ValidateDesiredWith_nodes [OF assms(1)] split by metis
  show "node_errors c (set official)
           (case do_busy opts of None \<Rightarrow> {} | Some b \<Rightarrow> set (lp_tcp b))
           (case do_busy opts of None \<Rightarrow> {} | Some b \<Rightarrow> set (lp_udp b)) {} {} n = []"
    using nodes_errors_split [OF e] node_errors_mono unfolding b by blast
  show "protocol_errors lib opts n = []" using nodes_errors_split [OF e] by blast
qed

lemma protocol_errors_one_object:
  "protocol_errors lib opts n = [] \<Longrightarrow> Node_objects n = 1"
  by (auto simp: protocol_errors_def validateExtra_def Let_def split: if_splits option.splits)

lemma protocol_errors_supported:
  assumes "protocol_errors lib opts n = []"
  shows "nd_protocol n = ''ss2022'' \<and> nd_ss2022 n \<noteq> None
    \<or> nd_protocol n = ''vless_reality_vision'' \<and> nd_vless n \<noteq> None
    \<or> nd_protocol n \<in> set ExtraProtocols \<and> do_protocols opts (nd_protocol n) \<noteq> None"
  using assms by (auto simp: protocol_errors_def IsExtraProtocol_def ExtraProtocols_def split: if_splits option.splits)

text \<open>
  C3: A desired state that \<open>ValidateDesiredWith\<close> accepts has at most \<open>MaxNodes\<close>
  nodes with pairwise different ids and ports; every node listens inside the
  share's port range, on a port no official inbound uses and no other software
  listens on, carries exactly one protocol object, and that protocol is SS2022,
  VLESS or one that the share advertises.
\<close>

theorem accepted_desired:
  assumes "ValidateDesiredWith lib d c official opts = []"
  shows "int (length (ds_node_list d)) \<le> MaxNodes
    \<and> distinct (map nd_id (ds_node_list d)) \<and> distinct (map nd_port (ds_node_list d))
    \<and> (\<forall>n \<in> set (ds_node_list d).
         cf_port_min c \<le> nd_port n \<and> nd_port n \<le> cf_port_max c \<and> nd_port n \<notin> set official
         \<and> (\<forall>b. do_busy opts = Some b \<longrightarrow>
              nd_port n \<notin> set (lp_tcp b) \<and> (UDPProtocol (nd_protocol n) \<longrightarrow> nd_port n \<notin> set (lp_udp b)))
         \<and> Node_objects n = 1
         \<and> (nd_protocol n = ''ss2022'' \<and> nd_ss2022 n \<noteq> None
            \<or> nd_protocol n = ''vless_reality_vision'' \<and> nd_vless n \<noteq> None
            \<or> nd_protocol n \<in> set ExtraProtocols \<and> do_protocols opts (nd_protocol n) \<noteq> None))"
proof (intro conjI ballI)
  show "int (length (ds_node_list d)) \<le> MaxNodes"
    using assms by (auto simp: ValidateDesiredWith_def Let_def split: if_splits prod.splits)
  obtain bt bu where e: "nodes_errors lib opts c (set official) bt bu {} {} (ds_node_list d) = []"
    using ValidateDesiredWith_nodes [OF assms] by metis
  show "distinct (map nd_id (ds_node_list d))" "distinct (map nd_port (ds_node_list d))"
    using nodes_errors_distinct [OF e] by simp_all
  fix n assume n: "n \<in> set (ds_node_list d)"
  note ne = ValidateDesiredWith_node(1) [OF assms n] and pe = ValidateDesiredWith_node(2) [OF assms n]
  show "cf_port_min c \<le> nd_port n" "nd_port n \<le> cf_port_max c" "nd_port n \<notin> set official"
    using ne by (auto simp: node_errors_def split: if_splits)
  show "\<forall>b. do_busy opts = Some b \<longrightarrow>
      nd_port n \<notin> set (lp_tcp b) \<and> (UDPProtocol (nd_protocol n) \<longrightarrow> nd_port n \<notin> set (lp_udp b))"
    using ne by (auto simp: node_errors_def split: if_splits)
  show "Node_objects n = 1" by (rule protocol_errors_one_object [OF pe])
  show "nd_protocol n = ''ss2022'' \<and> nd_ss2022 n \<noteq> None
            \<or> nd_protocol n = ''vless_reality_vision'' \<and> nd_vless n \<noteq> None
            \<or> nd_protocol n \<in> set ExtraProtocols \<and> do_protocols opts (nd_protocol n) \<noteq> None"
    by (rule protocol_errors_supported [OF pe])
qed

lemma repeated_errors_seen:
  "repeated_errors ok seen e xs = [] \<longleftrightarrow> list_all ok xs \<and> distinct xs \<and> set xs \<inter> set seen = {}"
  by (induction xs arbitrary: seen) auto

lemma repeated_errors_Nil: "repeated_errors ok [] e xs = [] \<longleftrightarrow> list_all ok xs \<and> distinct xs"
  by (simp add: repeated_errors_seen)

lemma public_dest_addr:
  assumes "public_dest dest"
  obtains host port where "split_host_port dest = Some (host, port)" and "ValidHost host"
    and "1 \<le> go_atoi_value port" and "go_atoi_value port \<le> 65535" and "\<not> PrivateHost host"
  using assms by (auto simp: public_dest_def split: option.splits)

lemma addr_zone_unmap_private:
  assumes "\<not> PrivateHost host" and "parse_addr host = Some a" and "addr_zone (addr_unmap a) = []"
  shows "addr_is_global_unicast (addr_unmap a) \<and> addr_elem (addr_unmap a) \<notin> blocked_elems"
  using assms by (auto simp: PrivateHost_def Let_def in_block_list_elems)


section \<open>Port lists\<close>

definition busy_candidates :: "int \<Rightarrow> int \<Rightarrow> int set \<Rightarrow> int list list \<Rightarrow> int set" where
  "busy_candidates lo hi own ls = {p. (\<exists>l \<in> set ls. p \<in> set l) \<and> lo \<le> p \<and> p \<le> hi \<and> p \<notin> own}"

text \<open>
  The busy ports reported for a share are sorted and without repetition,
  each is a listening port inside the range that is not one of the share's own,
  there are exactly \<open>min 4096 n\<close> of the \<open>n\<close> such ports, and those left
  out are larger than all that are reported.
\<close>

theorem busyPorts_exact:
  "sorted (BusyPorts lo hi own ls) \<and> distinct (BusyPorts lo hi own ls)
    \<and> set (BusyPorts lo hi own ls) \<subseteq> busy_candidates lo hi own ls
    \<and> int (length (BusyPorts lo hi own ls)) = min 4096 (int (card (busy_candidates lo hi own ls)))
    \<and> (\<forall>p \<in> busy_candidates lo hi own ls - set (BusyPorts lo hi own ls). \<forall>q \<in> set (BusyPorts lo hi own ls). q < p)"
proof -
  define all where "all = sort (dedup (filter (\<lambda>p. \<not> (p < lo \<or> p > hi \<or> p \<in> own)) (concat ls)))"
  have set_all: "set all = busy_candidates lo hi own ls" by (auto simp: all_def busy_candidates_def)
  have all: "sorted all" "distinct all" by (simp_all add: all_def)
  then have len: "length all = card (busy_candidates lo hi own ls)"
    using set_all by (metis distinct_card)
  have res: "BusyPorts lo hi own ls = take 4096 all"
    by (simp add: BusyPorts_def all_def MaxBusyPorts_def Let_def)
  have split: "all = take 4096 all @ drop 4096 all" by simp
  have "q < p" if p: "p \<in> set all" "p \<notin> set (take 4096 all)" and q: "q \<in> set (take 4096 all)" for p q
  proof -
    have "p \<in> set (drop 4096 all)" using p split by (metis Un_iff set_append)
    then have "q \<le> p" using all(1) q split by (metis sorted_append)
    then show ?thesis using p(2) q by (cases "q = p") auto
  qed
  then show ?thesis
    using all set_all len set_take_subset [of 4096 all] by (auto simp: res sorted_wrt_take min_def)
qed


theorem busyPorts_exact_witness:
  "BusyPorts 20000 20100 {20001} [[22, 20050, 20001], [20010, 20050]] = [20010, 20050]
   \<and> int (card (busy_candidates 20000 20100 {20001} [[22, 20050, 20001], [20010, 20050]])) = 2"
proof -
  have run: "BusyPorts 20000 20100 {20001} [[22, 20050, 20001], [20010, 20050]] = [20010, 20050]" by code_simp
  show ?thesis
    using busyPorts_exact [of 20000 20100 "{20001}" "[[22, 20050, 20001], [20010, 20050]]"] by (auto simp: run min_def split: if_splits)
qed

lemma official_part_range:
  assumes "1 \<le> a" and "a \<le> b" and "b \<le> 65535"
  shows "official_part (go_itoa a @ CHR ''-'' # go_itoa b) = Some [a..b]"
proof -
  have plain: "list_all (\<lambda>e. CHR ''-'' \<notin> set e) [go_itoa a, go_itoa b]"
    using assms dec_digits_digits [of a] dec_digits_digits [of b] not_digit_signs(1)
    by (auto simp: go_itoa_def list_all_iff)
  have "go_split (CHR ''-'') (go_itoa a @ CHR ''-'' # go_itoa b) = [go_itoa a, go_itoa b]"
    using go_split_join_plain [OF _ plain] by simp
  moreover have "is_int64 a" "is_int64 b"
    using assms by (simp_all add: is_int64_def min_int64_def max_int64_def)
  ultimately show ?thesis
    using assms by (simp add: official_part_def go_atoi_value_Some [OF go_atoi_itoa] go_atoi_itoa)
qed

lemma official_parts_ranges:
  assumes "list_all (\<lambda>(a, b). 1 \<le> a \<and> a \<le> b \<and> b \<le> 65535) rs"
  shows "official_parts (map (\<lambda>(a, b). go_itoa a @ CHR ''-'' # go_itoa b) rs) = Some (concat (map (\<lambda>(a, b). [a..b]) rs))"
  using assms by (induction rs) (auto simp: official_part_range)

definition port_char :: "char \<Rightarrow> bool" where
  "port_char c \<longleftrightarrow> is_digit c \<or> c = CHR ''-''"

lemma port_char_plain: "port_char c \<Longrightarrow> c \<noteq> CHR '','' \<and> byte c \<noteq> 34"
  by (auto simp: port_char_def is_digit_def byte_def)

lemma range_text_chars:
  "0 \<le> a \<Longrightarrow> 0 \<le> b \<Longrightarrow> list_all port_char (go_itoa a @ CHR ''-'' # go_itoa b)"
  using dec_digits_digits [of a] dec_digits_digits [of b]
  by (auto simp: go_itoa_def list_all_iff port_char_def)

lemma join_plain:
  assumes "list_all (list_all (\<lambda>c. byte c \<noteq> 34)) es"
  shows "list_all (\<lambda>c. byte c \<noteq> 34) (go_join '','' es)"
  using assms by (induction "'',''" es rule: go_join.induct) (auto simp: byte_def)

lemma trim_quotes_quoted:
  assumes "list_all (\<lambda>c. byte c \<noteq> 34) s" and "s \<noteq> []"
  shows "trim_quotes (CHR 0x22 # s @ [CHR 0x22]) = s"
proof -
  have q: "byte (CHR 0x22) = 34" by (simp add: byte_def)
  have keep: "dropWhile (\<lambda>c. byte c = 34) (t @ u) = t @ u" if "t \<noteq> []" "list_all (\<lambda>c. byte c \<noteq> 34) t" for t u
    using that by (cases t) auto
  have "list_all (\<lambda>c. byte c \<noteq> 34) (rev s)" using assms(1) by simp
  then show ?thesis
    using assms keep [of s "[CHR 0x22]"] keep [of "rev s" "[]"] by (simp add: trim_quotes_def q)
qed

definition port_ranges_text :: "(int \<times> int) list \<Rightarrow> string" where
  "port_ranges_text rs = CHR 0x22 # go_join '','' (map (\<lambda>(a, b). go_itoa a @ CHR ''-'' # go_itoa b) rs) @ [CHR 0x22]"

text \<open>
  The official ports read from an inbound's port list \<open>a-b,c-d,...\<close> are
  exactly the ports of its ranges, each once.
\<close>

theorem official_ports_ranges:
  assumes "rs \<noteq> []" and "list_all (\<lambda>(a, b). 1 \<le> a \<and> a \<le> b \<and> b \<le> 65535) rs"
  shows "\<exists>ps. OfficialPorts [port_ranges_text rs] = Some ps
    \<and> distinct ps \<and> set ps = (\<Union>(a, b) \<in> set rs. {a..b})"
proof -
  let ?parts = "map (\<lambda>(a, b). go_itoa a @ CHR ''-'' # go_itoa b) rs"
  have chars: "list_all port_char e" if e: "e \<in> set ?parts" for e
  proof -
    obtain a b where "(a, b) \<in> set rs" and eq: "e = go_itoa a @ CHR ''-'' # go_itoa b" using e by auto
    then have "0 \<le> a" "0 \<le> b" using assms(2) by (fastforce simp: list_all_iff)+
    then show ?thesis unfolding eq by (rule range_text_chars)
  qed
  have nocomma: "CHR '','' \<notin> set e \<and> list_all (\<lambda>c. byte c \<noteq> 34) e" if e: "e \<in> set ?parts" for e
    using chars [OF e] port_char_plain by (auto simp: list_all_iff)
  have "list_all (\<lambda>e. CHR '','' \<notin> set e) ?parts"
    unfolding list_all_iff using nocomma by blast
  then have split: "go_split (CHR '','') (go_join '','' ?parts) = ?parts"
    using assms(1) by (intro go_split_join_plain) simp_all
  have "list_all (\<lambda>c. byte c \<noteq> 34) (go_join '','' ?parts)"
    using nocomma by (intro join_plain) (simp only: list_all_iff [of _ ?parts], blast)
  moreover have "go_join '','' ?parts \<noteq> []"
    using assms(1) by (cases rs rule: remdups_adj.cases) (auto simp: go_itoa_def)
  ultimately have trim: "trim_quotes (port_ranges_text rs) = go_join '','' ?parts"
    unfolding port_ranges_text_def by (rule trim_quotes_quoted)
  have "go_join '','' ?parts \<noteq> ''null''"
  proof
    assume "go_join '','' ?parts = ''null''"
    then have "?parts = go_split (CHR '','') ''null''" using split by simp
    then have "list_all port_char ''null''" using chars by (cases rs) auto
    then show False by (simp add: port_char_def is_digit_def byte_def)
  qed
  then have "OfficialPorts [port_ranges_text rs] = map_option dedup (official_parts ?parts)"
    using \<open>go_join '','' ?parts \<noteq> []\<close> by (simp add: OfficialPorts_def trim split)
  then show ?thesis using official_parts_ranges [OF assms(2)] by auto
qed

theorem official_ports_ranges_witness:
  "\<exists>ps. OfficialPorts [port_ranges_text [(80, 82), (81, 90)]] = Some ps \<and> set ps = {80..90}"
proof -
  have "{80..82} \<union> {81..90} = {80..90::int}" by auto
  then show ?thesis using official_ports_ranges [of "[(80, 82), (81, 90)]"] by auto
qed

section \<open>Advertised protocols\<close>

lemma set_keep_known: "set (keep_known k xs) = set k \<inter> set xs"
  by (auto simp: keep_known_def)

lemma keep_known_idem [simp]: "keep_known k (keep_known k xs) = keep_known k xs"
proof -
  have "filter (\<lambda>x. x \<in> set k) (keep_known k xs) = keep_known k xs"
    by (rule filter_True) (simp add: set_keep_known)
  moreover have "distinct (keep_known k xs)" by (simp add: keep_known_def)
  ultimately show ?thesis unfolding keep_known_def [of k "keep_known k xs"] by simp
qed

lemma keep_known_Nil [simp]: "keep_known k [] = []"
  by (simp add: keep_known_def dedup_def)

lemma clean_cap_idem: "clean_cap p c = Some c' \<Longrightarrow> clean_cap p c' = Some c'"
  by (auto simp: clean_cap_def Let_def split: if_splits)

lemma clean_cap_snell_errors:
  assumes "clean_cap ProtocolSnell c = Some c'"
  shows "snell_errors s c' = snell_errors s c"
proof -
  have c': "pc_versions c' = keep_known [4, 5] (pc_versions c)"
      "pc_obfs c' = keep_known [''none'', ''http'', ''tls''] (pc_obfs c)"
    and v: "pc_versions c \<noteq> [] \<Longrightarrow> pc_versions c' \<noteq> []" and o: "pc_obfs c \<noteq> [] \<Longrightarrow> pc_obfs c' \<noteq> []"
    using assms by (auto simp: clean_cap_def Let_def split: if_splits)
  have "sn_version s \<noteq> 4 \<and> sn_version s \<noteq> 5
          \<or> sn_version s \<notin> set (if pc_versions c' = [] then [4, 5] else pc_versions c') \<longleftrightarrow>
        sn_version s \<noteq> 4 \<and> sn_version s \<noteq> 5
          \<or> sn_version s \<notin> set (if pc_versions c = [] then [4, 5] else pc_versions c)"
    using v c'(1) by (cases "pc_versions c = []") (auto simp: set_keep_known)
  moreover have "sn_obfs s \<notin> set [''none'', ''http'', ''tls'']
          \<or> sn_obfs s \<notin> set (if pc_obfs c' = [] then [''none'', ''http'', ''tls''] else pc_obfs c') \<longleftrightarrow>
        sn_obfs s \<notin> set [''none'', ''http'', ''tls'']
          \<or> sn_obfs s \<notin> set (if pc_obfs c = [] then [''none'', ''http'', ''tls''] else pc_obfs c)"
    using o c'(2) by (cases "pc_obfs c = []") (auto simp: set_keep_known)
  ultimately show ?thesis unfolding snell_errors_def Let_def by (simp only:)
qed

lemma SanitizeProtocols_Some:
  "SanitizeProtocols inp = Some out \<Longrightarrow>
     out = (\<lambda>p. if p \<in> set ExtraProtocols then Option.bind (inp p) (clean_cap p) else None)"
  by (auto simp: SanitizeProtocols_def Let_def split: if_splits)

text \<open>
  \<open>SanitizeProtocols\<close> only keeps known protocols that were advertised, never
  widens one (a Snell node passes under the sanitized capability exactly when
  it passes under the advertised one, although an empty list means ``all''), and
  sanitizing again changes nothing.
\<close>

theorem sanitize_protocols:
  assumes "SanitizeProtocols inp = Some out"
  shows "(\<forall>p c'. out p = Some c' \<longrightarrow> p \<in> set ExtraProtocols \<and>
            (\<exists>c. inp p = Some c \<and> pc_udp c' = pc_udp c
               \<and> (p = ProtocolSnell \<longrightarrow> (\<forall>s. snell_errors s c' = snell_errors s c))))
    \<and> SanitizeProtocols out = Some out"
proof -
  note out = SanitizeProtocols_Some [OF assms]
  have one: "out p = Some c' \<longleftrightarrow> p \<in> set ExtraProtocols \<and> (\<exists>c. inp p = Some c \<and> clean_cap p c = Some c')" for p c'
    by (auto simp: out bind_eq_Some_conv)
  have udp: "clean_cap p c = Some c' \<Longrightarrow> pc_udp c' = pc_udp c" for p c c'
    by (auto simp: clean_cap_def Let_def split: if_splits)
  have "(if p \<in> set ExtraProtocols then Option.bind (out p) (clean_cap p) else None) = out p" for p
    using one [of p] clean_cap_idem by (cases "out p") auto
  then have same: "(\<lambda>p. if p \<in> set ExtraProtocols then Option.bind (out p) (clean_cap p) else None) = out"
    by (rule ext)
  have "\<not> list_all (\<lambda>p. out p = None) ExtraProtocols"
    using assms by (auto simp: SanitizeProtocols_def Let_def split: if_splits)
  then have "SanitizeProtocols out = Some out" by (simp add: SanitizeProtocols_def same)
  then show ?thesis using one udp clean_cap_snell_errors by blast
qed

theorem sanitize_protocols_witness:
  "SanitizeProtocols (\<lambda>p. if p = ProtocolSnell
      then Some \<lparr> pc_udp = True, pc_versions = [3, 5, 5], pc_obfs = [], pc_transports = [] \<rparr> else None)
   = SanitizeProtocols (the (SanitizeProtocols (\<lambda>p. if p = ProtocolSnell
      then Some \<lparr> pc_udp = True, pc_versions = [3, 5, 5], pc_obfs = [], pc_transports = [] \<rparr> else None)))"
proof -
  let ?inp = "\<lambda>p. if p = ProtocolSnell
      then Some \<lparr> pc_udp = True, pc_versions = [3, 5, 5], pc_obfs = [], pc_transports = [] \<rparr> else None"
  have "SanitizeProtocols ?inp \<noteq> None"
    by (simp add: SanitizeProtocols_def ExtraProtocols_def clean_cap_def keep_known_def dedup_def)
  then obtain out where "SanitizeProtocols ?inp = Some out" by auto
  then show ?thesis using sanitize_protocols [of ?inp out] by simp
qed

section \<open>A concrete desired state\<close>

definition ex_share :: Config where
  "ex_share = \<lparr> cf_port_min = 20000, cf_port_max = 20100, cf_traffic_limit_bytes = 0, cf_reset_day = 1,
     cf_max_connections = 0, cf_share_until = None, cf_memory_mb = 0, cf_cpu_percent = 0 \<rparr>"

definition ex_node_base :: Node where
  "ex_node_base = \<lparr> nd_id = ''n1'', nd_owner = \<lparr> ow_id = ''u1'', ow_name = ''alice'' \<rparr>, nd_name = ''node'',
     nd_protocol = ''mieru'', nd_port = 20001, nd_enabled = Some True, nd_max_connections = 0, nd_max_online_ips = 0,
     nd_expires_at = None, nd_conn_mode = [], nd_max_total_connections = 0, nd_ss2022 = None, nd_vless = None,
     nd_anytls = None, nd_snell = None,
     nd_mieru = Some \<lparr> mi_username = ''alice'', mi_password = ''0123456789abcdef'' \<rparr> \<rparr>"

definition ex_node_vless :: Node where
  "ex_node_vless = ex_node_base\<lparr> nd_id := ''n2'', nd_port := 20002, nd_protocol := ''vless_reality_vision'', nd_mieru := None,
     nd_vless := Some \<lparr> vl_uuid = ''01234567-89ab-cdef-0123-456789abcdef'', vl_flow = ''xtls-rprx-vision'',
       vl_reality = \<lparr> rl_dest = ''1.1.1.1:443'', rl_server_names = [''example.com''],
         rl_private_key = ''AAAAAAAAAAAAAAAAAAAAAAAAAAAAAAAAAAAAAAAAAAA'', rl_short_ids = [''ab''] \<rparr> \<rparr> \<rparr>"

definition ex_desired :: Desired where
  "ex_desired = \<lparr> ds_revision = 1, ds_nodes = Some [ex_node_base, ex_node_vless], ds_egress = None,
     ds_reality_guard = None, ds_scan_guard = None, ds_reality_pin_margin_ms = None \<rparr>"

definition ex_options :: DesiredOptions where
  "ex_options = \<lparr> do_protocols = AllProtocols, do_busy = Some \<lparr> lp_tcp = [22, 20003], lp_udp = [53] \<rparr>, do_now = 0 \<rparr>"

definition ex_lib :: cert_lib where
  "ex_lib = \<lparr> lib_pem = \<lambda>_. None, lib_cert = \<lambda>_. None, lib_pair = \<lambda>_ _. False \<rparr>"

lemma ex_desired_accepted: "ValidateDesiredWith ex_lib ex_desired ex_share [443] ex_options = []"
  by code_simp

theorem accepted_desired_witness:
  "distinct (map nd_port (ds_node_list ex_desired)) \<and> Node_objects ex_node_vless = 1"
  using accepted_desired [OF ex_desired_accepted] by (simp add: ex_desired_def ds_node_list_def)


end
