(* ===== verification/Go_Json.thy ===== *)
theory Go_Json
  imports Go_Text
begin

text \<open>
  The JSON values that the source builds as \<open>map[string]any\<close>: an object is its
  list of key/value pairs, written in the order the source writes them; the
  order has no meaning (encoding/json sorts the keys).
\<close>

datatype json = JBool bool | JNum int | JStr string | JArr "json list" | JObj "(string \<times> json) list"

definition jget :: "string \<Rightarrow> json \<Rightarrow> json option" where
  "jget k j = (case j of JObj kvs \<Rightarrow> map_of kvs k | _ \<Rightarrow> None)"

definition jput :: "string \<Rightarrow> json \<Rightarrow> json \<Rightarrow> json" where
  "jput k v j = (case j of JObj kvs \<Rightarrow> JObj ((k, v) # filter (\<lambda>p. fst p \<noteq> k) kvs) | _ \<Rightarrow> j)"

definition jstrs :: "string list \<Rightarrow> json" where
  "jstrs xs = JArr (map JStr xs)"

definition jopt :: "bool \<Rightarrow> string \<Rightarrow> json \<Rightarrow> (string \<times> json) list" where
  "jopt c k v = (if c then [(k, v)] else [])"

lemma jget_obj [simp]: "jget k (JObj kvs) = map_of kvs k"
  by (simp add: jget_def)

lemma map_of_filter_key: "k' \<noteq> k \<Longrightarrow> map_of (filter (\<lambda>p. fst p \<noteq> k) kvs) k' = map_of kvs k'"
  by (induction kvs) auto

lemma jget_jput [simp]: "jget k' (jput k v (JObj kvs)) = (if k' = k then Some v else map_of kvs k')"
  by (simp add: jput_def map_of_filter_key)

lemma map_of_jopt [simp]: "map_of (jopt c k v @ kvs) k' = (if c \<and> k = k' then Some v else map_of kvs k')"
  by (simp add: jopt_def)

lemma map_of_jopt1 [simp]: "map_of (jopt c k v) k' = (if c \<and> k = k' then Some v else None)"
  by (simp add: jopt_def)

end
