(* ===== verification/Scan_Guard.thy ===== *)
theory Scan_Guard
  imports Flvx_Types Hosts Go_Json "HOL-Library.AList"
begin

text \<open>
  The ban on port scanning: \<open>internal/flvx/scan_guard.go\<close> (validation of the
  setting, the Core's object, bounds of the reported hits) and the Helper's part
  \<open>cmd/mmwxc-helper/flvx_scan_guard.go\<close> as a state machine: one pass reads the
  Core's hits, keeps those FLVX has not recorded, and the next configuration
  lifts the blocks that are settled. The Core is a parameter: the report of a
  read is an argument of the pass, the answer to a configuration an argument of
  \<open>applyFLVXConfig\<close>. \<open>UTC()\<close> does not change a moment. A Go map that is listed
  in sorted order is an association list.
\<close>

section \<open>Validation\<close>

definition MaxScanHits :: int where "MaxScanHits = 256"
definition MaxScanSeq :: int where "MaxScanSeq = 9007199254740991"
definition maxScanThreshold :: int where "maxScanThreshold = 100000"
definition maxScanWebPorts :: int where "maxScanWebPorts = 16"

definition ScanDefaultHorizontal :: int where "ScanDefaultHorizontal = 100"
definition ScanDefaultHorizontalWeb :: int where "ScanDefaultHorizontalWeb = 500"
definition ScanDefaultWindowS :: int where "ScanDefaultWindowS = 60"
definition ScanDefaultVertical :: int where "ScanDefaultVertical = 30"
definition ScanDefaultTotal :: int where "ScanDefaultTotal = 1000"
definition ScanDefaultTotalWindowS :: int where "ScanDefaultTotalWindowS = 300"
definition ScanDefaultWebPorts :: "int list" where "ScanDefaultWebPorts = [80, 443]"

definition ScanGuardOn :: "Desired \<Rightarrow> bool" where
  "ScanGuardOn d = (case ds_scan_guard d of None \<Rightarrow> False | Some g \<Rightarrow> sg_enabled g)"

definition scan_error :: "string \<Rightarrow> string \<Rightarrow> ValidationError list" where
  "scan_error f m = [\<lparr> ve_node_id = [], ve_field = ''scan_guard.'' @ f, ve_message = m \<rparr>]"

definition ValidateScanGuard :: "Desired \<Rightarrow> ValidationError list" where
  "ValidateScanGuard d =
     (case ds_scan_guard d of
        None \<Rightarrow> []
      | Some g \<Rightarrow>
          let tags = set (map Node_Tag (ds_node_list d));
              ids = sg_identities g;
              ports = (case sg_web_ports g of None \<Rightarrow> [] | Some ps \<Rightarrow> ps)
          in (if sg_seen g < 0 \<or> sg_seen g > MaxScanSeq then scan_error ''seen'' ''range'' else [])
             @ (if length ids > length (ds_node_list d) then scan_error ''identities'' ''more than nodes''
                else if list_all (\<lambda>i. i \<in> tags) ids \<and> distinct ids then []
                else scan_error ''identities'' ''unique tags'')
             @ (if \<not> sg_enabled g then []
                else (if list_ex (\<lambda>v. v < 0 \<or> v > maxScanThreshold)
                           [sg_horizontal g, sg_horizontal_web g, sg_vertical g, sg_total g]
                      then scan_error ''threshold'' ''range'' else [])
                     @ (if list_ex (\<lambda>v. v \<noteq> 0 \<and> (v < 10 \<or> v > 3600)) [sg_window_s g, sg_total_window_s g]
                        then scan_error ''window'' ''range'' else [])
                     @ (if int (length ports) > maxScanWebPorts then scan_error ''web_ports'' ''at most 16''
                        else if list_all (\<lambda>p. \<not> (p < 1 \<or> p > 65535)) ports \<and> distinct ports then []
                        else scan_error ''web_ports'' ''unique'')))"

definition or_default :: "int \<Rightarrow> int \<Rightarrow> int" where
  "or_default v d = (if v > 0 then v else d)"

definition CoreConfig :: "ScanGuard \<Rightarrow> string list \<Rightarrow> json" where
  "CoreConfig g identities =
     JObj [(''enabled'', JBool True), (''identities'', jstrs identities),
       (''horizontal'', JNum (or_default (sg_horizontal g) ScanDefaultHorizontal)),
       (''horizontal_web'', JNum (or_default (sg_horizontal_web g) ScanDefaultHorizontalWeb)),
       (''web_ports'', JArr (map JNum (case sg_web_ports g of None \<Rightarrow> ScanDefaultWebPorts | Some ps \<Rightarrow> ps))),
       (''window_s'', JNum (or_default (sg_window_s g) ScanDefaultWindowS)),
       (''vertical'', JNum (or_default (sg_vertical g) ScanDefaultVertical)),
       (''total'', JNum (or_default (sg_total g) ScanDefaultTotal)),
       (''total_window_s'', JNum (or_default (sg_total_window_s g) ScanDefaultTotalWindowS))]"

definition scan_host_ok :: "string \<Rightarrow> bool" where
  "scan_host_ok h \<longleftrightarrow>
     h = [] \<or> length h \<le> 255
       \<and> (net_parse_ip h \<noteq> None \<or> ValidText h 255 \<and> \<not> list_ex (\<lambda>c. byte c \<in> {32, 47, 92, 34, 39}) h)"

definition ValidScanHit :: "ScanHit \<Rightarrow> bool" where
  "ValidScanHit h \<longleftrightarrow>
     sh_type h \<in> set [''horizontal'', ''vertical'', ''total'']
     \<and> identifierRe (sh_id h) \<and> sh_inbound_tag h = ''flvxl-'' @ sh_id h
     \<and> 0 \<le> sh_count h \<and> sh_count h \<le> maxScanThreshold \<and> 0 \<le> sh_port h \<and> sh_port h \<le> 65535
     \<and> scan_host_ok (sh_host h) \<and> 0 \<le> sh_window_s h \<and> sh_window_s h \<le> 3600
     \<and> 0 < sh_seq h \<and> sh_seq h \<le> MaxScanSeq"

text \<open>The loop that keeps the first valid hit of every seq.\<close>

fun first_hits :: "int list \<Rightarrow> ScanHit list \<Rightarrow> ScanHit list" where
  "first_hits seen [] = []"
| "first_hits seen (h # hs) =
     (if ValidScanHit h \<and> sh_seq h \<notin> set seen then h # first_hits (sh_seq h # seen) hs
      else first_hits seen hs)"

text \<open>Sorted by seq, the newest \<open>MaxScanHits\<close> of them.\<close>

definition newest_hits :: "ScanHit list \<Rightarrow> ScanHit list" where
  "newest_hits hs = keep_last (nat MaxScanHits) (sort_key sh_seq hs)"

text \<open>The set of blocked tags: at most \<open>MaxNodes\<close>, the first ones reported.\<close>

fun bounded_tags :: "string list \<Rightarrow> string list \<Rightarrow> string list" where
  "bounded_tags acc [] = acc"
| "bounded_tags acc (t # ts) =
     (if int (length acc) < MaxNodes \<and> has_prefix t ''flvxl-'' \<and> identifierRe (trim_prefix t ''flvxl-'')
      then bounded_tags (if t \<in> set acc then acc else t # acc) ts
      else bounded_tags acc ts)"

definition SanitizeScanGuardStatus :: "ScanGuardStatus option \<Rightarrow> ScanGuardStatus option" where
  "SanitizeScanGuardStatus os =
     (case os of
        None \<Rightarrow> None
      | Some s \<Rightarrow>
          if ss_state s \<notin> set [''off'', ''on'', ''core_update'', ''error''] then None
          else Some \<lparr> ss_state = ss_state s,
                      ss_error = take_runes 200 (to_valid_utf8 (ss_error s)),
                      ss_hits = newest_hits (first_hits [] (ss_hits s)),
                      ss_blocked = sort (bounded_tags [] (ss_blocked s)),
                      ss_core_ready = ss_core_ready s \<rparr>)"

section \<open>The Helper's state\<close>

record coreScanHit =
  ch_identity :: string
  ch_type :: string
  ch_count :: int
  ch_port :: int
  ch_host :: string
  ch_window_s :: int
  ch_at :: time
  ch_seq :: int

record coreScanReport =
  cs_version :: int
  cs_hits :: "coreScanHit list"
  cs_blocked :: "coreScanHit list"

record flvxScanPass =
  sp_epoch :: string
  sp_after :: int
  sp_blocked :: "(string \<times> int) list"
  sp_synced :: bool
  sp_err :: string
  sp_rejected :: string

text \<open>
  The part of \<open>flvxManager\<close> that the guard reads or writes: the desired state
  and status of the stored payload, the features of the installed Core build
  (\<open>coreFeatures()\<close>), \<open>state.ScanPending\<close> and \<open>m.scan\<close>.
\<close>

record scan_manager =
  sm_desired :: Desired
  sm_status :: string
  sm_features :: "string set"
  sm_pending :: "ScanHit list"
  sm_scan :: flvxScanPass

definition CoreScanGuardFeature :: string where "CoreScanGuardFeature = ''scan_guard.v1''"

text \<open>A decoded \<open>/v1/scan\<close> response is only used within these bounds.\<close>

definition scanReport :: "coreScanReport option \<Rightarrow> coreScanReport option" where
  "scanReport response =
     (case response of
        None \<Rightarrow> None
      | Some r \<Rightarrow> if cs_version r \<noteq> 1 \<or> int (length (cs_hits r)) > MaxScanHits
                     \<or> int (length (cs_blocked r)) > MaxNodes * 4
                  then None else Some r)"

definition scanCapable :: "scan_manager \<Rightarrow> bool" where
  "scanCapable m \<longleftrightarrow> CoreScanGuardFeature \<in> sm_features m
     \<and> (sp_rejected (sm_scan m) = [] \<or> sp_rejected (sm_scan m) \<noteq> sp_epoch (sm_scan m))"

definition scanGuard :: "scan_manager \<Rightarrow> ScanGuard option \<times> bool" where
  "scanGuard m =
     (case ds_scan_guard (sm_desired m) of
        None \<Rightarrow> (None, True)
      | Some g \<Rightarrow> if ValidateScanGuard (sm_desired m) \<noteq> [] then (None, False) else (Some g, True))"

definition scan_hit_of :: "coreScanHit \<Rightarrow> ScanHit" where
  "scan_hit_of h = \<lparr> sh_id = trim_prefix (ch_identity h) ''flvxl-'', sh_inbound_tag = ch_identity h,
     sh_type = ch_type h, sh_count = ch_count h, sh_port = ch_port h, sh_host = ch_host h,
     sh_window_s = ch_window_s h, sh_at = ch_at h, sh_seq = ch_seq h \<rparr>"

definition addScanHit :: "ScanGuard option \<Rightarrow> ScanHit list \<Rightarrow> coreScanHit \<Rightarrow> ScanHit list" where
  "addScanHit og pending h =
     (case og of
        None \<Rightarrow> pending
      | Some g \<Rightarrow>
          if ch_seq h \<le> sg_seen g \<or> \<not> has_prefix (ch_identity h) ''flvxl-'' then pending
          else if list_ex (\<lambda>p. sh_seq p = ch_seq h) pending then pending
          else let hit = scan_hit_of h;
                   hit = (if ValidScanHit hit then hit else hit\<lparr>sh_host := []\<rparr>)
               in if ValidScanHit hit then pending @ [hit] else pending)"

definition pruneScanHits :: "Desired \<Rightarrow> ScanGuard option \<Rightarrow> ScanHit list \<Rightarrow> ScanHit list" where
  "pruneScanHits d og pending =
     newest_hits (filter (\<lambda>p. (case og of None \<Rightarrow> False | Some g \<Rightarrow> sh_seq p > sg_seen g)
                              \<and> sh_inbound_tag p \<in> set (map Node_Tag (ds_node_list d))) pending)"

text \<open>The blocked map and the highest seq read from one report.\<close>

fun report_blocked :: "(string \<times> int) list \<Rightarrow> coreScanHit list \<Rightarrow> (string \<times> int) list" where
  "report_blocked acc [] = acc"
| "report_blocked acc (b # bs) =
     report_blocked
       (if has_prefix (ch_identity b) ''flvxl-'' \<and> ch_seq b > 0 \<and> ch_seq b \<le> MaxScanSeq
        then AList.update (ch_identity b) (ch_seq b) acc else acc) bs"

fun report_after :: "int \<Rightarrow> coreScanHit list \<Rightarrow> int" where
  "report_after after [] = after"
| "report_after after (h # hs) =
     report_after (if ch_seq h > after \<and> ch_seq h \<le> MaxScanSeq then ch_seq h else after) hs"

definition guard_enabled :: "ScanGuard option \<Rightarrow> bool" where
  "guard_enabled og = (case og of None \<Rightarrow> False | Some g \<Rightarrow> sg_enabled g)"

text \<open>A new Core epoch starts with an empty ring; only the refusal is kept.\<close>

definition enter_epoch :: "string \<Rightarrow> scan_manager \<Rightarrow> scan_manager" where
  "enter_epoch epoch m =
     (if sp_epoch (sm_scan m) \<noteq> epoch
      then m\<lparr>sm_scan := \<lparr> sp_epoch = epoch, sp_after = 0, sp_blocked = [], sp_synced = False,
                          sp_err = [], sp_rejected = sp_rejected (sm_scan m) \<rparr>\<rparr>
      else m)"

definition scan_reads :: "scan_manager \<Rightarrow> bool" where
  "scan_reads m \<longleftrightarrow> guard_enabled (fst (scanGuard m)) \<or> sp_blocked (sm_scan m) \<noteq> [] \<or> \<not> sp_synced (sm_scan m)"

definition absorb_report :: "coreScanReport \<Rightarrow> scan_manager \<Rightarrow> scan_manager" where
  "absorb_report r m =
     m\<lparr>sm_scan := (sm_scan m)\<lparr>sp_synced := True, sp_blocked := report_blocked [] (cs_blocked r),
         sp_after := report_after (sp_after (sm_scan m)) (cs_hits r @ cs_blocked r)\<rparr>,
       sm_pending := foldl (addScanHit (fst (scanGuard m))) (sm_pending m) (cs_hits r @ cs_blocked r)\<rparr>"

text \<open>
  \<open>scanPass\<close>: the new state, whether the Core was read, and whether the pending
  hits were persisted. \<open>report after\<close> is what \<open>readScan\<close> returns.
\<close>

definition scan_read :: "(int \<Rightarrow> coreScanReport option) \<Rightarrow> scan_manager \<Rightarrow> scan_manager" where
  "scan_read report m =
     (if \<not> scanCapable m then m\<lparr>sm_scan := (sm_scan m)\<lparr>sp_blocked := []\<rparr>\<rparr>
      else if \<not> scan_reads m then m
      else case report (sp_after (sm_scan m)) of
        None \<Rightarrow> m\<lparr>sm_scan := (sm_scan m)\<lparr>sp_err := ''scan report unavailable''\<rparr>\<rparr>
      | Some r \<Rightarrow> absorb_report r m)"

definition scanPass ::
  "(int \<Rightarrow> coreScanReport option) \<Rightarrow> string \<Rightarrow> scan_manager \<Rightarrow> scan_manager \<times> bool \<times> bool" where
  "scanPass report epoch m0 =
     (let m1 = enter_epoch epoch m0;
          m = m1\<lparr>sm_scan := (sm_scan m1)\<lparr>sp_err := []\<rparr>\<rparr>;
          m2 = scan_read report m;
          kept = pruneScanHits (sm_desired m) (fst (scanGuard m)) (sm_pending m2)
      in (m2\<lparr>sm_pending := kept\<rparr>, scanCapable m \<and> scan_reads m, kept \<noteq> sm_pending m0))"

definition scanHeld :: "scan_manager \<Rightarrow> string list" where
  "scanHeld m = sorted_unique (map sh_inbound_tag (sm_pending m))"

text \<open>The map from a tag to the enabled flag: the last node with the tag counts.\<close>

definition enabled_map :: "Desired \<Rightarrow> string \<rightharpoonup> bool" where
  "enabled_map d = map_of (rev (map (\<lambda>n. (Node_Tag n, nd_enabled n = Some True)) (ds_node_list d)))"

definition scan_unblock :: "scan_manager \<Rightarrow> (string \<times> int) list" where
  "scan_unblock m =
     (let g = fst (scanGuard m); enabled = enabled_map (sm_desired m); blocked = sp_blocked (sm_scan m)
      in filter (\<lambda>(tag, sq). case g of
             None \<Rightarrow> True
           | Some g' \<Rightarrow> enabled tag = None \<or> sq \<le> sg_seen g' \<and> enabled tag = Some True)
           (map (\<lambda>tag. (tag, the (map_of blocked tag))) (sorted_unique (map fst blocked))))"

definition scanControl :: "(string \<rightharpoonup> string) \<Rightarrow> scan_manager \<Rightarrow> json option \<times> (string \<times> int) list" where
  "scanControl wanted m =
     (if \<not> scanCapable m then (None, [])
      else case fst (scanGuard m) of
        None \<Rightarrow> (None, scan_unblock m)
      | Some g \<Rightarrow>
          if \<not> sg_enabled g then (None, scan_unblock m)
          else let ids = filter (\<lambda>i. wanted i \<noteq> None \<and> wanted i \<noteq> Some []) (sg_identities g)
               in if ids = [] then (None, scan_unblock m) else (Some (CoreConfig g ids), scan_unblock m))"

text \<open>
  \<open>applyFLVXConfig\<close>: a configuration is its scan fields. \<open>core c\<close> is the Core's
  answer: unknown field, and whether it failed. The result is the state, the
  configurations sent and the final failure.
\<close>

type_synonym scan_fields = "json option \<times> (string \<times> int) list"

definition applyFLVXConfig ::
  "(scan_fields \<Rightarrow> bool \<times> bool) \<Rightarrow> (string \<rightharpoonup> string) \<Rightarrow> scan_manager \<Rightarrow> scan_manager \<times> scan_fields list \<times> bool" where
  "applyFLVXConfig core wanted m =
     (let c = scanControl wanted m; (unknown, failed) = core c
      in if \<not> failed \<or> \<not> unknown \<or> fst c = None \<and> snd c = [] then (m, [c], failed)
         else (m\<lparr>sm_scan := (sm_scan m)\<lparr>sp_rejected := sp_epoch (sm_scan m), sp_err := ''refused scan_guard''\<rparr>\<rparr>,
               [c, (None, [])], snd (core (None, []))))"

definition scanStatus :: "scan_manager \<Rightarrow> ScanGuardStatus" where
  "scanStatus m =
     (let capable = scanCapable m; (g, valid) = scanGuard m; err = sp_err (sm_scan m);
          (st, e) = (if \<not> valid then (''error'', ''invalid scan_guard'')
                     else if \<not> guard_enabled g \<or> sm_status m \<noteq> ''active'' then (''off'', [])
                     else if \<not> capable then (''core_update'', err)
                     else if err \<noteq> [] then (''error'', err)
                     else (''on'', []))
      in \<lparr> ss_state = st, ss_error = e, ss_hits = sm_pending m,
           ss_blocked = sorted_unique (map fst (sp_blocked (sm_scan m))), ss_core_ready = capable \<rparr>)"

section \<open>The invariant of the Helper's scan state\<close>

lemma keep_last_or_newer:
  assumes "sorted (map f xs)" and "x \<in> set xs"
  shows "x \<in> set (keep_last n xs) \<or> length (keep_last n xs) = n \<and> (\<forall>y \<in> set (keep_last n xs). f x \<le> (f y :: 'b :: linorder))"
proof (cases "n < length xs")
  case True
  define k where "k = length xs - n"
  have split: "xs = take k xs @ drop k xs" by simp
  have "sorted (map f (take k xs) @ map f (drop k xs))" using assms(1) split by (metis map_append)
  then have "f a \<le> f b" if "a \<in> set (take k xs)" "b \<in> set (drop k xs)" for a b
    using that by (auto simp: sorted_append)
  moreover have "x \<in> set (take k xs) \<or> x \<in> set (drop k xs)" using assms(2) split by (metis Un_iff set_append)
  ultimately show ?thesis using True by (auto simp: keep_last_def k_def)
next
  case False
  then show ?thesis using assms(2) by simp
qed

lemma set_newest_hits: "set (newest_hits hs) \<subseteq> set hs"
  unfolding newest_hits_def using set_keep_last by fastforce

lemma length_newest_hits: "int (length (newest_hits hs)) \<le> MaxScanHits"
proof -
  have "length (newest_hits hs) \<le> nat MaxScanHits" unfolding newest_hits_def by (rule length_keep_last)
  then show ?thesis by (simp add: MaxScanHits_def)
qed

lemma sorted_newest_hits:
  assumes "distinct (map sh_seq hs)"
  shows "sorted_wrt (<) (map sh_seq (newest_hits hs))"
proof -
  have "sorted (map sh_seq (sort_key sh_seq hs))" by simp
  moreover have "distinct (map sh_seq (sort_key sh_seq hs))" using assms by (simp add: distinct_map)
  ultimately have "sorted_wrt (<) (map sh_seq (sort_key sh_seq hs))"
    by (simp add: strict_sorted_iff del: sorted_sort_key)
  then show ?thesis
    unfolding newest_hits_def sorted_wrt_map by (rule sorted_keep_last)
qed

lemma newest_hits_id:
  assumes "sorted_wrt (<) (map sh_seq hs)" and "int (length hs) \<le> MaxScanHits"
  shows "newest_hits hs = hs"
proof -
  have "sort_key sh_seq hs = hs" using assms(1) by (intro sort_key_id_if_sorted) (simp add: strict_sorted_imp_sorted)
  moreover have "length hs \<le> nat MaxScanHits" using assms(2) by simp
  ultimately show ?thesis by (simp add: newest_hits_def)
qed

definition pending_ok :: "ScanHit list \<Rightarrow> bool" where
  "pending_ok ps \<longleftrightarrow> list_all ValidScanHit ps \<and> distinct (map sh_seq ps)"

lemma addScanHit_ok: "pending_ok ps \<Longrightarrow> pending_ok (addScanHit og ps h)"
  by (auto simp: pending_ok_def addScanHit_def scan_hit_of_def Let_def list_ex_iff split: option.split)

lemma addScanHits_ok: "pending_ok ps \<Longrightarrow> pending_ok (foldl (addScanHit og) ps hs)"
  by (induction hs arbitrary: ps) (simp_all add: addScanHit_ok)

lemma pruneScanHits_ok:
  assumes "pending_ok ps"
  shows "pending_ok (pruneScanHits d og ps) \<and> sorted_wrt (<) (map sh_seq (pruneScanHits d og ps))
    \<and> int (length (pruneScanHits d og ps)) \<le> MaxScanHits"
proof -
  let ?kept = "filter (\<lambda>p. (case og of None \<Rightarrow> False | Some g \<Rightarrow> sh_seq p > sg_seen g)
                              \<and> sh_inbound_tag p \<in> set (map Node_Tag (ds_node_list d))) ps"
  have d: "distinct (map sh_seq ?kept)" using assms by (auto simp: pending_ok_def distinct_map_filter)
  have "list_all ValidScanHit (newest_hits ?kept)"
    using assms set_newest_hits [of ?kept] by (auto simp: pending_ok_def list_all_iff)
  then show ?thesis
    using sorted_newest_hits [OF d] length_newest_hits [of ?kept]
    by (simp add: pruneScanHits_def pending_ok_def strict_sorted_iff)
qed

definition blocked_ok :: "(string \<times> int) list \<Rightarrow> bool" where
  "blocked_ok bs \<longleftrightarrow> distinct (map fst bs) \<and> (\<forall>(t, s) \<in> set bs. has_prefix t ''flvxl-'' \<and> 0 < s \<and> s \<le> MaxScanSeq)"

lemma set_update_subset: "set (AList.update k v xs) \<subseteq> insert (k, v) (set xs)"
  by (induction xs) auto

lemma report_blocked_ok: "blocked_ok acc \<Longrightarrow> blocked_ok (report_blocked acc bs)"
proof (induction bs arbitrary: acc)
  case (Cons b bs)
  have "blocked_ok (AList.update (ch_identity b) (ch_seq b) acc)"
    if "has_prefix (ch_identity b) ''flvxl-''" "0 < ch_seq b" "ch_seq b \<le> MaxScanSeq"
    using Cons.prems that set_update_subset [of "ch_identity b" "ch_seq b" acc] distinct_update [of acc]
    by (auto simp: blocked_ok_def)
  then show ?case using Cons by simp
qed simp

lemma report_after_range: "0 \<le> a \<Longrightarrow> a \<le> MaxScanSeq \<Longrightarrow> 0 \<le> report_after a hs \<and> report_after a hs \<le> MaxScanSeq"
  by (induction hs arbitrary: a) auto

definition scan_inv :: "scan_manager \<Rightarrow> bool" where
  "scan_inv m \<longleftrightarrow> pending_ok (sm_pending m) \<and> sorted_wrt (<) (map sh_seq (sm_pending m))
     \<and> int (length (sm_pending m)) \<le> MaxScanHits
     \<and> 0 \<le> sp_after (sm_scan m) \<and> sp_after (sm_scan m) \<le> MaxScanSeq \<and> blocked_ok (sp_blocked (sm_scan m))"

definition scan_init :: "scan_manager \<Rightarrow> bool" where
  "scan_init m \<longleftrightarrow> sm_pending m = [] \<and> sp_after (sm_scan m) = 0 \<and> sp_blocked (sm_scan m) = []"

text \<open>
  One step of the Helper: a new payload or Core build arrives, a pass runs with
  any report, a configuration is pushed and answered in any way, or the Helper
  restarts (only the pending hits survive).
\<close>

inductive scan_step :: "scan_manager \<Rightarrow> scan_manager \<Rightarrow> bool" where
  scan_payload: "scan_step m (m\<lparr>sm_desired := d, sm_status := st, sm_features := f\<rparr>)"
| scan_pass: "scan_step m (fst (scanPass report epoch m))"
| scan_config: "scan_step m (fst (applyFLVXConfig core wanted m))"
| scan_restart: "scan_step m (m\<lparr>sm_scan := \<lparr> sp_epoch = [], sp_after = 0, sp_blocked = [], sp_synced = False,
                                   sp_err = [], sp_rejected = [] \<rparr>\<rparr>)"

inductive_cases scan_stepE: "scan_step m m'"

lemma enter_epoch_inv: "scan_inv m \<Longrightarrow> scan_inv ((enter_epoch epoch m)\<lparr>sm_scan := (sm_scan (enter_epoch epoch m))\<lparr>sp_err := []\<rparr>\<rparr>)"
  by (simp add: scan_inv_def enter_epoch_def blocked_ok_def MaxScanSeq_def)

text \<open>What the read keeps of the invariant: the pending hits are not yet in order.\<close>

lemma scan_read_inv:
  assumes "scan_inv m"
  shows "pending_ok (sm_pending (scan_read report m))
    \<and> 0 \<le> sp_after (sm_scan (scan_read report m)) \<and> sp_after (sm_scan (scan_read report m)) \<le> MaxScanSeq
    \<and> blocked_ok (sp_blocked (sm_scan (scan_read report m)))"
proof -
  have "blocked_ok []" by (simp add: blocked_ok_def)
  then show ?thesis
    using assms addScanHits_ok report_after_range report_blocked_ok
    by (simp add: scan_inv_def scan_read_def absorb_report_def split: option.split del: foldl_append)
qed

lemma pruned_inv:
  assumes "pending_ok (sm_pending m) \<and> 0 \<le> sp_after (sm_scan m) \<and> sp_after (sm_scan m) \<le> MaxScanSeq
    \<and> blocked_ok (sp_blocked (sm_scan m))"
  shows "scan_inv (m\<lparr>sm_pending := pruneScanHits d og (sm_pending m)\<rparr>)"
  using assms pruneScanHits_ok [of "sm_pending m" d og] by (simp add: scan_inv_def)

lemma scanPass_inv: "scan_inv m \<Longrightarrow> scan_inv (fst (scanPass report epoch m))"
  unfolding scanPass_def Let_def fst_conv by (rule pruned_inv [OF scan_read_inv [OF enter_epoch_inv]])

lemma scan_step_inv: "scan_inv m \<Longrightarrow> scan_step m m' \<Longrightarrow> scan_inv m'"
  by (erule scan_stepE)
    (auto simp: scanPass_inv, auto simp: scan_inv_def applyFLVXConfig_def blocked_ok_def Let_def MaxScanSeq_def
      split: prod.splits)

lemma scan_init_inv: "scan_init m \<Longrightarrow> scan_inv m"
  by (simp add: scan_init_def scan_inv_def pending_ok_def blocked_ok_def MaxScanHits_def MaxScanSeq_def)

interpretation scan: invariant_system scan_init scan_step scan_inv
  by unfold_locales (rule scan_init_inv scan_step_inv; assumption)+

text \<open>
  In every state the Helper reaches, whatever the Core reports or answers and
  however payloads, passes, configurations and restarts interleave, the pending
  hits are valid, in strictly increasing seq order and at most 256, the read
  position stays a safe integer, and the known blocks are tags of share nodes.
\<close>

theorem scan_reachable:
  assumes "reach scan_init scan_step m"
  shows "list_all ValidScanHit (sm_pending m) \<and> sorted_wrt (<) (map sh_seq (sm_pending m))
    \<and> int (length (sm_pending m)) \<le> 256
    \<and> 0 \<le> sp_after (sm_scan m) \<and> sp_after (sm_scan m) \<le> MaxScanSeq
    \<and> (\<forall>(t, s) \<in> set (sp_blocked (sm_scan m)). has_prefix t ''flvxl-'' \<and> 0 < s)"
  using scan.reach_inv [OF assms] by (auto simp: scan_inv_def pending_ok_def blocked_ok_def MaxScanHits_def)


section \<open>No hit is lost before FLVX recorded it\<close>

lemma addScanHit_subset: "set ps \<subseteq> set (addScanHit og ps h)"
  by (auto simp: addScanHit_def Let_def split: option.split)

lemma addScanHits_subset: "set ps \<subseteq> set (foldl (addScanHit og) ps hs)"
  by (induction hs arbitrary: ps) (auto dest: subsetD [OF addScanHit_subset])

lemma addScanHit_adds:
  assumes "ch_seq h > sg_seen g" and "has_prefix (ch_identity h) ''flvxl-''"
    and "ValidScanHit ((scan_hit_of h)\<lparr>sh_host := []\<rparr>)"
  shows "\<exists>p \<in> set (addScanHit (Some g) ps h). sh_seq p = ch_seq h"
  using assms by (auto simp: addScanHit_def Let_def list_ex_iff scan_hit_of_def)

lemma addScanHits_adds:
  assumes "h \<in> set hs" and "ch_seq h > sg_seen g" and "has_prefix (ch_identity h) ''flvxl-''"
    and "ValidScanHit ((scan_hit_of h)\<lparr>sh_host := []\<rparr>)"
  shows "\<exists>p \<in> set (foldl (addScanHit (Some g)) ps hs). sh_seq p = ch_seq h"
  using assms(1)
proof (induction hs arbitrary: ps)
  case (Cons x xs)
  show ?case
  proof (cases "x = h")
    case True
    then obtain p where "p \<in> set (addScanHit (Some g) ps x)" "sh_seq p = ch_seq h"
      using addScanHit_adds [OF assms(2-4)] by blast
    then show ?thesis using addScanHits_subset [of "addScanHit (Some g) ps x" "Some g" xs] by auto
  next
    case False
    then show ?thesis using Cons by simp
  qed
qed simp

lemma addScanHit_tag:
  assumes "\<forall>p \<in> set ps. sh_seq p = sq \<longrightarrow> sh_inbound_tag p = t" and "ch_seq h = sq \<longrightarrow> ch_identity h = t"
  shows "\<forall>p \<in> set (addScanHit og ps h). sh_seq p = sq \<longrightarrow> sh_inbound_tag p = t"
  using assms by (auto simp: addScanHit_def Let_def scan_hit_of_def split: option.split)

lemma addScanHits_tag:
  assumes "\<forall>p \<in> set ps. sh_seq p = sq \<longrightarrow> sh_inbound_tag p = t"
    and "\<forall>h \<in> set hs. ch_seq h = sq \<longrightarrow> ch_identity h = t"
  shows "\<forall>p \<in> set (foldl (addScanHit og) ps hs). sh_seq p = sq \<longrightarrow> sh_inbound_tag p = t"
  using assms
proof (induction hs arbitrary: ps)
  case (Cons x xs)
  then show ?case using addScanHit_tag [of ps sq t x og] by simp
qed simp

text \<open>
  C8: While the guard is on, a hit that the Core reports (or a block it still
  keeps) on a node of the share and that FLVX has not recorded is held by the
  Helper after the pass: its tag is among the blocked ones, unless 256 hits
  that are at least as new fill the list. A host the Helper does not accept
  does not lose the hit.
\<close>

theorem scan_hit_held:
  assumes "scanCapable (fst (scanPass (\<lambda>_. Some r) epoch m))"
    and "ds_scan_guard (sm_desired m) = Some g" and "ValidateScanGuard (sm_desired m) = []" and "sg_enabled g"
    and "h \<in> set (cs_hits r) \<union> set (cs_blocked r)" and "sg_seen g < ch_seq h"
    and "ch_identity h \<in> Node_Tag ` set (ds_node_list (sm_desired m))"
    and "ValidScanHit ((scan_hit_of h)\<lparr>sh_host := []\<rparr>)"
    and "\<forall>p \<in> set (sm_pending m). sh_seq p = ch_seq h \<longrightarrow> sh_inbound_tag p = ch_identity h"
    and "\<forall>x \<in> set (cs_hits r) \<union> set (cs_blocked r). ch_seq x = ch_seq h \<longrightarrow> ch_identity x = ch_identity h"
  shows "ch_identity h \<in> set (scanHeld (fst (scanPass (\<lambda>_. Some r) epoch m)))
    \<or> length (sm_pending (fst (scanPass (\<lambda>_. Some r) epoch m))) = 256
       \<and> (\<forall>p \<in> set (sm_pending (fst (scanPass (\<lambda>_. Some r) epoch m))). ch_seq h \<le> sh_seq p)"
proof -
  let ?hs = "cs_hits r @ cs_blocked r"
  let ?ps = "foldl (addScanHit (Some g)) (sm_pending m) ?hs"
  let ?kept = "filter (\<lambda>p. sh_seq p > sg_seen g
      \<and> sh_inbound_tag p \<in> set (map Node_Tag (ds_node_list (sm_desired m)))) ?ps"
  have pending: "sm_pending (fst (scanPass (\<lambda>_. Some r) epoch m)) = newest_hits ?kept"
    using assms(1-4)
    by (auto simp: scanPass_def scanGuard_def scanCapable_def guard_enabled_def pruneScanHits_def Let_def
        enter_epoch_def scan_read_def absorb_report_def scan_reads_def split: if_splits)
  have prefix: "has_prefix (ch_identity h) ''flvxl-''" using assms(7) by (auto simp: Node_Tag_def has_prefix_def)
  obtain p where p: "p \<in> set ?ps" "sh_seq p = ch_seq h"
    using addScanHits_adds [of h ?hs, OF _ assms(6) prefix assms(8)] assms(5) by auto
  have "sh_inbound_tag p = ch_identity h"
    using addScanHits_tag [OF assms(9), of ?hs "Some g"] assms(10) p by auto
  moreover from this have "p \<in> set (sort_key sh_seq ?kept)" using p assms(6,7) by auto
  then have "p \<in> set (newest_hits ?kept)
      \<or> length (newest_hits ?kept) = 256 \<and> (\<forall>q \<in> set (newest_hits ?kept). ch_seq h \<le> sh_seq q)"
    using keep_last_or_newer [of sh_seq "sort_key sh_seq ?kept" p "nat MaxScanHits"] p(2)
    by (simp add: newest_hits_def MaxScanHits_def)
  ultimately show ?thesis unfolding pending scanHeld_def set_sorted_unique by force
qed


section \<open>Lifting blocks and the refused configuration\<close>

text \<open>
  A pushed configuration lifts exactly the Core blocks that are settled: with
  no guard sent any more every known block, otherwise those of tags that are no
  longer a node and those whose hit FLVX recorded and whose node is enabled
  again. A block whose hit FLVX has not recorded is never lifted on a node.
\<close>

theorem scan_unblock_exact:
  assumes "scanCapable m" and "distinct (map fst (sp_blocked (sm_scan m)))"
  shows "(tag, sq) \<in> set (snd (scanControl wanted m)) \<longleftrightarrow>
    (tag, sq) \<in> set (sp_blocked (sm_scan m))
    \<and> (case fst (scanGuard m) of
         None \<Rightarrow> True
       | Some g \<Rightarrow> tag \<notin> Node_Tag ` set (ds_node_list (sm_desired m))
           \<or> sq \<le> sg_seen g \<and> enabled_map (sm_desired m) tag = Some True)"
proof -
  have dom: "enabled_map (sm_desired m) tag = None \<longleftrightarrow> tag \<notin> Node_Tag ` set (ds_node_list (sm_desired m))"
    by (auto simp: enabled_map_def map_of_eq_None_iff image_image)
  have snd: "snd (scanControl wanted m) = scan_unblock m"
    using assms(1) by (simp add: scanControl_def Let_def split: option.split)
  have "(tag, sq) \<in> set (map (\<lambda>tag. (tag, the (map_of (sp_blocked (sm_scan m)) tag)))
            (sorted_unique (map fst (sp_blocked (sm_scan m))))) \<longleftrightarrow> (tag, sq) \<in> set (sp_blocked (sm_scan m))"
    using assms(2) by (force dest: map_of_is_SomeI)
  then show ?thesis
    by (simp add: snd scan_unblock_def Let_def dom split: option.split del: set_map)
qed

lemma rejected_scanPass:
  "sp_rejected (sm_scan (fst (scanPass report epoch m))) = sp_rejected (sm_scan m)
   \<and> sp_epoch (sm_scan (fst (scanPass report epoch m))) = epoch"
  by (simp add: scanPass_def scan_read_def absorb_report_def enter_epoch_def Let_def split: option.split)

lemma scanControl_incapable: "\<not> scanCapable m \<Longrightarrow> scanControl wanted m = (None, [])"
  by (simp add: scanControl_def)

text \<open>
  When the Core refuses the scan fields as unknown, the same call falls back
  to the plain configuration and no later configuration of the same epoch has
  scan fields, whatever payloads arrive and whatever the passes of that epoch
  report; the share reports that the Core must be updated while the guard is on.
\<close>

theorem scan_refused:
  assumes "core (scanControl wanted m) = (True, True)" and "scanControl wanted m \<noteq> (None, [])"
    and "sp_epoch (sm_scan m) \<noteq> []"
  shows "fst (snd (applyFLVXConfig core wanted m)) = [scanControl wanted m, (None, [])]
    \<and> (\<forall>reports d st f w m'.
         m' = (foldl (\<lambda>s r. fst (scanPass r (sp_epoch (sm_scan m)) s)) (fst (applyFLVXConfig core wanted m)) reports)
                \<lparr>sm_desired := d, sm_status := st, sm_features := f\<rparr>
         \<longrightarrow> scanControl w m' = (None, [])
           \<and> (st = ''active'' \<and> ValidateScanGuard d = [] \<and> ScanGuardOn d \<longrightarrow> ss_state (scanStatus m') = ''core_update''))"
proof (intro conjI allI impI)
  obtain ctl where c: "scanControl wanted m = ctl" "fst ctl \<noteq> None \<or> snd ctl \<noteq> []"
    using assms(2) by (cases "scanControl wanted m") auto
  then have ap: "applyFLVXConfig core wanted m =
      (m\<lparr>sm_scan := (sm_scan m)\<lparr>sp_rejected := sp_epoch (sm_scan m), sp_err := ''refused scan_guard''\<rparr>\<rparr>,
       [ctl, (None, [])], snd (core (None, [])))"
    using assms(1) by (auto simp: applyFLVXConfig_def Let_def)
  show "fst (snd (applyFLVXConfig core wanted m)) = [scanControl wanted m, (None, [])]"
    by (simp add: ap c)
  fix reports d st f w m'
  let ?e = "sp_epoch (sm_scan m)"
  assume m': "m' = (foldl (\<lambda>s r. fst (scanPass r ?e s)) (fst (applyFLVXConfig core wanted m)) reports)
                \<lparr>sm_desired := d, sm_status := st, sm_features := f\<rparr>"
  have "sp_rejected (sm_scan (foldl (\<lambda>s r. fst (scanPass r ?e s)) s reports)) = ?e
      \<and> sp_epoch (sm_scan (foldl (\<lambda>s r. fst (scanPass r ?e s)) s reports)) = ?e"
    if "sp_rejected (sm_scan s) = ?e" "sp_epoch (sm_scan s) = ?e" for s
    using that by (induction reports arbitrary: s) (simp_all add: rejected_scanPass)
  then have cap: "\<not> scanCapable m'" using assms(3) by (simp add: m' scanCapable_def ap)
  then show "scanControl w m' = (None, [])" by (rule scanControl_incapable)
  assume on: "st = ''active'' \<and> ValidateScanGuard d = [] \<and> ScanGuardOn d"
  then obtain g where "ds_scan_guard d = Some g" "sg_enabled g" by (auto simp: ScanGuardOn_def split: option.splits)
  then show "ss_state (scanStatus m') = ''core_update''"
    using cap on by (simp add: m' scanStatus_def scanGuard_def guard_enabled_def Let_def)
qed

text \<open>
  An accepted and enabled setting, pushed for some of its identities, gives
  the Core positive thresholds of at most 100000, windows between 10 and 3600
  seconds, at most 16 different web ports, and only tags of the share's nodes.
\<close>

theorem scan_core_config:
  assumes "ds_scan_guard d = Some g" and "sg_enabled g" and "ValidateScanGuard d = []"
    and "set ids \<subseteq> set (sg_identities g)"
  shows "(\<forall>k \<in> {''horizontal'', ''horizontal_web'', ''vertical'', ''total''}.
            \<exists>v. jget k (CoreConfig g ids) = Some (JNum v) \<and> 1 \<le> v \<and> v \<le> 100000)
    \<and> (\<forall>k \<in> {''window_s'', ''total_window_s''}.
            \<exists>v. jget k (CoreConfig g ids) = Some (JNum v) \<and> 10 \<le> v \<and> v \<le> 3600)
    \<and> (\<exists>ps. jget ''web_ports'' (CoreConfig g ids) = Some (JArr (map JNum ps)) \<and> length ps \<le> 16 \<and> distinct ps
         \<and> set ps \<subseteq> {1..65535})
    \<and> set ids \<subseteq> Node_Tag ` set (ds_node_list d)"
proof -
  have e: "list_all (\<lambda>i. i \<in> Node_Tag ` set (ds_node_list d)) (sg_identities g)"
    "\<not> list_ex (\<lambda>v. v < 0 \<or> v > maxScanThreshold) [sg_horizontal g, sg_horizontal_web g, sg_vertical g, sg_total g]"
    "\<not> list_ex (\<lambda>v. v \<noteq> 0 \<and> (v < 10 \<or> v > 3600)) [sg_window_s g, sg_total_window_s g]"
    "\<And>ps. sg_web_ports g = Some ps \<Longrightarrow>
       int (length ps) \<le> maxScanWebPorts \<and> list_all (\<lambda>p. \<not> (p < 1 \<or> p > 65535)) ps \<and> distinct ps"
    using assms(1-3) by (auto simp: ValidateScanGuard_def scan_error_def Let_def split: if_splits)
  have num: "1 \<le> or_default v k \<and> or_default v k \<le> 100000" if "0 \<le> v" "v \<le> 100000" "1 \<le> k" "k \<le> 100000" for v k
    using that by (simp add: or_default_def)
  have win: "10 \<le> or_default v k \<and> or_default v k \<le> 3600"
    if "v = 0 \<or> 10 \<le> v \<and> v \<le> 3600" "10 \<le> k" "k \<le> 3600" for v k
    using that by (auto simp: or_default_def)
  show ?thesis
  proof (intro conjI)
    show "\<forall>k \<in> {''horizontal'', ''horizontal_web'', ''vertical'', ''total''}.
            \<exists>v. jget k (CoreConfig g ids) = Some (JNum v) \<and> 1 \<le> v \<and> v \<le> 100000"
      using e(2) num by (auto simp: CoreConfig_def maxScanThreshold_def ScanDefaultHorizontal_def
          ScanDefaultHorizontalWeb_def ScanDefaultVertical_def ScanDefaultTotal_def)
    show "\<forall>k \<in> {''window_s'', ''total_window_s''}.
            \<exists>v. jget k (CoreConfig g ids) = Some (JNum v) \<and> 10 \<le> v \<and> v \<le> 3600"
      using e(3) win by (auto simp: CoreConfig_def ScanDefaultWindowS_def ScanDefaultTotalWindowS_def)
    show "\<exists>ps. jget ''web_ports'' (CoreConfig g ids) = Some (JArr (map JNum ps)) \<and> length ps \<le> 16 \<and> distinct ps
         \<and> set ps \<subseteq> {1..65535}"
      using e(4)
      by (intro exI [of _ "case sg_web_ports g of None \<Rightarrow> ScanDefaultWebPorts | Some ps \<Rightarrow> ps"])
        (auto simp: CoreConfig_def ScanDefaultWebPorts_def maxScanWebPorts_def list_all_iff not_less split: option.split)
    show "set ids \<subseteq> Node_Tag ` set (ds_node_list d)" using e(1) assms(4) by (auto simp: list_all_iff)
  qed
qed

section \<open>The reported status\<close>

lemma first_hits_ok:
  "list_all ValidScanHit (first_hits seen hs) \<and> distinct (map sh_seq (first_hits seen hs))
   \<and> set (map sh_seq (first_hits seen hs)) \<inter> set seen = {} \<and> set (first_hits seen hs) \<subseteq> set hs"
proof (induction hs arbitrary: seen)
  case (Cons h hs)
  then show ?case using Cons.IH [of "sh_seq h # seen"] Cons.IH [of seen] by (cases "ValidScanHit h \<and> sh_seq h \<notin> set seen") auto
qed simp

lemma first_hits_id:
  "list_all ValidScanHit hs \<Longrightarrow> distinct (map sh_seq hs) \<Longrightarrow> set (map sh_seq hs) \<inter> set seen = {} \<Longrightarrow> first_hits seen hs = hs"
  by (induction hs arbitrary: seen) auto

lemma first_hits_seqs: "sh_seq ` set (first_hits seen hs) = sh_seq ` {h \<in> set hs. ValidScanHit h} - set seen"
  by (induction hs arbitrary: seen) auto

definition tag_ok :: "string \<Rightarrow> bool" where
  "tag_ok t \<longleftrightarrow> has_prefix t ''flvxl-'' \<and> identifierRe (trim_prefix t ''flvxl-'')"

lemma bounded_tags_ok:
  "distinct acc \<Longrightarrow> int (length acc) \<le> MaxNodes \<Longrightarrow> list_all tag_ok acc \<Longrightarrow>
   distinct (bounded_tags acc ts) \<and> int (length (bounded_tags acc ts)) \<le> MaxNodes
   \<and> list_all tag_ok (bounded_tags acc ts) \<and> set (bounded_tags acc ts) \<subseteq> set acc \<union> set ts"
proof (induction acc ts rule: bounded_tags.induct)
  case (2 acc t ts)
  show ?case
    using 2 by (cases "int (length acc) < MaxNodes \<and> has_prefix t ''flvxl-'' \<and> identifierRe (trim_prefix t ''flvxl-'')";
      cases "t \<in> set acc") (auto simp: tag_ok_def)
qed simp

text \<open>
  A sanitized status keeps only valid hits, each seq once, in increasing order
  and at most 256 of them, none of which is older than a valid hit it left out;
  the blocked tags are sorted, different, at most \<open>MaxNodes\<close>, all well formed
  tags that were reported.
\<close>

theorem sanitize_scan_status:
  assumes "SanitizeScanGuardStatus (Some s) = Some t"
  shows "list_all ValidScanHit (ss_hits t) \<and> sorted_wrt (<) (map sh_seq (ss_hits t)) \<and> length (ss_hits t) \<le> 256
    \<and> set (ss_hits t) \<subseteq> set (ss_hits s)
    \<and> (\<forall>h \<in> set (ss_hits s). ValidScanHit h \<and> sh_seq h \<notin> sh_seq ` set (ss_hits t)
         \<longrightarrow> length (ss_hits t) = 256 \<and> (\<forall>k \<in> set (ss_hits t). sh_seq h < sh_seq k))
    \<and> sorted (ss_blocked t) \<and> distinct (ss_blocked t) \<and> int (length (ss_blocked t)) \<le> MaxNodes
    \<and> set (ss_blocked t) \<subseteq> set (ss_blocked s) \<and> list_all tag_ok (ss_blocked t)"
proof -
  let ?f = "first_hits [] (ss_hits s)"
  have t: "ss_hits t = newest_hits ?f" "ss_blocked t = sort (bounded_tags [] (ss_blocked s))"
    using assms by (auto simp: SanitizeScanGuardStatus_def split: if_splits)
  note f = first_hits_ok [of "[]" "ss_hits s"]
  have bt: "distinct (bounded_tags [] (ss_blocked s)) \<and> int (length (bounded_tags [] (ss_blocked s))) \<le> MaxNodes
      \<and> list_all tag_ok (bounded_tags [] (ss_blocked s)) \<and> set (bounded_tags [] (ss_blocked s)) \<subseteq> set (ss_blocked s)"
    using bounded_tags_ok [of "[]" "ss_blocked s"] by (simp add: MaxNodes_def)
  have older: "length (newest_hits ?f) = 256 \<and> (\<forall>k \<in> set (newest_hits ?f). sh_seq h < sh_seq k)"
    if h: "h \<in> set (ss_hits s)" "ValidScanHit h" "sh_seq h \<notin> sh_seq ` set (newest_hits ?f)" for h
  proof -
    have "sh_seq h \<in> sh_seq ` set ?f" using h first_hits_seqs [of "[]" "ss_hits s"] by auto
    then obtain k where k: "k \<in> set (sort_key sh_seq ?f)" "sh_seq k = sh_seq h" by auto
    moreover from k(2) h(3) have "k \<notin> set (newest_hits ?f)" by (metis image_eqI)
    ultimately have "length (newest_hits ?f) = 256 \<and> (\<forall>y \<in> set (newest_hits ?f). sh_seq k \<le> sh_seq y)"
      using keep_last_or_newer [of sh_seq "sort_key sh_seq ?f" k "nat MaxScanHits"]
      by (simp add: newest_hits_def MaxScanHits_def)
    then show ?thesis using h(3) k(2) by (metis image_eqI order_le_neq_trans)
  qed
  have "list_all ValidScanHit (newest_hits ?f)" using f set_newest_hits [of ?f] by (auto simp: list_all_iff)
  then show ?thesis
    using f bt older sorted_newest_hits [of ?f] length_newest_hits [of ?f] set_newest_hits [of ?f]
    by (auto simp: t MaxScanHits_def list_all_iff)
qed


section \<open>A concrete run\<close>

definition ex_scan_guard :: ScanGuard where
  "ex_scan_guard = \<lparr> sg_enabled = True, sg_identities = [''flvxl-n1''], sg_horizontal = 0, sg_horizontal_web = 0,
     sg_web_ports = None, sg_window_s = 60, sg_vertical = 0, sg_total = 0, sg_total_window_s = 0, sg_seen = 4 \<rparr>"

definition ex_scan_node :: Node where
  "ex_scan_node = \<lparr> nd_id = ''n1'', nd_owner = \<lparr> ow_id = ''u1'', ow_name = ''alice'' \<rparr>, nd_name = ''node'',
     nd_protocol = ''mieru'', nd_port = 20001, nd_enabled = Some True, nd_max_connections = 0, nd_max_online_ips = 0,
     nd_expires_at = None, nd_conn_mode = [], nd_max_total_connections = 0, nd_ss2022 = None, nd_vless = None,
     nd_anytls = None, nd_snell = None, nd_mieru = None \<rparr>"

definition ex_scan_desired :: Desired where
  "ex_scan_desired = \<lparr> ds_revision = 1, ds_nodes = Some [ex_scan_node], ds_egress = None,
     ds_reality_guard = None, ds_scan_guard = Some ex_scan_guard, ds_reality_pin_margin_ms = None \<rparr>"

definition ex_scan :: scan_manager where
  "ex_scan = \<lparr> sm_desired = ex_scan_desired, sm_status = ''active'', sm_features = {CoreScanGuardFeature},
     sm_pending = [], sm_scan = \<lparr> sp_epoch = ''e1'', sp_after = 0, sp_blocked = [], sp_synced = False,
       sp_err = [], sp_rejected = [] \<rparr> \<rparr>"

definition ex_core_hit :: coreScanHit where
  "ex_core_hit = \<lparr> ch_identity = ''flvxl-n1'', ch_type = ''vertical'', ch_count = 31, ch_port = 0,
     ch_host = ''bad host'', ch_window_s = 60, ch_at = 5, ch_seq = 7 \<rparr>"

definition ex_scan_report :: coreScanReport where
  "ex_scan_report = \<lparr> cs_version = 1, cs_hits = [ex_core_hit], cs_blocked = [ex_core_hit] \<rparr>"

lemma ex_scan_valid: "ValidateScanGuard ex_scan_desired = []"
  by code_simp

lemma ex_scan_wanted: "scanControl [''flvxl-n1'' \<mapsto> ''x''] ex_scan \<noteq> (None, [])"
  by code_simp

text \<open>A manager that has read the report.\<close>

definition ex_scanned :: scan_manager where
  "ex_scanned = fst (scanPass (\<lambda>_. Some ex_scan_report) ''e1'' ex_scan)"

theorem scan_reachable_witness:
  "list_all ValidScanHit (sm_pending ex_scanned) \<and> length (sm_pending ex_scanned) = 1"
proof -
  have "scan_init ex_scan" by (simp add: scan_init_def ex_scan_def)
  then have "reach scan_init scan_step ex_scanned"
    unfolding ex_scanned_def by (rule reach_step [OF reach_init]) (rule scan_step.scan_pass)
  moreover have "length (sm_pending ex_scanned) = 1" by code_simp
  ultimately show ?thesis using scan_reachable [of ex_scanned] by simp
qed

theorem scan_hit_held_witness:
  "''flvxl-n1'' \<in> set (scanHeld (fst (scanPass (\<lambda>_. Some ex_scan_report) ''e1'' ex_scan)))"
proof -
  have cap: "scanCapable (fst (scanPass (\<lambda>_. Some ex_scan_report) ''e1'' ex_scan))" by code_simp
  have one: "length (sm_pending (fst (scanPass (\<lambda>_. Some ex_scan_report) ''e1'' ex_scan))) = 1" by code_simp
  have valid: "ValidScanHit ((scan_hit_of ex_core_hit)\<lparr>sh_host := []\<rparr>)" by code_simp
  have "ch_identity ex_core_hit = ''flvxl-n1''" by (simp add: ex_core_hit_def)
  then show ?thesis
    using scan_hit_held [of ex_scan_report "''e1''" ex_scan ex_scan_guard ex_core_hit] cap one valid ex_scan_valid
    by (simp add: ex_scan_def ex_scan_desired_def ex_scan_guard_def ex_scan_node_def ex_scan_report_def ex_core_hit_def
        Node_Tag_def ds_node_list_def)
qed

theorem scan_unblock_exact_witness:
  "(''flvxl-n1'', 7) \<notin> set (snd (scanControl (\<lambda>_. None) ex_scanned))"
proof -
  have "scanCapable ex_scanned" "distinct (map fst (sp_blocked (sm_scan ex_scanned)))"
    "fst (scanGuard ex_scanned) = Some ex_scan_guard" "ds_node_list (sm_desired ex_scanned) = [ex_scan_node]"
    by code_simp+
  then show ?thesis
    using scan_unblock_exact [of ex_scanned "''flvxl-n1''" 7 "\<lambda>_. None"]
    by (simp add: ex_scan_guard_def ex_scan_node_def Node_Tag_def)
qed

theorem scan_refused_witness:
  "\<forall>w. scanControl w ((fst (applyFLVXConfig (\<lambda>c. (c \<noteq> (None, []), c \<noteq> (None, []))) [''flvxl-n1'' \<mapsto> ''x''] ex_scan))
          \<lparr>sm_desired := ex_scan_desired, sm_status := ''active'', sm_features := {CoreScanGuardFeature}\<rparr>) = (None, [])"
proof -
  let ?core = "\<lambda>c. (c \<noteq> (None, []), c \<noteq> (None, []))"
  have "?core (scanControl [''flvxl-n1'' \<mapsto> ''x''] ex_scan) = (True, True)" using ex_scan_wanted by simp
  moreover have "sp_epoch (sm_scan ex_scan) \<noteq> []" by (simp add: ex_scan_def)
  ultimately have "\<forall>reports d st f w m'.
         m' = (foldl (\<lambda>s r. fst (scanPass r (sp_epoch (sm_scan ex_scan)) s))
                 (fst (applyFLVXConfig ?core [''flvxl-n1'' \<mapsto> ''x''] ex_scan)) reports)
                \<lparr>sm_desired := d, sm_status := st, sm_features := f\<rparr> \<longrightarrow> scanControl w m' = (None, [])"
    using scan_refused [of ?core "[''flvxl-n1'' \<mapsto> ''x'']" ex_scan] ex_scan_wanted by blast
  from this [THEN spec, of "[]"] show ?thesis by simp
qed

theorem scan_core_config_witness:
  "\<exists>v. jget ''vertical'' (CoreConfig ex_scan_guard [''flvxl-n1'']) = Some (JNum v) \<and> 1 \<le> v \<and> v \<le> 100000"
  using scan_core_config [of ex_scan_desired ex_scan_guard "[''flvxl-n1'']"] ex_scan_valid
  by (simp add: ex_scan_desired_def ex_scan_guard_def)

theorem sanitize_scan_status_witness:
  "\<exists>t. SanitizeScanGuardStatus (Some (scanStatus ex_scanned)) = Some t \<and> sorted_wrt (<) (map sh_seq (ss_hits t))"
proof -
  have "SanitizeScanGuardStatus (Some (scanStatus ex_scanned)) \<noteq> None" by code_simp
  then show ?thesis using sanitize_scan_status [of "scanStatus ex_scanned"] by auto
qed

end
