(* ===== verification/Geo.thy ===== *)
theory Geo
  imports Cidr_Sets
begin

text \<open>
  \<open>internal/flvx/geo.go\<close>: the table of known geo categories and the reader of
  \<open>geoip.dat\<close> (protobuf: varints, length delimited entries, CIDRs). A byte is
  an \<open>int\<close> in 0..255. The embedded table \<open>data/geo_codes.txt\<close> and the contents of
  the file are arguments. \<open>encode_file\<close> writes the format; the property is the
  round trip through \<open>ReadGeoIP\<close>.
\<close>

section \<open>The category table\<close>

record geoInfo =
  gi_bytes :: int
  gi_items :: int

type_synonym geo_table = "string \<rightharpoonup> geoInfo"

definition add_geo_line :: "geo_table \<times> geo_table \<Rightarrow> string \<Rightarrow> geo_table \<times> geo_table" where
  "add_geo_line = (\<lambda>(ip, site) line.
     case go_fields line of
       [f0, f1, f2, f3] \<Rightarrow>
         if has_prefix line ''#'' then (ip, site)
         else let g = \<lparr> gi_bytes = go_atoi_value f2, gi_items = go_atoi_value f3 \<rparr>
              in if f0 = ''ip'' then (ip(f1 \<mapsto> g), site) else (ip, site(f1 \<mapsto> g))
     | _ \<Rightarrow> (ip, site))"

definition geoTables :: "string \<Rightarrow> geo_table \<times> geo_table" where
  "geoTables raw = foldl add_geo_line (Map.empty, Map.empty) (go_split (CHR 0x0A) raw)"

definition GeoEntry :: "geo_table \<times> geo_table \<Rightarrow> string \<Rightarrow> bool \<times> int" where
  "GeoEntry tables entry =
     (let (ip, site) = tables; info = (\<lambda>g. case g of None \<Rightarrow> (False, 0) | Some x \<Rightarrow> (True, gi_bytes x)) in
      if has_prefix entry ''geosite:'' then
        info (site (fst (go_cut (trim_prefix entry ''geosite:'') (CHR ''@''))))
      else if has_prefix entry ''geoip:'' then
        info (ip (trim_prefix (trim_prefix entry ''geoip:'') ''!''))
      else (True, 0))"

section \<open>The file reader\<close>

datatype geo_error = EOF | UnexpectedEOF | VarintOverflow | BadFormat | BadCIDR | NoSuchCode | OpenFailed

type_synonym bytes = "int list"

fun read_varint_from :: "nat \<Rightarrow> nat \<Rightarrow> 64 word \<Rightarrow> bytes \<Rightarrow> geo_error + (64 word \<times> bytes)" where
  "read_varint_from 0 shift x bs = Inl VarintOverflow"
| "read_varint_from (Suc n) shift x [] = Inl (if 0 < shift then UnexpectedEOF else EOF)"
| "read_varint_from (Suc n) shift x (b # bs) =
     (let x' = x OR push_bit shift (word_of_int (b AND 0x7f))
      in if b < 0x80 then Inr (x', bs) else read_varint_from n (shift + 7) x' bs)"

text \<open>The shifts 0, 7, ..., 63 are ten rounds.\<close>

definition readVarint :: "bytes \<Rightarrow> geo_error + (64 word \<times> bytes)" where
  "readVarint bs = read_varint_from 10 0 0 bs"

lemma read_varint_from_shorter:
  "read_varint_from n s x bs = Inr (v, r) \<Longrightarrow> length r < length bs"
  by (induction n s x bs rule: read_varint_from.induct) (force simp: Let_def split: if_splits)+

lemma readVarint_shorter: "readVarint bs = Inr (v, r) \<Longrightarrow> length r < length bs"
  by (simp add: readVarint_def read_varint_from_shorter)

text \<open>\<open>netip.AddrFromSlice\<close>.\<close>

definition addr_from_slice :: "bytes \<Rightarrow> ip_addr option" where
  "addr_from_slice b =
     (if length b = 4 then Some (IPv4 (foldl (\<lambda>v x. v * 256 + of_int x) 0 b))
      else if length b = 16 then
        Some (IPv6 (U128 (foldl (\<lambda>v x. v * 256 + of_int x) 0 (take 8 b))
                         (foldl (\<lambda>v x. v * 256 + of_int x) 0 (drop 8 b))) [])
      else None)"

text \<open>The loop of \<open>parseGeoCIDR\<close>: address bytes and prefix so far.\<close>

function geo_cidr_fields :: "bytes \<Rightarrow> int \<Rightarrow> bytes \<Rightarrow> geo_error + (bytes \<times> int)" where
  "geo_cidr_fields ip pfx bs =
     (if bs = [] then Inr (ip, pfx)
      else case readVarint bs of
        Inl e \<Rightarrow> Inl e
      | Inr (key, r) \<Rightarrow>
          if uint key = 0x0a then
            (case readVarint r of
               Inl e \<Rightarrow> Inl BadCIDR
             | Inr (n, r') \<Rightarrow>
                 if uint n > int (length r') then Inl BadCIDR
                 else geo_cidr_fields (take (unat n) r') pfx (drop (unat n) r'))
          else if uint key = 0x10 then
            (case readVarint r of
               Inl e \<Rightarrow> Inl e
             | Inr (v, r') \<Rightarrow> geo_cidr_fields ip (i64 (uint v)) r')
          else Inl BadCIDR)"
  by pat_completeness auto
termination
  by (relation "measure (\<lambda>(_, _, bs). length bs)") (auto dest!: readVarint_shorter)

declare geo_cidr_fields.simps [simp del]

definition geo_prefix :: "ip_addr \<Rightarrow> int \<Rightarrow> prefix" where
  "geo_prefix a n =
     (if addr_is4in6 a \<and> 96 \<le> n then prefix_masked (prefix_from (addr_unmap a) (n - 96))
      else prefix_masked (prefix_from a n))"

definition parseGeoCIDR :: "bytes \<Rightarrow> geo_error + prefix" where
  "parseGeoCIDR bs =
     (case geo_cidr_fields [] (-1) bs of
        Inl e \<Rightarrow> Inl e
      | Inr (ip, pfx) \<Rightarrow>
          (case addr_from_slice ip of
             None \<Rightarrow> Inl BadCIDR
           | Some a \<Rightarrow> if pfx < 0 \<or> addr_bit_len a < pfx then Inl BadCIDR else Inr (geo_prefix a pfx)))"

definition byte_string :: "bytes \<Rightarrow> string" where
  "byte_string bs = map (\<lambda>b. char_of (nat b)) bs"

text \<open>The loop of \<open>parseGeoIPEntry\<close>: \<open>None\<close> is the early return for another code.\<close>

function geo_entry_fields :: "string \<Rightarrow> string \<Rightarrow> bytes list \<Rightarrow> bytes \<Rightarrow> geo_error + (string \<times> bytes list option)" where
  "geo_entry_fields want code raw bs =
     (if bs = [] then Inr (code, Some raw)
      else case readVarint bs of
        Inl e \<Rightarrow> Inl e
      | Inr (key, r) \<Rightarrow>
          if uint key mod 8 = 0 then
            (case readVarint r of
               Inl e \<Rightarrow> Inl e
             | Inr (_, r') \<Rightarrow> geo_entry_fields want code raw r')
          else if uint key mod 8 = 2 then
            (case readVarint r of
               Inl e \<Rightarrow> Inl BadFormat
             | Inr (n, r') \<Rightarrow>
                 if uint n > int (length r') then Inl BadFormat
                 else
                   (let v = take (unat n) r'; r'' = drop (unat n) r'
                    in if uint key div 8 = 1 then
                         (let c = go_to_upper (byte_string v)
                          in if c \<noteq> want then Inr (c, None) else geo_entry_fields want c raw r'')
                       else if uint key div 8 = 2 then geo_entry_fields want code (raw @ [v]) r''
                       else geo_entry_fields want code raw r''))
          else Inl BadFormat)"
  by pat_completeness auto
termination
  by (relation "measure (\<lambda>(_, _, _, bs). length bs)") (auto dest!: readVarint_shorter)

declare geo_entry_fields.simps [simp del]

fun parse_cidrs :: "bytes list \<Rightarrow> geo_error + prefix list" where
  "parse_cidrs [] = Inr []"
| "parse_cidrs (v # vs) =
     (case parseGeoCIDR v of
        Inl e \<Rightarrow> Inl e
      | Inr p \<Rightarrow> (case parse_cidrs vs of Inl e \<Rightarrow> Inl e | Inr ps \<Rightarrow> Inr (p # ps)))"

definition parseGeoIPEntry :: "bytes \<Rightarrow> string \<Rightarrow> geo_error + (string \<times> prefix list)" where
  "parseGeoIPEntry b want =
     (case geo_entry_fields want [] [] b of
        Inl e \<Rightarrow> Inl e
      | Inr (code, None) \<Rightarrow> Inr (code, [])
      | Inr (code, Some raw) \<Rightarrow>
          if code \<noteq> want then Inr (code, [])
          else (case parse_cidrs raw of Inl e \<Rightarrow> Inl e | Inr ps \<Rightarrow> Inr (code, ps)))"

text \<open>The scan of \<open>ReadGeoIP\<close> over the entries of the file.\<close>

function geo_scan :: "string \<Rightarrow> bytes \<Rightarrow> geo_error + prefix list" where
  "geo_scan code bs =
     (case readVarint bs of
        Inl e \<Rightarrow> if e = EOF then Inl NoSuchCode else Inl e
      | Inr (tag, r) \<Rightarrow>
          (case readVarint r of
             Inl e \<Rightarrow> Inl BadFormat
           | Inr (n, r') \<Rightarrow>
               if uint tag \<noteq> 0x0a \<or> uint n > 67108864 then Inl BadFormat
               else if int (length r') < uint n then Inl (if r' = [] then EOF else UnexpectedEOF)
               else (case parseGeoIPEntry (take (unat n) r') code of
                       Inl e \<Rightarrow> Inl e
                     | Inr (entryCode, cidrs) \<Rightarrow>
                         if entryCode = code then Inr cidrs else geo_scan code (drop (unat n) r'))))"
  by pat_completeness auto
termination
  by (relation "measure (\<lambda>(_, bs). length bs)") (auto dest!: readVarint_shorter)

declare geo_scan.simps [simp del]

definition ReadGeoIP :: "bytes option \<Rightarrow> string \<Rightarrow> geo_error + prefix list" where
  "ReadGeoIP file code = (case file of None \<Rightarrow> Inl OpenFailed | Some bs \<Rightarrow> geo_scan (go_to_upper code) bs)"

section \<open>Writing the format\<close>

function enc_varint :: "int \<Rightarrow> bytes" where
  "enc_varint n = (if n < 128 then [n] else (n mod 128 + 128) # enc_varint (n div 128))"
  by pat_completeness auto
termination by (relation "measure nat") auto

declare enc_varint.simps [simp del]

definition enc_field :: "int \<Rightarrow> bytes \<Rightarrow> bytes" where
  "enc_field key b = enc_varint key @ enc_varint (int (length b)) @ b"

record geo_cidr =
  gc_ip :: bytes
  gc_prefix :: int

record geo_record =
  ge_code :: bytes
  ge_cidrs :: "geo_cidr list"

definition encode_cidr :: "geo_cidr \<Rightarrow> bytes" where
  "encode_cidr c = enc_field 0x0a (gc_ip c) @ enc_varint 0x10 @ enc_varint (gc_prefix c)"

definition encode_entry :: "geo_record \<Rightarrow> bytes" where
  "encode_entry e = enc_field 0x0a (ge_code e) @ concat (map (\<lambda>c. enc_field 0x12 (encode_cidr c)) (ge_cidrs e))"

definition encode_file :: "geo_record list \<Rightarrow> bytes" where
  "encode_file es = concat (map (\<lambda>e. enc_field 0x0a (encode_entry e)) es)"

definition geo_cidr_ok :: "geo_cidr \<Rightarrow> bool" where
  "geo_cidr_ok c \<longleftrightarrow> (case addr_from_slice (gc_ip c) of None \<Rightarrow> False
     | Some a \<Rightarrow> 0 \<le> gc_prefix c \<and> gc_prefix c \<le> addr_bit_len a)"

definition record_ok :: "geo_record \<Rightarrow> bool" where
  "record_ok e \<longleftrightarrow> list_all geo_cidr_ok (ge_cidrs e) \<and> length (encode_entry e) \<le> 67108864"

definition cidr_prefix :: "geo_cidr \<Rightarrow> prefix" where
  "cidr_prefix c = geo_prefix (the (addr_from_slice (gc_ip c))) (gc_prefix c)"

definition entry_code :: "geo_record \<Rightarrow> string" where
  "entry_code e = go_to_upper (byte_string (ge_code e))"

section \<open>Reading it back\<close>

lemma word_split7: "(word_of_int n :: 64 word) = word_of_int (n mod 128) OR push_bit 7 (word_of_int (n div 128))"
proof (rule bit_word_eqI)
  fix i assume "i < LENGTH(64)"
  have "n mod 128 = take_bit 7 n" "n div 128 = drop_bit 7 n"
    by (simp_all add: take_bit_eq_mod drop_bit_eq_div)
  then show "bit (word_of_int n :: 64 word) i
      = bit (word_of_int (n mod 128) OR push_bit 7 (word_of_int (n div 128)) :: 64 word) i"
    using \<open>i < LENGTH(64)\<close>
    by (auto simp: bit_or_iff bit_push_bit_iff bit_take_bit_iff bit_drop_bit_eq bit_word_of_int_iff)
qed

lemma and_7f: "0 \<le> n \<Longrightarrow> n < 128 \<Longrightarrow> n AND 0x7f = (n :: int)" "(n mod 128 + 128) AND 0x7f = (n mod 128 :: int)"
proof -
  have mask7: "(0x7f :: int) = mask 7" by (simp add: mask_eq_exp_minus_1)
  show "0 \<le> n \<Longrightarrow> n < 128 \<Longrightarrow> n AND 0x7f = n"
    unfolding mask7 by (simp add: take_bit_eq_mask [symmetric] take_bit_eq_mod)
  show "(n mod 128 + 128) AND 0x7f = n mod 128"
    unfolding mask7 by (simp add: take_bit_eq_mask [symmetric] take_bit_eq_mod)
qed

lemma pos_mod_not_neg: "\<not> n mod 128 < (0 :: int)"
  by (simp add: not_less)

lemma read_enc_varint_from:
  assumes "0 \<le> n" and "n < 128 ^ k" and "0 < k"
  shows "read_varint_from k s x (enc_varint n @ rest) = Inr (x OR push_bit s (word_of_int n), rest)"
  using assms
proof (induction n arbitrary: k s x rule: enc_varint.induct)
  case (1 n)
  obtain j where k: "k = Suc j" using "1.prems"(3) by (cases k) auto
  show ?case
  proof (cases "n < 128")
    case True
    then show ?thesis using "1.prems" by (simp add: k enc_varint.simps [of n] and_7f(1) Let_def)
  next
    case False
    have "0 < j" using "1.prems"(2) False by (cases j) (auto simp: k)
    moreover have "n div 2 ^ 7 < 128 ^ j" using "1.prems"(2) by (intro div_less_of_less_mult) (simp add: k)
    ultimately have j: "0 < j" "n div 128 < 128 ^ j" by simp_all
    have "push_bit s (word_of_int (n mod 128)) OR push_bit (s + 7) (word_of_int (n div 128))
        = push_bit s (word_of_int n :: 64 word)"
      by (subst word_split7 [of n]) (simp add: push_bit_or push_bit_push_bit add.commute)
    then show ?thesis
      using "1.IH" [OF False, of j "s + 7" "x OR push_bit s (word_of_int (n mod 128))"] "1.prems"(1) j False
      by (simp add: k enc_varint.simps [of n] and_7f(2) Let_def or.assoc pos_mod_not_neg)
  qed
qed

lemma read_enc_varint [simp]:
  assumes "0 \<le> n" and "n < 2 ^ 64"
  shows "readVarint (enc_varint n @ rest) = Inr (word_of_int n, rest)"
  using read_enc_varint_from [of n 10 0 0 rest] assms by (simp add: readVarint_def)

lemma enc_varint_not_Nil [simp]: "enc_varint n \<noteq> []"
  by (simp add: enc_varint.simps [of n])

lemma uint_of_small: "0 \<le> n \<Longrightarrow> n < 2 ^ 64 \<Longrightarrow> uint (word_of_int n :: 64 word) = n"
  by (simp add: uint_word_of_int)

lemma unat_of_small: "n < 2 ^ 64 \<Longrightarrow> unat (word_of_nat n :: 64 word) = n"
  by (simp add: unsigned_of_nat take_bit_nat_eq_self)

lemma uint_of_nat_small: "n < 2 ^ 64 \<Longrightarrow> uint (word_of_nat n :: 64 word) = int n"
  by (simp add: unsigned_of_nat take_bit_nat_eq_self)
lemma read_key [simp]: "0 \<le> n \<Longrightarrow> n < 128 \<Longrightarrow> readVarint (n # rest) = Inr (word_of_int n, rest)"
  using read_enc_varint [of n rest] by (simp add: enc_varint.simps [of n])

lemma enc_key [simp]: "n < 128 \<Longrightarrow> enc_varint n = [n]"
  by (simp add: enc_varint.simps [of n])

lemma geo_cidr_fields_encode:
  assumes "length ip < 2 ^ 63" and "0 \<le> n" and "n < 2 ^ 63"
  shows "geo_cidr_fields [] (-1) (encode_cidr \<lparr> gc_ip = ip, gc_prefix = n \<rparr>) = Inr (ip, n)"
proof -
  have len: "int (length ip) < 2 ^ 64" "length ip < 2 ^ 64" using assms(1) by simp_all
  have "i64 n = n" using assms(2,3) by (intro i64_id is_int64_nonneg) (simp_all add: max_int64_def)
  then have last: "geo_cidr_fields ip (-1) (enc_varint 0x10 @ enc_varint n) = Inr (ip, n)"
    using read_enc_varint [of n "[]"] assms(2,3)
    by (subst geo_cidr_fields.simps) (simp add: uint_of_small geo_cidr_fields.simps [of ip n "[]"])
  have "geo_cidr_fields [] (-1) (10 # (enc_varint (int (length ip)) @ ip @ enc_varint 0x10 @ enc_varint n))
      = geo_cidr_fields ip (-1) (enc_varint 0x10 @ enc_varint n)"
    using len by (subst geo_cidr_fields.simps) (simp add: uint_of_small uint_of_nat_small unat_of_small)
  then show ?thesis using last by (simp add: encode_cidr_def enc_field_def)
qed

lemma parseGeoCIDR_encode:
  assumes "geo_cidr_ok c"
  shows "parseGeoCIDR (encode_cidr c) = Inr (cidr_prefix c)"
proof -
  obtain a where a: "addr_from_slice (gc_ip c) = Some a" "0 \<le> gc_prefix c" "gc_prefix c \<le> addr_bit_len a"
    using assms by (auto simp: geo_cidr_ok_def split: option.splits)
  then have "length (gc_ip c) \<le> 16" by (auto simp: addr_from_slice_def split: if_splits)
  moreover have "gc_prefix c \<le> 128" using a(3) addr_bit_len_cases [of a] by auto
  ultimately have "geo_cidr_fields [] (-1) (encode_cidr c) = Inr (gc_ip c, gc_prefix c)"
    using geo_cidr_fields_encode [of "gc_ip c" "gc_prefix c"] a(2) by (cases c) simp
  then show ?thesis using a by (simp add: parseGeoCIDR_def cidr_prefix_def)
qed

lemma parse_cidrs_encode:
  "list_all geo_cidr_ok cs \<Longrightarrow> parse_cidrs (map encode_cidr cs) = Inr (map cidr_prefix cs)"
  by (induction cs) (simp_all add: parseGeoCIDR_encode)

lemma enc_field_length: "length b \<le> length (enc_field k b)"
  by (simp add: enc_field_def)

lemma geo_entry_cidrs:
  assumes "\<forall>b \<in> set bs. length b < 2 ^ 64"
  shows "geo_entry_fields want code raw (concat (map (enc_field 0x12) bs)) = Inr (code, Some (raw @ bs))"
  using assms
proof (induction bs arbitrary: raw)
  case Nil
  show ?case by (simp add: geo_entry_fields.simps)
next
  case (Cons b bs)
  have len: "int (length b) < 2 ^ 64" "length b < 2 ^ 64" using Cons.prems by simp_all
  have "geo_entry_fields want code raw (18 # (enc_varint (int (length b)) @ b @ concat (map (enc_field 0x12) bs)))
      = geo_entry_fields want code (raw @ [b]) (concat (map (enc_field 0x12) bs))"
    using len by (subst geo_entry_fields.simps) (simp add: uint_of_small uint_of_nat_small unat_of_small)
  moreover have "concat (map (enc_field 0x12) (b # bs))
      = 18 # (enc_varint (int (length b)) @ b @ concat (map (enc_field 0x12) bs))"
    by (simp add: enc_field_def)
  ultimately show ?case using Cons by (simp del: list.map concat.simps)
qed

lemma parseGeoIPEntry_encode:
  assumes "list_all geo_cidr_ok (ge_cidrs e)" and "length (encode_entry e) < 2 ^ 64" and "want \<noteq> []"
  shows "parseGeoIPEntry (encode_entry e) want =
    (if entry_code e = want then Inr (want, map cidr_prefix (ge_cidrs e)) else Inr (entry_code e, []))"
proof -
  let ?bs = "map encode_cidr (ge_cidrs e)"
  have cat: "concat (map (\<lambda>c. enc_field 0x12 (encode_cidr c)) (ge_cidrs e)) = concat (map (enc_field 0x12) ?bs)"
    by (simp add: comp_def)
  have "length b \<le> length (concat (map (enc_field 0x12) ?bs))" if "b \<in> set ?bs" for b
  proof -
    have "length b \<le> length (enc_field 0x12 b)" by (rule enc_field_length)
    also have "\<dots> \<le> sum_list (map length (map (enc_field 0x12) ?bs))"
      using that by (intro member_le_sum_list) auto
    finally show ?thesis by (simp add: length_concat)
  qed
  moreover have "length (concat (map (enc_field 0x12) ?bs)) \<le> length (encode_entry e)"
    by (simp only: encode_entry_def cat length_append le_add2)
  ultimately have small: "\<forall>b \<in> set ?bs. length b < 2 ^ 64"
    using assms(2) by (meson le_less_trans order_trans)
  have "length (ge_code e) \<le> length (encode_entry e)" by (simp add: encode_entry_def enc_field_def)
  then have code: "length (ge_code e) < 2 ^ 64" using assms(2) by (rule le_less_trans)
  have len: "int (length (ge_code e)) < 2 ^ 64" using code by simp
  have "geo_entry_fields want [] [] (encode_entry e) =
      (if entry_code e \<noteq> want then Inr (entry_code e, None) else geo_entry_fields want want [] (concat (map (enc_field 0x12) ?bs)))"
    using len code unfolding encode_entry_def cat
    by (subst geo_entry_fields.simps)
      (simp add: enc_field_def [of 10] uint_of_small uint_of_nat_small unat_of_small entry_code_def)
  then show ?thesis
    using geo_entry_cidrs [OF small] parse_cidrs_encode [OF assms(1)]
    by (simp add: parseGeoIPEntry_def)
qed

text \<open>
  C40: the geo reader. Reading a category from a file in the protobuf
  format gives exactly the prefixes of its first entry with that code, each
  masked and with IPv4-mapped addresses as IPv4, or the error that the code is
  not there.
\<close>

theorem ReadGeoIP_encode:
  assumes "list_all record_ok es" and "code \<noteq> []"
  shows "ReadGeoIP (Some (encode_file es)) code =
    (case find (\<lambda>e. entry_code e = go_to_upper code) es of
       None \<Rightarrow> Inl NoSuchCode
     | Some e \<Rightarrow> Inr (map cidr_prefix (ge_cidrs e)))"
proof -
  define want where "want = go_to_upper code"
  have "want \<noteq> []" using assms(2) by (simp add: want_def)
  have "geo_scan want (encode_file es) =
    (case find (\<lambda>e. entry_code e = want) es of None \<Rightarrow> Inl NoSuchCode | Some e \<Rightarrow> Inr (map cidr_prefix (ge_cidrs e)))"
    using assms(1)
  proof (induction es)
    case Nil
    show ?case by (simp add: encode_file_def geo_scan.simps readVarint_def numeral_eq_Suc)
  next
    case (Cons e es)
    let ?b = "encode_entry e"
    have len: "length ?b \<le> 67108864" "int (length ?b) < 2 ^ 64" "length ?b < 2 ^ 64"
      using Cons.prems by (simp_all add: record_ok_def)
    have "geo_scan want (10 # (enc_varint (int (length ?b)) @ ?b @ encode_file es)) =
       (case parseGeoIPEntry ?b want of Inl x \<Rightarrow> Inl x
        | Inr (entryCode, cidrs) \<Rightarrow> if entryCode = want then Inr cidrs else geo_scan want (encode_file es))"
      using len by (subst geo_scan.simps) (simp add: uint_of_small uint_of_nat_small unat_of_small split: sum.split prod.split)
    then show ?case
      using Cons parseGeoIPEntry_encode [of e want] len \<open>want \<noteq> []\<close>
      by (simp add: encode_file_def enc_field_def record_ok_def)
  qed
  then show ?thesis by (simp add: ReadGeoIP_def want_def)
qed
definition ex_geo :: geo_record where
  "ex_geo = \<lparr> ge_code = [67, 78], ge_cidrs = [\<lparr> gc_ip = [1, 0, 1, 7], gc_prefix = 24 \<rparr>] \<rparr>"

theorem ReadGeoIP_encode_witness:
  "ReadGeoIP (Some (encode_file [ex_geo])) ''cn'' = Inr [\<lparr> pfx_addr = IPv4 0x01000100, pfx_bits = 24 \<rparr>]
   \<and> ReadGeoIP (Some (encode_file [ex_geo])) ''us'' = Inl NoSuchCode"
proof -
  have ok: "list_all record_ok [ex_geo]"
    by (simp add: ex_geo_def record_ok_def geo_cidr_ok_def addr_from_slice_def encode_entry_def enc_field_def
        encode_cidr_def addr_bit_len_def addr_is4_def)
  have "entry_code ex_geo = ''CN''" "go_to_upper ''cn'' = ''CN''" "go_to_upper ''us'' = ''US''" by code_simp+
  moreover have "map cidr_prefix (ge_cidrs ex_geo) = [\<lparr> pfx_addr = IPv4 0x01000100, pfx_bits = 24 \<rparr>]" by code_simp
  ultimately show ?thesis
    using ReadGeoIP_encode [OF ok, of "''cn''"] ReadGeoIP_encode [OF ok, of "''us''"] by simp
qed

end
