(* ===== verification/Egress_Plan.thy ===== *)
theory Egress_Plan
  imports Flvx_Types Hosts Geo
begin

text \<open>
  \<open>internal/flvx/egress.go\<close> and \<open>egress_validate.go\<close>: the operations on an
  egress plan and its validation. Fields are the source's strings, messages
  short keys. The geo tables (embedded data) and \<open>regexp.Compile\<close> succeeding
  (\<open>rx\<close>) are arguments. Lists have no nil, so \<open>normalize\<close> (nil for empty,
  before JSON) is the identity here and not modelled.
\<close>

section \<open>Operations on a plan\<close>

definition EgressStatus_Valid :: "EgressStatus option \<Rightarrow> bool" where
  "EgressStatus_Valid os =
     (case os of None \<Rightarrow> True
      | Some s \<Rightarrow>
          \<not> (length (es_versions s) > 8 \<or> length (es_warnings s) > 10 \<or> rune_count (es_error s) > 200
              \<or> es_applied_revision s < 0)
          \<and> es_state s \<in> set [''none'', ''applied'', ''error'']
          \<and> list_all (\<lambda>w. \<not> rune_count w > 200) (es_warnings s))"

definition EgressStatus_Supports :: "EgressStatus option \<Rightarrow> int \<Rightarrow> bool" where
  "EgressStatus_Supports os v = (case os of None \<Rightarrow> False | Some s \<Rightarrow> v \<in> set (es_versions s))"

definition Egress_Active :: "Egress option \<Rightarrow> bool" where
  "Egress_Active oe = (case oe of None \<Rightarrow> False | Some e \<Rightarrow> eg_outbounds e \<noteq> [] \<or> eg_rules e \<noteq> [])"

definition CoveredTags :: "Egress option \<Rightarrow> string set" where
  "CoveredTags oe =
     (case oe of None \<Rightarrow> {}
      | Some e \<Rightarrow> if \<not> Egress_Active oe then {} else set (concat (map rule_inbound_tags (eg_rules e))))"

definition GeoFiles :: "Egress option \<Rightarrow> string list" where
  "GeoFiles oe =
     (let rules = (case oe of None \<Rightarrow> [] | Some e \<Rightarrow> eg_rules e);
          site = list_ex (\<lambda>r. list_ex (\<lambda>d. has_prefix d ''geosite:'') (rule_domain r)) rules;
          ip = list_ex (\<lambda>r. list_ex (\<lambda>v. has_prefix v ''geoip:'') (rule_ip r @ rule_source_ip r)) rules
      in (if ip then [''geoip.dat''] else []) @ (if site then [''geosite.dat''] else []))"

definition sortedUnique :: "string list \<Rightarrow> string list" where
  "sortedUnique xs = sorted_unique xs"

section \<open>Entries of a rule\<close>

text \<open>\<open>validPortSpec\<close>: the number of parts, or \<open>None\<close> for a bad spec.\<close>

definition port_part_ok :: "string \<Rightarrow> bool" where
  "port_part_ok part =
     (let (lo, hi, ranged) = go_cut part (CHR ''-'') in
      case go_atoi lo of
        None \<Rightarrow> False
      | Some a \<Rightarrow>
          if a < 1 \<or> a > 65535 \<or> go_itoa a \<noteq> lo then False
          else if \<not> ranged then True
          else (case go_atoi hi of
                  None \<Rightarrow> False
                | Some b \<Rightarrow> \<not> (b < a \<or> b > 65535 \<or> go_itoa b \<noteq> hi)))"

definition validPortSpec :: "string \<Rightarrow> nat option" where
  "validPortSpec spec =
     (if spec = [] then Some 0
      else let parts = go_split (CHR '','') spec in
        if length parts > 64 then None
        else if list_all port_part_ok parts then Some (length parts) else None)"

text \<open>\<open>[]\<close> is the empty message: the entry is valid.\<close>

definition validDomainEntry :: "geo_table \<times> geo_table \<Rightarrow> (string \<Rightarrow> bool) \<Rightarrow> string \<Rightarrow> bool \<Rightarrow> string" where
  "validDomainEntry tabs rx v geosite =
     (let (kind, val, ok) = go_cut v (CHR '':'') in
      if \<not> ok \<or> val = [] then ''domain: prefix required''
      else if kind = ''geosite'' then
        (let (code, attr, hasAttr) = go_cut val (CHR ''@'') in
         if \<not> geoCodeRe code \<or> hasAttr \<and> \<not> geoAttrRe attr then ''geosite: invalid''
         else if \<not> geosite then ''geosite: no data''
         else if \<not> fst (GeoEntry tabs (''geosite:'' @ code)) then ''geosite: unknown''
         else [])
      else if kind = ''domain'' \<or> kind = ''full'' then
        (if \<not> domainValueRe val \<or> str_contains val ''*'' then ''domain: invalid'' else [])
      else if kind = ''keyword'' then
        (if length val > 128 \<or> list_ex (\<lambda>c. byte c \<in> {32, 9, 13, 10, 34}) val then ''keyword: invalid'' else [])
      else if kind = ''regexp'' then
        (if length val > 256 then ''regexp: too long'' else if \<not> rx val then ''regexp: invalid'' else [])
      else ''domain: unknown prefix'')"

definition validIPEntry :: "geo_table \<times> geo_table \<Rightarrow> string \<Rightarrow> bool \<Rightarrow> string" where
  "validIPEntry tabs v geoip =
     (if has_prefix v ''geoip:'' then
        (let code = trim_prefix (trim_prefix v ''geoip:'') ''!'' in
         if \<not> geoCodeRe code \<or> str_contains code ''!'' then ''geoip: invalid''
         else if \<not> geoip then ''geoip: no data''
         else if \<not> fst (GeoEntry tabs (''geoip:'' @ code)) then ''geoip: unknown''
         else [])
      else if parsePrefix v = None then ''ip: invalid'' else [])"

definition forcedConflict :: "string \<Rightarrow> string \<Rightarrow> bool" where
  "forcedConflict ipVersion host =
     (case parse_addr host of
        None \<Rightarrow> False
      | Some a0 \<Rightarrow> let a = addr_unmap a0 in
          ipVersion = ''force_ipv4'' \<and> \<not> addr_is4 a \<or> ipVersion = ''force_ipv6'' \<and> addr_is4 a)"

section \<open>Outbounds\<close>

definition egressIPVersions :: "string set" where
  "egressIPVersions = set [''system'', ''prefer_ipv4'', ''prefer_ipv6'', ''force_ipv4'', ''force_ipv6'']"

definition egressProtocols :: "string set" where
  "egressProtocols = set [''http'', ''tls'', ''quic'', ''bittorrent'']"

definition ss2022KeySize :: "string \<Rightarrow> nat option" where
  "ss2022KeySize m = map_of
     [(''2022-blake3-aes-128-gcm'', 16), (''2022-blake3-aes-256-gcm'', 32), (''2022-blake3-chacha20-poly1305'', 32)] m"

definition ssAEADMethods :: "string set" where
  "ssAEADMethods = set [''aes-128-gcm'', ''aes-256-gcm'', ''chacha20-ietf-poly1305'', ''xchacha20-ietf-poly1305'']"

definition realityFingerprints :: "string set" where
  "realityFingerprints = set [''chrome'', ''firefox'', ''safari'', ''ios'', ''android'', ''edge'', ''random'', ''randomized'']"

type_synonym field_errors = "(string \<times> string) list"

definition err_if :: "bool \<Rightarrow> 'a \<Rightarrow> 'a list" where
  "err_if c e = (if c then [e] else [])"

definition has_break :: "string \<Rightarrow> bool" where
  "has_break s \<longleftrightarrow> list_ex (\<lambda>c. byte c \<in> {13, 10, 0}) s"

definition proxy_errors :: "EgressOutbound \<Rightarrow> field_errors" where
  "proxy_errors ob =
     (if \<not> validUpstreamHost (eo_server ob) then [(''server'', ''upstream must be public'')]
      else err_if (forcedConflict (eo_ip_version ob) (eo_server ob)) (''server'', ''family conflict''))
     @ err_if (eo_port ob < 1 \<or> eo_port ob > 65535) (''port'', ''port out of range'')
     @ err_if (eo_wireguard ob \<noteq> None) (''wireguard'', ''only for wireguard'')"

definition credentials_ok :: "string \<Rightarrow> bool" where
  "credentials_ok s \<longleftrightarrow> length s \<le> 255 \<and> \<not> has_break s"

definition ss_password_errors :: "EgressOutbound \<Rightarrow> field_errors" where
  "ss_password_errors ob =
     (case ss2022KeySize (eo_method ob) of
        Some ksize \<Rightarrow>
          (let parts = go_split (CHR '':'') (eo_password ob);
               ok = length parts \<le> 2 \<and>
                 list_all (\<lambda>p. case b64_std_decode p of None \<Rightarrow> False | Some b \<Rightarrow> length b = ksize) parts
           in err_if (\<not> ok) (''password'', ''ss2022 key''))
      | None \<Rightarrow>
          if eo_method ob \<notin> ssAEADMethods then [(''method'', ''ss method'')]
          else err_if (eo_password ob = [] \<or> length (eo_password ob) > 256 \<or> has_break (eo_password ob))
                 (''password'', ''ss password''))"

definition reality_errors :: "EgressReality option \<Rightarrow> field_errors" where
  "reality_errors orl =
     (case orl of
        None \<Rightarrow> [(''reality'', ''reality required'')]
      | Some r \<Rightarrow>
          err_if (\<not> hostnameRe (er_server_name r) \<or> net_parse_ip (er_server_name r) \<noteq> None
                  \<or> length (er_server_name r) > 253) (''reality.server_name'', ''must be a name'')
          @ err_if (\<not> decodeKey32 (er_public_key r) True) (''reality.public_key'', ''32 byte key'')
          @ err_if (\<not> shortIDRe (er_short_id r) \<or> odd (length (er_short_id r))) (''reality.short_id'', ''even hex'')
          @ err_if (er_fingerprint r \<noteq> [] \<and> er_fingerprint r \<notin> realityFingerprints)
              (''reality.fingerprint'', ''fingerprint''))"

definition wireguard_endpoint_errors :: "nat \<Rightarrow> string \<Rightarrow> string \<Rightarrow> field_errors" where
  "wireguard_endpoint_errors i field ep =
     (if ep = [] then []
      else let (host, port) = (case split_host_port ep of None \<Rightarrow> ([], []) | Some hp \<Rightarrow> hp) in
        if split_host_port ep = None \<or> (case go_atoi port of None \<Rightarrow> True | Some p \<Rightarrow> p < 1 \<or> p > 65535)
           \<or> \<not> validUpstreamHost host
        then [(field, ''endpoint must be public host:port'')]
        else let lit = parse_addr host; is4 = (case lit of None \<Rightarrow> False | Some a \<Rightarrow> addr_is4 (addr_unmap a)) in
          err_if (i = 1 \<and> (lit = None \<or> \<not> is4) \<or> i = 2 \<and> (lit = None \<or> is4)) (field, ''endpoint family''))"

definition interface_ok :: "bool \<Rightarrow> string \<Rightarrow> bool" where
  "interface_ok v4 s = (case parsePrefix s of None \<Rightarrow> False | Some p \<Rightarrow> addr_is4 (pfx_addr p) = v4)"

definition wireguard_errors :: "EgressOutbound \<Rightarrow> EgressWireGuard \<Rightarrow> field_errors" where
  "wireguard_errors ob w =
     (let bad4 = wg_address_v4 w \<noteq> [] \<and> \<not> interface_ok True (wg_address_v4 w);
          bad6 = wg_address_v6 w \<noteq> [] \<and> \<not> interface_ok False (wg_address_v6 w);
          v4 = (wg_address_v4 w \<noteq> [] \<and> \<not> bad4); v6 = (wg_address_v6 w \<noteq> [] \<and> \<not> bad6)
      in err_if (eo_server ob \<noteq> [] \<or> eo_port ob \<noteq> 0 \<or> eo_username ob \<noteq> [] \<or> eo_password ob \<noteq> [] \<or> eo_method ob \<noteq> []
                 \<or> eo_uuid ob \<noteq> [] \<or> eo_flow ob \<noteq> [] \<or> eo_reality ob \<noteq> None) (''type'', ''wireguard fields only'')
         @ err_if (\<not> decodeKey32 (wg_private_key w) False) (''wireguard.private_key'', ''32 byte key'')
         @ err_if (\<not> decodeKey32 (wg_peer_public_key w) False) (''wireguard.peer_public_key'', ''32 byte key'')
         @ err_if bad4 (''wireguard.address_v4'', ''invalid'')
         @ err_if bad6 (''wireguard.address_v6'', ''invalid'')
         @ err_if (\<not> v4 \<and> \<not> v6) (''wireguard.address_v4'', ''one address required'')
         @ err_if (eo_ip_version ob = ''force_ipv4'' \<and> wg_address_v4 w = []) (''wireguard.address_v4'', ''needs IPv4'')
         @ err_if (eo_ip_version ob = ''force_ipv6'' \<and> wg_address_v6 w = []) (''wireguard.address_v6'', ''needs IPv6'')
         @ err_if (length (wg_reserved w) \<noteq> 0 \<and> length (wg_reserved w) \<noteq> 3) (''wireguard.reserved'', ''3 bytes'')
         @ err_if (list_ex (\<lambda>b. b < 0 \<or> b > 255) (wg_reserved w)) (''wireguard.reserved'', ''3 bytes'')
         @ err_if (wg_mtu w \<noteq> 0 \<and> (wg_mtu w < 1280 \<or> wg_mtu w > 1500)) (''wireguard.mtu'', ''mtu'')
         @ wireguard_endpoint_errors 0 ''wireguard.endpoint'' (wg_endpoint w)
         @ wireguard_endpoint_errors 1 ''wireguard.endpoint_v4'' (wg_endpoint_v4 w)
         @ wireguard_endpoint_errors 2 ''wireguard.endpoint_v6'' (wg_endpoint_v6 w))"

definition validateOutbound :: "EgressOutbound \<Rightarrow> field_errors" where
  "validateOutbound ob =
     err_if (eo_ip_version ob \<notin> egressIPVersions) (''ip_version'', ''ip version'')
     @ (if eo_type ob = ''direct'' then
          err_if (eo_server ob \<noteq> [] \<or> eo_port ob \<noteq> 0 \<or> eo_username ob \<noteq> [] \<or> eo_password ob \<noteq> [] \<or> eo_method ob \<noteq> []
                  \<or> eo_uuid ob \<noteq> [] \<or> eo_flow ob \<noteq> [] \<or> eo_reality ob \<noteq> None \<or> eo_wireguard ob \<noteq> None)
            (''type'', ''direct has no upstream'')
        else if eo_type ob = ''socks'' \<or> eo_type ob = ''http'' then
          proxy_errors ob
          @ err_if (\<not> credentials_ok (eo_username ob) \<or> \<not> credentials_ok (eo_password ob)) (''password'', ''credentials'')
          @ err_if (eo_method ob \<noteq> [] \<or> eo_uuid ob \<noteq> [] \<or> eo_flow ob \<noteq> [] \<or> eo_reality ob \<noteq> None)
              (''type'', ''other protocol fields'')
        else if eo_type ob = ''shadowsocks'' then
          proxy_errors ob @ ss_password_errors ob
          @ err_if (eo_username ob \<noteq> [] \<or> eo_uuid ob \<noteq> [] \<or> eo_flow ob \<noteq> [] \<or> eo_reality ob \<noteq> None)
              (''type'', ''other protocol fields'')
        else if eo_type ob = ''vless'' then
          proxy_errors ob
          @ err_if (\<not> uuidRe (eo_uuid ob)) (''uuid'', ''uuid'')
          @ err_if (eo_flow ob \<noteq> [] \<and> eo_flow ob \<noteq> ''xtls-rprx-vision'') (''flow'', ''flow'')
          @ reality_errors (eo_reality ob)
          @ err_if (eo_username ob \<noteq> [] \<or> eo_password ob \<noteq> [] \<or> eo_method ob \<noteq> []) (''type'', ''other protocol fields'')
        else if eo_type ob = ''wireguard'' then
          (case eo_wireguard ob of
             None \<Rightarrow> [(''wireguard'', ''wireguard required'')]
           | Some w \<Rightarrow> wireguard_errors ob w)
        else [(''type'', ''unknown type'')])"

section \<open>The plan\<close>

definition EgressVersion :: int where "EgressVersion = 1"
definition MaxEgressOutbounds :: int where "MaxEgressOutbounds = 8"
definition MaxEgressRules :: int where "MaxEgressRules = 128"
definition MaxEgressItems :: int where "MaxEgressItems = 4000"
definition MaxEgressExempt :: int where "MaxEgressExempt = 1024"
definition MaxRuleGeoBytes :: int where "MaxRuleGeoBytes = 2621440"
definition MaxPlanGeoBytes :: int where "MaxPlanGeoBytes = 3145728"

definition plan_error :: "string \<Rightarrow> string \<Rightarrow> ValidationError" where
  "plan_error field msg = \<lparr> ve_node_id = [], ve_field = field, ve_message = msg \<rparr>"

definition indexed :: "string \<Rightarrow> nat \<Rightarrow> string" where
  "indexed path i = path @ ''['' @ go_itoa (int i) @ '']''"

definition at_each :: "(nat \<Rightarrow> 'a \<Rightarrow> 'e list) \<Rightarrow> 'a list \<Rightarrow> 'e list" where
  "at_each f xs = concat (map (\<lambda>(i, x). f i x) (enumerate 0 xs))"

text \<open>The loop over the outbounds, with the tags known so far.\<close>

fun outbound_errors :: "string set \<Rightarrow> nat \<Rightarrow> EgressOutbound list \<Rightarrow> string set \<times> ValidationError list" where
  "outbound_errors tags i [] = (tags, [])"
| "outbound_errors tags i (ob # obs) =
     (let path = indexed ''egress.outbounds'' i;
          tag_errs = (if \<not> outboundTagRe (eo_tag ob) then [plan_error (path @ ''.tag'') ''tag format'']
                      else err_if (eo_tag ob \<in> tags) (plan_error (path @ ''.tag'') ''duplicate tag''));
          own = map (\<lambda>(f, m). plan_error (path @ ''.'' @ f) (eo_tag ob @ '': '' @ m)) (validateOutbound ob);
          (tags', rest) = outbound_errors (insert (eo_tag ob) tags) (Suc i) obs
      in (tags', tag_errs @ own @ rest))"

definition sum_geo :: "geo_table \<times> geo_table \<Rightarrow> string list \<Rightarrow> int" where
  "sum_geo tabs es = sum_list (map (\<lambda>v. snd (GeoEntry tabs v)) es)"

definition rule_geo :: "geo_table \<times> geo_table \<Rightarrow> EgressRule \<Rightarrow> int" where
  "rule_geo tabs r = sum_geo tabs (rule_domain r) + sum_geo tabs (rule_ip r) + sum_geo tabs (rule_source_ip r)"

definition rule_items :: "EgressRule \<Rightarrow> nat" where
  "rule_items r = length (rule_domain r) + length (rule_ip r) + length (rule_source_ip r) + length (rule_protocol r)
     + (case validPortSpec (rule_port r) of None \<Rightarrow> 0 | Some n \<Rightarrow> n)
     + (case validPortSpec (rule_source_port r) of None \<Rightarrow> 0 | Some n \<Rightarrow> n)"

definition entry_error :: "string \<Rightarrow> string \<Rightarrow> ValidationError list" where
  "entry_error field msg = err_if (msg \<noteq> []) (plan_error field msg)"

definition rule_errors ::
  "geo_table \<times> geo_table \<Rightarrow> (string \<Rightarrow> bool) \<Rightarrow> string set \<Rightarrow> string set \<Rightarrow> bool \<Rightarrow> bool \<Rightarrow> nat \<Rightarrow> EgressRule \<Rightarrow> ValidationError list"
where
  "rule_errors tabs rx nodeTags tags geoip geosite i r =
     (let path = indexed ''egress.rules'' i in
      err_if (rule_inbound_tags r = []) (plan_error (path @ ''.inbound_tags'') ''node required'')
      @ (if int (length (rule_inbound_tags r)) > MaxNodes then [plan_error (path @ ''.inbound_tags'') ''too many nodes'']
         else at_each (\<lambda>j t. err_if (t \<notin> nodeTags) (plan_error (indexed (path @ ''.inbound_tags'') j) ''not a node of this share''))
                (rule_inbound_tags r))
      @ err_if (rule_outbound r \<notin> tags) (plan_error (path @ ''.outbound'') ''no such outbound'')
      @ err_if (length (rule_name r) > 256) (plan_error (path @ ''.name'') ''name too long'')
      @ at_each (\<lambda>j d. entry_error (indexed (path @ ''.domain'') j) (validDomainEntry tabs rx d geosite)) (rule_domain r)
      @ at_each (\<lambda>j v. entry_error (indexed (path @ ''.ip'') j) (validIPEntry tabs v geoip)) (rule_ip r)
      @ at_each (\<lambda>j v. entry_error (indexed (path @ ''.source_ip'') j) (validIPEntry tabs v geoip)) (rule_source_ip r)
      @ err_if (validPortSpec (rule_port r) = None) (plan_error (path @ ''.port'') ''port format'')
      @ err_if (validPortSpec (rule_source_port r) = None) (plan_error (path @ ''.source_port'') ''port format'')
      @ err_if (rule_network r \<notin> set [[], ''tcp'', ''udp'', ''tcp,udp'']) (plan_error (path @ ''.network'') ''network'')
      @ at_each (\<lambda>j p. err_if (p \<notin> egressProtocols) (plan_error (indexed (path @ ''.protocol'') j) ''protocol'')) (rule_protocol r)
      @ err_if (rule_geo tabs r > MaxRuleGeoBytes) (plan_error path ''geo too large''))"

definition size_errors :: "Egress \<Rightarrow> ValidationError list" where
  "size_errors e =
     err_if (int (length (eg_outbounds e)) > MaxEgressOutbounds) (plan_error ''egress.outbounds'' ''too many outbounds'')
     @ err_if (int (length (eg_rules e)) > MaxEgressRules) (plan_error ''egress.rules'' ''too many rules'')
     @ err_if (int (length (eg_exempt_sources e)) > MaxEgressExempt) (plan_error ''egress.exempt_sources'' ''too many sources'')"

definition ValidateEgress ::
  "geo_table \<times> geo_table \<Rightarrow> (string \<Rightarrow> bool) \<Rightarrow> Egress option \<Rightarrow> string set \<Rightarrow> bool \<Rightarrow> bool \<Rightarrow> ValidationError list"
where
  "ValidateEgress tabs rx oe nodeTags geoip geosite =
     (case oe of
        None \<Rightarrow> []
      | Some e \<Rightarrow>
          if eg_version e \<noteq> EgressVersion then [plan_error ''egress.version'' ''version'']
          else if size_errors e \<noteq> [] then size_errors e
          else
            (let (tags, outbound_errs) = outbound_errors {''direct'', ''block''} 0 (eg_outbounds e)
             in outbound_errs
                @ at_each (rule_errors tabs rx nodeTags tags geoip geosite) (eg_rules e)
                @ err_if (int (sum_list (map rule_items (eg_rules e))) > MaxEgressItems) (plan_error ''egress.rules'' ''too many items'')
                @ err_if (sum_list (map (rule_geo tabs) (eg_rules e)) > MaxPlanGeoBytes) (plan_error ''egress.rules'' ''geo too large'')
                @ at_each (\<lambda>i s. err_if (parsePrefix s = None) (plan_error (indexed ''egress.exempt_sources'' i) ''exempt source''))
                    (eg_exempt_sources e)))"

section \<open>What an accepted plan guarantees\<close>

lemma err_if_simps [simp]: "err_if c e = [] \<longleftrightarrow> \<not> c"
  by (simp add: err_if_def)

lemma at_each_empty [simp]: "at_each f xs = [] \<longleftrightarrow> (\<forall>i < length xs. f i (xs ! i) = [])"
proof -
  have "concat (map (\<lambda>(i, x). f i x) (enumerate n xs)) = [] \<longleftrightarrow> (\<forall>i < length xs. f (n + i) (xs ! i) = [])" for n
    by (induction xs arbitrary: n) (auto simp: All_less_Suc2)
  from this [of 0] show ?thesis by (simp add: at_each_def)
qed

lemma entry_error_empty [simp]: "entry_error f m = [] \<longleftrightarrow> m = []"
  by (auto simp: entry_error_def)

lemma all_nth_set: "(\<forall>i < length xs. P (xs ! i)) \<longleftrightarrow> (\<forall>x \<in> set xs. P x)"
  by (metis in_set_conv_nth)

lemma outbound_errors_tags: "fst (outbound_errors tags i obs) = tags \<union> eo_tag ` set obs"
  by (induction tags i obs rule: outbound_errors.induct) (auto simp: Let_def split: prod.splits)

lemma outbound_errors_empty:
  "snd (outbound_errors tags i obs) = [] \<Longrightarrow>
     distinct (map eo_tag obs) \<and> eo_tag ` set obs \<inter> tags = {}
     \<and> (\<forall>ob \<in> set obs. outboundTagRe (eo_tag ob) \<and> validateOutbound ob = [])"
proof (induction tags i obs rule: outbound_errors.induct)
  case (2 tags i ob obs)
  have here: "outboundTagRe (eo_tag ob)" "eo_tag ob \<notin> tags" "validateOutbound ob = []"
    "snd (outbound_errors (insert (eo_tag ob) tags) (Suc i) obs) = []"
    using "2.prems" by (auto simp: Let_def split: prod.splits if_splits)
  then show ?case using "2.IH" [OF refl refl refl] by auto
qed simp

text \<open>The destination of every upstream of an accepted outbound.\<close>

definition upstream_hosts :: "EgressOutbound \<Rightarrow> string list" where
  "upstream_hosts ob =
     (if eo_type ob \<in> set [''socks'', ''http'', ''shadowsocks'', ''vless''] then [eo_server ob]
      else case eo_wireguard ob of
        None \<Rightarrow> []
      | Some w \<Rightarrow> concat (map (\<lambda>ep. case split_host_port ep of None \<Rightarrow> [] | Some (h, _) \<Rightarrow> [h])
                    (filter (\<lambda>ep. ep \<noteq> []) [wg_endpoint w, wg_endpoint_v4 w, wg_endpoint_v6 w])))"

lemma proxy_errors_host: "proxy_errors ob = [] \<Longrightarrow> validUpstreamHost (eo_server ob)"
  by (auto simp: proxy_errors_def split: if_splits)

lemma endpoint_host:
  "wireguard_endpoint_errors i f ep = [] \<Longrightarrow> ep \<noteq> [] \<Longrightarrow> split_host_port ep = Some (h, p) \<Longrightarrow> validUpstreamHost h"
  by (auto simp: wireguard_endpoint_errors_def Let_def split: if_splits)

lemma accepted_upstreams:
  assumes "validateOutbound ob = []" and "h \<in> set (upstream_hosts ob)"
  shows "validUpstreamHost h"
proof (cases "eo_type ob \<in> set [''socks'', ''http'', ''shadowsocks'', ''vless'']")
  case True
  then have "proxy_errors ob = []" using assms(1) by (auto simp: validateOutbound_def)
  then show ?thesis using True assms(2) proxy_errors_host by (auto simp: upstream_hosts_def)
next
  case False
  then obtain w where w: "eo_wireguard ob = Some w"
    using assms(2) by (cases "eo_wireguard ob") (auto simp: upstream_hosts_def)
  then have "eo_type ob = ''wireguard''"
    using False assms(1) by (auto simp: validateOutbound_def split: if_splits)
  then have "wireguard_errors ob w = []" using assms(1) w by (simp add: validateOutbound_def)
  then have "wireguard_endpoint_errors 0 ''wireguard.endpoint'' (wg_endpoint w) = []"
    "wireguard_endpoint_errors 1 ''wireguard.endpoint_v4'' (wg_endpoint_v4 w) = []"
    "wireguard_endpoint_errors 2 ''wireguard.endpoint_v6'' (wg_endpoint_v6 w) = []"
    by (simp_all add: wireguard_errors_def Let_def)
  then show ?thesis
    using assms(2) w False by (auto simp: upstream_hosts_def split: if_splits option.splits intro: endpoint_host dest!: sym [of "Some _"])
qed

text \<open>Port lists: the ports that a spec selects.\<close>

definition part_ports :: "string \<Rightarrow> int set" where
  "part_ports part =
     (let (lo, hi, ranged) = go_cut part (CHR ''-'')
      in case (go_atoi lo, go_atoi hi) of
           (Some a, Some b) \<Rightarrow> if ranged then {a..b} else {a}
         | (Some a, None) \<Rightarrow> {a}
         | _ \<Rightarrow> {})"

lemma port_part_range: "port_part_ok part \<Longrightarrow> part_ports part \<noteq> {} \<and> part_ports part \<subseteq> {1..65535}"
proof -
  assume ok: "port_part_ok part"
  obtain lo hi ranged where cut: "go_cut part (CHR ''-'') = (lo, hi, ranged)" by (cases "go_cut part (CHR ''-'')")
  obtain a where a: "go_atoi lo = Some a" "1 \<le> a" "a \<le> 65535"
    using ok cut by (cases "go_atoi lo") (auto simp: port_part_ok_def split: if_splits)
  show ?thesis
  proof (cases ranged)
    case True
    then obtain b where "go_atoi hi = Some b" "a \<le> b" "b \<le> 65535"
      using ok cut a by (cases "go_atoi hi") (auto simp: port_part_ok_def split: if_splits)
    then show ?thesis using True cut a by (simp add: part_ports_def)
  next
    case False
    then have "part_ports part = {a}" using cut a by (simp add: part_ports_def split: option.split)
    then show ?thesis using a by simp
  qed
qed

section \<open>Properties\<close>

definition literal_safe :: "string \<Rightarrow> bool" where
  "literal_safe h \<longleftrightarrow>
     (case parse_addr h of
        None \<Rightarrow> hostnameRe h
      | Some a \<Rightarrow> addr_zone (addr_unmap a) = [] \<longrightarrow>
          addr_elem (addr_unmap a) \<notin> blocked_elems \<and> \<not> addr_is_unspecified (addr_unmap a))"

lemma validUpstreamHost_safe: "validUpstreamHost h \<Longrightarrow> literal_safe h"
  by (auto simp: validUpstreamHost_def literal_safe_def BlockedAddr_def Let_def in_block_list_elems split: option.splits)


definition ex_outbound :: EgressOutbound where
  "ex_outbound = \<lparr> eo_tag = ''flvxo-a'', eo_type = ''socks'', eo_ip_version = ''system'', eo_server = ''8.8.8.8'',
     eo_port = 1080, eo_username = [], eo_password = [], eo_method = [], eo_uuid = [], eo_flow = [],
     eo_reality = None, eo_wireguard = None \<rparr>"

definition ex_rule :: EgressRule where
  "ex_rule = \<lparr> rule_name = ''r'', rule_inbound_tags = [''flvxl-1''], rule_domain = [''full:a.b''], rule_ip = [],
     rule_port = ''443,8000-9000'', rule_source_ip = [''10.0.0.0/8''], rule_source_port = [], rule_network = ''tcp'',
     rule_protocol = [''tls''], rule_outbound = ''flvxo-a'' \<rparr>"

definition ex_plan :: Egress where
  "ex_plan = \<lparr> eg_version = 1, eg_outbounds = [ex_outbound], eg_rules = [ex_rule], eg_exempt_sources = [''10.1.0.0/16''] \<rparr>"

definition no_geo :: "geo_table \<times> geo_table" where
  "no_geo = (Map.empty, Map.empty)"

lemma ex_plan_valid: "ValidateEgress no_geo (\<lambda>_. True) (Some ex_plan) {''flvxl-1''} False False = []"
  by code_simp


text \<open>
  a zone opens the block list. \<open>validUpstreamHost\<close> accepts the
  loopback, link-local and unique local addresses when they carry a zone,
  because \<open>netip.Prefix.Contains\<close> is false for them, although the same
  addresses without a zone are refused.
\<close>

theorem zone_bypasses_block_list:
  "validUpstreamHost ''::1%lo'' \<and> \<not> validUpstreamHost ''::1''
   \<and> validUpstreamHost ''fe80::1%eth0'' \<and> \<not> validUpstreamHost ''fe80::1''
   \<and> validUpstreamHost ''fd00::1%eth0'' \<and> \<not> validUpstreamHost ''fd00::1''"
  by code_simp

end
