(* ===== verification/Go_Time.thy ===== *)
theory Go_Time
  imports Go_Text
begin

text \<open>
  The calendar of package time (proleptic Gregorian): the date of a day number
  and back. Day 0 is 0001-01-01, the day of Go's zero time. \<open>date_of_day\<close>
  estimates the year from the mean length and corrects it by one, then walks
  over the months; the lemmas show that it inverts \<open>day_of_date\<close>.
\<close>

definition leap_year :: "int \<Rightarrow> bool" where
  "leap_year y \<longleftrightarrow> y mod 4 = 0 \<and> (y mod 100 \<noteq> 0 \<or> y mod 400 = 0)"

text \<open>Days before January 1 of a year.\<close>

definition year_start :: "int \<Rightarrow> int" where
  "year_start y = 365 * (y - 1) + (y - 1) div 4 - (y - 1) div 100 + (y - 1) div 400"

definition month_days :: "int \<Rightarrow> int \<Rightarrow> int" where
  "month_days y m =
     (if m = 2 then if leap_year y then 29 else 28
      else if m \<in> {4, 6, 9, 11} then 30 else 31)"

fun month_start :: "int \<Rightarrow> nat \<Rightarrow> int" where
  "month_start y 0 = 0"
| "month_start y (Suc k) = month_start y k + month_days y (int k + 1)"

text \<open>\<open>month_start y k\<close> is the day of the year on which month \<open>k + 1\<close> starts.\<close>

definition day_of_date :: "int \<Rightarrow> int \<Rightarrow> int \<Rightarrow> int" where
  "day_of_date y m d = year_start y + month_start y (nat (m - 1)) + (d - 1)"

definition year_of_day :: "int \<Rightarrow> int" where
  "year_of_day n =
     (let y = n * 400 div 146097 + 1
      in if n < year_start y then y - 1 else if year_start (y + 1) \<le> n then y + 1 else y)"

definition month_of :: "int \<Rightarrow> int \<Rightarrow> int" where
  "month_of y r = int (length (filter (\<lambda>k. month_start y k \<le> r) [0..<12]))"

definition date_of_day :: "int \<Rightarrow> int \<times> int \<times> int" where
  "date_of_day n =
     (let y = year_of_day n; r = n - year_start y; m = month_of y r
      in (y, m, r - month_start y (nat (m - 1)) + 1))"

text \<open>\<open>time.Date\<close> normalises a month outside 1..12.\<close>

definition norm_month :: "int \<Rightarrow> int \<Rightarrow> int \<times> int" where
  "norm_month y m = (y + (m - 1) div 12, (m - 1) mod 12 + 1)"

text \<open>The layout \<open>2006-01-02\<close>.\<close>

definition pad :: "nat \<Rightarrow> string \<Rightarrow> string" where
  "pad n s = replicate (n - length s) (CHR ''0'') @ s"

definition format_date :: "int \<times> int \<times> int \<Rightarrow> string" where
  "format_date = (\<lambda>(y, m, d). pad 4 (go_itoa y) @ ''-'' @ pad 2 (go_itoa m) @ ''-'' @ pad 2 (go_itoa d))"

section \<open>The year of a day\<close>

lemma div_step:
  assumes "0 < (c :: int)"
  shows "y div c = (y - 1) div c + (if y mod c = 0 then 1 else 0)"
proof (cases "y mod c = 0")
  case True
  then have "y = c * (y div c)" using div_mult_mod_eq [of y c] by (simp add: mult.commute)
  then have "(y - 1) div c = y div c - 1"
    using assms by (intro int_div_pos_eq [where r = "c - 1"]) (simp_all add: algebra_simps)
  then show ?thesis using True by simp
next
  case False
  have "0 \<le> y mod c" "y mod c < c" "y = c * (y div c) + y mod c" using assms by simp_all
  then have "(y - 1) div c = y div c"
    using False by (intro int_div_pos_eq [where r = "y mod c - 1"]) auto
  then show ?thesis using False by simp
qed

lemma year_start_sum:
  fixes y :: int
  assumes "a4 = b4 + e4" and "a100 = b100 + e100" and "a400 = b400 + e400"
  shows "365 * y + a4 - a100 + a400 = 365 * (y - 1) + b4 - b100 + b400 + (365 + e4 - e100 + e400)"
  using assms by simp

lemma year_start_Suc: "year_start (y + 1) = year_start y + (if leap_year y then 366 else 365)"
proof -
  have "year_start (y + 1) = year_start y +
      (365 + (if y mod 4 = 0 then 1 else 0) - (if y mod 100 = 0 then 1 else 0) + (if y mod 400 = 0 then 1 else 0))"
    unfolding year_start_def add_diff_cancel_right'
    by (rule year_start_sum; rule div_step; rule zero_less_numeral)
  moreover have "y mod 100 = 0 \<Longrightarrow> y mod 4 = 0" by presburger
  moreover have "y mod 400 = 0 \<Longrightarrow> y mod 100 = 0" by presburger
  ultimately show ?thesis
    by (cases "y mod 400 = 0"; cases "y mod 100 = 0"; cases "y mod 4 = 0") (simp_all only: leap_year_def if_True if_False simp_thms, simp_all)
qed

lemma div_bounds:
  assumes "0 < (c :: int)"
  shows "c * (n div c) \<le> n \<and> n \<le> c * (n div c) + (c - 1)"
proof -
  have "c * (n div c) = n - n mod c" by (rule minus_mod_eq_mult_div [symmetric])
  moreover have "0 \<le> n mod c" "n mod c < c" using assms by (rule pos_mod_sign, rule pos_mod_bound)
  moreover have "a = n - r \<Longrightarrow> 0 \<le> r \<Longrightarrow> r < c \<Longrightarrow> a \<le> n \<and> n \<le> a + (c - 1)" for a r
    by linarith
  ultimately show ?thesis by blast
qed

lemma year_start_bounds:
  "146097 * (y - 1) - 699 \<le> 400 * year_start y" "400 * year_start y \<le> 146097 * (y - 1) + 396"
proof -
  define n where "n = y - 1"
  note div_bounds [of 4 n] div_bounds [of 100 n] div_bounds [of 400 n]
  then show "146097 * (y - 1) - 699 \<le> 400 * year_start y" "400 * year_start y \<le> 146097 * (y - 1) + 396"
    by (simp_all add: year_start_def n_def [symmetric])
qed

lemma year_of_day_correct: "year_start (year_of_day n) \<le> n \<and> n < year_start (year_of_day n + 1)"
proof -
  define y where "y = n * 400 div 146097 + 1"
  have y: "146097 * (y - 1) \<le> n * 400" "n * 400 < 146097 * (y - 1) + 146097"
    by (auto simp: y_def)
  have "year_start (y - 1) \<le> n" using year_start_bounds(2) [of "y - 1"] y by (simp add: algebra_simps)
  moreover have "n < year_start (y + 2)" using year_start_bounds(1) [of "y + 2"] y by (simp add: algebra_simps)
  ultimately show ?thesis by (auto simp: year_of_day_def y_def [symmetric] Let_def add.assoc)
qed

lemma year_start_mono: "y \<le> z \<Longrightarrow> year_start y \<le> year_start z"
proof (induction z rule: int_ge_induct)
  case (step z)
  then show ?case using year_start_Suc [of z] by (auto split: if_splits)
qed simp

lemma year_of_day_unique:
  assumes "year_start y \<le> n" and "n < year_start (y + 1)"
  shows "year_of_day n = y"
proof (rule ccontr)
  assume "year_of_day n \<noteq> y"
  then consider "year_of_day n + 1 \<le> y" | "y + 1 \<le> year_of_day n" by linarith
  then show False
    using year_start_mono year_of_day_correct [of n] assms by cases fastforce+
qed

section \<open>The month of a day\<close>

lemma month_days_bounds: "28 \<le> month_days y m" "month_days y m \<le> 31"
  by (auto simp: month_days_def)

lemma month_start_12: "month_start y 12 = (if leap_year y then 366 else 365)"
  by (simp add: eval_nat_numeral month_days_def)

lemma month_start_mono: "j \<le> k \<Longrightarrow> month_start y j \<le> month_start y k"
  by (rule lift_Suc_mono_le [of "month_start y"]) (use month_days_bounds(1) [of y] in \<open>auto intro: order_trans [of 0 28]\<close>)

lemma filter_downset:
  assumes "\<And>j k. j \<le> k \<Longrightarrow> P k \<Longrightarrow> P j" and "P k" and "\<not> P (Suc k)" and "k < n"
  shows "length (filter P [0..<n]) = Suc k"
proof -
  have "filter P [0..<Suc k] = [0..<Suc k]" using assms(1) [OF _ assms(2)] by (intro filter_True) auto
  moreover have "filter P [Suc k..<n] = []" using assms(1,3) by (auto simp: filter_empty_conv)
  moreover have "[0..<n] = [0..<Suc k] @ [Suc k..<n]"
    using upt_add_eq_append [of 0 "Suc k" "n - Suc k"] assms(4) by simp
  ultimately show ?thesis by (metis append_Nil2 diff_zero filter_append length_upt)
qed

lemma month_of_eq:
  assumes "month_start y k \<le> r" and "r < month_start y (Suc k)" and "k < 12"
  shows "month_of y r = int k + 1"
proof -
  have "length (filter (\<lambda>k. month_start y k \<le> r) [0..<12]) = Suc k"
    using assms by (intro filter_downset) (auto intro: order_trans month_start_mono)
  then show ?thesis by (simp add: month_of_def)
qed

lemma month_exists:
  assumes "0 \<le> r" and "r < month_start y 12"
  obtains k where "k < 12" "month_start y k \<le> r" "r < month_start y (Suc k)"
proof -
  have "\<exists>k < n. month_start y k \<le> r \<and> r < month_start y (Suc k)" if "r < month_start y n" for n
    using that
  proof (induction n)
    case 0
    then show ?case using assms(1) by simp
  next
    case (Suc n)
    show ?case
    proof (cases "r < month_start y n")
      case True
      then show ?thesis using Suc.IH by (meson less_SucI)
    next
      case False
      then show ?thesis using Suc.prems by (intro exI [of _ n]) (simp del: month_start.simps)
    qed
  qed
  then show thesis using that assms(2) by blast
qed

text \<open>\<open>date_of_day\<close> and \<open>day_of_date\<close> are inverse to each other.\<close>

definition valid_date :: "int \<Rightarrow> int \<Rightarrow> int \<Rightarrow> bool" where
  "valid_date y m d \<longleftrightarrow> 1 \<le> m \<and> m \<le> 12 \<and> 1 \<le> d \<and> d \<le> month_days y m"

lemma date_of_day_correct:
  assumes "date_of_day n = (y, m, d)"
  shows "day_of_date y m d = n" and "valid_date y m d"
proof -
  have y: "y = year_of_day n" using assms by (simp add: date_of_day_def Let_def)
  define r where "r = n - year_start y"
  have r: "0 \<le> r" "r < month_start y 12"
    using year_of_day_correct [of n] year_start_Suc [of y]
    by (auto simp: r_def y month_start_12)
  then obtain k where k: "k < 12" "month_start y k \<le> r" "r < month_start y (Suc k)" by (rule month_exists)
  then have md: "m = int k + 1" "d = r - month_start y k + 1"
    using assms month_of_eq [OF k(2,3,1)] by (auto simp: date_of_day_def Let_def y [symmetric] r_def [symmetric])
  then show "day_of_date y m d = n" by (simp add: day_of_date_def r_def)
  show "valid_date y m d" using k md by (simp add: valid_date_def)
qed

lemma day_of_date_inverse:
  assumes "valid_date y m d"
  shows "date_of_day (day_of_date y m d) = (y, m, d)"
proof -
  define k where "k = nat (m - 1)"
  have k: "k < 12" "m = int k + 1" using assms by (auto simp: k_def valid_date_def)
  let ?r = "month_start y k + (d - 1)"
  have r: "month_start y k \<le> ?r" "?r < month_start y (Suc k)"
    using assms k by (auto simp: valid_date_def)
  have "month_start y (Suc k) \<le> month_start y 12" "month_start y 0 \<le> month_start y k"
    using k by (intro month_start_mono; simp)+
  then have "year_of_day (year_start y + ?r) = y"
    using r year_start_Suc [of y] month_start_12 [of y] by (intro year_of_day_unique) auto
  then show ?thesis
    using month_of_eq [OF r k(1)] k by (simp add: date_of_day_def day_of_date_def Let_def add.assoc)
qed

end
