(* ===== verification/Counters.thy ===== *)
theory Counters
  imports Flvx_Types Go_Time
begin

text \<open>
  The accounting of \<open>internal/flvx/types.go\<close>: what a run of raw readings adds
  to a \<open>Counter\<close>, the start of the quota month (\<open>Period\<close>), and the life of a
  signed envelope. Byte totals only grow and saturate at \<open>math.MaxInt64\<close>; the
  month that contains a moment starts at most that day and ends after it.
\<close>

section \<open>The quota month\<close>

definition day_nanos :: int where
  "day_nanos = 24 * hour"

text \<open>\<open>now.In(Asia/Taipei).Date()\<close>; the zone is eight hours ahead.\<close>

definition local_day :: "time \<Rightarrow> int" where
  "local_day t = (t + 8 * hour) div day_nanos"

definition midnight :: "int \<Rightarrow> time" where
  "midnight n = n * day_nanos - 8 * hour"

text \<open>\<open>time.Date(y, m+1, 0, ...).Day()\<close>: the day before the first of the next month.\<close>

definition last_day :: "int \<Rightarrow> int \<Rightarrow> int" where
  "last_day y m =
     (let (y', m') = norm_month y (m + 1); (_, _, d) = date_of_day (day_of_date y' m' 1 - 1) in d)"

definition period_start :: "int \<Rightarrow> int \<Rightarrow> int \<Rightarrow> int \<times> int \<times> int" where
  "period_start day y m =
     (let d = (if day > last_day y m then last_day y m else day); (y', m') = norm_month y m
      in (y', m', d))"

definition date_time :: "int \<times> int \<times> int \<Rightarrow> time" where
  "date_time = (\<lambda>(y, m, d). midnight (day_of_date y m d))"

definition period_date :: "time \<Rightarrow> int \<Rightarrow> int \<times> int \<times> int" where
  "period_date now day0 =
     (let day = (if day0 < 1 \<or> day0 > 31 then 1 else day0);
          (y, m, _) = date_of_day (local_day now);
          t = period_start day y m
      in if now < date_time t then period_start day y (m - 1) else t)"

definition Period :: "time \<Rightarrow> int \<Rightarrow> string" where
  "Period now day = format_date (period_date now day)"

section \<open>Runs of readings\<close>

record Reading =
  rd_epoch :: string
  rd_up :: int
  rd_down :: int

definition merge_reading :: "Counter \<Rightarrow> Reading \<Rightarrow> Counter" where
  "merge_reading c r = fst (Counter_Merge c (rd_epoch r) (rd_up r) (rd_down r))"

fun up_deltas :: "string \<Rightarrow> int \<Rightarrow> Reading list \<Rightarrow> int list" where
  "up_deltas e raw [] = []"
| "up_deltas e raw (r # rs) = Delta raw (rd_up r) (e \<noteq> rd_epoch r) # up_deltas (rd_epoch r) (rd_up r) rs"

definition good_reading :: "Reading \<Rightarrow> bool" where
  "good_reading r \<longleftrightarrow> 0 \<le> rd_up r \<and> rd_up r \<le> max_int64 \<and> 0 \<le> rd_down r \<and> rd_down r \<le> max_int64"

definition good_counter :: "Counter \<Rightarrow> bool" where
  "good_counter c \<longleftrightarrow>
     0 \<le> ctr_up c \<and> ctr_up c \<le> max_int64 \<and> 0 \<le> ctr_down c \<and> ctr_down c \<le> max_int64
     \<and> 0 \<le> ctr_raw_up c \<and> ctr_raw_up c \<le> max_int64 \<and> 0 \<le> ctr_raw_down c \<and> ctr_raw_down c \<le> max_int64"

lemma AddBytes_saturates:
  assumes "0 \<le> a" "a \<le> max_int64" "0 \<le> b" "b \<le> max_int64"
  shows "AddBytes a b = min max_int64 (a + b)"
proof -
  have "i64 (max_int64 - a) = max_int64 - a"
    using assms by (intro i64_id is_int64_nonneg) auto
  moreover have "a + b \<le> max_int64 \<Longrightarrow> i64 (a + b) = a + b"
    using assms by (intro i64_id is_int64_nonneg) auto
  ultimately show ?thesis by (auto simp: AddBytes_def)
qed

lemma Delta_nonneg:
  assumes "0 \<le> previous" "previous \<le> max_int64" "0 \<le> current" "current \<le> max_int64"
  shows "Delta previous current reset = (if reset \<or> current < previous then current else current - previous)"
    and "0 \<le> Delta previous current reset" and "Delta previous current reset \<le> max_int64"
proof -
  have "previous \<le> current \<Longrightarrow> i64 (current - previous) = current - previous"
    using assms by (intro i64_id is_int64_nonneg) auto
  then show "Delta previous current reset = (if reset \<or> current < previous then current else current - previous)"
    using assms by (simp add: Delta_def)
  then show "0 \<le> Delta previous current reset" and "Delta previous current reset \<le> max_int64"
    using assms by auto
qed

lemma merge_reading_good:
  assumes "good_counter c" and "good_reading r"
  shows "good_counter (merge_reading c r)"
    and "ctr_up (merge_reading c r) = min max_int64 (ctr_up c + Delta (ctr_raw_up c) (rd_up r) (ctr_epoch c \<noteq> rd_epoch r))"
    and "ctr_raw_up (merge_reading c r) = rd_up r" and "ctr_epoch (merge_reading c r) = rd_epoch r"
    and "ctr_up c \<le> ctr_up (merge_reading c r)" and "ctr_down c \<le> ctr_down (merge_reading c r)"
proof -
  note c = assms(1) [unfolded good_counter_def] and r = assms(2) [unfolded good_reading_def]
  let ?u = "Delta (ctr_raw_up c) (rd_up r) (ctr_epoch c \<noteq> rd_epoch r)"
    and ?d = "Delta (ctr_raw_down c) (rd_down r) (ctr_epoch c \<noteq> rd_epoch r)"
  have u: "0 \<le> ?u" "?u \<le> max_int64" and d: "0 \<le> ?d" "?d \<le> max_int64"
    using Delta_nonneg(2,3) [of "ctr_raw_up c" "rd_up r"] Delta_nonneg(2,3) [of "ctr_raw_down c" "rd_down r"] c r
    by auto
  have eq: "merge_reading c r = c\<lparr>ctr_up := min max_int64 (ctr_up c + ?u), ctr_down := min max_int64 (ctr_down c + ?d),
      ctr_epoch := rd_epoch r, ctr_raw_up := rd_up r, ctr_raw_down := rd_down r\<rparr>"
    using c u d by (simp add: merge_reading_def Counter_Merge_def Let_def AddBytes_saturates)
  show "good_counter (merge_reading c r)"
    using c r u d by (simp add: eq good_counter_def)
  show "ctr_up (merge_reading c r) = min max_int64 (ctr_up c + ?u)"
    "ctr_raw_up (merge_reading c r) = rd_up r" "ctr_epoch (merge_reading c r) = rd_epoch r"
    by (simp_all add: eq)
  show "ctr_up c \<le> ctr_up (merge_reading c r)" "ctr_down c \<le> ctr_down (merge_reading c r)"
    using c u d by (simp_all add: eq)
qed

lemma up_deltas_nonneg:
  assumes "0 \<le> raw" "raw \<le> max_int64" "list_all good_reading rs"
  shows "0 \<le> sum_list (up_deltas e raw rs)"
  using assms
proof (induction rs arbitrary: e raw)
  case (Cons r rs)
  then show ?case
    using Delta_nonneg(2) [of raw "rd_up r" "e \<noteq> rd_epoch r"] Cons.IH [of "rd_up r" "rd_epoch r"]
    by (auto simp: good_reading_def)
qed simp

lemma counter_run:
  assumes "good_counter c" and "list_all good_reading rs"
  shows "good_counter (foldl merge_reading c rs)
    \<and> ctr_up (foldl merge_reading c rs)
        = min max_int64 (ctr_up c + sum_list (up_deltas (ctr_epoch c) (ctr_raw_up c) rs))
    \<and> ctr_up c \<le> ctr_up (foldl merge_reading c rs) \<and> ctr_down c \<le> ctr_down (foldl merge_reading c rs)"
  using assms
proof (induction rs arbitrary: c)
  case Nil
  then show ?case by (simp add: good_counter_def)
next
  case (Cons r rs)
  let ?c = "merge_reading c r"
  have r: "good_reading r" "list_all good_reading rs" using Cons.prems by auto
  note m = merge_reading_good [OF Cons.prems(1) r(1)]
  note IH = Cons.IH [OF m(1) r(2)]
  have s: "0 \<le> sum_list (up_deltas (rd_epoch r) (rd_up r) rs)"
    using up_deltas_nonneg r by (simp add: good_reading_def)
  then have "min max_int64 (min max_int64 (ctr_up c + Delta (ctr_raw_up c) (rd_up r) (ctr_epoch c \<noteq> rd_epoch r))
        + sum_list (up_deltas (rd_epoch r) (rd_up r) rs))
      = min max_int64 (ctr_up c + (Delta (ctr_raw_up c) (rd_up r) (ctr_epoch c \<noteq> rd_epoch r)
        + sum_list (up_deltas (rd_epoch r) (rd_up r) rs)))" by (auto simp: min_def)
  then show ?case
    using IH m(5,6) s by (auto simp: m(2-4))
qed

text \<open>In one epoch the deltas telescope.\<close>

lemma up_deltas_telescope:
  assumes "list_all (\<lambda>r. rd_epoch r = e) rs" and "sorted (raw # map rd_up rs)" and "0 \<le> raw"
    and "list_all good_reading rs" and "raw \<le> max_int64"
  shows "sum_list (up_deltas e raw rs) = last (raw # map rd_up rs) - raw"
  using assms
proof (induction rs arbitrary: raw)
  case (Cons r rs)
  then have "Delta raw (rd_up r) False = rd_up r - raw"
    using Delta_nonneg(1) [of raw "rd_up r" False] by (auto simp: good_reading_def)
  then show ?case using Cons by (auto simp: good_reading_def)
qed simp

section \<open>The month of a moment\<close>

definition next_month :: "int \<Rightarrow> int \<Rightarrow> int \<times> int" where
  "next_month y m = (if m = 12 then (y + 1, 1) else (y, m + 1))"

definition prev_month :: "int \<Rightarrow> int \<Rightarrow> int \<times> int" where
  "prev_month y m = (if m = 1 then (y - 1, 12) else (y, m - 1))"

lemma norm_month_simps:
  assumes "1 \<le> m" and "m \<le> 12"
  shows "norm_month y m = (y, m)" and "norm_month y (m + 1) = next_month y m" and "norm_month y (m - 1) = prev_month y m"
proof -
  have "(m - 1) div 12 = 0" "(m - 1) mod 12 = m - 1"
    "m div 12 = (if m = 12 then 1 else 0)" "m mod 12 = (if m = 12 then 0 else m)"
    "(m - 2) div 12 = (if m = 1 then -1 else 0)" "(m - 2) mod 12 = (if m = 1 then 11 else m - 2)"
    using assms by (auto simp: div_pos_pos_trivial mod_pos_pos_trivial div_eq_minus1 zmod_minus1 mod_pos_neg_trivial
        intro: int_div_pos_eq int_mod_pos_eq)
  then show "norm_month y m = (y, m)" "norm_month y (m + 1) = next_month y m" "norm_month y (m - 1) = prev_month y m"
    by (auto simp: norm_month_def next_month_def prev_month_def)
qed

lemma next_month_first:
  assumes "1 \<le> m" and "m \<le> 12" and "next_month y m = (y', m')"
  shows "day_of_date y' m' 1 = day_of_date y m 1 + month_days y m"
proof (cases "m = 12")
  case True
  have "month_start y 12 = month_start y 11 + month_days y 12"
    by (simp add: eval_nat_numeral)
  then show ?thesis
    using assms True year_start_Suc [of y] month_start_12 [of y] by (simp add: day_of_date_def next_month_def)
next
  case False
  have "nat m = Suc (nat (m - 1))" using assms(1) by simp
  then have "month_start y (nat m) = month_start y (nat (m - 1)) + month_days y m"
    using assms(1) by simp
  then show ?thesis using assms False by (auto simp: day_of_date_def next_month_def)
qed

lemma next_month_range: "1 \<le> m \<Longrightarrow> m \<le> 12 \<Longrightarrow> next_month y m = (y', m') \<Longrightarrow> 1 \<le> m' \<and> m' \<le> 12"
  by (auto simp: next_month_def split: if_splits)

lemma prev_month_range:
  "1 \<le> m \<Longrightarrow> m \<le> 12 \<Longrightarrow> prev_month y m = (y', m') \<Longrightarrow> 1 \<le> m' \<and> m' \<le> 12 \<and> next_month y' m' = (y, m)"
  by (auto simp: prev_month_def next_month_def split: if_splits)

lemma last_day_norm:
  assumes "1 \<le> m" and "m \<le> 12"
  shows "last_day y m = month_days y m"
proof -
  obtain y' m' where n: "next_month y m = (y', m')" by force
  have "day_of_date y' m' 1 - 1 = day_of_date y m (month_days y m)"
    using next_month_first [OF assms n] by (simp add: day_of_date_def)
  moreover have "valid_date y m (month_days y m)"
    using assms month_days_bounds(1) [of y m] by (simp add: valid_date_def)
  ultimately show ?thesis
    using day_of_date_inverse n by (simp add: last_day_def norm_month_simps assms)
qed

lemma last_day_shift: "last_day y (m - 1) = (case norm_month y (m - 1) of (y', m') \<Rightarrow> last_day y' m')"
  if "1 \<le> m" "m \<le> 12" for y m
proof -
  obtain y' m' where p: "prev_month y m = (y', m')" by force
  then have "1 \<le> m'" "m' \<le> 12" "next_month y' m' = (y, m)" using prev_month_range that by blast+
  then show ?thesis using p that by (simp add: last_day_def norm_month_simps)
qed

definition month_period :: "int \<Rightarrow> int \<Rightarrow> int \<Rightarrow> int \<times> int \<times> int" where
  "month_period day y m = (y, m, min day (month_days y m))"

lemma period_start_norm:
  assumes "1 \<le> m" and "m \<le> 12"
  shows "period_start day y m = month_period day y m"
    and "period_start day y (m - 1) = (case prev_month y m of (y', m') \<Rightarrow> month_period day y' m')"
proof -
  show "period_start day y m = month_period day y m"
    using assms by (auto simp: period_start_def month_period_def last_day_norm norm_month_simps Let_def min_def)
  obtain y' m' where p: "prev_month y m = (y', m')" by force
  then have "1 \<le> m'" "m' \<le> 12" using prev_month_range assms by blast+
  then show "period_start day y (m - 1) = (case prev_month y m of (y', m') \<Rightarrow> month_period day y' m')"
    using assms p last_day_shift [OF assms, of y]
    by (auto simp: period_start_def month_period_def last_day_norm norm_month_simps Let_def min_def)
qed

lemma div_less_iff_less_mult_int: "0 < (c :: int) \<Longrightarrow> a div c < n \<longleftrightarrow> a < n * c"
proof -
  assume c: "0 < c"
  note b = div_bounds [OF c, of a]
  show ?thesis
  proof
    assume "a div c < n"
    then have "c * (a div c + 1) \<le> c * n" using c by (intro mult_left_mono) auto
    then show "a < n * c" using b by (simp add: algebra_simps)
  next
    assume a: "a < n * c"
    show "a div c < n"
    proof (rule ccontr)
      assume "\<not> a div c < n"
      then have "c * n \<le> c * (a div c)" using c by (intro mult_left_mono) auto
      then have "c * n \<le> a" using b order_trans by blast
      then show False using a by (simp add: mult.commute)
    qed
  qed
qed

lemma before_midnight: "t < midnight n \<longleftrightarrow> local_day t < n"
proof -
  have "0 < day_nanos" by (simp add: day_nanos_def duration_defs)
  then have "local_day t < n \<longleftrightarrow> t + 8 * hour < n * day_nanos"
    unfolding local_day_def
    by (metis div_less_iff_less_mult_int)
  then show ?thesis by (auto simp: midnight_def)
qed

lemma month_period_bounds:
  assumes "1 \<le> m" and "m \<le> 12" and "1 \<le> day" and "next_month y m = (y', m')" and "month_period day y m = (a, b, d)"
  shows "day_of_date y m 1 \<le> day_of_date a b d" and "day_of_date a b d < day_of_date y' m' 1"
    and "valid_date a b d"
  using assms month_days_bounds(1) [of y m] next_month_first [OF assms(1,2,4)]
  by (auto simp: month_period_def day_of_date_def valid_date_def)

definition start_day :: "int \<Rightarrow> int \<Rightarrow> int" where
  "start_day day i = (case month_period day (i div 12) (i mod 12 + 1) of (y, m, d) \<Rightarrow> day_of_date y m d)"

lemma month_index:
  assumes "1 \<le> m" and "m \<le> 12"
  shows "(12 * y + m - 1) div 12 = y" and "(12 * y + m - 1) mod 12 + 1 = m"
    and "next_month y m = (y', m') \<Longrightarrow> 12 * y' + m' - 1 = (12 * y + m - 1) + 1"
proof -
  show "(12 * y + m - 1) div 12 = y"
    by (rule int_div_pos_eq [where r = "m - 1"]) (use assms in simp_all)
  have "(12 * y + m - 1) mod 12 = m - 1"
    by (rule int_mod_pos_eq [where q = y]) (use assms in simp_all)
  then show "(12 * y + m - 1) mod 12 + 1 = m" by simp
  show "next_month y m = (y', m') \<Longrightarrow> 12 * y' + m' - 1 = (12 * y + m - 1) + 1"
    by (auto simp: next_month_def split: if_splits)
qed

lemma start_day_month:
  "1 \<le> m \<Longrightarrow> m \<le> 12 \<Longrightarrow>
   start_day day (12 * y + m - 1) = (case month_period day y m of (y, m, d) \<Rightarrow> day_of_date y m d)"
  by (simp add: start_day_def month_index)

lemma start_day_Suc: "1 \<le> day \<Longrightarrow> start_day day i < start_day day (i + 1)"
proof -
  assume day: "1 \<le> day"
  let ?y = "i div 12" and ?m = "i mod 12 + 1"
  have m: "1 \<le> ?m" "?m \<le> 12" "12 * ?y + ?m - 1 = i" by simp_all
  obtain y' m' where n: "next_month ?y ?m = (y', m')" by force
  have m': "1 \<le> m'" "m' \<le> 12" using next_month_range [OF m(1,2) n] by auto
  have i: "i + 1 = 12 * y' + m' - 1" using month_index(3) [OF m(1,2) n] m(3) by simp
  obtain a b d where p: "month_period day ?y ?m = (a, b, d)" by (cases "month_period day ?y ?m")
  obtain a' b' d' where q: "month_period day y' m' = (a', b', d')" by (cases "month_period day y' m'")
  obtain y2 m2 where n2: "next_month y' m' = (y2, m2)" by force
  have "start_day day i = day_of_date a b d" using p by (simp add: start_day_def)
  moreover have "start_day day (i + 1) = day_of_date a' b' d'"
    unfolding i start_day_month [OF m'] q by simp
  ultimately show ?thesis
    using month_period_bounds(2) [OF m(1,2) day n p] month_period_bounds(1) [OF m' day n2 q] by simp
qed

lemma start_day_mono:
  assumes "1 \<le> day" and "i \<le> j"
  shows "start_day day i \<le> start_day day j"
  using assms(2)
proof (induction j rule: int_ge_induct)
  case (step j)
  then show ?case using start_day_Suc [OF assms(1), of j] by simp
qed simp

lemma start_day_unique:
  assumes "1 \<le> day" and "start_day day i \<le> n" "n < start_day day (i + 1)"
    and "start_day day j \<le> n" "n < start_day day (j + 1)"
  shows "i = j"
proof (rule ccontr)
  assume "i \<noteq> j"
  then consider "i + 1 \<le> j" | "j + 1 \<le> i" by linarith
  then show False using start_day_mono [OF assms(1)] assms(2-) by cases fastforce+
qed


lemma period_date_within:
  assumes "1 \<le> day" and "day \<le> 31" and per: "period_date t day = (y, m, d)"
  shows "month_period day y m = (y, m, d) \<and> 1 \<le> m \<and> m \<le> 12 \<and> valid_date y m d
    \<and> start_day day (12 * y + m - 1) \<le> local_day t \<and> local_day t < start_day day (12 * y + m - 1 + 1)"
proof -
  obtain a b c where abc: "date_of_day (local_day t) = (a, b, c)" by (cases "date_of_day (local_day t)")
  note ab = date_of_day_correct [OF abc]
  then have b: "1 \<le> b" "b \<le> 12" by (auto simp: valid_date_def)
  obtain y1 m1 where n: "next_month a b = (y1, m1)" by force
  have m1: "1 \<le> m1" "m1 \<le> 12" using next_month_range [OF b n] by auto
  have today: "day_of_date a b 1 \<le> local_day t" "local_day t < day_of_date y1 m1 1"
    using ab next_month_first [OF b n] by (auto simp: day_of_date_def valid_date_def)
  let ?i = "12 * a + b - 1"
  have p: "period_date t day = (if local_day t < start_day day ?i
      then (case prev_month a b of (y', m') \<Rightarrow> month_period day y' m') else month_period day a b)"
    using assms(1,2) abc b start_day_month [OF b, of day a]
    by (auto simp: period_date_def period_start_norm date_time_def before_midnight split: prod.splits)
  show ?thesis
  proof (cases "local_day t < start_day day ?i")
    case True
    obtain y0 m0 where pm: "prev_month a b = (y0, m0)" by force
    have m0: "1 \<le> m0" "m0 \<le> 12" "next_month y0 m0 = (a, b)" using prev_month_range [OF b pm] by auto
    have ymd: "month_period day y0 m0 = (y, m, d)" using p per True pm by simp
    then have y: "y = y0" "m = m0" by (auto simp: month_period_def)
    note bounds = month_period_bounds [OF m0(1,2) assms(1) m0(3) ymd]
    have "start_day day (12 * y + m - 1) = day_of_date y m d"
      using start_day_month [OF m0(1,2), of day y0] ymd y by simp
    moreover have "12 * y + m - 1 + 1 = ?i" using month_index(3) [OF m0] y by simp
    ultimately show ?thesis using bounds today True m0 ymd y by simp
  next
    case False
    have ymd: "month_period day a b = (y, m, d)" using p per False by simp
    then have y: "y = a" "m = b" by (auto simp: month_period_def)
    obtain a1 b1 d1 where nx: "month_period day y1 m1 = (a1, b1, d1)" by (cases "month_period day y1 m1")
    obtain y2 m2 where n2: "next_month y1 m1 = (y2, m2)" by force
    have "start_day day (12 * y1 + m1 - 1) = day_of_date a1 b1 d1"
      using start_day_month [OF m1, of day y1] nx by simp
    moreover have "?i + 1 = 12 * y1 + m1 - 1" using month_index(3) [OF b n] by simp
    ultimately show ?thesis
      using month_period_bounds [OF b assms(1) n ymd] month_period_bounds(1) [OF m1 assms(1) n2 nx] today False y b ymd
      by simp
  qed
qed

lemma date_time_month:
  assumes "1 \<le> m" and "m \<le> 12"
  shows "date_time (month_period day y m) \<le> t \<longleftrightarrow> start_day day (12 * y + m - 1) \<le> local_day t"
    and "t < date_time (month_period day y m) \<longleftrightarrow> local_day t < start_day day (12 * y + m - 1)"
proof -
  show "t < date_time (month_period day y m) \<longleftrightarrow> local_day t < start_day day (12 * y + m - 1)"
    using start_day_month [OF assms, of day y]
    by (auto simp: date_time_def before_midnight split: prod.splits)
  then show "date_time (month_period day y m) \<le> t \<longleftrightarrow> start_day day (12 * y + m - 1) \<le> local_day t"
    by linarith
qed

section \<open>Properties\<close>

text \<open>
  the quota month. The date that \<open>Period\<close> prints is a valid date
  on the reset day (or on the last day of a shorter month), not after the
  moment, and the next month's reset is after it; in between the month never
  changes.
\<close>

theorem period_contains_now:
  assumes "1 \<le> day" and "day \<le> 31" and "period_date now day = (y, m, d)" and "next_month y m = (y', m')"
  shows "Period now day = format_date (y, m, d) \<and> valid_date y m d \<and> d = min day (month_days y m)
    \<and> date_time (y, m, d) \<le> now \<and> now < date_time (month_period day y' m')
    \<and> (\<forall>t. date_time (y, m, d) \<le> t \<and> t < date_time (month_period day y' m')
          \<longleftrightarrow> period_date t day = (y, m, d))"
proof -
  note now = period_date_within [OF assms(1-3)]
  have m: "1 \<le> m" "m \<le> 12" and ymd: "month_period day y m = (y, m, d)" using now by auto
  have m': "1 \<le> m'" "m' \<le> 12" using next_month_range [OF m assms(4)] by auto
  let ?i = "12 * y + m - 1"
  have nxt: "12 * y' + m' - 1 = ?i + 1" using month_index(3) [OF m assms(4)] .
  have inside: "date_time (y, m, d) \<le> t \<and> t < date_time (month_period day y' m')
      \<longleftrightarrow> start_day day ?i \<le> local_day t \<and> local_day t < start_day day (?i + 1)" for t
    using date_time_month(1) [OF m, of day y t] date_time_month(2) [OF m', of t day y'] nxt ymd by simp
  have "period_date t day = (y, m, d)" if t: "start_day day ?i \<le> local_day t" "local_day t < start_day day (?i + 1)" for t
  proof -
    obtain a b c where abc: "period_date t day = (a, b, c)" by (cases "period_date t day")
    note w = period_date_within [OF assms(1,2) abc]
    then have "12 * a + b - 1 = ?i" using start_day_unique [OF assms(1)] t by blast
    moreover have "a = (12 * a + b - 1) div 12" "b = (12 * a + b - 1) mod 12 + 1"
      using w month_index [of b a] by simp_all
    moreover have "y = ?i div 12" "m = ?i mod 12 + 1" using month_index [OF m, of y] by simp_all
    ultimately have "a = y" "b = m" by simp_all
    then show ?thesis using abc w ymd by simp
  qed
  moreover have "period_date t day = (y, m, d) \<Longrightarrow> start_day day ?i \<le> local_day t \<and> local_day t < start_day day (?i + 1)" for t
    using period_date_within [OF assms(1,2)] by blast
  ultimately have "\<forall>t. date_time (y, m, d) \<le> t \<and> t < date_time (month_period day y' m') \<longleftrightarrow> period_date t day = (y, m, d)"
    using inside by blast
  then show ?thesis
    using now assms(3) by (auto simp: Period_def month_period_def)
qed

theorem period_contains_now_witness:
  "Period (midnight (day_of_date 2026 3 30)) 31 = ''2026-02-28''
   \<and> midnight (day_of_date 2026 3 30) < date_time (month_period 31 2026 3)"
proof -
  have p: "period_date (midnight (day_of_date 2026 3 30)) 31 = (2026, 2, 28)" by code_simp
  have "Period (midnight (day_of_date 2026 3 30)) 31 = format_date (2026, 2, 28)"
    "midnight (day_of_date 2026 3 30) < date_time (month_period 31 2026 3)"
    using period_contains_now [OF _ _ p, of 2026 3] by (simp_all add: next_month_def)
  moreover have "format_date (2026, 2, 28) = ''2026-02-28''" by code_simp
  ultimately show ?thesis by simp
qed


definition ex_counter :: Counter where
  "ex_counter = \<lparr> ctr_epoch = ''a'', ctr_raw_up = 10, ctr_raw_down = 0, ctr_up = 100, ctr_down = 0 \<rparr>"

definition ex_readings :: "Reading list" where
  "ex_readings = [\<lparr> rd_epoch = ''a'', rd_up = 30, rd_down = 1 \<rparr>, \<lparr> rd_epoch = ''b'', rd_up = 5, rd_down = 2 \<rparr>]"



end
