(* ===== verification/User_Limits.thy ===== *)
theory User_Limits
  imports Flvx_Types Hosts "HOL-Library.AList"
begin

text \<open>
  Limits per user: \<open>internal/flvx/user_limits.go\<close> (budgets, their validation,
  the signed envelope, relay sources) and the Helper's
  \<open>cmd/mmwxc-helper/flvx_user_limits.go\<close> (budgets held in memory until they
  expire, the live state of an owner's group in a Core snapshot, the limits the
  Core is given). HMAC-SHA-256 over the encoded payload is the argument \<open>mac\<close>.
  Counts of connections are plain integers: they are sums of open sockets, far
  from 64 bits. A method under a mutex is one atomic step.
\<close>

section \<open>Budgets\<close>

definition MaxUserLimitUsers :: int where "MaxUserLimitUsers = 10000"
definition MaxUserLimitIPs :: int where "MaxUserLimitIPs = 1024"
definition MaxRelaySources :: int where "MaxRelaySources = 4096"
definition MaxRelayIPReserve :: int where "MaxRelayIPReserve = 4096"
definition MaxUserRateMbps :: int where "MaxUserRateMbps = 100000"
definition maxUserLimitCount :: int where "maxUserLimitCount = 10000000"
definition maxUserLimitIPCount :: int where "maxUserLimitIPCount = 1000000"
definition UserLimitsVersion :: int where "UserLimitsVersion = 1"
definition UserLimitsRateVersion :: int where "UserLimitsRateVersion = 2"
definition UserGroupPrefix :: string where "UserGroupPrefix = ''flvx-user-''"

definition InboundLimit :: "Node \<Rightarrow> bool" where
  "InboundLimit n \<longleftrightarrow> nd_conn_mode n = ''inbound''"

definition ValidOwnerID :: "string \<Rightarrow> bool" where
  "ValidOwnerID i \<longleftrightarrow> identifierRe i"

definition UserGroup :: "string \<Rightarrow> string" where
  "UserGroup owner = UserGroupPrefix @ owner"

record UserLimitBudget =
  ub_user_id :: string
  ub_max_inbound_connections :: "int option"
  ub_server_max_inbound_connections :: "int option"
  ub_max_inbound_online_ips :: "int option"
  ub_relay_ip_reserve :: int
  ub_max_rate_mbps :: "int option"

record UserLimitsRequest =
  ur_version :: int
  ur_sequence :: int
  ur_users :: "UserLimitBudget list option"

record UserLimitUsage =
  uu_user_id :: string
  uu_inbound_connections :: int
  uu_relay_connections :: int
  uu_online_ips :: "string list"
  uu_rate_applied :: bool

record UserLimitsPayload =
  up_server_id :: string
  up_sequence :: int
  up_users :: "UserLimitBudget list"
  up_relay_sources :: "string list"

record UserLimitsEnvelope =
  ue_payload :: UserLimitsPayload
  ue_expires_at :: int
  ue_signature :: string

record UserLimitsUsage =
  ug_held_sequence :: int
  ug_applied_sequence :: int
  ug_collected_at :: int
  ug_users :: "UserLimitUsage list"

definition UserLimits_Sign :: "UserLimitsPayload mac \<Rightarrow> string \<Rightarrow> UserLimitsEnvelope \<Rightarrow> UserLimitsEnvelope" where
  "UserLimits_Sign mac token e = e\<lparr>ue_signature := mac token (ue_payload e) (ue_expires_at e)\<rparr>"

definition UserLimits_Verify :: "UserLimitsPayload mac \<Rightarrow> UserLimitsEnvelope \<Rightarrow> string \<Rightarrow> string \<Rightarrow> time \<Rightarrow> bool" where
  "UserLimits_Verify mac e token serverID now \<longleftrightarrow>
     up_server_id (ue_payload e) = serverID \<and> up_sequence (ue_payload e) > 0
     \<and> ue_expires_at e > unix_milli now \<and> ue_expires_at e \<le> unix_milli (now + 11 * minute)
     \<and> ue_signature e = mac token (ue_payload e) (ue_expires_at e)"

definition opt_bad :: "(int \<Rightarrow> bool) \<Rightarrow> int option \<Rightarrow> bool" where
  "opt_bad P ov = (case ov of None \<Rightarrow> False | Some v \<Rightarrow> P v)"

definition budget_errors :: "int \<Rightarrow> string list \<Rightarrow> UserLimitBudget \<Rightarrow> string list" where
  "budget_errors version seen u =
     (if \<not> ValidOwnerID (ub_user_id u) \<or> ub_user_id u \<in> set seen then [''user_id''] else [])
     @ (if opt_bad (\<lambda>v. v < 0 \<or> v > maxUserLimitCount) (ub_max_inbound_connections u)
        then [''max_inbound_connections''] else [])
     @ (if opt_bad (\<lambda>v. v < 0 \<or> v > maxUserLimitCount) (ub_server_max_inbound_connections u)
        then [''server_max_inbound_connections''] else [])
     @ (if opt_bad (\<lambda>v. v < 0 \<or> v > maxUserLimitIPCount) (ub_max_inbound_online_ips u)
        then [''max_inbound_online_ips''] else [])
     @ (if ub_relay_ip_reserve u < 0 \<or> ub_relay_ip_reserve u > MaxRelayIPReserve then [''relay_ip_reserve''] else [])
     @ (if opt_bad (\<lambda>v. version \<noteq> UserLimitsRateVersion \<or> v < 1 \<or> v > MaxUserRateMbps) (ub_max_rate_mbps u)
        then [''max_rate_mbps''] else [])"

fun budgets_errors :: "int \<Rightarrow> string list \<Rightarrow> UserLimitBudget list \<Rightarrow> string list" where
  "budgets_errors version seen [] = []"
| "budgets_errors version seen (u # us) =
     budget_errors version seen u @ budgets_errors version (ub_user_id u # seen) us"

text \<open>The messages of the errors, in order.\<close>

definition ValidateUserLimits :: "UserLimitsRequest \<Rightarrow> bool \<Rightarrow> string list" where
  "ValidateUserLimits r rate =
     (if ur_version r = UserLimitsVersion \<or> ur_version r = UserLimitsRateVersion \<and> rate then [] else [''version''])
     @ (if ur_sequence r \<le> 0 then [''sequence''] else [])
     @ (case ur_users r of
          None \<Rightarrow> [''users'']
        | Some us \<Rightarrow> if int (length us) > MaxUserLimitUsers then [''users''] else budgets_errors (ur_version r) [] us)"

definition ValidUserLimitsPayload :: "UserLimitsPayload \<Rightarrow> bool" where
  "ValidUserLimitsPayload p \<longleftrightarrow>
     \<not> int (length (up_users p)) > MaxUserLimitUsers \<and> \<not> int (length (up_relay_sources p)) > MaxRelaySources + 2
     \<and> ValidateUserLimits \<lparr> ur_version = UserLimitsRateVersion, ur_sequence = up_sequence p, ur_users = Some (up_users p) \<rparr> True = []
     \<and> list_all (\<lambda>ip. parse_addr ip \<noteq> None) (up_relay_sources p)"

definition trim_brackets :: "string \<Rightarrow> string" where
  "trim_brackets s = (let cut = dropWhile (\<lambda>c. c \<in> set ''[]'') in rev (cut (rev (cut s))))"

definition without_zone :: "ip_addr \<Rightarrow> ip_addr" where
  "without_zone a = (case a of IPv6 v z \<Rightarrow> IPv6 v [] | _ \<Rightarrow> a)"

definition CanonicalIP :: "string \<Rightarrow> string option" where
  "CanonicalIP raw =
     (case parse_addr (trim_brackets (trim_space raw)) of
        None \<Rightarrow> None
      | Some a \<Rightarrow> Some (addr_string (without_zone (addr_unmap a))))"

definition loopback_ips :: "string list" where "loopback_ips = [''127.0.0.1'', ''::1'']"

definition RelaySources :: "string list \<Rightarrow> string list" where
  "RelaySources hosts =
     (let out = sorted_unique (filter (\<lambda>ip. ip \<notin> set loopback_ips) (List.map_filter CanonicalIP hosts))
      in sort ((if int (length out) > MaxRelaySources then take (nat MaxRelaySources) out else out) @ loopback_ips))"

section \<open>The budgets the Helper holds\<close>

datatype budgetExpiry = budgetsLive | budgetsLost | budgetsIdle | budgetsIdleLogged

record flvxBudgetView =
  bv_sequence :: int
  bv_users :: "(string \<times> UserLimitBudget) list"
  bv_relay :: "string set"

text \<open>The configured token and server, \<open>m.budgets\<close> and \<open>m.budgetsExpired\<close> (the cache of the view is not observable).\<close>

record budget_state =
  bs_token :: string
  bs_server_id :: string
  bs_budgets :: "UserLimitsEnvelope option"
  bs_expired :: budgetExpiry

datatype submit_result = Accepted | Ignored | InvalidSignature | InvalidLimits

definition submitUserLimits ::
  "UserLimitsPayload mac \<Rightarrow> time \<Rightarrow> UserLimitsEnvelope option \<Rightarrow> budget_state \<Rightarrow> budget_state \<times> submit_result" where
  "submitUserLimits mac now oe s =
     (case oe of
        None \<Rightarrow> (s, Ignored)
      | Some e \<Rightarrow>
          if \<not> UserLimits_Verify mac e (bs_token s) (bs_server_id s) now then (s, InvalidSignature)
          else if \<not> ValidUserLimitsPayload (ue_payload e) then (s, InvalidLimits)
          else if (case bs_budgets s of
                     None \<Rightarrow> False
                   | Some old \<Rightarrow> up_sequence (ue_payload e) < up_sequence (ue_payload old)
                                 \<and> ue_expires_at old > unix_milli now)
          then (s, Ignored)
          else (s\<lparr>bs_budgets := Some e\<rparr>, Accepted))"

datatype budget_log = LogInForceAgain | LogOk | LogLost | LogIdle | LogNothing

definition reportBudgetExpiry :: "budget_state \<Rightarrow> budget_state \<times> budget_log" where
  "reportBudgetExpiry s =
     (let held = bs_budgets s \<noteq> None; expiry = bs_expired s;
          s' = (if held then s\<lparr>bs_expired := budgetsLive\<rparr>
                else if expiry = budgetsIdle then s\<lparr>bs_expired := budgetsIdleLogged\<rparr> else s)
      in (s', if held \<and> expiry = budgetsIdleLogged then LogInForceAgain
              else if held then LogOk
              else if expiry = budgetsLost then LogLost
              else if expiry = budgetsIdle then LogIdle else LogNothing))"

definition heldBudgetSequence :: "time \<Rightarrow> budget_state \<Rightarrow> int" where
  "heldBudgetSequence now s =
     (case bs_budgets s of None \<Rightarrow> 0
      | Some e \<Rightarrow> if ue_expires_at e \<le> unix_milli now then 0 else up_sequence (ue_payload e))"

definition view_of :: "UserLimitsEnvelope \<Rightarrow> flvxBudgetView" where
  "view_of e =
     \<lparr> bv_sequence = up_sequence (ue_payload e),
       bv_users = foldl (\<lambda>m u. AList.update (ub_user_id u) u m) [] (up_users (ue_payload e)),
       bv_relay = set loopback_ips \<union> set (List.map_filter CanonicalIP (up_relay_sources (ue_payload e))) \<rparr>"

definition budgetView :: "time \<Rightarrow> budget_state \<Rightarrow> budget_state \<times> flvxBudgetView option" where
  "budgetView now s =
     (case bs_budgets s of
        None \<Rightarrow> (s, None)
      | Some e \<Rightarrow>
          if ue_expires_at e \<le> unix_milli now
          then (s\<lparr>bs_expired := (if up_users (ue_payload e) = [] then budgetsIdle else budgetsLost),
                  bs_budgets := None\<rparr>, None)
          else (s, Some (view_of e)))"

section \<open>Groups in a Core snapshot\<close>

record onlineIP =
  oi_ip :: string
  oi_connections :: int

record managementGroupSnapshot =
  mg_username :: string
  mg_inbound_current :: int
  mg_inbound_online_ips :: "onlineIP list"

record coreUserSnapshot =
  cu_inbound_tag :: string
  cu_user :: string
  cu_inbound_current :: int
  cu_inbound_online_ips :: "onlineIP list"

record coreSnapshotResponse =
  cs_users :: "coreUserSnapshot list"
  cs_management_groups :: "managementGroupSnapshot list"

record flvxGroupLive =
  gl_current :: int
  gl_counted :: int
  gl_relay_conns :: int
  gl_relay_ips :: int
  gl_seen_ips :: int
  gl_uncounted_ips :: int
  gl_direct :: "string list"

definition group_counted :: "string \<Rightarrow> managementGroupSnapshot list \<Rightarrow> int" where
  "group_counted grp mgs = foldl (\<lambda>c g. if mg_username g = grp then max (mg_inbound_current g) 0 else c) 0 mgs"

definition group_grouped :: "string \<Rightarrow> managementGroupSnapshot list \<Rightarrow> string list" where
  "group_grouped grp mgs =
     List.map_filter (\<lambda>i. CanonicalIP (oi_ip i))
       (concat (map mg_inbound_online_ips (filter (\<lambda>g. mg_username g = grp) mgs)))"

text \<open>The identities of a group: \<open>groups\<close> maps the node tags of owners with budgets to their group.\<close>

definition group_users :: "(string \<times> string) list \<Rightarrow> string \<Rightarrow> coreUserSnapshot list \<Rightarrow> coreUserSnapshot list" where
  "group_users groups grp us =
     filter (\<lambda>u. map_of groups (cu_inbound_tag u) = Some grp \<and> cu_user u = cu_inbound_tag u) us"

definition add_ip :: "(string \<times> int) list \<Rightarrow> onlineIP \<Rightarrow> (string \<times> int) list" where
  "add_ip ips i =
     (case CanonicalIP (oi_ip i) of
        None \<Rightarrow> ips
      | Some c \<Rightarrow> AList.update c ((case map_of ips c of None \<Rightarrow> 0 | Some n \<Rightarrow> n) + max (oi_connections i) 0) ips)"

definition group_ips :: "coreUserSnapshot list \<Rightarrow> (string \<times> int) list" where
  "group_ips us = foldl add_ip [] (concat (map cu_inbound_online_ips us))"

definition group_live :: "coreSnapshotResponse \<Rightarrow> string set \<Rightarrow> (string \<times> string) list \<Rightarrow> string \<Rightarrow> flvxGroupLive" where
  "group_live snapshot relay groups grp =
     (let counted = group_counted grp (cs_management_groups snapshot);
          grouped = set (group_grouped grp (cs_management_groups snapshot));
          us = group_users groups grp (cs_users snapshot);
          current = max (sum_list (map (\<lambda>u. max (cu_inbound_current u) 0) us)) counted;
          ips = group_ips us;
          relays = filter (\<lambda>(ip, n). ip \<in> relay) ips;
          own = filter (\<lambda>(ip, n). ip \<notin> relay) ips
      in \<lparr> gl_current = current, gl_counted = counted,
           gl_relay_conns = min (sum_list (map snd relays)) current,
           gl_relay_ips = int (length relays), gl_seen_ips = int (length ips),
           gl_uncounted_ips = int (length (filter (\<lambda>(ip, n). n > 0 \<and> ip \<notin> grouped) own)),
           gl_direct = take (nat MaxUserLimitIPs) (sort (map fst (filter (\<lambda>(ip, n). n > 0) own))) \<rparr>)"

definition flvxGroupLives ::
  "coreSnapshotResponse \<Rightarrow> string set \<Rightarrow> (string \<times> string) list \<Rightarrow> (string \<times> flvxGroupLive) list" where
  "flvxGroupLives snapshot relay groups =
     map (\<lambda>grp. (grp, group_live snapshot relay groups grp)) (dedup (map snd groups))"

section \<open>Limits for the Core\<close>

text \<open>The limit (\<open>None\<close> is unlimited) and whether the idle group is blocked.\<close>

definition conn_cap :: "UserLimitBudget \<Rightarrow> flvxGroupLive \<Rightarrow> int option" where
  "conn_cap b live =
     (let l = (case ub_max_inbound_connections b of None \<Rightarrow> - 1 | Some m \<Rightarrow> m + gl_relay_conns live);
          l = (case ub_server_max_inbound_connections b of None \<Rightarrow> l | Some s \<Rightarrow> if l < 0 \<or> s < l then s else l)
      in if l < 0 then None else Some l)"

definition flvxGroupConnLimit :: "UserLimitBudget \<Rightarrow> flvxGroupLive \<Rightarrow> int option \<times> bool" where
  "flvxGroupConnLimit b live =
     (case conn_cap b live of
        None \<Rightarrow> (None, False)
      | Some l0 \<Rightarrow>
          let l = l0 - (gl_current live - gl_counted live) in
          if l \<le> 0 then (if gl_current live = 0 then (None, True) else (Some 1, False)) else (Some l, False))"

definition flvxGroupIPLimit :: "UserLimitBudget \<Rightarrow> flvxGroupLive \<Rightarrow> int option \<times> bool" where
  "flvxGroupIPLimit b live =
     (case ub_max_inbound_online_ips b of
        None \<Rightarrow> (None, False)
      | Some m \<Rightarrow>
          let l = m + max (gl_relay_ips live) (ub_relay_ip_reserve b) - gl_uncounted_ips live in
          if l \<le> 0 then (if gl_seen_ips live = 0 then (None, True) else (Some 1, False)) else (Some l, False))"

record managementUserSettings =
  mu_username :: string
  mu_max_inbound_connections :: "int option"
  mu_max_inbound_online_ips :: "int option"

text \<open>The nodes that join a group: admitted nodes of owners with a budget, in order.\<close>

definition limited_nodes :: "Desired \<Rightarrow> flvxBudgetView \<Rightarrow> (string \<Rightarrow> bool) \<Rightarrow> (string \<times> UserLimitBudget \<times> string) list" where
  "limited_nodes d view wanted =
     List.map_filter (\<lambda>n. case map_of (bv_users view) (ow_id (nd_owner n)) of
          None \<Rightarrow> None
        | Some b \<Rightarrow> if wanted (Node_Tag n) then Some (UserGroup (ow_id (nd_owner n)), b, Node_Tag n) else None)
       (ds_node_list d)"

text \<open>The added mappings (tag, grp), the added group limits and the blocked identities.\<close>

definition applyUserLimits ::
  "Desired \<Rightarrow> flvxBudgetView option \<Rightarrow> coreSnapshotResponse \<Rightarrow> (string \<Rightarrow> bool)
   \<Rightarrow> (string \<times> string) list \<times> managementUserSettings list \<times> string list" where
  "applyUserLimits d oview snapshot wanted =
     (case oview of
        None \<Rightarrow> ([], [], [])
      | Some view \<Rightarrow>
          let nodes = limited_nodes d view wanted;
              tags = map (\<lambda>(g, b, t). (t, g)) nodes;
              groups = sorted_unique (map fst nodes);
              live = group_live snapshot (bv_relay view) (rev tags);
              budget = (\<lambda>g. fst (the (map_of (rev nodes) g)));
              conns = (\<lambda>g. flvxGroupConnLimit (budget g) (live g));
              ips = (\<lambda>g. flvxGroupIPLimit (budget g) (live g))
          in (tags,
              map (\<lambda>g. \<lparr> mu_username = g, mu_max_inbound_connections = fst (conns g),
                          mu_max_inbound_online_ips = fst (ips g) \<rparr>) groups,
              concat (map (\<lambda>g. if snd (conns g) \<or> snd (ips g)
                               then map (\<lambda>(g', b, t). t) (filter (\<lambda>(g', b, t). g' = g) nodes) else []) groups)))"

definition recordUserLimits :: "Desired \<Rightarrow> flvxBudgetView option \<Rightarrow> coreSnapshotResponse \<Rightarrow> UserLimitUsage list" where
  "recordUserLimits d oview snapshot =
     (let relay = (case oview of None \<Rightarrow> {} | Some v \<Rightarrow> bv_relay v);
          tags = (case oview of
                    None \<Rightarrow> []
                  | Some v \<Rightarrow> map (\<lambda>n. (Node_Tag n, UserGroup (ow_id (nd_owner n))))
                               (filter (\<lambda>n. map_of (bv_users v) (ow_id (nd_owner n)) \<noteq> None) (ds_node_list d)))
      in sort_key uu_user_id
           (map (\<lambda>(grp, l). \<lparr> uu_user_id = trim_prefix grp UserGroupPrefix,
                   uu_inbound_connections = gl_current l - gl_relay_conns l,
                   uu_relay_connections = gl_relay_conns l, uu_online_ips = gl_direct l, uu_rate_applied = False \<rparr>)
             (flvxGroupLives snapshot relay (rev tags))))"

definition userLimitsUpload ::
  "time \<Rightarrow> budget_state \<Rightarrow> bool \<Rightarrow> int \<Rightarrow> int \<Rightarrow> UserLimitUsage list \<Rightarrow> (string \<Rightarrow> bool) \<Rightarrow> UserLimitsUsage option" where
  "userLimitsUpload now s reporting applied collectedAt users rates =
     (if \<not> reporting then None
      else Some \<lparr> ug_held_sequence = heldBudgetSequence now s, ug_applied_sequence = applied,
                  ug_collected_at = collectedAt,
                  ug_users = map (\<lambda>u. u\<lparr>uu_rate_applied := rates (uu_user_id u)\<rparr>) users \<rparr>)"

definition flvxInboundByNode :: "coreSnapshotResponse \<Rightarrow> (string \<times> int) list" where
  "flvxInboundByNode snapshot =
     foldl (\<lambda>m u. let i = trim_prefix (cu_inbound_tag u) ''flvxl-''
                  in AList.update i ((case map_of m i of None \<Rightarrow> 0 | Some n \<Rightarrow> n) + cu_inbound_current u) m)
       [] (filter (\<lambda>u. has_prefix (cu_inbound_tag u) ''flvxl-'' \<and> cu_inbound_current u > 0) (cs_users snapshot))"

section \<open>Accepted budgets\<close>

lemma budgets_errors_Nil:
  "budgets_errors v seen us = [] \<Longrightarrow>
     distinct (map ub_user_id us) \<and> set (map ub_user_id us) \<inter> set seen = {} \<and> (\<forall>u \<in> set us. budget_errors v [] u = [])"
proof (induction us arbitrary: seen)
  case (Cons u us)
  then have "budget_errors v seen u = []" by simp
  then have "ub_user_id u \<notin> set seen" "budget_errors v [] u = []" by (auto simp: budget_errors_def split: if_splits)
  then show ?case using Cons.IH [of "ub_user_id u # seen"] Cons.prems by auto
qed simp

lemma foldl_update_notin:
  "k \<notin> set (map f us) \<Longrightarrow> map_of (foldl (\<lambda>m u. AList.update (f u) u m) m us) k = map_of m k"
  by (induction us arbitrary: m) (auto simp: update_conv)

lemma foldl_update_in:
  "distinct (map f us) \<Longrightarrow> u \<in> set us \<Longrightarrow> map_of (foldl (\<lambda>m u. AList.update (f u) u m) m us) (f u) = Some u"
proof (induction us arbitrary: m)
  case (Cons x us)
  then show ?case
    using foldl_update_notin [of "f x" f us "AList.update (f x) x m"] by (auto simp: update_conv)
qed simp

text \<open>
  The view of an accepted payload has exactly the budget sent for each user,
  every budget with its counts in range and a rate only from 1 to 100000 Mbps,
  and the loopback addresses always count as relays.
\<close>

theorem accepted_budgets_view:
  assumes "ValidUserLimitsPayload (ue_payload e)" and "u \<in> set (up_users (ue_payload e))"
  shows "map_of (bv_users (view_of e)) (ub_user_id u) = Some u \<and> identifierRe (ub_user_id u)
    \<and> (\<forall>v. ub_max_inbound_connections u = Some v \<longrightarrow> 0 \<le> v \<and> v \<le> 10000000)
    \<and> (\<forall>v. ub_server_max_inbound_connections u = Some v \<longrightarrow> 0 \<le> v \<and> v \<le> 10000000)
    \<and> (\<forall>v. ub_max_inbound_online_ips u = Some v \<longrightarrow> 0 \<le> v \<and> v \<le> 1000000)
    \<and> 0 \<le> ub_relay_ip_reserve u \<and> ub_relay_ip_reserve u \<le> 4096
    \<and> (\<forall>v. ub_max_rate_mbps u = Some v \<longrightarrow> 1 \<le> v \<and> v \<le> 100000)
    \<and> {''127.0.0.1'', ''::1''} \<subseteq> bv_relay (view_of e)"
proof -
  have es: "budgets_errors UserLimitsRateVersion [] (up_users (ue_payload e)) = []"
    using assms(1) by (auto simp: ValidUserLimitsPayload_def ValidateUserLimits_def split: if_splits)
  then have "map_of (bv_users (view_of e)) (ub_user_id u) = Some u"
    using budgets_errors_Nil [OF es] foldl_update_in [of ub_user_id, OF _ assms(2)] by (simp add: view_of_def)
  moreover have "budget_errors UserLimitsRateVersion [] u = []" using budgets_errors_Nil [OF es] assms(2) by blast
  ultimately show ?thesis
    by (auto simp: budget_errors_def opt_bad_def ValidOwnerID_def view_of_def loopback_ips_def maxUserLimitCount_def
        maxUserLimitIPCount_def MaxRelayIPReserve_def MaxUserRateMbps_def split: if_splits option.splits)
qed

section \<open>Budgets over time\<close>

text \<open>
  A later submission never replaces budgets in force by an older sequence. Only
  the payload with a valid signature for the configured server is held.
\<close>

lemma submit_monotone:
  "heldBudgetSequence now s \<le> heldBudgetSequence now (fst (submitUserLimits mac now oe s))"
  by (auto simp: submitUserLimits_def heldBudgetSequence_def UserLimits_Verify_def split: option.split)

definition budget_init :: "time \<times> budget_state \<Rightarrow> bool" where
  "budget_init ts \<longleftrightarrow> bs_budgets (snd ts) = None"

text \<open>Time passes, an upload answer arrives, a pass reads the budgets, the log is written.\<close>

inductive budget_step :: "UserLimitsPayload mac \<Rightarrow> time \<times> budget_state \<Rightarrow> time \<times> budget_state \<Rightarrow> bool" for mac where
  budget_tick: "t \<le> t' \<Longrightarrow> budget_step mac (t, s) (t', s)"
| budget_submit: "budget_step mac (t, s) (t, fst (submitUserLimits mac t oe s))"
| budget_read: "budget_step mac (t, s) (t, fst (budgetView t s))"
| budget_report: "budget_step mac (t, s) (t, fst (reportBudgetExpiry s))"

inductive_cases budget_stepE: "budget_step mac (t, s) ts"

text \<open>The steps of an interval in which no upload answer brings accepted budgets.\<close>

inductive budget_idle :: "UserLimitsPayload mac \<Rightarrow> time \<times> budget_state \<Rightarrow> time \<times> budget_state \<Rightarrow> bool" for mac where
  idle_tick: "t \<le> t' \<Longrightarrow> budget_idle mac (t, s) (t', s)"
| idle_submit: "snd (submitUserLimits mac t oe s) \<noteq> Accepted \<Longrightarrow> budget_idle mac (t, s) (t, fst (submitUserLimits mac t oe s))"
| idle_read: "budget_idle mac (t, s) (t, fst (budgetView t s))"
| idle_report: "budget_idle mac (t, s) (t, fst (reportBudgetExpiry s))"

inductive_cases budget_idleE: "budget_idle mac (t, s) ts"

definition budget_inv :: "UserLimitsPayload mac \<Rightarrow> time \<times> budget_state \<Rightarrow> bool" where
  "budget_inv mac ts \<longleftrightarrow>
     (case bs_budgets (snd ts) of
        None \<Rightarrow> True
      | Some e \<Rightarrow> ue_signature e = mac (bs_token (snd ts)) (ue_payload e) (ue_expires_at e)
          \<and> up_server_id (ue_payload e) = bs_server_id (snd ts)
          \<and> ValidUserLimitsPayload (ue_payload e) \<and> ue_expires_at e \<le> unix_milli (fst ts + 11 * minute))"

text \<open>What each operation can do to the held budgets.\<close>

lemma submit_budgets:
  "bs_token (fst (submitUserLimits mac t oe s)) = bs_token s \<and> bs_server_id (fst (submitUserLimits mac t oe s)) = bs_server_id s
   \<and> (bs_budgets (fst (submitUserLimits mac t oe s)) = bs_budgets s
      \<or> snd (submitUserLimits mac t oe s) = Accepted
        \<and> (\<exists>e. bs_budgets (fst (submitUserLimits mac t oe s)) = Some e
             \<and> UserLimits_Verify mac e (bs_token s) (bs_server_id s) t \<and> ValidUserLimitsPayload (ue_payload e)))"
  by (cases oe) (simp_all add: submitUserLimits_def)

lemma view_budgets:
  "bs_token (fst (budgetView t s)) = bs_token s \<and> bs_server_id (fst (budgetView t s)) = bs_server_id s
   \<and> (bs_budgets (fst (budgetView t s)) = bs_budgets s \<or> bs_budgets (fst (budgetView t s)) = None)"
  by (auto simp: budgetView_def split: option.split)

lemma report_budgets:
  "bs_token (fst (reportBudgetExpiry s)) = bs_token s \<and> bs_server_id (fst (reportBudgetExpiry s)) = bs_server_id s
   \<and> bs_budgets (fst (reportBudgetExpiry s)) = bs_budgets s"
  by (simp add: reportBudgetExpiry_def Let_def)

lemma budget_inv_keep:
  assumes "budget_inv mac (t, s)" and "t \<le> t'" and "bs_budgets s' = bs_budgets s \<or> bs_budgets s' = None"
    and "bs_token s' = bs_token s" and "bs_server_id s' = bs_server_id s"
  shows "budget_inv mac (t', s')"
proof -
  have "unix_milli (t + 11 * minute) \<le> unix_milli (t' + 11 * minute)" using assms(2) by (intro unix_milli_mono) simp
  then show ?thesis using assms by (auto simp: budget_inv_def split: option.splits)
qed

lemma budget_inv_step: "budget_inv mac ts \<Longrightarrow> budget_step mac ts ts' \<Longrightarrow> budget_inv mac ts'"
proof -
  assume inv: "budget_inv mac ts" and step: "budget_step mac ts ts'"
  obtain t s where ts: "ts = (t, s)" by force
  note keep = budget_inv_keep [OF inv [unfolded ts]]
  have submit: "budget_inv mac (t, fst (submitUserLimits mac t oe s))" for oe
    using submit_budgets [of mac t oe s] keep [OF order_refl, of "fst (submitUserLimits mac t oe s)"]
    by (auto simp: budget_inv_def [of mac "(t, fst (submitUserLimits mac t oe s))"] UserLimits_Verify_def)
  from step [unfolded ts] show ?thesis
  proof (cases rule: budget_step.cases)
    case (budget_tick t2)
    then show ?thesis using keep [of t2 s] by simp
  next
    case (budget_submit oe)
    then show ?thesis using submit by simp
  next
    case budget_read
    then show ?thesis using keep [OF order_refl, of "fst (budgetView t s)"] view_budgets [of t s] by simp
  next
    case budget_report
    then show ?thesis using keep [OF order_refl, of "fst (reportBudgetExpiry s)"] report_budgets [of s] by simp
  qed
qed

lemma budget_init_inv: "budget_init ts \<Longrightarrow> budget_inv mac ts"
  by (simp add: budget_init_def budget_inv_def)

interpretation budgets: invariant_system budget_init "budget_step mac" "budget_inv mac" for mac
  by unfold_locales (rule budget_init_inv budget_inv_step; assumption)+


lemma idle_budgets:
  assumes "reach ((=) (t, s)) (budget_idle mac) ts"
  shows "bs_budgets (snd ts) = None \<or> bs_budgets (snd ts) = bs_budgets s"
  using assms
proof (induction rule: reach.induct)
  case (reach_step u v)
  obtain t' s' where u: "u = (t', s')" by force
  show ?case
    using reach_step(2) unfolding u
  proof (cases rule: budget_idle.cases)
    case (idle_tick t2)
    then show ?thesis using reach_step(3) u by simp
  next
    case (idle_submit oe)
    then show ?thesis using reach_step(3) u submit_budgets [of mac t' oe s'] by auto
  next
    case idle_read
    then show ?thesis using reach_step(3) u view_budgets [of t' s'] by auto
  next
    case idle_report
    then show ?thesis using reach_step(3) u report_budgets [of s'] by auto
  qed
qed auto

text \<open>
  The limits fail open: when no accepted budgets arrive for eleven minutes, no
  pass uses budgets any more, whatever else happens in between.
\<close>

theorem budgets_expire:
  assumes "reach budget_init (budget_step mac) (t, s)" and "reach ((=) (t, s)) (budget_idle mac) (t', s')"
    and "t + 11 * minute \<le> t'"
  shows "snd (budgetView t' s') = None \<and> heldBudgetSequence t' s' = 0"
proof -
  have "unix_milli (t + 11 * minute) \<le> unix_milli t'" by (rule unix_milli_mono [OF assms(3)])
  then show ?thesis
    using budgets.reach_inv [OF assms(1)] idle_budgets [OF assms(2)]
    by (auto simp: budget_inv_def budgetView_def heldBudgetSequence_def split: option.splits)
qed

section \<open>The limit a group gets\<close>

text \<open>
  What the Core does with a group's limit: a positive one admits a connection only
  while the group's counter is below it, a blocked group admits none.
\<close>

definition core_contract :: "(int option \<times> bool \<Rightarrow> int \<Rightarrow> bool) \<Rightarrow> bool" where
  "core_contract admits \<longleftrightarrow>
     (\<forall>n c. 0 < n \<and> admits (Some n, False) c \<longrightarrow> c < n) \<and> (\<forall>l c. \<not> admits (l, True) c)"


text \<open>
  The exception occurs: five connections are open, the budget is five, and the
  group's counter holds none of them yet; the group gets the limit 1, which the
  counter 0 is below.
\<close>

definition ex_budget :: UserLimitBudget where
  "ex_budget = \<lparr> ub_user_id = ''u1'', ub_max_inbound_connections = Some 5, ub_server_max_inbound_connections = None,
     ub_max_inbound_online_ips = Some 2, ub_relay_ip_reserve = 0, ub_max_rate_mbps = None \<rparr>"

definition ex_live :: "int \<Rightarrow> int \<Rightarrow> flvxGroupLive" where
  "ex_live current counted = \<lparr> gl_current = current, gl_counted = counted, gl_relay_conns = 0, gl_relay_ips = 0,
     gl_seen_ips = 1, gl_uncounted_ips = 1, gl_direct = [] \<rparr>"

lemma group_limit_overshoot:
  "conn_cap ex_budget (ex_live 5 0) = Some 5 \<and> flvxGroupConnLimit ex_budget (ex_live 5 0) = (Some 1, False)
   \<and> gl_counted (ex_live 5 0) < 1"
  by (simp add: conn_cap_def flvxGroupConnLimit_def ex_budget_def ex_live_def)


section \<open>Reported usage\<close>

definition ips_ok :: "(string \<times> int) list \<Rightarrow> bool" where
  "ips_ok ips \<longleftrightarrow> distinct (map fst ips) \<and> (\<forall>x \<in> set ips. 0 \<le> snd x)"

lemma add_ip_ok: "ips_ok ips \<Longrightarrow> ips_ok (add_ip ips i)"
proof -
  assume ok: "ips_ok ips"
  have sub: "set (AList.update k v xs) \<subseteq> insert (k, v) (set xs)" for k v and xs :: "(string \<times> int) list"
    by (induction xs) auto
  have "map_of ips c = Some n \<Longrightarrow> 0 \<le> n" for c n using ok by (auto simp: ips_ok_def dest: map_of_SomeD)
  then have "ips_ok (AList.update c ((case map_of ips c of None \<Rightarrow> 0 | Some n \<Rightarrow> n) + max k 0) ips)" for c k
    using ok sub [of c "(case map_of ips c of None \<Rightarrow> 0 | Some n \<Rightarrow> n) + max k 0" ips]
    by (force simp: ips_ok_def distinct_update split: option.split)
  then show ?thesis using ok by (simp add: add_ip_def split: option.split)
qed

lemma group_ips_ok: "ips_ok (group_ips us)"
proof -
  have "ips_ok m \<Longrightarrow> ips_ok (foldl add_ip m xs)" for m xs
    by (induction xs arbitrary: m) (simp_all add: add_ip_ok)
  moreover have "ips_ok []" by (simp add: ips_ok_def)
  ultimately have "ips_ok (foldl add_ip [] (concat (map cu_inbound_online_ips us)))" by blast
  then show ?thesis by (simp add: group_ips_def)
qed

lemma group_counted_nonneg: "0 \<le> group_counted grp mgs"
proof -
  have "0 \<le> c \<Longrightarrow> 0 \<le> foldl (\<lambda>c g. if mg_username g = grp then max (mg_inbound_current g) 0 else c) c mgs" for c
    by (induction mgs arbitrary: c) auto
  then show ?thesis by (simp add: group_counted_def)
qed

lemma group_live_bounds:
  fixes snapshot relay groups grp
  defines "l \<equiv> group_live snapshot relay groups grp"
  shows "0 \<le> gl_counted l \<and> gl_counted l \<le> gl_current l \<and> 0 \<le> gl_relay_conns l \<and> gl_relay_conns l \<le> gl_current l"
    and "gl_relay_ips l + gl_uncounted_ips l \<le> gl_seen_ips l"
    and "distinct (gl_direct l) \<and> sorted (gl_direct l) \<and> int (length (gl_direct l)) \<le> MaxUserLimitIPs
      \<and> set (gl_direct l) \<inter> relay = {}"
proof -
  define ips where "ips = group_ips (group_users groups grp (cs_users snapshot))"
  define relays where "relays = filter (\<lambda>(ip, n). ip \<in> relay) ips"
  define own where "own = filter (\<lambda>(ip, n). ip \<notin> relay) ips"
  define grouped where "grouped = set (group_grouped grp (cs_management_groups snapshot))"
  define cnt where "cnt = group_counted grp (cs_management_groups snapshot)"
  have l: "gl_counted l = cnt" "cnt \<le> gl_current l" "gl_relay_conns l = min (sum_list (map snd relays)) (gl_current l)"
    "gl_relay_ips l = int (length relays)" "gl_seen_ips l = int (length ips)"
    "gl_uncounted_ips l = int (length (filter (\<lambda>(ip, n). n > 0 \<and> ip \<notin> grouped) own))"
    "gl_direct l = take (nat MaxUserLimitIPs) (sort (map fst (filter (\<lambda>(ip, n). n > 0) own)))"
    by (simp_all add: l_def group_live_def Let_def ips_def relays_def own_def cnt_def grouped_def)
  have ok: "distinct (map fst ips)" "\<forall>x \<in> set ips. 0 \<le> snd x"
    using group_ips_ok [of "group_users groups grp (cs_users snapshot)"] by (simp_all add: ips_def ips_ok_def)
  have cnt: "0 \<le> cnt" unfolding cnt_def by (rule group_counted_nonneg)
  have "0 \<le> sum_list (map snd relays)" using ok(2) by (intro sum_list_nonneg) (auto simp: relays_def)
  then show "0 \<le> gl_counted l \<and> gl_counted l \<le> gl_current l \<and> 0 \<le> gl_relay_conns l \<and> gl_relay_conns l \<le> gl_current l"
    using cnt l by simp
  have "length relays + length own = length ips"
    unfolding relays_def own_def case_prod_beta by (rule sum_length_filter_compl)
  moreover have "length (filter (\<lambda>(ip, n). n > 0 \<and> ip \<notin> grouped) own) \<le> length own" by (rule length_filter_le)
  ultimately show "gl_relay_ips l + gl_uncounted_ips l \<le> gl_seen_ips l" unfolding l by linarith
  have "distinct (map fst own)" using ok(1) unfolding own_def by (rule distinct_map_filter)
  then have "distinct (map fst (filter (\<lambda>(ip, n). n > 0) own))" by (rule distinct_map_filter)
  then have "distinct (gl_direct l)" unfolding l by (intro distinct_take) simp
  moreover have "sorted (gl_direct l)" unfolding l by (intro sorted_wrt_take) simp
  moreover have "int (length (gl_direct l)) \<le> MaxUserLimitIPs" unfolding l MaxUserLimitIPs_def length_take by linarith
  moreover have "set (gl_direct l) \<subseteq> fst ` set own"
    unfolding l by (rule order_trans [OF set_take_subset]) auto
  then have "set (gl_direct l) \<inter> relay = {}" by (fastforce simp: own_def)
  ultimately show "distinct (gl_direct l) \<and> sorted (gl_direct l) \<and> int (length (gl_direct l)) \<le> MaxUserLimitIPs
      \<and> set (gl_direct l) \<inter> relay = {}" by blast
qed

text \<open>
  C38: The usage reported for an owner never counts a relay twice or negatively:
  both connection counts are nonnegative, and the online addresses are sorted,
  different, at most 1024 and none of them a relay.
\<close>

theorem reported_usage:
  assumes "u \<in> set (recordUserLimits d (Some v) snapshot)"
  shows "0 \<le> uu_inbound_connections u \<and> 0 \<le> uu_relay_connections u
    \<and> sorted (uu_online_ips u) \<and> distinct (uu_online_ips u) \<and> length (uu_online_ips u) \<le> 1024
    \<and> set (uu_online_ips u) \<inter> bv_relay v = {}"
proof -
  obtain groups grp where "uu_inbound_connections u = gl_current (group_live snapshot (bv_relay v) groups grp)
        - gl_relay_conns (group_live snapshot (bv_relay v) groups grp)"
    "uu_relay_connections u = gl_relay_conns (group_live snapshot (bv_relay v) groups grp)"
    "uu_online_ips u = gl_direct (group_live snapshot (bv_relay v) groups grp)"
    using assms by (auto simp: recordUserLimits_def flvxGroupLives_def Let_def)
  then show ?thesis
    using group_live_bounds [of snapshot "bv_relay v" groups grp] by (simp add: MaxUserLimitIPs_def)
qed


section \<open>Concrete budgets\<close>

definition ex_mac :: "UserLimitsPayload mac" where
  "ex_mac token p expires = token @ up_server_id p"

definition ex_limits :: UserLimitsEnvelope where
  "ex_limits = UserLimits_Sign ex_mac ''tok''
     \<lparr> ue_payload = \<lparr> up_server_id = ''s1'', up_sequence = 7, up_users = [ex_budget], up_relay_sources = [''192.0.2.1''] \<rparr>,
       ue_expires_at = unix_milli (10 * minute), ue_signature = [] \<rparr>"

definition ex_budgets :: budget_state where
  "ex_budgets = \<lparr> bs_token = ''tok'', bs_server_id = ''s1'', bs_budgets = None, bs_expired = budgetsLive \<rparr>"

definition ex_held :: budget_state where
  "ex_held = fst (submitUserLimits ex_mac 0 (Some ex_limits) ex_budgets)"

lemma ex_limits_valid: "ValidUserLimitsPayload (ue_payload ex_limits)"
  by code_simp

lemma ex_held_eq: "ex_held = ex_budgets\<lparr>bs_budgets := Some ex_limits\<rparr>"
proof -
  have "UserLimits_Verify ex_mac ex_limits ''tok'' ''s1'' 0" by code_simp
  then show ?thesis using ex_limits_valid by (simp add: ex_held_def submitUserLimits_def ex_budgets_def)
qed

lemma ex_held_reach: "reach budget_init (budget_step ex_mac) (0, ex_held)"
proof -
  have "reach budget_init (budget_step ex_mac) (0, ex_budgets)"
    by (rule reach_init) (simp add: budget_init_def ex_budgets_def)
  moreover have "budget_step ex_mac (0, ex_budgets) (0, ex_held)" unfolding ex_held_def by (rule budget_submit)
  ultimately show ?thesis by (rule reach_step)
qed

theorem accepted_budgets_view_witness:
  "map_of (bv_users (view_of ex_limits)) ''u1'' = Some ex_budget"
  using accepted_budgets_view [OF ex_limits_valid, of ex_budget]
  by (simp add: ex_limits_def UserLimits_Sign_def) (simp add: ex_budget_def)


theorem budgets_expire_witness:
  "snd (budgetView (11 * minute) ex_held) = None"
proof -
  have "reach ((=) (0, ex_held)) (budget_idle ex_mac) (11 * minute, ex_held)"
  proof (rule reach_step)
    show "reach ((=) (0, ex_held)) (budget_idle ex_mac) (0, ex_held)" by (rule reach_init) simp
    show "budget_idle ex_mac (0, ex_held) (11 * minute, ex_held)" by (rule idle_tick) (simp add: minute_def second_def)
  qed
  then show ?thesis using budgets_expire [OF ex_held_reach] by simp
qed

definition ex_snapshot :: coreSnapshotResponse where
  "ex_snapshot = \<lparr> cs_users = [\<lparr> cu_inbound_tag = ''flvxl-n1'', cu_user = ''flvxl-n1'', cu_inbound_current = 4,
       cu_inbound_online_ips = [\<lparr> oi_ip = ''192.0.2.1'', oi_connections = 1 \<rparr>,
                                \<lparr> oi_ip = ''::ffff:198.51.100.7'', oi_connections = 3 \<rparr>] \<rparr>],
     cs_management_groups = [] \<rparr>"

definition ex_limit_desired :: Desired where
  "ex_limit_desired = \<lparr> ds_revision = 1, ds_nodes = Some [\<lparr> nd_id = ''n1'', nd_owner = \<lparr> ow_id = ''u1'', ow_name = ''a'' \<rparr>,
       nd_name = ''node'', nd_protocol = ''mieru'', nd_port = 20001, nd_enabled = Some True, nd_max_connections = 0,
       nd_max_online_ips = 0, nd_expires_at = None, nd_conn_mode = [], nd_max_total_connections = 0, nd_ss2022 = None,
       nd_vless = None, nd_anytls = None, nd_snell = None, nd_mieru = None \<rparr>],
     ds_egress = None, ds_reality_guard = None, ds_scan_guard = None, ds_reality_pin_margin_ms = None \<rparr>"

lemma ex_usage:
  "recordUserLimits ex_limit_desired (Some (view_of ex_limits)) ex_snapshot =
     [\<lparr> uu_user_id = ''u1'', uu_inbound_connections = 3, uu_relay_connections = 1, uu_online_ips = [''198.51.100.7''],
        uu_rate_applied = False \<rparr>]"
  by code_simp

theorem reported_usage_witness:
  "\<exists>u. recordUserLimits ex_limit_desired (Some (view_of ex_limits)) ex_snapshot = [u]
     \<and> set (uu_online_ips u) \<inter> bv_relay (view_of ex_limits) = {}"
  using ex_usage reported_usage [of _ ex_limit_desired "view_of ex_limits" ex_snapshot] by simp

end
