(* ===== verification/Agent_State.thy ===== *)
theory Agent_State
  imports Go_Text Go_Time
begin

text \<open>
  The controller's state of its Helpers: \<open>agent_management.go\<close> (signed commands,
  their queue, the report that acknowledges them) and \<open>update_progress.go\<close> (the
  progress of an upgrade). The state is \<open>helperState\<close> of \<open>helper_identity.go\<close>, the
  maps that these operations use. Arguments: \<open>agent_lib\<close> (signing with a credential,
  hashing, encoding/json on the few payloads, \<open>url.Parse\<close> and the redaction of private
  text by a regular expression), the random command id, whether the state file could
  be written. Messages to people are short ASCII keys.
\<close>

section \<open>Data\<close>

record managementArtifact =
  ma_url :: string
  ma_sha256 :: string
  ma_version :: string
  ma_activate :: bool
  ma_accelerator :: string

record managementCommand =
  cm_id :: string
  cm_action :: string
  cm_payload :: string
  cm_created_at :: time
  cm_expires_at :: time
  cm_signature :: string

record managementResult =
  mr_command_id :: string
  mr_action :: string
  mr_success :: bool
  mr_message :: string
  mr_data :: string
  mr_completed_at :: time
  mr_signature :: string

record componentStatus =
  cs_installed :: bool
  cs_prepared :: bool
  cs_version :: string
  cs_binary_path :: string
  cs_config_path :: string
  cs_service :: string
  cs_active :: bool
  cs_ready :: bool
  cs_error :: string

record externalOwnershipStatus =
  eo_prepared :: bool
  eo_armed :: bool
  eo_enabled :: bool
  eo_service_owned :: bool
  eo_runtime_owned :: bool
  eo_single_core :: bool
  eo_official_config :: bool
  eo_service_active :: bool
  eo_core_ready :: bool
  eo_main_pid :: int
  eo_runtime_binary :: string
  eo_last_repair_at :: time
  eo_last_repair_reason :: string
  eo_port_conflicts :: "(int \<times> int \<times> string) list"
  eo_error :: string

record updateProgressLine =
  pl_at :: time
  pl_phase :: string
  pl_text :: string

record componentUpdateProgress =
  up_component :: string
  up_phase :: string
  up_target_version :: string
  up_message :: string
  up_updated_at :: time
  up_started_at :: time
  up_percent :: "int option"
  up_bytes_done :: int
  up_bytes_total :: int
  up_log :: "updateProgressLine list"

datatype logHousekeepingStatus =
  LogStatus (lh_journald_capped: bool) (lh_agent_logrotate: bool) (lh_disk_usage: string) (lh_agent_bytes: int)
    (lh_checked_at: time) (lh_unit_lines: "(string \<times> int) list") (lh_sample_complete: bool) (lh_before: "logHousekeepingStatus option")

record takeoverState =
  tk_mode :: string
  tk_status :: string
  tk_message :: string
  tk_completed_at :: time

record agentStatus =
  as_helper :: componentStatus
  as_core :: componentStatus
  as_run_user :: string
  as_architecture :: string
  as_capabilities :: "string list"
  as_last_operation :: "managementResult option"
  as_reported_at :: time
  as_ownership :: externalOwnershipStatus
  as_core_mode :: string
  as_single_core :: bool
  as_official_agent :: string
  as_takeover :: takeoverState
  as_machine_id :: string
  as_update :: "componentUpdateProgress option"
  as_logs :: "logHousekeepingStatus option"

definition zero_component :: componentStatus where
  "zero_component = \<lparr>cs_installed = False, cs_prepared = False, cs_version = [], cs_binary_path = [], cs_config_path = [], cs_service = [],
     cs_active = False, cs_ready = False, cs_error = []\<rparr>"

definition zero_status :: agentStatus where
  "zero_status = \<lparr>as_helper = zero_component, as_core = zero_component, as_run_user = [], as_architecture = [], as_capabilities = [],
     as_last_operation = None, as_reported_at = 0,
     as_ownership = \<lparr>eo_prepared = False, eo_armed = False, eo_enabled = False, eo_service_owned = False, eo_runtime_owned = False,
       eo_single_core = False, eo_official_config = False, eo_service_active = False, eo_core_ready = False, eo_main_pid = 0,
       eo_runtime_binary = [], eo_last_repair_at = 0, eo_last_repair_reason = [], eo_port_conflicts = [], eo_error = []\<rparr>,
     as_core_mode = [], as_single_core = False, as_official_agent = [],
     as_takeover = \<lparr>tk_mode = [], tk_status = [], tk_message = [], tk_completed_at = 0\<rparr>, as_machine_id = [], as_update = None, as_logs = None\<rparr>"

record helperServerIdentity =
  id_official_server_id :: string
  id_custom_uuid :: string
  id_token_hash :: string
  id_pending_hash :: string
  id_pending_expires_at :: time
  id_created_at :: time
  id_updated_at :: time
  id_last_seen_at :: time
  id_last_version :: string
  id_machine_id :: string

record helperBatchRow =
  br_server_id :: string
  br_name :: string
  br_version :: string
  br_phase :: string
  br_reason :: string
  br_first_upgrade :: bool
  br_command_id :: string
  br_started_at :: time
  br_finished_at :: time
  br_artifact :: managementArtifact

record helperBatchJob =
  bj_id :: string
  bj_phase :: string
  bj_started_at :: time
  bj_updated_at :: time
  bj_finished_at :: time
  bj_stopped :: bool
  bj_rows :: "helperBatchRow list"

record coreModeIntent =
  ci_desired_mode :: string
  ci_custom_core_owned :: bool
  ci_pending_change :: bool
  ci_lifecycle_source :: string
  ci_machine_id :: string
  ci_repair_status :: string
  ci_waiting_official_since :: time
  ci_repair_attempts :: int
  ci_last_repair_at :: time
  ci_last_repair_reason :: string
  ci_last_repair_error :: string
  ci_next_repair_at :: time
  ci_last_observed_mode :: string
  ci_drift_detected_at :: time
  ci_formal_changed_from :: string
  ci_formal_changed_at :: time
  ci_formal_change_unconfirmed :: bool
  ci_updated_at :: time

record helperInstallToken =
  it_token_hash :: string
  it_official_server_id :: string
  it_custom_uuid :: string
  it_helper_token :: string
  it_helper_token_hash :: string
  it_created_at :: time
  it_expires_at :: time
  it_preserve_existing :: bool
  it_install_mode :: string

record helperRebindToken =
  rb_official_server_id :: string
  rb_expires_at :: time

text \<open>
  Reading a missing key of the maps gives the zero value, as in Go; \<open>hs_statuses\<close>,
  \<open>hs_commands\<close> and \<open>hs_results\<close> are only read that way.
\<close>

record helperState =
  hs_batch :: "helperBatchJob option"
  hs_accelerator :: "string option"
  hs_servers :: "string \<Rightarrow> helperServerIdentity option"
  hs_commands :: "string \<Rightarrow> managementCommand list"
  hs_results :: "string \<Rightarrow> managementResult list"
  hs_statuses :: "string \<Rightarrow> agentStatus"
  hs_intents :: "string \<Rightarrow> coreModeIntent option"
  hs_installs :: "(string \<times> helperInstallToken) list"
  hs_rebinds :: "(string \<times> helperRebindToken) list"
  hs_progress_saved_at :: time
  hs_progress_dirty :: bool
  hs_volatile_dirty :: bool
  hs_saved_at :: time

definition new_state :: helperState where
  "new_state = \<lparr>hs_batch = None, hs_accelerator = None, hs_servers = (\<lambda>_. None), hs_commands = (\<lambda>_. []), hs_results = (\<lambda>_. []),
     hs_statuses = (\<lambda>_. zero_status), hs_intents = (\<lambda>_. None), hs_installs = [], hs_rebinds = [], hs_progress_saved_at = 0, hs_progress_dirty = False,
     hs_volatile_dirty = False, hs_saved_at = 0\<rparr>"

definition managementCommandTTL :: duration where "managementCommandTTL = 15 * minute"
definition managementHistoryMax :: nat where "managementHistoryMax = 20"
definition managementQueueMax :: nat where "managementQueueMax = 16"
definition helperBatchTimeout :: duration where "helperBatchTimeout = 5 * minute"
definition helperStaleTimeout :: duration where "helperStaleTimeout = 15 * second"
definition helperStateFlushInterval :: duration where "helperStateFlushInterval = 30 * second"
definition helperStateBatchFlushInterval :: duration where "helperStateBatchFlushInterval = 5 * second"
definition helperStateFlushTick :: duration where "helperStateFlushTick = second"
definition helperStateFlushSlack :: duration where "helperStateFlushSlack = helperStateFlushTick div 2"

text \<open>
  \<open>saveLocked\<close> when the file could be written, at the time \<open>clock\<close> of the write; an
  operation whose save fails undoes its change.
\<close>

definition saved :: "time \<Rightarrow> helperState \<Rightarrow> helperState" where
  "saved clock s = s\<lparr>hs_saved_at := clock, hs_volatile_dirty := False, hs_progress_dirty := False\<rparr>"

definition markVolatileLocked :: "helperState \<Rightarrow> helperState" where
  "markVolatileLocked s = s\<lparr>hs_volatile_dirty := True\<rparr>"

section \<open>Libraries\<close>

record url_parts =
  url_scheme :: string
  url_host :: string
  url_hostname :: string
  url_user :: bool
  url_opaque :: string
  url_raw_query :: string
  url_fragment :: string
  url_escaped_path :: string

text \<open>\<open>lib_config_valid\<close>: the payload decodes to an object whose config is valid JSON.\<close>

record agent_lib =
  lib_redact :: "string \<Rightarrow> string"
  lib_hash :: "string \<Rightarrow> string"
  lib_sign :: "string \<Rightarrow> managementCommand \<Rightarrow> string option"
  lib_sign_result :: "string \<Rightarrow> managementResult \<Rightarrow> string option"
  lib_artifact :: "string \<Rightarrow> managementArtifact option"
  lib_artifact_json :: "managementArtifact \<Rightarrow> string"
  lib_mode :: "string \<Rightarrow> string option"
  lib_mode_json :: "string \<Rightarrow> string"
  lib_config_valid :: "string \<Rightarrow> bool"
  lib_url :: "string \<Rightarrow> url_parts option"

section \<open>Text\<close>

definition sanitizeCoreModeMessage :: "string \<Rightarrow> string" where
  "sanitizeCoreModeMessage v = (let t = trim_space v in if length t > 512 then to_valid_utf8 (take 512 t) else t)"

definition sanitizeUpdateText :: "agent_lib \<Rightarrow> string \<Rightarrow> string" where
  "sanitizeUpdateText lib v = take_runes 200 (to_valid_utf8 (sanitizeCoreModeMessage (go_join '' '' (go_fields (lib_redact lib v)))))"

section \<open>The progress of an update\<close>

definition terminalUpdatePhase :: "string \<Rightarrow> bool" where
  "terminalUpdatePhase phase \<longleftrightarrow> phase = ''success'' \<or> phase = ''failed'' \<or> phase = ''rolled_back''"

definition updateRunning :: "componentUpdateProgress option \<Rightarrow> bool" where
  "updateRunning p \<longleftrightarrow> (case p of None \<Rightarrow> False | Some u \<Rightarrow> up_phase u \<noteq> [] \<and> \<not> terminalUpdatePhase (up_phase u))"

definition appendLine :: "agent_lib \<Rightarrow> time \<Rightarrow> string \<Rightarrow> componentUpdateProgress \<Rightarrow> componentUpdateProgress" where
  "appendLine lib now line_text p =
     (let t = sanitizeUpdateText lib line_text
      in if t = [] then p
         else p\<lparr>up_log := keep_last 40 (up_log p @ [\<lparr>pl_at = now, pl_phase = up_phase p, pl_text = t\<rparr>])\<rparr>)"

definition updatePhaseText :: "string \<Rightarrow> string" where
  "updatePhaseText phase =
     (if phase \<in> set [''dispatching'', ''downloading'', ''verifying'', ''installing'', ''restarting'', ''reconnecting'', ''success'',
        ''failed'', ''rolled_back''] then ''phase '' @ phase else [])"

definition dispatchedUpdate :: "agent_lib \<Rightarrow> string \<Rightarrow> string \<Rightarrow> time \<Rightarrow> componentUpdateProgress" where
  "dispatchedUpdate lib component version now =
     (let v = sanitizeUpdateText lib version
      in appendLine lib now (''dispatched '' @ v)
           \<lparr>up_component = component, up_phase = ''dispatching'', up_target_version = v, up_message = [], up_updated_at = now,
            up_started_at = now, up_percent = None, up_bytes_done = 0, up_bytes_total = 0, up_log = []\<rparr>)"

text \<open>The new progress; \<open>None\<close> when a finished attempt must not be reopened.\<close>

definition merge_progress ::
  "agent_lib \<Rightarrow> time \<Rightarrow> componentUpdateProgress option \<Rightarrow> componentUpdateProgress \<Rightarrow> string \<Rightarrow> componentUpdateProgress option" where
  "merge_progress lib now previous posted log_line =
     (let p0 = posted\<lparr>up_updated_at := now, up_target_version := sanitizeUpdateText lib (up_target_version posted),
                      up_message := sanitizeUpdateText lib (up_message posted)\<rparr>;
          finish = (\<lambda>p changed.
            let p1 = (if up_started_at p = 0 then p\<lparr>up_started_at := now\<rparr> else p);
                p2 = (if changed then appendLine lib now (updatePhaseText (up_phase p1)) p1 else p1);
                p3 = appendLine lib now (up_message p2) p2
            in if log_line \<noteq> up_message p3 then appendLine lib now log_line p3 else p3)
      in case previous of
           None \<Rightarrow> Some (finish p0 True)
         | Some q \<Rightarrow>
             if up_component q = up_component p0 \<and> (up_target_version p0 = [] \<or> up_target_version q = up_target_version p0)
             then (if terminalUpdatePhase (up_phase q)
                      \<and> (\<not> terminalUpdatePhase (up_phase p0) \<or> up_phase q \<noteq> ''success'' \<and> up_phase p0 = ''success'') then None
                   else let changed = (up_phase q \<noteq> up_phase p0);
                            p1 = p0\<lparr>up_started_at := (if up_started_at q = 0 then up_updated_at q else up_started_at q), up_log := up_log q,
                                    up_target_version := (if up_target_version p0 = [] then up_target_version q else up_target_version p0)\<rparr>;
                            p2 = (if \<not> changed \<and> up_percent p1 = None
                                  then p1\<lparr>up_percent := up_percent q, up_bytes_done := up_bytes_done q, up_bytes_total := up_bytes_total q\<rparr>
                                  else p1)
                        in Some (finish p2 changed))
             else Some (finish p0 True))"

definition set_update :: "string \<Rightarrow> componentUpdateProgress option \<Rightarrow> helperState \<Rightarrow> helperState" where
  "set_update server u s = s\<lparr>hs_statuses := (hs_statuses s)(server := (hs_statuses s server)\<lparr>as_update := u\<rparr>)\<rparr>"

definition recordUpdateProgressAt ::
  "agent_lib \<Rightarrow> bool \<Rightarrow> time \<Rightarrow> time \<Rightarrow> string \<Rightarrow> componentUpdateProgress \<Rightarrow> string \<Rightarrow> helperState \<Rightarrow> helperState \<times> bool" where
  "recordUpdateProgressAt lib save_ok clock now server posted log_line s =
     (let previous = as_update (hs_statuses s server)
      in case merge_progress lib now previous posted log_line of
           None \<Rightarrow> (s, True)
         | Some p \<Rightarrow>
             (let s1 = (set_update server (Some p) s)\<lparr>hs_progress_dirty := True\<rparr>
              in if time_sub now (hs_progress_saved_at s1) < 5 * second then (s1, True)
                 else if save_ok then ((saved clock s1)\<lparr>hs_progress_saved_at := now\<rparr>, True)
                 else (set_update server previous s1, False)))"

definition flushUpdateProgressLocked :: "bool \<Rightarrow> time \<Rightarrow> time \<Rightarrow> helperState \<Rightarrow> helperState" where
  "flushUpdateProgressLocked save_ok clock now s =
     (if \<not> hs_progress_dirty s \<or> time_sub now (hs_progress_saved_at s) < 5 * second \<or> \<not> save_ok then s
      else (saved clock s)\<lparr>hs_progress_saved_at := now\<rparr>)"

section \<open>The queue of commands\<close>

definition updateAction :: "string \<Rightarrow> bool" where
  "updateAction action \<longleftrightarrow> action = ''helper.update'' \<or> action = ''core.update'' \<or> action = ''core.install''"

definition updateQueuedLocked :: "string \<Rightarrow> time \<Rightarrow> helperState \<Rightarrow> bool" where
  "updateQueuedLocked server now s = list_ex (\<lambda>c. updateAction (cm_action c) \<and> now < cm_expires_at c) (hs_commands s server)"

definition upgradeInProgressLocked :: "string \<Rightarrow> time \<Rightarrow> helperState \<Rightarrow> bool" where
  "upgradeInProgressLocked server now s \<longleftrightarrow>
     updateQueuedLocked server now s
     \<or> (case as_update (hs_statuses s server) of
          None \<Rightarrow> False
        | Some p \<Rightarrow> updateRunning (Some p) \<and> time_sub now (up_updated_at p) < managementCommandTTL)"

definition batchRowRunning :: "string \<Rightarrow> bool" where
  "batchRowRunning phase \<longleftrightarrow> phase \<noteq> ''queued'' \<and> phase \<noteq> ''skipped'' \<and> phase \<noteq> ''cancelled'' \<and> \<not> terminalUpdatePhase phase"

definition batchServerBusyLocked :: "string \<Rightarrow> helperState \<Rightarrow> bool" where
  "batchServerBusyLocked server s =
     (case hs_batch s of
        None \<Rightarrow> False
      | Some job \<Rightarrow> bj_phase job = ''running''
          \<and> list_ex (\<lambda>r. br_server_id r = server \<and> (br_phase r = ''queued'' \<or> batchRowRunning (br_phase r))) (bj_rows job))"

definition new_command :: "string \<Rightarrow> string \<Rightarrow> string \<Rightarrow> time \<Rightarrow> duration \<Rightarrow> managementCommand" where
  "new_command uuid action body now life = \<lparr>cm_id = uuid, cm_action = action, cm_payload = body, cm_created_at = now,
     cm_expires_at = now + life, cm_signature = []\<rparr>"

definition artifact_version :: "agent_lib \<Rightarrow> string \<Rightarrow> string" where
  "artifact_version lib body = (case lib_artifact lib body of None \<Rightarrow> [] | Some a \<Rightarrow> ma_version a)"

definition update_component :: "string \<Rightarrow> string" where
  "update_component action = (if action = ''helper.update'' then ''helper'' else ''core'')"

text \<open>\<open>uuid\<close> is the random id, \<open>None\<close> when there is no randomness.\<close>

definition enqueueManagementCommandLocked ::
  "agent_lib \<Rightarrow> string option \<Rightarrow> string \<Rightarrow> string \<Rightarrow> string \<Rightarrow> time \<Rightarrow> bool \<Rightarrow> helperState \<Rightarrow> string + helperState \<times> managementCommand" where
  "enqueueManagementCommandLocked lib uuid server action body now batch s =
     (if updateAction action \<and> (upgradeInProgressLocked server now s \<or> \<not> batch \<and> batchServerBusyLocked server s)
      then Inl ''upgrade in progress''
      else case hs_servers s server of
        None \<Rightarrow> Inl ''helper is not registered''
      | Some ident \<Rightarrow>
          if id_token_hash ident = [] then Inl ''helper is not registered''
          else if managementQueueMax \<le> length (hs_commands s server) then Inl ''management queue is full''
          else case uuid of
            None \<Rightarrow> Inl ''random''
          | Some u \<Rightarrow>
              (let c = new_command u action body now (if batch then helperBatchTimeout else managementCommandTTL)
               in case lib_sign lib (id_token_hash ident) c of
                    None \<Rightarrow> Inl ''invalid helper signing key''
                  | Some sig \<Rightarrow>
                      (let c1 = c\<lparr>cm_signature := sig\<rparr>;
                           s1 = s\<lparr>hs_commands := (hs_commands s)(server := hs_commands s server @ [c1])\<rparr>;
                           s2 = (if updateAction action
                                 then set_update server (Some (dispatchedUpdate lib (update_component action) (artifact_version lib body) now)) s1
                                 else s1)
                       in Inr (s2, c1))))"

section \<open>Commands from operators\<close>

definition managementActions :: "string list" where
  "managementActions =
     [''helper.status'', ''helper.version'', ''helper.update'', ''helper.uninstall'', ''core.status'', ''core.version'', ''core.install'',
      ''core.update'', ''core.restart'', ''core.stop'', ''core.rollback'', ''core.config.apply'', ''official.xray.stop'',
      ''official.xray.start'', ''official.xray.attach-custom'', ''official.xray.detach-custom'', ''external.ownership.status'',
      ''external.ownership.prepare'', ''external.ownership.arm'', ''external.ownership.activate'', ''external.ownership.rollback'',
      ''external.takeover'', ''core.mode.apply'', ''connection.status'', ''connection.settings'']"

definition accelerator_valid :: "agent_lib \<Rightarrow> string \<Rightarrow> bool" where
  "accelerator_valid lib v =
     (let t = trim_space v
      in t = [] \<or> (case lib_url lib t of
           None \<Rightarrow> False
         | Some u \<Rightarrow> url_scheme u = ''https'' \<and> url_host u \<noteq> [] \<and> \<not> url_user u \<and> url_opaque u = []
             \<and> url_raw_query u = [] \<and> url_fragment u = []))"

definition IsPublicAsset :: "agent_lib \<Rightarrow> string \<Rightarrow> bool" where
  "IsPublicAsset lib v =
     (case lib_url lib (trim_space v) of
        None \<Rightarrow> False
      | Some u \<Rightarrow> url_scheme u = ''https'' \<and> go_fold_ascii (url_hostname u) = ''github.com'' \<and> \<not> url_user u
          \<and> url_raw_query u = [] \<and> url_fragment u = []
          \<and> (has_prefix (url_escaped_path u) ''/ImoLR/mmwx-custom/releases/download/''
             \<or> has_prefix (url_escaped_path u) ''/ImoLR/mmwx-custom/releases/latest/download/''))"

definition hex_string :: "string \<Rightarrow> bool" where
  "hex_string v \<longleftrightarrow> even (length v) \<and> list_all is_hex v"

definition validateManagementPayload :: "agent_lib \<Rightarrow> string \<Rightarrow> string \<Rightarrow> string option" where
  "validateManagementPayload lib action body =
     (if 3 * 2 ^ 20 < int (length body) then Some ''management payload too large''
      else if action \<in> set [''helper.uninstall'', ''helper.status'', ''helper.version'', ''core.status'', ''core.version'', ''core.restart'',
        ''core.stop'', ''core.rollback'', ''official.xray.stop'', ''official.xray.start'', ''official.xray.attach-custom'',
        ''official.xray.detach-custom'', ''external.ownership.status'', ''external.ownership.prepare'', ''external.ownership.arm'',
        ''external.ownership.activate'', ''external.ownership.rollback'', ''external.takeover'', ''connection.status'', ''connection.settings'']
      then (if trim_space body \<noteq> [] \<and> body \<noteq> ''{}'' \<and> body \<noteq> ''null'' then Some ''action does not accept payload'' else None)
      else if action \<in> set [''helper.update'', ''core.install'', ''core.update'']
      then (case lib_artifact lib body of
              None \<Rightarrow> Some ''invalid artifact payload''
            | Some a \<Rightarrow>
                if \<not> IsPublicAsset lib (ma_url a) then Some ''artifact URL is not allowed''
                else if length (ma_sha256 a) \<noteq> 64 then Some ''artifact sha256 is required''
                else if \<not> hex_string (ma_sha256 a) then Some ''artifact sha256 is invalid''
                else if \<not> accelerator_valid lib (ma_accelerator a) then Some ''GitHub accelerator must be an HTTPS URL'' else None)
      else if action = ''core.config.apply''
      then (if lib_config_valid lib body then None else Some ''valid Xray config is required'')
      else if action = ''core.mode.apply''
      then (if lib_mode lib body = Some ''external'' \<or> lib_mode lib body = Some ''embedded'' then None else Some ''valid desired_mode is required'')
      else None)"

definition DefaultAccelerator :: string where "DefaultAccelerator = ''https://ghfast.top/''"

definition githubAccelerator :: "helperState \<Rightarrow> string" where
  "githubAccelerator s = (case hs_accelerator s of None \<Rightarrow> DefaultAccelerator | Some a \<Rightarrow> a)"

definition withCurrentGitHubAccelerator :: "agent_lib \<Rightarrow> string \<Rightarrow> string \<Rightarrow> helperState \<Rightarrow> string option" where
  "withCurrentGitHubAccelerator lib action body s =
     (if \<not> updateAction action then Some body
      else map_option (\<lambda>a. lib_artifact_json lib (a\<lparr>ma_accelerator := githubAccelerator s\<rparr>)) (lib_artifact lib body))"

definition enqueueManagementCommand ::
  "agent_lib \<Rightarrow> bool \<Rightarrow> time \<Rightarrow> string option \<Rightarrow> time \<Rightarrow> string \<Rightarrow> string \<Rightarrow> string \<Rightarrow> helperState \<Rightarrow> helperState \<times> (string + managementCommand)" where
  "enqueueManagementCommand lib save_ok clock uuid now server action body s =
     (if action \<notin> set managementActions then (s, Inl ''unsupported management action'')
      else case withCurrentGitHubAccelerator lib action body s of
        None \<Rightarrow> (s, Inl ''invalid artifact payload'')
      | Some body' \<Rightarrow>
          (case validateManagementPayload lib action body' of
             Some e \<Rightarrow> (s, Inl e)
           | None \<Rightarrow>
               (case enqueueManagementCommandLocked lib uuid server action body' now False s of
                  Inl e \<Rightarrow> (s, Inl e)
                | Inr (s', c) \<Rightarrow> if save_ok then (saved clock s', Inr c) else (s, Inl ''save''))))"

section \<open>A report\<close>

definition completeObservedUpdate :: "agent_lib \<Rightarrow> componentUpdateProgress option \<Rightarrow> agentStatus \<Rightarrow> time \<Rightarrow> componentUpdateProgress option" where
  "completeObservedUpdate lib progress status now =
     (case progress of
        None \<Rightarrow> None
      | Some p \<Rightarrow>
          if up_target_version p = [] \<or> terminalUpdatePhase (up_phase p) then Some p
          else (let installed = (if up_component p = ''helper'' then cs_version (as_helper status)
                                 else if up_component p = ''core'' then cs_version (as_core status) else [])
                in if installed = up_target_version p \<or> up_component p = ''core'' \<and> str_contains installed (up_target_version p)
                   then Some (appendLine lib now (''confirmed '' @ up_target_version p)
                          (p\<lparr>up_phase := ''success'', up_message := [], up_updated_at := now,
                             up_started_at := (if up_started_at p = 0 then up_updated_at p else up_started_at p)\<rparr>))
                   else Some p))"

definition stable_logs :: "logHousekeepingStatus \<Rightarrow> logHousekeepingStatus" where
  "stable_logs l = LogStatus (lh_journald_capped l) (lh_agent_logrotate l) [] 0 0 [] False (lh_before l)"

text \<open>Two snapshots that differ only in the report time and the log samples have the same JSON.\<close>

definition heartbeatOnlyStatusChange :: "agentStatus \<Rightarrow> agentStatus \<Rightarrow> bool" where
  "heartbeatOnlyStatusChange previous next_status =
     (let stable = (\<lambda>st. st\<lparr>as_reported_at := 0, as_logs := map_option stable_logs (as_logs st)\<rparr>)
      in stable previous = stable next_status)"

definition validPersistentMachineID :: "string \<Rightarrow> bool" where
  "validPersistentMachineID v \<longleftrightarrow> 8 \<le> length v \<and> length v \<le> 128 \<and> list_all (\<lambda>c. is_alnum c \<or> c = CHR ''-'' \<or> c = CHR ''_'') v"

definition acceptsPendingToken :: "helperServerIdentity \<Rightarrow> string \<Rightarrow> time \<Rightarrow> bool" where
  "acceptsPendingToken ident token_hash now \<longleftrightarrow>
     id_pending_hash ident \<noteq> [] \<and> id_pending_hash ident = token_hash \<and> now < id_pending_expires_at ident"

text \<open>A result whose signature is wrong: an error for a queued command, ignored otherwise.\<close>

definition check_result :: "agent_lib \<Rightarrow> string \<Rightarrow> managementCommand list \<Rightarrow> managementResult option \<Rightarrow> managementResult option option" where
  "check_result lib token_hash commands result =
     (case result of
        None \<Rightarrow> Some None
      | Some r \<Rightarrow>
          if lib_sign_result lib token_hash r = Some (mr_signature r) then Some (Some r)
          else if list_ex (\<lambda>c. cm_id c = mr_command_id r) commands then None else Some None)"

definition acknowledges :: "managementCommand list \<Rightarrow> managementResult \<Rightarrow> bool" where
  "acknowledges commands r =
     (case commands of [] \<Rightarrow> False | c # _ \<Rightarrow> cm_id c = mr_command_id r \<and> cm_action c = mr_action r)"

text \<open>A failed result of the update that is in progress fails it.\<close>

definition fail_update :: "agent_lib \<Rightarrow> managementResult \<Rightarrow> time \<Rightarrow> componentUpdateProgress option \<Rightarrow> componentUpdateProgress option" where
  "fail_update lib r now progress =
     (case progress of
        None \<Rightarrow> None
      | Some p \<Rightarrow>
          if \<not> mr_success r \<and> \<not> terminalUpdatePhase (up_phase p)
             \<and> (mr_action r = up_component p @ ''.update'' \<or> mr_action r = ''core.install'' \<and> up_component p = ''core'')
          then (let f = p\<lparr>up_phase := ''failed'', up_updated_at := now, up_message := sanitizeUpdateText lib (mr_message r)\<rparr>
                in Some (appendLine lib now (''failed: '' @ up_message f) f))
          else Some p)"

fun drop_expired :: "time \<Rightarrow> managementCommand list \<Rightarrow> managementCommand list" where
  "drop_expired now [] = []"
| "drop_expired now (c # cs) = (if cm_expires_at c < now then drop_expired now cs else c # cs)"

definition resign :: "agent_lib \<Rightarrow> string \<Rightarrow> managementCommand list \<Rightarrow> managementCommand list option" where
  "resign lib token_hash commands =
     (if list_all (\<lambda>c. lib_sign lib token_hash c \<noteq> None) commands
      then Some (map (\<lambda>c. c\<lparr>cm_signature := the (lib_sign lib token_hash c)\<rparr>) commands) else None)"

text \<open>What a report changes before anything is saved: status, results, queue and machine id.\<close>

definition report_status :: "agent_lib \<Rightarrow> time \<Rightarrow> string \<Rightarrow> agentStatus \<Rightarrow> managementResult option \<Rightarrow> helperState \<Rightarrow> agentStatus" where
  "report_status lib now server st result s =
     (let st1 = st\<lparr>as_reported_at := now, as_capabilities := sort (as_capabilities st)\<rparr>;
          st2 = (if as_update st1 = None
                 then st1\<lparr>as_update := completeObservedUpdate lib (as_update (hs_statuses s server)) st1 now\<rparr> else st1)
      in case result of
           Some r \<Rightarrow> if acknowledges (hs_commands s server) r then st2\<lparr>as_update := fail_update lib r now (as_update st2)\<rparr> else st2
         | None \<Rightarrow> st2)"

definition report_queue :: "managementResult option \<Rightarrow> managementCommand list \<Rightarrow> managementCommand list" where
  "report_queue result commands =
     (case result of Some r \<Rightarrow> if acknowledges commands r then tl commands else commands | None \<Rightarrow> commands)"

definition promoted :: "helperServerIdentity \<Rightarrow> string \<Rightarrow> time \<Rightarrow> helperServerIdentity" where
  "promoted ident token_hash now =
     ident\<lparr>id_token_hash := token_hash, id_pending_hash := [], id_pending_expires_at := 0, id_updated_at := now\<rparr>"

definition promote_state :: "string \<Rightarrow> helperServerIdentity \<Rightarrow> time \<Rightarrow> helperState \<Rightarrow> helperState" where
  "promote_state server ident now s =
     s\<lparr>hs_intents := (case hs_intents s server of None \<Rightarrow> hs_intents s
          | Some i \<Rightarrow> (hs_intents s)(server := Some (i\<lparr>ci_machine_id := id_machine_id ident, ci_updated_at := now\<rparr>))),
       hs_rebinds := filter (\<lambda>(_, rb). rb_official_server_id rb \<noteq> server) (hs_rebinds s)\<rparr>"

definition report_machine :: "(agentStatus \<times> managementResult option) option \<Rightarrow> string" where
  "report_machine rep = (case rep of None \<Rightarrow> [] | Some (st, _) \<Rightarrow> trim_space (as_machine_id st))"

definition report_result :: "(agentStatus \<times> managementResult option) option \<Rightarrow> managementResult option" where
  "report_result rep = (case rep of None \<Rightarrow> None | Some (_, r) \<Rightarrow> r)"

definition record_report :: "agent_lib \<Rightarrow> time \<Rightarrow> string \<Rightarrow> (agentStatus \<times> managementResult option) option \<Rightarrow> helperState \<Rightarrow> helperState" where
  "record_report lib now server rep s =
     (case rep of
        None \<Rightarrow> s
      | Some (st, result) \<Rightarrow>
          s\<lparr>hs_statuses := (hs_statuses s)(server := report_status lib now server st result s),
            hs_results := (case result of None \<Rightarrow> hs_results s
              | Some r \<Rightarrow> (hs_results s)(server := keep_last managementHistoryMax (hs_results s server @ [r])))\<rparr>)"

text \<open>A report that was checked; \<open>promote\<close> when it was sent with the credential of a reinstall.\<close>

definition apply_report ::
  "agent_lib \<Rightarrow> bool \<Rightarrow> time \<Rightarrow> time \<Rightarrow> string \<Rightarrow> string \<Rightarrow> bool \<Rightarrow> helperServerIdentity \<Rightarrow> (agentStatus \<times> managementResult option) option
     \<Rightarrow> helperState \<Rightarrow> helperState \<times> (string + managementCommand option)" where
  "apply_report lib save_ok clock now server token_hash promote ident0 rep s =
     (let machine = report_machine rep;
          ident1 = (if rep \<noteq> None \<and> validPersistentMachineID machine then ident0\<lparr>id_machine_id := machine, id_updated_at := now\<rparr> else ident0);
          s1 = record_report lib now server rep s;
          queue = report_queue (report_result rep) (hs_commands s server);
          commands0 = drop_expired now queue
      in case (if promote then resign lib token_hash commands0 else Some commands0) of
           None \<Rightarrow> (s1\<lparr>hs_commands := (hs_commands s1)(server := queue)\<rparr>, Inl ''invalid helper signing key'')
         | Some commands \<Rightarrow>
             (let ident2 = (if promote then promoted ident1 token_hash now else ident1);
                  s2 = (if promote then promote_state server ident1 now s1 else s1);
                  durable = (promote \<or> length commands \<noteq> length (hs_commands s server) \<or> id_machine_id ident2 \<noteq> id_machine_id ident0
                    \<or> rep \<noteq> None \<and> (report_result rep \<noteq> None \<or> \<not> heartbeatOnlyStatusChange (hs_statuses s server) (hs_statuses s2 server)));
                  s3 = s2\<lparr>hs_servers := (hs_servers s2)(server := Some ident2), hs_commands := (hs_commands s2)(server := commands)\<rparr>;
                  out = Inr (case commands of [] \<Rightarrow> None | c # _ \<Rightarrow> Some c)
              in if \<not> durable then ((if rep \<noteq> None then markVolatileLocked s3 else s3), out)
                 else if save_ok then (saved clock s3, out)
                 else (s, Inl ''save'')))"

definition acceptManagementReport ::
  "agent_lib \<Rightarrow> bool \<Rightarrow> time \<Rightarrow> time \<Rightarrow> string \<Rightarrow> string \<Rightarrow> (agentStatus \<times> managementResult option) option \<Rightarrow> helperState
     \<Rightarrow> helperState \<times> (string + managementCommand option)" where
  "acceptManagementReport lib save_ok clock now server token report s =
     (case hs_servers s server of
        None \<Rightarrow> (s, Inl ''helper is not registered'')
      | Some ident \<Rightarrow>
          (let token_hash = lib_hash lib token;
               promote = acceptsPendingToken ident token_hash now
           in if id_token_hash ident \<noteq> token_hash \<and> \<not> promote then (s, Inl ''helper credential is no longer authorized'')
              else (case report of
                      None \<Rightarrow> apply_report lib save_ok clock now server token_hash promote ident None s
                    | Some (st, result) \<Rightarrow>
                        (case check_result lib token_hash (hs_commands s server) result of
                           None \<Rightarrow> (s, Inl ''invalid management result signature'')
                         | Some checked \<Rightarrow>
                             apply_report lib save_ok clock now server token_hash promote ident (Some (st, checked)) s))))"

section \<open>Upgrades nobody reports on\<close>

definition expired_update :: "agent_lib \<Rightarrow> time \<Rightarrow> componentUpdateProgress \<Rightarrow> componentUpdateProgress" where
  "expired_update lib now p =
     (let text' = ''no progress for 15 minutes: '' @ (if up_component p = ''core'' then ''Core'' else ''Helper'');
          f = p\<lparr>up_phase := ''failed'', up_updated_at := now, up_message := text'\<rparr>
      in appendLine lib now text' f)"

definition update_stale :: "string \<Rightarrow> time \<Rightarrow> helperState \<Rightarrow> bool" where
  "update_stale server now s =
     (case as_update (hs_statuses s server) of
        None \<Rightarrow> False
      | Some p \<Rightarrow> updateRunning (Some p) \<and> managementCommandTTL \<le> time_sub now (up_updated_at p)
          \<and> \<not> updateQueuedLocked server now s \<and> \<not> batchServerBusyLocked server s)"

text \<open>The loop visits each server once and changes only its own entries. \<open>known\<close> are the servers with a status.\<close>

definition expireStaleUpdatesLocked :: "agent_lib \<Rightarrow> time \<Rightarrow> string list \<Rightarrow> helperState \<Rightarrow> helperState" where
  "expireStaleUpdatesLocked lib now known s =
     s\<lparr>hs_statuses := (\<lambda>server. if server \<in> set known \<and> update_stale server now s
          then (hs_statuses s server)\<lparr>as_update := map_option (expired_update lib now) (as_update (hs_statuses s server))\<rparr>
          else hs_statuses s server),
       hs_commands := (\<lambda>server. if server \<in> set known \<and> update_stale server now s
          then filter (\<lambda>c. \<not> updateAction (cm_action c)) (hs_commands s server) else hs_commands s server),
       hs_progress_dirty := hs_progress_dirty s \<or> list_ex (\<lambda>server. update_stale server now s) known\<rparr>"

definition flushVolatileLocked :: "bool \<Rightarrow> time \<Rightarrow> time \<Rightarrow> helperState \<Rightarrow> helperState" where
  "flushVolatileLocked save_ok now flush_failed_at s =
     (let interval = (case hs_batch s of Some job \<Rightarrow> if bj_phase job = ''running'' then helperStateBatchFlushInterval else helperStateFlushInterval
                      | None \<Rightarrow> helperStateFlushInterval)
      in if \<not> hs_volatile_dirty s \<or> time_sub now (hs_saved_at s) < interval - helperStateFlushSlack \<or> time_sub now flush_failed_at < interval \<or> \<not> save_ok
         then s else saved now s)"


section \<open>A library for examples\<close>

text \<open>Signs with the credential and the id, hides nothing; a payload is the version of its artifact.\<close>

definition sample_artifact :: "string \<Rightarrow> managementArtifact" where
  "sample_artifact v = \<lparr>ma_url = ''https://github.com/ImoLR/mmwx-custom/releases/download/h'', ma_sha256 = replicate 64 (CHR ''a''),
     ma_version = v, ma_activate = False, ma_accelerator = []\<rparr>"

definition sample_lib :: agent_lib where
  "sample_lib = \<lparr>lib_redact = (\<lambda>v. v), lib_hash = (\<lambda>v. CHR ''h'' # v), lib_sign = (\<lambda>key c. Some (key @ cm_id c)),
     lib_sign_result = (\<lambda>key r. Some (key @ mr_command_id r)), lib_artifact = (\<lambda>v. Some (sample_artifact v)),
     lib_artifact_json = ma_version, lib_mode = Some, lib_mode_json = (\<lambda>v. v), lib_config_valid = (\<lambda>v. v \<noteq> []),
     lib_url = (\<lambda>v. Some \<lparr>url_scheme = ''https'', url_host = ''github.com'', url_hostname = ''github.com'', url_user = False,
       url_opaque = [], url_raw_query = [], url_fragment = [], url_escaped_path = drop 18 v\<rparr>)\<rparr>"

end
