(* ===== verification/Helper_Batch.thy ===== *)
theory Helper_Batch
  imports Agent_State
begin

text \<open>
  The batch upgrade of \<open>helper_batch.go\<close>: the preview of the servers, start, stop and
  the step the five-second scheduler takes. A row goes from queued through the phases
  that its Helper reports to a final phase; at most two rows run at a time and a row
  that has run for five minutes is given up. Arguments: the list of servers (a query),
  the release that is on offer, the random ids, whether the state file could be
  written.
\<close>

section \<open>Operations\<close>

record helperBatchServer =
  hb_id :: string
  hb_name :: string
  hb_status :: string

record releaseArtifact =
  ra_url :: string
  ra_sha256 :: string

record cachedReleaseInfo =
  ri_helper_version :: string
  ri_helper_artifacts :: "(string \<times> releaseArtifact) list"

definition capability :: "agentStatus \<Rightarrow> string \<Rightarrow> bool" where
  "capability status c = list_ex (\<lambda>d. d = c) (as_capabilities status)"

definition server_offline :: "helperBatchServer \<Rightarrow> agentStatus \<Rightarrow> time \<Rightarrow> bool" where
  "server_offline server status now \<longleftrightarrow>
     hb_status server \<noteq> ''connected'' \<or> as_reported_at status = 0 \<or> helperStaleTimeout < time_sub now (as_reported_at status)"

definition batch_artifact :: "cachedReleaseInfo \<Rightarrow> agentStatus \<Rightarrow> managementArtifact" where
  "batch_artifact release status =
     (let a = (case map_of (ri_helper_artifacts release) (as_architecture status) of None \<Rightarrow> \<lparr>ra_url = [], ra_sha256 = []\<rparr> | Some a \<Rightarrow> a)
      in \<lparr>ma_url = ra_url a, ma_sha256 = ra_sha256 a, ma_version = ri_helper_version release, ma_activate = False, ma_accelerator = []\<rparr>)"

definition token_hash_of :: "string \<Rightarrow> helperState \<Rightarrow> string" where
  "token_hash_of server s = (case hs_servers s server of None \<Rightarrow> [] | Some ident \<Rightarrow> id_token_hash ident)"

definition preview_reason :: "agent_lib \<Rightarrow> cachedReleaseInfo \<Rightarrow> time \<Rightarrow> helperState \<Rightarrow> helperBatchServer \<Rightarrow> bool \<Rightarrow> string" where
  "preview_reason lib release now s server first_upgrade =
     (let status = hs_statuses s (hb_id server)
      in if upgradeInProgressLocked (hb_id server) now s \<or> batchServerBusyLocked (hb_id server) s then ''upgrade in progress''
         else if server_offline server status now then ''offline''
         else if \<not> cs_installed (as_helper status) \<or> token_hash_of (hb_id server) s = [] then ''no helper''
         else if ri_helper_version release = [] then ''no release''
         else if cs_version (as_helper status) = ri_helper_version release then ''up to date''
         else if first_upgrade \<and> \<not> capability status ''helper.update'' then ''first upgrade by hand''
         else if map_of (ri_helper_artifacts release) (as_architecture status) = None then ''no artifact''
         else if validateManagementPayload lib ''helper.update'' (lib_artifact_json lib (batch_artifact release status)) \<noteq> None
           then ''artifact incomplete''
         else [])"

definition preview_row :: "agent_lib \<Rightarrow> cachedReleaseInfo \<Rightarrow> time \<Rightarrow> helperState \<Rightarrow> helperBatchServer \<Rightarrow> helperBatchRow" where
  "preview_row lib release now s server =
     (let status = hs_statuses s (hb_id server);
          version = trim_prefix (cs_version (as_helper status)) ''v'';
          first_upgrade = (has_prefix version ''0.1.'' \<or> version = ''0.1'' \<or> version = []);
          reason = preview_reason lib release now s server first_upgrade
      in \<lparr>br_server_id = hb_id server, br_name = hb_name server, br_version = cs_version (as_helper status),
          br_phase = (if reason \<noteq> [] then ''skipped'' else ''queued''), br_reason = reason, br_first_upgrade = first_upgrade,
          br_command_id = [], br_started_at = 0, br_finished_at = 0, br_artifact = batch_artifact release status\<rparr>)"

definition helperBatchPreviewLocked ::
  "agent_lib \<Rightarrow> helperBatchServer list \<Rightarrow> cachedReleaseInfo \<Rightarrow> time \<Rightarrow> helperState \<Rightarrow> helperBatchRow list" where
  "helperBatchPreviewLocked lib servers release now s = map (preview_row lib release now s) servers"

definition row_open :: "helperBatchRow \<Rightarrow> bool" where
  "row_open r \<longleftrightarrow> br_phase r = ''queued'' \<or> batchRowRunning (br_phase r)"

definition confirm_row :: "string list \<Rightarrow> helperBatchRow \<Rightarrow> helperBatchRow" where
  "confirm_row selected r =
     (if br_phase r = ''queued'' \<and> br_server_id r \<notin> set selected
      then r\<lparr>br_phase := ''skipped'', br_reason := ''not in the confirmed list''\<rparr> else r)"

definition batch_running :: "helperState \<Rightarrow> bool" where
  "batch_running s = (case hs_batch s of None \<Rightarrow> False | Some job \<Rightarrow> bj_phase job = ''running'')"

definition startHelperBatch ::
  "agent_lib \<Rightarrow> bool \<Rightarrow> time \<Rightarrow> string option \<Rightarrow> helperBatchServer list \<Rightarrow> cachedReleaseInfo \<Rightarrow> string list \<Rightarrow> time \<Rightarrow> helperState
     \<Rightarrow> helperState \<times> (string + helperBatchJob)" where
  "startHelperBatch lib save_ok clock uuid servers release selected now s =
     (if batch_running s then (s, Inl ''upgrade in progress'')
      else (let rows = map (confirm_row selected) (helperBatchPreviewLocked lib servers release now s)
            in if \<not> list_ex (\<lambda>r. br_phase r = ''queued'') rows then (s, Inl ''nothing to upgrade'')
               else case uuid of
                 None \<Rightarrow> (s, Inl ''random'')
               | Some u \<Rightarrow>
                   (let job = \<lparr>bj_id = u, bj_phase = ''running'', bj_started_at = now, bj_updated_at = now, bj_finished_at = 0,
                               bj_stopped = False, bj_rows = rows\<rparr>
                    in if save_ok then (saved clock (s\<lparr>hs_batch := Some job\<rparr>), Inr job) else (s, Inl ''save''))))"

definition row_failed :: "helperBatchRow \<Rightarrow> bool" where
  "row_failed r \<longleftrightarrow> br_phase r = ''failed'' \<or> br_phase r = ''rolled_back''"

definition finishHelperBatch :: "helperBatchJob \<Rightarrow> time \<Rightarrow> helperBatchJob" where
  "finishHelperBatch job now =
     (if list_ex row_open (bj_rows job) then job
      else job\<lparr>bj_phase := (if list_ex row_failed (bj_rows job) then ''failed'' else ''success''), bj_finished_at := now\<rparr>)"

definition cancel_row :: "time \<Rightarrow> helperBatchRow \<Rightarrow> helperBatchRow" where
  "cancel_row now r =
     (if br_phase r = ''queued'' then r\<lparr>br_phase := ''cancelled'', br_reason := ''stopped'', br_finished_at := now\<rparr> else r)"

definition stopHelperBatch :: "bool \<Rightarrow> time \<Rightarrow> string \<Rightarrow> time \<Rightarrow> helperState \<Rightarrow> helperState \<times> string option" where
  "stopHelperBatch save_ok clock batch_id now s =
     (case hs_batch s of
        None \<Rightarrow> (s, Some ''batch ended or changed'')
      | Some job \<Rightarrow>
          if bj_id job \<noteq> batch_id \<or> bj_phase job \<noteq> ''running'' then (s, Some ''batch ended or changed'')
          else (let job' = finishHelperBatch (job\<lparr>bj_stopped := True, bj_updated_at := now, bj_rows := map (cancel_row now) (bj_rows job)\<rparr>) now
                in if save_ok then (saved clock (s\<lparr>hs_batch := Some job'\<rparr>), None) else (s, Some ''save'')))"

text \<open>The first loop of a step, on one row that runs: what its Helper reported, then the limit.\<close>

definition own_progress :: "helperBatchRow \<Rightarrow> componentUpdateProgress \<Rightarrow> bool" where
  "own_progress r p \<longleftrightarrow> up_component p = ''helper'' \<and> up_started_at p = br_started_at r"

definition observe_row :: "componentUpdateProgress option \<Rightarrow> helperBatchRow \<Rightarrow> helperBatchRow" where
  "observe_row progress r =
     (case progress of
        None \<Rightarrow> r
      | Some p \<Rightarrow>
          if own_progress r p
          then (if terminalUpdatePhase (up_phase p)
                then r\<lparr>br_phase := up_phase p, br_reason := up_message p, br_finished_at := up_updated_at p\<rparr>
                else r\<lparr>br_phase := up_phase p\<rparr>)
          else r)"

definition batch_timeout_text :: string where "batch_timeout_text = ''not finished after 5 minutes''"

definition row_late :: "time \<Rightarrow> helperBatchRow \<Rightarrow> bool" where
  "row_late now r \<longleftrightarrow> batchRowRunning (br_phase r) \<and> helperBatchTimeout \<le> time_sub now (br_started_at r)"

definition expire_row :: "time \<Rightarrow> helperBatchRow \<Rightarrow> helperBatchRow" where
  "expire_row now r =
     (if row_late now r then r\<lparr>br_phase := ''failed'', br_reason := batch_timeout_text, br_finished_at := now\<rparr> else r)"

definition expire_progress :: "agent_lib \<Rightarrow> time \<Rightarrow> helperBatchRow \<Rightarrow> componentUpdateProgress option \<Rightarrow> componentUpdateProgress option" where
  "expire_progress lib now r progress =
     (case progress of
        None \<Rightarrow> None
      | Some p \<Rightarrow>
          if row_late now r \<and> up_started_at p = br_started_at r
          then Some (appendLine lib now batch_timeout_text (p\<lparr>up_phase := ''failed'', up_message := batch_timeout_text, up_updated_at := now\<rparr>))
          else Some p)"

definition drop_command :: "string \<Rightarrow> string \<Rightarrow> helperState \<Rightarrow> helperState" where
  "drop_command server command s =
     s\<lparr>hs_commands := (hs_commands s)(server := filter (\<lambda>c. cm_id c \<noteq> command) (hs_commands s server))\<rparr>"

definition follow_row :: "agent_lib \<Rightarrow> time \<Rightarrow> helperBatchRow \<Rightarrow> helperState \<Rightarrow> helperBatchRow \<times> helperState \<times> nat" where
  "follow_row lib now r s =
     (if \<not> batchRowRunning (br_phase r) then (r, s, 0)
      else (let progress = as_update (hs_statuses s (br_server_id r));
                r1 = observe_row progress r;
                r2 = expire_row now r1;
                s1 = set_update (br_server_id r) (expire_progress lib now r1 progress) s
            in if terminalUpdatePhase (br_phase r2) then (r2, drop_command (br_server_id r) (br_command_id r2) s1, 0) else (r2, s1, 1)))"

fun follow_rows :: "agent_lib \<Rightarrow> time \<Rightarrow> helperBatchRow list \<Rightarrow> helperState \<Rightarrow> helperBatchRow list \<times> helperState \<times> nat" where
  "follow_rows lib now [] s = ([], s, 0)"
| "follow_rows lib now (r # rs) s =
     (let (r', s1, n) = follow_row lib now r s; (rs', s2, m) = follow_rows lib now rs s1 in (r' # rs', s2, n + m))"

text \<open>The second loop: rows that wait are started while fewer than two run. \<open>uuid\<close> gives the random id of a row.\<close>

definition find_server :: "helperBatchServer list \<Rightarrow> string \<Rightarrow> helperBatchServer option" where
  "find_server servers server = find (\<lambda>v. hb_id v = server) (rev servers)"

definition end_row :: "string \<Rightarrow> string \<Rightarrow> time \<Rightarrow> helperBatchRow \<Rightarrow> helperBatchRow" where
  "end_row phase reason now r = r\<lparr>br_phase := phase, br_reason := reason, br_finished_at := now\<rparr>"

definition batch_payload :: "agent_lib \<Rightarrow> helperBatchRow \<Rightarrow> helperState \<Rightarrow> string" where
  "batch_payload lib r s = lib_artifact_json lib ((br_artifact r)\<lparr>ma_accelerator := githubAccelerator s\<rparr>)"

definition dispatch_row ::
  "agent_lib \<Rightarrow> (string \<Rightarrow> string option) \<Rightarrow> helperBatchServer list \<Rightarrow> time \<Rightarrow> nat \<Rightarrow> helperBatchRow \<Rightarrow> helperState
     \<Rightarrow> helperBatchRow \<times> helperState \<times> nat" where
  "dispatch_row lib uuid servers now active r s =
     (if br_phase r \<noteq> ''queued'' \<or> 2 \<le> active then (r, s, active)
      else (let status = hs_statuses s (br_server_id r)
            in case find_server servers (br_server_id r) of
                 None \<Rightarrow> (end_row ''failed'' ''offline or removed'' now r, s, active)
               | Some server \<Rightarrow>
                   if server_offline server status now then (end_row ''failed'' ''offline or removed'' now r, s, active)
                   else if cs_version (as_helper status) = ma_version (br_artifact r)
                   then (end_row ''success'' ''target version confirmed'' now r, s, active)
                   else (case enqueueManagementCommandLocked lib (uuid (br_server_id r)) (br_server_id r) ''helper.update''
                                (batch_payload lib r s) now True s of
                           Inl e \<Rightarrow> (end_row ''failed'' (sanitizeUpdateText lib e) now r, s, active)
                         | Inr (s', c) \<Rightarrow>
                             (r\<lparr>br_phase := ''dispatching'', br_started_at := now, br_command_id := cm_id c\<rparr>, s', active + 1))))"

fun dispatch_rows ::
  "agent_lib \<Rightarrow> (string \<Rightarrow> string option) \<Rightarrow> helperBatchServer list \<Rightarrow> time \<Rightarrow> nat \<Rightarrow> helperBatchRow list \<Rightarrow> helperState
     \<Rightarrow> helperBatchRow list \<times> helperState" where
  "dispatch_rows lib uuid servers now active [] s = ([], s)"
| "dispatch_rows lib uuid servers now active (r # rs) s =
     (let (r', s1, n) = dispatch_row lib uuid servers now active r s; (rs', s2) = dispatch_rows lib uuid servers now n rs s1
      in (r' # rs', s2))"

definition advanceHelperBatch ::
  "agent_lib \<Rightarrow> bool \<Rightarrow> time \<Rightarrow> (string \<Rightarrow> string option) \<Rightarrow> helperBatchServer list \<Rightarrow> time \<Rightarrow> helperState \<Rightarrow> helperState" where
  "advanceHelperBatch lib save_ok clock uuid servers now s =
     (case hs_batch s of
        None \<Rightarrow> flushUpdateProgressLocked save_ok clock now s
      | Some job \<Rightarrow>
          if bj_phase job \<noteq> ''running'' then flushUpdateProgressLocked save_ok clock now s
          else (let (rows1, s1, active) = follow_rows lib now (bj_rows job) s;
                    (rows2, s2) = dispatch_rows lib uuid servers now active rows1 s1;
                    job' = finishHelperBatch (job\<lparr>bj_rows := rows2\<rparr>) now
                in if job' = job then flushUpdateProgressLocked save_ok clock now s
                   else if save_ok
                   then (saved clock (s2\<lparr>hs_batch := Some (job'\<lparr>bj_updated_at := now\<rparr>)\<rparr>))\<lparr>hs_progress_saved_at := now, hs_progress_dirty := False\<rparr>
                   else s))"

text \<open>One tick; \<open>query\<close> is the list of servers when the database answered. \<open>known\<close> are the servers with a status.\<close>

definition helperBatchTick ::
  "agent_lib \<Rightarrow> bool \<Rightarrow> time \<Rightarrow> (string \<Rightarrow> string option) \<Rightarrow> string list \<Rightarrow> helperBatchServer list option \<Rightarrow> time \<Rightarrow> helperState \<Rightarrow> helperState" where
  "helperBatchTick lib save_ok clock uuid known query now s =
     (let s1 = expireStaleUpdatesLocked lib now known s
      in case query of
           Some servers \<Rightarrow> if batch_running s1 then advanceHelperBatch lib save_ok clock uuid servers now s1
             else flushUpdateProgressLocked save_ok clock now s1
         | None \<Rightarrow> flushUpdateProgressLocked save_ok clock now s1)"


section \<open>The rows\<close>

abbreviation row_running :: "helperBatchRow \<Rightarrow> bool" where "row_running r \<equiv> batchRowRunning (br_phase r)"

definition running_rows :: "helperBatchRow list \<Rightarrow> nat" where
  "running_rows rows = length (filter row_running rows)"

lemma running_rows_simps [simp]:
  "running_rows [] = 0"
  "running_rows (r # rs) = (if row_running r then 1 else 0) + running_rows rs"
  by (simp_all add: running_rows_def)

lemma batchRowRunning_phases [simp]:
  "\<not> batchRowRunning ''queued''" "\<not> batchRowRunning ''skipped''" "\<not> batchRowRunning ''cancelled''"
  "\<not> batchRowRunning ''failed''" "\<not> batchRowRunning ''success''" "\<not> batchRowRunning ''rolled_back''"
  "batchRowRunning ''dispatching''"
  by (simp_all add: batchRowRunning_def terminalUpdatePhase_def)

lemma terminal_not_running [simp]: "terminalUpdatePhase p \<Longrightarrow> \<not> batchRowRunning p"
  by (simp add: batchRowRunning_def)

lemma follow_row_running:
  assumes "follow_row lib now r s = (r', s', n)"
  shows "row_running r' \<Longrightarrow> n = 1" "n \<le> (if row_running r then 1 else 0)"
  using assms by (auto simp: follow_row_def Let_def split: if_splits)

lemma follow_rows_running:
  "follow_rows lib now rows s = (rows', s', n) \<Longrightarrow> running_rows rows' \<le> n \<and> n \<le> running_rows rows"
proof (induction rows arbitrary: s rows' s' n)
  case (Cons r rs)
  obtain r1 s1 n1 where a: "follow_row lib now r s = (r1, s1, n1)" by (cases "follow_row lib now r s") auto
  obtain rs1 s2 n2 where b: "follow_rows lib now rs s1 = (rs1, s2, n2)" by (cases "follow_rows lib now rs s1") auto
  show ?case using Cons.prems Cons.IH [OF b] follow_row_running [OF a] a b by (auto split: if_splits)
qed simp

lemma dispatch_row_running:
  assumes "dispatch_row lib uuid servers now active r s = (r', s', active')"
  shows "(if row_running r' then 1 else 0) + active \<le> (if row_running r then 1 else 0) + active'"
    and "active' \<le> max active 2"
  using assms by (auto simp: dispatch_row_def end_row_def Let_def split: if_splits option.splits sum.splits)

lemma dispatch_rows_running:
  "dispatch_rows lib uuid servers now active rows s = (rows', s') \<Longrightarrow> running_rows rows' + active \<le> running_rows rows + max active 2"
proof (induction rows arbitrary: active s rows' s')
  case (Cons r rs)
  obtain r1 s1 n1 where a: "dispatch_row lib uuid servers now active r s = (r1, s1, n1)"
    by (cases "dispatch_row lib uuid servers now active r s") auto
  obtain rs1 s2 where b: "dispatch_rows lib uuid servers now n1 rs s1 = (rs1, s2)"
    by (cases "dispatch_rows lib uuid servers now n1 rs s1") auto
  show ?case using Cons.prems Cons.IH [OF b] dispatch_row_running [OF a] a b by (auto split: if_splits)
qed simp

lemma advance_rows_running:
  assumes "follow_rows lib now rows s = (rows1, s1, active)" "dispatch_rows lib uuid servers now active rows1 s1 = (rows2, s2)"
  shows "running_rows rows2 \<le> max (running_rows rows) 2"
  using follow_rows_running [OF assms(1)] dispatch_rows_running [OF assms(2)] by linarith

text \<open>A row that is over stays as it is.\<close>

lemma follow_row_closed: "\<not> row_open r \<Longrightarrow> follow_row lib now r s = (r, s, 0)"
  by (simp add: follow_row_def row_open_def)

lemma dispatch_row_closed: "\<not> row_open r \<Longrightarrow> dispatch_row lib uuid servers now active r s = (r, s, active)"
  by (simp add: dispatch_row_def row_open_def)

definition rows_settled :: "helperBatchRow list \<Rightarrow> helperBatchRow list \<Rightarrow> bool" where
  "rows_settled before after \<longleftrightarrow> list_all2 (\<lambda>r r'. br_server_id r' = br_server_id r \<and> (row_open r \<or> r' = r)) before after"

lemma settled_trans: "rows_settled a b \<Longrightarrow> rows_settled b c \<Longrightarrow> rows_settled a c"
  unfolding rows_settled_def by (erule (1) list_all2_trans [rotated]) auto

lemma settled_refl: "rows_settled a a"
  by (auto simp: rows_settled_def intro: list_all2_refl)

lemma follow_row_server: "follow_row lib now r s = (r', s', n) \<Longrightarrow> br_server_id r' = br_server_id r"
  by (auto simp: follow_row_def Let_def observe_row_def expire_row_def split: if_splits option.splits)

lemma dispatch_row_server: "dispatch_row lib uuid servers now active r s = (r', s', n) \<Longrightarrow> br_server_id r' = br_server_id r"
  by (auto simp: dispatch_row_def end_row_def Let_def split: if_splits option.splits sum.splits)

lemma follow_rows_settled: "follow_rows lib now rows s = (rows', s', n) \<Longrightarrow> rows_settled rows rows'"
proof (induction rows arbitrary: s rows' s' n)
  case (Cons r rs)
  obtain r1 s1 n1 where a: "follow_row lib now r s = (r1, s1, n1)" by (cases "follow_row lib now r s") auto
  obtain rs1 s2 n2 where b: "follow_rows lib now rs s1 = (rs1, s2, n2)" by (cases "follow_rows lib now rs s1") auto
  show ?case using Cons.prems Cons.IH [OF b] follow_row_server [OF a] follow_row_closed [of r lib now s] a b by (auto simp: rows_settled_def)
qed (simp add: rows_settled_def)

lemma dispatch_rows_settled: "dispatch_rows lib uuid servers now active rows s = (rows', s') \<Longrightarrow> rows_settled rows rows'"
proof (induction rows arbitrary: active s rows' s')
  case (Cons r rs)
  obtain r1 s1 n1 where a: "dispatch_row lib uuid servers now active r s = (r1, s1, n1)"
    by (cases "dispatch_row lib uuid servers now active r s") auto
  obtain rs1 s2 where b: "dispatch_rows lib uuid servers now n1 rs s1 = (rs1, s2)"
    by (cases "dispatch_rows lib uuid servers now n1 rs s1") auto
  show ?case using Cons.prems Cons.IH [OF b] dispatch_row_server [OF a] dispatch_row_closed [of r lib uuid servers now active s] a b
    by (auto simp: rows_settled_def)
qed (simp add: rows_settled_def)

section \<open>The batch\<close>

definition batch_ok :: "helperBatchJob option \<Rightarrow> bool" where
  "batch_ok b =
     (case b of
        None \<Rightarrow> True
      | Some job \<Rightarrow> bj_phase job \<in> set [''running'', ''success'', ''failed''] \<and> running_rows (bj_rows job) \<le> 2
          \<and> (bj_phase job = ''running'' \<longleftrightarrow> list_ex row_open (bj_rows job)))"

lemma finish_ok:
  "bj_phase job = ''running'' \<Longrightarrow> running_rows (bj_rows job) \<le> 2 \<Longrightarrow> batch_ok (Some (finishHelperBatch job now))"
  by (simp add: finishHelperBatch_def batch_ok_def)

lemma finish_rows [simp]: "bj_rows (finishHelperBatch job now) = bj_rows job"
  by (simp add: finishHelperBatch_def)

lemma batch_ok_updated: "batch_ok (Some (job\<lparr>bj_updated_at := t\<rparr>)) = batch_ok (Some job)"
  by (simp add: batch_ok_def)

lemma saved_batch [simp]: "hs_batch (saved clock s) = hs_batch s"
  by (simp add: saved_def)

lemma flushUpdate_batch [simp]: "hs_batch (flushUpdateProgressLocked save_ok clock now s) = hs_batch s"
  by (simp add: flushUpdateProgressLocked_def)

lemma preview_running: "running_rows (map (confirm_row selected) (helperBatchPreviewLocked lib servers release now s)) = 0"
  by (auto simp: running_rows_def filter_empty_conv helperBatchPreviewLocked_def preview_row_def confirm_row_def Let_def)

lemma start_batch_ok: "batch_ok (hs_batch s) \<Longrightarrow> batch_ok (hs_batch (fst (startHelperBatch lib save_ok clock uuid servers release selected now s)))"
  using preview_running [of selected lib servers release now s]
  by (auto simp: startHelperBatch_def batch_ok_def row_open_def list_ex_iff Let_def split: option.splits)

lemma cancel_running: "running_rows (map (cancel_row now) rows) = running_rows rows"
  by (induction rows) (auto simp: cancel_row_def)

lemma stop_batch_ok: "batch_ok (hs_batch s) \<Longrightarrow> batch_ok (hs_batch (fst (stopHelperBatch save_ok clock batch_id now s)))"
proof -
  assume ok: "batch_ok (hs_batch s)"
  show ?thesis
  proof (cases "hs_batch s")
    case (Some job)
    have "bj_phase job = ''running'' \<Longrightarrow>
      batch_ok (Some (finishHelperBatch (job\<lparr>bj_stopped := True, bj_updated_at := now, bj_rows := map (cancel_row now) (bj_rows job)\<rparr>) now))"
      using ok Some by (intro finish_ok) (auto simp: cancel_running batch_ok_def)
    then show ?thesis using ok Some by (auto simp: stopHelperBatch_def Let_def)
  qed (use ok in \<open>simp add: stopHelperBatch_def\<close>)
qed

text \<open>What a step does to the batch: nothing, or the two loops.\<close>

lemma advance_cases:
  obtains (same) "hs_batch (advanceHelperBatch lib save_ok clock uuid servers now s) = hs_batch s"
  | (step) job rows1 s1 active rows2 s2 where
      "hs_batch s = Some job" "bj_phase job = ''running''"
      "follow_rows lib now (bj_rows job) s = (rows1, s1, active)" "dispatch_rows lib uuid servers now active rows1 s1 = (rows2, s2)"
      "hs_batch (advanceHelperBatch lib save_ok clock uuid servers now s)
         = Some ((finishHelperBatch (job\<lparr>bj_rows := rows2\<rparr>) now)\<lparr>bj_updated_at := now\<rparr>)" "save_ok"
proof (cases "batch_running s")
  case True
  then obtain job where job: "hs_batch s = Some job" "bj_phase job = ''running''" by (auto simp: batch_running_def split: option.splits)
  obtain rows1 s1 active where a: "follow_rows lib now (bj_rows job) s = (rows1, s1, active)"
    by (cases "follow_rows lib now (bj_rows job) s") auto
  obtain rows2 s2 where b: "dispatch_rows lib uuid servers now active rows1 s1 = (rows2, s2)"
    by (cases "dispatch_rows lib uuid servers now active rows1 s1") auto
  show ?thesis
  proof (cases "finishHelperBatch (job\<lparr>bj_rows := rows2\<rparr>) now = job \<or> \<not> save_ok")
    case True
    then have "hs_batch (advanceHelperBatch lib save_ok clock uuid servers now s) = hs_batch s"
      using job a b by (auto simp: advanceHelperBatch_def Let_def)
    then show ?thesis by (rule same)
  next
    case False
    then show ?thesis using job a b by (intro step) (auto simp: advanceHelperBatch_def Let_def)
  qed
next
  case False
  have "hs_batch (advanceHelperBatch lib save_ok clock uuid servers now s) = hs_batch s"
    using False by (auto simp: advanceHelperBatch_def batch_running_def split: option.splits)
  then show ?thesis by (rule same)
qed

lemma advance_batch_ok:
  assumes ok: "batch_ok (hs_batch s)"
  shows "batch_ok (hs_batch (advanceHelperBatch lib save_ok clock uuid servers now s))"
proof (cases rule: advance_cases [of lib save_ok clock uuid servers now s])
  case (step job rows1 s1 active rows2 s2)
  have "running_rows (bj_rows job) \<le> 2" using ok step(1) by (simp add: batch_ok_def)
  then have "running_rows rows2 \<le> 2" using advance_rows_running [OF step(3,4)] by simp
  then have "batch_ok (Some (finishHelperBatch (job\<lparr>bj_rows := rows2\<rparr>) now))" using step(2) by (intro finish_ok) simp_all
  then show ?thesis by (simp add: step(5) batch_ok_updated)
qed (use ok in simp)


section \<open>The batch ends\<close>

text \<open>
  The work left: a waiting row counts two, a running row one. No tick adds work, as
  long as no Helper reports the phase of a waiting row; a tick at which every running
  row is out of time takes some away.
\<close>

definition row_work :: "helperBatchRow \<Rightarrow> nat" where
  "row_work r = (if br_phase r = ''queued'' then 2 else if row_running r then 1 else 0)"

definition batch_work :: "helperBatchRow list \<Rightarrow> nat" where
  "batch_work rows = sum_list (map row_work rows)"

definition row_step :: "helperBatchRow \<Rightarrow> helperBatchRow \<Rightarrow> bool" where
  "row_step r r' \<longleftrightarrow> row_work r' \<le> row_work r \<and> (row_work r' = row_work r \<and> row_running r \<longrightarrow> br_started_at r' = br_started_at r)"

definition progress_ok :: "helperState \<Rightarrow> bool" where
  "progress_ok s \<longleftrightarrow> (\<forall>server p. as_update (hs_statuses s server) = Some p \<longrightarrow> up_phase p \<noteq> ''queued'')"

definition due :: "time \<Rightarrow> helperBatchRow list \<Rightarrow> bool" where
  "due now rows \<longleftrightarrow> (\<forall>r \<in> set rows. row_running r \<longrightarrow> br_started_at r + helperBatchTimeout \<le> now)"

lemma batch_work_simps [simp]: "batch_work [] = 0" "batch_work (r # rs) = row_work r + batch_work rs"
  by (simp_all add: batch_work_def)

lemma row_work_running: "row_running r \<Longrightarrow> row_work r = 1"
  by (auto simp: row_work_def)

lemma row_work_one: "row_work r = 1 \<longleftrightarrow> row_running r"
  by (auto simp: row_work_def)

lemma row_step_trans: "row_step a b \<Longrightarrow> row_step b c \<Longrightarrow> row_step a c"
  unfolding row_step_def by (metis le_antisym le_trans row_work_one)

lemma row_step_le: "row_step a b \<Longrightarrow> row_work b \<le> row_work a"
  by (simp add: row_step_def)

lemma rows_step_trans: "list_all2 row_step a b \<Longrightarrow> list_all2 row_step b c \<Longrightarrow> list_all2 row_step a c"
  by (rule list_all2_trans [where ?P1.0 = row_step and ?P2.0 = row_step]) (rule row_step_trans)

lemma rows_work_le: "list_all2 row_step a b \<Longrightarrow> batch_work b \<le> batch_work a"
  by (induction rule: list_all2_induct) (auto dest: row_step_le)

lemma rows_due:
  "list_all2 row_step a b \<Longrightarrow> batch_work b = batch_work a \<Longrightarrow> due now a \<Longrightarrow> due now b"
proof (induction rule: list_all2_induct)
  case (Cons r rs r' rs')
  have "row_work r' \<le> row_work r" "batch_work rs' \<le> batch_work rs"
    by (rule row_step_le [OF Cons.hyps(1)], rule rows_work_le [OF Cons.hyps(2)])
  then have eq: "row_work r' = row_work r" "batch_work rs' = batch_work rs" using Cons.prems(1) by simp_all
  have "row_running r' \<Longrightarrow> row_running r \<and> br_started_at r' = br_started_at r"
    using eq(1) Cons.hyps(1) by (metis row_step_def row_work_one)
  then show ?case using Cons.IH [OF eq(2)] Cons.prems(2) by (auto simp: due_def)
qed simp

lemma progress_ok_update: "progress_ok s \<Longrightarrow> (\<And>p. u = Some p \<Longrightarrow> up_phase p \<noteq> ''queued'') \<Longrightarrow> progress_ok (set_update server u s)"
  by (auto simp: progress_ok_def set_update_def)

lemma appendLine_phase [simp]: "up_phase (appendLine lib now t p) = up_phase p"
  by (simp add: appendLine_def Let_def)

lemma expire_progress_ok:
  "progress_ok s \<Longrightarrow> expire_progress lib now r (as_update (hs_statuses s server)) = Some p \<Longrightarrow> up_phase p \<noteq> ''queued''"
  by (auto simp: expire_progress_def progress_ok_def split: option.splits if_splits)

lemma drop_command_ok: "progress_ok (drop_command server c s) = progress_ok s"
  by (simp add: progress_ok_def drop_command_def)

lemma follow_row_progress: "follow_row lib now r s = (r', s', n) \<Longrightarrow> progress_ok s \<Longrightarrow> progress_ok s'"
  by (auto simp: follow_row_def Let_def drop_command_ok split: if_splits intro!: progress_ok_update dest: expire_progress_ok)

lemma observe_row_step:
  assumes "row_running r" "progress_ok s"
  shows "br_phase (observe_row (as_update (hs_statuses s server)) r) \<noteq> ''queued''"
    and "br_started_at (observe_row (as_update (hs_statuses s server)) r) = br_started_at r"
  using assms by (auto simp: observe_row_def progress_ok_def split: option.splits if_splits)

lemma follow_row_step:
  assumes "follow_row lib now r s = (r', s', n)" "progress_ok s"
  shows "row_step r r'"
proof (cases "row_running r")
  case True
  define r1 where "r1 = observe_row (as_update (hs_statuses s (br_server_id r))) r"
  have r1: "br_phase r1 \<noteq> ''queued''" "br_started_at r1 = br_started_at r" using observe_row_step [OF True assms(2)] by (simp_all add: r1_def)
  have r': "r' = expire_row now r1" using assms(1) True by (auto simp: follow_row_def Let_def r1_def split: if_splits)
  show ?thesis using r1 True by (auto simp: r' row_step_def row_work_def expire_row_def)
next
  case False
  then show ?thesis using assms(1) by (simp add: follow_row_def row_step_def)
qed

lemma row_late_due: "br_started_at r + helperBatchTimeout \<le> now \<Longrightarrow> row_running r \<Longrightarrow> row_late now r"
  by (simp add: row_late_def helperBatchTimeout_def time_sub_def minute_def second_def max_int64_def min_int64_def)

lemma follow_row_strict:
  assumes "follow_row lib now r s = (r', s', n)" "progress_ok s" "row_running r" "br_started_at r + helperBatchTimeout \<le> now"
  shows "row_work r' < row_work r"
proof -
  define r1 where "r1 = observe_row (as_update (hs_statuses s (br_server_id r))) r"
  have r1: "br_phase r1 \<noteq> ''queued''" "br_started_at r1 = br_started_at r" using observe_row_step [OF assms(3,2)] by (simp_all add: r1_def)
  have r': "r' = expire_row now r1" using assms(1,3) by (auto simp: follow_row_def Let_def r1_def split: if_splits)
  have "row_running r1 \<Longrightarrow> row_late now r1" using assms(4) r1(2) by (intro row_late_due) simp_all
  then show ?thesis using r1(1) assms(3) by (auto simp: r' row_work_def expire_row_def)
qed

lemma follow_rows_step:
  "follow_rows lib now rows s = (rows', s', n) \<Longrightarrow> progress_ok s \<Longrightarrow> list_all2 row_step rows rows'
     \<and> (due now rows \<and> list_ex row_running rows \<longrightarrow> batch_work rows' < batch_work rows)"
proof (induction rows arbitrary: s rows' s' n)
  case (Cons r rs)
  obtain r1 s1 n1 where a: "follow_row lib now r s = (r1, s1, n1)" by (cases "follow_row lib now r s") auto
  obtain rs1 s2 n2 where b: "follow_rows lib now rs s1 = (rs1, s2, n2)" by (cases "follow_rows lib now rs s1") auto
  have rows': "rows' = r1 # rs1" using Cons.prems(1) a b by simp
  note ih = Cons.IH [OF b follow_row_progress [OF a Cons.prems(2)]]
  have step: "row_step r r1" by (rule follow_row_step [OF a Cons.prems(2)])
  have work: "row_work r1 \<le> row_work r" "batch_work rs1 \<le> batch_work rs"
    by (rule row_step_le [OF step], rule rows_work_le) (use ih in blast)
  have "batch_work rows' < batch_work (r # rs)" if d: "due now (r # rs)" and e: "list_ex row_running (r # rs)"
  proof (cases "row_running r")
    case True
    have "row_work r1 < row_work r" using follow_row_strict [OF a Cons.prems(2) True] d True by (simp add: due_def)
    then show ?thesis using work(2) by (simp add: rows')
  next
    case False
    then have "batch_work rs1 < batch_work rs" using ih d e by (simp add: due_def)
    then show ?thesis using work(1) by (simp add: rows')
  qed
  then show ?case using step ih rows' by auto
qed simp

lemma dispatch_row_step: "dispatch_row lib uuid servers now active r s = (r', s', n) \<Longrightarrow> row_step r r'"
  by (auto simp: dispatch_row_def Let_def row_step_def row_work_def end_row_def split: if_splits option.splits sum.splits)

lemma dispatch_row_strict:
  "dispatch_row lib uuid servers now active r s = (r', s', n) \<Longrightarrow> br_phase r = ''queued'' \<Longrightarrow> active < 2 \<Longrightarrow> row_work r' < row_work r"
  by (auto simp: dispatch_row_def Let_def row_work_def end_row_def split: if_splits option.splits sum.splits)

lemma dispatch_rows_step:
  "dispatch_rows lib uuid servers now active rows s = (rows', s') \<Longrightarrow> list_all2 row_step rows rows'
     \<and> (active < 2 \<and> list_ex (\<lambda>r. br_phase r = ''queued'') rows \<longrightarrow> batch_work rows' < batch_work rows)"
proof (induction rows arbitrary: active s rows' s')
  case (Cons r rs)
  obtain r1 s1 n1 where a: "dispatch_row lib uuid servers now active r s = (r1, s1, n1)"
    by (cases "dispatch_row lib uuid servers now active r s") auto
  obtain rs1 s2 where b: "dispatch_rows lib uuid servers now n1 rs s1 = (rs1, s2)"
    by (cases "dispatch_rows lib uuid servers now n1 rs s1") auto
  have rows': "rows' = r1 # rs1" using Cons.prems a b by simp
  note ih = Cons.IH [OF b]
  have step: "row_step r r1" by (rule dispatch_row_step [OF a])
  have work: "row_work r1 \<le> row_work r" "batch_work rs1 \<le> batch_work rs"
    by (rule row_step_le [OF step], rule rows_work_le) (use ih in blast)
  have "batch_work rows' < batch_work (r # rs)" if d: "active < 2" and e: "list_ex (\<lambda>r. br_phase r = ''queued'') (r # rs)"
  proof (cases "br_phase r = ''queued''")
    case True
    have "row_work r1 < row_work r" by (rule dispatch_row_strict [OF a True d])
    then show ?thesis using work(2) by (simp add: rows')
  next
    case False
    then have "n1 = active" using a by (simp add: dispatch_row_def)
    then have "batch_work rs1 < batch_work rs" using ih d e False by simp
    then show ?thesis using work(1) by (simp add: rows')
  qed
  then show ?case using step ih rows' by auto
qed simp

lemma follow_rows_idle: "\<not> list_ex row_running rows \<Longrightarrow> follow_rows lib now rows s = (rows, s, 0)"
  by (induction rows) (simp_all add: follow_row_def)

lemma loops_step:
  assumes a: "follow_rows lib now rows s = (rows1, s1, active)" and b: "dispatch_rows lib uuid servers now active rows1 s1 = (rows2, s2)"
    and ok: "progress_ok s"
  shows "list_all2 row_step rows rows2" and "due now rows \<Longrightarrow> list_ex row_open rows \<Longrightarrow> batch_work rows2 < batch_work rows"
proof -
  note f = follow_rows_step [OF a ok] and d = dispatch_rows_step [OF b]
  show "list_all2 row_step rows rows2"
    using rows_step_trans f d by blast
  have le: "batch_work rows2 \<le> batch_work rows1" "batch_work rows1 \<le> batch_work rows" using f d rows_work_le by auto
  show "batch_work rows2 < batch_work rows" if due: "due now rows" and op: "list_ex row_open rows"
  proof (cases "list_ex row_running rows")
    case True
    then show ?thesis using f due le(1) by simp
  next
    case False
    then have "rows1 = rows" "active = 0" using follow_rows_idle [OF False] a by auto
    moreover have "list_ex (\<lambda>r. br_phase r = ''queued'') rows" using op False by (auto simp: list_ex_iff row_open_def)
    ultimately show ?thesis using d by simp
  qed
qed


lemma expireStale_batch [simp]: "hs_batch (expireStaleUpdatesLocked lib now known s) = hs_batch s"
  by (simp add: expireStaleUpdatesLocked_def)

lemma expireStale_progress: "progress_ok s \<Longrightarrow> progress_ok (expireStaleUpdatesLocked lib now known s)"
  by (auto simp: progress_ok_def expireStaleUpdatesLocked_def expired_update_def Let_def split: if_splits)

lemma tick_cases:
  obtains (same) "hs_batch (helperBatchTick lib save_ok clock uuid known query now s) = hs_batch s"
  | (advance) servers where "query = Some servers" "batch_running s"
      "helperBatchTick lib save_ok clock uuid known query now s
         = advanceHelperBatch lib save_ok clock uuid servers now (expireStaleUpdatesLocked lib now known s)"
  by (cases query; cases "batch_running s") (auto simp: helperBatchTick_def batch_running_def)

lemma tick_batch_ok: "batch_ok (hs_batch s) \<Longrightarrow> batch_ok (hs_batch (helperBatchTick lib save_ok clock uuid known query now s))"
  by (cases rule: tick_cases [of lib save_ok clock uuid known query now s]) (simp_all add: advance_batch_ok)

definition still_batch :: "helperBatchJob \<Rightarrow> helperBatchJob \<Rightarrow> bool" where
  "still_batch job job' \<longleftrightarrow>
     bj_id job' = bj_id job \<and> list_all2 row_step (bj_rows job) (bj_rows job') \<and> rows_settled (bj_rows job) (bj_rows job')"

lemma row_step_refl [simp]: "row_step r r"
  by (simp add: row_step_def)

lemma still_batch_refl: "still_batch job job"
  by (simp add: still_batch_def list.rel_refl settled_refl)

lemma still_batch_trans: "still_batch a b \<Longrightarrow> still_batch b c \<Longrightarrow> still_batch a c"
  unfolding still_batch_def by (auto intro: rows_step_trans settled_trans)

lemma finish_id [simp]: "bj_id (finishHelperBatch job now) = bj_id job"
  by (simp add: finishHelperBatch_def)

lemma tick_still:
  assumes job: "hs_batch s = Some job" and ok: "progress_ok s"
  shows "\<exists>job'. hs_batch (helperBatchTick lib save_ok clock uuid known query now s) = Some job' \<and> still_batch job job'"
proof (cases rule: tick_cases [of lib save_ok clock uuid known query now s])
  case (advance servers)
  let ?s = "expireStaleUpdatesLocked lib now known s"
  show ?thesis
  proof (cases rule: advance_cases [of lib save_ok clock uuid servers now ?s])
    case (step j rows1 s1 active rows2 s2)
    have "j = job" using step(1) job by simp
    then show ?thesis using step(5) advance(3) loops_step(1) [OF step(3,4) expireStale_progress [OF ok]]
        settled_trans [OF follow_rows_settled [OF step(3)] dispatch_rows_settled [OF step(4)]] by (simp add: still_batch_def)
  qed (use job advance in \<open>auto intro: still_batch_refl\<close>)
qed (use job in \<open>auto intro: still_batch_refl\<close>)

lemma tick_strict:
  assumes job: "hs_batch s = Some job" "bj_phase job = ''running''" and inv: "batch_ok (hs_batch s)" and ok: "progress_ok s"
    and due: "due now (bj_rows job)"
  shows "\<exists>job'. hs_batch (helperBatchTick lib True clock uuid known (Some servers) now s) = Some job'
    \<and> batch_work (bj_rows job') < batch_work (bj_rows job)"
proof -
  let ?s = "expireStaleUpdatesLocked lib now known s"
  have run: "batch_running ?s" using job by (simp add: batch_running_def)
  have op: "list_ex row_open (bj_rows job)" using inv job by (simp add: batch_ok_def)
  obtain rows1 s1 active where a: "follow_rows lib now (bj_rows job) ?s = (rows1, s1, active)"
    by (cases "follow_rows lib now (bj_rows job) ?s") auto
  obtain rows2 s2 where b: "dispatch_rows lib uuid servers now active rows1 s1 = (rows2, s2)"
    by (cases "dispatch_rows lib uuid servers now active rows1 s1") auto
  have less: "batch_work rows2 < batch_work (bj_rows job)" by (rule loops_step(2) [OF a b expireStale_progress [OF ok] due op])
  then have "finishHelperBatch (job\<lparr>bj_rows := rows2\<rparr>) now \<noteq> job" by (metis finish_rows helperBatchJob.select_convs(7)
      helperBatchJob.surjective helperBatchJob.update_convs(7) less_irrefl)
  then have "hs_batch (helperBatchTick lib True clock uuid known (Some servers) now s)
      = Some ((finishHelperBatch (job\<lparr>bj_rows := rows2\<rparr>) now)\<lparr>bj_updated_at := now\<rparr>)"
    using run job a b by (simp add: helperBatchTick_def advanceHelperBatch_def Let_def)
  then show ?thesis using less by simp
qed

lemma rows_started:
  obtains T where "due T rows"
proof
  show "due (Max (insert 0 (br_started_at ` set rows)) + helperBatchTimeout) rows"
    by (auto simp: due_def)
qed

text \<open>
  C9: A batch ends. However the Helpers' reports, operators' commands and other
  requests change the state between the ticks of the scheduler (they leave the batch
  as it is, and no Helper reports the phase of a row that waits), whatever the ticks
  find and however many of them fail, the batch reaches success or failed, provided
  that at arbitrarily late times some tick gets the server list and can write the
  state file. A row that was over at the start is left as it was.
\<close>

theorem batch_ends:
  assumes start: "hs_batch (st 0) = Some job" "bj_phase job = ''running''" "batch_ok (hs_batch (st 0))"
    and between: "\<And>i. hs_batch (env i) = hs_batch (st i) \<and> progress_ok (env i)"
    and tick: "\<And>i. st (Suc i) = helperBatchTick lib (writes i) (clock i) (uuid i) (known i) (query i) (now i) (env i)"
    and fair: "\<And>T n. \<exists>i \<ge> n. T \<le> now i \<and> writes i \<and> query i \<noteq> None"
  shows "\<exists>k job'. hs_batch (st k) = Some job' \<and> bj_id job' = bj_id job \<and> bj_phase job' \<in> {''success'', ''failed''}
    \<and> list_all2 (\<lambda>r r'. br_server_id r' = br_server_id r \<and> (row_open r \<or> r' = r)) (bj_rows job) (bj_rows job')"
proof -
  have ok: "batch_ok (hs_batch (st i))" for i
    using start(3) by (induction i) (simp_all add: tick tick_batch_ok between)
  have next_job: "\<exists>j'. hs_batch (st (Suc i)) = Some j' \<and> still_batch j j'" if "hs_batch (st i) = Some j" for i j
    using tick_still [of "env i" j] between [of i] that by (simp add: tick)
  have later: "\<exists>j'. hs_batch (st k) = Some j' \<and> still_batch j j'" if "hs_batch (st i) = Some j" "i \<le> k" for i j k
    using that(2) that(1)
  proof (induction rule: dec_induct)
    case base then show ?case by (auto intro: still_batch_refl)
  next
    case (step n)
    then obtain jn where jn: "hs_batch (st n) = Some jn" "still_batch j jn" by blast
    then show ?case using next_job [OF jn(1)] still_batch_trans by blast
  qed
  have "\<exists>k \<ge> i. \<exists>j'. hs_batch (st k) = Some j' \<and> bj_phase j' \<noteq> ''running''" if "hs_batch (st i) = Some j" for i j
    using that
  proof (induction "batch_work (bj_rows j)" arbitrary: i j rule: less_induct)
    case less
    show ?case
    proof (rule ccontr)
      assume "\<not> ?thesis"
      then have run: "bj_phase j' = ''running''" if "i \<le> k" "hs_batch (st k) = Some j'" for k j' using that by blast
      obtain T where T: "due T (bj_rows j)" by (rule rows_started)
      obtain n where n: "i \<le> n" "T \<le> now n" "writes n" "query n \<noteq> None" using fair by blast
      obtain servers where servers: "query n = Some servers" using n(4) by blast
      obtain jn where jn: "hs_batch (st n) = Some jn" "still_batch j jn" using later [OF less.prems n(1)] by blast
      have same: "batch_work (bj_rows jk) = batch_work (bj_rows j)" if k: "i \<le> k" and jk: "hs_batch (st k) = Some jk" "still_batch j jk" for k jk
      proof (rule ccontr)
        assume "batch_work (bj_rows jk) \<noteq> batch_work (bj_rows j)"
        then have "batch_work (bj_rows jk) < batch_work (bj_rows j)" using rows_work_le jk(2) by (metis le_neq_implies_less still_batch_def)
        from less.hyps [OF this jk(1)] show False using run k by (meson order_trans)
      qed
      have "due T (bj_rows jn)" using rows_due [OF _ same [OF n(1) jn] T] jn(2) by (simp add: still_batch_def)
      then have due: "due (now n) (bj_rows jn)" using n(2) by (force simp: due_def)
      have "\<exists>j'. hs_batch (st (Suc n)) = Some j' \<and> batch_work (bj_rows j') < batch_work (bj_rows jn)"
        using tick_strict [of "env n" jn, OF _ run [OF n(1) jn(1)] _ _ due] between [of n] ok [of n] jn(1) n(3) servers by (simp add: tick)
      then show False using later [OF less.prems, of "Suc n"] same [of "Suc n"] same [OF n(1) jn] n(1) by fastforce
    qed
  qed
  from this [OF start(1)] obtain k j' where k: "hs_batch (st k) = Some j'" "bj_phase j' \<noteq> ''running''" by blast
  have "still_batch job j'" using later [OF start(1), of k] k(1) by simp
  moreover have "bj_phase j' \<in> {''success'', ''failed''}" using ok [of k] k by (auto simp: batch_ok_def)
  ultimately show ?thesis using k(1) by (auto simp: still_batch_def rows_settled_def)
qed


definition sample_row :: "string \<Rightarrow> helperBatchRow" where
  "sample_row server = \<lparr>br_server_id = server, br_name = server, br_version = ''v1'', br_phase = ''queued'', br_reason = [],
     br_first_upgrade = False, br_command_id = [], br_started_at = 0, br_finished_at = 0, br_artifact = sample_artifact ''v2''\<rparr>"

definition sample_job :: helperBatchJob where
  "sample_job = \<lparr>bj_id = ''job'', bj_phase = ''running'', bj_started_at = 1, bj_updated_at = 1, bj_finished_at = 0, bj_stopped = False,
     bj_rows = map sample_row [''1'', ''2'', ''3'']\<rparr>"

primrec sample_run :: "nat \<Rightarrow> helperState" where
  "sample_run 0 = new_state\<lparr>hs_batch := Some sample_job\<rparr>"
| "sample_run (Suc i) =
     helperBatchTick sample_lib True 0 (\<lambda>_. Some ''id'') [] (Some []) (int i) (new_state\<lparr>hs_batch := hs_batch (sample_run i)\<rparr>)"

theorem batch_ends_witness:
  "\<exists>k job'. hs_batch (sample_run k) = Some job' \<and> bj_id job' = bj_id sample_job \<and> bj_phase job' \<in> {''success'', ''failed''}
    \<and> list_all2 (\<lambda>r r'. br_server_id r' = br_server_id r \<and> (row_open r \<or> r' = r)) (bj_rows sample_job) (bj_rows job')"
proof (rule batch_ends [where env = "\<lambda>i. new_state\<lparr>hs_batch := hs_batch (sample_run i)\<rparr>" and lib = sample_lib
      and writes = "\<lambda>_. True" and clock = "\<lambda>_. 0" and uuid = "\<lambda>_ _. Some ''id''" and known = "\<lambda>_. []" and query = "\<lambda>_. Some []"
      and now = int])
  show "hs_batch (sample_run 0) = Some sample_job" by simp
  show "bj_phase sample_job = ''running''" by (simp add: sample_job_def)
  show "batch_ok (hs_batch (sample_run 0))" by (simp add: batch_ok_def sample_job_def sample_row_def row_open_def)
  show "\<exists>i\<ge>n. T \<le> int i \<and> True \<and> Some [] \<noteq> None" for T n by (intro exI [of _ "max n (nat T)"]) auto
qed (auto simp: progress_ok_def new_state_def zero_status_def)

end
