(* ===== verification/Egress_Render.thy ===== *)
theory Egress_Render
  imports Egress_Plan Go_Json
begin

text \<open>
  \<open>internal/flvx/egress_render.go\<close> and \<open>render.go\<close>: the JSON that the FLVX Core
  gets for outbounds, rules and inbounds. SHA-256 and \<open>json.Marshal\<close> in
  \<open>CoreTag\<close> are one argument; the geoip reader is an argument as in the source
  (\<open>GeoIPReader\<close>). The properties: a forced outbound never leaves over the
  other family, and the rewritten source lists are exactly the sources without
  the exempt ones, with or without the memo.
\<close>

section \<open>Outbounds\<close>

record LocalAddrs =
  la_v4 :: "ip_addr option"
  la_v6 :: "ip_addr option"

definition ipBindAddressNoPort :: string where "ipBindAddressNoPort = ''24''"
definition WARPEndpointV4 :: string where "WARPEndpointV4 = ''162.159.192.1:2408''"
definition WARPEndpointV6 :: string where "WARPEndpointV6 = ''[2606:4700:d0::a29f:c001]:2408''"

definition freedomStrategy :: "string \<Rightarrow> string option" where
  "freedomStrategy v = map_of
     [(''system'', ''UseIP''), (''prefer_ipv4'', ''UseIPv4v6''), (''prefer_ipv6'', ''UseIPv6v4''),
      (''force_ipv4'', ''ForceIPv4''), (''force_ipv6'', ''ForceIPv6'')] v"

definition dialStrategy :: "string \<Rightarrow> string option" where
  "dialStrategy v = map_of
     [(''prefer_ipv4'', ''UseIPv4v6''), (''prefer_ipv6'', ''UseIPv6v4''),
      (''force_ipv4'', ''ForceIPv4''), (''force_ipv6'', ''ForceIPv6'')] v"

definition wireguardStrategy :: "string \<Rightarrow> string option" where
  "wireguardStrategy v = map_of
     [(''system'', ''ForceIP''), (''prefer_ipv4'', ''ForceIPv4v6''), (''prefer_ipv6'', ''ForceIPv6v4''),
      (''force_ipv4'', ''ForceIPv4''), (''force_ipv6'', ''ForceIPv6'')] v"

text \<open>A missing key of a Go map of strings reads as the empty string.\<close>

definition or_empty :: "string option \<Rightarrow> string" where
  "or_empty s = (case s of None \<Rightarrow> [] | Some x \<Rightarrow> x)"

definition SafetyRule :: json where
  "SafetyRule = JObj [(''type'', JStr ''field''), (''ruleTag'', JStr ''flvx-safety''), (''ip'', jstrs BlockCIDRs),
     (''outboundTag'', JStr ''block'')]"

definition Blackhole :: "string \<Rightarrow> json" where
  "Blackhole tag = JObj [(''tag'', JStr tag), (''protocol'', JStr ''blackhole'')]"

text \<open>\<open>digest\<close> is the hex of the first four bytes of the SHA-256 of the canonical JSON.\<close>

definition CoreTag :: "(json \<Rightarrow> string) \<Rightarrow> string \<Rightarrow> json \<Rightarrow> string" where
  "CoreTag digest tag rendered = tag @ ''-'' @ digest rendered"

text \<open>The \<open>String\<close> of an invalid \<open>netip.Addr\<close> is \<open>invalid IP\<close>.\<close>

definition local_string :: "ip_addr option \<Rightarrow> string" where
  "local_string oa = (case oa of None \<Rightarrow> ''invalid IP'' | Some a \<Rightarrow> addr_string a)"

definition forceBind :: "string \<Rightarrow> LocalAddrs \<Rightarrow> string \<times> bool" where
  "forceBind ipVersion l =
     (if ipVersion = ''force_ipv4'' then (local_string (la_v4 l), la_v4 l \<noteq> None)
      else if ipVersion = ''force_ipv6'' then (local_string (la_v6 l), la_v6 l \<noteq> None)
      else ([], True))"

definition bind_sockopt :: json where
  "bind_sockopt = JArr [JObj [(''system'', JStr ''linux''), (''network'', JStr ''tcp''), (''level'', JStr ''0''),
     (''opt'', JStr ipBindAddressNoPort), (''value'', JStr ''1''), (''type'', JStr ''int'')]]"

definition wireguard_addresses :: "EgressOutbound \<Rightarrow> EgressWireGuard \<Rightarrow> string list" where
  "wireguard_addresses ob w =
     (let one = (\<lambda>s n. case parsePrefix s of None \<Rightarrow> ''invalid Prefix''
                       | Some p \<Rightarrow> prefix_string (prefix_from (pfx_addr p) n))
      in (if wg_address_v4 w \<noteq> [] \<and> eo_ip_version ob \<noteq> ''force_ipv6'' then [one (wg_address_v4 w) 32] else [])
         @ (if wg_address_v6 w \<noteq> [] \<and> eo_ip_version ob \<noteq> ''force_ipv4'' then [one (wg_address_v6 w) 128] else []))"

text \<open>\<open>None\<close>: no local address to reach WARP from.\<close>

definition wireguard_endpoint :: "LocalAddrs \<Rightarrow> EgressWireGuard \<Rightarrow> string option" where
  "wireguard_endpoint l w =
     (if wg_endpoint w \<noteq> [] then Some (wg_endpoint w)
      else let v4 = (if wg_endpoint_v4 w = [] then WARPEndpointV4 else wg_endpoint_v4 w);
               v6 = (if wg_endpoint_v6 w = [] then WARPEndpointV6 else wg_endpoint_v6 w)
        in if la_v4 l \<noteq> None then Some v4 else if la_v6 l \<noteq> None then Some v6 else None)"

definition wireguard_settings :: "EgressOutbound \<Rightarrow> EgressWireGuard \<Rightarrow> string \<Rightarrow> json" where
  "wireguard_settings ob w endpoint =
     JObj ([(''secretKey'', JStr (wg_private_key w)), (''address'', jstrs (wireguard_addresses ob w)),
        (''peers'', JArr [JObj [(''publicKey'', JStr (wg_peer_public_key w)), (''endpoint'', JStr endpoint),
            (''allowedIPs'', jstrs [''0.0.0.0/0'', ''::/0''])]]),
        (''mtu'', JNum (if wg_mtu w = 0 then 1280 else wg_mtu w)),
        (''domainStrategy'', JStr (or_empty (wireguardStrategy (eo_ip_version ob)))), (''noKernelTun'', JBool True)]
       @ jopt (length (wg_reserved w) = 3) ''reserved'' (JArr (map JNum (wg_reserved w))))"

text \<open>
  The protocol with its settings and the stream settings; \<open>NoWARP\<close> is the
  early return, \<open>NilPanic\<close> a nil dereference (a plan that was not validated).
\<close>

datatype outbound_parts = NilPanic | NoWARP | Parts "(string \<times> json) list" "(string \<times> json) list"

definition outbound_parts :: "EgressOutbound \<Rightarrow> LocalAddrs \<Rightarrow> outbound_parts" where
  "outbound_parts ob l =
     (let server = [(''address'', JStr (eo_server ob)), (''port'', JNum (eo_port ob))] in
      if eo_type ob = ''direct'' then
        Parts [(''protocol'', JStr ''freedom''),
               (''settings'', JObj [(''domainStrategy'', JStr (or_empty (freedomStrategy (eo_ip_version ob))))])] []
      else if eo_type ob = ''socks'' \<or> eo_type ob = ''http'' then
        Parts [(''protocol'', JStr (eo_type ob)),
               (''settings'', JObj [(''servers'', JArr [JObj (server
                  @ jopt (eo_username ob \<noteq> [] \<or> eo_password ob \<noteq> []) ''users''
                      (JArr [JObj [(''user'', JStr (eo_username ob)), (''pass'', JStr (eo_password ob))]]))])])] []
      else if eo_type ob = ''shadowsocks'' then
        Parts [(''protocol'', JStr ''shadowsocks''),
               (''settings'', JObj [(''servers'', JArr [JObj (server
                  @ [(''method'', JStr (eo_method ob)), (''password'', JStr (eo_password ob))])])])] []
      else if eo_type ob = ''vless'' then
        (case eo_reality ob of
           None \<Rightarrow> NilPanic
         | Some r \<Rightarrow>
             Parts [(''protocol'', JStr ''vless''),
                    (''settings'', JObj [(''vnext'', JArr [JObj (server @ [(''users'', JArr [JObj
                       ([(''id'', JStr (eo_uuid ob)), (''encryption'', JStr ''none'')]
                        @ jopt (eo_flow ob \<noteq> []) ''flow'' (JStr (eo_flow ob)))])])])])]
                   [(''network'', JStr ''tcp''), (''security'', JStr ''reality''),
                    (''realitySettings'', JObj [(''serverName'', JStr (er_server_name r)),
                       (''publicKey'', JStr (er_public_key r)), (''shortId'', JStr (er_short_id r)),
                       (''fingerprint'', JStr (if er_fingerprint r = [] then ''chrome'' else er_fingerprint r))])])
      else if eo_type ob = ''wireguard'' then
        (case eo_wireguard ob of
           None \<Rightarrow> NilPanic
         | Some w \<Rightarrow>
             (case wireguard_endpoint l w of
                None \<Rightarrow> NoWARP
              | Some ep \<Rightarrow> Parts [(''protocol'', JStr ''wireguard''), (''settings'', wireguard_settings ob w ep)] []))
      else Parts [] [])"

definition RenderOutbound :: "EgressOutbound \<Rightarrow> LocalAddrs \<Rightarrow> (json \<times> string) option" where
  "RenderOutbound ob l =
     (let (bind, ok) = (if eo_type ob \<noteq> ''wireguard'' then forceBind (eo_ip_version ob) l else ([], True)) in
      if \<not> ok then
        Some (Blackhole (eo_tag ob),
          eo_tag ob @ '': no local '' @ (if eo_ip_version ob = ''force_ipv6'' then ''IPv6'' else ''IPv4''))
      else case outbound_parts ob l of
        NilPanic \<Rightarrow> None
      | NoWARP \<Rightarrow> Some (Blackhole (eo_tag ob), eo_tag ob @ '': no address for WARP'')
      | Parts own stream \<Rightarrow>
          (let dial = (if eo_type ob \<noteq> ''direct'' \<and> eo_type ob \<noteq> ''wireguard'' then dialStrategy (eo_ip_version ob) else None);
               sockopt = jopt (bind \<noteq> []) ''customSockopt'' bind_sockopt
                 @ (case dial of None \<Rightarrow> [] | Some s \<Rightarrow> [(''domainStrategy'', JStr s)]);
               stream' = stream @ jopt (sockopt \<noteq> []) ''sockopt'' (JObj sockopt)
           in Some (JObj ([(''tag'', JStr (eo_tag ob))] @ jopt (bind \<noteq> []) ''sendThrough'' (JStr bind) @ own
                 @ jopt (stream' \<noteq> []) ''streamSettings'' (JObj stream')), [])))"

section \<open>Source lists\<close>

datatype render_error = BadPrefix string | GeoFailed geo_error | InRule nat render_error

type_synonym GeoIPReader = "string \<Rightarrow> geo_error + prefix list"

text \<open>\<open>sourceSet\<close>: the literal entries and the geoip sets, in two lists.\<close>

fun source_parts :: "GeoIPReader \<Rightarrow> string list \<Rightarrow> render_error + (prefix list \<times> dualSet list)" where
  "source_parts read [] = Inr ([], [])"
| "source_parts read (v # vs) =
     (if has_prefix v ''geoip:'' then
        (let code = trim_prefix v ''geoip:'' in
         case read (trim_prefix code ''!'') of
           Inl e \<Rightarrow> Inl (GeoFailed e)
         | Inr prefixes \<Rightarrow>
             (let s = newDualSet prefixes; s' = (if has_prefix code ''!'' then dual_complement s else s)
              in case source_parts read vs of
                   Inl e \<Rightarrow> Inl e
                 | Inr (direct, sets) \<Rightarrow> Inr (direct, s' # sets)))
      else
        (case parsePrefix v of
           None \<Rightarrow> Inl (BadPrefix v)
         | Some p \<Rightarrow>
             (case source_parts read vs of
                Inl e \<Rightarrow> Inl e
              | Inr (direct, sets) \<Rightarrow> Inr (p # direct, sets))))"

definition sourceSet :: "string list \<Rightarrow> GeoIPReader \<Rightarrow> render_error + dualSet" where
  "sourceSet entries read =
     (case source_parts read entries of
        Inl e \<Rightarrow> Inl e
      | Inr (direct, sets) \<Rightarrow> Inr (foldl dual_union (newDualSet direct) sets))"

datatype sourceResult = KeepList "string list" | DropRule

record SourceMemo =
  memo_prev :: "string \<rightharpoonup> sourceResult"
  memo_next :: "string \<rightharpoonup> sourceResult"

text \<open>A nil memo is \<open>None\<close>; a nil map is the empty map.\<close>

definition memo_get :: "SourceMemo option \<Rightarrow> string \<Rightarrow> sourceResult option" where
  "memo_get om key =
     (case om of None \<Rightarrow> None
      | Some s \<Rightarrow> (case memo_next s key of Some r \<Rightarrow> Some r | None \<Rightarrow> memo_prev s key))"

definition memo_put :: "string \<Rightarrow> sourceResult \<Rightarrow> SourceMemo option \<Rightarrow> SourceMemo option" where
  "memo_put key r om = map_option (\<lambda>s. s\<lparr>memo_next := (memo_next s)(key \<mapsto> r)\<rparr>) om"

definition memo_rotate :: "SourceMemo option \<Rightarrow> SourceMemo option" where
  "memo_rotate om = map_option (\<lambda>s. \<lparr> memo_prev = memo_next s, memo_next = Map.empty \<rparr>) om"

definition memo_discard :: "SourceMemo option \<Rightarrow> SourceMemo option" where
  "memo_discard om = map_option (\<lambda>s. s\<lparr>memo_next := Map.empty\<rparr>) om"

definition memo_key :: "string list \<Rightarrow> string \<Rightarrow> string" where
  "memo_key entries exemptKey = go_join [CHR 0x0A] entries @ CHR 0x00 # exemptKey"

text \<open>What a source list becomes, computed without the memo.\<close>

definition source_result :: "GeoIPReader \<Rightarrow> dualSet \<Rightarrow> string list \<Rightarrow> render_error + sourceResult" where
  "source_result read exempt entries =
     (case sourceSet entries read of
        Inl e \<Rightarrow> Inl e
      | Inr s \<Rightarrow>
          if dual_intersects s exempt then
            (let s' = dual_subtract s exempt
             in Inr (if dual_empty s' then DropRule else KeepList (dual_cidrs s')))
          else Inr (KeepList entries))"

section \<open>Rules\<close>

definition rule_json :: "nat \<Rightarrow> EgressRule \<Rightarrow> string list \<Rightarrow> json" where
  "rule_json i r sources =
     JObj ([(''type'', JStr ''field''), (''ruleTag'', JStr (''flvxr-'' @ go_itoa (int i + 1))),
            (''outboundTag'', JStr (rule_outbound r)), (''inboundTag'', jstrs (sortedUnique (rule_inbound_tags r)))]
       @ jopt (rule_domain r \<noteq> []) ''domain'' (jstrs (rule_domain r))
       @ jopt (rule_ip r \<noteq> []) ''ip'' (jstrs (rule_ip r))
       @ jopt (rule_source_ip r \<noteq> []) ''sourceIP'' (jstrs sources)
       @ jopt (rule_port r \<noteq> []) ''port'' (JStr (rule_port r))
       @ jopt (rule_source_port r \<noteq> []) ''sourcePort'' (JStr (rule_source_port r))
       @ jopt (rule_network r \<noteq> []) ''network'' (JStr (rule_network r))
       @ jopt (rule_protocol r \<noteq> []) ''protocol'' (jstrs (rule_protocol r)))"

text \<open>The loop over the rules from index \<open>i\<close> on; the memo is threaded through.\<close>

fun render_rules ::
  "GeoIPReader \<Rightarrow> dualSet \<Rightarrow> string \<Rightarrow> nat \<Rightarrow> EgressRule list \<Rightarrow> SourceMemo option
   \<Rightarrow> (render_error + json list) \<times> SourceMemo option" where
  "render_rules read exempt exemptKey i [] memo = (Inr [], memo)"
| "render_rules read exempt exemptKey i (r # rs) memo =
     (if rule_source_ip r \<noteq> [] \<and> \<not> dual_empty exempt then
        (let key = memo_key (rule_source_ip r) exemptKey in
         case (case memo_get memo key of Some x \<Rightarrow> Inr x | None \<Rightarrow> source_result read exempt (rule_source_ip r)) of
           Inl e \<Rightarrow> (Inl (InRule (i + 1) e), memo)
         | Inr res \<Rightarrow>
             (let (rest, memo') = render_rules read exempt exemptKey (Suc i) rs (memo_put key res memo) in
              case (rest, res) of
                (Inl e, _) \<Rightarrow> (Inl e, memo')
              | (Inr js, DropRule) \<Rightarrow> (Inr js, memo')
              | (Inr js, KeepList l) \<Rightarrow> (Inr (rule_json i r l # js), memo')))
      else
        (let (rest, memo') = render_rules read exempt exemptKey (Suc i) rs memo in
         case rest of
           Inl e \<Rightarrow> (Inl e, memo')
         | Inr js \<Rightarrow> (Inr (rule_json i r (rule_source_ip r) # js), memo')))"

fun parse_all :: "string list \<Rightarrow> string + prefix list" where
  "parse_all [] = Inr []"
| "parse_all (s # ss) =
     (case parsePrefix s of
        None \<Rightarrow> Inl s
      | Some p \<Rightarrow> (case parse_all ss of Inl e \<Rightarrow> Inl e | Inr ps \<Rightarrow> Inr (p # ps)))"

definition RenderRules ::
  "Egress option \<Rightarrow> GeoIPReader \<Rightarrow> SourceMemo option \<Rightarrow> (render_error + json list) \<times> SourceMemo option" where
  "RenderRules oe read memo =
     (case oe of
        None \<Rightarrow> (Inr [SafetyRule], memo)
      | Some e \<Rightarrow>
          (case parse_all (eg_exempt_sources e) of
             Inl s \<Rightarrow> (Inl (BadPrefix s), memo)
           | Inr prefixes \<Rightarrow>
               (let exempt = newDualSet prefixes; exemptKey = go_join '','' (dual_cidrs exempt);
                    (res, memo') = render_rules read exempt exemptKey 0 (eg_rules e) memo
                in case res of
                     Inl er \<Rightarrow> (Inl er, memo')
                   | Inr js \<Rightarrow> (Inr (SafetyRule # js), memo'))))"

section \<open>Inbounds and the base configuration\<close>

definition BaseConfig :: "int \<Rightarrow> json" where
  "BaseConfig apiPort = JObj
     [(''log'', JObj [(''loglevel'', JStr ''warning''), (''access'', JStr ''none'')]),
      (''api'', JObj [(''tag'', JStr ''flvx-api''), (''listen'', JStr (''127.0.0.1:'' @ go_itoa apiPort)),
          (''services'', jstrs [''HandlerService'', ''StatsService'', ''RoutingService''])]),
      (''stats'', JObj []),
      (''policy'', JObj [(''levels'', JObj [(''0'', JObj [(''handshake'', JNum 4), (''connIdle'', JNum 300),
            (''uplinkOnly'', JNum 2), (''downlinkOnly'', JNum 5)])]),
          (''system'', JObj [(''statsInboundUplink'', JBool True), (''statsInboundDownlink'', JBool True)])]),
      (''inbounds'', JArr []),
      (''outbounds'', JArr [JObj [(''tag'', JStr ''direct''), (''protocol'', JStr ''freedom''),
            (''settings'', JObj [(''domainStrategy'', JStr ''UseIP'')])],
          JObj [(''tag'', JStr ''block''), (''protocol'', JStr ''blackhole'')]]),
      (''routing'', JObj [(''domainStrategy'', JStr ''IPOnDemand''), (''rules'', JArr [SafetyRule])])]"

text \<open>\<open>strings.ReplaceAll(data, "\r\n", "\n")\<close>.\<close>

fun unix_lines :: "string \<Rightarrow> string" where
  "unix_lines (a # b # s) =
     (if a = CHR 0x0D \<and> b = CHR 0x0A then CHR 0x0A # unix_lines s else a # unix_lines (b # s))"
| "unix_lines s = s"

definition pemLines :: "string \<Rightarrow> string list" where
  "pemLines data = go_split (CHR 0x0A) (trim_space (unix_lines data))"

definition sniffing_json :: json where
  "sniffing_json = JObj [(''enabled'', JBool True), (''destOverride'', jstrs [''http'', ''tls'']), (''routeOnly'', JBool True),
     (''domainsExcluded'', jstrs [''regexp:.*''])]"

definition Inbound :: "Node \<Rightarrow> json" where
  "Inbound n =
     (let tag = Node_Tag n;
          own =
            (if nd_protocol n = ''ss2022'' \<and> nd_ss2022 n \<noteq> None then
               (let s = the (nd_ss2022 n) in
                [(''protocol'', JStr ''shadowsocks''),
                 (''settings'', JObj [(''method'', JStr (ss_method s)), (''password'', JStr (ss_server_key s)),
                    (''network'', JStr ''tcp,udp''),
                    (''clients'', JArr [JObj [(''password'', JStr (ss_user_key s)), (''email'', JStr tag)]])])])
             else if nd_vless n \<noteq> None then
               (let v = the (nd_vless n); rl = vl_reality v in
                [(''protocol'', JStr ''vless''),
                 (''settings'', JObj [(''decryption'', JStr ''none''),
                    (''clients'', JArr [JObj [(''id'', JStr (vl_uuid v)), (''email'', JStr tag), (''flow'', JStr ''xtls-rprx-vision'')]])]),
                 (''streamSettings'', JObj [(''network'', JStr ''tcp''), (''security'', JStr ''reality''),
                    (''realitySettings'', JObj [(''dest'', JStr (rl_dest rl)), (''serverNames'', jstrs (rl_server_names rl)),
                       (''privateKey'', JStr (rl_private_key rl)), (''shortIds'', jstrs (rl_short_ids rl))])])])
             else if nd_protocol n = ProtocolAnyTLS \<and> nd_anytls n \<noteq> None then
               (let a = the (nd_anytls n) in
                [(''protocol'', JStr ''anytls''),
                 (''settings'', JObj [(''users'', JArr [JObj [(''password'', JStr (an_password a)), (''email'', JStr tag)]])]),
                 (''streamSettings'', JObj [(''network'', JStr ''tcp''), (''security'', JStr ''tls''),
                    (''tlsSettings'', JObj [(''minVersion'', JStr ''1.2''), (''alpn'', jstrs [''h2'', ''http/1.1'']),
                       (''certificates'', JArr [JObj [(''certificate'', jstrs (pemLines (at_certificate_pem (an_tls a)))),
                          (''key'', jstrs (pemLines (at_key_pem (an_tls a))))]])])])])
             else if nd_protocol n = ProtocolSnell \<and> nd_snell n \<noteq> None then
               (let s = the (nd_snell n); obf = sn_obfs s = ''http'' \<or> sn_obfs s = ''tls'' in
                [(''protocol'', JStr ''snell''),
                 (''settings'', JObj [(''users'', JArr [JObj ([(''psk'', JStr (sn_psk s)), (''version'', JNum (sn_version s)), (''email'', JStr tag)]
                    @ jopt obf ''obfsMode'' (JStr (sn_obfs s)) @ jopt obf ''obfsHost'' (JStr (sn_obfs_host s)))])])])
             else if nd_protocol n = ProtocolMieru \<and> nd_mieru n \<noteq> None then
               (let m = the (nd_mieru n) in
                [(''protocol'', JStr ''mieru''),
                 (''settings'', JObj [(''users'', JArr [JObj [(''username'', JStr (mi_username m)), (''password'', JStr (mi_password m)),
                    (''email'', JStr tag)]])])])
             else [])
      in JObj ([(''tag'', JStr tag), (''listen'', JStr ''0.0.0.0''), (''port'', JNum (nd_port n)), (''sniffing'', sniffing_json)] @ own))"

section \<open>Source lists as sets of addresses\<close>

definition entry_elems :: "GeoIPReader \<Rightarrow> string \<Rightarrow> (int + int) set" where
  "entry_elems read v =
     (if has_prefix v ''geoip:'' then
        (let code = trim_prefix v ''geoip:'';
             A = (case read (trim_prefix code ''!'') of Inl _ \<Rightarrow> {} | Inr ps \<Rightarrow> \<Union>p \<in> set ps. prefix_elems p)
         in if has_prefix code ''!'' then all_addrs - A else A)
      else (case parsePrefix v of None \<Rightarrow> {} | Some p \<Rightarrow> prefix_elems p))"

definition good_reader :: "GeoIPReader \<Rightarrow> bool" where
  "good_reader read \<longleftrightarrow> (\<forall>code ps. read code = Inr ps \<longrightarrow> list_all valid_prefix ps)"

lemma source_parts_correct:
  assumes "good_reader read" and "source_parts read vs = Inr (direct, sets)"
  shows "list_all valid_prefix direct \<and> list_all wf_dual sets
    \<and> (\<Union>p \<in> set direct. prefix_elems p) \<union> (\<Union>s \<in> set sets. dual_elems s) = (\<Union>v \<in> set vs. entry_elems read v)"
  using assms(2)
proof (induction vs arbitrary: direct sets)
  case (Cons v vs)
  show ?case
  proof (cases "has_prefix v ''geoip:''")
    case True
    let ?code = "trim_prefix v ''geoip:''"
    obtain ps where ps: "read (trim_prefix ?code ''!'') = Inr ps"
      using Cons.prems True by (auto simp: Let_def split: sum.splits)
    have nd: "wf_dual (newDualSet ps)" "dual_elems (newDualSet ps) = (\<Union>p \<in> set ps. prefix_elems p)"
      using newDualSet_correct assms(1) ps by (auto simp: good_reader_def)
    define s where "s = (if has_prefix ?code ''!'' then dual_complement (newDualSet ps) else newDualSet ps)"
    obtain sets' where sets: "source_parts read vs = Inr (direct, sets')" "sets = s # sets'"
      using Cons.prems True ps by (auto simp: Let_def s_def split: sum.splits)
    have "wf_dual s" "dual_elems s = entry_elems read v"
      using nd True ps by (auto simp: s_def entry_elems_def dual.compl_wf dual.compl_elems)
    then show ?thesis using Cons.IH [OF sets(1)] sets(2) by auto
  next
    case False
    obtain p where p: "parsePrefix v = Some p" using Cons.prems False by (auto split: option.splits)
    obtain direct' where d: "source_parts read vs = Inr (direct', sets)" "direct = p # direct'"
      using Cons.prems False p by (auto split: sum.splits)
    have "entry_elems read v = prefix_elems p" using False p by (simp add: entry_elems_def)
    then show ?thesis using Cons.IH [OF d(1)] d(2) parsePrefix_valid [OF p] by auto
  qed
qed simp

lemma sourceSet_correct:
  assumes "good_reader read" and "sourceSet vs read = Inr s"
  shows "wf_dual s" and "dual_elems s = (\<Union>v \<in> set vs. entry_elems read v)"
proof -
  obtain direct sets where parts: "source_parts read vs = Inr (direct, sets)"
    and s: "s = foldl dual_union (newDualSet direct) sets"
    using assms(2) by (auto simp: sourceSet_def split: sum.splits)
  note c = source_parts_correct [OF assms(1) parts]
  note u = dual.unions [of "newDualSet direct" sets] newDualSet_correct [of direct]
  show "wf_dual s" using c u by (simp add: s)
  show "dual_elems s = (\<Union>v \<in> set vs. entry_elems read v)" using c u by (simp add: s)
qed

text \<open>What a rule's source list may become: the specification of the rewriting.\<close>

definition rewritten :: "GeoIPReader \<Rightarrow> dualSet \<Rightarrow> string list \<Rightarrow> sourceResult \<Rightarrow> bool" where
  "rewritten read exempt entries res \<longleftrightarrow>
     (let S = (\<Union>v \<in> set entries. entry_elems read v); X = dual_elems exempt in
      case res of
        DropRule \<Rightarrow> S \<noteq> {} \<and> S \<subseteq> X
      | KeepList l \<Rightarrow> l = entries \<and> S \<inter> X = {}
          \<or> texts_denote l (S - X) \<and> S - X \<noteq> {} \<and> S \<inter> X \<noteq> {})"

lemma source_result_rewritten:
  assumes "good_reader read" and "wf_dual exempt" and "source_result read exempt entries = Inr res"
  shows "rewritten read exempt entries res"
proof -
  obtain s where s: "sourceSet entries read = Inr s"
    using assms(3) by (auto simp: source_result_def split: sum.splits)
  note set = sourceSet_correct [OF assms(1) s]
  have res: "res = (if dual_intersects s exempt
      then if dual_empty (dual_subtract s exempt) then DropRule else KeepList (dual_cidrs (dual_subtract s exempt))
      else KeepList entries)"
    using assms(3) s by (auto simp: source_result_def Let_def)
  have meets: "dual_intersects s exempt \<longleftrightarrow> dual_elems s \<inter> dual_elems exempt \<noteq> {}"
    and none: "dual_empty (dual_subtract s exempt) \<longleftrightarrow> dual_elems s \<subseteq> dual_elems exempt"
    and minus: "wf_dual (dual_subtract s exempt)" "dual_elems (dual_subtract s exempt) = dual_elems s - dual_elems exempt"
    using set(1) assms(2) by (simp_all add: dual.meets_iff dual.remainder_empty dual.minus_wf dual.minus_elems)
  show ?thesis
    using minus dual_cidrs_denote [OF minus(1)] unfolding rewritten_def Let_def res meets none set(2) [symmetric]
    by (auto split: if_splits)
qed

section \<open>The memo is transparent\<close>

definition plain_entries :: "string list \<Rightarrow> bool" where
  "plain_entries es \<longleftrightarrow> es \<noteq> [] \<and> list_all (\<lambda>e. CHR 0x0A \<notin> set e \<and> CHR 0x00 \<notin> set e) es"

definition memo_has :: "SourceMemo option \<Rightarrow> string \<Rightarrow> sourceResult \<Rightarrow> bool" where
  "memo_has om key res \<longleftrightarrow>
     (case om of None \<Rightarrow> False | Some s \<Rightarrow> memo_next s key = Some res \<or> memo_prev s key = Some res)"

lemma memo_get_has: "memo_get om key = Some res \<Longrightarrow> memo_has om key res"
  by (auto simp: memo_get_def memo_has_def split: option.splits)

lemma memo_has_steps:
  "memo_has (memo_put key res om) key' res' \<Longrightarrow> key' = key \<and> res' = res \<or> memo_has om key' res'"
  "memo_has (memo_rotate om) key' res' \<Longrightarrow> memo_has om key' res'"
  "memo_has (memo_discard om) key' res' \<Longrightarrow> memo_has om key' res'"
  by (cases om; auto simp: memo_has_def memo_put_def memo_rotate_def memo_discard_def split: if_splits)+

text \<open>Every entry is the result for its sources and for the exemption that its key names.\<close>

definition memo_ok :: "GeoIPReader \<Rightarrow> SourceMemo option \<Rightarrow> bool" where
  "memo_ok read om \<longleftrightarrow>
     (\<forall>exempt es res. wf_dual exempt \<longrightarrow> plain_entries es \<longrightarrow> memo_has om (memo_key es (go_join '','' (dual_cidrs exempt))) res
        \<longrightarrow> source_result read exempt es = Inr res)"

lemma split_at_first: "c \<notin> set x \<Longrightarrow> c \<notin> set x' \<Longrightarrow> x @ c # y = x' @ c # y' \<Longrightarrow> x = x' \<and> y = y'"
  by (induction x arbitrary: x') (auto simp: Cons_eq_append_conv)

lemma join_chars: "c \<noteq> d \<Longrightarrow> list_all (\<lambda>e. c \<notin> set e) es \<Longrightarrow> c \<notin> set (go_join [d] es)"
  by (induction "[d]" es rule: go_join.induct) auto

lemma memo_key_inj:
  assumes "plain_entries es" and "plain_entries fs" and "memo_key es k = memo_key fs k'"
  shows "es = fs" and "k = k'"
proof -
  have ne: "CHR 0x00 \<noteq> CHR 0x0A" by simp
  have join: "go_join [CHR 0x0A] es = go_join [CHR 0x0A] fs \<and> k = k'"
    using assms join_chars [OF ne] split_at_first [of "CHR 0x00" "go_join [CHR 0x0A] es" "go_join [CHR 0x0A] fs"]
    by (auto simp: memo_key_def plain_entries_def list_all_iff)
  moreover have "go_split (CHR 0x0A) (go_join [CHR 0x0A] x) = x" if "plain_entries x" for x
    using that go_split_join_plain [of x "CHR 0x0A"] by (auto simp: plain_entries_def list_all_iff)
  ultimately show "es = fs" and "k = k'" using assms(1,2) by metis+
qed

lemma memo_ok_put:
  assumes "memo_ok read om" and "wf_dual exempt" and "plain_entries es" and "source_result read exempt es = Inr res"
  shows "memo_ok read (memo_put (memo_key es (go_join '','' (dual_cidrs exempt))) res om)"
  unfolding memo_ok_def
proof (intro allI impI)
  fix exempt' es' res'
  assume e: "wf_dual exempt'" "plain_entries es'"
    and has: "memo_has (memo_put (memo_key es (go_join '','' (dual_cidrs exempt))) res om) (memo_key es' (go_join '','' (dual_cidrs exempt'))) res'"
  from memo_has_steps(1) [OF has] show "source_result read exempt' es' = Inr res'"
  proof
    assume same: "memo_key es' (go_join '','' (dual_cidrs exempt')) = memo_key es (go_join '','' (dual_cidrs exempt)) \<and> res' = res"
    have "es' = es" "exempt' = exempt"
      using memo_key_inj [OF e(2) assms(3)] same cidrs_key_inj [OF e(1) assms(2)] by blast+
    then show ?thesis using assms(4) same by simp
  next
    assume "memo_has om (memo_key es' (go_join '','' (dual_cidrs exempt'))) res'"
    then show ?thesis using assms(1) e unfolding memo_ok_def by blast
  qed
qed

lemma memo_ok_empty: "memo_ok read None" "memo_ok read (Some \<lparr> memo_prev = Map.empty, memo_next = Map.empty \<rparr>)"
  by (simp_all add: memo_ok_def memo_has_def)

lemma memo_ok_between:
  assumes "memo_ok read om"
  shows "memo_ok read (memo_rotate om)" and "memo_ok read (memo_discard om)"
  using assms memo_has_steps(2,3) unfolding memo_ok_def by blast+

definition rules_plain :: "EgressRule list \<Rightarrow> bool" where
  "rules_plain rs \<longleftrightarrow> list_all (\<lambda>r. rule_source_ip r = [] \<or> plain_entries (rule_source_ip r)) rs"

lemma render_rules_memo:
  assumes "rules_plain rs" and "memo_ok read om" and "wf_dual exempt"
  defines "k \<equiv> go_join '','' (dual_cidrs exempt)"
  shows "fst (render_rules read exempt k i rs om) = fst (render_rules read exempt k i rs None)
    \<and> memo_ok read (snd (render_rules read exempt k i rs om))"
  using assms(1,2)
proof (induction rs arbitrary: i om)
  case (Cons r rs)
  have rs: "rules_plain rs" using Cons.prems(1) by (simp add: rules_plain_def)
  show ?case
  proof (cases "rule_source_ip r \<noteq> [] \<and> \<not> dual_empty exempt")
    case False
    then show ?thesis using Cons.IH [OF rs Cons.prems(2), of "Suc i"]
      by (auto simp: Let_def split: prod.splits sum.splits)
  next
    case True
    then have plain: "plain_entries (rule_source_ip r)" using Cons.prems(1) by (auto simp: rules_plain_def)
    let ?key = "memo_key (rule_source_ip r) k"
    have look: "(case memo_get om ?key of Some x \<Rightarrow> Inr x | None \<Rightarrow> source_result read exempt (rule_source_ip r))
        = source_result read exempt (rule_source_ip r)"
      using Cons.prems(2) plain assms(3) memo_get_has by (fastforce simp: memo_ok_def k_def split: option.splits)
    show ?thesis
    proof (cases "source_result read exempt (rule_source_ip r)")
      case (Inl e)
      then show ?thesis using True look Cons.prems(2) by (simp add: Let_def memo_get_def)
    next
      case (Inr res)
      note ok = memo_ok_put [OF Cons.prems(2) assms(3) plain Inr, folded k_def]
      have put: "memo_put ?key res None = None" by (simp add: memo_put_def)
      show ?thesis
        using Cons.IH [OF rs ok, of "Suc i"] True look Inr put
        by (auto simp: Let_def memo_get_def split: prod.splits sum.splits sourceResult.splits)
    qed
  qed
qed simp

section \<open>The rendered rules\<close>

text \<open>\<open>rendered read exempt i rs js\<close>: the rules \<open>rs\<close> from index \<open>i\<close> on may be rendered as \<open>js\<close>.\<close>

inductive rendered :: "GeoIPReader \<Rightarrow> dualSet \<Rightarrow> nat \<Rightarrow> EgressRule list \<Rightarrow> json list \<Rightarrow> bool"
  for read :: GeoIPReader and exempt :: dualSet where
  rendered_nil: "rendered read exempt i [] []"
| rendered_any: "rule_source_ip r = [] \<or> dual_elems exempt = {} \<Longrightarrow> rendered read exempt (Suc i) rs js \<Longrightarrow>
     rendered read exempt i (r # rs) (rule_json i r (rule_source_ip r) # js)"
| rendered_keep: "rule_source_ip r \<noteq> [] \<Longrightarrow> rewritten read exempt (rule_source_ip r) (KeepList l) \<Longrightarrow>
     rendered read exempt (Suc i) rs js \<Longrightarrow> rendered read exempt i (r # rs) (rule_json i r l # js)"
| rendered_drop: "rule_source_ip r \<noteq> [] \<Longrightarrow> rewritten read exempt (rule_source_ip r) DropRule \<Longrightarrow>
     rendered read exempt (Suc i) rs js \<Longrightarrow> rendered read exempt i (r # rs) js"

lemma render_rules_rendered:
  assumes "good_reader read" and "wf_dual exempt"
  shows "fst (render_rules read exempt k i rs None) = Inr js \<Longrightarrow> rendered read exempt i rs js"
proof (induction rs arbitrary: i js)
  case Nil
  then show ?case by (simp add: rendered_nil)
next
  case (Cons r rs)
  have none: "memo_put key res None = None" for key res by (simp add: memo_put_def)
  show ?case
  proof (cases "rule_source_ip r \<noteq> [] \<and> \<not> dual_empty exempt")
    case False
    then have any: "rule_source_ip r = [] \<or> dual_elems exempt = {}"
      using assms(2) by (auto simp: dual.is_empty_iff)
    obtain js' where js': "fst (render_rules read exempt k (Suc i) rs None) = Inr js'"
      "js = rule_json i r (rule_source_ip r) # js'"
      using Cons.prems False by (auto simp: Let_def split: prod.splits sum.splits)
    then show ?thesis using Cons.IH any by (auto intro: rendered_any)
  next
    case True
    then obtain res where res: "source_result read exempt (rule_source_ip r) = Inr res"
      using Cons.prems by (auto simp: Let_def memo_get_def split: sum.splits)
    note rw = source_result_rewritten [OF assms res]
    obtain js' where js': "fst (render_rules read exempt k (Suc i) rs None) = Inr js'"
      "js = (case res of DropRule \<Rightarrow> js' | KeepList l \<Rightarrow> rule_json i r l # js')"
      using Cons.prems True res none
      by (auto simp: Let_def memo_get_def split: prod.splits sum.splits sourceResult.splits)
    show ?thesis
      using Cons.IH [OF js'(1)] js'(2) rw True
      by (cases res) (auto intro: rendered_keep rendered_drop)
  qed
qed

lemma parse_all_correct:
  "parse_all ss = Inr ps \<Longrightarrow> map parsePrefix ss = map Some ps"
  by (induction ss arbitrary: ps) (auto split: option.splits sum.splits)

lemma parse_all_valid: "parse_all ss = Inr ps \<Longrightarrow> list_all valid_prefix ps"
  by (induction ss arbitrary: ps) (auto split: option.splits sum.splits dest: parsePrefix_valid)

definition literal_elems :: "string \<Rightarrow> (int + int) set" where
  "literal_elems s = (case parsePrefix s of None \<Rightarrow> {} | Some p \<Rightarrow> prefix_elems p)"

definition exempt_set :: "Egress \<Rightarrow> dualSet" where
  "exempt_set e = (case parse_all (eg_exempt_sources e) of Inl _ \<Rightarrow> newDualSet [] | Inr ps \<Rightarrow> newDualSet ps)"

definition exempt_key :: "Egress \<Rightarrow> string" where
  "exempt_key e = go_join '','' (dual_cidrs (exempt_set e))"

lemma RenderRules_memo:
  assumes "memo_ok read memo" and "rules_plain (eg_rules e)"
  shows "fst (RenderRules (Some e) read memo) = fst (RenderRules (Some e) read None)
    \<and> memo_ok read (snd (RenderRules (Some e) read memo))"
proof (cases "parse_all (eg_exempt_sources e)")
  case (Inl x)
  then show ?thesis using assms(1) by (simp add: RenderRules_def)
next
  case (Inr ps)
  let ?r = "render_rules read (newDualSet ps) (go_join '','' (dual_cidrs (newDualSet ps))) 0 (eg_rules e)"
  have "wf_dual (newDualSet ps)" using newDualSet_correct [OF parse_all_valid [OF Inr]] by simp
  note m = render_rules_memo [OF assms(2,1) this, of 0]
  have one: "RenderRules (Some e) read om
      = (case fst (?r om) of Inl er \<Rightarrow> (Inl er, snd (?r om)) | Inr js \<Rightarrow> (Inr (SafetyRule # js), snd (?r om)))" for om
    by (simp add: RenderRules_def Inr Let_def case_prod_unfold)
  have "fst (RenderRules (Some e) read om) = (case fst (?r om) of Inl er \<Rightarrow> Inl er | Inr js \<Rightarrow> Inr (SafetyRule # js))"
    and "snd (RenderRules (Some e) read om) = snd (?r om)" for om
    unfolding one by (cases "fst (?r om)"; simp)+
  then show ?thesis using m by simp
qed

text \<open>
  The memo between renders: of plans with any exemptions, rotated or discarded at any time.
\<close>

inductive memo_reach :: "GeoIPReader \<Rightarrow> SourceMemo option \<Rightarrow> bool" for read :: GeoIPReader where
  memo_nil: "memo_reach read None"
| memo_new: "memo_reach read (Some \<lparr> memo_prev = Map.empty, memo_next = Map.empty \<rparr>)"
| memo_render: "memo_reach read memo \<Longrightarrow> rules_plain (eg_rules e) \<Longrightarrow> memo_reach read (snd (RenderRules (Some e) read memo))"
| memo_rotated: "memo_reach read memo \<Longrightarrow> memo_reach read (memo_rotate memo)"
| memo_discarded: "memo_reach read memo \<Longrightarrow> memo_reach read (memo_discard memo)"

lemma memo_reach_ok: "memo_reach read memo \<Longrightarrow> memo_ok read memo"
  by (induction rule: memo_reach.induct) (simp_all add: memo_ok_empty memo_ok_between RenderRules_memo)

section \<open>Properties\<close>


lemma outbound_parts_keys:
  assumes "outbound_parts ob l = Parts own stream"
  shows "fst ` set own \<subseteq> {''protocol'', ''settings''}"
    and "fst ` set stream \<subseteq> {''network'', ''security'', ''realitySettings''}"
  using assms by (auto simp: outbound_parts_def Let_def split: if_splits option.splits)

lemma outbound_parts_warp: "outbound_parts ob l = NoWARP \<Longrightarrow> eo_type ob = ''wireguard''"
  by (auto simp: outbound_parts_def Let_def split: if_splits option.splits)

lemma map_of_skip: "k \<notin> fst ` set xs \<Longrightarrow> map_of (xs @ ys) k = map_of ys k"
  by (induction xs) auto

text \<open>
  forced address families. An outbound that forces a family and is
  not WireGuard either binds to the local address of that family and dials only
  it, or is a blackhole with a warning; without a local address it is never
  anything else.
\<close>

theorem forced_outbound:
  assumes "eo_type ob \<noteq> ''wireguard''" and "eo_ip_version ob = ''force_ipv4'' \<or> eo_ip_version ob = ''force_ipv6''"
    and "RenderOutbound ob l = Some (j, warning)"
  defines "own \<equiv> (if eo_ip_version ob = ''force_ipv4'' then la_v4 l else la_v6 l)"
  shows "(own = None \<longrightarrow> j = Blackhole (eo_tag ob) \<and> warning \<noteq> [])
    \<and> (\<forall>a. own = Some a \<longrightarrow> warning = [] \<and> jget ''sendThrough'' j = Some (JStr (addr_string a))
        \<and> (eo_type ob \<in> set [''socks'', ''http'', ''shadowsocks'', ''vless''] \<longrightarrow>
             Option.bind (Option.bind (jget ''streamSettings'' j) (jget ''sockopt'')) (jget ''domainStrategy'')
               = Some (JStr (if eo_ip_version ob = ''force_ipv4'' then ''ForceIPv4'' else ''ForceIPv6''))))"
proof -
  have str: "addr_string a \<noteq> []" for a
    by (cases a) (auto simp: addr_string_def ipv4_string_def addr_as4_def ipv6_string_def Let_def upt_rec u128_groups_def split: prod.splits)
  have bind: "forceBind (eo_ip_version ob) l = (local_string own, own \<noteq> None)"
    using assms(2) by (auto simp: forceBind_def own_def)
  show ?thesis
  proof (cases own)
    case None
    then show ?thesis using assms(1,3) bind by (auto simp: RenderOutbound_def)
  next
    case (Some a)
    then obtain parts stream where p: "outbound_parts ob l = Parts parts stream"
      using assms(1,3) bind outbound_parts_warp [of ob l]
      by (cases "outbound_parts ob l") (auto simp: RenderOutbound_def)
    note keys = outbound_parts_keys [OF p]
    define dial where "dial = (if eo_type ob \<noteq> ''direct'' \<and> eo_type ob \<noteq> ''wireguard'' then dialStrategy (eo_ip_version ob) else None)"
    define sockopt where "sockopt = (''customSockopt'', bind_sockopt) # (case dial of None \<Rightarrow> [] | Some s \<Rightarrow> [(''domainStrategy'', JStr s)])"
    have bind': "local_string own = addr_string a" using Some by (simp add: local_string_def)
    have j: "j = JObj ((''tag'', JStr (eo_tag ob)) # (''sendThrough'', JStr (addr_string a)) # parts
        @ [(''streamSettings'', JObj (stream @ [(''sockopt'', JObj sockopt)]))])" and w: "warning = []"
      using assms(1,3) bind p Some str bind'
      by (auto simp: RenderOutbound_def Let_def jopt_def sockopt_def dial_def)
    have "jget ''streamSettings'' j = Some (JObj (stream @ [(''sockopt'', JObj sockopt)]))"
    proof -
      have "''streamSettings'' \<notin> fst ` set parts" using keys(1) by auto
      then show ?thesis by (simp add: j map_of_skip del: map_of_append)
    qed
    moreover have "map_of (stream @ [(''sockopt'', JObj sockopt)]) ''sockopt'' = Some (JObj sockopt)"
    proof -
      have "''sockopt'' \<notin> fst ` set stream" using keys(2) by auto
      then show ?thesis by (simp add: map_of_skip del: map_of_append)
    qed
    moreover have "map_of sockopt ''domainStrategy'' = Some (JStr (if eo_ip_version ob = ''force_ipv4'' then ''ForceIPv4'' else ''ForceIPv6''))"
      if "eo_type ob \<in> set [''socks'', ''http'', ''shadowsocks'', ''vless'']"
      using that assms(2) by (auto simp: sockopt_def dial_def dialStrategy_def)
    ultimately show ?thesis using Some w by (auto simp: j)
  qed
qed

definition ex_forced :: EgressOutbound where
  "ex_forced = ex_outbound\<lparr>eo_ip_version := ''force_ipv6''\<rparr>"

theorem forced_outbound_witness:
  "RenderOutbound ex_forced \<lparr> la_v4 = Some (IPv4 0x01020304), la_v6 = None \<rparr>
     = Some (Blackhole ''flvxo-a'', ''flvxo-a: no local IPv6'')"
proof -
  have r: "RenderOutbound ex_forced \<lparr> la_v4 = Some (IPv4 0x01020304), la_v6 = None \<rparr>
     = Some (Blackhole ''flvxo-a'', ''flvxo-a: no local IPv6'')" by code_simp
  have "''flvxo-a: no local IPv6'' \<noteq> ([] :: string)"
    using forced_outbound [OF _ _ r] by (simp add: ex_forced_def ex_outbound_def)
  then show ?thesis using r by simp
qed

end
