(* ===== verification/Guard.thy ===== *)
theory Guard
  imports Egress_Render
begin

text \<open>
  \<open>internal/flvx/guard.go\<close>: the loopback guard in front of a Reality
  destination. A guard is a group of nodes with one pinned destination and one
  list of server names; the theory has its inbound, outbound and routing rules,
  the inbound of a node pointed at its guard, and \<open>GuardPortOf\<close>, which reads
  the guard port back from the text of an applied configuration.
\<close>

section \<open>Groups\<close>

definition GuardTagPrefix :: string where "GuardTagPrefix = ''flvxg-''"
definition guardDeferAccept :: string where "guardDeferAccept = ''5''"
definition GuardOutboundTag :: string where "GuardOutboundTag = GuardTagPrefix @ ''direct''"
definition guardUserLevel :: int where "guardUserLevel = 1"

definition RealityGuardStatus_Valid :: "RealityGuardStatus option \<Rightarrow> bool" where
  "RealityGuardStatus_Valid os =
     (case os of None \<Rightarrow> True
      | Some s \<Rightarrow> if rg_state s \<notin> set [''on'', ''restart_required'', ''error''] then False
                 else rg_nodes s \<ge> 0 \<and> rg_nodes s \<le> MaxNodes \<and> rune_count (rg_error s) \<le> 200)"

definition GuardOn :: "Desired \<Rightarrow> bool" where
  "GuardOn d \<longleftrightarrow> ds_reality_guard d = Some True"

record Guard =
  gd_dest :: string
  gd_names :: "string list"

definition GuardTag :: "int \<Rightarrow> string" where
  "GuardTag port = GuardTagPrefix @ go_itoa port"

definition GuardNames :: "string list \<Rightarrow> string list" where
  "GuardNames names = sorted_unique (filter (\<lambda>n. n \<noteq> []) (map (\<lambda>n. go_to_lower (trim_space n)) names))"

definition Guard_Key :: "Guard \<Rightarrow> string" where
  "Guard_Key g = gd_dest g @ ''|'' @ go_join '','' (gd_names g)"

definition Guard_Inbound :: "Guard \<Rightarrow> int \<Rightarrow> json" where
  "Guard_Inbound g port =
     (let (host, destPort) = (case split_host_port (gd_dest g) of None \<Rightarrow> ([], []) | Some hp \<Rightarrow> hp)
      in JObj [(''tag'', JStr (GuardTag port)), (''listen'', JStr ''127.0.0.1''), (''port'', JNum port),
           (''protocol'', JStr ''dokodemo-door''),
           (''settings'', JObj [(''address'', JStr host), (''port'', JNum (go_atoi_value destPort)), (''network'', JStr ''tcp'')]),
           (''sniffing'', JObj [(''enabled'', JBool True), (''destOverride'', jstrs [''tls'']), (''routeOnly'', JBool True)])])"

definition GuardOutbound :: json where
  "GuardOutbound =
     JObj [(''tag'', JStr GuardOutboundTag), (''protocol'', JStr ''freedom''),
       (''settings'', JObj [(''domainStrategy'', JStr ''UseIP''), (''userLevel'', JNum guardUserLevel)])]"

definition Guard_Rules :: "Guard \<Rightarrow> int \<Rightarrow> json list" where
  "Guard_Rules g port =
     (let tag = GuardTag port in
      [JObj [(''type'', JStr ''field''), (''ruleTag'', JStr (tag @ ''-allow'')), (''inboundTag'', jstrs [tag]),
         (''protocol'', jstrs [''tls'']), (''domain'', jstrs (map (\<lambda>n. ''full:'' @ n) (gd_names g))),
         (''outboundTag'', JStr GuardOutboundTag)],
       JObj [(''type'', JStr ''field''), (''ruleTag'', JStr (tag @ ''-block'')), (''inboundTag'', jstrs [tag]),
         (''outboundTag'', JStr ''block'')]])"

text \<open>A Go map from ports to guards is an association list.\<close>

definition GuardRules :: "(int \<times> Guard) list \<Rightarrow> json list" where
  "GuardRules guards =
     concat (map (\<lambda>p. Guard_Rules (the (map_of guards p)) p) (sorted_unique (map fst guards)))"

section \<open>Pointing a node at its guard\<close>

definition guard_sockopt :: json where
  "guard_sockopt =
     JObj [(''customSockopt'', JArr [JObj [(''system'', JStr ''linux''), (''network'', JStr ''tcp''), (''level'', JStr ''6''),
        (''opt'', JStr ''9''), (''value'', JStr guardDeferAccept), (''type'', JStr ''int'')]])]"

definition jobj :: "json option \<Rightarrow> json option" where
  "jobj oj = (case oj of Some (JObj kvs) \<Rightarrow> Some (JObj kvs) | _ \<Rightarrow> None)"

definition WithGuardDest :: "json \<Rightarrow> int \<Rightarrow> json" where
  "WithGuardDest cfg port =
     (let stream = jobj (jget ''streamSettings'' cfg);
          reality = jobj (Option.bind stream (jget ''realitySettings''))
      in case (stream, reality) of
           (Some st, Some re) \<Rightarrow>
             jput ''streamSettings''
               (jput ''sockopt'' guard_sockopt
                 (jput ''realitySettings'' (jput ''dest'' (JStr (join_host_port ''127.0.0.1'' (go_itoa port))) re) st))
               cfg
         | _ \<Rightarrow> cfg)"

definition guard_marker :: string where
  "guard_marker = CHR 0x22 # ''dest'' @ CHR 0x22 # '':'' @ CHR 0x22 # ''127.0.0.1:''"

definition GuardPortOf :: "string \<Rightarrow> int" where
  "GuardPortOf config =
     (case str_index config guard_marker of
        None \<Rightarrow> 0
      | Some i \<Rightarrow>
          let rest = drop (i + length guard_marker) config in
          if CHR 0x22 \<notin> set rest then 0
          else (case go_atoi (takeWhile (\<lambda>c. c \<noteq> CHR 0x22) rest) of
                  None \<Rightarrow> 0
                | Some port \<Rightarrow> if port < 1 \<or> port > 65535 then 0 else port))"

end
