(* ===== verification/Share_Store.thy ===== *)
theory Share_Store
  imports Reality_Pick Desired_State Scan_Guard Egress_Plan Counters User_Limits Helper_Batch Guard
begin

text \<open>
  A share of a server with FLVX as the controller keeps it: \<open>flvx_store.go\<close> (the stored
  share, the ledger of each node, the merge of a Helper's report, the online addresses kept in
  memory), \<open>flvx_helper.go\<close> with \<open>flvx_node_total.go\<close> and part of
  \<open>flvx_user_limits.go\<close> (the signed payload and what is withheld from an older Helper), and
  the operations of \<open>flvx_api.go\<close> on a share. A transaction holds an advisory lock, so it is
  one step; its failing reads and writes are arguments, and a failed one leaves the rows as they
  were. JSON is transparent. Messages are keys.
\<close>

section \<open>State\<close>

record flvxPinnedCore =
  pc_version :: string
  pc_artifacts :: "(string \<times> releaseArtifact) list"

record flvxShare =
  fs_config :: Config
  fs_state :: string
  fs_version :: int
  fs_desired :: Desired
  fs_status :: Status
  fs_period :: string
  fs_generation :: string
  fs_sequence :: int
  fs_retired :: "string list"
  fs_egress_denied :: bool
  fs_core :: "flvxPinnedCore option"

record flvxLedger =
  fl_counter :: Counter
  fl_status :: NodeStatus

text \<open>The rows of a share: the share and the counters of its nodes by their ids.\<close>

type_synonym ledgers = "(string \<times> flvxLedger) list"

definition counter0 :: Counter where
  "counter0 = \<lparr>ctr_epoch = [], ctr_raw_up = 0, ctr_raw_down = 0, ctr_up = 0, ctr_down = 0\<rparr>"

definition ledger_counter :: "ledgers \<Rightarrow> string \<Rightarrow> Counter" where
  "ledger_counter ls i = (case map_of ls i of None \<Rightarrow> counter0 | Some l \<Rightarrow> fl_counter l)"

datatype share_error =
    NoRow | StorageError | NativeLanding | HostResolution | PortsUnknown | ShareInactive | ShareCancelled | RevisionConflict
  | InvalidStatus | InvalidConfig string | OldHelper | ReleaseUnknown | InvalidReport | DesiredProblems "ValidationError list"

section \<open>What the share may carry\<close>

definition flvxShareProtocols :: "bool \<Rightarrow> flvxShare \<Rightarrow> (string \<rightharpoonup> ProtocolCap) option" where
  "flvxShareProtocols renders s =
     (if \<not> renders then None
      else SanitizeProtocols (case st_protocols (fs_status s) of None \<Rightarrow> Map.empty | Some m \<Rightarrow> m))"

definition flvxOwnPorts :: "flvxShare \<Rightarrow> int set" where
  "flvxOwnPorts s = set (map nd_port (ds_node_list (fs_desired s)))"

definition flvxBusyListening :: "flvxShare \<Rightarrow> ListeningPorts option" where
  "flvxBusyListening s =
     map_option (\<lambda>l. \<lparr>lp_tcp = BusyPorts 1 65535 (flvxOwnPorts s) [lp_tcp l], lp_udp = BusyPorts 1 65535 (flvxOwnPorts s) [lp_udp l]\<rparr>)
       (st_listening (fs_status s))"

text \<open>The official ports are \<open>None\<close> when they are not known.\<close>

definition flvxBusyPorts :: "flvxShare \<Rightarrow> int list option \<Rightarrow> int list option" where
  "flvxBusyPorts s official =
     (let lists = (case official of None \<Rightarrow> [] | Some ps \<Rightarrow> [ps])
                  @ (case st_listening (fs_status s) of None \<Rightarrow> [] | Some l \<Rightarrow> [lp_tcp l, lp_udp l])
      in if lists = [] then None
         else Some (BusyPorts (cf_port_min (fs_config s)) (cf_port_max (fs_config s)) (flvxOwnPorts s) lists))"

definition flvxReset :: "time \<Rightarrow> flvxShare \<Rightarrow> flvxShare" where
  "flvxReset now s =
     (let period = Period now (cf_reset_day (fs_config s))
      in if fs_period s \<noteq> period then s\<lparr>fs_period := period, fs_status := (fs_status s)\<lparr>st_traffic_used_bytes := 0\<rparr>\<rparr> else s)"

section \<open>A Helper's report\<close>

definition flvxSanitizeCoreError :: "string \<Rightarrow> string" where
  "flvxSanitizeCoreError text =
     (let mapped = concat (map (\<lambda>(r, b). case r of None \<Rightarrow> b | Some x \<Rightarrow> if is_control x then '' '' else b)
                            (runes_of (to_valid_utf8 text)));
          t = trim_space mapped
      in if 300 < rune_count t then take_runes 300 t else t)"

definition sanitize_report :: "Report \<Rightarrow> Report" where
  "sanitize_report r =
     r\<lparr>st_scan_guard := SanitizeScanGuardStatus (st_scan_guard r),
       st_protocols := SanitizeProtocols (case st_protocols r of None \<Rightarrow> Map.empty | Some m \<Rightarrow> m),
       st_reality_pins := SanitizeRealityPins (st_reality_pins r),
       st_core := (st_core r)\<lparr>co_error := flvxSanitizeCoreError (co_error (st_core r))\<rparr>,
       st_reality_guard := map_option (\<lambda>g. g\<lparr>rg_error := flvxSanitizeCoreError (rg_error g)\<rparr>) (st_reality_guard r)\<rparr>"

definition flvx_report_ok :: "flvxShare \<Rightarrow> Report \<Rightarrow> bool" where
  "flvx_report_ok s r \<longleftrightarrow>
     rep_generation r \<noteq> [] \<and> length (rep_generation r) \<le> 64 \<and> 1 \<le> rep_sequence r
     \<and> st_applied_revision r \<le> ds_revision (fs_desired s)
     \<and> EgressStatus_Valid (st_egress r)
     \<and> (case st_egress r of None \<Rightarrow> True | Some e \<Rightarrow> es_applied_revision e \<le> ds_revision (fs_desired s))
     \<and> ListeningPorts_Valid (st_listening r) \<and> RealityGuardStatus_Valid (st_reality_guard r)"

definition report_known :: "flvxShare \<Rightarrow> Report \<Rightarrow> bool" where
  "report_known s r \<longleftrightarrow>
     rep_generation r = fs_generation s \<and> rep_sequence r \<le> fs_sequence s \<or> rep_generation r \<in> set (fs_retired s)"

definition retire_generation :: "Report \<Rightarrow> flvxShare \<Rightarrow> flvxShare" where
  "retire_generation r s =
     s\<lparr>fs_retired := keep_last 32 (if rep_generation r \<noteq> fs_generation s \<and> fs_generation s \<noteq> []
                                   then fs_retired s @ [fs_generation s] else fs_retired s)\<rparr>"

definition node_report_ok :: "string list \<Rightarrow> NodeStatus \<Rightarrow> bool" where
  "node_report_ok seen n \<longleftrightarrow>
     ValidText (ns_id n) 64 \<and> ns_id n \<notin> set seen \<and> 0 \<le> ns_up_bytes n \<and> 0 \<le> ns_down_bytes n \<and> 0 \<le> ns_connections n
     \<and> ns_state n \<in> {''active'', ''error'', ''removed''}"

definition kept_status :: "Counter \<Rightarrow> NodeStatus \<Rightarrow> NodeStatus" where
  "kept_status c n =
     n\<lparr>ns_up_bytes := ctr_up c, ns_down_bytes := ctr_down c, ns_online_ip_count := None, ns_online_ips := None,
       ns_inbound_connections := (case ns_inbound_connections n of None \<Rightarrow> None | Some v \<Rightarrow> if v < 0 then None else Some v),
       ns_tcp := (if ns_tcp n \<noteq> None \<and> \<not> NodeTCP_ValidFor (ns_tcp n) (ns_connections n) then None else ns_tcp n)\<rparr>"

text \<open>One node of the report after the other: the ids seen, the bytes used and the ledgers.\<close>

fun merge_nodes :: "Report \<Rightarrow> string \<Rightarrow> NodeStatus list \<Rightarrow> string list \<Rightarrow> int \<Rightarrow> ledgers \<Rightarrow> (string list \<times> int \<times> ledgers) option" where
  "merge_nodes r period [] seen used ls = Some (seen, used, ls)"
| "merge_nodes r period (n # ns) seen used ls =
     (if \<not> node_report_ok seen n then None
      else (let (c, delta) = Counter_Merge (ledger_counter ls (ns_id n)) (rep_generation r) (ns_up_bytes n) (ns_down_bytes n)
            in merge_nodes r period ns (ns_id n # seen) (if rep_period r = period then AddBytes used delta else used)
                 (AList.update (ns_id n) \<lparr>fl_counter = c, fl_status = kept_status c n\<rparr> ls)))"

definition listed_status :: "string list \<Rightarrow> flvxLedger \<Rightarrow> NodeStatus" where
  "listed_status seen l =
     (let n = fl_status l
      in if ns_id n \<in> set seen then n
         else n\<lparr>ns_state := ''removed'', ns_connections := 0, ns_inbound_connections := map_option (\<lambda>_. 0) (ns_inbound_connections n),
                ns_tcp := None\<rparr>)"

text \<open>\<open>by_id\<close> is the order of the database, \<open>db_ok\<close> whether its reads and writes succeed.\<close>

definition mergeFLVXReport ::
  "(ledgers \<Rightarrow> ledgers) \<Rightarrow> bool \<Rightarrow> time \<Rightarrow> Report \<Rightarrow> flvxShare \<times> ledgers \<Rightarrow> (share_error + flvxShare \<times> ledgers)" where
  "mergeFLVXReport by_id db_ok now r0 row =
     (let (s0, ls0) = row
      in if \<not> flvx_report_ok s0 r0 then Inl InvalidReport
         else (let r = sanitize_report r0
               in if report_known s0 r then Inr row
                  else (let s = flvxReset now (retire_generation r s0)
                        in case merge_nodes r (fs_period s) (st_nodes r) [] (st_traffic_used_bytes (fs_status s)) ls0 of
                             None \<Rightarrow> Inl InvalidReport
                           | Some (seen, counted, ls) \<Rightarrow>
                               if \<not> db_ok then Inl StorageError
                               else (let used = (if rep_period r = fs_period s \<and> counted < st_traffic_used_bytes r
                                                 then st_traffic_used_bytes r else counted);
                                         nodes = map (\<lambda>(_, l). listed_status seen l) (by_id ls)
                                     in Inr (s\<lparr>fs_status := (Status.truncate r)\<lparr>st_traffic_used_bytes := used, st_nodes := nodes\<rparr>,
                                               fs_generation := rep_generation r, fs_sequence := rep_sequence r\<rparr>, ls)))))"

section \<open>What is withheld from an older Helper\<close>

definition covered_disabled :: "string set \<Rightarrow> Desired \<Rightarrow> Desired" where
  "covered_disabled covered d =
     d\<lparr>ds_nodes := (if ds_node_list d = [] then None
                    else Some (map (\<lambda>n. if Node_Tag n \<in> covered then n\<lparr>nd_enabled := Some False\<rparr> else n) (ds_node_list d)))\<rparr>"

definition flvxHelperEgress :: "flvxShare \<Rightarrow> bool \<Rightarrow> Desired" where
  "flvxHelperEgress s supported =
     (let d = fs_desired s
      in if ds_egress d = None \<or> supported \<and> \<not> fs_egress_denied s then d
         else (let covered = CoveredTags (ds_egress d); d' = d\<lparr>ds_egress := None\<rparr>
               in if fs_egress_denied s \<or> covered = {} then d' else covered_disabled covered d'))"

definition flvxHelperProtocols :: "Desired \<Rightarrow> bool \<Rightarrow> Desired" where
  "flvxHelperProtocols d supported =
     (let nodes = filter (\<lambda>n. \<not> IsExtraProtocol (nd_protocol n) \<and> nd_anytls n = None \<and> nd_snell n = None \<and> nd_mieru n = None) (ds_node_list d)
      in if supported \<or> length nodes = length (ds_node_list d) then d else d\<lparr>ds_nodes := Some nodes\<rparr>)"

definition flvxHelperGuard :: "Desired \<Rightarrow> bool \<Rightarrow> Desired" where
  "flvxHelperGuard d supported = (if supported then d else d\<lparr>ds_reality_guard := None\<rparr>)"

definition flvxHelperConnMode :: "Desired \<Rightarrow> bool \<Rightarrow> Desired" where
  "flvxHelperConnMode d supported =
     (if supported \<or> list_all (\<lambda>n. nd_conn_mode n = []) (ds_node_list d) then d
      else d\<lparr>ds_nodes := Some (map (\<lambda>n. n\<lparr>nd_conn_mode := []\<rparr>) (ds_node_list d))\<rparr>)"

definition old_total :: "Node \<Rightarrow> Node" where
  "old_total n0 =
     (let total = nd_max_total_connections n0; n = n0\<lparr>nd_max_total_connections := 0\<rparr>
      in if total = 0 then n0
         else if \<not> InboundLimit n then
           (if nd_max_connections n \<le> 0 \<or> total < nd_max_connections n then n\<lparr>nd_max_connections := total\<rparr> else n)
         else if nd_max_connections n \<le> 0 then n\<lparr>nd_max_connections := total, nd_conn_mode := []\<rparr>
         else n)"

definition flvxHelperNodeTotal :: "Desired \<Rightarrow> bool \<Rightarrow> Desired" where
  "flvxHelperNodeTotal d supported =
     (if supported \<or> list_all (\<lambda>n. nd_max_total_connections n = 0) (ds_node_list d) then d
      else d\<lparr>ds_nodes := Some (map old_total (ds_node_list d))\<rparr>)"

definition flvxHelperScanGuard :: "Desired \<Rightarrow> bool \<Rightarrow> Desired" where
  "flvxHelperScanGuard d supported =
     (case ds_scan_guard d of
        None \<Rightarrow> d
      | Some g \<Rightarrow>
          if \<not> supported then d\<lparr>ds_scan_guard := None\<rparr>
          else d\<lparr>ds_scan_guard := Some (g\<lparr>sg_identities := filter (\<lambda>i. i \<in> Node_Tag ` set (ds_node_list d)) (sg_identities g)\<rparr>)\<rparr>)"

definition flvxHelperPinMargin :: "Desired \<Rightarrow> bool \<Rightarrow> Desired" where
  "flvxHelperPinMargin d supported = (if supported then d else d\<lparr>ds_reality_pin_margin_ms := None\<rparr>)"

record helper_caps =
  hc_egress :: bool
  hc_protocols :: bool
  hc_guard :: bool
  hc_limits :: bool
  hc_scan :: bool
  hc_node_total :: bool
  hc_core_unlimited :: bool
  hc_pin_margin :: bool

definition gated_desired :: "helper_caps \<Rightarrow> flvxShare \<Rightarrow> Desired" where
  "gated_desired caps s =
     flvxHelperPinMargin
       (flvxHelperScanGuard
         (flvxHelperNodeTotal
           (flvxHelperConnMode
             (flvxHelperGuard (flvxHelperProtocols (flvxHelperEgress s (hc_egress caps)) (hc_protocols caps)) (hc_guard caps))
             (hc_limits caps))
           (hc_node_total caps))
         (hc_scan caps))
       (hc_pin_margin caps)"

section \<open>The payload for the Helper\<close>

definition core_artifact :: "flvxPinnedCore option \<Rightarrow> string \<Rightarrow> string \<Rightarrow> Artifact" where
  "core_artifact core arch accelerator =
     (case core of
        None \<Rightarrow> \<lparr>ar_url = [], ar_sha256 = [], ar_version = [], ar_github_accelerator = accelerator\<rparr>
      | Some c \<Rightarrow>
          (case map_of (pc_artifacts c) arch of
             None \<Rightarrow> \<lparr>ar_url = [], ar_sha256 = [], ar_version = pc_version c, ar_github_accelerator = accelerator\<rparr>
           | Some a \<Rightarrow> \<lparr>ar_url = ra_url a, ar_sha256 = ra_sha256 a, ar_version = pc_version c, ar_github_accelerator = accelerator\<rparr>))"

definition helper_payload ::
  "helper_caps \<Rightarrow> string \<Rightarrow> string \<Rightarrow> string \<Rightarrow> int list option \<Rightarrow> flvxShare \<Rightarrow> Payload" where
  "helper_payload caps serverID arch accelerator official s =
     \<lparr>pl_server_id = serverID, pl_version = fs_version s,
      pl_status = (if official = None \<and> fs_state s = ''active'' then ''paused'' else fs_state s),
      pl_config = (if hc_core_unlimited caps then fs_config s else LegacyCoreLimits (fs_config s)),
      pl_desired = gated_desired caps s,
      pl_official_ports = (case official of None \<Rightarrow> [] | Some ps \<Rightarrow> ps),
      pl_artifact = core_artifact (fs_core s) arch accelerator,
      pl_period = fs_period s, pl_traffic_used_bytes = st_traffic_used_bytes (fs_status s),
      pl_ack_generation = fs_generation s, pl_ack_sequence = fs_sequence s\<rparr>"

text \<open>
  \<open>release\<close> is the Core of the newest release, \<open>server\<close> the official ports (\<open>Some None\<close>: not
  known; \<open>None\<close>: the read failed), \<open>rows\<close> the rows of the share, \<open>commit\<close> whether the
  transaction commits. The result: an error, or the envelope and whether the report is the one the
  share now has.
\<close>

definition flvxHelperDesired ::
  "Payload mac \<Rightarrow> (ledgers \<Rightarrow> ledgers) \<Rightarrow> bool \<Rightarrow> bool \<Rightarrow> helper_caps \<Rightarrow> string \<Rightarrow> string \<Rightarrow> string \<Rightarrow> string
   \<Rightarrow> flvxPinnedCore option \<Rightarrow> int list option option \<Rightarrow> Report option \<Rightarrow> time \<Rightarrow> (flvxShare \<times> ledgers) option
   \<Rightarrow> (share_error + (Envelope \<times> bool) option) \<times> (flvxShare \<times> ledgers) option" where
  "flvxHelperDesired mac by_id db_ok commit caps serverID token arch accelerator release server report now rows =
     (case rows of
        None \<Rightarrow> (Inr None, None)
      | Some row0 \<Rightarrow>
          (case (case report of None \<Rightarrow> Inr row0 | Some r \<Rightarrow> mergeFLVXReport by_id db_ok now r row0) of
             Inl e \<Rightarrow> (Inl e, rows)
           | Inr (s0, ls) \<Rightarrow>
               (let accepted = (case report of None \<Rightarrow> False
                                | Some r \<Rightarrow> rep_generation r = fs_generation s0 \<and> rep_sequence r = fs_sequence s0
                                            \<and> st_collected_at r = st_collected_at (fs_status s0));
                    s1 = flvxReset now s0;
                    s = (if fs_core s1 = None then s1\<lparr>fs_core := release\<rparr> else s1)
                in case server of
                     None \<Rightarrow> (Inl StorageError, rows)
                   | Some official \<Rightarrow>
                       if \<not> db_ok \<or> \<not> commit then (Inl StorageError, rows)
                       else (let payload = helper_payload caps serverID arch accelerator official s;
                                 expires = unix_milli (now + 10 * minute)
                             in (Inr (Some (\<lparr>en_payload = payload, en_expires_at = expires, en_signature = mac token payload expires\<rparr>, accepted)),
                                 Some (s, ls))))))"

section \<open>The operations of FLVX and of the administrator\<close>

text \<open>\<open>hosts\<close> with the addresses they resolve to; \<open>None\<close> when one is not valid or not resolved.\<close>

definition flvxHostSet :: "(string \<Rightarrow> string list option) \<Rightarrow> string list \<Rightarrow> string set option" where
  "flvxHostSet lookup hosts =
     (let parts = map (\<lambda>raw.
            let h = go_to_lower (trim_suffix (trim_space raw) ''.'')
            in if \<not> ValidHost h then None
               else case net_parse_ip h of
                      Some a \<Rightarrow> Some [addr_string (addr_unmap a)]
                    | None \<Rightarrow>
                        (case lookup h of
                           None \<Rightarrow> None
                         | Some ips \<Rightarrow>
                             if ips = [] then None
                             else Some (h # map (\<lambda>a. addr_string (addr_unmap a)) (List.map_filter net_parse_ip ips)))) hosts
      in if None \<in> set parts then None else Some (set (concat (map the parts))))"

record landing =
  la_native :: bool
  la_dual :: bool
  la_error :: bool

definition detectFLVXDual :: "(string \<Rightarrow> string list option) \<Rightarrow> string list \<Rightarrow> LandingHosts \<Rightarrow> landing" where
  "detectFLVXDual lookup addresses h =
     (case (flvxHostSet lookup addresses, flvxHostSet lookup (lh_native h), flvxHostSet lookup (lh_nodes h)) of
        (Some own, Some native, Some nodes) \<Rightarrow>
          \<lparr>la_native = (own \<inter> native \<noteq> {}), la_dual = (own \<inter> nodes \<noteq> {}), la_error = False\<rparr>
      | _ \<Rightarrow> \<lparr>la_native = False, la_dual = False, la_error = True\<rparr>)"

text \<open>A server row: its addresses and its official ports; \<open>None\<close> when there is none.\<close>

definition flvxCheckServer ::
  "(string \<Rightarrow> string list option) \<Rightarrow> LandingHosts \<Rightarrow> (string list \<times> int list option) option \<Rightarrow> share_error + int list" where
  "flvxCheckServer lookup h server =
     (case server of
        None \<Rightarrow> Inl NoRow
      | Some (addresses, official) \<Rightarrow>
          (let l = detectFLVXDual lookup addresses h
           in if la_native l then Inl NativeLanding
              else if la_error l then Inl HostResolution
              else case official of None \<Rightarrow> Inl PortsUnknown | Some ps \<Rightarrow> Inr ps))"

definition flvxEgressProblems ::
  "geo_table \<times> geo_table \<Rightarrow> (string \<Rightarrow> bool) \<Rightarrow> flvxShare \<Rightarrow> Desired \<Rightarrow> ValidationError list" where
  "flvxEgressProblems tabs rx s d =
     (if ds_egress d = None then []
      else if fs_egress_denied s then [plan_error ''egress'' ''not allowed'']
      else case st_egress (fs_status s) of
             None \<Rightarrow> [plan_error ''egress'' ''not supported'']
           | Some e \<Rightarrow>
               if \<not> EgressStatus_Supports (Some e) EgressVersion then [plan_error ''egress'' ''not supported'']
               else ValidateEgress tabs rx (ds_egress d) (Node_Tag ` set (ds_node_list d)) (es_geoip e) (es_geosite e))"

record share_lib =
  sl_cert :: cert_lib
  sl_tabs :: "geo_table \<times> geo_table"
  sl_rx :: "string \<Rightarrow> bool"

definition desired_problems :: "share_lib \<Rightarrow> bool \<Rightarrow> int list \<Rightarrow> time \<Rightarrow> flvxShare \<Rightarrow> Desired \<Rightarrow> ValidationError list" where
  "desired_problems lib renders official now s d =
     ValidateDesiredWith (sl_cert lib) d (fs_config s) official
       \<lparr>do_protocols = (case flvxShareProtocols renders s of None \<Rightarrow> Map.empty | Some m \<Rightarrow> m), do_busy = flvxBusyListening s, do_now = now\<rparr>
     @ flvxEgressProblems (sl_tabs lib) (sl_rx lib) s d @ ValidateScanGuard d"

text \<open>\<open>deep\<close> is \<open>reflect.DeepEqual\<close>, which also tells an absent list from an empty one.\<close>

definition putFLVXDesired ::
  "share_lib \<Rightarrow> (Desired \<Rightarrow> Desired \<Rightarrow> bool) \<Rightarrow> bool \<Rightarrow> share_error + int list \<Rightarrow> bool \<Rightarrow> time \<Rightarrow> Desired \<Rightarrow> flvxShare option
   \<Rightarrow> share_error option \<times> flvxShare option" where
  "putFLVXDesired lib deep renders check commit now d row =
     (case row of
        None \<Rightarrow> (Some NoRow, None)
      | Some s \<Rightarrow>
          if fs_state s \<noteq> ''active'' then (Some ShareInactive, row)
          else case check of
                 Inl e \<Rightarrow> (Some e, row)
               | Inr official \<Rightarrow>
                   (let problems = desired_problems lib renders official now s d; old = fs_desired s
                    in if problems \<noteq> [] then (Some (DesiredProblems problems), row)
                       else if ds_revision d < ds_revision old \<or> ds_revision d = ds_revision old \<and> \<not> deep d old then (Some RevisionConflict, row)
                       else if ds_revision d = ds_revision old then (None, row)
                       else if \<not> commit then (Some StorageError, row)
                       else (None, Some (s\<lparr>fs_desired := d, fs_version := i64 (fs_version s + 1)\<rparr>))))"

definition status0 :: Status where
  "status0 =
     \<lparr>st_applied_revision = 0, st_core = \<lparr>co_state = ''stopped'', co_version = [], co_epoch = [], co_error = []\<rparr>, st_nodes = [],
      st_traffic_used_bytes = 0, st_collected_at = 0, st_egress = None, st_protocols = None, st_listening = None,
      st_reality_guard = None, st_scan_guard = None, st_reality_pins = []\<rparr>"

definition config0 :: Config where
  "config0 =
     \<lparr>cf_port_min = 0, cf_port_max = 0, cf_traffic_limit_bytes = 0, cf_reset_day = 0, cf_max_connections = 0,
      cf_share_until = None, cf_memory_mb = 0, cf_cpu_percent = 0\<rparr>"

definition new_share :: flvxShare where
  "new_share =
     \<lparr>fs_config = config0, fs_state = [], fs_version = 0,
      fs_desired = \<lparr>ds_revision = 0, ds_nodes = Some [], ds_egress = None, ds_reality_guard = None, ds_scan_guard = None, ds_reality_pin_margin_ms = None\<rparr>,
      fs_status = status0, fs_period = [], fs_generation = [], fs_sequence = 0, fs_retired = [], fs_egress_denied = False, fs_core = None\<rparr>"

definition all_protocols_options :: DesiredOptions where
  "all_protocols_options = \<lparr>do_protocols = AllProtocols, do_busy = None, do_now = 0\<rparr>"

definition share_settings_problem :: "share_lib \<Rightarrow> share_error + int list \<Rightarrow> string \<Rightarrow> Config \<Rightarrow> flvxShare \<Rightarrow> share_error option" where
  "share_settings_problem lib check state c s =
     (let structure = (\<lambda>official. ValidateDesiredWith (sl_cert lib) (fs_desired s) c official all_protocols_options)
      in if state = ''paused'' \<and> 0 < ds_revision (fs_desired s)
            \<and> (cf_port_min c \<noteq> cf_port_min (fs_config s) \<or> cf_port_max c \<noteq> cf_port_max (fs_config s)) \<and> structure [] \<noteq> []
         then Some (DesiredProblems (structure []))
         else if state = ''active'' then
           (case check of
              Inl e \<Rightarrow> Some e
            | Inr official \<Rightarrow>
                if 0 < ds_revision (fs_desired s) \<and> structure official \<noteq> [] then Some (DesiredProblems (structure official)) else None)
         else None)"

definition saveFLVXShare ::
  "share_lib \<Rightarrow> bool \<Rightarrow> share_error + int list \<Rightarrow> bool \<Rightarrow> time \<Rightarrow> Config \<Rightarrow> string \<Rightarrow> bool option \<Rightarrow> flvxShare option
   \<Rightarrow> share_error option \<times> flvxShare option" where
  "saveFLVXShare lib ready check commit now c0 state allow row =
     (if state \<notin> {''active'', ''paused'', ''revoked''} then (Some InvalidStatus, row)
      else if row = None \<and> state \<noteq> ''active'' then (Some NoRow, row)
      else if row = None \<and> \<not> ready then (Some OldHelper, row)
      else (let s = (case row of None \<Rightarrow> new_share | Some s \<Rightarrow> s);
                c = (if cf_port_min c0 = 0 \<and> 0 < fs_version s then fs_config s else c0)
            in case ValidateConfig c of
                 Some e \<Rightarrow> (Some (InvalidConfig e), row)
               | None \<Rightarrow>
                   if fs_state s = ''revoked'' then (if state \<noteq> ''revoked'' then Some ShareCancelled else None, row)
                   else case share_settings_problem lib check state c s of
                          Some e \<Rightarrow> (Some e, row)
                        | None \<Rightarrow>
                            if \<not> commit then (Some StorageError, row)
                            else (None, Some (flvxReset now
                                   (s\<lparr>fs_config := c, fs_state := state,
                                      fs_egress_denied := (case allow of None \<Rightarrow> fs_egress_denied s | Some a \<Rightarrow> \<not> a),
                                      fs_version := i64 (fs_version s + 1)\<rparr>)))))"

definition same_core :: "flvxPinnedCore \<Rightarrow> flvxPinnedCore \<Rightarrow> bool" where
  "same_core a b \<longleftrightarrow>
     pc_version a = pc_version b
     \<and> list_all (\<lambda>k. map_of (pc_artifacts a) k = map_of (pc_artifacts b) k) (map fst (pc_artifacts a) @ map fst (pc_artifacts b))"

definition upgradeFLVXCore :: "flvxPinnedCore option \<Rightarrow> bool \<Rightarrow> flvxShare option \<Rightarrow> share_error option \<times> flvxShare option" where
  "upgradeFLVXCore latest commit row =
     (case latest of
        None \<Rightarrow> (Some ReleaseUnknown, row)
      | Some new \<Rightarrow>
          (case row of
             None \<Rightarrow> (Some NoRow, None)
           | Some s \<Rightarrow>
               if fs_state s = ''revoked'' then (Some ShareCancelled, row)
               else if (case fs_core s of None \<Rightarrow> False | Some c \<Rightarrow> same_core c new) then (None, row)
               else if \<not> commit then (Some StorageError, row)
               else (None, Some (s\<lparr>fs_core := latest, fs_version := i64 (fs_version s + 1)\<rparr>))))"

text \<open>The part of \<open>putFLVXHosts\<close> for one server.\<close>

definition pause_native :: "bool \<Rightarrow> flvxShare \<Rightarrow> flvxShare" where
  "pause_native native s =
     (if native \<and> fs_state s = ''active'' then s\<lparr>fs_state := ''paused'', fs_version := i64 (fs_version s + 1)\<rparr> else s)"

end
