(* ===== verification/Share_System.thy ===== *)
theory Share_System
  imports Share_Store
begin

text \<open>
  A share under all its operations, in any order: uploads of its Helper with reports that may be
  repeated, late or out of order, desired states of FLVX, settings of the administrator, Core
  upgrades and pauses for native landing. Shown: bytes are billed at most once, the version
  of a share with a pinned Core identifies the signed payload up to the bookkeeping of reports,
  a cancelled share stays as it is, and what is withheld from an older Helper neither uses a
  field it does not know nor loosens a limit, but for one documented case.
\<close>

section \<open>Events\<close>

datatype share_event =
    Upload helper_caps string string string string "flvxPinnedCore option" "int list option option" "Report option" bool bool time
  | PutDesired bool "share_error + int list" bool time Desired
  | SaveShare bool "share_error + int list" bool time Config string "bool option"
  | UpgradeCore "flvxPinnedCore option" bool
  | PauseNative bool

record share_env =
  sv_lib :: share_lib
  sv_deep :: "Desired \<Rightarrow> Desired \<Rightarrow> bool"
  sv_mac :: "Payload mac"
  sv_by_id :: "ledgers \<Rightarrow> ledgers"

definition with_share :: "(flvxShare \<times> ledgers) option \<Rightarrow> flvxShare option \<Rightarrow> (flvxShare \<times> ledgers) option" where
  "with_share rows s = map_option (\<lambda>t. (t, case rows of None \<Rightarrow> [] | Some (_, ls) \<Rightarrow> ls)) s"

fun share_apply :: "share_env \<Rightarrow> share_event \<Rightarrow> (flvxShare \<times> ledgers) option \<Rightarrow> (flvxShare \<times> ledgers) option" where
  "share_apply env (Upload caps serverID token arch accelerator release server report db_ok commit now) rows =
     snd (flvxHelperDesired (sv_mac env) (sv_by_id env) db_ok commit caps serverID token arch accelerator release server report now rows)"
| "share_apply env (PutDesired renders check commit now d) rows =
     with_share rows (snd (putFLVXDesired (sv_lib env) (sv_deep env) renders check commit now d (map_option fst rows)))"
| "share_apply env (SaveShare ready check commit now c state allow) rows =
     with_share rows (snd (saveFLVXShare (sv_lib env) ready check commit now c state allow (map_option fst rows)))"
| "share_apply env (UpgradeCore latest commit) rows = with_share rows (snd (upgradeFLVXCore latest commit (map_option fst rows)))"
| "share_apply env (PauseNative native) rows = map_option (\<lambda>(s, ls). (pause_native native s, ls)) rows"

fun event_report :: "share_event \<Rightarrow> Report option" where
  "event_report (Upload caps serverID token arch accelerator release server report db_ok commit now) = report"
| "event_report _ = None"

inductive share_reach :: "share_env \<Rightarrow> (Report \<Rightarrow> bool) \<Rightarrow> (flvxShare \<times> ledgers) option \<Rightarrow> bool"
  for env sent where
  share_init: "share_reach env sent None"
| share_step: "\<lbrakk>share_reach env sent rows; \<forall>r. event_report ev = Some r \<longrightarrow> sent r\<rbrakk>
    \<Longrightarrow> share_reach env sent (share_apply env ev rows)"

section \<open>The parts of a share that a step changes\<close>

definition same_reports :: "flvxShare \<Rightarrow> flvxShare \<Rightarrow> bool" where
  "same_reports s t \<longleftrightarrow> fs_generation s = fs_generation t \<and> fs_sequence s = fs_sequence t \<and> fs_retired s = fs_retired t"

lemma flvxReset_fields [simp]:
  "fs_generation (flvxReset now s) = fs_generation s" "fs_sequence (flvxReset now s) = fs_sequence s"
  "fs_retired (flvxReset now s) = fs_retired s" "fs_config (flvxReset now s) = fs_config s" "fs_state (flvxReset now s) = fs_state s"
  "fs_version (flvxReset now s) = fs_version s" "fs_desired (flvxReset now s) = fs_desired s"
  "fs_egress_denied (flvxReset now s) = fs_egress_denied s" "fs_core (flvxReset now s) = fs_core s"
  by (simp_all add: flvxReset_def Let_def)

text \<open>What the Helper is told, apart from the pinned Core.\<close>

definition told :: "flvxShare \<Rightarrow> Config \<times> string \<times> Desired \<times> bool" where
  "told s = (fs_config s, fs_state s, fs_desired s, fs_egress_denied s)"

lemma merge_told:
  assumes "mergeFLVXReport by_id db_ok now r (s, ls) = Inr (s', ls')"
  shows "told s' = told s" "fs_version s' = fs_version s" "fs_core s' = fs_core s" "fs_desired s' = fs_desired s"
  using assms by (auto simp: mergeFLVXReport_def Let_def told_def retire_generation_def split: if_splits option.splits prod.splits)

lemma upload_told:
  assumes "share_apply env (Upload caps serverID token arch accelerator release server report db_ok commit now) (Some (s, ls)) = Some (s', ls')"
  shows "told s' = told s" "fs_version s' = fs_version s" "fs_core s \<noteq> None \<Longrightarrow> fs_core s' = fs_core s"
proof -
  have "told s' = told s \<and> fs_version s' = fs_version s \<and> (fs_core s \<noteq> None \<longrightarrow> fs_core s' = fs_core s)"
  proof (cases "case report of None \<Rightarrow> Inr (s, ls) | Some r \<Rightarrow> mergeFLVXReport (sv_by_id env) db_ok now r (s, ls)")
    case (Inl e)
    then show ?thesis using assms by (simp add: flvxHelperDesired_def)
  next
    case (Inr row)
    obtain t ks where row: "row = (t, ks)" by (cases row)
    have "told t = told s \<and> fs_version t = fs_version s \<and> fs_core t = fs_core s"
      using Inr row merge_told [of "sv_by_id env" db_ok now _ s ls t ks] by (cases report) auto
    then show ?thesis
      using assms Inr row by (auto simp: flvxHelperDesired_def Let_def told_def split: if_splits option.splits)
  qed
  then show "told s' = told s" "fs_version s' = fs_version s" "fs_core s \<noteq> None \<Longrightarrow> fs_core s' = fs_core s" by auto
qed

text \<open>Every other operation leaves the share alone or takes the next version.\<close>

lemma other_told:
  assumes "share_apply env ev (Some (s, ls)) = Some (s', ls')" and "event_report ev = None" and "\<forall>a b c d e f g h i j k. ev \<noteq> Upload a b c d e f g h i j k"
  shows "s' = s \<or> fs_version s' = i64 (fs_version s + 1) \<and> same_reports s' s" and "ls' = ls"
  using assms
  by (cases ev; auto simp: with_share_def putFLVXDesired_def saveFLVXShare_def upgradeFLVXCore_def pause_native_def same_reports_def Let_def
        split: if_splits option.splits sum.splits)+


section \<open>Versions, revisions, cancelled shares\<close>

lemma share_kept: "\<exists>s' ls'. share_apply env ev (Some (s, ls)) = Some (s', ls')"
proof (cases ev)
  case (Upload caps serverID token arch accelerator release server report db_ok commit now)
  then show ?thesis
    by (auto simp: flvxHelperDesired_def Let_def split: sum.splits option.splits prod.splits)
qed (auto simp: with_share_def putFLVXDesired_def saveFLVXShare_def upgradeFLVXCore_def Let_def split: option.splits sum.splits prod.splits)

lemma told_simps: "told s = told t \<longleftrightarrow> fs_config s = fs_config t \<and> fs_state s = fs_state t \<and> fs_desired s = fs_desired t \<and> fs_egress_denied s = fs_egress_denied t"
  by (simp add: told_def)

lemma step_history:
  assumes "share_apply env ev (Some (s, ls)) = Some (s', ls')"
  shows "fs_version s' = fs_version s \<and> told s' = told s \<or> fs_version s' = i64 (fs_version s + 1)"
    and "fs_state s = ''revoked'' \<Longrightarrow> told s' = told s \<and> fs_version s' = fs_version s"
    and "ds_revision (fs_desired s) \<le> ds_revision (fs_desired s')"
proof -
  have "(fs_version s' = fs_version s \<and> told s' = told s \<or> fs_version s' = i64 (fs_version s + 1))
    \<and> (fs_state s = ''revoked'' \<longrightarrow> told s' = told s \<and> fs_version s' = fs_version s)
    \<and> ds_revision (fs_desired s) \<le> ds_revision (fs_desired s')"
  proof (cases ev)
    case (Upload caps serverID token arch accelerator release server report db_ok commit now)
    then show ?thesis using upload_told(1,2) assms by (auto simp: told_simps)
  qed (use assms in \<open>auto simp: told_simps with_share_def putFLVXDesired_def saveFLVXShare_def upgradeFLVXCore_def pause_native_def Let_def
        split: if_splits option.splits sum.splits\<close>)
  then show "fs_version s' = fs_version s \<and> told s' = told s \<or> fs_version s' = i64 (fs_version s + 1)"
    and "fs_state s = ''revoked'' \<Longrightarrow> told s' = told s \<and> fs_version s' = fs_version s"
    and "ds_revision (fs_desired s) \<le> ds_revision (fs_desired s')" by auto
qed

lemma step_core:
  assumes "share_apply env ev (Some (s, ls)) = Some (s', ls')"
  shows "fs_version s' = fs_version s \<and> (fs_core s' = fs_core s \<or> fs_core s = None) \<or> fs_version s' = i64 (fs_version s + 1)"
    and "fs_state s = ''revoked'' \<Longrightarrow> fs_core s' = fs_core s \<or> fs_core s = None"
proof -
  have "(fs_version s' = fs_version s \<and> (fs_core s' = fs_core s \<or> fs_core s = None) \<or> fs_version s' = i64 (fs_version s + 1))
    \<and> (fs_state s = ''revoked'' \<longrightarrow> fs_core s' = fs_core s \<or> fs_core s = None)"
  proof (cases ev)
    case (Upload caps serverID token arch accelerator release server report db_ok commit now)
    show ?thesis using upload_told(2,3) [OF assms [unfolded Upload]] by blast
  qed (use assms in \<open>auto simp: with_share_def putFLVXDesired_def saveFLVXShare_def upgradeFLVXCore_def pause_native_def Let_def
        split: if_splits option.splits sum.splits\<close>)
  then show "fs_version s' = fs_version s \<and> (fs_core s' = fs_core s \<or> fs_core s = None) \<or> fs_version s' = i64 (fs_version s + 1)"
    and "fs_state s = ''revoked'' \<Longrightarrow> fs_core s' = fs_core s \<or> fs_core s = None" by auto
qed

text \<open>The payload without the bookkeeping of reports: the period, the used traffic and the acknowledgement.\<close>

definition orders :: "Payload \<Rightarrow> Payload" where
  "orders p = p\<lparr>pl_period := [], pl_traffic_used_bytes := 0, pl_ack_generation := [], pl_ack_sequence := 0\<rparr>"

lemma told_orders:
  assumes "told s' = told s" and "fs_core s' = fs_core s" and "fs_version s' = fs_version s"
  shows "orders (helper_payload caps serverID arch accelerator official s') = orders (helper_payload caps serverID arch accelerator official s)"
proof -
  have "gated_desired caps s' = gated_desired caps s"
    using assms(1) by (simp add: told_simps gated_desired_def flvxHelperEgress_def Let_def)
  then show ?thesis using assms by (simp add: told_simps orders_def helper_payload_def)
qed

definition share_run :: "share_env \<Rightarrow> share_event list \<Rightarrow> (flvxShare \<times> ledgers) option \<Rightarrow> (flvxShare \<times> ledgers) option" where
  "share_run env evs rows = foldl (\<lambda>rows ev. share_apply env ev rows) rows evs"

text \<open>
  C7: Through any operations on a share the version never goes back, and two moments with the
  same version sign the same payload for the same request (status, settings, desired state,
  official ports, Core), up to the bookkeeping of reports: once a Core is pinned, every change of
  what the Helper is told takes a new version. Only the first pin of a Core takes none. The
  revision of the desired state never decreases, and a cancelled share keeps all of this for ever.
\<close>

theorem share_history:
  assumes "share_run env evs (Some (s, ls)) = Some (s', ls')"
    and "0 \<le> fs_version s" and "fs_version s + int (length evs) \<le> max_int64"
  shows "fs_version s \<le> fs_version s'
    \<and> (fs_version s' = fs_version s \<longrightarrow> told s' = told s \<and> (fs_core s' = fs_core s \<or> fs_core s = None)
         \<and> (fs_core s \<noteq> None \<longrightarrow> (\<forall>caps serverID arch accelerator official.
              orders (helper_payload caps serverID arch accelerator official s') = orders (helper_payload caps serverID arch accelerator official s))))
    \<and> ds_revision (fs_desired s) \<le> ds_revision (fs_desired s')
    \<and> (fs_state s = ''revoked'' \<longrightarrow> told s' = told s \<and> fs_version s' = fs_version s \<and> (fs_core s' = fs_core s \<or> fs_core s = None))"
proof -
  have "fs_version s \<le> fs_version s'
    \<and> (fs_version s' = fs_version s \<longrightarrow> told s' = told s \<and> (fs_core s' = fs_core s \<or> fs_core s = None))
    \<and> ds_revision (fs_desired s) \<le> ds_revision (fs_desired s')
    \<and> (fs_state s = ''revoked'' \<longrightarrow> told s' = told s \<and> fs_version s' = fs_version s \<and> (fs_core s' = fs_core s \<or> fs_core s = None))"
    using assms
  proof (induction evs arbitrary: s ls)
    case Nil
    then show ?case by (simp add: share_run_def)
  next
    case (Cons ev evs)
    obtain t ks where t: "share_apply env ev (Some (s, ls)) = Some (t, ks)" using share_kept by blast
    note step = step_history [OF t] step_core [OF t]
    have up: "i64 (fs_version s + 1) = fs_version s + 1" using Cons.prems(2,3) by (simp add: i64_id is_int64_nonneg)
    have v: "fs_version t = fs_version s \<and> told t = told s \<and> (fs_core t = fs_core s \<or> fs_core s = None) \<or> fs_version t = fs_version s + 1"
      using step(1,4) unfolding up by auto
    have run: "share_run env evs (Some (t, ks)) = Some (s', ls')" using Cons.prems(1) t by (simp add: share_run_def)
    have "fs_version t \<le> fs_version s' \<and> (fs_version s' = fs_version t \<longrightarrow> told s' = told t \<and> (fs_core s' = fs_core t \<or> fs_core t = None))
      \<and> ds_revision (fs_desired t) \<le> ds_revision (fs_desired s')
      \<and> (fs_state t = ''revoked'' \<longrightarrow> told s' = told t \<and> fs_version s' = fs_version t \<and> (fs_core s' = fs_core t \<or> fs_core t = None))"
      by (rule Cons.IH [OF run]) (use v Cons.prems(2,3) in auto)
    moreover have "fs_state t = ''revoked''" if "fs_state s = ''revoked''" using step(2) [OF that] that by (auto simp: told_simps)
    ultimately show ?case using v step(2,3,5) by auto
  qed
  then show ?thesis using told_orders [of s' s] by auto
qed

section \<open>Billing\<close>

lemma ledger_update: "ledger_counter (AList.update i l ls) j = (if j = i then fl_counter l else ledger_counter ls j)"
  by (simp add: ledger_counter_def update_conv')

lemma merge_nodes_counters:
  assumes "merge_nodes r period ns seen used ls = Some (seen', used', ls')"
  shows "(i \<in> set seen \<longrightarrow> ledger_counter ls' i = ledger_counter ls i)
    \<and> (ledger_counter ls' i = ledger_counter ls i
     \<or> (\<exists>n \<in> set ns. ns_id n = i \<and> 0 \<le> ns_up_bytes n \<and> 0 \<le> ns_down_bytes n
          \<and> ledger_counter ls' i = fst (Counter_Merge (ledger_counter ls i) (rep_generation r) (ns_up_bytes n) (ns_down_bytes n))))"
  using assms
proof (induction ns arbitrary: seen used ls)
  case (Cons n ns)
  obtain c delta where cd: "Counter_Merge (ledger_counter ls (ns_id n)) (rep_generation r) (ns_up_bytes n) (ns_down_bytes n) = (c, delta)"
    by fastforce
  let ?ls = "AList.update (ns_id n) \<lparr>fl_counter = c, fl_status = kept_status c n\<rparr> ls"
  have ok: "node_report_ok seen n" using Cons.prems by (simp split: if_splits)
  then obtain u where rest: "merge_nodes r period ns (ns_id n # seen) u ?ls = Some (seen', used', ls')"
    using Cons.prems cd by (auto simp: Let_def)
  note IH = Cons.IH [OF rest]
  show ?case
  proof (cases "i = ns_id n")
    case True
    then have "ledger_counter ls' i = c" using IH by (simp add: ledger_update)
    then show ?thesis using ok cd True by (auto simp: node_report_ok_def)
  next
    case False
    then show ?thesis using IH by (auto simp: ledger_update)
  qed
qed simp

text \<open>
  One direction of the Helper's counters, \<open>val\<close>: cumulative within a generation, where node
  \<open>i\<close> reaches at most \<open>reached g i\<close>.
\<close>

definition cumulative :: "(Report \<Rightarrow> bool) \<Rightarrow> (NodeStatus \<Rightarrow> int) \<Rightarrow> (string \<Rightarrow> string \<Rightarrow> int) \<Rightarrow> bool" where
  "cumulative sent val reached \<longleftrightarrow>
     (\<forall>g i. 0 \<le> reached g i)
     \<and> (\<forall>r. sent r \<longrightarrow> (\<forall>n \<in> set (st_nodes r).
        val n \<le> reached (rep_generation r) (ns_id n) \<and> val n \<le> max_int64
        \<and> (\<forall>r'. sent r' \<and> rep_generation r' = rep_generation r \<and> rep_sequence r \<le> rep_sequence r' \<longrightarrow>
             (\<forall>n' \<in> set (st_nodes r'). ns_id n' = ns_id n \<longrightarrow> val n \<le> val n'))))"

definition generations :: "flvxShare \<Rightarrow> string list" where
  "generations s = fs_retired s @ (if fs_generation s = [] then [] else [fs_generation s])"

text \<open>The last accepted reading of a node: epoch \<open>e\<close>, raw value \<open>raw\<close>, billed total \<open>bytes\<close>.\<close>

definition billed_ok ::
  "(Report \<Rightarrow> bool) \<Rightarrow> (NodeStatus \<Rightarrow> int) \<Rightarrow> (string \<Rightarrow> string \<Rightarrow> int) \<Rightarrow> flvxShare \<Rightarrow> string \<Rightarrow> string \<Rightarrow> int \<Rightarrow> int \<Rightarrow> bool" where
  "billed_ok sent val reached s i e raw bytes \<longleftrightarrow>
     0 \<le> bytes \<and> bytes \<le> max_int64 \<and> 0 \<le> raw \<and> raw \<le> max_int64
     \<and> (e = [] \<and> bytes = 0
        \<or> (\<exists>pre post. generations s = pre @ e # post \<and> raw \<le> reached e i
             \<and> bytes - raw \<le> (\<Sum>g\<leftarrow>pre. reached g i)
             \<and> (e = fs_generation s \<longrightarrow>
                  (\<exists>r n. sent r \<and> rep_generation r = fs_generation s \<and> rep_sequence r \<le> fs_sequence s
                       \<and> n \<in> set (st_nodes r) \<and> ns_id n = i \<and> val n = raw))))"

lemma billed_bound:
  assumes "cumulative sent val reached" "billed_ok sent val reached s i e raw bytes"
  shows "bytes \<le> (\<Sum>g\<leftarrow>generations s. reached g i)"
proof -
  have pos: "0 \<le> (\<Sum>g\<leftarrow>gs. reached g i)" for gs
    using assms(1) by (intro sum_list_nonneg) (auto simp: cumulative_def)
  show ?thesis
  proof (cases "e = [] \<and> bytes = 0")
    case True
    then show ?thesis using pos by simp
  next
    case False
    then obtain pre post where p: "generations s = pre @ e # post" "raw \<le> reached e i" "bytes - raw \<le> (\<Sum>g\<leftarrow>pre. reached g i)"
      using assms(2) unfolding billed_ok_def by blast
    then show ?thesis using pos [of post] by simp
  qed
qed

text \<open>\<open>r\<close> is accepted: \<open>s'\<close> is the share afterwards, \<open>s\<close> before.\<close>

definition accepts :: "Report \<Rightarrow> flvxShare \<Rightarrow> flvxShare \<Rightarrow> bool" where
  "accepts r s s' \<longleftrightarrow>
     rep_generation r \<noteq> [] \<and> \<not> report_known s r \<and> fs_generation s' = rep_generation r \<and> fs_sequence s' = rep_sequence r
     \<and> generations s' = (if rep_generation r = fs_generation s then generations s else generations s @ [rep_generation r])"

lemma accepts_new:
  assumes "accepts r s s'" "rep_generation r \<noteq> fs_generation s"
  shows "rep_generation r \<notin> set (generations s)"
  using assms by (auto simp: accepts_def report_known_def generations_def)

lemma billed_absent:
  assumes "accepts r s s'" "billed_ok sent val reached s i e raw bytes"
  shows "billed_ok sent val reached s' i e raw bytes"
proof (cases "e = [] \<and> bytes = 0")
  case False
  then obtain pre post where p: "generations s = pre @ e # post" "raw \<le> reached e i" "bytes - raw \<le> (\<Sum>g\<leftarrow>pre. reached g i)"
    "e = fs_generation s \<longrightarrow> (\<exists>r n. sent r \<and> rep_generation r = fs_generation s \<and> rep_sequence r \<le> fs_sequence s
                       \<and> n \<in> set (st_nodes r) \<and> ns_id n = i \<and> val n = raw)"
    using assms(2) unfolding billed_ok_def by blast
  show ?thesis
  proof (cases "rep_generation r = fs_generation s")
    case True
    then have "fs_sequence s \<le> fs_sequence s'" using assms(1) by (auto simp: accepts_def report_known_def)
    then show ?thesis using p True assms unfolding billed_ok_def accepts_def by (metis order_trans)
  next
    case new: False
    have "e \<noteq> fs_generation s'" using accepts_new [OF assms(1) new] p(1) assms(1) by (auto simp: accepts_def)
    moreover have "generations s' = pre @ e # (post @ [rep_generation r])" using assms(1) new p(1) by (simp add: accepts_def)
    ultimately show ?thesis using p(2,3) assms(2) unfolding billed_ok_def by blast
  qed
qed (use assms(2) in \<open>simp add: billed_ok_def\<close>)

lemma billed_merged:
  assumes acc: "accepts r s s'" and ok: "billed_ok sent val reached s i e raw bytes"
    and cum: "cumulative sent val reached" and r: "sent r" "n \<in> set (st_nodes r)" "ns_id n = i" "0 \<le> val n"
  shows "billed_ok sent val reached s' i (rep_generation r) (val n) (AddBytes bytes (Delta raw (val n) (e \<noteq> rep_generation r)))"
proof -
  let ?g = "rep_generation r"
  have n: "val n \<le> reached ?g i" "val n \<le> max_int64" using cum r(1-3) by (auto simp: cumulative_def)
  have ranges: "0 \<le> bytes" "bytes \<le> max_int64" "0 \<le> raw" "raw \<le> max_int64" using ok by (auto simp: billed_ok_def)
  let ?d = "Delta raw (val n) (e \<noteq> ?g)"
  have d: "?d = (if e \<noteq> ?g \<or> val n < raw then val n else val n - raw)" "0 \<le> ?d" "?d \<le> max_int64"
    by (rule Delta_nonneg(1) [OF ranges(3,4) r(4) n(2)], rule Delta_nonneg(2) [OF ranges(3,4) r(4) n(2)], rule Delta_nonneg(3) [OF ranges(3,4) r(4) n(2)])
  have add: "AddBytes bytes ?d = min max_int64 (bytes + ?d)" by (rule AddBytes_saturates [OF ranges(1,2) d(2,3)])
  have pos: "0 \<le> (\<Sum>g\<leftarrow>gs. reached g i)" for gs
    using cum by (intro sum_list_nonneg) (auto simp: cumulative_def)
  have here: "fs_generation s' = ?g" "fs_sequence s' = rep_sequence r" "?g \<noteq> []" using acc by (auto simp: accepts_def)
  obtain pre' where gens': "generations s' = pre' @ [?g]" "?g \<noteq> fs_generation s \<Longrightarrow> pre' = generations s"
    using acc by (auto simp: accepts_def generations_def split: if_splits)
  have finish: "billed_ok sent val reached s' i ?g (val n) (AddBytes bytes ?d)"
    if "bytes + ?d - val n \<le> (\<Sum>g\<leftarrow>pre'. reached g i)"
  proof -
    have "AddBytes bytes ?d - val n \<le> (\<Sum>g\<leftarrow>pre'. reached g i)" using that add by simp
    moreover have "\<exists>r' n'. sent r' \<and> rep_generation r' = fs_generation s' \<and> rep_sequence r' \<le> fs_sequence s'
        \<and> n' \<in> set (st_nodes r') \<and> ns_id n' = i \<and> val n' = val n"
      using r here by auto
    moreover have "0 \<le> AddBytes bytes ?d" "AddBytes bytes ?d \<le> max_int64" using add ranges d by auto
    moreover have "generations s' = pre' @ ?g # []" using gens'(1) by simp
    ultimately show ?thesis using n r(4) here(1) unfolding billed_ok_def by blast
  qed
  show ?thesis
  proof (cases "e = [] \<and> bytes = 0")
    case True
    then have "?d = val n" using here(3) d(1) by simp
    then show ?thesis using True pos by (intro finish) simp
  next
    case False
    then obtain pre post where p: "generations s = pre @ e # post" "raw \<le> reached e i" "bytes - raw \<le> (\<Sum>g\<leftarrow>pre. reached g i)"
      "e = fs_generation s \<Longrightarrow> \<exists>r n. sent r \<and> rep_generation r = fs_generation s \<and> rep_sequence r \<le> fs_sequence s
                       \<and> n \<in> set (st_nodes r) \<and> ns_id n = i \<and> val n = raw"
      using ok unfolding billed_ok_def by blast
    show ?thesis
    proof (cases "e = ?g")
      case True
      then have cur: "?g = fs_generation s" using accepts_new [OF acc] p(1) by auto
      then obtain r0 n0 where r0: "sent r0" "rep_generation r0 = ?g" "rep_sequence r0 \<le> fs_sequence s"
          "n0 \<in> set (st_nodes r0)" "ns_id n0 = i" "val n0 = raw"
        using p(4) True by auto
      have "rep_sequence r0 \<le> rep_sequence r" using acc r0(3) cur by (auto simp: accepts_def report_known_def)
      then have "raw \<le> val n" using cum r r0 unfolding cumulative_def by metis
      then have "?d = val n - raw" using d(1) True by simp
      moreover have "(\<Sum>g\<leftarrow>pre. reached g i) \<le> (\<Sum>g\<leftarrow>pre'. reached g i)"
      proof -
        have "pre @ e # post = pre' @ [?g]" using gens'(1) acc cur p(1) by (simp add: accepts_def)
        then obtain ps where "pre' = pre @ ps" by (cases post rule: rev_cases) auto
        then show ?thesis using pos [of ps] by simp
      qed
      ultimately show ?thesis using p(3) by (intro finish) simp
    next
      case old: False
      have "?d = val n" using d(1) old by simp
      moreover have "bytes \<le> (\<Sum>g\<leftarrow>pre'. reached g i)"
      proof (cases "?g = fs_generation s")
        case True
        then have "pre @ e # post = pre' @ [?g]" using gens'(1) acc p(1) by (simp add: accepts_def)
        then obtain ps where "pre' = pre @ e # ps" using old by (cases post rule: rev_cases) auto
        then show ?thesis using p(2,3) pos [of ps] by simp
      next
        case False
        then show ?thesis using gens'(2) billed_bound [OF cum ok] by simp
      qed
      ultimately show ?thesis by (intro finish) simp
    qed
  qed
qed


lemma merge_accepts:
  assumes "mergeFLVXReport by_id db_ok now r (s, ls) = Inr (s', ls')" and "length (fs_retired s') < 32"
  shows "(s' = s \<and> ls' = ls) \<or> (accepts r s s' \<and> (\<exists>period used seen used'.
           merge_nodes (sanitize_report r) period (st_nodes r) [] used ls = Some (seen, used', ls')))"
proof -
  have same: "rep_generation (sanitize_report r) = rep_generation r" "rep_sequence (sanitize_report r) = rep_sequence r"
    "st_nodes (sanitize_report r) = st_nodes r" "report_known s (sanitize_report r) = report_known s r"
    by (simp_all add: sanitize_report_def report_known_def)
  show ?thesis
  proof (cases "report_known s r")
    case True
    then show ?thesis using assms(1) same by (auto simp: mergeFLVXReport_def Let_def split: if_splits)
  next
    case False
    let ?t = "flvxReset now (retire_generation (sanitize_report r) s)"
    obtain seen counted where m: "merge_nodes (sanitize_report r) (fs_period ?t) (st_nodes r) [] (st_traffic_used_bytes (fs_status ?t)) ls
          = Some (seen, counted, ls')"
        and s': "fs_generation s' = rep_generation r" "fs_sequence s' = rep_sequence r" "fs_retired s' = fs_retired ?t" "flvx_report_ok s r"
      using assms(1) False same by (auto simp: mergeFLVXReport_def Let_def split: if_splits option.splits)
    define old where "old = (if rep_generation r \<noteq> fs_generation s \<and> fs_generation s \<noteq> [] then fs_retired s @ [fs_generation s] else fs_retired s)"
    have "fs_retired s' = keep_last 32 old" using s'(3) same by (simp add: retire_generation_def old_def)
    then have "fs_retired s' = old" using assms(2) by (auto simp: keep_last_def split: if_splits)
    then have "accepts r s s'"
      using s' False by (auto simp: accepts_def generations_def old_def flvx_report_ok_def)
    then show ?thesis using m by blast
  qed
qed

definition share_billed :: "(Report \<Rightarrow> bool) \<Rightarrow> (string \<Rightarrow> string \<Rightarrow> int) \<Rightarrow> (string \<Rightarrow> string \<Rightarrow> int) \<Rightarrow> flvxShare \<Rightarrow> ledgers \<Rightarrow> bool" where
  "share_billed sent up down s ls \<longleftrightarrow>
     (\<forall>i. let c = ledger_counter ls i
          in billed_ok sent ns_up_bytes up s i (ctr_epoch c) (ctr_raw_up c) (ctr_up c)
             \<and> billed_ok sent ns_down_bytes down s i (ctr_epoch c) (ctr_raw_down c) (ctr_down c))"

lemma accepted_billed:
  assumes "accepts r s s'" "merge_nodes (sanitize_report r) period (st_nodes r) [] used ls = Some (seen, used', ls')"
    and "cumulative sent ns_up_bytes up" "cumulative sent ns_down_bytes down" "sent r" "share_billed sent up down s ls"
  shows "share_billed sent up down s' ls'"
  unfolding share_billed_def Let_def
proof
  fix i
  let ?c = "ledger_counter ls i" and ?c' = "ledger_counter ls' i"
  have ok: "billed_ok sent ns_up_bytes up s i (ctr_epoch ?c) (ctr_raw_up ?c) (ctr_up ?c)"
    "billed_ok sent ns_down_bytes down s i (ctr_epoch ?c) (ctr_raw_down ?c) (ctr_down ?c)"
    using assms(6) by (auto simp: share_billed_def Let_def)
  have gen: "rep_generation (sanitize_report r) = rep_generation r" by (simp add: sanitize_report_def)
  consider "?c' = ?c" | n where "n \<in> set (st_nodes r)" "ns_id n = i" "0 \<le> ns_up_bytes n" "0 \<le> ns_down_bytes n"
      "?c' = fst (Counter_Merge ?c (rep_generation r) (ns_up_bytes n) (ns_down_bytes n))"
    using merge_nodes_counters [OF assms(2), of i] gen by auto
  then show "billed_ok sent ns_up_bytes up s' i (ctr_epoch ?c') (ctr_raw_up ?c') (ctr_up ?c')
      \<and> billed_ok sent ns_down_bytes down s' i (ctr_epoch ?c') (ctr_raw_down ?c') (ctr_down ?c')"
  proof cases
    case 1
    then show ?thesis using billed_absent [OF assms(1) ok(1)] billed_absent [OF assms(1) ok(2)] by simp
  next
    case (2 n)
    show ?thesis
      using billed_merged [OF assms(1) ok(1) assms(3,5) 2(1,2,3)] billed_merged [OF assms(1) ok(2) assms(4,5) 2(1,2,4)]
      by (simp add: 2(5) Counter_Merge_def Let_def)
  qed
qed


lemma share_billed_cong: "same_reports s t \<Longrightarrow> share_billed sent up down s ls = share_billed sent up down t ls"
  by (simp add: share_billed_def billed_ok_def generations_def same_reports_def)

lemma upload_cases:
  assumes "share_apply env (Upload caps serverID token arch accelerator release server report db_ok commit now) (Some (s, ls)) = Some (s', ls')"
  shows "(s' = s \<and> ls' = ls) \<or> (same_reports s' s \<and> ls' = ls)
    \<or> (\<exists>r t. report = Some r \<and> mergeFLVXReport (sv_by_id env) db_ok now r (s, ls) = Inr (t, ls') \<and> same_reports s' t)"
proof (cases "case report of None \<Rightarrow> Inr (s, ls) | Some r \<Rightarrow> mergeFLVXReport (sv_by_id env) db_ok now r (s, ls)")
  case (Inl e)
  then show ?thesis using assms by (simp add: flvxHelperDesired_def)
next
  case (Inr row)
  obtain t ks where row: "row = (t, ks)" by (cases row)
  then have "(s', ls') = (s, ls) \<or> same_reports s' t \<and> ls' = ks"
    using assms Inr by (auto simp: flvxHelperDesired_def Let_def same_reports_def split: if_splits option.splits)
  then show ?thesis using Inr row by (cases report) auto
qed

lemma retired_grows:
  assumes "mergeFLVXReport by_id db_ok now r (s, ls) = Inr (s', ls')" "length (fs_retired s') < 32"
  shows "length (fs_retired s) \<le> length (fs_retired s')"
  using assms by (auto simp: mergeFLVXReport_def Let_def retire_generation_def keep_last_def split: if_splits option.splits)

lemma share_billed_reach:
  assumes "share_reach env sent rows" "cumulative sent ns_up_bytes up" "cumulative sent ns_down_bytes down"
  shows "rows = Some (s, ls) \<Longrightarrow> length (fs_retired s) < 32 \<Longrightarrow> share_billed sent up down s ls"
  using assms(1)
proof (induction arbitrary: s ls rule: share_reach.induct)
  case (share_step rows ev)
  show ?case
  proof (cases rows)
    case None
    then have "generations s = []" "ls = []"
      using share_step.prems(1)
      by (cases ev; auto simp: with_share_def flvxHelperDesired_def putFLVXDesired_def saveFLVXShare_def upgradeFLVXCore_def new_share_def
           generations_def Let_def split: if_splits option.splits sum.splits)+
    then show ?thesis by (simp add: share_billed_def billed_ok_def ledger_counter_def counter0_def max_int64_def)
  next
    case (Some row)
    obtain t ks where row: "row = (t, ks)" by (cases row)
    have IH: "share_billed sent up down t ks" if "length (fs_retired t) < 32" using share_step.IH that Some row by simp
    show ?thesis
    proof (cases "\<exists>caps serverID token arch accelerator release server report db_ok commit now.
        ev = Upload caps serverID token arch accelerator release server report db_ok commit now")
      case True
      then obtain caps serverID token arch accelerator release server report db_ok commit now
        where ev: "ev = Upload caps serverID token arch accelerator release server report db_ok commit now" by blast
      consider "s = t" "ls = ks" | "same_reports s t" "ls = ks"
        | r u where "report = Some r" "mergeFLVXReport (sv_by_id env) db_ok now r (t, ks) = Inr (u, ls)" "same_reports s u"
        using upload_cases [of env caps serverID token arch accelerator release server report db_ok commit now t ks s ls]
          share_step.prems(1) Some row ev by auto
      then show ?thesis
      proof cases
        case 1
        then show ?thesis using IH share_step.prems(2) by simp
      next
        case 2
        then show ?thesis using IH share_step.prems(2) share_billed_cong [OF 2(1)] by (simp add: same_reports_def)
      next
        case (3 r u)
        have short: "length (fs_retired u) < 32" using 3(3) share_step.prems(2) by (simp add: same_reports_def)
        have "share_billed sent up down t ks" using IH retired_grows [OF 3(2) short] short by simp
        then have "share_billed sent up down u ls"
          using merge_accepts [OF 3(2) short] accepted_billed [OF _ _ assms(2,3)] share_step.hyps(2) ev 3(1) by auto
        then show ?thesis using share_billed_cong [OF 3(3)] by simp
      qed
    next
      case False
      then have "s = t \<or> same_reports s t" "ls = ks"
        using other_told [of env ev t ks s ls] share_step.prems(1) Some row by (cases ev; auto)+
      then show ?thesis using IH share_step.prems(2) share_billed_cong [of s t] by (auto simp: same_reports_def)
    qed
  qed
qed simp

text \<open>
  C2: Bytes are billed at most once. Whatever reports of a Helper are lost, repeated, late or out
  of order, and whatever else happens to the share, the bytes counted for a node in one direction
  never exceed the sum, over the generations of the Helper that reported, of what its counters
  reached in that generation. It holds while fewer than 32 generations are retired.
\<close>

theorem billed_at_most_once:
  assumes "share_reach env sent (Some (s, ls))"
    and "cumulative sent ns_up_bytes up" and "cumulative sent ns_down_bytes down" and "length (fs_retired s) < 32"
  shows "ctr_up (ledger_counter ls i) \<le> (\<Sum>g\<leftarrow>generations s. up g i)
    \<and> ctr_down (ledger_counter ls i) \<le> (\<Sum>g\<leftarrow>generations s. down g i)"
proof -
  have "share_billed sent up down s ls" by (rule share_billed_reach [OF assms(1-3) refl assms(4)])
  then show ?thesis
    using billed_bound [OF assms(2)] billed_bound [OF assms(3)] unfolding share_billed_def Let_def by blast
qed

text \<open>
  C33: A report that arrives again changes nothing: after a merge that succeeded, merging the same
  report once more succeeds and leaves the share and all counters as they are.
\<close>

theorem report_again:
  assumes "mergeFLVXReport by_id db_ok now r (s, ls) = Inr (s', ls')"
  shows "mergeFLVXReport by_id db_ok' now' r (s', ls') = Inr (s', ls')"
proof -
  have ok: "flvx_report_ok s r" using assms by (auto simp: mergeFLVXReport_def split: if_splits)
  then have ok': "flvx_report_ok s' r" unfolding flvx_report_ok_def merge_told(4) [OF assms] .
  have "report_known s' (sanitize_report r)"
    using assms ok by (auto simp: mergeFLVXReport_def Let_def report_known_def sanitize_report_def split: if_splits option.splits)
  then show ?thesis using ok' by (simp add: mergeFLVXReport_def Let_def)
qed


section \<open>Older Helpers\<close>

definition strip_mode :: "Node \<Rightarrow> Node" where "strip_mode n = n\<lparr>nd_conn_mode := []\<rparr>"

definition extra_node :: "Node \<Rightarrow> bool" where
  "extra_node n \<longleftrightarrow> IsExtraProtocol (nd_protocol n) \<or> nd_anytls n \<noteq> None \<or> nd_snell n \<noteq> None \<or> nd_mieru n \<noteq> None"

text \<open>The nodes a plan covers, unless the share does not allow plans.\<close>

definition plan_covers :: "flvxShare \<Rightarrow> Node \<Rightarrow> bool" where
  "plan_covers s n \<longleftrightarrow> \<not> fs_egress_denied s \<and> Node_Tag n \<in> CoveredTags (ds_egress (fs_desired s))"

lemma gate_nodes:
  "ds_node_list (flvxHelperConnMode d b) = map (if b then id else strip_mode) (ds_node_list d)"
  "ds_node_list (flvxHelperNodeTotal d b) = map (if b then id else old_total) (ds_node_list d)"
  "ds_node_list (flvxHelperProtocols d b) = filter (\<lambda>n. b \<or> \<not> extra_node n) (ds_node_list d)"
  "ds_node_list (flvxHelperGuard d b) = ds_node_list d" "ds_node_list (flvxHelperPinMargin d b) = ds_node_list d"
  "ds_node_list (flvxHelperScanGuard d b) = ds_node_list d"
proof -
  have strip: "nd_conn_mode n = [] \<Longrightarrow> strip_mode n = n" for n by (simp add: strip_mode_def)
  have total: "nd_max_total_connections n = 0 \<Longrightarrow> old_total n = n" for n by (simp add: old_total_def)
  show "ds_node_list (flvxHelperConnMode d b) = map (if b then id else strip_mode) (ds_node_list d)"
    by (auto simp: flvxHelperConnMode_def ds_node_list_def strip_mode_def [symmetric] strip list_all_iff map_idI intro: map_idI [symmetric])
  show "ds_node_list (flvxHelperNodeTotal d b) = map (if b then id else old_total) (ds_node_list d)"
    by (auto simp: flvxHelperNodeTotal_def ds_node_list_def total list_all_iff map_idI intro: map_idI [symmetric])
  have full: "length (filter P xs) = length xs \<Longrightarrow> filter P xs = xs" for P and xs :: "Node list"
    by (metis filter_True length_filter_less nat_neq_iff)
  show "ds_node_list (flvxHelperProtocols d b) = filter (\<lambda>n. b \<or> \<not> extra_node n) (ds_node_list d)"
  proof (cases b)
    case True
    then show ?thesis by (simp add: flvxHelperProtocols_def)
  next
    case False
    have eq: "filter (\<lambda>n. \<not> IsExtraProtocol (nd_protocol n) \<and> nd_anytls n = None \<and> nd_snell n = None \<and> nd_mieru n = None) (ds_node_list d)
        = filter (\<lambda>n. \<not> extra_node n) (ds_node_list d)" by (intro filter_cong) (auto simp: extra_node_def)
    show ?thesis
    proof (cases "length (filter (\<lambda>n. \<not> extra_node n) (ds_node_list d)) = length (ds_node_list d)")
      case True
      then show ?thesis using full [OF True] False by (simp add: flvxHelperProtocols_def Let_def eq)
    next
      case shorter: False
      then have "flvxHelperProtocols d b = d\<lparr>ds_nodes := Some (filter (\<lambda>n. \<not> extra_node n) (ds_node_list d))\<rparr>"
        using False by (simp add: flvxHelperProtocols_def Let_def eq)
      then show ?thesis using False by (simp add: ds_node_list_def)
    qed
  qed
qed (simp_all add: flvxHelperGuard_def flvxHelperPinMargin_def flvxHelperScanGuard_def ds_node_list_def split: option.splits)

lemma gate_egress_nodes:
  "ds_node_list (flvxHelperEgress s b) = map (\<lambda>n. if ds_egress (fs_desired s) \<noteq> None \<and> \<not> b \<and> plan_covers s n then n\<lparr>nd_enabled := Some False\<rparr> else n)
     (ds_node_list (fs_desired s))"
proof (cases "ds_egress (fs_desired s) = None \<or> b \<and> \<not> fs_egress_denied s")
  case True
  then show ?thesis by (auto simp: flvxHelperEgress_def plan_covers_def intro!: map_idI [symmetric])
next
  case False
  let ?d = "fs_desired s"
  have same: "ds_node_list (?d\<lparr>ds_egress := None\<rparr>) = ds_node_list ?d" by (simp add: ds_node_list_def)
  show ?thesis
  proof (cases "fs_egress_denied s \<or> CoveredTags (ds_egress ?d) = {}")
    case True
    then show ?thesis using False by (auto simp: flvxHelperEgress_def Let_def same plan_covers_def intro!: map_idI [symmetric])
  next
    case shown: False
    then have "flvxHelperEgress s b = covered_disabled (CoveredTags (ds_egress ?d)) (?d\<lparr>ds_egress := None\<rparr>)"
      unfolding flvxHelperEgress_def Let_def using False by (simp only: if_False)
    then show ?thesis
      using False shown by (cases "ds_node_list ?d = []") (simp_all add: covered_disabled_def same plan_covers_def, simp_all add: ds_node_list_def)
  qed
qed

lemma gate_fields:
  "ds_egress (gated_desired caps s) = (if hc_egress caps \<and> \<not> fs_egress_denied s then ds_egress (fs_desired s) else None)"
  "\<not> hc_guard caps \<Longrightarrow> ds_reality_guard (gated_desired caps s) = None"
  "\<not> hc_scan caps \<Longrightarrow> ds_scan_guard (gated_desired caps s) = None"
  "\<not> hc_pin_margin caps \<Longrightarrow> ds_reality_pin_margin_ms (gated_desired caps s) = None"
proof -
  have e: "ds_egress (flvxHelperEgress s b) = (if b \<and> \<not> fs_egress_denied s then ds_egress (fs_desired s) else None)" for b
    by (simp add: flvxHelperEgress_def Let_def covered_disabled_def)
  have rest: "ds_egress (flvxHelperProtocols d b) = ds_egress d" "ds_egress (flvxHelperGuard d b) = ds_egress d"
    "ds_egress (flvxHelperConnMode d b) = ds_egress d" "ds_egress (flvxHelperNodeTotal d b) = ds_egress d"
    "ds_egress (flvxHelperScanGuard d b) = ds_egress d" "ds_egress (flvxHelperPinMargin d b) = ds_egress d" for d b
    by (simp_all add: flvxHelperProtocols_def flvxHelperGuard_def flvxHelperConnMode_def flvxHelperNodeTotal_def flvxHelperScanGuard_def
        flvxHelperPinMargin_def Let_def split: option.splits)
  show "ds_egress (gated_desired caps s) = (if hc_egress caps \<and> \<not> fs_egress_denied s then ds_egress (fs_desired s) else None)"
    by (simp add: gated_desired_def rest e)
  show "\<not> hc_guard caps \<Longrightarrow> ds_reality_guard (gated_desired caps s) = None"
    by (simp add: gated_desired_def flvxHelperGuard_def flvxHelperConnMode_def flvxHelperNodeTotal_def flvxHelperScanGuard_def flvxHelperPinMargin_def
        split: option.splits)
  show "\<not> hc_scan caps \<Longrightarrow> ds_scan_guard (gated_desired caps s) = None"
    by (simp add: gated_desired_def flvxHelperScanGuard_def flvxHelperPinMargin_def split: option.splits)
  show "\<not> hc_pin_margin caps \<Longrightarrow> ds_reality_pin_margin_ms (gated_desired caps s) = None"
    by (simp add: gated_desired_def flvxHelperPinMargin_def)
qed

text \<open>\<open>admits n inb all\<close>: the limits of a node allow \<open>inb\<close> inbound of \<open>all\<close> connections.\<close>

definition admits :: "Node \<Rightarrow> int \<Rightarrow> int \<Rightarrow> bool" where
  "admits n inb all \<longleftrightarrow>
     (nd_max_connections n \<le> 0 \<or> (if InboundLimit n then inb else all) \<le> nd_max_connections n)
     \<and> (nd_max_total_connections n = 0 \<or> all \<le> nd_max_total_connections n)"

definition payload_fits :: "helper_caps \<Rightarrow> Desired \<Rightarrow> bool" where
  "payload_fits caps d \<longleftrightarrow>
     (hc_egress caps \<or> ds_egress d = None) \<and> (hc_guard caps \<or> ds_reality_guard d = None) \<and> (hc_scan caps \<or> ds_scan_guard d = None)
     \<and> (hc_pin_margin caps \<or> ds_reality_pin_margin_ms d = None)
     \<and> list_all (\<lambda>n. (hc_protocols caps \<or> \<not> extra_node n) \<and> (hc_limits caps \<or> nd_conn_mode n = [])
                    \<and> (hc_node_total caps \<or> nd_max_total_connections n = 0)) (ds_node_list d)"

definition gate_node :: "helper_caps \<Rightarrow> flvxShare \<Rightarrow> Node \<Rightarrow> Node" where
  "gate_node caps s n =
     (if hc_node_total caps then id else old_total)
       ((if hc_limits caps then id else strip_mode)
         (if ds_egress (fs_desired s) \<noteq> None \<and> \<not> hc_egress caps \<and> plan_covers s n then n\<lparr>nd_enabled := Some False\<rparr> else n))"

lemma gated_nodes:
  "ds_node_list (gated_desired caps s) =
     map (gate_node caps s) (filter (\<lambda>n. hc_protocols caps \<or> \<not> extra_node n) (ds_node_list (fs_desired s)))"
proof -
  have "extra_node (if b then n\<lparr>nd_enabled := Some False\<rparr> else n) = extra_node n" for b n by (simp add: extra_node_def)
  then show ?thesis by (simp add: gated_desired_def gate_nodes gate_egress_nodes filter_map o_def gate_node_def [abs_def])
qed

lemma old_total_fields [simp]:
  "nd_id (old_total n) = nd_id n" "nd_enabled (old_total n) = nd_enabled n" "nd_port (old_total n) = nd_port n"
  "nd_protocol (old_total n) = nd_protocol n" "nd_anytls (old_total n) = nd_anytls n" "nd_snell (old_total n) = nd_snell n"
  "nd_mieru (old_total n) = nd_mieru n" "nd_max_total_connections (old_total n) = 0"
  by (simp_all add: old_total_def Let_def)

lemma gate_node_fields:
  "nd_id (gate_node caps s n) = nd_id n" "nd_port (gate_node caps s n) = nd_port n" "extra_node (gate_node caps s n) = extra_node n"
  "nd_enabled (gate_node caps s n) = Some True \<Longrightarrow>
     nd_enabled n = Some True \<and> \<not> (ds_egress (fs_desired s) \<noteq> None \<and> \<not> hc_egress caps \<and> plan_covers s n)"
  "\<not> hc_limits caps \<Longrightarrow> nd_conn_mode (gate_node caps s n) = []"
  "\<not> hc_node_total caps \<Longrightarrow> nd_max_total_connections (gate_node caps s n) = 0"
  by (auto simp: gate_node_def strip_mode_def extra_node_def old_total_def Let_def split: if_splits)

lemma gate_node_limits:
  assumes "admits (gate_node caps s n) inb all" "inb \<le> all" "0 \<le> nd_max_total_connections n"
  shows "admits n inb all \<or> hc_limits caps \<and> \<not> hc_node_total caps \<and> InboundLimit n \<and> 0 < nd_max_connections n \<and> inb \<le> nd_max_connections n"
  using assms by (auto simp: gate_node_def strip_mode_def admits_def old_total_def InboundLimit_def Let_def split: if_splits)

text \<open>Every stored total limit has passed the validator.\<close>

lemma stored_totals:
  assumes "share_reach env sent rows" and "rows = Some (s, ls)"
  shows "list_all (\<lambda>n. 0 \<le> nd_max_total_connections n) (ds_node_list (fs_desired s))"
  using assms
proof (induction arbitrary: s ls)
  case (share_step rows ev)
  let ?ok = "\<lambda>d. list_all (\<lambda>n. 0 \<le> nd_max_total_connections n) (ds_node_list d)"
  have new: "?ok (fs_desired new_share)" by (simp add: new_share_def ds_node_list_def)
  have checked: "?ok d" if "desired_problems lib renders official now t d = []" for lib renders official now t d
  proof -
    have "ValidateDesiredWith (sl_cert lib) d (fs_config t) official
        \<lparr>do_protocols = (case flvxShareProtocols renders t of None \<Rightarrow> Map.empty | Some m \<Rightarrow> m), do_busy = flvxBusyListening t, do_now = now\<rparr> = []"
      using that by (simp add: desired_problems_def)
    from ValidateDesiredWith_node(1) [OF this] have "0 \<le> nd_max_total_connections n" if "n \<in> set (ds_node_list d)" for n
      using that by (force simp: node_errors_def split: if_splits)
    then show ?thesis by (simp add: list_all_iff)
  qed
  show ?case
  proof (cases rows)
    case None
    then show ?thesis
      using share_step.prems new
      by (cases ev) (auto simp: flvxHelperDesired_def with_share_def putFLVXDesired_def saveFLVXShare_def upgradeFLVXCore_def Let_def
          split: if_splits option.splits sum.splits)
  next
    case (Some row)
    then obtain t ks where row: "rows = Some (t, ks)" by (cases row) auto
    have t: "?ok (fs_desired t)" by (rule share_step.IH [OF row])
    have run: "share_apply env ev (Some (t, ks)) = Some (s, ls)" using share_step.prems row by simp
    show ?thesis
    proof (cases ev)
      case (Upload caps serverID token arch accelerator release server report db_ok commit now)
      then show ?thesis using upload_told(1) run t by (auto simp: told_simps)
    next
      case (PutDesired renders check commit now d)
      then have "fs_desired s = fs_desired t \<or> fs_desired s = d \<and> (\<exists>official. desired_problems (sv_lib env) renders official now t d = [])"
        using run by (auto simp: with_share_def putFLVXDesired_def Let_def split: if_splits option.splits sum.splits)
      then show ?thesis using t checked by auto
    qed (use run t in \<open>auto simp: with_share_def saveFLVXShare_def upgradeFLVXCore_def pause_native_def Let_def
        split: if_splits option.splits sum.splits\<close>)
  qed
qed simp



section \<open>A share\<close>

definition ex_share_lib :: share_lib where
  "ex_share_lib = \<lparr>sl_cert = \<lparr>lib_pem = (\<lambda>_. None), lib_cert = (\<lambda>_. None), lib_pair = (\<lambda>_ _. False)\<rparr>,
                   sl_tabs = (Map.empty, Map.empty), sl_rx = (\<lambda>_. True)\<rparr>"

definition ex_env :: share_env where
  "ex_env = \<lparr>sv_lib = ex_share_lib, sv_deep = (\<lambda>_ _. False), sv_mac = (\<lambda>token p e. token), sv_by_id = (\<lambda>ls. ls)\<rparr>"

definition ex_config :: Config where
  "ex_config = \<lparr>cf_port_min = 20000, cf_port_max = 20100, cf_traffic_limit_bytes = 0, cf_reset_day = 1, cf_max_connections = 0,
                cf_share_until = None, cf_memory_mb = 0, cf_cpu_percent = 0\<rparr>"

definition ex_status_node :: "int \<Rightarrow> int \<Rightarrow> NodeStatus" where
  "ex_status_node up down = \<lparr>ns_id = ''a'', ns_state = ''active'', ns_error = [], ns_up_bytes = up, ns_down_bytes = down, ns_connections = 1,
                             ns_online_ip_count = None, ns_online_ips = None, ns_inbound_connections = None, ns_tcp = None\<rparr>"

definition ex_report :: "string \<Rightarrow> int \<Rightarrow> int \<Rightarrow> Report" where
  "ex_report g k up = \<lparr>st_applied_revision = 0, st_core = \<lparr>co_state = ''running'', co_version = [], co_epoch = [], co_error = []\<rparr>,
     st_nodes = [ex_status_node up (2 * up)], st_traffic_used_bytes = 0, st_collected_at = 5, st_egress = None, st_protocols = None,
     st_listening = None, st_reality_guard = None, st_scan_guard = None, st_reality_pins = [],
     rep_generation = g, rep_sequence = k, rep_period = []\<rparr>"

definition ex_caps :: helper_caps where
  "ex_caps = \<lparr>hc_egress = False, hc_protocols = False, hc_guard = False, hc_limits = True, hc_scan = False, hc_node_total = False,
              hc_core_unlimited = False, hc_pin_margin = False\<rparr>"

definition ex_upload :: "Report \<Rightarrow> share_event" where
  "ex_upload r = Upload ex_caps ''7'' ''k'' ''amd64'' [] None (Some (Some [443])) (Some r) True True 0"

text \<open>Two reports, the first one again, a new generation, and a report of the old one that comes late.\<close>

definition ex_share_events :: "share_event list" where
  "ex_share_events =
     [SaveShare True (Inr [443]) True 0 ex_config ''active'' None,
      ex_upload (ex_report ''g1'' 1 100), ex_upload (ex_report ''g1'' 2 150), ex_upload (ex_report ''g1'' 1 100),
      ex_upload (ex_report ''g2'' 1 30), ex_upload (ex_report ''g1'' 3 170)]"

definition ex_sent :: "Report \<Rightarrow> bool" where
  "ex_sent r \<longleftrightarrow> r \<in> {ex_report ''g1'' 1 100, ex_report ''g1'' 2 150, ex_report ''g1'' 3 170, ex_report ''g2'' 1 30}"

definition ex_reached :: "int \<Rightarrow> string \<Rightarrow> string \<Rightarrow> int" where
  "ex_reached k g i = k * (if g = ''g1'' then 170 else 30)"

lemma run_reach:
  assumes "share_reach env sent rows" "\<forall>ev \<in> set evs. \<forall>r. event_report ev = Some r \<longrightarrow> sent r"
  shows "share_reach env sent (share_run env evs rows)"
  using assms by (induction evs arbitrary: rows) (auto simp: share_run_def intro: share_step)

lemma ex_cumulative: "cumulative ex_sent ns_up_bytes (ex_reached 1)" "cumulative ex_sent ns_down_bytes (ex_reached 2)"
  by (auto simp: cumulative_def ex_sent_def ex_report_def ex_status_node_def ex_reached_def max_int64_def)

lemma ex_share_run:
  "(case share_run ex_env ex_share_events None of
      None \<Rightarrow> False
    | Some (s, ls) \<Rightarrow> generations s = [''g1'', ''g2''] \<and> length (fs_retired s) < 32
        \<and> ctr_up (ledger_counter ls ''a'') = 180 \<and> ctr_down (ledger_counter ls ''a'') = 360)"
  by code_simp

theorem billed_at_most_once_witness:
  "case share_run ex_env ex_share_events None of
     None \<Rightarrow> False
   | Some (s, ls) \<Rightarrow> ctr_up (ledger_counter ls ''a'') = 180 \<and> ctr_up (ledger_counter ls ''a'') \<le> (\<Sum>g\<leftarrow>[''g1'', ''g2'']. ex_reached 1 g ''a'')"
proof -
  obtain s ls where run: "share_run ex_env ex_share_events None = Some (s, ls)" "generations s = [''g1'', ''g2'']"
      "length (fs_retired s) < 32" "ctr_up (ledger_counter ls ''a'') = 180"
    using ex_share_run by (auto split: option.splits)
  have "share_reach ex_env ex_sent (share_run ex_env ex_share_events None)"
    by (rule run_reach) (auto intro: share_init simp: ex_share_events_def ex_upload_def ex_sent_def)
  then show ?thesis using billed_at_most_once [OF _ ex_cumulative run(3), of ex_env ls "''a''"] run by simp
qed

definition ex_stored :: flvxShare where
  "ex_stored = new_share\<lparr>fs_config := ex_config, fs_state := ''active'', fs_version := 1\<rparr>"

definition ex_pinned :: "string \<Rightarrow> flvxPinnedCore" where
  "ex_pinned v = \<lparr>pc_version = v, pc_artifacts = []\<rparr>"

theorem share_history_witness:
  "case share_run ex_env [UpgradeCore (Some (ex_pinned ''1.1'')) True] (Some (ex_stored\<lparr>fs_core := Some (ex_pinned ''1.0'')\<rparr>, [])) of
     None \<Rightarrow> False
   | Some (s, ls) \<Rightarrow> map_option pc_version (fs_core s) = Some ''1.1'' \<and> fs_version ex_stored < fs_version s"
proof -
  let ?evs = "[UpgradeCore (Some (ex_pinned ''1.1'')) True]" and ?s = "ex_stored\<lparr>fs_core := Some (ex_pinned ''1.0'')\<rparr>"
  have "case share_run ex_env ?evs (Some (?s, [])) of None \<Rightarrow> False | Some (s, ls) \<Rightarrow> map_option pc_version (fs_core s) = Some ''1.1''"
    by code_simp
  then obtain s ls where run: "share_run ex_env ?evs (Some (?s, [])) = Some (s, ls)" "map_option pc_version (fs_core s) = Some ''1.1''"
    by (auto split: option.splits)
  have "0 \<le> fs_version ?s" "fs_version ?s + int (length ?evs) \<le> max_int64"
    by (simp_all add: ex_stored_def max_int64_def)
  from share_history [OF run(1) this] run(2) have "fs_version ?s \<le> fs_version s \<and> fs_version s \<noteq> fs_version ?s"
    by (auto simp: ex_pinned_def)
  then show ?thesis using run by simp
qed

theorem report_again_witness:
  "case mergeFLVXReport (\<lambda>ls. ls) True 0 (ex_report ''g1'' 1 100) (ex_stored, []) of
     Inl _ \<Rightarrow> False
   | Inr (s, ls) \<Rightarrow> mergeFLVXReport (\<lambda>ls. ls) True 1 (ex_report ''g1'' 1 100) (s, ls) = Inr (s, ls) \<and> fs_sequence s = 1"
proof -
  have "case mergeFLVXReport (\<lambda>ls. ls) True 0 (ex_report ''g1'' 1 100) (ex_stored, []) of Inl _ \<Rightarrow> False | Inr (s, ls) \<Rightarrow> fs_sequence s = 1"
    by code_simp
  then obtain s ls where m: "mergeFLVXReport (\<lambda>ls. ls) True 0 (ex_report ''g1'' 1 100) (ex_stored, []) = Inr (s, ls)" "fs_sequence s = 1"
    by (auto split: sum.splits)
  then show ?thesis using report_again [OF m(1)] by simp
qed

text \<open>A node with a total limit only, counted inbound; the older Helper gets it as an ordinary limit.\<close>

definition ex_limited :: Desired where
  "ex_limited = ex_desired\<lparr>ds_nodes := Some [ex_node_vless\<lparr>nd_conn_mode := ''inbound'', nd_max_connections := 0, nd_max_total_connections := 40\<rparr>]\<rparr>"

definition ex_limited_events :: "share_event list" where
  "ex_limited_events = [SaveShare True (Inr [443]) True 0 ex_config ''active'' None, PutDesired True (Inr [443]) True 0 ex_limited]"


end
