(* ===== verification/Reality_Probe.thy ===== *)
theory Reality_Probe
  imports Reality_Pick
begin

text \<open>
  The Reality probe from the request to the result. Custom
  (\<open>flvx_reality.go\<close>) keeps the latest job of each share, hands it signed to the
  Helper with the answers to its uploads, takes the report from the uploads and ends what
  was never started or never finished. The Helper (\<open>cmd/mmwxc-helper/flvx_reality_probe.go\<close>)
  runs one job in the background and reports it until Custom stops sending it. Uploads and
  answers may be lost, delayed, repeated and reordered, and the Helper may restart.
  The test of one target (DNS, TCP and TLS) is an argument.
\<close>

section \<open>Custom\<close>

definition flvxProbePickupLimit :: duration where "flvxProbePickupLimit = 2 * minute"
definition flvxProbeRunLimit :: duration where "flvxProbeRunLimit = 3 * minute"
definition flvxProbeKeep :: duration where "flvxProbeKeep = 30 * minute"
definition flvxProbeEnvelopeTTL :: duration where "flvxProbeEnvelopeTTL = 5 * minute"

text \<open>Reason codes for the messages of the errors.\<close>

datatype probe_refusal =
  ProbeInvalid "ValidationError list" | ShareError | ShareRevoked | HelperOutdated | NoRandom | ProbeBusy string | ProbeNotFound

record flvxProbeJob =
  fj_job :: ProbeJob
  fj_state :: string
  fj_created_at :: time
  fj_started_at :: time
  fj_finished_at :: time
  fj_results :: "ProbeResult list"
  fj_err :: string

record probe_view =
  vw_probe_id :: string
  vw_state :: string
  vw_targets :: "string list"
  vw_timeout_ms :: int
  vw_created_at :: int
  vw_started_at :: int
  vw_finished_at :: int
  vw_results :: "ProbeResult list"
  vw_error :: string

definition ms_or_zero :: "time \<Rightarrow> int" where
  "ms_or_zero t = (if t = 0 then 0 else unix_milli t)"

definition probe_job_view :: "flvxProbeJob \<Rightarrow> probe_view" where
  "probe_job_view j =
     \<lparr>vw_probe_id = pj_id (fj_job j), vw_state = fj_state j, vw_targets = pj_targets (fj_job j),
      vw_timeout_ms = pj_timeout_ms (fj_job j), vw_created_at = ms_or_zero (fj_created_at j),
      vw_started_at = ms_or_zero (fj_started_at j), vw_finished_at = ms_or_zero (fj_finished_at j),
      vw_results = fj_results j, vw_error = fj_err j\<rparr>"

definition probe_open :: "flvxProbeJob \<Rightarrow> bool" where
  "probe_open j \<longleftrightarrow> fj_state j = ''queued'' \<or> fj_state j = ''running''"

definition expireLocked :: "time \<Rightarrow> flvxProbeJob \<Rightarrow> flvxProbeJob" where
  "expireLocked now j =
     (if fj_state j = ''queued'' \<and> flvxProbePickupLimit < time_sub now (fj_created_at j)
      then j\<lparr>fj_state := ''error'', fj_err := ''Helper did not start the probe'', fj_finished_at := now\<rparr>
      else if fj_state j = ''running'' \<and> flvxProbeRunLimit < time_sub now (fj_created_at j)
      then j\<lparr>fj_state := ''error'', fj_err := ''probe timed out'', fj_finished_at := now\<rparr>
      else j)"

text \<open>The entry of a share in \<open>flvxProbes\<close> after \<open>flvxProbeLocked\<close>; its result is the entry.\<close>

definition flvxProbeLocked :: "time \<Rightarrow> flvxProbeJob option \<Rightarrow> flvxProbeJob option" where
  "flvxProbeLocked now entry =
     (case entry of
        None \<Rightarrow> None
      | Some j0 \<Rightarrow>
          let j = expireLocked now j0
          in if (fj_state j = ''done'' \<or> fj_state j = ''error'') \<and> flvxProbeKeep < time_sub now (fj_finished_at j)
             then None else Some j)"

text \<open>\<open>share\<close> is the state of the share that was read, \<open>capable\<close> the Helper's \<open>Ready\<close> and
  \<open>RealityProbe\<close>, \<open>uuid\<close> the random id.\<close>

definition startFLVXProbe ::
  "ProbeRequest \<Rightarrow> string option \<Rightarrow> bool \<Rightarrow> string option \<Rightarrow> time \<Rightarrow> flvxProbeJob option
   \<Rightarrow> (probe_refusal + probe_view) \<times> flvxProbeJob option" where
  "startFLVXProbe request share capable uuid now entry =
     (let (req, problems) = ValidateProbe request
      in if problems \<noteq> [] then (Inl (ProbeInvalid problems), entry)
         else case share of
           None \<Rightarrow> (Inl ShareError, entry)
         | Some state \<Rightarrow>
             if state = ''revoked'' then (Inl ShareRevoked, entry)
             else if \<not> capable then (Inl HelperOutdated, entry)
             else case uuid of
               None \<Rightarrow> (Inl NoRandom, entry)
             | Some probe_id \<Rightarrow>
                 let old = flvxProbeLocked now entry
                 in case old of
                      Some j \<Rightarrow>
                        if probe_open j then (Inl (ProbeBusy (pj_id (fj_job j))), old)
                        else (let new = \<lparr>fj_job = \<lparr>pj_server_id = [], pj_id = probe_id, pj_targets = pr_targets req, pj_timeout_ms = pr_timeout_ms req\<rparr>,
                                         fj_state = ''queued'', fj_created_at = now, fj_started_at = 0, fj_finished_at = 0, fj_results = [], fj_err = []\<rparr>
                              in (Inr (probe_job_view new), Some new))
                    | None \<Rightarrow>
                        (let new = \<lparr>fj_job = \<lparr>pj_server_id = [], pj_id = probe_id, pj_targets = pr_targets req, pj_timeout_ms = pr_timeout_ms req\<rparr>,
                                    fj_state = ''queued'', fj_created_at = now, fj_started_at = 0, fj_finished_at = 0, fj_results = [], fj_err = []\<rparr>
                         in (Inr (probe_job_view new), Some new)))"

definition flvxProbeStatus :: "string \<Rightarrow> time \<Rightarrow> flvxProbeJob option \<Rightarrow> (probe_refusal + probe_view) \<times> flvxProbeJob option" where
  "flvxProbeStatus probe_id now entry =
     (let e = flvxProbeLocked now entry
      in (case e of
            None \<Rightarrow> Inl ProbeNotFound
          | Some j \<Rightarrow> if pj_id (fj_job j) = probe_id then Inr (probe_job_view j) else Inl ProbeNotFound, e))"

text \<open>What a report changes in the job it is about.\<close>

definition take_probe_report :: "time \<Rightarrow> ProbeReport \<Rightarrow> flvxProbeJob \<Rightarrow> flvxProbeJob" where
  "take_probe_report now r j0 =
     (let j = (if fj_started_at j0 = 0 then j0\<lparr>fj_started_at := now\<rparr> else j0)
      in if po_state r = ''running'' then j\<lparr>fj_state := ''running''\<rparr>
         else if po_state r = ''done'' \<or> po_state r = ''error'' then
           (let short = (po_state r = ''done'' \<and> length (po_results r) \<noteq> length (pj_targets (fj_job j)))
            in j\<lparr>fj_state := (if short then ''error'' else po_state r),
                 fj_err := (if short then ''incomplete probe report'' else po_error r),
                 fj_finished_at := now, fj_results := po_results r\<rparr>)
         else j)"

definition flvxProbeForHelper ::
  "ProbeJob mac \<Rightarrow> string \<Rightarrow> string \<Rightarrow> bool \<Rightarrow> ProbeReport option \<Rightarrow> time \<Rightarrow> flvxProbeJob option
   \<Rightarrow> ProbeEnvelope option \<times> flvxProbeJob option" where
  "flvxProbeForHelper mac server token capable report now entry =
     (case flvxProbeLocked now entry of
        None \<Rightarrow> (None, None)
      | Some j0 \<Rightarrow>
          if \<not> capable then (None, Some j0)
          else (let j = (case SanitizeProbeReport report of
                           None \<Rightarrow> j0
                         | Some r \<Rightarrow> if po_id r = pj_id (fj_job j0) \<and> probe_open j0 then take_probe_report now r j0 else j0)
                in if \<not> probe_open j then (None, Some j)
                   else (Some (Probe_Sign mac token
                                 \<lparr>pv_job = (fj_job j)\<lparr>pj_server_id := server\<rparr>,
                                  pv_expires_at = unix_milli (now + flvxProbeEnvelopeTTL), pv_signature = []\<rparr>), Some j)))"

section \<open>The Helper\<close>

record flvxProbeState =
  hp_current :: "ProbeReport option"
  hp_running :: bool

datatype probe_submit = ProbeOk | ProbeRejected | ProbeAlreadyRunning | ProbeStarted ProbeJob

definition submitProbe ::
  "ProbeJob mac \<Rightarrow> string \<Rightarrow> string \<Rightarrow> time \<Rightarrow> ProbeEnvelope option \<Rightarrow> flvxProbeState \<Rightarrow> probe_submit \<times> flvxProbeState" where
  "submitProbe mac token server now envelope s =
     (case envelope of
        None \<Rightarrow> (ProbeOk, if hp_running s then s else s\<lparr>hp_current := None\<rparr>)
      | Some e \<Rightarrow>
          if (case hp_current s of None \<Rightarrow> False | Some c \<Rightarrow> po_id c = pj_id (pv_job e)) then (ProbeOk, s)
          else if \<not> Probe_Verify mac e token server now then (ProbeRejected, s)
          else if hp_running s then (ProbeAlreadyRunning, s)
          else (ProbeStarted (pv_job e),
                \<lparr>hp_current = Some \<lparr>po_id = pj_id (pv_job e), po_state = ''running'', po_started_at = unix_milli now,
                                   po_finished_at = 0, po_results = [], po_error = []\<rparr>,
                 hp_running = True\<rparr>))"

definition deadline_result :: "string \<Rightarrow> ProbeResult" where
  "deadline_result target =
     \<lparr>ps_target = target, ps_feasible = False, ps_reason = ''probe deadline reached'', ps_latency_ms = Finite 0,
      ps_best_ip = [], ps_ips = [], ps_tls13 = False, ps_tls_version = [], ps_x25519 = False, ps_curve_id = [], ps_h2 = False,
      ps_cert_valid = False, ps_server_names = [], ps_cert_chain_bytes = 0\<rparr>"

text \<open>\<open>test i t\<close> is \<open>None\<close> when the deadline of the job has passed before the test of target \<open>i\<close>.\<close>

definition probe_results :: "(nat \<Rightarrow> string \<Rightarrow> duration \<Rightarrow> ProbeResult option) \<Rightarrow> ProbeJob \<Rightarrow> ProbeResult list" where
  "probe_results test job =
     map (\<lambda>(i, t). case test i t (i64 (pj_timeout_ms job * nanos_per_ms)) of
                     None \<Rightarrow> deadline_result t
                   | Some r \<Rightarrow> r\<lparr>ps_target := t\<rparr>)
       (enumerate 0 (pj_targets job))"

definition runProbe_end :: "ProbeJob \<Rightarrow> ProbeResult list \<Rightarrow> time \<Rightarrow> flvxProbeState \<Rightarrow> flvxProbeState" where
  "runProbe_end job results now s0 =
     (let s = s0\<lparr>hp_running := False\<rparr>
      in case hp_current s of
           None \<Rightarrow> s
         | Some c \<Rightarrow>
             if po_id c \<noteq> pj_id job then s
             else s\<lparr>hp_current := Some (c\<lparr>po_state := ''done'', po_finished_at := unix_milli now, po_results := results\<rparr>)\<rparr>)"

section \<open>Custom and the Helper over an unreliable network\<close>

text \<open>
  \<open>pw_created\<close> records every job created so far, \<open>pw_work\<close> the running background
  tests, \<open>pw_reports\<close> and \<open>pw_answers\<close> every report and job sent: each may arrive never, late or
  repeatedly.
\<close>

record probe_world =
  pw_entry :: "flvxProbeJob option"
  pw_created :: "ProbeJob list"
  pw_helper :: flvxProbeState
  pw_work :: "ProbeJob list"
  pw_reports :: "ProbeReport list"
  pw_answers :: "ProbeEnvelope list"

definition probe_world0 :: probe_world where
  "probe_world0 = \<lparr>pw_entry = None, pw_created = [], pw_helper = \<lparr>hp_current = None, hp_running = False\<rparr>,
                   pw_work = [], pw_reports = [], pw_answers = []\<rparr>"

datatype probe_event =
    ProbeStart ProbeRequest "string option" bool "string option" time
  | ProbePoll string time
  | ProbeSend
  | ProbeServe bool "nat option" time
  | ProbeReceive "nat option" time
  | ProbeFinish nat "nat \<Rightarrow> string \<Rightarrow> duration \<Rightarrow> ProbeResult option" time
  | ProbeRestart

definition nth_opt :: "'a list \<Rightarrow> nat option \<Rightarrow> 'a option" where
  "nth_opt xs i = (case i of None \<Rightarrow> None | Some n \<Rightarrow> if n < length xs then Some (xs ! n) else None)"

definition opt_list :: "'a option \<Rightarrow> 'a list" where
  "opt_list x = (case x of None \<Rightarrow> [] | Some y \<Rightarrow> [y])"

fun probe_apply :: "ProbeJob mac \<Rightarrow> string \<Rightarrow> string \<Rightarrow> probe_event \<Rightarrow> probe_world \<Rightarrow> probe_world" where
  "probe_apply mac token server (ProbeStart request share capable uuid now) w =
     (case startFLVXProbe request share capable uuid now (pw_entry w) of
        (Inl _, e) \<Rightarrow> w\<lparr>pw_entry := e\<rparr>
      | (Inr _, e) \<Rightarrow> w\<lparr>pw_entry := e, pw_created := pw_created w @ map fj_job (opt_list e)\<rparr>)"
| "probe_apply mac token server (ProbePoll probe_id now) w = w\<lparr>pw_entry := snd (flvxProbeStatus probe_id now (pw_entry w))\<rparr>"
| "probe_apply mac token server ProbeSend w = w\<lparr>pw_reports := pw_reports w @ opt_list (hp_current (pw_helper w))\<rparr>"
| "probe_apply mac token server (ProbeServe capable i now) w =
     (case flvxProbeForHelper mac server token capable (nth_opt (pw_reports w) i) now (pw_entry w) of
        (answer, e) \<Rightarrow> w\<lparr>pw_entry := e, pw_answers := pw_answers w @ opt_list answer\<rparr>)"
| "probe_apply mac token server (ProbeReceive i now) w =
     (case submitProbe mac token server now (nth_opt (pw_answers w) i) (pw_helper w) of
        (ProbeStarted job, h) \<Rightarrow> w\<lparr>pw_helper := h, pw_work := job # pw_work w\<rparr>
      | (_, h) \<Rightarrow> w\<lparr>pw_helper := h\<rparr>)"
| "probe_apply mac token server (ProbeFinish k test now) w =
     (if k < length (pw_work w)
      then (let job = pw_work w ! k
            in w\<lparr>pw_helper := runProbe_end job (probe_results test job) now (pw_helper w),
                 pw_work := take k (pw_work w) @ drop (Suc k) (pw_work w)\<rparr>)
      else w)"
| "probe_apply mac token server ProbeRestart w = w\<lparr>pw_helper := \<lparr>hp_current = None, hp_running = False\<rparr>, pw_work := []\<rparr>"

text \<open>Ids are random: a new job's id is none of the earlier ones'.\<close>

definition fresh_probe :: "probe_event \<Rightarrow> probe_world \<Rightarrow> bool" where
  "fresh_probe ev w \<longleftrightarrow>
     (case ev of ProbeStart _ _ _ (Some u) _ \<Rightarrow> u \<notin> pj_id ` set (pw_created w) | _ \<Rightarrow> True)"

inductive probe_reach :: "ProbeJob mac \<Rightarrow> string \<Rightarrow> string \<Rightarrow> probe_world \<Rightarrow> bool"
  for mac token server where
  probe_init: "probe_reach mac token server probe_world0"
| probe_step: "\<lbrakk>probe_reach mac token server w; fresh_probe ev w\<rbrakk>
    \<Longrightarrow> probe_reach mac token server (probe_apply mac token server ev w)"

section \<open>Results belong to the requested targets\<close>

text \<open>A report is about a job that was created; finished, it has one result per target, in order.\<close>

definition report_matches :: "ProbeJob list \<Rightarrow> ProbeReport \<Rightarrow> bool" where
  "report_matches created r \<longleftrightarrow>
     (\<exists>j \<in> set created. pj_id j = po_id r
        \<and> (po_state r = ''running'' \<and> po_results r = [] \<or> po_state r = ''done'' \<and> map ps_target (po_results r) = pj_targets j))"

definition job_known :: "ProbeJob list \<Rightarrow> ProbeJob \<Rightarrow> bool" where
  "job_known created job \<longleftrightarrow> (\<exists>j \<in> set created. pj_id j = pj_id job \<and> pj_targets j = pj_targets job)"

definition entry_ok :: "ProbeJob list \<Rightarrow> flvxProbeJob \<Rightarrow> bool" where
  "entry_ok created j \<longleftrightarrow> fj_job j \<in> set created
     \<and> (fj_state j = ''done'' \<longrightarrow> map ps_target (fj_results j) = pj_targets (fj_job j))
     \<and> (fj_state j \<noteq> ''done'' \<and> fj_state j \<noteq> ''error'' \<longrightarrow> fj_results j = [])"

definition probe_inv :: "probe_world \<Rightarrow> bool" where
  "probe_inv w \<longleftrightarrow>
     distinct (map pj_id (pw_created w))
     \<and> list_all (entry_ok (pw_created w)) (opt_list (pw_entry w))
     \<and> list_all (report_matches (pw_created w)) (pw_reports w @ opt_list (hp_current (pw_helper w)))
     \<and> list_all (job_known (pw_created w)) (map pv_job (pw_answers w) @ pw_work w)
     \<and> (case pw_work w of
          [] \<Rightarrow> \<not> hp_running (pw_helper w)
        | job # rest \<Rightarrow> rest = [] \<and> hp_running (pw_helper w)
            \<and> (\<exists>c. hp_current (pw_helper w) = Some c \<and> po_id c = pj_id job \<and> po_state c = ''running'' \<and> po_results c = []))"

lemma created_mono:
  "report_matches cs r \<Longrightarrow> report_matches (cs @ ds) r"
  "job_known cs j \<Longrightarrow> job_known (cs @ ds) j"
  "entry_ok cs e \<Longrightarrow> entry_ok (cs @ ds) e"
  by (auto simp: report_matches_def job_known_def entry_ok_def)

lemma expire_ok: "entry_ok cs j \<Longrightarrow> entry_ok cs (expireLocked now j)"
  by (auto simp: entry_ok_def expireLocked_def)

lemma locked_ok: "list_all (entry_ok cs) (opt_list e) \<Longrightarrow> list_all (entry_ok cs) (opt_list (flvxProbeLocked now e))"
  by (auto simp: flvxProbeLocked_def Let_def opt_list_def expire_ok split: option.splits)

lemma clean_result_target [simp]: "ps_target (clean_result p) = ps_target p"
  by (simp add: clean_result_def)

lemma sanitized_matches:
  "report_matches cs r \<Longrightarrow> SanitizeProbeReport (Some r) = Some r' \<Longrightarrow> report_matches cs r'"
  by (auto simp: SanitizeProbeReport_def report_matches_def o_def split: if_splits)

lemma id_unique: "distinct (map pj_id cs) \<Longrightarrow> i \<in> set cs \<Longrightarrow> j \<in> set cs \<Longrightarrow> pj_id i = pj_id j \<Longrightarrow> i = j"
  by (metis distinct_map inj_onD)

lemma taken_ok:
  assumes "distinct (map pj_id cs)" "entry_ok cs j" "probe_open j" "report_matches cs r" "po_id r = pj_id (fj_job j)"
  shows "entry_ok cs (take_probe_report now r j)"
proof -
  obtain k where k: "k \<in> set cs" "pj_id k = po_id r"
      "po_state r = ''running'' \<and> po_results r = [] \<or> po_state r = ''done'' \<and> map ps_target (po_results r) = pj_targets k"
    using assms(4) by (auto simp: report_matches_def)
  then have "k = fj_job j" using id_unique [OF assms(1)] assms(2,5) by (auto simp: entry_ok_def)
  then show ?thesis
    using k(3) assms(2,3) by (auto simp: take_probe_report_def entry_ok_def probe_open_def Let_def)
qed

lemma probe_results_targets: "map ps_target (probe_results test job) = pj_targets job"
proof -
  have "ps_target (case test i t d of None \<Rightarrow> deadline_result t | Some r \<Rightarrow> r\<lparr>ps_target := t\<rparr>) = t" for i t d
    by (simp add: deadline_result_def split: option.splits)
  then have "map ps_target (probe_results test job) = map snd (enumerate 0 (pj_targets job))"
    unfolding probe_results_def map_map o_def by (intro map_cong refl) (simp add: case_prod_beta)
  then show ?thesis by simp
qed

lemma nth_opt_in: "nth_opt xs i = Some x \<Longrightarrow> x \<in> set xs"
  by (auto simp: nth_opt_def split: option.splits if_splits)


lemma opt_list_simps [simp]: "opt_list None = []" "opt_list (Some x) = [x]"
  by (simp_all add: opt_list_def)

text \<open>One step at a time.\<close>

lemma serve_ok:
  assumes "distinct (map pj_id cs)" "list_all (entry_ok cs) (opt_list e)" "list_all (report_matches cs) rs"
    and "flvxProbeForHelper mac server token capable (nth_opt rs i) now e = (answer, e')"
  shows "list_all (entry_ok cs) (opt_list e')" "list_all (job_known cs) (map pv_job (opt_list answer))"
proof -
  have locked: "list_all (entry_ok cs) (opt_list (flvxProbeLocked now e))" using assms(2) by (rule locked_ok)
  have "list_all (entry_ok cs) (opt_list e') \<and> list_all (job_known cs) (map pv_job (opt_list answer))"
  proof (cases "flvxProbeLocked now e")
    case None
    then show ?thesis using assms(4) by (simp add: flvxProbeForHelper_def)
  next
    case (Some j0)
    define j where "j = (case SanitizeProbeReport (nth_opt rs i) of None \<Rightarrow> j0
      | Some r \<Rightarrow> if po_id r = pj_id (fj_job j0) \<and> probe_open j0 then take_probe_report now r j0 else j0)"
    have j0: "entry_ok cs j0" using locked Some by simp
    have j: "entry_ok cs j"
    proof (cases "SanitizeProbeReport (nth_opt rs i)")
      case None
      then show ?thesis using j0 by (simp add: j_def)
    next
      case (Some r')
      then obtain r where r: "nth_opt rs i = Some r"
        by (cases "nth_opt rs i") (simp_all add: SanitizeProbeReport_def)
      have "report_matches cs r'"
        using sanitized_matches [of cs r r'] Some r nth_opt_in [OF r] assms(3) by (simp add: list_all_iff)
      then show ?thesis using taken_ok [OF assms(1) j0] j0 Some by (simp add: j_def)
    qed
    have "job_known cs ((fj_job j)\<lparr>pj_server_id := server\<rparr>)" using j by (auto simp: job_known_def entry_ok_def)
    moreover have "(answer, e') =
        (if \<not> capable then (None, Some j0)
         else if \<not> probe_open j then (None, Some j)
         else (Some (Probe_Sign mac token \<lparr>pv_job = (fj_job j)\<lparr>pj_server_id := server\<rparr>,
                 pv_expires_at = unix_milli (now + flvxProbeEnvelopeTTL), pv_signature = []\<rparr>), Some j))"
      by (simp only: assms(4) [symmetric] flvxProbeForHelper_def Some option.case j_def [symmetric] Let_def)
    ultimately show ?thesis using j j0 by (auto simp: Probe_Sign_def split: if_splits)
  qed
  then show "list_all (entry_ok cs) (opt_list e')" "list_all (job_known cs) (map pv_job (opt_list answer))" by auto
qed

definition helper_ok :: "flvxProbeState \<Rightarrow> ProbeJob list \<Rightarrow> bool" where
  "helper_ok h work \<longleftrightarrow>
     (case work of
        [] \<Rightarrow> \<not> hp_running h
      | job # rest \<Rightarrow> rest = [] \<and> hp_running h
          \<and> (\<exists>c. hp_current h = Some c \<and> po_id c = pj_id job \<and> po_state c = ''running'' \<and> po_results c = []))"

lemma submit_ok:
  assumes "helper_ok h work" "list_all (report_matches cs) (opt_list (hp_current h))" "list_all (job_known cs) (map pv_job answers)"
    and "submitProbe mac token server now (nth_opt answers i) h = (result, h')"
  shows "list_all (report_matches cs) (opt_list (hp_current h'))"
    and "case result of ProbeStarted job \<Rightarrow> helper_ok h' (job # work) \<and> job_known cs job | _ \<Rightarrow> helper_ok h' work"
proof -
  have "list_all (report_matches cs) (opt_list (hp_current h'))
      \<and> (case result of ProbeStarted job \<Rightarrow> helper_ok h' (job # work) \<and> job_known cs job | _ \<Rightarrow> helper_ok h' work)"
  proof (cases "nth_opt answers i")
    case None
    then show ?thesis using assms(1,2,4) by (auto simp: submitProbe_def helper_ok_def split: list.splits if_splits)
  next
    case (Some e)
    then have "job_known cs (pv_job e)" using nth_opt_in [OF Some] assms(3) by (simp add: list_all_iff)
    then show ?thesis
      using assms(1,2,4) Some
      by (auto simp: submitProbe_def helper_ok_def report_matches_def job_known_def split: list.splits if_splits option.splits)
  qed
  then show "list_all (report_matches cs) (opt_list (hp_current h'))"
    and "case result of ProbeStarted job \<Rightarrow> helper_ok h' (job # work) \<and> job_known cs job | _ \<Rightarrow> helper_ok h' work"
    by auto
qed

lemma run_end_ok:
  assumes "job_known cs job" "list_all (report_matches cs) (opt_list (hp_current h))"
  shows "list_all (report_matches cs) (opt_list (hp_current (runProbe_end job (probe_results test job) now h)))"
  using assms
  by (auto simp: runProbe_end_def Let_def report_matches_def job_known_def probe_results_targets split: option.splits)

lemma probe_inv_alt:
  "probe_inv w \<longleftrightarrow>
     distinct (map pj_id (pw_created w)) \<and> list_all (entry_ok (pw_created w)) (opt_list (pw_entry w))
     \<and> list_all (report_matches (pw_created w)) (pw_reports w) \<and> list_all (report_matches (pw_created w)) (opt_list (hp_current (pw_helper w)))
     \<and> list_all (job_known (pw_created w)) (map pv_job (pw_answers w)) \<and> list_all (job_known (pw_created w)) (pw_work w)
     \<and> helper_ok (pw_helper w) (pw_work w)"
  by (auto simp: probe_inv_def helper_ok_def)

lemma list_all_mono: "list_all P xs \<Longrightarrow> (\<And>x. P x \<Longrightarrow> Q x) \<Longrightarrow> list_all Q xs"
  by (auto simp: list_all_iff)

lemma start_ok:
  assumes "list_all (entry_ok cs) (opt_list e)" and "startFLVXProbe request share capable uuid now e = (result, e')"
  shows "case result of Inl _ \<Rightarrow> list_all (entry_ok cs) (opt_list e')
         | Inr _ \<Rightarrow> (\<exists>j u. e' = Some j \<and> uuid = Some u \<and> pj_id (fj_job j) = u \<and> fj_state j = ''queued'' \<and> fj_results j = [])"
proof -
  have old: "list_all (entry_ok cs) (opt_list (flvxProbeLocked now e))" by (rule locked_ok [OF assms(1)])
  show ?thesis
  proof (cases "flvxProbeLocked now e")
    case None
    then show ?thesis
      using assms by (auto simp: startFLVXProbe_def Let_def split: prod.splits if_splits option.splits)
  next
    case (Some j)
    then have "entry_ok cs j" using old by simp
    then show ?thesis
      using assms by (auto simp: startFLVXProbe_def Let_def Some split: prod.splits if_splits option.splits)
  qed
qed

lemma probe_inv_step:
  assumes "probe_inv w" "fresh_probe ev w"
  shows "probe_inv (probe_apply mac token server ev w)"
proof (cases ev)
  case (ProbeStart request share capable uuid now)
  obtain result e' where st: "startFLVXProbe request share capable uuid now (pw_entry w) = (result, e')" by fastforce
  have ok: "list_all (entry_ok (pw_created w)) (opt_list (pw_entry w))" using assms(1) by (simp add: probe_inv_alt)
  show ?thesis
  proof (cases result)
    case (Inl err)
    then show ?thesis using assms(1) start_ok [OF ok st] ProbeStart st by (simp add: probe_inv_alt)
  next
    case (Inr v)
    then obtain j where j: "e' = Some j" "uuid = Some (pj_id (fj_job j))" "fj_state j = ''queued''" "fj_results j = []"
      using start_ok [OF ok st] by auto
    then have "pj_id (fj_job j) \<notin> pj_id ` set (pw_created w)"
      using assms(2) ProbeStart by (simp add: fresh_probe_def)
    then show ?thesis
      using assms(1) ProbeStart st Inr j
      by (auto simp: probe_inv_alt entry_ok_def intro: list_all_mono [OF _ created_mono(1)] list_all_mono [OF _ created_mono(2)])
  qed
next
  case (ProbePoll probe_id now)
  then show ?thesis using assms(1) locked_ok [of "pw_created w" "pw_entry w" now] by (simp add: probe_inv_alt flvxProbeStatus_def Let_def)
next
  case ProbeSend
  then show ?thesis using assms(1) by (simp add: probe_inv_alt)
next
  case (ProbeServe capable i now)
  obtain answer e' where sv: "flvxProbeForHelper mac server token capable (nth_opt (pw_reports w) i) now (pw_entry w) = (answer, e')"
    by fastforce
  show ?thesis using assms(1) ProbeServe sv serve_ok [OF _ _ _ sv] by (simp add: probe_inv_alt)
next
  case (ProbeReceive i now)
  obtain result h' where sb: "submitProbe mac token server now (nth_opt (pw_answers w) i) (pw_helper w) = (result, h')" by fastforce
  show ?thesis
    using assms(1) ProbeReceive sb submit_ok [OF _ _ _ sb, of "pw_work w" "pw_created w"]
    by (cases result) (auto simp: probe_inv_alt)
next
  case (ProbeFinish k test now)
  show ?thesis
  proof (cases "k < length (pw_work w)")
    case True
    then obtain job where w: "pw_work w = [job]" "k = 0"
      using assms(1) by (cases "pw_work w") (auto simp: probe_inv_alt helper_ok_def)
    then have "job_known (pw_created w) job" using assms(1) by (simp add: probe_inv_alt)
    then show ?thesis
      using assms(1) ProbeFinish w run_end_ok [of "pw_created w" job "pw_helper w"]
      by (auto simp: probe_inv_alt helper_ok_def runProbe_end_def Let_def split: option.splits)
  qed (use assms(1) ProbeFinish in simp)
next
  case ProbeRestart
  then show ?thesis using assms(1) by (simp add: probe_inv_alt helper_ok_def)
qed

lemma probe_inv_reach: "probe_reach mac token server w \<Longrightarrow> probe_inv w"
proof (induction rule: probe_reach.induct)
  case probe_init
  then show ?case by (simp add: probe_inv_alt probe_world0_def helper_ok_def)
qed (rule probe_inv_step)

text \<open>
  C20: Whatever the network loses, delays or repeats and whenever the Helper restarts: the
  results of a finished probe that FLVX polls are the results of exactly the targets of its
  request, one for each and in the order of the request.
\<close>

theorem probe_results_match:
  assumes "probe_reach mac token server w"
    and "flvxProbeStatus probe_id now (pw_entry w) = (Inr v, e)" and "vw_state v = ''done''"
  shows "map ps_target (vw_results v) = vw_targets v"
proof -
  have "list_all (entry_ok (pw_created w)) (opt_list (flvxProbeLocked now (pw_entry w)))"
    using probe_inv_reach [OF assms(1)] by (intro locked_ok) (simp add: probe_inv_alt)
  then show ?thesis
    using assms(2,3)
    by (auto simp: flvxProbeStatus_def Let_def probe_job_view_def entry_ok_def split: option.splits if_splits)
qed

text \<open>
  C32: The Helper tests the targets of at most one probe at a time, and a test that ends always
  finds its own report: its results replace the report of that very job and are not lost.
\<close>

theorem one_probe_at_a_time:
  assumes "probe_reach mac token server w"
  shows "length (pw_work w) \<le> 1
    \<and> (\<forall>job \<in> set (pw_work w).
         \<exists>c. hp_current (runProbe_end job results now (pw_helper w)) = Some c
           \<and> po_id c = pj_id job \<and> po_state c = ''done'' \<and> po_results c = results)"
  using probe_inv_reach [OF assms]
  by (auto simp: probe_inv_alt helper_ok_def runProbe_end_def Let_def split: list.splits option.splits)

section \<open>A run\<close>

fun fresh_run :: "ProbeJob mac \<Rightarrow> string \<Rightarrow> string \<Rightarrow> probe_event list \<Rightarrow> probe_world \<Rightarrow> bool" where
  "fresh_run mac token server [] w \<longleftrightarrow> True"
| "fresh_run mac token server (ev # evs) w \<longleftrightarrow> fresh_probe ev w \<and> fresh_run mac token server evs (probe_apply mac token server ev w)"

definition probe_run :: "ProbeJob mac \<Rightarrow> string \<Rightarrow> string \<Rightarrow> probe_event list \<Rightarrow> probe_world" where
  "probe_run mac token server evs = foldl (\<lambda>w ev. probe_apply mac token server ev w) probe_world0 evs"

lemma reach_run:
  assumes "fresh_run mac token server evs probe_world0"
  shows "probe_reach mac token server (probe_run mac token server evs)"
proof -
  have "probe_reach mac token server w \<Longrightarrow> fresh_run mac token server evs w
      \<Longrightarrow> probe_reach mac token server (foldl (\<lambda>w ev. probe_apply mac token server ev w) w evs)" for w
    by (induction evs arbitrary: w) (auto intro: probe_step)
  then show ?thesis using assms probe_init unfolding probe_run_def by blast
qed

definition demo_mac :: "ProbeJob mac" where "demo_mac token j e = token @ pj_id j"

definition demo_test :: "nat \<Rightarrow> string \<Rightarrow> duration \<Rightarrow> ProbeResult option" where
  "demo_test i t d = (if i = 0 then Some ((deadline_result t)\<lparr>ps_feasible := True, ps_reason := []\<rparr>) else None)"

definition demo_events :: "probe_event list" where
  "demo_events =
     [ProbeStart \<lparr>pr_targets = [''www.a.com'', ''b.org:8443''], pr_timeout_ms = 0\<rparr> (Some ''active'') True (Some ''p1'') 1,
      ProbeServe True None 2, ProbeReceive (Some 0) 3]"

definition demo_finish :: "probe_event list" where
  "demo_finish = [ProbeFinish 0 demo_test 4, ProbeSend, ProbeServe True (Some 0) 5]"

lemma demo_fresh: "fresh_run demo_mac ''k'' ''7'' demo_events probe_world0"
  "fresh_run demo_mac ''k'' ''7'' (demo_events @ demo_finish) probe_world0"
  by (simp_all add: demo_events_def demo_finish_def fresh_probe_def probe_world0_def del: probe_apply.simps)

theorem probe_results_match_witness:
  "(case flvxProbeStatus ''p1'' 6 (pw_entry (probe_run demo_mac ''k'' ''7'' (demo_events @ demo_finish))) of
      (Inr v, _) \<Rightarrow> vw_state v = ''done'' \<and> map ps_target (vw_results v) = vw_targets v \<and> vw_targets v = [''www.a.com:443'', ''b.org:8443'']
    | _ \<Rightarrow> False)"
proof -
  obtain v e where v: "flvxProbeStatus ''p1'' 6 (pw_entry (probe_run demo_mac ''k'' ''7'' (demo_events @ demo_finish))) = (Inr v, e)"
      "vw_state v = ''done''" "vw_targets v = [''www.a.com:443'', ''b.org:8443'']"
  proof -
    have "(case flvxProbeStatus ''p1'' 6 (pw_entry (probe_run demo_mac ''k'' ''7'' (demo_events @ demo_finish))) of
        (Inr v, _) \<Rightarrow> vw_state v = ''done'' \<and> vw_targets v = [''www.a.com:443'', ''b.org:8443''] | _ \<Rightarrow> False)"
      by code_simp
    then show thesis using that by (auto split: prod.splits sum.splits)
  qed
  then show ?thesis using probe_results_match [OF reach_run [OF demo_fresh(2)] v(1,2)] by simp
qed

theorem one_probe_at_a_time_witness:
  "length (pw_work (probe_run demo_mac ''k'' ''7'' demo_events)) = 1
   \<and> hp_current (pw_helper (probe_run demo_mac ''k'' ''7'' demo_events)) \<noteq> None"
proof -
  have "pw_work (probe_run demo_mac ''k'' ''7'' demo_events) \<noteq> []"
    "hp_current (pw_helper (probe_run demo_mac ''k'' ''7'' demo_events)) \<noteq> None" by code_simp+
  then show ?thesis using one_probe_at_a_time [OF reach_run [OF demo_fresh(1)]]
    by (metis One_nat_def le_SucE le_zero_eq length_0_conv)
qed

end
