(* ===== verification/Guard_Helper.thy ===== *)
theory Guard_Helper
  imports Guard "HOL-Library.AList"
begin

text \<open>
  The Reality guard in the Helper, \<open>cmd/mmwxc-helper/flvx_guard.go\<close> with
  \<open>retargetGuards\<close> of \<open>flvx_reality_pin.go\<close>: which nodes share a guard, the
  loopback port of each group, the inbounds that are added before a node is
  pointed at them, and the configurations of the pass. A Go map is an association
  list, so a statement about all lists holds for every iteration order. The
  encoding of JSON (\<open>enc\<close>), the pinned destination of a node (\<open>pinned\<close>), the
  ports the kernel offers and the answers of the Core's API are arguments.
\<close>

section \<open>State\<close>

record guardPass =
  gp_by_tag :: "(string \<times> int) list"
  gp_rules :: "(int \<times> Guard) list"
  gp_pinned :: "(string \<times> Node) list"
  gp_retained :: "string list"
  gp_restart :: bool
  gp_rules_issue :: string
  gp_add_issue :: string
  gp_retry_at :: time
  gp_avoid :: "int list"

text \<open>The fields of the persisted state that the guard reads or writes, and the pass.\<close>

record guard_manager =
  gm_payload :: Payload
  gm_api_port :: int
  gm_traffic_used :: int
  gm_guards :: "(int \<times> Guard) list"
  gm_applied :: "(string \<times> string) list"
  gm_rule_ports :: "int list"
  gm_pass :: guardPass

definition flvxGuardRetry :: duration where "flvxGuardRetry = minute"

definition lookup_str :: "(string \<times> string) list \<Rightarrow> string \<Rightarrow> string" where
  "lookup_str m k = (case map_of m k of None \<Rightarrow> [] | Some v \<Rightarrow> v)"

definition node_tag :: "string \<Rightarrow> bool" where
  "node_tag t \<longleftrightarrow> has_prefix t ''flvxl-''"

definition liveGuardPorts :: "(string \<times> string) list \<Rightarrow> int list" where
  "liveGuardPorts applied =
     map (\<lambda>(t, c). GuardPortOf c) (filter (\<lambda>(t, c). node_tag t \<and> GuardPortOf c > 0) applied)"

section \<open>Moving a group in place\<close>

definition applied_port :: "guard_manager \<Rightarrow> string \<Rightarrow> int" where
  "applied_port m tag = GuardPortOf (lookup_str (gm_applied m) tag)"

text \<open>The candidate points at a known guard with the same server names.\<close>

definition stays_in_group :: "guard_manager \<Rightarrow> string \<times> Guard \<Rightarrow> bool" where
  "stays_in_group m c \<longleftrightarrow> applied_port m (fst c) > 0
     \<and> (case map_of (gm_guards m) (applied_port m (fst c)) of
          None \<Rightarrow> False
        | Some old \<Rightarrow> go_join '','' (gd_names old) = go_join '','' (gd_names (snd c)))"

definition moved_keys :: "guard_manager \<Rightarrow> (string \<times> Guard) list \<Rightarrow> int \<Rightarrow> string list" where
  "moved_keys m cands port =
     dedup (map (\<lambda>c. Guard_Key (snd c)) (filter (\<lambda>c. stays_in_group m c \<and> applied_port m (fst c) = port) cands))"

definition others_on_port :: "guard_manager \<Rightarrow> (string \<times> Guard) list \<Rightarrow> int \<Rightarrow> bool" where
  "others_on_port m cands port =
     list_ex (\<lambda>(t, c). node_tag t \<and> GuardPortOf c = port \<and> t \<notin> fst ` set cands) (gm_applied m)"

definition retarget_port :: "(string \<times> Guard) list \<Rightarrow> guard_manager \<Rightarrow> int \<Rightarrow> guard_manager" where
  "retarget_port cands m port =
     (if others_on_port m cands port \<or> length (moved_keys m cands port) \<noteq> 1 then m
      else case find (\<lambda>c. applied_port m (fst c) = port
                        \<and> Guard_Key (the (map_of (gm_guards m) port)) \<noteq> Guard_Key (snd c)) cands of
             None \<Rightarrow> m
           | Some c \<Rightarrow> m\<lparr>gm_guards := AList.update port (snd c) (gm_guards m)\<rparr>)"

definition retargetGuards :: "(string \<times> Guard) list \<Rightarrow> guard_manager \<Rightarrow> guard_manager" where
  "retargetGuards cands m =
     foldl (retarget_port cands) m (dedup (map (\<lambda>c. applied_port m (fst c)) (filter (stays_in_group m) cands)))"

section \<open>The plan of a pass\<close>

definition guard_conflict :: "guard_manager \<Rightarrow> int list \<Rightarrow> int \<Rightarrow> bool" where
  "guard_conflict m official port \<longleftrightarrow>
     (let p = gm_payload m; cfg = pl_config p in
      port < 1024 \<or> port > 65535
      \<or> port = gm_api_port m \<or> port \<in> set official \<or> port \<in> set (pl_official_ports p)
      \<or> port \<in> set (map nd_port (ds_node_list (pl_desired p)))
      \<or> port \<ge> cf_port_min cfg \<and> port \<le> cf_port_max cfg)"

definition node_group :: "(Node \<Rightarrow> Node option) \<Rightarrow> time \<Rightarrow> guard_manager \<Rightarrow> Node \<Rightarrow> (string \<times> Guard) option" where
  "node_group pinned now m n =
     (let p = gm_payload m in
      if nd_protocol n \<noteq> ''vless_reality_vision'' \<or> nd_vless n = None
         \<or> \<not> Active (pl_status p) (pl_config p) (gm_traffic_used m) n now then None
      else case pinned n of
             None \<Rightarrow> None
           | Some node \<Rightarrow>
               (case nd_vless node of
                  None \<Rightarrow> None
                | Some v \<Rightarrow> Some (Node_Tag n, \<lparr> gd_dest = rl_dest (vl_reality v),
                                              gd_names = GuardNames (rl_server_names (vl_reality v)) \<rparr>)))"

definition wanted_groups :: "(Node \<Rightarrow> Node option) \<Rightarrow> time \<Rightarrow> guard_manager \<Rightarrow> (string \<times> Guard) list" where
  "wanted_groups pinned now m = List.map_filter (node_group pinned now m) (ds_node_list (pl_desired (gm_payload m)))"

text \<open>The port of a group: one in use wins, then the smaller one.\<close>

definition note_key :: "(int \<Rightarrow> bool) \<Rightarrow> (int \<Rightarrow> bool) \<Rightarrow> (string \<times> int) list \<Rightarrow> int \<times> Guard \<Rightarrow> (string \<times> int) list" where
  "note_key conflict live byKey pg =
     (let (port, guard) = pg; key = Guard_Key guard in
      if conflict port then byKey
      else case map_of byKey key of
             None \<Rightarrow> AList.update key port byKey
           | Some other \<Rightarrow>
               if live port \<and> \<not> live other \<or> live port = live other \<and> port < other
               then AList.update key port byKey else byKey)"

text \<open>At most 16 offers of the kernel (\<open>None\<close> is an error of \<open>pickPort\<close>).\<close>

fun alloc_loop :: "nat \<Rightarrow> (int \<Rightarrow> bool) \<Rightarrow> int option list \<Rightarrow> int option \<times> int option list" where
  "alloc_loop 0 bad offers = (None, offers)"
| "alloc_loop (Suc n) bad offers =
     (case offers of
        [] \<Rightarrow> (None, [])
      | None # rest \<Rightarrow> (None, rest)
      | Some port # rest \<Rightarrow> if bad port then alloc_loop n bad rest else (Some port, rest))"

definition allocateGuardPort ::
  "guard_manager \<Rightarrow> (int \<Rightarrow> bool) \<Rightarrow> int option list \<Rightarrow> int option \<times> int option list" where
  "allocateGuardPort m conflict offers =
     alloc_loop 16 (\<lambda>port. conflict port \<or> map_of (gm_guards m) port \<noteq> None \<or> port \<in> set (gm_rule_ports m)
                          \<or> port \<in> set (gp_avoid (gm_pass m)) \<or> lookup_str (gm_applied m) (GuardTag port) \<noteq> [])
       offers"

record plan_state =
  ps_m :: guard_manager
  ps_by_key :: "(string \<times> int) list"
  ps_offers :: "int option list"

definition assign_port :: "string \<Rightarrow> Guard \<Rightarrow> int \<Rightarrow> guard_manager \<Rightarrow> guard_manager" where
  "assign_port tag guard port m =
     m\<lparr>gm_pass := (gm_pass m)\<lparr>gp_by_tag := AList.update tag port (gp_by_tag (gm_pass m)),
                              gp_rules := AList.update port guard (gp_rules (gm_pass m))\<rparr>\<rparr>"

definition plan_candidate :: "(int \<Rightarrow> bool) \<Rightarrow> plan_state \<Rightarrow> string \<times> Guard \<Rightarrow> plan_state" where
  "plan_candidate conflict s c =
     (let (tag, guard) = c; m = ps_m s; port = applied_port m tag in
      if port \<noteq> 0 \<and> \<not> conflict port
         \<and> (case map_of (gm_guards m) port of None \<Rightarrow> False | Some cur \<Rightarrow> Guard_Key cur = Guard_Key guard)
      then s\<lparr>ps_m := assign_port tag guard port m\<rparr>
      else case map_of (ps_by_key s) (Guard_Key guard) of
             Some port \<Rightarrow> s\<lparr>ps_m := assign_port tag guard port m\<rparr>
           | None \<Rightarrow>
               (case allocateGuardPort m conflict (ps_offers s) of
                  (None, rest) \<Rightarrow>
                    s\<lparr>ps_m := m\<lparr>gm_pass := (gm_pass m)\<lparr>gp_add_issue := ''no loopback port''\<rparr>\<rparr>, ps_offers := rest\<rparr>
                | (Some port, rest) \<Rightarrow>
                    \<lparr> ps_m = assign_port tag guard port (m\<lparr>gm_guards := AList.update port guard (gm_guards m)\<rparr>),
                      ps_by_key = AList.update (Guard_Key guard) port (ps_by_key s), ps_offers = rest \<rparr>))"

definition clear_issue :: "guard_manager \<Rightarrow> guard_manager" where
  "clear_issue m = m\<lparr>gm_pass := (gm_pass m)\<lparr>gp_add_issue := [], gp_retry_at := 0\<rparr>\<rparr>"

text \<open>The groups that applied nodes still point at keep their rules; other ports are freed.\<close>

definition keep_live_rules :: "guard_manager \<Rightarrow> guard_manager" where
  "keep_live_rules m =
     (let rules = foldl (\<lambda>r port. case map_of (gm_guards m) port of None \<Rightarrow> r | Some g \<Rightarrow> AList.update port g r)
                    (gp_rules (gm_pass m)) (liveGuardPorts (gm_applied m))
      in m\<lparr>gm_guards := filter (\<lambda>(port, g). map_of rules port \<noteq> None) (gm_guards m),
           gm_pass := (gm_pass m)\<lparr>gp_rules := rules\<rparr>\<rparr>)"

text \<open>\<open>iter\<close> is the order in which the map of the groups is iterated.\<close>

definition planGuards ::
  "((string \<times> Guard) list \<Rightarrow> (string \<times> Guard) list) \<Rightarrow> (Node \<Rightarrow> Node option) \<Rightarrow> time \<Rightarrow> int list \<Rightarrow> bool
   \<Rightarrow> int option list \<Rightarrow> guard_manager \<Rightarrow> guard_manager" where
  "planGuards iter pinned now official officialErr offers m0 =
     (let m = m0\<lparr>gm_pass := (gm_pass m0)\<lparr>gp_by_tag := [], gp_rules := [], gp_restart := False, gp_rules_issue := []\<rparr>\<rparr>;
          asked = pl_status (gm_payload m) = ''active'' \<and> GuardOn (pl_desired (gm_payload m))
      in if \<not> asked \<and> gm_guards m = [] then clear_issue m
         else let conflict = guard_conflict m official;
                  wanted = (if asked \<and> \<not> officialErr then wanted_groups pinned now m else []);
                  m1 = (if asked \<and> \<not> officialErr then retargetGuards (iter wanted) m else m);
                  live = (\<lambda>port. port \<in> set (liveGuardPorts (gm_applied m1)));
                  byKey = foldl (note_key conflict live) [] (gm_guards m1);
                  m2 = ps_m (foldl (plan_candidate conflict) \<lparr> ps_m = m1, ps_by_key = byKey, ps_offers = offers \<rparr> wanted);
                  m3 = keep_live_rules m2
              in if gp_by_tag (gm_pass m3) = [] then clear_issue m3 else m3)"

section \<open>Inbounds and configurations\<close>

definition guardConfig :: "(json \<Rightarrow> string) \<Rightarrow> guard_manager \<Rightarrow> int \<Rightarrow> string" where
  "guardConfig enc m port =
     (case map_of (gm_guards m) port of None \<Rightarrow> [] | Some g \<Rightarrow> enc (Guard_Inbound g port))"

definition need_port :: "(json \<Rightarrow> string) \<Rightarrow> time \<Rightarrow> guard_manager \<Rightarrow> string \<times> string \<Rightarrow> int option" where
  "need_port enc now m tc =
     (let (tag, config) = tc in
      if tag \<in> set (gp_retained (gm_pass m)) then
        (if GuardPortOf config > 0 then Some (GuardPortOf config) else None)
      else case map_of (gp_by_tag (gm_pass m)) tag of
             None \<Rightarrow> None
           | Some port \<Rightarrow>
               if port \<notin> set (gm_rule_ports m) \<or> guardConfig enc m port = [] then None
               else if lookup_str (gm_applied m) (GuardTag port) = [] \<and> now < gp_retry_at (gm_pass m) then None
               else Some port)"

definition guardNeed :: "(json \<Rightarrow> string) \<Rightarrow> time \<Rightarrow> guard_manager \<Rightarrow> (string \<times> string) list \<Rightarrow> int list" where
  "guardNeed enc now m wanted = dedup (List.map_filter (need_port enc now m) wanted)"

definition final_config ::
  "(json \<Rightarrow> string) \<Rightarrow> guard_manager \<Rightarrow> int list \<Rightarrow> string \<times> string \<Rightarrow> (string \<times> string) option" where
  "final_config enc m up tc =
     (let (tag, config) = tc; pass = gm_pass m in
      if tag \<in> set (gp_retained pass) then
        (if GuardPortOf config > 0 \<and> GuardPortOf config \<notin> set up then None else Some (tag, config))
      else case map_of (gp_by_tag pass) tag of
             None \<Rightarrow> Some (tag, config)
           | Some port \<Rightarrow>
               (case (port \<in> set up, map_of (gp_pinned pass) tag) of
                  (True, Some node) \<Rightarrow> Some (tag, enc (WithGuardDest (Inbound node) port))
                | _ \<Rightarrow> Some (tag, config)))"

text \<open>The configurations of the pass, and the tags whose configuration is withheld.\<close>

definition guardFinal ::
  "(json \<Rightarrow> string) \<Rightarrow> guard_manager \<Rightarrow> int list \<Rightarrow> (string \<times> string) list
   \<Rightarrow> (string \<times> string) list \<times> string list" where
  "guardFinal enc m up wanted =
     (map (\<lambda>port. (GuardTag port, guardConfig enc m port)) up @ List.map_filter (final_config enc m up) wanted,
      map fst (filter (\<lambda>tc. final_config enc m up tc = None) wanted))"

definition guardsUp :: "(json \<Rightarrow> string) \<Rightarrow> guard_manager \<Rightarrow> int list \<Rightarrow> int list \<times> bool" where
  "guardsUp enc m need =
     (let known = filter (\<lambda>p. guardConfig enc m p \<noteq> []) need;
          up = filter (\<lambda>p. map_of (gm_applied m) (GuardTag p) = Some (guardConfig enc m p)) known
      in (up, length up \<noteq> length known))"

section \<open>Adding and removing guard inbounds\<close>

record guard_api =
  api_rmi :: "string \<Rightarrow> bool"
  api_adi :: "int \<Rightarrow> bool"
  api_persist :: "int \<Rightarrow> bool"

definition guardFailed :: "time \<Rightarrow> int \<Rightarrow> guard_manager \<Rightarrow> guard_manager" where
  "guardFailed now port m =
     (let m = m\<lparr>gm_pass := (gm_pass m)\<lparr>gp_add_issue := ''inbound failed'', gp_retry_at := now + flvxGuardRetry,
                 gp_avoid := port # gp_avoid (gm_pass m)\<rparr>\<rparr>
      in if port \<in> set (liveGuardPorts (gm_applied m)) then m
         else m\<lparr>gm_guards := AList.delete port (gm_guards m)\<rparr>)"

record add_state =
  as_m :: guard_manager
  as_present :: "string list"
  as_up :: "int list"
  as_attempted :: bool
  as_failed :: bool
  as_err :: bool

definition add_guard :: "(json \<Rightarrow> string) \<Rightarrow> guard_api \<Rightarrow> time \<Rightarrow> add_state \<Rightarrow> int \<Rightarrow> add_state" where
  "add_guard enc api now s port =
     (if as_err s then s
      else let m = as_m s; tag = GuardTag port; config = guardConfig enc m port in
        if config = [] then s
        else if tag \<in> set (as_present s) \<and> map_of (gm_applied m) tag = Some config then s\<lparr>as_up := port # as_up s\<rparr>
        else if tag \<in> set (as_present s) \<and> \<not> api_rmi api tag
          then s\<lparr>as_m := guardFailed now port m, as_attempted := True, as_failed := True\<rparr>
        else let present = removeAll tag (as_present s);
                 m = (if tag \<in> set (as_present s) then m\<lparr>gm_applied := AList.delete tag (gm_applied m)\<rparr> else m)
             in if \<not> api_adi api port
                then s\<lparr>as_m := guardFailed now port m, as_present := present, as_attempted := True, as_failed := True\<rparr>
                else s\<lparr>as_m := m\<lparr>gm_applied := AList.update tag config (gm_applied m)\<rparr>,
                       as_present := tag # present, as_up := port # as_up s, as_attempted := True,
                       as_err := \<not> api_persist api port\<rparr>)"

definition addGuards ::
  "(json \<Rightarrow> string) \<Rightarrow> guard_api \<Rightarrow> time \<Rightarrow> int list \<Rightarrow> string list \<Rightarrow> guard_manager \<Rightarrow> add_state" where
  "addGuards enc api now need present m =
     (let s = foldl (add_guard enc api now)
                \<lparr> as_m = m, as_present = present, as_up = [], as_attempted = False, as_failed = False, as_err = False \<rparr>
                (sorted_unique need)
      in if \<not> as_err s \<and> as_attempted s \<and> \<not> as_failed s
         then s\<lparr>as_m := (as_m s)\<lparr>gm_pass := (gm_pass (as_m s))\<lparr>gp_add_issue := []\<rparr>\<rparr>\<rparr> else s)"

text \<open>The state, the inbounds left in the Core and whether the state was persisted.\<close>

definition removeGuards ::
  "guard_api \<Rightarrow> string list \<Rightarrow> (string \<times> string) list \<Rightarrow> guard_manager \<Rightarrow> guard_manager \<times> string list \<times> bool" where
  "removeGuards api present final m =
     (let unused = (\<lambda>t. has_prefix t GuardTagPrefix \<and> lookup_str final t = []);
          gone = filter (\<lambda>t. unused t \<and> api_rmi api t) present;
          present' = filter (\<lambda>t. t \<notin> set gone) present;
          applied = filter (\<lambda>(t, c). t \<notin> set gone \<and> (unused t \<longrightarrow> t \<in> set present')) (gm_applied m)
      in (m\<lparr>gm_applied := applied\<rparr>, present', gone \<noteq> [] \<or> length applied \<noteq> length (gm_applied m)))"

definition guarded_nodes :: "(string \<times> string) list \<Rightarrow> nat" where
  "guarded_nodes applied =
     length (filter (\<lambda>(t, c). node_tag t \<and> GuardPortOf c > 0 \<and> lookup_str applied (GuardTag (GuardPortOf c)) \<noteq> []) applied)"

definition guardStatus :: "guard_manager \<Rightarrow> RealityGuardStatus option" where
  "guardStatus m =
     (let p = gm_payload m; pass = gm_pass m; nodes = guarded_nodes (gm_applied m);
          issue = (if gp_rules_issue pass = [] then gp_add_issue pass else gp_rules_issue pass)
      in if nodes = 0 \<and> (pl_status p \<noteq> ''active'' \<or> \<not> GuardOn (pl_desired p) \<or> gp_by_tag pass = []) then None
         else let (st, msg) = (if nodes = 0 \<and> gp_restart pass then (''restart_required'', ''restart the core'')
                               else if nodes = 0 \<and> issue \<noteq> [] then (''error'', issue)
                               else (''on'', issue))
              in Some \<lparr> rg_state = st, rg_nodes = int nodes, rg_error = take_runes 200 msg \<rparr>)"

section \<open>Every planned port is free and belongs to the group\<close>

definition key_of :: "(int \<times> Guard) list \<Rightarrow> int \<Rightarrow> string option" where
  "key_of guards port = map_option Guard_Key (map_of guards port)"

lemma key_of_update [simp]:
  "key_of (AList.update p g gs) port = (if port = p then Some (Guard_Key g) else key_of gs port)"
  by (simp add: key_of_def update_conv)

definition keys_ok :: "(int \<Rightarrow> bool) \<Rightarrow> (int \<Rightarrow> string option) \<Rightarrow> (string \<times> int) list \<Rightarrow> bool" where
  "keys_ok conflict keys byKey \<longleftrightarrow> (\<forall>k p. map_of byKey k = Some p \<longrightarrow> \<not> conflict p \<and> keys p = Some k)"

lemma note_key_ok:
  "keys_ok conflict keys byKey \<Longrightarrow> keys port = Some (Guard_Key g) \<Longrightarrow>
   keys_ok conflict keys (note_key conflict live byKey (port, g))"
  by (auto simp: keys_ok_def note_key_def Let_def update_conv split: option.split)

lemma note_keys_ok:
  "keys_ok conflict keys byKey \<Longrightarrow> (\<forall>(p, g) \<in> set gs. keys p = Some (Guard_Key g)) \<Longrightarrow>
   keys_ok conflict keys (foldl (note_key conflict live) byKey gs)"
  by (induction gs arbitrary: byKey) (auto simp: note_key_ok)

text \<open>The invariant of the loop over the candidates.\<close>

definition plan_ok :: "(int \<Rightarrow> bool) \<Rightarrow> (string \<times> Guard) list \<Rightarrow> plan_state \<Rightarrow> bool" where
  "plan_ok conflict wanted s \<longleftrightarrow>
     (let m = ps_m s; keys = key_of (gm_guards m) in
      keys_ok conflict keys (ps_by_key s)
      \<and> (\<forall>tag p. map_of (gp_by_tag (gm_pass m)) tag = Some p \<longrightarrow>
           \<not> conflict p \<and> (\<exists>g. (tag, g) \<in> set wanted \<and> keys p = Some (Guard_Key g))
           \<and> key_of (gp_rules (gm_pass m)) p \<noteq> None)
      \<and> (\<forall>p k. key_of (gp_rules (gm_pass m)) p = Some k \<longrightarrow> keys p = Some k))"

lemma assign_port_ok:
  assumes "plan_ok conflict wanted s" and "(tag, guard) \<in> set wanted" and "\<not> conflict port"
    and "key_of (gm_guards (ps_m s)) port = Some (Guard_Key guard)"
  shows "plan_ok conflict wanted (s\<lparr>ps_m := assign_port tag guard port (ps_m s)\<rparr>)"
  using assms by (auto simp: plan_ok_def assign_port_def Let_def update_conv)

lemma alloc_loop_free: "alloc_loop n bad offers = (Some port, rest) \<Longrightarrow> \<not> bad port"
  by (induction n bad offers rule: alloc_loop.induct) (auto split: list.splits option.splits if_splits)

lemma fresh_guard_ok:
  assumes "plan_ok conflict wanted s" and "map_of (gm_guards (ps_m s)) port = None" and "\<not> conflict port"
    and "map_of (ps_by_key s) (Guard_Key guard) = None"
  shows "plan_ok conflict wanted
    \<lparr> ps_m = (ps_m s)\<lparr>gm_guards := AList.update port guard (gm_guards (ps_m s))\<rparr>,
      ps_by_key = AList.update (Guard_Key guard) port (ps_by_key s), ps_offers = rest \<rparr>"
proof -
  have none: "key_of (gm_guards (ps_m s)) port = None" using assms(2) by (simp add: key_of_def)
  then show ?thesis
    using assms(1,3) unfolding plan_ok_def keys_ok_def Let_def
    by (auto simp: update_conv) (metis option.distinct(1))+
qed

lemma plan_candidate_ok:
  assumes "plan_ok conflict wanted s" and "c \<in> set wanted"
  shows "plan_ok conflict wanted (plan_candidate conflict s c)"
proof -
  obtain tag guard where c: "c = (tag, guard)" by force
  let ?m = "ps_m s" and ?port = "applied_port (ps_m s) tag"
  have key: "\<not> conflict p \<and> key_of (gm_guards ?m) p = Some (Guard_Key guard)"
    if "map_of (ps_by_key s) (Guard_Key guard) = Some p" for p
    using assms(1) that by (auto simp: plan_ok_def keys_ok_def Let_def)
  show ?thesis
  proof (cases "?port \<noteq> 0 \<and> \<not> conflict ?port \<and>
      (case map_of (gm_guards ?m) ?port of None \<Rightarrow> False | Some cur \<Rightarrow> Guard_Key cur = Guard_Key guard)")
    case True
    then show ?thesis
      using assign_port_ok [OF assms(1), of tag guard ?port] assms(2)
      by (auto simp: c plan_candidate_def Let_def key_of_def split: option.splits)
  next
    case stay: False
    then have step: "plan_candidate conflict s (tag, guard) =
        (case map_of (ps_by_key s) (Guard_Key guard) of
           Some port \<Rightarrow> s\<lparr>ps_m := assign_port tag guard port ?m\<rparr>
         | None \<Rightarrow>
             (case allocateGuardPort ?m conflict (ps_offers s) of
                (None, rest) \<Rightarrow> s\<lparr>ps_m := ?m\<lparr>gm_pass := (gm_pass ?m)\<lparr>gp_add_issue := ''no loopback port''\<rparr>\<rparr>, ps_offers := rest\<rparr>
              | (Some port, rest) \<Rightarrow>
                  \<lparr> ps_m = assign_port tag guard port (?m\<lparr>gm_guards := AList.update port guard (gm_guards ?m)\<rparr>),
                    ps_by_key = AList.update (Guard_Key guard) port (ps_by_key s), ps_offers = rest \<rparr>))"
      by (simp only: plan_candidate_def Let_def prod.case if_False)
    obtain op rest where alloc: "allocateGuardPort ?m conflict (ps_offers s) = (op, rest)" by force
    consider (known) p where "map_of (ps_by_key s) (Guard_Key guard) = Some p"
      | (error) "map_of (ps_by_key s) (Guard_Key guard) = None" "op = None"
      | (fresh) p where "map_of (ps_by_key s) (Guard_Key guard) = None" "op = Some p"
      by (cases "map_of (ps_by_key s) (Guard_Key guard)"; cases op) auto
    then show ?thesis
    proof cases
      case known
      then show ?thesis
        using assign_port_ok [OF assms(1), of tag guard p] key assms(2) by (simp add: step c)
    next
      case error
      then show ?thesis using assms(1) alloc by (simp add: step c plan_ok_def Let_def)
    next
      case fresh
      then have free: "\<not> conflict p" "map_of (gm_guards ?m) p = None"
        using alloc alloc_loop_free unfolding allocateGuardPort_def by blast+
      from fresh_guard_ok [OF assms(1) free(2,1) fresh(1), of rest] show ?thesis
        using assign_port_ok [where port = p and tag = tag and guard = guard] assms(2) free fresh alloc
        by (fastforce simp: step c)
    qed
  qed
qed

lemma plan_candidates_ok:
  "plan_ok conflict wanted s \<Longrightarrow> set cs \<subseteq> set wanted \<Longrightarrow> plan_ok conflict wanted (foldl (plan_candidate conflict) s cs)"
  by (induction cs arbitrary: s) (auto simp: plan_candidate_ok)


lemma retarget_port_keys: "distinct (map fst (gm_guards m)) \<Longrightarrow> distinct (map fst (gm_guards (retarget_port cands m p)))"
  by (simp add: retarget_port_def distinct_update split: option.split)

lemma retargetGuards_distinct:
  "distinct (map fst (gm_guards m)) \<Longrightarrow> distinct (map fst (gm_guards (retargetGuards cands m)))"
proof -
  have "distinct (map fst (gm_guards m)) \<Longrightarrow> distinct (map fst (gm_guards (foldl (retarget_port cands) m ps)))" for ps
    by (induction ps arbitrary: m) (simp_all add: retarget_port_keys)
  then show "distinct (map fst (gm_guards m)) \<Longrightarrow> ?thesis" by (simp add: retargetGuards_def)
qed

lemma retarget_port_frame:
  "gm_payload (retarget_port cands m p) = gm_payload m \<and> gm_api_port (retarget_port cands m p) = gm_api_port m
   \<and> gm_traffic_used (retarget_port cands m p) = gm_traffic_used m \<and> gm_applied (retarget_port cands m p) = gm_applied m
   \<and> gm_rule_ports (retarget_port cands m p) = gm_rule_ports m \<and> gm_pass (retarget_port cands m p) = gm_pass m"
  by (simp add: retarget_port_def split: option.split)

lemma retargetGuards_frame:
  "gm_payload (retargetGuards cands m) = gm_payload m \<and> gm_pass (retargetGuards cands m) = gm_pass m
   \<and> gm_applied (retargetGuards cands m) = gm_applied m"
proof -
  have "gm_payload (foldl (retarget_port cands) m ps) = gm_payload m \<and> gm_pass (foldl (retarget_port cands) m ps) = gm_pass m
      \<and> gm_applied (foldl (retarget_port cands) m ps) = gm_applied m" for ps
    by (induction ps arbitrary: m) (simp_all add: retarget_port_frame)
  then show ?thesis by (simp add: retargetGuards_def)
qed

lemma keep_live_rules_ok:
  assumes "plan_ok conflict wanted s"
  defines "m \<equiv> keep_live_rules (ps_m s)"
  shows "map_of (gp_by_tag (gm_pass m)) tag = Some p \<Longrightarrow>
    \<not> conflict p \<and> (\<exists>g. (tag, g) \<in> set wanted \<and> key_of (gm_guards m) p = Some (Guard_Key g)
      \<and> key_of (gp_rules (gm_pass m)) p = Some (Guard_Key g))"
proof -
  let ?m = "ps_m s"
  define add where "add = (\<lambda>r port. case map_of (gm_guards ?m) port of None \<Rightarrow> r | Some g \<Rightarrow> AList.update port g r)"
  have rules: "gp_rules (gm_pass m) = foldl add (gp_rules (gm_pass ?m)) (liveGuardPorts (gm_applied ?m))"
    and by_tag: "gp_by_tag (gm_pass m) = gp_by_tag (gm_pass ?m)"
    and guards: "gm_guards m = filter (\<lambda>(port, g). map_of (gp_rules (gm_pass m)) port \<noteq> None) (gm_guards ?m)"
    by (simp_all add: m_def keep_live_rules_def add_def Let_def)
  have step: "(\<forall>p k. key_of r p = Some k \<longrightarrow> key_of (gm_guards ?m) p = Some k) \<Longrightarrow>
      (\<forall>p k. key_of (foldl add r ps) p = Some k \<longrightarrow> key_of (gm_guards ?m) p = Some k)
      \<and> (\<forall>p. key_of r p \<noteq> None \<longrightarrow> key_of (foldl add r ps) p \<noteq> None)" for r ps
  proof (induction ps arbitrary: r)
    case (Cons x ps)
    have "\<forall>p k. key_of (add r x) p = Some k \<longrightarrow> key_of (gm_guards ?m) p = Some k"
      using Cons.prems by (auto simp: add_def key_of_def update_conv split: option.split)
    from Cons.IH [OF this] show ?case by (auto simp: add_def key_of_def update_conv split: option.splits)
  qed simp
  have keys: "\<forall>p k. key_of (gp_rules (gm_pass ?m)) p = Some k \<longrightarrow> key_of (gm_guards ?m) p = Some k"
    using assms(1) by (simp add: plan_ok_def Let_def)
  note step = step [OF keys, of "liveGuardPorts (gm_applied ?m)", folded rules]
  have filter: "map_of (filter (\<lambda>(port, g). P port) gs) p = (if P p then map_of gs p else None)"
    for P and gs :: "(int \<times> Guard) list" and p by (induction gs) auto
  assume "map_of (gp_by_tag (gm_pass m)) tag = Some p"
  then have p: "\<not> conflict p" "key_of (gp_rules (gm_pass ?m)) p \<noteq> None"
      "\<exists>g. (tag, g) \<in> set wanted \<and> key_of (gm_guards ?m) p = Some (Guard_Key g)"
    using assms(1) by (auto simp: by_tag plan_ok_def Let_def)
  then obtain k where k: "key_of (gp_rules (gm_pass m)) p = Some k" "key_of (gm_guards ?m) p = Some k"
    using step by fastforce
  then have "key_of (gm_guards m) p = Some k"
    by (auto simp: guards key_of_def filter)
  then show ?thesis using p k by force
qed

text \<open>
  Every port that the plan of a pass gives to a node is usable (from 1024 to
  65535, not the API port, no official or node port, outside the share's range),
  and both the guard and the rules rendered for it are those of the node's own
  group: its pinned destination and its server names. This holds for every
  iteration order, whatever ports the kernel offers and however full the port
  table is.
\<close>

theorem plan_guards_ports:
  assumes "distinct (map fst (gm_guards m))"
    and "map_of (gp_by_tag (gm_pass (planGuards iter pinned now official officialErr offers m))) tag = Some p"
  shows "\<not> guard_conflict m official p
    \<and> (\<exists>g. (tag, g) \<in> set (wanted_groups pinned now m)
         \<and> map_option Guard_Key (map_of (gm_guards (planGuards iter pinned now official officialErr offers m)) p)
             = Some (Guard_Key g)
         \<and> map_option Guard_Key (map_of (gp_rules (gm_pass (planGuards iter pinned now official officialErr offers m))) p)
             = Some (Guard_Key g))"
proof -
  define m1 where "m1 = m\<lparr>gm_pass := (gm_pass m)\<lparr>gp_by_tag := [], gp_rules := [], gp_restart := False, gp_rules_issue := []\<rparr>\<rparr>"
  define asked where "asked = (pl_status (gm_payload m1) = ''active'' \<and> GuardOn (pl_desired (gm_payload m1)))"
  define conflict where "conflict = guard_conflict m1 official"
  define wanted where "wanted = (if asked \<and> \<not> officialErr then wanted_groups pinned now m1 else [])"
  define m2 where "m2 = (if asked \<and> \<not> officialErr then retargetGuards (iter wanted) m1 else m1)"
  define live where "live = (\<lambda>port. port \<in> set (liveGuardPorts (gm_applied m2)))"
  define s where "s = foldl (plan_candidate conflict)
    \<lparr> ps_m = m2, ps_by_key = foldl (note_key conflict live) [] (gm_guards m2), ps_offers = offers \<rparr> wanted"
  define m3 where "m3 = keep_live_rules (ps_m s)"
  have plan: "planGuards iter pinned now official officialErr offers m =
      (if \<not> asked \<and> gm_guards m1 = [] then clear_issue m1
       else if gp_by_tag (gm_pass m3) = [] then clear_issue m3 else m3)"
    unfolding planGuards_def Let_def m3_def s_def live_def m2_def wanted_def conflict_def asked_def m1_def ..
  have clear: "gp_by_tag (gm_pass (clear_issue x)) = gp_by_tag (gm_pass x)" for x by (simp add: clear_issue_def)
  have m3: "planGuards iter pinned now official officialErr offers m = m3"
    using assms(2) plan clear by (auto simp: m1_def split: if_splits)
  have m2: "distinct (map fst (gm_guards m2))" "gp_by_tag (gm_pass m2) = []" "gp_rules (gm_pass m2) = []"
    using assms(1) retargetGuards_distinct [of m1] retargetGuards_frame [of "iter wanted" m1]
    by (simp_all add: m2_def m1_def)
  have "\<forall>(p, g) \<in> set (gm_guards m2). key_of (gm_guards m2) p = Some (Guard_Key g)"
    using m2(1) by (auto simp: key_of_def)
  then have "plan_ok conflict wanted
      \<lparr> ps_m = m2, ps_by_key = foldl (note_key conflict live) [] (gm_guards m2), ps_offers = offers \<rparr>"
    using note_keys_ok [of conflict "key_of (gm_guards m2)" "[]" "gm_guards m2" live] m2(2,3)
    by (simp add: plan_ok_def keys_ok_def key_of_def)
  then have "plan_ok conflict wanted s" unfolding s_def by (rule plan_candidates_ok) simp
  from keep_live_rules_ok [OF this, of tag p, folded m3_def] assms(2)
  have "\<not> conflict p \<and> (\<exists>g. (tag, g) \<in> set wanted \<and> key_of (gm_guards m3) p = Some (Guard_Key g)
      \<and> key_of (gp_rules (gm_pass m3)) p = Some (Guard_Key g))" by (simp add: m3)
  moreover have "conflict = guard_conflict m official" by (simp add: conflict_def m1_def guard_conflict_def fun_eq_iff)
  moreover have "node_group pinned now m1 = node_group pinned now m" by (simp add: m1_def node_group_def fun_eq_iff)
  then have "set wanted \<subseteq> set (wanted_groups pinned now m)" by (auto simp: wanted_def wanted_groups_def m1_def)
  ultimately show ?thesis unfolding m3 key_of_def by blast
qed

section \<open>A node is only pointed at a guard that is up\<close>

lemma GuardTag_inj:
  assumes "GuardTag p = GuardTag q" and "is_int64 p" and "is_int64 q"
  shows "p = q"
proof -
  have "go_itoa p = go_itoa q" using assms(1) by (simp add: GuardTag_def)
  then show ?thesis using go_atoi_itoa assms(2,3) by (metis option.inject)
qed

lemma node_tag_not_guard: "node_tag t \<Longrightarrow> t \<noteq> GuardTag p"
  by (auto simp: node_tag_def GuardTag_def GuardTagPrefix_def has_prefix_iff)

text \<open>The encoder keeps a port of 127.0.0.1 that the code wrote readable, or the port is unusable.\<close>

definition reads_guard_port :: "(json \<Rightarrow> string) \<Rightarrow> bool" where
  "reads_guard_port enc \<longleftrightarrow> (\<forall>n p. GuardPortOf (enc (WithGuardDest (Inbound n) p)) \<in> {0, p})"

lemma need_port_fresh:
  assumes "p \<in> set (guardNeed enc now m wanted)"
    and "\<forall>(t, c) \<in> set wanted. t \<in> set (gp_retained (gm_pass m)) \<longrightarrow> GuardPortOf c \<noteq> p"
  shows "p \<in> set (gm_rule_ports m) \<and> guardConfig enc m p \<noteq> []"
  using assms
  by (fastforce simp: guardNeed_def List.map_filter_def need_port_def Let_def split: if_splits option.splits)


section \<open>Adding guard inbounds\<close>

text \<open>What the loop keeps: the guards already up are applied with their configuration and present.\<close>

definition add_ok :: "(json \<Rightarrow> string) \<Rightarrow> guard_manager \<Rightarrow> int list \<Rightarrow> add_state \<Rightarrow> bool" where
  "add_ok enc m0 need s \<longleftrightarrow>
     (\<forall>p \<in> set (as_up s). p \<in> set need \<and> guardConfig enc (as_m s) p \<noteq> []
        \<and> map_of (gm_applied (as_m s)) (GuardTag p) = Some (guardConfig enc (as_m s) p) \<and> GuardTag p \<in> set (as_present s))
     \<and> (\<forall>t. node_tag t \<longrightarrow> map_of (gm_applied (as_m s)) t = map_of (gm_applied m0) t)
     \<and> (\<forall>p. p \<notin> set need \<longrightarrow> map_of (gm_guards (as_m s)) p = map_of (gm_guards m0) p)
     \<and> (as_err s \<or> (\<forall>p \<in> set need. guardConfig enc m0 p \<noteq> [] \<and> p \<notin> set (as_up s) \<longrightarrow> p \<in> set (gp_avoid (gm_pass (as_m s)))))"

lemma guardFailed_frame:
  "gm_applied (guardFailed now p m) = gm_applied m
   \<and> gp_avoid (gm_pass (guardFailed now p m)) = p # gp_avoid (gm_pass m)
   \<and> (q \<noteq> p \<longrightarrow> map_of (gm_guards (guardFailed now p m)) q = map_of (gm_guards m) q)"
  by (simp add: guardFailed_def Let_def delete_conv)

lemma guardConfig_cong: "map_of (gm_guards m) p = map_of (gm_guards m') p \<Longrightarrow> guardConfig enc m p = guardConfig enc m' p"
  by (simp add: guardConfig_def)

lemma add_guard_ok:
  assumes ok: "add_ok enc m0 need s" and "port \<notin> set need"
    and inj: "\<forall>p \<in> set need. GuardTag p \<noteq> GuardTag port"
  shows "add_ok enc m0 (port # need) (add_guard enc api now s port)"
proof -
  have guards: "map_of (gm_guards (as_m s)) port = map_of (gm_guards m0) port"
    using assms(1,2) by (simp add: add_ok_def)
  have failed: "guardConfig enc (guardFailed now port x) p = guardConfig enc x p" if "p \<in> set need" for p x
    using that assms(2) guardFailed_frame [of now port x p] by (intro guardConfig_cong) auto
  have upd: "guardConfig enc (x\<lparr>gm_applied := a\<rparr>) p = guardConfig enc x p" for x a p by (simp add: guardConfig_def)
  show ?thesis
    using ok inj guardConfig_cong [OF guards, of enc] node_tag_not_guard [of _ port] assms(2)
    unfolding add_ok_def add_guard_def Let_def
    by (auto simp: failed upd guardFailed_frame update_conv delete_conv)
qed

text \<open>
  After the guard inbounds were added, each guard counted as up is a needed
  one whose inbound the Core holds with the configuration of the current group;
  no node configuration was touched; and unless saving the state failed, every
  other needed guard is on the list of ports that are avoided from now on.
\<close>

theorem add_guards_up:
  assumes "\<forall>p \<in> set need. 1 \<le> p \<and> p \<le> 65535"
  shows "(\<forall>p \<in> set (as_up (addGuards enc api now need present m)). p \<in> set need
            \<and> map_of (gm_applied (as_m (addGuards enc api now need present m))) (GuardTag p)
                = Some (guardConfig enc (as_m (addGuards enc api now need present m)) p)
            \<and> GuardTag p \<in> set (as_present (addGuards enc api now need present m)))
    \<and> (\<forall>t. node_tag t \<longrightarrow>
          map_of (gm_applied (as_m (addGuards enc api now need present m))) t = map_of (gm_applied m) t)
    \<and> (as_err (addGuards enc api now need present m)
       \<or> (\<forall>p \<in> set need. guardConfig enc m p \<noteq> [] \<and> p \<notin> set (as_up (addGuards enc api now need present m))
            \<longrightarrow> p \<in> set (gp_avoid (gm_pass (as_m (addGuards enc api now need present m))))))"
proof -
  let ?init = "\<lparr> as_m = m, as_present = present, as_up = [], as_attempted = False, as_failed = False, as_err = False \<rparr>"
  have run: "add_ok enc m (rev ps @ seen) (foldl (add_guard enc api now) s ps)"
    if "distinct (rev ps @ seen)" "\<forall>p \<in> set (rev ps @ seen). is_int64 p" "add_ok enc m seen s" for ps seen s
    using that
  proof (induction ps arbitrary: s seen)
    case (Cons p ps)
    have "\<forall>q \<in> set seen. GuardTag q \<noteq> GuardTag p" using Cons.prems(1,2) GuardTag_inj by fastforce
    then have "add_ok enc m (p # seen) (add_guard enc api now s p)"
      using Cons.prems by (intro add_guard_ok) auto
    from Cons.IH [OF _ _ this] Cons.prems show ?case by simp
  qed simp
  have "add_ok enc m [] ?init" by (simp add: add_ok_def)
  moreover have "\<forall>p \<in> set need. is_int64 p"
    using assms by (auto simp: is_int64_def min_int64_def max_int64_def)
  ultimately have "add_ok enc m (rev (sorted_unique need) @ []) (foldl (add_guard enc api now) ?init (sorted_unique need))"
    by (intro run) auto
  then show ?thesis
    unfolding add_ok_def addGuards_def Let_def by (auto simp: guardConfig_def)
qed


section \<open>Concrete passes\<close>

text \<open>An encoder that writes only the destination of a Reality inbound.\<close>

definition mini_enc :: "json \<Rightarrow> string" where
  "mini_enc j =
     (case Option.bind (Option.bind (jget ''streamSettings'' j) (jget ''realitySettings'')) (jget ''dest'') of
        Some (JStr d) \<Rightarrow> CHR 0x22 # ''dest'' @ CHR 0x22 # '':'' @ CHR 0x22 # d @ [CHR 0x22]
      | _ \<Rightarrow> ''{}'')"

lemma GuardPortOf_plain: "GuardPortOf ''{}'' = 0"
  by code_simp

lemma GuardPortOf_marker: "GuardPortOf (guard_marker @ go_itoa p @ [CHR 0x22]) \<in> {0, p}"
proof -
  have "str_index (guard_marker @ x) guard_marker = Some 0" for x
    by (cases "guard_marker @ x") (simp_all add: guard_marker_def has_prefix_def)
  moreover have "takeWhile (\<lambda>c. c \<noteq> CHR 0x22) (go_itoa p @ [CHR 0x22]) = go_itoa p"
  proof (rule takeWhile_upto)
    have "\<not> is_digit (CHR 0x22)" by (simp add: is_digit_def byte_def)
    then show "CHR 0x22 \<notin> set (go_itoa p)"
      using dec_digits_digits [of p] dec_digits_digits [of "- p"] by (auto simp: go_itoa_def list_all_iff)
  qed
  moreover have "go_atoi (go_itoa p) = Some q \<Longrightarrow> q = p" for q
  proof -
    assume q: "go_atoi (go_itoa p) = Some q"
    have "unsigned_int (go_itoa p) = Some p" if "0 \<le> p" using that by (simp add: go_itoa_def)
    moreover obtain d ds where "dec_digits p = d # ds" by (cases "dec_digits p") auto
    then have "0 \<le> p \<Longrightarrow> is_digit d" by (rule hd_dec_digits_digit)
    ultimately show ?thesis
      using q \<open>dec_digits p = d # ds\<close>
      by (cases "0 \<le> p") (auto simp: go_atoi_def go_itoa_def Let_def split: if_splits)
  qed
  ultimately show ?thesis by (auto simp: GuardPortOf_def Let_def split: option.split)
qed

lemma jobj_Some: "jobj oj = Some j \<longleftrightarrow> (\<exists>kvs. oj = Some (JObj kvs) \<and> j = JObj kvs)"
  by (auto simp: jobj_def split: option.splits json.splits)

lemma mini_enc_reads: "reads_guard_port mini_enc"
proof -
  have dest: "join_host_port ''127.0.0.1'' s = ''127.0.0.1:'' @ s" for s by (simp add: join_host_port_def)
  have "GuardPortOf (mini_enc (WithGuardDest (JObj kvs) p)) \<in> {0, p}" for kvs p
  proof -
    let ?stream = "jobj (map_of kvs ''streamSettings'')"
    consider (none) "jobj (Option.bind ?stream (jget ''realitySettings'')) = None"
      | (some) st re where "map_of kvs ''streamSettings'' = Some (JObj st)" "map_of st ''realitySettings'' = Some (JObj re)"
      by (cases "jobj (Option.bind ?stream (jget ''realitySettings''))") (auto simp: jobj_Some bind_eq_Some_conv)
    then show ?thesis
    proof cases
      case none
      then have "mini_enc (WithGuardDest (JObj kvs) p) = ''{}''"
        by (auto simp: WithGuardDest_def mini_enc_def jobj_def jget_def Let_def split: option.splits json.splits)
      then show ?thesis by (simp add: GuardPortOf_plain)
    next
      case some
      then have "mini_enc (WithGuardDest (JObj kvs) p) = guard_marker @ go_itoa p @ [CHR 0x22]"
        by (simp add: WithGuardDest_def jobj_def mini_enc_def jput_def guard_marker_def dest map_of_filter_key)
      then show ?thesis using GuardPortOf_marker by simp
    qed
  qed
  moreover have "\<exists>kvs. Inbound n = JObj kvs" for n by (simp add: Inbound_def Let_def)
  ultimately show ?thesis unfolding reads_guard_port_def by metis
qed

definition ex_group :: Guard where
  "ex_group = \<lparr> gd_dest = ''1.1.1.1:443'', gd_names = [''example.com''] \<rparr>"

definition ex_vless_node :: "string \<Rightarrow> int \<Rightarrow> string list \<Rightarrow> Node" where
  "ex_vless_node i port names = \<lparr> nd_id = i, nd_owner = \<lparr> ow_id = ''u1'', ow_name = ''alice'' \<rparr>, nd_name = ''node'',
     nd_protocol = ''vless_reality_vision'', nd_port = port, nd_enabled = Some True, nd_max_connections = 0,
     nd_max_online_ips = 0, nd_expires_at = None, nd_conn_mode = [], nd_max_total_connections = 0, nd_ss2022 = None,
     nd_vless = Some \<lparr> vl_uuid = ''01234567-89ab-cdef-0123-456789abcdef'', vl_flow = ''xtls-rprx-vision'',
       vl_reality = \<lparr> rl_dest = ''1.1.1.1:443'', rl_server_names = names,
         rl_private_key = ''AAAAAAAAAAAAAAAAAAAAAAAAAAAAAAAAAAAAAAAAAAA'', rl_short_ids = [''ab''] \<rparr> \<rparr>,
     nd_anytls = None, nd_snell = None, nd_mieru = None \<rparr>"

definition ex_guard_pass :: guardPass where
  "ex_guard_pass = \<lparr> gp_by_tag = [], gp_rules = [], gp_pinned = [], gp_retained = [], gp_restart = False,
     gp_rules_issue = [], gp_add_issue = [], gp_retry_at = 0, gp_avoid = [] \<rparr>"

definition ex_guards :: "Node list \<Rightarrow> guard_manager" where
  "ex_guards ns = \<lparr> gm_payload = \<lparr> pl_server_id = ''s'', pl_version = 1, pl_status = ''active'',
       pl_config = \<lparr> cf_port_min = 20000, cf_port_max = 20100, cf_traffic_limit_bytes = 0, cf_reset_day = 1,
         cf_max_connections = 0, cf_share_until = None, cf_memory_mb = 0, cf_cpu_percent = 0 \<rparr>,
       pl_desired = \<lparr> ds_revision = 1, ds_nodes = Some ns, ds_egress = None, ds_reality_guard = Some True,
         ds_scan_guard = None, ds_reality_pin_margin_ms = None \<rparr>,
       pl_official_ports = [443], pl_artifact = \<lparr> ar_url = [], ar_sha256 = [], ar_version = [], ar_github_accelerator = [] \<rparr>, pl_period = [],
       pl_traffic_used_bytes = 0, pl_ack_generation = [], pl_ack_sequence = 0 \<rparr>,
     gm_api_port = 30000, gm_traffic_used = 0, gm_guards = [], gm_applied = [], gm_rule_ports = [],
     gm_pass = ex_guard_pass \<rparr>"

definition ex_node_a :: Node where "ex_node_a = ex_vless_node ''a'' 20001 [''example.com'']"
definition ex_node_b :: Node where "ex_node_b = ex_vless_node ''b'' 20002 [''Example.com'']"

text \<open>The kernel offers the API port, a port of the range and then two free ports.\<close>

definition ex_offers :: "int option list" where
  "ex_offers = [Some 30000, Some 20050, Some 31000, Some 31001]"

definition ex_planned :: guard_manager where
  "ex_planned = planGuards (\<lambda>x. x) Some 1 [] False ex_offers (ex_guards [ex_node_a, ex_node_b])"

lemma ex_planned_ports: "gp_by_tag (gm_pass ex_planned) = [(''flvxl-a'', 31000), (''flvxl-b'', 31000)]"
  by code_simp

theorem plan_guards_ports_witness:
  "map_of (gp_by_tag (gm_pass ex_planned)) ''flvxl-b'' = Some 31000
   \<and> \<not> guard_conflict (ex_guards [ex_node_a, ex_node_b]) [] 31000"
  using plan_guards_ports [of "ex_guards [ex_node_a, ex_node_b]" "\<lambda>x. x" Some 1 "[]" False ex_offers "''flvxl-b''" 31000]
    ex_planned_ports by (simp add: ex_planned_def [symmetric]) (simp add: ex_guards_def)

text \<open>One node already points at the guard and cannot be pinned; another one of its group is fresh.\<close>

definition ex_retained :: "int list \<Rightarrow> guard_manager" where
  "ex_retained rules = (ex_guards [ex_node_a, ex_node_b])
     \<lparr>gm_guards := [(31000, ex_group)], gm_rule_ports := rules,
      gm_pass := ex_guard_pass\<lparr>gp_by_tag := [(''flvxl-b'', 31000)], gp_pinned := [(''flvxl-b'', ex_node_b)],
                               gp_retained := [''flvxl-a'']\<rparr>\<rparr>"

definition ex_wanted :: "(string \<times> string) list" where
  "ex_wanted = [(''flvxl-a'', mini_enc (WithGuardDest (Inbound ex_node_a) 31000)), (''flvxl-b'', ''{}'')]"

lemma ex_wanted_port: "GuardPortOf (mini_enc (WithGuardDest (Inbound ex_node_b) 31000)) = 31000"
  by code_simp


theorem add_guards_up_witness:
  "\<exists>s. s = addGuards mini_enc \<lparr> api_rmi = \<lambda>_. True, api_adi = \<lambda>_. True, api_persist = \<lambda>_. True \<rparr> 1 [31000] [] (ex_retained [])
     \<and> as_up s = [31000] \<and> map_of (gm_applied (as_m s)) (GuardTag 31000) = Some (guardConfig mini_enc (as_m s) 31000)"
proof -
  let ?api = "\<lparr> api_rmi = \<lambda>_. True, api_adi = \<lambda>_. True, api_persist = \<lambda>_. True \<rparr>"
  have "as_up (addGuards mini_enc ?api 1 [31000] [] (ex_retained [])) = [31000]" by code_simp
  then show ?thesis using add_guards_up [of "[31000]" mini_enc ?api 1 "[]" "ex_retained []"] by simp
qed

text \<open>
  The fresh node is pointed at the guard although the guard's rules are not live:
  the retained node alone made the guard needed.
\<close>

lemma guard_without_rules:
  "guardNeed mini_enc 1 (ex_retained []) ex_wanted = [31000]
   \<and> map_of (fst (guardFinal mini_enc (ex_retained []) [31000] ex_wanted)) ''flvxl-b''
      = Some (mini_enc (WithGuardDest (Inbound ex_node_b) 31000))
   \<and> GuardPortOf (mini_enc (WithGuardDest (Inbound ex_node_b) 31000)) = 31000
   \<and> gm_rule_ports (ex_retained []) = []"
proof (intro conjI)
  show "guardNeed mini_enc 1 (ex_retained []) ex_wanted = [31000]" by code_simp
  show "map_of (fst (guardFinal mini_enc (ex_retained []) [31000] ex_wanted)) ''flvxl-b''
      = Some (mini_enc (WithGuardDest (Inbound ex_node_b) 31000))" by code_simp
qed (simp_all add: ex_wanted_port ex_retained_def)

text \<open>
  Two nodes share a guard; one of them changes its server names, the other does
  not move. The group is still retargeted to the changed names, so the node that
  did not change is taken off its port.
\<close>

definition ex_shared :: guard_manager where
  "ex_shared = (ex_guards [ex_node_a, ex_node_b])
     \<lparr>gm_guards := [(31000, ex_group)],
      gm_applied := [(''flvxl-a'', mini_enc (WithGuardDest (Inbound ex_node_a) 31000)),
                     (''flvxl-b'', mini_enc (WithGuardDest (Inbound ex_node_b) 31000))]\<rparr>"

lemma retarget_mixed_group:
  "map_of (gm_guards (retargetGuards [(''flvxl-a'', ex_group), (''flvxl-b'', ex_group\<lparr>gd_names := [''other.com'']\<rparr>)] ex_shared)) 31000
     = Some (ex_group\<lparr>gd_names := [''other.com'']\<rparr>)"
  by code_simp

end
