(* ===== verification/Reality_Pin.thy ===== *)
theory Reality_Pin
  imports Reality_Pick Guard_Helper Desired_State
begin

text \<open>
  The Helper's choice of the address of a Reality destination,
  \<open>cmd/mmwxc-helper/flvx_reality_pin.go\<close>: the checks of a destination (DNS, connects,
  the addresses remembered), the pin of each node and when it moves, and the report. A Go
  map is an association list. Arguments: \<open>digest\<close> of a node's JSON, the resolver
  (\<open>lookup\<close>: the addresses and whether it failed) and \<open>connect\<close>, the time one TCP connect
  takes (\<open>None\<close>: no answer in time). Connect times are kept in milliseconds as the float64 of
  the source: the rational number it denotes, each operation rounded to 53 bits (no value
  here is near the ends of the range).
\<close>

section \<open>Rounding\<close>

text \<open>The largest \<open>e\<close> with \<open>2 ^ e \<le> x\<close>, for positive \<open>x\<close>.\<close>

fun log_up :: "nat \<Rightarrow> rat \<Rightarrow> int" where
  "log_up 0 x = 0"
| "log_up (Suc n) x = (if x < 2 then 0 else 1 + log_up n (x / 2))"

fun log_down :: "nat \<Rightarrow> rat \<Rightarrow> int" where
  "log_down 0 x = 0"
| "log_down (Suc n) x = (if 1 \<le> x then 0 else log_down n (x * 2) - 1)"

definition float_exponent :: "rat \<Rightarrow> int" where
  "float_exponent x = (if 1 \<le> x then log_up 1100 x else log_down 1100 x)"

definition round_even :: "rat \<Rightarrow> int" where
  "round_even x =
     (let f = \<lfloor>x\<rfloor>; r = x - of_int f
      in if r < 1 / 2 then f else if 1 / 2 < r then f + 1 else if even f then f else f + 1)"

definition scale :: "int \<Rightarrow> rat" where
  "scale k = (if 0 \<le> k then 2 ^ nat k else 1 / 2 ^ nat (- k))"

definition f64 :: "rat \<Rightarrow> rat" where
  "f64 x =
     (if x = 0 then 0
      else let u = scale (float_exponent \<bar>x\<bar> - 52) in of_int (round_even (x / u)) * u)"

text \<open>\<open>math.Round\<close>: half away from zero.\<close>

definition go_round :: "rat \<Rightarrow> rat" where
  "go_round x = of_int (if x < 0 then - \<lfloor>- x + 1 / 2\<rfloor> else \<lfloor>x + 1 / 2\<rfloor>)"

definition flvxMS :: "duration \<Rightarrow> rat" where
  "flvxMS d = f64 (go_round (f64 (f64 (f64 (of_int d) / of_int nanos_per_ms) * 10)) / 10)"

section \<open>State\<close>

record flvxRealityPin =
  pn_hash :: string
  pn_dest :: string
  pn_host :: string
  pn_fallback :: bool
  pn_move_reason :: string
  pn_moved_at :: int

record flvxRealityDest =
  rd_checked_at :: int
  rd_live_at :: int
  rd_ms :: "(string \<times> rat) list"
  rd_dns :: "string list"
  rd_dns_at :: int
  rd_seen :: "(string \<times> int) list"
  rd_due :: bool

definition dest0 :: flvxRealityDest where
  "dest0 = \<lparr>rd_checked_at = 0, rd_live_at = 0, rd_ms = [], rd_dns = [], rd_dns_at = 0, rd_seen = [], rd_due = False\<rparr>"

record pin_manager =
  pm_payload :: Payload
  pm_used :: int
  pm_pins :: "(string \<times> flvxRealityPin) list"
  pm_dests :: "(string \<times> flvxRealityDest) list"
  pm_applied :: "(string \<times> string) list"
  pm_report_nodes :: "NodeStatus list"
  pm_epoch :: string

definition flvxPinRecheck :: duration where "flvxPinRecheck = 6 * hour"
definition flvxPinLiveness :: duration where "flvxPinLiveness = 10 * minute"
definition flvxPinFresh :: duration where "flvxPinFresh = 10 * minute"
definition flvxPinRetry :: duration where "flvxPinRetry = minute"
definition flvxPinRemember :: duration where "flvxPinRemember = 7 * 24 * hour"
definition flvxPinGone :: duration where "flvxPinGone = 2 * flvxPinRecheck"
definition DefaultRealityPinMarginMS :: int where "DefaultRealityPinMarginMS = 20"

definition dest_of :: "pin_manager \<Rightarrow> string \<Rightarrow> flvxRealityDest" where
  "dest_of m dest = (case map_of (pm_dests m) dest of None \<Rightarrow> dest0 | Some d \<Rightarrow> d)"

definition node_dest :: "Node \<Rightarrow> string" where
  "node_dest n = (case nd_vless n of None \<Rightarrow> [] | Some v \<Rightarrow> rl_dest (vl_reality v))"

section \<open>The fastest address\<close>

definition rd_answer :: "flvxRealityDest \<Rightarrow> string list option" where
  "rd_answer d = (if rd_checked_at d = 0 \<or> rd_dns_at d \<noteq> rd_checked_at d then None else Some (rd_dns d))"

definition faster :: "string list option \<Rightarrow> string \<times> rat \<Rightarrow> string \<times> rat \<Rightarrow> string \<times> rat" where
  "faster among best c =
     (if (case among of None \<Rightarrow> False | Some ips \<Rightarrow> fst c \<notin> set ips) then best
      else if 0 \<le> snd c \<and> (fst best = [] \<or> snd c < snd best \<or> snd c = snd best \<and> fst c < fst best) then c else best)"

definition fastest :: "flvxRealityDest \<Rightarrow> string list option \<Rightarrow> string \<times> rat" where
  "fastest d among = foldl (faster among) ([], -1) (rd_ms d)"

definition best_of :: "flvxRealityDest \<Rightarrow> string \<times> rat" where
  "best_of d = (if fst (fastest d (rd_answer d)) \<noteq> [] then fastest d (rd_answer d) else fastest d None)"

section \<open>Pins\<close>

definition flvxValidRealityPin :: "string \<Rightarrow> bool" where
  "flvxValidRealityPin dest =
     (case split_host_port dest of None \<Rightarrow> False | Some (host, _) \<Rightarrow> public_ip host)"

definition flvxPinIP :: "flvxRealityPin \<Rightarrow> string" where
  "flvxPinIP pin = (case split_host_port (pn_dest pin) of None \<Rightarrow> [] | Some (host, _) \<Rightarrow> host)"

definition realityPin :: "(Node \<Rightarrow> string) \<Rightarrow> pin_manager \<Rightarrow> Node \<Rightarrow> flvxRealityPin option" where
  "realityPin digest m n =
     (case map_of (pm_pins m) (Node_Tag n) of
        None \<Rightarrow> None
      | Some pin \<Rightarrow>
          if \<not> flvxValidRealityPin (pn_dest pin) then None
          else if pn_host pin = node_dest n \<or> pn_host pin = [] \<and> pn_hash pin = digest n then Some pin else None)"

definition realityNodes :: "time \<Rightarrow> pin_manager \<Rightarrow> Node list" where
  "realityNodes now m =
     (let p = pm_payload m
      in filter (\<lambda>n. nd_vless n \<noteq> None \<and> Active (pl_status p) (pl_config p) (pm_used m) n now) (ds_node_list (pl_desired p)))"

definition pinMargin :: "pin_manager \<Rightarrow> rat" where
  "pinMargin m =
     (case ds_reality_pin_margin_ms (pl_desired (pm_payload m)) of
        Some v \<Rightarrow> if 0 \<le> v \<and> v \<le> MaxRealityPinMarginMS then of_int v else of_int DefaultRealityPinMarginMS
      | None \<Rightarrow> of_int DefaultRealityPinMarginMS)"

definition pinMoveFree :: "pin_manager \<Rightarrow> Node \<Rightarrow> bool" where
  "pinMoveFree m n =
     (let applied = lookup_str (pm_applied m) (Node_Tag n)
      in if applied = [] \<or> GuardPortOf applied > 0 then True
         else case find (\<lambda>s. ns_id s = nd_id n) (pm_report_nodes m) of
                None \<Rightarrow> True
              | Some s \<Rightarrow> ns_connections s = 0)"

definition set_pin :: "string \<Rightarrow> flvxRealityPin \<Rightarrow> pin_manager \<Rightarrow> pin_manager" where
  "set_pin tag pin m = m\<lparr>pm_pins := AList.update tag pin (pm_pins m)\<rparr>"

definition new_pin :: "(Node \<Rightarrow> string) \<Rightarrow> Node \<Rightarrow> string \<Rightarrow> bool \<Rightarrow> flvxRealityPin" where
  "new_pin digest n dest fallback =
     \<lparr>pn_hash = digest n, pn_dest = dest, pn_host = node_dest n, pn_fallback = fallback, pn_move_reason = [], pn_moved_at = 0\<rparr>"

text \<open>The conditions under which a pin moves away from \<open>current\<close>, an address other than the best.\<close>

definition pin_failed :: "flvxRealityDest \<Rightarrow> string \<Rightarrow> bool" where
  "pin_failed d current = (case map_of (rd_ms d) current of None \<Rightarrow> False | Some ms \<Rightarrow> ms < 0)"

definition pin_gone :: "flvxRealityDest \<Rightarrow> string \<Rightarrow> bool" where
  "pin_gone d current =
     (case rd_answer d of
        None \<Rightarrow> False
      | Some ips \<Rightarrow> fst (best_of d) \<in> set ips \<and> current \<notin> set ips
          \<and> go_div flvxPinGone nanos_per_ms
             \<le> i64 (rd_checked_at d - (case map_of (rd_seen d) current of None \<Rightarrow> 0 | Some seen_at \<Rightarrow> seen_at)))"

definition pin_slower :: "rat \<Rightarrow> flvxRealityDest \<Rightarrow> string \<Rightarrow> bool" where
  "pin_slower margin d current =
     (case map_of (rd_ms d) current of
        None \<Rightarrow> False
      | Some ms \<Rightarrow> 0 < f64 (ms - snd (best_of d)) \<and> margin \<le> f64 (ms - snd (best_of d)))"

definition moved_pin :: "(Node \<Rightarrow> string) \<Rightarrow> pin_manager \<Rightarrow> Node \<Rightarrow> string \<Rightarrow> flvxRealityPin \<Rightarrow> flvxRealityPin" where
  "moved_pin digest m n port pin0 =
     (let d = dest_of m (node_dest n); best = fst (best_of d);
          pin = pin0\<lparr>pn_hash := digest n, pn_host := node_dest n\<rparr>; current = flvxPinIP pin
      in if best = [] \<or> best = current then pin
         else let failed = pin_failed d current; gone = pin_gone d current; slower = pin_slower (pinMargin m) d current
              in if failed \<or> (slower \<or> gone \<or> pn_fallback pin) \<and> pinMoveFree m n
                 then pin\<lparr>pn_dest := join_host_port best port, pn_fallback := False,
                          pn_move_reason := (if \<not> failed \<and> \<not> gone \<and> slower then RealityPinMoveFaster else RealityPinMoveFailover),
                          pn_moved_at := rd_checked_at d\<rparr>
                 else pin)"

definition decidePin :: "(Node \<Rightarrow> string) \<Rightarrow> pin_manager \<Rightarrow> Node \<Rightarrow> pin_manager" where
  "decidePin digest m n =
     (case split_host_port (node_dest n) of
        None \<Rightarrow> m
      | Some (host, port) \<Rightarrow>
          if net_parse_ip host \<noteq> None
          then (if PrivateHost host then m else set_pin (Node_Tag n) (new_pin digest n (node_dest n) False) m)
          else (let d = dest_of m (node_dest n); best = fst (best_of d)
                in case realityPin digest m n of
                     Some pin \<Rightarrow> set_pin (Node_Tag n) (moved_pin digest m n port pin) m
                   | None \<Rightarrow>
                       if best \<noteq> [] then set_pin (Node_Tag n) (new_pin digest n (join_host_port best port) False) m
                       else if rd_dns d \<noteq> [] then set_pin (Node_Tag n) (new_pin digest n (join_host_port (hd (rd_dns d)) port) True) m
                       else m))"

section \<open>Checks\<close>

definition raceTCP :: "(string \<Rightarrow> duration option) \<Rightarrow> string list \<Rightarrow> string \<Rightarrow> (string \<times> rat) list" where
  "raceTCP connect ips port =
     map (\<lambda>ip. (ip, case connect (join_host_port ip port) of None \<Rightarrow> -1 | Some d \<Rightarrow> flvxMS d)) ips"

text \<open>\<open>net.ParseIP(ip).String()\<close>.\<close>

definition ip_string :: "string \<Rightarrow> string" where
  "ip_string ip = (case net_parse_ip ip of None \<Rightarrow> ''<nil>'' | Some a \<Rightarrow> addr_string (addr_unmap a))"

definition add_candidate :: "string list \<Rightarrow> string \<Rightarrow> string list" where
  "add_candidate cs ip = (if length cs < ProbeMaxIPs \<and> ip \<notin> set cs \<and> public_ip ip then cs @ [ip] else cs)"

text \<open>\<open>None\<close> when the lookup failed, gave nothing, or gave a private address.\<close>

definition public_answer :: "string list \<times> bool \<Rightarrow> string list option" where
  "public_answer r =
     (if list_all public_ip (fst r) \<and> \<not> snd r \<and> fst r \<noteq> [] then Some (sort (map ip_string (fst r))) else None)"

definition recent_seen :: "time \<Rightarrow> (string \<times> int) list \<Rightarrow> (string \<times> int) list" where
  "recent_seen now seen =
     filter (\<lambda>(ip, seen_at). time_sub now (time_of_unix_milli seen_at) < flvxPinRemember \<and> \<not> PrivateHost ip) seen"

definition by_recency :: "(string \<times> int) list \<Rightarrow> string list" where
  "by_recency seen = map fst (sort_key (\<lambda>(ip, seen_at). - seen_at) (sort_key fst seen))"

definition checkRealityDest ::
  "(string \<Rightarrow> string list \<times> bool) \<Rightarrow> (string \<Rightarrow> duration option) \<Rightarrow> string \<Rightarrow> flvxRealityDest \<Rightarrow> string list \<Rightarrow> time
   \<Rightarrow> flvxRealityDest \<times> bool" where
  "checkRealityDest lookup connect dest d pinned now =
     (let (host, port) = (case split_host_port dest of None \<Rightarrow> ([], []) | Some hp \<Rightarrow> hp);
          answer = public_answer (lookup host);
          old = recent_seen now (rd_seen d);
          seen = (case answer of None \<Rightarrow> old | Some ips \<Rightarrow> foldl (\<lambda>s ip. AList.update ip (unix_milli now) s) old ips);
          candidates = foldl add_candidate [] (pinned @ (case answer of None \<Rightarrow> [] | Some ips \<Rightarrow> ips) @ by_recency seen);
          d' = (case answer of None \<Rightarrow> d | Some ips \<Rightarrow> d\<lparr>rd_dns := ips, rd_dns_at := unix_milli now\<rparr>)
      in (d'\<lparr>rd_seen := filter (\<lambda>(ip, _). ip \<in> set candidates) seen, rd_ms := raceTCP connect candidates port,
             rd_checked_at := unix_milli now, rd_live_at := unix_milli now, rd_due := False\<rparr>, answer \<noteq> None))"

section \<open>The upkeep of a pass\<close>

record pin_check =
  jb_dest :: string
  jb_pinned :: "string list"
  jb_live :: bool

definition pin_job :: "(Node \<Rightarrow> string) \<Rightarrow> bool \<Rightarrow> time \<Rightarrow> pin_manager \<Rightarrow> Node list \<Rightarrow> string \<Rightarrow> pin_check option" where
  "pin_job digest full now m nodes dest =
     (case split_host_port dest of
        None \<Rightarrow> None
      | Some (host, _) \<Rightarrow>
          if net_parse_ip host \<noteq> None then None
          else (let d = dest_of m dest; group = filter (\<lambda>n. node_dest n = dest) nodes;
                    pinned = sorted_unique (map flvxPinIP (List.map_filter (realityPin digest m) group));
                    unpinned = list_ex (\<lambda>n. realityPin digest m n = None) group;
                    age = time_sub now (time_of_unix_milli (rd_checked_at d));
                    best = fst (best_of d)
                in if full \<or> rd_due d \<or> rd_checked_at d = 0 \<or> flvxPinRecheck \<le> age \<or> age < 0
                      \<or> unpinned \<and> (best = [] \<and> flvxPinRetry \<le> age \<or> flvxPinFresh \<le> age)
                   then Some \<lparr>jb_dest = dest, jb_pinned = pinned, jb_live = False\<rparr>
                   else if pinned \<noteq> [] \<and> flvxPinLiveness \<le> time_sub now (time_of_unix_milli (max (rd_live_at d) (rd_checked_at d)))
                   then Some \<lparr>jb_dest = dest, jb_pinned = pinned, jb_live = True\<rparr> else None))"

text \<open>A liveness check connects to the pinned addresses; one without an answer leads to a full
  check. \<open>live\<close> and \<open>connect\<close> are the two rounds of connects.\<close>

definition run_pin_job ::
  "(string \<Rightarrow> string list \<times> bool) \<Rightarrow> (string \<Rightarrow> duration option) \<Rightarrow> (string \<Rightarrow> duration option) \<Rightarrow> time \<Rightarrow> pin_manager \<Rightarrow> pin_check
   \<Rightarrow> flvxRealityDest \<times> bool" where
  "run_pin_job lookup live connect now m j =
     (let d0 = dest_of m (jb_dest j);
          port = (case split_host_port (jb_dest j) of None \<Rightarrow> [] | Some (_, p) \<Rightarrow> p);
          d = (if jb_live j then d0\<lparr>rd_live_at := unix_milli now\<rparr> else d0)
      in if jb_live j \<and> \<not> list_ex (\<lambda>(_, ms). ms < 0) (raceTCP live (jb_pinned j) port) then (d, True)
         else checkRealityDest lookup connect (jb_dest j) d (jb_pinned j) now)"

definition pinNodes ::
  "(Node \<Rightarrow> string) \<Rightarrow> (string \<Rightarrow> string list \<times> bool) \<Rightarrow> (string \<Rightarrow> duration option) \<Rightarrow> (string \<Rightarrow> duration option) \<Rightarrow> bool \<Rightarrow> time
   \<Rightarrow> Node list \<Rightarrow> pin_manager \<Rightarrow> pin_manager" where
  "pinNodes digest lookup live connect full now nodes m =
     (let jobs = List.map_filter (pin_job digest full now m nodes) (sorted_unique (map node_dest nodes));
          checked = foldl (\<lambda>ds j. AList.update (jb_dest j) (fst (run_pin_job lookup live connect now m j)) ds) (pm_dests m) jobs
      in foldl (decidePin digest) (m\<lparr>pm_dests := checked\<rparr>) nodes)"

definition refreshRealityPins ::
  "(Node \<Rightarrow> string) \<Rightarrow> (string \<Rightarrow> string list \<times> bool) \<Rightarrow> (string \<Rightarrow> duration option) \<Rightarrow> (string \<Rightarrow> duration option) \<Rightarrow> time \<Rightarrow> string
   \<Rightarrow> pin_manager \<Rightarrow> pin_manager" where
  "refreshRealityPins digest lookup live connect now epoch m0 =
     (let nodes = filter (\<lambda>n. nd_vless n \<noteq> None) (ds_node_list (pl_desired (pm_payload m0)));
          m = m0\<lparr>pm_pins := filter (\<lambda>(tag, _). tag \<in> Node_Tag ` set nodes) (pm_pins m0),
                 pm_dests := filter (\<lambda>(dest, _). dest \<in> node_dest ` set nodes) (pm_dests m0)\<rparr>
      in (pinNodes digest lookup live connect (pm_epoch m \<noteq> epoch) now (realityNodes now m) m)\<lparr>pm_epoch := epoch\<rparr>)"

definition with_dest :: "string \<Rightarrow> Node \<Rightarrow> Node" where
  "with_dest dest n =
     n\<lparr>nd_vless := map_option (\<lambda>v. v\<lparr>vl_reality := (vl_reality v)\<lparr>rl_dest := dest\<rparr>\<rparr>) (nd_vless n)\<rparr>"

definition pinnedReality ::
  "(Node \<Rightarrow> string) \<Rightarrow> (string \<Rightarrow> string list \<times> bool) \<Rightarrow> (string \<Rightarrow> duration option) \<Rightarrow> (string \<Rightarrow> duration option) \<Rightarrow> time \<Rightarrow> Node
   \<Rightarrow> pin_manager \<Rightarrow> Node option \<times> pin_manager" where
  "pinnedReality digest lookup live connect now n m =
     (if nd_vless n = None then (Some n, m)
      else case realityPin digest m n of
             Some pin \<Rightarrow> (Some (with_dest (pn_dest pin) n), m)
           | None \<Rightarrow>
               (let m' = pinNodes digest lookup live connect False now [n] m
                in (map_option (\<lambda>pin. with_dest (pn_dest pin) n) (realityPin digest m' n), m')))"

section \<open>The report\<close>

definition merge_reason :: "int \<Rightarrow> string \<Rightarrow> flvxRealityPin \<Rightarrow> string" where
  "merge_reason checked reason pin =
     (if pn_move_reason pin \<noteq> [] \<and> pn_moved_at pin = checked \<and> reason \<noteq> RealityPinMoveFailover then pn_move_reason pin else reason)"

definition pin_status :: "pin_manager \<Rightarrow> (Node \<times> flvxRealityPin) list \<Rightarrow> string \<times> string \<Rightarrow> RealityPinStatus" where
  "pin_status m pins k =
     (let (dest, ip) = k; d = dest_of m dest; (best, ms) = best_of d;
          group = filter (\<lambda>(n, pin). (node_dest n, flvxPinIP pin) = k) pins
      in \<lparr>rp_host = dest, rp_pinned_ip = ip,
          rp_pinned_ms = Finite (case map_of (rd_ms d) ip of None \<Rightarrow> -1 | Some v \<Rightarrow> v),
          rp_best_ip = best, rp_best_ms = Finite (if best = [] then -1 else ms),
          rp_checked_at = rd_checked_at d,
          rp_nodes = sort (map (\<lambda>(n, _). nd_id n) group),
          rp_fallback = (case group of [] \<Rightarrow> False | (_, pin) # _ \<Rightarrow> pn_fallback pin),
          rp_move_reason = foldl (merge_reason (rd_checked_at d)) [] (map snd group)\<rparr>)"

definition realityPinStatus :: "(Node \<Rightarrow> string) \<Rightarrow> time \<Rightarrow> pin_manager \<Rightarrow> RealityPinStatus list" where
  "realityPinStatus digest now m =
     (let pins = List.map_filter (\<lambda>n. map_option (Pair n) (realityPin digest m n)) (realityNodes now m);
          keys = dedup (map (\<lambda>(n, pin). (node_dest n, flvxPinIP pin)) pins)
      in sort_key rp_host (sort_key rp_pinned_ip (map (pin_status m pins) keys)))"

section \<open>The best address\<close>

definition eligible :: "string list option \<Rightarrow> string \<Rightarrow> bool" where
  "eligible among ip \<longleftrightarrow> (case among of None \<Rightarrow> True | Some ips \<Rightarrow> ip \<in> set ips)"

lemma faster_fold:
  assumes "[] \<notin> fst ` set ms" "r = foldl (faster among) b ms" "fst b = [] \<longrightarrow> snd b = -1"
  shows "(r = b \<or> r \<in> set ms \<and> 0 \<le> snd r \<and> eligible among (fst r))
    \<and> (fst r = [] \<longrightarrow> snd r = -1)
    \<and> (fst b \<noteq> [] \<longrightarrow> fst r \<noteq> [] \<and> snd r \<le> snd b)
    \<and> (\<forall>c \<in> set ms. eligible among (fst c) \<and> 0 \<le> snd c \<longrightarrow> fst r \<noteq> [] \<and> snd r \<le> snd c)"
  using assms
proof (induction ms arbitrary: b)
  case (Cons c ms)
  define b' where "b' = faster among b c"
  have r: "r = foldl (faster among) b' ms" using Cons.prems(2) by (simp add: b'_def)
  have c: "fst c \<noteq> []" using Cons.prems(1) by auto
  have b': "fst b' = [] \<longrightarrow> snd b' = -1" "b' = b \<or> b' = c \<and> 0 \<le> snd c \<and> eligible among (fst c)"
    "fst b \<noteq> [] \<longrightarrow> fst b' \<noteq> [] \<and> snd b' \<le> snd b"
    "eligible among (fst c) \<and> 0 \<le> snd c \<longrightarrow> fst b' \<noteq> [] \<and> snd b' \<le> snd c"
    using Cons.prems(3) c by (auto simp: b'_def faster_def eligible_def split: option.splits)
  show ?case
    using Cons.IH [OF _ r b'(1)] Cons.prems(1) b'(2-4) by (auto intro: order_trans)
qed simp

definition ms_public :: "flvxRealityDest \<Rightarrow> bool" where
  "ms_public d \<longleftrightarrow> (\<forall>ip \<in> fst ` set (rd_ms d). public_ip ip)"

lemma public_ip_not_empty [simp]: "\<not> public_ip []"
  by (simp add: public_ip_def net_parse_ip_def parse_addr_def)

lemma fastest_spec:
  assumes "ms_public d"
  shows "fastest d among = ([], -1) \<or> fastest d among \<in> set (rd_ms d) \<and> 0 \<le> snd (fastest d among) \<and> eligible among (fst (fastest d among))"
    and "\<lbrakk>(ip, v) \<in> set (rd_ms d); eligible among ip; 0 \<le> v\<rbrakk> \<Longrightarrow> fst (fastest d among) \<noteq> [] \<and> snd (fastest d among) \<le> v"
proof -
  have ne: "[] \<notin> fst ` set (rd_ms d)" using assms public_ip_not_empty unfolding ms_public_def by metis
  note spec = faster_fold [OF ne refl, of "([], -1)" among]
  show "fastest d among = ([], -1) \<or> fastest d among \<in> set (rd_ms d) \<and> 0 \<le> snd (fastest d among) \<and> eligible among (fst (fastest d among))"
    using spec by (simp add: fastest_def)
  show "\<lbrakk>(ip, v) \<in> set (rd_ms d); eligible among ip; 0 \<le> v\<rbrakk> \<Longrightarrow> fst (fastest d among) \<noteq> [] \<and> snd (fastest d among) \<le> v"
    using spec by (force simp: fastest_def)
qed

lemma best_of_cases:
  assumes "ms_public d"
  shows "fst (best_of d) = [] \<and> snd (best_of d) = -1
    \<or> best_of d \<in> set (rd_ms d) \<and> 0 \<le> snd (best_of d) \<and> public_ip (fst (best_of d))"
  using fastest_spec(1) [OF assms, of "rd_answer d"] fastest_spec(1) [OF assms, of None] assms
  by (auto simp: best_of_def ms_public_def)

section \<open>Deciding a pin\<close>

text \<open>The decision for a node reads its own pin and the state of its destination only.\<close>

definition decision :: "(Node \<Rightarrow> string) \<Rightarrow> pin_manager \<Rightarrow> Node \<Rightarrow> flvxRealityPin option" where
  "decision digest m n =
     (case split_host_port (node_dest n) of
        None \<Rightarrow> None
      | Some (host, port) \<Rightarrow>
          if net_parse_ip host \<noteq> None then (if PrivateHost host then None else Some (new_pin digest n (node_dest n) False))
          else (case realityPin digest m n of
                  Some pin \<Rightarrow> Some (moved_pin digest m n port pin)
                | None \<Rightarrow>
                    let d = dest_of m (node_dest n); best = fst (best_of d)
                    in if best \<noteq> [] then Some (new_pin digest n (join_host_port best port) False)
                       else if rd_dns d \<noteq> [] then Some (new_pin digest n (join_host_port (hd (rd_dns d)) port) True) else None))"

lemma decidePin_decision:
  "decidePin digest m n = (case decision digest m n of None \<Rightarrow> m | Some pin \<Rightarrow> set_pin (Node_Tag n) pin m)"
  by (auto simp: decidePin_def decision_def Let_def split: option.splits)

lemma decision_cong:
  assumes "map_of (pm_pins m') (Node_Tag n) = map_of (pm_pins m) (Node_Tag n)" "dest_of m' (node_dest n) = dest_of m (node_dest n)"
    and "pm_payload m' = pm_payload m" "pm_applied m' = pm_applied m" "pm_report_nodes m' = pm_report_nodes m"
  shows "decision digest m' n = decision digest m n"
proof -
  have "realityPin digest m' n = realityPin digest m n" using assms(1) by (simp add: realityPin_def)
  moreover have "pinMargin m' = pinMargin m" "pinMoveFree m' n = pinMoveFree m n"
    using assms(3-) by (simp_all add: pinMargin_def pinMoveFree_def)
  then have "moved_pin digest m' n port pin = moved_pin digest m n port pin" for port pin
    using assms(2) by (simp only: moved_pin_def)
  ultimately show ?thesis
    by (cases "split_host_port (node_dest n)"; cases "realityPin digest m n") (simp_all add: decision_def assms(2) split: prod.split)
qed

lemma set_pin_fields [simp]:
  "pm_payload (set_pin tag pin m) = pm_payload m" "pm_applied (set_pin tag pin m) = pm_applied m" "pm_used (set_pin tag pin m) = pm_used m"
  "pm_report_nodes (set_pin tag pin m) = pm_report_nodes m" "pm_dests (set_pin tag pin m) = pm_dests m" "pm_epoch (set_pin tag pin m) = pm_epoch m"
  "dest_of (set_pin tag pin m) = dest_of m"
  by (simp_all add: set_pin_def dest_of_def fun_eq_iff)

lemma set_pin_lookup: "map_of (pm_pins (set_pin tag pin m)) = (map_of (pm_pins m))(tag \<mapsto> pin)"
  by (simp add: set_pin_def update_conv')

text \<open>A port and an address contain no colon or bracket that would change how they are joined.\<close>

lemma last_index_split:
  assumes "last_index c s = Some i"
  shows "c \<notin> set (drop (Suc i) s)"
proof -
  have "c \<in> set (rev s)" using assms by (simp add: last_index_def split: if_splits)
  then obtain ys zs where r: "rev s = ys @ c # zs" "c \<notin> set ys" using split_list_first by metis
  then have s: "s = rev zs @ c # rev ys" by (metis rev.simps(2) rev_append rev_rev_ident append.assoc append_Cons append_Nil)
  have "takeWhile (\<lambda>x. x \<noteq> c) (rev s) = ys" using r takeWhile_upto by metis
  then have "i = length zs" using assms s by (simp add: last_index_def split: if_splits)
  then show ?thesis using s r(2) by simp
qed

lemma split_port_chars:
  assumes "split_host_port s = Some (host, port)"
  shows "\<not> {CHR '':'', CHR ''['', CHR '']''} \<inter> set port \<noteq> {}"
proof -
  obtain i where i: "last_index (CHR '':'') s = Some i" "port = drop (Suc i) s"
    using assms by (auto simp: split_host_port_def split: option.splits if_splits)
  have sub: "set (drop (Suc i) s) \<subseteq> set (drop 1 s)" "set (drop (Suc i) s) \<subseteq> set s"
    by (simp_all add: set_drop_subset_set_drop set_drop_subset)
  have sub': "set (drop (Suc (Suc e)) s) \<subseteq> set (drop (Suc e) s)" for e by (simp add: set_drop_subset_set_drop)
  show ?thesis
    using assms i last_index_split [OF i(1)] sub sub'
    by (auto simp: split_host_port_def split: option.splits if_splits)
qed

definition ip_char :: "char \<Rightarrow> bool" where
  "ip_char c \<longleftrightarrow> c \<noteq> CHR ''['' \<and> c \<noteq> CHR '']''"

lemma digit_ip_char: "is_digit c \<Longrightarrow> ip_char c" "is_hex c \<Longrightarrow> ip_char c"
proof -
  have "hex_value (CHR ''['') = None" "hex_value (CHR '']'') = None" by code_simp+
  then show "is_digit c \<Longrightarrow> ip_char c" "is_hex c \<Longrightarrow> ip_char c"
    by (auto simp: ip_char_def is_digit_def is_hex_def byte_def)
qed

lemma parse_ipv4_chars: "parse_ipv4 s = Some fs \<Longrightarrow> list_all ip_char s"
proof -
  assume s: "parse_ipv4 s = Some fs"
  have "\<forall>f \<in> set (map ipv4_field (go_split (CHR ''.'') s)). f \<noteq> None"
    using s by (auto simp: parse_ipv4_def split: list.splits option.splits)
  then have "\<forall>l \<in> set (go_split (CHR ''.'') s). list_all is_digit l"
    by (auto simp: ipv4_field_def unsigned_int_def split: option.splits if_splits)
  then have "list_all (list_all ip_char) (go_split (CHR ''.'') s)"
    by (auto simp: list_all_iff digit_ip_char)
  then show ?thesis by (rule split_all) (simp add: ip_char_def)
qed

lemma ipv6_groups_chars: "ipv6_groups n gs el s = Some (gs', el', []) \<Longrightarrow> list_all ip_char s"
proof (induction n gs el s rule: ipv6_groups.induct)
  case (2 n gs el s)
  have h: "list_all ip_char (hex_prefix s)"
    using set_takeWhileD [of _ is_hex s] by (auto simp: hex_prefix_def list_all_iff digit_ip_char)
  have s: "s = hex_prefix s @ drop (length (hex_prefix s)) s"
    by (simp add: hex_prefix_def) (metis dropWhile_eq_drop takeWhile_dropWhile_id)
  have colon: "ip_char (CHR '':'')" by (simp add: ip_char_def)
  define r where "r = drop (length (hex_prefix s)) s"
  have "list_all ip_char r"
  proof (cases r)
    case (Cons c t)
    show ?thesis
    proof (cases "c = CHR ''.''")
      case True
      then have "list_all ip_char s"
        using 2(3) parse_ipv4_chars Cons by (auto simp: r_def [symmetric] Let_def split: if_splits option.splits list.splits)
      then show ?thesis using s unfolding r_def by (metis list_all_append)
    next
      case False
      have eq: "ipv6_groups (Suc n) gs el s = Some (gs', el', [])" by (rule 2(3))
      have long: "hex_prefix s \<noteq> []" "length (hex_prefix s) \<le> 4" using eq by (auto simp: Let_def split: if_splits)
      have c: "c = CHR '':''" "t \<noteq> []"
        using eq False Cons long by (auto simp: r_def [symmetric] Let_def split: if_splits)
      obtain d u where t: "t = d # u" using c(2) by (cases t) auto
      show ?thesis
      proof (cases "d = CHR '':''")
        case True
        have "list_all ip_char u"
        proof (cases u)
          case (Cons x xs)
          then have "ipv6_groups n (gs @ [hex_number (hex_prefix s)]) (Some (length (gs @ [hex_number (hex_prefix s)]))) u = Some (gs', el', [])" "el = None"
            using eq False \<open>r = c # t\<close> long c t True by (auto simp: r_def [symmetric] Let_def split: if_splits)
          then show ?thesis
            using 2(1) [OF refl refl _ _ refl _ _ refl] False \<open>r = c # t\<close> long c t True Cons
            by (auto simp: r_def [symmetric] Let_def split: if_splits)
        qed simp
        then show ?thesis using Cons c t True colon by simp
      next
        case nc: False
        then have "ipv6_groups n (gs @ [hex_number (hex_prefix s)]) el t = Some (gs', el', [])"
          using eq False Cons long c t by (auto simp: r_def [symmetric] Let_def split: if_splits)
        then have "list_all ip_char t"
          using 2(2) [OF refl refl _ _ refl _ _ refl] False Cons long c t nc by (auto simp: r_def [symmetric])
        then show ?thesis using Cons c colon by simp
      qed
    qed
  qed simp
  then show ?case using s h unfolding r_def by (metis list_all_append)
qed simp

lemma parse_ipv6_chars:
  assumes "parse_ipv6 s = Some a" "addr_zone a = []"
  shows "list_all ip_char s"
proof -
  have cut: "go_cut s (CHR ''%'') = (s, [], False)"
    using assms by (auto simp: parse_ipv6_def go_cut_def addr_zone_def Let_def split: if_splits option.splits)
  have colon: "list_all ip_char ''::''" by (simp add: ip_char_def)
  define t where "t = trim_prefix s ''::''"
  have "list_all ip_char t"
    using assms ipv6_groups_chars by (auto simp: parse_ipv6_def cut t_def [symmetric] Let_def split: if_splits option.splits)
  moreover have "s = t \<or> s = ''::'' @ t"
  proof (cases "has_prefix s ''::''")
    case True
    then have "take 2 s = ''::''" by (simp add: has_prefix_def numeral_2_eq_2)
    then have "''::'' @ drop 2 s = s" by (metis append_take_drop_id)
    then show ?thesis using True by (simp add: t_def trim_prefix_def numeral_2_eq_2)
  qed (simp add: t_def trim_prefix_def)
  ultimately show ?thesis using colon by auto
qed

lemma parse_ip_chars: "net_parse_ip ip \<noteq> None \<Longrightarrow> \<not> {CHR ''['', CHR '']''} \<inter> set ip \<noteq> {}"
proof -
  assume "net_parse_ip ip \<noteq> None"
  then have "list_all ip_char ip"
    by (auto simp: net_parse_ip_def parse_addr_def parse_ipv4_chars parse_ipv6_chars split: option.splits if_splits)
  then show ?thesis by (auto simp: list_all_iff ip_char_def)
qed


lemma pin_join:
  assumes "public_ip ip" "split_host_port dest = Some (host, port)"
  shows "flvxValidRealityPin (join_host_port ip port)" "split_host_port (join_host_port ip port) = Some (ip, port)"
proof -
  show "split_host_port (join_host_port ip port) = Some (ip, port)"
    using split_join_host_port [OF parse_ip_chars split_port_chars [OF assms(2)]] assms(1) by (simp add: public_ip_def)
  then show "flvxValidRealityPin (join_host_port ip port)" using assms(1) by (simp add: flvxValidRealityPin_def)
qed

text \<open>What a decision leads to, for a destination with a name.\<close>

definition free_move :: "pin_manager \<Rightarrow> Node \<Rightarrow> flvxRealityPin \<Rightarrow> bool" where
  "free_move m n pin \<longleftrightarrow>
     (let d = dest_of m (node_dest n); current = flvxPinIP pin
      in fst (best_of d) \<noteq> [] \<and> fst (best_of d) \<noteq> current
         \<and> (pin_failed d current \<or> (pin_slower (pinMargin m) d current \<or> pin_gone d current \<or> pn_fallback pin) \<and> pinMoveFree m n))"

lemma moved_pin_cases:
  shows "free_move m n pin \<Longrightarrow> \<exists>reason. moved_pin digest m n port pin
          = (pin\<lparr>pn_hash := digest n, pn_host := node_dest n\<rparr>)\<lparr>pn_dest := join_host_port (fst (best_of (dest_of m (node_dest n)))) port, pn_fallback := False,
                 pn_move_reason := reason, pn_moved_at := rd_checked_at (dest_of m (node_dest n))\<rparr>"
    and "\<not> free_move m n pin \<Longrightarrow> moved_pin digest m n port pin = pin\<lparr>pn_hash := digest n, pn_host := node_dest n\<rparr>"
  by (auto simp: moved_pin_def free_move_def flvxPinIP_def Let_def)

lemma free_move_same:
  "free_move m n (pin\<lparr>pn_hash := h, pn_host := g\<rparr>) = free_move m n pin"
  by (simp add: free_move_def flvxPinIP_def)

lemma realityPin_lookup:
  "realityPin digest m n = Some pin \<Longrightarrow> map_of (pm_pins m) (Node_Tag n) = Some pin \<and> flvxValidRealityPin (pn_dest pin)"
  by (auto simp: realityPin_def split: option.splits if_splits)

lemma realityPin_set:
  "realityPin digest (set_pin (Node_Tag n) pin m) n =
     (if flvxValidRealityPin (pn_dest pin) \<and> (pn_host pin = node_dest n \<or> pn_host pin = [] \<and> pn_hash pin = digest n)
      then Some pin else None)"
  by (simp add: realityPin_def set_pin_lookup)

lemma new_pin_fields [simp]:
  "pn_dest (new_pin digest n dest f) = dest" "pn_host (new_pin digest n dest f) = node_dest n" "pn_fallback (new_pin digest n dest f) = f"
  "(new_pin digest n dest f)\<lparr>pn_hash := digest n, pn_host := node_dest n\<rparr> = new_pin digest n dest f"
  by (simp_all add: new_pin_def)

text \<open>A decision taken twice from the same checks is the same.\<close>

lemma decision_again:
  assumes "ms_public (dest_of m (node_dest n))" "decision digest m n = Some pin"
  shows "decision digest (set_pin (Node_Tag n) pin m) n = Some pin"
proof -
  obtain host port where hp: "split_host_port (node_dest n) = Some (host, port)"
    using assms(2) by (auto simp: decision_def split: option.splits)
  show ?thesis
  proof (cases "net_parse_ip host \<noteq> None")
    case True
    then show ?thesis using assms(2) hp by (simp add: decision_def)
  next
    case False
    let ?m = "set_pin (Node_Tag n) pin m" and ?d = "dest_of m (node_dest n)"
    let ?best = "fst (best_of ?d)"
    have best: "?best \<noteq> [] \<Longrightarrow> public_ip ?best" using best_of_cases [OF assms(1)] by auto
    have free: "free_move ?m n q = free_move m n q" for q
      by (simp add: free_move_def pinMargin_def pinMoveFree_def)
    have kept: "decision digest ?m n = Some pin"
      if "realityPin digest ?m n = Some pin" "\<not> free_move m n pin" "pin\<lparr>pn_hash := digest n, pn_host := node_dest n\<rparr> = pin"
      using that hp False moved_pin_cases(2) [of ?m n pin digest port] free by (simp add: decision_def)
    have at_best: "\<not> free_move m n q" if "pn_dest q = join_host_port ?best port" "?best \<noteq> []" for q
      using pin_join(2) [OF best hp] that by (auto simp: free_move_def flvxPinIP_def Let_def)
    show ?thesis
    proof (cases "realityPin digest m n")
      case (Some old)
      then have pin: "pin = moved_pin digest m n port old" using assms(2) hp False by (simp add: decision_def)
      show ?thesis
      proof (cases "free_move m n old")
        case True
        then obtain reason where r: "pin = old\<lparr>pn_hash := digest n, pn_host := node_dest n, pn_dest := join_host_port ?best port,
            pn_fallback := False, pn_move_reason := reason, pn_moved_at := rd_checked_at ?d\<rparr>"
          using moved_pin_cases(1) [OF True] pin by auto
        have "?best \<noteq> []" using True by (auto simp: free_move_def Let_def)
        then show ?thesis using r at_best pin_join(1) [OF best hp] by (intro kept) (simp_all add: realityPin_set)
      next
        case nf: False
        then have p: "pin = old\<lparr>pn_hash := digest n, pn_host := node_dest n\<rparr>" using moved_pin_cases(2) pin by simp
        then show ?thesis
          using nf realityPin_lookup [OF Some] by (intro kept) (simp_all add: realityPin_set free_move_same)
      qed
    next
      case None
      show ?thesis
      proof (cases "?best = []")
        case True
        then have pin: "pin = new_pin digest n (join_host_port (hd (rd_dns ?d)) port) True" "rd_dns ?d \<noteq> []"
          using assms(2) hp False None by (auto simp: decision_def Let_def split: if_splits)
        show ?thesis
        proof (cases "realityPin digest ?m n")
          case None
          then show ?thesis using pin hp False True by (simp add: decision_def)
        next
          case (Some q)
          then have "q = pin" using realityPin_lookup [OF Some] by (simp add: set_pin_lookup)
          then show ?thesis using Some pin True by (intro kept) (simp_all add: free_move_def)
        qed
      next
        case False
        then have pin: "pin = new_pin digest n (join_host_port ?best port) False"
          using assms(2) hp \<open>\<not> net_parse_ip host \<noteq> None\<close> None by (simp add: decision_def Let_def)
        then show ?thesis using False at_best pin_join(1) [OF best hp] by (intro kept) (simp_all add: realityPin_set)
      qed
    qed
  qed
qed

section \<open>A pass that follows at once\<close>

lemma update_same: "map_of al k = Some v \<Longrightarrow> AList.update k v al = al"
  by (induction al) (auto split: if_splits)

definition pin_settled :: "(Node \<Rightarrow> string) \<Rightarrow> pin_manager \<Rightarrow> Node \<Rightarrow> bool" where
  "pin_settled digest m n \<longleftrightarrow> decision digest m n = None \<or> map_of (pm_pins m) (Node_Tag n) = decision digest m n"

lemma settled_id: "pin_settled digest m n \<Longrightarrow> decidePin digest m n = m"
  by (auto simp: pin_settled_def decidePin_decision set_pin_def update_same split: option.splits)

lemma decidePin_fields [simp]:
  "pm_payload (decidePin digest m n) = pm_payload m" "pm_applied (decidePin digest m n) = pm_applied m" "pm_used (decidePin digest m n) = pm_used m"
  "pm_report_nodes (decidePin digest m n) = pm_report_nodes m" "pm_dests (decidePin digest m n) = pm_dests m" "pm_epoch (decidePin digest m n) = pm_epoch m"
  "dest_of (decidePin digest m n) = dest_of m"
  by (simp_all add: decidePin_decision split: option.splits)

lemma decidePin_other:
  "Node_Tag k \<noteq> Node_Tag n \<Longrightarrow> map_of (pm_pins (decidePin digest m n)) (Node_Tag k) = map_of (pm_pins m) (Node_Tag k)"
  by (simp add: decidePin_decision set_pin_lookup split: option.splits)

lemma decision_other: "Node_Tag k \<noteq> Node_Tag n \<Longrightarrow> decision digest (decidePin digest m n) k = decision digest m k"
  by (intro decision_cong) (simp_all add: decidePin_other)

lemma settled_self: "ms_public (dest_of m (node_dest n)) \<Longrightarrow> pin_settled digest (decidePin digest m n) n"
  using decision_again [of m n digest] by (cases "decision digest m n") (simp_all add: pin_settled_def decidePin_decision set_pin_lookup)

lemma settled_other: "Node_Tag k \<noteq> Node_Tag n \<Longrightarrow> pin_settled digest m k \<Longrightarrow> pin_settled digest (decidePin digest m n) k"
  by (simp add: pin_settled_def decision_other decidePin_other)

lemma fold_decide_fields [simp]:
  "pm_payload (foldl (decidePin digest) m ns) = pm_payload m" "pm_applied (foldl (decidePin digest) m ns) = pm_applied m"
  "pm_used (foldl (decidePin digest) m ns) = pm_used m" "pm_report_nodes (foldl (decidePin digest) m ns) = pm_report_nodes m"
  "pm_dests (foldl (decidePin digest) m ns) = pm_dests m" "pm_epoch (foldl (decidePin digest) m ns) = pm_epoch m"
  "dest_of (foldl (decidePin digest) m ns) = dest_of m"
  by (induction ns arbitrary: m) simp_all

lemma fold_decide_keys: "fst ` set (pm_pins (foldl (decidePin digest) m ns)) \<subseteq> fst ` set (pm_pins m) \<union> Node_Tag ` set ns"
proof (induction ns arbitrary: m)
  case (Cons n ns)
  have "fst ` set (pm_pins (decidePin digest m n)) \<subseteq> fst ` set (pm_pins m) \<union> {Node_Tag n}"
    by (auto simp: decidePin_decision set_pin_def dom_update split: option.splits)
  then show ?case using Cons [of "decidePin digest m n"] unfolding foldl_Cons list.set image_insert by blast
qed simp

lemma fold_settled:
  assumes "distinct (map Node_Tag ns)" "\<forall>n \<in> set ns. ms_public (dest_of m (node_dest n))"
  shows "\<forall>n \<in> set ns. pin_settled digest (foldl (decidePin digest) m ns) n"
  using assms
proof (induction ns rule: rev_induct)
  case (snoc k ns)
  let ?m = "foldl (decidePin digest) m ns"
  have "pin_settled digest (decidePin digest ?m k) k" using snoc.prems by (intro settled_self) simp
  moreover have "pin_settled digest (decidePin digest ?m k) n" if "n \<in> set ns" for n
  proof -
    have "Node_Tag n \<in> Node_Tag ` set ns" using that by simp
    then have "Node_Tag n \<noteq> Node_Tag k" using snoc.prems(1) by auto
    then show ?thesis using snoc that by (intro settled_other) auto
  qed
  ultimately show ?case by auto
qed simp

lemma fold_settled_id: "\<forall>n \<in> set ns. pin_settled digest m n \<Longrightarrow> foldl (decidePin digest) m ns = m"
  by (induction ns) (simp_all add: settled_id)

text \<open>A node with a pin of its destination keeps having one.\<close>

lemma decide_keeps_pin:
  assumes "realityPin digest m n = Some old" "split_host_port (node_dest n) = Some (host, port)" "net_parse_ip host = None"
    and "ms_public (dest_of m (node_dest n))"
  shows "realityPin digest (decidePin digest m n) n = Some (moved_pin digest m n port old)"
proof -
  let ?best = "fst (best_of (dest_of m (node_dest n)))"
  have eq: "decidePin digest m n = set_pin (Node_Tag n) (moved_pin digest m n port old) m"
    using assms by (simp add: decidePin_def)
  show ?thesis
  proof (cases "free_move m n old")
    case True
    then have "public_ip ?best" using best_of_cases [OF assms(4)] by (auto simp: free_move_def Let_def)
    then show ?thesis using moved_pin_cases(1) [OF True, of digest port] pin_join(1) [OF _ assms(2)] by (auto simp: eq realityPin_set)
  next
    case False
    then show ?thesis using moved_pin_cases(2) [OF False] realityPin_lookup [OF assms(1)] by (simp add: eq realityPin_set)
  qed
qed

lemma realityPin_other: "Node_Tag k \<noteq> Node_Tag n \<Longrightarrow> realityPin digest (decidePin digest m n) k = realityPin digest m k"
  by (simp add: realityPin_def decidePin_other)

lemma fold_keeps_pin:
  assumes "distinct (map Node_Tag ns)" "n \<in> set ns" "realityPin digest m n \<noteq> None" "split_host_port (node_dest n) = Some (host, port)"
    and "net_parse_ip host = None" "ms_public (dest_of m (node_dest n))"
  shows "realityPin digest (foldl (decidePin digest) m ns) n \<noteq> None"
  using assms
proof (induction ns arbitrary: m)
  case (Cons k ns)
  have later: "realityPin digest (foldl (decidePin digest) m' ns) n = realityPin digest m' n" if "Node_Tag n \<notin> Node_Tag ` set ns" for m'
    using that by (induction ns arbitrary: m') (simp_all add: realityPin_other)
  show ?case
  proof (cases "Node_Tag k = Node_Tag n")
    case True
    then have k: "k = n" using Cons.prems(1,2) by auto
    obtain old where "realityPin digest m n = Some old" using Cons.prems(3) by auto
    then have "realityPin digest (decidePin digest m n) n \<noteq> None" using decide_keeps_pin Cons.prems(4-6) by simp
    then show ?thesis using later [of "decidePin digest m n"] Cons.prems(1) k by simp
  next
    case False
    then have "realityPin digest (decidePin digest m k) n \<noteq> None" using Cons.prems(3) by (subst realityPin_other) auto
    then show ?thesis using Cons.IH [of "decidePin digest m k"] Cons.prems False by auto
  qed
qed simp


text \<open>Every address that a check connects to is public.\<close>

lemma add_candidate_public: "\<forall>ip \<in> set cs. public_ip ip \<Longrightarrow> \<forall>ip \<in> set (foldl add_candidate cs ips). public_ip ip"
proof (induction ips arbitrary: cs)
  case (Cons a ips)
  have "\<forall>ip \<in> set (add_candidate cs a). public_ip ip" using Cons.prems by (auto simp: add_candidate_def)
  then show ?case using Cons.IH [of "add_candidate cs a"] by simp
qed simp

lemma raceTCP_keys: "fst ` set (raceTCP connect ips port) = set ips"
  by (auto simp: raceTCP_def image_image)

lemma check_fields:
  "ms_public (fst (checkRealityDest lookup connect dest d pinned now))"
  "rd_checked_at (fst (checkRealityDest lookup connect dest d pinned now)) = unix_milli now"
  "rd_live_at (fst (checkRealityDest lookup connect dest d pinned now)) = unix_milli now"
  "\<not> rd_due (fst (checkRealityDest lookup connect dest d pinned now))"
proof -
  have "\<forall>x \<in> set (raceTCP connect (foldl add_candidate [] ips) port). public_ip (fst x)" for ips port
    using add_candidate_public [of "[]" ips] by (auto simp: raceTCP_def)
  then show "ms_public (fst (checkRealityDest lookup connect dest d pinned now))"
    by (simp add: checkRealityDest_def Let_def ms_public_def del: foldl_append split: prod.splits option.splits)
qed (simp_all add: checkRealityDest_def Let_def split: prod.splits option.splits)

lemma run_job_cases:
  obtains (checked) d where "fst (run_pin_job lookup live connect now m j) = fst (checkRealityDest lookup connect (jb_dest j) d (jb_pinned j) now)"
  | (alive) "jb_live j" "fst (run_pin_job lookup live connect now m j) = (dest_of m (jb_dest j))\<lparr>rd_live_at := unix_milli now\<rparr>"
  by (cases "jb_live j \<and> \<not> list_ex (\<lambda>(_, ms). ms < 0) (raceTCP live (jb_pinned j) (case split_host_port (jb_dest j) of None \<Rightarrow> [] | Some (_, p) \<Rightarrow> p))")
     (auto simp: run_pin_job_def Let_def)

lemma run_job_public: "ms_public (dest_of m (jb_dest j)) \<Longrightarrow> ms_public (fst (run_pin_job lookup live connect now m j))"
  by (cases rule: run_job_cases [of lookup live connect now m j]) (simp_all add: check_fields, simp add: ms_public_def)

lemma fold_update:
  "distinct (map f js) \<Longrightarrow> map_of (foldl (\<lambda>ds j. AList.update (f j) (g j) ds) ds js) k
     = (case find (\<lambda>j. f j = k) js of None \<Rightarrow> map_of ds k | Some j \<Rightarrow> Some (g j))"
proof (induction js arbitrary: ds)
  case (Cons j js)
  show ?case
  proof (cases "f j = k")
    case True
    then have "find (\<lambda>j. f j = k) js = None" using Cons.prems by (auto simp: find_None_iff) (metis imageI)
    then show ?thesis using Cons True by (simp add: update_conv')
  next
    case False
    then show ?thesis using Cons by (simp add: update_conv' split: option.split)
  qed
qed simp

definition pin_jobs :: "(Node \<Rightarrow> string) \<Rightarrow> bool \<Rightarrow> time \<Rightarrow> pin_manager \<Rightarrow> Node list \<Rightarrow> pin_check list" where
  "pin_jobs digest full now m nodes = List.map_filter (pin_job digest full now m nodes) (sorted_unique (map node_dest nodes))"

lemma pin_job_dest: "pin_job digest full now m nodes dest = Some j \<Longrightarrow> jb_dest j = dest"
  by (auto simp: pin_job_def Let_def split: option.splits prod.splits if_splits)

lemma find_filter_map:
  assumes "\<And>x y. f x = Some y \<Longrightarrow> g y = x"
  shows "find (\<lambda>y. g y = k) (List.map_filter f xs) = (if k \<in> set xs then f k else None)"
  using assms by (induction xs) (auto simp: map_filter_simps split: option.splits)

lemma distinct_filter_map:
  assumes "\<And>x y. f x = Some y \<Longrightarrow> g y = x" "distinct xs"
  shows "distinct (map g (List.map_filter f xs))"
proof -
  have "set (map g (List.map_filter f xs)) \<subseteq> set xs" for xs
    using assms(1) by (induction xs) (auto simp: map_filter_simps split: option.splits)
  then show ?thesis
    using assms by (induction xs) (fastforce simp: map_filter_simps split: option.splits)+
qed

definition after_jobs ::
  "(Node \<Rightarrow> string) \<Rightarrow> (string \<Rightarrow> string list \<times> bool) \<Rightarrow> (string \<Rightarrow> duration option) \<Rightarrow> (string \<Rightarrow> duration option) \<Rightarrow> bool \<Rightarrow> time
   \<Rightarrow> Node list \<Rightarrow> pin_manager \<Rightarrow> pin_manager" where
  "after_jobs digest lookup live connect full now nodes m =
     m\<lparr>pm_dests := foldl (\<lambda>ds j. AList.update (jb_dest j) (fst (run_pin_job lookup live connect now m j)) ds) (pm_dests m)
                    (pin_jobs digest full now m nodes)\<rparr>"

lemma pinNodes_alt:
  "pinNodes digest lookup live connect full now nodes m
     = foldl (decidePin digest) (after_jobs digest lookup live connect full now nodes m) nodes"
  by (simp add: pinNodes_def after_jobs_def pin_jobs_def)

lemma dest_after_jobs:
  assumes "dest \<in> node_dest ` set nodes"
  shows "dest_of (after_jobs digest lookup live connect full now nodes m) dest
     = (case pin_job digest full now m nodes dest of
          None \<Rightarrow> dest_of m dest | Some j \<Rightarrow> fst (run_pin_job lookup live connect now m j))"
proof -
  have "distinct (map jb_dest (pin_jobs digest full now m nodes))"
    unfolding pin_jobs_def by (rule distinct_filter_map) (simp_all add: pin_job_dest)
  moreover have "find (\<lambda>j. jb_dest j = dest) (pin_jobs digest full now m nodes) = pin_job digest full now m nodes dest"
    unfolding pin_jobs_def using assms by (subst find_filter_map) (simp_all add: pin_job_dest)
  ultimately show ?thesis
    by (simp add: dest_of_def after_jobs_def fold_update split: option.splits)
qed

lemma age_now: "0 \<le> time_sub now (time_of_unix_milli (unix_milli now))" "time_sub now (time_of_unix_milli (unix_milli now)) < nanos_per_ms"
proof -
  have "now - time_of_unix_milli (unix_milli now) = (now - unix_epoch) mod nanos_per_ms"
    by (simp add: time_of_unix_milli_def unix_milli_def minus_div_mult_eq_mod [symmetric])
  moreover have "0 \<le> (now - unix_epoch) mod nanos_per_ms" "(now - unix_epoch) mod nanos_per_ms < nanos_per_ms"
    by (simp_all add: nanos_per_ms_def)
  ultimately show "0 \<le> time_sub now (time_of_unix_milli (unix_milli now))" "time_sub now (time_of_unix_milli (unix_milli now)) < nanos_per_ms"
    by (simp_all add: time_sub_def min_int64_def max_int64_def nanos_per_ms_def)
qed

lemma time_sub_mono: "a \<le> b \<Longrightarrow> time_sub now (time_of_unix_milli b) \<le> time_sub now (time_of_unix_milli a)"
  by (auto simp: time_sub_def time_of_unix_milli_def nanos_per_ms_def)


lemma no_job_left:
  assumes "distinct (map Node_Tag nodes)" "\<forall>n \<in> set nodes. ms_public (dest_of m (node_dest n))" "unix_milli now \<noteq> 0"
    and "dest \<in> node_dest ` set nodes"
  shows "pin_job digest False now (pinNodes digest lookup live connect full now nodes m) nodes dest = None"
proof (cases "split_host_port dest")
  case (Some hp)
  obtain host port where hp: "hp = (host, port)" by (cases hp)
  show ?thesis
  proof (cases "net_parse_ip host")
    case None
    let ?m1 = "after_jobs digest lookup live connect full now nodes m"
    let ?m2 = "pinNodes digest lookup live connect full now nodes m"
    let ?group = "filter (\<lambda>n. node_dest n = dest) nodes"
    define d where "d = dest_of m dest"
    define d2 where "d2 = dest_of ?m2 dest"
    have d2: "d2 = (case pin_job digest full now m nodes dest of None \<Rightarrow> d | Some j \<Rightarrow> fst (run_pin_job lookup live connect now m j))"
      using assms(4) by (simp add: d_def d2_def pinNodes_alt dest_after_jobs split: option.split)
    have pub: "ms_public d" using assms(2,4) by (auto simp: d_def)
    have pub2: "ms_public (dest_of ?m1 dest)"
      using assms(4) pub by (auto simp: dest_after_jobs d_def intro!: run_job_public dest: pin_job_dest split: option.splits)
    have same: "realityPin digest ?m1 n = realityPin digest m n" for n by (simp add: realityPin_def after_jobs_def)
    have mono: "realityPin digest ?m2 n \<noteq> None" if "n \<in> set ?group" "realityPin digest m n \<noteq> None" for n
      unfolding pinNodes_alt using that Some hp None pub2 same by (intro fold_keeps_pin [OF assms(1)]) auto
    define unpinned where "unpinned = (\<lambda>m. list_ex (\<lambda>n. realityPin digest m n = None) ?group)"
    have un: "unpinned ?m2 \<Longrightarrow> unpinned m" unfolding unpinned_def list_ex_iff using mono by blast
    define due where "due = (\<lambda>d m. rd_due d \<or> rd_checked_at d = 0 \<or> flvxPinRecheck \<le> time_sub now (time_of_unix_milli (rd_checked_at d))
        \<or> time_sub now (time_of_unix_milli (rd_checked_at d)) < 0
        \<or> unpinned m \<and> (fst (best_of d) = [] \<and> flvxPinRetry \<le> time_sub now (time_of_unix_milli (rd_checked_at d))
                         \<or> flvxPinFresh \<le> time_sub now (time_of_unix_milli (rd_checked_at d))))"
    define stale where "stale = (\<lambda>d :: flvxRealityDest. flvxPinLiveness \<le> time_sub now (time_of_unix_milli (max (rd_live_at d) (rd_checked_at d))))"
    define pinned where "pinned = (\<lambda>m. sorted_unique (map flvxPinIP (List.map_filter (realityPin digest m) ?group)))"
    have job: "pin_job digest full now m nodes dest = (if full \<or> due d m then Some \<lparr>jb_dest = dest, jb_pinned = pinned m, jb_live = False\<rparr>
        else if pinned m \<noteq> [] \<and> stale d then Some \<lparr>jb_dest = dest, jb_pinned = pinned m, jb_live = True\<rparr> else None)"
      and job2: "pin_job digest False now ?m2 nodes dest = (if due d2 ?m2 then Some \<lparr>jb_dest = dest, jb_pinned = pinned ?m2, jb_live = False\<rparr>
        else if pinned ?m2 \<noteq> [] \<and> stale d2 then Some \<lparr>jb_dest = dest, jb_pinned = pinned ?m2, jb_live = True\<rparr> else None)"
      using Some hp None by (auto simp: pin_job_def Let_def due_def stale_def unpinned_def pinned_def d_def d2_def)
    have fresh: "\<not> due e ?m2 \<and> \<not> stale e" if "rd_checked_at e = unix_milli now" "rd_live_at e = unix_milli now" "\<not> rd_due e" for e
      using that age_now [of now] assms(3)
      by (auto simp: due_def stale_def flvxPinRecheck_def flvxPinRetry_def flvxPinFresh_def flvxPinLiveness_def duration_defs)
    have d2_checked: ?thesis if "d2 = fst (checkRealityDest lookup connect dest d' ips now)" for d' ips
      using fresh [of d2] that job2 by (simp add: check_fields)
    show ?thesis
    proof (cases "pin_job digest full now m nodes dest")
      case None
      then have quiet: "d2 = d" "\<not> due d m" "pinned m = [] \<or> \<not> stale d" using job d2 by (auto split: if_splits)
      then have "\<not> due d ?m2" using un by (auto simp: due_def)
      moreover have "\<not> stale d" if "pinned m = []"
      proof -
        have "unpinned m"
        proof -
          obtain n where n: "n \<in> set ?group" using assms(4) by auto
          have "List.map_filter (realityPin digest m) ?group = []"
          proof -
            have "sorted_unique (map flvxPinIP (List.map_filter (realityPin digest m) ?group)) = []" using that unfolding pinned_def .
            then have "set (map flvxPinIP (List.map_filter (realityPin digest m) ?group)) = {}" by (metis set_sorted_unique list.set(1))
            then show ?thesis by (simp only: set_empty map_is_Nil_conv)
          qed
          then have "realityPin digest m n = None" using n by (auto simp: List.map_filter_def filter_empty_conv)
          then show ?thesis using n by (auto simp: unpinned_def list_ex_iff)
        qed
        then have "time_sub now (time_of_unix_milli (rd_checked_at d)) < flvxPinFresh" using quiet(2) by (auto simp: due_def)
        then show ?thesis using time_sub_mono [of "rd_checked_at d" "max (rd_live_at d) (rd_checked_at d)" now]
          by (simp add: stale_def flvxPinFresh_def flvxPinLiveness_def)
      qed
      ultimately show ?thesis using quiet job2 by auto
    next
      case (Some j)
      then have j: "jb_dest j = dest" "jb_live j \<Longrightarrow> \<not> due d m" using job by (auto split: if_splits)
      have ran: "d2 = fst (run_pin_job lookup live connect now m j)" using Some d2 by simp
      show ?thesis
      proof (cases rule: run_job_cases [of lookup live connect now m j])
        case (checked d')
        then show ?thesis using ran j(1) d2_checked by simp
      next
        case alive
        then have e: "d2 = d\<lparr>rd_live_at := unix_milli now\<rparr>" using ran j(1) by (simp add: d_def)
        have "\<not> due d2 ?m2" using j(2) alive(1) un by (auto simp: e due_def best_of_def fastest_def rd_answer_def)
        moreover have "\<not> stale d2"
          using time_sub_mono [of "unix_milli now" "max (unix_milli now) (rd_checked_at d)" now] age_now [of now]
          by (auto simp: stale_def e flvxPinLiveness_def duration_defs)
        ultimately show ?thesis using job2 by simp
      qed
    qed
  qed (simp add: pin_job_def Some hp)
qed (simp add: pin_job_def)


lemma pass_settles:
  assumes "distinct (map Node_Tag nodes)" "\<forall>n \<in> set nodes. ms_public (dest_of m (node_dest n))"
  shows "\<forall>n \<in> set nodes. pin_settled digest (pinNodes digest lookup live connect full now nodes m) n"
  unfolding pinNodes_alt
proof (rule fold_settled [OF assms(1)], safe)
  fix n assume "n \<in> set nodes"
  then show "ms_public (dest_of (after_jobs digest lookup live connect full now nodes m) (node_dest n))"
    using assms(2) by (auto simp: dest_after_jobs intro!: run_job_public dest: pin_job_dest split: option.splits)
qed

lemma pass_again:
  assumes "distinct (map Node_Tag nodes)" "\<forall>n \<in> set nodes. ms_public (dest_of m (node_dest n))" "unix_milli now \<noteq> 0"
  shows "pinNodes digest lookup' live' connect' False now nodes (pinNodes digest lookup live connect full now nodes m)
    = pinNodes digest lookup live connect full now nodes m"
proof -
  let ?m = "pinNodes digest lookup live connect full now nodes m"
  have "pin_jobs digest False now ?m nodes = []"
    unfolding pin_jobs_def List.map_filter_def
    using no_job_left [OF assms] by (auto simp: filter_empty_conv)
  then have "after_jobs digest lookup' live' connect' False now nodes ?m = ?m" by (simp add: after_jobs_def)
  then show ?thesis
    unfolding pinNodes_alt [of digest lookup' live' connect'] using fold_settled_id [OF pass_settles [OF assms(1,2)]] by simp
qed

lemma pinNodes_fields:
  "pm_payload (pinNodes digest lookup live connect full now nodes m) = pm_payload m"
  "pm_used (pinNodes digest lookup live connect full now nodes m) = pm_used m"
  "pm_epoch (pinNodes digest lookup live connect full now nodes m) = pm_epoch m"
  "fst ` set (pm_pins (pinNodes digest lookup live connect full now nodes m)) \<subseteq> fst ` set (pm_pins m) \<union> Node_Tag ` set nodes"
  "fst ` set (pm_dests (pinNodes digest lookup live connect full now nodes m)) \<subseteq> fst ` set (pm_dests m) \<union> node_dest ` set nodes"
proof -
  have keys: "fst ` set (foldl (\<lambda>ds j. AList.update (jb_dest j) (g j) ds) ds js) \<subseteq> fst ` set ds \<union> jb_dest ` set js" for g ds js
  proof (induction js arbitrary: ds)
    case (Cons j js)
    have "fst ` set (AList.update (jb_dest j) (g j) ds) \<subseteq> fst ` set ds \<union> {jb_dest j}" by (auto simp: dom_update)
    then show ?case using Cons [of "AList.update (jb_dest j) (g j) ds"] unfolding foldl_Cons list.set image_insert by blast
  qed simp
  have "jb_dest ` set (pin_jobs digest full now m nodes) \<subseteq> node_dest ` set nodes"
    using pin_job_dest by (fastforce simp: pin_jobs_def List.map_filter_def)
  then show "fst ` set (pm_dests (pinNodes digest lookup live connect full now nodes m)) \<subseteq> fst ` set (pm_dests m) \<union> node_dest ` set nodes"
    using keys [of "\<lambda>j. fst (run_pin_job lookup live connect now m j)" "pm_dests m" "pin_jobs digest full now m nodes"]
    unfolding pinNodes_alt fold_decide_fields after_jobs_def by (simp) blast
qed (use fold_decide_keys [of digest "after_jobs digest lookup live connect full now nodes m" nodes] in
     \<open>simp_all add: pinNodes_alt after_jobs_def\<close>)

lemma pinNodes_epoch:
  "pinNodes digest lookup live connect full now nodes (m\<lparr>pm_epoch := e\<rparr>) = (pinNodes digest lookup live connect full now nodes m)\<lparr>pm_epoch := e\<rparr>"
proof -
  have one: "decidePin digest (m\<lparr>pm_epoch := e\<rparr>) n = (decidePin digest m n)\<lparr>pm_epoch := e\<rparr>" for m n
    using decision_cong [of "m\<lparr>pm_epoch := e\<rparr>" n m digest] by (simp add: decidePin_decision dest_of_def set_pin_def split: option.splits)
  have fold: "foldl (decidePin digest) (m\<lparr>pm_epoch := e\<rparr>) ns = (foldl (decidePin digest) m ns)\<lparr>pm_epoch := e\<rparr>" for m ns
    by (induction ns arbitrary: m) (simp_all add: one)
  have "realityPin digest (m\<lparr>pm_epoch := e\<rparr>) = realityPin digest m" "dest_of (m\<lparr>pm_epoch := e\<rparr>) = dest_of m"
    by (simp_all add: fun_eq_iff realityPin_def dest_of_def)
  then have "pin_job digest full now (m\<lparr>pm_epoch := e\<rparr>) nodes dest = pin_job digest full now m nodes dest" for dest
    by (simp only: pin_job_def)
  then have "pin_job digest full now (m\<lparr>pm_epoch := e\<rparr>) nodes = pin_job digest full now m nodes" by (rule ext)
  moreover have "run_pin_job lookup live connect now (m\<lparr>pm_epoch := e\<rparr>) j = run_pin_job lookup live connect now m j" for j
    by (simp add: run_pin_job_def dest_of_def)
  ultimately have "after_jobs digest lookup live connect full now nodes (m\<lparr>pm_epoch := e\<rparr>)
      = (after_jobs digest lookup live connect full now nodes m)\<lparr>pm_epoch := e\<rparr>"
    by (simp add: after_jobs_def pin_jobs_def)
  then show ?thesis by (simp add: pinNodes_alt fold)
qed

definition dests_public :: "pin_manager \<Rightarrow> bool" where
  "dests_public m \<longleftrightarrow> (\<forall>(dest, d) \<in> set (pm_dests m). ms_public d)"

lemma dests_public_of: "dests_public m \<Longrightarrow> ms_public (dest_of m dest)"
  by (auto simp: dests_public_def dest_of_def ms_public_def dest0_def split: option.splits dest: map_of_SomeD)

text \<open>
  C10: The upkeep of the pins settles in one pass: a second pass at the same time, with whatever
  the resolver and the network answer then, starts no check, moves no pin and changes nothing.
\<close>

theorem refresh_settles:
  assumes "distinct (map Node_Tag (ds_node_list (pl_desired (pm_payload m))))" and "dests_public m" and "unix_milli now \<noteq> 0"
  shows "refreshRealityPins digest lookup' live' connect' now epoch (refreshRealityPins digest lookup live connect now epoch m)
    = refreshRealityPins digest lookup live connect now epoch m"
proof -
  define all where "all = filter (\<lambda>n. nd_vless n \<noteq> None) (ds_node_list (pl_desired (pm_payload m)))"
  define m1 where "m1 = m\<lparr>pm_pins := filter (\<lambda>(tag, _). tag \<in> Node_Tag ` set all) (pm_pins m),
                          pm_dests := filter (\<lambda>(dest, _). dest \<in> node_dest ` set all) (pm_dests m)\<rparr>"
  define nodes where "nodes = realityNodes now m"
  define m2 where "m2 = pinNodes digest lookup live connect (pm_epoch m \<noteq> epoch) now nodes m1"
  define m3 where "m3 = m2\<lparr>pm_epoch := epoch\<rparr>"
  have first: "refreshRealityPins digest lookup live connect now epoch m = m3"
    by (simp add: refreshRealityPins_def Let_def m1_def m2_def m3_def nodes_def all_def realityNodes_def)
  have sub: "set nodes \<subseteq> set all" by (auto simp: nodes_def all_def realityNodes_def Let_def)
  have dist: "distinct (map Node_Tag nodes)"
    using assms(1) by (simp add: nodes_def realityNodes_def Let_def distinct_map_filter)
  have pub: "\<forall>n \<in> set nodes. ms_public (dest_of m1 (node_dest n))"
    using assms(2) by (intro ballI dests_public_of) (auto simp: dests_public_def m1_def)
  have fields: "pm_payload m3 = pm_payload m" "pm_used m3 = pm_used m" "pm_epoch m3 = epoch"
    by (simp_all add: m3_def m2_def m1_def pinNodes_fields)
  have keys: "fst ` set (pm_pins m1) \<subseteq> Node_Tag ` set all" "fst ` set (pm_dests m1) \<subseteq> node_dest ` set all"
    by (auto simp: m1_def)
  have m3: "pm_pins m3 = pm_pins m2" "pm_dests m3 = pm_dests m2" by (simp_all add: m3_def)
  have pins: "fst ` set (pm_pins m3) \<subseteq> Node_Tag ` set all"
    using pinNodes_fields(4) [of digest lookup live connect "pm_epoch m \<noteq> epoch" now nodes m1] sub keys(1)
    unfolding m3 m2_def [symmetric] by blast
  have dests: "fst ` set (pm_dests m3) \<subseteq> node_dest ` set all"
    using pinNodes_fields(5) [of digest lookup live connect "pm_epoch m \<noteq> epoch" now nodes m1] sub keys(2)
    unfolding m3 m2_def [symmetric] by blast
  have same: "m3\<lparr>pm_pins := filter (\<lambda>(tag, _). tag \<in> Node_Tag ` set all) (pm_pins m3),
                  pm_dests := filter (\<lambda>(dest, _). dest \<in> node_dest ` set all) (pm_dests m3)\<rparr> = m3"
    using pins dests by (auto simp: image_subset_iff split_beta)
  have "pinNodes digest lookup' live' connect' False now nodes m3 = m3"
    using pass_again [OF dist pub assms(3), of digest lookup' live' connect' lookup live connect "pm_epoch m \<noteq> epoch"]
    by (simp add: m3_def m2_def pinNodes_epoch)
  moreover have "filter (\<lambda>n. nd_vless n \<noteq> None) (ds_node_list (pl_desired (pm_payload m3))) = all" "realityNodes now m3 = nodes"
    using fields by (simp_all add: all_def nodes_def realityNodes_def)
  moreover have "m3\<lparr>pm_epoch := epoch\<rparr> = m3" by (simp add: m3_def)
  moreover have "(pm_epoch m3 \<noteq> epoch) = False" using fields by simp
  ultimately show ?thesis
    unfolding first refreshRealityPins_def [of digest lookup' live' connect'] Let_def same by (simp only: same)
qed

text \<open>
  C24: After a decision the node has a valid pin. It is the fastest address of the last check
  (among those DNS gave, when DNS gave any), or its own address, if it was measured, answered
  and is not slower than the fastest by the margin. Only a node whose connections would break
  may keep a slower address, and only while that address answers.
\<close>

theorem pin_near_fastest:
  assumes "split_host_port (node_dest n) = Some (host, port)" and "net_parse_ip host = None"
    and "dests_public m" and "d = dest_of m (node_dest n)" and "best_of d = (best, best_ms)" and "best \<noteq> []"
  shows "\<exists>pin. realityPin digest (decidePin digest m n) n = Some pin \<and> public_ip best
    \<and> (\<forall>(ip, v) \<in> set (rd_ms d). 0 \<le> v \<and> eligible (rd_answer d) ip \<longrightarrow> best_ms \<le> v)
    \<and> (flvxPinIP pin = best
       \<or> (\<forall>ms. map_of (rd_ms d) (flvxPinIP pin) = Some ms \<longrightarrow>
            0 \<le> ms \<and> (pinMoveFree m n \<longrightarrow> f64 (ms - best_ms) \<le> 0 \<or> f64 (ms - best_ms) < pinMargin m)))"
proof -
  have pub: "ms_public d" using dests_public_of [OF assms(3)] assms(4) by simp
  have best: "public_ip best" using best_of_cases [OF pub] assms(5,6) by auto
  have least: "best_ms \<le> v" if "(ip, v) \<in> set (rd_ms d)" "0 \<le> v" "eligible (rd_answer d) ip" for ip v
    using fastest_spec(2) [OF pub that(1,3,2)] assms(5) by (auto simp: best_of_def)
  have at_best: "flvxPinIP q = best" if "pn_dest q = join_host_port best port" for q
    using pin_join(2) [OF best assms(1)] that by (simp add: flvxPinIP_def)
  have "\<exists>pin. realityPin digest (decidePin digest m n) n = Some pin
      \<and> (flvxPinIP pin = best \<or> (\<forall>ms. map_of (rd_ms d) (flvxPinIP pin) = Some ms \<longrightarrow>
            0 \<le> ms \<and> (pinMoveFree m n \<longrightarrow> f64 (ms - best_ms) \<le> 0 \<or> f64 (ms - best_ms) < pinMargin m)))"
  proof (cases "realityPin digest m n")
    case None
    then have "decidePin digest m n = set_pin (Node_Tag n) (new_pin digest n (join_host_port best port) False) m"
      using assms by (simp add: decidePin_def)
    then show ?thesis using at_best pin_join(1) [OF best assms(1)] by (simp add: realityPin_set)
  next
    case (Some old)
    then have "realityPin digest (decidePin digest m n) n = Some (moved_pin digest m n port old)"
      using decide_keeps_pin assms(1,2,4) pub by simp
    moreover have "flvxPinIP (moved_pin digest m n port old) = best \<or> (\<forall>ms. map_of (rd_ms d) (flvxPinIP (moved_pin digest m n port old)) = Some ms \<longrightarrow>
            0 \<le> ms \<and> (pinMoveFree m n \<longrightarrow> f64 (ms - best_ms) \<le> 0 \<or> f64 (ms - best_ms) < pinMargin m))"
    proof (cases "free_move m n old")
      case True
      then show ?thesis using moved_pin_cases(1) [OF True, of digest port] at_best assms(4,5) by auto
    next
      case False
      then have "flvxPinIP (moved_pin digest m n port old) = flvxPinIP old" by (simp add: moved_pin_cases(2) flvxPinIP_def)
      then show ?thesis
        using False assms(4-6) by (auto simp: free_move_def Let_def pin_failed_def pin_slower_def)
    qed
    ultimately show ?thesis by blast
  qed
  then show ?thesis using best least by auto
qed


section \<open>The report\<close>

definition status_ok :: "RealityPinStatus \<Rightarrow> bool" where
  "status_ok p \<longleftrightarrow> pin_ok p \<and> clean_pin p = p"

lemma sanitize_ok: "\<forall>p \<in> set ps. status_ok p \<Longrightarrow> SanitizeRealityPins ps = take MaxRealityPinReports ps"
  by (simp add: SanitizeRealityPins_def status_ok_def map_idI)

lemma merge_reasons:
  "\<lbrakk>\<forall>pin \<in> set pins. pn_move_reason pin \<in> R; r \<in> R\<rbrakk> \<Longrightarrow> foldl (merge_reason checked) r pins \<in> R"
  by (induction pins arbitrary: r) (auto simp: merge_reason_def)

text \<open>What the persisted state and an accepted desired state give.\<close>

definition report_base :: "(Node \<Rightarrow> string) \<Rightarrow> time \<Rightarrow> pin_manager \<Rightarrow> bool" where
  "report_base digest now m \<longleftrightarrow>
     list_all (\<lambda>n. ValidText (nd_id n) 64 \<and> public_dest (node_dest n)) (realityNodes now m)
     \<and> int (length (ds_node_list (pl_desired (pm_payload m)))) \<le> MaxNodes
     \<and> list_all (\<lambda>(_, pin). pn_move_reason pin \<in> {[], RealityPinMoveFaster, RealityPinMoveFailover}) (pm_pins m)
     \<and> list_all (\<lambda>(_, d). 0 \<le> rd_checked_at d \<and> list_all (\<lambda>(ip, v). public_ip ip \<and> validMS (Finite v)) (rd_ms d)) (pm_dests m)"

lemma status_of_pins:
  assumes base: "report_base digest now m"
    and pins: "pins = List.map_filter (\<lambda>n. map_option (Pair n) (realityPin digest m n)) (realityNodes now m)"
    and k: "k \<in> set (map (\<lambda>(n, pin). (node_dest n, flvxPinIP pin)) pins)"
  shows "status_ok (pin_status m pins k)"
proof -
  have mem: "n \<in> set (realityNodes now m) \<and> realityPin digest m n = Some pin" if "(n, pin) \<in> set pins" for n pin
    using that by (auto simp: pins List.map_filter_def)
  obtain n pin where np: "(n, pin) \<in> set pins" "k = (node_dest n, flvxPinIP pin)" using k by auto
  define d where "d = dest_of m (node_dest n)"
  have d: "0 \<le> rd_checked_at d" "\<forall>(ip, v) \<in> set (rd_ms d). public_ip ip \<and> validMS (Finite v)"
    using base by (auto simp: report_base_def d_def dest_of_def dest0_def list_all_iff split: option.splits dest!: map_of_SomeD)
  then have "ms_public d" by (auto simp: ms_public_def)
  then have best: "fst (best_of d) = [] \<or> public_ip (fst (best_of d)) \<and> validMS (Finite (snd (best_of d)))"
    using best_of_cases [of d] d(2) by (cases "best_of d") auto
  have ip: "public_ip (flvxPinIP pin)"
    using realityPin_lookup [of digest m n pin] mem [OF np(1)] by (auto simp: flvxValidRealityPin_def flvxPinIP_def split: option.splits)
  have dest: "public_dest (node_dest n)" using base mem [OF np(1)] by (auto simp: report_base_def list_all_iff)
  define group where "group = filter (\<lambda>(n, pin). (node_dest n, flvxPinIP pin) = k) pins"
  have ids: "list_all (\<lambda>i. ValidText i 64) (sort (map (\<lambda>(n, _). nd_id n) group))"
    using base mem by (auto simp: report_base_def list_all_iff group_def)
  have "length group \<le> length (realityNodes now m)"
    using length_filter_le [of _ pins] unfolding group_def pins List.map_filter_def
    by (metis (no_types, lifting) length_filter_le length_map order_trans)
  also have "\<dots> \<le> length (ds_node_list (pl_desired (pm_payload m)))" by (simp add: realityNodes_def Let_def)
  finally have len: "length group \<le> nat MaxNodes" using base unfolding report_base_def by linarith
  have "\<forall>p \<in> set (map snd group). pn_move_reason p \<in> {[], RealityPinMoveFaster, RealityPinMoveFailover}"
    using base mem realityPin_lookup by (fastforce simp: report_base_def list_all_iff group_def dest: map_of_SomeD)
  then have reason: "foldl (merge_reason (rd_checked_at d)) [] (map snd group) \<in> {[], RealityPinMoveFaster, RealityPinMoveFailover}"
    by (rule merge_reasons) simp
  have pinned_ms: "validMS (Finite (case map_of (rd_ms d) (flvxPinIP pin) of None \<Rightarrow> -1 | Some v \<Rightarrow> v))"
    using d(2) by (auto simp: validMS_def split: option.splits dest!: map_of_SomeD)
  obtain best ms where b: "best_of d = (best, ms)" by (cases "best_of d")
  have status: "pin_status m pins k = \<lparr>rp_host = node_dest n, rp_pinned_ip = flvxPinIP pin,
      rp_pinned_ms = Finite (case map_of (rd_ms d) (flvxPinIP pin) of None \<Rightarrow> -1 | Some v \<Rightarrow> v),
      rp_best_ip = best, rp_best_ms = Finite (if best = [] then -1 else ms), rp_checked_at = rd_checked_at d,
      rp_nodes = sort (map (\<lambda>(n, _). nd_id n) group),
      rp_fallback = (case group of [] \<Rightarrow> False | (_, pin) # _ \<Rightarrow> pn_fallback pin),
      rp_move_reason = foldl (merge_reason (rd_checked_at d)) [] (map snd group)\<rparr>"
    using np(2) b by (simp add: pin_status_def d_def [symmetric] group_def Let_def)
  have "pin_ok (pin_status m pins k)"
    using dest ip pinned_ms best b d(1) by (auto simp: status pin_ok_def public_dest_def validMS_def split: option.splits)
  moreover have "clean_pin (pin_status m pins k) = pin_status m pins k"
    using ids len reason by (auto simp: status clean_pin_def list_all_iff)
  ultimately show ?thesis by (simp add: status_ok_def)
qed

text \<open>
  C29: What the Helper reports about its pins passes the controller's check unchanged: no entry
  is dropped and no field is cut, apart from the limit on their number.
\<close>

theorem pin_report_kept:
  assumes "report_base digest now m"
  shows "SanitizeRealityPins (realityPinStatus digest now m) = take MaxRealityPinReports (realityPinStatus digest now m)"
proof (rule sanitize_ok)
  show "\<forall>p \<in> set (realityPinStatus digest now m). status_ok p"
    using status_of_pins [OF assms refl] by (auto simp: realityPinStatus_def Let_def)
qed


section \<open>A small system\<close>

definition ex_pins :: pin_manager where
  "ex_pins =
     \<lparr>pm_payload = gm_payload (ex_guards [with_dest ''a.example:443'' ex_node_a, with_dest ''a.example:443'' ex_node_b]), pm_used = 0, pm_pins = [], pm_dests = [], pm_applied = [],
      pm_report_nodes = [], pm_epoch = []\<rparr>"

definition ex_now :: time where "ex_now = unix_epoch + hour"

definition ex_lookup :: "string \<Rightarrow> string list \<times> bool" where "ex_lookup host = ([''9.9.9.9'', ''8.8.8.8''], False)"

definition ex_connect :: "string \<Rightarrow> duration option" where
  "ex_connect address = (if address = ''8.8.8.8:443'' then Some 41234567 else if address = ''9.9.9.9:443'' then Some 7650000 else None)"

definition ex_passed :: pin_manager where
  "ex_passed = refreshRealityPins nd_id ex_lookup ex_connect ex_connect ex_now ''e1'' ex_pins"

lemma ex_passed_pins:
  "map (\<lambda>(tag, pin). (tag, pn_dest pin)) (pm_pins ex_passed) = [(''flvxl-a'', ''9.9.9.9:443''), (''flvxl-b'', ''9.9.9.9:443'')]"
  by code_simp


theorem refresh_settles_witness:
  "refreshRealityPins nd_id (\<lambda>_. ([''7.7.7.7''], False)) (\<lambda>_. Some 1) (\<lambda>_. Some 1) ex_now ''e1'' ex_passed = ex_passed
   \<and> map (\<lambda>(tag, pin). (tag, pn_dest pin)) (pm_pins ex_passed) = [(''flvxl-a'', ''9.9.9.9:443''), (''flvxl-b'', ''9.9.9.9:443'')]"
proof -
  have "distinct (map Node_Tag (ds_node_list (pl_desired (pm_payload ex_pins))))" "unix_milli ex_now \<noteq> 0" by code_simp+
  moreover have "dests_public ex_pins" by (simp add: dests_public_def ex_pins_def)
  ultimately show ?thesis unfolding ex_passed_def using ex_passed_pins unfolding ex_passed_def by (intro conjI refresh_settles)
qed

definition ex_node_pinned :: Node where "ex_node_pinned = with_dest ''a.example:443'' ex_node_a"

text \<open>The same destination, now with the fast address slower by 80 ms.\<close>

definition ex_slow :: pin_manager where
  "ex_slow = ex_pins
     \<lparr>pm_pins := map (\<lambda>n. (Node_Tag n, new_pin nd_id n ''9.9.9.9:443'' False))
                  [with_dest ''a.example:443'' ex_node_a, with_dest ''a.example:443'' ex_node_b],
      pm_dests := [(''a.example:443'', \<lparr>rd_checked_at = 1000, rd_live_at = 1000, rd_ms = [(''8.8.8.8'', 20), (''9.9.9.9'', 100)],
                     rd_dns = [''8.8.8.8'', ''9.9.9.9''], rd_dns_at = 1000, rd_seen = [], rd_due = False\<rparr>)]\<rparr>"

lemma ex_slow_facts:
  "split_host_port (node_dest ex_node_pinned) = Some (''a.example'', ''443'')" "net_parse_ip ''a.example'' = None"
  "list_all (\<lambda>(_, d). list_all (\<lambda>(ip, _). public_ip ip) (rd_ms d)) (pm_dests ex_slow)"
  "best_of (dest_of ex_slow (node_dest ex_node_pinned)) = (''8.8.8.8'', 20)"
  "map_option flvxPinIP (realityPin nd_id (decidePin nd_id ex_slow ex_node_pinned) ex_node_pinned) = Some ''8.8.8.8''"
  by code_simp+

theorem pin_near_fastest_witness:
  "public_ip ''8.8.8.8''
   \<and> map_option flvxPinIP (realityPin nd_id (decidePin nd_id ex_slow ex_node_pinned) ex_node_pinned) = Some ''8.8.8.8''"
proof -
  have "dests_public ex_slow" using ex_slow_facts(3) unfolding dests_public_def ms_public_def list_all_iff by force
  then show ?thesis
    using pin_near_fastest [OF ex_slow_facts(1,2) _ refl ex_slow_facts(4), of nd_id] ex_slow_facts(5) by auto
qed

lemma ex_report_base: "report_base nd_id ex_now ex_slow" by code_simp

theorem pin_report_kept_witness:
  "SanitizeRealityPins (realityPinStatus nd_id ex_now ex_slow) = realityPinStatus nd_id ex_now ex_slow
   \<and> map rp_nodes (realityPinStatus nd_id ex_now ex_slow) = [[''a'', ''b'']]"
proof -
  have "map rp_nodes (realityPinStatus nd_id ex_now ex_slow) = [[''a'', ''b'']]" by code_simp
  moreover from this have "length (realityPinStatus nd_id ex_now ex_slow) = 1" by (metis length_map length_Cons list.size(3) One_nat_def)
  ultimately show ?thesis using pin_report_kept [OF ex_report_base] by (simp add: MaxRealityPinReports_def)
qed

end
