(* ===== verification/Core_Mode.thy ===== *)
theory Core_Mode
  imports Helper_Batch
begin

text \<open>
  The Core mode of a server (\<open>core_mode.go\<close>): the mode an administrator asked for, what
  the official controller records and what the Helper reports, and the repair command
  that a sustained difference leads to. Arguments: the runtime row of the controller's
  database, the clock (one reading per pass), the random id, whether the state file
  could be written.
\<close>

section \<open>Operations\<close>

record remoteServerRuntime =
  rr_xray_mode :: string
  rr_status :: string
  rr_last_heartbeat :: "time option"

definition coreDriftGrace :: duration where "coreDriftGrace = 20 * second"

definition coreRepairBackoff :: "duration list" where
  "coreRepairBackoff = [minute, 5 * minute, 15 * minute, 30 * minute]"

definition zero_intent :: coreModeIntent where
  "zero_intent = \<lparr>ci_desired_mode = [], ci_custom_core_owned = False, ci_pending_change = False, ci_lifecycle_source = [],
     ci_machine_id = [], ci_repair_status = [], ci_waiting_official_since = 0, ci_repair_attempts = 0, ci_last_repair_at = 0,
     ci_last_repair_reason = [], ci_last_repair_error = [], ci_next_repair_at = 0, ci_last_observed_mode = [],
     ci_drift_detected_at = 0, ci_formal_changed_from = [], ci_formal_changed_at = 0, ci_formal_change_unconfirmed = False,
     ci_updated_at = 0\<rparr>"

definition newCoreModeIntent :: "string \<Rightarrow> time \<Rightarrow> coreModeIntent" where
  "newCoreModeIntent mode now =
     zero_intent\<lparr>ci_desired_mode := mode, ci_custom_core_owned := True, ci_lifecycle_source := ''formal'',
       ci_repair_status := ''drift_detected'', ci_updated_at := now\<rparr>"

definition put_intent :: "string \<Rightarrow> coreModeIntent \<Rightarrow> helperState \<Rightarrow> helperState" where
  "put_intent server i s = s\<lparr>hs_intents := (hs_intents s)(server := Some i)\<rparr>"

text \<open>The intent stays in memory when the file cannot be written.\<close>

definition setCoreModeIntent :: "bool \<Rightarrow> time \<Rightarrow> time \<Rightarrow> string \<Rightarrow> string \<Rightarrow> helperState \<Rightarrow> helperState \<times> (string + coreModeIntent)" where
  "setCoreModeIntent save_ok clock now server mode s =
     (if mode \<noteq> ''external'' \<and> mode \<noteq> ''embedded'' then (s, Inl ''invalid desired core mode'')
      else case hs_servers s server of
        None \<Rightarrow> (s, Inl ''helper is not registered'')
      | Some ident \<Rightarrow>
          (let i = (newCoreModeIntent mode now)\<lparr>ci_pending_change := True, ci_lifecycle_source := ''custom-explicit'',
                     ci_machine_id := id_custom_uuid ident,
                     ci_last_observed_mode := (case hs_intents s server of None \<Rightarrow> [] | Some j \<Rightarrow> ci_last_observed_mode j)\<rparr>;
               s1 = put_intent server i s
           in if save_ok then (saved clock s1, Inr i) else (s1, Inl ''save'')))"

definition fresh_report :: "agentStatus \<Rightarrow> time \<Rightarrow> bool" where
  "fresh_report status now \<longleftrightarrow> as_reported_at status \<noteq> 0 \<and> time_sub now (as_reported_at status) \<le> helperStaleTimeout"

definition coreModeLocalHealthy :: "coreModeIntent \<Rightarrow> agentStatus \<Rightarrow> time \<Rightarrow> bool" where
  "coreModeLocalHealthy i status now \<longleftrightarrow>
     fresh_report status now
     \<and> (if ci_desired_mode i = ''embedded'' then as_core_mode status = ''embedded'' \<and> \<not> eo_enabled (as_ownership status)
        else as_core_mode status = ''external'' \<and> eo_enabled (as_ownership status) \<and> eo_service_owned (as_ownership status)
          \<and> eo_runtime_owned (as_ownership status) \<and> eo_single_core (as_ownership status) \<and> eo_service_active (as_ownership status)
          \<and> eo_core_ready (as_ownership status))"

definition coreModeHealthy :: "coreModeIntent \<Rightarrow> agentStatus \<Rightarrow> remoteServerRuntime \<Rightarrow> time \<Rightarrow> bool" where
  "coreModeHealthy i status rt now \<longleftrightarrow>
     rr_status rt = ''connected''
     \<and> (case rr_last_heartbeat rt of None \<Rightarrow> True | Some t \<Rightarrow> time_sub now t \<le> 90 * second)
     \<and> rr_xray_mode rt = ci_desired_mode i \<and> coreModeLocalHealthy i status now"

definition nextCoreRepairDelay :: "int \<Rightarrow> duration" where
  "nextCoreRepairDelay attempts =
     (if attempts \<le> 0 then 0
      else (let index = attempts - 1
            in coreRepairBackoff ! nat (if int (length coreRepairBackoff) \<le> index then int (length coreRepairBackoff) - 1 else index)))"

definition formal_known :: "remoteServerRuntime \<Rightarrow> bool" where
  "formal_known rt \<longleftrightarrow> rr_xray_mode rt = ''embedded'' \<or> rr_xray_mode rt = ''external''"

definition formal_changed :: "coreModeIntent \<Rightarrow> remoteServerRuntime \<Rightarrow> bool" where
  "formal_changed i rt \<longleftrightarrow>
     formal_known rt
     \<and> (ci_last_observed_mode i \<noteq> [] \<and> ci_last_observed_mode i \<noteq> rr_xray_mode rt
        \<or> \<not> ci_pending_change i \<and> ci_desired_mode i \<noteq> rr_xray_mode rt)"

text \<open>What a pass notes before it decides: the recorded mode, the machine, the last result.\<close>

definition note_formal :: "time \<Rightarrow> remoteServerRuntime \<Rightarrow> coreModeIntent \<Rightarrow> coreModeIntent" where
  "note_formal now rt i =
     (if formal_known rt \<and> ci_last_observed_mode i \<noteq> [] \<and> ci_last_observed_mode i \<noteq> rr_xray_mode rt
      then (if ci_pending_change i \<and> ci_lifecycle_source i = ''custom-explicit'' \<and> ci_desired_mode i = rr_xray_mode rt
            then i\<lparr>ci_formal_change_unconfirmed := False\<rparr>
            else i\<lparr>ci_formal_changed_from := ci_last_observed_mode i, ci_formal_changed_at := now,
                   ci_formal_change_unconfirmed := (rr_xray_mode rt = ''embedded'')\<rparr>)
      else i)"

definition adopt_formal :: "remoteServerRuntime \<Rightarrow> coreModeIntent \<Rightarrow> coreModeIntent" where
  "adopt_formal rt i =
     (if \<not> ci_pending_change i \<and> formal_known rt \<and> ci_desired_mode i \<noteq> rr_xray_mode rt
      then i\<lparr>ci_desired_mode := rr_xray_mode rt, ci_custom_core_owned := True, ci_lifecycle_source := ''formal'', ci_repair_attempts := 0,
             ci_last_repair_error := [], ci_next_repair_at := 0, ci_last_repair_reason := ''formal lifecycle mode observed''\<rparr>
      else i)"

definition note_result :: "time \<Rightarrow> managementResult option \<Rightarrow> coreModeIntent \<Rightarrow> coreModeIntent" where
  "note_result now result i =
     (case result of
        None \<Rightarrow> i
      | Some r \<Rightarrow>
          if mr_action r = ''core.mode.apply''
          then (let n = ci_repair_attempts i + 1;
                    j = i\<lparr>ci_last_repair_at := mr_completed_at r, ci_repair_attempts := n, ci_next_repair_at := now + nextCoreRepairDelay n\<rparr>
                in if mr_success r
                   then j\<lparr>ci_last_repair_error := [], ci_last_repair_reason := ''apply completed''\<rparr>
                   else j\<lparr>ci_last_repair_error := sanitizeCoreModeMessage (mr_message r), ci_last_repair_reason := ''repair failed''\<rparr>)
          else i)"

definition observe_intent ::
  "time \<Rightarrow> agentStatus \<Rightarrow> remoteServerRuntime \<Rightarrow> managementResult option \<Rightarrow> coreModeIntent \<Rightarrow> coreModeIntent" where
  "observe_intent now status rt result i0 =
     (let i1 = (if coreModeHealthy i0 status rt now \<or> rr_xray_mode rt \<noteq> ci_desired_mode i0 \<or> \<not> coreModeLocalHealthy i0 status now
                then i0\<lparr>ci_waiting_official_since := 0\<rparr> else i0);
          i2 = adopt_formal rt (note_formal now rt i1);
          i3 = (if formal_known rt then i2\<lparr>ci_last_observed_mode := rr_xray_mode rt\<rparr> else i2);
          i4 = (if as_machine_id status \<noteq> [] then i3\<lparr>ci_machine_id := as_machine_id status\<rparr> else i3)
      in note_result now result i4)"

definition commitIntentLocked :: "bool \<Rightarrow> time \<Rightarrow> coreModeIntent \<Rightarrow> coreModeIntent \<Rightarrow> helperState \<Rightarrow> helperState \<times> bool" where
  "commitIntentLocked save_ok clock previous next_intent s =
     (if previous\<lparr>ci_updated_at := 0\<rparr> = next_intent\<lparr>ci_updated_at := 0\<rparr> then (markVolatileLocked s, True)
      else if save_ok then (saved clock s, True) else (s, False))"

definition settle ::
  "bool \<Rightarrow> time \<Rightarrow> time \<Rightarrow> string \<Rightarrow> coreModeIntent \<Rightarrow> coreModeIntent \<Rightarrow> managementCommand option \<Rightarrow> helperState
     \<Rightarrow> helperState \<times> (string + managementCommand option)" where
  "settle save_ok clock now server previous i out s =
     (let (s', ok) = commitIntentLocked save_ok clock previous (i\<lparr>ci_updated_at := now\<rparr>) (put_intent server (i\<lparr>ci_updated_at := now\<rparr>) s)
      in (s', if ok then Inr out else Inl ''save''))"

definition healthy_intent :: "coreModeIntent \<Rightarrow> coreModeIntent" where
  "healthy_intent i =
     i\<lparr>ci_drift_detected_at := 0, ci_pending_change := False, ci_lifecycle_source := ''formal'', ci_repair_status := ''healthy'',
       ci_repair_attempts := 0, ci_last_repair_error := [], ci_last_repair_reason := ''formal lifecycle mode healthy'',
       ci_next_repair_at := 0\<rparr>"

definition live_repair :: "time \<Rightarrow> managementCommand \<Rightarrow> bool" where
  "live_repair now c \<longleftrightarrow> cm_action c = ''core.mode.apply'' \<and> now < cm_expires_at c"

definition waiting_intent :: "time \<Rightarrow> bool \<Rightarrow> coreModeIntent \<Rightarrow> coreModeIntent" where
  "waiting_intent now changed i =
     (let j = (if ci_drift_detected_at i = 0 \<and> ci_repair_status i \<noteq> ''waiting_official'' then i\<lparr>ci_drift_detected_at := now\<rparr> else i)
      in if ci_pending_change j \<or> changed \<or> ci_repair_status j = ''waiting_official''
            \<or> coreDriftGrace < time_sub now (ci_drift_detected_at j)
         then j\<lparr>ci_waiting_official_since := (if ci_waiting_official_since j = 0 then now else ci_waiting_official_since j),
                ci_repair_status := ''waiting_official'', ci_last_repair_reason := ''waiting for official runtime'',
                ci_last_repair_error := [], ci_drift_detected_at := 0\<rparr>
         else j)"

definition drift_intent :: "time \<Rightarrow> bool \<Rightarrow> coreModeIntent \<Rightarrow> coreModeIntent" where
  "drift_intent now changed i =
     (if \<not> ci_pending_change i \<and> \<not> changed \<and> ci_drift_detected_at i = 0 then i\<lparr>ci_drift_detected_at := now\<rparr> else i)"

definition in_grace :: "time \<Rightarrow> bool \<Rightarrow> coreModeIntent \<Rightarrow> bool" where
  "in_grace now changed i \<longleftrightarrow>
     \<not> ci_pending_change i \<and> \<not> changed \<and> time_sub now (ci_drift_detected_at i) \<le> coreDriftGrace"

definition coreModeAdminSessionRequired :: string where
  "coreModeAdminSessionRequired = ''an active official administrator session is required for Core handoff''"

definition repair_command :: "agent_lib \<Rightarrow> string \<Rightarrow> time \<Rightarrow> string \<Rightarrow> managementCommand" where
  "repair_command lib u now mode = new_command u ''core.mode.apply'' (lib_mode_json lib mode) now managementCommandTTL"

definition queue_repair ::
  "agent_lib \<Rightarrow> bool \<Rightarrow> time \<Rightarrow> string option \<Rightarrow> time \<Rightarrow> string \<Rightarrow> coreModeIntent \<Rightarrow> helperState
     \<Rightarrow> helperState \<times> (string + managementCommand option)" where
  "queue_repair lib save_ok clock uuid now server i s =
     (case uuid of
        None \<Rightarrow> (s, Inl ''random'')
      | Some u \<Rightarrow>
          (let c0 = repair_command lib u now (ci_desired_mode i)
           in case lib_sign lib (token_hash_of server s) c0 of
                None \<Rightarrow> (s, Inl ''invalid helper signing key'')
              | Some sig \<Rightarrow>
                  (let c = c0\<lparr>cm_signature := sig\<rparr>;
                       s1 = put_intent server (i\<lparr>ci_repair_status := ''repairing'', ci_last_repair_reason := ''core mode drift detected'',
                              ci_updated_at := now\<rparr>) (s\<lparr>hs_commands := (hs_commands s)(server := hs_commands s server @ [c])\<rparr>)
                   in if save_ok then (saved clock s1, Inr (Some c)) else (s1, Inl ''save''))))"

definition reconcileCoreMode ::
  "agent_lib \<Rightarrow> bool \<Rightarrow> time \<Rightarrow> string option \<Rightarrow> time \<Rightarrow> string \<Rightarrow> agentStatus \<Rightarrow> remoteServerRuntime \<Rightarrow> managementResult option
     \<Rightarrow> helperState \<Rightarrow> helperState \<times> (string + managementCommand option)" where
  "reconcileCoreMode lib save_ok clock uuid now server status rt result s =
     (case hs_intents s server of
        None \<Rightarrow> (s, Inr None)
      | Some previous \<Rightarrow>
          (let changed = formal_changed previous rt;
               i = observe_intent now status rt result previous
           in if coreModeHealthy i status rt now then settle save_ok clock now server previous (healthy_intent i) None s
              else case find (live_repair now) (hs_commands s server) of
                Some c \<Rightarrow> settle save_ok clock now server previous (i\<lparr>ci_repair_status := ''repairing''\<rparr>) (Some c) s
              | None \<Rightarrow>
                  if rr_xray_mode rt = ci_desired_mode i \<and> coreModeLocalHealthy i status now
                  then settle save_ok clock now server previous (waiting_intent now changed i) None s
                  else (let j = drift_intent now changed i
                        in if in_grace now changed j then settle save_ok clock now server previous j None s
                           else if \<not> capability status ''core.mode.apply''
                           then settle save_ok clock now server previous
                                  (j\<lparr>ci_repair_status := ''degraded'', ci_last_repair_error := ''Helper upgrade required''\<rparr>) None s
                           else if ci_next_repair_at j \<noteq> 0 \<and> now < ci_next_repair_at j
                           then settle save_ok clock now server previous
                                  (j\<lparr>ci_repair_status :=
                                       (if int (length coreRepairBackoff) \<le> ci_repair_attempts j
                                           \<or> str_contains (ci_last_repair_error j) coreModeAdminSessionRequired
                                        then ''degraded'' else ''drift_detected'')\<rparr>) None s
                           else queue_repair lib save_ok clock uuid now server j s)))"

record coreModeSummary =
  sm_configured :: bool
  sm_desired_mode :: string
  sm_current_mode :: string
  sm_repair_status :: string
  sm_waiting_official_since :: time
  sm_pending_change :: bool
  sm_last_repair_error :: string
  sm_formal_changed_from :: string
  sm_formal_changed_at :: time
  sm_formal_change_unconfirmed :: bool
  sm_fresh :: bool
  sm_can_switch :: bool

definition coreModeSummaries :: "time \<Rightarrow> helperState \<Rightarrow> string \<Rightarrow> coreModeSummary option" where
  "coreModeSummaries now s server =
     (if hs_servers s server = None then None
      else (let status = hs_statuses s server;
                i = (case hs_intents s server of None \<Rightarrow> zero_intent | Some i \<Rightarrow> i)
            in Some \<lparr>sm_configured = (hs_intents s server \<noteq> None), sm_desired_mode = ci_desired_mode i,
                 sm_current_mode = as_core_mode status, sm_repair_status = ci_repair_status i,
                 sm_waiting_official_since = ci_waiting_official_since i, sm_pending_change = ci_pending_change i,
                 sm_last_repair_error = ci_last_repair_error i, sm_formal_changed_from = ci_formal_changed_from i,
                 sm_formal_changed_at = ci_formal_changed_at i, sm_formal_change_unconfirmed = ci_formal_change_unconfirmed i,
                 sm_fresh = fresh_report status now, sm_can_switch = capability status ''core.mode.apply''\<rparr>))"

definition digits_path :: "string \<Rightarrow> string \<Rightarrow> string option" where
  "digits_path suffix v =
     (if \<not> has_prefix v ''/api/custom/servers/'' \<or> \<not> has_suffix v suffix then None
      else (let server = trim_suffix (trim_prefix v ''/api/custom/servers/'') suffix
            in if server = [] \<or> CHR ''/'' \<in> set server \<or> \<not> list_all is_digit server \<or> server = ''0'' then None else Some server))"

definition parseCoreModePath :: "string \<Rightarrow> string option" where
  "parseCoreModePath = digits_path ''/core-mode''"

definition parseAgentManagementPath :: "string \<Rightarrow> string option" where
  "parseAgentManagementPath = digits_path ''/agent''"


section \<open>What a pass leaves of an intent\<close>

lemma saved_simps [simp]:
  "hs_intents (saved clock s) = hs_intents s" "hs_commands (saved clock s) = hs_commands s" "hs_statuses (saved clock s) = hs_statuses s"
  "hs_servers (saved clock s) = hs_servers s" "hs_intents (markVolatileLocked s) = hs_intents s"
  "hs_commands (markVolatileLocked s) = hs_commands s" "hs_batch (markVolatileLocked s) = hs_batch s"
  by (simp_all add: saved_def markVolatileLocked_def)

lemma put_intent_simps [simp]:
  "hs_intents (put_intent server i s) = (hs_intents s)(server := Some i)" "hs_commands (put_intent server i s) = hs_commands s"
  "hs_batch (put_intent server i s) = hs_batch s" "hs_servers (put_intent server i s) = hs_servers s"
  "hs_statuses (put_intent server i s) = hs_statuses s"
  by (simp_all add: put_intent_def)

lemma settle_state:
  "hs_intents (fst (settle save_ok clock now server previous i out s)) = (hs_intents s)(server := Some (i\<lparr>ci_updated_at := now\<rparr>))"
  "hs_commands (fst (settle save_ok clock now server previous i out s)) = hs_commands s"
  "hs_batch (fst (settle save_ok clock now server previous i out s)) = hs_batch s"
  by (simp_all add: settle_def commitIntentLocked_def)

lemma note_formal_keeps [simp]:
  "ci_desired_mode (note_formal now rt i) = ci_desired_mode i" "ci_pending_change (note_formal now rt i) = ci_pending_change i"
  "ci_drift_detected_at (note_formal now rt i) = ci_drift_detected_at i"
  by (simp_all add: note_formal_def)

lemma note_result_keeps [simp]:
  "ci_desired_mode (note_result now result i) = ci_desired_mode i" "ci_pending_change (note_result now result i) = ci_pending_change i"
  "ci_drift_detected_at (note_result now result i) = ci_drift_detected_at i"
  by (auto simp: note_result_def Let_def split: option.splits)

lemma adopt_formal_keeps [simp]:
  "ci_desired_mode (adopt_formal rt i)
     = (if \<not> ci_pending_change i \<and> formal_known rt then rr_xray_mode rt else ci_desired_mode i)"
  "ci_pending_change (adopt_formal rt i) = ci_pending_change i" "ci_drift_detected_at (adopt_formal rt i) = ci_drift_detected_at i"
  by (simp_all add: adopt_formal_def)

lemma observe_keeps:
  "ci_desired_mode (observe_intent now status rt result i)
     = (if \<not> ci_pending_change i \<and> formal_known rt then rr_xray_mode rt else ci_desired_mode i)"
  "ci_pending_change (observe_intent now status rt result i) = ci_pending_change i"
  "ci_drift_detected_at (observe_intent now status rt result i) = ci_drift_detected_at i"
  by (simp_all add: observe_intent_def Let_def)

lemma waiting_keeps [simp]:
  "ci_desired_mode (waiting_intent now changed i) = ci_desired_mode i" "ci_pending_change (waiting_intent now changed i) = ci_pending_change i"
  by (simp_all add: waiting_intent_def Let_def)

lemma drift_keeps [simp]:
  "ci_desired_mode (drift_intent now changed i) = ci_desired_mode i" "ci_pending_change (drift_intent now changed i) = ci_pending_change i"
  "ci_next_repair_at (drift_intent now changed i) = ci_next_repair_at i"
  by (simp_all add: drift_intent_def)

lemma healthy_desired: "ci_desired_mode i = ci_desired_mode j \<Longrightarrow> coreModeHealthy i status rt now = coreModeHealthy j status rt now"
  by (simp add: coreModeHealthy_def coreModeLocalHealthy_def)

text \<open>The commands after a pass: the same, or one repair more.\<close>

lemma queue_repair_cases:
  assumes "queue_repair lib save_ok clock uuid now server i s = (s', out)"
  obtains (none) "uuid = None \<or> lib_sign lib (token_hash_of server s) (repair_command lib (the uuid) now (ci_desired_mode i)) = None" "s' = s"
  | (queued) u sig where "uuid = Some u" "lib_sign lib (token_hash_of server s) (repair_command lib u now (ci_desired_mode i)) = Some sig"
      "hs_commands s' = (hs_commands s)(server := hs_commands s server @ [(repair_command lib u now (ci_desired_mode i))\<lparr>cm_signature := sig\<rparr>])"
      "hs_intents s' = (hs_intents s)(server := Some (i\<lparr>ci_repair_status := ''repairing'',
         ci_last_repair_reason := ''core mode drift detected'', ci_updated_at := now\<rparr>))" "hs_batch s' = hs_batch s"
  using assms by (auto simp: queue_repair_def Let_def split: option.splits if_splits)

text \<open>When a pass must repair: unhealthy, no repair on its way, a difference that is wanted or lasts.\<close>

definition repair_due ::
  "time \<Rightarrow> string \<Rightarrow> agentStatus \<Rightarrow> remoteServerRuntime \<Rightarrow> managementResult option \<Rightarrow> coreModeIntent \<Rightarrow> helperState \<Rightarrow> bool" where
  "repair_due now server status rt result previous s \<longleftrightarrow>
     (let i = observe_intent now status rt result previous
      in \<not> coreModeHealthy i status rt now
         \<and> (\<forall>c \<in> set (hs_commands s server). \<not> live_repair now c)
         \<and> \<not> (rr_xray_mode rt = ci_desired_mode i \<and> coreModeLocalHealthy i status now)
         \<and> (ci_pending_change previous \<or> formal_changed previous rt
            \<or> ci_drift_detected_at previous \<noteq> 0 \<and> coreDriftGrace < time_sub now (ci_drift_detected_at previous))
         \<and> capability status ''core.mode.apply''
         \<and> (ci_next_repair_at i = 0 \<or> ci_next_repair_at i \<le> now))"

lemma find_live: "find (live_repair now) cs = None \<longleftrightarrow> (\<forall>c \<in> set cs. \<not> live_repair now c)"
  by (induction cs) auto

lemma in_grace_drift:
  "in_grace now changed (drift_intent now changed i)
   \<longleftrightarrow> \<not> (ci_pending_change i \<or> changed \<or> ci_drift_detected_at i \<noteq> 0 \<and> coreDriftGrace < time_sub now (ci_drift_detected_at i))"
  by (auto simp: in_grace_def drift_intent_def time_sub_def coreDriftGrace_def second_def max_int64_def min_int64_def)

lemma reconcile_cases:
  assumes "reconcileCoreMode lib save_ok clock uuid now server status rt result s = (s', out)" "hs_intents s server = Some previous"
  obtains (settled) i' where "\<not> repair_due now server status rt result previous s"
      "hs_commands s' = hs_commands s" "hs_batch s' = hs_batch s" "hs_intents s' = (hs_intents s)(server := Some i')"
      "ci_desired_mode i' = ci_desired_mode (observe_intent now status rt result previous)"
      "ci_pending_change i' = ci_pending_change previous
         \<or> coreModeHealthy (observe_intent now status rt result previous) status rt now"
  | (repair) j where "repair_due now server status rt result previous s"
      "queue_repair lib save_ok clock uuid now server j s = (s', out)"
      "ci_desired_mode j = ci_desired_mode (observe_intent now status rt result previous)" "ci_pending_change j = ci_pending_change previous"
proof -
  define i where "i = observe_intent now status rt result previous"
  define changed where "changed = formal_changed previous rt"
  define j where "j = drift_intent now changed i"
  define st where "st = (\<lambda>i out. settle save_ok clock now server previous i out s)"
  have keeps: "ci_pending_change i = ci_pending_change previous" "ci_drift_detected_at i = ci_drift_detected_at previous"
    "ci_desired_mode j = ci_desired_mode i" "ci_pending_change j = ci_pending_change i" "ci_next_repair_at j = ci_next_repair_at i"
    by (simp_all add: i_def j_def observe_keeps)
  have eq: "(s', out) =
      (if coreModeHealthy i status rt now then st (healthy_intent i) None
       else case find (live_repair now) (hs_commands s server) of
         Some c \<Rightarrow> st (i\<lparr>ci_repair_status := ''repairing''\<rparr>) (Some c)
       | None \<Rightarrow>
           if rr_xray_mode rt = ci_desired_mode i \<and> coreModeLocalHealthy i status now then st (waiting_intent now changed i) None
           else if in_grace now changed j then st j None
           else if \<not> capability status ''core.mode.apply''
           then st (j\<lparr>ci_repair_status := ''degraded'', ci_last_repair_error := ''Helper upgrade required''\<rparr>) None
           else if ci_next_repair_at j \<noteq> 0 \<and> now < ci_next_repair_at j
           then st (j\<lparr>ci_repair_status := (if int (length coreRepairBackoff) \<le> ci_repair_attempts j
                      \<or> str_contains (ci_last_repair_error j) coreModeAdminSessionRequired then ''degraded'' else ''drift_detected'')\<rparr>) None
           else queue_repair lib save_ok clock uuid now server j s)"
    using assms(1) [symmetric, unfolded reconcileCoreMode_def assms(2) option.case Let_def] unfolding st_def j_def i_def changed_def .
  have due: "repair_due now server status rt result previous s \<longleftrightarrow>
      \<not> coreModeHealthy i status rt now \<and> find (live_repair now) (hs_commands s server) = None
      \<and> \<not> (rr_xray_mode rt = ci_desired_mode i \<and> coreModeLocalHealthy i status now) \<and> \<not> in_grace now changed j
      \<and> capability status ''core.mode.apply'' \<and> \<not> (ci_next_repair_at j \<noteq> 0 \<and> now < ci_next_repair_at j)"
    unfolding repair_due_def Let_def i_def [symmetric] changed_def [symmetric] find_live j_def in_grace_drift keeps(1,2)
    using keeps(5) by (auto simp: j_def)
  have set_case: thesis if not_due: "\<not> repair_due now server status rt result previous s" and e: "(s', out) = st i' o'"
      and d: "ci_desired_mode i' = ci_desired_mode i" and p: "ci_pending_change i' = ci_pending_change i \<or> coreModeHealthy i status rt now" for i' o'
  proof (rule settled [OF not_due])
    have s': "s' = fst (st i' o')" using e by (metis fst_conv)
    show "hs_commands s' = hs_commands s" "hs_batch s' = hs_batch s"
      "hs_intents s' = (hs_intents s)(server := Some (i'\<lparr>ci_updated_at := now\<rparr>))"
      by (simp_all add: s' st_def settle_state)
    show "ci_desired_mode (i'\<lparr>ci_updated_at := now\<rparr>) = ci_desired_mode (observe_intent now status rt result previous)"
      using d by (simp add: i_def)
    show "ci_pending_change (i'\<lparr>ci_updated_at := now\<rparr>) = ci_pending_change previous
        \<or> coreModeHealthy (observe_intent now status rt result previous) status rt now"
      using p keeps(1) by (simp add: i_def)
  qed
  consider "coreModeHealthy i status rt now" | c where "\<not> coreModeHealthy i status rt now" "find (live_repair now) (hs_commands s server) = Some c"
    | "\<not> coreModeHealthy i status rt now" "find (live_repair now) (hs_commands s server) = None"
      "rr_xray_mode rt = ci_desired_mode i \<and> coreModeLocalHealthy i status now"
    | "\<not> coreModeHealthy i status rt now" "find (live_repair now) (hs_commands s server) = None"
      "\<not> (rr_xray_mode rt = ci_desired_mode i \<and> coreModeLocalHealthy i status now)" by (cases "find (live_repair now) (hs_commands s server)") auto
  then show thesis
  proof cases
    case 1
    show ?thesis by (rule set_case [of "healthy_intent i" None]) (use 1 eq due in \<open>simp_all add: healthy_intent_def\<close>)
  next
    case (2 c)
    show ?thesis by (rule set_case [of "i\<lparr>ci_repair_status := ''repairing''\<rparr>" "Some c"]) (use 2 eq due in simp_all)
  next
    case 3
    show ?thesis by (rule set_case [of "waiting_intent now changed i" None]) (use 3 eq due in simp_all)
  next
    case 4
    note e4 = eq [unfolded if_not_P [OF 4(1)] 4(2) option.case if_not_P [OF 4(3)]]
    consider (g) "in_grace now changed j" | (c) "\<not> in_grace now changed j" "\<not> capability status ''core.mode.apply''"
      | (b) "\<not> in_grace now changed j" "capability status ''core.mode.apply''" "ci_next_repair_at j \<noteq> 0 \<and> now < ci_next_repair_at j"
      | (q) "\<not> in_grace now changed j" "capability status ''core.mode.apply''" "\<not> (ci_next_repair_at j \<noteq> 0 \<and> now < ci_next_repair_at j)"
      by blast
    then show ?thesis
    proof cases
      case g
      show ?thesis by (rule set_case [OF _ e4 [unfolded if_P [OF g]]]) (use g due keeps in simp_all)
    next
      case c
      show ?thesis by (rule set_case [OF _ e4 [unfolded if_not_P [OF c(1)] if_P [OF c(2)]]]) (use c due keeps in simp_all)
    next
      case b
      show ?thesis by (rule set_case [OF _ e4 [unfolded if_not_P [OF b(1)] if_not_P [OF not_not [THEN iffD2, OF b(2)]] if_P [OF b(3)]]]) (use b due keeps in simp_all)
    next
      case q
      have d: "repair_due now server status rt result previous s" using due 4 q by blast
      have "queue_repair lib save_ok clock uuid now server j s = (s', out)" using e4 q by simp
      then show ?thesis by (rule repair [OF d]) (use keeps in \<open>simp_all add: i_def\<close>)
    qed
  qed
qed


text \<open>
  A pass queues a repair exactly when one is due: the server is not healthy in the
  wanted mode, no repair command is live, the fault is not only the official runtime,
  the difference was asked for, is new or has lasted more than twenty seconds, the
  Helper can repair and the pause after the last attempts is over. Then exactly one
  command is added, for the mode wanted (an explicit request's, otherwise the recorded
  one), and the batch is not touched; otherwise the queue stays as it is.
\<close>

theorem reconcile_repairs_when_due:
  assumes "reconcileCoreMode lib save_ok clock (Some u) now server status rt result s = (s', out)" "hs_intents s server = Some previous"
    and "\<And>key c. lib_sign lib key c \<noteq> None"
  shows "hs_commands s' = (if repair_due now server status rt result previous s
      then (hs_commands s)(server := hs_commands s server @ [(repair_command lib u now
          (if \<not> ci_pending_change previous \<and> formal_known rt then rr_xray_mode rt else ci_desired_mode previous))
        \<lparr>cm_signature := the (lib_sign lib (token_hash_of server s) (repair_command lib u now
          (if \<not> ci_pending_change previous \<and> formal_known rt then rr_xray_mode rt else ci_desired_mode previous)))\<rparr>])
      else hs_commands s)
    \<and> hs_batch s' = hs_batch s"
proof (cases rule: reconcile_cases [OF assms(1,2), case_names settled repair])
  case (repair j)
  have d: "ci_desired_mode j = (if \<not> ci_pending_change previous \<and> formal_known rt then rr_xray_mode rt else ci_desired_mode previous)"
    using repair(3) by (simp only: observe_keeps(1))
  show ?thesis
  proof (cases rule: queue_repair_cases [OF repair(2), case_names none queued])
    case none
    then show ?thesis using assms(3) by simp
  next
    case (queued v sig)
    then show ?thesis using repair(1) d by simp
  qed
qed simp

definition sample_identity :: helperServerIdentity where
  "sample_identity = \<lparr>id_official_server_id = ''1'', id_custom_uuid = ''u'', id_token_hash = ''ht'', id_pending_hash = [],
     id_pending_expires_at = 0, id_created_at = 1, id_updated_at = 1, id_last_seen_at = 1, id_last_version = [], id_machine_id = []\<rparr>"

definition sample_mode_state :: helperState where
  "sample_mode_state = put_intent ''1'' (zero_intent\<lparr>ci_desired_mode := ''external'', ci_pending_change := True\<rparr>)
     (new_state\<lparr>hs_servers := [''1'' \<mapsto> sample_identity]\<rparr>)"

definition sample_mode_status :: agentStatus where
  "sample_mode_status = zero_status\<lparr>as_capabilities := [''core.mode.apply''], as_reported_at := 99, as_core_mode := ''embedded''\<rparr>"

definition sample_runtime :: remoteServerRuntime where
  "sample_runtime = \<lparr>rr_xray_mode = ''embedded'', rr_status = ''connected'', rr_last_heartbeat = None\<rparr>"

theorem reconcile_repairs_when_due_witness:
  "map cm_action (hs_commands (fst (reconcileCoreMode sample_lib True 0 (Some ''u'') 100 ''1'' sample_mode_status sample_runtime None
     sample_mode_state)) ''1'') = [''core.mode.apply'']"
proof -
  let ?i = "zero_intent\<lparr>ci_desired_mode := ''external'', ci_pending_change := True\<rparr>"
  have intent: "hs_intents sample_mode_state ''1'' = Some ?i" by (simp add: sample_mode_state_def)
  have due: "repair_due 100 ''1'' sample_mode_status sample_runtime None ?i sample_mode_state"
    by (simp add: repair_due_def Let_def observe_intent_def coreModeHealthy_def note_result_def note_formal_def adopt_formal_def
        formal_known_def sample_runtime_def sample_mode_status_def sample_mode_state_def capability_def zero_intent_def new_state_def zero_status_def)
  obtain s' out where rec: "reconcileCoreMode sample_lib True 0 (Some ''u'') 100 ''1'' sample_mode_status sample_runtime None
      sample_mode_state = (s', out)" by fastforce
  have sign: "lib_sign sample_lib key c \<noteq> None" for key c by (simp add: sample_lib_def)
  have cmds: "hs_commands sample_mode_state ''1'' = []" by (simp add: sample_mode_state_def new_state_def)
  show ?thesis using reconcile_repairs_when_due [OF rec intent sign] due cmds by (simp add: rec repair_command_def new_command_def)
qed

section \<open>An explicit request\<close>

lemma reconcile_pending:
  assumes rec: "reconcileCoreMode lib save_ok clock uuid now server status rt result s = (s', out)"
    and pending: "hs_intents s server = Some i" "ci_pending_change i"
  shows "(\<exists>i'. hs_intents s' server = Some i' \<and> ci_pending_change i' \<and> ci_desired_mode i' = ci_desired_mode i)
    \<or> coreModeHealthy i status rt now"
proof (cases rule: reconcile_cases [OF rec pending(1), case_names settled repair])
  case (settled i')
  have "coreModeHealthy (observe_intent now status rt result i) status rt now = coreModeHealthy i status rt now"
    by (rule healthy_desired) (simp add: observe_keeps pending(2))
  then show ?thesis using settled pending(2) by (auto simp: observe_keeps)
next
  case (repair j)
  then show ?thesis using pending by (cases rule: queue_repair_cases [OF repair(2), case_names none queued]) (auto simp: observe_keeps)
qed

end
