(* ===== verification/Machine_Guard.thy ===== *)
theory Machine_Guard
  imports Go_Text Go_Time
begin

text \<open>
  \<open>cmd/mmwxc-helper/machine_protection.go\<close>: the Helper protects its machine. When
  the machine's connections reach a cap, one nftables table drops new connections
  to the business ports until they fall below 95 % of it, and it owns the kernel's
  TIME_WAIT limit meanwhile. Here: settings and threshold, the nft batch as data
  with its text, \<open>ensure\<close>, \<open>releaseGuard\<close>, \<open>reconcileTW\<close> and \<open>reconcile\<close> on the
  manager's state, the FLVX port file. What nft, the sysctl file and the file
  system answer is an argument; the second theory states what nft does.
\<close>

section \<open>Counts, ports and settings\<close>

record tcpStateCounts =
  tc_total :: int
  tc_established :: int
  tc_syn_sent :: int
  tc_syn_recv :: int
  tc_fin_wait1 :: int
  tc_fin_wait2 :: int
  tc_time_wait :: int
  tc_close_wait :: int
  tc_last_ack :: int
  tc_closing :: int
  tc_close :: int
  tc_listen :: int
  tc_unknown :: int

definition machineActiveTCP :: "tcpStateCounts \<Rightarrow> int" where
  "machineActiveTCP c = tc_established c + tc_syn_sent c + tc_syn_recv c + tc_fin_wait1 c + tc_fin_wait2 c
     + tc_close_wait c + tc_last_ack c + tc_closing c"

definition normalizeMachinePorts :: "int list \<Rightarrow> int list" where
  "normalizeMachinePorts values = sort (dedup (filter (\<lambda>p. 0 < p \<and> p \<le> 65535) values))"

record machinePorts =
  mp_tcp :: "int list"
  mp_udp :: "int list"

definition no_ports :: machinePorts where
  "no_ports = \<lparr>mp_tcp = [], mp_udp = []\<rparr>"

definition normalized :: "machinePorts \<Rightarrow> machinePorts" where
  "normalized p = \<lparr>mp_tcp = normalizeMachinePorts (mp_tcp p), mp_udp = normalizeMachinePorts (mp_udp p)\<rparr>"

definition ports_empty :: "machinePorts \<Rightarrow> bool" where
  "ports_empty p \<longleftrightarrow> mp_tcp p = [] \<and> mp_udp p = []"

record machineProtectionSettings =
  ms_enabled :: bool
  ms_max_active :: "int option"
  ms_max_total :: "int option"
  ms_tw_buckets :: "int option"
  ms_close_wait_seconds :: "int option"

definition defaultMachineTWBuckets :: int where "defaultMachineTWBuckets = 200"
definition defaultMachineCloseWaitSeconds :: int where "defaultMachineCloseWaitSeconds = 10"
definition machineReleasePercent :: int where "machineReleasePercent = 95"
definition machineConntrackWarmup :: duration where "machineConntrackWarmup = 5 * second"
definition machineIdleRecheck :: duration where "machineIdleRecheck = minute"
definition machineBlockingRecheck :: duration where "machineBlockingRecheck = 3 * second"
definition flvxBusinessPortsMaxAge :: duration where "flvxBusinessPortsMaxAge = 10 * minute"

definition opt_is :: "(int \<Rightarrow> bool) \<Rightarrow> int option \<Rightarrow> bool" where
  "opt_is P v \<longleftrightarrow> (case v of None \<Rightarrow> False | Some x \<Rightarrow> P x)"

definition validateMachineProtection :: "machineProtectionSettings \<Rightarrow> string option" where
  "validateMachineProtection s =
     (if opt_is (\<lambda>x. x \<le> 0) (ms_max_active s) then Some ''machine max_active must be positive''
      else if opt_is (\<lambda>x. x \<le> 0) (ms_max_total s) then Some ''machine max_total must be positive''
      else if opt_is (\<lambda>x. x < 0) (ms_tw_buckets s) then Some ''machine tw_buckets must be non-negative''
      else if opt_is (\<lambda>x. x < 0) (ms_close_wait_seconds s) then Some ''machine close_wait_seconds must be non-negative''
      else if ms_enabled s \<and> ms_max_active s = None \<and> ms_max_total s = None
        then Some ''enabled machine protection requires max_active or max_total''
      else None)"

definition optionalMachineValue :: "bool \<Rightarrow> int option \<Rightarrow> int \<Rightarrow> int option" where
  "optionalMachineValue enabled v fallback =
     (if \<not> enabled then None else case v of None \<Rightarrow> Some fallback | Some x \<Rightarrow> if x \<le> 0 then None else Some x)"

definition twTarget :: "machineProtectionSettings \<Rightarrow> int option" where
  "twTarget s = (if validateMachineProtection s \<noteq> None then None
     else optionalMachineValue (ms_enabled s) (ms_tw_buckets s) defaultMachineTWBuckets)"

definition closeWaitSeconds :: "machineProtectionSettings \<Rightarrow> int option" where
  "closeWaitSeconds s = (if validateMachineProtection s \<noteq> None then None
     else optionalMachineValue (ms_enabled s) (ms_close_wait_seconds s) defaultMachineCloseWaitSeconds)"

definition effectiveDefaultCloseWait :: "int option \<Rightarrow> machineProtectionSettings option \<Rightarrow> int option" where
  "effectiveDefaultCloseWait explicit protection =
     (if opt_is (\<lambda>x. 0 < x) explicit then explicit
      else case protection of
             None \<Rightarrow> explicit
           | Some s \<Rightarrow> (case closeWaitSeconds s of Some v \<Rightarrow> Some v | None \<Rightarrow> explicit))"

definition effectiveCloseWait :: "int option \<Rightarrow> machineProtectionSettings option \<Rightarrow> int option \<Rightarrow> int option" where
  "effectiveCloseWait explicit protection user =
     (case user of Some v \<Rightarrow> Some v | None \<Rightarrow> effectiveDefaultCloseWait explicit protection)"

section \<open>The threshold\<close>

definition machineReleaseBelow :: "int \<Rightarrow> int" where
  "machineReleaseBelow limit =
     (let release = go_div (i64 (limit * machineReleasePercent)) 100 in if release \<ge> limit then limit - 1 else release)"

definition machineProtectionThreshold ::
  "machineProtectionSettings \<Rightarrow> int \<Rightarrow> int \<Rightarrow> bool \<Rightarrow> bool \<times> string \<times> int option" where
  "machineProtectionThreshold s active machine_total was_blocking =
     (let (v, limit, reason) = (case ms_max_total s of
              Some l \<Rightarrow> (machine_total, Some l, ''total'') | None \<Rightarrow> (active, ms_max_active s, ''active_compat''))
      in case limit of
           None \<Rightarrow> (False, [], None)
         | Some l \<Rightarrow>
             (let release = machineReleaseBelow l
              in if v \<ge> l then (True, reason, Some release)
                 else if was_blocking \<and> v \<ge> release then (True, reason @ ''_hysteresis'', Some release)
                 else (False, [], Some release)))"

section \<open>The nft batch\<close>

datatype nft_chain = Conntrack | Input | Prerouting

datatype nft_line =
    AddTable
  | AddCounter
  | AddSet bool
  | FlushSet bool
  | AddElements bool "int list"
  | AddPlainChain nft_chain
  | AddHookChain nft_chain
  | FlushChain nft_chain
  | DeleteChain nft_chain
  | RuleKeepConntrack
  | RuleLoopback
  | RuleDrop bool

definition nft_table_name :: string where
  "nft_table_name = ''inet mmwxc_machine_protection''"

definition set_name :: "bool \<Rightarrow> string" where
  "set_name udp = (if udp then ''udp_ports'' else ''tcp_ports'')"

definition chain_name :: "nft_chain \<Rightarrow> string" where
  "chain_name c = (case c of Conntrack \<Rightarrow> ''conntrack'' | Input \<Rightarrow> ''input'' | Prerouting \<Rightarrow> ''prerouting'')"

definition quoted :: "string \<Rightarrow> string" where
  "quoted s = [CHR 0x22] @ s @ [CHR 0x22]"

definition nft_text :: "nft_line \<Rightarrow> string" where
  "nft_text l =
     (let t = nft_table_name in case l of
        AddTable \<Rightarrow> ''add table '' @ t
      | AddCounter \<Rightarrow> ''add counter '' @ t @ '' dropped''
      | AddSet udp \<Rightarrow> ''add set '' @ t @ '' '' @ set_name udp @ '' { type inet_service; }''
      | FlushSet udp \<Rightarrow> ''flush set '' @ t @ '' '' @ set_name udp
      | AddElements udp ps \<Rightarrow> ''add element '' @ t @ '' '' @ set_name udp @ '' { '' @ go_join '', '' (map go_itoa ps) @ '' }''
      | AddPlainChain c \<Rightarrow> ''add chain '' @ t @ '' '' @ chain_name c
      | AddHookChain c \<Rightarrow> ''add chain '' @ t @ '' '' @ chain_name c @ '' { type filter hook '' @ chain_name c @ '' priority ''
          @ (if c = Input then ''-4'' else ''-150'') @ ''; policy accept; }''
      | FlushChain c \<Rightarrow> ''flush chain '' @ t @ '' '' @ chain_name c
      | DeleteChain c \<Rightarrow> ''delete chain '' @ t @ '' '' @ chain_name c
      | RuleKeepConntrack \<Rightarrow> ''add rule '' @ t @ '' conntrack ct state new comment '' @ quoted ''mmwxc keeps conntrack on''
      | RuleLoopback \<Rightarrow> ''add rule '' @ t @ '' prerouting iifname '' @ quoted ''lo'' @ '' return comment '' @ quoted ''mmwxc loopback exemption''
      | RuleDrop udp \<Rightarrow> ''add rule '' @ t @ '' prerouting ct state new ''
          @ (if udp then ''udp dport @udp_ports'' else ''tcp flags & (fin | syn | rst | ack) == syn tcp dport @tcp_ports'')
          @ '' fib daddr type local counter name '' @ quoted ''dropped'' @ '' drop comment '' @ quoted ''mmwxc machine cap'')"

definition set_lines :: "bool \<Rightarrow> int list \<Rightarrow> nft_line list" where
  "set_lines udp ps = [AddSet udp, FlushSet udp] @ (if ps = [] then [] else [AddElements udp ps])"

definition machine_nft :: "machinePorts \<Rightarrow> bool \<Rightarrow> bool \<Rightarrow> nft_line list" where
  "machine_nft ports blocking cleanup =
     [AddTable, AddCounter] @ set_lines False (mp_tcp ports) @ set_lines True (mp_udp ports)
     @ [AddPlainChain Conntrack, FlushChain Conntrack, RuleKeepConntrack]
     @ (if cleanup then [AddHookChain Input, FlushChain Input, DeleteChain Input] else [])
     @ (if blocking then [AddHookChain Prerouting, FlushChain Prerouting, RuleLoopback, RuleDrop False, RuleDrop True]
        else if cleanup then [AddHookChain Prerouting, FlushChain Prerouting, DeleteChain Prerouting] else [])"

definition renderMachineProtectionNft :: "machinePorts \<Rightarrow> bool \<Rightarrow> bool \<Rightarrow> string" where
  "renderMachineProtectionNft ports blocking cleanup = concat (map (\<lambda>l. nft_text l @ [CHR 0x0A]) (machine_nft ports blocking cleanup))"

section \<open>The manager\<close>

record machineTWSaved =
  tw_original :: int
  tw_applied :: int
  tw_saved_at :: time

record machineTWStatus =
  ts_target :: "int option"
  ts_current :: "int option"
  ts_original :: "int option"
  ts_error :: string

record machine_manager =
  mg_supported :: bool
  mg_tw :: "machineTWSaved option"
  mg_table_present :: bool
  mg_table_since :: time
  mg_applied_key :: string
  mg_checked_at :: time
  mg_need_cleanup :: bool
  mg_removed :: bool
  mg_blocking :: bool
  mg_dropped :: int
  mg_dropped_base :: int

definition newMachineProtectionManager :: "bool \<Rightarrow> machineTWSaved option \<Rightarrow> machine_manager" where
  "newMachineProtectionManager supported tw =
     \<lparr>mg_supported = supported, mg_tw = tw, mg_table_present = False, mg_table_since = 0, mg_applied_key = [], mg_checked_at = 0,
      mg_need_cleanup = True, mg_removed = False, mg_blocking = False, mg_dropped = 0, mg_dropped_base = 0\<rparr>"

definition warm :: "time \<Rightarrow> machine_manager \<Rightarrow> bool" where
  "warm now m \<longleftrightarrow> mg_table_present m \<and> machineConntrackWarmup \<le> time_sub now (mg_table_since m)"

definition lostTable :: "machine_manager \<Rightarrow> machine_manager" where
  "lostTable m = m\<lparr>mg_dropped_base := mg_dropped m, mg_table_present := False, mg_need_cleanup := True, mg_blocking := False,
     mg_applied_key := []\<rparr>"

text \<open>
  The calls of \<open>nft\<close>, and what it answers in one pass: the counter, the batch, the
  deletion of the table after a refused batch, the retry, the deletion after a refused
  retry, the deletion of a release, the counter at the end. A deletion answers whether
  the table is gone afterwards; the code throws that answer away.
\<close>

datatype nft_op = NftApply "nft_line list" bool | NftRemove bool | NftCounter

record nft_answers =
  na_first :: "int option"
  na_apply :: bool
  na_remove :: bool
  na_retry :: bool
  na_remove_again :: bool
  na_release :: bool
  na_last :: "int option"

definition ensure_finish :: "int option \<Rightarrow> string \<Rightarrow> bool \<Rightarrow> time \<Rightarrow> machine_manager \<Rightarrow> nft_op list \<times> machine_manager" where
  "ensure_finish counter key blocking now m =
     (let m1 = (if mg_table_present m then m else m\<lparr>mg_table_present := True, mg_table_since := now\<rparr>);
          was = mg_blocking m1;
          m2 = m1\<lparr>mg_applied_key := key, mg_need_cleanup := False, mg_removed := False, mg_blocking := blocking, mg_checked_at := now\<rparr>
      in if was \<or> blocking
         then ([NftCounter], case counter of None \<Rightarrow> m2 | Some d \<Rightarrow> m2\<lparr>mg_dropped := mg_dropped_base m2 + d\<rparr>)
         else ([], m2))"

definition ensure_apply ::
  "nft_answers \<Rightarrow> machinePorts \<Rightarrow> bool \<Rightarrow> bool \<Rightarrow> time \<Rightarrow> machine_manager \<Rightarrow> nft_op list \<times> machine_manager \<times> bool \<times> string option" where
  "ensure_apply a ports blocking transition now m =
     (let cleanup = (\<not> mg_table_present m \<or> mg_need_cleanup m \<or> transition);
          batch = machine_nft ports blocking cleanup
      in if na_apply a
         then (let (ops, m2) = ensure_finish (na_last a) (renderMachineProtectionNft ports blocking False) blocking now m
               in (NftApply batch True # ops, m2, blocking, None))
         else (let m1 = lostTable m; retry = machine_nft ports False True
               in if na_retry a
                  then (let (ops, m2) = ensure_finish (na_last a) (renderMachineProtectionNft ports False False) False now m1
                        in ([NftApply batch False, NftRemove (na_remove a), NftApply retry True] @ ops, m2, False, None))
                  else ([NftApply batch False, NftRemove (na_remove a), NftApply retry False, NftRemove (na_remove_again a)], m1\<lparr>mg_applied_key := []\<rparr>, False,
                        Some ''apply machine protection rules'')))"

definition machine_ensure ::
  "nft_answers \<Rightarrow> machinePorts \<Rightarrow> bool \<Rightarrow> time \<Rightarrow> machine_manager \<Rightarrow> nft_op list \<times> machine_manager \<times> bool \<times> string option" where
  "machine_ensure a ports blocking now m =
     (let transition = (blocking \<noteq> mg_blocking m);
          interval = (if blocking then machineBlockingRecheck else machineIdleRecheck)
      in if mg_table_present m \<and> \<not> mg_need_cleanup m \<and> \<not> transition \<and> renderMachineProtectionNft ports blocking False = mg_applied_key m
         then (if time_sub now (mg_checked_at m) < interval then ([], m, blocking, None)
               else case na_first a of
                      Some d \<Rightarrow> ([NftCounter], m\<lparr>mg_dropped := mg_dropped_base m + d, mg_checked_at := now\<rparr>, blocking, None)
                    | None \<Rightarrow> (let (ops, res) = ensure_apply a ports False transition now (lostTable m) in (NftCounter # ops, res)))
         else ensure_apply a ports blocking transition now m)"

definition releaseGuard :: "bool \<Rightarrow> machine_manager \<Rightarrow> nft_op list \<times> machine_manager" where
  "releaseGuard gone m =
     (if mg_removed m \<or> \<not> mg_supported m then ([], m) else ([NftRemove gone], (lostTable m)\<lparr>mg_removed := True\<rparr>))"

section \<open>The TIME\_WAIT limit\<close>

text \<open>
  The answers of the sysctl file and of saving the Helper's state; \<open>sy_read\<close> is
  \<open>None\<close> when reading fails. The result has the values written to the kernel.
\<close>

record sysctl_answers =
  sy_available :: bool
  sy_read :: "int option"
  sy_write_ok :: bool
  sy_persist_ok :: bool

definition persistTW :: "bool \<Rightarrow> machineTWSaved option \<Rightarrow> machineTWSaved option \<Rightarrow> machineTWSaved option" where
  "persistTW ok saved tw = (if ok then saved else tw)"

definition tw_restore ::
  "sysctl_answers \<Rightarrow> int \<Rightarrow> machineTWSaved \<Rightarrow> machineTWStatus \<Rightarrow> int list \<times> machineTWSaved option \<times> machineTWStatus" where
  "tw_restore a current saved st =
     (if current = tw_applied saved \<and> \<not> sy_write_ok a then ([], Some saved, st\<lparr>ts_error := ''restore tcp_max_tw_buckets''\<rparr>)
      else let restored = (current = tw_applied saved);
               st1 = (if restored then st\<lparr>ts_current := Some (tw_original saved)\<rparr> else st)
           in (if restored then [tw_original saved] else [], persistTW (sy_persist_ok a) None (Some saved),
               if sy_persist_ok a then st1 else st1\<lparr>ts_error := ''persist tcp_max_tw_buckets restore''\<rparr>))"

definition tw_to_save :: "int \<Rightarrow> int \<Rightarrow> time \<Rightarrow> machineTWSaved option \<Rightarrow> machineTWSaved" where
  "tw_to_save current target now tw =
     (case tw of
        None \<Rightarrow> \<lparr>tw_original = current, tw_applied = target, tw_saved_at = now\<rparr>
      | Some s \<Rightarrow> \<lparr>tw_original = tw_original s, tw_applied = target, tw_saved_at = tw_saved_at s\<rparr>)"

definition tw_apply ::
  "sysctl_answers \<Rightarrow> int \<Rightarrow> int \<Rightarrow> time \<Rightarrow> machineTWSaved option \<Rightarrow> machineTWStatus \<Rightarrow> int list \<times> machineTWSaved option \<times> machineTWStatus" where
  "tw_apply a current target now tw st =
     (let change = (case tw of None \<Rightarrow> True | Some s \<Rightarrow> tw_applied s \<noteq> target);
          saved = tw_to_save current target now tw
      in if change \<and> \<not> sy_persist_ok a then ([], tw, st\<lparr>ts_error := ''save original tcp_max_tw_buckets''\<rparr>)
         else let tw1 = (if change then Some saved else tw);
                  st1 = (if change then st\<lparr>ts_original := Some (tw_original saved)\<rparr> else st)
              in if current = target then ([], tw1, st1)
                 else if sy_write_ok a then ([target], tw1, st1\<lparr>ts_current := Some target\<rparr>)
                 else ([], tw1, st1\<lparr>ts_error := ''write tcp_max_tw_buckets''\<rparr>))"

definition reconcileTW ::
  "sysctl_answers \<Rightarrow> time \<Rightarrow> int option \<Rightarrow> machineTWSaved option \<Rightarrow> int list \<times> machineTWSaved option \<times> machineTWStatus option" where
  "reconcileTW a now target tw =
     (if target = None \<and> tw = None then ([], None, None)
      else let st = \<lparr>ts_target = target, ts_current = None, ts_original = map_option tw_original tw, ts_error = []\<rparr>
           in if \<not> sy_available a then ([], tw, Some (st\<lparr>ts_error := ''tcp_max_tw_buckets is unavailable''\<rparr>))
              else case sy_read a of
                     None \<Rightarrow> ([], tw, Some (st\<lparr>ts_error := ''read tcp_max_tw_buckets''\<rparr>))
                   | Some current \<Rightarrow>
                       (let st1 = st\<lparr>ts_current := Some current\<rparr>;
                            (ws, tw', st2) = (case (target, tw) of
                               (Some t, _) \<Rightarrow> tw_apply a current t now tw st1
                             | (None, Some saved) \<Rightarrow> tw_restore a current saved st1
                             | (None, None) \<Rightarrow> ([], None, st1))
                        in (ws, tw', Some st2)))"

section \<open>The business ports\<close>

text \<open>
  The FLVX port file (contract section 3): \<open>raw\<close> is what decoding its first 64 KiB
  gives, \<open>None\<close> when it is longer, unreadable or no JSON object of this shape.
\<close>

record flvx_ports_raw =
  fr_version :: int
  fr_updated_at :: string
  fr_tcp :: "int list option"
  fr_udp :: "int list option"

record flvxBusinessPortsFile =
  ff_updated :: time
  ff_ports :: machinePorts
  ff_malformed :: bool

definition malformed_ports :: flvxBusinessPortsFile where
  "malformed_ports = \<lparr>ff_updated = 0, ff_ports = no_ports, ff_malformed = True\<rparr>"

definition parseFLVXBusinessPorts :: "(string \<Rightarrow> time option) \<Rightarrow> flvx_ports_raw option \<Rightarrow> flvxBusinessPortsFile" where
  "parseFLVXBusinessPorts parse_time raw =
     (case raw of
        None \<Rightarrow> malformed_ports
      | Some f \<Rightarrow>
          (case (fr_tcp f, fr_udp f, parse_time (trim_space (fr_updated_at f))) of
             (Some tcp, Some udp, Some t) \<Rightarrow>
               if fr_version f = 1 \<and> list_all (\<lambda>p. 1 \<le> p \<and> p \<le> 65535) tcp \<and> list_all (\<lambda>p. 1 \<le> p \<and> p \<le> 65535) udp
               then \<lparr>ff_updated = t, ff_ports = normalized \<lparr>mp_tcp = tcp, mp_udp = udp\<rparr>, ff_malformed = False\<rparr>
               else malformed_ports
           | _ \<Rightarrow> malformed_ports))"

datatype file_stat = NotExist | NotRegular | Regular time int

record flvxBusinessPortsReader =
  fb_mod_time :: time
  fb_size :: int
  fb_cached :: "flvxBusinessPortsFile option"

definition read_ports ::
  "bool \<Rightarrow> file_stat \<Rightarrow> flvxBusinessPortsFile \<Rightarrow> time \<Rightarrow> flvxBusinessPortsReader
     \<Rightarrow> flvxBusinessPortsReader \<times> machinePorts \<times> string \<times> time option" where
  "read_ports configured stat parsed now r =
     (if \<not> configured then (r, no_ports, ''absent'', None)
      else case stat of
        NotExist \<Rightarrow> (r\<lparr>fb_cached := None\<rparr>, no_ports, ''absent'', None)
      | NotRegular \<Rightarrow> (r\<lparr>fb_cached := None\<rparr>, no_ports, ''malformed'', None)
      | Regular mtime len \<Rightarrow>
          (let (file, r') = (case fb_cached r of
               Some c \<Rightarrow> if mtime = fb_mod_time r \<and> len = fb_size r then (c, r)
                        else (parsed, \<lparr>fb_mod_time = mtime, fb_size = len, fb_cached = Some parsed\<rparr>)
             | None \<Rightarrow> (parsed, \<lparr>fb_mod_time = mtime, fb_size = len, fb_cached = Some parsed\<rparr>));
               age = time_sub now (ff_updated file)
           in if ff_malformed file then (r', no_ports, ''malformed'', None)
              else if age > flvxBusinessPortsMaxAge \<or> age < - flvxBusinessPortsMaxAge then (r', no_ports, ''stale'', Some (ff_updated file))
              else (r', ff_ports file, ''fresh'', Some (ff_updated file))))"

record machinePortSources =
  ps_core :: int
  ps_flvx_shared :: int
  ps_flvx_file :: string
  ps_flvx_file_tcp :: int
  ps_flvx_file_udp :: int
  ps_flvx_updated_at :: "time option"
  ps_official :: int
  ps_official_error :: string

text \<open>\<open>file\<close> is the answer of \<open>read\<close>, \<open>official\<close> that of the official Agent's scanner.\<close>

definition manager_ports ::
  "int list \<Rightarrow> machinePorts \<Rightarrow> machinePorts \<times> string \<times> time option \<Rightarrow> machinePorts \<times> string \<Rightarrow> machinePorts \<times> machinePortSources" where
  "manager_ports core_ports flvx_shared file official =
     (let core = normalizeMachinePorts core_ports;
          shared = normalized flvx_shared;
          (fports, state, updated) = file;
          (oports, oerr) = official
      in (normalized \<lparr>mp_tcp = core @ mp_tcp shared @ mp_tcp fports @ mp_tcp oports,
                      mp_udp = core @ mp_udp shared @ mp_udp fports @ mp_udp oports\<rparr>,
          \<lparr>ps_core = int (length core), ps_flvx_shared = int (length (normalizeMachinePorts (mp_tcp shared @ mp_udp shared))),
           ps_flvx_file = state, ps_flvx_file_tcp = int (length (mp_tcp fports)), ps_flvx_file_udp = int (length (mp_udp fports)),
           ps_flvx_updated_at = updated, ps_official = int (length (normalizeMachinePorts (mp_tcp oports @ mp_udp oports))),
           ps_official_error = oerr\<rparr>))"

section \<open>\<open>reconcile\<close>\<close>

record machineConnectionCounts =
  mc_total :: int
  mc_tcp :: int
  mc_udp :: int

record machineProtectionInput =
  mi_system :: tcpStateCounts
  mi_machine :: "machineConnectionCounts option"

record machineProtectionStatus =
  mp_version :: int
  mp_owner :: string
  mp_supported :: bool
  mp_configured :: machineProtectionSettings
  mp_effective :: bool
  mp_blocking :: bool
  mp_threshold_reason :: string
  mp_active :: int
  mp_total :: int
  mp_controlled_ports :: "int list"
  mp_last_reconciled :: time
  mp_last_error :: string
  mp_connections :: "machineConnectionCounts option"
  mp_max_total :: "int option"
  mp_release_below :: "int option"
  mp_tcp_ports :: "int list"
  mp_udp_ports :: "int list"
  mp_sources :: machinePortSources
  mp_idle_reason :: string
  mp_warming_up :: bool
  mp_dropped_total :: int
  mp_tw :: "machineTWStatus option"
  mp_close_wait_seconds :: "int option"
  mp_status_file_error :: string

definition status_start ::
  "bool \<Rightarrow> time \<Rightarrow> machineProtectionSettings \<Rightarrow> machinePorts \<Rightarrow> machinePortSources \<Rightarrow> machineProtectionInput \<Rightarrow> machineProtectionStatus" where
  "status_start supported now settings ports sources input =
     \<lparr>mp_version = 2, mp_owner = ''mmwx'', mp_supported = supported, mp_configured = settings, mp_effective = False, mp_blocking = False,
      mp_threshold_reason = [], mp_active = machineActiveTCP (mi_system input),
      mp_total = (case mi_machine input of None \<Rightarrow> 0 | Some c \<Rightarrow> mc_total c),
      mp_controlled_ports = normalizeMachinePorts (mp_tcp ports @ mp_udp ports), mp_last_reconciled = now, mp_last_error = [],
      mp_connections = mi_machine input, mp_max_total = None, mp_release_below = None, mp_tcp_ports = mp_tcp ports,
      mp_udp_ports = mp_udp ports, mp_sources = sources, mp_idle_reason = [], mp_warming_up = False, mp_dropped_total = 0, mp_tw = None,
      mp_close_wait_seconds = None, mp_status_file_error = []\<rparr>"

definition no_protection :: machineProtectionSettings where
  "no_protection = \<lparr>ms_enabled = False, ms_max_active = None, ms_max_total = None, ms_tw_buckets = None, ms_close_wait_seconds = None\<rparr>"

text \<open>
  The decision: whether to block, the reason and the status it is noted in. An unknown
  total, no port to guard and a table that is too young never block.
\<close>

definition decide ::
  "machineProtectionSettings \<Rightarrow> machineProtectionInput \<Rightarrow> machinePorts \<Rightarrow> time \<Rightarrow> machine_manager \<Rightarrow> machineProtectionStatus
     \<Rightarrow> bool \<times> string \<times> machineProtectionStatus" where
  "decide settings input ports now m st =
     (let (b0, r0, release) = machineProtectionThreshold settings (mp_active st) (mp_total st) (mg_blocking m);
          st0 = st\<lparr>mp_max_total := ms_max_total settings, mp_release_below := release\<rparr>;
          (b1, r1, st1) = (if mi_machine input = None
                           then (False, [], st0\<lparr>mp_last_error := ''machine socket tables are unreadable''\<rparr>) else (b0, r0, st0));
          (b2, r2, st2) = (if ports_empty ports then (False, [], st1\<lparr>mp_idle_reason := ''no_business_ports''\<rparr>) else (b1, r1, st1))
      in if b2 \<and> \<not> mg_blocking m \<and> \<not> warm now m then (False, [], st2\<lparr>mp_warming_up := True\<rparr>) else (b2, r2, st2))"

definition guard_pass ::
  "nft_answers \<Rightarrow> sysctl_answers \<Rightarrow> time \<Rightarrow> machineProtectionSettings \<Rightarrow> machineProtectionInput \<Rightarrow> machinePorts
     \<Rightarrow> machine_manager \<Rightarrow> machineProtectionStatus \<Rightarrow> nft_op list \<times> int list \<times> machine_manager \<times> machineProtectionStatus" where
  "guard_pass a sy now settings input ports m st =
     (case validateMachineProtection settings of
        Some e \<Rightarrow>
          (let (ops, m1) = releaseGuard (na_release a) m; (ws, tw, ts) = reconcileTW sy now None (mg_tw m1)
           in (ops, ws, m1\<lparr>mg_tw := tw\<rparr>, st\<lparr>mp_last_error := e, mp_tw := ts\<rparr>))
      | None \<Rightarrow>
          (let (ws, tw, ts) = reconcileTW sy now (twTarget settings) (mg_tw m);
               m1 = m\<lparr>mg_tw := tw\<rparr>;
               st1 = st\<lparr>mp_tw := ts, mp_close_wait_seconds := closeWaitSeconds settings\<rparr>
           in if \<not> ms_enabled settings
              then (let (ops, m2) = releaseGuard (na_release a) m1 in (ops, ws, m2, st1\<lparr>mp_effective := mg_supported m2\<rparr>))
              else if \<not> mg_supported m1 then ([], ws, m1, st1\<lparr>mp_last_error := ''nftables is unavailable''\<rparr>)
              else (let (blocking, reason, st2) = decide settings input ports now m1 st1;
                        (ops, m2, applied, err) = machine_ensure a ports blocking now m1
                    in case err of
                         Some e \<Rightarrow> (ops, ws, m2, st2\<lparr>mp_last_error := e\<rparr>)
                       | None \<Rightarrow>
                           (let reason' = (if blocking \<and> \<not> applied then [] else reason);
                                st3 = (if blocking \<and> \<not> applied then st2\<lparr>mp_warming_up := True\<rparr> else st2)
                            in (ops, ws, m2, st3\<lparr>mp_effective := True, mp_blocking := applied, mp_threshold_reason := reason'\<rparr>)))))"

definition machine_reconcile ::
  "nft_answers \<Rightarrow> sysctl_answers \<Rightarrow> string \<Rightarrow> time \<Rightarrow> machineProtectionSettings option \<Rightarrow> machineProtectionInput
     \<Rightarrow> machinePorts \<times> machinePortSources \<Rightarrow> machine_manager \<Rightarrow> nft_op list \<times> int list \<times> machine_manager \<times> machineProtectionStatus" where
  "machine_reconcile a sy file_error now configured input sourced m =
     (let settings = (case configured of None \<Rightarrow> no_protection | Some s \<Rightarrow> s);
          (ports, sources) = sourced;
          (ops, ws, m', st) = guard_pass a sy now settings input ports m (status_start (mg_supported m) now settings ports sources input)
      in (ops, ws, m', st\<lparr>mp_dropped_total := mg_dropped m', mp_status_file_error := file_error\<rparr>))"

definition machine_release :: "bool \<Rightarrow> sysctl_answers \<Rightarrow> time \<Rightarrow> machine_manager \<Rightarrow> nft_op list \<times> int list \<times> machine_manager" where
  "machine_release gone sy now m =
     (let (ops, m1) = releaseGuard gone m; (ws, tw, _) = reconcileTW sy now None (mg_tw m1) in (ops, ws, m1\<lparr>mg_tw := tw\<rparr>))"

record machineStatusFile =
  mf_version :: int
  mf_owner :: string
  mf_updated_at :: time
  mf_enabled :: bool
  mf_max_total :: "int option"
  mf_tw_buckets :: "int option"
  mf_close_wait_seconds :: "int option"
  mf_total :: int
  mf_tcp :: int
  mf_udp :: int
  mf_blocking :: bool
  mf_dropped_total :: int

definition machineStatusFileContents :: "machineProtectionStatus \<Rightarrow> machineProtectionSettings \<Rightarrow> machineStatusFile" where
  "machineStatusFileContents st settings =
     (let enabled = (ms_enabled settings \<and> validateMachineProtection settings = None)
      in \<lparr>mf_version = 1, mf_owner = ''mmwx'', mf_updated_at = mp_last_reconciled st, mf_enabled = enabled,
          mf_max_total = (if enabled then ms_max_total settings else None), mf_tw_buckets = twTarget settings,
          mf_close_wait_seconds = closeWaitSeconds settings, mf_total = mp_total st,
          mf_tcp = (case mp_connections st of None \<Rightarrow> 0 | Some c \<Rightarrow> mc_tcp c),
          mf_udp = (case mp_connections st of None \<Rightarrow> 0 | Some c \<Rightarrow> mc_udp c),
          mf_blocking = mp_blocking st, mf_dropped_total = mp_dropped_total st\<rparr>)"

end
