(* ===== verification/Connection_Settings.thy ===== *)
theory Connection_Settings
  imports Machine_Guard "HOL-Library.Product_Lexorder" "HOL-Library.AList"
begin

text \<open>
  The connection limits of a server as the controller keeps them
  (\<open>connection_control.go\<close>, \<open>machine_protection.go\<close>): defaults, validation, the retired
  CLOSE_WAIT default and its merge into machine protection, the one-time default
  protection and what a Helper of a given version is sent. A nil slice and an empty one
  are the same list. \<open>cloneServerConnectionSettings\<close> copies by JSON; only its default
  for the grace period shows in a model without references.
\<close>

section \<open>Data\<close>

record serverConnectionIdentity =
  sid_inbound_tag :: string
  sid_user :: string

record serverUserConnectionSettings =
  iu_identity :: serverConnectionIdentity
  iu_max_inbound_online_ips :: "int option"
  iu_max_total_connections :: "int option"
  iu_max_outbound_tcp_active :: "int option"
  iu_max_outbound_tcp_new_per_second :: "int option"
  iu_close_wait_timeout_seconds :: "int option"

record serverPortConnectionSettings =
  pt_inbound_tag :: string
  pt_max_total_connections :: "int option"
  pt_max_inbound_connections :: "int option"
  pt_max_inbound_online_ips :: "int option"
  pt_max_outbound_tcp_active :: "int option"
  pt_max_outbound_tcp_new_per_second :: "int option"

record serverMachineProtectionSettings =
  mc_enabled :: bool
  mc_max_active :: "int option"
  mc_max_total :: "int option"
  mc_tw_buckets :: "int option"
  mc_close_wait_seconds :: "int option"

record serverManagementUserSettings =
  gu_username :: string
  gu_max_total_connections :: "int option"
  gu_max_inbound_connections :: "int option"
  gu_max_inbound_online_ips :: "int option"
  gu_max_outbound_tcp_active :: "int option"
  gu_max_outbound_tcp_new_per_second :: "int option"

record serverManagementMapping =
  mm_identity :: serverConnectionIdentity
  mm_group :: string

record serverConnectionSettings =
  cn_blocked_identities :: "(serverConnectionIdentity list) option"
  cn_machine_protection :: "serverMachineProtectionSettings option"
  cn_default_close_wait_timeout_seconds :: "int option"
  cn_online_ip_grace_period_seconds :: int
  cn_global_total_limit_enabled :: bool
  cn_max_global_total_connections :: "int option"
  cn_max_global_inbound_connections :: "int option"
  cn_users :: "serverUserConnectionSettings list"
  cn_ports :: "serverPortConnectionSettings list"
  cn_management_users :: "serverManagementUserSettings list"
  cn_management_mappings :: "serverManagementMapping list"

section \<open>Defaults and copies\<close>

definition defaultServerConnectionSettings :: serverConnectionSettings where
  "defaultServerConnectionSettings = \<lparr>cn_blocked_identities = None, cn_machine_protection = None,
     cn_default_close_wait_timeout_seconds = None, cn_online_ip_grace_period_seconds = 30, cn_global_total_limit_enabled = False,
     cn_max_global_total_connections = None, cn_max_global_inbound_connections = None, cn_users = [], cn_ports = [],
     cn_management_users = [], cn_management_mappings = []\<rparr>"

definition cloneServerConnectionSettings :: "serverConnectionSettings \<Rightarrow> serverConnectionSettings" where
  "cloneServerConnectionSettings s =
     (if cn_online_ip_grace_period_seconds s \<le> 0 then s\<lparr>cn_online_ip_grace_period_seconds := 30\<rparr> else s)"

section \<open>Validation\<close>

definition machine_settings_error :: "serverMachineProtectionSettings \<Rightarrow> string option" where
  "machine_settings_error m =
     (if opt_is (\<lambda>v. v \<le> 0) (mc_max_active m) then Some ''machine max_active must be positive when set''
      else if opt_is (\<lambda>v. v \<le> 0) (mc_max_total m) then Some ''machine max_total must be positive when set''
      else if mc_enabled m \<and> mc_max_active m = None \<and> mc_max_total m = None
        then Some ''machine protection requires max_active or max_total''
      else if opt_is (\<lambda>v. v \<noteq> 0 \<and> (v < 100 \<or> 2000000 < v)) (mc_tw_buckets m) then Some ''machine tw_buckets out of range''
      else if opt_is (\<lambda>v. v < 0 \<or> 3600 < v) (mc_close_wait_seconds m) then Some ''machine close_wait_seconds out of range''
      else None)"

fun identity_settings_error :: "serverConnectionIdentity list \<Rightarrow> serverUserConnectionSettings list \<Rightarrow> string option" where
  "identity_settings_error seen [] = None"
| "identity_settings_error seen (u # us) =
     (if trim_space (sid_inbound_tag (iu_identity u)) = [] then Some ''every identity setting requires inbound_tag''
      else if iu_identity u \<in> set seen then Some ''duplicate connection settings''
      else if opt_is (\<lambda>v. v < 0) (iu_close_wait_timeout_seconds u) then Some ''close_wait_timeout_seconds must be non-negative''
      else identity_settings_error (iu_identity u # seen) us)"

fun management_settings_error :: "string list \<Rightarrow> serverManagementUserSettings list \<Rightarrow> string option" where
  "management_settings_error seen [] = None"
| "management_settings_error seen (u # us) =
     (let name = trim_space (gu_username u)
      in if name = [] then Some ''every management user setting requires username''
         else if name \<in> set seen then Some ''duplicate management user settings''
         else if opt_is (\<lambda>v. v \<le> 0) (gu_max_total_connections u) then Some ''management max_total_connections''
         else if opt_is (\<lambda>v. v < 0) (gu_max_inbound_connections u) then Some ''management max_inbound_connections''
         else if opt_is (\<lambda>v. v < 0) (gu_max_inbound_online_ips u) then Some ''management max_inbound_online_ips''
         else if opt_is (\<lambda>v. v \<le> 0) (gu_max_outbound_tcp_active u) then Some ''management max_outbound_tcp_active''
         else if opt_is (\<lambda>v. v \<le> 0) (gu_max_outbound_tcp_new_per_second u) then Some ''management max_outbound_tcp_new_per_second''
         else management_settings_error (name # seen) us)"

fun port_settings_error :: "string list \<Rightarrow> serverPortConnectionSettings list \<Rightarrow> string option" where
  "port_settings_error seen [] = None"
| "port_settings_error seen (p # ps) =
     (let tag = trim_space (pt_inbound_tag p)
      in if tag = [] then Some ''every port setting requires inbound_tag''
         else if tag \<in> set seen then Some ''duplicate port settings''
         else if opt_is (\<lambda>v. v \<le> 0) (pt_max_total_connections p) then Some ''port max_total_connections''
         else if opt_is (\<lambda>v. v < 0) (pt_max_inbound_connections p) then Some ''port max_inbound_connections''
         else if opt_is (\<lambda>v. v < 0) (pt_max_inbound_online_ips p) then Some ''port max_inbound_online_ips''
         else if opt_is (\<lambda>v. v \<le> 0) (pt_max_outbound_tcp_active p) then Some ''port max_outbound_tcp_active''
         else if opt_is (\<lambda>v. v \<le> 0) (pt_max_outbound_tcp_new_per_second p) then Some ''port max_outbound_tcp_new_per_second''
         else port_settings_error (tag # seen) ps)"

definition orelse :: "'a option \<Rightarrow> 'a option \<Rightarrow> 'a option" where
  "orelse a b = (case a of None \<Rightarrow> b | Some x \<Rightarrow> Some x)"

definition validateServerConnectionSettings :: "serverConnectionSettings \<Rightarrow> string option" where
  "validateServerConnectionSettings s =
     (if cn_blocked_identities s \<noteq> None then Some ''blocked_identities cannot be edited''
      else orelse (case cn_machine_protection s of None \<Rightarrow> None | Some m \<Rightarrow> machine_settings_error m)
        (if cn_online_ip_grace_period_seconds s < 1 \<or> 3600 < cn_online_ip_grace_period_seconds s
           then Some ''online_ip_grace_period_seconds out of range''
         else if opt_is (\<lambda>v. v < 0) (cn_default_close_wait_timeout_seconds s) then Some ''default_close_wait_timeout_seconds must be non-negative''
         else if opt_is (\<lambda>v. v \<le> 0) (cn_max_global_total_connections s) then Some ''max_global_total_connections must be positive when set''
         else if opt_is (\<lambda>v. v < 0) (cn_max_global_inbound_connections s) then Some ''max_global_inbound_connections must be non-negative''
         else if cn_global_total_limit_enabled s \<and> cn_max_global_total_connections s = None
           then Some ''max_global_total_connections is required when the global limit is enabled''
         else orelse (identity_settings_error [] (cn_users s))
             (orelse (management_settings_error [] (cn_management_users s)) (port_settings_error [] (cn_ports s)))))"

section \<open>The retired CLOSE_WAIT default\<close>

definition defaultMachineMaxTotal :: int where "defaultMachineMaxTotal = 1000"

definition empty_machine_settings :: serverMachineProtectionSettings where
  "empty_machine_settings = \<lparr>mc_enabled = False, mc_max_active = None, mc_max_total = None, mc_tw_buckets = None, mc_close_wait_seconds = None\<rparr>"

definition defaultMachineProtectionSettings :: serverMachineProtectionSettings where
  "defaultMachineProtectionSettings = \<lparr>mc_enabled = True, mc_max_active = None, mc_max_total = Some defaultMachineMaxTotal,
     mc_tw_buckets = Some defaultMachineTWBuckets, mc_close_wait_seconds = Some defaultMachineCloseWaitSeconds\<rparr>"

definition unconfiguredMachineProtection :: "serverMachineProtectionSettings option \<Rightarrow> bool" where
  "unconfiguredMachineProtection p =
     (case p of None \<Rightarrow> True
      | Some m \<Rightarrow> \<not> mc_enabled m \<and> mc_max_active m = None \<and> mc_max_total m = None \<and> mc_tw_buckets m = None)"

text \<open>What machine protection applied so far.\<close>

definition before_merge :: "serverMachineProtectionSettings \<Rightarrow> int option" where
  "before_merge m =
     (if \<not> mc_enabled m then None
      else case mc_close_wait_seconds m of
        None \<Rightarrow> Some defaultMachineCloseWaitSeconds
      | Some v \<Rightarrow> if 0 < v then Some v else None)"

definition merge_note :: "serverMachineProtectionSettings \<Rightarrow> int \<Rightarrow> string" where
  "merge_note m v =
     (if before_merge m = Some v then []
      else ''old server default '' @ go_itoa v @ '' s kept (it was in effect); machine protection had ''
           @ (case before_merge m of None \<Rightarrow> ''none'' | Some b \<Rightarrow> go_itoa b @ '' s'')
           @ (if mc_enabled m then [] else ''; machine protection is off, so it applies once protection is on''))"

text \<open>The settings, the note for the log and whether they changed.\<close>

definition mergeLegacyCloseWait :: "serverConnectionSettings \<Rightarrow> serverConnectionSettings \<times> string \<times> bool" where
  "mergeLegacyCloseWait s =
     (case cn_default_close_wait_timeout_seconds s of
        None \<Rightarrow> (s, [], False)
      | Some legacy \<Rightarrow>
          (let s1 = s\<lparr>cn_default_close_wait_timeout_seconds := None\<rparr>
           in if legacy \<le> 0 then (s1, [], True)
              else (let m = (case cn_machine_protection s of None \<Rightarrow> empty_machine_settings | Some m \<Rightarrow> m)
                    in (s1\<lparr>cn_machine_protection := Some (m\<lparr>mc_close_wait_seconds := Some legacy\<rparr>)\<rparr>, merge_note m legacy, True))))"

text \<open>
  The settings of every server and the servers that were given their defaults, of the
  Helper state; the third part of the result is whether the state has to be written.
\<close>

record protection_state =
  pn_settings :: "(string \<times> serverConnectionSettings) list"
  pn_defaults :: "(string \<times> int) list"

definition mergeLegacyCloseWaitLocked :: "protection_state \<Rightarrow> protection_state \<times> (string \<times> string) list \<times> bool" where
  "mergeLegacyCloseWaitLocked st =
     (let merged = map (\<lambda>(i, s). (i, mergeLegacyCloseWait s)) (pn_settings st)
      in (st\<lparr>pn_settings := map (\<lambda>(i, s, note, changed). (i, s)) merged\<rparr>,
          sort_key fst (map (\<lambda>(i, s, note, changed). (i, note)) (filter (\<lambda>(i, s, note, changed). changed \<and> note \<noteq> []) merged)),
          list_ex (\<lambda>(i, s, note, changed). changed) merged))"

definition with_default_protection :: "serverConnectionSettings \<Rightarrow> serverConnectionSettings" where
  "with_default_protection s =
     (let d = defaultMachineProtectionSettings;
          kept = (case cn_machine_protection s of None \<Rightarrow> None | Some m \<Rightarrow> mc_close_wait_seconds m)
      in cloneServerConnectionSettings
           (s\<lparr>cn_machine_protection := Some (case kept of None \<Rightarrow> d | Some v \<Rightarrow> d\<lparr>mc_close_wait_seconds := Some v\<rparr>)\<rparr>))"

text \<open>\<open>saved\<close>: the state could be written. The result is whether the defaults were applied, or the error.\<close>

definition applyMachineProtectionDefaults ::
  "bool \<Rightarrow> int \<Rightarrow> string \<Rightarrow> protection_state \<Rightarrow> protection_state \<times> bool option" where
  "applyMachineProtectionDefaults saved now server st =
     (if map_of (pn_defaults st) server \<noteq> None then (st, Some False)
      else (let settings = (case map_of (pn_settings st) server of None \<Rightarrow> defaultServerConnectionSettings | Some s \<Rightarrow> s);
                applied = unconfiguredMachineProtection (cn_machine_protection settings);
                st1 = (if applied then st\<lparr>pn_settings := AList.update server (with_default_protection settings) (pn_settings st)\<rparr> else st)
            in if saved then (st1\<lparr>pn_defaults := AList.update server now (pn_defaults st)\<rparr>, Some applied)
               else (st1, None)))"

section \<open>What a Helper is sent\<close>

definition version_body :: "string \<Rightarrow> string" where
  "version_body v = fst (go_cut (trim_prefix (trim_space v) ''v'') (CHR ''-''))"

definition helperSupportsMachineProtection :: "string \<Rightarrow> bool" where
  "helperSupportsMachineProtection version =
     (case map go_atoi (go_split (CHR ''.'') (version_body version)) of
        [Some major, Some minor, Some patch] \<Rightarrow> 0 < major \<or> 6 < minor \<or> minor = 6 \<and> 6 \<le> patch
      | _ \<Rightarrow> False)"

text \<open>\<open>Sscanf\<close> followed by the comparison with the printed numbers: canonical decimals only.\<close>

definition canonical_int :: "string \<Rightarrow> int option" where
  "canonical_int s = (case go_atoi s of None \<Rightarrow> None | Some v \<Rightarrow> if go_itoa v = s then Some v else None)"

definition helperSupportsTrafficBlocks :: "string \<Rightarrow> bool" where
  "helperSupportsTrafficBlocks version =
     (case map canonical_int (go_split (CHR ''.'') (version_body version)) of
        [Some major, Some minor, Some patch] \<Rightarrow>
          0 \<le> major \<and> 0 \<le> minor \<and> 0 \<le> patch \<and> (0 < major \<or> 6 < minor \<or> minor = 6 \<and> 8 \<le> patch)
      | _ \<Rightarrow> False)"

definition settingsForHelperMachine :: "serverConnectionSettings \<Rightarrow> string \<Rightarrow> bool \<Rightarrow> serverConnectionSettings" where
  "settingsForHelperMachine settings version machineV2 =
     (let s0 = cloneServerConnectionSettings settings;
          s1 = (if helperSupportsMachineProtection version then s0 else s0\<lparr>cn_machine_protection := None\<rparr>);
          s2 = (if machineV2 then s1
                else s1\<lparr>cn_machine_protection :=
                       map_option (\<lambda>m. m\<lparr>mc_tw_buckets := None, mc_close_wait_seconds := None\<rparr>) (cn_machine_protection s1)\<rparr>)
      in if helperSupportsTrafficBlocks version then s2 else s2\<lparr>cn_blocked_identities := None\<rparr>)"

definition settingsForHelper :: "serverConnectionSettings \<Rightarrow> string \<Rightarrow> serverConnectionSettings" where
  "settingsForHelper settings version = settingsForHelperMachine settings version False"

definition identity_key :: "serverConnectionIdentity \<Rightarrow> string \<times> string" where
  "identity_key i = (sid_inbound_tag i, sid_user i)"

definition uniqueAccessIdentities :: "serverConnectionIdentity list \<Rightarrow> serverConnectionIdentity list" where
  "uniqueAccessIdentities values = sort_key identity_key (dedup (filter (\<lambda>i. sid_inbound_tag i \<noteq> [] \<and> sid_user i \<noteq> []) values))"

text \<open>
  \<open>ready\<close>: the blocks of the traffic groups and of the disabled users were read; \<open>disabled\<close>
  are those of the disabled users on this server, user by user.
\<close>

definition trafficBlocksForHelper ::
  "bool \<Rightarrow> serverConnectionIdentity list \<Rightarrow> serverConnectionIdentity list list \<Rightarrow> string \<Rightarrow> serverConnectionSettings \<Rightarrow> serverConnectionSettings" where
  "trafficBlocksForHelper ready groups disabled version s =
     (if helperSupportsTrafficBlocks version \<and> ready
      then s\<lparr>cn_blocked_identities := Some (uniqueAccessIdentities (groups @ concat disabled))\<rparr>
      else s\<lparr>cn_blocked_identities := None\<rparr>)"

section \<open>The Helper's view\<close>

text \<open>The same object read by the Helper.\<close>

definition helper_machine :: "serverMachineProtectionSettings \<Rightarrow> machineProtectionSettings" where
  "helper_machine m = \<lparr>ms_enabled = mc_enabled m, ms_max_active = mc_max_active m, ms_max_total = mc_max_total m,
     ms_tw_buckets = mc_tw_buckets m, ms_close_wait_seconds = mc_close_wait_seconds m\<rparr>"


definition helper_close_wait :: "serverConnectionSettings \<Rightarrow> int option" where
  "helper_close_wait s =
     effectiveDefaultCloseWait (cn_default_close_wait_timeout_seconds s) (map_option helper_machine (cn_machine_protection s))"

section \<open>Correctness\<close>

lemma machine_settings_helper: "machine_settings_error m = None \<Longrightarrow> validateMachineProtection (helper_machine m) = None"
  by (auto simp: machine_settings_error_def validateMachineProtection_def helper_machine_def opt_is_def split: if_splits option.splits)

lemma orelse_None [simp]: "orelse a b = None \<longleftrightarrow> a = None \<and> b = None"
  by (simp add: orelse_def split: option.split)

lemma validated_machine:
  "validateServerConnectionSettings s = None \<Longrightarrow> cn_machine_protection s = Some m \<Longrightarrow> machine_settings_error m = None"
  by (simp add: validateServerConnectionSettings_def split: if_splits)

lemma validated_grace:
  "validateServerConnectionSettings s = None \<Longrightarrow> 1 \<le> cn_online_ip_grace_period_seconds s \<and> cn_online_ip_grace_period_seconds s \<le> 3600"
  by (auto simp: validateServerConnectionSettings_def split: if_splits)

lemma merge_legacy_none: "cn_default_close_wait_timeout_seconds (fst (mergeLegacyCloseWait s)) = None"
  by (simp add: mergeLegacyCloseWait_def Let_def split: option.split)

lemma sent_fields:
  "cn_default_close_wait_timeout_seconds (settingsForHelperMachine s version v2) = cn_default_close_wait_timeout_seconds s"
  "cn_online_ip_grace_period_seconds (settingsForHelperMachine s version v2)
     = (if cn_online_ip_grace_period_seconds s \<le> 0 then 30 else cn_online_ip_grace_period_seconds s)"
  "cn_machine_protection (settingsForHelperMachine s version v2)
     = (if \<not> helperSupportsMachineProtection version then None
        else if v2 then cn_machine_protection s
        else map_option (\<lambda>m. m\<lparr>mc_tw_buckets := None, mc_close_wait_seconds := None\<rparr>) (cn_machine_protection s))"
  by (simp_all add: settingsForHelperMachine_def cloneServerConnectionSettings_def Let_def)

lemma stripped_valid:
  "machine_settings_error m = None \<Longrightarrow> machine_settings_error (m\<lparr>mc_tw_buckets := None, mc_close_wait_seconds := None\<rparr>) = None"
  by (auto simp: machine_settings_error_def opt_is_def split: if_splits option.splits)

text \<open>
  C36: Settings the controller accepts are settings the Helper accepts: after the merge
  of the retired default and the validation, what a Helper of any version is sent has
  no retired default, a grace period between 1 and 3600 seconds and machine protection
  that passes the Helper's own validation; a Helper that is too old is sent none, one
  without version 2 no TIME_WAIT or CLOSE_WAIT value.
\<close>

theorem accepted_settings_reach_helper:
  assumes "validateServerConnectionSettings (fst (mergeLegacyCloseWait s)) = None"
    and "sent = settingsForHelperMachine (fst (mergeLegacyCloseWait s)) version v2"
  shows "cn_default_close_wait_timeout_seconds sent = None
    \<and> 1 \<le> cn_online_ip_grace_period_seconds sent \<and> cn_online_ip_grace_period_seconds sent \<le> 3600
    \<and> (\<forall>m. cn_machine_protection sent = Some m \<longrightarrow>
         helperSupportsMachineProtection version \<and> validateMachineProtection (helper_machine m) = None
         \<and> (\<not> v2 \<longrightarrow> mc_tw_buckets m = None \<and> mc_close_wait_seconds m = None))"
proof -
  let ?m = "fst (mergeLegacyCloseWait s)"
  have "validateMachineProtection (helper_machine m) = None" if "cn_machine_protection sent = Some m" for m
    using that validated_machine [OF assms(1)] stripped_valid
    by (auto simp: assms(2) sent_fields split: if_splits intro!: machine_settings_helper)
  then show ?thesis
    using validated_grace [OF assms(1)] by (auto simp: assms(2) sent_fields merge_legacy_none split: if_splits)
qed

definition positive_part :: "int option \<Rightarrow> int option" where
  "positive_part v = (case v of None \<Rightarrow> None | Some x \<Rightarrow> if 0 < x then Some x else None)"

lemma close_wait_enabled:
  assumes "validateMachineProtection (helper_machine m) = None" "mc_enabled m"
  shows "effectiveDefaultCloseWait legacy (Some (helper_machine m))
    = (if opt_is (\<lambda>x. 0 < x) legacy then legacy
       else case optionalMachineValue True (mc_close_wait_seconds m) defaultMachineCloseWaitSeconds of Some v \<Rightarrow> Some v | None \<Rightarrow> legacy)"
  using assms by (simp add: effectiveDefaultCloseWait_def closeWaitSeconds_def helper_machine_def)

lemma merged_helper_valid:
  "validateMachineProtection (helper_machine m) = None \<Longrightarrow> 0 < v
    \<Longrightarrow> validateMachineProtection (helper_machine (m\<lparr>mc_close_wait_seconds := Some v\<rparr>)) = None"
  by (auto simp: validateMachineProtection_def helper_machine_def opt_is_def split: if_splits option.splits)

text \<open>
  Merging the retired CLOSE_WAIT default changes nothing in what a Helper with
  protection applies: for every server whose protection is on and valid, the timeout in
  effect is the same before and after (zero and none both mean off), and it is the one
  the machine protection alone gives.
\<close>

theorem merge_keeps_close_wait:
  assumes "cn_machine_protection s = Some m" "mc_enabled m" "validateMachineProtection (helper_machine m) = None"
  shows "positive_part (helper_close_wait (fst (mergeLegacyCloseWait s))) = positive_part (helper_close_wait s)
    \<and> (\<exists>m'. cn_machine_protection (fst (mergeLegacyCloseWait s)) = Some m'
        \<and> positive_part (closeWaitSeconds (helper_machine m')) = positive_part (helper_close_wait s))"
proof (cases "cn_default_close_wait_timeout_seconds s")
  case None
  then show ?thesis using assms(1)
    by (simp add: mergeLegacyCloseWait_def helper_close_wait_def effectiveDefaultCloseWait_def opt_is_def split: option.split)
next
  case (Some legacy)
  show ?thesis
  proof (cases "legacy \<le> 0")
    case True
    then have merged: "fst (mergeLegacyCloseWait s) = s\<lparr>cn_default_close_wait_timeout_seconds := None\<rparr>"
      by (simp add: mergeLegacyCloseWait_def Some)
    show ?thesis using True assms
      by (auto simp: merged helper_close_wait_def Some effectiveDefaultCloseWait_def opt_is_def positive_part_def split: option.split)
  next
    case False
    let ?m = "m\<lparr>mc_close_wait_seconds := Some legacy\<rparr>"
    have merged: "fst (mergeLegacyCloseWait s) = s\<lparr>cn_default_close_wait_timeout_seconds := None, cn_machine_protection := Some ?m\<rparr>"
      using False by (simp add: mergeLegacyCloseWait_def Some assms(1) Let_def)
    have valid: "validateMachineProtection (helper_machine ?m) = None" using merged_helper_valid [OF assms(3)] False by simp
    have "closeWaitSeconds (helper_machine ?m) = Some legacy"
      using valid False assms(2) by (simp add: closeWaitSeconds_def helper_machine_def optionalMachineValue_def)
    then show ?thesis using False assms(1)
      by (simp add: merged helper_close_wait_def Some effectiveDefaultCloseWait_def opt_is_def)
  qed
qed

text \<open>A retired default above an hour was valid; merged, the settings are no longer accepted by the form's validation.\<close>

lemma merged_default_rejected:
  assumes "cn_blocked_identities s = None" "cn_machine_protection s = Some m" "machine_settings_error m = None"
    and "cn_default_close_wait_timeout_seconds s = Some legacy" "3600 < legacy"
  shows "validateServerConnectionSettings (fst (mergeLegacyCloseWait s)) = Some ''machine close_wait_seconds out of range''"
proof -
  have "machine_settings_error (m\<lparr>mc_close_wait_seconds := Some legacy\<rparr>) = Some ''machine close_wait_seconds out of range''"
    using assms(3,5) by (auto simp: machine_settings_error_def opt_is_def split: if_splits option.splits)
  then show ?thesis using assms by (simp add: mergeLegacyCloseWait_def Let_def validateServerConnectionSettings_def orelse_def)
qed

text \<open>
  The one-time defaults: whatever sequence of reports follows (each with or without a
  successful write), protection that somebody configured stays as it is, and a server
  that was given its defaults is not given them again.
\<close>

definition default_reports :: "(bool \<times> int \<times> string) list \<Rightarrow> protection_state \<Rightarrow> protection_state" where
  "default_reports rs st = foldl (\<lambda>st (saved, now, server). fst (applyMachineProtectionDefaults saved now server st)) st rs"

lemma configured_kept:
  assumes "map_of (pn_settings st) server = Some s"
    and "\<not> unconfiguredMachineProtection (cn_machine_protection s) \<or> map_of (pn_defaults st) server \<noteq> None"
  shows "map_of (pn_settings (fst (applyMachineProtectionDefaults saved now other st))) server = Some s
    \<and> (map_of (pn_defaults st) server \<noteq> None
        \<longrightarrow> map_of (pn_defaults (fst (applyMachineProtectionDefaults saved now other st))) server \<noteq> None)"
  using assms by (auto simp: applyMachineProtectionDefaults_def Let_def update_conv')

lemma configured_protection_stays:
  "map_of (pn_settings st) server = Some s
    \<Longrightarrow> \<not> unconfiguredMachineProtection (cn_machine_protection s) \<or> map_of (pn_defaults st) server \<noteq> None
    \<Longrightarrow> map_of (pn_settings (default_reports rs st)) server = Some s"
proof (induction rs arbitrary: st)
  case (Cons r rs)
  obtain saved now other where r: "r = (saved, now, other)" by (cases r)
  show ?case using configured_kept [OF Cons.prems, of saved now other] Cons
    by (fastforce simp: default_reports_def r)
qed (simp add: default_reports_def)

definition sample_settings :: serverConnectionSettings where
  "sample_settings = defaultServerConnectionSettings\<lparr>cn_machine_protection := Some defaultMachineProtectionSettings,
     cn_default_close_wait_timeout_seconds := Some 20\<rparr>"

theorem accepted_settings_reach_helper_witness:
  "cn_default_close_wait_timeout_seconds (settingsForHelperMachine (fst (mergeLegacyCloseWait sample_settings)) ''v0.7.2'' True) = None"
proof -
  have "validateServerConnectionSettings (fst (mergeLegacyCloseWait sample_settings)) = None" by code_simp
  from accepted_settings_reach_helper [OF this refl] show ?thesis by simp
qed

theorem merge_keeps_close_wait_witness:
  "positive_part (helper_close_wait (fst (mergeLegacyCloseWait sample_settings))) = positive_part (helper_close_wait sample_settings)"
proof -
  have "cn_machine_protection sample_settings = Some defaultMachineProtectionSettings" "mc_enabled defaultMachineProtectionSettings"
    by (simp_all add: sample_settings_def defaultMachineProtectionSettings_def)
  moreover have "validateMachineProtection (helper_machine defaultMachineProtectionSettings) = None" by code_simp
  ultimately show ?thesis using merge_keeps_close_wait by blast
qed

end
