(* ===== verification/Helper_Identity.thy ===== *)
theory Helper_Identity
  imports Core_Mode Connection_Settings
begin

text \<open>
  Who a Helper is (\<open>helper_identity.go\<close>): install tokens that are handed out once, the
  credential a Helper reports with, machines that move to another server, and the stored
  connection settings. Secrets and UUIDs are arguments (\<open>None\<close>: no randomness), the
  hash is \<open>lib_hash\<close>. A Go map has no order; where the source takes the first match
  of a loop over the servers, the argument \<open>order\<close> lists them as they are visited. A
  failed save leaves the changed state in memory.
\<close>

section \<open>Expiry\<close>

definition prune_identity :: "time \<Rightarrow> helperServerIdentity \<Rightarrow> helperServerIdentity" where
  "prune_identity now i =
     (if id_pending_hash i \<noteq> [] \<and> id_pending_expires_at i \<le> now then i\<lparr>id_pending_hash := [], id_pending_expires_at := 0\<rparr> else i)"

definition pruneExpiredLocked :: "time \<Rightarrow> helperState \<Rightarrow> helperState" where
  "pruneExpiredLocked now s =
     s\<lparr>hs_servers := (\<lambda>server. map_option (prune_identity now) (hs_servers s server)),
       hs_installs := filter (\<lambda>(_, r). now \<le> it_expires_at r) (hs_installs s),
       hs_rebinds := filter (\<lambda>(_, r). now \<le> rb_expires_at r) (hs_rebinds s)\<rparr>"

section \<open>Install tokens\<close>

definition new_identity :: "string \<Rightarrow> time \<Rightarrow> string \<Rightarrow> string \<Rightarrow> helperServerIdentity" where
  "new_identity server now machine uuid =
     \<lparr>id_official_server_id = server, id_custom_uuid = uuid, id_token_hash = [], id_pending_hash = [], id_pending_expires_at = 0,
      id_created_at = now, id_updated_at = 0, id_last_seen_at = 0, id_last_version = [], id_machine_id = machine\<rparr>"

definition zero_server :: helperServerIdentity where
  "zero_server = new_identity [] 0 [] []"

definition install_desired_mode :: "string \<Rightarrow> string" where
  "install_desired_mode mode = (if mode = ''takeover'' then ''external'' else ''embedded'')"

text \<open>A queued repair for another mode than the new install wants is dropped.\<close>

definition keeps_mode_command :: "agent_lib \<Rightarrow> string \<Rightarrow> managementCommand \<Rightarrow> bool" where
  "keeps_mode_command lib desired c \<longleftrightarrow>
     \<not> (cm_action c = ''core.mode.apply'' \<and> (case lib_mode lib (cm_payload c) of None \<Rightarrow> False | Some m \<Rightarrow> m \<noteq> desired))"

definition install_record ::
  "agent_lib \<Rightarrow> string \<Rightarrow> string \<Rightarrow> string \<Rightarrow> time \<Rightarrow> duration \<Rightarrow> bool \<Rightarrow> string \<Rightarrow> string \<Rightarrow> helperInstallToken" where
  "install_record lib server uuid helper_token now ttl preserve mode token =
     \<lparr>it_token_hash = lib_hash lib token, it_official_server_id = server, it_custom_uuid = uuid, it_helper_token = helper_token,
      it_helper_token_hash = lib_hash lib helper_token, it_created_at = now, it_expires_at = now + ttl,
      it_preserve_existing = preserve, it_install_mode = mode\<rparr>"

definition createInstallTokenForMode ::
  "agent_lib \<Rightarrow> bool \<Rightarrow> time \<Rightarrow> duration \<Rightarrow> string option \<Rightarrow> string option \<Rightarrow> string option \<Rightarrow> time \<Rightarrow> string \<Rightarrow> string \<Rightarrow> helperState
     \<Rightarrow> helperState \<times> (string + helperInstallToken \<times> string)" where
  "createInstallTokenForMode lib save_ok clock ttl uuid helper_secret install_secret now server install_mode s =
     (let mode = (if install_mode = [] then ''takeover'' else install_mode)
      in if mode \<noteq> ''takeover'' \<and> mode \<noteq> ''helper-only'' then (s, Inl ''invalid install mode'')
         else (let s0 = pruneExpiredLocked now s
               in case (case hs_servers s0 server of Some i \<Rightarrow> Some i | None \<Rightarrow> map_option (\<lambda>u. new_identity server now u u) uuid) of
                    None \<Rightarrow> (s0, Inl ''random'')
                  | Some ident \<Rightarrow>
                      (case helper_secret of
                         None \<Rightarrow> (s0, Inl ''random'')
                       | Some helper_token \<Rightarrow>
                           (let preserve = (hs_servers s0 server \<noteq> None \<and> id_token_hash ident \<noteq> []);
                                desired = install_desired_mode mode;
                                s1 = s0\<lparr>hs_servers := (hs_servers s0)(server := Some (ident\<lparr>id_updated_at := now\<rparr>)),
                                        hs_intents := (hs_intents s0)(server := Some ((newCoreModeIntent desired now)\<lparr>ci_machine_id := id_machine_id ident\<rparr>)),
                                        hs_commands := (hs_commands s0)(server := filter (keeps_mode_command lib desired) (hs_commands s0 server))\<rparr>
                            in case install_secret of
                                 None \<Rightarrow> (s1, Inl ''random'')
                               | Some token \<Rightarrow>
                                   (let r = install_record lib server (id_custom_uuid ident) helper_token now ttl preserve mode token;
                                        s2 = s1\<lparr>hs_installs := AList.update (lib_hash lib token) r (hs_installs s1)\<rparr>
                                    in if save_ok then (saved clock s2, Inr (r, token)) else (s2, Inl ''save''))))))"

text \<open>What a consumed token does to the identity of its server.\<close>

definition installed_identity :: "helperInstallToken \<Rightarrow> time \<Rightarrow> helperServerIdentity \<Rightarrow> helperServerIdentity" where
  "installed_identity r now i =
     (let i1 = i\<lparr>id_official_server_id := it_official_server_id r, id_custom_uuid := it_custom_uuid r,
                 id_created_at := (if id_created_at i = 0 then it_created_at r else id_created_at i), id_updated_at := now\<rparr>
      in if \<not> it_preserve_existing r then i1\<lparr>id_token_hash := it_helper_token_hash r\<rparr>
         else if it_helper_token r \<noteq> []
         then i1\<lparr>id_pending_hash := it_helper_token_hash r, id_pending_expires_at := it_expires_at r + 24 * hour\<rparr>
         else i1)"

definition install_usable :: "time \<Rightarrow> helperInstallToken \<Rightarrow> bool" where
  "install_usable now r \<longleftrightarrow> now \<le> it_expires_at r \<and> (it_preserve_existing r \<or> it_helper_token r \<noteq> [])"

definition consumeInstallToken ::
  "agent_lib \<Rightarrow> bool \<Rightarrow> time \<Rightarrow> time \<Rightarrow> string \<Rightarrow> helperState \<Rightarrow> helperState \<times> (string + helperInstallToken option)" where
  "consumeInstallToken lib save_ok clock now raw s =
     (let key = lib_hash lib raw; s0 = pruneExpiredLocked now s
      in case map_of (hs_installs s0) key of
           None \<Rightarrow> (s0, Inr None)
         | Some r \<Rightarrow>
             (let s1 = s0\<lparr>hs_installs := AList.delete key (hs_installs s0)\<rparr>
              in if \<not> install_usable now r then (if save_ok then saved clock s1 else s1, Inr None)
                 else (let server = it_official_server_id r;
                           ident = (case hs_servers s0 server of None \<Rightarrow> zero_server | Some i \<Rightarrow> i);
                           s2 = s1\<lparr>hs_servers := (hs_servers s1)(server := Some (installed_identity r now ident)),
                                   hs_rebinds := AList.update key \<lparr>rb_official_server_id = server, rb_expires_at = it_expires_at r\<rparr> (hs_rebinds s1)\<rparr>
                       in if save_ok then (saved clock s2, Inr (Some r)) else (s2, Inl ''save''))))"

section \<open>Reports\<close>

definition accepts_credential :: "string \<Rightarrow> string \<Rightarrow> time \<Rightarrow> helperServerIdentity \<Rightarrow> bool" where
  "accepts_credential reported token_hash now i \<longleftrightarrow>
     id_custom_uuid i = reported \<and> (id_token_hash i = token_hash \<or> acceptsPendingToken i token_hash now)"

definition server_matches :: "helperState \<Rightarrow> (helperServerIdentity \<Rightarrow> bool) \<Rightarrow> string \<Rightarrow> bool" where
  "server_matches s P server = (case hs_servers s server of None \<Rightarrow> False | Some i \<Rightarrow> P i)"

definition authorizeReporter ::
  "agent_lib \<Rightarrow> string list \<Rightarrow> time \<Rightarrow> string \<Rightarrow> string \<Rightarrow> string \<Rightarrow> helperState \<Rightarrow> helperState \<times> (string \<times> string) option" where
  "authorizeReporter lib order now reported token version s =
     (if reported = [] \<or> token = [] then (s, None)
      else case find (server_matches s (accepts_credential reported (lib_hash lib token) now)) order of
        None \<Rightarrow> (s, None)
      | Some server \<Rightarrow>
          (case hs_servers s server of
             None \<Rightarrow> (s, None)
           | Some i \<Rightarrow>
               (markVolatileLocked (s\<lparr>hs_servers := (hs_servers s)(server :=
                  Some (i\<lparr>id_last_seen_at := now, id_last_version := trim_space version, id_updated_at := now\<rparr>))\<rparr>),
                Some (server, id_custom_uuid i))))"

definition recordLegacyReporter ::
  "agent_lib \<Rightarrow> bool \<Rightarrow> time \<Rightarrow> string option \<Rightarrow> time \<Rightarrow> string \<Rightarrow> string \<Rightarrow> string \<Rightarrow> helperState \<Rightarrow> helperState \<times> string" where
  "recordLegacyReporter lib save_ok clock uuid now server token version s =
     (let key = lib_hash lib token; known = hs_servers s server
      in if (case known of None \<Rightarrow> False | Some i \<Rightarrow> id_token_hash i \<noteq> [] \<and> id_token_hash i \<noteq> key) then (s, [])
         else case (case known of Some i \<Rightarrow> Some i | None \<Rightarrow> map_option (new_identity server now []) uuid) of
           None \<Rightarrow> (s, [])
         | Some i \<Rightarrow>
             (let bound = (known \<noteq> None \<and> id_token_hash i = key);
                  i1 = i\<lparr>id_last_seen_at := now, id_last_version := trim_space version, id_token_hash := key, id_updated_at := now\<rparr>;
                  s1 = s\<lparr>hs_servers := (hs_servers s)(server := Some i1)\<rparr>
              in (if bound then markVolatileLocked s1 else if save_ok then saved clock s1 else s1, id_custom_uuid i1)))"

section \<open>A machine that moves to another server\<close>

definition rebind_candidate :: "string \<Rightarrow> string \<Rightarrow> string \<Rightarrow> helperState \<Rightarrow> string \<Rightarrow> bool" where
  "rebind_candidate helper_hash machine config_id s server =
     (case hs_servers s server of
        None \<Rightarrow> False
      | Some c \<Rightarrow>
          id_token_hash c = helper_hash
          \<and> (id_machine_id c = machine \<or> id_custom_uuid c = machine \<or> id_machine_id c = [] \<and> config_id \<noteq> [] \<and> config_id = server))"

text \<open>A missing status reads as the zero status; a stored one has the time of its report or of its update.\<close>

definition move_machine :: "string \<Rightarrow> string \<Rightarrow> helperState \<Rightarrow> helperState" where
  "move_machine source target s =
     s\<lparr>hs_servers := (hs_servers s)(source := None),
       hs_statuses := (if hs_statuses s source = zero_status then hs_statuses s
                       else (hs_statuses s)(target := hs_statuses s source, source := zero_status)),
       hs_results := (if hs_results s source = [] then hs_results s else (hs_results s)(target := hs_results s source, source := [])),
       hs_commands := (hs_commands s)(source := []),
       hs_intents := (case hs_intents s source of
           None \<Rightarrow> hs_intents s
         | Some i \<Rightarrow> (if hs_intents s target = None then (hs_intents s)(target := Some i) else hs_intents s)(source := None))\<rparr>"

definition touch_intent :: "string \<Rightarrow> string \<Rightarrow> time \<Rightarrow> helperState \<Rightarrow> helperState" where
  "touch_intent target machine now s =
     s\<lparr>hs_intents := (hs_intents s)(target := map_option (\<lambda>i. i\<lparr>ci_machine_id := machine, ci_updated_at := now\<rparr>) (hs_intents s target))\<rparr>"

text \<open>The result: the old server, the new one and the UUID.\<close>

definition rebindMachine ::
  "agent_lib \<Rightarrow> bool \<Rightarrow> time \<Rightarrow> string list \<Rightarrow> time \<Rightarrow> string \<Rightarrow> string \<Rightarrow> string \<Rightarrow> string \<Rightarrow> helperState
     \<Rightarrow> helperState \<times> (string + string \<times> string \<times> string)" where
  "rebindMachine lib save_ok clock order now raw raw_machine helper_token raw_config s =
     (let s0 = pruneExpiredLocked now s; key = lib_hash lib (trim_space raw)
      in case map_of (hs_rebinds s0) key of
           None \<Rightarrow> (s0, Inl ''invalid or expired rebind token'')
         | Some rb \<Rightarrow>
             if rb_expires_at rb < now then (s0, Inl ''invalid or expired rebind token'')
             else (let machine = trim_space raw_machine; helper_hash = lib_hash lib (trim_space helper_token); config_id = trim_space raw_config
                   in case find (rebind_candidate helper_hash machine config_id s0) order of
                        None \<Rightarrow> (s0, Inl ''existing machine identity is not authorized'')
                      | Some source \<Rightarrow>
                          (case hs_servers s0 source of
                             None \<Rightarrow> (s0, Inl ''existing machine identity is not authorized'')
                           | Some c \<Rightarrow>
                               (let target = rb_official_server_id rb;
                                    i = c\<lparr>id_official_server_id := target, id_machine_id := machine, id_pending_hash := [],
                                          id_pending_expires_at := 0, id_updated_at := now\<rparr>;
                                    s1 = s0\<lparr>hs_servers := (hs_servers s0)(target := Some i)\<rparr>;
                                    s2 = (if source \<noteq> target then move_machine source target s1 else s1);
                                    s3 = touch_intent target machine now s2;
                                    s4 = s3\<lparr>hs_rebinds := AList.delete key (hs_rebinds s3)\<rparr>
                                in if save_ok then (saved clock s4, Inr (source, target, id_custom_uuid i)) else (s4, Inl ''save'')))))"

text \<open>The settings and the record of the one-time defaults move with the machine, in the same critical section.\<close>

definition move_key :: "string \<Rightarrow> string \<Rightarrow> (string \<times> 'a) list \<Rightarrow> (string \<times> 'a) list" where
  "move_key source target m = (case map_of m source of None \<Rightarrow> m | Some v \<Rightarrow> AList.delete source (AList.update target v m))"

definition rebind_settings :: "string \<Rightarrow> string \<Rightarrow> protection_state \<Rightarrow> protection_state" where
  "rebind_settings source target st =
     (if source = target then st
      else st\<lparr>pn_settings := move_key source target (pn_settings st), pn_defaults := move_key source target (pn_defaults st)\<rparr>)"

section \<open>Stored connection settings\<close>

definition connectionSettings :: "string \<Rightarrow> protection_state \<Rightarrow> serverConnectionSettings" where
  "connectionSettings server st =
     (case map_of (pn_settings st) server of None \<Rightarrow> defaultServerConnectionSettings | Some s \<Rightarrow> cloneServerConnectionSettings s)"

definition setConnectionSettings :: "string \<Rightarrow> serverConnectionSettings \<Rightarrow> protection_state \<Rightarrow> protection_state" where
  "setConnectionSettings server s st =
     st\<lparr>pn_settings := AList.update server (cloneServerConnectionSettings (s\<lparr>cn_blocked_identities := None\<rparr>)) (pn_settings st)\<rparr>"

text \<open>The result says whether the state has to be written.\<close>

definition setConnectionMappings :: "string \<Rightarrow> serverManagementMapping list \<Rightarrow> protection_state \<Rightarrow> protection_state \<times> bool" where
  "setConnectionMappings server mappings st =
     (let s = (case map_of (pn_settings st) server of None \<Rightarrow> defaultServerConnectionSettings | Some s \<Rightarrow> s)
      in if cn_management_mappings s = mappings then (st, False)
         else (st\<lparr>pn_settings := AList.update server (cloneServerConnectionSettings (s\<lparr>cn_management_mappings := mappings\<rparr>)) (pn_settings st)\<rparr>, True))"

end
