(* ===== verification/Agent_System.thy ===== *)
theory Agent_System
  imports Helper_Identity
begin

text \<open>
  All operations on the controller's state of its Helpers, in any order: operators'
  commands, Helpers' reports and progress posts, the ticks of the scheduler, the lazy
  flush, batches, changes of the Core mode and their reconciliation, install tokens,
  credentials and machines that move to another server. The mutex of
  \<open>helperState\<close> makes each of them one step. The clock of a step is read before the
  mutex is taken, so the readings need not be in order.
\<close>

section \<open>Events\<close>

text \<open>\<open>Authorize\<close> and \<open>Rebind\<close> name the server that the source's loop finds first.\<close>

datatype agent_event =
    Enqueue bool time time "string option" string string string
  | Report bool time time string string "(agentStatus \<times> managementResult option) option"
  | Progress bool time time string componentUpdateProgress string
  | Tick bool time "string \<Rightarrow> string option" "string list" "helperBatchServer list option" time
  | FlushVolatile bool time time
  | StartBatch bool time "string option" "helperBatchServer list" cachedReleaseInfo "string list" time
  | StopBatch bool time string time
  | SetMode bool time time string string
  | Reconcile bool time "string option" time string agentStatus remoteServerRuntime "managementResult option"
  | CreateToken bool time duration "string option" "string option" "string option" time string string
  | ConsumeToken bool time time string
  | Authorize string time string string string
  | Legacy bool time "string option" time string string string
  | Rebind bool time string time string string string string

fun agent_apply :: "agent_lib \<Rightarrow> agent_event \<Rightarrow> helperState \<Rightarrow> helperState" where
  "agent_apply lib (Enqueue ok clock now uuid server action body) s = fst (enqueueManagementCommand lib ok clock uuid now server action body s)"
| "agent_apply lib (Report ok clock now server token report) s = fst (acceptManagementReport lib ok clock now server token report s)"
| "agent_apply lib (Progress ok clock now server posted line) s = fst (recordUpdateProgressAt lib ok clock now server posted line s)"
| "agent_apply lib (Tick ok clock uuid known query now) s = helperBatchTick lib ok clock uuid known query now s"
| "agent_apply lib (FlushVolatile ok now failed_at) s = flushVolatileLocked ok now failed_at s"
| "agent_apply lib (StartBatch ok clock uuid servers release selected now) s
     = fst (startHelperBatch lib ok clock uuid servers release selected now s)"
| "agent_apply lib (StopBatch ok clock batch_id now) s = fst (stopHelperBatch ok clock batch_id now s)"
| "agent_apply lib (SetMode ok clock now server mode) s = fst (setCoreModeIntent ok clock now server mode s)"
| "agent_apply lib (Reconcile ok clock uuid now server status rt result) s
     = fst (reconcileCoreMode lib ok clock uuid now server status rt result s)"
| "agent_apply lib (CreateToken ok clock ttl uuid helper_secret install_secret now server mode) s
     = fst (createInstallTokenForMode lib ok clock ttl uuid helper_secret install_secret now server mode s)"
| "agent_apply lib (ConsumeToken ok clock now raw) s = fst (consumeInstallToken lib ok clock now raw s)"
| "agent_apply lib (Authorize server now reported token version) s = fst (authorizeReporter lib [server] now reported token version s)"
| "agent_apply lib (Legacy ok clock uuid now server token version) s = fst (recordLegacyReporter lib ok clock uuid now server token version s)"
| "agent_apply lib (Rebind ok clock source now raw machine token config) s
     = fst (rebindMachine lib ok clock [source] now raw machine token config s)"

fun event_time :: "agent_event \<Rightarrow> time" where
  "event_time (Enqueue ok clock now uuid server action body) = now"
| "event_time (Report ok clock now server token report) = now"
| "event_time (Progress ok clock now server posted line) = now"
| "event_time (Tick ok clock uuid known query now) = now"
| "event_time (FlushVolatile ok now failed_at) = now"
| "event_time (StartBatch ok clock uuid servers release selected now) = now"
| "event_time (StopBatch ok clock batch_id now) = now"
| "event_time (SetMode ok clock now server mode) = now"
| "event_time (Reconcile ok clock uuid now server status rt result) = now"
| "event_time (CreateToken ok clock ttl uuid helper_secret install_secret now server mode) = now"
| "event_time (ConsumeToken ok clock now raw) = now"
| "event_time (Authorize server now reported token version) = now"
| "event_time (Legacy ok clock uuid now server token version) = now"
| "event_time (Rebind ok clock source now raw machine token config) = now"

text \<open>The state and the latest clock reading so far.\<close>

inductive agent_step :: "agent_lib \<Rightarrow> helperState \<times> time \<Rightarrow> helperState \<times> time \<Rightarrow> bool" for lib where
  agent_event: "agent_step lib (s, t) (agent_apply lib ev s, max t (event_time ev))"

inductive_cases agent_stepE: "agent_step lib x y"

section \<open>Live update commands\<close>

definition live_update :: "time \<Rightarrow> managementCommand \<Rightarrow> bool" where
  "live_update t c \<longleftrightarrow> updateAction (cm_action c) \<and> t < cm_expires_at c"

definition live_updates :: "time \<Rightarrow> managementCommand list \<Rightarrow> nat" where
  "live_updates t cs = length (filter (live_update t) cs)"

lemma live_updates_simps [simp]:
  "live_updates t [] = 0" "live_updates t (c # cs) = (if live_update t c then 1 else 0) + live_updates t cs"
  "live_updates t (as @ bs) = live_updates t as + live_updates t bs"
  by (simp_all add: live_updates_def)

lemma live_updates_filter: "live_updates t (filter P cs) \<le> live_updates t cs"
  by (induction cs) auto

lemma live_updates_mono: "t \<le> t' \<Longrightarrow> live_updates t' cs \<le> live_updates t cs"
  by (induction cs) (auto simp: live_update_def)

lemma live_updates_drop: "live_updates t (drop_expired now cs) \<le> live_updates t cs"
  by (induction cs) auto

lemma live_updates_tl: "live_updates t (tl cs) \<le> live_updates t cs"
  by (cases cs) auto

lemma live_updates_queue: "live_updates t (report_queue result cs) \<le> live_updates t cs"
  by (simp add: report_queue_def live_updates_tl split: option.splits)

lemma live_updates_resign: "resign lib h cs = Some cs' \<Longrightarrow> live_updates t cs' = live_updates t cs"
  by (auto simp: resign_def live_updates_def live_update_def [abs_def] filter_map comp_def split: if_splits)

lemma not_queued_live: "\<not> updateQueuedLocked server now s \<Longrightarrow> live_updates now (hs_commands s server) = 0"
  by (simp add: updateQueuedLocked_def live_updates_def live_update_def list_ex_iff filter_empty_conv)

text \<open>What a step must keep: at a time not before its own, no server has more live updates than one or than before.\<close>

definition keeps_updates :: "time \<Rightarrow> helperState \<Rightarrow> helperState \<Rightarrow> bool" where
  "keeps_updates now s s' \<longleftrightarrow>
     (\<forall>t \<ge> now. \<forall>server. live_updates t (hs_commands s' server) \<le> max 1 (live_updates t (hs_commands s server)))"

lemma keeps_same [simp]: "hs_commands s' = hs_commands s \<Longrightarrow> keeps_updates now s s'"
  by (simp add: keeps_updates_def)

lemma keeps_trans: "keeps_updates now a b \<Longrightarrow> keeps_updates now b c \<Longrightarrow> keeps_updates now a c"
  unfolding keeps_updates_def by (meson le_trans max.bounded_iff max.cobounded1 order_refl)

lemma keeps_fewer: "(\<And>t server. live_updates t (hs_commands s' server) \<le> live_updates t (hs_commands s server)) \<Longrightarrow> keeps_updates now s s'"
  by (simp add: keeps_updates_def max.coboundedI2)

lemma set_update_commands [simp]: "hs_commands (set_update server u s) = hs_commands s"
  by (simp add: set_update_def)

lemma enqueue_locked_keeps:
  assumes "enqueueManagementCommandLocked lib uuid server action body now batch s = Inr (s', c)"
  shows "keeps_updates now s s'"
proof -
  have cmds: "hs_commands s' = (hs_commands s)(server := hs_commands s server @ [c])" and act: "cm_action c = action"
    and free: "updateAction action \<Longrightarrow> \<not> updateQueuedLocked server now s"
    using assms by (auto simp: enqueueManagementCommandLocked_def Let_def new_command_def upgradeInProgressLocked_def
        split: if_splits option.splits)
  show ?thesis
  proof (cases "updateAction action")
    case True
    have "live_updates t (hs_commands s server) = 0" if "now \<le> t" for t
      using live_updates_mono [OF that, of "hs_commands s server"] not_queued_live [OF free [OF True]] by simp
    then show ?thesis by (auto simp: keeps_updates_def cmds)
  next
    case False
    then show ?thesis by (intro keeps_fewer) (simp add: cmds live_update_def act)
  qed
qed

lemma enqueue_keeps: "keeps_updates now s (fst (enqueueManagementCommand lib ok clock uuid now server action body s))"
proof -
  have "keeps_updates now s (saved clock s')" if "enqueueManagementCommandLocked lib uuid server action b now False s = Inr (s', c)" for s' c b
    using enqueue_locked_keeps [OF that] by (simp add: keeps_updates_def)
  then show ?thesis by (auto simp: enqueueManagementCommand_def split: option.splits sum.splits prod.splits)
qed

lemma live_updates_report:
  "live_updates t (drop_expired now (report_queue result cs)) \<le> live_updates t cs"
  using live_updates_drop live_updates_queue le_trans by blast

lemma record_report_simps [simp]:
  "hs_commands (record_report lib now server rep s) = hs_commands s" "hs_batch (record_report lib now server rep s) = hs_batch s"
  "hs_intents (record_report lib now server rep s) = hs_intents s"
  by (auto simp: record_report_def split: option.splits)

lemma promote_state_simps [simp]:
  "hs_commands (promote_state server ident now s) = hs_commands s" "hs_batch (promote_state server ident now s) = hs_batch s"
  by (simp_all add: promote_state_def)

lemma apply_report_updates:
  "live_updates t (hs_commands (fst (apply_report lib ok clock now server h promote ident rep s)) sv) \<le> live_updates t (hs_commands s sv)"
proof -
  let ?q = "report_queue (report_result rep) (hs_commands s server)"
  have "live_updates t cs \<le> live_updates t (hs_commands s server)"
    if "(if promote then resign lib h (drop_expired now ?q) else Some (drop_expired now ?q)) = Some cs" for cs
    using that live_updates_report [of t now "report_result rep" "hs_commands s server"] by (auto simp: live_updates_resign split: if_splits)
  then show ?thesis
    by (auto simp: apply_report_def Let_def live_updates_queue split: option.split)
qed

lemma report_keeps: "keeps_updates now s (fst (acceptManagementReport lib ok clock now server token report s))"
  by (auto simp: acceptManagementReport_def Let_def apply_report_updates split: option.split intro!: keeps_fewer)

lemma progress_commands [simp]: "hs_commands (fst (recordUpdateProgressAt lib ok clock now server posted line s)) = hs_commands s"
  by (simp add: recordUpdateProgressAt_def Let_def split: option.split)

lemma flush_commands [simp]:
  "hs_commands (flushUpdateProgressLocked ok clock now s) = hs_commands s" "hs_commands (flushVolatileLocked ok now failed_at s) = hs_commands s"
  by (simp_all add: flushUpdateProgressLocked_def flushVolatileLocked_def Let_def)

lemma expire_keeps: "keeps_updates now s (expireStaleUpdatesLocked lib t known s)"
  by (rule keeps_fewer) (simp add: expireStaleUpdatesLocked_def live_updates_filter)

lemma follow_rows_keeps: "follow_rows lib t rows s = (rows', s', n) \<Longrightarrow> keeps_updates now s s'"
proof (induction rows arbitrary: s rows' s' n)
  case (Cons r rs)
  obtain r1 s1 n1 where a: "follow_row lib t r s = (r1, s1, n1)" by (cases "follow_row lib t r s") auto
  obtain rs1 s2 n2 where b: "follow_rows lib t rs s1 = (rs1, s2, n2)" by (cases "follow_rows lib t rs s1") auto
  have "keeps_updates now s s1"
    using a by (intro keeps_fewer) (auto simp: follow_row_def Let_def drop_command_def live_updates_filter split: if_splits)
  then show ?case using Cons.prems a b keeps_trans [OF _ Cons.IH [OF b]] by simp
qed simp

lemma dispatch_rows_keeps: "dispatch_rows lib uuid servers now active rows s = (rows', s') \<Longrightarrow> keeps_updates now s s'"
proof (induction rows arbitrary: active s rows' s')
  case (Cons r rs)
  obtain r1 s1 n1 where a: "dispatch_row lib uuid servers now active r s = (r1, s1, n1)"
    by (cases "dispatch_row lib uuid servers now active r s") auto
  obtain rs1 s2 where b: "dispatch_rows lib uuid servers now n1 rs s1 = (rs1, s2)"
    by (cases "dispatch_rows lib uuid servers now n1 rs s1") auto
  have "keeps_updates now s s1"
    using a by (auto simp: dispatch_row_def Let_def split: if_splits option.splits sum.splits prod.splits dest: enqueue_locked_keeps)
  then show ?case using Cons.prems a b keeps_trans [OF _ Cons.IH [OF b]] by simp
qed simp

lemma keeps_saved: "keeps_updates now s s' \<Longrightarrow> hs_commands s'' = hs_commands s' \<Longrightarrow> keeps_updates now s s''"
  by (simp add: keeps_updates_def)

lemma advance_keeps: "keeps_updates now s (advanceHelperBatch lib ok clock uuid servers now s)"
proof (cases "hs_batch s")
  case (Some job)
  obtain rows1 s1 active where a: "follow_rows lib now (bj_rows job) s = (rows1, s1, active)"
    by (cases "follow_rows lib now (bj_rows job) s") auto
  obtain rows2 s2 where b: "dispatch_rows lib uuid servers now active rows1 s1 = (rows2, s2)"
    by (cases "dispatch_rows lib uuid servers now active rows1 s1") auto
  have "keeps_updates now s s2" by (rule keeps_trans [OF follow_rows_keeps [OF a] dispatch_rows_keeps [OF b]])
  then show ?thesis using Some a b by (auto simp: advanceHelperBatch_def Let_def intro: keeps_saved)
qed (simp add: advanceHelperBatch_def)

lemma tick_keeps: "keeps_updates now s (helperBatchTick lib ok clock uuid known query now s)"
proof -
  let ?s = "expireStaleUpdatesLocked lib now known s"
  have "keeps_updates now ?s (helperBatchTick lib ok clock uuid known query now s)"
    by (auto simp: helperBatchTick_def Let_def advance_keeps split: option.split)
  then show ?thesis by (rule keeps_trans [OF expire_keeps])
qed

lemma reconcile_keeps: "keeps_updates now s (fst (reconcileCoreMode lib ok clock uuid t server status rt result s))"
proof (cases "hs_intents s server")
  case (Some previous)
  obtain s' out where rec: "reconcileCoreMode lib ok clock uuid t server status rt result s = (s', out)" by fastforce
  have "keeps_updates now s s'"
  proof (cases rule: reconcile_cases [OF rec Some, case_names settled repair])
    case (repair j)
    show ?thesis
    proof (cases rule: queue_repair_cases [OF repair(2), case_names none queued])
      case (queued u sig)
      then show ?thesis
        by (intro keeps_fewer) (auto simp: live_update_def updateAction_def repair_command_def new_command_def)
    qed simp
  qed simp
  then show ?thesis by (simp add: rec)
qed (simp add: reconcileCoreMode_def)

lemma prune_simps [simp]:
  "hs_commands (pruneExpiredLocked now s) = hs_commands s" "hs_batch (pruneExpiredLocked now s) = hs_batch s"
  "hs_intents (pruneExpiredLocked now s) = hs_intents s"
  by (simp_all add: pruneExpiredLocked_def)

lemma create_keeps:
  "keeps_updates now s (fst (createInstallTokenForMode lib ok clock ttl uuid helper_secret install_secret t server mode s))"
  by (rule keeps_fewer) (auto simp: createInstallTokenForMode_def Let_def live_updates_filter split: option.split)

lemma consume_simps [simp]:
  "hs_commands (fst (consumeInstallToken lib ok clock now raw s)) = hs_commands s"
  "hs_batch (fst (consumeInstallToken lib ok clock now raw s)) = hs_batch s"
  "hs_intents (fst (consumeInstallToken lib ok clock now raw s)) = hs_intents s"
  by (simp_all add: consumeInstallToken_def Let_def split: option.split)

lemma authorize_simps [simp]:
  "hs_commands (fst (authorizeReporter lib order now reported token version s)) = hs_commands s"
  "hs_batch (fst (authorizeReporter lib order now reported token version s)) = hs_batch s"
  "hs_intents (fst (authorizeReporter lib order now reported token version s)) = hs_intents s"
  by (simp_all add: authorizeReporter_def markVolatileLocked_def Let_def split: option.split)

lemma legacy_simps [simp]:
  "hs_commands (fst (recordLegacyReporter lib ok clock uuid now server token version s)) = hs_commands s"
  "hs_batch (fst (recordLegacyReporter lib ok clock uuid now server token version s)) = hs_batch s"
  "hs_intents (fst (recordLegacyReporter lib ok clock uuid now server token version s)) = hs_intents s"
  by (simp_all add: recordLegacyReporter_def markVolatileLocked_def Let_def split: option.split)

lemma moved_commands: "live_updates t (hs_commands (move_machine source target s) sv) \<le> live_updates t (hs_commands s sv)"
  by (simp add: move_machine_def)

lemma rebind_keeps: "keeps_updates now s (fst (rebindMachine lib ok clock order t raw machine token config s))"
  by (rule keeps_fewer)
    (auto simp: rebindMachine_def touch_intent_def Let_def intro: order_trans [OF moved_commands] split: option.split)

lemma agent_apply_keeps: "keeps_updates (event_time ev) s (agent_apply lib ev s)"
  by (cases ev) (auto simp: enqueue_keeps report_keeps tick_keeps reconcile_keeps startHelperBatch_def stopHelperBatch_def
      setCoreModeIntent_def create_keeps rebind_keeps Let_def split: option.split)


section \<open>The batch under all operations\<close>

lemma enqueue_locked_batch: "enqueueManagementCommandLocked lib uuid server action body now batch s = Inr (s', c) \<Longrightarrow> hs_batch s' = hs_batch s"
  by (auto simp: enqueueManagementCommandLocked_def Let_def set_update_def split: if_splits option.splits)

lemma enqueue_batch [simp]: "hs_batch (fst (enqueueManagementCommand lib ok clock uuid now server action body s)) = hs_batch s"
  by (auto simp: enqueueManagementCommand_def split: option.splits sum.splits prod.splits dest: enqueue_locked_batch)

lemma report_batch [simp]: "hs_batch (fst (acceptManagementReport lib ok clock now server token report s)) = hs_batch s"
  by (auto simp: acceptManagementReport_def apply_report_def Let_def split: option.split)

lemma progress_batch [simp]: "hs_batch (fst (recordUpdateProgressAt lib ok clock now server posted line s)) = hs_batch s"
  by (simp add: recordUpdateProgressAt_def Let_def set_update_def split: option.split)

lemma flushVolatile_batch [simp]: "hs_batch (flushVolatileLocked ok now failed_at s) = hs_batch s"
  by (simp add: flushVolatileLocked_def Let_def)

lemma set_mode_batch [simp]: "hs_batch (fst (setCoreModeIntent ok clock now server mode s)) = hs_batch s"
  by (simp add: setCoreModeIntent_def Let_def split: option.split)

lemma reconcile_batch [simp]: "hs_batch (fst (reconcileCoreMode lib ok clock uuid t server status rt result s)) = hs_batch s"
proof (cases "hs_intents s server")
  case (Some previous)
  obtain s' out where rec: "reconcileCoreMode lib ok clock uuid t server status rt result s = (s', out)" by fastforce
  have "hs_batch s' = hs_batch s"
  proof (cases rule: reconcile_cases [OF rec Some, case_names settled repair])
    case (repair j)
    then show ?thesis by (cases rule: queue_repair_cases [OF repair(2)]) simp_all
  qed simp
  then show ?thesis by (simp add: rec)
qed (simp add: reconcileCoreMode_def)

lemma create_batch [simp]:
  "hs_batch (fst (createInstallTokenForMode lib ok clock ttl uuid helper_secret install_secret t server mode s)) = hs_batch s"
  by (simp add: createInstallTokenForMode_def Let_def split: option.split)

lemma rebind_batch [simp]: "hs_batch (fst (rebindMachine lib ok clock order t raw machine token config s)) = hs_batch s"
  by (simp add: rebindMachine_def touch_intent_def move_machine_def Let_def split: option.split)

lemma agent_apply_batch_ok: "batch_ok (hs_batch s) \<Longrightarrow> batch_ok (hs_batch (agent_apply lib ev s))"
  by (cases ev) (simp_all add: tick_batch_ok start_batch_ok stop_batch_ok)

section \<open>Invariants\<close>

text \<open>A controller with no batch and no commands; registered servers, reports and intents are arbitrary.\<close>

definition agent_init :: "helperState \<times> time \<Rightarrow> bool" where
  "agent_init x \<longleftrightarrow> hs_batch (fst x) = None \<and> (\<forall>server. hs_commands (fst x) server = [])"

definition agent_inv :: "helperState \<times> time \<Rightarrow> bool" where
  "agent_inv x \<longleftrightarrow> batch_ok (hs_batch (fst x)) \<and> (\<forall>server. live_updates (snd x) (hs_commands (fst x) server) \<le> 1)"

interpretation agent_sys: invariant_system agent_init "agent_step lib" agent_inv for lib
proof
  show "agent_inv x" if "agent_init x" for x
    using that by (simp add: agent_init_def agent_inv_def batch_ok_def)
  show "agent_inv y" if inv: "agent_inv x" and step: "agent_step lib x y" for x y
    using step
  proof (cases rule: agent_step.cases)
    case (agent_event s t ev)
    have "live_updates (max t (event_time ev)) (hs_commands (agent_apply lib ev s) server) \<le> 1" for server
    proof -
      have "live_updates (max t (event_time ev)) (hs_commands s server) \<le> 1"
        using inv live_updates_mono [of t "max t (event_time ev)"] agent_event(1) by (auto simp: agent_inv_def intro: le_trans)
      then show ?thesis using agent_apply_keeps [of ev s lib] unfolding keeps_updates_def
        by (meson le_trans max.bounded_iff max.cobounded2 order_refl)
    qed
    then show ?thesis using inv agent_apply_batch_ok agent_event by (simp add: agent_inv_def)
  qed
qed

text \<open>
  C12: Whatever operators, Helpers, batches and the scheduler do to the state, in any
  order and with clock readings out of order, a server's queue never holds two upgrade
  commands that are both still valid; so no Helper is ever told to run two upgrades.
\<close>

theorem one_live_update:
  assumes "reach agent_init (agent_step lib) (s, t)" "t \<le> t'"
  shows "length (filter (\<lambda>c. updateAction (cm_action c) \<and> t' < cm_expires_at c) (hs_commands s server)) \<le> 1"
proof -
  have "live_updates t (hs_commands s server) \<le> 1" using agent_sys.reach_inv [OF assms(1)] by (simp add: agent_inv_def)
  then have "live_updates t' (hs_commands s server) \<le> 1" using live_updates_mono [OF assms(2)] le_trans by blast
  then show ?thesis by (simp add: live_updates_def live_update_def [abs_def])
qed

text \<open>
  C28: In every state the operations lead to, at most two rows of the batch run, the
  batch is running exactly while some row waits or runs, and a batch that is over says
  success or failed.
\<close>

theorem two_rows_run:
  assumes "reach agent_init (agent_step lib) (s, t)" "hs_batch s = Some job"
  shows "length (filter (\<lambda>r. batchRowRunning (br_phase r)) (bj_rows job)) \<le> 2
    \<and> (bj_phase job = ''running'' \<longleftrightarrow> list_ex (\<lambda>r. br_phase r = ''queued'' \<or> batchRowRunning (br_phase r)) (bj_rows job))
    \<and> bj_phase job \<in> {''running'', ''success'', ''failed''}"
proof -
  have ok: "batch_ok (Some job)" using agent_sys.reach_inv [OF assms(1)] assms(2) by (simp add: agent_inv_def)
  then show ?thesis by (auto simp: batch_ok_def running_rows_def row_open_def [abs_def])
qed

section \<open>An explicit request for a Core mode\<close>

definition wants_mode :: "string \<Rightarrow> string \<Rightarrow> helperState \<Rightarrow> bool" where
  "wants_mode server mode s = (case hs_intents s server of None \<Rightarrow> False | Some i \<Rightarrow> ci_pending_change i \<and> ci_desired_mode i = mode)"

text \<open>
  The events that may end a request: another one (a new install is one), the machine
  leaves for another server, or a pass that sees the mode in effect.
\<close>

fun settles_mode :: "string \<Rightarrow> string \<Rightarrow> agent_event \<Rightarrow> bool" where
  "settles_mode server mode (SetMode ok clock now sv m) \<longleftrightarrow> sv = server"
| "settles_mode server mode (Reconcile ok clock uuid now sv status rt result) \<longleftrightarrow>
     sv = server \<and> coreModeHealthy (zero_intent\<lparr>ci_desired_mode := mode\<rparr>) status rt now"
| "settles_mode server mode (CreateToken ok clock ttl uuid helper_secret install_secret now sv m) \<longleftrightarrow> sv = server"
| "settles_mode server mode (Rebind ok clock source now raw machine token config) \<longleftrightarrow> source = server"
| "settles_mode server mode ev \<longleftrightarrow> False"

fun agent_run :: "agent_lib \<Rightarrow> agent_event list \<Rightarrow> helperState \<Rightarrow> helperState" where
  "agent_run lib [] s = s"
| "agent_run lib (ev # evs) s = agent_run lib evs (agent_apply lib ev s)"

lemma set_update_intents [simp]: "hs_intents (set_update server u s) = hs_intents s"
  by (simp add: set_update_def)

lemma enqueue_locked_intents:
  "enqueueManagementCommandLocked lib uuid server action body now batch s = Inr (s', c) \<Longrightarrow> hs_intents s' = hs_intents s"
  by (auto simp: enqueueManagementCommandLocked_def Let_def split: if_splits option.splits)

lemma enqueue_intents [simp]: "hs_intents (fst (enqueueManagementCommand lib ok clock uuid now server action body s)) = hs_intents s"
  by (auto simp: enqueueManagementCommand_def split: option.splits sum.splits prod.splits dest: enqueue_locked_intents)

lemma flush_intents [simp]:
  "hs_intents (flushUpdateProgressLocked ok clock now s) = hs_intents s" "hs_intents (flushVolatileLocked ok now failed_at s) = hs_intents s"
  by (simp_all add: flushUpdateProgressLocked_def flushVolatileLocked_def Let_def)

lemma progress_intents [simp]: "hs_intents (fst (recordUpdateProgressAt lib ok clock now server posted line s)) = hs_intents s"
  by (simp add: recordUpdateProgressAt_def Let_def split: option.split)

lemma follow_rows_intents: "follow_rows lib t rows s = (rows', s', n) \<Longrightarrow> hs_intents s' = hs_intents s"
proof (induction rows arbitrary: s rows' s' n)
  case (Cons r rs)
  obtain r1 s1 n1 where a: "follow_row lib t r s = (r1, s1, n1)" by (cases "follow_row lib t r s") auto
  obtain rs1 s2 n2 where b: "follow_rows lib t rs s1 = (rs1, s2, n2)" by (cases "follow_rows lib t rs s1") auto
  have "hs_intents s1 = hs_intents s" using a by (auto simp: follow_row_def Let_def drop_command_def split: if_splits)
  then show ?case using Cons.prems a b Cons.IH [OF b] by simp
qed simp

lemma dispatch_rows_intents: "dispatch_rows lib uuid servers now active rows s = (rows', s') \<Longrightarrow> hs_intents s' = hs_intents s"
proof (induction rows arbitrary: active s rows' s')
  case (Cons r rs)
  obtain r1 s1 n1 where a: "dispatch_row lib uuid servers now active r s = (r1, s1, n1)"
    by (cases "dispatch_row lib uuid servers now active r s") auto
  obtain rs1 s2 where b: "dispatch_rows lib uuid servers now n1 rs s1 = (rs1, s2)"
    by (cases "dispatch_rows lib uuid servers now n1 rs s1") auto
  have "hs_intents s1 = hs_intents s"
    using a by (auto simp: dispatch_row_def Let_def split: if_splits option.splits sum.splits prod.splits dest: enqueue_locked_intents)
  then show ?case using Cons.prems a b Cons.IH [OF b] by simp
qed simp

lemma advance_intents: "hs_intents (advanceHelperBatch lib ok clock uuid servers now s) = hs_intents s"
proof (cases "hs_batch s")
  case (Some job)
  obtain rows1 s1 active where a: "follow_rows lib now (bj_rows job) s = (rows1, s1, active)"
    by (cases "follow_rows lib now (bj_rows job) s") auto
  obtain rows2 s2 where b: "dispatch_rows lib uuid servers now active rows1 s1 = (rows2, s2)"
    by (cases "dispatch_rows lib uuid servers now active rows1 s1") auto
  show ?thesis using Some a b follow_rows_intents [OF a] dispatch_rows_intents [OF b] by (auto simp: advanceHelperBatch_def Let_def)
qed (simp add: advanceHelperBatch_def)

lemma tick_intents [simp]: "hs_intents (helperBatchTick lib ok clock uuid known query now s) = hs_intents s"
  by (auto simp: helperBatchTick_def Let_def advance_intents expireStaleUpdatesLocked_def split: option.split)

lemma start_stop_intents [simp]:
  "hs_intents (fst (startHelperBatch lib ok clock uuid servers release selected now s)) = hs_intents s"
  "hs_intents (fst (stopHelperBatch ok clock batch_id now s)) = hs_intents s"
  by (auto simp: startHelperBatch_def stopHelperBatch_def Let_def split: option.split)

lemma report_wants: "wants_mode server mode s \<Longrightarrow> wants_mode server mode (fst (acceptManagementReport lib ok clock now sv token report s))"
  by (auto simp: acceptManagementReport_def apply_report_def Let_def promote_state_def wants_mode_def split: option.splits)

lemma reconcile_wants:
  assumes "wants_mode server mode s" "\<not> settles_mode server mode (Reconcile ok clock uuid now sv status rt result)"
  shows "wants_mode server mode (fst (reconcileCoreMode lib ok clock uuid now sv status rt result s))"
proof (cases "hs_intents s sv")
  case (Some previous)
  obtain s' out where rec: "reconcileCoreMode lib ok clock uuid now sv status rt result s = (s', out)" by fastforce
  show ?thesis
  proof (cases "sv = server")
    case True
    have p: "ci_pending_change previous" "ci_desired_mode previous = mode" using assms(1) Some True by (simp_all add: wants_mode_def)
    have "\<not> coreModeHealthy previous status rt now"
      using assms(2) True healthy_desired [of previous "zero_intent\<lparr>ci_desired_mode := mode\<rparr>" status rt now] p(2) by simp
    then show ?thesis using reconcile_pending [OF rec Some p(1)] rec True p(2) by (auto simp: wants_mode_def)
  next
    case False
    have "hs_intents s' server = hs_intents s server"
    proof (cases rule: reconcile_cases [OF rec Some, case_names settled repair])
      case (repair j)
      then show ?thesis using False by (cases rule: queue_repair_cases [OF repair(2)]) simp_all
    qed (use False in simp)
    then show ?thesis using assms(1) by (simp add: rec wants_mode_def)
  qed
qed (use assms(1) in \<open>simp add: reconcileCoreMode_def\<close>)

lemma wants_cong: "hs_intents s' server = hs_intents s server \<Longrightarrow> wants_mode server mode s' \<longleftrightarrow> wants_mode server mode s"
  by (simp add: wants_mode_def)

lemma create_intents:
  "sv \<noteq> server
    \<Longrightarrow> hs_intents (fst (createInstallTokenForMode lib ok clock ttl uuid helper_secret install_secret t sv m s)) server = hs_intents s server"
  by (simp add: createInstallTokenForMode_def Let_def split: option.split)

lemma wants_frame [simp]:
  "wants_mode server mode (s\<lparr>hs_rebinds := r\<rparr>) = wants_mode server mode s"
  "wants_mode server mode (s\<lparr>hs_servers := sv\<rparr>) = wants_mode server mode s"
  "wants_mode server mode (saved clock s) = wants_mode server mode s"
  "wants_mode server mode (pruneExpiredLocked now s) = wants_mode server mode s"
  by (simp_all add: wants_mode_def)

lemma touch_wants: "wants_mode server mode s \<Longrightarrow> wants_mode server mode (touch_intent target machine now s)"
  by (auto simp: touch_intent_def wants_mode_def split: option.splits)

lemma move_wants: "source \<noteq> server \<Longrightarrow> wants_mode server mode s \<Longrightarrow> wants_mode server mode (move_machine source target s)"
  by (auto simp: move_machine_def wants_mode_def split: option.splits)

lemma rebind_wants:
  assumes "source \<noteq> server" "wants_mode server mode s"
  shows "wants_mode server mode (fst (rebindMachine lib ok clock [source] now raw machine token config s))"
  using assms by (simp add: rebindMachine_def Let_def touch_wants move_wants split: option.split)

lemma apply_wants:
  assumes "wants_mode server mode s" "\<not> settles_mode server mode ev"
  shows "wants_mode server mode (agent_apply lib ev s)"
proof (cases ev)
  case (Reconcile ok clock uuid now sv status rt result)
  then show ?thesis using reconcile_wants [of server mode s ok clock uuid now sv status rt result lib] assms by simp
next
  case (SetMode ok clock now sv m)
  then show ?thesis using assms by (auto simp: setCoreModeIntent_def Let_def wants_mode_def split: option.splits)
next
  case (Report ok clock now sv token report)
  then show ?thesis using report_wants [OF assms(1)] by simp
next
  case (CreateToken ok clock ttl uuid helper_secret install_secret now sv m)
  then show ?thesis using wants_cong [OF create_intents] assms by simp
next
  case (Rebind ok clock source now raw machine token config)
  then show ?thesis using rebind_wants assms by simp
qed (use assms(1) in \<open>simp_all add: wants_mode_def\<close>)

text \<open>
  An administrator's request for a Core mode stays in force through any sequence
  of operations - reports, repairs that fail, credentials that change, modes that the
  official side records, other servers' installs - until another request replaces it, the
  server's machine is bound to another server, or a pass sees the official runtime and
  the Helper healthy in the requested mode.
\<close>

theorem requested_mode_kept:
  assumes "setCoreModeIntent ok clock now server mode s = (s', Inr i)"
    and "\<forall>ev \<in> set evs. \<not> settles_mode server mode ev"
  shows "\<exists>j. hs_intents (agent_run lib evs s') server = Some j \<and> ci_pending_change j \<and> ci_desired_mode j = mode"
proof -
  have "wants_mode server mode s'"
    using assms(1) by (auto simp: setCoreModeIntent_def Let_def wants_mode_def newCoreModeIntent_def split: if_splits option.splits)
  then have "wants_mode server mode (agent_run lib evs s')"
    using assms(2) by (induction evs arbitrary: s') (simp_all add: apply_wants)
  then show ?thesis by (auto simp: wants_mode_def split: option.splits)
qed


section \<open>Examples\<close>

definition sample_agents :: helperState where
  "sample_agents = new_state\<lparr>hs_servers := [''1'' \<mapsto> sample_identity],
     hs_statuses := (\<lambda>_. zero_status\<lparr>as_helper := zero_component\<lparr>cs_installed := True, cs_version := ''v1''\<rparr>, as_architecture := ''amd64'',
       as_reported_at := 90\<rparr>)\<rparr>"

definition sample_release :: cachedReleaseInfo where
  "sample_release = \<lparr>ri_helper_version = ''v2'', ri_helper_artifacts = [(''amd64'',
     \<lparr>ra_url = ma_url (sample_artifact ''v2''), ra_sha256 = ma_sha256 (sample_artifact ''v2'')\<rparr>)]\<rparr>"

definition sample_start :: agent_event where
  "sample_start = StartBatch True 0 (Some ''b'') [\<lparr>hb_id = ''1'', hb_name = ''n'', hb_status = ''connected''\<rparr>] sample_release [''1''] 100"

lemma sample_reach: "reach agent_init (agent_step lib) (agent_apply lib ev sample_agents, max 0 (event_time ev))"
proof -
  have "reach agent_init (agent_step lib) (sample_agents, 0)"
    by (rule reach_init) (simp add: agent_init_def sample_agents_def new_state_def)
  then show ?thesis by (rule reach_step) (rule agent_event)
qed

theorem one_live_update_witness:
  "length (filter (\<lambda>c. updateAction (cm_action c) \<and> 200 < cm_expires_at c)
     (hs_commands (agent_apply sample_lib (Enqueue True 0 100 (Some ''u'') ''1'' ''helper.update'' ''v2'') sample_agents) ''1'')) \<le> 1"
  by (rule one_live_update [OF sample_reach [of sample_lib "Enqueue True 0 100 (Some ''u'') ''1'' ''helper.update'' ''v2''"]]) simp

lemma sample_batch: "hs_batch (agent_apply sample_lib sample_start sample_agents) \<noteq> None"
  by code_simp

theorem two_rows_run_witness:
  "length (filter (\<lambda>r. batchRowRunning (br_phase r)) (bj_rows (the (hs_batch (agent_apply sample_lib sample_start sample_agents))))) \<le> 2"
proof -
  obtain job where "hs_batch (agent_apply sample_lib sample_start sample_agents) = Some job" using sample_batch by blast
  then show ?thesis using two_rows_run [OF sample_reach [of sample_lib sample_start], of job] by simp
qed

theorem requested_mode_kept_witness:
  "\<exists>j. hs_intents (agent_run sample_lib [sample_start, Reconcile True 0 None 100 ''1'' sample_mode_status sample_runtime None]
     (fst (setCoreModeIntent True 0 50 ''1'' ''external'' sample_agents))) ''1'' = Some j \<and> ci_pending_change j
     \<and> ci_desired_mode j = ''external''"
proof -
  obtain s' i where "setCoreModeIntent True 0 50 ''1'' ''external'' sample_agents = (s', Inr i)"
    by (simp add: setCoreModeIntent_def sample_agents_def Let_def)
  then show ?thesis
    using requested_mode_kept [of True 0 50 "''1''" "''external''" sample_agents s' i
        "[sample_start, Reconcile True 0 None 100 ''1'' sample_mode_status sample_runtime None]" sample_lib]
    by (simp add: sample_start_def coreModeHealthy_def sample_runtime_def)
qed

end
