(* ===== verification/Helper_Credentials.thy ===== *)
theory Helper_Credentials
  imports Agent_System
begin

text \<open>
  Install tokens and credentials under crashes. The state is the memory of the
  controller, the state file (\<open>Durable_Write\<close>: after a write whose calls may have failed it
  holds the old or the new state, after a successful one the new one) and, as history,
  the hashes of all credentials issued so far. A restart loads the file.
\<close>

section \<open>Steps\<close>

definition same_creds :: "helperState \<Rightarrow> helperState \<Rightarrow> bool" where
  "same_creds a b \<longleftrightarrow> hs_servers a = hs_servers b \<and> hs_installs a = hs_installs b \<and> hs_rebinds a = hs_rebinds b"

text \<open>The credentials that an event issues: the Helper token of an install token, the one a legacy reporter brings.\<close>

fun event_issues :: "agent_lib \<Rightarrow> agent_event \<Rightarrow> string set" where
  "event_issues lib (CreateToken ok clock ttl uuid helper_secret install_secret now server mode)
     = (case helper_secret of None \<Rightarrow> {} | Some t \<Rightarrow> {lib_hash lib t})"
| "event_issues lib (Legacy ok clock uuid now server token version) = {lib_hash lib token}"
| "event_issues lib ev = {}"

text \<open>The record that \<open>consumeInstallToken\<close> returns: the installer with its Helper token is served.\<close>

fun hands_out :: "agent_lib \<Rightarrow> agent_event \<Rightarrow> helperState \<Rightarrow> helperInstallToken option" where
  "hands_out lib (ConsumeToken ok clock now raw) s = (case snd (consumeInstallToken lib ok clock now raw s) of Inl e \<Rightarrow> None | Inr r \<Rightarrow> r)"
| "hands_out lib ev s = None"

type_synonym cred_state = "helperState \<times> helperState \<times> string set"

inductive cred_step :: "agent_lib \<Rightarrow> agent_event option \<Rightarrow> cred_state \<Rightarrow> cred_state \<Rightarrow> bool" for lib where
  cred_event: "file' = file \<and> hands_out lib ev mem = None \<or> same_creds file' (agent_apply lib ev mem)
    \<Longrightarrow> cred_step lib (Some ev) (mem, file, issued) (agent_apply lib ev mem, file', issued \<union> event_issues lib ev)"
| cred_restart: "same_creds mem' file \<Longrightarrow> cred_step lib None (mem, file, issued) (mem', file, issued)"

inductive_cases cred_stepE: "cred_step lib lab x y"

definition cred_any :: "agent_lib \<Rightarrow> cred_state \<Rightarrow> cred_state \<Rightarrow> bool" where
  "cred_any lib x y \<longleftrightarrow> (\<exists>lab. cred_step lib lab x y)"

section \<open>Operations that leave the credentials alone\<close>

lemma same_creds_refl [simp]: "same_creds s s"
  by (simp add: same_creds_def)

lemma same_creds_trans: "same_creds a b \<Longrightarrow> same_creds b c \<Longrightarrow> same_creds a c"
  by (simp add: same_creds_def)

lemma same_creds_frame [simp]:
  "same_creds (s\<lparr>hs_commands := cs\<rparr>) t = same_creds s t" "same_creds (s\<lparr>hs_batch := b\<rparr>) t = same_creds s t"
  "same_creds (s\<lparr>hs_statuses := st\<rparr>) t = same_creds s t" "same_creds (s\<lparr>hs_intents := i\<rparr>) t = same_creds s t"
  "same_creds (s\<lparr>hs_progress_dirty := d\<rparr>) t = same_creds s t" "same_creds (s\<lparr>hs_progress_saved_at := w\<rparr>) t = same_creds s t"
  "same_creds (saved clock s) t = same_creds s t" "same_creds (set_update server u s) t = same_creds s t"
  "same_creds (put_intent server j s) t = same_creds s t"
  by (simp_all add: same_creds_def saved_def set_update_def put_intent_def)

lemma enqueue_locked_creds:
  "enqueueManagementCommandLocked lib uuid server action body now batch s = Inr (s', c) \<Longrightarrow> same_creds s' s"
  by (auto simp: enqueueManagementCommandLocked_def Let_def split: if_splits option.splits)

lemma enqueue_creds [simp]: "same_creds (fst (enqueueManagementCommand lib ok clock uuid now server action body s)) s"
  by (auto simp: enqueueManagementCommand_def split: option.splits sum.splits prod.splits dest: enqueue_locked_creds)

lemma progress_creds [simp]: "same_creds (fst (recordUpdateProgressAt lib ok clock now server posted line s)) s"
  by (simp add: recordUpdateProgressAt_def Let_def split: option.split)

lemma flush_creds [simp]:
  "same_creds (flushUpdateProgressLocked ok clock now s) t = same_creds s t" "same_creds (flushVolatileLocked ok now failed_at s) t = same_creds s t"
  by (simp_all add: flushUpdateProgressLocked_def flushVolatileLocked_def Let_def)

lemma follow_rows_creds: "follow_rows lib t rows s = (rows', s', n) \<Longrightarrow> same_creds s' s"
proof (induction rows arbitrary: s rows' s' n)
  case (Cons r rs)
  obtain r1 s1 n1 where a: "follow_row lib t r s = (r1, s1, n1)" by (cases "follow_row lib t r s") auto
  obtain rs1 s2 n2 where b: "follow_rows lib t rs s1 = (rs1, s2, n2)" by (cases "follow_rows lib t rs s1") auto
  have "same_creds s1 s" using a by (auto simp: follow_row_def Let_def drop_command_def split: if_splits)
  then show ?case using Cons.prems a b same_creds_trans [OF Cons.IH [OF b]] by simp
qed simp

lemma dispatch_rows_creds: "dispatch_rows lib uuid servers now active rows s = (rows', s') \<Longrightarrow> same_creds s' s"
proof (induction rows arbitrary: active s rows' s')
  case (Cons r rs)
  obtain r1 s1 n1 where a: "dispatch_row lib uuid servers now active r s = (r1, s1, n1)"
    by (cases "dispatch_row lib uuid servers now active r s") auto
  obtain rs1 s2 where b: "dispatch_rows lib uuid servers now n1 rs s1 = (rs1, s2)"
    by (cases "dispatch_rows lib uuid servers now n1 rs s1") auto
  have "same_creds s1 s"
    using a by (auto simp: dispatch_row_def Let_def split: if_splits option.splits sum.splits prod.splits dest: enqueue_locked_creds)
  then show ?case using Cons.prems a b same_creds_trans [OF Cons.IH [OF b]] by simp
qed simp

lemma advance_creds: "same_creds (advanceHelperBatch lib ok clock uuid servers now s) s"
proof (cases "hs_batch s")
  case (Some job)
  obtain rows1 s1 active where a: "follow_rows lib now (bj_rows job) s = (rows1, s1, active)"
    by (cases "follow_rows lib now (bj_rows job) s") auto
  obtain rows2 s2 where b: "dispatch_rows lib uuid servers now active rows1 s1 = (rows2, s2)"
    by (cases "dispatch_rows lib uuid servers now active rows1 s1") auto
  have "same_creds s2 s" by (rule same_creds_trans [OF dispatch_rows_creds [OF b] follow_rows_creds [OF a]])
  then show ?thesis using Some a b by (auto simp: advanceHelperBatch_def Let_def)
qed (simp add: advanceHelperBatch_def)

lemma tick_creds [simp]: "same_creds (helperBatchTick lib ok clock uuid known query now s) s"
proof -
  have "same_creds (expireStaleUpdatesLocked lib now known s) s" by (simp add: expireStaleUpdatesLocked_def)
  then show ?thesis
    by (auto simp: helperBatchTick_def Let_def intro: same_creds_trans [OF advance_creds] split: option.split)
qed

lemma start_stop_creds [simp]:
  "same_creds (fst (startHelperBatch lib ok clock uuid servers release selected now s)) s"
  "same_creds (fst (stopHelperBatch ok clock batch_id now s)) s"
  by (auto simp: startHelperBatch_def stopHelperBatch_def Let_def split: option.split)

lemma mode_creds [simp]: "same_creds (fst (setCoreModeIntent ok clock now server mode s)) s"
  by (simp add: setCoreModeIntent_def Let_def split: option.split)

lemma queue_repair_creds: "queue_repair lib ok clock uuid now server i s = (s', out) \<Longrightarrow> same_creds s' s"
  by (auto simp: queue_repair_def Let_def split: option.splits if_splits)

lemma settle_creds [simp]: "same_creds (fst (settle ok clock now server previous i out s)) t = same_creds s t"
  by (simp add: settle_def commitIntentLocked_def markVolatileLocked_def same_creds_def put_intent_def saved_def)

lemma fst_queue_repair_creds [simp]: "same_creds (fst (queue_repair lib ok clock uuid now server i s)) s"
  by (rule queue_repair_creds [where out = "snd (queue_repair lib ok clock uuid now server i s)"]) simp

lemma reconcile_creds [simp]: "same_creds (fst (reconcileCoreMode lib ok clock uuid t server status rt result s)) s"
  by (simp add: reconcileCoreMode_def Let_def split: option.split)

section \<open>An install token is handed out once\<close>

lemma keys_delete [simp]: "fst ` set (AList.delete k xs) = fst ` set xs - {k}"
  by (metis delete_keys list.set_map set_removeAll)

lemma map_of_filter_none: "k \<notin> fst ` set xs \<Longrightarrow> map_of (filter P xs) k = None"
  by (induction xs) auto

definition absent :: "string \<Rightarrow> helperState \<Rightarrow> bool" where
  "absent k s \<longleftrightarrow> k \<notin> fst ` set (hs_installs s)"

lemma absent_same: "same_creds a b \<Longrightarrow> absent k a \<longleftrightarrow> absent k b"
  by (simp add: absent_def same_creds_def)

text \<open>The event makes an install token with the hash \<open>k\<close>.\<close>

fun makes_token :: "agent_lib \<Rightarrow> string \<Rightarrow> agent_event \<Rightarrow> bool" where
  "makes_token lib k (CreateToken ok clock ttl uuid helper_secret install_secret now server mode)
     \<longleftrightarrow> (case install_secret of None \<Rightarrow> False | Some t \<Rightarrow> lib_hash lib t = k)"
| "makes_token lib k ev \<longleftrightarrow> False"

lemma prune_installs: "k \<notin> fst ` set (hs_installs s) \<Longrightarrow> k \<notin> fst ` set (hs_installs (pruneExpiredLocked now s))"
  by (auto simp: pruneExpiredLocked_def)

lemma report_installs [simp]: "hs_installs (fst (acceptManagementReport lib ok clock now server token report s)) = hs_installs s"
  by (auto simp: acceptManagementReport_def apply_report_def record_report_def promote_state_def saved_def markVolatileLocked_def
      Let_def split: option.split)

lemma authorize_installs [simp]: "hs_installs (fst (authorizeReporter lib order now reported token version s)) = hs_installs s"
  by (simp add: authorizeReporter_def markVolatileLocked_def Let_def split: option.split)

lemma legacy_installs [simp]: "hs_installs (fst (recordLegacyReporter lib ok clock uuid now server token version s)) = hs_installs s"
  by (simp add: recordLegacyReporter_def markVolatileLocked_def saved_def Let_def split: option.split)

lemma rebind_installs:
  "hs_installs (fst (rebindMachine lib ok clock order now raw machine token config s)) = hs_installs (pruneExpiredLocked now s)"
  by (simp add: rebindMachine_def touch_intent_def move_machine_def saved_def Let_def split: option.split)

lemma create_absent:
  assumes "absent k s" "\<not> makes_token lib k (CreateToken ok clock ttl uuid helper_secret install_secret now server mode)"
  shows "absent k (fst (createInstallTokenForMode lib ok clock ttl uuid helper_secret install_secret now server mode s))"
  using assms prune_installs [of k s now]
  by (auto simp: createInstallTokenForMode_def absent_def saved_def dom_update Let_def split: option.splits)

lemma consume_absent: "absent k s \<Longrightarrow> absent k (fst (consumeInstallToken lib ok clock now raw s))"
  using prune_installs [of k s now]
  by (auto simp: consumeInstallToken_def absent_def saved_def delete_conv' Let_def split: option.splits)

lemma consumed_absent:
  assumes "hands_out lib (ConsumeToken ok clock now raw) s = Some r"
  shows "absent (lib_hash lib raw) (fst (consumeInstallToken lib ok clock now raw s))"
  using assms by (auto simp: consumeInstallToken_def absent_def saved_def Let_def split: option.splits if_splits)

lemma event_absent:
  assumes "absent k s" "\<not> makes_token lib k ev"
  shows "absent k (agent_apply lib ev s)"
proof (cases ev)
  case (CreateToken ok clock ttl uuid helper_secret install_secret now server mode)
  then show ?thesis using create_absent assms by simp
next
  case (ConsumeToken ok clock now raw)
  then show ?thesis using consume_absent assms by simp
next
  case (Rebind ok clock source now raw machine token config)
  then show ?thesis using assms prune_installs [of k s now] by (simp add: absent_def rebind_installs)
qed (use assms absent_same [of "agent_apply lib ev s" s k] in \<open>simp_all add: absent_def\<close>)

lemma absent_not_handed:
  assumes "absent (lib_hash lib raw) s"
  shows "hands_out lib (ConsumeToken ok clock now raw) s = None"
  using map_of_filter_none [of "lib_hash lib raw" "hs_installs s"] assms
  by (simp add: consumeInstallToken_def absent_def pruneExpiredLocked_def Let_def)

text \<open>Steps that make no install token with the hash \<open>k\<close>; a restart is one.\<close>

definition quiet_step :: "agent_lib \<Rightarrow> string \<Rightarrow> cred_state \<Rightarrow> cred_state \<Rightarrow> bool" where
  "quiet_step lib k x y \<longleftrightarrow> (\<exists>lab. cred_step lib lab x y \<and> (case lab of None \<Rightarrow> True | Some ev \<Rightarrow> \<not> makes_token lib k ev))"

definition absent_both :: "string \<Rightarrow> cred_state \<Rightarrow> bool" where
  "absent_both k x \<longleftrightarrow> absent k (fst x) \<and> absent k (fst (snd x))"

interpretation gone: invariant_system "absent_both k" "quiet_step lib k" "absent_both k" for lib k
proof
  show "absent_both k y" if inv: "absent_both k x" and step: "quiet_step lib k x y" for x y
    using step inv by (auto simp: quiet_step_def absent_both_def absent_same event_absent elim!: cred_stepE)
qed


section \<open>Where credentials come from\<close>

text \<open>
  The shape of the maps: a server's identity is stored under its own id, an install
  token under its own hash with the hash of its Helper token; every credential was issued.
\<close>

definition identity_ok :: "string set \<Rightarrow> string \<Rightarrow> helperServerIdentity \<Rightarrow> bool" where
  "identity_ok issued server i \<longleftrightarrow>
     id_official_server_id i = server \<and> id_token_hash i \<in> insert [] issued \<and> id_pending_hash i \<in> insert [] issued"

definition install_ok :: "agent_lib \<Rightarrow> string set \<Rightarrow> string \<Rightarrow> helperInstallToken \<Rightarrow> bool" where
  "install_ok lib issued k r \<longleftrightarrow>
     it_token_hash r = k \<and> it_helper_token_hash r = lib_hash lib (it_helper_token r) \<and> it_helper_token_hash r \<in> issued
     \<and> it_install_mode r \<in> {''takeover'', ''helper-only''}"

definition creds_ok :: "agent_lib \<Rightarrow> string set \<Rightarrow> helperState \<Rightarrow> bool" where
  "creds_ok lib issued s \<longleftrightarrow>
     (\<forall>server i. hs_servers s server = Some i \<longrightarrow> identity_ok issued server i) \<and> (\<forall>(k, r) \<in> set (hs_installs s). install_ok lib issued k r)"

lemma creds_okI:
  "(\<And>server i. hs_servers s server = Some i \<Longrightarrow> identity_ok issued server i)
    \<Longrightarrow> (\<And>k r. (k, r) \<in> set (hs_installs s) \<Longrightarrow> install_ok lib issued k r) \<Longrightarrow> creds_ok lib issued s"
  by (auto simp: creds_ok_def)

lemma creds_okD:
  "creds_ok lib issued s \<Longrightarrow> hs_servers s server = Some i \<Longrightarrow> identity_ok issued server i"
  "creds_ok lib issued s \<Longrightarrow> map_of (hs_installs s) k = Some r \<Longrightarrow> install_ok lib issued k r"
  by (auto simp: creds_ok_def dest: map_of_SomeD)

lemma creds_ok_same: "same_creds a b \<Longrightarrow> creds_ok lib issued a \<longleftrightarrow> creds_ok lib issued b"
  by (simp add: creds_ok_def same_creds_def)

lemma identity_mono: "identity_ok issued server i \<Longrightarrow> issued \<subseteq> issued' \<Longrightarrow> identity_ok issued' server i"
  by (auto simp: identity_ok_def)

lemma install_mono: "install_ok lib issued k r \<Longrightarrow> issued \<subseteq> issued' \<Longrightarrow> install_ok lib issued' k r"
  by (auto simp: install_ok_def)

lemma creds_ok_mono: "creds_ok lib issued s \<Longrightarrow> issued \<subseteq> issued' \<Longrightarrow> creds_ok lib issued' s"
  using identity_mono install_mono unfolding creds_ok_def by blast

lemma prune_identity_ok: "identity_ok issued server i \<Longrightarrow> identity_ok issued server (prune_identity now i)"
  by (simp add: prune_identity_def identity_ok_def)

lemma prune_ok: "creds_ok lib issued s \<Longrightarrow> creds_ok lib issued (pruneExpiredLocked now s)"
  by (auto simp: creds_ok_def pruneExpiredLocked_def intro: prune_identity_ok)

lemma entries_update: "set (AList.update k r xs) \<subseteq> insert (k, r) (set xs)"
  by (induction xs) auto

lemma entries_delete: "set (AList.delete k xs) \<subseteq> set xs"
  by (induction xs) auto

lemma put_server_ok:
  "creds_ok lib issued s \<Longrightarrow> identity_ok issued server i \<Longrightarrow> creds_ok lib issued (s\<lparr>hs_servers := (hs_servers s)(server := Some i)\<rparr>)"
  by (simp add: creds_ok_def)

lemma put_install_ok:
  "creds_ok lib issued s \<Longrightarrow> install_ok lib issued k r \<Longrightarrow> creds_ok lib issued (s\<lparr>hs_installs := AList.update k r (hs_installs s)\<rparr>)"
  using entries_update [of k r "hs_installs s"] by (auto simp: creds_ok_def)

lemma drop_install_ok: "creds_ok lib issued s \<Longrightarrow> creds_ok lib issued (s\<lparr>hs_installs := AList.delete k (hs_installs s)\<rparr>)"
  using entries_delete [of k "hs_installs s"] by (auto simp: creds_ok_def)

lemma creds_frame [simp]:
  "creds_ok lib issued (s\<lparr>hs_commands := cs\<rparr>) = creds_ok lib issued s" "creds_ok lib issued (s\<lparr>hs_intents := is'\<rparr>) = creds_ok lib issued s"
  "creds_ok lib issued (s\<lparr>hs_rebinds := rs\<rparr>) = creds_ok lib issued s" "creds_ok lib issued (saved clock s) = creds_ok lib issued s"
  "creds_ok lib issued (markVolatileLocked s) = creds_ok lib issued s" "creds_ok lib issued (touch_intent t m now s) = creds_ok lib issued s"
  by (simp_all add: creds_ok_def saved_def markVolatileLocked_def touch_intent_def)

lemma move_ok: "creds_ok lib issued s \<Longrightarrow> creds_ok lib issued (move_machine source target s)"
  by (auto simp: creds_ok_def move_machine_def)

lemma identity_frame [simp]:
  "identity_ok issued server (i\<lparr>id_updated_at := t\<rparr>) = identity_ok issued server i"
  "identity_ok issued server (i\<lparr>id_last_seen_at := t\<rparr>) = identity_ok issued server i"
  "identity_ok issued server (i\<lparr>id_last_version := v\<rparr>) = identity_ok issued server i"
  "identity_ok issued server (i\<lparr>id_machine_id := v\<rparr>) = identity_ok issued server i"
  "identity_ok issued server (i\<lparr>id_pending_expires_at := t\<rparr>) = identity_ok issued server i"
  by (simp_all add: identity_ok_def)

lemma identity_changes:
  "identity_ok issued server i \<Longrightarrow> h \<in> issued \<Longrightarrow> identity_ok issued server (i\<lparr>id_token_hash := h\<rparr>)"
  "identity_ok issued server i \<Longrightarrow> identity_ok issued server (i\<lparr>id_pending_hash := []\<rparr>)"
  "identity_ok issued server i \<Longrightarrow> identity_ok issued target (i\<lparr>id_official_server_id := target\<rparr>)"
  by (simp_all add: identity_ok_def)

lemma new_identity_ok [simp]: "identity_ok issued server (new_identity server now m u)"
  by (simp add: identity_ok_def new_identity_def)

lemma zero_server_ok [simp]: "identity_ok issued sv (zero_server\<lparr>id_official_server_id := sv\<rparr>)"
  by (simp add: identity_ok_def zero_server_def new_identity_def)

lemma installed_identity_ok:
  "install_ok lib issued k r \<Longrightarrow> identity_ok issued sv i \<Longrightarrow> identity_ok issued (it_official_server_id r) (installed_identity r now i)"
  by (auto simp: install_ok_def identity_ok_def installed_identity_def Let_def)

lemma install_record_ok:
  "mode \<in> {''takeover'', ''helper-only''} \<Longrightarrow> lib_hash lib t \<in> issued
    \<Longrightarrow> install_ok lib issued (lib_hash lib token) (install_record lib server uuid t now ttl preserve mode token)"
  by (simp add: install_ok_def install_record_def)

lemma create_ok:
  assumes "creds_ok lib issued s"
  shows "creds_ok lib (issued \<union> event_issues lib (CreateToken ok clock ttl uuid helper_secret install_secret now server mode))
    (fst (createInstallTokenForMode lib ok clock ttl uuid helper_secret install_secret now server mode s))"
proof -
  let ?I = "issued \<union> event_issues lib (CreateToken ok clock ttl uuid helper_secret install_secret now server mode)"
  let ?s = "pruneExpiredLocked now s"
  have same: "creds_ok lib ?I s" by (rule creds_ok_mono [OF assms]) simp
  have pruned: "creds_ok lib ?I ?s" by (rule prune_ok [OF same])
  have known: "identity_ok ?I server i" if "hs_servers ?s server = Some i" for i by (rule creds_okD(1) [OF pruned that])
  have put: "creds_ok lib ?I (?s\<lparr>hs_servers := (hs_servers ?s)(server := Some i), hs_intents := ni, hs_commands := nc\<rparr>)"
    if "identity_ok ?I server i" for i ni nc using put_server_ok [OF pruned that] by simp
  have put2: "creds_ok lib ?I (?s\<lparr>hs_servers := (hs_servers ?s)(server := Some i), hs_intents := ni, hs_commands := nc,
        hs_installs := AList.update (lib_hash lib token) (install_record lib server u t now ttl preserve m token) (hs_installs ?s)\<rparr>)"
    if "identity_ok ?I server i" "helper_secret = Some t" "m \<in> {''takeover'', ''helper-only''}" for i ni nc token u t preserve m
    using put_install_ok [OF put [OF that(1)], OF install_record_ok [OF that(3), of lib t]] that(2) by simp
  show ?thesis using same pruned known put put2
    by (auto simp: createInstallTokenForMode_def Let_def split: option.split)
qed

lemma consume_ok:
  assumes "creds_ok lib issued s"
  shows "creds_ok lib issued (fst (consumeInstallToken lib ok clock now raw s))"
proof -
  let ?s = "pruneExpiredLocked now s"
  let ?d = "?s\<lparr>hs_installs := AList.delete (lib_hash lib raw) (hs_installs ?s)\<rparr>"
  have pruned: "creds_ok lib issued ?s" by (rule prune_ok [OF assms])
  have dropped: "creds_ok lib issued ?d" by (rule drop_install_ok [OF pruned])
  have stored: "install_ok lib issued (lib_hash lib raw) r" if "map_of (hs_installs ?s) (lib_hash lib raw) = Some r" for r
    by (rule creds_okD(2) [OF pruned that])
  have zero: "installed_identity r now zero_server = installed_identity r now (zero_server\<lparr>id_official_server_id := sv\<rparr>)" for r sv
    by (simp add: installed_identity_def zero_server_def new_identity_def Let_def)
  have installed: "identity_ok issued (it_official_server_id r) (installed_identity r now
      (case hs_servers ?s (it_official_server_id r) of None \<Rightarrow> zero_server | Some i \<Rightarrow> i))"
    if "map_of (hs_installs ?s) (lib_hash lib raw) = Some r" for r
  proof (cases "hs_servers ?s (it_official_server_id r)")
    case None
    then show ?thesis
      using installed_identity_ok [OF stored [OF that] zero_server_ok, of now "it_official_server_id r"] zero [of r "it_official_server_id r"] by simp
  next
    case (Some i)
    then show ?thesis using installed_identity_ok [OF stored [OF that] creds_okD(1) [OF pruned Some]] by simp
  qed
  have put: "creds_ok lib issued (?s\<lparr>hs_installs := AList.delete (lib_hash lib raw) (hs_installs ?s),
      hs_servers := (hs_servers ?s)(it_official_server_id r := Some (installed_identity r now
        (case hs_servers ?s (it_official_server_id r) of None \<Rightarrow> zero_server | Some i \<Rightarrow> i)))\<rparr>)"
    if "map_of (hs_installs ?s) (lib_hash lib raw) = Some r" for r
    using put_server_ok [OF dropped installed [OF that]] by simp
  show ?thesis using pruned dropped put
    by (auto simp: consumeInstallToken_def Let_def split: option.split)
qed

lemma promoted_ok: "identity_ok issued server i \<Longrightarrow> h \<in> issued \<Longrightarrow> identity_ok issued server (promoted i h now)"
  by (simp add: promoted_def identity_ok_def)

lemma report_frame [simp]:
  "creds_ok lib issued (record_report lib' now server rep s) = creds_ok lib issued s"
  "creds_ok lib issued (promote_state server i now s) = creds_ok lib issued s"
  by (auto simp: record_report_def promote_state_def creds_ok_def split: option.splits)

lemma report_ok:
  assumes "creds_ok lib issued s"
  shows "creds_ok lib issued (fst (acceptManagementReport lib ok clock now server token report s))"
proof -
  have "creds_ok lib issued (fst (apply_report lib ok clock now server h p i rep s))"
    if i: "hs_servers s server = Some i" and p: "p \<Longrightarrow> acceptsPendingToken i h now" for i h p rep
  proof -
    have known: "identity_ok issued server i" by (rule creds_okD(1) [OF assms i])
    have pending: "h \<in> issued" if p
      using p [OF that] known by (auto simp: acceptsPendingToken_def identity_ok_def)
    show ?thesis
      using assms known pending
      by (auto simp: apply_report_def Let_def promoted_ok intro!: put_server_ok split: option.split)
  qed
  then show ?thesis using assms by (auto simp: acceptManagementReport_def Let_def split: option.split)
qed

lemma authorize_ok:
  "creds_ok lib issued s \<Longrightarrow> creds_ok lib issued (fst (authorizeReporter lib order now reported token version s))"
  by (auto simp: authorizeReporter_def Let_def creds_okD(1) split: option.split intro!: put_server_ok)

lemma legacy_ok:
  assumes "creds_ok lib issued s"
  shows "creds_ok lib (insert (lib_hash lib token) issued) (fst (recordLegacyReporter lib ok clock uuid now server token version s))"
proof -
  let ?I = "insert (lib_hash lib token) issued"
  have same: "creds_ok lib ?I s" by (rule creds_ok_mono [OF assms]) auto
  have put: "creds_ok lib ?I (s\<lparr>hs_servers := (hs_servers s)(server :=
      Some (i\<lparr>id_last_seen_at := now, id_last_version := v, id_token_hash := lib_hash lib token, id_updated_at := now\<rparr>))\<rparr>)"
    if "identity_ok ?I server i" for i v
    using that by (intro put_server_ok [OF same]) (simp add: identity_ok_def)
  show ?thesis using same put creds_okD(1) [OF same]
    by (auto simp: recordLegacyReporter_def Let_def split: option.split)
qed

lemma rebind_ok:
  assumes "creds_ok lib issued s"
  shows "creds_ok lib issued (fst (rebindMachine lib ok clock order now raw machine token config s))"
proof -
  let ?s = "pruneExpiredLocked now s"
  have pruned: "creds_ok lib issued ?s" by (rule prune_ok [OF assms])
  have put: "creds_ok lib issued (?s\<lparr>hs_servers := (hs_servers ?s)(target := Some (c\<lparr>id_official_server_id := target,
      id_machine_id := m, id_pending_hash := [], id_pending_expires_at := 0, id_updated_at := now\<rparr>))\<rparr>)"
    if "hs_servers ?s source = Some c" for source target c m
    using creds_okD(1) [OF pruned that] by (intro put_server_ok [OF pruned]) (simp add: identity_ok_def)
  show ?thesis using pruned put move_ok
    by (auto simp: rebindMachine_def Let_def split: option.split)
qed

lemma event_ok:
  assumes "creds_ok lib issued s"
  shows "creds_ok lib (issued \<union> event_issues lib ev) (agent_apply lib ev s)"
proof (cases ev)
  case (Legacy ok clock uuid now server token version)
  then show ?thesis using legacy_ok [OF assms] by simp
next
  case (CreateToken ok clock ttl uuid helper_secret install_secret now server mode)
  then show ?thesis using create_ok [OF assms] by (simp only: agent_apply.simps)
qed (use assms creds_ok_same [of "agent_apply lib ev s" s lib issued] in
    \<open>simp_all add: report_ok consume_ok authorize_ok rebind_ok\<close>)

definition cred_init :: "agent_lib \<Rightarrow> cred_state \<Rightarrow> bool" where
  "cred_init lib x \<longleftrightarrow> creds_ok lib (snd (snd x)) (fst x) \<and> creds_ok lib (snd (snd x)) (fst (snd x))"

interpretation creds: invariant_system "cred_init lib" "cred_any lib" "cred_init lib" for lib
proof
  show "cred_init lib y" if inv: "cred_init lib x" and step: "cred_any lib x y" for x y
    using step inv event_ok [of lib] creds_ok_mono [of lib]
    by (auto simp: cred_any_def cred_init_def creds_ok_same elim!: cred_stepE)
qed

text \<open>
  C37: The state keeps its shape under all operations, failing writes, crashes and
  restarts: a server's identity is stored under its own id, an install token under the
  hash of the token with the hash of the Helper token that belongs to it, and its mode is
  one of the two install modes.
\<close>

theorem credentials_shape:
  assumes "reach (cred_init lib) (cred_any lib) (mem, file, issued)"
  shows "(hs_servers mem server = Some i \<longrightarrow> id_official_server_id i = server)
    \<and> (map_of (hs_installs mem) k = Some r \<longrightarrow>
         it_token_hash r = k \<and> it_helper_token_hash r = lib_hash lib (it_helper_token r)
         \<and> it_install_mode r \<in> {''takeover'', ''helper-only''})"
  using creds.reach_inv [OF assms] creds_okD [of lib issued mem] by (fastforce simp: cred_init_def identity_ok_def install_ok_def)


section \<open>Examples\<close>

definition sample_created :: helperState where
  "sample_created = agent_apply sample_lib
     (CreateToken True 0 (30 * minute) None (Some ''new'') (Some ''install'') 100 ''1'' ''helper-only'') sample_agents"

definition sample_consume :: agent_event where
  "sample_consume = ConsumeToken True 0 110 ''install''"


lemma sample_cred_reach: "reach (cred_init sample_lib) (cred_any sample_lib) (sample_agents, sample_agents, {''ht''})"
  by (rule reach_init) (simp add: cred_init_def creds_ok_def sample_agents_def new_state_def sample_identity_def identity_ok_def)

theorem credentials_shape_witness:
  "it_token_hash (the (map_of (hs_installs sample_created) ''hinstall'')) = ''hinstall''"
proof -
  let ?ev = "CreateToken True 0 (30 * minute) None (Some ''new'') (Some ''install'') 100 ''1'' ''helper-only''"
  have "cred_any sample_lib (sample_agents, sample_agents, {''ht''}) (sample_created, sample_created, {''ht''} \<union> event_issues sample_lib ?ev)"
    unfolding cred_any_def sample_created_def by (rule exI, rule cred_event) simp
  then have reach: "reach (cred_init sample_lib) (cred_any sample_lib) (sample_created, sample_created, {''ht''} \<union> event_issues sample_lib ?ev)"
    by (rule reach_step [OF sample_cred_reach])
  have "map_of (hs_installs sample_created) ''hinstall'' \<noteq> None" by code_simp
  then obtain r where "map_of (hs_installs sample_created) ''hinstall'' = Some r" by auto
  then show ?thesis using credentials_shape [OF reach, of "''1''" _ "''hinstall''" r] by simp
qed


end
