(* ===== verification/Durable_Write.thy ===== *)
theory Durable_Write
  imports Go_Text
begin

text \<open>
  Writing the state file so that a crash cannot lose it: \<open>durable_write.go\<close> (the same
  code in the controller and in the Helper) and \<open>load\<close> of \<open>helper_identity.go\<close>. A file
  system is what the running system reads under a name and, for each name, the contents
  that may be found after a crash; documented behaviour of the system calls: a rename is
  atomic and may or may not survive a crash, the sync of the directory settles what is
  there, and the contents of a file that was synced before its rename are whole.
\<close>

section \<open>The file system\<close>

record filesystem =
  fs_view :: "string \<Rightarrow> string option"
  fs_may :: "string \<Rightarrow> (string option) set"

definition fs_rename :: "string \<Rightarrow> string \<Rightarrow> filesystem \<Rightarrow> filesystem" where
  "fs_rename path contents fs =
     \<lparr>fs_view = (fs_view fs)(path := Some contents), fs_may = (fs_may fs)(path := insert (Some contents) (fs_may fs path))\<rparr>"

definition fs_sync :: "filesystem \<Rightarrow> filesystem" where
  "fs_sync fs = fs\<lparr>fs_may := (\<lambda>n. {fs_view fs n})\<rparr>"

definition crash_leaves :: "filesystem \<Rightarrow> (string \<Rightarrow> string option) \<Rightarrow> bool" where
  "crash_leaves fs found \<longleftrightarrow> (\<forall>n. found n \<in> fs_may fs n)"

section \<open>Writing\<close>

text \<open>Which calls of one replacement succeed: staging the contents, the rename, the sync of the directory.\<close>

record replace_io =
  io_staged :: bool
  io_renamed :: bool
  io_synced :: bool

text \<open>The states the file system goes through, the last one last, and whether the call succeeded.\<close>

definition durableReplaceFile :: "replace_io \<Rightarrow> string \<Rightarrow> string \<Rightarrow> filesystem \<Rightarrow> filesystem list \<times> bool" where
  "durableReplaceFile io path contents fs =
     (if \<not> io_staged io \<or> \<not> io_renamed io then ([fs], False)
      else if \<not> io_synced io then ([fs, fs_rename path contents fs], False)
      else ([fs, fs_rename path contents fs, fs_sync (fs_rename path contents fs)], True))"

definition backup_of :: "string \<Rightarrow> string" where "backup_of path = path @ ''.bak''"

text \<open>\<open>readable\<close>: the present file can be read if there is one.\<close>

definition durableWriteFile ::
  "replace_io \<Rightarrow> replace_io \<Rightarrow> bool \<Rightarrow> string \<Rightarrow> string \<Rightarrow> filesystem \<Rightarrow> filesystem list \<times> bool" where
  "durableWriteFile io bak_io readable path contents fs =
     (if \<not> io_staged io then ([fs], False)
      else case fs_view fs path of
        None \<Rightarrow> durableReplaceFile io path contents fs
      | Some previous \<Rightarrow>
          if \<not> readable then ([fs], False)
          else (let (states, ok) = durableReplaceFile bak_io (backup_of path) previous fs
                in if \<not> ok then (states, False)
                   else (let (states', ok') = durableReplaceFile io path contents (last states) in (states @ states', ok'))))"

section \<open>Loading\<close>

datatype 'd readResult = Missing | Unreadable | ReadState 'd

text \<open>\<open>parse\<close> is \<open>json.Unmarshal\<close>.\<close>

definition readHelperState :: "(string \<Rightarrow> 'd option) \<Rightarrow> string option \<Rightarrow> 'd readResult" where
  "readHelperState parse file_contents =
     (case file_contents of
        None \<Rightarrow> Missing
      | Some data \<Rightarrow>
          if trim_space data = [] \<or> hd (trim_space data) \<noteq> CHR ''{'' \<or> CHR 0x00 \<in> set data then Unreadable
          else (case parse data of None \<Rightarrow> Unreadable | Some d \<Rightarrow> ReadState d))"

datatype 'd loadResult = FreshState | LoadedState 'd | LoadError

text \<open>\<open>restored\<close>: the primary file could be rewritten from the backup.\<close>

definition load_state :: "(string \<Rightarrow> 'd option) \<Rightarrow> bool \<Rightarrow> string \<Rightarrow> (string \<Rightarrow> string option) \<Rightarrow> 'd loadResult" where
  "load_state parse restored path found =
     (case readHelperState parse (found path) of
        ReadState d \<Rightarrow> LoadedState d
      | primary \<Rightarrow>
          (case readHelperState parse (found (backup_of path)) of
             ReadState d \<Rightarrow> if restored then LoadedState d else LoadError
           | backup \<Rightarrow> if primary = Missing \<and> backup = Missing then FreshState else LoadError))"

section \<open>Crash safety\<close>

lemma backup_differs [simp]: "backup_of path \<noteq> path" "path \<noteq> backup_of path"
  by (simp_all add: backup_of_def)

lemma replace_states:
  assumes "durableReplaceFile io path contents fs = (states, ok)"
  shows "states \<noteq> []"
    and "s \<in> set states \<Longrightarrow> fs_may s path \<subseteq> insert (Some contents) (fs_may fs path) \<union> {fs_view fs path}"
    and "s \<in> set states \<Longrightarrow> n \<noteq> path \<Longrightarrow> fs_view s n = fs_view fs n \<and> fs_may s n \<subseteq> insert (fs_view fs n) (fs_may fs n)"
    and "ok \<Longrightarrow> last states = fs_sync (fs_rename path contents fs)"
  using assms by (auto simp: durableReplaceFile_def fs_rename_def fs_sync_def split: if_splits)

text \<open>Where the contents of the state file come from, at every moment of a write.\<close>

lemma write_states:
  assumes run: "durableWriteFile io bak_io readable path contents fs = (states, ok)"
    and settled: "fs_view fs path \<in> fs_may fs path" and s: "s \<in> set states"
  shows "fs_may s path \<subseteq> insert (Some contents) (fs_may fs path)"
proof (cases "io_staged io \<and> (fs_view fs path = None \<or> readable)")
  case True
  show ?thesis
  proof (cases "fs_view fs path")
    case None
    then show ?thesis using run True replace_states(2) [of io path contents fs states ok s] settled s
      by (auto simp: durableWriteFile_def)
  next
    case (Some previous)
    obtain states1 ok1 where one: "durableReplaceFile bak_io (backup_of path) previous fs = (states1, ok1)" by fastforce
    obtain states2 ok2 where two: "durableReplaceFile io path contents (last states1) = (states2, ok2)" by fastforce
    have old: "fs_may t path \<subseteq> fs_may fs path \<and> fs_view t path \<in> fs_may fs path" if "t \<in> set states1" for t
      using replace_states(3) [OF one that, of path] settled by auto
    have "last states1 \<in> set states1" using replace_states(1) [OF one] by simp
    then have new: "fs_may t path \<subseteq> insert (Some contents) (fs_may fs path)" if "t \<in> set states2" for t
      using replace_states(2) [OF two that] old [of "last states1"] by blast
    have "s \<in> set states1 \<or> ok1 \<and> s \<in> set states2"
      using run True Some one two s by (auto simp: durableWriteFile_def split: if_splits)
    then show ?thesis using old new by blast
  qed
next
  case False
  then have "s = fs" using run s by (auto simp: durableWriteFile_def split: option.splits if_splits)
  then show ?thesis by auto
qed

lemma write_done:
  assumes run: "durableWriteFile io bak_io readable path contents fs = (states, True)" and old: "fs_view fs path = Some previous"
  shows "fs_may (last states) path = {Some contents} \<and> fs_may (last states) (backup_of path) = {Some previous}"
proof -
  obtain states1 ok1 where one: "durableReplaceFile bak_io (backup_of path) previous fs = (states1, ok1)" by fastforce
  obtain states2 ok2 where two: "durableReplaceFile io path contents (last states1) = (states2, ok2)" by fastforce
  have ok: "ok1" "ok2" "states = states1 @ states2"
    using run old one two by (auto simp: durableWriteFile_def split: if_splits)
  have "last states = fs_sync (fs_rename path contents (fs_sync (fs_rename (backup_of path) previous fs)))"
    using replace_states(4) [OF one ok(1)] replace_states(1,4) [OF two] ok(2,3) by simp
  then show ?thesis by (simp add: fs_sync_def fs_rename_def)
qed

text \<open>
  C13: A crash cannot lose the state file. When every content of the file that a crash
  could leave is a readable state, then at every moment of a write, whichever of its
  calls fail, what is loaded after a crash is one of those states or the new one. After a
  write that succeeded it is the new one, and if the file is damaged later the state
  before the write is loaded from the backup.
\<close>

theorem write_survives_crash:
  assumes run: "durableWriteFile io bak_io readable path contents fs = (states, ok)"
    and settled: "fs_view fs path \<in> fs_may fs path"
    and good: "\<And>x. x \<in> fs_may fs path \<Longrightarrow> readHelperState parse x \<in> ReadState ` olds"
    and new: "readHelperState parse (Some contents) = ReadState d"
  shows "(s \<in> set states \<and> crash_leaves s found \<longrightarrow> load_state parse restored path found \<in> LoadedState ` insert d olds)
    \<and> (ok \<and> crash_leaves (last states) found \<longrightarrow> load_state parse restored path found = LoadedState d \<or> fs_view fs path = None)
    \<and> (ok \<and> crash_leaves (last states) found \<and> readHelperState parse damaged = Unreadable \<longrightarrow>
         load_state parse True path (found(path := damaged)) \<in> LoadedState ` olds)"
proof -
  have load: "load_state parse restored path found = LoadedState x" if "readHelperState parse (found path) = ReadState x" for found x
    using that by (simp add: load_state_def)
  have some: "\<exists>previous. fs_view fs path = Some previous"
    using good [OF settled] by (cases "fs_view fs path") (auto simp: readHelperState_def)
  have during: "load_state parse restored path found \<in> LoadedState ` insert d olds" if "s \<in> set states" "crash_leaves s found"
  proof -
    have "found path \<in> insert (Some contents) (fs_may fs path)"
      using write_states [OF run settled that(1)] that(2) by (auto simp: crash_leaves_def)
    then show ?thesis using good new load by fastforce
  qed
  have after: "load_state parse restored path found = LoadedState d
      \<and> (readHelperState parse damaged = Unreadable \<longrightarrow> load_state parse True path (found(path := damaged)) \<in> LoadedState ` olds)"
    if "ok" "crash_leaves (last states) found"
  proof -
    obtain previous where p: "fs_view fs path = Some previous" using some by blast
    have f: "found path = Some contents" "found (backup_of path) = Some previous"
      using write_done [OF run [unfolded that(1) eq_True [THEN iffD2, OF that(1)]] p] that(2) by (auto simp: crash_leaves_def)
    obtain x where x: "x \<in> olds" "readHelperState parse (Some previous) = ReadState x" using good [OF settled] p by auto
    show ?thesis using f new x load by (auto simp: load_state_def)
  qed
  show ?thesis using during after by blast
qed

theorem write_survives_crash_witness:
  "load_state (\<lambda>v. Some v) False ''s'' [''s'' \<mapsto> ''{new}'', ''s.bak'' \<mapsto> ''{old}''] = LoadedState ''{new}''"
proof -
  let ?fs = "\<lparr>fs_view = [''s'' \<mapsto> ''{old}''], fs_may = (\<lambda>n. {[''s'' \<mapsto> ''{old}''] n})\<rparr>"
  let ?io = "\<lparr>io_staged = True, io_renamed = True, io_synced = True\<rparr>"
  let ?run = "durableWriteFile ?io ?io True ''s'' ''{new}'' ?fs"
  have run: "?run = (fst ?run, True)" by (simp add: durableWriteFile_def durableReplaceFile_def)
  have last: "last (fst ?run) = fs_sync (fs_rename ''s'' ''{new}'' (fs_sync (fs_rename (backup_of ''s'') ''{old}'' ?fs)))"
    by (simp add: durableWriteFile_def durableReplaceFile_def)
  have crash: "crash_leaves (last (fst ?run)) [''s'' \<mapsto> ''{new}'', ''s.bak'' \<mapsto> ''{old}'']"
    unfolding crash_leaves_def last by (simp add: fs_sync_def fs_rename_def backup_of_def)
  have r: "readHelperState (\<lambda>v. Some v) (Some ''{new}'') = ReadState ''{new}''" "readHelperState (\<lambda>v. Some v) (Some ''{old}'') = ReadState ''{old}''"
    by code_simp+
  have good: "readHelperState (\<lambda>v. Some v) x \<in> ReadState ` {''{old}''}" if "x \<in> fs_may ?fs ''s''" for x
    using that r(2) by simp
  show ?thesis
    using write_survives_crash [OF run _ good r(1), of _ "[''s'' \<mapsto> ''{new}'', ''s.bak'' \<mapsto> ''{old}'']" False] crash by simp
qed

end
