(* ===== verification/Rate_Limiter.thy ===== *)
theory Rate_Limiter
  imports User_Limits Desired_State
begin

text \<open>
  \<open>cmd/mmwxc-helper/flvx_rate.go\<close>: the per-owner speed limit. The Helper keeps a
  record of the classes and filters it gave the kernel and brings it up to date
  with one tc batch. Here: the lines of a batch as data (with their text), the
  record and \<open>sync\<close> step by step; what the tools answer (devices, qdiscs, success)
  is an argument. \<open>Rate_Kernel\<close> reads the lines with their documented meaning and
  proves that a batch is never refused and leaves the kernel as recorded;
  \<open>Rate_Control\<close> holds \<open>reconcile\<close>, \<open>ensure\<close> and \<open>rateOwners\<close>.
\<close>

section \<open>Constants and lines\<close>

definition flvxRateMajor :: int where "flvxRateMajor = 0x7f1b"
definition flvxRatePrefV4 :: int where "flvxRatePrefV4 = 61870"
definition flvxRatePrefV6 :: int where "flvxRatePrefV6 = 61871"
definition flvxRateRecheck :: duration where "flvxRateRecheck = minute"
definition flvxRateDrain :: duration where "flvxRateDrain = 2 * second"
definition flvxRateLeafFlows :: int where "flvxRateLeafFlows = 128"
definition flvxRateLeafMemory :: int where "flvxRateLeafMemory = 4 * 2 ^ 20"
definition flvxRateQuantum :: int where "flvxRateQuantum = 60000"
definition flvxRateMaxSlot :: int where "flvxRateMaxSlot = 0xfff"
definition RateBytesPerMbps :: int where "RateBytesPerMbps = 131072"

definition flvxRateWire :: "int \<Rightarrow> int" where
  "flvxRateWire bytesPerSec = (bytesPerSec * 8 * 106) mod 2 ^ 64 div 100"

definition flvxRateUnlimited :: int where
  "flvxRateUnlimited = flvxRateWire (MaxUserRateMbps * RateBytesPerMbps)"

record flvxRateOwner =
  ro_owner :: string
  ro_bytes :: int
  ro_tcp :: "int list"
  ro_udp :: "int list"

record flvxRateKey =
  rk_egress :: bool
  rk_v6 :: bool
  rk_udp :: bool
  rk_port :: int

definition rate_handle :: "flvxRateKey \<Rightarrow> int" where
  "rate_handle k = (rk_port k * 4) mod 2 ^ 32 + (if rk_udp k then 2 else 1)"

definition rate_hook :: "flvxRateKey \<Rightarrow> string" where
  "rate_hook k = (if rk_egress k then ''egress'' else ''ingress'')"

definition rate_proto :: "flvxRateKey \<Rightarrow> string \<times> int" where
  "rate_proto k = (if rk_v6 k then (''ipv6'', flvxRatePrefV6) else (''ip'', flvxRatePrefV4))"

text \<open>\<open>flvxRateKeyLess\<close>: by port, then TCP first, then IPv4 first, then ingress first.\<close>

definition rate_rank :: "flvxRateKey \<Rightarrow> int" where
  "rate_rank k = rk_port k * 8 + (if rk_udp k then 4 else 0) + (if rk_v6 k then 2 else 0) + (if rk_egress k then 1 else 0)"

datatype ifb = IfbUp | IfbDown

definition ifb_name :: "ifb \<Rightarrow> string" where
  "ifb_name i = (case i of IfbUp \<Rightarrow> ''mmwxcr-up'' | IfbDown \<Rightarrow> ''mmwxcr-dn'')"

definition ifbs :: "ifb list" where
  "ifbs = [IfbUp, IfbDown]"

definition filter_target :: "flvxRateKey \<Rightarrow> ifb" where
  "filter_target k = (if rk_egress k then IfbDown else IfbUp)"

datatype tc_line =
    ClassReplace ifb int int
  | ClassChange ifb int int
  | ClassDel ifb int
  | LeafReplace ifb int
  | ClsactAdd string
  | FilterReplace string flvxRateKey int
  | FilterDel string flvxRateKey

definition flvxRateClassID :: "int \<Rightarrow> string" where
  "flvxRateClassID slot = hex_digits flvxRateMajor @ '':'' @ hex_digits ((slot * 16) mod 2 ^ 32)"

definition class_text :: "string \<Rightarrow> ifb \<Rightarrow> int \<Rightarrow> int \<Rightarrow> string" where
  "class_text verb i slot rate =
     ''class '' @ verb @ '' dev '' @ ifb_name i @ '' parent '' @ hex_digits flvxRateMajor @ '': classid '' @ flvxRateClassID slot
     @ '' htb rate '' @ go_itoa rate @ ''bit ceil '' @ go_itoa rate @ ''bit quantum '' @ go_itoa flvxRateQuantum"

definition filter_head :: "string \<Rightarrow> string \<Rightarrow> flvxRateKey \<Rightarrow> string" where
  "filter_head verb dev k =
     ''filter '' @ verb @ '' dev '' @ dev @ '' '' @ rate_hook k @ '' protocol '' @ fst (rate_proto k)
     @ '' pref '' @ go_itoa (snd (rate_proto k)) @ '' handle 0x'' @ hex_digits (rate_handle k) @ '' flower''"

definition tc_text :: "tc_line \<Rightarrow> string" where
  "tc_text l = (case l of
       ClassReplace i slot rate \<Rightarrow> class_text ''replace'' i slot rate
     | ClassChange i slot rate \<Rightarrow> class_text ''change'' i slot rate
     | ClassDel i slot \<Rightarrow>
         ''class del dev '' @ ifb_name i @ '' parent '' @ hex_digits flvxRateMajor @ '': classid '' @ flvxRateClassID slot
     | LeafReplace i slot \<Rightarrow>
         ''qdisc replace dev '' @ ifb_name i @ '' parent '' @ flvxRateClassID slot @ '' handle '' @ hex_digits slot
         @ '': fq_codel flows '' @ go_itoa flvxRateLeafFlows @ '' memory_limit '' @ go_itoa flvxRateLeafMemory
     | ClsactAdd dev \<Rightarrow> ''qdisc add dev '' @ dev @ '' clsact''
     | FilterReplace dev k slot \<Rightarrow>
         filter_head ''replace'' dev k @ '' ip_proto '' @ (if rk_udp k then ''udp'' else ''tcp'') @ '' ''
         @ (if rk_egress k then ''src_port'' else ''dst_port'') @ '' '' @ go_itoa (rk_port k)
         @ '' action skbedit priority '' @ flvxRateClassID slot @ '' action mirred egress redirect dev '' @ ifb_name (filter_target k)
     | FilterDel dev k \<Rightarrow> filter_head ''del'' dev k)"

definition flvxRateClassLines :: "int \<Rightarrow> int \<Rightarrow> bool \<Rightarrow> tc_line list" where
  "flvxRateClassLines slot rate exists =
     concat (map (\<lambda>i. if exists then [ClassChange i slot rate] else [ClassReplace i slot rate, LeafReplace i slot]) ifbs)"

section \<open>The record\<close>

record flvxRateDev =
  rd_name :: string
  rd_filters :: "(flvxRateKey \<times> int) list"

record flvxRateLimiter =
  rl_known :: bool
  rl_active :: bool
  rl_up :: int
  rl_dn :: int
  rl_owners :: "flvxRateOwner list"
  rl_slots :: "(string \<times> int) list"
  rl_classes :: "(int \<times> int) list"
  rl_devs :: "(int \<times> flvxRateDev) list"
  rl_releasing :: "(int \<times> time) list"
  rl_checked_at :: time
  rl_failure :: "string option"
  rl_failed_at :: time
  rl_failed_owners :: "flvxRateOwner list"

record flvxRateScan =
  sc_devs :: "(int \<times> string) list"
  sc_links :: "int list"
  sc_up_idx :: int
  sc_dn_idx :: int
  sc_up_ok :: bool
  sc_dn_ok :: bool

section \<open>Choosing the devices: \<open>scan\<close>\<close>

record rate_link =
  ln_index :: int
  ln_name :: string
  ln_flags :: "string list"
  ln_master :: string
  ln_link :: string
  ln_kind :: string
  ln_addrs :: "(string \<times> string) list"

definition link_global :: "rate_link \<Rightarrow> bool" where
  "link_global l = list_ex (\<lambda>(local_addr, scope). scope = ''global''
     \<and> (case net_parse_ip local_addr of None \<Rightarrow> False | Some ip \<Rightarrow> addr_is_global_unicast ip)) (ln_addrs l)"

definition rate_candidate :: "rate_link \<Rightarrow> bool" where
  "rate_candidate l \<longleftrightarrow>
     ln_name l \<noteq> ifb_name IfbUp \<and> ln_name l \<noteq> ifb_name IfbDown
     \<and> ''LOOPBACK'' \<notin> set (ln_flags l) \<and> ''UP'' \<in> set (ln_flags l)
     \<and> ln_kind l \<noteq> ''ifb'' \<and> ln_master l = [] \<and> link_global l"

definition stacked_kind :: "string \<Rightarrow> bool" where
  "stacked_kind kind \<longleftrightarrow> kind \<in> set [''vlan'', ''macvlan'', ''macvtap'', ''ipvlan'']"

definition rate_scan :: "rate_link list \<Rightarrow> flvxRateScan" where
  "rate_scan links =
     (let candidates = filter rate_candidate links;
          names = map ln_name candidates;
          last_of = (\<lambda>name. case filter (\<lambda>l. ln_name l = ifb_name name) links of [] \<Rightarrow> None | ls \<Rightarrow> Some (last ls));
          ifb_up = (\<lambda>i. case last_of i of None \<Rightarrow> (0, False) | Some l \<Rightarrow> (ln_index l, ''UP'' \<in> set (ln_flags l)))
      in \<lparr>sc_devs = map (\<lambda>l. (ln_index l, ln_name l)) (filter (\<lambda>l. \<not> (stacked_kind (ln_kind l) \<and> ln_link l \<in> set names)) candidates),
          sc_links = map ln_index links,
          sc_up_idx = fst (ifb_up IfbUp), sc_dn_idx = fst (ifb_up IfbDown),
          sc_up_ok = snd (ifb_up IfbUp), sc_dn_ok = snd (ifb_up IfbDown)\<rparr>)"

section \<open>What the owners want: slots, classes and filters\<close>

function first_free :: "int \<Rightarrow> int list \<Rightarrow> int" where
  "first_free s used = (if flvxRateMaxSlot < s then 0 else if s \<in> set used then first_free (s + 1) used else s)"
  by pat_completeness auto
termination by (relation "measure (\<lambda>(s, _). nat (flvxRateMaxSlot + 1 - s))") auto

declare first_free.simps [simp del]

definition freeSlot :: "flvxRateLimiter \<Rightarrow> int" where
  "freeSlot r = first_free 1 (map snd (rl_slots r) @ map fst (rl_classes r))"

definition port_keys :: "bool \<Rightarrow> int \<Rightarrow> flvxRateKey list" where
  "port_keys udp p =
     concat (map (\<lambda>egress. map (\<lambda>v6. \<lparr>rk_egress = egress, rk_v6 = v6, rk_udp = udp, rk_port = p mod 2 ^ 16\<rparr>) [False, True]) [False, True])"

definition owner_keys :: "flvxRateOwner \<Rightarrow> flvxRateKey list" where
  "owner_keys ow = concat (map (port_keys False) (ro_tcp ow)) @ concat (map (port_keys True) (ro_udp ow))"

type_synonym rate_wants = "(int \<times> int) list \<times> (flvxRateKey \<times> int) list"

text \<open>The first loop of \<open>sync\<close>: \<open>Inl\<close> when no slot is left.\<close>

fun want_rates :: "flvxRateOwner list \<Rightarrow> flvxRateLimiter \<Rightarrow> rate_wants \<Rightarrow> string + flvxRateLimiter \<times> rate_wants" where
  "want_rates [] r w = Inr (r, w)"
| "want_rates (ow # owners) r (wc, wfs) =
     (let known = map_of (rl_slots r) (ro_owner ow);
          slot = (case known of Some s \<Rightarrow> s | None \<Rightarrow> freeSlot r)
      in if known = None \<and> slot = 0 then Inl ''too many limited users''
         else want_rates owners (if known = None then r\<lparr>rl_slots := AList.update (ro_owner ow) slot (rl_slots r)\<rparr> else r)
                (AList.update slot (flvxRateWire (ro_bytes ow)) wc, fold (\<lambda>k. AList.update k slot) (owner_keys ow) wfs))"

section \<open>Step 1: filters that go\<close>

definition sorted_keys :: "(flvxRateKey \<times> int) list \<Rightarrow> flvxRateKey list" where
  "sorted_keys fs = sort_key rate_rank (map fst fs)"

text \<open>
  Devices that are not selected any more leave the record; \<open>removeDev\<close> clears
  those that still exist and have a qdisc. \<open>hooked\<close> is the answer of \<open>hookQdiscs\<close>
  (\<open>None\<close>: it failed), \<open>removable\<close> whether \<open>removeDev\<close> succeeds.
\<close>

definition gone_devs :: "flvxRateScan \<Rightarrow> flvxRateLimiter \<Rightarrow> (int \<times> flvxRateDev) list" where
  "gone_devs scan r = filter (\<lambda>(i, _). map_of (sc_devs scan) i = None) (rl_devs r)"

definition gone_ok :: "(string \<rightharpoonup> string) option \<Rightarrow> (string \<Rightarrow> bool) \<Rightarrow> flvxRateScan \<Rightarrow> flvxRateLimiter \<Rightarrow> bool" where
  "gone_ok hooked removable scan r =
     list_all (\<lambda>(i, d). i \<in> set (sc_links scan) \<longrightarrow>
         (case hooked of None \<Rightarrow> False | Some h \<Rightarrow> h (rd_name d) = None \<or> removable (rd_name d))) (gone_devs scan r)"

definition drop_unselected :: "flvxRateScan \<Rightarrow> flvxRateLimiter \<Rightarrow> flvxRateLimiter" where
  "drop_unselected scan r = r\<lparr>rl_devs := filter (\<lambda>(i, _). map_of (sc_devs scan) i \<noteq> None) (rl_devs r)\<rparr>"

definition filter_goes :: "time \<Rightarrow> rate_wants \<Rightarrow> (int \<times> time) list \<Rightarrow> flvxRateKey \<Rightarrow> int \<Rightarrow> bool" where
  "filter_goes now w releasing k slot \<longleftrightarrow>
     map_of (snd w) k = None
     \<and> (map_of (fst w) slot = None \<longrightarrow>
          (case map_of releasing slot of None \<Rightarrow> False | Some since \<Rightarrow> flvxRateDrain \<le> time_sub now since))"

definition stale_keys :: "time \<Rightarrow> rate_wants \<Rightarrow> (int \<times> time) list \<Rightarrow> (flvxRateKey \<times> int) list \<Rightarrow> flvxRateKey list" where
  "stale_keys now w releasing fs =
     filter (\<lambda>k. case map_of fs k of None \<Rightarrow> False | Some slot \<Rightarrow> filter_goes now w releasing k slot) (sorted_keys fs)"

fun stale_devs ::
  "time \<Rightarrow> rate_wants \<Rightarrow> (int \<times> time) list \<Rightarrow> (int \<times> flvxRateDev) list \<Rightarrow> tc_line list \<times> (int \<times> flvxRateDev) list" where
  "stale_devs now w releasing [] = ([], [])"
| "stale_devs now w releasing ((i, d) # ds) =
     (let stale = stale_keys now w releasing (rd_filters d);
          (ls, ds') = stale_devs now w releasing ds
      in (map (FilterDel (rd_name d)) stale @ ls,
          (i, d\<lparr>rd_filters := filter (\<lambda>(k, _). k \<notin> set stale) (rd_filters d)\<rparr>) # ds'))"

section \<open>Step 2: classes\<close>

definition slotHasFilters :: "int \<Rightarrow> flvxRateLimiter \<Rightarrow> bool" where
  "slotHasFilters slot r = list_ex (\<lambda>(_, d). slot \<in> set (map snd (rd_filters d))) (rl_devs r)"

text \<open>Loops that append lines and update the record.\<close>

fun emit_all :: "('a \<Rightarrow> 's \<Rightarrow> 'l list \<times> 's) \<Rightarrow> 'a list \<Rightarrow> 's \<Rightarrow> 'l list \<times> 's" where
  "emit_all f [] s = ([], s)"
| "emit_all f (x # xs) s = (let (l, s1) = f x s; (ls, s2) = emit_all f xs s1 in (l @ ls, s2))"

definition release_class :: "time \<Rightarrow> (int \<times> int) list \<Rightarrow> int \<Rightarrow> flvxRateLimiter \<Rightarrow> tc_line list \<times> flvxRateLimiter" where
  "release_class now wc slot r =
     (if map_of wc slot \<noteq> None then ([], r\<lparr>rl_releasing := AList.delete slot (rl_releasing r)\<rparr>)
      else case map_of (rl_releasing r) slot of
        None \<Rightarrow>
          (let unlimited = map_of (rl_classes r) slot = Some flvxRateUnlimited
           in (if unlimited then [] else flvxRateClassLines slot flvxRateUnlimited True,
               r\<lparr>rl_classes := (if unlimited then rl_classes r else AList.update slot flvxRateUnlimited (rl_classes r)),
                 rl_releasing := AList.update slot now (rl_releasing r)\<rparr>))
      | Some since \<Rightarrow>
          if time_sub now since < flvxRateDrain \<or> slotHasFilters slot r then ([], r)
          else (map (\<lambda>i. ClassDel i slot) ifbs,
                r\<lparr>rl_classes := AList.delete slot (rl_classes r), rl_slots := filter (\<lambda>(_, s). s \<noteq> slot) (rl_slots r),
                  rl_releasing := AList.delete slot (rl_releasing r)\<rparr>))"

definition set_class :: "(int \<times> int) list \<Rightarrow> int \<Rightarrow> flvxRateLimiter \<Rightarrow> tc_line list \<times> flvxRateLimiter" where
  "set_class wc slot r =
     (case map_of wc slot of
        None \<Rightarrow> ([], r)
      | Some rate \<Rightarrow>
          if map_of (rl_classes r) slot = Some rate then ([], r)
          else (flvxRateClassLines slot rate (map_of (rl_classes r) slot \<noteq> None),
                r\<lparr>rl_classes := AList.update slot rate (rl_classes r)\<rparr>))"

section \<open>Step 3: new filters\<close>

definition set_filter :: "int \<Rightarrow> string \<Rightarrow> (flvxRateKey \<times> int) list \<Rightarrow> flvxRateKey \<Rightarrow> flvxRateLimiter \<Rightarrow> tc_line list \<times> flvxRateLimiter" where
  "set_filter i dev wfs k r =
     (case (map_of wfs k, map_of (rl_devs r) i) of
        (Some slot, Some d) \<Rightarrow>
          if map_of (rd_filters d) k = Some slot then ([], r)
          else ([FilterReplace dev k slot],
                r\<lparr>rl_devs := AList.update i (d\<lparr>rd_filters := AList.update k slot (rd_filters d)\<rparr>) (rl_devs r)\<rparr>)
      | _ \<Rightarrow> ([], r))"

fun add_devs ::
  "(string \<rightharpoonup> string) option \<Rightarrow> (flvxRateKey \<times> int) list \<Rightarrow> (int \<times> string) list \<Rightarrow> flvxRateLimiter
     \<Rightarrow> string + tc_line list \<times> flvxRateLimiter" where
  "add_devs hooked wfs [] r = Inr ([], r)"
| "add_devs hooked wfs ((i, name) # ds) r =
     (case map_of (rl_devs r) i of
        Some d \<Rightarrow>
          (let (l, r1) = emit_all (set_filter i (rd_name d) wfs) (sorted_keys wfs) r
           in case add_devs hooked wfs ds r1 of Inl e \<Rightarrow> Inl e | Inr (ls, r2) \<Rightarrow> Inr (l @ ls, r2))
      | None \<Rightarrow>
          if wfs = [] then add_devs hooked wfs ds r
          else (case hooked of
             None \<Rightarrow> Inl ''tc qdisc''
           | Some h \<Rightarrow>
               if h name = Some ''ingress'' then Inl ''other ingress qdisc''
               else (let (l, r1) = emit_all (set_filter i name wfs) (sorted_keys wfs)
                           (r\<lparr>rl_devs := AList.update i \<lparr>rd_name = name, rd_filters = []\<rparr> (rl_devs r)\<rparr>);
                         hook = (if h name = None then [ClsactAdd name] else [])
                     in case add_devs hooked wfs ds r1 of Inl e \<Rightarrow> Inl e | Inr (ls, r2) \<Rightarrow> Inr (hook @ l @ ls, r2))))"

section \<open>\<open>sync\<close>\<close>

definition sync_wanted ::
  "time \<Rightarrow> (string \<rightharpoonup> string) option \<Rightarrow> flvxRateScan \<Rightarrow> rate_wants \<Rightarrow> flvxRateLimiter \<Rightarrow> string + tc_line list \<times> flvxRateLimiter" where
  "sync_wanted now hooked scan w r =
     (let (l1, ds) = stale_devs now w (rl_releasing r) (rl_devs r);
          r1 = r\<lparr>rl_devs := ds\<rparr>;
          (l2, r2) = emit_all (release_class now (fst w)) (sort (map fst (rl_classes r1))) r1;
          (l3, r3) = emit_all (set_class (fst w)) (sort (map fst (fst w))) r2
      in case add_devs hooked (snd w) (sort_key fst (sc_devs scan)) r3 of
           Inl e \<Rightarrow> Inl e
         | Inr (l4, r4) \<Rightarrow> Inr (l1 @ l2 @ l3 @ l4, r4))"

text \<open>\<open>before\<close> is what \<open>hookQdiscs\<close> answers in step 1, \<open>hooked\<close> in step 3.\<close>

definition rate_sync ::
  "time \<Rightarrow> (string \<rightharpoonup> string) option \<Rightarrow> (string \<rightharpoonup> string) option \<Rightarrow> (string \<Rightarrow> bool) \<Rightarrow> flvxRateScan \<Rightarrow> flvxRateOwner list \<Rightarrow> flvxRateLimiter
     \<Rightarrow> string + tc_line list \<times> flvxRateLimiter" where
  "rate_sync now before hooked removable scan owners r =
     (case want_rates owners r ([], []) of
        Inl e \<Rightarrow> Inl e
      | Inr (r0, w) \<Rightarrow>
          if gone_ok before removable scan r0 then sync_wanted now hooked scan w (drop_unselected scan r0)
          else Inl ''removing a device failed'')"

end
