(* ===== verification/Rate_Kernel.thy ===== *)
theory Rate_Kernel
  imports Rate_Limiter
begin

text \<open>
  What a tc batch does, as documented: the classes of the two IFBs, the filters at
  the Helper's preferences on each device and the devices with a clsact. A line
  that tc refuses (a class or filter that is not there, a class still in use, a
  filter without qdisc or class) is \<open>None\<close>. \<open>sync\<close> refines this kernel: its batch
  is never refused and leaves it as the record says.
\<close>

record rate_kernel =
  k_classes :: "ifb \<times> int \<rightharpoonup> int"
  k_filters :: "string \<times> flvxRateKey \<rightharpoonup> int"
  k_hooks :: "string set"

fun line_effect :: "tc_line \<Rightarrow> rate_kernel \<Rightarrow> rate_kernel option" where
  "line_effect (ClassReplace i s rate) k = Some (k\<lparr>k_classes := (k_classes k)((i, s) \<mapsto> rate)\<rparr>)"
| "line_effect (ClassChange i s rate) k =
     (if k_classes k (i, s) = None then None else Some (k\<lparr>k_classes := (k_classes k)((i, s) \<mapsto> rate)\<rparr>))"
| "line_effect (ClassDel i s) k =
     (if k_classes k (i, s) = None \<or> (\<exists>dev key. k_filters k (dev, key) = Some s \<and> filter_target key = i) then None
      else Some (k\<lparr>k_classes := (k_classes k)((i, s) := None)\<rparr>))"
| "line_effect (LeafReplace i s) k = (if k_classes k (i, s) = None then None else Some k)"
| "line_effect (ClsactAdd dev) k = (if dev \<in> k_hooks k then None else Some (k\<lparr>k_hooks := insert dev (k_hooks k)\<rparr>))"
| "line_effect (FilterReplace dev key s) k =
     (if dev \<notin> k_hooks k \<or> k_classes k (filter_target key, s) = None then None
      else Some (k\<lparr>k_filters := (k_filters k)((dev, key) \<mapsto> s)\<rparr>))"
| "line_effect (FilterDel dev key) k =
     (if k_filters k (dev, key) = None then None else Some (k\<lparr>k_filters := (k_filters k)((dev, key) := None)\<rparr>))"

fun replay :: "tc_line list \<Rightarrow> rate_kernel \<Rightarrow> rate_kernel option" where
  "replay [] k = Some k"
| "replay (l # ls) k = (case line_effect l k of None \<Rightarrow> None | Some k' \<Rightarrow> replay ls k')"

lemma replay_append: "replay (xs @ ys) k = (case replay xs k of None \<Rightarrow> None | Some k' \<Rightarrow> replay ys k')"
  by (induction xs arbitrary: k) (auto split: option.splits)

text \<open>Steps whose lines bring any kernel that fits the record to one that fits the new record.\<close>

definition faithful :: "('s \<Rightarrow> rate_kernel \<Rightarrow> bool) \<Rightarrow> ('s \<Rightarrow> tc_line list \<times> 's) \<Rightarrow> bool" where
  "faithful rep f \<longleftrightarrow> (\<forall>s k. rep s k \<longrightarrow> (\<exists>k'. replay (fst (f s)) k = Some k' \<and> rep (snd (f s)) k'))"

lemma faithful_emit_all:
  assumes "\<And>x. x \<in> set xs \<Longrightarrow> faithful rep (f x)"
  shows "faithful rep (emit_all f xs)"
  using assms
proof (induction xs)
  case (Cons x xs)
  have head: "faithful rep (f x)" and tail: "faithful rep (emit_all f xs)" using Cons by simp_all
  show ?case
    unfolding faithful_def
  proof (intro allI impI)
    fix s k assume "rep s k"
    then obtain k1 where k1: "replay (fst (f x s)) k = Some k1" "rep (snd (f x s)) k1" using head unfolding faithful_def by blast
    then obtain k2 where "replay (fst (emit_all f xs (snd (f x s)))) k1 = Some k2" "rep (snd (emit_all f xs (snd (f x s)))) k2"
      using tail unfolding faithful_def by blast
    then show "\<exists>k'. replay (fst (emit_all f (x # xs) s)) k = Some k' \<and> rep (snd (emit_all f (x # xs) s)) k'"
      using k1 by (auto simp: replay_append split: prod.splits)
  qed
qed (simp add: faithful_def)

lemma emit_all_Cons:
  "fst (emit_all f (x # xs) s) = fst (f x s) @ fst (emit_all f xs (snd (f x s)))"
  "snd (emit_all f (x # xs) s) = snd (emit_all f xs (snd (f x s)))"
  by (simp_all split: prod.splits)

section \<open>The invariant of the record\<close>

definition devs_wf :: "(int \<times> flvxRateDev) list \<Rightarrow> bool" where
  "devs_wf ds \<longleftrightarrow> distinct (map fst ds) \<and> distinct (map (\<lambda>(_, d). rd_name d) ds)
     \<and> (\<forall>(_, d) \<in> set ds. distinct (map fst (rd_filters d)))"

definition used_slots :: "(int \<times> flvxRateDev) list \<Rightarrow> int set" where
  "used_slots ds = (\<Union>(_, d) \<in> set ds. snd ` set (rd_filters d))"

definition slots_wf :: "flvxRateLimiter \<Rightarrow> bool" where
  "slots_wf r \<longleftrightarrow> distinct (map fst (rl_slots r)) \<and> distinct (map snd (rl_slots r))
     \<and> snd ` set (rl_slots r) \<subseteq> {1..flvxRateMaxSlot} \<and> fst ` set (rl_classes r) \<subseteq> snd ` set (rl_slots r)"

definition releasing_wf :: "flvxRateLimiter \<Rightarrow> bool" where
  "releasing_wf r \<longleftrightarrow> (\<forall>s. map_of (rl_releasing r) s \<noteq> None \<longrightarrow> map_of (rl_classes r) s = Some flvxRateUnlimited)"

definition rate_inv :: "flvxRateLimiter \<Rightarrow> bool" where
  "rate_inv r \<longleftrightarrow> devs_wf (rl_devs r) \<and> slots_wf r \<and> distinct (map fst (rl_classes r)) \<and> releasing_wf r
     \<and> used_slots (rl_devs r) \<subseteq> fst ` set (rl_classes r)"

definition dev_rep :: "(int \<times> flvxRateDev) list \<Rightarrow> rate_kernel \<Rightarrow> bool" where
  "dev_rep ds k \<longleftrightarrow>
     (\<forall>(i, d) \<in> set ds. rd_name d \<in> k_hooks k \<and> (\<forall>key. k_filters k (rd_name d, key) = map_of (rd_filters d) key))
     \<and> (\<forall>n key. n \<notin> (\<lambda>(_, d). rd_name d) ` set ds \<longrightarrow> k_filters k (n, key) = None)"

definition class_rep :: "flvxRateLimiter \<Rightarrow> rate_kernel \<Rightarrow> bool" where
  "class_rep r k \<longleftrightarrow> (\<forall>i s. k_classes k (i, s) = map_of (rl_classes r) s)"

definition represents :: "flvxRateLimiter \<Rightarrow> rate_kernel \<Rightarrow> bool" where
  "represents r k \<longleftrightarrow> dev_rep (rl_devs r) k \<and> class_rep r k"

lemma flvxRateMaxSlot_pos: "0 < flvxRateMaxSlot"
  by (simp add: flvxRateMaxSlot_def)

lemma dev_repD:
  assumes "dev_rep ds k" and "(i, d) \<in> set ds"
  shows "rd_name d \<in> k_hooks k" and "k_filters k (rd_name d, key) = map_of (rd_filters d) key"
  using assms unfolding dev_rep_def by (auto dest: bspec [of _ _ "(i, d)"])

lemma dev_repI:
  assumes "\<And>i d. (i, d) \<in> set ds \<Longrightarrow> rd_name d \<in> k_hooks k \<and> (\<forall>key. k_filters k (rd_name d, key) = map_of (rd_filters d) key)"
    and "\<And>n key. n \<notin> (\<lambda>(_, d). rd_name d) ` set ds \<Longrightarrow> k_filters k (n, key) = None"
  shows "dev_rep ds k"
  using assms unfolding dev_rep_def by blast

lemma dev_rep_slots:
  assumes "dev_rep ds k" and "k_filters k (n, key) = Some s"
  shows "s \<in> used_slots ds"
proof -
  have "n \<in> (\<lambda>(_, d). rd_name d) ` set ds" using assms unfolding dev_rep_def by (metis option.distinct(1))
  then obtain i d where d: "(i, d) \<in> set ds" "n = rd_name d" by auto
  then have "map_of (rd_filters d) key = Some s" using assms unfolding dev_rep_def by fastforce
  then show ?thesis using d map_of_SomeD unfolding used_slots_def by force
qed

lemma slotHasFilters_iff: "slotHasFilters s r \<longleftrightarrow> s \<in> used_slots (rl_devs r)"
  unfolding slotHasFilters_def used_slots_def by (auto simp: list_ex_iff)

section \<open>Step 1\<close>

lemma replay_filter_dels:
  assumes "distinct ks" and "\<And>key. key \<in> set ks \<Longrightarrow> k_filters k (n, key) \<noteq> None"
  shows "replay (map (FilterDel n) ks) k =
    Some (k\<lparr>k_filters := \<lambda>(m, key). if m = n \<and> key \<in> set ks then None else k_filters k (m, key)\<rparr>)"
  using assms
proof (induction ks arbitrary: k)
  case Nil
  then show ?case by simp
next
  case (Cons key ks)
  let ?k = "k\<lparr>k_filters := (k_filters k)((n, key) := None)\<rparr>"
  have "replay (map (FilterDel n) ks) ?k =
      Some (?k\<lparr>k_filters := \<lambda>(m, q). if m = n \<and> q \<in> set ks then None else k_filters ?k (m, q)\<rparr>)"
    by (rule Cons.IH) (use Cons.prems in auto)
  moreover have "(\<lambda>(m, q). if m = n \<and> q \<in> set ks then None else k_filters ?k (m, q))
      = (\<lambda>(m, q). if m = n \<and> q \<in> set (key # ks) then None else k_filters k (m, q))"
    by (auto simp: fun_eq_iff)
  ultimately show ?case using Cons.prems by simp
qed

lemma stale_keys_props:
  assumes "distinct (map fst fs)"
  shows "distinct (stale_keys now w releasing fs)"
    and "key \<in> set (stale_keys now w releasing fs) \<Longrightarrow> map_of fs key \<noteq> None"
  using assms by (auto simp: stale_keys_def sorted_keys_def split: option.splits)

lemma map_of_filter_keys: "map_of (filter (\<lambda>(k, _). k \<notin> K) fs) key = (if key \<in> K then None else map_of fs key)"
  by (induction fs) auto

lemma stale_devs_faithful:
  assumes "stale_devs now w releasing ds = (ls, ds')" and "devs_wf (pre @ ds)" and "dev_rep (pre @ ds) k"
  shows "\<exists>k'. replay ls k = Some k' \<and> dev_rep (pre @ ds') k' \<and> devs_wf (pre @ ds') \<and> k_classes k' = k_classes k
    \<and> k_hooks k' = k_hooks k \<and> map fst ds' = map fst ds \<and> map (\<lambda>(_, d). rd_name d) ds' = map (\<lambda>(_, d). rd_name d) ds
    \<and> used_slots (pre @ ds') \<subseteq> used_slots (pre @ ds)"
  using assms
proof (induction ds arbitrary: ls ds' pre k)
  case (Cons x ds)
  obtain i d where x: "x = (i, d)" by fastforce
  define stale where "stale = stale_keys now w releasing (rd_filters d)"
  define d' where "d' = d\<lparr>rd_filters := filter (\<lambda>(q, _). q \<notin> set stale) (rd_filters d)\<rparr>"
  define k1 where "k1 = k\<lparr>k_filters := \<lambda>(m, key). if m = rd_name d \<and> key \<in> set stale then None else k_filters k (m, key)\<rparr>"
  obtain ls2 ds2 where rest: "stale_devs now w releasing ds = (ls2, ds2)" by fastforce
  have out: "ls = map (FilterDel (rd_name d)) stale @ ls2" "ds' = (i, d') # ds2"
    using Cons.prems(1) rest unfolding x by (simp_all add: stale_def d'_def Let_def)
  have dist: "distinct (map fst (rd_filters d))" using Cons.prems(2) unfolding x devs_wf_def by auto
  have filters: "k_filters k (rd_name d, key) = map_of (rd_filters d) key" for key
    using Cons.prems(3) unfolding x dev_rep_def by auto
  have first: "replay (map (FilterDel (rd_name d)) stale) k = Some k1"
    unfolding k1_def
    by (rule replay_filter_dels) (use stale_keys_props [OF dist] filters in \<open>auto simp: stale_def\<close>)
  have d': "rd_name d' = rd_name d" "\<And>key. map_of (rd_filters d') key = (if key \<in> set stale then None else map_of (rd_filters d) key)"
    "distinct (map fst (rd_filters d'))" "set (rd_filters d') \<subseteq> set (rd_filters d)"
    using distinct_map_filter [OF dist] by (auto simp: d'_def map_of_filter_keys)
  have wf: "devs_wf ((pre @ [(i, d')]) @ ds)"
    using Cons.prems(2) d' unfolding x devs_wf_def by auto
  have names: "rd_name e \<noteq> rd_name d" if "(j, e) \<in> set pre \<union> set ds" for j e
  proof -
    have "distinct (map (\<lambda>(_, d). rd_name d) (pre @ (i, d) # ds))" using Cons.prems(2) unfolding x devs_wf_def by blast
    then have "rd_name d \<notin> (\<lambda>(_, d). rd_name d) ` (set pre \<union> set ds)" by auto
    then show ?thesis using that by (metis (mono_tags, lifting) case_prod_conv image_eqI)
  qed
  have rep: "dev_rep ((pre @ [(i, d')]) @ ds) k1"
  proof (rule dev_repI)
    fix j e assume y: "(j, e) \<in> set ((pre @ [(i, d')]) @ ds)"
    show "rd_name e \<in> k_hooks k1 \<and> (\<forall>key. k_filters k1 (rd_name e, key) = map_of (rd_filters e) key)"
    proof (cases "(j, e) = (i, d')")
      case True
      then show ?thesis using dev_repD [OF Cons.prems(3), of i d] d'(1,2) by (simp add: k1_def x)
    next
      case False
      then have "(j, e) \<in> set pre \<union> set ds" using y by auto
      then show ?thesis using dev_repD [OF Cons.prems(3), of j e] names [of j e] by (auto simp: k1_def x)
    qed
  next
    fix n key assume "n \<notin> (\<lambda>(_, d). rd_name d) ` set ((pre @ [(i, d')]) @ ds)"
    then have "n \<notin> (\<lambda>(_, d). rd_name d) ` set (pre @ x # ds)" using d'(1) by (auto simp: x)
    then show "k_filters k1 (n, key) = None" using Cons.prems(3) unfolding dev_rep_def by (simp add: k1_def)
  qed
  from Cons.IH [OF rest wf rep] obtain k2 where k2: "replay ls2 k1 = Some k2" "dev_rep ((pre @ [(i, d')]) @ ds2) k2"
    "devs_wf ((pre @ [(i, d')]) @ ds2)" "k_classes k2 = k_classes k1" "k_hooks k2 = k_hooks k1"
    "map fst ds2 = map fst ds" "map (\<lambda>(_, d). rd_name d) ds2 = map (\<lambda>(_, d). rd_name d) ds"
    "used_slots ((pre @ [(i, d')]) @ ds2) \<subseteq> used_slots ((pre @ [(i, d')]) @ ds)" by blast
  moreover have "used_slots ((pre @ [(i, d')]) @ ds) \<subseteq> used_slots (pre @ x # ds)"
    using d'(4) unfolding x used_slots_def by auto
  ultimately show ?case
    using first d'(1) unfolding out x by (auto simp: replay_append k1_def)
qed simp

section \<open>Step 2\<close>

text \<open>
  The record during the classes' loops: the invariant, the kernel as recorded, and
  a slot for each class that is wanted.
\<close>

definition fits :: "(int \<times> int) list \<Rightarrow> flvxRateLimiter \<Rightarrow> rate_kernel \<Rightarrow> bool" where
  "fits wc r k \<longleftrightarrow> rate_inv r \<and> represents r k \<and> fst ` set wc \<subseteq> snd ` set (rl_slots r)"

lemma class_change_lines:
  assumes "class_rep r k" and "map_of (rl_classes r) s \<noteq> None"
  shows "\<exists>k'. replay (flvxRateClassLines s rate True) k = Some k' \<and> k_filters k' = k_filters k \<and> k_hooks k' = k_hooks k
    \<and> class_rep (r\<lparr>rl_classes := AList.update s rate (rl_classes r)\<rparr>) k'"
  using assms unfolding flvxRateClassLines_def ifbs_def class_rep_def
  by (auto simp: update_conv' fun_upd_def) (metis (full_types) ifb.exhaust)+

lemma class_new_lines:
  assumes "class_rep r k"
  shows "\<exists>k'. replay (flvxRateClassLines s rate False) k = Some k' \<and> k_filters k' = k_filters k \<and> k_hooks k' = k_hooks k
    \<and> class_rep (r\<lparr>rl_classes := AList.update s rate (rl_classes r)\<rparr>) k'"
  using assms unfolding flvxRateClassLines_def ifbs_def class_rep_def
  by (auto simp: update_conv' fun_upd_def) (metis (full_types) ifb.exhaust)+

lemma class_del_lines:
  assumes "class_rep r k" and "map_of (rl_classes r) s \<noteq> None" and "\<And>dk. k_filters k dk \<noteq> Some s"
  shows "\<exists>k'. replay (map (\<lambda>i. ClassDel i s) ifbs) k = Some k' \<and> k_filters k' = k_filters k \<and> k_hooks k' = k_hooks k
    \<and> class_rep (r\<lparr>rl_classes := AList.delete s (rl_classes r)\<rparr>) k'"
  using assms unfolding ifbs_def class_rep_def
  by (auto simp: delete_conv' fun_upd_def) (metis (full_types) ifb.exhaust)+

lemma dev_rep_cong: "dev_rep ds k \<Longrightarrow> k_filters k' = k_filters k \<Longrightarrow> k_hooks k' = k_hooks k \<Longrightarrow> dev_rep ds k'"
  unfolding dev_rep_def by simp

lemma fits_classes:
  assumes "fits wc r k" and "class_rep (r\<lparr>rl_classes := cs\<rparr>) k'" and "k_filters k' = k_filters k" "k_hooks k' = k_hooks k"
    and "distinct (map fst cs)" and "fst ` set cs \<subseteq> snd ` set sl" and "used_slots (rl_devs r) \<subseteq> fst ` set cs"
    and "distinct (map fst sl)" "distinct (map snd sl)" "set sl \<subseteq> set (rl_slots r)" "fst ` set wc \<subseteq> snd ` set sl"
    and "\<And>s. map_of rel s \<noteq> None \<Longrightarrow> map_of cs s = Some flvxRateUnlimited"
  shows "fits wc (r\<lparr>rl_classes := cs, rl_slots := sl, rl_releasing := rel\<rparr>) k'"
proof -
  have inv: "rate_inv r" and rep: "dev_rep (rl_devs r) k" using assms(1) unfolding fits_def represents_def by simp_all
  have "dev_rep (rl_devs r) k'" using dev_rep_cong [OF rep] assms(3,4) by simp
  moreover have "snd ` set sl \<subseteq> {1..flvxRateMaxSlot}"
    using inv assms(10) unfolding rate_inv_def slots_wf_def by blast
  ultimately show ?thesis
    using inv assms unfolding fits_def represents_def rate_inv_def slots_wf_def releasing_wf_def class_rep_def by simp
qed

lemma fitsD:
  assumes "fits wc r k"
  shows "class_rep r k" "dev_rep (rl_devs r) k" "distinct (map fst (rl_classes r))" "releasing_wf r"
    "used_slots (rl_devs r) \<subseteq> fst ` set (rl_classes r)" "fst ` set (rl_classes r) \<subseteq> snd ` set (rl_slots r)"
    "distinct (map fst (rl_slots r))" "distinct (map snd (rl_slots r))" "fst ` set wc \<subseteq> snd ` set (rl_slots r)"
  using assms unfolding fits_def represents_def rate_inv_def slots_wf_def by simp_all

text \<open>What the loop over the classes does for one slot.\<close>

definition released :: "(int \<times> int) list \<Rightarrow> int \<Rightarrow> flvxRateLimiter \<Rightarrow> bool" where
  "released wc s r \<longleftrightarrow>
     (s \<in> fst ` set (rl_classes r) \<longrightarrow> (map_of (rl_releasing r) s = None \<longleftrightarrow> map_of wc s \<noteq> None))"

definition frame_but :: "int \<Rightarrow> flvxRateLimiter \<Rightarrow> flvxRateLimiter \<Rightarrow> bool" where
  "frame_but s r r' \<longleftrightarrow> rl_devs r' = rl_devs r
     \<and> (\<forall>t. t \<noteq> s \<longrightarrow> map_of (rl_classes r') t = map_of (rl_classes r) t \<and> map_of (rl_releasing r') t = map_of (rl_releasing r) t)"

lemma release_class_step:
  assumes fits: "fits wc r k" and s: "s \<in> fst ` set (rl_classes r)"
  shows "\<exists>k'. replay (fst (release_class now wc s r)) k = Some k' \<and> fits wc (snd (release_class now wc s r)) k'
    \<and> k_filters k' = k_filters k \<and> k_hooks k' = k_hooks k
    \<and> released wc s (snd (release_class now wc s r)) \<and> frame_but s r (snd (release_class now wc s r))"
proof -
  note D = fitsD [OF fits]
  have has: "map_of (rl_classes r) s \<noteq> None" using s by (metis map_of_eq_None_iff)
  have rel: "map_of (rl_releasing r) t \<noteq> None \<Longrightarrow> map_of (rl_classes r) t = Some flvxRateUnlimited" for t
    using D(4) unfolding releasing_wf_def by blast
  consider (wanted) "map_of wc s \<noteq> None" | (start) "map_of wc s = None" "map_of (rl_releasing r) s = None"
    | (wait) since where "map_of wc s = None" "map_of (rl_releasing r) s = Some since"
        "time_sub now since < flvxRateDrain \<or> slotHasFilters s r"
    | (drop) since where "map_of wc s = None" "map_of (rl_releasing r) s = Some since"
        "\<not> (time_sub now since < flvxRateDrain \<or> slotHasFilters s r)" by fastforce
  then show ?thesis
  proof cases
    case wanted
    have "fits wc (r\<lparr>rl_classes := rl_classes r, rl_slots := rl_slots r, rl_releasing := AList.delete s (rl_releasing r)\<rparr>) k"
      by (rule fits_classes [OF fits]) (use D rel in \<open>auto simp: delete_conv' split: if_splits\<close>)
    then show ?thesis using wanted by (auto simp: release_class_def released_def frame_but_def delete_conv')
  next
    case start
    define unlimited where "unlimited \<longleftrightarrow> map_of (rl_classes r) s = Some flvxRateUnlimited"
    define cs where "cs = (if unlimited then rl_classes r else AList.update s flvxRateUnlimited (rl_classes r))"
    have cs: "map_of cs t = (if t = s then Some flvxRateUnlimited else map_of (rl_classes r) t)" for t
      by (simp add: cs_def unlimited_def update_conv')
    have cs': "fst ` set cs = fst ` set (rl_classes r)" "distinct (map fst cs)"
      using s D(3) by (auto simp: cs_def dom_update distinct_update)
    obtain k' where k': "replay (if unlimited then [] else flvxRateClassLines s flvxRateUnlimited True) k = Some k'"
      "k_filters k' = k_filters k" "k_hooks k' = k_hooks k" "class_rep (r\<lparr>rl_classes := cs\<rparr>) k'"
      using class_change_lines [OF D(1) has] D(1) by (cases unlimited) (auto simp: cs_def)
    have "fits wc (r\<lparr>rl_classes := cs, rl_slots := rl_slots r, rl_releasing := AList.update s now (rl_releasing r)\<rparr>) k'"
      by (rule fits_classes [OF fits k'(4,2,3)]) (use D rel cs cs' in \<open>simp_all add: update_conv' split: if_splits\<close>)
    then show ?thesis using start k' cs
      by (auto simp: release_class_def released_def frame_but_def update_conv' unlimited_def [symmetric] cs_def [symmetric] Let_def)
  next
    case wait
    then show ?thesis using fits by (auto simp: release_class_def released_def frame_but_def)
  next
    case drop
    have free: "k_filters k dk \<noteq> Some s" for dk
      using dev_rep_slots [OF D(2), of "fst dk" "snd dk" s] drop(3) slotHasFilters_iff by (metis prod.collapse)
    obtain k' where k': "replay (map (\<lambda>i. ClassDel i s) ifbs) k = Some k'" "k_filters k' = k_filters k" "k_hooks k' = k_hooks k"
      "class_rep (r\<lparr>rl_classes := AList.delete s (rl_classes r)\<rparr>) k'"
      using class_del_lines [OF D(1) has free] by blast
    have cs: "fst ` set (AList.delete s (rl_classes r)) = fst ` set (rl_classes r) - {s}"
      by (metis delete_keys list.set_map set_removeAll)
    have "fits wc (r\<lparr>rl_classes := AList.delete s (rl_classes r), rl_slots := filter (\<lambda>(_, t). t \<noteq> s) (rl_slots r),
        rl_releasing := AList.delete s (rl_releasing r)\<rparr>) k'"
    proof (rule fits_classes [OF fits k'(4,2,3)])
      show "distinct (map fst (AList.delete s (rl_classes r)))" by (rule distinct_delete [OF D(3)])
      show "fst ` set (AList.delete s (rl_classes r)) \<subseteq> snd ` set (filter (\<lambda>(_, t). t \<noteq> s) (rl_slots r))"
        using D(6) unfolding cs by force
      show "used_slots (rl_devs r) \<subseteq> fst ` set (AList.delete s (rl_classes r))"
        using D(5) drop(3) unfolding cs slotHasFilters_iff by blast
      show "distinct (map fst (filter (\<lambda>(_, t). t \<noteq> s) (rl_slots r)))" "distinct (map snd (filter (\<lambda>(_, t). t \<noteq> s) (rl_slots r)))"
        using D(7,8) by (simp_all add: distinct_map_filter)
      show "set (filter (\<lambda>(_, t). t \<noteq> s) (rl_slots r)) \<subseteq> set (rl_slots r)" by simp
      have "s \<notin> fst ` set wc" using drop(1) by (metis map_of_eq_None_iff)
      then show "fst ` set wc \<subseteq> snd ` set (filter (\<lambda>(_, t). t \<noteq> s) (rl_slots r))" using D(9) by force
    qed (use rel in \<open>auto simp: delete_conv' split: if_splits\<close>)
    then show ?thesis using drop k' cs
      by (auto simp: release_class_def released_def frame_but_def delete_conv')
  qed
qed

lemma release_classes_run:
  assumes "fits wc r k" and "distinct ss" and "set ss \<subseteq> fst ` set (rl_classes r)"
  shows "\<exists>k'. replay (fst (emit_all (release_class now wc) ss r)) k = Some k' \<and> fits wc (snd (emit_all (release_class now wc) ss r)) k'
    \<and> k_hooks k' = k_hooks k \<and> rl_devs (snd (emit_all (release_class now wc) ss r)) = rl_devs r
    \<and> (\<forall>s \<in> set ss. released wc s (snd (emit_all (release_class now wc) ss r)))
    \<and> (\<forall>s. s \<notin> set ss \<longrightarrow> map_of (rl_classes (snd (emit_all (release_class now wc) ss r))) s = map_of (rl_classes r) s
         \<and> map_of (rl_releasing (snd (emit_all (release_class now wc) ss r))) s = map_of (rl_releasing r) s)"
  using assms
proof (induction ss arbitrary: r k)
  case (Cons s ss)
  define r1 where "r1 = snd (release_class now wc s r)"
  define r2 where "r2 = snd (emit_all (release_class now wc) ss r1)"
  have "s \<in> fst ` set (rl_classes r)" using Cons.prems(3) by simp
  from release_class_step [OF Cons.prems(1) this, of now]
  obtain k1 where k1: "replay (fst (release_class now wc s r)) k = Some k1" "fits wc r1 k1" "k_hooks k1 = k_hooks k"
    "released wc s r1" "frame_but s r r1"
    unfolding r1_def [symmetric] by (elim exE conjE)
  have same: "map_of (rl_classes r1) t = map_of (rl_classes r) t" "map_of (rl_releasing r1) t = map_of (rl_releasing r) t" if "t \<noteq> s" for t
    using k1(5) that unfolding frame_but_def by simp_all
  have "set ss \<subseteq> fst ` set (rl_classes r1)"
  proof
    fix t assume t: "t \<in> set ss"
    then have "t \<noteq> s" "t \<in> fst ` set (rl_classes r)" using Cons.prems(2,3) by auto
    then show "t \<in> fst ` set (rl_classes r1)" using same(1) by (metis map_of_eq_None_iff)
  qed
  with Cons.IH [OF k1(2)] Cons.prems(2) obtain k2 where k2: "replay (fst (emit_all (release_class now wc) ss r1)) k1 = Some k2"
    "fits wc r2 k2" "k_hooks k2 = k_hooks k1" "rl_devs r2 = rl_devs r1" "\<forall>s \<in> set ss. released wc s r2"
    and frame: "\<forall>s. s \<notin> set ss \<longrightarrow> map_of (rl_classes r2) s = map_of (rl_classes r1) s \<and> map_of (rl_releasing r2) s = map_of (rl_releasing r1) s"
    unfolding r2_def [symmetric] by auto
  have out: "emit_all (release_class now wc) (s # ss) r
      = (fst (release_class now wc s r) @ fst (emit_all (release_class now wc) ss r1), r2)"
    by (simp add: r1_def r2_def split: prod.splits)
  have "s \<notin> set ss" using Cons.prems(2) by simp
  then have "map_of (rl_classes r2) s = map_of (rl_classes r1) s" "map_of (rl_releasing r2) s = map_of (rl_releasing r1) s"
    using frame by simp_all
  then have "released wc s r2" using k1(4) unfolding released_def by (metis map_of_eq_None_iff)
  moreover have "rl_devs r2 = rl_devs r" using k2(4) k1(5) unfolding frame_but_def by simp
  ultimately show ?case
    using k1 k2 frame same unfolding out by (simp add: replay_append)
qed simp

section \<open>Step 2, second loop: the classes that are wanted\<close>

definition settled :: "(int \<times> int) list \<Rightarrow> flvxRateLimiter \<Rightarrow> bool" where
  "settled wc r \<longleftrightarrow> (\<forall>s. map_of wc s \<noteq> None \<longrightarrow> map_of (rl_releasing r) s = None)"

lemma set_class_step:
  assumes fits: "fits wc r k" and s: "map_of wc s = Some rate" and settled: "settled wc r"
  shows "\<exists>k'. replay (fst (set_class wc s r)) k = Some k' \<and> fits wc (snd (set_class wc s r)) k'
    \<and> k_hooks k' = k_hooks k \<and> rl_devs (snd (set_class wc s r)) = rl_devs r
    \<and> rl_releasing (snd (set_class wc s r)) = rl_releasing r \<and> rl_slots (snd (set_class wc s r)) = rl_slots r
    \<and> map_of (rl_classes (snd (set_class wc s r))) = (map_of (rl_classes r))(s \<mapsto> rate)"
proof (cases "map_of (rl_classes r) s = Some rate")
  case True
  then have "map_of (rl_classes r) = (map_of (rl_classes r))(s \<mapsto> rate)" by auto
  then show ?thesis using fits True s by (simp add: set_class_def)
next
  case False
  note D = fitsD [OF fits]
  let ?cs = "AList.update s rate (rl_classes r)"
  obtain k' where k': "replay (flvxRateClassLines s rate (map_of (rl_classes r) s \<noteq> None)) k = Some k'"
    "k_filters k' = k_filters k" "k_hooks k' = k_hooks k" "class_rep (r\<lparr>rl_classes := ?cs\<rparr>) k'"
  proof (cases "map_of (rl_classes r) s = None")
    case True
    then show ?thesis using that class_new_lines [OF D(1), of s rate] by auto
  next
    case False
    then show ?thesis using that class_change_lines [OF D(1) False, of rate] by auto
  qed
  have slot: "s \<in> snd ` set (rl_slots r)" using s D(9) by (metis map_of_eq_None_iff option.distinct(1) subsetD)
  have "fits wc (r\<lparr>rl_classes := ?cs, rl_slots := rl_slots r, rl_releasing := rl_releasing r\<rparr>) k'"
  proof (rule fits_classes [OF fits k'(4,2,3)])
    show "distinct (map fst ?cs)" by (rule distinct_update [OF D(3)])
    show "fst ` set ?cs \<subseteq> snd ` set (rl_slots r)" using D(6) slot by (simp add: dom_update)
    show "used_slots (rl_devs r) \<subseteq> fst ` set ?cs" using D(5) by (auto simp: dom_update)
    fix t assume "map_of (rl_releasing r) t \<noteq> None"
    then have "t \<noteq> s" "map_of (rl_classes r) t = Some flvxRateUnlimited"
      using settled s D(4) unfolding settled_def releasing_wf_def by auto
    then show "map_of ?cs t = Some flvxRateUnlimited" by (simp add: update_conv')
  qed (use D in auto)
  then show ?thesis using False s k' by (simp add: set_class_def update_conv')
qed

lemma set_classes_run:
  assumes "fits wc r k" and "settled wc r" and "\<And>s. s \<in> set ss \<Longrightarrow> map_of wc s \<noteq> None"
  shows "\<exists>k'. replay (fst (emit_all (set_class wc) ss r)) k = Some k' \<and> fits wc (snd (emit_all (set_class wc) ss r)) k'
    \<and> k_hooks k' = k_hooks k \<and> rl_devs (snd (emit_all (set_class wc) ss r)) = rl_devs r
    \<and> rl_releasing (snd (emit_all (set_class wc) ss r)) = rl_releasing r
    \<and> rl_slots (snd (emit_all (set_class wc) ss r)) = rl_slots r
    \<and> (\<forall>s. map_of (rl_classes (snd (emit_all (set_class wc) ss r))) s = (if s \<in> set ss then map_of wc s else map_of (rl_classes r) s))"
  using assms
proof (induction ss arbitrary: r k)
  case (Cons s ss)
  define r1 where "r1 = snd (set_class wc s r)"
  define r2 where "r2 = snd (emit_all (set_class wc) ss r1)"
  obtain rate where rate: "map_of wc s = Some rate" using Cons.prems(3) by fastforce
  from set_class_step [OF Cons.prems(1) rate Cons.prems(2)]
  obtain k1 where k1: "replay (fst (set_class wc s r)) k = Some k1" "fits wc r1 k1" "k_hooks k1 = k_hooks k" "rl_devs r1 = rl_devs r"
    "rl_releasing r1 = rl_releasing r" "rl_slots r1 = rl_slots r" "map_of (rl_classes r1) = (map_of (rl_classes r))(s \<mapsto> rate)"
    unfolding r1_def [symmetric] by (elim exE conjE)
  have "settled wc r1" using Cons.prems(2) k1(5) unfolding settled_def by simp
  from Cons.IH [OF k1(2) this] Cons.prems(3) obtain k2 where k2: "replay (fst (emit_all (set_class wc) ss r1)) k1 = Some k2"
    "fits wc r2 k2" "k_hooks k2 = k_hooks k1" "rl_devs r2 = rl_devs r1" "rl_releasing r2 = rl_releasing r1" "rl_slots r2 = rl_slots r1"
    "\<forall>s. map_of (rl_classes r2) s = (if s \<in> set ss then map_of wc s else map_of (rl_classes r1) s)"
    unfolding r2_def [symmetric] by auto
  have out: "emit_all (set_class wc) (s # ss) r = (fst (set_class wc s r) @ fst (emit_all (set_class wc) ss r1), r2)"
    by (simp add: r1_def r2_def split: prod.splits)
  show ?case using k1 k2 rate unfolding out by (simp add: replay_append)
qed simp

section \<open>Step 3\<close>

lemma update_new: "map_of ds i = None \<Longrightarrow> AList.update i d ds = ds @ [(i, d)]"
  by (induction ds) (auto split: if_splits)

lemma set_update_old:
  "distinct (map fst ds) \<Longrightarrow> map_of ds i = Some d \<Longrightarrow> set (AList.update i d' ds) = insert (i, d') (set ds - {(i, d)})"
proof (induction ds)
  case (Cons x ds)
  obtain j e where x: "x = (j, e)" by fastforce
  show ?case
  proof (cases "j = i")
    case True
    then have "e = d" and "(i, d) \<notin> set ds" using Cons.prems unfolding x by force+
    then show ?thesis unfolding x by (auto simp: True)
  next
    case False
    then show ?thesis using Cons unfolding x by auto
  qed
qed simp

lemma names_update_old:
  "map_of ds i = Some d \<Longrightarrow> rd_name d' = rd_name d \<Longrightarrow>
     map (\<lambda>(_, d). rd_name d) (AList.update i d' ds) = map (\<lambda>(_, d). rd_name d) ds"
  by (induction ds) (auto split: if_splits)

lemma keys_update_old: "map_of ds i = Some d \<Longrightarrow> map fst (AList.update i d' ds) = map fst ds"
  by (induction ds) (auto split: if_splits)

lemma fits_devs:
  assumes "fits wc r k" and "dev_rep ds k'" and "devs_wf ds" and "used_slots ds \<subseteq> fst ` set (rl_classes r)"
    and "k_classes k' = k_classes k"
  shows "fits wc (r\<lparr>rl_devs := ds\<rparr>) k'"
  using assms unfolding fits_def represents_def rate_inv_def slots_wf_def releasing_wf_def class_rep_def by simp

lemma name_inj:
  assumes "devs_wf ds" and "(i, d) \<in> set ds" and "(j, e) \<in> set ds" and "rd_name d = rd_name e"
  shows "(i, d) = (j, e)"
proof -
  have "inj_on (\<lambda>(_, d). rd_name d) (set ds)" using assms(1) unfolding devs_wf_def by (simp add: distinct_map)
  then show ?thesis using assms unfolding inj_on_def by fastforce
qed

lemma set_filter_step:
  assumes fits: "fits wc r k" and d: "map_of (rl_devs r) i = Some d" "rd_name d = dev"
    and slot: "map_of wfs key = Some slot" "slot \<in> fst ` set (rl_classes r)"
  shows "\<exists>k' d'. replay (fst (set_filter i dev wfs key r)) k = Some k' \<and> k_hooks k' = k_hooks k
    \<and> k_filters k' = (k_filters k)((dev, key) \<mapsto> slot)
    \<and> snd (set_filter i dev wfs key r) = r\<lparr>rl_devs := AList.update i d' (rl_devs r)\<rparr>
    \<and> fits wc (r\<lparr>rl_devs := AList.update i d' (rl_devs r)\<rparr>) k'
    \<and> rd_name d' = dev \<and> map_of (rd_filters d') = (map_of (rd_filters d))(key \<mapsto> slot)"
proof (cases "map_of (rd_filters d) key = Some slot")
  case True
  have "AList.update i d (rl_devs r) = rl_devs r" by (rule update_triv [OF d(1)])
  moreover have "(map_of (rd_filters d))(key \<mapsto> slot) = map_of (rd_filters d)" using True by auto
  moreover have "k_filters k (dev, key) = Some slot"
    using dev_repD(2) [OF fitsD(2) [OF fits] map_of_SomeD [OF d(1)]] d(2) True by simp
  then have "(k_filters k)((dev, key) \<mapsto> slot) = k_filters k" by auto
  ultimately show ?thesis using fits True d slot(1) by (auto simp: set_filter_def intro!: exI [of _ d])
next
  case False
  note D = fitsD [OF fits]
  define d' where "d' = d\<lparr>rd_filters := AList.update key slot (rd_filters d)\<rparr>"
  define k' where "k' = k\<lparr>k_filters := (k_filters k)((dev, key) \<mapsto> slot)\<rparr>"
  define ds where "ds = AList.update i d' (rl_devs r)"
  have wf: "devs_wf (rl_devs r)" using fits unfolding fits_def rate_inv_def by blast
  have mem: "(i, d) \<in> set (rl_devs r)" by (rule map_of_SomeD [OF d(1)])
  have d': "rd_name d' = dev" "map_of (rd_filters d') = (map_of (rd_filters d))(key \<mapsto> slot)"
    by (simp_all add: d'_def d(2) update_conv')
  have set: "set ds = insert (i, d') (set (rl_devs r) - {(i, d)})"
    unfolding ds_def by (rule set_update_old [OF _ d(1)]) (use wf in \<open>simp add: devs_wf_def\<close>)
  have names: "map (\<lambda>(_, d). rd_name d) ds = map (\<lambda>(_, d). rd_name d) (rl_devs r)"
    unfolding ds_def by (rule names_update_old [OF d(1)]) (simp add: d' d(2))
  have "distinct (map fst (rd_filters d'))"
    using wf mem distinct_update [of "rd_filters d"] unfolding devs_wf_def d'_def by fastforce
  then have wf': "devs_wf ds"
    using wf set names keys_update_old [OF d(1), of d'] unfolding devs_wf_def ds_def by auto
  have line: "replay [FilterReplace dev key slot] k = Some k'"
  proof -
    have "dev \<in> k_hooks k" using dev_repD(1) [OF D(2) mem] d(2) by simp
    moreover have "k_classes k (filter_target key, slot) \<noteq> None"
      using D(1) slot(2) unfolding class_rep_def by (metis map_of_eq_None_iff)
    ultimately show ?thesis by (simp add: k'_def)
  qed
  have rep: "dev_rep ds k'"
  proof (rule dev_repI)
    fix j e assume je: "(j, e) \<in> set ds"
    show "rd_name e \<in> k_hooks k' \<and> (\<forall>q. k_filters k' (rd_name e, q) = map_of (rd_filters e) q)"
    proof (cases "(j, e) = (i, d')")
      case True
      then show ?thesis using dev_repD [OF D(2) mem] d(2) d' by (simp add: k'_def)
    next
      case False
      then have old: "(j, e) \<in> set (rl_devs r)" "(j, e) \<noteq> (i, d)" using je set by auto
      then have "rd_name e \<noteq> dev" using name_inj [OF wf old(1) mem] d(2) by auto
      then show ?thesis using dev_repD [OF D(2) old(1)] by (simp add: k'_def)
    qed
  next
    fix n q assume "n \<notin> (\<lambda>(_, d). rd_name d) ` set ds"
    then have n: "n \<notin> (\<lambda>(_, d). rd_name d) ` set (rl_devs r)" using names by (metis list.set_map)
    then have "n \<noteq> dev" using mem d(2) by force
    then show "k_filters k' (n, q) = None" using D(2) n unfolding dev_rep_def by (simp add: k'_def)
  qed
  have "snd ` set (rd_filters d') \<subseteq> insert slot (snd ` set (rd_filters d))"
  proof -
    have "set (AList.update key slot fs) \<subseteq> insert (key, slot) (set fs)" for fs by (induction fs) auto
    then show ?thesis unfolding d'_def by force
  qed
  moreover have "snd ` set (rd_filters e) \<subseteq> used_slots (rl_devs r)" if "(j, e) \<in> set (rl_devs r)" for j e
    using that unfolding used_slots_def by auto
  ultimately have "used_slots ds \<subseteq> insert slot (used_slots (rl_devs r))"
    using mem unfolding used_slots_def [of ds] set by blast
  then have "used_slots ds \<subseteq> fst ` set (rl_classes r)" using D(5) slot(2) by blast
  then have "fits wc (r\<lparr>rl_devs := ds\<rparr>) k'" by (rule fits_devs [OF fits rep wf']) (simp add: k'_def)
  then show ?thesis using False d slot(1) line d' unfolding ds_def
    by (auto simp: set_filter_def d'_def [symmetric] k'_def intro!: exI [of _ d'])
qed

lemma set_filters_run:
  assumes "fits wc r k" and "map_of (rl_devs r) i = Some d" and "rd_name d = dev"
    and "\<forall>key \<in> set keys. \<exists>slot. map_of wfs key = Some slot \<and> slot \<in> fst ` set (rl_classes r)"
  shows "\<exists>k' d'. replay (fst (emit_all (set_filter i dev wfs) keys r)) k = Some k' \<and> k_hooks k' = k_hooks k
    \<and> k_filters k' = (\<lambda>(m, q). if m = dev \<and> q \<in> set keys then map_of wfs q else k_filters k (m, q))
    \<and> snd (emit_all (set_filter i dev wfs) keys r) = r\<lparr>rl_devs := AList.update i d' (rl_devs r)\<rparr>
    \<and> fits wc (r\<lparr>rl_devs := AList.update i d' (rl_devs r)\<rparr>) k' \<and> rd_name d' = dev"
  using assms
proof (induction keys arbitrary: r k d)
  case Nil
  have "AList.update i d (rl_devs r) = rl_devs r" by (rule update_triv [OF Nil.prems(2)])
  then show ?case using Nil by (auto intro!: exI [of _ d])
next
  case (Cons key keys)
  obtain slot where slot: "map_of wfs key = Some slot" "slot \<in> fst ` set (rl_classes r)" using Cons.prems(4) by fastforce
  from set_filter_step [OF Cons.prems(1-3) slot]
  obtain k1 d1 where k1: "replay (fst (set_filter i dev wfs key r)) k = Some k1" "k_hooks k1 = k_hooks k"
    "k_filters k1 = (k_filters k)((dev, key) \<mapsto> slot)"
    "snd (set_filter i dev wfs key r) = r\<lparr>rl_devs := AList.update i d1 (rl_devs r)\<rparr>"
    "fits wc (r\<lparr>rl_devs := AList.update i d1 (rl_devs r)\<rparr>) k1" "rd_name d1 = dev" by (elim exE conjE)
  let ?r1 = "r\<lparr>rl_devs := AList.update i d1 (rl_devs r)\<rparr>"
  have "map_of (rl_devs ?r1) i = Some d1" by (simp add: update_conv')
  from Cons.IH [OF k1(5) this k1(6)] Cons.prems(4)
  obtain k2 d2 where k2: "replay (fst (emit_all (set_filter i dev wfs) keys ?r1)) k1 = Some k2" "k_hooks k2 = k_hooks k1"
    "k_filters k2 = (\<lambda>(m, q). if m = dev \<and> q \<in> set keys then map_of wfs q else k_filters k1 (m, q))"
    "snd (emit_all (set_filter i dev wfs) keys ?r1) = r\<lparr>rl_devs := AList.update i d2 (rl_devs r)\<rparr>"
    "fits wc (r\<lparr>rl_devs := AList.update i d2 (rl_devs r)\<rparr>) k2" "rd_name d2 = dev" by auto
  have "k_filters k2 = (\<lambda>(m, q). if m = dev \<and> q \<in> set (key # keys) then map_of wfs q else k_filters k (m, q))"
    unfolding k2(3) k1(3) using slot(1) by (auto simp: fun_eq_iff)
  then show ?case using k1(1,2) k2(1,2,4,5,6)
    unfolding emit_all_Cons k1(4) replay_append by (intro exI [of _ k2] exI [of _ d2]) simp
qed

definition devs_fit :: "(string \<rightharpoonup> string) option \<Rightarrow> (int \<times> string) list \<Rightarrow> flvxRateLimiter \<Rightarrow> rate_kernel \<Rightarrow> bool" where
  "devs_fit hooked ds r k \<longleftrightarrow>
     distinct (map fst ds) \<and> distinct (map snd ds)
     \<and> (\<forall>(i, name) \<in> set ds. \<forall>d. map_of (rl_devs r) i = Some d \<longrightarrow> rd_name d = name)
     \<and> (\<forall>(i, name) \<in> set ds. map_of (rl_devs r) i = None \<longrightarrow> name \<notin> (\<lambda>(_, d). rd_name d) ` set (rl_devs r))
     \<and> (\<forall>h. hooked = Some h \<longrightarrow> (\<forall>(i, name) \<in> set ds. name \<in> k_hooks k \<longleftrightarrow> h name \<noteq> None \<and> h name \<noteq> Some ''ingress''))"

lemma devs_fit_tail:
  assumes "devs_fit hooked ((i, name) # ds) r k"
    and r': "rl_devs r' = AList.update i d' (rl_devs r)" and "rd_name d' = name"
    and k': "k_hooks k' = k_hooks k \<or> k_hooks k' = insert name (k_hooks k)"
  shows "devs_fit hooked ds r' k'"
proof -
  have other: "j \<noteq> i" "n \<noteq> name" if "(j, n) \<in> set ds" for j n
  proof -
    have "i \<notin> fst ` set ds" "name \<notin> snd ` set ds" using assms(1) unfolding devs_fit_def by simp_all
    then show "j \<noteq> i" "n \<noteq> name" using that by (auto simp: image_iff)
  qed
  have same: "map_of (rl_devs r') j = map_of (rl_devs r) j" if "(j, n) \<in> set ds" for j n
    using other [OF that] unfolding r' by (simp add: update_conv')
  have "set (AList.update i d' xs) \<subseteq> insert (i, d') (set xs)" for xs by (induction xs) auto
  then have names: "(\<lambda>(_, d). rd_name d) ` set (rl_devs r') \<subseteq> insert name ((\<lambda>(_, d). rd_name d) ` set (rl_devs r))"
    using assms(3) unfolding r' by fastforce
  have hooks: "n \<in> k_hooks k' \<longleftrightarrow> n \<in> k_hooks k" if "(j, n) \<in> set ds" for j n
    using k' other [OF that] by auto
  show ?thesis
    unfolding devs_fit_def
  proof (intro conjI ballI allI impI)
    show "distinct (map fst ds)" "distinct (map snd ds)" using assms(1) unfolding devs_fit_def by simp_all
  next
    fix y assume y: "y \<in> set ds"
    obtain j n where jn: "y = (j, n)" by fastforce
    have old: "\<forall>d. map_of (rl_devs r) j = Some d \<longrightarrow> rd_name d = n"
      "map_of (rl_devs r) j = None \<longrightarrow> n \<notin> (\<lambda>(_, d). rd_name d) ` set (rl_devs r)"
      using assms(1) y unfolding devs_fit_def jn by auto
    show "case y of (i, name) \<Rightarrow> \<forall>d. map_of (rl_devs r') i = Some d \<longrightarrow> rd_name d = name"
      using old(1) same y unfolding jn by simp
    show "case y of (i, name) \<Rightarrow> map_of (rl_devs r') i = None \<longrightarrow> name \<notin> (\<lambda>(_, d). rd_name d) ` set (rl_devs r')"
    proof -
      have mem: "(j, n) \<in> set ds" using y unfolding jn .
      have "n \<notin> (\<lambda>(_, d). rd_name d) ` set (rl_devs r')" if "map_of (rl_devs r) j = None"
        using old(2) that names other(2) [OF mem] by blast
      then show ?thesis using same [OF mem] unfolding jn by simp
    qed
  next
    fix h y assume "hooked = Some h" and y: "y \<in> set ds"
    then show "case y of (i, name) \<Rightarrow> (name \<in> k_hooks k') = (h name \<noteq> None \<and> h name \<noteq> Some ''ingress'')"
      using assms(1) hooks unfolding devs_fit_def by auto
  qed
qed

lemma new_device_fits:
  assumes fits: "fits wc r k" and new: "map_of (rl_devs r) i = None" "name \<notin> (\<lambda>(_, d). rd_name d) ` set (rl_devs r)"
    and hook: "name \<in> k_hooks k"
  shows "fits wc (r\<lparr>rl_devs := AList.update i \<lparr>rd_name = name, rd_filters = []\<rparr> (rl_devs r)\<rparr>) k"
proof (rule fits_devs [OF fits])
  note D = fitsD [OF fits]
  have app: "AList.update i \<lparr>rd_name = name, rd_filters = []\<rparr> (rl_devs r) = rl_devs r @ [(i, \<lparr>rd_name = name, rd_filters = []\<rparr>)]"
    by (rule update_new [OF new(1)])
  have none: "k_filters k (name, key) = None" for key using D(2) new(2) unfolding dev_rep_def by blast
  show "dev_rep (AList.update i \<lparr>rd_name = name, rd_filters = []\<rparr> (rl_devs r)) k"
    unfolding app
  proof (rule dev_repI)
    fix j e assume "(j, e) \<in> set (rl_devs r @ [(i, \<lparr>rd_name = name, rd_filters = []\<rparr>)])"
    then show "rd_name e \<in> k_hooks k \<and> (\<forall>key. k_filters k (rd_name e, key) = map_of (rd_filters e) key)"
      using dev_repD [OF D(2), of j e] hook none by auto
  next
    fix n key assume "n \<notin> (\<lambda>(_, d). rd_name d) ` set (rl_devs r @ [(i, \<lparr>rd_name = name, rd_filters = []\<rparr>)])"
    then show "k_filters k (n, key) = None" using D(2) unfolding dev_rep_def by simp
  qed
  have wf: "devs_wf (rl_devs r)" using fits unfolding fits_def rate_inv_def by blast
  have "i \<notin> fst ` set (rl_devs r)" using new(1) by (metis map_of_eq_None_iff)
  then show "devs_wf (AList.update i \<lparr>rd_name = name, rd_filters = []\<rparr> (rl_devs r))"
    using wf new(2) unfolding app devs_wf_def by auto
  show "used_slots (AList.update i \<lparr>rd_name = name, rd_filters = []\<rparr> (rl_devs r)) \<subseteq> fst ` set (rl_classes r)"
    using D(5) unfolding app used_slots_def by auto
qed simp

lemma sorted_keys_set: "set (sorted_keys fs) = fst ` set fs"
  by (simp add: sorted_keys_def)

lemma add_devs_run:
  assumes "add_devs hooked wfs ds r = Inr (ls, r')" and "fits wc r k" and "devs_fit hooked ds r k"
    and wanted: "\<And>key slot. map_of wfs key = Some slot \<Longrightarrow> slot \<in> fst ` set (rl_classes r)"
  shows "\<exists>k'. replay ls k = Some k' \<and> fits wc r' k'
    \<and> k_filters k' = (\<lambda>(m, q). if m \<in> snd ` set ds \<and> map_of wfs q \<noteq> None then map_of wfs q else k_filters k (m, q))
    \<and> rl_classes r' = rl_classes r \<and> rl_releasing r' = rl_releasing r \<and> rl_slots r' = rl_slots r"
  using assms
proof (induction ds arbitrary: ls r' r k)
  case Nil
  then show ?case by auto
next
  case (Cons x ds)
  obtain i name where x: "x = (i, name)" by fastforce
  have keys: "\<exists>slot. map_of wfs key = Some slot \<and> slot \<in> fst ` set (rl_classes r)" if "key \<in> set (sorted_keys wfs)" for key
    using that Cons.prems(4) unfolding sorted_keys_set by (metis map_of_eq_None_iff not_None_eq)
  have in_keys: "q \<in> set (sorted_keys wfs) \<longleftrightarrow> map_of wfs q \<noteq> None" for q
    unfolding sorted_keys_set by (metis map_of_eq_None_iff)
  \<comment> \<open>from the record with a device of this name on, both cases are alike\<close>
  have step: "\<exists>k'. replay (hook @ fst (emit_all (set_filter i name wfs) (sorted_keys wfs) r0) @ ls2) k = Some k' \<and> fits wc r' k'
      \<and> k_filters k' = (\<lambda>(m, q). if m \<in> snd ` set (x # ds) \<and> map_of wfs q \<noteq> None then map_of wfs q else k_filters k (m, q))
      \<and> rl_classes r' = rl_classes r \<and> rl_releasing r' = rl_releasing r \<and> rl_slots r' = rl_slots r"
    if r0: "r0 = r\<lparr>rl_devs := AList.update i d (rl_devs r)\<rparr>" and name: "rd_name d = name"
      and hook: "replay hook k = Some k0" and k0: "k_filters k0 = k_filters k" "k_hooks k0 = k_hooks k \<or> k_hooks k0 = insert name (k_hooks k)"
      and fits: "fits wc r0 k0"
      and rest: "add_devs hooked wfs ds (snd (emit_all (set_filter i name wfs) (sorted_keys wfs) r0)) = Inr (ls2, r')"
    for hook r0 d k0 ls2
  proof -
    have d: "map_of (rl_devs r0) i = Some d" unfolding r0 by (simp add: update_conv')
    have keys0: "\<forall>key \<in> set (sorted_keys wfs). \<exists>slot. map_of wfs key = Some slot \<and> slot \<in> fst ` set (rl_classes r0)"
      using keys unfolding r0 by simp
    from set_filters_run [where keys = "sorted_keys wfs", OF fits d name keys0]
    obtain k1 d1 where k1: "replay (fst (emit_all (set_filter i name wfs) (sorted_keys wfs) r0)) k0 = Some k1" "k_hooks k1 = k_hooks k0"
      "k_filters k1 = (\<lambda>(m, q). if m = name \<and> q \<in> set (sorted_keys wfs) then map_of wfs q else k_filters k0 (m, q))"
      "snd (emit_all (set_filter i name wfs) (sorted_keys wfs) r0) = r0\<lparr>rl_devs := AList.update i d1 (rl_devs r0)\<rparr>"
      "fits wc (r0\<lparr>rl_devs := AList.update i d1 (rl_devs r0)\<rparr>) k1" "rd_name d1 = name" by (elim exE conjE)
    define r1 where "r1 = r0\<lparr>rl_devs := AList.update i d1 (rl_devs r0)\<rparr>"
    have "devs_fit hooked ds r1 k1"
      by (rule devs_fit_tail [OF Cons.prems(3) [unfolded x] _ k1(6)]) (use k0(2) k1(2) in \<open>simp_all add: r1_def r0\<close>)
    from Cons.IH [OF rest [unfolded k1(4), folded r1_def] k1(5) [folded r1_def] this] Cons.prems(4)
    obtain k2 where k2: "replay ls2 k1 = Some k2" "fits wc r' k2"
      "k_filters k2 = (\<lambda>(m, q). if m \<in> snd ` set ds \<and> map_of wfs q \<noteq> None then map_of wfs q else k_filters k1 (m, q))"
      "rl_classes r' = rl_classes r" "rl_releasing r' = rl_releasing r" "rl_slots r' = rl_slots r"
      by (auto simp: r1_def r0)
    have "k_filters k2 = (\<lambda>(m, q). if m \<in> snd ` set (x # ds) \<and> map_of wfs q \<noteq> None then map_of wfs q else k_filters k (m, q))"
      unfolding k2(3) k1(3) k0(1) in_keys x by (auto simp: fun_eq_iff)
    then show ?thesis using hook k1(1) k2 by (simp add: replay_append)
  qed
  show ?case
  proof (cases "map_of (rl_devs r) i")
    case (Some d)
    have name: "rd_name d = name" using Cons.prems(3) Some unfolding devs_fit_def x by auto
    have same: "r = r\<lparr>rl_devs := AList.update i d (rl_devs r)\<rparr>" using update_triv [OF Some] by simp
    obtain ls2 where ls2: "add_devs hooked wfs ds (snd (emit_all (set_filter i name wfs) (sorted_keys wfs) r)) = Inr (ls2, r')"
      "ls = [] @ fst (emit_all (set_filter i name wfs) (sorted_keys wfs) r) @ ls2"
      using Cons.prems(1) Some name unfolding x by (auto split: prod.splits sum.splits)
    show ?thesis unfolding ls2(2)
      by (rule step [OF same name _ _ _ Cons.prems(2) ls2(1), where hook = "[]"]) simp_all
  next
    case None
    show ?thesis
    proof (cases "wfs = []")
      case True
      have "devs_fit hooked ds r k" using Cons.prems(3) unfolding devs_fit_def by auto
      then show ?thesis using Cons.IH [OF _ Cons.prems(2)] Cons.prems(1) None True unfolding x by auto
    next
      case False
      define r0 where "r0 = r\<lparr>rl_devs := AList.update i \<lparr>rd_name = name, rd_filters = []\<rparr> (rl_devs r)\<rparr>"
      obtain h where h: "hooked = Some h" "h name \<noteq> Some ''ingress''"
        using Cons.prems(1) None False unfolding x by (auto split: option.splits if_splits)
      obtain ls2 where ls2: "add_devs hooked wfs ds (snd (emit_all (set_filter i name wfs) (sorted_keys wfs) r0)) = Inr (ls2, r')"
        "ls = (if h name = None then [ClsactAdd name] else []) @ fst (emit_all (set_filter i name wfs) (sorted_keys wfs) r0) @ ls2"
        using Cons.prems(1) None False h unfolding x r0_def by (auto simp: Let_def split: prod.splits sum.splits)
      define k0 where "k0 = k\<lparr>k_hooks := insert name (k_hooks k)\<rparr>"
      have hook: "replay (if h name = None then [ClsactAdd name] else []) k = Some k0"
        using Cons.prems(3) h unfolding devs_fit_def x k0_def by (auto simp: insert_absorb)
      have "name \<notin> (\<lambda>(_, d). rd_name d) ` set (rl_devs r)" using Cons.prems(3) None unfolding devs_fit_def x by auto
      moreover have "fits wc r k0"
        using Cons.prems(2) unfolding fits_def represents_def dev_rep_def class_rep_def k0_def by auto
      ultimately have "fits wc r0 k0" unfolding r0_def by (intro new_device_fits [OF _ None]) (simp_all add: k0_def)
      then show ?thesis unfolding ls2(2)
        by (intro step [OF r0_def _ hook _ _ _ ls2(1)]) (simp_all add: k0_def)
    qed
  qed
qed

section \<open>A whole batch\<close>

text \<open>The devices scan selects: each index and name once, and the recorded ones kept their name.\<close>

definition scan_fits :: "(string \<rightharpoonup> string) option \<Rightarrow> flvxRateScan \<Rightarrow> flvxRateLimiter \<Rightarrow> rate_kernel \<Rightarrow> bool" where
  "scan_fits hooked scan r k \<longleftrightarrow>
     distinct (map fst (sc_devs scan)) \<and> distinct (map snd (sc_devs scan))
     \<and> (\<forall>(i, d) \<in> set (rl_devs r). map_of (sc_devs scan) i = Some (rd_name d))
     \<and> (\<forall>h. hooked = Some h \<longrightarrow> (\<forall>name. name \<in> k_hooks k \<longleftrightarrow> h name \<noteq> None \<and> h name \<noteq> Some ''ingress''))"

lemma scan_fits_devs:
  assumes "scan_fits hooked scan r k" and "k_hooks k' = k_hooks k" and "rl_devs r' = ds"
    and "map fst ds = map fst (rl_devs r)" "map (\<lambda>(_, d). rd_name d) ds = map (\<lambda>(_, d). rd_name d) (rl_devs r)"
  shows "devs_fit hooked (sort_key fst (sc_devs scan)) r' k'"
proof -
  have rec: "map_of (sc_devs scan) i = Some (rd_name d)" if mem: "(i, d) \<in> set ds" for i d
  proof -
    obtain n where n: "n < length ds" "ds ! n = (i, d)" using mem unfolding in_set_conv_nth by blast
    have len: "n < length (rl_devs r)" using n(1) arg_cong [OF assms(4), of length] by simp
    obtain j e where old: "rl_devs r ! n = (j, e)" by fastforce
    have "j = i" using n len old arg_cong [OF assms(4), of "\<lambda>xs. xs ! n"] by simp
    moreover have "rd_name e = rd_name d" using n len old arg_cong [OF assms(5), of "\<lambda>xs. xs ! n"] by simp
    moreover have "(j, e) \<in> set (rl_devs r)" using nth_mem [OF len] old by simp
    ultimately show ?thesis using assms(1) unfolding scan_fits_def by auto
  qed
  have key: "map_of (sc_devs scan) i = Some name" if "(i, name) \<in> set (sc_devs scan)" for i name
    using that assms(1) unfolding scan_fits_def by simp
  show ?thesis
    unfolding devs_fit_def assms(2,3)
  proof (intro conjI ballI allI impI)
    show "distinct (map fst (sort_key fst (sc_devs scan)))" "distinct (map snd (sort_key fst (sc_devs scan)))"
      using assms(1) unfolding scan_fits_def distinct_map by simp_all
  next
    fix y assume "y \<in> set (sort_key fst (sc_devs scan))"
    then have mem: "y \<in> set (sc_devs scan)" by simp
    obtain i name where y1: "y = (i, name)" by fastforce
    note y = y1 mem [unfolded y1]
    show "case y of (i, name) \<Rightarrow> \<forall>d. map_of ds i = Some d \<longrightarrow> rd_name d = name"
      using rec key [OF y(2)] map_of_SomeD unfolding y(1) by fastforce
    show "case y of (i, name) \<Rightarrow> map_of ds i = None \<longrightarrow> name \<notin> (\<lambda>(_, d). rd_name d) ` set ds"
    proof -
      have inj: "inj_on snd (set (sc_devs scan))" using assms(1) unfolding scan_fits_def distinct_map by blast
      have "j = i" if "(j, d) \<in> set ds" "rd_name d = name" for j d
      proof -
        have "(j, name) \<in> set (sc_devs scan)" using map_of_SomeD [OF rec [OF that(1)]] that(2) by simp
        then have "(j, name) = (i, name)" using inj_onD [OF inj, of "(j, name)" "(i, name)"] y(2) by simp
        then show ?thesis by simp
      qed
      then show ?thesis unfolding y(1) by (auto simp: map_of_eq_None_iff image_iff)
    qed
  next
    fix h y assume "hooked = Some h"
    then show "case y of (i, name) \<Rightarrow> (name \<in> k_hooks k) = (h name \<noteq> None \<and> h name \<noteq> Some ''ingress'')"
      using assms(1) unfolding scan_fits_def by (cases y) simp
  qed
qed

lemma stale_devs_left:
  assumes "stale_devs now w releasing ds = (ls, ds')" and "devs_wf ds" and "(i, d') \<in> set ds'"
    and "map_of (rd_filters d') q = Some s"
  shows "\<not> filter_goes now w releasing q s"
  using assms
proof (induction ds arbitrary: ls ds')
  case (Cons x ds)
  obtain j d where x: "x = (j, d)" by fastforce
  obtain ls2 ds2 where rest: "stale_devs now w releasing ds = (ls2, ds2)" by fastforce
  let ?stale = "stale_keys now w releasing (rd_filters d)"
  have ds': "ds' = (j, d\<lparr>rd_filters := filter (\<lambda>(k, _). k \<notin> set ?stale) (rd_filters d)\<rparr>) # ds2"
    using Cons.prems(1) rest unfolding x by (simp add: Let_def)
  have wf: "devs_wf ds" using Cons.prems(2) unfolding x devs_wf_def by auto
  show ?case
  proof (cases "(i, d') \<in> set ds2")
    case True
    then show ?thesis using Cons.IH [OF rest wf] Cons.prems(4) by blast
  next
    case False
    then have "d' = d\<lparr>rd_filters := filter (\<lambda>(k, _). k \<notin> set ?stale) (rd_filters d)\<rparr>" using Cons.prems(3) ds' by simp
    then have "q \<notin> set ?stale" "map_of (rd_filters d) q = Some s"
      using Cons.prems(4) by (auto simp: map_of_filter_keys split: if_splits)
    then show ?thesis
      using map_of_SomeD [of "rd_filters d" q s] unfolding stale_keys_def by (force simp: sorted_keys_def)
  qed
qed simp

text \<open>
  The whole of \<open>sync\<close> after the wishes are known: the batch is accepted, the
  record still fits, the wanted classes and filters are in force, and a filter that
  is not wanted leads to an unlimited class.
\<close>

lemma sync_wanted_run:
  assumes run: "sync_wanted now hooked scan (wc, wfs) r = Inr (ls, r')"
    and fits: "fits wc r k" and scan: "scan_fits hooked scan r k"
    and wants: "snd ` set wfs \<subseteq> fst ` set wc"
  shows "\<exists>k'. replay ls k = Some k' \<and> fits wc r' k'
    \<and> (\<forall>s. map_of wc s \<noteq> None \<longrightarrow> map_of (rl_classes r') s = map_of wc s)
    \<and> (\<forall>name q. name \<in> snd ` set (sc_devs scan) \<longrightarrow> map_of wfs q \<noteq> None \<longrightarrow> k_filters k' (name, q) = map_of wfs q)
    \<and> (\<forall>name q s. map_of wfs q = None \<longrightarrow> k_filters k' (name, q) = Some s \<longrightarrow>
         map_of wc s = None \<and> map_of (rl_classes r') s = Some flvxRateUnlimited)"
proof -
  note D = fitsD [OF fits]
  obtain l1 ds where st: "stale_devs now (wc, wfs) (rl_releasing r) (rl_devs r) = (l1, ds)" by fastforce
  define r1 where "r1 = r\<lparr>rl_devs := ds\<rparr>"
  define ss where "ss = sort (map fst (rl_classes r1))"
  define r2 where "r2 = snd (emit_all (release_class now wc) ss r1)"
  define ws where "ws = sort (map fst wc)"
  define r3 where "r3 = snd (emit_all (set_class wc) ws r2)"
  have wf: "devs_wf (rl_devs r)" using fits unfolding fits_def rate_inv_def by blast
  have "devs_wf ([] @ rl_devs r)" "dev_rep ([] @ rl_devs r) k" using wf D(2) by simp_all
  from stale_devs_faithful [OF st this]
  obtain k1 where k1: "replay l1 k = Some k1" "dev_rep ds k1" "devs_wf ds" "k_classes k1 = k_classes k" "k_hooks k1 = k_hooks k"
    "map fst ds = map fst (rl_devs r)" "map (\<lambda>(_, d). rd_name d) ds = map (\<lambda>(_, d). rd_name d) (rl_devs r)"
    "used_slots ds \<subseteq> used_slots (rl_devs r)" by auto
  have "used_slots ds \<subseteq> fst ` set (rl_classes r)" using k1(8) D(5) by blast
  from fits_devs [OF fits k1(2,3) this k1(4)] have fits1: "fits wc r1 k1" unfolding r1_def .
  have ss: "distinct ss" "set ss = fst ` set (rl_classes r1)" using D(3) by (simp_all add: ss_def r1_def)
  from release_classes_run [where now = now, OF fits1 ss(1) eq_refl [OF ss(2)]]
  obtain k2 where k2: "replay (fst (emit_all (release_class now wc) ss r1)) k1 = Some k2" "fits wc r2 k2" "k_hooks k2 = k_hooks k1"
    "rl_devs r2 = rl_devs r1" "\<forall>s \<in> set ss. released wc s r2"
    "\<forall>s. s \<notin> set ss \<longrightarrow> map_of (rl_classes r2) s = map_of (rl_classes r1) s \<and> map_of (rl_releasing r2) s = map_of (rl_releasing r1) s"
    unfolding r2_def [symmetric] by (elim exE conjE)
  have rel: "map_of (rl_releasing r2) s \<noteq> None \<Longrightarrow> map_of (rl_classes r2) s = Some flvxRateUnlimited" for s
    using fitsD(4) [OF k2(2)] unfolding releasing_wf_def by blast
  have all_released: "released wc s r2" for s
  proof (cases "s \<in> set ss")
    case False
    then have "map_of (rl_classes r2) s = None" using k2(6) unfolding ss(2) by (metis map_of_eq_None_iff)
    then show ?thesis unfolding released_def by (metis map_of_eq_None_iff)
  qed (use k2(5) in blast)
  have "settled wc r2"
    unfolding settled_def
  proof (intro allI impI)
    fix s assume "map_of wc s \<noteq> None"
    then show "map_of (rl_releasing r2) s = None"
      using all_released [of s] rel [of s] unfolding released_def by (metis map_of_eq_None_iff option.distinct(1))
  qed
  moreover have "map_of wc s \<noteq> None" if "s \<in> set ws" for s using that by (simp add: ws_def map_of_eq_None_iff)
  ultimately obtain k3 where k3: "replay (fst (emit_all (set_class wc) ws r2)) k2 = Some k3" "fits wc r3 k3" "k_hooks k3 = k_hooks k2"
    "rl_devs r3 = rl_devs r2" "\<forall>s. map_of (rl_classes r3) s = (if s \<in> set ws then map_of wc s else map_of (rl_classes r2) s)"
    using set_classes_run [OF k2(2), of ws] unfolding r3_def [symmetric] by blast
  have ws: "s \<in> set ws \<longleftrightarrow> map_of wc s \<noteq> None" for s by (simp add: ws_def map_of_eq_None_iff)
  obtain l4 where l4: "add_devs hooked wfs (sort_key fst (sc_devs scan)) r3 = Inr (l4, r')"
    and ls: "ls = l1 @ fst (emit_all (release_class now wc) ss r1) @ fst (emit_all (set_class wc) ws r2) @ l4"
    using run st unfolding sync_wanted_def Let_def r1_def ss_def r2_def ws_def r3_def by (auto split: prod.splits sum.splits)
  have devs3: "rl_devs r3 = ds" using k3(4) k2(4) by (simp add: r1_def)
  have "k_hooks k3 = k_hooks k" using k3(3) k2(3) k1(5) by simp
  from scan_fits_devs [OF scan this devs3 k1(6,7)] have "devs_fit hooked (sort_key fst (sc_devs scan)) r3 k3" .
  moreover have "slot \<in> fst ` set (rl_classes r3)" if "map_of wfs key = Some slot" for key slot
  proof -
    have "slot \<in> fst ` set wc" using wants map_of_SomeD [OF that] by force
    then show ?thesis using k3(5) ws by (metis map_of_eq_None_iff)
  qed
  ultimately obtain k4 where k4: "replay l4 k3 = Some k4" "fits wc r' k4"
    "k_filters k4 = (\<lambda>(m, q). if m \<in> snd ` set (sort_key fst (sc_devs scan)) \<and> map_of wfs q \<noteq> None then map_of wfs q else k_filters k3 (m, q))"
    "rl_classes r' = rl_classes r3"
    using add_devs_run [OF l4 k3(2)] by blast
  have left: "map_of wc s = None \<and> map_of (rl_classes r') s = Some flvxRateUnlimited"
    if q: "map_of wfs q = None" "k_filters k4 (name, q) = Some s" for name q s
  proof -
    have k3q: "k_filters k3 (name, q) = Some s" using q unfolding k4(3) by simp
    have dr: "dev_rep ds k3" using fitsD(2) [OF k3(2)] devs3 by simp
    have "name \<in> (\<lambda>(_, d). rd_name d) ` set ds" using dr k3q unfolding dev_rep_def by (metis option.distinct(1))
    then obtain i d where d: "(i, d) \<in> set ds" "name = rd_name d" by auto
    have dq: "map_of (rd_filters d) q = Some s" using dev_repD(2) [OF dr d(1)] k3q d(2) by metis
    have out: "map_of wc s = None"
      using stale_devs_left [OF st wf d(1) dq] q(1) unfolding filter_goes_def by (auto split: option.splits)
    have "s \<in> used_slots (rl_devs r2)" using dev_rep_slots [OF dr k3q] k2(4) by (simp add: r1_def)
    then have "s \<in> fst ` set (rl_classes r2)" using fitsD(5) [OF k2(2)] by blast
    then have "map_of (rl_releasing r2) s \<noteq> None" using all_released [of s] out unfolding released_def by blast
    then show ?thesis using rel [of s] out k4(4) k3(5) ws by simp
  qed
  have "replay ls k = Some k4" using k1(1) k2(1) k3(1) k4(1) unfolding ls by (simp add: replay_append)
  moreover have "map_of (rl_classes r') s = map_of wc s" if "map_of wc s \<noteq> None" for s using k4(4) k3(5) ws that by simp
  moreover have "k_filters k4 (name, q) = map_of wfs q" if "name \<in> snd ` set (sc_devs scan)" "map_of wfs q \<noteq> None" for name q
    using that unfolding k4(3) by simp
  ultimately show ?thesis using k4(2) left by blast
qed

section \<open>Slots\<close>

lemma first_free_props:
  "first_free s used \<noteq> 0 \<Longrightarrow> s \<le> first_free s used \<and> first_free s used \<le> flvxRateMaxSlot \<and> first_free s used \<notin> set used"
proof (induction s used rule: first_free.induct)
  case (1 s used)
  show ?case
  proof (cases "\<not> flvxRateMaxSlot < s \<and> s \<in> set used")
    case True
    then show ?thesis using 1 first_free.simps [of s used] by force
  qed (use 1(2) first_free.simps [of s used] in \<open>auto split: if_splits\<close>)
qed

lemma freeSlot_props:
  assumes "freeSlot r \<noteq> 0"
  shows "freeSlot r \<in> {1..flvxRateMaxSlot}" and "freeSlot r \<notin> snd ` set (rl_slots r)" and "freeSlot r \<notin> fst ` set (rl_classes r)"
  using first_free_props [OF assms [unfolded freeSlot_def]] unfolding freeSlot_def by auto

lemma fold_update_const: "map_of (fold (\<lambda>k. AList.update k v) ks m) q = (if q \<in> set ks then Some v else map_of m q)"
  by (induction ks arbitrary: m) (auto simp: update_conv')

lemma fold_update_snd: "snd ` set (fold (\<lambda>k. AList.update k v) ks m) \<subseteq> insert v (snd ` set m)"
proof (induction ks arbitrary: m)
  case (Cons k ks)
  have "snd ` set (AList.update k v m) \<subseteq> insert v (snd ` set m)" by (induction m) auto
  then have "insert v (snd ` set (AList.update k v m)) \<subseteq> insert v (snd ` set m)" by blast
  from subset_trans [OF Cons.IH this] show ?case by simp
qed auto

definition slot_of :: "flvxRateLimiter \<Rightarrow> flvxRateOwner \<Rightarrow> int option" where
  "slot_of r ow = map_of (rl_slots r) (ro_owner ow)"

text \<open>The owners' wishes: what \<open>want_rates\<close> adds for the owners it goes through.\<close>

lemma want_rates_run:
  assumes "want_rates owners r (wc, wfs) = Inr (r', (wc', wfs'))" and "slots_wf r" and "distinct (map ro_owner owners)"
    and "snd ` set wfs \<subseteq> fst ` set wc" and "fst ` set wc \<subseteq> snd ` set (rl_slots r)"
    and "\<forall>ow \<in> set owners. \<forall>s. slot_of r ow = Some s \<longrightarrow> s \<notin> fst ` set wc"
  shows "rl_devs r' = rl_devs r \<and> rl_classes r' = rl_classes r \<and> rl_releasing r' = rl_releasing r \<and> slots_wf r' \<and> map_of (rl_slots r) \<subseteq>\<^sub>m map_of (rl_slots r')
    \<and> snd ` set wfs' \<subseteq> fst ` set wc' \<and> fst ` set wc' \<subseteq> snd ` set (rl_slots r')
    \<and> (\<forall>ow \<in> set owners. \<exists>s. slot_of r' ow = Some s \<and> map_of wc' s = Some (flvxRateWire (ro_bytes ow)))
    \<and> (\<forall>s. s \<in> fst ` set wc \<longrightarrow> map_of wc' s = map_of wc s)
    \<and> (\<forall>k. (\<forall>ow \<in> set owners. k \<notin> set (owner_keys ow)) \<longrightarrow> map_of wfs' k = map_of wfs k)
    \<and> (\<forall>k ow. ow \<in> set owners \<longrightarrow> k \<in> set (owner_keys ow) \<longrightarrow> (\<forall>o2 \<in> set owners. k \<in> set (owner_keys o2) \<longrightarrow> o2 = ow) \<longrightarrow>
         map_of wfs' k = slot_of r' ow)"
  using assms
proof (induction owners arbitrary: r wc wfs)
  case Nil
  then show ?case by simp
next
  case (Cons ow owners)
  define slot where "slot = (case slot_of r ow of Some s \<Rightarrow> s | None \<Rightarrow> freeSlot r)"
  define r1 where "r1 = (if slot_of r ow = None then r\<lparr>rl_slots := AList.update (ro_owner ow) slot (rl_slots r)\<rparr> else r)"
  define wc1 where "wc1 = AList.update slot (flvxRateWire (ro_bytes ow)) wc"
  define wfs1 where "wfs1 = fold (\<lambda>k. AList.update k slot) (owner_keys ow) wfs"
  have free: "slot_of r ow = None \<Longrightarrow> slot \<noteq> 0" and rest: "want_rates owners r1 (wc1, wfs1) = Inr (r', (wc', wfs'))"
    using Cons.prems(1)
    by (auto simp: Let_def slot_of_def [symmetric] slot_def r1_def wc1_def wfs1_def split: if_splits option.splits)
  have new: "slot \<in> {1..flvxRateMaxSlot}" "slot \<notin> snd ` set (rl_slots r)" "slot \<notin> fst ` set (rl_classes r)" if "slot_of r ow = None"
    using freeSlot_props [of r] free [OF that] that by (auto simp: slot_def)
  have mine: "slot_of r1 ow = Some slot" unfolding r1_def slot_of_def by (auto simp: slot_def slot_of_def update_conv')
  have app: "rl_slots r1 = rl_slots r @ [(ro_owner ow, slot)]" if "slot_of r ow = None"
  proof -
    have "AList.update a b xs = xs @ [(a, b)]" if "map_of xs a = None" for a :: string and b :: int and xs
      using that by (induction xs) (auto split: if_splits)
    then show ?thesis using that unfolding r1_def slot_of_def by simp
  qed
  have wf1: "slots_wf r1"
  proof (cases "slot_of r ow = None")
    case True
    have "ro_owner ow \<notin> fst ` set (rl_slots r)" using True unfolding slot_of_def by (metis map_of_eq_None_iff)
    moreover have "rl_classes r1 = rl_classes r" by (simp add: r1_def)
    ultimately show ?thesis using Cons.prems(2) new [OF True] unfolding slots_wf_def app [OF True] by auto
  next
    case False
    then show ?thesis using Cons.prems(2) by (simp only: r1_def if_False)
  qed
  have le: "map_of (rl_slots r) \<subseteq>\<^sub>m map_of (rl_slots r1)"
    unfolding r1_def by (auto simp: update_conv' map_le_def slot_of_def)
  have slots1: "snd ` set (rl_slots r1) = insert slot (snd ` set (rl_slots r))"
  proof (cases "slot_of r ow")
    case (Some s)
    then have "(ro_owner ow, slot) \<in> set (rl_slots r)" unfolding slot_def slot_of_def by (simp add: map_of_SomeD)
    then show ?thesis using Some by (force simp: r1_def)
  qed (use app in simp)
  have out: "slot \<notin> fst ` set wc"
  proof (cases "slot_of r ow")
    case None
    then show ?thesis using new(2) Cons.prems(5) by blast
  next
    case (Some s)
    then show ?thesis using Cons.prems(6) by (auto simp: slot_def)
  qed
  have others: "s \<notin> fst ` set wc1" if "o2 \<in> set owners" "slot_of r1 o2 = Some s" for o2 s
  proof -
    have "ro_owner o2 \<in> ro_owner ` set owners" using that(1) by blast
    then have name: "ro_owner o2 \<noteq> ro_owner ow" using Cons.prems(3) by auto
    then have "slot_of r o2 = Some s" using that(2) unfolding r1_def slot_of_def by (auto simp: update_conv' split: if_splits)
    then have "s \<notin> fst ` set wc" using Cons.prems(6) that(1) by auto
    moreover have "s \<noteq> slot"
    proof
      assume "s = slot"
      then have "(ro_owner o2, slot) \<in> set (rl_slots r1)" "(ro_owner ow, slot) \<in> set (rl_slots r1)"
        using that(2) mine unfolding slot_of_def by (simp_all add: map_of_SomeD)
      then show False using wf1 name unfolding slots_wf_def distinct_map inj_on_def by fastforce
    qed
    ultimately show ?thesis by (simp add: wc1_def dom_update)
  qed
  have sub1: "snd ` set wfs1 \<subseteq> fst ` set wc1"
    using fold_update_snd [of slot "owner_keys ow" wfs] Cons.prems(4) by (auto simp: wfs1_def wc1_def dom_update)
  have sub2: "fst ` set wc1 \<subseteq> snd ` set (rl_slots r1)"
    using Cons.prems(5) unfolding slots1 by (auto simp: wc1_def dom_update)
  have tail: "distinct (map ro_owner owners)" "\<forall>ow \<in> set owners. \<forall>s. slot_of r1 ow = Some s \<longrightarrow> s \<notin> fst ` set wc1"
    using Cons.prems(3) others by simp_all
  have IH: "rl_devs r' = rl_devs r1" "slots_wf r'" "map_of (rl_slots r1) \<subseteq>\<^sub>m map_of (rl_slots r')"
    "snd ` set wfs' \<subseteq> fst ` set wc'" "fst ` set wc' \<subseteq> snd ` set (rl_slots r')"
    "\<forall>ow \<in> set owners. \<exists>s. slot_of r' ow = Some s \<and> map_of wc' s = Some (flvxRateWire (ro_bytes ow))"
    "\<forall>s. s \<in> fst ` set wc1 \<longrightarrow> map_of wc' s = map_of wc1 s"
    "\<forall>k. (\<forall>ow \<in> set owners. k \<notin> set (owner_keys ow)) \<longrightarrow> map_of wfs' k = map_of wfs1 k"
    "\<forall>k ow. ow \<in> set owners \<longrightarrow> k \<in> set (owner_keys ow) \<longrightarrow> (\<forall>o2 \<in> set owners. k \<in> set (owner_keys o2) \<longrightarrow> o2 = ow) \<longrightarrow>
         map_of wfs' k = slot_of r' ow"
    "rl_classes r' = rl_classes r1" "rl_releasing r' = rl_releasing r1"
    using Cons.IH [OF rest wf1 tail(1) sub1 sub2 tail(2)] by - (elim conjE, assumption)+
  have mine': "slot_of r' ow = Some slot" using mine IH(3) unfolding slot_of_def map_le_def by (metis domI)
  show ?case
  proof (intro conjI)
    show "rl_devs r' = rl_devs r" "rl_classes r' = rl_classes r" "rl_releasing r' = rl_releasing r"
      using IH(1,10,11) by (simp_all add: r1_def)
    show "map_of (rl_slots r) \<subseteq>\<^sub>m map_of (rl_slots r')" using le IH(3) by (rule map_le_trans)
    show "\<forall>ow \<in> set (ow # owners). \<exists>s. slot_of r' ow = Some s \<and> map_of wc' s = Some (flvxRateWire (ro_bytes ow))"
      using IH(6,7) mine' by (auto simp: wc1_def dom_update update_conv')
    show "\<forall>s. s \<in> fst ` set wc \<longrightarrow> map_of wc' s = map_of wc s"
      using IH(7) out by (auto simp: wc1_def dom_update update_conv')
    show "\<forall>k. (\<forall>ow \<in> set (ow # owners). k \<notin> set (owner_keys ow)) \<longrightarrow> map_of wfs' k = map_of wfs k"
      using IH(8) by (simp add: wfs1_def fold_update_const)
    show "\<forall>k w. w \<in> set (ow # owners) \<longrightarrow> k \<in> set (owner_keys w) \<longrightarrow>
        (\<forall>o2 \<in> set (ow # owners). k \<in> set (owner_keys o2) \<longrightarrow> o2 = w) \<longrightarrow> map_of wfs' k = slot_of r' w"
    proof (intro allI impI)
      fix k w assume w: "w \<in> set (ow # owners)" "k \<in> set (owner_keys w)"
        "\<forall>o2 \<in> set (ow # owners). k \<in> set (owner_keys o2) \<longrightarrow> o2 = w"
      show "map_of wfs' k = slot_of r' w"
      proof (cases "w \<in> set owners")
        case False
        then have "w = ow" "\<forall>o2 \<in> set owners. k \<notin> set (owner_keys o2)" using w by auto
        then show ?thesis using IH(8) w(2) mine' by (simp add: wfs1_def fold_update_const)
      next
        case True
        have "\<forall>o2 \<in> set owners. k \<in> set (owner_keys o2) \<longrightarrow> o2 = w" using w(3) by (meson list.set_intros(2))
        then show ?thesis using IH(9) True w(2) by blast
      qed
    qed
    show "slots_wf r'" by (rule IH(2))
    show "snd ` set wfs' \<subseteq> fst ` set wc'" by (rule IH(4))
    show "fst ` set wc' \<subseteq> snd ` set (rl_slots r')" by (rule IH(5))
  qed
qed

section \<open>The limiter refines its kernel\<close>

lemma drop_unselected_inv: "rate_inv r \<Longrightarrow> rate_inv (drop_unselected scan r)"
proof -
  assume inv: "rate_inv r"
  have sub: "set (rl_devs (drop_unselected scan r)) \<subseteq> set (rl_devs r)" by (auto simp: drop_unselected_def)
  have "devs_wf (rl_devs (drop_unselected scan r))"
    using inv sub unfolding rate_inv_def devs_wf_def by (auto simp: drop_unselected_def distinct_map_filter)
  moreover have "used_slots (rl_devs (drop_unselected scan r)) \<subseteq> used_slots (rl_devs r)"
    using sub unfolding used_slots_def by blast
  then have "used_slots (rl_devs (drop_unselected scan r)) \<subseteq> fst ` set (rl_classes r)"
    using inv unfolding rate_inv_def by blast
  ultimately show "rate_inv (drop_unselected scan r)"
    using inv unfolding rate_inv_def slots_wf_def releasing_wf_def by (simp add: drop_unselected_def)
qed

lemma rate_sync_enforces:
  assumes inv: "rate_inv r" and kernel: "represents (drop_unselected scan r) k" and scan: "scan_fits hooked scan (drop_unselected scan r) k"
    and owners: "distinct (map ro_owner owners)"
    and run: "rate_sync now before hooked removable scan owners r = Inr (ls, r')"
  shows "\<exists>k' cls. replay ls k = Some k' \<and> rate_inv r' \<and> represents r' k' \<and> inj_on cls (set owners)
    \<and> (\<forall>ow key name. ow \<in> set owners \<longrightarrow> key \<in> set (owner_keys ow) \<longrightarrow>
         (\<forall>o2 \<in> set owners. key \<in> set (owner_keys o2) \<longrightarrow> o2 = ow) \<longrightarrow> name \<in> snd ` set (sc_devs scan) \<longrightarrow>
         k_filters k' (name, key) = Some (cls ow) \<and> (\<forall>i. k_classes k' (i, cls ow) = Some (flvxRateWire (ro_bytes ow))))
    \<and> (\<forall>name key slot. (\<forall>ow \<in> set owners. key \<notin> set (owner_keys ow)) \<longrightarrow> k_filters k' (name, key) = Some slot \<longrightarrow>
         (\<forall>i. k_classes k' (i, slot) = Some flvxRateUnlimited))"
proof -
  obtain r0 wc wfs where w: "want_rates owners r ([], []) = Inr (r0, (wc, wfs))"
    and sync: "sync_wanted now hooked scan (wc, wfs) (drop_unselected scan r0) = Inr (ls, r')"
    using run unfolding rate_sync_def by (auto split: sum.splits if_splits)
  have "slots_wf r" using inv unfolding rate_inv_def by blast
  note wants = want_rates_run [OF w this owners]
  have nil: "snd ` set ([] :: (flvxRateKey \<times> int) list) \<subseteq> fst ` set ([] :: (int \<times> int) list)"
    "fst ` set ([] :: (int \<times> int) list) \<subseteq> snd ` set (rl_slots r)"
    "\<forall>ow \<in> set owners. \<forall>s. slot_of r ow = Some s \<longrightarrow> s \<notin> fst ` set ([] :: (int \<times> int) list)" by simp_all
  have same: "rl_devs r0 = rl_devs r" "rl_classes r0 = rl_classes r" "rl_releasing r0 = rl_releasing r"
    and W: "slots_wf r0" "snd ` set wfs \<subseteq> fst ` set wc" "fst ` set wc \<subseteq> snd ` set (rl_slots r0)"
    and rate: "\<forall>ow \<in> set owners. \<exists>s. slot_of r0 ow = Some s \<and> map_of wc s = Some (flvxRateWire (ro_bytes ow))"
    and unlisted: "\<forall>k. (\<forall>ow \<in> set owners. k \<notin> set (owner_keys ow)) \<longrightarrow> map_of wfs k = map_of [] k"
    and listed: "\<forall>k ow. ow \<in> set owners \<longrightarrow> k \<in> set (owner_keys ow) \<longrightarrow>
      (\<forall>o2 \<in> set owners. k \<in> set (owner_keys o2) \<longrightarrow> o2 = ow) \<longrightarrow> map_of wfs k = slot_of r0 ow"
    using wants [OF nil] by - (elim conjE, assumption)+
  define rd where "rd = drop_unselected scan r0"
  have "rate_inv r0" using inv W(1) unfolding rate_inv_def releasing_wf_def same by simp
  then have "rate_inv rd" unfolding rd_def by (rule drop_unselected_inv)
  moreover have dev: "rl_devs rd = rl_devs (drop_unselected scan r)" "rl_classes rd = rl_classes (drop_unselected scan r)"
    by (simp_all add: rd_def drop_unselected_def same)
  then have "represents rd k" using kernel unfolding represents_def class_rep_def by simp
  moreover have "rl_slots rd = rl_slots r0" by (simp add: rd_def drop_unselected_def)
  ultimately have fits: "fits wc rd k" using W(3) unfolding fits_def by simp
  have "scan_fits hooked scan rd k" using scan unfolding scan_fits_def dev(1) .
  from sync_wanted_run [OF sync [folded rd_def] fits this W(2)]
  obtain k' where k': "replay ls k = Some k'" "fits wc r' k'"
    "\<forall>s. map_of wc s \<noteq> None \<longrightarrow> map_of (rl_classes r') s = map_of wc s"
    "\<forall>name q. name \<in> snd ` set (sc_devs scan) \<longrightarrow> map_of wfs q \<noteq> None \<longrightarrow> k_filters k' (name, q) = map_of wfs q"
    "\<forall>name q s. map_of wfs q = None \<longrightarrow> k_filters k' (name, q) = Some s \<longrightarrow>
         map_of wc s = None \<and> map_of (rl_classes r') s = Some flvxRateUnlimited" by (elim exE conjE)
  have classes: "k_classes k' (i, s) = map_of (rl_classes r') s" for i s
    using fitsD(1) [OF k'(2)] unfolding class_rep_def by blast
  define cls where "cls ow = the (slot_of r0 ow)" for ow
  have cls: "slot_of r0 ow = Some (cls ow)" "map_of wc (cls ow) = Some (flvxRateWire (ro_bytes ow))" if "ow \<in> set owners" for ow
    using rate that by (auto simp: cls_def)
  have inj: "inj_on cls (set owners)"
  proof (rule inj_onI)
    fix a b assume ab: "a \<in> set owners" "b \<in> set owners" "cls a = cls b"
    then have "(ro_owner a, cls a) \<in> set (rl_slots r0)" "(ro_owner b, cls a) \<in> set (rl_slots r0)"
      using cls(1) unfolding slot_of_def by (metis map_of_SomeD)+
    then have "ro_owner a = ro_owner b" using W(1) unfolding slots_wf_def distinct_map inj_on_def by fastforce
    then show "a = b" using owners ab unfolding distinct_map inj_on_def by blast
  qed
  have own: "k_filters k' (name, key) = Some (cls ow) \<and> (\<forall>i. k_classes k' (i, cls ow) = Some (flvxRateWire (ro_bytes ow)))"
    if "ow \<in> set owners" "key \<in> set (owner_keys ow)" "\<forall>o2 \<in> set owners. key \<in> set (owner_keys o2) \<longrightarrow> o2 = ow"
      "name \<in> snd ` set (sc_devs scan)" for ow key name
  proof -
    have mine: "map_of wfs key = Some (cls ow)" using listed that(1-3) cls(1) [OF that(1)] by metis
    have "k_filters k' (name, key) = map_of wfs key" using k'(4) that(4) mine by blast
    moreover have "map_of (rl_classes r') (cls ow) = map_of wc (cls ow)" using k'(3) cls(2) [OF that(1)] by blast
    ultimately show ?thesis using mine cls(2) [OF that(1)] unfolding classes by simp
  qed
  have free: "k_classes k' (i, slot) = Some flvxRateUnlimited"
    if "\<forall>ow \<in> set owners. key \<notin> set (owner_keys ow)" "k_filters k' (name, key) = Some slot" for name key slot i
  proof -
    have "map_of wfs key = None" using unlisted that(1) by simp
    then show ?thesis using k'(5) that(2) unfolding classes by blast
  qed
  have fits': "rate_inv r'" "represents r' k'" using k'(2) unfolding fits_def by simp_all
  show ?thesis
    by (intro exI [of _ k'] exI [of _ cls] conjI allI impI)
      (fact k'(1) fits' inj | erule (3) own [THEN conjunct1] own [THEN conjunct2, THEN spec] | erule (1) free)+
qed

text \<open>
  C1: Whenever \<open>sync\<close> succeeds on a record that fits the kernel, tc refuses no line
  of the batch and the new record fits again. Each owner's ports then go, on every
  selected device and in both directions, through a class of his own at exactly his
  rate, and a filter of a port that nobody limits leads to an unlimited class.
\<close>

theorem rate_sync_in_force:
  assumes inv: "rate_inv r" and kernel: "represents (drop_unselected scan r) k" and scan: "scan_fits hooked scan (drop_unselected scan r) k"
    and owners: "distinct (map ro_owner owners)"
    and run: "rate_sync now before hooked removable scan owners r = Inr (ls, r')"
  shows "\<exists>k' cls. replay ls k = Some k' \<and> rate_inv r' \<and> represents r' k' \<and> inj_on cls (set owners)
    \<and> (\<forall>ow key name. ow \<in> set owners \<longrightarrow> key \<in> set (owner_keys ow) \<longrightarrow>
         (\<forall>o2 \<in> set owners. key \<in> set (owner_keys o2) \<longrightarrow> o2 = ow) \<longrightarrow> name \<in> snd ` set (sc_devs scan) \<longrightarrow>
         k_filters k' (name, key) = Some (cls ow) \<and> (\<forall>i. k_classes k' (i, cls ow) = Some (flvxRateWire (ro_bytes ow))))
    \<and> (\<forall>name key slot. (\<forall>ow \<in> set owners. key \<notin> set (owner_keys ow)) \<longrightarrow> k_filters k' (name, key) = Some slot \<longrightarrow>
         (\<forall>i. k_classes k' (i, slot) = Some flvxRateUnlimited))"
  by (rule rate_sync_enforces [OF assms])

text \<open>One device without a qdisc, one owner with 8 Mbit/s on port 443, nothing set up yet.\<close>

definition ex_rate_owner :: flvxRateOwner where
  "ex_rate_owner = \<lparr>ro_owner = ''7'', ro_bytes = 1048576, ro_tcp = [443], ro_udp = []\<rparr>"

definition ex_limiter :: flvxRateLimiter where
  "ex_limiter = \<lparr>rl_known = True, rl_active = True, rl_up = 5, rl_dn = 6, rl_owners = [], rl_slots = [], rl_classes = [], rl_devs = [],
     rl_releasing = [], rl_checked_at = 0, rl_failure = None, rl_failed_at = 0, rl_failed_owners = []\<rparr>"

definition ex_scan :: flvxRateScan where
  "ex_scan = \<lparr>sc_devs = [(2, ''eth0'')], sc_links = [1, 2, 5, 6], sc_up_idx = 5, sc_dn_idx = 6, sc_up_ok = True, sc_dn_ok = True\<rparr>"

definition ex_kernel :: rate_kernel where
  "ex_kernel = \<lparr>k_classes = Map.empty, k_filters = Map.empty, k_hooks = {}\<rparr>"

definition ex_rate_key :: flvxRateKey where
  "ex_rate_key = \<lparr>rk_egress = True, rk_v6 = False, rk_udp = False, rk_port = 443\<rparr>"

definition ex_sync :: "string + tc_line list \<times> flvxRateLimiter" where
  "ex_sync = rate_sync 0 (Some (\<lambda>_. None)) (Some (\<lambda>_. None)) (\<lambda>_. True) ex_scan [ex_rate_owner] ex_limiter"

theorem rate_sync_in_force_witness:
  "\<exists>ls r' k' cls. ex_sync = Inr (ls, r') \<and> replay ls ex_kernel = Some k' \<and> k_filters k' (''eth0'', ex_rate_key) = Some (cls ex_rate_owner)
     \<and> k_classes k' (IfbDown, cls ex_rate_owner) = Some (flvxRateWire 1048576)"
proof -
  have "\<not> isl ex_sync" by code_simp
  then obtain ls r' where run: "ex_sync = Inr (ls, r')" by (metis isl_def sum.exhaust surj_pair)
  have inv: "rate_inv ex_limiter"
    by (simp add: rate_inv_def ex_limiter_def devs_wf_def slots_wf_def releasing_wf_def used_slots_def)
  have kernel: "represents (drop_unselected ex_scan ex_limiter) ex_kernel"
    by (simp add: represents_def drop_unselected_def ex_limiter_def ex_kernel_def dev_rep_def class_rep_def)
  have fit: "scan_fits (Some (\<lambda>_. None)) ex_scan (drop_unselected ex_scan ex_limiter) ex_kernel"
    by (simp add: scan_fits_def drop_unselected_def ex_limiter_def ex_kernel_def ex_scan_def)
  have key: "ex_rate_key \<in> set (owner_keys ex_rate_owner)" by code_simp
  have one: "distinct (map ro_owner [ex_rate_owner])" by simp
  obtain k' cls where k': "replay ls ex_kernel = Some k'"
    "\<forall>ow key name. ow \<in> set [ex_rate_owner] \<longrightarrow> key \<in> set (owner_keys ow) \<longrightarrow>
         (\<forall>o2 \<in> set [ex_rate_owner]. key \<in> set (owner_keys o2) \<longrightarrow> o2 = ow) \<longrightarrow> name \<in> snd ` set (sc_devs ex_scan) \<longrightarrow>
         k_filters k' (name, key) = Some (cls ow) \<and> (\<forall>i. k_classes k' (i, cls ow) = Some (flvxRateWire (ro_bytes ow)))"
    using rate_sync_in_force [OF inv kernel fit one run [unfolded ex_sync_def]] by (elim exE conjE)
  have "''eth0'' \<in> snd ` set (sc_devs ex_scan)" by (simp add: ex_scan_def)
  then have "k_filters k' (''eth0'', ex_rate_key) = Some (cls ex_rate_owner)
      \<and> (\<forall>i. k_classes k' (i, cls ex_rate_owner) = Some (flvxRateWire (ro_bytes ex_rate_owner)))"
    using k'(2) key by simp
  then show ?thesis using run k'(1) by (auto simp: ex_rate_owner_def)
qed

end
