(* ===== verification/Rate_Control.thy ===== *)
theory Rate_Control
  imports Rate_Kernel
begin

text \<open>
  The rest of \<open>cmd/mmwxc-helper/flvx_rate.go\<close>: what surrounds \<open>sync\<close>. \<open>removeDev\<close>
  and \<open>teardown\<close> with the calls they make, \<open>setup\<close>, \<open>reconcile\<close>, \<open>ensure\<close> and
  \<open>release\<close> on the record, the probe, and \<open>rateOwners\<close> from the budgets in force.
  What ip, tc and nft answer in one pass is an argument (\<open>None\<close>: the call failed
  or its output does not parse). The lemmas: an invariant of the record over any
  sequence of passes, what a removal touches, and the rate of a node's port.
\<close>

section \<open>Removing a device's filters\<close>

datatype rem_line =
    ProtoDel string string string int
  | ClsactDel string

datatype rate_call =
    CallNft
  | CallQdiscs
  | CallFilters string string
  | CallDev string "rem_line list"
  | CallLinks
  | CallLinkDel "ifb list"

record rate_qdisc =
  rq_kind :: string
  rq_dev :: string
  rq_parent :: string

definition hookQdiscs :: "rate_qdisc list \<Rightarrow> (string \<times> string) list" where
  "hookQdiscs qs =
     foldl (\<lambda>m q. if rq_parent q = ''ffff:fff1'' \<and> (rq_kind q = ''clsact'' \<or> rq_kind q = ''ingress'')
                   then AList.update (rq_dev q) (rq_kind q) m else m) [] qs"

text \<open>The answers of one removal: the qdiscs, the filters (protocol, pref) of a hook, and whether the changes succeed.\<close>

record rate_tools =
  ta_qdiscs :: "rate_qdisc list option"
  ta_filters :: "string \<Rightarrow> string \<Rightarrow> (string \<times> int) list option"
  ta_batch :: "string \<Rightarrow> bool"
  ta_links :: "rate_link list option"
  ta_link_del :: bool

definition our_pref :: "int \<Rightarrow> bool" where
  "our_pref pref \<longleftrightarrow> pref = flvxRatePrefV4 \<or> pref = flvxRatePrefV6"

fun ask_filters :: "rate_tools \<Rightarrow> string \<Rightarrow> string list \<Rightarrow> rate_call list \<times> (string \<times> (string \<times> int) list) list option" where
  "ask_filters t dev [] = ([], Some [])"
| "ask_filters t dev (h # hs) =
     (case ta_filters t dev h of
        None \<Rightarrow> ([CallFilters dev h], None)
      | Some fs \<Rightarrow> (let (cs, rest) = ask_filters t dev hs in (CallFilters dev h # cs, map_option ((#) (h, fs)) rest)))"

definition dev_hooks :: "string \<Rightarrow> string list" where
  "dev_hooks kind = ''ingress'' # (if kind = ''clsact'' then [''egress''] else [])"

definition remove_lines :: "string \<Rightarrow> string \<Rightarrow> (string \<times> (string \<times> int) list) list \<Rightarrow> rem_line list" where
  "remove_lines dev kind answers =
     concat (map (\<lambda>(h, fs). dedup (map (\<lambda>(proto, pref). ProtoDel dev h proto pref) (filter (\<lambda>(_, pref). our_pref pref) fs))) answers)
     @ (if kind = ''clsact'' \<and> list_all (\<lambda>(_, fs). list_all (\<lambda>(_, pref). our_pref pref) fs) answers then [ClsactDel dev] else [])"

definition removeDev :: "rate_tools \<Rightarrow> string \<Rightarrow> string \<Rightarrow> rate_call list \<times> bool" where
  "removeDev t dev kind =
     (let (cs, answers) = ask_filters t dev (dev_hooks kind)
      in case answers of
           None \<Rightarrow> (cs, False)
         | Some as \<Rightarrow>
             (let ls = remove_lines dev kind as
              in if ls = [] then (cs, True) else (cs @ [CallDev dev ls], ta_batch t dev)))"

section \<open>\<open>teardown\<close> and \<open>setup\<close>\<close>

definition hooked_devs :: "(string \<times> string) list \<Rightarrow> (string \<times> string) list" where
  "hooked_devs hooked = sort_key fst (filter (\<lambda>(dev, _). dev \<noteq> ifb_name IfbUp \<and> dev \<noteq> ifb_name IfbDown) hooked)"

definition cleared :: "flvxRateLimiter \<Rightarrow> flvxRateLimiter" where
  "cleared r = r\<lparr>rl_active := False, rl_up := 0, rl_dn := 0, rl_owners := [], rl_slots := [], rl_classes := [], rl_devs := [], rl_releasing := []\<rparr>"

definition remove_ifbs :: "rate_tools \<Rightarrow> flvxRateLimiter \<Rightarrow> rate_call list \<times> flvxRateLimiter \<times> string option" where
  "remove_ifbs t r =
     (case ta_links t of
        None \<Rightarrow> ([CallLinks], r, Some ''ip addr'')
      | Some links \<Rightarrow>
          (let s = rate_scan links;
               dels = (if sc_up_idx s \<noteq> 0 then [IfbUp] else []) @ (if sc_dn_idx s \<noteq> 0 then [IfbDown] else [])
           in if dels = [] then ([CallLinks], cleared r, None)
              else if ta_link_del t then ([CallLinks, CallLinkDel dels], cleared r, None)
              else ([CallLinks, CallLinkDel dels], r, Some ''ip link del'')))"

definition teardown :: "bool \<Rightarrow> rate_tools \<Rightarrow> flvxRateLimiter \<Rightarrow> rate_call list \<times> flvxRateLimiter \<times> string option" where
  "teardown start t r =
     (let nft = (if start then [CallNft] else [])
      in case ta_qdiscs t of
           None \<Rightarrow> (nft @ [CallQdiscs], r, Some ''tc qdisc'')
         | Some qs \<Rightarrow>
             (let outs = map (\<lambda>(dev, kind). removeDev t dev kind) (hooked_devs (hookQdiscs qs));
                  cs = nft @ [CallQdiscs] @ concat (map fst outs)
              in if list_all snd outs then (let (cs2, res) = remove_ifbs t r in (cs @ cs2, res))
                 else (cs, r, Some ''removing a device failed'')))"

record rate_setup =
  su_links_ok :: bool
  su_roots_ok :: bool
  su_links :: "rate_link list option"

definition setup_links :: "string list" where
  "setup_links = map (\<lambda>i. ''link add '' @ ifb_name i @ '' txqueuelen 1000 type ifb'') ifbs
     @ map (\<lambda>i. ''link set '' @ ifb_name i @ '' up'') ifbs"

definition setup_roots :: "string list" where
  "setup_roots = map (\<lambda>i. ''qdisc replace dev '' @ ifb_name i @ '' root handle '' @ hex_digits flvxRateMajor @ '': htb default 0'') ifbs"

definition rate_setup_ifbs :: "rate_setup \<Rightarrow> flvxRateLimiter \<Rightarrow> flvxRateLimiter \<times> string option" where
  "rate_setup_ifbs a r =
     (if \<not> su_links_ok a then (r, Some ''creating the IFBs failed'')
      else if \<not> su_roots_ok a then (r, Some ''creating HTB failed'')
      else case su_links a of
             None \<Rightarrow> (r, Some ''ip addr'')
           | Some links \<Rightarrow>
               (let s = rate_scan links
                in if sc_up_ok s \<and> sc_dn_ok s
                   then (r\<lparr>rl_up := sc_up_idx s, rl_dn := sc_dn_idx s, rl_active := True, rl_slots := [], rl_classes := [], rl_devs := [], rl_releasing := []\<rparr>, None)
                   else (r, Some ''the IFBs are not up'')))"

section \<open>\<open>reconcile\<close>, \<open>ensure\<close> and \<open>release\<close>\<close>

text \<open>
  The answers of one pass, in the order of the calls. \<open>rp_left\<close> stands for the maps
  that a \<open>sync\<close> that fails leaves half updated.
\<close>

record rate_pass =
  rp_start :: rate_tools
  rp_links :: "rate_link list option"
  rp_rebuild :: rate_tools
  rp_setup :: rate_setup
  rp_gone :: rate_tools
  rp_hooked :: "rate_qdisc list option"
  rp_batch :: "tc_line list \<Rightarrow> bool"
  rp_left :: flvxRateLimiter
  rp_finish :: rate_tools
  rp_undo :: rate_tools

definition hooks_of :: "rate_qdisc list option \<Rightarrow> (string \<rightharpoonup> string) option" where
  "hooks_of qs = map_option (map_of \<circ> hookQdiscs) qs"

definition gone_removable :: "rate_tools \<Rightarrow> string \<Rightarrow> bool" where
  "gone_removable t dev =
     (case hooks_of (ta_qdiscs t) of None \<Rightarrow> False
      | Some h \<Rightarrow> (case h dev of None \<Rightarrow> True | Some kind \<Rightarrow> snd (removeDev t dev kind)))"

definition sync_step :: "rate_pass \<Rightarrow> time \<Rightarrow> flvxRateScan \<Rightarrow> flvxRateOwner list \<Rightarrow> flvxRateLimiter \<Rightarrow> flvxRateLimiter \<times> string option" where
  "sync_step a now s owners r =
     (case rate_sync now (hooks_of (ta_qdiscs (rp_gone a))) (hooks_of (rp_hooked a)) (gone_removable (rp_gone a)) s owners r of
        Inl e \<Rightarrow> (r\<lparr>rl_slots := rl_slots (rp_left a), rl_classes := rl_classes (rp_left a), rl_devs := rl_devs (rp_left a),
                    rl_releasing := rl_releasing (rp_left a)\<rparr>, Some e)
      | Inr (ls, r') \<Rightarrow> (r', if ls = [] \<or> rp_batch a ls then None else Some ''tc batch''))"

definition reconcile :: "rate_pass \<Rightarrow> time \<Rightarrow> flvxRateOwner list \<Rightarrow> flvxRateLimiter \<Rightarrow> flvxRateLimiter \<times> string option" where
  "reconcile a now owners r =
     (case rp_links a of
        None \<Rightarrow> (r, Some ''ip addr'')
      | Some links \<Rightarrow>
          (let s = rate_scan links;
               r1 = r\<lparr>rl_checked_at := now\<rparr>;
               broken = rl_active r1 \<and> (\<not> sc_up_ok s \<or> \<not> sc_dn_ok s \<or> sc_up_idx s \<noteq> rl_up r1 \<or> sc_dn_idx s \<noteq> rl_dn r1);
               (r2, e2) = (if broken then snd (teardown False (rp_rebuild a) r1) else (r1, None))
           in if e2 \<noteq> None then (r2, e2)
              else if \<not> rl_active r2 \<and> owners = [] then (r2, None)
              else let (r3, e3) = (if rl_active r2 then (r2, None) else rate_setup_ifbs (rp_setup a) r2)
                   in if e3 \<noteq> None then (r3, e3)
                      else let (r4, e4) = sync_step a now s owners r3
                           in if e4 \<noteq> None then (r4, e4)
                              else let r5 = r4\<lparr>rl_owners := owners\<rparr>
                                   in if owners = [] \<and> rl_classes r5 = [] then snd (teardown False (rp_finish a) r5)
                                      else (r5, None)))"

definition note_failure :: "string \<Rightarrow> time \<Rightarrow> flvxRateOwner list \<Rightarrow> flvxRateLimiter \<Rightarrow> flvxRateLimiter" where
  "note_failure e now owners r = r\<lparr>rl_failure := Some e, rl_failed_at := now, rl_failed_owners := owners\<rparr>"

definition ensure_known :: "rate_pass \<Rightarrow> time \<Rightarrow> flvxRateOwner list \<Rightarrow> flvxRateLimiter \<Rightarrow> flvxRateLimiter \<times> string option" where
  "ensure_known a now owners r =
     (if \<not> rl_active r \<and> owners = [] then (r\<lparr>rl_failure := None\<rparr>, None)
      else if rl_failure r = None \<and> rl_active r \<and> rl_releasing r = [] \<and> owners = rl_owners r
              \<and> time_sub now (rl_checked_at r) < flvxRateRecheck then (r, None)
      else case reconcile a now owners r of
             (r2, None) \<Rightarrow> (r2\<lparr>rl_failure := None\<rparr>, None)
           | (r2, Some e) \<Rightarrow>
               (let (r3, te) = snd (teardown False (rp_undo a) r2);
                    r4 = (if te = None then r3 else r3\<lparr>rl_known := False\<rparr>);
                    err = (case te of None \<Rightarrow> e | Some x \<Rightarrow> e @ [CHR 0x0A] @ x)
                in (note_failure err now owners r4, Some err)))"

definition ensure :: "rate_pass \<Rightarrow> time \<Rightarrow> flvxRateOwner list \<Rightarrow> flvxRateLimiter \<Rightarrow> flvxRateLimiter \<times> string option" where
  "ensure a now owners r =
     (if rl_failure r \<noteq> None \<and> owners = rl_failed_owners r \<and> time_sub now (rl_failed_at r) < flvxRateRecheck
      then (r, rl_failure r)
      else if rl_known r then ensure_known a now owners r
      else case snd (teardown True (rp_start a) r) of
             (r1, Some e) \<Rightarrow> (note_failure e now owners r1, Some e)
           | (r1, None) \<Rightarrow> ensure_known a now owners (r1\<lparr>rl_known := True\<rparr>))"

definition release :: "rate_tools \<Rightarrow> flvxRateLimiter \<Rightarrow> flvxRateLimiter \<times> string option" where
  "release t r =
     (case snd (teardown (\<not> rl_known r) t r) of
        (r1, Some e) \<Rightarrow> (r1, Some e)
      | (r1, None) \<Rightarrow> (r1\<lparr>rl_known := True, rl_failure := None\<rparr>, None))"

section \<open>The probe and the owners\<close>

definition flvxRateProbeRetry :: duration where "flvxRateProbeRetry = 10 * minute"

record rate_probe =
  rb_probed :: bool
  rb_ok :: bool
  rb_at :: time

text \<open>\<open>answer\<close> is what the probe script prints: the filters it reads back.\<close>

definition supported :: "(string \<times> int) list option \<Rightarrow> time \<Rightarrow> rate_probe \<Rightarrow> rate_probe \<times> bool" where
  "supported answer now p =
     (if rb_probed p \<and> (rb_ok p \<or> time_sub now (rb_at p) < flvxRateProbeRetry) then (p, rb_ok p)
      else let ok = (case answer of Some ((proto, pref) # _) \<Rightarrow> pref = flvxRatePrefV6 \<and> proto = ''ipv6'' | _ \<Rightarrow> False)
           in (\<lparr>rb_probed = True, rb_ok = ok, rb_at = now\<rparr>, ok))"

text \<open>\<open>applied\<close> is \<open>state.Applied\<close>: what the Core runs for a tag.\<close>

definition node_rate :: "flvxBudgetView \<Rightarrow> (string \<rightharpoonup> string) \<Rightarrow> Node \<Rightarrow> int option" where
  "node_rate view applied n =
     (case map_of (bv_users view) (ow_id (nd_owner n)) of
        None \<Rightarrow> None
      | Some b \<Rightarrow> (case ub_max_rate_mbps b of
          None \<Rightarrow> None
        | Some m \<Rightarrow> if m \<le> 0 \<or> applied (Node_Tag n) = None \<or> applied (Node_Tag n) = Some [] \<or> nd_port n \<le> 0 \<or> 65535 < nd_port n
                    then None else Some m))"

definition owner_of :: "Node \<Rightarrow> string" where
  "owner_of n = ow_id (nd_owner n)"

definition owner_ports :: "Node list \<Rightarrow> string \<Rightarrow> int list" where
  "owner_ports ns owner = sort (map nd_port (filter (\<lambda>n. owner_of n = owner) ns))"

definition rate_owner :: "flvxBudgetView \<Rightarrow> (string \<rightharpoonup> string) \<Rightarrow> Node list \<Rightarrow> Node \<Rightarrow> flvxRateOwner" where
  "rate_owner view applied live n =
     \<lparr>ro_owner = owner_of n, ro_bytes = (case node_rate view applied n of None \<Rightarrow> 0 | Some m \<Rightarrow> m * RateBytesPerMbps),
      ro_tcp = owner_ports live (owner_of n),
      ro_udp = owner_ports (filter (\<lambda>n. UDPProtocol (nd_protocol n)) live) (owner_of n)\<rparr>"

text \<open>The first node of an owner makes his entry, each further node adds its port.\<close>

fun first_nodes :: "string list \<Rightarrow> Node list \<Rightarrow> Node list" where
  "first_nodes seen [] = []"
| "first_nodes seen (n # ns) =
     (if owner_of n \<in> set seen then first_nodes seen ns else n # first_nodes (owner_of n # seen) ns)"

definition rateOwners :: "flvxBudgetView option \<Rightarrow> bool \<Rightarrow> string \<Rightarrow> (string \<rightharpoonup> string) \<Rightarrow> Desired \<Rightarrow> flvxRateOwner list" where
  "rateOwners view removed status applied d =
     (case view of
        None \<Rightarrow> []
      | Some v \<Rightarrow>
          if removed \<or> status \<noteq> ''active'' then []
          else (let live = filter (\<lambda>n. node_rate v applied n \<noteq> None) (ds_node_list d)
                in sort_key ro_owner (map (rate_owner v applied live) (first_nodes [] live))))"

text \<open>\<open>reconcileRates\<close>: the owners whose rate is reported as applied.\<close>

definition reconcileRates ::
  "rate_pass \<Rightarrow> time \<Rightarrow> (string \<times> int) list option \<Rightarrow> flvxRateOwner list \<Rightarrow> rate_probe \<times> flvxRateLimiter
     \<Rightarrow> (rate_probe \<times> flvxRateLimiter) \<times> string list" where
  "reconcileRates a now answer owners s =
     (let (p, ok) = (if owners = [] then (fst s, True) else supported answer now (fst s));
          wanted = (if ok then owners else []);
          (r, err) = ensure a now wanted (snd s)
      in ((p, r), if err = None then map ro_owner wanted else []))"

section \<open>An invariant of the record\<close>

text \<open>
  A known record without IFBs is empty, and a failure is remembered only with no
  IFB in place: nothing is half applied.
\<close>

definition limiter_empty :: "flvxRateLimiter \<Rightarrow> bool" where
  "limiter_empty r \<longleftrightarrow> \<not> rl_active r \<and> rl_owners r = [] \<and> rl_slots r = [] \<and> rl_classes r = [] \<and> rl_devs r = [] \<and> rl_releasing r = []"

definition limiter_ok :: "flvxRateLimiter \<Rightarrow> bool" where
  "limiter_ok r \<longleftrightarrow> (rl_known r \<longrightarrow> (rl_active r \<or> limiter_empty r) \<and> (rl_failure r \<noteq> None \<longrightarrow> limiter_empty r))"

lemma teardown_result:
  assumes "teardown start t r = (cs, r', err)"
  shows "(err = None \<and> r' = cleared r) \<or> (err \<noteq> None \<and> r' = r)"
  using assms unfolding teardown_def remove_ifbs_def
  by (auto simp: Let_def split: option.splits if_splits prod.splits)

lemma cleared_empty [simp]: "limiter_empty (cleared r)"
  by (simp add: limiter_empty_def cleared_def)

lemma cleared_known [simp]: "rl_known (cleared r) = rl_known r" "rl_failure (cleared r) = rl_failure r"
  by (simp_all add: cleared_def)

definition rate_ctl :: "flvxRateLimiter \<Rightarrow> bool \<times> bool \<times> string option" where
  "rate_ctl r = (rl_known r, rl_active r, rl_failure r)"

lemma emit_all_keeps:
  assumes "\<And>x s. g (snd (f x s)) = g s"
  shows "g (snd (emit_all f xs s)) = g s"
  by (induction xs arbitrary: s) (simp_all add: emit_all_Cons assms del: emit_all.simps(2))

lemma step_ctl:
  "rate_ctl (snd (release_class now wc slot r)) = rate_ctl r"
  "rate_ctl (snd (set_class wc slot r)) = rate_ctl r"
  "rate_ctl (snd (set_filter i dev wfs k r)) = rate_ctl r"
  by (auto simp: release_class_def set_class_def set_filter_def rate_ctl_def Let_def split: option.splits prod.splits)

lemma add_devs_ctl: "add_devs hooked wfs ds r = Inr (ls, r') \<Longrightarrow> rate_ctl r' = rate_ctl r"
proof (induction ds arbitrary: r ls)
  case (Cons x ds)
  obtain i name where x: "x = (i, name)" by fastforce
  have all: "rate_ctl (snd (emit_all (set_filter i dev wfs) ks s)) = rate_ctl s" for dev ks s
    by (rule emit_all_keeps) (rule step_ctl)
  have new: "rate_ctl (r\<lparr>rl_devs := x\<rparr>) = rate_ctl r" for x by (simp add: rate_ctl_def)
  show ?case
  proof (cases "map_of (rl_devs r) i")
    case (Some d)
    obtain l r1 where e: "emit_all (set_filter i (rd_name d) wfs) (sorted_keys wfs) r = (l, r1)" by fastforce
    then have "rate_ctl r1 = rate_ctl r" using all [of "rd_name d" "sorted_keys wfs" r] by simp
    moreover obtain ls2 where "add_devs hooked wfs ds r1 = Inr (ls2, r')"
      using Cons.prems [unfolded x] Some e by (auto split: sum.splits)
    ultimately show ?thesis using Cons.IH by metis
  next
    case None
    show ?thesis
    proof (cases "wfs = []")
      case True
      then show ?thesis using Cons.IH Cons.prems [unfolded x] None by simp
    next
      case False
      then obtain h where h: "hooked = Some h" "h name \<noteq> Some ''ingress''"
        using Cons.prems [unfolded x] None by (auto split: option.splits if_splits)
      obtain l r1 where e: "emit_all (set_filter i name wfs) (sorted_keys wfs)
          (r\<lparr>rl_devs := AList.update i \<lparr>rd_name = name, rd_filters = []\<rparr> (rl_devs r)\<rparr>) = (l, r1)" by fastforce
      then have "rate_ctl r1 = rate_ctl r" using all new by (metis snd_conv)
      moreover obtain ls2 where "add_devs hooked wfs ds r1 = Inr (ls2, r')"
        using Cons.prems [unfolded x] None False h e by (auto simp: Let_def split: sum.splits)
      ultimately show ?thesis using Cons.IH by metis
    qed
  qed
qed simp

lemma want_rates_ctl: "want_rates owners r w = Inr (r', w') \<Longrightarrow> rate_ctl r' = rate_ctl r"
proof (induction owners arbitrary: r w)
  case (Cons ow owners)
  obtain wc wfs where w: "w = (wc, wfs)" by fastforce
  obtain r1 w1 where "rate_ctl r1 = rate_ctl r" "want_rates owners r1 w1 = Inr (r', w')"
  proof (cases "map_of (rl_slots r) (ro_owner ow) = None")
    case True
    then show thesis using Cons.prems that [of "r\<lparr>rl_slots := AList.update (ro_owner ow) (freeSlot r) (rl_slots r)\<rparr>"]
      unfolding w by (auto simp: Let_def rate_ctl_def split: if_splits)
  next
    case False
    then show thesis using Cons.prems that [of r] unfolding w by (auto simp: Let_def)
  qed
  then show ?case using Cons.IH by metis
qed simp

lemma sync_keeps:
  assumes "rate_sync now before hooked removable s owners r = Inr (ls, r')"
  shows "rl_known r' = rl_known r" and "rl_active r' = rl_active r" and "rl_failure r' = rl_failure r"
proof -
  obtain r0 w where w: "want_rates owners r ([], []) = Inr (r0, w)"
    and run: "sync_wanted now hooked s w (drop_unselected s r0) = Inr (ls, r')"
    using assms unfolding rate_sync_def by (auto split: sum.splits if_splits)
  obtain l1 ds where "stale_devs now w (rl_releasing (drop_unselected s r0)) (rl_devs (drop_unselected s r0)) = (l1, ds)" by fastforce
  note stale = this
  define r1 where "r1 = (drop_unselected s r0)\<lparr>rl_devs := ds\<rparr>"
  obtain l2 r2 where e2: "emit_all (release_class now (fst w)) (sort (map fst (rl_classes r1))) r1 = (l2, r2)" by fastforce
  obtain l3 r3 where e3: "emit_all (set_class (fst w)) (sort (map fst (fst w))) r2 = (l3, r3)" by fastforce
  obtain l4 where "add_devs hooked (snd w) (sort_key fst (sc_devs s)) r3 = Inr (l4, r')"
    using run stale e2 e3 unfolding sync_wanted_def r1_def [symmetric] by (auto simp: r1_def split: sum.splits)
  then have "rate_ctl r' = rate_ctl r3" by (rule add_devs_ctl)
  also have "\<dots> = rate_ctl r2"
    using emit_all_keeps [of rate_ctl "set_class (fst w)", OF step_ctl(2)] e3 by (metis snd_conv)
  also have "\<dots> = rate_ctl r1"
    using emit_all_keeps [of rate_ctl "release_class now (fst w)", OF step_ctl(1)] e2 by (metis snd_conv)
  also have "\<dots> = rate_ctl r0" by (simp add: r1_def drop_unselected_def rate_ctl_def)
  also have "\<dots> = rate_ctl r" using w by (rule want_rates_ctl)
  finally show "rl_known r' = rl_known r" "rl_active r' = rl_active r" "rl_failure r' = rl_failure r"
    by (simp_all add: rate_ctl_def)
qed

section \<open>\<open>ensure\<close>\<close>

lemma setup_result:
  assumes "rate_setup_ifbs a r = (r', err)"
  shows "(err = None \<and> rl_active r' \<and> rl_known r' = rl_known r \<and> rl_failure r' = rl_failure r) \<or> (err \<noteq> None \<and> r' = r)"
  using assms unfolding rate_setup_ifbs_def by (auto simp: Let_def split: if_splits option.splits)

lemma sync_step_result:
  assumes "sync_step a now s owners r = (r', err)"
  shows "rl_known r' = rl_known r" and "rl_active r' = rl_active r"
  using assms sync_keeps unfolding sync_step_def by (force split: sum.splits)+

definition reconciled :: "flvxRateOwner list \<Rightarrow> flvxRateLimiter \<Rightarrow> bool" where
  "reconciled owners r \<longleftrightarrow> (rl_active r \<longrightarrow> rl_owners r = owners) \<and> (rl_active r \<or> owners = [] \<and> limiter_empty r)"

lemma reconciled_empty: "limiter_empty r \<Longrightarrow> reconciled [] r"
  by (simp add: reconciled_def limiter_empty_def)

lemma reconciled_cleared [simp]: "reconciled [] (cleared r)"
  by (rule reconciled_empty) simp

lemma reconcile_result:
  assumes run: "reconcile a now owners r = (r', err)" and "rl_active r \<or> limiter_empty r"
  shows "rl_known r' = rl_known r" and "err = None \<Longrightarrow> reconciled owners r'"
proof -
  have "rl_known r' = rl_known r \<and> (err = None \<longrightarrow> reconciled owners r')"
  proof (cases "rp_links a")
    case None
    then show ?thesis using run by (auto simp: reconcile_def)
  next
    case (Some links)
    define s where "s = rate_scan links"
    define r1 where "r1 = r\<lparr>rl_checked_at := now\<rparr>"
    obtain r2 e2 where e2: "(if rl_active r1 \<and> (\<not> sc_up_ok s \<or> \<not> sc_dn_ok s \<or> sc_up_idx s \<noteq> rl_up r1 \<or> sc_dn_idx s \<noteq> rl_dn r1)
        then snd (teardown False (rp_rebuild a) r1) else (r1, None)) = (r2, e2)" by fastforce
    obtain r3 e3 where e3: "(if rl_active r2 then (r2, None) else rate_setup_ifbs (rp_setup a) r2) = (r3, e3)" by fastforce
    obtain r4 e4 where e4: "sync_step a now s owners r3 = (r4, e4)" by fastforce
    have out: "(r', err) = (if e2 \<noteq> None then (r2, e2) else if \<not> rl_active r2 \<and> owners = [] then (r2, None)
        else if e3 \<noteq> None then (r3, e3) else if e4 \<noteq> None then (r4, e4)
        else if owners = [] \<and> rl_classes (r4\<lparr>rl_owners := owners\<rparr>) = []
          then snd (teardown False (rp_finish a) (r4\<lparr>rl_owners := owners\<rparr>)) else (r4\<lparr>rl_owners := owners\<rparr>, None))"
      using run unfolding reconcile_def Some option.case Let_def s_def [symmetric] r1_def [symmetric] e2 prod.case e3 e4 by (rule sym)
    have one: "rl_known r1 = rl_known r" "rl_active r1 = rl_active r" "limiter_empty r1 = limiter_empty r"
      by (simp_all add: r1_def limiter_empty_def)
    have two: "rl_known r2 = rl_known r" "rl_active r2 \<or> limiter_empty r2"
      using e2 teardown_result [of False "rp_rebuild a" r1] one assms(2)
      by (cases "teardown False (rp_rebuild a) r1", auto split: if_splits)+
    have three: "rl_known r3 = rl_known r2" "e3 = None \<Longrightarrow> rl_active r3"
      using e3 setup_result [of "rp_setup a" r2] by (auto split: if_splits)
    have four: "rl_known r4 = rl_known r3" "rl_active r4 = rl_active r3" using sync_step_result [OF e4] by simp_all
    show ?thesis
    proof (cases "e2 \<noteq> None \<or> \<not> rl_active r2 \<and> owners = [] \<or> e3 \<noteq> None \<or> e4 \<noteq> None")
      case True
      then show ?thesis using out two three four by (auto simp: reconciled_def split: if_splits)
    next
      case False
      obtain cs r6 e6 where e6: "teardown False (rp_finish a) (r4\<lparr>rl_owners := owners\<rparr>) = (cs, r6, e6)" by (metis surj_pair)
      show ?thesis
        using out False two three four teardown_result [OF e6] e6 by (auto simp: reconciled_def [of _ "r4\<lparr>rl_owners := owners\<rparr>"] split: if_splits)
    qed
  qed
  then show "rl_known r' = rl_known r" "err = None \<Longrightarrow> reconciled owners r'" by blast+
qed

definition steady_after :: "flvxRateOwner list \<Rightarrow> flvxRateLimiter \<Rightarrow> bool" where
  "steady_after owners r \<longleftrightarrow> rl_known r \<and> rl_failure r = None \<and> reconciled owners r"

definition failed_after :: "string \<Rightarrow> flvxRateOwner list \<Rightarrow> flvxRateLimiter \<Rightarrow> bool" where
  "failed_after e owners r \<longleftrightarrow> rl_failure r = Some e \<and> rl_failed_owners r = owners \<and> (rl_known r \<longrightarrow> limiter_empty r)"

lemma note_failure_props [simp]:
  "rl_failure (note_failure e now owners r) = Some e" "rl_failed_owners (note_failure e now owners r) = owners"
  "rl_known (note_failure e now owners r) = rl_known r" "limiter_empty (note_failure e now owners r) = limiter_empty r"
  by (simp_all add: note_failure_def limiter_empty_def)

lemma reconciled_failure [simp]: "reconciled owners (r\<lparr>rl_failure := f\<rparr>) = reconciled owners r"
  by (simp add: reconciled_def limiter_empty_def)

lemma ensure_known_result:
  assumes run: "ensure_known a now owners r = (r', err)" and "rl_known r" and start: "rl_active r \<or> limiter_empty r"
  shows "case err of None \<Rightarrow> steady_after owners r' | Some e \<Rightarrow> failed_after e owners r'"
proof -
  consider (idle) "\<not> rl_active r" "owners = []"
    | (steady) "rl_failure r = None" "rl_active r" "owners = rl_owners r" "r' = r" "err = None"
    | (work) "ensure_known a now owners r = (case reconcile a now owners r of
             (r2, None) \<Rightarrow> (r2\<lparr>rl_failure := None\<rparr>, None)
           | (r2, Some e) \<Rightarrow>
               (let (r3, te) = snd (teardown False (rp_undo a) r2);
                    r4 = (if te = None then r3 else r3\<lparr>rl_known := False\<rparr>);
                    err = (case te of None \<Rightarrow> e | Some x \<Rightarrow> e @ [CHR 0x0A] @ x)
                in (note_failure err now owners r4, Some err)))"
  proof -
    define fresh where "fresh \<longleftrightarrow> rl_failure r = None \<and> rl_active r \<and> rl_releasing r = [] \<and> owners = rl_owners r
      \<and> time_sub now (rl_checked_at r) < flvxRateRecheck"
    show thesis
    proof (cases "\<not> rl_active r \<and> owners = []")
      case True
      then show thesis using idle by blast
    next
      case no: False
      show thesis
      proof (cases fresh)
        case True
        then have "r' = r" "err = None" using run no unfolding ensure_known_def fresh_def [symmetric] by simp_all
        then show thesis by (intro steady) (use True in \<open>auto simp: fresh_def\<close>)
      next
        case False
        show thesis
          by (rule work) (simp only: ensure_known_def fresh_def [symmetric] no False if_False)
      qed
    qed
  qed
  then show ?thesis
  proof cases
    case idle
    then have "r' = r\<lparr>rl_failure := None\<rparr>" "err = None" using run by (simp_all add: ensure_known_def)
    then show ?thesis using idle start assms(2) by (simp add: steady_after_def reconciled_empty)
  next
    case steady
    then show ?thesis using assms(2) by (simp add: steady_after_def reconciled_def)
  next
    case work
    obtain r2 e2 where rec: "reconcile a now owners r = (r2, e2)" by fastforce
    note two = reconcile_result [OF rec start]
    show ?thesis
    proof (cases e2)
      case None
      then have "r' = r2\<lparr>rl_failure := None\<rparr>" "err = None" using run work rec by auto
      then show ?thesis using None two assms(2) by (simp add: steady_after_def)
    next
      case (Some e)
      obtain cs r3 te where td: "teardown False (rp_undo a) r2 = (cs, r3, te)" by (metis surj_pair)
      have out: "r' = note_failure (case te of None \<Rightarrow> e | Some x \<Rightarrow> e @ [CHR 0x0A] @ x) now owners
            (if te = None then r3 else r3\<lparr>rl_known := False\<rparr>)"
          "err = Some (case te of None \<Rightarrow> e | Some x \<Rightarrow> e @ [CHR 0x0A] @ x)"
        using run [unfolded work] unfolding rec Some prod.case option.case td snd_conv Let_def by simp_all
      show ?thesis using teardown_result [OF td] unfolding out by (auto simp: failed_after_def)
    qed
  qed
qed

text \<open>Passes and releases, from a new limiter.\<close>

definition new_limiter :: flvxRateLimiter where
  "new_limiter = \<lparr>rl_known = False, rl_active = False, rl_up = 0, rl_dn = 0, rl_owners = [], rl_slots = [], rl_classes = [], rl_devs = [],
     rl_releasing = [], rl_checked_at = 0, rl_failure = None, rl_failed_at = 0, rl_failed_owners = []\<rparr>"

inductive limiter_reach :: "flvxRateLimiter \<Rightarrow> bool" where
  new: "limiter_reach new_limiter"
| pass: "limiter_reach r \<Longrightarrow> ensure a now owners r = (r', err) \<Longrightarrow> limiter_reach r'"
| gone: "limiter_reach r \<Longrightarrow> release t r = (r', err) \<Longrightarrow> limiter_reach r'"

lemma failed_ok: "failed_after e owners r \<Longrightarrow> limiter_ok r"
  by (auto simp: failed_after_def limiter_ok_def)

lemma steady_ok: "steady_after owners r \<Longrightarrow> limiter_ok r"
  by (auto simp: steady_after_def limiter_ok_def reconciled_def)

lemma ensure_result:
  assumes "ensure a now owners r = (r', err)" and "limiter_ok r"
  shows "case err of None \<Rightarrow> steady_after owners r' | Some e \<Rightarrow> failed_after e owners r'"
proof -
  obtain cs r1 e1 where td: "teardown True (rp_start a) r = (cs, r1, e1)" by (metis surj_pair)
  consider (early) e where "rl_failure r = Some e" "owners = rl_failed_owners r" "r' = r" "err = Some e"
    | (known) "rl_known r" "ensure_known a now owners r = (r', err)"
    | (failed) e where "\<not> rl_known r" "e1 = Some e" "r' = note_failure e now owners r1" "err = Some e"
    | (first) "e1 = None" "ensure_known a now owners (r1\<lparr>rl_known := True\<rparr>) = (r', err)"
  proof (cases "rl_failure r \<noteq> None \<and> owners = rl_failed_owners r \<and> time_sub now (rl_failed_at r) < flvxRateRecheck")
    case True
    then have "r' = r" "err = rl_failure r" using assms(1) by (auto simp: ensure_def)
    then show thesis using early True by (cases "rl_failure r") simp_all
  next
    case no: False
    have out: "(if rl_known r then ensure_known a now owners r
        else case (r1, e1) of (r1, Some e) \<Rightarrow> (note_failure e now owners r1, Some e)
             | (r1, None) \<Rightarrow> ensure_known a now owners (r1\<lparr>rl_known := True\<rparr>)) = (r', err)"
      using assms(1) unfolding ensure_def no if_not_P [OF no] td snd_conv .
    show thesis
    proof (cases "rl_known r")
      case True
      then show thesis using known out by simp
    next
      case False
      then show thesis using failed first out by (cases e1) auto
    qed
  qed
  then show ?thesis
  proof cases
    case early
    then show ?thesis using assms(2) by (simp add: failed_after_def limiter_ok_def)
  next
    case known
    then show ?thesis using ensure_known_result assms(2) unfolding limiter_ok_def by blast
  next
    case failed
    then show ?thesis using teardown_result [OF td] by (simp add: failed_after_def)
  next
    case first
    then have "r1 = cleared r" using teardown_result [OF td] by simp
    then show ?thesis using ensure_known_result [OF first(2)] by (simp add: limiter_empty_def cleared_def)
  qed
qed

lemma limiter_reach_ok: "limiter_reach r \<Longrightarrow> limiter_ok r"
proof (induction rule: limiter_reach.induct)
  case new
  then show ?case by (simp add: limiter_ok_def new_limiter_def)
next
  case (pass r a now owners r' err)
  then show ?case using ensure_result [OF pass(2,3)] failed_ok steady_ok by (auto split: option.splits)
next
  case (gone r t r' err)
  obtain cs r1 e where td: "teardown (\<not> rl_known r) t r = (cs, r1, e)" by (metis surj_pair)
  show ?case
    using gone td teardown_result [OF td] unfolding release_def
    by (auto simp: limiter_ok_def limiter_empty_def cleared_def split: option.splits)
qed



section \<open>What a removal touches\<close>

lemma ask_filters_Some:
  assumes "ask_filters t dev hs = (cs, Some as)"
  shows "as = map (\<lambda>h. (h, the (ta_filters t dev h))) hs" and "\<forall>h \<in> set hs. ta_filters t dev h \<noteq> None"
    and "set cs = CallFilters dev ` set hs"
  using assms by (induction hs arbitrary: cs as) (auto split: option.splits prod.splits)

lemma ask_filters_calls: "ask_filters t dev hs = (cs, as) \<Longrightarrow> set cs \<subseteq> CallFilters dev ` set hs"
  by (induction hs arbitrary: cs as) (auto split: option.splits prod.splits)

definition own_line :: "rate_tools \<Rightarrow> string \<Rightarrow> rem_line \<Rightarrow> bool" where
  "own_line t dev l \<longleftrightarrow> (case l of
       ProtoDel d _ _ pref \<Rightarrow> d = dev \<and> our_pref pref
     | ClsactDel d \<Rightarrow> d = dev \<and> (\<forall>h \<in> {''ingress'', ''egress''}. \<exists>fs. ta_filters t dev h = Some fs \<and> (\<forall>(_, pref) \<in> set fs. our_pref pref)))"

definition dev_clean :: "rate_tools \<Rightarrow> string \<Rightarrow> string \<Rightarrow> rate_call list \<Rightarrow> bool" where
  "dev_clean t dev kind cs \<longleftrightarrow> (\<forall>h \<in> set (dev_hooks kind). \<exists>fs. ta_filters t dev h = Some fs
     \<and> (\<forall>(proto, pref) \<in> set fs. our_pref pref \<longrightarrow> ta_batch t dev \<and> (\<exists>ls. CallDev dev ls \<in> set cs \<and> ProtoDel dev h proto pref \<in> set ls)))"

lemma remove_lines_own:
  assumes "ask_filters t dev (dev_hooks kind) = (cs, Some as)" and "l \<in> set (remove_lines dev kind as)"
  shows "own_line t dev l"
proof -
  note as = ask_filters_Some [OF assms(1)]
  consider (proto) h proto pref where "l = ProtoDel dev h proto pref" "our_pref pref"
    | (clsact) "l = ClsactDel dev" "kind = ''clsact''" "list_all (\<lambda>(_, fs). list_all (\<lambda>(_, pref). our_pref pref) fs) as"
    using assms(2) unfolding remove_lines_def by (auto split: if_splits)
  then show ?thesis
  proof cases
    case clsact
    have "\<exists>fs. ta_filters t dev h = Some fs \<and> (\<forall>(_, pref) \<in> set fs. our_pref pref)" if "h \<in> {''ingress'', ''egress''}" for h
    proof -
      have h: "h \<in> set (dev_hooks kind)" using that clsact(2) by (auto simp: dev_hooks_def)
      then obtain fs where fs: "ta_filters t dev h = Some fs" using as(2) by blast
      then have "(h, fs) \<in> set as" using h unfolding as(1) by force
      then show ?thesis using fs clsact(3) by (auto simp: list_all_iff)
    qed
    then show ?thesis using clsact(1) by (simp add: own_line_def)
  qed (simp add: own_line_def)
qed

lemma removeDev_calls:
  assumes "removeDev t dev kind = (cs, ok)"
  shows "CallLinkDel is \<notin> set cs" and "CallDev d ls \<in> set cs \<Longrightarrow> d = dev \<and> (\<forall>l \<in> set ls. own_line t dev l)"
proof -
  obtain qs as where ask: "ask_filters t dev (dev_hooks kind) = (qs, as)" by fastforce
  have queries: "CallLinkDel is \<notin> set qs" "CallDev d ls \<notin> set qs" using ask_filters_calls [OF ask] by auto
  show "CallLinkDel is \<notin> set cs"
    using assms ask queries unfolding removeDev_def by (auto simp: Let_def split: option.splits if_splits)
  assume "CallDev d ls \<in> set cs"
  then obtain a where "as = Some a" "ls = remove_lines dev kind a" "d = dev"
    using assms ask queries unfolding removeDev_def by (auto simp: Let_def split: option.splits if_splits)
  then show "d = dev \<and> (\<forall>l \<in> set ls. own_line t dev l)" using remove_lines_own ask by blast
qed

lemma removeDev_clean:
  assumes "removeDev t dev kind = (cs, True)"
  shows "dev_clean t dev kind cs"
proof -
  obtain qs as where ask: "ask_filters t dev (dev_hooks kind) = (qs, Some as)"
    using assms unfolding removeDev_def by (cases "ask_filters t dev (dev_hooks kind)") (auto split: option.splits)
  note as = ask_filters_Some [OF ask]
  show ?thesis
    unfolding dev_clean_def
  proof
    fix h assume h: "h \<in> set (dev_hooks kind)"
    then obtain fs where fs: "ta_filters t dev h = Some fs" using as(2) by blast
    have "ta_batch t dev \<and> (\<exists>ls. CallDev dev ls \<in> set cs \<and> ProtoDel dev h proto pref \<in> set ls)"
      if "(proto, pref) \<in> set fs" "our_pref pref" for proto pref
    proof -
      have mem: "ProtoDel dev h proto pref \<in> set (remove_lines dev kind as)"
        using that fs h as(1) unfolding remove_lines_def by force
      then have "remove_lines dev kind as \<noteq> []" by force
      then show ?thesis using assms ask mem unfolding removeDev_def by (auto simp: Let_def)
    qed
    then show "\<exists>fs. ta_filters t dev h = Some fs \<and> (\<forall>(proto, pref) \<in> set fs. our_pref pref \<longrightarrow> ta_batch t dev
        \<and> (\<exists>ls. CallDev dev ls \<in> set cs \<and> ProtoDel dev h proto pref \<in> set ls))"
      using fs by blast
  qed
qed

text \<open>
  A teardown sends only lines that remove the Helper's own filters, on the device
  it is at, and takes a clsact away only when every filter it found on the device was
  one of them. The IFBs go last, and only after all its filters on every other device
  with a qdisc were removed: no redirect ever points to a missing device.
\<close>

theorem teardown_own_objects:
  assumes "teardown start t r = (cs, r', err)"
  shows "(\<forall>dev ls. CallDev dev ls \<in> set cs \<longrightarrow> (\<forall>l \<in> set ls. own_line t dev l))
    \<and> (\<forall>is. CallLinkDel is \<in> set cs \<longrightarrow> last cs = CallLinkDel is \<and> (\<exists>qs. ta_qdiscs t = Some qs
         \<and> (\<forall>(dev, kind) \<in> set (hookQdiscs qs). dev \<in> ifb_name ` set ifbs \<or> dev_clean t dev kind cs)))"
proof (cases "ta_qdiscs t")
  case None
  then show ?thesis using assms by (auto simp: teardown_def Let_def)
next
  case (Some qs)
  define devs where "devs = hooked_devs (hookQdiscs qs)"
  define outs where "outs = map (\<lambda>(dev, kind). removeDev t dev kind) devs"
  define pre where "pre = (if start then [CallNft] else []) @ [CallQdiscs] @ concat (map fst outs)"
  obtain cs2 r2 e2 where ifb: "remove_ifbs t r = (cs2, r2, e2)" by (metis surj_pair)
  have out: "cs = (if list_all snd outs then pre @ cs2 else pre)"
    using assms unfolding teardown_def Some option.case Let_def devs_def [symmetric] outs_def [symmetric] pre_def [symmetric] ifb by (auto split: if_splits)
  have cs2: "CallDev dev ls \<notin> set cs2" "CallLinkDel is \<in> set cs2 \<Longrightarrow> last cs2 = CallLinkDel is \<and> cs2 \<noteq> []" for dev ls "is"
    using ifb unfolding remove_ifbs_def by (auto simp: Let_def split: option.splits if_splits)
  have calls: "\<exists>dev kind. (dev, kind) \<in> set devs \<and> c \<in> set (fst (removeDev t dev kind))"
    if "c \<in> set pre" "c \<noteq> CallNft" "c \<noteq> CallQdiscs" for c
    using that by (auto simp: pre_def outs_def split: if_splits)
  have own: "\<forall>l \<in> set ls. own_line t dev l" if mem: "CallDev dev ls \<in> set cs" for dev ls
  proof -
    have "CallDev dev ls \<in> set pre" using mem cs2(1) unfolding out by (auto split: if_splits)
    then obtain d k where "CallDev dev ls \<in> set (fst (removeDev t d k))" using calls by blast
    then show ?thesis using removeDev_calls(2) by (metis prod.collapse)
  qed
  have last: "last cs = CallLinkDel is \<and> (\<exists>qs. ta_qdiscs t = Some qs
      \<and> (\<forall>(dev, kind) \<in> set (hookQdiscs qs). dev \<in> ifb_name ` set ifbs \<or> dev_clean t dev kind cs))"
    if mem: "CallLinkDel is \<in> set cs" for "is"
  proof -
    have "CallLinkDel is \<notin> set pre"
      using calls [of "CallLinkDel is"] removeDev_calls(1) by (metis prod.collapse rate_call.distinct)
    then have all: "list_all snd outs" "CallLinkDel is \<in> set cs2" using mem unfolding out by (auto split: if_splits)
    then have cs: "cs = pre @ cs2" "last cs = CallLinkDel is" using cs2(2) [OF all(2)] by (simp_all add: out)
    have "dev_clean t dev kind cs" if "(dev, kind) \<in> set (hookQdiscs qs)" "dev \<notin> ifb_name ` set ifbs" for dev kind
    proof -
      have "(dev, kind) \<in> set devs" using that by (simp add: devs_def hooked_devs_def ifbs_def)
      then have step: "removeDev t dev kind \<in> set outs" by (force simp: outs_def)
      then have "snd (removeDev t dev kind)" using all(1) by (simp add: list_all_iff)
      then have "dev_clean t dev kind (fst (removeDev t dev kind))" using removeDev_clean by (metis prod.collapse)
      moreover have "set (fst (removeDev t dev kind)) \<subseteq> set cs" using step unfolding cs(1) by (auto simp: pre_def)
      ultimately show ?thesis unfolding dev_clean_def by (fast dest: subsetD)
    qed
    then show ?thesis using cs(2) Some by blast
  qed
  show ?thesis using own last by blast
qed

theorem teardown_own_objects_witness:
  "\<exists>t cs r' ls. teardown False t new_limiter = (cs, r', None) \<and> last cs = CallLinkDel [IfbUp] \<and> dev_clean t ''eth0'' ''clsact'' cs
     \<and> CallDev ''eth0'' ls \<in> set cs \<and> ClsactDel ''eth0'' \<in> set ls"
proof -
  define t where "t = \<lparr>ta_qdiscs = Some [\<lparr>rq_kind = ''clsact'', rq_dev = ''eth0'', rq_parent = ''ffff:fff1''\<rparr>],
    ta_filters = (\<lambda>_ h. Some (if h = ''egress'' then [(''ip'', flvxRatePrefV4)] else [])), ta_batch = (\<lambda>_. True),
    ta_links = Some [\<lparr>ln_index = 5, ln_name = ifb_name IfbUp, ln_flags = [''UP''], ln_master = [], ln_link = [], ln_kind = ''ifb'', ln_addrs = []\<rparr>],
    ta_link_del = True\<rparr>"
  define ls where "ls = [ProtoDel ''eth0'' ''egress'' ''ip'' flvxRatePrefV4, ClsactDel ''eth0'']"
  define cs where "cs = [CallQdiscs, CallFilters ''eth0'' ''ingress'', CallFilters ''eth0'' ''egress'', CallDev ''eth0'' ls, CallLinks, CallLinkDel [IfbUp]]"
  have run: "teardown False t new_limiter = (cs, cleared new_limiter, None)"
    unfolding t_def cs_def ls_def by code_simp
  have q: "ta_qdiscs t = Some [\<lparr>rq_kind = ''clsact'', rq_dev = ''eth0'', rq_parent = ''ffff:fff1''\<rparr>]" by (simp add: t_def)
  have h: "(''eth0'', ''clsact'') \<in> set (hookQdiscs [\<lparr>rq_kind = ''clsact'', rq_dev = ''eth0'', rq_parent = ''ffff:fff1''\<rparr>])"
    "''eth0'' \<notin> ifb_name ` set ifbs" by (simp_all add: hookQdiscs_def ifbs_def ifb_name_def)
  have "CallLinkDel [IfbUp] \<in> set cs" by (simp add: cs_def)
  then have "last cs = CallLinkDel [IfbUp] \<and> dev_clean t ''eth0'' ''clsact'' cs"
    using teardown_own_objects [OF run] q h by fastforce
  moreover have "CallDev ''eth0'' ls \<in> set cs" "ClsactDel ''eth0'' \<in> set ls" by (simp_all add: cs_def ls_def)
  ultimately show ?thesis using run by blast
qed

section \<open>The rate of a node's port\<close>

lemma first_nodes_props:
  "distinct (map owner_of (first_nodes seen ns))" "set (first_nodes seen ns) \<subseteq> set ns"
  "owner_of ` set (first_nodes seen ns) = owner_of ` set ns - set seen"
  by (induction ns arbitrary: seen) auto

definition live_nodes :: "flvxBudgetView \<Rightarrow> (string \<rightharpoonup> string) \<Rightarrow> Desired \<Rightarrow> Node list" where
  "live_nodes v applied d = filter (\<lambda>n. node_rate v applied n \<noteq> None) (ds_node_list d)"

lemma rateOwners_eq:
  "rateOwners (Some v) False ''active'' applied d
     = sort_key ro_owner (map (rate_owner v applied (live_nodes v applied d)) (first_nodes [] (live_nodes v applied d)))"
  by (simp add: rateOwners_def live_nodes_def Let_def)

lemma rateOwners_distinct: "distinct (map ro_owner (rateOwners view removed status applied d))"
proof (cases "view = None \<or> removed \<or> status \<noteq> ''active''")
  case True
  then have "rateOwners view removed status applied d = []" unfolding rateOwners_def by (cases view) auto
  then show ?thesis by simp
next
  case False
  then obtain v where "rateOwners view removed status applied d = rateOwners (Some v) False ''active'' applied d" by auto
  moreover have "distinct (map ro_owner (map (rate_owner v applied (live_nodes v applied d)) (first_nodes [] (live_nodes v applied d))))"
    using first_nodes_props(1) [of "[]" "live_nodes v applied d"] by (simp add: rate_owner_def comp_def)
  ultimately show ?thesis by (simp only: rateOwners_eq distinct_map set_sort distinct_sort)
qed

lemma node_rate_same: "node_rate v applied n = Some m \<Longrightarrow> node_rate v applied n2 \<noteq> None \<Longrightarrow> owner_of n2 = owner_of n \<Longrightarrow> node_rate v applied n2 = Some m"
  by (auto simp: node_rate_def owner_of_def split: option.splits if_splits)

lemma rateOwners_entry:
  assumes "n \<in> set (live_nodes v applied d)" and "node_rate v applied n = Some m"
  shows "\<exists>ow \<in> set (rateOwners (Some v) False ''active'' applied d). ro_owner ow = owner_of n \<and> ro_bytes ow = m * RateBytesPerMbps
    \<and> nd_port n \<in> set (ro_tcp ow) \<and> (UDPProtocol (nd_protocol n) \<longrightarrow> nd_port n \<in> set (ro_udp ow))"
proof -
  have "owner_of n \<in> owner_of ` set (first_nodes [] (live_nodes v applied d))" using assms(1) first_nodes_props(3) by fastforce
  then obtain n2 where n2: "n2 \<in> set (first_nodes [] (live_nodes v applied d))" "owner_of n2 = owner_of n" by auto
  then have "node_rate v applied n2 \<noteq> None" using first_nodes_props(2) unfolding live_nodes_def by fastforce
  then have "node_rate v applied n2 = Some m" using node_rate_same assms(2) n2(2) by blast
  moreover have "rate_owner v applied (live_nodes v applied d) n2 \<in> set (rateOwners (Some v) False ''active'' applied d)"
    using n2(1) unfolding rateOwners_eq by simp
  ultimately show ?thesis
    using n2(2) assms(1)
    by (intro bexI [of _ "rate_owner v applied (live_nodes v applied d) n2"]) (auto simp: rate_owner_def owner_ports_def)
qed

lemma port_keys_iff: "k \<in> set (port_keys udp p) \<longleftrightarrow> rk_udp k = udp \<and> rk_port k = p mod 2 ^ 16"
proof -
  have "k = \<lparr>rk_egress = rk_egress k, rk_v6 = rk_v6 k, rk_udp = rk_udp k, rk_port = rk_port k\<rparr>" by simp
  then show ?thesis unfolding port_keys_def by (cases "rk_egress k"; cases "rk_v6 k") auto
qed

lemma owner_keys_iff: "k \<in> set (owner_keys ow) \<longleftrightarrow> rk_port k \<in> (\<lambda>p. p mod 2 ^ 16) ` set (if rk_udp k then ro_udp ow else ro_tcp ow)"
  by (auto simp: owner_keys_def port_keys_iff)

text \<open>A port that an owner's entry lists is the port of one of his nodes that has a rate.\<close>

lemma rateOwners_keys:
  assumes "ow \<in> set (rateOwners (Some v) False ''active'' applied d)" and "key \<in> set (owner_keys ow)"
  shows "\<exists>n \<in> set (live_nodes v applied d). owner_of n = ro_owner ow \<and> nd_port n = rk_port key \<and> (rk_udp key \<longrightarrow> UDPProtocol (nd_protocol n))"
proof -
  obtain n0 where ow: "ow = rate_owner v applied (live_nodes v applied d) n0"
    using assms(1) unfolding rateOwners_eq by auto
  obtain p where p: "p \<in> set (if rk_udp key then ro_udp ow else ro_tcp ow)" "rk_port key = p mod 2 ^ 16"
    using assms(2) unfolding owner_keys_iff by blast
  then obtain n where n: "n \<in> set (live_nodes v applied d)" "owner_of n = ro_owner ow" "nd_port n = p" "rk_udp key \<longrightarrow> UDPProtocol (nd_protocol n)"
    unfolding ow by (auto simp: rate_owner_def owner_ports_def split: if_splits)
  have "0 < nd_port n" "nd_port n \<le> 65535"
    using n(1) by (auto simp: live_nodes_def node_rate_def split: option.splits if_splits)
  then have "rk_port key = nd_port n" using p(2) n(3) by simp
  then show ?thesis using n by metis
qed

lemma rate_wire_exact:
  assumes "0 \<le> m" and "m \<le> MaxUserRateMbps"
  shows "flvxRateWire (m * RateBytesPerMbps) = m * 1048576 * 106 div 100"
proof -
  have "0 \<le> m * 1048576 * 106" "m * 1048576 * 106 < 2 ^ 64" using assms by (simp_all add: MaxUserRateMbps_def)
  then have "(m * 1048576 * 106) mod 2 ^ 64 = m * 1048576 * 106" by (rule mod_pos_pos_trivial)
  moreover have "m * RateBytesPerMbps * 8 * 106 = m * 1048576 * 106" by (simp add: RateBytesPerMbps_def)
  ultimately show ?thesis by (simp only: flvxRateWire_def)
qed


definition ex_rate_node :: Node where
  "ex_rate_node = \<lparr>nd_id = ''n1'', nd_owner = \<lparr>ow_id = ''u1'', ow_name = []\<rparr>, nd_name = [], nd_protocol = ''vless'', nd_port = 443, nd_enabled = None,
     nd_max_connections = 0, nd_max_online_ips = 0, nd_expires_at = None, nd_conn_mode = [], nd_max_total_connections = 0,
     nd_ss2022 = None, nd_vless = None, nd_anytls = None, nd_snell = None, nd_mieru = None\<rparr>"

definition ex_rate_desired :: Desired where
  "ex_rate_desired = \<lparr>ds_revision = 1, ds_nodes = Some [ex_rate_node], ds_egress = None, ds_reality_guard = None, ds_scan_guard = None,
     ds_reality_pin_margin_ms = None\<rparr>"

definition ex_rate_view :: flvxBudgetView where
  "ex_rate_view = \<lparr>bv_sequence = 1, bv_users = [(''u1'', \<lparr>ub_user_id = ''u1'', ub_max_inbound_connections = None,
     ub_server_max_inbound_connections = None, ub_max_inbound_online_ips = None, ub_relay_ip_reserve = 0, ub_max_rate_mbps = Some 8\<rparr>)],
     bv_relay = {}\<rparr>"

definition ex_node_sync :: "string + tc_line list \<times> flvxRateLimiter" where
  "ex_node_sync = rate_sync 0 (Some (\<lambda>_. None)) (Some (\<lambda>_. None)) (\<lambda>_. True) ex_scan
     (rateOwners (Some ex_rate_view) False ''active'' (\<lambda>_. Some ''1'') ex_rate_desired) ex_limiter"


end
