(* ===== verification/Machine_Kernel.thy ===== *)
theory Machine_Kernel
  imports Machine_Guard
begin

text \<open>
  What the nft batches of the machine guard do, as documented: a batch is applied
  whole or not at all, \<open>add\<close> of a table, set or chain that is there changes nothing,
  and a hooked chain drops what its rules name; a deletion may fail and leave the
  table. The guard refines this: whatever happened before, after a pass the table
  drops nothing unless the pass reports blocking, and then only new connections to the
  ports it reports, or the last deletion left the table standing (lemma
  \<open>release_keeps_table\<close> has such a run). The second half is the TIME_WAIT limit and its
  restoration.
\<close>

section \<open>nft\<close>

record nft_table =
  nt_sets :: "bool \<Rightarrow> int set"
  nt_rules :: "nft_chain \<Rightarrow> nft_line list option"

definition empty_table :: nft_table where
  "empty_table = \<lparr>nt_sets = (\<lambda>_. {}), nt_rules = (\<lambda>_. None)\<rparr>"

definition add_chain :: "nft_chain \<Rightarrow> nft_table \<Rightarrow> nft_table" where
  "add_chain c t = (if nt_rules t c = None then t\<lparr>nt_rules := (nt_rules t)(c \<mapsto> [])\<rparr> else t)"

definition add_rule :: "nft_chain \<Rightarrow> nft_line \<Rightarrow> nft_table \<Rightarrow> nft_table option" where
  "add_rule c l t = map_option (\<lambda>rs. t\<lparr>nt_rules := (nt_rules t)(c \<mapsto> rs @ [l])\<rparr>) (nt_rules t c)"

fun line_run :: "nft_line \<Rightarrow> nft_table \<Rightarrow> nft_table option" where
  "line_run AddTable t = Some t"
| "line_run AddCounter t = Some t"
| "line_run (AddSet udp) t = Some t"
| "line_run (FlushSet udp) t = Some (t\<lparr>nt_sets := (nt_sets t)(udp := {})\<rparr>)"
| "line_run (AddElements udp ps) t = Some (t\<lparr>nt_sets := (nt_sets t)(udp := nt_sets t udp \<union> set ps)\<rparr>)"
| "line_run (AddPlainChain c) t = Some (add_chain c t)"
| "line_run (AddHookChain c) t = Some (add_chain c t)"
| "line_run (FlushChain c) t = (if nt_rules t c = None then None else Some (t\<lparr>nt_rules := (nt_rules t)(c \<mapsto> [])\<rparr>))"
| "line_run (DeleteChain c) t = (if nt_rules t c = None then None else Some (t\<lparr>nt_rules := (nt_rules t)(c := None)\<rparr>))"
| "line_run RuleKeepConntrack t = add_rule Conntrack RuleKeepConntrack t"
| "line_run RuleLoopback t = add_rule Prerouting RuleLoopback t"
| "line_run (RuleDrop udp) t = add_rule Prerouting (RuleDrop udp) t"

fun run_lines :: "nft_line list \<Rightarrow> nft_table \<Rightarrow> nft_table option" where
  "run_lines [] t = Some t"
| "run_lines (l # ls) t = (case line_run l t of None \<Rightarrow> None | Some t' \<Rightarrow> run_lines ls t')"

lemma run_lines_append: "run_lines (xs @ ys) t = (case run_lines xs t of None \<Rightarrow> None | Some t' \<Rightarrow> run_lines ys t')"
  by (induction xs arbitrary: t) (auto split: option.splits)

definition run_batch :: "nft_line list \<Rightarrow> nft_table option \<Rightarrow> nft_table option" where
  "run_batch ls T = run_lines ls (case T of None \<Rightarrow> empty_table | Some t \<Rightarrow> t)"

fun op_run :: "nft_op \<Rightarrow> nft_table option \<Rightarrow> nft_table option" where
  "op_run (NftApply ls ok) T = (if ok then run_batch ls T else T)"
| "op_run (NftRemove gone) T = (if gone then None else T)"
| "op_run NftCounter T = T"

definition ops_run :: "nft_op list \<Rightarrow> nft_table option \<Rightarrow> nft_table option" where
  "ops_run ops T = fold op_run ops T"

text \<open>The last thing that nft did to the table was a deletion that left it; \<open>f\<close> says so of the time before.\<close>

fun op_left :: "nft_op \<Rightarrow> bool \<Rightarrow> bool" where
  "op_left (NftApply ls ok) f = (\<not> ok \<and> f)"
| "op_left (NftRemove gone) f = (\<not> gone)"
| "op_left NftCounter f = f"

definition left_over :: "nft_op list \<Rightarrow> bool \<Rightarrow> bool" where
  "left_over ops f = fold op_left ops f"

text \<open>A new connection from outside to a port is dropped.\<close>

definition drops :: "nft_table option \<Rightarrow> bool \<Rightarrow> int \<Rightarrow> bool" where
  "drops T udp p \<longleftrightarrow> (case T of None \<Rightarrow> False | Some t \<Rightarrow>
     (case nt_rules t Prerouting of None \<Rightarrow> False | Some rs \<Rightarrow> RuleDrop udp \<in> set rs \<and> p \<in> nt_sets t udp))"

definition guard_table :: "machinePorts \<Rightarrow> bool \<Rightarrow> nft_table \<Rightarrow> bool" where
  "guard_table ports blocking t \<longleftrightarrow>
     nt_sets t False = set (mp_tcp ports) \<and> nt_sets t True = set (mp_udp ports)
     \<and> nt_rules t Prerouting = (if blocking then Some [RuleLoopback, RuleDrop False, RuleDrop True] else None)"

definition port_of :: "machinePorts \<Rightarrow> bool \<Rightarrow> int \<Rightarrow> bool" where
  "port_of ports udp p \<longleftrightarrow> p \<in> set (if udp then mp_udp ports else mp_tcp ports)"

lemma guard_table_drops: "guard_table ports blocking t \<Longrightarrow> drops (Some t) udp p \<longleftrightarrow> blocking \<and> port_of ports udp p"
  by (cases udp) (auto simp: guard_table_def drops_def port_of_def)

text \<open>A batch is never refused, and leaves the guard it describes when it cleans up or blocks, or finds no hooked chain.\<close>

lemma run_set_lines:
  "\<exists>t'. run_lines (set_lines udp ps) t = Some t' \<and> nt_sets t' udp = set ps \<and> nt_sets t' (\<not> udp) = nt_sets t (\<not> udp) \<and> nt_rules t' = nt_rules t"
  by (simp add: set_lines_def)

lemma run_replace_chain:
  "run_lines [AddHookChain c, FlushChain c, DeleteChain c] t = Some (t\<lparr>nt_rules := (nt_rules t)(c := None)\<rparr>)"
  by (simp add: add_chain_def)

lemma run_block_chain:
  "run_lines [AddHookChain Prerouting, FlushChain Prerouting, RuleLoopback, RuleDrop False, RuleDrop True] t
     = Some (t\<lparr>nt_rules := (nt_rules t)(Prerouting \<mapsto> [RuleLoopback, RuleDrop False, RuleDrop True])\<rparr>)"
  by (simp add: add_chain_def add_rule_def)

lemma run_machine_nft:
  assumes "blocking \<or> cleanup \<or> (\<forall>t. T = Some t \<longrightarrow> nt_rules t Prerouting = None)"
  shows "\<exists>t. run_batch (machine_nft ports blocking cleanup) T = Some t \<and> guard_table ports blocking t"
proof -
  define t0 where "t0 = (case T of None \<Rightarrow> empty_table | Some t \<Rightarrow> t)"
  have start: "blocking \<or> cleanup \<or> nt_rules t0 Prerouting = None" using assms by (cases T) (simp_all add: t0_def empty_table_def)
  obtain t1 where t1: "run_lines (set_lines False (mp_tcp ports)) t0 = Some t1" "nt_sets t1 False = set (mp_tcp ports)" "nt_rules t1 = nt_rules t0"
    using run_set_lines by blast
  obtain t2 where t2: "run_lines (set_lines True (mp_udp ports)) t1 = Some t2" "nt_sets t2 True = set (mp_udp ports)"
    "nt_sets t2 False = set (mp_tcp ports)" "nt_rules t2 = nt_rules t0"
    using run_set_lines [of True] t1 by (metis (full_types))
  define t3 where "t3 = t2\<lparr>nt_rules := (nt_rules t2)(Conntrack \<mapsto> [RuleKeepConntrack])\<rparr>"
  have r3: "run_lines [AddPlainChain Conntrack, FlushChain Conntrack, RuleKeepConntrack] t2 = Some t3"
    by (simp add: add_chain_def add_rule_def t3_def)
  define t4 where "t4 = (if cleanup then t3\<lparr>nt_rules := (nt_rules t3)(Input := None)\<rparr> else t3)"
  have r4: "run_lines (if cleanup then [AddHookChain Input, FlushChain Input, DeleteChain Input] else []) t3 = Some t4"
    using run_replace_chain [of Input t3] by (simp add: t4_def)
  have t4: "nt_sets t4 = nt_sets t2" "nt_rules t4 Prerouting = nt_rules t0 Prerouting" by (simp_all add: t4_def t3_def t2(4))
  define t5 where "t5 = (if blocking then t4\<lparr>nt_rules := (nt_rules t4)(Prerouting \<mapsto> [RuleLoopback, RuleDrop False, RuleDrop True])\<rparr>
        else if cleanup then t4\<lparr>nt_rules := (nt_rules t4)(Prerouting := None)\<rparr> else t4)"
  have r5: "run_lines (if blocking then [AddHookChain Prerouting, FlushChain Prerouting, RuleLoopback, RuleDrop False, RuleDrop True]
        else if cleanup then [AddHookChain Prerouting, FlushChain Prerouting, DeleteChain Prerouting] else []) t4 = Some t5"
    by (simp only: t5_def run_block_chain run_replace_chain run_lines.simps(1) split: if_split) simp
  have t5: "nt_sets t5 = nt_sets t4" "nt_rules t5 Prerouting = (if blocking then Some [RuleLoopback, RuleDrop False, RuleDrop True] else None)"
    using start t4(2) by (auto simp: t5_def)
  have "run_batch (machine_nft ports blocking cleanup) T = Some t5"
    unfolding run_batch_def t0_def [symmetric] machine_nft_def run_lines_append using t1(1) t2(1) r3 r4 r5 by simp
  moreover have "guard_table ports blocking t5" using t2 t4 t5 by (simp add: guard_table_def)
  ultimately show ?thesis by blast
qed

section \<open>The text of a batch determines its ports\<close>

lemma digits_takeWhile:
  assumes "list_all is_digit d" and "r \<noteq> []" and "\<not> is_digit (hd r)"
  shows "takeWhile is_digit (d @ r) = d" and "dropWhile is_digit (d @ r) = r"
  using assms by (induction d) (auto simp: neq_Nil_conv)

lemma itoa_digits: "0 \<le> p \<Longrightarrow> list_all is_digit (go_itoa p)"
  by (simp add: go_itoa_def dec_digits_digits)

lemma itoa_inj: "0 \<le> p \<Longrightarrow> 0 \<le> q \<Longrightarrow> go_itoa p = go_itoa q \<Longrightarrow> p = q"
  using digits_value_dec_digits by (metis go_itoa_def linorder_not_le)

lemma itoa_prefix_inj:
  assumes "go_itoa p @ r = go_itoa q @ s" and "0 \<le> p" "0 \<le> q"
    and "r \<noteq> []" "\<not> is_digit (hd r)" "s \<noteq> []" "\<not> is_digit (hd s)"
  shows "p = q \<and> r = s"
proof -
  have "go_itoa p = go_itoa q" "r = s"
    using digits_takeWhile [OF itoa_digits [OF assms(2)] assms(4,5)] digits_takeWhile [OF itoa_digits [OF assms(3)] assms(6,7)] assms(1) by simp_all
  then show ?thesis using itoa_inj assms(2,3) by blast
qed

lemma elements_inj:
  assumes "go_join '', '' (map go_itoa ps) @ '' }'' @ x = go_join '', '' (map go_itoa qs) @ '' }'' @ y"
    and "ps \<noteq> []" "qs \<noteq> []" "\<forall>p \<in> set ps. 0 \<le> p" "\<forall>q \<in> set qs. 0 \<le> q"
  shows "ps = qs \<and> x = y"
  using assms
proof (induction ps arbitrary: qs)
  case (Cons p ps)
  obtain q qs' where qs: "qs = q # qs'" using Cons.prems(3) by (cases qs) auto
  have split: "go_join '', '' (map go_itoa (a # as)) @ '' }'' @ z
      = go_itoa a @ (if as = [] then '' }'' @ z else '', '' @ go_join '', '' (map go_itoa as) @ '' }'' @ z)" for a as z
    by (cases as) simp_all
  have nd: "\<not> is_digit (CHR '' '')" "\<not> is_digit (CHR '','')" by (simp_all add: is_digit_def byte_def)
  have "p = q \<and> (if ps = [] then '' }'' @ x else '', '' @ go_join '', '' (map go_itoa ps) @ '' }'' @ x)
      = (if qs' = [] then '' }'' @ y else '', '' @ go_join '', '' (map go_itoa qs') @ '' }'' @ y)"
    using Cons.prems(1,4,5) unfolding qs split by (intro itoa_prefix_inj) (auto simp: nd)
  then show ?case using Cons.IH [of qs'] Cons.prems(4,5) unfolding qs by (auto split: if_splits)
qed simp

lemma nft_text_lines:
  "nft_text (FlushSet udp) = ''flush set inet mmwxc_machine_protection '' @ set_name udp"
  "nft_text (AddElements udp ps) = ''add element inet mmwxc_machine_protection '' @ set_name udp @ '' { '' @ go_join '', '' (map go_itoa ps) @ '' }''"
  "nft_text (AddSet udp) = ''add set inet mmwxc_machine_protection '' @ set_name udp @ '' { type inet_service; }''"
  "nft_text (AddPlainChain c) = ''add chain inet mmwxc_machine_protection '' @ chain_name c"
  by (simp_all add: nft_text_def nft_table_name_def)

definition lines_text :: "nft_line list \<Rightarrow> string" where
  "lines_text ls = concat (map (\<lambda>l. nft_text l @ [CHR 0x0A]) ls)"

lemma lines_text_Cons [simp]: "lines_text (l # ls) = nft_text l @ [CHR 0x0A] @ lines_text ls" "lines_text [] = []"
  by (simp_all add: lines_text_def)

lemma lines_text_append: "lines_text (xs @ ys) = lines_text xs @ lines_text ys"
  by (simp add: lines_text_def)

text \<open>After the elements of a set comes a line that is no \<open>add element\<close>.\<close>

definition nonneg :: "int list \<Rightarrow> bool" where
  "nonneg ps \<longleftrightarrow> (\<forall>p \<in> set ps. 0 \<le> p)"

definition el_lines :: "bool \<Rightarrow> int list \<Rightarrow> nft_line list" where
  "el_lines udp ps = (if ps = [] then [] else [AddElements udp ps])"

lemma elements_line_inj:
  assumes "lines_text (el_lines udp ps) @ (''add '' @ c # x) @ X = lines_text (el_lines udp qs) @ (''add '' @ c # x) @ Y"
    and "c \<noteq> CHR ''e''" and "nonneg ps" "nonneg qs"
  shows "ps = qs \<and> X = Y"
proof (cases "ps = [] \<or> qs = []")
  case True
  then show ?thesis using assms(1,2) by (auto simp: nft_text_lines el_lines_def split: if_splits)
next
  case False
  then have "go_join '', '' (map go_itoa ps) @ '' }'' @ [CHR 0x0A] @ (''add '' @ c # x) @ X
      = go_join '', '' (map go_itoa qs) @ '' }'' @ [CHR 0x0A] @ (''add '' @ c # x) @ Y"
    using assms(1) by (simp add: nft_text_lines el_lines_def)
  from elements_inj [OF this] show ?thesis using False assms(3,4) unfolding nonneg_def by simp
qed

lemma render_lines: "renderMachineProtectionNft ports blocking cleanup = lines_text (machine_nft ports blocking cleanup)"
  by (simp add: renderMachineProtectionNft_def lines_text_def)

lemma add_head:
  "\<exists>x. nft_text (AddSet udp) = ''add '' @ CHR ''s'' # x"
  "\<exists>x. nft_text (AddPlainChain c) = ''add '' @ CHR ''c'' # x"
  by (simp_all add: nft_text_lines)

lemma render_inj:
  assumes "renderMachineProtectionNft p b False = renderMachineProtectionNft q b False"
    and "nonneg (mp_tcp p)" "nonneg (mp_udp p)" "nonneg (mp_tcp q)" "nonneg (mp_udp q)"
  shows "mp_tcp p = mp_tcp q \<and> mp_udp p = mp_udp q"
proof -
  define rest where "rest = [FlushChain Conntrack, RuleKeepConntrack]
    @ (if b then [AddHookChain Prerouting, FlushChain Prerouting, RuleLoopback, RuleDrop False, RuleDrop True] else [])"
  have shape: "machine_nft r b False = [AddTable, AddCounter, AddSet False, FlushSet False] @ el_lines False (mp_tcp r) @ [AddSet True, FlushSet True]
      @ el_lines True (mp_udp r) @ [AddPlainChain Conntrack] @ rest" for r
    by (simp add: machine_nft_def set_lines_def el_lines_def rest_def)
  define R where "R r = [CHR 0x0A] @ lines_text (FlushSet True # el_lines True (mp_udp r) @ [AddPlainChain Conntrack] @ rest)" for r :: machinePorts
  obtain x where x: "nft_text (AddSet True) = ''add '' @ CHR ''s'' # x" using add_head(1) by blast
  have "lines_text (el_lines False (mp_tcp p)) @ nft_text (AddSet True) @ R p = lines_text (el_lines False (mp_tcp q)) @ nft_text (AddSet True) @ R q"
    using assms(1) unfolding render_lines shape lines_text_append lines_text_Cons R_def by simp
  then have first: "mp_tcp p = mp_tcp q \<and> R p = R q"
    unfolding x by (rule elements_line_inj [OF _ _ assms(2,4)]) simp
  obtain z where z: "nft_text (AddPlainChain Conntrack) = ''add '' @ CHR ''c'' # z" using add_head(2) by blast
  have "lines_text (el_lines True (mp_udp p)) @ nft_text (AddPlainChain Conntrack) @ [CHR 0x0A] @ lines_text rest
      = lines_text (el_lines True (mp_udp q)) @ nft_text (AddPlainChain Conntrack) @ [CHR 0x0A] @ lines_text rest"
    using first unfolding R_def lines_text_append lines_text_Cons by simp
  then have "mp_udp p = mp_udp q \<and> [CHR 0x0A] @ lines_text rest = [CHR 0x0A] @ lines_text rest"
    unfolding z by (rule elements_line_inj [OF _ _ assms(3,5)]) simp
  then show ?thesis using first by blast
qed

section \<open>The guard refines its table\<close>

definition ports_ok :: "machinePorts \<Rightarrow> bool" where
  "ports_ok ports \<longleftrightarrow> nonneg (mp_tcp ports) \<and> nonneg (mp_udp ports)"

definition all_guard :: "machinePorts \<Rightarrow> bool \<Rightarrow> nft_table option \<Rightarrow> bool" where
  "all_guard ports blocking T \<longleftrightarrow> (\<forall>t. T = Some t \<longrightarrow> guard_table ports blocking t)"

definition guard_inv :: "machine_manager \<Rightarrow> nft_table option \<Rightarrow> bool \<Rightarrow> bool" where
  "guard_inv m T f \<longleftrightarrow>
     (mg_removed m \<longrightarrow> (f \<or> T = None) \<and> \<not> mg_table_present m)
     \<and> (\<not> mg_table_present m \<longrightarrow> mg_need_cleanup m \<and> \<not> mg_blocking m)
     \<and> (mg_table_present m \<longrightarrow> \<not> mg_need_cleanup m \<and> (\<exists>ports. ports_ok ports
          \<and> mg_applied_key m = renderMachineProtectionNft ports (mg_blocking m) False \<and> all_guard ports (mg_blocking m) T))"

lemma all_guard_None [simp]: "all_guard ports b None"
  by (simp add: all_guard_def)

lemma all_guard_drops: "all_guard ports b T \<Longrightarrow> drops T udp p \<Longrightarrow> b \<and> port_of ports udp p"
  using guard_table_drops by (cases T) (auto simp: all_guard_def drops_def)

lemma guard_inv_lost:
  assumes "guard_inv m T f" and "\<not> mg_removed m"
  shows "guard_inv (lostTable m) U g"
  using assms by (simp add: guard_inv_def lostTable_def)

lemma guard_inv_gone: "guard_inv m T f \<Longrightarrow> guard_inv m None g"
  by (auto simp: guard_inv_def)

lemma ensure_finish_props:
  assumes "ensure_finish c key b now m = (ops, m')"
  shows "mg_table_present m'" "\<not> mg_need_cleanup m'" "\<not> mg_removed m'" "mg_blocking m' = b" "mg_applied_key m' = key"
    "mg_supported m' = mg_supported m" "mg_tw m' = mg_tw m" "ops_run ops T = T" "left_over ops f = f"
  using assms unfolding ensure_finish_def by (auto simp: Let_def ops_run_def left_over_def split: if_splits option.splits)

lemma ensure_finish_inv:
  assumes "ensure_finish c (renderMachineProtectionNft ports b False) b now m = (ops, m')" and "ports_ok ports" and "all_guard ports b T"
  shows "guard_inv m' (ops_run ops T) f"
  using ensure_finish_props [OF assms(1)] assms(2,3) unfolding guard_inv_def by metis

definition ensured :: "machinePorts \<Rightarrow> bool \<Rightarrow> machine_manager \<Rightarrow> nft_table option \<Rightarrow> bool \<Rightarrow> nft_op list \<times> machine_manager \<times> bool \<times> string option \<Rightarrow> bool" where
  "ensured ports b m T f out \<longleftrightarrow> (case out of (ops, m', applied, err) \<Rightarrow>
     guard_inv m' (ops_run ops T) (left_over ops f) \<and> mg_supported m' = mg_supported m \<and> mg_tw m' = mg_tw m \<and> (applied \<longrightarrow> b)
     \<and> (all_guard ports applied (ops_run ops T) \<or> left_over ops f \<and> err \<noteq> None) \<and> (err \<noteq> None \<longrightarrow> \<not> applied))"

lemma ensure_apply_ok:
  assumes inv: "guard_inv m T f" and ok: "ports_ok ports" and tr: "transition = (b \<noteq> mg_blocking m)"
  shows "ensured ports b m T f (ensure_apply a ports b transition now m)"
proof -
  define cleanup where "cleanup = (\<not> mg_table_present m \<or> mg_need_cleanup m \<or> transition)"
  define batch where "batch = machine_nft ports b cleanup"
  have "b \<or> cleanup \<or> (\<forall>t. T = Some t \<longrightarrow> nt_rules t Prerouting = None)"
    using inv tr by (auto simp: cleanup_def guard_inv_def all_guard_def guard_table_def)
  then obtain t where t: "run_batch batch T = Some t" "guard_table ports b t"
    unfolding batch_def using run_machine_nft by blast
  define T1 where "T1 = (if na_remove a then None else T)"
  obtain t2 where t2: "run_batch (machine_nft ports False True) T1 = Some t2" "guard_table ports False t2"
    using run_machine_nft [of False True T1 ports] by auto
  have lost: "mg_supported (lostTable m) = mg_supported m" "mg_tw (lostTable m) = mg_tw m" by (simp_all add: lostTable_def)
  show ?thesis
  proof (cases "na_apply a")
    case True
    obtain ops m2 where fin: "ensure_finish (na_last a) (renderMachineProtectionNft ports b False) b now m = (ops, m2)" by fastforce
    have out: "ensure_apply a ports b transition now m = (NftApply batch True # ops, m2, b, None)"
      using True fin by (simp add: ensure_apply_def Let_def batch_def cleanup_def)
    have run: "ops_run (NftApply batch True # ops) T = ops_run ops (Some t)" using t(1) by (simp add: ops_run_def)
    have "all_guard ports b (Some t)" using t(2) by (simp add: all_guard_def)
    then show ?thesis
      using ensure_finish_inv [OF fin ok, of "Some t"] ensure_finish_props(6-9) [OF fin] unfolding ensured_def out by (simp add: run del: fold_simps)
  next
    case False
    show ?thesis
    proof (cases "na_retry a")
      case True
      obtain ops m2 where fin: "ensure_finish (na_last a) (renderMachineProtectionNft ports False False) False now (lostTable m) = (ops, m2)" by fastforce
      have out: "ensure_apply a ports b transition now m
          = ([NftApply batch False, NftRemove (na_remove a), NftApply (machine_nft ports False True) True] @ ops, m2, False, None)"
        using False True fin by (simp add: ensure_apply_def Let_def batch_def cleanup_def)
      have run: "ops_run ([NftApply batch False, NftRemove (na_remove a), NftApply (machine_nft ports False True) True] @ ops) T = ops_run ops (Some t2)"
        using t2(1) by (simp add: ops_run_def T1_def)
      have "all_guard ports False (Some t2)" using t2(2) by (simp add: all_guard_def)
      then show ?thesis
        using ensure_finish_inv [OF fin ok, of "Some t2"] ensure_finish_props(6-9) [OF fin] lost unfolding ensured_def out by (simp add: run [simplified])
    next
      case no: False
      have out: "ensure_apply a ports b transition now m = ([NftApply batch False, NftRemove (na_remove a), NftApply (machine_nft ports False True) False, NftRemove (na_remove_again a)],
          (lostTable m)\<lparr>mg_applied_key := []\<rparr>, False, Some ''apply machine protection rules'')"
        using False no by (simp add: ensure_apply_def Let_def batch_def cleanup_def)
      show ?thesis using lost unfolding ensured_def out by (simp add: ops_run_def left_over_def guard_inv_def lostTable_def)
    qed
  qed
qed

lemma machine_ensure_ok:
  assumes inv: "guard_inv m T f" and ok: "ports_ok ports"
  shows "ensured ports b m T f (machine_ensure a ports b now m)"
proof (cases "mg_table_present m \<and> \<not> mg_need_cleanup m \<and> b = mg_blocking m \<and> renderMachineProtectionNft ports b False = mg_applied_key m")
  case False
  then have "machine_ensure a ports b now m = ensure_apply a ports b (b \<noteq> mg_blocking m) now m"
    unfolding machine_ensure_def Let_def by auto
  then show ?thesis using ensure_apply_ok [OF inv ok] by simp
next
  case True
  obtain q where q: "ports_ok q" "mg_applied_key m = renderMachineProtectionNft q (mg_blocking m) False" "all_guard q (mg_blocking m) T"
    using inv True unfolding guard_inv_def by blast
  have "renderMachineProtectionNft ports (mg_blocking m) False = renderMachineProtectionNft q (mg_blocking m) False"
    using True q(2) by auto
  then have "mp_tcp ports = mp_tcp q \<and> mp_udp ports = mp_udp q"
    using render_inj q(1) ok unfolding ports_ok_def by blast
  then have same: "all_guard ports b T" using q(3) True by (simp add: all_guard_def guard_table_def)
  consider (quiet) "machine_ensure a ports b now m = ([], m, b, None)"
    | (seen) d where "machine_ensure a ports b now m = ([NftCounter], m\<lparr>mg_dropped := mg_dropped_base m + d, mg_checked_at := now\<rparr>, b, None)"
    | (lost) "machine_ensure a ports b now m
        = (let (ops, res) = ensure_apply a ports False False now (lostTable m) in (NftCounter # ops, res))"
  proof -
    have "machine_ensure a ports b now m = (if time_sub now (mg_checked_at m) < (if b then machineBlockingRecheck else machineIdleRecheck) then ([], m, b, None)
        else case na_first a of
          Some d \<Rightarrow> ([NftCounter], m\<lparr>mg_dropped := mg_dropped_base m + d, mg_checked_at := now\<rparr>, b, None)
        | None \<Rightarrow> (let (ops, res) = ensure_apply a ports False False now (lostTable m) in (NftCounter # ops, res)))"
    proof -
      have "mg_table_present m = True" "mg_need_cleanup m = False" "(b \<noteq> mg_blocking m) = False"
        "(renderMachineProtectionNft ports b False = mg_applied_key m) = True" using True by auto
      then show ?thesis unfolding machine_ensure_def Let_def by (simp only: simp_thms if_True)
    qed
    note step = this
    show thesis
    proof (cases "time_sub now (mg_checked_at m) < (if b then machineBlockingRecheck else machineIdleRecheck)")
      case True
      show thesis by (rule quiet) (simp only: step True if_True)
    next
      case slow: False
      show thesis
      proof (cases "na_first a")
        case None
        show thesis by (rule lost) (simp only: step slow None if_False option.case)
      next
        case (Some d)
        show thesis by (rule seen [of d]) (simp only: step slow Some if_False option.case)
      qed
    qed
  qed
  then show ?thesis
  proof cases
    case quiet
    then show ?thesis using inv same by (simp add: ensured_def ops_run_def left_over_def)
  next
    case seen
    then show ?thesis using inv same by (simp add: ensured_def ops_run_def left_over_def guard_inv_def)
  next
    case lost
    have "\<not> mg_removed m" using inv True unfolding guard_inv_def by blast
    then have "guard_inv (lostTable m) T f" by (rule guard_inv_lost [OF inv])
    then have e: "ensured ports False (lostTable m) T f (ensure_apply a ports False False now (lostTable m))"
      by (rule ensure_apply_ok [OF _ ok]) (simp add: lostTable_def)
    obtain ops m2 ap err where r: "ensure_apply a ports False False now (lostTable m) = (ops, m2, ap, err)" by (metis surj_pair)
    then have out: "machine_ensure a ports b now m = (NftCounter # ops, m2, ap, err)" using lost by simp
    show ?thesis using e unfolding ensured_def out r by (cases ap) (simp_all add: ops_run_def left_over_def lostTable_def)
  qed
qed

section \<open>A pass\<close>

lemma decide_blocks:
  assumes "decide s input ports now m st = (True, r, st')"
  shows "mi_machine input \<noteq> None" and "\<not> ports_empty ports" and "mg_blocking m \<or> warm now m"
    and "case ms_max_total s of
          Some cap \<Rightarrow> machineReleaseBelow cap \<le> mp_total st \<and> (cap \<le> mp_total st \<or> mg_blocking m)
        | None \<Rightarrow> (\<exists>cap. ms_max_active s = Some cap \<and> machineReleaseBelow cap \<le> mp_active st \<and> (cap \<le> mp_active st \<or> mg_blocking m))"
proof -
  obtain b0 r0 rel where th: "machineProtectionThreshold s (mp_active st) (mp_total st) (mg_blocking m) = (b0, r0, rel)" by (metis surj_pair)
  have parts: "mi_machine input \<noteq> None \<and> \<not> ports_empty ports \<and> (mg_blocking m \<or> warm now m) \<and> b0"
    using assms th unfolding decide_def by (auto simp: Let_def split: if_splits)
  then show "mi_machine input \<noteq> None" "\<not> ports_empty ports" "mg_blocking m \<or> warm now m" by blast+
  have low: "machineReleaseBelow l \<le> v" if "l \<le> v" for l v
    using that by (auto simp: machineReleaseBelow_def Let_def)
  show "case ms_max_total s of
          Some cap \<Rightarrow> machineReleaseBelow cap \<le> mp_total st \<and> (cap \<le> mp_total st \<or> mg_blocking m)
        | None \<Rightarrow> (\<exists>cap. ms_max_active s = Some cap \<and> machineReleaseBelow cap \<le> mp_active st \<and> (cap \<le> mp_active st \<or> mg_blocking m))"
    using th parts low unfolding machineProtectionThreshold_def by (auto simp: Let_def split: option.splits if_splits)
qed

lemma decide_keeps:
  assumes "decide s input ports now m st = (b, r, st')"
  shows "mp_blocking st' = mp_blocking st" "mp_total st' = mp_total st" "mp_active st' = mp_active st"
    "mp_tcp_ports st' = mp_tcp_ports st" "mp_udp_ports st' = mp_udp_ports st" "mp_effective st' = mp_effective st"
  using assms unfolding decide_def by (auto simp: Let_def split: if_splits prod.splits)

lemma releaseGuard_inv:
  assumes "guard_inv m T f" and "mg_supported m" and "releaseGuard gone m = (ops, m')"
  shows "guard_inv m' (ops_run ops T) (left_over ops f)" and "ops_run ops T = None \<or> left_over ops f" and "mg_supported m'"
  using assms unfolding releaseGuard_def by (auto simp: guard_inv_def lostTable_def ops_run_def left_over_def split: if_splits)

lemma guard_inv_tw [simp]: "guard_inv (m\<lparr>mg_tw := tw\<rparr>) T f = guard_inv m T f"
  by (simp add: guard_inv_def)

definition may_block :: "machineProtectionSettings \<Rightarrow> machineProtectionInput \<Rightarrow> machinePorts \<Rightarrow> time \<Rightarrow> machine_manager \<Rightarrow> bool" where
  "may_block s input ports now m \<longleftrightarrow>
     ms_enabled s \<and> \<not> ports_empty ports \<and> (mg_blocking m \<or> warm now m)
     \<and> (\<exists>c. mi_machine input = Some c \<and>
         (let (v, limit) = (case ms_max_total s of Some cap \<Rightarrow> (mc_total c, Some cap)
                           | None \<Rightarrow> (machineActiveTCP (mi_system input), ms_max_active s))
          in case limit of None \<Rightarrow> False | Some cap \<Rightarrow> cap \<le> v \<or> mg_blocking m \<and> machineReleaseBelow cap \<le> v))"

lemma guard_pass_ok:
  assumes run: "guard_pass a sy now s input ports m (status_start (mg_supported m) now s ports sources input) = (ops, ws, m', st)"
    and inv: "guard_inv m T f" and sup: "mg_supported m" and ok: "ports_ok ports"
  shows "guard_inv m' (ops_run ops T) (left_over ops f) \<and> mg_supported m'
    \<and> (all_guard ports (mp_blocking st) (ops_run ops T) \<or> left_over ops f \<and> \<not> mp_blocking st)
    \<and> (mp_blocking st \<longrightarrow> may_block s input ports now m) \<and> mp_tcp_ports st = mp_tcp ports \<and> mp_udp_ports st = mp_udp ports"
proof -
  define st0 where "st0 = status_start (mg_supported m) now s ports sources input"
  have st0: "\<not> mp_blocking st0" "mp_tcp_ports st0 = mp_tcp ports" "mp_udp_ports st0 = mp_udp ports"
    "mp_active st0 = machineActiveTCP (mi_system input)" "\<And>c. mi_machine input = Some c \<Longrightarrow> mp_total st0 = mc_total c"
    by (simp_all add: st0_def status_start_def)
  show ?thesis
  proof (cases "validateMachineProtection s")
    case (Some e)
    obtain o1 m1 where rel: "releaseGuard (na_release a) m = (o1, m1)" by fastforce
    obtain w1 tw ts where tw: "reconcileTW sy now None (mg_tw m1) = (w1, tw, ts)" by (metis surj_pair)
    have out: "ops = o1" "m' = m1\<lparr>mg_tw := tw\<rparr>" "mp_blocking st = mp_blocking st0" "mp_tcp_ports st = mp_tcp_ports st0"
      "mp_udp_ports st = mp_udp_ports st0"
      using run Some rel tw unfolding guard_pass_def st0_def [symmetric] by auto
    show ?thesis using releaseGuard_inv [OF inv sup rel] st0 unfolding out by auto
  next
    case valid: None
    obtain w1 tw ts where tw: "reconcileTW sy now (twTarget s) (mg_tw m) = (w1, tw, ts)" by (metis surj_pair)
    define m1 where "m1 = m\<lparr>mg_tw := tw\<rparr>"
    define st1 where "st1 = st0\<lparr>mp_tw := ts, mp_close_wait_seconds := closeWaitSeconds s\<rparr>"
    have st1: "\<not> mp_blocking st1" "mp_tcp_ports st1 = mp_tcp ports" "mp_udp_ports st1 = mp_udp ports"
      "mp_active st1 = mp_active st0" "mp_total st1 = mp_total st0"
      using st0 by (simp_all add: st1_def)
    have m1: "guard_inv m1 T f" "mg_supported m1" "mg_blocking m1 = mg_blocking m" "warm now m1 = warm now m"
      using inv sup by (simp_all add: m1_def warm_def)
    have pass: "(if \<not> ms_enabled s
              then (let (ops, m2) = releaseGuard (na_release a) m1 in (ops, w1, m2, st1\<lparr>mp_effective := mg_supported m2\<rparr>))
              else (let (blocking, reason, st2) = decide s input ports now m1 st1;
                        (ops, m2, applied, err) = machine_ensure a ports blocking now m1
                    in case err of
                         Some e \<Rightarrow> (ops, w1, m2, st2\<lparr>mp_last_error := e\<rparr>)
                       | None \<Rightarrow>
                           (let reason' = (if blocking \<and> \<not> applied then [] else reason);
                                st3 = (if blocking \<and> \<not> applied then st2\<lparr>mp_warming_up := True\<rparr> else st2)
                            in (ops, w1, m2, st3\<lparr>mp_effective := True, mp_blocking := applied, mp_threshold_reason := reason'\<rparr>)))) = (ops, ws, m', st)"
      using run unfolding guard_pass_def st0_def [symmetric] valid option.case tw Let_def prod.case m1_def [symmetric] st1_def [symmetric]
        eqTrueI [OF m1(2)] not_True_eq_False if_False .
    show ?thesis
    proof (cases "ms_enabled s")
      case False
      obtain o1 m2 where rel: "releaseGuard (na_release a) m1 = (o1, m2)" by fastforce
      have out: "ops = o1" "m' = m2" "mp_blocking st = mp_blocking st1" "mp_tcp_ports st = mp_tcp_ports st1" "mp_udp_ports st = mp_udp_ports st1"
        using pass False rel by auto
      show ?thesis using releaseGuard_inv [OF m1(1,2) rel] st1 unfolding out by auto
    next
      case True
      obtain b r st2 where d: "decide s input ports now m1 st1 = (b, r, st2)" by (metis surj_pair)
      obtain o1 m2 ap err where e: "machine_ensure a ports b now m1 = (o1, m2, ap, err)" by (metis surj_pair)
      have en: "guard_inv m2 (ops_run o1 T) (left_over o1 f)" "mg_supported m2" "ap \<longrightarrow> b"
          "all_guard ports ap (ops_run o1 T) \<or> left_over o1 f \<and> err \<noteq> None" "err \<noteq> None \<longrightarrow> \<not> ap"
        using machine_ensure_ok [OF m1(1) ok, of b a now] m1(2) unfolding ensured_def e by simp_all
      have out: "ops = o1" "m' = m2" "mp_blocking st = (if err = None then ap else mp_blocking st2)" "mp_tcp_ports st = mp_tcp_ports st2"
        "mp_udp_ports st = mp_udp_ports st2"
        using pass True d e by (auto simp: Let_def split: option.splits if_splits)
      note keep = decide_keeps [OF d]
      have blk: "mp_blocking st = ap" using out(3) keep(1) st1(1) en(5) by (cases err) auto
      have "may_block s input ports now m" if "mp_blocking st"
      proof -
        have b using that blk en(3) by simp
        note db = decide_blocks [OF d [unfolded eqTrueI [OF this]]]
        obtain c where c: "mi_machine input = Some c" using db(1) by blast
        show ?thesis
          using True db(2-4) c st0(4,5) st1(4,5) m1(3,4) unfolding may_block_def by (auto split: option.splits)
      qed
      then show ?thesis using en blk st1(2,3) keep unfolding out by auto
    qed
  qed
qed

lemma manager_ports_ok: "manager_ports core sh file off = (ports, sources) \<Longrightarrow> ports_ok ports"
  by (auto simp: manager_ports_def Let_def ports_ok_def nonneg_def normalized_def normalizeMachinePorts_def split: prod.splits)

section \<open>The guard as a system\<close>

text \<open>
  The manager, its table and whether the last deletion left it: passes, the hand-over
  when the Helper leaves, somebody else flushing the ruleset, a restart of the Helper
  that finds whatever table is there.
\<close>

type_synonym guard_system = "machine_manager \<times> nft_table option \<times> bool"

inductive guard_step :: "guard_system \<Rightarrow> guard_system \<Rightarrow> bool" where
  pass: "machine_reconcile a sy fe now cfg input (manager_ports core sh file off) m = (ops, ws, m', st)
     \<Longrightarrow> guard_step (m, T, f) (m', ops_run ops T, left_over ops f)"
| leave: "machine_release gone sy now m = (ops, ws, m') \<Longrightarrow> guard_step (m, T, f) (m', ops_run ops T, left_over ops f)"
| flush: "guard_step (m, T, f) (m, None, False)"
| restart: "guard_step (m, T, f) (newMachineProtectionManager (mg_supported m) tw, T, f)"

definition guard_init :: "guard_system \<Rightarrow> bool" where
  "guard_init x \<longleftrightarrow> (\<exists>tw. fst x = newMachineProtectionManager True tw)"

definition guard_sys_inv :: "guard_system \<Rightarrow> bool" where
  "guard_sys_inv x \<longleftrightarrow> guard_inv (fst x) (fst (snd x)) (snd (snd x)) \<and> mg_supported (fst x)"

lemma new_inv: "guard_inv (newMachineProtectionManager s tw) T f"
  by (simp add: guard_inv_def newMachineProtectionManager_def)

lemma reconcile_pass:
  assumes "machine_reconcile a sy fe now cfg input sourced m = (ops, ws, m', st)"
  shows "\<exists>st0. guard_pass a sy now (case cfg of None \<Rightarrow> no_protection | Some s \<Rightarrow> s) input (fst sourced) m
      (status_start (mg_supported m) now (case cfg of None \<Rightarrow> no_protection | Some s \<Rightarrow> s) (fst sourced) (snd sourced) input) = (ops, ws, m', st0)
    \<and> mp_blocking st = mp_blocking st0 \<and> mp_tcp_ports st = mp_tcp_ports st0 \<and> mp_udp_ports st = mp_udp_ports st0"
  using assms unfolding machine_reconcile_def by (cases sourced) (auto simp: Let_def split: prod.splits)

lemma machine_reconcile_ok:
  assumes run: "machine_reconcile a sy fe now cfg input (manager_ports core sh file off) m = (ops, ws, m', st)"
    and inv: "guard_inv m T f" and sup: "mg_supported m"
  shows "guard_inv m' (ops_run ops T) (left_over ops f) \<and> mg_supported m'
    \<and> (all_guard \<lparr>mp_tcp = mp_tcp_ports st, mp_udp = mp_udp_ports st\<rparr> (mp_blocking st) (ops_run ops T)
      \<or> left_over ops f \<and> \<not> mp_blocking st)
    \<and> (mp_blocking st \<longrightarrow> may_block (case cfg of None \<Rightarrow> no_protection | Some s \<Rightarrow> s) input \<lparr>mp_tcp = mp_tcp_ports st, mp_udp = mp_udp_ports st\<rparr> now m)"
proof -
  obtain ports sources where so: "manager_ports core sh file off = (ports, sources)" by fastforce
  obtain st0 where st0: "guard_pass a sy now (case cfg of None \<Rightarrow> no_protection | Some s \<Rightarrow> s) input ports m
      (status_start (mg_supported m) now (case cfg of None \<Rightarrow> no_protection | Some s \<Rightarrow> s) ports sources input) = (ops, ws, m', st0)"
    "mp_blocking st = mp_blocking st0" "mp_tcp_ports st = mp_tcp_ports st0" "mp_udp_ports st = mp_udp_ports st0"
    using reconcile_pass [OF run] unfolding so by auto
  note ok = guard_pass_ok [OF st0(1) inv sup manager_ports_ok [OF so]]
  have "ports = \<lparr>mp_tcp = mp_tcp_ports st, mp_udp = mp_udp_ports st\<rparr>" using ok st0(3,4) by simp
  then show ?thesis using ok unfolding st0(2) by simp
qed

interpretation guard_sys: invariant_system guard_init guard_step guard_sys_inv
proof
  show "guard_sys_inv s" if "guard_init s" for s
    using that by (auto simp: guard_init_def guard_sys_inv_def intro: new_inv) (simp add: newMachineProtectionManager_def)
  show "guard_sys_inv t" if inv: "guard_sys_inv s" and step: "guard_step s t" for s t
    using step inv
  proof cases
    case (pass a sy fe now cfg input core sh fl off m ops ws m' st T f)
    then show ?thesis using machine_reconcile_ok [OF pass(3), of T f] inv by (simp add: guard_sys_inv_def)
  next
    case (leave gone sy now m ops ws m' T f)
    obtain o1 m1 where rel: "releaseGuard gone m = (o1, m1)" by fastforce
    have "guard_inv m T f" "mg_supported m" using inv leave(1) by (simp_all add: guard_sys_inv_def)
    from releaseGuard_inv [OF this rel] show ?thesis
      using leave rel unfolding machine_release_def by (auto simp: guard_sys_inv_def split: prod.splits)
  next
    case (flush m T f)
    then show ?thesis using inv by (auto simp: guard_sys_inv_def intro: guard_inv_gone)
  next
    case (restart m T f tw)
    then show ?thesis using inv new_inv by (simp add: guard_sys_inv_def) (simp add: newMachineProtectionManager_def)
  qed
qed


text \<open>A cap of 100 connections that the machine has reached; the first pass builds the table, the second blocks.\<close>

definition ex_guard_pass :: "time \<Rightarrow> machine_manager \<Rightarrow> nft_op list \<times> int list \<times> machine_manager \<times> machineProtectionStatus" where
  "ex_guard_pass now m = machine_reconcile
     \<lparr>na_first = Some 0, na_apply = True, na_remove = True, na_retry = True, na_remove_again = True, na_release = True, na_last = Some 0\<rparr>
     \<lparr>sy_available = False, sy_read = None, sy_write_ok = False, sy_persist_ok = False\<rparr> [] now
     (Some \<lparr>ms_enabled = True, ms_max_active = None, ms_max_total = Some 100, ms_tw_buckets = None, ms_close_wait_seconds = None\<rparr>)
     \<lparr>mi_system = \<lparr>tc_total = 0, tc_established = 0, tc_syn_sent = 0, tc_syn_recv = 0, tc_fin_wait1 = 0, tc_fin_wait2 = 0, tc_time_wait = 0,
        tc_close_wait = 0, tc_last_ack = 0, tc_closing = 0, tc_close = 0, tc_listen = 0, tc_unknown = 0\<rparr>,
       mi_machine = Some \<lparr>mc_total = 100, mc_tcp = 90, mc_udp = 10\<rparr>\<rparr>
     (manager_ports [443] no_ports (no_ports, ''absent'', None) (no_ports, [])) m"

definition ex_guard_1 :: "nft_op list \<times> int list \<times> machine_manager \<times> machineProtectionStatus" where
  "ex_guard_1 = ex_guard_pass (100 * second) (newMachineProtectionManager True None)"

definition ex_guard_2 :: "nft_op list \<times> int list \<times> machine_manager \<times> machineProtectionStatus" where
  "ex_guard_2 = ex_guard_pass (110 * second) (fst (snd (snd ex_guard_1)))"


text \<open>
  The exception happens: protection is switched off while the machine blocks, the one
  deletion fails, and no later pass tries again although all report protection as
  off, nothing blocking and no error.
\<close>

definition ex_off_pass :: "bool \<Rightarrow> time \<Rightarrow> machine_manager \<Rightarrow> nft_op list \<times> int list \<times> machine_manager \<times> machineProtectionStatus" where
  "ex_off_pass gone now m = machine_reconcile
     \<lparr>na_first = Some 0, na_apply = True, na_remove = True, na_retry = True, na_remove_again = True, na_release = gone, na_last = Some 0\<rparr>
     \<lparr>sy_available = False, sy_read = None, sy_write_ok = False, sy_persist_ok = False\<rparr> [] now None
     \<lparr>mi_system = \<lparr>tc_total = 0, tc_established = 0, tc_syn_sent = 0, tc_syn_recv = 0, tc_fin_wait1 = 0, tc_fin_wait2 = 0, tc_time_wait = 0,
        tc_close_wait = 0, tc_last_ack = 0, tc_closing = 0, tc_close = 0, tc_listen = 0, tc_unknown = 0\<rparr>, mi_machine = None\<rparr>
     (manager_ports [443] no_ports (no_ports, ''absent'', None) (no_ports, [])) m"

definition ex_blocking_table :: "nft_table option" where
  "ex_blocking_table = ops_run (fst ex_guard_2) (ops_run (fst ex_guard_1) None)"

lemma release_keeps_table:
  "let (o1, _, m1, s1) = ex_off_pass False (120 * second) (fst (snd (snd ex_guard_2)));
       (o2, _, m2, s2) = ex_off_pass True (180 * second) m1
   in o2 = [] \<and> drops (ops_run o2 (ops_run o1 ex_blocking_table)) True 443
     \<and> mp_effective s2 \<and> \<not> mp_blocking s2 \<and> mp_last_error s2 = []"
  by code_simp

section \<open>What the threshold means\<close>

lemma release_below:
  assumes "0 < cap" and "cap \<le> max_int64 div 95"
  shows "machineReleaseBelow cap = cap * 95 div 100" and "machineReleaseBelow cap < cap"
proof -
  have "0 \<le> cap * 95" "cap * 95 \<le> max_int64" using assms by (simp_all add: max_int64_def)
  then have "i64 (cap * machineReleasePercent) = cap * 95" by (simp add: machineReleasePercent_def is_int64_nonneg)
  then have "go_div (i64 (cap * machineReleasePercent)) 100 = cap * 95 div 100" using assms by simp
  then show "machineReleaseBelow cap = cap * 95 div 100" "machineReleaseBelow cap < cap"
    using assms(1) by (auto simp: machineReleaseBelow_def Let_def)
qed

text \<open>With a cap of one connection a block never ends, not even at zero connections.\<close>

lemma cap_one_never_released:
  assumes "ms_max_total s = Some 1" and "0 \<le> n"
  shows "fst (machineProtectionThreshold s active n True)"
proof -
  have "machineReleaseBelow 1 = 0" by (simp add: release_below max_int64_def)
  then show ?thesis using assms by (auto simp: machineProtectionThreshold_def Let_def)
qed

lemma ensure_working:
  assumes "na_first a \<noteq> None" and "na_apply a"
  shows "\<exists>ops m'. machine_ensure a ports b now m = (ops, m', b, None)"
proof -
  have ap: "\<exists>ops m'. ensure_apply a ports b tr now m = (ops, m', b, None)" for tr
    using assms(2) by (auto simp: ensure_apply_def Let_def split: prod.splits)
  obtain d where d: "na_first a = Some d" using assms(1) by blast
  show ?thesis using ap unfolding machine_ensure_def Let_def d by auto
qed

lemma decide_exact:
  assumes "ms_max_total s = Some cap" and "mi_machine input \<noteq> None" and "\<not> ports_empty ports" and "mg_blocking m \<or> warm now m"
  shows "fst (decide s input ports now m st) \<longleftrightarrow> cap \<le> mp_total st \<or> mg_blocking m \<and> machineReleaseBelow cap \<le> mp_total st"
  using assms by (auto simp: decide_def machineProtectionThreshold_def Let_def split: prod.splits)

text \<open>
  With nft working and protection on for a cap above one, a pass over a readable
  machine with ports to guard blocks exactly when its connections are at the cap, or
  at 95 % of it or more after a blocking pass; only a table younger than the warm-up
  delays the first block.
\<close>

theorem machine_blocking_exact:
  assumes "validateMachineProtection s = None" and "ms_enabled s" and "ms_max_total s = Some cap" and "cap \<le> max_int64 div 95"
    and "mi_machine input = Some c" and "\<not> ports_empty (fst (manager_ports core sh file off))"
    and "mg_supported m" and "mg_blocking m \<or> warm now m" and "na_first a \<noteq> None" and "na_apply a"
    and "machine_reconcile a sy fe now (Some s) input (manager_ports core sh file off) m = (ops, ws, m', st)"
  shows "mp_blocking st \<longleftrightarrow> cap \<le> mc_total c \<or> mg_blocking m \<and> cap * 95 div 100 \<le> mc_total c"
proof -
  obtain ports sources where so: "manager_ports core sh file off = (ports, sources)" by fastforce
  have ports: "\<not> ports_empty ports" using assms(6) so by simp
  define st0 where "st0 = status_start (mg_supported m) now s ports sources input"
  obtain w1 tw ts where tw: "reconcileTW sy now (twTarget s) (mg_tw m) = (w1, tw, ts)" by (metis surj_pair)
  define m1 where "m1 = m\<lparr>mg_tw := tw\<rparr>"
  define st1 where "st1 = st0\<lparr>mp_tw := ts, mp_close_wait_seconds := closeWaitSeconds s\<rparr>"
  have m1: "mg_supported m1" "mg_blocking m1 = mg_blocking m" "warm now m1 = warm now m"
    using assms(7) by (simp_all add: m1_def warm_def)
  obtain b r st2 where d: "decide s input ports now m1 st1 = (b, r, st2)" by (metis surj_pair)
  obtain o1 m2 where e: "machine_ensure a ports b now m1 = (o1, m2, b, None)" using ensure_working assms(9,10) by blast
  have "guard_pass a sy now s input ports m st0 = (o1, w1, m2, st2\<lparr>mp_effective := True, mp_blocking := b, mp_threshold_reason := r\<rparr>)"
    using assms(1,2,7) tw m1(1) d e unfolding guard_pass_def by (simp add: st1_def [symmetric] m1_def [symmetric])
  then have "mp_blocking st = b"
    using assms(11) unfolding machine_reconcile_def so by (auto simp: st0_def Let_def)
  moreover have "b \<longleftrightarrow> cap \<le> mp_total st1 \<or> mg_blocking m \<and> machineReleaseBelow cap \<le> mp_total st1"
    using decide_exact [of s cap input ports m1 now st1] assms(3,5,8) ports m1 d by simp
  moreover have "mp_total st1 = mc_total c" using assms(5) by (simp add: st1_def st0_def status_start_def)
  moreover have "machineReleaseBelow cap = cap * 95 div 100"
    using release_below(1) assms(1,3,4) by (auto simp: validateMachineProtection_def opt_is_def split: if_splits)
  ultimately show ?thesis by simp
qed

theorem machine_blocking_exact_witness:
  "mp_blocking (snd (snd (snd ex_guard_2))) \<longleftrightarrow> (100::int) \<le> 100 \<or> mg_blocking (fst (snd (snd ex_guard_1))) \<and> 100 * 95 div 100 \<le> (100::int)"
proof -
  obtain o2 w2 m2 s2 where p2: "ex_guard_2 = (o2, w2, m2, s2)" by (metis surj_pair)
  have m: "mg_supported (fst (snd (snd ex_guard_1)))" "warm (110 * second) (fst (snd (snd ex_guard_1)))" by code_simp+
  have "mp_blocking s2 \<longleftrightarrow> (100::int) \<le> 100 \<or> mg_blocking (fst (snd (snd ex_guard_1))) \<and> 100 * 95 div 100 \<le> (100::int)"
    using machine_blocking_exact [OF _ _ _ _ _ _ m(1) disjI2 [OF m(2)] _ _ p2 [unfolded ex_guard_2_def ex_guard_pass_def], of 100]
    by (simp add: validateMachineProtection_def opt_is_def max_int64_def manager_ports_def no_ports_def ports_empty_def normalized_def
        normalizeMachinePorts_def dedup_def Let_def)
  then show ?thesis by (simp add: p2)
qed

section \<open>The TIME\_WAIT limit comes back\<close>

text \<open>
  The kernel's value and what the Helper saved. A pass reads the value or fails to;
  its writes take effect (the only way to leave the restored state behind is a write
  that fails after its target was saved, shown below).
\<close>

definition tw_answers :: "sysctl_answers \<Rightarrow> int \<Rightarrow> bool" where
  "tw_answers a v \<longleftrightarrow> sy_write_ok a \<and> (sy_read a = None \<or> sy_read a = Some v)"

inductive tw_step :: "int \<times> machineTWSaved option \<Rightarrow> int \<times> machineTWSaved option \<Rightarrow> bool" where
  tw_pass: "reconcileTW a now target tw = (ws, tw', st) \<Longrightarrow> tw_answers a v \<Longrightarrow> tw_step (v, tw) (last (v # ws), tw')"

definition tw_inv :: "int \<Rightarrow> int \<times> machineTWSaved option \<Rightarrow> bool" where
  "tw_inv v0 x \<longleftrightarrow> (case snd x of None \<Rightarrow> fst x = v0 | Some s \<Rightarrow> tw_original s = v0 \<and> (fst x = v0 \<or> fst x = tw_applied s))"

lemma tw_pass_cases:
  assumes "reconcileTW a now target tw = (ws, tw', st)" and "tw_answers a v"
  obtains (skip) "ws = []" "tw' = tw"
  | (restore) s where "tw = Some s" "target = None" "ws = (if v = tw_applied s then [tw_original s] else [])"
      "tw' = (if sy_persist_ok a then None else tw)"
  | (own) t where "target = Some t" "ws = (if v = t then [] else [t])"
      "tw' = (case tw of None \<Rightarrow> Some (tw_to_save v t now None) | Some s \<Rightarrow> if tw_applied s = t then tw else Some (tw_to_save v t now tw))"
proof (cases "sy_available a \<and> sy_read a \<noteq> None \<and> \<not> (target = None \<and> tw = None)")
  case False
  then have "ws = [] \<and> tw' = tw" using assms(1) unfolding reconcileTW_def by (auto simp: Let_def split: if_splits option.splits)
  then show thesis using skip by blast
next
  case True
  then have av: "sy_available a" "sy_read a = Some v" "sy_write_ok a" using assms(2) by (auto simp: tw_answers_def)
  show thesis
  proof (cases target)
    case None
    then obtain s where s: "tw = Some s" using True by (cases tw) auto
    have "ws = (if v = tw_applied s then [tw_original s] else []) \<and> tw' = (if sy_persist_ok a then None else tw)"
      using assms(1) av None s unfolding reconcileTW_def tw_restore_def persistTW_def by (auto simp: Let_def split: if_splits)
    then show thesis using restore s None by blast
  next
    case (Some t)
    define st where "st = \<lparr>ts_target = target, ts_current = Some v, ts_original = map_option tw_original tw, ts_error = []\<rparr>"
    obtain ws2 tw2 st2 where t: "tw_apply a v t now tw st = (ws2, tw2, st2)" by (metis surj_pair)
    then have eq: "ws = ws2" "tw' = tw2" using assms(1) av Some unfolding reconcileTW_def by (simp_all add: Let_def st_def)
    show thesis
    proof (cases "tw = None \<or> (\<exists>s. tw = Some s \<and> tw_applied s \<noteq> t)")
      case change: True
      show thesis
      proof (cases "sy_persist_ok a")
        case False
        then have "ws = []" "tw' = tw" using t change unfolding eq tw_apply_def by (auto simp: Let_def)
        then show thesis by (rule skip)
      next
        case True
        then have "ws = (if v = t then [] else [t])" "tw' = Some (tw_to_save v t now tw)"
          using t change av(3) unfolding eq tw_apply_def by (auto simp: Let_def split: if_splits)
        then show thesis using own [OF Some] change by (auto split: option.splits)
      qed
    next
      case False
      then obtain s where s: "tw = Some s" "tw_applied s = t" by (cases tw) auto
      then have "ws = (if v = t then [] else [t])" "tw' = tw"
        using t av(3) unfolding eq tw_apply_def by (auto simp: Let_def split: if_splits)
      then show thesis using own [OF Some] s by auto
    qed
  qed
qed

interpretation tw_sys: invariant_system "\<lambda>x. x = (v0, None)" tw_step "tw_inv v0" for v0
proof
  show "tw_inv v0 s" if "s = (v0, None)" for s using that by (simp add: tw_inv_def)
  show "tw_inv v0 t" if inv: "tw_inv v0 s" and step: "tw_step s t" for s t
    using step
  proof cases
    case (tw_pass a now target tw ws tw' st v)
    show ?thesis
    proof (rule tw_pass_cases [OF tw_pass(3,4)])
      assume "ws = []" "tw' = tw"
      then show ?thesis using inv tw_pass(1,2) by simp
    next
      fix s1 assume "tw = Some s1" "target = None" "ws = (if v = tw_applied s1 then [tw_original s1] else [])"
        "tw' = (if sy_persist_ok a then None else tw)"
      then show ?thesis using inv tw_pass(1,2) by (auto simp: tw_inv_def)
    next
      fix t1 assume "target = Some t1" "ws = (if v = t1 then [] else [t1])"
        "tw' = (case tw of None \<Rightarrow> Some (tw_to_save v t1 now None) | Some s \<Rightarrow> if tw_applied s = t1 then tw else Some (tw_to_save v t1 now tw))"
      then show ?thesis using inv tw_pass(1,2) by (cases tw) (auto simp: tw_inv_def tw_to_save_def)
    qed
  qed
qed

text \<open>
  However often protection is switched on, off or to other values, and whatever
  reads and saves fail in between, the kernel's TIME_WAIT limit is the one the machine
  had or the one last asked for, and the next pass without a target that reads and
  saves leaves the machine's own value behind.
\<close>

theorem tw_limit_restored:
  assumes "reach (\<lambda>x. x = (v0, None)) tw_step (v, tw)"
  shows "(v = v0 \<or> (\<exists>s. tw = Some s \<and> v = tw_applied s))
    \<and> (\<forall>a now ws tw' st. sy_available a \<longrightarrow> sy_read a = Some v \<longrightarrow> sy_write_ok a \<longrightarrow> sy_persist_ok a \<longrightarrow>
         reconcileTW a now None tw = (ws, tw', st) \<longrightarrow> last (v # ws) = v0 \<and> tw' = None)"
proof -
  have inv: "tw_inv v0 (v, tw)" using assms by (rule tw_sys.reach_inv)
  have "last (v # ws) = v0 \<and> tw' = None"
    if a: "sy_available a" "sy_read a = Some v" "sy_write_ok a" "sy_persist_ok a" "reconcileTW a now None tw = (ws, tw', st)" for a now ws tw' st
    using inv a unfolding reconcileTW_def tw_restore_def persistTW_def tw_inv_def
    by (cases tw) (auto simp: Let_def split: if_splits)
  then show ?thesis using inv by (auto simp: tw_inv_def split: option.splits)
qed

definition ex_sysctl :: "int \<Rightarrow> sysctl_answers" where
  "ex_sysctl v = \<lparr>sy_available = True, sy_read = Some v, sy_write_ok = True, sy_persist_ok = True\<rparr>"

theorem tw_limit_restored_witness:
  "\<exists>tw ws st. reach (\<lambda>x. x = (4096, None)) tw_step (200, tw) \<and> reconcileTW (ex_sysctl 200) 9 None tw = (ws, None, st) \<and> last (200 # ws) = 4096"
proof -
  define tw where "tw = Some \<lparr>tw_original = 4096, tw_applied = 200, tw_saved_at = 7\<rparr>"
  have on: "reconcileTW (ex_sysctl 4096) 7 (Some 200) None
      = ([200], tw, Some \<lparr>ts_target = Some 200, ts_current = Some 200, ts_original = Some 4096, ts_error = []\<rparr>)"
    unfolding tw_def by code_simp
  have "reach (\<lambda>x. x = (4096, None)) tw_step (4096, None)" by (rule reach_init) simp
  then have r: "reach (\<lambda>x. x = (4096, None)) tw_step (last (4096 # [200]), tw)"
    by (rule reach_step) (rule tw_pass [OF on], simp add: tw_answers_def ex_sysctl_def)
  obtain ws tw' st where off: "reconcileTW (ex_sysctl 200) 9 None tw = (ws, tw', st)" by (metis surj_pair)
  have a: "sy_available (ex_sysctl 200)" "sy_read (ex_sysctl 200) = Some 200" "sy_write_ok (ex_sysctl 200)" "sy_persist_ok (ex_sysctl 200)"
    by (simp_all add: ex_sysctl_def)
  have r2: "reach (\<lambda>x. x = (4096, None)) tw_step (200, tw)" using r by simp
  from tw_limit_restored [OF r2, THEN conjunct2, rule_format, OF a off]
  have l4: "last (200 # ws) = 4096 \<and> tw' = None" .
  then have "reconcileTW (ex_sysctl 200) 9 None tw = (ws, None, st)" using off by simp
  then show ?thesis using r2 l4 by blast
qed

text \<open>
  The exception: the target changes, saving it works and the write fails; protection
  is then switched off. The value the Helper wrote before stays, and the machine's own
  is forgotten.
\<close>

lemma tw_limit_stranded:
  "let tw1 = fst (snd (reconcileTW (ex_sysctl 4096) 1 (Some 200) None));
       (ws2, tw2, _) = reconcileTW ((ex_sysctl 200)\<lparr>sy_write_ok := False\<rparr>) 2 (Some 300) tw1;
       (ws3, tw3, _) = reconcileTW (ex_sysctl 200) 3 None tw2
   in ws2 = [] \<and> ws3 = [] \<and> tw3 = None"
  by code_simp

end
