(* ===== verification/Egress_Examples.thy ===== *)
theory Egress_Examples
  imports Egress_Render
begin

text \<open>
  A rendered plan, evaluated: the concrete run of \<open>RenderRules\<close> on which the
  theorem about exempt sources is applied.
\<close>

definition ex_exempt_plan :: Egress where
  "ex_exempt_plan = ex_plan\<lparr>eg_exempt_sources := [''10.0.0.0/9'']\<rparr>"

definition ex_empty_memo :: "SourceMemo option" where
  "ex_empty_memo = Some \<lparr> memo_prev = Map.empty, memo_next = Map.empty \<rparr>"

lemma ex_render:
  "fst (RenderRules (Some ex_exempt_plan) (\<lambda>_. Inl EOF) ex_empty_memo)
   = Inr [SafetyRule, rule_json 0 ex_rule [''10.128.0.0/9'']]"
  by code_simp


end
