(* ===== verification/Deletion_Rows.thy ===== *)
theory Deletion_Rows
  imports Go_Json Go_Net "HOL-Library.AList"
begin

text \<open>
  The inventory of \<open>server_delete.go\<close>: rows are decoded JSON objects
  (\<open>map[string]any\<close>, a missing or null column is \<open>None\<close>), read with the lenient
  \<open>deletionID\<close>, \<open>deletionText\<close>, \<open>deletionIDs\<close>, \<open>deletionObject\<close>; and the
  credentials of \<open>user_access_lifecycle.go\<close> that name a connection. encoding/json,
  SHA-256 and \<open>fmt.Sprint\<close> of a value that is not a string are parameters
  (\<open>deletion_lib\<close>; \<open>hashJSON_list\<close> is \<open>hashJSON\<close> of an array whose
  elements can be nil).
\<close>

type_synonym row = "(string \<times> json) list"
type_synonym serverDeletionInventory = "string \<Rightarrow> row list"

record deletion_lib =
  unmarshal :: "string \<Rightarrow> json option"
  sprint :: "json \<Rightarrow> string"
  sha256_hex :: "string \<Rightarrow> string"
  hashJSON :: "json \<Rightarrow> string"
  hashJSON_list :: "json option list \<Rightarrow> string"

definition col :: "row \<Rightarrow> string \<Rightarrow> json option" where
  "col r k = map_of r k"

definition deletionID :: "json option \<Rightarrow> int" where
  "deletionID v = (case v of Some (JNum i) \<Rightarrow> i | Some (JStr s) \<Rightarrow> go_atoi_value s | _ \<Rightarrow> 0)"

definition deletionText :: "json option \<Rightarrow> string" where
  "deletionText v = (case v of Some (JStr s) \<Rightarrow> s | _ \<Rightarrow> [])"

definition json_list :: "json option \<Rightarrow> json list" where
  "json_list v = (case v of Some (JArr vs) \<Rightarrow> vs | _ \<Rightarrow> [])"

definition deletionIDs :: "deletion_lib \<Rightarrow> json option \<Rightarrow> int list" where
  "deletionIDs lib v =
     (let v' = (case v of Some (JStr s) \<Rightarrow> unmarshal lib s | _ \<Rightarrow> v)
      in filter (\<lambda>i. 0 < i) (map (\<lambda>x. deletionID (Some x)) (json_list v')))"

text \<open>\<open>None\<close> is the nil map.\<close>

definition deletionObject :: "deletion_lib \<Rightarrow> json option \<Rightarrow> row option" where
  "deletionObject lib v =
     (let v' = (case v of Some (JStr s) \<Rightarrow> unmarshal lib s | _ \<Rightarrow> v)
      in case v' of Some (JObj kvs) \<Rightarrow> Some kvs | _ \<Rightarrow> None)"

definition object_col :: "row option \<Rightarrow> string \<Rightarrow> json option" where
  "object_col r k = (case r of None \<Rightarrow> None | Some kvs \<Rightarrow> col kvs k)"

definition unbracket :: "string \<Rightarrow> string" where
  "unbracket s =
     (let inside = dropWhile (\<lambda>c. c \<in> set ''[]'') s
      in rev (dropWhile (\<lambda>c. c \<in> set ''[]'') (rev inside)))"

definition deletionHost :: "json option \<Rightarrow> string" where
  "deletionHost v =
     (let s = trim_space (deletionText v)
      in go_to_lower (unbracket (case split_host_port s of Some (host, _) \<Rightarrow> host | None \<Rightarrow> s)))"

definition deletionNodeHost :: "deletion_lib \<Rightarrow> row \<Rightarrow> string" where
  "deletionNodeHost lib n =
     (let c = deletionObject lib (col n ''clash_config'')
      in deletionHost (object_col (if c = None then deletionObject lib (col n ''parsed_config'') else c) ''server''))"

definition deletionServerHash :: "deletion_lib \<Rightarrow> row \<Rightarrow> string" where
  "deletionServerHash lib s =
     hashJSON_list lib (map (col s) [''id'', ''name'', ''created_at'', ''token''])"

definition deletionNodeHash :: "deletion_lib \<Rightarrow> row \<Rightarrow> string" where
  "deletionNodeHash lib n = hashJSON lib (JObj (filter (\<lambda>(k, _). k \<noteq> ''updated_at'') n))"

text \<open>The addresses of a server; a nil row has none.\<close>

definition deletionServerHosts :: "row \<Rightarrow> string list" where
  "deletionServerHosts server =
     dedup (filter (\<lambda>h. h \<noteq> [])
       (map (\<lambda>k. deletionHost (col server k))
          [''ip_address'', ''ip_address_v6'', ''domain'', ''domain_v6'', ''observed_ip'', ''observed_ip_v6'',
           ''pull_address'', ''pull_address_v6'']))"

lemma json_size_field: "(k, v) \<in> set kvs \<Longrightarrow> size v < size (JObj kvs)"
  by (induction kvs) auto

lemma json_size_item: "v \<in> set vs \<Longrightarrow> size v < size (JArr vs)"
  by (induction vs) auto

function deletionJSONUsesHost :: "string list \<Rightarrow> json \<Rightarrow> bool" where
  "deletionJSONUsesHost hosts (JObj kvs) =
     list_ex (\<lambda>(k, item). (k = ''server'' \<or> k = ''address'' \<or> k = ''host'') \<and> deletionHost (Some item) \<in> set hosts
       \<or> deletionJSONUsesHost hosts item) kvs"
| "deletionJSONUsesHost hosts (JArr items) = list_ex (deletionJSONUsesHost hosts) items"
| "deletionJSONUsesHost hosts (JBool _) = False"
| "deletionJSONUsesHost hosts (JNum _) = False"
| "deletionJSONUsesHost hosts (JStr _) = False"
  by pat_completeness auto

termination
  by (relation "measure (\<lambda>(_, v). size v)") (auto dest: json_size_field json_size_item)

section \<open>The credential of a connection\<close>

definition lifecycleCredentialPrimaryKey :: "string \<Rightarrow> string" where
  "lifecycleCredentialPrimaryKey protocol =
     (case map_of [(''vless'', ''id''), (''vmess'', ''id''), (''trojan'', ''password''), (''shadowsocks'', ''password''),
         (''ss'', ''password''), (''anytls'', ''password''), (''snell'', ''psk''), (''mieru'', ''username''),
         (''hysteria'', ''auth''), (''hysteria2'', ''auth''), (''hy2'', ''auth''), (''socks'', ''user''), (''http'', ''user'')]
         (go_to_lower protocol) of None \<Rightarrow> [] | Some k \<Rightarrow> k)"

definition go_sprint :: "deletion_lib \<Rightarrow> json option \<Rightarrow> string" where
  "go_sprint lib v = (case v of None \<Rightarrow> ''<nil>'' | Some (JStr s) \<Rightarrow> s | Some j \<Rightarrow> sprint lib j)"

definition nonEmptyCredentialValue :: "deletion_lib \<Rightarrow> row \<Rightarrow> string \<Rightarrow> bool" where
  "nonEmptyCredentialValue lib value' key =
     (let text' = trim_space (go_sprint lib (col value' key)) in text' \<noteq> [] \<and> text' \<noteq> ''<nil>'')"

definition lifecycleCredentialPrimaryValue :: "deletion_lib \<Rightarrow> row \<Rightarrow> string \<Rightarrow> string" where
  "lifecycleCredentialPrimaryValue lib credential protocol =
     trim_space (go_sprint lib (col credential (lifecycleCredentialPrimaryKey protocol)))"

definition accessCredentialKey :: "deletion_lib \<Rightarrow> string \<Rightarrow> row \<Rightarrow> string" where
  "accessCredentialKey lib protocol credential =
     (let v = lifecycleCredentialPrimaryValue lib credential protocol
      in if v = [] then [] else sha256_hex lib (go_to_lower protocol @ [char_of (0::nat)] @ v))"

text \<open>\<open>find\<close>: the e-mail of the object itself, else the first one found inside.\<close>

fun first_text :: "string list \<Rightarrow> string" where
  "first_text [] = []"
| "first_text (s # ss) = (if s \<noteq> [] then s else first_text ss)"

function find_identity :: "json \<Rightarrow> string" where
  "find_identity (JObj kvs) =
     (case find (\<lambda>(k, v). go_fold_ascii k = ''email'' \<and> (case v of JStr _ \<Rightarrow> True | _ \<Rightarrow> False)) kvs of
        Some (_, v) \<Rightarrow> trim_space (deletionText (Some v))
      | None \<Rightarrow> first_text (map (\<lambda>(_, v). find_identity v) kvs))"
| "find_identity (JArr vs) = first_text (map find_identity vs)"
| "find_identity (JBool _) = []"
| "find_identity (JNum _) = []"
| "find_identity (JStr _) = []"
  by pat_completeness auto

termination
  by (relation "measure size") (auto dest: json_size_field json_size_item)

definition extractProtocolIdentity :: "deletion_lib \<Rightarrow> string \<Rightarrow> string" where
  "extractProtocolIdentity lib raw = (case unmarshal lib raw of None \<Rightarrow> [] | Some v \<Rightarrow> find_identity v)"

end
