(* ===== verification/Deletion_Chain.thy ===== *)
theory Deletion_Chain
  imports Go_Text
begin

text \<open>
  \<open>deletionChainHasPath\<close> of \<open>server_delete_dependencies.go\<close>: whether a forward
  chain that lost members still has a path that uses no server twice. The source
  searches augmenting paths with a recursive closure over two shared maps; here
  the maps are passed and returned, and the recursion is bounded by the hops.
\<close>

section \<open>A chain with one server per hop\<close>

text \<open>
  \<open>assign\<close>: the loop over the members \<open>ms\<close> of a hop; \<open>seen\<close> and \<open>assigned\<close> are
  the shared maps. \<open>fuel\<close> bounds the depth of the recursion; \<open>None\<close> is running out.
\<close>

fun assign_hop ::
  "nat \<Rightarrow> (nat \<Rightarrow> int list) \<Rightarrow> nat \<Rightarrow> int list \<Rightarrow> int set \<Rightarrow> (int \<rightharpoonup> nat) \<Rightarrow> (bool \<times> int set \<times> (int \<rightharpoonup> nat)) option" where
  "assign_hop fuel members hop [] seen assigned = Some (False, seen, assigned)"
| "assign_hop fuel members hop (i # ms) seen assigned =
     (if i \<in> seen then assign_hop fuel members hop ms seen assigned
      else case assigned i of
             None \<Rightarrow> Some (True, insert i seen, assigned(i \<mapsto> hop))
           | Some previous \<Rightarrow>
               (case fuel of
                  0 \<Rightarrow> None
                | Suc n \<Rightarrow>
                    (case assign_hop n members previous (members previous) (insert i seen) assigned of
                       None \<Rightarrow> None
                     | Some (True, seen', assigned') \<Rightarrow> Some (True, seen', assigned'(i \<mapsto> hop))
                     | Some (False, seen', assigned') \<Rightarrow> assign_hop fuel members hop ms seen' assigned')))"

fun assign_hops :: "nat \<Rightarrow> (nat \<Rightarrow> int list) \<Rightarrow> nat list \<Rightarrow> (int \<rightharpoonup> nat) \<Rightarrow> bool option" where
  "assign_hops fuel members [] assigned = Some True"
| "assign_hops fuel members (hop # hops) assigned =
     (case assign_hop fuel members hop (members hop) {} assigned of
        None \<Rightarrow> None
      | Some (False, _, _) \<Rightarrow> Some False
      | Some (True, _, assigned') \<Rightarrow> assign_hops fuel members hops assigned')"

text \<open>The members of a group are their server ids; one fuel per hop is enough.\<close>

definition deletionChainHasPath :: "int list \<Rightarrow> (int \<Rightarrow> int list) \<Rightarrow> bool" where
  "deletionChainHasPath groups members =
     (assign_hops (length groups) (\<lambda>hop. members (groups ! hop)) [0..<length groups] Map.empty = Some True)"

subsection \<open>Runs\<close>

text \<open>The rule for everything a run that returns does.\<close>

lemma assign_hop_run [consumes 1, case_names Empty Seen Free Shift Next]:
  assumes run: "assign_hop fuel members hop ms seen asg = Some (b, seen', asg')"
    and empty: "\<And>hop seen asg. P hop [] seen asg False seen asg"
    and skip: "\<And>hop i ms seen asg b s' a'. i \<in> seen \<Longrightarrow> P hop ms seen asg b s' a' \<Longrightarrow> P hop (i # ms) seen asg b s' a'"
    and free: "\<And>hop i ms seen asg. i \<notin> seen \<Longrightarrow> asg i = None \<Longrightarrow> P hop (i # ms) seen asg True (insert i seen) (asg(i \<mapsto> hop))"
    and shift: "\<And>hop i ms seen asg previous s2 a2. i \<notin> seen \<Longrightarrow> asg i = Some previous \<Longrightarrow>
        P previous (members previous) (insert i seen) asg True s2 a2 \<Longrightarrow> P hop (i # ms) seen asg True s2 (a2(i \<mapsto> hop))"
    and cont: "\<And>hop i ms seen asg previous s2 a2 b s' a'. i \<notin> seen \<Longrightarrow> asg i = Some previous \<Longrightarrow>
        P previous (members previous) (insert i seen) asg False s2 a2 \<Longrightarrow> P hop ms s2 a2 b s' a' \<Longrightarrow> P hop (i # ms) seen asg b s' a'"
  shows "P hop ms seen asg b seen' asg'"
  using run
proof (induction fuel arbitrary: hop ms seen asg b seen' asg')
  case 0
  then show ?case
  proof (induction ms arbitrary: seen asg)
    case Nil
    then show ?case using empty by simp
  next
    case (Cons i ms)
    show ?case
    proof (cases "i \<in> seen")
      case True
      then show ?thesis using Cons skip by simp
    next
      case False
      then have none: "asg i = None" using Cons.prems by (cases "asg i") simp_all
      then have out: "b = True" "seen' = insert i seen" "asg' = asg(i \<mapsto> hop)" using Cons.prems False by simp_all
      show ?thesis unfolding out by (rule free [of i seen asg hop ms, OF False none])
    qed
  qed
next
  case (Suc n)
  note deeper = Suc.IH
  show ?case using Suc.prems
  proof (induction ms arbitrary: seen asg)
    case Nil
    then show ?case using empty by simp
  next
    case (Cons i ms)
    consider (seen) "i \<in> seen" | (unused) "i \<notin> seen" "asg i = None"
      | (prev) previous where "i \<notin> seen" "asg i = Some previous" by blast
    then show ?case
    proof cases
      case seen
      then show ?thesis using Cons skip by simp
    next
      case unused
      then have out: "b = True" "seen' = insert i seen" "asg' = asg(i \<mapsto> hop)" using Cons.prems by simp_all
      show ?thesis unfolding out by (rule free [of i seen asg hop ms, OF unused])
    next
      case prev
      then obtain c s2 a2 where rec: "assign_hop n members previous (members previous) (insert i seen) asg = Some (c, s2, a2)"
        using Cons.prems by (auto split: option.splits)
      note P = deeper [OF rec]
      show ?thesis
      proof (cases c)
        case True
        then have out: "b = True" "seen' = s2" "asg' = a2(i \<mapsto> hop)" using Cons.prems prev rec by simp_all
        show ?thesis unfolding out by (rule shift [of i seen asg previous s2 a2 hop ms, OF prev]) (use P True in simp)
      next
        case False
        then have "assign_hop (Suc n) members hop ms s2 a2 = Some (b, seen', asg')" using Cons.prems prev rec by simp
        note tail = Cons.IH [OF this]
        show ?thesis by (rule cont [of i seen asg previous s2 a2 hop ms, OF prev _ tail]) (use P False in simp)
      qed
    qed
  qed
qed

subsection \<open>Augmenting paths keep a matching, and a failed search leaves a blocking set\<close>

lemma assign_hop_fail:
  "assign_hop fuel members hop ms seen asg = Some (b, seen', asg') \<Longrightarrow> \<not> b \<longrightarrow>
     asg' = asg \<and> seen \<subseteq> seen' \<and> set ms \<subseteq> seen'
     \<and> (\<forall>i \<in> seen' - seen. \<exists>p. asg i = Some p \<and> set (members p) \<subseteq> seen')"
proof (induction rule: assign_hop_run)
  case (Next hop i ms seen asg previous s2 a2 b s' a')
  show ?case
  proof
    assume "\<not> b"
    then have rest: "a' = a2" "s2 \<subseteq> s'" "set ms \<subseteq> s'" "\<forall>j \<in> s' - s2. \<exists>p. a2 j = Some p \<and> set (members p) \<subseteq> s'"
      and rec: "a2 = asg" "insert i seen \<subseteq> s2" "set (members previous) \<subseteq> s2"
        "\<forall>j \<in> s2 - insert i seen. \<exists>p. asg j = Some p \<and> set (members p) \<subseteq> s2"
      using Next by auto
    have "\<exists>p. asg j = Some p \<and> set (members p) \<subseteq> s'" if j: "j \<in> s' - seen" for j
    proof (cases "j \<in> s2")
      case False
      then show ?thesis using rest(4) rec(1) j by blast
    next
      case True
      show ?thesis
      proof (cases "j = i")
        case True
        then show ?thesis using Next(2) rec(3) rest(2) by blast
      next
        case False
        then obtain p where "asg j = Some p" "set (members p) \<subseteq> s2" using rec(4) True j by blast
        then show ?thesis using rest(2) by blast
      qed
    qed
    then show "a' = asg \<and> seen \<subseteq> s' \<and> set (i # ms) \<subseteq> s'
        \<and> (\<forall>j \<in> s' - seen. \<exists>p. asg j = Some p \<and> set (members p) \<subseteq> s')"
      using rest rec by auto
  qed
qed auto

text \<open>
  On the servers \<open>A\<close> that the search may still change, the assignment gives each
  hop at most one server, one of its members; \<open>held\<close> are the hops that have one.
\<close>

definition matching :: "(nat \<Rightarrow> int list) \<Rightarrow> (int \<rightharpoonup> nat) \<Rightarrow> int set \<Rightarrow> bool" where
  "matching members m A \<longleftrightarrow>
     (\<forall>i \<in> A. \<forall>h. m i = Some h \<longrightarrow> i \<in> set (members h))
     \<and> (\<forall>i \<in> A. \<forall>j \<in> A. \<forall>h. m i = Some h \<longrightarrow> m j = Some h \<longrightarrow> i = j)"

definition held :: "(int \<rightharpoonup> nat) \<Rightarrow> int set \<Rightarrow> nat set" where
  "held m A = {h. \<exists>i \<in> A. m i = Some h}"

lemma matching_insert:
  assumes "matching members m A" and "i \<notin> A" and "hop \<notin> held m A" and "i \<in> set (members hop)"
  shows "matching members (m(i \<mapsto> hop)) (insert i A)" and "held (m(i \<mapsto> hop)) (insert i A) = insert hop (held m A)"
proof -
  show "matching members (m(i \<mapsto> hop)) (insert i A)"
    using assms unfolding matching_def held_def by auto
  show "held (m(i \<mapsto> hop)) (insert i A) = insert hop (held m A)"
    using assms(2) unfolding held_def by (auto split: if_splits)
qed

lemma matching_split:
  assumes A: "matching members m A" and B: "matching members m B" and disj: "held m A \<inter> held m B = {}"
  shows "matching members m (A \<union> B)"
  using assms unfolding matching_def held_def by blast

lemma matching_subset: "matching members m A \<Longrightarrow> B \<subseteq> A \<Longrightarrow> matching members m B"
  unfolding matching_def by blast

lemma held_Un: "held m (A \<union> B) = held m A \<union> held m B"
  unfolding held_def by blast

lemma held_cong: "(\<And>i. i \<in> A \<Longrightarrow> m i = m' i) \<Longrightarrow> held m A = held m' A"
  unfolding held_def by auto

lemma matching_cong: "(\<And>i. i \<in> A \<Longrightarrow> m i = m' i) \<Longrightarrow> matching members m A = matching members m' A"
  unfolding matching_def by auto

lemma matching_disjoint: "matching members m (A \<union> B) \<Longrightarrow> A \<inter> B = {} \<Longrightarrow> held m A \<inter> held m B = {}"
  unfolding matching_def held_def by blast

text \<open>What a search that succeeds does.\<close>

lemma assign_hop_success:
  "assign_hop fuel members hop ms seen asg = Some (b, seen', asg') \<Longrightarrow>
     (\<not> b \<longrightarrow> asg' = asg \<and> seen \<subseteq> seen') \<and> (\<forall>i \<in> seen. asg' i = asg i)
     \<and> (b \<longrightarrow> matching members asg (- seen) \<longrightarrow> set ms \<subseteq> set (members hop) \<longrightarrow> hop \<notin> held asg (- seen) \<longrightarrow>
          matching members asg' (- seen) \<and> held asg' (- seen) = insert hop (held asg (- seen)))"
proof (induction rule: assign_hop_run)
  case (Free hop i ms seen asg)
  have u: "- seen = insert i (- insert i seen)" using Free by auto
  have same: "held asg (- seen) = held asg (- insert i seen)" using Free by (auto simp: held_def)
  show ?case
  proof (intro conjI impI)
    assume m: "matching members asg (- seen)" and ms: "set (i # ms) \<subseteq> set (members hop)" and hop: "hop \<notin> held asg (- seen)"
    have "matching members asg (- insert i seen)" by (rule matching_subset [OF m]) auto
    then show "matching members (asg(i \<mapsto> hop)) (- seen)"
      and "held (asg(i \<mapsto> hop)) (- seen) = insert hop (held asg (- seen))"
      using matching_insert [of members asg "- insert i seen" i hop] hop ms unfolding same
      by (simp_all add: u del: Compl_insert fun_upd_apply)
  qed (use Free in auto)
next
  case (Shift hop i ms seen asg previous s2 a2)
  have u: "- seen = insert i (- insert i seen)" using Shift by auto
  show ?case
  proof (intro conjI impI)
    assume m: "matching members asg (- seen)" and ms: "set (i # ms) \<subseteq> set (members hop)" and hop: "hop \<notin> held asg (- seen)"
    have "matching members asg (- insert i seen)" by (rule matching_subset [OF m]) auto
    moreover have "previous \<notin> held asg (- insert i seen)"
      using m Shift(1,2) unfolding matching_def held_def by blast
    moreover have "held asg (- seen) = insert previous (held asg (- insert i seen))"
      using Shift(1,2) by (auto simp: held_def)
    ultimately have "matching members a2 (- insert i seen)" "held a2 (- insert i seen) = held asg (- seen)"
      using Shift(3) by simp_all
    then show "matching members (a2(i \<mapsto> hop)) (- seen)"
      and "held (a2(i \<mapsto> hop)) (- seen) = insert hop (held asg (- seen))"
      using matching_insert [of members a2 "- insert i seen" i hop] hop ms
      by (simp_all add: u del: Compl_insert fun_upd_apply)
  qed (use Shift in auto)
next
  case (Next hop i ms seen asg previous s2 a2 b s' a')
  have a2: "a2 = asg" and s2: "seen \<subseteq> s2" and frame: "\<And>j. j \<in> s2 \<Longrightarrow> a' j = asg j" using Next by auto
  show ?case
  proof (intro conjI impI)
    assume b: b and m: "matching members asg (- seen)" and ms: "set (i # ms) \<subseteq> set (members hop)"
      and hop: "hop \<notin> held asg (- seen)"
    have u: "- seen = - s2 \<union> (s2 - seen)" using s2 by auto
    have m2: "matching members asg (- s2)" and m1: "matching members asg (s2 - seen)"
      using matching_subset [OF m] u by auto
    have disj: "held asg (- s2) \<inter> held asg (s2 - seen) = {}"
      using m unfolding u by (rule matching_disjoint) auto
    have new: "matching members a' (- s2)" "held a' (- s2) = insert hop (held asg (- s2))"
      using Next(4) b m2 ms hop unfolding a2 u held_Un by auto
    have keep: "held a' (s2 - seen) = held asg (s2 - seen)" by (rule held_cong) (use frame in auto)
    have "matching members a' (s2 - seen)"
      using m1 matching_cong [of "s2 - seen" a' asg members] frame by auto
    moreover have "held a' (- s2) \<inter> held a' (s2 - seen) = {}"
      using disj hop unfolding new keep u held_Un by auto
    ultimately show "matching members a' (- seen)" unfolding u using new(1) by (intro matching_split)
    show "held a' (- seen) = insert hop (held asg (- seen))" unfolding u held_Un keep new(2) by simp
  qed (use Next in auto)
qed auto

subsection \<open>Enough fuel\<close>

lemma assign_hop_fuel:
  assumes "finite (dom asg)" and "card (dom asg - seen) \<le> fuel"
  shows "assign_hop fuel members hop ms seen asg \<noteq> None"
  using assms
proof (induction fuel arbitrary: hop ms seen asg)
  case 0
  then have "dom asg \<subseteq> seen" by simp
  then show ?case by (induction ms) (auto split: option.splits)
next
  case (Suc n)
  note deeper = Suc.IH
  show ?case using Suc.prems
  proof (induction ms arbitrary: seen asg)
    case (Cons i ms)
    show ?case
    proof (cases "i \<in> seen \<or> asg i = None")
      case True
      then show ?thesis using Cons by auto
    next
      case False
      then obtain previous where prev: "i \<notin> seen" "asg i = Some previous" by auto
      have "card (dom asg - insert i seen) < card (dom asg - seen)"
        using Cons.prems(1) prev by (intro psubset_card_mono) auto
      then have small: "card (dom asg - insert i seen) \<le> n" using Cons.prems(2) by simp
      then obtain c s2 a2 where rec: "assign_hop n members previous (members previous) (insert i seen) asg = Some (c, s2, a2)"
        using deeper Cons.prems(1) by (metis prod_cases3 not_Some_eq)
      show ?thesis
      proof (cases c)
        case True
        then show ?thesis using prev rec by simp
      next
        case False
        then have a2: "a2 = asg" and s2: "insert i seen \<subseteq> s2" using assign_hop_fail [OF rec] by simp_all
        have "card (dom asg - s2) \<le> card (dom asg - insert i seen)"
          using s2 Cons.prems(1) by (intro card_mono) auto
        then show ?thesis using Cons.IH [of a2 s2] Cons.prems(1) small prev rec False by (simp add: a2)
      qed
    qed
  qed simp
qed

subsection \<open>All hops\<close>

definition chain_path :: "nat \<Rightarrow> (nat \<Rightarrow> int list) \<Rightarrow> (nat \<Rightarrow> int) \<Rightarrow> bool" where
  "chain_path n members f \<longleftrightarrow> inj_on f {..<n} \<and> (\<forall>h<n. f h \<in> set (members h))"

lemma held_image:
  assumes "\<And>i. i \<in> S \<Longrightarrow> asg i \<noteq> None"
  shows "asg ` S = Some ` held asg S"
proof -
  have "Some h \<in> asg ` S" if "h \<in> held asg S" for h using that unfolding held_def by force
  moreover have "asg i \<in> Some ` held asg S" if "i \<in> S" for i using assms [OF that] that unfolding held_def by auto
  ultimately show ?thesis by auto
qed

lemma matching_card:
  assumes "matching members asg A" and "S \<subseteq> A" and S: "\<And>i. i \<in> S \<Longrightarrow> asg i \<noteq> None"
  shows "inj_on asg S" and "card (held asg S) = card S"
proof -
  show inj: "inj_on asg S"
  proof (rule inj_onI)
    fix i j assume "i \<in> S" "j \<in> S" "asg i = asg j"
    then show "i = j" using assms unfolding matching_def by (metis not_Some_eq subsetD)
  qed
  show "card (held asg S) = card S"
    using card_image [OF inj] held_image [OF S] by (simp add: card_image)
qed

text \<open>The state between two hops: the first \<open>k\<close> have a server each, all different.\<close>

definition assigned_upto :: "(nat \<Rightarrow> int list) \<Rightarrow> nat \<Rightarrow> (int \<rightharpoonup> nat) \<Rightarrow> bool" where
  "assigned_upto members k asg \<longleftrightarrow> matching members asg UNIV \<and> held asg UNIV = {..<k}"

lemma assigned_upto_card:
  assumes "assigned_upto members k asg"
  shows "finite (dom asg)" and "card (dom asg) = k"
proof -
  have "held asg (dom asg) = held asg UNIV" unfolding held_def by blast
  then have m: "matching members asg UNIV" and dom: "held asg (dom asg) = {..<k}"
    using assms unfolding assigned_upto_def by auto
  have inj: "inj_on asg (dom asg)" and card: "card (held asg (dom asg)) = card (dom asg)"
    using matching_card [OF m, of "dom asg"] by auto
  have "finite (asg ` dom asg)" using held_image [of "dom asg" asg] dom by (simp add: domIff)
  then show "finite (dom asg)" using inj finite_imageD by blast
  show "card (dom asg) = k" using card dom by simp
qed

lemma blocking_set_no_path:
  assumes up: "assigned_upto members k asg" and "k < n"
    and S: "set (members k) \<subseteq> S" "\<And>i. i \<in> S \<Longrightarrow> \<exists>p. asg i = Some p \<and> set (members p) \<subseteq> S"
  shows "\<not> chain_path n members f"
proof
  assume path: "chain_path n members f"
  define H where "H = held asg S"
  have fin: "finite S" using assigned_upto_card [OF up] S(2) by (metis domI finite_subset subsetI)
  have H: "H \<subseteq> {..<k}" using up unfolding assigned_upto_def H_def held_def by auto
  have card: "card H = card S"
    unfolding H_def by (rule matching_card [where members = members and A = UNIV])
      (use up S(2) in \<open>auto simp: assigned_upto_def dest: S(2)\<close>)
  have "f ` insert k H \<subseteq> S"
  proof -
    have "set (members p) \<subseteq> S" if p: "p \<in> insert k H" for p
    proof (cases "p = k")
      case False
      then obtain i where "i \<in> S" "asg i = Some p" using p unfolding H_def held_def by auto
      then show ?thesis using S(2) by fastforce
    qed (use S(1) in simp)
    moreover have "f p \<in> set (members p)" if "p \<in> insert k H" for p
      using that path H assms(2) unfolding chain_path_def by auto
    ultimately show ?thesis by blast
  qed
  moreover have "inj_on f (insert k H)"
    by (rule inj_on_subset [of f "{..<n}"]) (use path H assms(2) in \<open>auto simp: chain_path_def\<close>)
  ultimately have "card (insert k H) \<le> card S" using fin by (metis card_inj_on_le)
  moreover have "finite H" "k \<notin> H" using H finite_subset by auto
  ultimately show False using card by simp
qed

lemma assign_hops_path:
  assumes "assigned_upto members k asg" and "k \<le> n" and "n \<le> fuel"
  shows "assign_hops fuel members [k..<n] asg = Some (\<exists>f. chain_path n members f)"
  using assms
proof (induction "n - k" arbitrary: k asg)
  case 0
  then have kn: "k = n" by simp
  have "\<exists>i. asg i = Some h \<and> i \<in> set (members h)" if "h < n" for h
  proof -
    have "h \<in> held asg UNIV" using that 0(2) kn unfolding assigned_upto_def by simp
    then show ?thesis using 0(2) unfolding assigned_upto_def matching_def held_def by blast
  qed
  then obtain f where f: "\<And>h. h < n \<Longrightarrow> asg (f h) = Some h \<and> f h \<in> set (members h)" by metis
  then have "chain_path n members f" unfolding chain_path_def inj_on_def by (metis lessThan_iff option.inject)
  then show ?case by (auto simp: kn)
next
  case (Suc d)
  then have kn: "k < n" by simp
  note up = Suc.prems(1)
  have "card (dom asg - {}) \<le> fuel" using assigned_upto_card [OF up] Suc.prems kn by simp
  then obtain b seen asg' where run: "assign_hop fuel members k (members k) {} asg = Some (b, seen, asg')"
    using assign_hop_fuel [OF assigned_upto_card(1) [OF up], of "{}"] by (metis prod_cases3 not_Some_eq)
  show ?case
  proof (cases b)
    case True
    then have "assigned_upto members (Suc k) asg'"
      using assign_hop_success [OF run] up unfolding assigned_upto_def by (auto simp: lessThan_Suc)
    then show ?thesis using Suc.hyps(1) [of "Suc k" asg'] Suc.hyps(2) Suc.prems kn run True
      by (simp add: upt_conv_Cons)
  next
    case False
    have "\<not> chain_path n members f" for f
      by (rule blocking_set_no_path [OF up kn, of seen]) (use assign_hop_fail [OF run] False in auto)
    then show ?thesis using run False kn by (simp add: upt_conv_Cons)
  qed
qed

lemma assigned_upto_0: "assigned_upto members 0 Map.empty"
  unfolding assigned_upto_def matching_def held_def by auto

text \<open>
  C23: The augmenting search of \<open>deletionChainHasPath\<close> always ends and answers
  exactly whether the chain still has a path: one member server for each hop, no
  server twice.
\<close>

theorem deletion_chain_path:
  "deletionChainHasPath groups members \<longleftrightarrow>
     (\<exists>f. inj_on f {..<length groups} \<and> (\<forall>h < length groups. f h \<in> set (members (groups ! h))))"
  unfolding deletionChainHasPath_def
  by (simp add: assign_hops_path [OF assigned_upto_0] chain_path_def)

theorem deletion_chain_path_witness:
  "deletionChainHasPath [1, 2] (\<lambda>g. if g = 1 then [10, 11] else [10])"
  unfolding deletion_chain_path
  by (rule exI [of _ "\<lambda>h. if h = 0 then 11 else 10"]) (auto simp: less_Suc_eq inj_on_def numeral_2_eq_2)

end
