(* ===== verification/Marking.thy ===== *)
theory Marking
  imports Main
begin

text \<open>
  The loop \<open>for changed := true; changed; { changed = false; for k := range all { ... } }\<close>
  that marks the keys of a map until a whole pass marks nothing. \<open>why k marks\<close> is
  the reason the body finds for a key without a mark. A pass visits the keys in
  the order Go gives it, another one each time: \<open>order n\<close> for the pass with
  \<open>n\<close> left to go.
\<close>

fun mark_pass :: "('k \<Rightarrow> ('k \<rightharpoonup> 'r) \<Rightarrow> 'r option) \<Rightarrow> 'k list \<Rightarrow> ('k \<rightharpoonup> 'r) \<Rightarrow> bool \<Rightarrow> ('k \<rightharpoonup> 'r) \<times> bool" where
  "mark_pass why [] marks changed = (marks, changed)"
| "mark_pass why (k # ks) marks changed =
     (if marks k \<noteq> None then mark_pass why ks marks changed
      else case why k marks of
             None \<Rightarrow> mark_pass why ks marks changed
           | Some r \<Rightarrow> mark_pass why ks (marks(k \<mapsto> r)) True)"

fun mark_until_stable ::
  "nat \<Rightarrow> ('k \<Rightarrow> ('k \<rightharpoonup> 'r) \<Rightarrow> 'r option) \<Rightarrow> (nat \<Rightarrow> 'k list) \<Rightarrow> ('k \<rightharpoonup> 'r) \<Rightarrow> ('k \<rightharpoonup> 'r) option" where
  "mark_until_stable 0 why order marks = None"
| "mark_until_stable (Suc n) why order marks =
     (case mark_pass why (order n) marks False of
        (marks', changed) \<Rightarrow> if changed then mark_until_stable n why order marks' else Some marks')"

lemma mark_pass_keeps: "mark_pass why ks marks c = (marks', c') \<Longrightarrow> marks \<subseteq>\<^sub>m marks' \<and> (c \<longrightarrow> c')"
proof (induction why ks marks c rule: mark_pass.induct)
  case (2 why k ks marks c)
  show ?case
  proof (cases "marks k")
    case None
    have "marks \<subseteq>\<^sub>m marks(k \<mapsto> r)" for r using None by (auto simp: map_le_def)
    then show ?thesis using 2 None by (auto split: option.splits intro: map_le_trans simp del: fun_upd_apply)
  qed (use 2 in auto)
qed auto

lemma mark_pass_stable:
  "mark_pass why ks marks False = (marks', False) \<Longrightarrow>
     marks' = marks \<and> (\<forall>k \<in> set ks. marks k = None \<longrightarrow> why k marks = None)"
proof (induction ks)
  case (Cons k ks)
  show ?case
  proof (cases "marks k \<noteq> None \<or> why k marks = None")
    case True
    then show ?thesis using Cons by (auto split: option.splits if_splits)
  next
    case False
    then obtain r where "mark_pass why ks (marks(k \<mapsto> r)) True = (marks', False)"
      using Cons.prems by (auto split: option.splits)
    from mark_pass_keeps [OF this] show ?thesis by simp
  qed
qed simp

lemma mark_pass_progress:
  "mark_pass why ks marks False = (marks', True) \<Longrightarrow> \<exists>k \<in> set ks. marks k = None \<and> marks' k \<noteq> None"
proof (induction ks)
  case (Cons k ks)
  show ?case
  proof (cases "marks k \<noteq> None \<or> why k marks = None")
    case True
    then show ?thesis using Cons by (auto split: option.splits if_splits)
  next
    case False
    then obtain r where run: "mark_pass why ks (marks(k \<mapsto> r)) True = (marks', True)" and "marks k = None"
      using Cons.prems by (auto split: option.splits)
    then show ?thesis using mark_pass_keeps [OF run] by (force simp: map_le_def)
  qed
qed simp

definition closed_marks :: "('k \<Rightarrow> ('k \<rightharpoonup> 'r) \<Rightarrow> 'r option) \<Rightarrow> 'k set \<Rightarrow> 'k set \<Rightarrow> bool" where
  "closed_marks why K C \<longleftrightarrow> (\<forall>k \<in> K. \<forall>m. dom m \<subseteq> C \<longrightarrow> why k m \<noteq> None \<longrightarrow> k \<in> C)"

lemma mark_pass_within:
  "mark_pass why ks marks c = (marks', c') \<Longrightarrow> closed_marks why (set ks) C \<Longrightarrow> dom marks \<subseteq> C \<Longrightarrow> dom marks' \<subseteq> C"
proof (induction why ks marks c rule: mark_pass.induct)
  case (2 why k ks marks c)
  have C: "closed_marks why (set ks) C" using 2(5) by (auto simp: closed_marks_def)
  show ?case
  proof (cases "marks k \<noteq> None \<or> why k marks = None")
    case True
    then show ?thesis using 2 C by (auto split: option.splits if_splits)
  next
    case False
    then obtain r where r: "marks k = None" "why k marks = Some r" by auto
    then have "k \<in> C" using 2(5,6) unfolding closed_marks_def by fastforce
    then have "dom (marks(k \<mapsto> r)) \<subseteq> C" using 2(6) by simp
    then show ?thesis using 2(3) [OF _ r(2)] 2(4) r C by (simp del: fun_upd_apply)
  qed
qed auto

text \<open>A body whose reasons only appear as more keys are marked.\<close>

locale marking =
  fixes why :: "'k \<Rightarrow> ('k \<rightharpoonup> 'r) \<Rightarrow> 'r option"
  assumes mono: "why k m \<noteq> None \<Longrightarrow> dom m \<subseteq> dom m' \<Longrightarrow> why k m' \<noteq> None"
begin

lemma unfinished_smaller:
  assumes "mark_pass why ks marks False = (marks', True)" and "set ks \<subseteq> K" and "finite K"
  shows "card (K - dom marks') < card (K - dom marks)"
proof (rule psubset_card_mono)
  show "K - dom marks' \<subset> K - dom marks"
    using map_le_implies_dom_le [of marks marks'] mark_pass_keeps [OF assms(1)] mark_pass_progress [OF assms(1)] assms(2)
    by (auto simp: domIff)
qed (use assms(3) in simp)

theorem ends_least:
  assumes "\<And>n. set (order n) = K" and "finite K" and "card (K - dom marks) < fuel"
  shows "\<exists>marks'. mark_until_stable fuel why order marks = Some marks' \<and> marks \<subseteq>\<^sub>m marks'
    \<and> dom marks' = \<Inter>{C. dom marks \<subseteq> C \<and> closed_marks why K C}"
  using assms(3)
proof (induction fuel arbitrary: marks)
  case (Suc n)
  obtain m c where pass: "mark_pass why (order n) marks False = (m, c)" by fastforce
  have keeps: "marks \<subseteq>\<^sub>m m" using mark_pass_keeps [OF pass] by simp
  show ?case
  proof (cases c)
    case True
    have "card (K - dom m) < n"
      using unfinished_smaller [of "order n" marks m K] pass True assms(1,2) Suc.prems by fastforce
    then obtain m' where m': "mark_until_stable n why order m = Some m'" "m \<subseteq>\<^sub>m m'"
      "dom m' = \<Inter>{C. dom m \<subseteq> C \<and> closed_marks why K C}" using Suc.IH by blast
    have "dom m \<subseteq> C" if "dom marks \<subseteq> C" "closed_marks why K C" for C
      using mark_pass_within [OF pass] that assms(1) by simp
    then have "{C. dom marks \<subseteq> C \<and> closed_marks why K C} = {C. dom m \<subseteq> C \<and> closed_marks why K C}"
      using map_le_implies_dom_le [OF keeps] by blast
    then have "dom m' = \<Inter>{C. dom marks \<subseteq> C \<and> closed_marks why K C}" using m'(3) by simp
    then show ?thesis using m'(1,2) pass True map_le_trans [OF keeps] by simp
  next
    case False
    then have m: "m = marks" and stable: "\<forall>k \<in> K. marks k = None \<longrightarrow> why k marks = None"
      using mark_pass_stable [of why "order n" marks m] pass assms(1) by simp_all
    have "closed_marks why K (dom marks)"
      unfolding closed_marks_def using stable mono by (metis domIff)
    then have "dom marks = \<Inter>{C. dom marks \<subseteq> C \<and> closed_marks why K C}" by blast
    then show ?thesis using pass False m by simp
  qed
qed simp

end

end
