(* ===== verification/Deletion_Plan.thy ===== *)
theory Deletion_Plan
  imports Deletion_Rows Deletion_Chain Marking "HOL-Library.Product_Lexorder" "HOL-Library.List_Lexorder" "HOL-Library.Char_ord"
begin

text \<open>
  \<open>planServerDeletion\<close>: which nodes, tunnels, chains, groups, packages, inbounds and
  identities go away with a server. A Go map is an association list with one entry
  for a key; where the source ranges over a map the list's order stands for Go's,
  and the closure over dependent nodes takes the order of each pass as an argument.
  Reasons and notices are short names of the source's messages.
\<close>

section \<open>The plan\<close>

record deletion_node =
  dn_source :: int
  dn_id :: int
  dn_name :: string
  dn_server :: string
  dn_inbound :: string
  dn_reason :: string
  dn_direct :: bool
  dn_hash :: string

record deletion_package =
  dp_id :: int
  dp_name :: string
  dp_users :: "string list"
  dp_nodes :: "int list"
  dp_deleted :: "int list"
  dp_delete :: bool

record deletion_group =
  dg_id :: int
  dg_package :: int
  dg_name :: string
  dg_nodes :: "int list"
  dg_limit :: int
  dg_delete :: bool

record deletion_identity =
  di_server :: int
  di_tag :: string
  di_identity :: string
  di_key :: string

record deletion_inbound =
  db_server :: int
  db_tag :: string

record deletion_step =
  ds_kind :: string
  ds_name :: string
  ds_id :: int
  ds_server :: int
  ds_tag :: string
  ds_hash :: string
  ds_payload :: "row option"

record subscription_node =
  sn_name :: string
  sn_host :: string
  sn_port :: int

record serverDeletionPlan =
  p_inbounds :: "deletion_inbound list"
  p_identities :: "deletion_identity list"
  p_subscription :: "subscription_node list"
  p_server :: int
  p_name :: string
  p_hash :: string
  p_nodes :: "deletion_node list"
  p_packages :: "deletion_package list"
  p_groups :: "deletion_group list"
  p_connections :: "(string \<times> int) list"
  p_attention :: "string list"
  p_steps :: "deletion_step list"

definition step_of :: "string \<Rightarrow> int \<Rightarrow> string \<Rightarrow> deletion_step" where
  "step_of kind i name =
     \<lparr>ds_kind = kind, ds_name = name, ds_id = i, ds_server = 0, ds_tag = [], ds_hash = [], ds_payload = None\<rparr>"

section \<open>Servers and their addresses\<close>

text \<open>A Go map filled in a loop: the last row of a key stays.\<close>

definition rows_by :: "(row \<Rightarrow> 'k) \<Rightarrow> row list \<Rightarrow> ('k \<times> row) list" where
  "rows_by key rows = fold (\<lambda>r m. AList.update (key r) r m) rows []"

definition row_at :: "('k \<times> row) list \<Rightarrow> 'k \<Rightarrow> row" where
  "row_at m k = (case map_of m k of None \<Rightarrow> [] | Some r \<Rightarrow> r)"

definition deletion_servers :: "serverDeletionInventory \<Rightarrow> (int \<times> row) list" where
  "deletion_servers data = rows_by (\<lambda>s. deletionID (col s ''id'')) (data ''remote_servers'')"

definition deletion_nodes :: "serverDeletionInventory \<Rightarrow> (int \<times> row) list" where
  "deletion_nodes data = rows_by (\<lambda>n. deletionID (col n ''id'')) (data ''nodes'')"

definition other_servers :: "(int \<times> row) list \<Rightarrow> int \<Rightarrow> (int \<times> row) list" where
  "other_servers servers serverID = filter (\<lambda>(i, _). i \<noteq> serverID) servers"

definition shared_hosts :: "(int \<times> row) list \<Rightarrow> int \<Rightarrow> string list \<Rightarrow> (string \<times> string list) list" where
  "shared_hosts servers serverID hosts =
     fold (\<lambda>(_, other) shared.
         fold (\<lambda>host shared'. if host \<in> set hosts
             then AList.update host (appendUniqueString (case map_of shared' host of None \<Rightarrow> [] | Some ns \<Rightarrow> ns)
                                        (deletionText (col other ''name''))) shared'
             else shared') (deletionServerHosts other) shared)
       (other_servers servers serverID) []"

definition own_hosts :: "(int \<times> row) list \<Rightarrow> int \<Rightarrow> string list" where
  "own_hosts servers serverID =
     (let hosts = deletionServerHosts (row_at servers serverID)
      in filter (\<lambda>h. h \<notin> fst ` set (shared_hosts servers serverID hosts)) hosts)"

definition shared_notices :: "(int \<times> row) list \<Rightarrow> int \<Rightarrow> string list" where
  "shared_notices servers serverID =
     map (\<lambda>(host, names). ''shared-address '' @ host @ '' '' @ go_join '','' (sort names))
       (shared_hosts servers serverID (deletionServerHosts (row_at servers serverID)))"

section \<open>Nodes that depend on the server directly\<close>

type_synonym reasons = "int \<rightharpoonup> string"

definition mark_nodes :: "(int \<Rightarrow> row \<Rightarrow> bool) \<Rightarrow> string \<Rightarrow> (int \<times> row) list \<Rightarrow> reasons \<Rightarrow> reasons" where
  "mark_nodes affected reason nodes reasons =
     fold (\<lambda>(i, n) rs. if affected i n then rs(i \<mapsto> reason) else rs) nodes reasons"

definition initial_reasons :: "deletion_lib \<Rightarrow> serverDeletionInventory \<Rightarrow> string \<Rightarrow> string list \<Rightarrow> reasons" where
  "initial_reasons lib data name hosts =
     fold (\<lambda>n rs. let i = deletionID (col n ''id'') in
         if deletionText (col n ''original_server'') = name then rs(i \<mapsto> ''direct'')
         else if deletionNodeHost lib n \<in> set hosts then rs(i \<mapsto> ''address'')
         else rs) (data ''nodes'') Map.empty"

definition direct_nodes :: "serverDeletionInventory \<Rightarrow> string \<Rightarrow> int set" where
  "direct_nodes data name =
     set (map (\<lambda>n. deletionID (col n ''id''))
       (filter (\<lambda>n. deletionText (col n ''original_server'') = name) (data ''nodes'')))"

section \<open>Forward groups and chains\<close>

definition affected_groups :: "serverDeletionInventory \<Rightarrow> int \<Rightarrow> int list" where
  "affected_groups data serverID =
     dedup (map (\<lambda>m. deletionID (col m ''group_id''))
       (filter (\<lambda>m. deletionID (col m ''server_id'') = serverID) (data ''forward_group_members'')))"

definition group_members :: "serverDeletionInventory \<Rightarrow> int \<Rightarrow> int \<Rightarrow> row list" where
  "group_members data serverID g =
     filter (\<lambda>m. deletionID (col m ''group_id'') = g \<and> deletionID (col m ''server_id'') \<noteq> serverID
         \<and> map_of (deletion_servers data) (deletionID (col m ''server_id'')) \<noteq> None) (data ''forward_group_members'')"

definition empty_group :: "serverDeletionInventory \<Rightarrow> int \<Rightarrow> int \<Rightarrow> bool" where
  "empty_group data serverID g \<longleftrightarrow> g \<in> set (affected_groups data serverID) \<and> group_members data serverID g = []"

definition chain_groups :: "serverDeletionInventory \<Rightarrow> int \<Rightarrow> int list" where
  "chain_groups data c =
     map (\<lambda>h. deletionID (col h ''group_id''))
       (filter (\<lambda>h. deletionID (col h ''chain_id'') = c) (data ''forward_chain_hops''))"

definition degraded_chain :: "serverDeletionInventory \<Rightarrow> int \<Rightarrow> int \<Rightarrow> bool" where
  "degraded_chain data serverID c \<longleftrightarrow>
     list_ex (\<lambda>g. \<not> empty_group data serverID g \<and> g \<in> set (affected_groups data serverID)) (chain_groups data c)"

definition broken_chain :: "serverDeletionInventory \<Rightarrow> int \<Rightarrow> int \<Rightarrow> bool" where
  "broken_chain data serverID c \<longleftrightarrow>
     list_ex (empty_group data serverID) (chain_groups data c)
     \<or> degraded_chain data serverID c
       \<and> \<not> deletionChainHasPath (chain_groups data c)
             (\<lambda>g. map (\<lambda>m. deletionID (col m ''server_id'')) (group_members data serverID g))"

definition chain_reasons :: "serverDeletionInventory \<Rightarrow> int \<Rightarrow> reasons \<Rightarrow> reasons" where
  "chain_reasons data serverID reasons =
     fold (\<lambda>f rs.
         if broken_chain data serverID (deletionID (col f ''chain_id''))
           \<or> deletionID (col f ''pinned_exit_server_id'') = serverID
         then rs(deletionID (col f ''node_id'') \<mapsto> ''chain'') else rs) (data ''forward_chain_nodes'') reasons"

definition outbound_reasons ::
  "deletion_lib \<Rightarrow> serverDeletionInventory \<Rightarrow> int \<Rightarrow> string list \<Rightarrow> reasons \<Rightarrow> reasons" where
  "outbound_reasons lib data serverID hosts reasons =
     fold (\<lambda>out rs.
         if deletionID (col out ''server_id'') = serverID then rs
         else if \<not> (case deletionObject lib (col out ''outbound_json'') of
                      None \<Rightarrow> False | Some kvs \<Rightarrow> deletionJSONUsesHost hosts (JObj kvs)) then rs
         else (let source = row_at (deletion_servers data) (deletionID (col out ''server_id''))
               in mark_nodes (\<lambda>_ n. col n ''original_server'' = col source ''name'' \<and> col n ''inbound_tag'' = col out ''inbound_tag'')
                    ''outbound'' (deletion_nodes data) rs))
       (data ''user_outbounds'') reasons"

section \<open>Nodes that depend on nodes that go away\<close>

definition refs_why :: "deletion_lib \<Rightarrow> (int \<times> row) list \<Rightarrow> row \<Rightarrow> reasons \<Rightarrow> string option" where
  "refs_why lib nodes n reasons =
     (let refs = deletionIDs lib (col n ''relay_group_node_ids'');
          removed = length (filter (\<lambda>r. reasons r \<noteq> None) refs);
          remaining = length (filter (\<lambda>r. reasons r = None \<and> map_of nodes r \<noteq> None) refs)
      in if 0 < removed \<and> remaining = 0 then Some ''relay-group'' else None)"

definition node_keys :: "string list" where
  "node_keys = [''parent_node_id'', ''chain_proxy_node_id'', ''routed_target_node_id'']"

definition node_why :: "deletion_lib \<Rightarrow> (int \<times> row) list \<Rightarrow> int \<Rightarrow> reasons \<Rightarrow> string option" where
  "node_why lib nodes i reasons =
     (let n = row_at nodes i in
      case find (\<lambda>key. reasons (deletionID (col n key)) \<noteq> None)
             node_keys of
        Some key \<Rightarrow> Some (''depends '' @ key)
      | None \<Rightarrow> refs_why lib nodes n reasons)"

text \<open>One pass more than there are nodes always suffices.\<close>

definition dependent_nodes ::
  "deletion_lib \<Rightarrow> (int \<times> row) list \<Rightarrow> (nat \<Rightarrow> int list) \<Rightarrow> reasons \<Rightarrow> reasons option" where
  "dependent_nodes lib nodes order reasons =
     mark_until_stable (Suc (length nodes)) (node_why lib nodes) order reasons"

subsection \<open>The closure is the least one, whatever the order\<close>

text \<open>
  \<open>doomed\<close>: what the dependencies mean. A node goes with a node it refers to, and
  with its relay group once the group loses a member and no member is left.
\<close>

inductive doomed :: "deletion_lib \<Rightarrow> (int \<times> row) list \<Rightarrow> int set \<Rightarrow> int \<Rightarrow> bool"
  for lib nodes roots where
  root: "i \<in> roots \<Longrightarrow> doomed lib nodes roots i"
| refers: "i \<in> fst ` set nodes \<Longrightarrow> key \<in> set node_keys \<Longrightarrow>
     doomed lib nodes roots (deletionID (col (row_at nodes i) key)) \<Longrightarrow> doomed lib nodes roots i"
| relays: "i \<in> fst ` set nodes \<Longrightarrow> refs = deletionIDs lib (col (row_at nodes i) ''relay_group_node_ids'') \<Longrightarrow>
     r \<in> set refs \<Longrightarrow> doomed lib nodes roots r \<Longrightarrow>
     \<forall>q \<in> set refs. q \<in> fst ` set nodes \<longrightarrow> doomed lib nodes roots q \<Longrightarrow> doomed lib nodes roots i"

lemma refs_why_iff:
  "refs_why lib nodes n reasons \<noteq> None \<longleftrightarrow>
     (let refs = set (deletionIDs lib (col n ''relay_group_node_ids''))
      in refs \<inter> dom reasons \<noteq> {} \<and> (\<forall>q \<in> refs. q \<in> fst ` set nodes \<longrightarrow> q \<in> dom reasons))"
proof -
  have "(map_of nodes q \<noteq> None) = (q \<in> fst ` set nodes)" for q
    by (metis map_of_eq_None_iff)
  then show ?thesis
    unfolding refs_why_def Let_def by (auto simp: filter_empty_conv domIff disjoint_iff)
qed

lemma node_why_iff:
  "node_why lib nodes i reasons \<noteq> None \<longleftrightarrow>
     (\<exists>key \<in> set node_keys.
        deletionID (col (row_at nodes i) key) \<in> dom reasons)
     \<or> refs_why lib nodes (row_at nodes i) reasons \<noteq> None"
  unfolding node_why_def Let_def by (auto split: option.splits simp: find_None_iff find_Some_iff)

interpretation node_marks: marking "node_why lib nodes" for lib nodes
proof unfold_locales
  fix k :: int and m m' :: reasons
  assume why: "node_why lib nodes k m \<noteq> None" and sub: "dom m \<subseteq> dom m'"
  have "refs_why lib nodes n m' \<noteq> None" if "refs_why lib nodes n m \<noteq> None" for n
    using that sub unfolding refs_why_iff Let_def disjoint_iff by (simp add: subset_iff) metis
  then show "node_why lib nodes k m' \<noteq> None"
    using why sub unfolding node_why_iff by (metis subsetD)
qed

lemma doomed_least:
  "(\<Inter>{C. roots \<subseteq> C \<and> closed_marks (node_why lib nodes) (fst ` set nodes) C}) = {i. doomed lib nodes roots i}" (is "\<Inter>?S = ?D")
proof
  have "i \<in> ?D" if i: "i \<in> fst ` set nodes" and m: "dom m \<subseteq> ?D" and why: "node_why lib nodes i m \<noteq> None" for i m
  proof (cases "refs_why lib nodes (row_at nodes i) m = None")
    case True
    then obtain key where "key \<in> set node_keys"
      "deletionID (col (row_at nodes i) key) \<in> dom m"
      using why unfolding node_why_iff by blast
    then show ?thesis using doomed.refers [OF i, of key] m by blast
  next
    case False
    define refs where "refs = deletionIDs lib (col (row_at nodes i) ''relay_group_node_ids'')"
    have "set refs \<inter> dom m \<noteq> {}" and rest: "\<forall>q \<in> set refs. q \<in> fst ` set nodes \<longrightarrow> q \<in> dom m"
      using False unfolding refs_why_iff Let_def refs_def by simp_all
    then obtain r where "r \<in> set refs" "r \<in> dom m" by auto
    then show ?thesis using doomed.relays [OF i refs_def, of r] m rest by blast
  qed
  then have "closed_marks (node_why lib nodes) (fst ` set nodes) ?D" unfolding closed_marks_def by blast
  then have "?D \<in> ?S" using doomed.root by blast
  then show "\<Inter>?S \<subseteq> ?D" by (rule Inter_lower)
  have "i \<in> C" if "doomed lib nodes roots i" and C: "C \<in> ?S" for i C
    using that(1)
  proof induction
    case (root i)
    then show ?case using C by blast
  next
    case (refers i key)
    then have "node_why lib nodes i (\<lambda>j. if j \<in> C then Some [] else None) \<noteq> None"
      unfolding node_why_iff by (auto simp: dom_def)
    moreover have "dom (\<lambda>j. if j \<in> C then Some [] else None) \<subseteq> C" by (auto split: if_splits)
    ultimately show ?case using C refers(1) unfolding closed_marks_def by blast
  next
    case (relays i refs r)
    then have "node_why lib nodes i (\<lambda>j. if j \<in> C then Some [] else None) \<noteq> None"
      unfolding node_why_iff refs_why_iff Let_def by (auto simp: dom_def)
    moreover have "dom (\<lambda>j. if j \<in> C then Some [] else None) \<subseteq> C" by (auto split: if_splits)
    ultimately show ?case using C relays(1) unfolding closed_marks_def by blast
  qed
  then show "?D \<subseteq> \<Inter>?S" by auto
qed

text \<open>
  C34: The loop over dependent nodes always ends within one pass per node and one
  more, keeps every reason it started with, and marks exactly the nodes that the
  dependencies doom, in whatever order Go visits the nodes in each pass.
\<close>

theorem dependent_nodes_least:
  assumes "\<And>n. set (order n) = fst ` set nodes"
  shows "\<exists>rs. dependent_nodes lib nodes order reasons = Some rs \<and> reasons \<subseteq>\<^sub>m rs
    \<and> dom rs = {i. doomed lib nodes (dom reasons) i}"
proof -
  have "card (fst ` set nodes - dom reasons) \<le> card (fst ` set nodes)"
    by (rule card_mono) auto
  also have "\<dots> \<le> length nodes" by (metis card_image_le card_length finite_set le_trans)
  finally have "card (fst ` set nodes - dom reasons) < Suc (length nodes)" by simp
  from node_marks.ends_least [of order "fst ` set nodes" reasons _ lib nodes, OF assms _ this] show ?thesis
    unfolding dependent_nodes_def doomed_least by simp
qed

definition ex_delete_nodes :: "(int \<times> row) list" where
  "ex_delete_nodes = [(1, []), (2, [(''parent_node_id'', JNum 1)]), (3, [(''relay_group_node_ids'', JArr [JNum 1, JNum 2])]),
     (4, [(''relay_group_node_ids'', JArr [JNum 1, JNum 5])]), (5, [])]"

definition ex_delete_lib :: deletion_lib where
  "ex_delete_lib = \<lparr>unmarshal = (\<lambda>_. None), sprint = (\<lambda>_. []), sha256_hex = id, hashJSON = (\<lambda>_. []), hashJSON_list = (\<lambda>_. [])\<rparr>"

theorem dependent_nodes_least_witness:
  "doomed ex_delete_lib ex_delete_nodes {1} 3 \<and> \<not> doomed ex_delete_lib ex_delete_nodes {1} 4"
proof -
  let ?order = "\<lambda>_::nat. [5, 4, 3, 2, 1::int]"
  have "\<And>n. set (?order n) = fst ` set ex_delete_nodes" by (auto simp: ex_delete_nodes_def)
  from dependent_nodes_least [of ?order, OF this, of ex_delete_lib "[1 \<mapsto> ''direct'']"]
  obtain rs where rs: "dependent_nodes ex_delete_lib ex_delete_nodes ?order [1 \<mapsto> ''direct''] = Some rs"
    "dom rs = {i. doomed ex_delete_lib ex_delete_nodes {1} i}" by auto
  have "map_option (\<lambda>rs. (rs 3 \<noteq> None, rs 4 \<noteq> None)) (dependent_nodes ex_delete_lib ex_delete_nodes ?order [1 \<mapsto> ''direct'']) = Some (True, False)"
    by code_simp
  then have "3 \<in> dom rs" "4 \<notin> dom rs" using rs(1) by auto
  then show ?thesis unfolding rs(2) by simp
qed

end
