(* ===== verification/Deletion_Tunnels.thy ===== *)
theory Deletion_Tunnels
  imports Deletion_Plan
begin

text \<open>
  \<open>planDeletionTunnels\<close> (\<open>server_delete_dependencies.go\<close>): the tunnels and hops that
  break with the server, the closure over tunnels that lead into a broken one, and
  the nodes whose entry is a broken tunnel. The state is the plan, the reasons, the
  tunnels by key, the broken keys and the keys of the routed steps.
\<close>

record tunnel_state =
  ts_plan :: serverDeletionPlan
  ts_reasons :: reasons
  ts_tunnels :: "(string \<times> row) list"
  ts_broken :: "string \<rightharpoonup> unit"
  ts_routed :: "string list"

definition tunnel_key :: "row \<Rightarrow> string" where
  "tunnel_key t = go_itoa (deletionID (col t ''server_id'')) @ '':'' @ deletionText (col t ''tag'')"

definition add_step :: "deletion_step \<Rightarrow> tunnel_state \<Rightarrow> tunnel_state" where
  "add_step st s = s\<lparr>ts_plan := (ts_plan s)\<lparr>p_steps := p_steps (ts_plan s) @ [st]\<rparr>\<rparr>"

definition set_attention :: "(string list \<Rightarrow> string list) \<Rightarrow> tunnel_state \<Rightarrow> tunnel_state" where
  "set_attention f s = s\<lparr>ts_plan := (ts_plan s)\<lparr>p_attention := f (p_attention (ts_plan s))\<rparr>\<rparr>"

definition set_row :: "string \<Rightarrow> json option \<Rightarrow> row \<Rightarrow> row" where
  "set_row k v r = (case v of None \<Rightarrow> r | Some j \<Rightarrow> (k, j) # r)"

definition tunnel_conditional :: "row \<Rightarrow> bool" where
  "tunnel_conditional t \<longleftrightarrow> col t ''conditional'' = Some (JBool True)
     \<or> json_list (col t ''match_domain'') \<noteq> [] \<or> json_list (col t ''match_ip'') \<noteq> []"

definition tunnel_matches :: "row \<Rightarrow> string \<Rightarrow> bool" where
  "tunnel_matches t tag =
     (if json_list (col t ''inbound_tags'') \<noteq> [] then JStr tag \<in> set (json_list (col t ''inbound_tags''))
      else deletionText (col t ''inbound_tag'') = [] \<or> col t ''inbound_tag'' = Some (JStr tag))"

definition routed_node :: "row \<Rightarrow> row \<Rightarrow> row \<Rightarrow> bool" where
  "routed_node t server n \<longleftrightarrow>
     col n ''original_server'' = col server ''name''
     \<and> (col n ''routed_outbound_tag'' = col t ''tag''
        \<or> tunnel_matches t (deletionText (col n ''inbound_tag'')) \<and> \<not> tunnel_conditional t)"

definition routed_step :: "row \<Rightarrow> deletion_step" where
  "routed_step t =
     (step_of ''tunnel'' 0 ''routed-tunnel'')
       \<lparr>ds_server := deletionID (col t ''server_id''), ds_tag := deletionText (col t ''tag''),
        ds_payload := Some ((''kind'', JStr ''routed'')
          # set_row ''target_address'' (col t ''target_address'') (set_row ''target_port'' (col t ''target_port'') []))\<rparr>"

definition plan_routed ::
  "(int \<times> row) list \<Rightarrow> (int \<times> row) list \<Rightarrow> string list \<Rightarrow> row \<Rightarrow> tunnel_state \<Rightarrow> tunnel_state" where
  "plan_routed servers nodes hosts t s =
     (let sid = deletionID (col t ''server_id'') in
      if sid \<noteq> p_server (ts_plan s) \<and> deletionHost (col t ''target_address'') \<in> set hosts then
        (let s1 = s\<lparr>ts_reasons := mark_nodes (\<lambda>_ n. routed_node t (row_at servers sid) n) ''routed-tunnel'' nodes (ts_reasons s)\<rparr>;
             s2 = (if tunnel_conditional t
                   then set_attention (\<lambda>a. appendUniqueString a (''partial-tunnel '' @ deletionText (col t ''tag''))) s1 else s1)
         in if tunnel_key t \<in> set (ts_routed s2) then s2
            else (add_step (routed_step t) s2)\<lparr>ts_routed := tunnel_key t # ts_routed s2\<rparr>)
      else s)"

definition break_key :: "string \<Rightarrow> tunnel_state \<Rightarrow> tunnel_state" where
  "break_key k s = s\<lparr>ts_broken := (ts_broken s)(k \<mapsto> ())\<rparr>"

definition hop_broken :: "int \<Rightarrow> string list \<Rightarrow> row \<Rightarrow> bool" where
  "hop_broken serverID hosts t \<longleftrightarrow>
     deletionID (col t ''server_id'') = serverID \<or> deletionHost (col t ''target_address'') \<in> set hosts"

definition plan_tunnel ::
  "(int \<times> row) list \<Rightarrow> (int \<times> row) list \<Rightarrow> string list \<Rightarrow> row \<Rightarrow> tunnel_state \<Rightarrow> tunnel_state" where
  "plan_tunnel servers nodes hosts t s =
     (if col t ''kind'' = Some (JStr ''routed'') then plan_routed servers nodes hosts t s
      else (let s1 = s\<lparr>ts_tunnels := AList.update (tunnel_key t) t (ts_tunnels s)\<rparr>
            in if hop_broken (p_server (ts_plan s)) hosts t then break_key (tunnel_key t) s1 else s1))"

section \<open>Tunnel chains and their labels\<close>

definition hop_row :: "deletion_lib \<Rightarrow> json \<Rightarrow> row" where
  "hop_row lib h = (case deletionObject lib (Some h) of None \<Rightarrow> [] | Some r \<Rightarrow> r)"

definition last_broken :: "int \<Rightarrow> string list \<Rightarrow> row list \<Rightarrow> nat option" where
  "last_broken serverID hosts hops =
     (case filter (\<lambda>i. hop_broken serverID hosts (hops ! i)) [0..<length hops] of [] \<Rightarrow> None | x # xs \<Rightarrow> Some (last (x # xs)))"

definition plan_chain :: "deletion_lib \<Rightarrow> string list \<Rightarrow> row \<Rightarrow> tunnel_state \<Rightarrow> tunnel_state" where
  "plan_chain lib hosts chain s =
     (let hops = map (hop_row lib) (json_list (col chain ''hops''));
          s1 = fold (\<lambda>hop st. st\<lparr>ts_tunnels := AList.update (tunnel_key hop) hop (ts_tunnels st)\<rparr>) hops s
      in case last_broken (p_server (ts_plan s)) hosts hops of
           None \<Rightarrow> s1
         | Some i \<Rightarrow>
             set_attention (\<lambda>a. a @ [(if i < length hops - 1 then ''chain-entry-lost '' else ''chain-exit-lost '') @ deletionText (col chain ''label'')])
               (fold (\<lambda>hop. break_key (tunnel_key hop)) (take (Suc i) hops) s1))"

text \<open>\<open>label\<close>: the last \<open>-h\<close> with a number behind it, not at the start.\<close>

definition tunnel_label :: "string \<Rightarrow> (string \<times> int) option" where
  "tunnel_label tag =
     (if has_prefix tag ''tunnel-'' then
        (case filter (\<lambda>i. has_prefix (drop i tag) ''-h'') [0..<length tag] of
           [] \<Rightarrow> None
         | x # xs \<Rightarrow> (let i = last (x # xs) in
              if i = 0 then None else map_option (\<lambda>n. (take i tag, n)) (go_atoi (drop (i + 2) tag))))
      else None)"

definition label_of :: "row \<Rightarrow> string \<times> int" where
  "label_of t = (case tunnel_label (deletionText (col t ''tag'')) of None \<Rightarrow> ([], -1) | Some p \<Rightarrow> p)"

definition broken_keys :: "tunnel_state \<Rightarrow> string list" where
  "broken_keys s = filter (\<lambda>k. ts_broken s k \<noteq> None) (map fst (ts_tunnels s))"

definition broken_labels :: "tunnel_state \<Rightarrow> string \<rightharpoonup> int" where
  "broken_labels s =
     fold (\<lambda>k m. let (l, n) = label_of (row_at (ts_tunnels s) k)
                 in if l \<noteq> [] \<and> (case m l of None \<Rightarrow> True | Some old \<Rightarrow> old < n) then m(l \<mapsto> n) else m)
       (broken_keys s) Map.empty"

definition break_labels :: "tunnel_state \<Rightarrow> tunnel_state" where
  "break_labels s =
     fold (\<lambda>(k, t) st. let (l, n) = label_of t
                       in case broken_labels s l of
                            None \<Rightarrow> st
                          | Some m \<Rightarrow> if n \<le> m then break_key k st else st) (ts_tunnels s) s"

section \<open>Tunnels that lead into a broken one\<close>

definition leads_into :: "(int \<times> row) list \<Rightarrow> row \<Rightarrow> row \<Rightarrow> bool" where
  "leads_into servers t hop \<longleftrightarrow>
     deletionID (col t ''target_port'') = deletionID (col hop ''listen_port'')
     \<and> deletionHost (col t ''target_address'') \<in> set (deletionServerHosts (row_at servers (deletionID (col hop ''server_id''))))"

definition tunnel_why ::
  "(int \<times> row) list \<Rightarrow> (string \<times> row) list \<Rightarrow> string \<Rightarrow> (string \<rightharpoonup> unit) \<Rightarrow> unit option" where
  "tunnel_why servers tunnels k broken =
     (if list_ex (\<lambda>(other, hop). broken other \<noteq> None \<and> leads_into servers (row_at tunnels k) hop) tunnels
      then Some () else None)"

interpretation tunnel_marks: marking "tunnel_why servers tunnels" for servers tunnels
proof unfold_locales
  fix k :: string and m m' :: "string \<rightharpoonup> unit"
  assume "tunnel_why servers tunnels k m \<noteq> None" and "dom m \<subseteq> dom m'"
  moreover have "m' other \<noteq> None" if "dom m \<subseteq> dom m'" "m other \<noteq> None" for other using that by (meson domIff subsetD)
  ultimately show "tunnel_why servers tunnels k m' \<noteq> None"
    unfolding tunnel_why_def list_ex_iff by (auto split: if_splits)
qed

section \<open>Nodes behind a broken tunnel\<close>

definition retire_tunnel ::
  "deletion_lib \<Rightarrow> (int \<times> row) list \<Rightarrow> (int \<times> row) list \<Rightarrow> string \<Rightarrow> tunnel_state \<Rightarrow> tunnel_state" where
  "retire_tunnel lib servers nodes k s =
     (let t = row_at (ts_tunnels s) k;
          sid = deletionID (col t ''server_id'');
          tag = deletionText (col t ''tag'');
          behind = (\<lambda>_ n. deletionNodeHost lib n \<in> set (deletionServerHosts (row_at servers sid))
              \<and> deletionID (object_col (deletionObject lib (col n ''clash_config'')) ''port'') = deletionID (col t ''listen_port''));
          s1 = s\<lparr>ts_reasons := mark_nodes behind ''tunnel-entry'' nodes (ts_reasons s)\<rparr>
      in if sid \<noteq> p_server (ts_plan s) \<and> tag \<noteq> []
         then add_step ((step_of ''tunnel'' 0 ''tunnel'')\<lparr>ds_server := sid, ds_tag := tag, ds_payload := Some t\<rparr>) s1
         else s1)"

text \<open>\<open>order\<close> is the order of the map of tunnels in each pass of the closure.\<close>

definition planDeletionTunnels ::
  "deletion_lib \<Rightarrow> serverDeletionInventory \<Rightarrow> (int \<times> row) list \<Rightarrow> (int \<times> row) list \<Rightarrow> string list
     \<Rightarrow> (nat \<Rightarrow> string list \<Rightarrow> string list) \<Rightarrow> serverDeletionPlan \<Rightarrow> reasons \<Rightarrow> (serverDeletionPlan \<times> reasons) option" where
  "planDeletionTunnels lib data servers nodes hosts order p reasons =
     (let s0 = \<lparr>ts_plan = p, ts_reasons = reasons, ts_tunnels = [], ts_broken = Map.empty, ts_routed = []\<rparr>;
          s1 = fold (plan_tunnel servers nodes hosts) (data ''tunnels'') s0;
          s2 = break_labels (fold (plan_chain lib hosts) (data ''tunnel_chains'') s1)
      in case mark_until_stable (Suc (length (ts_tunnels s2))) (tunnel_why servers (ts_tunnels s2))
                (\<lambda>n. order n (map fst (ts_tunnels s2))) (ts_broken s2) of
           None \<Rightarrow> None
         | Some broken \<Rightarrow>
             (let s3 = s2\<lparr>ts_broken := broken\<rparr>;
                  s4 = fold (retire_tunnel lib servers nodes) (broken_keys s3) s3
              in Some (ts_plan s4, ts_reasons s4)))"

end
