(* ===== verification/Deletion_Retire.thy ===== *)
theory Deletion_Retire
  imports Deletion_Tunnels
begin

text \<open>
  The rest of \<open>planServerDeletion\<close>: the list of removed nodes, what is trimmed or
  deleted with them (relay groups, packages, traffic groups, chains, forward groups,
  subscriptions, certificates), \<open>planDeletionIdentities\<close>, and the order of the steps.
\<close>

section \<open>The removed nodes\<close>

definition sources_named :: "(int \<times> row) list \<Rightarrow> row \<Rightarrow> int list" where
  "sources_named servers n =
     map fst (filter (\<lambda>(_, s). deletionText (col s ''name'') = deletionText (col n ''original_server'')) servers)"

text \<open>\<open>sourceID\<close>: a second server of the name is an error, unless the first has id 0.\<close>

fun source_id :: "int list \<Rightarrow> int \<Rightarrow> int option" where
  "source_id [] acc = Some acc"
| "source_id (sid # sids) acc = (if acc \<noteq> 0 then None else source_id sids sid)"

definition node_port :: "deletion_lib \<Rightarrow> row \<Rightarrow> int" where
  "node_port lib n =
     (let port = deletionID (object_col (deletionObject lib (col n ''clash_config'')) ''port'')
      in if port = 0 then deletionID (object_col (deletionObject lib (col n ''parsed_config'')) ''port'') else port)"

definition subscription_fingerprint :: "deletion_lib \<Rightarrow> string list \<Rightarrow> bool \<Rightarrow> row \<Rightarrow> subscription_node" where
  "subscription_fingerprint lib hosts is_direct n =
     (if is_direct \<or> deletionNodeHost lib n \<in> set hosts
      then \<lparr>sn_name = deletionText (col n ''node_name''), sn_host = deletionNodeHost lib n, sn_port = node_port lib n\<rparr>
      else \<lparr>sn_name = deletionText (col n ''node_name''), sn_host = [], sn_port = 0\<rparr>)"

definition deletion_node_of :: "deletion_lib \<Rightarrow> int \<Rightarrow> row \<Rightarrow> int \<Rightarrow> string \<Rightarrow> bool \<Rightarrow> deletion_node" where
  "deletion_node_of lib i n source reason is_direct =
     \<lparr>dn_source = source, dn_id = i, dn_name = deletionText (col n ''node_name''),
      dn_server = deletionText (col n ''original_server''), dn_inbound = deletionText (col n ''inbound_tag''),
      dn_reason = reason, dn_direct = is_direct, dn_hash = deletionNodeHash lib n\<rparr>"

fun removed_nodes ::
  "deletion_lib \<Rightarrow> (int \<times> row) list \<Rightarrow> string list \<Rightarrow> int set \<Rightarrow> reasons \<Rightarrow> (int \<times> row) list
     \<Rightarrow> (deletion_node list \<times> subscription_node list) option" where
  "removed_nodes lib servers hosts direct reasons [] = Some ([], [])"
| "removed_nodes lib servers hosts direct reasons ((i, n) # rest) =
     (case reasons i of
        None \<Rightarrow> removed_nodes lib servers hosts direct reasons rest
      | Some reason \<Rightarrow>
          (case source_id (sources_named servers n) 0 of
             None \<Rightarrow> None
           | Some source \<Rightarrow>
               (case removed_nodes lib servers hosts direct reasons rest of
                  None \<Rightarrow> None
                | Some (ns, subs) \<Rightarrow>
                    Some (deletion_node_of lib i n source reason (i \<in> direct) # ns,
                          subscription_fingerprint lib hosts (i \<in> direct) n # subs))))"

section \<open>What loses members\<close>

definition surviving :: "reasons \<Rightarrow> int list \<Rightarrow> int list" where
  "surviving reasons refs = filter (\<lambda>i. reasons i = None) refs"

definition jnums :: "int list \<Rightarrow> json" where
  "jnums xs = JArr (map JNum xs)"

definition without :: "string list \<Rightarrow> row \<Rightarrow> row" where
  "without ks r = filter (\<lambda>(k, _). k \<notin> set ks) r"

definition row_tags :: "deletion_lib \<Rightarrow> row \<Rightarrow> json" where
  "row_tags lib n =
     (case unmarshal lib (deletionText (col n ''tags'')) of
        Some (JArr vs) \<Rightarrow> JArr (map (\<lambda>v. JStr (deletionText (Some v))) vs)
      | _ \<Rightarrow> JArr [])"

definition trim_nodes :: "deletion_lib \<Rightarrow> reasons \<Rightarrow> row list \<Rightarrow> (string \<times> deletion_step) list" where
  "trim_nodes lib reasons nodes =
     map (\<lambda>n. let old = deletionIDs lib (col n ''relay_group_node_ids'') in
         (''relay-trimmed '' @ deletionText (col n ''node_name''),
          (step_of ''trim-node'' (deletionID (col n ''id'')) (deletionText (col n ''node_name'')))
            \<lparr>ds_hash := deletionNodeHash lib n,
             ds_payload := Some ([(''relay_group_node_ids'', jnums (surviving reasons old)),
                 (''enabled'', JBool (deletionID (col n ''enabled'') \<noteq> 0)), (''tags'', row_tags lib n)]
               @ without [''created_at'', ''updated_at'', ''relay_group_node_ids'', ''enabled'', ''tags''] n)\<rparr>))
       (filter (\<lambda>n. reasons (deletionID (col n ''id'')) = None
           \<and> (let old = deletionIDs lib (col n ''relay_group_node_ids'') in length old \<noteq> length (surviving reasons old))) nodes)"

definition lifecyclePackageEmptied :: "int list \<Rightarrow> int list \<Rightarrow> bool" where
  "lifecyclePackageEmptied nodes deleted \<longleftrightarrow> nodes \<noteq> [] \<and> list_all (\<lambda>i. i \<in> set deleted) nodes"

definition package_users :: "serverDeletionInventory \<Rightarrow> int \<Rightarrow> string list" where
  "package_users data i =
     sorted_unique (map (\<lambda>u. deletionText (col u ''username''))
       (filter (\<lambda>u. deletionID (col u ''package_id'') = i) (data ''users'' @ data ''user_package_assignments'')))"

definition affected_packages ::
  "deletion_lib \<Rightarrow> serverDeletionInventory \<Rightarrow> reasons \<Rightarrow> int list \<Rightarrow> (deletion_package \<times> subscription_node list) list" where
  "affected_packages lib data reasons ids =
     map (\<lambda>pkg. let old = deletionIDs lib (col pkg ''nodes''); i = deletionID (col pkg ''id'');
                    removed = filter (\<lambda>r. reasons r \<noteq> None) old;
                    aliases = map (\<lambda>d. deletionText (object_col (deletionObject lib (col pkg ''node_name_overrides'')) (go_itoa d))) removed
                in (\<lparr>dp_id = i, dp_name = deletionText (col pkg ''name''), dp_users = package_users data i, dp_nodes = old,
                     dp_deleted = removed, dp_delete = lifecyclePackageEmptied old ids\<rparr>,
                    map (\<lambda>a. \<lparr>sn_name = a, sn_host = [], sn_port = 0\<rparr>) (filter (\<lambda>a. a \<noteq> []) aliases)))
       (filter (\<lambda>pkg. list_ex (\<lambda>r. reasons r \<noteq> None) (deletionIDs lib (col pkg ''nodes''))) (data ''packages''))"

definition affected_traffic_groups :: "deletion_lib \<Rightarrow> serverDeletionInventory \<Rightarrow> reasons \<Rightarrow> deletion_group list" where
  "affected_traffic_groups lib data reasons =
     map (\<lambda>g. let kept = surviving reasons (deletionIDs lib (col g ''node_ids''))
              in \<lparr>dg_id = deletionID (col g ''id''), dg_package = deletionID (col g ''package_id''),
                  dg_name = deletionText (col g ''name''), dg_nodes = kept, dg_limit = deletionID (col g ''limit_bytes''),
                  dg_delete = kept = []\<rparr>)
       (filter (\<lambda>g. let old = deletionIDs lib (col g ''node_ids'') in length old \<noteq> length (surviving reasons old))
          (data ''mmwxc_package_traffic_groups''))"

definition connection_tables :: "string list" where
  "connection_tables = [''mmwxc_connection_assignments'', ''user_inbound_configs'', ''package_assignment_inbound_configs'',
     ''user_subaccounts'', ''package_assignment_subaccounts'', ''user_outbounds'']"

definition affected_connections :: "serverDeletionInventory \<Rightarrow> int \<Rightarrow> reasons \<Rightarrow> (string \<times> int) list" where
  "affected_connections data serverID reasons =
     filter (\<lambda>(_, n). n \<noteq> 0)
       (map (\<lambda>table. (table, int (length (filter (\<lambda>r. deletionID (col r ''server_id'') = serverID
            \<or> reasons (deletionID (col r ''routed_node_id'')) \<noteq> None) (data table))))) connection_tables)"

definition chain_steps :: "serverDeletionInventory \<Rightarrow> int \<Rightarrow> deletion_step list \<times> string list" where
  "chain_steps data serverID =
     (let chains = data ''forward_chains''; cid = (\<lambda>c. deletionID (col c ''id''))
      in (map (\<lambda>c. step_of ''chain'' (cid c) (deletionText (col c ''name''))) (filter (\<lambda>c. broken_chain data serverID (cid c)) chains),
          map (\<lambda>c. ''chain-degraded '' @ deletionText (col c ''name''))
            (filter (\<lambda>c. \<not> broken_chain data serverID (cid c) \<and> degraded_chain data serverID (cid c)) chains)))"

definition group_steps :: "serverDeletionInventory \<Rightarrow> int \<Rightarrow> deletion_step list" where
  "group_steps data serverID =
     map (\<lambda>g. let i = deletionID (col g ''id''); name = deletionText (col g ''name'');
                  members = map (\<lambda>m. JObj (set_row ''server_id'' (col m ''server_id'') (set_row ''weight'' (col m ''weight'') [])))
                              (group_members data serverID i)
              in if empty_group data serverID i then step_of ''group'' i name
                 else (step_of ''trim-group'' i name)
                   \<lparr>ds_payload := Some ([(''members'', JArr members), (''failover_enabled'', JBool (deletionID (col g ''failover_enabled'') \<noteq> 0))]
                      @ without [''created_at'', ''updated_at'', ''members'', ''failover_enabled''] g)\<rparr>)
       (filter (\<lambda>g. deletionID (col g ''id'') \<in> set (affected_groups data serverID)) (data ''forward_groups''))"

definition stats_ids :: "deletion_lib \<Rightarrow> string \<Rightarrow> int list" where
  "stats_ids lib stats =
     deletionIDs lib (Some (JStr stats))
     @ (if has_prefix stats ''['' then []
        else filter (\<lambda>i. 0 < i) (map (\<lambda>part. deletionID (Some (JStr (trim_space part)))) (go_split (CHR '','') stats)))"

definition subscription_step ::
  "deletion_lib \<Rightarrow> int \<Rightarrow> reasons \<Rightarrow> row \<Rightarrow> (deletion_step \<times> string) option" where
  "subscription_step lib serverID reasons file =
     (let selected = deletionIDs lib (col file ''selected_node_ids'');
          kept = surviving reasons selected;
          statsIDs = stats_ids lib (deletionText (col file ''stats_server_ids''));
          keptStats = map go_itoa (filter (\<lambda>i. i \<noteq> serverID) statsIDs);
          kind = (if selected \<noteq> [] \<and> kept = [] then ''empty-subscription'' else ''subscription'')
      in if length selected = length kept \<and> serverID \<notin> set statsIDs then None
         else Some ((step_of kind (deletionID (col file ''id'')) (''update-subscription '' @ deletionText (col file ''name'')))
              \<lparr>ds_hash := hashJSON_list lib [col file ''selected_node_ids'', col file ''stats_server_ids''],
               ds_payload := Some [(''selected_node_ids'', jnums kept), (''stats_server_ids'', JStr (go_join '','' keptStats))]\<rparr>,
            kind @ '' '' @ deletionText (col file ''name'')))"

definition certificate_steps :: "serverDeletionInventory \<Rightarrow> int \<Rightarrow> deletion_step list \<times> string list" where
  "certificate_steps data serverID =
     (let cs = filter (\<lambda>c. deletionID (col c ''remote_server_id'') = serverID) (data ''certificates'')
      in (map (\<lambda>c. step_of ''certificate'' (deletionID (col c ''id'')) (''stop-certificate '' @ deletionText (col c ''domain''))) cs,
          map (\<lambda>c. ''certificate-kept '' @ deletionText (col c ''domain'')) cs))"

section \<open>Identities and inbounds that may be retired\<close>

definition identity_tables :: "string list" where
  "identity_tables = [''user_inbound_configs'', ''package_assignment_inbound_configs'', ''user_subaccounts'',
     ''package_assignment_subaccounts'']"

definition server_named :: "(int \<times> row) list \<Rightarrow> string \<Rightarrow> int" where
  "server_named servers name =
     (case map_of (rev (map (\<lambda>(i, s). (deletionText (col s ''name''), i)) servers)) name of None \<Rightarrow> 0 | Some i \<Rightarrow> i)"

text \<open>The server, inbound and protocol a connection row is about, its identity and its key.\<close>

definition row_place :: "(int \<times> row) list \<Rightarrow> (int \<times> row) list \<Rightarrow> row \<Rightarrow> int \<times> string \<times> string" where
  "row_place servers nodes r =
     (let nodeID = deletionID (col r ''routed_node_id''); n = row_at nodes nodeID
      in if 0 < nodeID
         then (server_named servers (deletionText (col n ''original_server'')), deletionText (col n ''inbound_tag''),
               deletionText (col n ''protocol''))
         else (deletionID (col r ''server_id''), deletionText (col r ''inbound_tag''), deletionText (col r ''protocol'')))"

definition row_identity :: "deletion_lib \<Rightarrow> (int \<times> row) list \<Rightarrow> (int \<times> row) list \<Rightarrow> row \<Rightarrow> deletion_identity" where
  "row_identity lib servers nodes r =
     (let (i, tag, protocol) = row_place servers nodes r;
          raw = deletionText (col r ''credential_json'');
          email = deletionText (col r ''email'')
      in \<lparr>di_server = i, di_tag = tag,
          di_identity = (if email = [] then extractProtocolIdentity lib raw else email),
          di_key = (case deletionObject lib (Some (JStr raw)) of
              None \<Rightarrow> []
            | Some c \<Rightarrow> if nonEmptyCredentialValue lib c (lifecycleCredentialPrimaryKey protocol)
                         then accessCredentialKey lib protocol c else [])\<rparr>)"

definition row_retired :: "int \<Rightarrow> (int \<times> row) list \<Rightarrow> (int \<times> row) list \<Rightarrow> reasons \<Rightarrow> row \<Rightarrow> bool" where
  "row_retired serverID servers nodes reasons r \<longleftrightarrow>
     0 < deletionID (col r ''routed_node_id'') \<and> reasons (deletionID (col r ''routed_node_id'')) \<noteq> None
     \<and> fst (row_place servers nodes r) \<noteq> serverID"

definition ref_key :: "int \<Rightarrow> string \<Rightarrow> string \<Rightarrow> string" where
  "ref_key i tag v = go_itoa i @ [char_of (0::nat)] @ tag @ [char_of (0::nat)] @ v"

definition connection_rows :: "serverDeletionInventory \<Rightarrow> row list" where
  "connection_rows data = concat (map data identity_tables)"

definition protected_keys ::
  "deletion_lib \<Rightarrow> serverDeletionInventory \<Rightarrow> int \<Rightarrow> (int \<times> row) list \<Rightarrow> (int \<times> row) list \<Rightarrow> reasons \<Rightarrow> string list" where
  "protected_keys lib data serverID servers nodes reasons =
     concat (map (\<lambda>r. let ref = row_identity lib servers nodes r
         in map (ref_key (di_server ref) (di_tag ref)) (filter (\<lambda>v. v \<noteq> []) [di_identity ref, di_key ref]))
       (filter (\<lambda>r. \<not> row_retired serverID servers nodes reasons r) (connection_rows data)))"

definition unprotect :: "string list \<Rightarrow> deletion_identity \<Rightarrow> deletion_identity" where
  "unprotect protected ref =
     (let ref' = (if ref_key (di_server ref) (di_tag ref) (di_identity ref) \<in> set protected then ref\<lparr>di_identity := []\<rparr> else ref)
      in if ref_key (di_server ref') (di_tag ref') (di_key ref') \<in> set protected then ref'\<lparr>di_key := []\<rparr> else ref')"

definition retired_identities ::
  "deletion_lib \<Rightarrow> serverDeletionInventory \<Rightarrow> int \<Rightarrow> (int \<times> row) list \<Rightarrow> (int \<times> row) list \<Rightarrow> reasons \<Rightarrow> deletion_identity list" where
  "retired_identities lib data serverID servers nodes reasons =
     filter (\<lambda>ref. 0 < di_server ref \<and> (di_identity ref \<noteq> [] \<or> di_key ref \<noteq> []))
       (map (\<lambda>r. unprotect (protected_keys lib data serverID servers nodes reasons) (row_identity lib servers nodes r))
          (filter (row_retired serverID servers nodes reasons) (connection_rows data)))"

definition inbound_emptied :: "(int \<times> row) list \<Rightarrow> reasons \<Rightarrow> deletion_node \<Rightarrow> bool" where
  "inbound_emptied nodes reasons n \<longleftrightarrow>
     list_all (\<lambda>(i, other). deletionText (col other ''original_server'') = dn_server n
       \<and> deletionText (col other ''inbound_tag'') = dn_inbound n \<longrightarrow> reasons i \<noteq> None) nodes"

fun retired_inbounds :: "(int \<times> row) list \<Rightarrow> reasons \<Rightarrow> deletion_node list \<Rightarrow> string list \<Rightarrow> (deletion_inbound \<times> deletion_step) list" where
  "retired_inbounds nodes reasons [] seen = []"
| "retired_inbounds nodes reasons (n # ns) seen =
     (if dn_direct n \<or> dn_inbound n = [] \<or> dn_source n = 0 then retired_inbounds nodes reasons ns seen
      else let key = ref_key (dn_source n) (dn_inbound n) [] in
        if inbound_emptied nodes reasons n \<and> key \<notin> set seen
        then (\<lparr>db_server = dn_source n, db_tag = dn_inbound n\<rparr>,
              (step_of ''inbound'' 0 (''retire-inbound '' @ dn_server n @ '' / '' @ dn_inbound n))\<lparr>ds_server := dn_source n, ds_tag := dn_inbound n\<rparr>)
             # retired_inbounds nodes reasons ns (key # seen)
        else retired_inbounds nodes reasons ns seen)"

section \<open>The whole plan\<close>

datatype deletion_error = server_not_found | server_name_repeated | node_server_repeated

definition duplicate_name :: "(int \<times> row) list \<Rightarrow> int \<Rightarrow> bool" where
  "duplicate_name servers serverID \<longleftrightarrow>
     list_ex (\<lambda>(i, s). i \<noteq> serverID \<and> deletionText (col s ''name'') = deletionText (col (row_at servers serverID) ''name'')) servers"

definition empty_plan :: "deletion_lib \<Rightarrow> (int \<times> row) list \<Rightarrow> int \<Rightarrow> serverDeletionPlan" where
  "empty_plan lib servers serverID =
     \<lparr>p_inbounds = [], p_identities = [], p_subscription = [], p_server = serverID,
      p_name = deletionText (col (row_at servers serverID) ''name''),
      p_hash = deletionServerHash lib (row_at servers serverID), p_nodes = [], p_packages = [], p_groups = [],
      p_connections = [], p_attention = shared_notices servers serverID, p_steps = []\<rparr>"

text \<open>All the reasons: first the direct ones, then those of the tunnels, then the closure.\<close>

definition deletion_reasons ::
  "deletion_lib \<Rightarrow> serverDeletionInventory \<Rightarrow> int \<Rightarrow> (nat \<Rightarrow> string list \<Rightarrow> string list) \<Rightarrow> (nat \<Rightarrow> int list \<Rightarrow> int list)
     \<Rightarrow> (serverDeletionPlan \<times> reasons) option" where
  "deletion_reasons lib data serverID tunnel_order node_order =
     (let servers = deletion_servers data; nodes = deletion_nodes data;
          hosts = own_hosts servers serverID;
          p = empty_plan lib servers serverID;
          rs = outbound_reasons lib data serverID hosts (chain_reasons data serverID (initial_reasons lib data (p_name p) hosts))
      in case planDeletionTunnels lib data servers nodes hosts tunnel_order p rs of
           None \<Rightarrow> None
         | Some (p', rs') \<Rightarrow>
             map_option (Pair p') (dependent_nodes lib nodes (\<lambda>n. node_order n (map fst nodes)) rs'))"

definition package_steps :: "deletion_package list \<Rightarrow> deletion_step list" where
  "package_steps ps = map (\<lambda>pkg. step_of ''package'' (dp_id pkg) (dp_name pkg)) ps"

definition node_steps :: "deletion_node list \<Rightarrow> deletion_step list" where
  "node_steps ns =
     concat (map (\<lambda>direct. map (\<lambda>n. (step_of ''node'' (dn_id n) (dn_name n))\<lparr>ds_hash := dn_hash n\<rparr>)
        (filter (\<lambda>n. dn_direct n = direct) ns)) [False, True])"

definition last_steps :: "int \<Rightarrow> deletion_step list" where
  "last_steps serverID = [step_of ''helper'' 0 ''stop-core'', step_of ''server'' serverID ''delete-server'',
     step_of ''sweep'' 0 ''sweep'', step_of ''verify'' 0 ''verify'']"

definition planServerDeletion ::
  "deletion_lib \<Rightarrow> serverDeletionInventory \<Rightarrow> int \<Rightarrow> (nat \<Rightarrow> string list \<Rightarrow> string list) \<Rightarrow> (nat \<Rightarrow> int list \<Rightarrow> int list)
     \<Rightarrow> (deletion_error + serverDeletionPlan) option" where
  "planServerDeletion lib data serverID tunnel_order node_order =
     (let servers = deletion_servers data; nodes = deletion_nodes data; hosts = own_hosts servers serverID;
          name = deletionText (col (row_at servers serverID) ''name'') in
      if map_of servers serverID = None then Some (Inl server_not_found)
      else if duplicate_name servers serverID then Some (Inl server_name_repeated)
      else case deletion_reasons lib data serverID tunnel_order node_order of
        None \<Rightarrow> None
      | Some (p, reasons) \<Rightarrow>
          (case removed_nodes lib servers hosts (direct_nodes data name) reasons nodes of
             None \<Rightarrow> Some (Inl node_server_repeated)
           | Some (removed, subscriptions) \<Rightarrow>
               (let ns = sort_key dn_id removed;
                    trims = trim_nodes lib reasons (data ''nodes'');
                    pkgs = affected_packages lib data reasons (map dn_id ns);
                    packages = sort_key dp_id (map fst pkgs);
                    groups = sort_key dg_id (affected_traffic_groups lib data reasons);
                    chains = chain_steps data serverID;
                    files = List.map_filter (subscription_step lib serverID reasons) (data ''subscribe_files'');
                    certificates = certificate_steps data serverID;
                    sorted_steps = sort_key (\<lambda>st. (ds_kind st, ds_server st, ds_id st, ds_tag st))
                      (p_steps p @ map snd trims @ fst chains @ group_steps data serverID @ map fst files);
                    inbounds = retired_inbounds nodes reasons ns []
                in Some (Inr (p\<lparr>p_nodes := ns, p_packages := packages, p_groups := groups,
                     p_subscription := subscriptions @ concat (map snd pkgs),
                     p_connections := affected_connections data serverID reasons,
                     p_identities := retired_identities lib data serverID servers nodes reasons,
                     p_inbounds := map fst inbounds,
                     p_attention := sort (p_attention p @ map fst trims @ snd chains @ map snd files @ snd certificates),
                     p_steps := package_steps packages @ sorted_steps @ fst certificates @ map snd inbounds
                       @ node_steps ns @ last_steps serverID\<rparr>)))))"

text \<open>The order of each pass over a map visits every key of it.\<close>

definition visits_all :: "(nat \<Rightarrow> 'k list \<Rightarrow> 'k list) \<Rightarrow> bool" where
  "visits_all order \<longleftrightarrow> (\<forall>n ks. set (order n ks) = set ks)"

section \<open>Every stage keeps the nodes that are marked\<close>

lemma fold_dom: "(\<And>x m. dom m \<subseteq> dom (f x m)) \<Longrightarrow> dom m \<subseteq> dom (fold f xs m)"
proof (induction xs arbitrary: m)
  case (Cons x xs)
  then show ?case using order_trans [of "dom m" "dom (f x m)"] by simp
qed simp

lemma mark_nodes_dom: "dom m \<subseteq> dom (mark_nodes affected reason nodes m)"
  unfolding mark_nodes_def by (rule fold_dom) auto

lemma chain_reasons_dom: "dom m \<subseteq> dom (chain_reasons data serverID m)"
  unfolding chain_reasons_def by (rule fold_dom) auto

lemma outbound_reasons_dom: "dom m \<subseteq> dom (outbound_reasons lib data serverID hosts m)"
  unfolding outbound_reasons_def
proof (rule fold_dom)
  fix out m
  show "dom m \<subseteq> dom (if deletionID (col out ''server_id'') = serverID then m
      else if \<not> (case deletionObject lib (col out ''outbound_json'') of None \<Rightarrow> False | Some kvs \<Rightarrow> deletionJSONUsesHost hosts (JObj kvs)) then m
      else let source = row_at (deletion_servers data) (deletionID (col out ''server_id''))
           in mark_nodes (\<lambda>_ n. col n ''original_server'' = col source ''name'' \<and> col n ''inbound_tag'' = col out ''inbound_tag'')
                ''outbound'' (deletion_nodes data) m)"
    using mark_nodes_dom [of m] by (simp add: Let_def)
qed

lemma initial_reasons_direct: "direct_nodes data name \<subseteq> dom (initial_reasons lib data name hosts)"
proof -
  have "dom m \<union> set (map (\<lambda>n. deletionID (col n ''id'')) (filter (\<lambda>n. deletionText (col n ''original_server'') = name) rows))
    \<subseteq> dom (fold (\<lambda>n rs. let i = deletionID (col n ''id'') in
         if deletionText (col n ''original_server'') = name then rs(i \<mapsto> ''direct'')
         else if deletionNodeHost lib n \<in> set hosts then rs(i \<mapsto> ''address'')
         else rs) rows m)" for rows and m :: reasons
  proof (induction rows arbitrary: m)
    case (Cons n rows)
    let ?i = "deletionID (col n ''id'')"
    show ?case
      using Cons.IH [of m] Cons.IH [of "m(?i \<mapsto> ''direct'')"] Cons.IH [of "m(?i \<mapsto> ''address'')"]
      by (cases "deletionText (col n ''original_server'') = name"; cases "deletionNodeHost lib n \<in> set hosts")
        (simp_all add: Let_def del: fun_upd_apply)
  qed simp
  from this [of Map.empty] show ?thesis unfolding initial_reasons_def direct_nodes_def by simp
qed

lemma fold_reasons:
  assumes "\<And>x s. dom (ts_reasons s) \<subseteq> dom (ts_reasons (f x s))"
  shows "dom (ts_reasons s) \<subseteq> dom (ts_reasons (fold f xs s))"
proof (induction xs arbitrary: s)
  case (Cons x xs)
  then show ?case using assms [of s x] by (simp add: subset_trans)
qed simp

lemma state_reasons [simp]:
  "ts_reasons (add_step st s) = ts_reasons s" "ts_reasons (set_attention g s) = ts_reasons s"
  "ts_reasons (break_key k s) = ts_reasons s"
  by (simp_all add: add_step_def set_attention_def break_key_def)

lemma fold_same_reasons:
  assumes "\<And>x s. ts_reasons (f x s) = ts_reasons s"
  shows "ts_reasons (fold f xs s) = ts_reasons s"
  by (induction xs arbitrary: s) (simp_all add: assms)

lemma plan_tunnel_reasons: "dom (ts_reasons s) \<subseteq> dom (ts_reasons (plan_tunnel servers nodes hosts t s))"
  using mark_nodes_dom by (auto simp: plan_tunnel_def plan_routed_def Let_def)

lemma plan_chain_reasons: "ts_reasons (plan_chain lib hosts chain s) = ts_reasons s"
  by (simp add: plan_chain_def Let_def fold_same_reasons split: option.splits)

lemma break_labels_reasons: "ts_reasons (break_labels s) = ts_reasons s"
  unfolding break_labels_def by (rule fold_same_reasons) (auto split: prod.splits option.splits)

lemma retire_tunnel_reasons: "dom (ts_reasons s) \<subseteq> dom (ts_reasons (retire_tunnel lib servers nodes k s))"
  using mark_nodes_dom by (auto simp: retire_tunnel_def Let_def)

lemma planDeletionTunnels_reasons:
  assumes "visits_all order"
  shows "\<exists>p' rs'. planDeletionTunnels lib data servers nodes hosts order p rs = Some (p', rs') \<and> dom rs \<subseteq> dom rs'"
proof -
  define s0 where "s0 = \<lparr>ts_plan = p, ts_reasons = rs, ts_tunnels = [], ts_broken = Map.empty, ts_routed = []\<rparr>"
  define s1 where "s1 = fold (plan_tunnel servers nodes hosts) (data ''tunnels'') s0"
  define s2 where "s2 = break_labels (fold (plan_chain lib hosts) (data ''tunnel_chains'') s1)"
  have "dom rs \<subseteq> dom (ts_reasons s1)"
    using fold_reasons [of "plan_tunnel servers nodes hosts", OF plan_tunnel_reasons, of s0] by (simp add: s0_def s1_def)
  also have "ts_reasons s1 = ts_reasons s2"
    by (simp add: s2_def break_labels_reasons fold_same_reasons plan_chain_reasons)
  finally have dom2: "dom rs \<subseteq> dom (ts_reasons s2)" .
  let ?K = "fst ` set (ts_tunnels s2)"
  have "card (?K - dom (ts_broken s2)) \<le> length (ts_tunnels s2)"
  proof -
    have "card (?K - dom (ts_broken s2)) \<le> card ?K" by (rule card_mono) auto
    also have "\<dots> \<le> card (set (ts_tunnels s2))" by (rule card_image_le) simp
    also have "\<dots> \<le> length (ts_tunnels s2)" by (rule card_length)
    finally show ?thesis .
  qed
  then have small: "card (?K - dom (ts_broken s2)) < Suc (length (ts_tunnels s2))" by simp
  have same: "set (order n (map fst (ts_tunnels s2))) = ?K" for n using assms by (simp add: visits_all_def)
  have "finite ?K" by simp
  note tunnel_marks.ends_least [where order = "\<lambda>n. order n (map fst (ts_tunnels s2))", OF same this small,
      of servers "ts_tunnels s2"]
  then obtain broken where "mark_until_stable (Suc (length (ts_tunnels s2))) (tunnel_why servers (ts_tunnels s2))
      (\<lambda>n. order n (map fst (ts_tunnels s2))) (ts_broken s2) = Some broken"
    by (elim exE conjE)
  moreover have "dom (ts_reasons s2) \<subseteq> dom (ts_reasons (fold (retire_tunnel lib servers nodes) xs (s2\<lparr>ts_broken := broken\<rparr>)))" for xs
    using fold_reasons [of "retire_tunnel lib servers nodes", OF retire_tunnel_reasons, of "s2\<lparr>ts_broken := broken\<rparr>"] by simp
  ultimately show ?thesis
    using subset_trans [OF dom2]
    unfolding planDeletionTunnels_def Let_def s0_def [symmetric] s1_def [symmetric] s2_def [symmetric]
    by (simp del: mark_until_stable.simps)
qed

lemma dependent_nodes_ends:
  assumes "visits_all order"
  shows "\<exists>rs'. dependent_nodes lib nodes (\<lambda>n. order n (map fst nodes)) rs = Some rs' \<and> dom rs \<subseteq> dom rs'
    \<and> closed_marks (node_why lib nodes) (fst ` set nodes) (dom rs')"
proof -
  have "card (fst ` set nodes - dom rs) \<le> card (fst ` set nodes)" by (rule card_mono) auto
  also have "\<dots> \<le> card (set nodes)" by (rule card_image_le) simp
  also have "\<dots> \<le> length nodes" by (rule card_length)
  finally have small: "card (fst ` set nodes - dom rs) < Suc (length nodes)" by simp
  have same: "set (order n (map fst nodes)) = fst ` set nodes" for n using assms by (simp add: visits_all_def)
  have "finite (fst ` set nodes)" by simp
  note node_marks.ends_least [where order = "\<lambda>n. order n (map fst nodes)", OF same this small, of lib nodes]
  then obtain rs' where run: "dependent_nodes lib nodes (\<lambda>n. order n (map fst nodes)) rs = Some rs'"
    and rs': "dom rs' = \<Inter>{C. dom rs \<subseteq> C \<and> closed_marks (node_why lib nodes) (fst ` set nodes) C}"
    unfolding dependent_nodes_def by blast
  have "closed_marks (node_why lib nodes) (fst ` set nodes) (dom rs')"
    unfolding rs' closed_marks_def by blast
  then show ?thesis using run rs' by blast
qed

lemma deletion_reasons_closed:
  assumes "visits_all tunnel_order" and "visits_all node_order"
  shows "\<exists>p rs. deletion_reasons lib data serverID tunnel_order node_order = Some (p, rs)
    \<and> direct_nodes data (deletionText (col (row_at (deletion_servers data) serverID) ''name'')) \<subseteq> dom rs
    \<and> closed_marks (node_why lib (deletion_nodes data)) (fst ` set (deletion_nodes data)) (dom rs)"
proof -
  define servers nodes where "servers = deletion_servers data" and "nodes = deletion_nodes data"
  define hosts p where "hosts = own_hosts servers serverID" and "p = empty_plan lib servers serverID"
  define rs where "rs = outbound_reasons lib data serverID hosts (chain_reasons data serverID (initial_reasons lib data (p_name p) hosts))"
  have direct: "direct_nodes data (p_name p) \<subseteq> dom rs"
    unfolding rs_def
    by (rule subset_trans [OF initial_reasons_direct subset_trans [OF chain_reasons_dom outbound_reasons_dom]])
  obtain p' rs1 where t: "planDeletionTunnels lib data servers nodes hosts tunnel_order p rs = Some (p', rs1)" "dom rs \<subseteq> dom rs1"
    using planDeletionTunnels_reasons [OF assms(1), of lib data servers nodes hosts p rs] by (elim exE conjE)
  obtain rs2 where d: "dependent_nodes lib nodes (\<lambda>n. node_order n (map fst nodes)) rs1 = Some rs2" "dom rs1 \<subseteq> dom rs2"
    "closed_marks (node_why lib nodes) (fst ` set nodes) (dom rs2)"
    using dependent_nodes_ends [OF assms(2), of lib nodes rs1] by (elim exE conjE)
  have name: "p_name p = deletionText (col (row_at servers serverID) ''name'')" by (simp add: p_def empty_plan_def)
  have "deletion_reasons lib data serverID tunnel_order node_order = Some (p', rs2)"
    unfolding deletion_reasons_def Let_def servers_def [symmetric] nodes_def [symmetric] hosts_def [symmetric] p_def [symmetric] rs_def [symmetric]
    using t(1) d(1) by simp
  moreover have "direct_nodes data (deletionText (col (row_at servers serverID) ''name'')) \<subseteq> dom rs2"
    using direct t(2) d(2) unfolding name by (meson subset_trans)
  ultimately show ?thesis using d(3) unfolding servers_def nodes_def by (intro exI conjI)
qed

lemma removed_nodes_ids:
  "removed_nodes lib servers hosts direct reasons nodes = Some (ns, subs) \<Longrightarrow>
     set (map dn_id ns) = {i \<in> fst ` set nodes. reasons i \<noteq> None}"
proof (induction nodes arbitrary: ns subs)
  case (Cons x nodes)
  obtain i n where x: "x = (i, n)" by fastforce
  show ?case
  proof (cases "reasons i")
    case None
    then show ?thesis using Cons by (auto simp: x)
  next
    case (Some reason)
    then obtain ns' subs' source where "removed_nodes lib servers hosts direct reasons nodes = Some (ns', subs')"
      "ns = deletion_node_of lib i n source reason (i \<in> direct) # ns'"
      using Cons.prems by (auto simp: x split: option.splits)
    then show ?thesis using Cons.IH Some by (auto simp: x deletion_node_of_def)
  qed
qed simp

lemma rows_by_rows: "(k, r) \<in> set (rows_by key rows) \<Longrightarrow> r \<in> set rows \<and> key r = k"
proof -
  have upd: "set (AList.update a b m) \<subseteq> insert (a, b) (set m)" for a b and m :: "('a \<times> row) list"
    by (induction m) auto
  have "(k, r) \<in> set (fold (\<lambda>r m. AList.update (key r) r m) rows m) \<Longrightarrow> (k, r) \<in> set m \<or> r \<in> set rows \<and> key r = k" for m
    by (induction rows arbitrary: m) (use upd in \<open>fastforce+\<close>)
  from this [of "[]"] show "(k, r) \<in> set (rows_by key rows) \<Longrightarrow> r \<in> set rows \<and> key r = k"
    unfolding rows_by_def by simp
qed

lemma kept_node_closed:
  fixes rs :: reasons
  assumes closed: "closed_marks (node_why lib nodes) (fst ` set nodes) (dom rs)"
    and i: "i \<in> fst ` set nodes" "i \<notin> dom rs"
  shows "\<forall>key \<in> set node_keys. deletionID (col (row_at nodes i) key) \<notin> dom rs"
    and "set (deletionIDs lib (col (row_at nodes i) ''relay_group_node_ids'')) \<inter> dom rs \<noteq> {} \<longrightarrow>
      (\<exists>q \<in> set (deletionIDs lib (col (row_at nodes i) ''relay_group_node_ids'')). q \<in> fst ` set nodes \<and> q \<notin> dom rs)"
proof -
  have "node_why lib nodes i rs = None" using closed i unfolding closed_marks_def by blast
  then have "\<not> (\<exists>key \<in> set node_keys. deletionID (col (row_at nodes i) key) \<in> dom rs)"
    and refs: "refs_why lib nodes (row_at nodes i) rs = None"
    using node_why_iff by metis+
  then show "\<forall>key \<in> set node_keys. deletionID (col (row_at nodes i) key) \<notin> dom rs" by blast
  show "set (deletionIDs lib (col (row_at nodes i) ''relay_group_node_ids'')) \<inter> dom rs \<noteq> {} \<longrightarrow>
      (\<exists>q \<in> set (deletionIDs lib (col (row_at nodes i) ''relay_group_node_ids'')). q \<in> fst ` set nodes \<and> q \<notin> dom rs)"
    using refs refs_why_iff [of lib nodes "row_at nodes i" rs] by (simp add: Let_def) blast
qed

lemma planServerDeletion_parts:
  assumes run: "planServerDeletion lib data serverID tunnel_order node_order = Some (Inr p)"
    and rs: "deletion_reasons lib data serverID tunnel_order node_order = Some (p0, rs)"
  shows "set (map dn_id (p_nodes p)) = {i \<in> fst ` set (deletion_nodes data). rs i \<noteq> None}"
    and "p_identities p = retired_identities lib data serverID (deletion_servers data) (deletion_nodes data) rs"
proof -
  let ?removed = "removed_nodes lib (deletion_servers data) (own_hosts (deletion_servers data) serverID)
    (direct_nodes data (deletionText (col (row_at (deletion_servers data) serverID) ''name''))) rs (deletion_nodes data)"
  obtain ns subs where r: "?removed = Some (ns, subs)"
    using run rs unfolding planServerDeletion_def Let_def by (cases ?removed) (auto split: if_splits)
  then have p: "p_nodes p = sort_key dn_id ns"
    and "p_identities p = retired_identities lib data serverID (deletion_servers data) (deletion_nodes data) rs"
    using run rs unfolding planServerDeletion_def Let_def by (auto split: if_splits)
  then show "set (map dn_id (p_nodes p)) = {i \<in> fst ` set (deletion_nodes data). rs i \<noteq> None}"
    and "p_identities p = retired_identities lib data serverID (deletion_servers data) (deletion_nodes data) rs"
    using removed_nodes_ids [OF r] by simp_all
qed

section \<open>Properties\<close>

text \<open>
  C17: For every inventory and every order of its maps, \<open>planServerDeletion\<close> returns;
  and in a plan it returns every node of the server itself is removed, while a
  node that stays refers to no removed node and has a relay group that either lost
  nothing or still has a member that stays.
\<close>

theorem deletion_plan_closed:
  assumes "visits_all tunnel_order" and "visits_all node_order"
  shows "\<exists>r. planServerDeletion lib data serverID tunnel_order node_order = Some r
    \<and> (\<forall>p i. r = Inr p \<longrightarrow> i \<in> fst ` set (deletion_nodes data) \<longrightarrow> i \<notin> set (map dn_id (p_nodes p)) \<longrightarrow>
        i \<notin> direct_nodes data (deletionText (col (row_at (deletion_servers data) serverID) ''name''))
        \<and> (\<forall>key \<in> set node_keys. deletionID (col (row_at (deletion_nodes data) i) key) \<notin> set (map dn_id (p_nodes p)))
        \<and> (let refs = set (deletionIDs lib (col (row_at (deletion_nodes data) i) ''relay_group_node_ids''))
            in refs \<inter> set (map dn_id (p_nodes p)) \<noteq> {} \<longrightarrow>
               (\<exists>q \<in> refs. q \<in> fst ` set (deletion_nodes data) \<and> q \<notin> set (map dn_id (p_nodes p)))))"
proof -
  define servers nodes where "servers = deletion_servers data" and "nodes = deletion_nodes data"
  define name where "name = deletionText (col (row_at servers serverID) ''name'')"
  obtain p0 rs where rs: "deletion_reasons lib data serverID tunnel_order node_order = Some (p0, rs)"
    "direct_nodes data name \<subseteq> dom rs" "closed_marks (node_why lib nodes) (fst ` set nodes) (dom rs)"
    using deletion_reasons_closed [OF assms, of lib data serverID]
    unfolding servers_def [symmetric] nodes_def [symmetric] name_def [symmetric] by (elim exE conjE)
  have total: "\<exists>r. planServerDeletion lib data serverID tunnel_order node_order = Some r"
    using rs(1) unfolding planServerDeletion_def Let_def by (auto split: option.splits)
  then obtain r where run: "planServerDeletion lib data serverID tunnel_order node_order = Some r" by blast
  show ?thesis
  proof (intro exI conjI allI impI, rule run)
    fix p i
    assume r: "r = Inr p" and i: "i \<in> fst ` set (deletion_nodes data)" and kept: "i \<notin> set (map dn_id (p_nodes p))"
    define gone where "gone = set (map dn_id (p_nodes p))"
    have gone: "gone = {i \<in> fst ` set nodes. rs i \<noteq> None}" using planServerDeletion_parts(1) [OF _ rs(1)] run r unfolding gone_def nodes_def by simp
    have i': "i \<in> fst ` set nodes" and out: "i \<notin> dom rs" using i kept gone unfolding nodes_def gone_def by auto
    show "i \<notin> direct_nodes data (deletionText (col (row_at (deletion_servers data) serverID) ''name''))"
      using out rs(2) unfolding name_def servers_def by blast
    show "\<forall>key \<in> set node_keys. deletionID (col (row_at (deletion_nodes data) i) key) \<notin> set (map dn_id (p_nodes p))"
      using kept_node_closed(1) [OF rs(3) i' out] gone unfolding gone_def nodes_def by blast
    show "let refs = set (deletionIDs lib (col (row_at (deletion_nodes data) i) ''relay_group_node_ids''))
        in refs \<inter> set (map dn_id (p_nodes p)) \<noteq> {} \<longrightarrow>
           (\<exists>q \<in> refs. q \<in> fst ` set (deletion_nodes data) \<and> q \<notin> set (map dn_id (p_nodes p)))"
      using kept_node_closed(2) [OF rs(3) i' out] gone unfolding gone_def nodes_def Let_def by blast
  qed
qed

lemma unprotect_fields:
  "di_server (unprotect ps ref) = di_server ref" "di_tag (unprotect ps ref) = di_tag ref"
  "di_identity (unprotect ps ref) \<noteq> [] \<Longrightarrow> di_identity (unprotect ps ref) = di_identity ref
     \<and> ref_key (di_server ref) (di_tag ref) (di_identity ref) \<notin> set ps"
  "di_key (unprotect ps ref) \<noteq> [] \<Longrightarrow> di_key (unprotect ps ref) = di_key ref
     \<and> ref_key (di_server ref) (di_tag ref) (di_key ref) \<notin> set ps"
  by (auto simp: unprotect_def Let_def split: if_splits)

lemma protected_keys_rows:
  assumes "r \<in> set (connection_rows data)" and "\<not> row_retired serverID servers nodes rs r"
    and "v \<in> {di_identity (row_identity lib servers nodes r), di_key (row_identity lib servers nodes r)}" and "v \<noteq> []"
  shows "ref_key (di_server (row_identity lib servers nodes r)) (di_tag (row_identity lib servers nodes r)) v
    \<in> set (protected_keys lib data serverID servers nodes rs)"
  using assms unfolding protected_keys_def Let_def by auto

text \<open>
  An identity or credential key that the plan retires is never shared: no
  connection that stays, on the same server and inbound, has that identity or
  that key; and no identity is retired on the deleted server itself.
\<close>

theorem retired_identities_unshared:
  assumes run: "planServerDeletion lib data serverID tunnel_order node_order = Some (Inr p)"
    and rs: "deletion_reasons lib data serverID tunnel_order node_order = Some (p0, rs)"
    and ref: "ref \<in> set (p_identities p)"
    and r: "r \<in> set (connection_rows data)" "\<not> row_retired serverID (deletion_servers data) (deletion_nodes data) rs r"
    and kept: "kept = row_identity lib (deletion_servers data) (deletion_nodes data) r"
    and same: "di_server kept = di_server ref" "di_tag kept = di_tag ref"
  shows "(di_identity ref \<noteq> [] \<longrightarrow> di_identity kept \<noteq> di_identity ref)
    \<and> (di_key ref \<noteq> [] \<longrightarrow> di_key kept \<noteq> di_key ref) \<and> di_server ref \<noteq> serverID"
proof -
  let ?nodes = "deletion_nodes data" and ?servers = "deletion_servers data"
  let ?ps = "protected_keys lib data serverID ?servers ?nodes rs"
  obtain q where q: "q \<in> set (connection_rows data)" "row_retired serverID ?servers ?nodes rs q"
    and ref': "ref = unprotect ?ps (row_identity lib ?servers ?nodes q)"
    using ref unfolding planServerDeletion_parts(2) [OF run rs] retired_identities_def by auto
  have protected: "ref_key (di_server ref) (di_tag ref) v \<in> set ?ps"
    if "v \<in> {di_identity kept, di_key kept}" "v \<noteq> []" for v
    using protected_keys_rows [OF r, of v lib] that same unfolding kept by simp
  have "di_server ref \<noteq> serverID"
    using q(2) unfolding ref' unprotect_fields row_retired_def row_identity_def by (auto simp: Let_def split: prod.splits)
  moreover have "di_identity kept \<noteq> di_identity ref" if "di_identity ref \<noteq> []"
    using protected [of "di_identity ref"] unprotect_fields(3) [of ?ps "row_identity lib ?servers ?nodes q"] that
    unfolding ref' unprotect_fields(1,2) by auto
  moreover have "di_key kept \<noteq> di_key ref" if "di_key ref \<noteq> []"
    using protected [of "di_key ref"] unprotect_fields(4) [of ?ps "row_identity lib ?servers ?nodes q"] that
    unfolding ref' unprotect_fields(1,2) by auto
  ultimately show ?thesis by blast
qed

section \<open>An example\<close>

definition ex_inventory :: serverDeletionInventory where
  "ex_inventory table =
     (if table = ''remote_servers'' then
        [[(''id'', JNum 1), (''name'', JStr ''a''), (''ip_address'', JStr ''192.0.2.1'')],
         [(''id'', JNum 2), (''name'', JStr ''b''), (''ip_address'', JStr ''192.0.2.2'')]]
      else if table = ''nodes'' then
        [[(''id'', JNum 10), (''original_server'', JStr ''a''), (''inbound_tag'', JStr ''in'')],
         [(''id'', JNum 11), (''original_server'', JStr ''b''), (''inbound_tag'', JStr ''x''), (''parent_node_id'', JNum 10)],
         [(''id'', JNum 12), (''original_server'', JStr ''b''), (''inbound_tag'', JStr ''x'')]]
      else if table = ''user_inbound_configs'' then
        [[(''routed_node_id'', JNum 11), (''email'', JStr ''u1'')], [(''routed_node_id'', JNum 11), (''email'', JStr ''u2'')],
         [(''routed_node_id'', JNum 12), (''email'', JStr ''u2'')]]
      else [])"

definition ex_order :: "nat \<Rightarrow> 'k list \<Rightarrow> 'k list" where
  "ex_order n ks = (if even n then ks else rev ks)"

lemma ex_order_visits: "visits_all ex_order"
  by (simp add: visits_all_def ex_order_def)

definition ex_deletion :: "(deletion_error + serverDeletionPlan) option" where
  "ex_deletion = planServerDeletion ex_delete_lib ex_inventory 1 ex_order ex_order"

lemma ex_deletion_runs:
  "case ex_deletion of Some (Inr p) \<Rightarrow> map dn_id (p_nodes p) = [10, 11] \<and> map di_identity (p_identities p) = [''u1'']
     | _ \<Rightarrow> False"
  by code_simp

lemma ex_deletion_plan:
  obtains p ref where "planServerDeletion ex_delete_lib ex_inventory 1 ex_order ex_order = Some (Inr p)"
    and "set (map dn_id (p_nodes p)) = {10, 11}" and "ref \<in> set (p_identities p)" and "di_identity ref = ''u1''"
proof -
  obtain p where p: "ex_deletion = Some (Inr p)" "map dn_id (p_nodes p) = [10, 11]" "map di_identity (p_identities p) = [''u1'']"
    using ex_deletion_runs by (auto split: option.splits sum.splits)
  have ids: "set (map dn_id (p_nodes p)) = {10, 11}" unfolding p(2) by simp
  obtain ref where ref: "ref \<in> set (p_identities p)" "di_identity ref = ''u1''"
    using p(3) by (cases "p_identities p") auto
  show ?thesis by (rule that [OF p(1) [unfolded ex_deletion_def] ids ref])
qed

theorem deletion_plan_closed_witness:
  "\<exists>p. ex_deletion = Some (Inr p) \<and> 12 \<notin> set (map dn_id (p_nodes p))
     \<and> 12 \<notin> direct_nodes ex_inventory ''a''"
proof -
  obtain p where p: "planServerDeletion ex_delete_lib ex_inventory 1 ex_order ex_order = Some (Inr p)"
    "set (map dn_id (p_nodes p)) = {10, 11}" by (rule ex_deletion_plan)
  have node: "12 \<in> fst ` set (deletion_nodes ex_inventory)"
    and name: "deletionText (col (row_at (deletion_servers ex_inventory) 1) ''name'') = ''a''" by code_simp+
  have "12 \<notin> set (map dn_id (p_nodes p))" unfolding p(2) by simp
  with deletion_plan_closed [OF ex_order_visits ex_order_visits, of ex_delete_lib ex_inventory 1] p(1) node
  have "12 \<notin> direct_nodes ex_inventory ''a''" unfolding name by auto
  then show ?thesis using p unfolding ex_deletion_def by auto
qed

definition ex_kept_row :: row where
  "ex_kept_row = [(''routed_node_id'', JNum 12), (''email'', JStr ''u2'')]"

theorem retired_identities_unshared_witness:
  "\<exists>p ref. ex_deletion = Some (Inr p) \<and> ref \<in> set (p_identities p) \<and> di_identity ref = ''u1'' \<and> di_server ref \<noteq> 1"
proof -
  obtain p ref where p: "planServerDeletion ex_delete_lib ex_inventory 1 ex_order ex_order = Some (Inr p)"
    "ref \<in> set (p_identities p)" "di_identity ref = ''u1''" by (rule ex_deletion_plan)
  have "map_option (\<lambda>(_, rs). rs 12) (deletion_reasons ex_delete_lib ex_inventory 1 ex_order ex_order) = Some None"
    by code_simp
  then obtain p0 rs where rs: "deletion_reasons ex_delete_lib ex_inventory 1 ex_order ex_order = Some (p0, rs)" "rs 12 = None"
    by auto
  have row: "ex_kept_row \<in> set (connection_rows ex_inventory)" by code_simp
  have "deletionID (col ex_kept_row ''routed_node_id'') = 12" by code_simp
  then have kept: "\<not> row_retired 1 (deletion_servers ex_inventory) (deletion_nodes ex_inventory) rs ex_kept_row"
    using rs(2) by (simp add: row_retired_def)
  have "list_all (\<lambda>q. di_server (row_identity ex_delete_lib (deletion_servers ex_inventory) (deletion_nodes ex_inventory) q) = 2
      \<and> di_tag (row_identity ex_delete_lib (deletion_servers ex_inventory) (deletion_nodes ex_inventory) q) = ''x'')
      (connection_rows ex_inventory)" by code_simp
  then have place: "di_server (row_identity ex_delete_lib (deletion_servers ex_inventory) (deletion_nodes ex_inventory) ex_kept_row) = di_server ref"
    "di_tag (row_identity ex_delete_lib (deletion_servers ex_inventory) (deletion_nodes ex_inventory) ex_kept_row) = di_tag ref"
    using p(2) row unfolding planServerDeletion_parts(2) [OF p(1) rs(1)] retired_identities_def
    by (auto simp: list_all_iff unprotect_fields)
  from retired_identities_unshared [OF p(1) rs(1) p(2) row kept refl place] show ?thesis
    using p unfolding ex_deletion_def by auto
qed

end
