(* ===== verification/Connection_Snapshot.thy ===== *)
theory Connection_Snapshot
  imports Connection_Settings
begin

text \<open>
  The snapshot of connections a Helper reports (\<open>connection_control.go\<close>): its data, the
  validation at the controller and the accounting that is shown. Sums of int64 fields
  wrap around, written with \<open>i64\<close>.
\<close>

section \<open>Data\<close>

record serverTCPStateCounts =
  tn_total :: int
  tn_established :: int
  tn_syn_sent :: int
  tn_syn_recv :: int
  tn_fin_wait1 :: int
  tn_fin_wait2 :: int
  tn_time_wait :: int
  tn_close_wait :: int
  tn_last_ack :: int
  tn_closing :: int
  tn_close :: int
  tn_listen :: int
  tn_unknown :: int

record serverOnlineIP =
  on_ip :: string
  on_connections :: int

record serverInboundConnections =
  ib_port :: int
  ib_inbound_tag :: string
  ib_protocol :: string
  ib_user :: string
  ib_attribution :: string
  ib_tcp :: serverTCPStateCounts
  ib_established :: int
  ib_syn_recv :: int
  ib_fin_wait1 :: int
  ib_fin_wait2 :: int
  ib_time_wait :: int
  ib_close_wait :: int
  ib_last_ack :: int
  ib_closing :: int
  ib_online_ip_count :: int
  ib_online_ips :: "serverOnlineIP list"
  ib_max_online_ips :: "int option"

record serverProxyUserConnections =
  px_blocked :: bool
  px_rejected_blocked :: int
  px_identity :: serverConnectionIdentity
  px_inbound_tag :: string
  px_user :: string
  px_inbound_port :: int
  px_current_total :: int
  px_inbound_active :: int
  px_inbound_current :: int
  px_inbound_tcp :: serverTCPStateCounts
  px_inbound_online_ips :: "serverOnlineIP list"
  px_outbound_active :: int
  px_outbound_pending :: int
  px_outbound_tcp :: serverTCPStateCounts
  px_outbound_new_rate :: int
  px_outbound_new_total :: int
  px_outbound_rejected_total :: int
  px_rejected_active_limit :: int
  px_rejected_new_rate_limit :: int
  px_rejected_user_total_limit :: int
  px_rejected_user_combined_limit :: int
  px_rejected_port_total_limit :: int
  px_rejected_port_combined_limit :: int
  px_rejected_user_new_rate_limit :: int
  px_rejected_port_new_rate_limit :: int
  px_rejected_online_ip_limit :: int
  px_rejected_global_total_limit :: int
  px_rejected_user_inbound_limit :: int
  px_rejected_port_inbound_limit :: int
  px_rejected_user_online_ip_limit :: int
  px_rejected_port_online_ip_limit :: int
  px_rejected_global_inbound_limit :: int
  px_max_inbound_online_ips :: "int option"
  px_max_total_connections :: "int option"
  px_max_outbound_tcp_active :: "int option"
  px_max_outbound_tcp_new_per_second :: "int option"
  px_max_port_outbound_tcp_active :: "int option"
  px_max_port_outbound_tcp_new_per_second :: "int option"
  px_max_port_inbound_connections :: "int option"
  px_max_port_total_connections :: "int option"
  px_max_port_inbound_online_ips :: "int option"
  px_close_wait_timeout_seconds :: "int option"
  px_source :: string
  px_management_group :: string

record serverManagementGroupConnections =
  sg_username :: string
  sg_current_total :: int
  sg_inbound_active :: int
  sg_inbound_current :: int
  sg_inbound_tcp :: serverTCPStateCounts
  sg_inbound_online_ips :: "serverOnlineIP list"
  sg_outbound_active :: int
  sg_outbound_pending :: int
  sg_outbound_tcp :: serverTCPStateCounts
  sg_outbound_new_rate :: int
  sg_outbound_new_total :: int
  sg_outbound_rejected_total :: int
  sg_rejected_user_total_limit :: int
  sg_rejected_user_combined_limit :: int
  sg_rejected_user_new_rate_limit :: int
  sg_rejected_port_total_limit :: int
  sg_rejected_port_combined_limit :: int
  sg_rejected_port_new_rate_limit :: int
  sg_rejected_online_ip_limit :: int
  sg_rejected_global_total_limit :: int
  sg_rejected_user_inbound_limit :: int
  sg_rejected_port_inbound_limit :: int
  sg_rejected_user_online_ip_limit :: int
  sg_rejected_port_online_ip_limit :: int
  sg_rejected_global_inbound_limit :: int
  sg_max_inbound_connections :: "int option"
  sg_max_total_connections :: "int option"
  sg_max_inbound_online_ips :: "int option"
  sg_max_outbound_tcp_active :: "int option"
  sg_max_outbound_tcp_new_per_second :: "int option"

record serverGlobalConnections =
  gc_current_total :: int
  gc_rejected_global_total_limit :: int
  gc_max_total :: "int option"
  gc_current_inbound :: int
  gc_max_inbound :: "int option"
  gc_rejected_global_inbound_limit :: int

record serverCoreConnectionStatus =
  cc_traffic_block_supported :: bool
  cc_available :: bool
  cc_version :: int
  cc_started_at :: time
  cc_error :: string

record serverMachineConnections =
  mx_total :: int
  mx_tcp :: int
  mx_udp :: int
  mx_established :: int
  mx_time_wait :: int
  mx_close_wait :: int
  mx_other_tcp :: int

record serverMachinePortSources =
  mq_core :: int
  mq_flvx_shared :: int
  mq_flvx_file :: string
  mq_flvx_file_tcp :: int
  mq_flvx_file_udp :: int
  mq_flvx_updated_at :: string
  mq_official_embedded :: int
  mq_official_embedded_error :: string

record serverMachineTWBucketsView =
  tv_target :: "int option"
  tv_current :: "int option"
  tv_original :: "int option"
  tv_error :: string

record serverMachineProtectionStatus =
  st_version :: int
  st_owner :: string
  st_supported :: bool
  st_configured :: serverMachineProtectionSettings
  st_effective :: bool
  st_blocking :: bool
  st_threshold_reason :: string
  st_active :: int
  st_total :: int
  st_controlled_ports :: "int list"
  st_last_reconciled_at :: time
  st_last_error :: string
  st_connections :: "serverMachineConnections option"
  st_max_total :: "int option"
  st_release_below :: "int option"
  st_tcp_ports :: "int list"
  st_udp_ports :: "int list"
  st_sources :: "serverMachinePortSources option"
  st_idle_reason :: string
  st_warming_up :: bool
  st_dropped_total :: int
  st_tw_buckets :: "serverMachineTWBucketsView option"
  st_close_wait_seconds :: "int option"
  st_status_file_error :: string

record serverListeningPort =
  lp_port :: int
  lp_protocol :: string
  lp_address :: string
  lp_pid :: int
  lp_process :: string
  lp_owner :: string
  lp_inbound_tag :: string

record serverListeningPorts =
  ls_scanned_at :: time
  ls_ports :: "serverListeningPort list"
  ls_truncated :: bool
  ls_error :: string

record serverCoreAccounting =
  ac_total :: int
  ac_attributed :: int
  ac_unattributed :: int
  ac_inbound_current :: int
  ac_outbound_active :: int
  ac_outbound_pending :: int
  ac_tracker_total :: int
  ac_reconciliation_delta :: int
  ac_balanced :: bool

record serverDetailedConnectionSnapshot =
  sn_system :: serverTCPStateCounts
  sn_inbounds :: "serverInboundConnections list"
  sn_proxy_users :: "serverProxyUserConnections list"
  sn_management_groups :: "serverManagementGroupConnections list"
  sn_global :: serverGlobalConnections
  sn_core :: serverCoreConnectionStatus
  sn_machine_protection :: "serverMachineProtectionStatus option"
  sn_listening :: "serverListeningPorts option"
  sn_sampled_at :: time

section \<open>Validation\<close>

definition tcpStateValues :: "serverTCPStateCounts \<Rightarrow> int list" where
  "tcpStateValues c =
     [tn_total c, tn_established c, tn_syn_sent c, tn_syn_recv c, tn_fin_wait1 c, tn_fin_wait2 c, tn_time_wait c, tn_close_wait c,
      tn_last_ack c, tn_closing c, tn_close c, tn_listen c, tn_unknown c]"

definition tcp_counts_bad :: "serverTCPStateCounts \<Rightarrow> bool" where
  "tcp_counts_bad c = list_ex (\<lambda>v. v < 0) (tcpStateValues c)"

definition validateTCPStateCounts :: "serverTCPStateCounts \<Rightarrow> string \<Rightarrow> string option" where
  "validateTCPStateCounts c label = (if tcp_counts_bad c then Some (''negative '' @ label @ '' TCP count'') else None)"

definition machine_status_error :: "serverMachineProtectionStatus \<Rightarrow> string option" where
  "machine_status_error m =
     (if st_active m < 0 \<or> st_total m < 0 then Some ''negative machine protection count''
      else if 10000 < length (st_controlled_ports m) \<or> 70000 < int (length (st_tcp_ports m)) \<or> 70000 < int (length (st_udp_ports m))
        then Some ''too many machine protection ports''
      else if (case st_connections m of None \<Rightarrow> False
               | Some c \<Rightarrow> mx_total c < 0 \<or> mx_tcp c < 0 \<or> mx_udp c < 0 \<or> mx_established c < 0 \<or> mx_time_wait c < 0
                   \<or> mx_close_wait c < 0 \<or> mx_other_tcp c < 0) then Some ''negative machine connection count''
      else if st_dropped_total m < 0 then Some ''negative machine protection drop count''
      else None)"

definition online_ip_bad :: "serverOnlineIP \<Rightarrow> bool" where
  "online_ip_bad x \<longleftrightarrow> trim_space (on_ip x) = [] \<or> on_connections x < 0"

fun inbounds_error :: "serverInboundConnections list \<Rightarrow> string option" where
  "inbounds_error [] = None"
| "inbounds_error (i # rest) =
     orelse (validateTCPStateCounts (ib_tcp i) ''inbound'')
       (if ib_online_ip_count i < 0 then Some ''invalid inbound online IP count''
        else if list_ex online_ip_bad (ib_online_ips i) then Some ''invalid inbound online IP record''
        else inbounds_error rest)"

text \<open>\<open>exact\<close>: Core version 6 or later counts sockets exactly. The result is the error or the running total.\<close>

fun proxy_users_total :: "bool \<Rightarrow> int \<Rightarrow> serverProxyUserConnections list \<Rightarrow> string + int" where
  "proxy_users_total exact acc [] = Inr acc"
| "proxy_users_total exact acc (u # us) =
     (if px_current_total u < 0 \<or> px_inbound_active u < 0 \<or> px_inbound_current u < 0 \<or> px_outbound_active u < 0
         \<or> px_outbound_pending u < 0 \<or> px_outbound_new_rate u < 0 then Inl ''negative proxy user connection count''
      else case orelse (validateTCPStateCounts (px_inbound_tcp u) ''proxy user inbound'')
                       (validateTCPStateCounts (px_outbound_tcp u) ''proxy user outbound'') of
        Some e \<Rightarrow> Inl e
      | None \<Rightarrow>
          if exact \<and> px_current_total u \<noteq> i64 (tn_total (px_inbound_tcp u) + tn_total (px_outbound_tcp u))
          then Inl ''proxy user Total does not match exact TCP states''
          else proxy_users_total exact (i64 (acc + px_current_total u)) us)"

fun groups_error :: "bool \<Rightarrow> serverManagementGroupConnections list \<Rightarrow> string option" where
  "groups_error exact [] = None"
| "groups_error exact (g # gs) =
     (if trim_space (sg_username g) = [] \<or> sg_current_total g < 0 \<or> sg_inbound_active g < 0 \<or> sg_inbound_current g < 0
         \<or> sg_outbound_active g < 0 \<or> sg_outbound_pending g < 0 \<or> sg_outbound_new_rate g < 0
      then Some ''invalid management group connection count''
      else orelse (orelse (validateTCPStateCounts (sg_inbound_tcp g) ''management group inbound'')
                          (validateTCPStateCounts (sg_outbound_tcp g) ''management group outbound''))
        (if exact \<and> sg_current_total g \<noteq> i64 (tn_total (sg_inbound_tcp g) + tn_total (sg_outbound_tcp g))
         then Some ''management user Total does not match exact TCP states''
         else groups_error exact gs))"

definition validateDetailedSnapshot :: "serverDetailedConnectionSnapshot \<Rightarrow> string option" where
  "validateDetailedSnapshot s =
     (let exact = (6 \<le> cc_version (sn_core s))
      in if tcp_counts_bad (sn_system s) then Some ''negative system TCP count''
         else if 10000 < length (sn_inbounds s) \<or> 10000 < length (sn_proxy_users s) then Some ''too many connection records''
         else if gc_current_total (sn_global s) < 0 \<or> gc_current_inbound (sn_global s) < 0 then Some ''negative global connection count''
         else orelse (case sn_machine_protection s of None \<Rightarrow> None | Some m \<Rightarrow> machine_status_error m)
           (orelse (inbounds_error (sn_inbounds s))
             (case proxy_users_total exact 0 (sn_proxy_users s) of
                Inl e \<Rightarrow> Some e
              | Inr core_total \<Rightarrow>
                  orelse (groups_error exact (sn_management_groups s))
                    (if exact \<and> gc_current_total (sn_global s) \<noteq> core_total
                     then Some ''Core Total does not reconcile'' else None))))"

section \<open>Accounting\<close>

definition add_accounting :: "serverCoreAccounting \<Rightarrow> serverProxyUserConnections \<Rightarrow> serverCoreAccounting" where
  "add_accounting a u =
     (let a1 = a\<lparr>ac_tracker_total := i64 (ac_tracker_total a + px_current_total u),
                 ac_outbound_active := i64 (ac_outbound_active a + px_outbound_active u),
                 ac_outbound_pending := i64 (ac_outbound_pending a + px_outbound_pending u)\<rparr>
      in if trim_space (px_management_group u) = []
         then a1\<lparr>ac_unattributed := i64 (ac_unattributed a1 + px_current_total u)\<rparr>
         else a1\<lparr>ac_attributed := i64 (ac_attributed a1 + px_current_total u)\<rparr>)"

definition coreAccounting :: "serverDetailedConnectionSnapshot \<Rightarrow> serverCoreAccounting" where
  "coreAccounting s =
     (let a = foldl add_accounting
                \<lparr>ac_total = gc_current_total (sn_global s), ac_attributed = 0, ac_unattributed = 0,
                 ac_inbound_current = gc_current_inbound (sn_global s), ac_outbound_active = 0, ac_outbound_pending = 0,
                 ac_tracker_total = 0, ac_reconciliation_delta = 0, ac_balanced = False\<rparr> (sn_proxy_users s);
          delta = i64 (ac_total a - ac_tracker_total a)
      in a\<lparr>ac_reconciliation_delta := delta,
           ac_balanced := (delta = 0 \<and> ac_total a = i64 (ac_attributed a + ac_unattributed a))\<rparr>)"

section \<open>Wrap-around sums\<close>

lemma i64_mod: "i64 x mod 2 ^ 64 = x mod 2 ^ 64"
proof -
  have "i64 x mod 2 ^ 64 = ((x + 2 ^ 63) mod 2 ^ 64 - 2 ^ 63) mod 2 ^ 64" by (simp add: i64_def)
  also have "\<dots> = (x + 2 ^ 63 - 2 ^ 63) mod 2 ^ 64" by (rule mod_diff_left_eq)
  finally show ?thesis by simp
qed

lemma i64_cong: "x mod 2 ^ 64 = y mod 2 ^ 64 \<Longrightarrow> i64 x = i64 y"
  unfolding i64_def by (metis mod_add_left_eq)

lemma i64_add_left [simp]: "i64 (i64 x + y) = i64 (x + y)"
  by (rule i64_cong) (metis i64_mod mod_add_left_eq)

lemma i64_add_right [simp]: "i64 (x + i64 y) = i64 (x + y)"
  by (rule i64_cong) (metis i64_mod mod_add_right_eq)

lemma i64_i64 [simp]: "i64 (i64 x) = i64 x"
  using i64_add_left [of x 0] by simp

definition total_of :: "serverProxyUserConnections list \<Rightarrow> int" where
  "total_of us = sum_list (map px_current_total us)"

lemma total_of_simps [simp]: "total_of [] = 0" "total_of (u # us) = px_current_total u + total_of us"
  "total_of (us @ vs) = total_of us + total_of vs"
  by (simp_all add: total_of_def)

lemma proxy_total: "proxy_users_total exact acc us = Inr t \<Longrightarrow> i64 acc = acc \<Longrightarrow> t = i64 (acc + total_of us)"
  by (induction exact acc us rule: proxy_users_total.induct) (auto simp: add.assoc split: if_splits option.splits)

definition attributed_users :: "serverProxyUserConnections list \<Rightarrow> serverProxyUserConnections list" where
  "attributed_users us = filter (\<lambda>u. trim_space (px_management_group u) \<noteq> []) us"

definition unattributed_users :: "serverProxyUserConnections list \<Rightarrow> serverProxyUserConnections list" where
  "unattributed_users us = filter (\<lambda>u. trim_space (px_management_group u) = []) us"

lemma attribution_simps [simp]:
  "attributed_users [] = []" "unattributed_users [] = []"
  "attributed_users (u # us) = (if trim_space (px_management_group u) \<noteq> [] then u # attributed_users us else attributed_users us)"
  "unattributed_users (u # us) = (if trim_space (px_management_group u) = [] then u # unattributed_users us else unattributed_users us)"
  by (simp_all add: attributed_users_def unattributed_users_def)

lemma attributed_split: "total_of (attributed_users us) + total_of (unattributed_users us) = total_of us"
  by (induction us) auto

lemma add_accounting_total [simp]: "ac_total (add_accounting a u) = ac_total a"
  by (simp add: add_accounting_def Let_def)

lemma accounting_fold:
  "let b = foldl add_accounting a us
   in ac_total b = ac_total a \<and> i64 (ac_tracker_total b) = i64 (ac_tracker_total a + total_of us)
      \<and> i64 (ac_attributed b) = i64 (ac_attributed a + total_of (attributed_users us))
      \<and> i64 (ac_unattributed b) = i64 (ac_unattributed a + total_of (unattributed_users us))"
proof (induction us arbitrary: a)
  case (Cons u us)
  have "i64 (ac_tracker_total (add_accounting a u) + x) = i64 (ac_tracker_total a + (px_current_total u + x))" for x
    by (simp add: add_accounting_def Let_def add.assoc)
  moreover have "i64 (ac_attributed (add_accounting a u) + total_of (attributed_users us))
      = i64 (ac_attributed a + total_of (attributed_users (u # us)))"
    by (simp add: add_accounting_def Let_def add.assoc)
  moreover have "i64 (ac_unattributed (add_accounting a u) + total_of (unattributed_users us))
      = i64 (ac_unattributed a + total_of (unattributed_users (u # us)))"
    by (simp add: add_accounting_def Let_def add.assoc)
  ultimately show ?case using Cons.IH [of "add_accounting a u"] by (simp add: Let_def)
qed simp


lemma i64_diff_zero: "i64 (x - y) = 0 \<longleftrightarrow> i64 x = i64 y"
proof
  assume "i64 (x - y) = 0"
  then have "i64 (i64 (x - y) + y) = i64 y" by simp
  then show "i64 x = i64 y" by simp
next
  assume "i64 x = i64 y"
  then have "i64 (x + - y) = i64 (y + - y)" by (metis i64_add_left)
  then show "i64 (x - y) = 0" by (simp add: i64_def)
qed

lemma i64_zero [simp]: "i64 0 = 0"
  by (simp add: i64_def)

lemma accounting_balanced:
  assumes "is_int64 (gc_current_total (sn_global s))"
  shows "ac_balanced (coreAccounting s) \<longleftrightarrow> gc_current_total (sn_global s) = i64 (total_of (sn_proxy_users s))"
proof -
  let ?a0 = "\<lparr>ac_total = gc_current_total (sn_global s), ac_attributed = 0, ac_unattributed = 0,
    ac_inbound_current = gc_current_inbound (sn_global s), ac_outbound_active = 0, ac_outbound_pending = 0,
    ac_tracker_total = 0, ac_reconciliation_delta = 0, ac_balanced = False\<rparr>"
  define b where "b = foldl add_accounting ?a0 (sn_proxy_users s)"
  have total: "ac_total b = gc_current_total (sn_global s)" and tracker: "i64 (ac_tracker_total b) = i64 (total_of (sn_proxy_users s))"
    and att: "i64 (ac_attributed b) = i64 (total_of (attributed_users (sn_proxy_users s)))"
    and unatt: "i64 (ac_unattributed b) = i64 (total_of (unattributed_users (sn_proxy_users s)))"
    using accounting_fold [of ?a0 "sn_proxy_users s"] by (simp_all add: b_def Let_def)
  have "i64 (ac_attributed b + ac_unattributed b)
      = i64 (total_of (attributed_users (sn_proxy_users s)) + total_of (unattributed_users (sn_proxy_users s)))"
    using att unatt by (metis i64_add_left i64_add_right)
  then have parts: "i64 (ac_attributed b + ac_unattributed b) = i64 (total_of (sn_proxy_users s))" by (simp add: attributed_split)
  have "ac_balanced (coreAccounting s)
      \<longleftrightarrow> i64 (ac_total b - ac_tracker_total b) = 0 \<and> ac_total b = i64 (ac_attributed b + ac_unattributed b)"
    by (simp add: coreAccounting_def Let_def b_def)
  also have "\<dots> \<longleftrightarrow> gc_current_total (sn_global s) = i64 (total_of (sn_proxy_users s))"
    using assms by (auto simp: i64_diff_zero total tracker parts)
  finally show ?thesis .
qed

lemma i64_int64: "is_int64 (i64 x)"
  by (rule i64_range)

text \<open>
  The connections shown for a server add up. The accounting says balanced exactly
  when the Core's total is the sum of its users (in 64 bits), however the users are
  attributed; and every snapshot of a Core of version 6 or later that the controller
  accepts is balanced, with each user's total the sum of its sockets.
\<close>

theorem accepted_snapshot_balances:
  assumes "validateDetailedSnapshot s = None" "is_int64 (gc_current_total (sn_global s))"
  shows "(ac_balanced (coreAccounting s) \<longleftrightarrow> gc_current_total (sn_global s) = i64 (sum_list (map px_current_total (sn_proxy_users s))))
    \<and> (6 \<le> cc_version (sn_core s) \<longrightarrow> ac_balanced (coreAccounting s)
        \<and> (\<forall>u \<in> set (sn_proxy_users s). px_current_total u = i64 (tn_total (px_inbound_tcp u) + tn_total (px_outbound_tcp u))))"
proof -
  obtain t where t: "proxy_users_total (6 \<le> cc_version (sn_core s)) 0 (sn_proxy_users s) = Inr t"
    "6 \<le> cc_version (sn_core s) \<Longrightarrow> gc_current_total (sn_global s) = t"
    using assms(1) by (auto simp: validateDetailedSnapshot_def Let_def split: if_splits sum.splits)
  have "px_current_total u = i64 (tn_total (px_inbound_tcp u) + tn_total (px_outbound_tcp u))"
    if "proxy_users_total True acc us = Inr r" "u \<in> set us" for acc us r u
    using that by (induction True acc us rule: proxy_users_total.induct) (auto split: if_splits option.splits)
  then show ?thesis
    using t proxy_total [OF t(1)] accounting_balanced [OF assms(2)] by (fastforce simp: total_of_def)
qed

definition sample_counts :: "int \<Rightarrow> serverTCPStateCounts" where
  "sample_counts n = \<lparr>tn_total = n, tn_established = n, tn_syn_sent = 0, tn_syn_recv = 0, tn_fin_wait1 = 0, tn_fin_wait2 = 0,
     tn_time_wait = 0, tn_close_wait = 0, tn_last_ack = 0, tn_closing = 0, tn_close = 0, tn_listen = 0, tn_unknown = 0\<rparr>"

definition sample_user :: "string \<Rightarrow> string \<Rightarrow> int \<Rightarrow> serverProxyUserConnections" where
  "sample_user tag user n = \<lparr>px_blocked = False, px_rejected_blocked = 0, px_identity = \<lparr>sid_inbound_tag = tag, sid_user = user\<rparr>,
     px_inbound_tag = tag, px_user = user, px_inbound_port = 443, px_current_total = n, px_inbound_active = n, px_inbound_current = n,
     px_inbound_tcp = sample_counts n, px_inbound_online_ips = [], px_outbound_active = 0, px_outbound_pending = 0,
     px_outbound_tcp = sample_counts 0, px_outbound_new_rate = 0, px_outbound_new_total = 0, px_outbound_rejected_total = 0,
     px_rejected_active_limit = 0, px_rejected_new_rate_limit = 0, px_rejected_user_total_limit = 0, px_rejected_user_combined_limit = 0,
     px_rejected_port_total_limit = 0, px_rejected_port_combined_limit = 0, px_rejected_user_new_rate_limit = 0,
     px_rejected_port_new_rate_limit = 0, px_rejected_online_ip_limit = 0, px_rejected_global_total_limit = 0,
     px_rejected_user_inbound_limit = 0, px_rejected_port_inbound_limit = 0, px_rejected_user_online_ip_limit = 0,
     px_rejected_port_online_ip_limit = 0, px_rejected_global_inbound_limit = 0, px_max_inbound_online_ips = None,
     px_max_total_connections = None, px_max_outbound_tcp_active = None, px_max_outbound_tcp_new_per_second = None,
     px_max_port_outbound_tcp_active = None, px_max_port_outbound_tcp_new_per_second = None, px_max_port_inbound_connections = None,
     px_max_port_total_connections = None, px_max_port_inbound_online_ips = None, px_close_wait_timeout_seconds = None,
     px_source = [], px_management_group = []\<rparr>"

definition sample_snapshot :: serverDetailedConnectionSnapshot where
  "sample_snapshot = \<lparr>sn_system = sample_counts 5, sn_inbounds = [], sn_proxy_users = [sample_user ''in'' ''a'' 2, sample_user ''in'' ''b'' 3],
     sn_management_groups = [],
     sn_global = \<lparr>gc_current_total = 5, gc_rejected_global_total_limit = 0, gc_max_total = None, gc_current_inbound = 5,
       gc_max_inbound = None, gc_rejected_global_inbound_limit = 0\<rparr>,
     sn_core = \<lparr>cc_traffic_block_supported = True, cc_available = True, cc_version = 6, cc_started_at = 1, cc_error = []\<rparr>,
     sn_machine_protection = None, sn_listening = None, sn_sampled_at = 1\<rparr>"

theorem accepted_snapshot_balances_witness: "ac_balanced (coreAccounting sample_snapshot)"
proof -
  have "validateDetailedSnapshot sample_snapshot = None"
    by (simp add: orelse_def validateDetailedSnapshot_def sample_snapshot_def sample_user_def sample_counts_def tcp_counts_bad_def tcpStateValues_def
        validateTCPStateCounts_def i64_def)
  moreover have "is_int64 (gc_current_total (sn_global sample_snapshot))"
    by (simp add: sample_snapshot_def is_int64_def min_int64_def max_int64_def)
  moreover have "6 \<le> cc_version (sn_core sample_snapshot)" by (simp add: sample_snapshot_def)
  ultimately show ?thesis using accepted_snapshot_balances by blast
qed

end
