(* ===== verification/Ownership.thy ===== *)
theory Ownership
  imports Connection_Snapshot "HOL-Library.AList"
begin

text \<open>
  Whom the connections of a server belong to (\<open>connection_ownership.go\<close>): the relations
  of inbounds, protocol identities and management users are reduced to the effective
  ones, every identity of an inbound is given to one user or to none, and the
  connections of a snapshot are summed per user and port. Go maps are association
  lists; the code iterates over them only where the order does not show.
\<close>

section \<open>Data\<close>

record connectionOwnershipRelation =
  rl_inbound_tag :: string
  rl_username :: string
  rl_identity :: string
  rl_source :: string
  rl_assignment_type :: string

record connectionOwnershipData =
  od_management_users :: "string list"
  od_relations :: "connectionOwnershipRelation list"

record serverManagementPort =
  mq_inbound_tag :: string
  mq_port :: int
  mq_protocol :: string
  mq_source :: string
  mq_identities :: "string list"
  mq_manual :: "string list"
  mq_attributed :: bool
  mq_aggregate :: serverProxyUserConnections
  mq_limits :: serverPortConnectionSettings

record serverManagementUser =
  mu_username :: string
  mu_source :: string
  mu_aggregate :: serverManagementGroupConnections
  mu_limits :: serverManagementUserSettings
  mu_ports :: "serverManagementPort list"

record serverUnassignedPort =
  ua_inbound_tag :: string
  ua_port :: int
  ua_protocol :: string
  ua_identities :: "string list"
  ua_reason :: string

record serverManagementView =
  mv_users :: "serverManagementUser list"
  mv_unassigned :: "serverUnassignedPort list"
  mv_assignable :: "string list"
  mv_warnings :: "string list"

definition connectionSourceBinding :: string where "connectionSourceBinding = ''binding''"
definition connectionSourceOwner :: string where "connectionSourceOwner = ''owner''"
definition connectionSourceManual :: string where "connectionSourceManual = ''manual''"

definition sourcePriority :: "string \<Rightarrow> nat" where
  "sourcePriority source =
     (if source = connectionSourceBinding then 3 else if source = connectionSourceOwner then 2
      else if source = connectionSourceManual then 1 else 0)"

definition manual_relation :: "connectionOwnershipRelation \<Rightarrow> bool" where
  "manual_relation r \<longleftrightarrow> rl_source r = connectionSourceManual"

section \<open>Small list operations\<close>

definition removeString :: "string list \<Rightarrow> string \<Rightarrow> string list" where
  "removeString values unwanted = filter (\<lambda>v. v \<noteq> unwanted) values"

definition uniqueRuntimeIdentities :: "serverProxyUserConnections list \<Rightarrow> string list" where
  "uniqueRuntimeIdentities users = sort (foldl appendUniqueString [] (map px_user users))"

text \<open>\<open>m[u]\<close> of a map to slices: a missing key is the nil slice.\<close>

definition values_of :: "(string \<times> string list) list \<Rightarrow> string \<Rightarrow> string list" where
  "values_of m u = (case map_of m u of None \<Rightarrow> [] | Some vs \<Rightarrow> vs)"

definition give :: "string \<Rightarrow> string \<Rightarrow> (string \<times> string list) list \<Rightarrow> (string \<times> string list) list" where
  "give u identity m = AList.update u (appendUniqueString (values_of m u) identity) m"

definition take_back :: "string \<Rightarrow> string \<Rightarrow> (string \<times> string list) list \<Rightarrow> (string \<times> string list) list" where
  "take_back identity u m = AList.update u (removeString (values_of m u) identity) m"

definition owners_of :: "(string \<times> string list) list \<Rightarrow> string \<Rightarrow> string list" where
  "owners_of m identity = map fst (filter (\<lambda>(u, vs). identity \<in> set vs) m)"

section \<open>Effective relations\<close>

definition max_priority :: "connectionOwnershipRelation list \<Rightarrow> nat" where
  "max_priority rs = foldl max 0 (map (\<lambda>r. sourcePriority (rl_source r)) (filter (\<lambda>r. \<not> manual_relation r) rs))"

definition identity_priority :: "connectionOwnershipRelation list \<Rightarrow> string \<Rightarrow> nat" where
  "identity_priority rs identity = max_priority (filter (\<lambda>r. rl_identity r = identity) rs)"

definition relation_key :: "connectionOwnershipRelation \<Rightarrow> string" where
  "relation_key r = rl_username r @ [CHR 0x00] @ rl_identity r"

definition relation_wanted :: "connectionOwnershipRelation list \<Rightarrow> connectionOwnershipRelation \<Rightarrow> bool" where
  "relation_wanted all_relations r \<longleftrightarrow>
     manual_relation r
     \<or> sourcePriority (rl_source r) = (if rl_identity r \<noteq> [] then identity_priority all_relations (rl_identity r) else max_priority all_relations)"

fun keep_relations ::
  "connectionOwnershipRelation list \<Rightarrow> string list \<Rightarrow> connectionOwnershipRelation list \<Rightarrow> connectionOwnershipRelation list" where
  "keep_relations all_relations seen [] = []"
| "keep_relations all_relations seen (r # rs) =
     (if \<not> relation_wanted all_relations r \<or> relation_key r \<in> set seen then keep_relations all_relations seen rs
      else r # keep_relations all_relations (relation_key r # seen) rs)"

definition effectiveOwnershipRelations :: "connectionOwnershipRelation list \<Rightarrow> connectionOwnershipRelation list" where
  "effectiveOwnershipRelations rs = sort_key (\<lambda>r. (rl_username r, rl_identity r)) (keep_relations rs [] rs)"

section \<open>Who owns an identity\<close>

record resolvedRelationIdentities =
  ri_by_user :: "(string \<times> string list) list"
  ri_unassigned :: "string list"
  ri_warning :: string

definition warn_shared :: string where "warn_shared = ''multiple management users share a single-secret inbound''"
definition warn_inexact :: string where "warn_inexact = ''no exact management-user relation''"
definition warn_conflict :: string where "warn_conflict = ''conflicting management-user relations''"
definition warn_uncovered :: string where "warn_uncovered = ''manual identity assignments do not cover every identity''"

text \<open>The relations that name an identity of the inbound, given to their users.\<close>

definition give_named :: "string list \<Rightarrow> connectionOwnershipRelation list \<Rightarrow> (string \<times> string list) list \<Rightarrow> (string \<times> string list) list" where
  "give_named identities rs m =
     foldl (\<lambda>m r. if rl_identity r \<noteq> [] \<and> rl_identity r \<in> set identities then give (rl_username r) (rl_identity r) m else m) m rs"

definition give_all :: "string \<Rightarrow> string list \<Rightarrow> (string \<times> string list) list \<Rightarrow> (string \<times> string list) list" where
  "give_all u identities m = foldl (\<lambda>m i. give u i m) m identities"

definition take_back_all :: "string \<Rightarrow> string list \<Rightarrow> (string \<times> string list) list \<Rightarrow> (string \<times> string list) list" where
  "take_back_all identity us m = foldl (\<lambda>m u. take_back identity u m) m us"

definition removeAmbiguousIdentities :: "resolvedRelationIdentities \<Rightarrow> string list \<Rightarrow> resolvedRelationIdentities" where
  "removeAmbiguousIdentities result identities =
     foldl (\<lambda>res identity.
        let owners = owners_of (ri_by_user res) identity
        in if length owners = 1 then res
           else res\<lparr>ri_warning := (if 1 < length owners then warn_conflict
                                   else if ri_warning res = [] then warn_inexact else ri_warning res),
                    ri_unassigned := appendUniqueString (ri_unassigned res) identity,
                    ri_by_user := take_back_all identity owners (ri_by_user res)\<rparr>) result identities"

definition relation_users :: "connectionOwnershipRelation list \<Rightarrow> string list" where
  "relation_users rs = dedup (map rl_username rs)"

definition resolveAuthoritativeRelations ::
  "resolvedRelationIdentities \<Rightarrow> connectionOwnershipRelation list \<Rightarrow> string list \<Rightarrow> resolvedRelationIdentities" where
  "resolveAuthoritativeRelations result relations identities =
     (let res = result\<lparr>ri_by_user := give_named identities relations (ri_by_user result)\<rparr>
      in if length (relation_users relations) = 1 \<and> list_ex (\<lambda>r. rl_identity r = []) relations
         then (let u = hd (relation_users relations); m = give_all u identities (ri_by_user res)
               in res\<lparr>ri_by_user := (if identities = [] then give u [] m else m)\<rparr>)
         else if identities = [] then res\<lparr>ri_warning := warn_shared\<rparr>
         else removeAmbiguousIdentities res identities)"

definition mappedIdentityOwner :: "(string \<times> string list) list \<Rightarrow> string \<Rightarrow> string" where
  "mappedIdentityOwner m identity =
     foldl (\<lambda>owner u. if owner = ''*'' then owner else if owner \<noteq> [] \<and> owner \<noteq> u then ''*'' else u) [] (owners_of m identity)"

definition manual_owners :: "connectionOwnershipRelation list \<Rightarrow> string \<Rightarrow> string list" where
  "manual_owners relations identity = dedup (map rl_username (filter (\<lambda>c. rl_identity c = identity) relations))"

definition assign_manual ::
  "connectionOwnershipRelation list \<Rightarrow> string list \<Rightarrow> resolvedRelationIdentities \<Rightarrow> connectionOwnershipRelation \<Rightarrow> resolvedRelationIdentities" where
  "assign_manual relations identities res r =
     (if rl_identity r = [] \<or> rl_identity r \<notin> set identities \<or> mappedIdentityOwner (ri_by_user res) (rl_identity r) \<noteq> [] then res
      else if length (manual_owners relations (rl_identity r)) = 1
      then res\<lparr>ri_by_user := give (rl_username r) (rl_identity r) (ri_by_user res),
               ri_unassigned := removeString (ri_unassigned res) (rl_identity r)\<rparr>
      else res)"

definition note_unassigned :: "resolvedRelationIdentities \<Rightarrow> string \<Rightarrow> resolvedRelationIdentities" where
  "note_unassigned res identity =
     (if mappedIdentityOwner (ri_by_user res) identity = [] then res\<lparr>ri_unassigned := appendUniqueString (ri_unassigned res) identity\<rparr> else res)"

definition settle_warning :: "resolvedRelationIdentities \<Rightarrow> resolvedRelationIdentities" where
  "settle_warning res =
     (if ri_unassigned res \<noteq> [] \<and> ri_warning res = [] then res\<lparr>ri_warning := warn_inexact\<rparr>
      else if ri_unassigned res = [] \<and> ri_warning res = warn_inexact then res\<lparr>ri_warning := []\<rparr> else res)"

definition resolveRemainingManualIdentities ::
  "resolvedRelationIdentities \<Rightarrow> connectionOwnershipRelation list \<Rightarrow> string list \<Rightarrow> resolvedRelationIdentities" where
  "resolveRemainingManualIdentities result relations identities =
     settle_warning (foldl note_unassigned (foldl (assign_manual relations identities) result relations) identities)"

definition drop_inexact :: "resolvedRelationIdentities \<Rightarrow> string \<Rightarrow> resolvedRelationIdentities" where
  "drop_inexact res identity =
     (let owners = owners_of (ri_by_user res) identity
      in if length owners = 1 then res
         else res\<lparr>ri_warning := warn_inexact, ri_by_user := take_back_all identity owners (ri_by_user res)\<rparr>)"

definition resolve_manual :: "connectionOwnershipRelation list \<Rightarrow> string list \<Rightarrow> resolvedRelationIdentities" where
  "resolve_manual manual identities =
     (let m = give_named identities manual []; users = relation_users manual
      in if length users = 1
         then (let u = hd users
               in if \<not> list_ex (\<lambda>r. rl_identity r = []) manual
                  then (let rest = filter (\<lambda>i. i \<notin> set (values_of m u)) identities
                        in \<lparr>ri_by_user = m, ri_unassigned = rest, ri_warning = (if rest \<noteq> [] then warn_uncovered else [])\<rparr>)
                  else (let m1 = give_all u identities m
                        in \<lparr>ri_by_user = (if identities = [] then AList.update u (values_of m1 u @ [[]]) m1 else m1),
                            ri_unassigned = [], ri_warning = []\<rparr>))
         else if identities = [] then \<lparr>ri_by_user = m, ri_unassigned = [], ri_warning = warn_shared\<rparr>
         else foldl drop_inexact \<lparr>ri_by_user = m, ri_unassigned = [], ri_warning = []\<rparr> identities)"

definition resolveRelationIdentities :: "connectionOwnershipRelation list \<Rightarrow> string list \<Rightarrow> resolvedRelationIdentities" where
  "resolveRelationIdentities relations identities =
     (let official = filter (\<lambda>r. \<not> manual_relation r) relations; manual = filter manual_relation relations
      in if official \<noteq> []
         then resolveRemainingManualIdentities
                (resolveAuthoritativeRelations \<lparr>ri_by_user = [], ri_unassigned = [], ri_warning = []\<rparr> official identities) manual identities
         else resolve_manual manual identities)"

end
