(* ===== verification/Ownership_Resolve.thy ===== *)
theory Ownership_Resolve
  imports Ownership
begin

text \<open>
  Who owns an identity, as a rule instead of a procedure, and the proof that
  \<open>resolveRelationIdentities\<close> follows the rule.
\<close>

lemma orelse_simps [simp]: "orelse None b = b" "orelse (Some a) b = Some a"
  by (simp_all add: orelse_def)

section \<open>The rule\<close>

text \<open>The one user whom relations name for an identity.\<close>

definition named_owner :: "connectionOwnershipRelation list \<Rightarrow> string \<Rightarrow> string option" where
  "named_owner rs identity =
     (if identity \<noteq> [] then (case dedup (map rl_username (filter (\<lambda>r. rl_identity r = identity) rs)) of [u] \<Rightarrow> Some u | _ \<Rightarrow> None) else None)"

text \<open>The one user of an inbound, when a relation gives the whole inbound.\<close>

definition sole_user :: "connectionOwnershipRelation list \<Rightarrow> string option" where
  "sole_user rs = (if length (relation_users rs) = 1 \<and> list_ex (\<lambda>r. rl_identity r = []) rs then Some (hd (relation_users rs)) else None)"

definition identity_owner :: "connectionOwnershipRelation list \<Rightarrow> string \<Rightarrow> string option" where
  "identity_owner relations identity =
     (let official = filter (\<lambda>r. \<not> manual_relation r) relations; manual = filter manual_relation relations
      in orelse (sole_user (if official \<noteq> [] then official else manual))
           (orelse (named_owner official identity) (named_owner manual identity)))"

section \<open>Ownership in the maps\<close>

definition owns :: "(string \<times> string list) list \<Rightarrow> string \<Rightarrow> string \<Rightarrow> bool" where
  "owns m u identity \<longleftrightarrow> identity \<in> set (values_of m u)"

lemma values_update [simp]: "values_of (AList.update u vs m) v = (if v = u then vs else values_of m v)"
  by (simp add: values_of_def update_conv)

lemma owns_Nil [simp]: "\<not> owns [] u i"
  by (simp add: owns_def values_of_def)

lemma owns_give [simp]: "owns (give u i m) v j \<longleftrightarrow> owns m v j \<or> v = u \<and> j = i"
  by (auto simp: owns_def give_def appendUniqueString_def)

lemma owns_take_back [simp]: "owns (take_back i u m) v j \<longleftrightarrow> owns m v j \<and> \<not> (v = u \<and> j = i)"
  by (auto simp: owns_def take_back_def removeString_def)

lemma owns_take_back_all [simp]: "owns (take_back_all i us m) v j \<longleftrightarrow> owns m v j \<and> \<not> (v \<in> set us \<and> j = i)"
  unfolding take_back_all_def by (induction us arbitrary: m) auto

lemma owns_give_all [simp]: "owns (give_all u is' m) v j \<longleftrightarrow> owns m v j \<or> v = u \<and> j \<in> set is'"
  unfolding give_all_def by (induction is' arbitrary: m) auto

lemma owns_give_named [simp]:
  "owns (give_named ids rs m) v j \<longleftrightarrow> owns m v j \<or> j \<noteq> [] \<and> j \<in> set ids \<and> (\<exists>r \<in> set rs. rl_username r = v \<and> rl_identity r = j)"
  unfolding give_named_def by (induction rs arbitrary: m) auto

text \<open>One key per user.\<close>

abbreviation keyed :: "(string \<times> string list) list \<Rightarrow> bool" where "keyed m \<equiv> distinct (map fst m)"

lemma keyed_give: "keyed m \<Longrightarrow> keyed (give u i m)"
  by (simp add: give_def distinct_update)

lemma keyed_take_back: "keyed m \<Longrightarrow> keyed (take_back i u m)"
  by (simp add: take_back_def distinct_update)

lemma keyed_take_back_all: "keyed m \<Longrightarrow> keyed (take_back_all i us m)"
  unfolding take_back_all_def by (induction us arbitrary: m) (simp_all add: keyed_take_back)

lemma keyed_give_all: "keyed m \<Longrightarrow> keyed (give_all u is' m)"
  unfolding give_all_def by (induction is' arbitrary: m) (simp_all add: keyed_give)

lemma keyed_give_named: "keyed m \<Longrightarrow> keyed (give_named ids rs m)"
  unfolding give_named_def by (induction rs arbitrary: m) (simp_all add: keyed_give)

lemma owners_set: "keyed m \<Longrightarrow> set (owners_of m i) = {u. owns m u i}"
  by (force simp: owners_of_def owns_def values_of_def split: option.splits dest: map_of_SomeD)

lemma owners_distinct: "keyed m \<Longrightarrow> distinct (owners_of m i)"
  unfolding owners_of_def by (rule distinct_map_filter)

lemma owners_one: "keyed m \<Longrightarrow> length (owners_of m i) = 1 \<longleftrightarrow> (\<exists>!u. owns m u i)"
proof -
  assume k: "keyed m"
  have "length (owners_of m i) = card {u. owns m u i}" using distinct_card [OF owners_distinct [OF k]] owners_set [OF k] by metis
  then show ?thesis by (simp add: card_1_singleton_iff) (auto simp: set_eq_iff Ex1_def)
qed

lemma owners_none: "keyed m \<Longrightarrow> owners_of m i = [] \<longleftrightarrow> (\<forall>u. \<not> owns m u i)"
  using owners_set [of m i] by (auto simp flip: set_empty)

lemma dedup_single: "dedup xs = [x] \<longleftrightarrow> set xs = {x}"
proof
  show "set xs = {x}" if "dedup xs = [x]" using that set_dedup [of xs] by simp
  assume s: "set xs = {x}"
  then have "length (dedup xs) = 1" using distinct_card [OF distinct_dedup [of xs]] by simp
  then obtain y where y: "dedup xs = [y]" by (cases "dedup xs") auto
  then show "dedup xs = [x]" using s set_dedup [of xs] by simp
qed

definition names :: "connectionOwnershipRelation list \<Rightarrow> string \<Rightarrow> string \<Rightarrow> bool" where
  "names rs u i \<longleftrightarrow> (\<exists>r \<in> set rs. rl_username r = u \<and> rl_identity r = i)"

lemma named_owner_Some: "named_owner rs i = Some u \<longleftrightarrow> i \<noteq> [] \<and> (\<forall>v. names rs v i \<longleftrightarrow> v = u)"
proof -
  let ?xs = "map rl_username (filter (\<lambda>r. rl_identity r = i) rs)"
  have s: "set ?xs = {v. names rs v i}" by (auto simp: names_def)
  have "(case dedup ?xs of [u] \<Rightarrow> Some u | _ \<Rightarrow> None) = Some u \<longleftrightarrow> dedup ?xs = [u]" by (auto split: list.splits)
  also have "\<dots> \<longleftrightarrow> {v. names rs v i} = {u}" by (simp only: dedup_single s)
  also have "\<dots> \<longleftrightarrow> (\<forall>v. names rs v i \<longleftrightarrow> v = u)" by (simp add: set_eq_iff)
  finally show ?thesis by (simp add: named_owner_def)
qed

lemma named_owner_unique: "named_owner rs i \<noteq> None \<longleftrightarrow> i \<noteq> [] \<and> (\<exists>!u. names rs u i)"
  using named_owner_Some [of rs i] unfolding Ex1_def by (metis option.exhaust option.distinct(1))

lemma manual_owners_named:
  assumes "i \<noteq> []"
  shows "length (manual_owners rs i) = 1 \<longleftrightarrow> named_owner rs i \<noteq> None"
proof -
  have "named_owner rs i = (case manual_owners rs i of [u] \<Rightarrow> Some u | _ \<Rightarrow> None)" using assms by (simp add: named_owner_def manual_owners_def)
  then show ?thesis by (auto split: list.splits simp: length_Suc_conv)
qed

section \<open>The loops\<close>

text \<open>Taking back what is not owned exactly once, for the identities of a list.\<close>

definition unclaim :: "string list \<Rightarrow> (string \<times> string list) list \<Rightarrow> (string \<times> string list) list" where
  "unclaim ids m = foldl (\<lambda>m i. if length (owners_of m i) = 1 then m else take_back_all i (owners_of m i) m) m ids"

definition claimed_once :: "(string \<times> string list) list \<Rightarrow> string \<Rightarrow> bool" where
  "claimed_once m i \<longleftrightarrow> (\<exists>!u. owns m u i)"

lemma claimed_once_cong: "(\<And>u. owns m u i \<longleftrightarrow> owns m' u i) \<Longrightarrow> claimed_once m i \<longleftrightarrow> claimed_once m' i"
  by (simp add: claimed_once_def)

lemma claimed_once_owners: "keyed m \<Longrightarrow> length (owners_of m i) = 1 \<longleftrightarrow> claimed_once m i"
  unfolding claimed_once_def by (rule owners_one)

lemma unclaim_step:
  assumes "keyed m"
  shows "owns (if length (owners_of m i) = 1 then m else take_back_all i (owners_of m i) m) v j \<longleftrightarrow> owns m v j \<and> (j = i \<longrightarrow> claimed_once m i)"
  using claimed_once_owners [OF assms, of i] owners_set [OF assms, of i] by auto

lemma unclaim_keyed: "keyed m \<Longrightarrow> keyed (unclaim ids m)"
  unfolding unclaim_def by (induction ids arbitrary: m) (simp_all add: keyed_take_back_all)

lemma unclaim_spec:
  "keyed m \<Longrightarrow> distinct ids \<Longrightarrow> owns (unclaim ids m) v j \<longleftrightarrow> owns m v j \<and> (j \<in> set ids \<longrightarrow> claimed_once m j)"
proof (induction ids arbitrary: m)
  case (Cons i ids)
  define m1 where "m1 = (if length (owners_of m i) = 1 then m else take_back_all i (owners_of m i) m)"
  have k1: "keyed m1" using Cons.prems(1) by (simp add: m1_def keyed_take_back_all)
  have o1: "owns m1 v j \<longleftrightarrow> owns m v j \<and> (j = i \<longrightarrow> claimed_once m i)" for v j
    unfolding m1_def by (rule unclaim_step [OF Cons.prems(1)])
  have "unclaim (i # ids) m = unclaim ids m1" by (simp add: unclaim_def m1_def)
  moreover have "claimed_once m1 j \<longleftrightarrow> claimed_once m j" if "j \<in> set ids"
    by (rule claimed_once_cong) (use that Cons.prems(2) o1 in auto)
  ultimately show ?case using Cons.IH [OF k1] Cons.prems(2) o1 by auto
qed (simp add: unclaim_def)

lemma ambiguous_by_user: "ri_by_user (removeAmbiguousIdentities res ids) = unclaim ids (ri_by_user res)"
  unfolding removeAmbiguousIdentities_def unclaim_def by (induction ids arbitrary: res) (simp_all add: Let_def)

lemma set_append_unique [simp]: "set (appendUniqueString vs v) = insert v (set vs)"
  by (auto simp: appendUniqueString_def)

lemma set_remove_string [simp]: "set (removeString vs v) = set vs - {v}"
  by (auto simp: removeString_def)

lemma ambiguous_unassigned:
  "keyed (ri_by_user res) \<Longrightarrow> distinct ids
   \<Longrightarrow> set (ri_unassigned (removeAmbiguousIdentities res ids)) = set (ri_unassigned res) \<union> {j \<in> set ids. \<not> claimed_once (ri_by_user res) j}"
proof (induction ids arbitrary: res)
  case (Cons i ids)
  let ?m = "ri_by_user res"
  define r1 where "r1 = (if length (owners_of ?m i) = 1 then res
    else res\<lparr>ri_warning := (if 1 < length (owners_of ?m i) then warn_conflict else if ri_warning res = [] then warn_inexact else ri_warning res),
             ri_unassigned := appendUniqueString (ri_unassigned res) i, ri_by_user := take_back_all i (owners_of ?m i) ?m\<rparr>)"
  have step: "removeAmbiguousIdentities res (i # ids) = removeAmbiguousIdentities r1 ids"
    by (simp add: removeAmbiguousIdentities_def r1_def Let_def)
  have k1: "keyed (ri_by_user r1)" using Cons.prems(1) by (simp add: r1_def keyed_take_back_all)
  have un: "set (ri_unassigned r1) = set (ri_unassigned res) \<union> (if claimed_once ?m i then {} else {i})"
    using claimed_once_owners [OF Cons.prems(1), of i] by (auto simp: r1_def)
  have o1: "owns (ri_by_user r1) v j \<longleftrightarrow> owns ?m v j" if "j \<noteq> i" for v j using that by (simp add: r1_def)
  have "claimed_once (ri_by_user r1) j \<longleftrightarrow> claimed_once ?m j" if "j \<in> set ids" for j
    using that Cons.prems(2) by (intro claimed_once_cong o1) auto
  then show ?case using Cons.IH [OF k1] Cons.prems(2) un by (auto simp: step)
qed (simp add: removeAmbiguousIdentities_def)

lemma mapped_owner_none:
  assumes "keyed m" "\<And>u j. owns m u j \<Longrightarrow> u \<noteq> []"
  shows "mappedIdentityOwner m i = [] \<longleftrightarrow> (\<forall>u. \<not> owns m u i)"
proof -
  let ?f = "\<lambda>owner u. if owner = ''*'' then owner else if owner \<noteq> [] \<and> owner \<noteq> u then ''*'' else u"
  have keep: "foldl ?f x us \<noteq> []" if "x \<noteq> []" "[] \<notin> set us" for x us
    using that by (induction us arbitrary: x) auto
  have "[] \<notin> set (owners_of m i)" using assms owners_set [OF assms(1)] by auto
  then have "foldl ?f [] (owners_of m i) = [] \<longleftrightarrow> owners_of m i = []" using keep by (cases "owners_of m i") auto
  then show ?thesis using owners_none [OF assms(1)] by (simp add: mappedIdentityOwner_def)
qed


definition named_users :: "(string \<times> string list) list \<Rightarrow> bool" where
  "named_users m \<longleftrightarrow> (\<forall>u i. owns m u i \<longrightarrow> u \<noteq> [])"

lemma mapped_owner_unowned: "keyed m \<Longrightarrow> named_users m \<Longrightarrow> mappedIdentityOwner m i = [] \<longleftrightarrow> (\<forall>u. \<not> owns m u i)"
  by (rule mapped_owner_none) (auto simp: named_users_def)

text \<open>What the manual relations of a list add.\<close>

definition adds :: "connectionOwnershipRelation list \<Rightarrow> string list \<Rightarrow> (string \<times> string list) list \<Rightarrow> connectionOwnershipRelation list \<Rightarrow> string \<Rightarrow> bool" where
  "adds M ids m rs i \<longleftrightarrow> i \<in> set ids \<and> (\<exists>r \<in> set rs. rl_identity r = i) \<and> (\<forall>u. \<not> owns m u i) \<and> named_owner M i \<noteq> None"

lemma named_not_empty: "named_owner M i \<noteq> None \<Longrightarrow> i \<noteq> []"
  by (auto simp: named_owner_def split: if_splits)

lemma manual_named: "r \<in> set M \<Longrightarrow> named_owner M (rl_identity r) = Some u \<Longrightarrow> rl_username r = u"
  unfolding named_owner_Some names_def by blast

lemma assign_manual_step:
  assumes "keyed (ri_by_user res)" "named_users (ri_by_user res)" "r \<in> set M" "rl_username r \<noteq> []"
  shows "assign_manual M ids res r =
    (if adds M ids (ri_by_user res) [r] (rl_identity r)
     then res\<lparr>ri_by_user := give (the (named_owner M (rl_identity r))) (rl_identity r) (ri_by_user res),
              ri_unassigned := removeString (ri_unassigned res) (rl_identity r)\<rparr>
     else res)"
proof (cases "rl_identity r = []")
  case True
  then show ?thesis by (simp add: assign_manual_def adds_def named_owner_def)
next
  case False
  then show ?thesis
    using mapped_owner_unowned [OF assms(1,2)] manual_owners_named [OF False, of M] manual_named [OF assms(3)]
    by (auto simp: assign_manual_def adds_def)
qed

lemma assign_manual_fold:
  assumes "set rs \<subseteq> set M" "\<forall>r \<in> set M. rl_username r \<noteq> []"
  shows "keyed (ri_by_user res) \<Longrightarrow> named_users (ri_by_user res) \<Longrightarrow> res' = foldl (assign_manual M ids) res rs
    \<Longrightarrow> keyed (ri_by_user res') \<and> named_users (ri_by_user res')
      \<and> (\<forall>v i. owns (ri_by_user res') v i \<longleftrightarrow> owns (ri_by_user res) v i \<or> adds M ids (ri_by_user res) rs i \<and> named_owner M i = Some v)
      \<and> set (ri_unassigned res') = {i \<in> set (ri_unassigned res). \<not> adds M ids (ri_by_user res) rs i}"
  using assms
proof (induction rs arbitrary: res)
  case Nil
  then show ?case by (simp add: adds_def)
next
  case (Cons r rs)
  let ?i = "rl_identity r" and ?m = "ri_by_user res"
  have r: "r \<in> set M" "rl_username r \<noteq> []" using Cons.prems by auto
  define r1 where "r1 = assign_manual M ids res r"
  note step = assign_manual_step [OF Cons.prems(1,2) r, of ids, folded r1_def]
  have k1: "keyed (ri_by_user r1)" using Cons.prems(1) by (simp add: step keyed_give)
  have o1: "owns (ri_by_user r1) v i \<longleftrightarrow> owns ?m v i \<or> i = ?i \<and> adds M ids ?m [r] ?i \<and> named_owner M ?i = Some v" for v i
    using manual_named [OF r(1)] by (auto simp: step adds_def)
  have n1: "named_users (ri_by_user r1)"
    using Cons.prems(2) o1 r manual_named [OF r(1)] by (fastforce simp: named_users_def)
  have u1: "set (ri_unassigned r1) = {i \<in> set (ri_unassigned res). \<not> (i = ?i \<and> adds M ids ?m [r] ?i)}"
    by (auto simp: step)
  have ad: "adds M ids (ri_by_user r1) rs i \<or> i = ?i \<and> adds M ids ?m [r] ?i \<longleftrightarrow> adds M ids ?m (r # rs) i" for i
    using o1 by (auto simp: adds_def)
  have ih: "keyed (ri_by_user res') \<and> named_users (ri_by_user res')
      \<and> (\<forall>v i. owns (ri_by_user res') v i \<longleftrightarrow> owns (ri_by_user r1) v i \<or> adds M ids (ri_by_user r1) rs i \<and> named_owner M i = Some v)
      \<and> set (ri_unassigned res') = {i \<in> set (ri_unassigned r1). \<not> adds M ids (ri_by_user r1) rs i}"
    using Cons.IH [OF k1 n1 _ _ Cons.prems(5)] Cons.prems(3,4) by (simp add: r1_def)
  show ?case
  proof (intro conjI allI)
    show "owns (ri_by_user res') v i \<longleftrightarrow> owns ?m v i \<or> adds M ids ?m (r # rs) i \<and> named_owner M i = Some v" for v i
      using ih o1 [of v i] ad [of i] by auto
    show "set (ri_unassigned res') = {i \<in> set (ri_unassigned res). \<not> adds M ids ?m (r # rs) i}"
      using ih u1 ad by auto
  qed (use ih in auto)
qed

lemma note_unassigned_fold:
  assumes "keyed (ri_by_user res)" "named_users (ri_by_user res)"
  shows "ri_by_user (foldl note_unassigned res ids) = ri_by_user res
    \<and> set (ri_unassigned (foldl note_unassigned res ids)) = set (ri_unassigned res) \<union> {i \<in> set ids. \<forall>u. \<not> owns (ri_by_user res) u i}"
  using assms
proof (induction ids arbitrary: res)
  case (Cons i ids)
  have "ri_by_user (note_unassigned res i) = ri_by_user res"
    "set (ri_unassigned (note_unassigned res i)) = set (ri_unassigned res) \<union> (if \<forall>u. \<not> owns (ri_by_user res) u i then {i} else {})"
    using mapped_owner_unowned [OF Cons.prems, of i] by (auto simp: note_unassigned_def)
  then show ?case using Cons.IH [of "note_unassigned res i"] Cons.prems by auto
qed simp

lemma settle_warning_same [simp]:
  "ri_by_user (settle_warning res) = ri_by_user res" "ri_unassigned (settle_warning res) = ri_unassigned res"
  by (simp_all add: settle_warning_def)


section \<open>The procedure follows the rule\<close>

definition official_owner :: "connectionOwnershipRelation list \<Rightarrow> string \<Rightarrow> string option" where
  "official_owner rs i = orelse (sole_user rs) (named_owner rs i)"

lemma sole_user_names: "sole_user rs = Some u \<Longrightarrow> names rs v i \<Longrightarrow> v = u"
proof -
  assume s: "sole_user rs = Some u" and n: "names rs v i"
  have "length (relation_users rs) = 1" "hd (relation_users rs) = u" using s by (auto simp: sole_user_def split: if_splits)
  then have "relation_users rs = [u]" by (cases "relation_users rs") auto
  then have "rl_username ` set rs = {u}" by (simp add: relation_users_def dedup_single)
  then show "v = u" using n by (auto simp: names_def)
qed

lemma sole_user_hd: "sole_user rs = Some u \<longleftrightarrow>
    length (relation_users rs) = 1 \<and> list_ex (\<lambda>r. rl_identity r = []) rs \<and> hd (relation_users rs) = u"
  by (auto simp: sole_user_def)

lemma claimed_named:
  assumes "i \<in> set ids"
  shows "claimed_once (give_named ids rs []) i \<longleftrightarrow> named_owner rs i \<noteq> None"
    and "owns (give_named ids rs []) v i \<and> claimed_once (give_named ids rs []) i \<longleftrightarrow> named_owner rs i = Some v"
proof -
  have o: "owns (give_named ids rs []) v i \<longleftrightarrow> i \<noteq> [] \<and> names rs v i" for v using assms by (auto simp: names_def)
  show "claimed_once (give_named ids rs []) i \<longleftrightarrow> named_owner rs i \<noteq> None"
    unfolding claimed_once_def named_owner_unique o by auto
  show "owns (give_named ids rs []) v i \<and> claimed_once (give_named ids rs []) i \<longleftrightarrow> named_owner rs i = Some v"
    unfolding claimed_once_def named_owner_Some o by (auto simp: Ex1_def)
qed

lemma named_users_given:
  assumes "\<forall>r \<in> set rs. rl_username r \<noteq> []" "\<And>v j. owns m v j \<Longrightarrow> names rs v j \<or> rs \<noteq> [] \<and> v = hd (relation_users rs)"
  shows "named_users m"
proof -
  have "hd (relation_users rs) \<in> rl_username ` set rs" if "rs \<noteq> []"
  proof -
    have "relation_users rs \<noteq> []" using that set_dedup [of "map rl_username rs"] unfolding relation_users_def by (metis list.map_disc_iff set_empty)
    then have "hd (relation_users rs) \<in> set (relation_users rs)" by simp
    then show ?thesis by (simp add: relation_users_def)
  qed
  then show ?thesis using assms by (force simp: named_users_def names_def)
qed

lemma authoritative_spec:
  assumes "distinct ids" "\<forall>r \<in> set rs. rl_username r \<noteq> []"
    and "res = resolveAuthoritativeRelations \<lparr>ri_by_user = [], ri_unassigned = [], ri_warning = []\<rparr> rs ids"
  shows "keyed (ri_by_user res)" "named_users (ri_by_user res)"
    "i \<in> set ids \<Longrightarrow> owns (ri_by_user res) v i \<longleftrightarrow> official_owner rs i = Some v"
    "set (ri_unassigned res) = {i \<in> set ids. official_owner rs i = None}"
proof -
  let ?m = "give_named ids rs []"
  have k: "keyed ?m" by (simp add: keyed_give_named)
  consider (sole) u where "sole_user rs = Some u" | (none) "sole_user rs = None" "ids = []" | (many) "sole_user rs = None" "ids \<noteq> []"
    by (cases "sole_user rs") auto
  then have "keyed (ri_by_user res) \<and> named_users (ri_by_user res)
    \<and> (i \<in> set ids \<longrightarrow> owns (ri_by_user res) v i = (official_owner rs i = Some v))
    \<and> set (ri_unassigned res) = {i \<in> set ids. official_owner rs i = None}"
  proof cases
    case sole
    then have one: "length (relation_users rs) = 1" "list_ex (\<lambda>r. rl_identity r = []) rs" "hd (relation_users rs) = u"
      by (simp_all add: sole_user_hd)
    have res: "ri_by_user res = (if ids = [] then give u [] (give_all u ids ?m) else give_all u ids ?m)" "ri_unassigned res = []"
      using one by (simp_all add: assms(3) resolveAuthoritativeRelations_def Let_def)
    have rs: "rs \<noteq> []" using one(2) by auto
    have o: "owns (ri_by_user res) w j \<longleftrightarrow> j \<noteq> [] \<and> j \<in> set ids \<and> names rs w j \<or> w = u \<and> (j \<in> set ids \<or> ids = [] \<and> j = [])" for w j
      by (auto simp: res names_def)
    have "named_users (ri_by_user res)" by (rule named_users_given [OF assms(2)]) (use o one(3) rs in auto)
    moreover have "i \<in> set ids \<Longrightarrow> owns (ri_by_user res) v i \<longleftrightarrow> v = u" using o sole_user_names [OF sole] by auto
    ultimately show ?thesis using k sole by (auto simp: res(2) official_owner_def orelse_def res(1) keyed_give keyed_give_all)
  next
    case none
    then have res: "ri_by_user res = ?m" "ri_unassigned res = []"
      by (auto simp: assms(3) resolveAuthoritativeRelations_def Let_def sole_user_def split: if_splits)
    have "named_users (ri_by_user res)" by (rule named_users_given [OF assms(2)]) (auto simp: res names_def)
    then show ?thesis using none k by (simp add: res)
  next
    case many
    then have res: "res = removeAmbiguousIdentities \<lparr>ri_by_user = ?m, ri_unassigned = [], ri_warning = []\<rparr> ids"
      by (auto simp: assms(3) resolveAuthoritativeRelations_def Let_def sole_user_def split: if_splits)
    have by_user: "ri_by_user res = unclaim ids ?m" by (simp add: res ambiguous_by_user)
    have o: "owns (ri_by_user res) w j \<longleftrightarrow> owns ?m w j \<and> (j \<in> set ids \<longrightarrow> claimed_once ?m j)" for w j
      unfolding by_user by (rule unclaim_spec [OF k assms(1)])
    have un: "set (ri_unassigned res) = {j \<in> set ids. \<not> claimed_once ?m j}"
      using ambiguous_unassigned [of "\<lparr>ri_by_user = ?m, ri_unassigned = [], ri_warning = []\<rparr>" ids] k assms(1) by (simp add: res)
    have "named_users (ri_by_user res)" by (rule named_users_given [OF assms(2)]) (auto simp: o names_def)
    moreover have "i \<in> set ids \<Longrightarrow> owns (ri_by_user res) v i \<longleftrightarrow> named_owner rs i = Some v"
      using o claimed_named(2) by auto
    moreover have "set (ri_unassigned res) = {j \<in> set ids. named_owner rs j = None}" using un claimed_named(1) by auto
    ultimately show ?thesis using many(1) unclaim_keyed [OF k] by (simp add: official_owner_def orelse_def by_user)
  qed
  then show "keyed (ri_by_user res)" "named_users (ri_by_user res)"
    "i \<in> set ids \<Longrightarrow> owns (ri_by_user res) v i \<longleftrightarrow> official_owner rs i = Some v"
    "set (ri_unassigned res) = {i \<in> set ids. official_owner rs i = None}" by auto
qed

lemma named_exists: "named_owner M i = Some u \<Longrightarrow> \<exists>r \<in> set M. rl_identity r = i"
  by (auto simp: named_owner_Some names_def)

lemma remaining_spec:
  assumes "\<forall>r \<in> set M. rl_username r \<noteq> []" "keyed (ri_by_user res)" "named_users (ri_by_user res)"
    and own: "\<And>i v. i \<in> set ids \<Longrightarrow> owns (ri_by_user res) v i \<longleftrightarrow> f i = Some v"
    and un: "set (ri_unassigned res) = {i \<in> set ids. f i = None}"
    and "res' = resolveRemainingManualIdentities res M ids"
  shows "keyed (ri_by_user res')"
    "i \<in> set ids \<Longrightarrow> owns (ri_by_user res') v i \<longleftrightarrow> orelse (f i) (named_owner M i) = Some v"
    "set (ri_unassigned res') = {i \<in> set ids. orelse (f i) (named_owner M i) = None}"
proof -
  define r1 where "r1 = foldl (assign_manual M ids) res M"
  note a = assign_manual_fold [OF subset_refl assms(1,2,3) r1_def]
  have res': "ri_by_user res' = ri_by_user r1"
    "set (ri_unassigned res') = set (ri_unassigned r1) \<union> {i \<in> set ids. \<forall>u. \<not> owns (ri_by_user r1) u i}"
    using note_unassigned_fold [of r1 ids] a by (simp_all add: assms(6) resolveRemainingManualIdentities_def r1_def)
  have ad: "adds M ids (ri_by_user res) M i \<longleftrightarrow> f i = None \<and> named_owner M i \<noteq> None" if "i \<in> set ids" for i
    using that own [OF that] named_exists [of M i] by (auto simp: adds_def)
  have o: "owns (ri_by_user r1) v i \<longleftrightarrow> orelse (f i) (named_owner M i) = Some v" if "i \<in> set ids" for i v
    using a ad [OF that] own [OF that] by (auto simp: orelse_def split: option.splits)
  show "keyed (ri_by_user res')" using a by (simp add: res'(1))
  show "owns (ri_by_user res') v i \<longleftrightarrow> orelse (f i) (named_owner M i) = Some v" if "i \<in> set ids" using o [OF that] by (simp add: res'(1))
  have "set (ri_unassigned r1) = {i \<in> set ids. f i = None \<and> \<not> (f i = None \<and> named_owner M i \<noteq> None)}" using a un ad by auto
  moreover have "(\<forall>u. \<not> owns (ri_by_user r1) u i) \<longleftrightarrow> orelse (f i) (named_owner M i) = None" if "i \<in> set ids" for i
    using o [OF that] by (metis not_None_eq)
  ultimately show "set (ri_unassigned res') = {i \<in> set ids. orelse (f i) (named_owner M i) = None}" by (auto simp: res'(2))
qed


lemma one_user_names:
  assumes "length (relation_users rs) = 1" "names rs v i"
  shows "v = hd (relation_users rs)"
proof -
  have "relation_users rs = [hd (relation_users rs)]" using assms(1) by (cases "relation_users rs") auto
  then have "rl_username ` set rs = {hd (relation_users rs)}" by (metis dedup_single relation_users_def set_map)
  then show ?thesis using assms(2) by (auto simp: names_def)
qed

lemma drop_inexact_fold:
  "ri_by_user (foldl drop_inexact res ids) = unclaim ids (ri_by_user res) \<and> ri_unassigned (foldl drop_inexact res ids) = ri_unassigned res"
  unfolding unclaim_def by (induction ids arbitrary: res) (simp_all add: drop_inexact_def Let_def)

lemma manual_spec:
  assumes "distinct ids" "res = resolve_manual M ids"
  shows "keyed (ri_by_user res)"
    "i \<in> set ids \<Longrightarrow> owns (ri_by_user res) v i \<longleftrightarrow> orelse (sole_user M) (named_owner M i) = Some v"
    "set (ri_unassigned res) = (if length (relation_users M) = 1 then {i \<in> set ids. orelse (sole_user M) (named_owner M i) = None} else {})"
proof -
  let ?m = "give_named ids M []" and ?u = "hd (relation_users M)"
  have k: "keyed ?m" by (simp add: keyed_give_named)
  have o: "owns ?m v i \<longleftrightarrow> i \<noteq> [] \<and> names M v i" if "i \<in> set ids" for v i using that by (auto simp: names_def)
  consider (port) "length (relation_users M) = 1" "list_ex (\<lambda>r. rl_identity r = []) M"
    | (named) "length (relation_users M) = 1" "\<not> list_ex (\<lambda>r. rl_identity r = []) M"
    | (none) "length (relation_users M) \<noteq> 1" "ids = []" | (many) "length (relation_users M) \<noteq> 1" "ids \<noteq> []" by blast
  then have "keyed (ri_by_user res)
    \<and> (\<forall>i v. i \<in> set ids \<longrightarrow> owns (ri_by_user res) v i = (orelse (sole_user M) (named_owner M i) = Some v))
    \<and> set (ri_unassigned res) = (if length (relation_users M) = 1 then {i \<in> set ids. orelse (sole_user M) (named_owner M i) = None} else {})"
  proof cases
    case port
    have sole: "sole_user M = Some ?u" using port by (simp add: sole_user_hd)
    have res: "ri_by_user res = (if ids = [] then AList.update ?u (values_of (give_all ?u ids ?m) ?u @ [[]]) (give_all ?u ids ?m) else give_all ?u ids ?m)"
      "ri_unassigned res = []" using port by (simp_all add: assms(2) resolve_manual_def Let_def)
    have "owns (ri_by_user res) v i \<longleftrightarrow> v = ?u" if "i \<in> set ids" for i v
      using that o [OF that] one_user_names [OF port(1)] by (auto simp: res(1))
    then show ?thesis using k sole by (auto simp: res orelse_def keyed_give_all distinct_update)
  next
    case named
    have sole: "sole_user M = None" using named by (simp add: sole_user_def)
    have res: "ri_by_user res = ?m" "ri_unassigned res = filter (\<lambda>i. i \<notin> set (values_of ?m ?u)) ids"
      using named by (simp_all add: assms(2) resolve_manual_def Let_def)
    have own: "owns ?m v i \<longleftrightarrow> named_owner M i = Some v" if "i \<in> set ids" for i v
      unfolding o [OF that] named_owner_Some using one_user_names [OF named(1)] by metis
    have un: "set (ri_unassigned res) = {i \<in> set ids. \<not> owns ?m ?u i}" by (auto simp: res(2) owns_def)
    have "owns ?m ?u i \<longleftrightarrow> named_owner M i \<noteq> None" if "i \<in> set ids" for i
      using own [OF that] o [OF that] one_user_names [OF named(1)] by (metis not_None_eq)
    then have "set (ri_unassigned res) = {i \<in> set ids. named_owner M i = None}" unfolding un by blast
    then show ?thesis using k named(1) sole own unfolding res(1) by simp
  next
    case none
    then show ?thesis using k by (simp add: assms(2) resolve_manual_def Let_def)
  next
    case many
    have sole: "sole_user M = None" using many by (auto simp: sole_user_def)
    have res: "ri_by_user res = unclaim ids ?m" "ri_unassigned res = []"
      using many by (simp_all add: assms(2) resolve_manual_def Let_def drop_inexact_fold)
    have "owns (ri_by_user res) v i \<longleftrightarrow> named_owner M i = Some v" if "i \<in> set ids" for i v
      using that unclaim_spec [OF k assms(1), of v i] claimed_named(2) [OF that, of M v] by (auto simp: res(1))
    then show ?thesis using sole unclaim_keyed [OF k] many(1) by (simp add: res orelse_def)
  qed
  then show "keyed (ri_by_user res)"
    "i \<in> set ids \<Longrightarrow> owns (ri_by_user res) v i \<longleftrightarrow> orelse (sole_user M) (named_owner M i) = Some v"
    "set (ri_unassigned res) = (if length (relation_users M) = 1 then {i \<in> set ids. orelse (sole_user M) (named_owner M i) = None} else {})"
    by blast+
qed

lemma orelse_assoc: "orelse (orelse a b) c = orelse a (orelse b c)"
  by (simp add: orelse_def split: option.split)

text \<open>Whether every identity without an owner is listed: not when several users have only manual relations.\<close>

definition lists_unassigned :: "connectionOwnershipRelation list \<Rightarrow> bool" where
  "lists_unassigned relations \<longleftrightarrow> filter (\<lambda>r. \<not> manual_relation r) relations \<noteq> [] \<or> length (relation_users relations) = 1"

lemma resolve_spec:
  assumes "distinct ids" "\<forall>r \<in> set relations. rl_username r \<noteq> []" "res = resolveRelationIdentities relations ids"
  shows "keyed (ri_by_user res)"
    "i \<in> set ids \<Longrightarrow> owns (ri_by_user res) v i \<longleftrightarrow> identity_owner relations i = Some v"
    "set (ri_unassigned res) = (if lists_unassigned relations then {i \<in> set ids. identity_owner relations i = None} else {})"
proof -
  let ?O = "filter (\<lambda>r. \<not> manual_relation r) relations" and ?M = "filter manual_relation relations"
  have "keyed (ri_by_user res) \<and> (\<forall>i v. i \<in> set ids \<longrightarrow> owns (ri_by_user res) v i = (identity_owner relations i = Some v))
    \<and> set (ri_unassigned res) = (if lists_unassigned relations then {i \<in> set ids. identity_owner relations i = None} else {})"
  proof (cases "?O = []")
    case True
    then have all: "?M = relations" by (auto simp: filter_empty_conv filter_id_conv)
    have owner: "identity_owner relations i = orelse (sole_user relations) (named_owner relations i)" for i
    proof -
      have "named_owner [] i = None" by (simp add: named_owner_def dedup_def)
      then show ?thesis using True all by (simp add: identity_owner_def Let_def)
    qed
    have "res = resolve_manual relations ids" using True all by (simp add: assms(3) resolveRelationIdentities_def Let_def)
    from manual_spec [OF assms(1) this] show ?thesis using True by (simp add: owner lists_unassigned_def)
  next
    case False
    have owner: "identity_owner relations i = orelse (official_owner ?O i) (named_owner ?M i)" for i
      using False by (simp add: identity_owner_def Let_def official_owner_def orelse_assoc)
    define a where "a = resolveAuthoritativeRelations \<lparr>ri_by_user = [], ri_unassigned = [], ri_warning = []\<rparr> ?O ids"
    have names: "\<forall>r \<in> set ?O. rl_username r \<noteq> []" "\<forall>r \<in> set ?M. rl_username r \<noteq> []" using assms(2) by auto
    note au = authoritative_spec [OF assms(1) names(1) a_def]
    have res: "res = resolveRemainingManualIdentities a ?M ids" using False by (simp add: assms(3) resolveRelationIdentities_def Let_def a_def)
    from remaining_spec [OF names(2) au(1,2,3,4) res] show ?thesis using False by (simp add: owner lists_unassigned_def)
  qed
  then show "keyed (ri_by_user res)"
    "i \<in> set ids \<Longrightarrow> owns (ri_by_user res) v i \<longleftrightarrow> identity_owner relations i = Some v"
    "set (ri_unassigned res) = (if lists_unassigned relations then {i \<in> set ids. identity_owner relations i = None} else {})"
    by blast+
qed

text \<open>
  C15: The resolution of an inbound follows one rule: an identity belongs to the only
  user that has the whole inbound, else to the only user an official relation names for
  it, else to the only user a manual relation names for it, else to nobody. Identities
  of nobody are listed as unassigned - unless the inbound has only manual relations of
  several users, where none is.
\<close>

theorem resolution_follows_rule:
  assumes "distinct ids" "\<forall>r \<in> set relations. rl_username r \<noteq> []" "i \<in> set ids"
  shows "owners_of (ri_by_user (resolveRelationIdentities relations ids)) i
      = (case identity_owner relations i of None \<Rightarrow> [] | Some u \<Rightarrow> [u])
    \<and> (i \<in> set (ri_unassigned (resolveRelationIdentities relations ids))
       \<longleftrightarrow> identity_owner relations i = None \<and> lists_unassigned relations)"
proof -
  define res where "res = resolveRelationIdentities relations ids"
  note sp = resolve_spec [OF assms(1,2) res_def]
  have set_eq: "set (owners_of (ri_by_user res) i) = {u. identity_owner relations i = Some u}"
    using owners_set [OF sp(1)] sp(2) [OF assms(3)] by auto
  have "owners_of (ri_by_user res) i = (case identity_owner relations i of None \<Rightarrow> [] | Some u \<Rightarrow> [u])"
  proof (cases "identity_owner relations i")
    case (Some u)
    then have s: "set (owners_of (ri_by_user res) i) = {u}" using set_eq by auto
    then have "length (owners_of (ri_by_user res) i) = 1" using distinct_card [OF owners_distinct [OF sp(1)], of i] by simp
    then show ?thesis using s Some by (cases "owners_of (ri_by_user res) i") auto
  qed (use set_eq in simp)
  then show ?thesis using sp(3) assms(3) by (auto simp: res_def)
qed

text \<open>Two manual users, each named for one identity: the third identity is neither given to anyone nor listed.\<close>

definition sample_manual :: "string \<Rightarrow> string \<Rightarrow> connectionOwnershipRelation" where
  "sample_manual user identity = \<lparr>rl_inbound_tag = ''in'', rl_username = user, rl_identity = identity, rl_source = ''manual'', rl_assignment_type = ''manual''\<rparr>"

lemma manual_identity_lost:
  "let res = resolveRelationIdentities [sample_manual ''x'' ''a'', sample_manual ''y'' ''b''] [''a'', ''b'', ''c'']
   in owners_of (ri_by_user res) ''c'' = [] \<and> ri_unassigned res = []"
  by code_simp

theorem resolution_follows_rule_witness:
  "owners_of (ri_by_user (resolveRelationIdentities [sample_manual ''x'' ''a'', sample_manual ''x'' ''b''] [''a'', ''b'', ''c''])) ''b'' = [''x'']"
proof -
  have "identity_owner [sample_manual ''x'' ''a'', sample_manual ''x'' ''b''] ''b'' = Some ''x''" by code_simp
  moreover have "distinct [''a'', ''b'', ''c'']" "\<forall>r \<in> set [sample_manual ''x'' ''a'', sample_manual ''x'' ''b'']. rl_username r \<noteq> []"
    by (simp_all add: sample_manual_def)
  ultimately show ?thesis
    using resolution_follows_rule [of "[''a'', ''b'', ''c'']" "[sample_manual ''x'' ''a'', sample_manual ''x'' ''b'']" "''b''"] by simp
qed

end
