(* ===== verification/Ownership_View.thy ===== *)
theory Ownership_View
  imports Ownership_Resolve
begin

text \<open>
  The view of a server's connections per management user and port
  (\<open>buildManagementView\<close> of \<open>connection_ownership.go\<close>): the mapping from identities to
  users that the Helper is sent, and the sums over the snapshot.
\<close>

section \<open>Sums\<close>

definition u64 :: "int \<Rightarrow> int" where "u64 x = x mod 2 ^ 64"

definition addServerTCPCounts :: "serverTCPStateCounts \<Rightarrow> serverTCPStateCounts \<Rightarrow> serverTCPStateCounts" where
  "addServerTCPCounts t s =
     t\<lparr>tn_total := i64 (tn_total t + tn_total s),
       tn_established := i64 (tn_established t + tn_established s),
       tn_syn_sent := i64 (tn_syn_sent t + tn_syn_sent s),
       tn_syn_recv := i64 (tn_syn_recv t + tn_syn_recv s),
       tn_fin_wait1 := i64 (tn_fin_wait1 t + tn_fin_wait1 s),
       tn_fin_wait2 := i64 (tn_fin_wait2 t + tn_fin_wait2 s),
       tn_time_wait := i64 (tn_time_wait t + tn_time_wait s),
       tn_close_wait := i64 (tn_close_wait t + tn_close_wait s),
       tn_last_ack := i64 (tn_last_ack t + tn_last_ack s),
       tn_closing := i64 (tn_closing t + tn_closing s),
       tn_close := i64 (tn_close t + tn_close s),
       tn_unknown := i64 (tn_unknown t + tn_unknown s)\<rparr>"

definition zero_counts :: serverTCPStateCounts where
  "zero_counts = \<lparr>tn_total = 0, tn_established = 0, tn_syn_sent = 0, tn_syn_recv = 0, tn_fin_wait1 = 0, tn_fin_wait2 = 0, tn_time_wait = 0, tn_close_wait = 0, tn_last_ack = 0, tn_closing = 0, tn_close = 0, tn_listen = 0, tn_unknown = 0\<rparr>"

definition ip_count :: "serverOnlineIP list \<Rightarrow> string \<Rightarrow> int" where
  "ip_count ips ip = i64 (sum_list (map on_connections (filter (\<lambda>x. on_ip x = ip) ips)))"

definition merge_online_ips :: "serverOnlineIP list \<Rightarrow> serverOnlineIP list \<Rightarrow> serverOnlineIP list" where
  "merge_online_ips a b = map (\<lambda>ip. \<lparr>on_ip = ip, on_connections = ip_count (a @ b) ip\<rparr>) (sorted_unique (map on_ip (a @ b)))"

definition addProxyUserConnections :: "serverProxyUserConnections \<Rightarrow> serverProxyUserConnections \<Rightarrow> serverProxyUserConnections" where
  "addProxyUserConnections t s =
     t\<lparr>px_current_total := i64 (px_current_total t + px_current_total s),
       px_inbound_active := i64 (px_inbound_active t + px_inbound_active s),
       px_inbound_current := i64 (px_inbound_current t + px_inbound_current s),
       px_outbound_active := i64 (px_outbound_active t + px_outbound_active s),
       px_outbound_pending := i64 (px_outbound_pending t + px_outbound_pending s),
       px_outbound_new_rate := i64 (px_outbound_new_rate t + px_outbound_new_rate s),
       px_outbound_new_total := u64 (px_outbound_new_total t + px_outbound_new_total s),
       px_outbound_rejected_total := u64 (px_outbound_rejected_total t + px_outbound_rejected_total s),
       px_rejected_active_limit := u64 (px_rejected_active_limit t + px_rejected_active_limit s),
       px_rejected_new_rate_limit := u64 (px_rejected_new_rate_limit t + px_rejected_new_rate_limit s),
       px_rejected_user_total_limit := u64 (px_rejected_user_total_limit t + px_rejected_user_total_limit s),
       px_rejected_user_combined_limit := u64 (px_rejected_user_combined_limit t + px_rejected_user_combined_limit s),
       px_rejected_port_total_limit := u64 (px_rejected_port_total_limit t + px_rejected_port_total_limit s),
       px_rejected_port_combined_limit := u64 (px_rejected_port_combined_limit t + px_rejected_port_combined_limit s),
       px_rejected_user_new_rate_limit := u64 (px_rejected_user_new_rate_limit t + px_rejected_user_new_rate_limit s),
       px_rejected_port_new_rate_limit := u64 (px_rejected_port_new_rate_limit t + px_rejected_port_new_rate_limit s),
       px_rejected_online_ip_limit := u64 (px_rejected_online_ip_limit t + px_rejected_online_ip_limit s),
       px_rejected_global_total_limit := u64 (px_rejected_global_total_limit t + px_rejected_global_total_limit s),
       px_rejected_user_inbound_limit := u64 (px_rejected_user_inbound_limit t + px_rejected_user_inbound_limit s),
       px_rejected_port_inbound_limit := u64 (px_rejected_port_inbound_limit t + px_rejected_port_inbound_limit s),
       px_rejected_user_online_ip_limit := u64 (px_rejected_user_online_ip_limit t + px_rejected_user_online_ip_limit s),
       px_rejected_port_online_ip_limit := u64 (px_rejected_port_online_ip_limit t + px_rejected_port_online_ip_limit s),
       px_rejected_global_inbound_limit := u64 (px_rejected_global_inbound_limit t + px_rejected_global_inbound_limit s),
       px_inbound_tcp := addServerTCPCounts (px_inbound_tcp t) (px_inbound_tcp s),
       px_outbound_tcp := addServerTCPCounts (px_outbound_tcp t) (px_outbound_tcp s),
       px_inbound_online_ips := merge_online_ips (px_inbound_online_ips t) (px_inbound_online_ips s)\<rparr>"
definition zero_inbound :: serverInboundConnections where
  "zero_inbound = \<lparr>ib_port = 0, ib_inbound_tag = [], ib_protocol = [], ib_user = [], ib_attribution = [], ib_tcp = zero_counts,
     ib_established = 0, ib_syn_recv = 0, ib_fin_wait1 = 0, ib_fin_wait2 = 0, ib_time_wait = 0, ib_close_wait = 0,
     ib_last_ack = 0, ib_closing = 0, ib_online_ip_count = 0, ib_online_ips = [], ib_max_online_ips = None\<rparr>"

definition zero_proxy_user :: serverProxyUserConnections where
  "zero_proxy_user = \<lparr>px_blocked = False, px_rejected_blocked = 0, px_identity = \<lparr>sid_inbound_tag = [], sid_user = []\<rparr>,
     px_inbound_tag = [], px_user = [], px_inbound_port = 0, px_current_total = 0, px_inbound_active = 0,
     px_inbound_current = 0, px_inbound_tcp = zero_counts, px_inbound_online_ips = [], px_outbound_active = 0,
     px_outbound_pending = 0, px_outbound_tcp = zero_counts, px_outbound_new_rate = 0, px_outbound_new_total = 0,
     px_outbound_rejected_total = 0, px_rejected_active_limit = 0, px_rejected_new_rate_limit = 0,
     px_rejected_user_total_limit = 0, px_rejected_user_combined_limit = 0, px_rejected_port_total_limit = 0,
     px_rejected_port_combined_limit = 0, px_rejected_user_new_rate_limit = 0, px_rejected_port_new_rate_limit = 0,
     px_rejected_online_ip_limit = 0, px_rejected_global_total_limit = 0, px_rejected_user_inbound_limit = 0,
     px_rejected_port_inbound_limit = 0, px_rejected_user_online_ip_limit = 0, px_rejected_port_online_ip_limit = 0,
     px_rejected_global_inbound_limit = 0, px_max_inbound_online_ips = None, px_max_total_connections = None,
     px_max_outbound_tcp_active = None, px_max_outbound_tcp_new_per_second = None, px_max_port_outbound_tcp_active = None,
     px_max_port_outbound_tcp_new_per_second = None, px_max_port_inbound_connections = None,
     px_max_port_total_connections = None, px_max_port_inbound_online_ips = None, px_close_wait_timeout_seconds = None,
     px_source = [], px_management_group = []\<rparr>"

definition zero_group :: serverManagementGroupConnections where
  "zero_group = \<lparr>sg_username = [], sg_current_total = 0, sg_inbound_active = 0, sg_inbound_current = 0, sg_inbound_tcp = zero_counts,
     sg_inbound_online_ips = [], sg_outbound_active = 0, sg_outbound_pending = 0, sg_outbound_tcp = zero_counts,
     sg_outbound_new_rate = 0, sg_outbound_new_total = 0, sg_outbound_rejected_total = 0, sg_rejected_user_total_limit = 0,
     sg_rejected_user_combined_limit = 0, sg_rejected_user_new_rate_limit = 0, sg_rejected_port_total_limit = 0,
     sg_rejected_port_combined_limit = 0, sg_rejected_port_new_rate_limit = 0, sg_rejected_online_ip_limit = 0,
     sg_rejected_global_total_limit = 0, sg_rejected_user_inbound_limit = 0, sg_rejected_port_inbound_limit = 0,
     sg_rejected_user_online_ip_limit = 0, sg_rejected_port_online_ip_limit = 0, sg_rejected_global_inbound_limit = 0,
     sg_max_inbound_connections = None, sg_max_total_connections = None, sg_max_inbound_online_ips = None,
     sg_max_outbound_tcp_active = None, sg_max_outbound_tcp_new_per_second = None\<rparr>"

definition emptyServerProxyUserConnections :: "string \<Rightarrow> int \<Rightarrow> serverProxyUserConnections" where
  "emptyServerProxyUserConnections tag port = zero_proxy_user\<lparr>px_inbound_tag := tag, px_inbound_port := port\<rparr>"

definition zero_port_limits :: serverPortConnectionSettings where
  "zero_port_limits = \<lparr>pt_inbound_tag = [], pt_max_total_connections = None, pt_max_inbound_connections = None,
     pt_max_inbound_online_ips = None, pt_max_outbound_tcp_active = None, pt_max_outbound_tcp_new_per_second = None\<rparr>"

definition zero_user_limits :: serverManagementUserSettings where
  "zero_user_limits = \<lparr>gu_username = [], gu_max_total_connections = None, gu_max_inbound_connections = None,
     gu_max_inbound_online_ips = None, gu_max_outbound_tcp_active = None, gu_max_outbound_tcp_new_per_second = None\<rparr>"

section \<open>Users and ports\<close>

text \<open>A map filled in list order: the last entry of a key counts.\<close>

definition last_by :: "('a \<Rightarrow> string) \<Rightarrow> 'a list \<Rightarrow> 'a \<Rightarrow> string \<Rightarrow> 'a" where
  "last_by key xs zero k = (case find (\<lambda>x. key x = k) (rev xs) of None \<Rightarrow> zero | Some x \<Rightarrow> x)"

definition new_user :: "serverManagementGroupConnections list \<Rightarrow> serverConnectionSettings \<Rightarrow> connectionOwnershipRelation \<Rightarrow> serverManagementUser" where
  "new_user groups settings r =
     (let u = rl_username r;
          limit = (last_by gu_username (cn_management_users settings) zero_user_limits u)\<lparr>gu_username := u\<rparr>;
          a = (last_by sg_username groups zero_group u)\<lparr>sg_username := u\<rparr>;
          a' = a\<lparr>sg_max_inbound_connections := orelse (sg_max_inbound_connections a) (gu_max_inbound_connections limit),
                 sg_max_total_connections := orelse (sg_max_total_connections a) (gu_max_total_connections limit),
                 sg_max_inbound_online_ips := orelse (sg_max_inbound_online_ips a) (gu_max_inbound_online_ips limit),
                 sg_max_outbound_tcp_active := orelse (sg_max_outbound_tcp_active a) (gu_max_outbound_tcp_active limit),
                 sg_max_outbound_tcp_new_per_second :=
                   orelse (sg_max_outbound_tcp_new_per_second a) (gu_max_outbound_tcp_new_per_second limit)\<rparr>
      in \<lparr>mu_username = u, mu_source = rl_source r, mu_aggregate = a', mu_limits = limit, mu_ports = []\<rparr>)"

definition new_port :: "serverInboundConnections \<Rightarrow> string \<Rightarrow> serverPortConnectionSettings \<Rightarrow> serverManagementPort" where
  "new_port inbound source limits =
     \<lparr>mq_inbound_tag = ib_inbound_tag inbound, mq_port = ib_port inbound, mq_protocol = ib_protocol inbound, mq_source = source,
      mq_identities = [], mq_manual = [], mq_attributed = False,
      mq_aggregate = emptyServerProxyUserConnections (ib_inbound_tag inbound) (ib_port inbound), mq_limits = limits\<rparr>"

text \<open>The pointer to the port is the port of that tag; \<open>update_port\<close> writes through it.\<close>

definition findOrAppendManagementPort ::
  "serverManagementPort list \<Rightarrow> serverInboundConnections \<Rightarrow> string \<Rightarrow> serverPortConnectionSettings \<Rightarrow> serverManagementPort list" where
  "findOrAppendManagementPort ports inbound source limits =
     (if list_ex (\<lambda>p. mq_inbound_tag p = ib_inbound_tag inbound) ports then ports else ports @ [new_port inbound source limits])"

fun update_port :: "string \<Rightarrow> (serverManagementPort \<Rightarrow> serverManagementPort) \<Rightarrow> serverManagementPort list \<Rightarrow> serverManagementPort list" where
  "update_port tag f [] = []"
| "update_port tag f (p # ps) = (if mq_inbound_tag p = tag then f p # ps else p # update_port tag f ps)"

record view_state =
  vw_users :: "(string \<times> serverManagementUser) list"
  vw_mappings :: "(serverConnectionIdentity \<times> string) list"
  vw_unassigned :: "serverUnassignedPort list"
  vw_warnings :: "string list"

definition put_user :: "serverManagementUser \<Rightarrow> view_state \<Rightarrow> view_state" where
  "put_user user v = v\<lparr>vw_users := AList.update (mu_username user) user (vw_users v)\<rparr>"

definition get_user ::
  "serverManagementGroupConnections list \<Rightarrow> serverConnectionSettings \<Rightarrow> connectionOwnershipRelation \<Rightarrow> view_state \<Rightarrow> serverManagementUser" where
  "get_user groups settings r v =
     (case map_of (vw_users v) (rl_username r) of
        None \<Rightarrow> new_user groups settings r
      | Some user \<Rightarrow> if sourcePriority (mu_source user) < sourcePriority (rl_source r) then user\<lparr>mu_source := rl_source r\<rparr> else user)"

definition port_identity :: "string \<Rightarrow> serverManagementPort \<Rightarrow> serverManagementPort" where
  "port_identity identity p = p\<lparr>mq_identities := appendUniqueString (mq_identities p) identity, mq_attributed := True\<rparr>"

text \<open>One identity given to a user: the mapping and the port, or a warning.\<close>

definition claim_identity :: "string \<Rightarrow> string \<Rightarrow> view_state \<Rightarrow> string \<Rightarrow> view_state" where
  "claim_identity tag u v identity =
     (let key = \<lparr>sid_inbound_tag = tag, sid_user = identity\<rparr>
      in if (case map_of (vw_mappings v) key of None \<Rightarrow> False | Some existing \<Rightarrow> existing \<noteq> u)
         then v\<lparr>vw_warnings := vw_warnings v @ [tag @ ''/'' @ identity @ '' has conflicting management users'']\<rparr>
         else v\<lparr>vw_mappings := AList.update key u (vw_mappings v),
                vw_users := map (\<lambda>(k, user). (k, if k = u then user\<lparr>mu_ports := update_port tag (port_identity identity) (mu_ports user)\<rparr> else user))
                              (vw_users v)\<rparr>)"

definition relation_step ::
  "serverManagementGroupConnections list \<Rightarrow> serverConnectionSettings \<Rightarrow> string \<Rightarrow> serverInboundConnections \<Rightarrow> (string \<times> string list) list
     \<Rightarrow> view_state \<Rightarrow> connectionOwnershipRelation \<Rightarrow> view_state" where
  "relation_step groups settings tag inbound by_user v r =
     (let user = get_user groups settings r v;
          ports = findOrAppendManagementPort (mu_ports user) inbound (rl_source r)
                    (last_by pt_inbound_tag (cn_ports settings) zero_port_limits tag);
          ports' = (if manual_relation r
                    then update_port tag (\<lambda>p. p\<lparr>mq_manual := appendUniqueString (mq_manual p) (rl_identity r)\<rparr>) ports else ports)
      in foldl (claim_identity tag (rl_username r)) (put_user (user\<lparr>mu_ports := ports'\<rparr>) v) (values_of by_user (rl_username r)))"

text \<open>The connections of one runtime entry, added to the port of the user it is mapped to.\<close>

definition add_runtime :: "string \<Rightarrow> serverProxyUserConnections \<Rightarrow> serverManagementUser \<Rightarrow> serverManagementUser" where
  "add_runtime tag rt user =
     user\<lparr>mu_ports := map (\<lambda>p. if mq_inbound_tag p = tag then p\<lparr>mq_aggregate := addProxyUserConnections (mq_aggregate p) rt\<rparr> else p) (mu_ports user)\<rparr>"

definition group_of :: "view_state \<Rightarrow> serverConnectionIdentity \<Rightarrow> string" where
  "group_of v identity = (case map_of (vw_mappings v) identity of None \<Rightarrow> [] | Some g \<Rightarrow> g)"

definition runtime_step :: "string \<Rightarrow> view_state \<Rightarrow> serverProxyUserConnections \<Rightarrow> view_state" where
  "runtime_step tag v rt =
     (let g = group_of v (px_identity rt)
      in if g = [] then v else v\<lparr>vw_users := map (\<lambda>(k, user). (k, if k = g then add_runtime tag rt user else user)) (vw_users v)\<rparr>)"

definition inbound_of :: "serverDetailedConnectionSnapshot \<Rightarrow> string \<Rightarrow> serverInboundConnections" where
  "inbound_of snapshot tag =
     (let ib = last_by ib_inbound_tag (filter (\<lambda>i. ib_inbound_tag i \<noteq> []) (sn_inbounds snapshot)) zero_inbound tag
      in if ib_inbound_tag ib = []
         then ib\<lparr>ib_inbound_tag := tag,
                 ib_port := (case filter (\<lambda>r. px_inbound_tag r = tag) (sn_proxy_users snapshot) of [] \<Rightarrow> ib_port ib | r # _ \<Rightarrow> px_inbound_port r)\<rparr>
         else ib)"

definition runtimes_of :: "serverDetailedConnectionSnapshot \<Rightarrow> string \<Rightarrow> serverProxyUserConnections list" where
  "runtimes_of snapshot tag = filter (\<lambda>r. px_inbound_tag r = tag) (sn_proxy_users snapshot)"

definition relations_of :: "connectionOwnershipData \<Rightarrow> string \<Rightarrow> connectionOwnershipRelation list" where
  "relations_of ownership tag =
     effectiveOwnershipRelations
       (filter (\<lambda>r. rl_inbound_tag r \<noteq> [] \<and> rl_username r \<noteq> [] \<and> rl_inbound_tag r = tag) (od_relations ownership))"

definition unassigned_port :: "string \<Rightarrow> serverInboundConnections \<Rightarrow> string list \<Rightarrow> string \<Rightarrow> serverUnassignedPort" where
  "unassigned_port tag inbound identities reason =
     \<lparr>ua_inbound_tag = tag, ua_port = ib_port inbound, ua_protocol = ib_protocol inbound, ua_identities = identities, ua_reason = reason\<rparr>"

definition tag_step ::
  "serverDetailedConnectionSnapshot \<Rightarrow> serverConnectionSettings \<Rightarrow> connectionOwnershipData \<Rightarrow> view_state \<Rightarrow> string \<Rightarrow> view_state" where
  "tag_step snapshot settings ownership v tag =
     (let inbound = inbound_of snapshot tag; runtimes = runtimes_of snapshot tag; identities = uniqueRuntimeIdentities runtimes;
          relations = relations_of ownership tag
      in if relations = []
         then v\<lparr>vw_unassigned := vw_unassigned v @ [unassigned_port tag inbound identities ''no_binding_owner_or_manual_assignment'']\<rparr>
         else (let resolved = resolveRelationIdentities relations identities;
                   v1 = (if ri_warning resolved \<noteq> [] then v\<lparr>vw_warnings := vw_warnings v @ [tag @ '': '' @ ri_warning resolved]\<rparr> else v);
                   v2 = foldl (relation_step (sn_management_groups snapshot) settings tag inbound (ri_by_user resolved)) v1 relations;
                   v3 = (if ri_unassigned resolved \<noteq> []
                         then v2\<lparr>vw_unassigned := vw_unassigned v2
                                 @ [unassigned_port tag inbound (ri_unassigned resolved) ''manual_identity_assignment_incomplete'']\<rparr> else v2)
               in foldl (runtime_step tag) v3 runtimes))"

definition view_tags :: "serverDetailedConnectionSnapshot \<Rightarrow> string list" where
  "view_tags snapshot =
     sorted_unique (filter (\<lambda>t. t \<noteq> []) (map ib_inbound_tag (sn_inbounds snapshot) @ map px_inbound_tag (sn_proxy_users snapshot)))"

definition view_run ::
  "serverDetailedConnectionSnapshot \<Rightarrow> serverConnectionSettings \<Rightarrow> connectionOwnershipData \<Rightarrow> string list \<Rightarrow> view_state" where
  "view_run snapshot settings ownership tags =
     foldl (tag_step snapshot settings ownership) \<lparr>vw_users = [], vw_mappings = [], vw_unassigned = [], vw_warnings = []\<rparr> tags"

text \<open>The sums of a user over its ports; the other counters stay those of the Core's group.\<close>

definition finish_user :: "serverManagementUser \<Rightarrow> serverManagementUser" where
  "finish_user user =
     (let ports = map (\<lambda>p. p\<lparr>mq_identities := sort (mq_identities p)\<rparr>) (mu_ports user);
          sum = (\<lambda>f. foldl (\<lambda>n p. i64 (n + f (mq_aggregate p))) 0 ports);
          tcp = (\<lambda>f. foldl (\<lambda>c p. addServerTCPCounts c (f (mq_aggregate p))) zero_counts ports)
      in user\<lparr>mu_aggregate := (mu_aggregate user)\<lparr>sg_current_total := sum px_current_total, sg_inbound_current := sum px_inbound_current,
                 sg_inbound_tcp := tcp px_inbound_tcp, sg_outbound_tcp := tcp px_outbound_tcp\<rparr>,
              mu_ports := sort_key (\<lambda>p. (mq_port p, mq_inbound_tag p)) ports\<rparr>)"

definition buildManagementView ::
  "serverDetailedConnectionSnapshot \<Rightarrow> serverConnectionSettings \<Rightarrow> connectionOwnershipData \<Rightarrow> serverManagementView \<times> serverManagementMapping list" where
  "buildManagementView snapshot settings ownership =
     (let v = view_run snapshot settings ownership (view_tags snapshot)
      in (\<lparr>mv_users = map (\<lambda>k. finish_user (the (map_of (vw_users v) k))) (sort (map fst (vw_users v))),
           mv_unassigned = vw_unassigned v, mv_assignable = sort (od_management_users ownership), mv_warnings = vw_warnings v\<rparr>,
          sort_key (\<lambda>m. identity_key (mm_identity m)) (map (\<lambda>(i, g). \<lparr>mm_identity = i, mm_group = g\<rparr>) (vw_mappings v))))"

definition validateManualAssignmentRequest :: "string \<Rightarrow> string \<Rightarrow> string \<Rightarrow> string + connectionOwnershipRelation" where
  "validateManualAssignmentRequest inbound_tag user identity =
     (let r = \<lparr>rl_inbound_tag = trim_space inbound_tag, rl_username = trim_space user, rl_identity = trim_space identity,
               rl_source = connectionSourceManual, rl_assignment_type = ''manual''\<rparr>
      in if rl_inbound_tag r = [] \<or> rl_username r = [] then Inl ''inbound_tag and management_username are required''
         else if 512 < length (rl_inbound_tag r) \<or> 255 < length (rl_username r) \<or> 512 < length (rl_identity r)
           then Inl ''manual assignment is too long''
         else Inr r)"

end
