(* ===== verification/Spec2Isabelle.thy ===== *)
theory Spec2Isabelle
  imports Share_System Reality_Probe Reality_Pin Helper_Credentials Durable_Write Rate_Control Machine_Kernel Counters Desired_State Scan_Guard Guard_Helper User_Limits Egress_Examples Deletion_Retire Ownership_View
begin

text \<open>
  Verification library of mmwx-custom: the controller (\<open>src/*.go\<close>, a Go service beside
  the official panel), the FLVX library that both programs share (\<open>src/internal/flvx\<close>)
  and the Helper that runs on every server (\<open>src/cmd/mmwxc-helper\<close>).

  \<^bold>\<open>How the parts interact.\<close> A user of the panel gets shares of a server. The controller
  builds the desired state of a share (nodes, egress plan, scan guard, user limits),
  validates it with the FLVX library and sends it to the Helper in a signed envelope. The
  Helper validates it again, renders the configuration of the FLVX Core, keeps ports
  guarded, limits rates in the kernel, protects the machine and reports counters, hits and
  connections. The controller attributes the reported connections to users, keeps the
  queue of signed commands for each Helper, upgrades Helpers in batches, repairs the Core
  mode, and plans what a deleted server takes with it.

  \<^bold>\<open>The model of Go.\<close> \<open>Go_Base\<close>, \<open>Go_Text\<close>, \<open>Go_Time\<close>, \<open>Go_Codec\<close>, \<open>Go_Json\<close>, \<open>Go_Net\<close>:
  strings are lists of bytes; \<open>int\<close>, \<open>int64\<close> and \<open>uint64\<close> are integers, with \<open>i64\<close> or
  \<open>mod\<close> written where a value can leave its width; a time is nanoseconds since year 1
  (the zero time is 0) and differences saturate as \<open>time.Sub\<close> does; a pointer is an
  option; a map is a function or an association list with one entry for a key; an error
  is the \<open>Inl\<close> of a sum, or \<open>Some\<close> message of a check. Messages to people are short
  ASCII names of the source's texts. What is not code under \<open>src/\<close> is an argument:
  JSON encoding, HMAC and SHA-256, X.509, random values, the database, the answers of
  tc, nft, ip and the Core, and whether a file could be written.

  \<^bold>\<open>Theories and sources.\<close>

  \<^item> Address sets: \<open>U128\<close>, \<open>Cidr\<close>, \<open>Cidr_Sets\<close> (\<open>internal/flvx/cidr.go\<close>): 128 bit
    arithmetic, sets as canonical range lists, the minimal cover by CIDR blocks; every
    operation is proved equal to the operation on the set of addresses.
  \<^item> \<open>Geo\<close> (\<open>geo.go\<close>): the geoip.dat reader on bytes. \<open>Hosts\<close> (\<open>validate.go\<close>): hosts,
    destinations, key texts. \<open>Flvx_Types\<close>, \<open>Counters\<close> (\<open>types.go\<close>, \<open>node_total.go\<close>,
    \<open>core_limits.go\<close>): objects, signed envelope, counters and the quota month.
  \<^item> \<open>Egress_Plan\<close>, \<open>Egress_Render\<close>, \<open>Egress_Examples\<close> (\<open>egress.go\<close>, \<open>egress_validate.go\<close>,
    \<open>egress_render.go\<close>, \<open>render.go\<close>): what an accepted plan promises, what the Core is told.
  \<^item> \<open>Desired_State\<close> (\<open>validate.go\<close>, \<open>protocols.go\<close>): validation of a share's desired state.
  \<^item> \<open>Scan_Guard\<close> (\<open>scan_guard.go\<close> and the Helper's \<open>flvx_scan_guard.go\<close>), \<open>Guard\<close> and
    \<open>Guard_Helper\<close> (\<open>guard.go\<close>, \<open>flvx_guard.go\<close>), \<open>User_Limits\<close> (\<open>user_limits.go\<close>,
    \<open>flvx_user_limits.go\<close>): state machines of the Helper's passes, with invariants over
    every interleaving.
  \<^item> \<open>Rate_Limiter\<close>, \<open>Rate_Kernel\<close>, \<open>Rate_Control\<close> (\<open>flvx_rate.go\<close>): the batch of \<open>sync\<close>
    refines an abstract kernel of classes and filters. \<open>Machine_Guard\<close>, \<open>Machine_Kernel\<close>
    (\<open>machine_protection.go\<close>): the nft table and what it drops.
  \<^item> \<open>Marking\<close>, \<open>Deletion_Rows\<close>, \<open>Deletion_Chain\<close>, \<open>Deletion_Plan\<close>, \<open>Deletion_Tunnels\<close>,
    \<open>Deletion_Retire\<close> (\<open>server_delete.go\<close>, \<open>server_delete_dependencies.go\<close>): the closure
    over dependent nodes, the augmenting search for chains, the plan.
  \<^item> \<open>Agent_State\<close>, \<open>Helper_Batch\<close>, \<open>Core_Mode\<close>, \<open>Agent_System\<close> (\<open>agent_management.go\<close>,
    \<open>update_progress.go\<close>, \<open>helper_batch.go\<close>, \<open>core_mode.go\<close>): the controller's state of its
    Helpers, each operation a step of one system.
  \<^item> \<open>Connection_Settings\<close>, \<open>Connection_Snapshot\<close>, \<open>Ownership\<close>, \<open>Ownership_Resolve\<close>,
    \<open>Ownership_View\<close> (\<open>connection_control.go\<close>, \<open>connection_ownership.go\<close>,
    \<open>machine_protection.go\<close>): limits, reported connections and whom they belong to.

  \<^bold>\<open>Interfaces.\<close> \<open>invariant_system\<close> of \<open>Go_Base\<close> (an initial condition, a step relation
  and an inductive invariant) is interpreted on every state machine: the scan guard, the
  user budgets, the machine guard, the TIME_WAIT limit and the controller's state of its
  Helpers. \<open>address_sets\<close> of \<open>Cidr_Sets\<close> states the laws of a set of addresses and is
  interpreted on \<open>dualSet\<close>; \<open>marking\<close> of \<open>Marking\<close> states the loop that marks until nothing
  changes and is interpreted on nodes and on tunnels.

  \<^bold>\<open>Bounds and fuel.\<close> Loops over data recurse on it or have a measure. The search of
  \<open>assign_hop\<close> takes the number of servers as fuel, the marking loop of the deletion one
  pass more than there are nodes; both are proved to be enough. The reader of geoip.dat
  recurses on the bytes that are left.

  \<^bold>\<open>Not modelled.\<close> HTTP handlers, routing and the pages (\<open>main.go\<close>, \<open>flvx_api.go\<close>,
  \<open>frontend\<close>), the PostgreSQL stores, the session and channel to the official panel
  (\<open>operator_auth.go\<close>, \<open>official_secure_channel.go\<close>), installers, service files and the
  processes of the operating system (\<open>lifecycle.go\<close>, \<open>takeover.go\<close>,
  \<open>external_ownership.go\<close>): they move data between the operations above and code outside
  the repository, and hold little logic of their own that a model without that code could
  state.
\<close>

end
